(* ===== verification/Prelude.thy ===== *)
theory Prelude
  imports Main
begin

text \<open>
  Shared base of the development.  It fixes how the Python of the trading backend is read:
  an exception is a value of \<^typ>\<open>'a + 'b\<close> (\<open>Inl\<close> the exception), an optional field is
  an \<open>option\<close>, a \<open>timedelta\<close> is an \<open>int\<close> count of microseconds, and a \<open>datetime\<close> is
  an instant in microseconds with or without a time zone.  The theory also holds the decimal
  rendering of integers used in f-strings and the collections of facts the other theories fill.
\<close>

section \<open>Collections\<close>

named_theorems config_simps \<open>evaluation of the state configuration checks\<close>
named_theorems handler_defs \<open>definitions of the transition handlers\<close>
named_theorems helper_defs \<open>definitions of the pure helpers of the handlers\<close>

section \<open>Exceptions\<close>

text \<open>The exception classes raised by the modelled code; messages are not kept.  \<open>BinanceAPIError\<close> has its HTTP status.\<close>

datatype py_error =
    TypeError
  | ValueError
  | RuntimeError
  | InvalidOperation
  | UnsupportedTradingLogicError
  | ContextVersionConflictError
  | TradingContextStateError
  | ContextVersionError
  | ReentrantProcessingError
  | EventQueueCapacityError
  | DivisionByZero
  | FeeAssetReconciliationRequiredError
  | MixedFeeAssetError
  | ExecutionSummaryUnavailableError
  | DuplicateFillConflictError
  | OrderResultConflictError
  | OrderStateTransitionError
  | LegacyFeeAccountingMigrationRequiredError
  | FeeAssetConversionRequiredError
  | InvalidZeroCostBasisError
  | OrderHistoryConflictError
  | TradeHistoryPersistencePendingError
  | KeyError
  | OSError
  | MarketEvaluationCalculationError
  | IndexError
  | BinanceAPIError int
  | BalanceObservationChangedError
  | ResidualBalanceMismatchError
  | ShutdownPreparationBlocked

type_synonym 'a res = "py_error + 'a"

definition ebind :: "'a res \<Rightarrow> ('a \<Rightarrow> 'b res) \<Rightarrow> 'b res" where
  "ebind m f = (case m of Inl e \<Rightarrow> Inl e | Inr x \<Rightarrow> f x)"

text \<open>\<open>require b e\<close> is the statement \<open>if not b: raise e\<close>.\<close>

definition require :: "bool \<Rightarrow> py_error \<Rightarrow> unit res" where
  "require b e = (if b then Inr () else Inl e)"

lemma ebind_Inr [simp]: "ebind (Inr x) f = f x"
  by (simp add: ebind_def)

lemma ebind_Inl [simp]: "ebind (Inl e) f = Inl e"
  by (simp add: ebind_def)

lemma ebind_assoc: "ebind (ebind m f) g = ebind m (\<lambda>x. ebind (f x) g)"
  by (cases m) simp_all

lemma ebind_eq_Inr: "ebind m f = Inr y \<longleftrightarrow> (\<exists>x. m = Inr x \<and> f x = Inr y)"
  by (cases m) auto

lemma ebind_eq_Inl: "ebind m f = Inl e \<longleftrightarrow> m = Inl e \<or> (\<exists>x. m = Inr x \<and> f x = Inl e)"
  by (cases m) auto

lemma ebind_cong [fundef_cong]:
  assumes "m = n" and "\<And>x. n = Inr x \<Longrightarrow> f x = g x"
  shows "ebind m f = ebind n g"
  using assms by (cases m) auto

lemma require_True [simp]: "require True e = Inr ()"
  by (simp add: require_def)

lemma require_False [simp]: "require False e = Inl e"
  by (simp add: require_def)

lemma require_eq_Inr [simp]: "require b e = Inr u \<longleftrightarrow> b"
  by (simp add: require_def)

lemma require_eq_Inl [simp]: "require b e = Inl e' \<longleftrightarrow> \<not> b \<and> e' = e"
  by (auto simp: require_def)

section \<open>Optional strings and truth values\<close>

text \<open>Python's truth value of a \<open>str | None\<close>: \<open>None\<close> and the empty string are false.\<close>

definition truthy :: "string option \<Rightarrow> bool" where
  "truthy x \<longleftrightarrow> (case x of None \<Rightarrow> False | Some s \<Rightarrow> s \<noteq> [])"

text \<open>The operator \<open>a or b\<close> on optional strings.\<close>

definition py_or :: "string option \<Rightarrow> string option \<Rightarrow> string option" where
  "py_or a b = (if truthy a then a else b)"

text \<open>\<open>a or b\<close> with a plain string on the right.\<close>

definition py_or_str :: "string option \<Rightarrow> string \<Rightarrow> string" where
  "py_or_str a b = (case a of None \<Rightarrow> b | Some s \<Rightarrow> if s = [] then b else s)"

lemma truthy_simps [simp]:
  "truthy None = False" "truthy (Some s) = (s \<noteq> [])"
  by (simp_all add: truthy_def)

lemma py_or_simps [simp]:
  "py_or None b = b" "py_or (Some []) b = b" "py_or (Some (x # xs)) b = Some (x # xs)"
  by (simp_all add: py_or_def)

lemma py_or_str_simps [simp]:
  "py_or_str None b = b" "py_or_str (Some []) b = b" "py_or_str (Some (x # xs)) b = x # xs"
  by (simp_all add: py_or_str_def)

lemma py_or_str_truthy: "truthy a \<Longrightarrow> py_or_str a b = the a"
  by (cases a) (auto simp: py_or_str_def)

lemma py_or_str_not_truthy: "\<not> truthy a \<Longrightarrow> py_or_str a b = b"
  by (cases a) (auto simp: py_or_str_def)

text \<open>Formatting an optional string in an f-string prints \<open>None\<close> for a missing value.\<close>

definition show_opt :: "string option \<Rightarrow> string" where
  "show_opt x = (case x of None \<Rightarrow> ''None'' | Some s \<Rightarrow> s)"

section \<open>Integers in f-strings\<close>

definition digit_char :: "nat \<Rightarrow> char" where
  "digit_char d = char_of (48 + d)"

fun show_nat :: "nat \<Rightarrow> string" where
  "show_nat n = (if n < 10 then [digit_char n] else show_nat (n div 10) @ [digit_char (n mod 10)])"

declare show_nat.simps [simp del]

definition show_int :: "int \<Rightarrow> string" where
  "show_int i = (if i < 0 then CHR ''-'' # show_nat (nat (- i)) else show_nat (nat i))"

definition digit_value :: "char \<Rightarrow> nat" where
  "digit_value c = of_char c - 48"

definition read_nat :: "string \<Rightarrow> nat" where
  "read_nat s = foldl (\<lambda>a c. 10 * a + digit_value c) 0 s"

lemma digit_value_char: "d < 10 \<Longrightarrow> digit_value (digit_char d) = d"
  by (simp add: digit_value_def digit_char_def)

lemma read_show_nat [simp]: "read_nat (show_nat n) = n"
proof (induction n rule: show_nat.induct)
  case (1 n)
  show ?case
  proof (cases "n < 10")
    case True
    then show ?thesis by (subst show_nat.simps) (simp add: read_nat_def digit_value_char)
  next
    case False
    with "1.IH" have "read_nat (show_nat (n div 10)) = n div 10" by simp
    with False show ?thesis
      by (subst show_nat.simps) (simp add: read_nat_def digit_value_char)
  qed
qed

lemma show_nat_inject: "show_nat m = show_nat n \<longleftrightarrow> m = n"
  by (metis read_show_nat)

lemma show_nat_nonempty [simp]: "show_nat n \<noteq> []"
  by (subst show_nat.simps) simp

lemma show_int_nonneg_inject: "0 \<le> i \<Longrightarrow> 0 \<le> j \<Longrightarrow> show_int i = show_int j \<longleftrightarrow> i = j"
  by (auto simp: show_int_def show_nat_inject)

section \<open>Time\<close>

text \<open>A \<open>datetime\<close>: an instant in microseconds, or a naive one, which the code rejects.\<close>

datatype timestamp = Aware int | Naive int

definition is_aware :: "timestamp \<Rightarrow> bool" where
  "is_aware t \<longleftrightarrow> (case t of Aware _ \<Rightarrow> True | Naive _ \<Rightarrow> False)"

definition opt_aware :: "timestamp option \<Rightarrow> bool" where
  "opt_aware t \<longleftrightarrow> (case t of None \<Rightarrow> True | Some u \<Rightarrow> is_aware u)"

lemma is_aware_simps [simp]: "is_aware (Aware i)" "\<not> is_aware (Naive i)"
  by (simp_all add: is_aware_def)

lemma opt_aware_simps [simp]: "opt_aware None" "opt_aware (Some t) = is_aware t"
  by (simp_all add: opt_aware_def)

text \<open>A \<open>timedelta\<close> in microseconds.\<close>

type_synonym timedelta = int

end
