(* ===== verification/Py_Decimal.thy ===== *)
theory Py_Decimal
  imports Complex_Main Prelude
begin

text \<open>
  Python's \<open>decimal.Decimal\<close> as far as the domain code uses it, under the default context
  (28 significant digits, round half even).  A finite value is its rational number; negative
  zero is kept apart because \<open>is_signed\<close> sees it; the infinities and the quiet NaN are
  the remaining values.  Overflow and underflow of the exponent range \<open>\<plusminus> 999999\<close> and
  signalling NaNs are outside the model.
\<close>

datatype decimal = Fin rat | NegZero | PosInf | NegInf | NaN

definition dzero :: decimal where
  "dzero = Fin 0"

fun is_finite :: "decimal \<Rightarrow> bool" where
  "is_finite (Fin r) = True"
| "is_finite NegZero = True"
| "is_finite PosInf = False"
| "is_finite NegInf = False"
| "is_finite NaN = False"

text \<open>The number of a finite value.\<close>

fun dval :: "decimal \<Rightarrow> rat" where
  "dval (Fin r) = r"
| "dval NegZero = 0"
| "dval PosInf = 0"
| "dval NegInf = 0"
| "dval NaN = 0"

fun is_signed :: "decimal \<Rightarrow> bool" where
  "is_signed (Fin r) = (r < 0)"
| "is_signed NegZero = True"
| "is_signed PosInf = False"
| "is_signed NegInf = True"
| "is_signed NaN = False"

text \<open>Numeric order.  With a NaN operand Python raises \<open>InvalidOperation\<close>; here it is false.\<close>

fun dle :: "decimal \<Rightarrow> decimal \<Rightarrow> bool" where
  "dle NaN y = False"
| "dle x NaN = False"
| "dle NegInf y = True"
| "dle x PosInf = True"
| "dle PosInf y = False"
| "dle x NegInf = False"
| "dle x y = (dval x \<le> dval y)"

fun dlt :: "decimal \<Rightarrow> decimal \<Rightarrow> bool" where
  "dlt NaN y = False"
| "dlt x NaN = False"
| "dlt x NegInf = False"
| "dlt NegInf y = True"
| "dlt PosInf y = False"
| "dlt x PosInf = True"
| "dlt x y = (dval x < dval y)"

text \<open>The raising comparisons, for operands the code has not filtered.\<close>

definition dlt_checked :: "decimal \<Rightarrow> decimal \<Rightarrow> bool res" where
  "dlt_checked x y = (if x = NaN \<or> y = NaN then Inl InvalidOperation else Inr (dlt x y))"

definition dle_checked :: "decimal \<Rightarrow> decimal \<Rightarrow> bool res" where
  "dle_checked x y = (if x = NaN \<or> y = NaN then Inl InvalidOperation else Inr (dle x y))"

text \<open>Python's \<open>==\<close> identifies the two zeros; snapshots are compared after \<open>dnorm\<close>.\<close>

fun dnorm :: "decimal \<Rightarrow> decimal" where
  "dnorm NegZero = Fin 0"
| "dnorm (Fin r) = Fin r"
| "dnorm PosInf = PosInf"
| "dnorm NegInf = NegInf"
| "dnorm NaN = NaN"

lemma dle_finite [simp]: "is_finite x \<Longrightarrow> is_finite y \<Longrightarrow> dle x y \<longleftrightarrow> dval x \<le> dval y"
  by (cases x; cases y) simp_all

lemma dlt_finite [simp]: "is_finite x \<Longrightarrow> is_finite y \<Longrightarrow> dlt x y \<longleftrightarrow> dval x < dval y"
  by (cases x; cases y) simp_all

lemma dlt_checked_finite [simp]:
  "is_finite x \<Longrightarrow> is_finite y \<Longrightarrow> dlt_checked x y = Inr (dval x < dval y)"
  by (cases x; cases y) (simp_all add: dlt_checked_def)

lemma dnorm_idem [simp]: "dnorm (dnorm x) = dnorm x"
  by (cases x) simp_all

lemma dval_dnorm [simp]: "dval (dnorm x) = dval x"
  by (cases x) simp_all

lemma is_finite_dnorm [simp]: "is_finite (dnorm x) = is_finite x"
  by (cases x) simp_all

lemma is_finite_not_NaN [simp]: "is_finite x \<Longrightarrow> x \<noteq> NaN"
  by (cases x) simp_all

section \<open>Rounding to 28 significant digits\<close>

fun digits :: "nat \<Rightarrow> nat" where
  "digits n = (if n < 10 then 1 else Suc (digits (n div 10)))"

declare digits.simps [simp del]

definition pow10 :: "int \<Rightarrow> rat" where
  "pow10 e = (if 0 \<le> e then 10 ^ nat e else 1 / 10 ^ nat (- e))"

definition round_half_even :: "rat \<Rightarrow> int" where
  "round_half_even x =
     (let f = \<lfloor>x\<rfloor>; d = x - of_int f in
      if d < 1/2 then f else if d > 1/2 then f + 1 else if even f then f else f + 1)"

text \<open>The exponent \<open>e\<close> with \<open>10 ^ 27 \<le> \<bar>r\<bar> / 10 ^ e < 10 ^ 28\<close>.\<close>

definition dec_exponent :: "rat \<Rightarrow> int" where
  "dec_exponent r =
     (let (p, q) = quotient_of \<bar>r\<bar>;
          e = int (digits (nat p)) - int (digits (nat q)) - 28
      in if 10 ^ 28 \<le> \<bar>r\<bar> / pow10 e then e + 1 else e)"

definition round28 :: "rat \<Rightarrow> rat" where
  "round28 r = (if r = 0 then 0
     else of_int (round_half_even (r / pow10 (dec_exponent r))) * pow10 (dec_exponent r))"

lemma digits_bounds:
  assumes "0 < n"
  shows "10 ^ (digits n - 1) \<le> n \<and> n < 10 ^ digits n"
  using assms
proof (induction n rule: digits.induct)
  case (1 n)
  show ?case
  proof (cases "n < 10")
    case True
    with "1.prems" show ?thesis by (simp add: digits.simps [of n])
  next
    case False
    define k where "k = digits (n div 10)"
    have pos: "0 < k" by (simp add: k_def digits.simps [of "n div 10"])
    from False "1.IH" have "10 ^ (k - 1) \<le> n div 10 \<and> n div 10 < 10 ^ k"
      unfolding k_def by simp
    then have "10 * 10 ^ (k - 1) \<le> n \<and> n < 10 * 10 ^ k" by linarith
    with pos False show ?thesis
      by (simp add: digits.simps [of n] k_def [symmetric] power_eq_if)
  qed
qed

lemma digits_pos [simp]: "0 < digits n"
  by (subst digits.simps) simp

lemma nat_pow10_le: "0 < p \<Longrightarrow> 10 ^ k \<le> nat p \<longleftrightarrow> (10::rat) ^ k \<le> of_int p"
proof -
  assume "0 < p"
  then have "10 ^ k \<le> nat p \<longleftrightarrow> (10::int) ^ k \<le> p"
    by (simp add: le_nat_iff)
  also have "\<dots> \<longleftrightarrow> (of_int (10 ^ k) :: rat) \<le> of_int p" by (simp only: of_int_le_iff)
  finally show ?thesis by simp
qed

lemma nat_pow10_less: "0 < p \<Longrightarrow> nat p < 10 ^ k \<longleftrightarrow> of_int p < (10::rat) ^ k"
  using nat_pow10_le [of p k] by (simp add: not_le [symmetric])

lemma pow10_pos [simp]: "0 < pow10 e"
  by (simp add: pow10_def)

lemma pow10_nonzero [simp]: "pow10 e \<noteq> 0"
  using pow10_pos [of e] by linarith

lemma abs_pow10 [simp]: "\<bar>pow10 e\<bar> = pow10 e"
  using pow10_pos [of e] by linarith

lemma pow10_powi: "pow10 e = 10 powi e"
  by (simp add: pow10_def power_int_def inverse_eq_divide power_one_over)

lemma pow10_add: "pow10 (a + b) = pow10 a * pow10 b"
  by (simp add: pow10_powi power_int_add)

lemma pow10_diff: "pow10 (a - b) = pow10 a / pow10 b"
  by (simp add: pow10_powi power_int_diff)

lemma pow10_Suc: "pow10 (e + 1) = pow10 e * 10"
proof -
  have "pow10 1 = 10" by (simp add: pow10_def)
  then show ?thesis by (simp only: pow10_add)
qed

lemma pow10_nat: "pow10 (int n) = 10 ^ n"
  by (simp add: pow10_def)

lemma dec_exponent_bounds:
  assumes "r \<noteq> 0"
  shows "10 ^ 27 \<le> \<bar>r\<bar> / pow10 (dec_exponent r) \<and> \<bar>r\<bar> / pow10 (dec_exponent r) < 10 ^ 28"
proof -
  obtain p q where pq: "quotient_of \<bar>r\<bar> = (p, q)" by fastforce
  have q: "0 < q" and r: "\<bar>r\<bar> = of_int p / of_int q"
    using quotient_of_denom_pos [OF pq] quotient_of_div [OF pq] by auto
  have "0 < (of_int p :: rat) / of_int q" using assms r by (metis zero_less_abs_iff)
  with q have p: "0 < p" by (simp add: zero_less_divide_iff)
  define a b where "a = digits (nat p)" and "b = digits (nat q)"
  have ab: "0 < a" "0 < b" by (simp_all add: a_def b_def)
  have "10 ^ (a - 1) \<le> nat p \<and> nat p < 10 ^ a"
    unfolding a_def by (rule digits_bounds) (use p in simp)
  then have pl: "(10::rat) ^ (a - 1) \<le> of_int p" and pu: "of_int p < (10::rat) ^ a"
    using p by (auto simp: nat_pow10_le nat_pow10_less)
  have "10 ^ (b - 1) \<le> nat q \<and> nat q < 10 ^ b"
    unfolding b_def by (rule digits_bounds) (use q in simp)
  then have ql: "(10::rat) ^ (b - 1) \<le> of_int q" and qu: "of_int q < (10::rat) ^ b"
    using q by (auto simp: nat_pow10_le nat_pow10_less)
  define e where "e = int a - int b - 28"
  have lo: "pow10 (int a - 1) / pow10 (int b) < \<bar>r\<bar>"
  proof -
    have "pow10 (int a - 1) = 10 ^ (a - 1)" using ab by (simp add: pow10_def nat_diff_distrib)
    moreover have "pow10 (int b) = 10 ^ b" by (simp add: pow10_nat)
    ultimately show ?thesis
      unfolding r using pl qu q by (intro frac_less2) auto
  qed
  have hi: "\<bar>r\<bar> < pow10 (int a) / pow10 (int b - 1)"
  proof -
    have "pow10 (int b - 1) = 10 ^ (b - 1)" using ab by (simp add: pow10_def nat_diff_distrib)
    moreover have "pow10 (int a) = 10 ^ a" by (simp add: pow10_nat)
    ultimately show ?thesis
      unfolding r using pu ql q p by (intro frac_less) auto
  qed
  have e27: "pow10 (int a - 1) / pow10 (int b) = pow10 e * 10 ^ 27"
    unfolding e_def by (simp add: pow10_powi power_int_diff)
  have e29: "pow10 (int a) / pow10 (int b - 1) = pow10 e * 10 ^ 29"
    unfolding e_def by (simp add: pow10_powi power_int_diff)
  have s: "10 ^ 27 < \<bar>r\<bar> / pow10 e" "\<bar>r\<bar> / pow10 e < 10 ^ 29"
    using lo hi unfolding e27 e29 by (simp_all add: field_simps)
  have exp: "dec_exponent r = (if 10 ^ 28 \<le> \<bar>r\<bar> / pow10 e then e + 1 else e)"
    unfolding dec_exponent_def pq e_def a_def b_def by simp
  show ?thesis
  proof (cases "10 ^ 28 \<le> \<bar>r\<bar> / pow10 e")
    case True
    have "pow10 (e + 1) = pow10 e * 10" by (rule pow10_Suc)
    then have step: "\<bar>r\<bar> / pow10 (e + 1) = \<bar>r\<bar> / pow10 e / 10"
      by (simp only: divide_divide_eq_left)
    have "10 ^ 27 \<le> t / 10 \<and> t / 10 < 10 ^ 28" if "10 ^ 28 \<le> t" "t < 10 ^ 29" for t :: rat
      using that by simp
    from this [OF True s(2)] have "10 ^ 27 \<le> \<bar>r\<bar> / pow10 (e + 1) \<and> \<bar>r\<bar> / pow10 (e + 1) < 10 ^ 28"
      by (simp only: step)
    with True exp show ?thesis by simp
  next
    case False
    with s exp show ?thesis by simp
  qed
qed

lemma round_half_even_of_int [simp]: "round_half_even (of_int i) = i"
  by (simp add: round_half_even_def)

lemma round_half_even_error: "\<bar>of_int (round_half_even x) - x\<bar> \<le> 1/2"
proof -
  have "0 \<le> x - of_int \<lfloor>x\<rfloor>" "x - of_int \<lfloor>x\<rfloor> < 1" by linarith+
  then show ?thesis unfolding round_half_even_def Let_def by auto
qed

lemma round28_error:
  assumes "r \<noteq> 0"
  shows "\<bar>round28 r - r\<bar> \<le> pow10 (dec_exponent r) / 2"
proof -
  define e x where "e = dec_exponent r" and "x = r / pow10 e"
  have "round28 r - r = (of_int (round_half_even x) - x) * pow10 e"
    using assms by (simp add: round28_def e_def x_def algebra_simps)
  then have "\<bar>round28 r - r\<bar> = \<bar>of_int (round_half_even x) - x\<bar> * pow10 e"
    by (simp add: abs_mult)
  also have "\<dots> \<le> 1/2 * pow10 e"
    by (intro mult_right_mono round_half_even_error) (simp add: less_imp_le)
  finally show ?thesis by (simp add: e_def)
qed

text \<open>The relative error of one rounded operation is at most \<open>5 \<cdot> 10 ^ -28\<close>.\<close>

lemma round28_relative: "\<bar>round28 r - r\<bar> \<le> \<bar>r\<bar> / (2 * 10 ^ 27)"
proof (cases "r = 0")
  case True
  then show ?thesis by (simp add: round28_def)
next
  case False
  from dec_exponent_bounds [OF False] have "10 ^ 27 * pow10 (dec_exponent r) \<le> \<bar>r\<bar>"
    by (simp add: field_simps)
  with round28_error [OF False] show ?thesis by (simp add: field_simps)
qed

text \<open>A value of at most 28 significant digits is not changed.\<close>

lemma round28_exact:
  assumes "r = of_int c * pow10 e" and "\<bar>c\<bar> < 10 ^ 28"
  shows "round28 r = r"
proof (cases "r = 0")
  case True
  then show ?thesis by (simp add: round28_def)
next
  case False
  define k where "k = dec_exponent r"
  have "pow10 k * 10 ^ 27 \<le> \<bar>r\<bar>"
    using dec_exponent_bounds [OF False] by (simp add: k_def field_simps)
  also have "\<bar>r\<bar> < 10 ^ 28 * pow10 e"
  proof -
    have "\<bar>of_int c :: rat\<bar> < 10 ^ 28"
      using assms(2) by (metis of_int_abs of_int_less_iff of_int_numeral of_int_power)
    then show ?thesis by (simp add: assms(1) abs_mult)
  qed
  finally have "pow10 k < pow10 (e + 1)"
    by (simp only: pow10_Suc) simp
  then have "(10::rat) powi k < 10 powi (e + 1)"
    by (simp only: pow10_powi)
  then have "k < e + 1"
    using power_int_increasing [of "e + 1" k "10::rat"] by (meson linorder_not_le one_le_numeral)
  then have "k \<le> e" by simp
  then obtain n where n: "e = k + int n" by (metis zle_iff_zadd)
  have "r / pow10 k = of_int (c * 10 ^ n)"
    by (simp add: assms(1) n pow10_add pow10_nat)
  then show ?thesis
    using False by (simp only: round28_def k_def [symmetric] round_half_even_of_int)
      (metis k_def nonzero_eq_divide_eq pow10_nonzero)
qed

section \<open>Arithmetic\<close>

text \<open>The sign of a zero product is the exclusive or of the operands' signs.\<close>

definition dec_of :: "bool \<Rightarrow> rat \<Rightarrow> decimal" where
  "dec_of neg r = (if r = 0 \<and> neg then NegZero else Fin r)"

fun dmul :: "decimal \<Rightarrow> decimal \<Rightarrow> decimal res" where
  "dmul NaN y = Inr NaN"
| "dmul x NaN = Inr NaN"
| "dmul x y =
     (if is_finite x \<and> is_finite y
      then Inr (dec_of (is_signed x \<noteq> is_signed y) (round28 (dval x * dval y)))
      else if (is_finite x \<and> dval x = 0) \<or> (is_finite y \<and> dval y = 0)
      then Inl InvalidOperation
      else Inr (if is_signed x \<noteq> is_signed y then NegInf else PosInf))"

fun dadd :: "decimal \<Rightarrow> decimal \<Rightarrow> decimal res" where
  "dadd NaN y = Inr NaN"
| "dadd x NaN = Inr NaN"
| "dadd x y =
     (if is_finite x \<and> is_finite y
      then Inr (dec_of (x = NegZero \<and> y = NegZero) (round28 (dval x + dval y)))
      else if is_finite x then Inr y
      else if is_finite y \<or> x = y then Inr x
      else Inl InvalidOperation)"

fun dneg :: "decimal \<Rightarrow> decimal" where
  "dneg (Fin r) = (if r = 0 then NegZero else Fin (- r))"
| "dneg NegZero = Fin 0"
| "dneg PosInf = NegInf"
| "dneg NegInf = PosInf"
| "dneg NaN = NaN"

definition dsub :: "decimal \<Rightarrow> decimal \<Rightarrow> decimal res" where
  "dsub x y = dadd x (dneg y)"

lemma is_finite_dec_of [simp]: "is_finite (dec_of b r)"
  by (simp add: dec_of_def)

lemma dval_dec_of [simp]: "dval (dec_of b r) = r"
  by (simp add: dec_of_def)

lemma dneg_finite [simp]: "is_finite (dneg x) = is_finite x" "dval (dneg x) = - dval x"
  by (cases x; simp)+

lemma dmul_finite:
  "is_finite x \<Longrightarrow> is_finite y \<Longrightarrow>
   \<exists>z. dmul x y = Inr z \<and> is_finite z \<and> dval z = round28 (dval x * dval y)"
  by (cases x; cases y) (simp_all)

lemma dadd_finite:
  "is_finite x \<Longrightarrow> is_finite y \<Longrightarrow>
   \<exists>z. dadd x y = Inr z \<and> is_finite z \<and> dval z = round28 (dval x + dval y)"
  by (cases x; cases y) (simp_all)

lemma dsub_finite:
  "is_finite x \<Longrightarrow> is_finite y \<Longrightarrow>
   \<exists>z. dsub x y = Inr z \<and> is_finite z \<and> dval z = round28 (dval x - dval y)"
  using dadd_finite [of x "dneg y"] by (simp add: dsub_def)

text \<open>\<open>min\<close> of a non-empty sequence: the first smallest element.\<close>

fun dmin :: "decimal \<Rightarrow> decimal list \<Rightarrow> decimal" where
  "dmin x [] = x"
| "dmin x (y # ys) = dmin (if dlt y x then y else x) ys"

lemma dmin_finite: "is_finite x \<Longrightarrow> \<forall>y\<in>set ys. is_finite y \<Longrightarrow> is_finite (dmin x ys)"
  by (induction ys arbitrary: x) auto

lemma dmin_le:
  "is_finite x \<Longrightarrow> \<forall>y\<in>set ys. is_finite y \<Longrightarrow>
   dval (dmin x ys) \<le> dval x \<and> (\<forall>y\<in>set ys. dval (dmin x ys) \<le> dval y)"
proof (induction ys arbitrary: x)
  case Nil
  then show ?case by simp
next
  case (Cons y ys)
  define m where "m = (if dlt y x then y else x)"
  have m: "is_finite m" "dval m \<le> dval x" "dval m \<le> dval y"
    using Cons.prems by (auto simp: m_def)
  have "dmin x (y # ys) = dmin m ys" by (simp add: m_def)
  moreover have "dval (dmin m ys) \<le> dval m \<and> (\<forall>y\<in>set ys. dval (dmin m ys) \<le> dval y)"
    using Cons.prems m(1) by (intro Cons.IH) auto
  ultimately show ?case using m(2,3) by auto
qed

end
