(* ===== verification/Trading_States.thy ===== *)
theory Trading_States
  imports Prelude
begin

text \<open>
  The state configuration of the trading state machine
  (\<open>domain/trading/states.py\<close>, \<open>domain/common/enums.py\<close>): the enumerations, the record
  of the root state and the three parallel regions, and the check its constructor makes.
\<close>

section \<open>Enumerations\<close>

datatype regime_type = TYPE_0 | TYPE_1 | TYPE_2 | TYPE_3 | TYPE_4

datatype root_state =
  NOT_STARTED | LOWER_TOUCH_WATCH | TRADE_MANAGEMENT | STOPPING | LOGIC_TERMINATED

datatype ownership_state =
  NO_POSITION | CASE_B_POSITION_MANAGEMENT | CASE_C_POSITION_MANAGEMENT

datatype case_b_signal_state =
  B_WAIT_TOUCH | B_WAIT_SIGNAL | B_WAIT_PULLBACK | B_POSITION_OPEN_SIGNALLED | CASE_B_FINAL_STATE

datatype case_c_signal_state =
  C_WAIT_SETUP | C_SETUP | C_POSITION_OPEN_SIGNALLED | CASE_C_FINAL_STATE

datatype case_b_position_state = CASE_B_HOLDING | CASE_B_TREND_HOLD | CASE_B_CLOSED

datatype case_c_position_state =
  CASE_C_HOLDING | CASE_C_TP_TRAILING | CASE_C_CLOSED | CASE_C_RECOVERY_SUCCEEDED

datatype strategy_type = CASE_B | CASE_C

datatype order_side = BUY | SELL

datatype order_attempt_kind = INITIAL | RETRY

datatype trading_phase =
    IDLE
  | ENTRY_ORDER_PENDING
  | EXIT_ORDER_PENDING
  | PHASE_STOPPING
  | RECONCILIATION_REQUIRED
  | TERMINATED

datatype exit_reason =
    EMERGENCY_STOP
  | STOP
  | FORCE_SELL
  | TIME
  | TAKE_PROFIT
  | TREND_HOLD
  | TP_TRAIL
  | TP_FALLBACK
  | EXTERNAL_MANUAL

datatype position_return_state =
    RETURN_CASE_B_HOLDING
  | RETURN_CASE_B_TREND_HOLD
  | RETURN_CASE_C_HOLDING
  | RETURN_CASE_C_TP_TRAILING

text \<open>
  The enumerations mix \<open>str\<close> and \<open>Enum\<close>; since Python 3.11 an f-string prints such a
  member as \<open>Class.MEMBER\<close>.
\<close>

fun show_strategy :: "strategy_type \<Rightarrow> string" where
  "show_strategy CASE_B = ''StrategyType.CASE_B''"
| "show_strategy CASE_C = ''StrategyType.CASE_C''"

fun show_exit_reason :: "exit_reason \<Rightarrow> string" where
  "show_exit_reason EMERGENCY_STOP = ''ExitReason.EMERGENCY_STOP''"
| "show_exit_reason STOP = ''ExitReason.STOP''"
| "show_exit_reason FORCE_SELL = ''ExitReason.FORCE_SELL''"
| "show_exit_reason TIME = ''ExitReason.TIME''"
| "show_exit_reason TAKE_PROFIT = ''ExitReason.TAKE_PROFIT''"
| "show_exit_reason TREND_HOLD = ''ExitReason.TREND_HOLD''"
| "show_exit_reason TP_TRAIL = ''ExitReason.TP_TRAIL''"
| "show_exit_reason TP_FALLBACK = ''ExitReason.TP_FALLBACK''"
| "show_exit_reason EXTERNAL_MANUAL = ''ExitReason.EXTERNAL_MANUAL''"

text \<open>The \<open>value\<close> of the position states, compared with the value of a return state.\<close>

fun b_position_value :: "case_b_position_state \<Rightarrow> string" where
  "b_position_value CASE_B_HOLDING = ''CASE_B_HOLDING''"
| "b_position_value CASE_B_TREND_HOLD = ''CASE_B_TREND_HOLD''"
| "b_position_value CASE_B_CLOSED = ''CASE_B_CLOSED''"

fun c_position_value :: "case_c_position_state \<Rightarrow> string" where
  "c_position_value CASE_C_HOLDING = ''CASE_C_HOLDING''"
| "c_position_value CASE_C_TP_TRAILING = ''CASE_C_TP_TRAILING''"
| "c_position_value CASE_C_CLOSED = ''CASE_C_CLOSED''"
| "c_position_value CASE_C_RECOVERY_SUCCEEDED = ''CASE_C_RECOVERY_SUCCEEDED''"

fun return_value :: "position_return_state \<Rightarrow> string" where
  "return_value RETURN_CASE_B_HOLDING = ''CASE_B_HOLDING''"
| "return_value RETURN_CASE_B_TREND_HOLD = ''CASE_B_TREND_HOLD''"
| "return_value RETURN_CASE_C_HOLDING = ''CASE_C_HOLDING''"
| "return_value RETURN_CASE_C_TP_TRAILING = ''CASE_C_TP_TRAILING''"

section \<open>The state configuration\<close>

record state_config =
  st_root :: root_state
  st_ownership :: "ownership_state option"
  st_b_signal :: "case_b_signal_state option"
  st_c_signal :: "case_c_signal_state option"
  st_b_position :: "case_b_position_state option"
  st_c_position :: "case_c_position_state option"

text \<open>\<open>__post_init__\<close>: the combinations of region states a configuration may have.\<close>

definition config_ok :: "state_config \<Rightarrow> bool" where
  "config_ok s =
    (if st_root s \<noteq> TRADE_MANAGEMENT
     then st_ownership s = None \<and> st_b_signal s = None \<and> st_c_signal s = None
        \<and> st_b_position s = None \<and> st_c_position s = None
     else (case st_ownership s of
            None \<Rightarrow> False
          | Some own \<Rightarrow>
              st_b_signal s \<noteq> None \<and> st_c_signal s \<noteq> None \<and>
              (case own of
                 NO_POSITION \<Rightarrow> st_b_position s = None \<and> st_c_position s = None
               | CASE_B_POSITION_MANAGEMENT \<Rightarrow>
                   st_b_position s \<noteq> None \<and> st_c_position s = None
               | CASE_C_POSITION_MANAGEMENT \<Rightarrow>
                   st_c_position s \<noteq> None \<and> st_b_position s = None)))"

text \<open>The constructor: a configuration that fails the check raises \<open>ValueError\<close>.\<close>

definition make_config :: "state_config \<Rightarrow> state_config res" where
  "make_config s = (if config_ok s then Inr s else Inl ValueError)"

definition inactive_config :: "root_state \<Rightarrow> state_config" where
  "inactive_config r = \<lparr>st_root = r, st_ownership = None, st_b_signal = None,
     st_c_signal = None, st_b_position = None, st_c_position = None\<rparr>"

definition default_config :: state_config where
  "default_config = inactive_config NOT_STARTED"

definition trade_management_initial :: state_config where
  "trade_management_initial = \<lparr>st_root = TRADE_MANAGEMENT, st_ownership = Some NO_POSITION,
     st_b_signal = Some B_WAIT_TOUCH, st_c_signal = Some C_WAIT_SETUP,
     st_b_position = None, st_c_position = None\<rparr>"

definition trade_management_is_complete :: "state_config \<Rightarrow> bool" where
  "trade_management_is_complete s \<longleftrightarrow>
     st_root s = TRADE_MANAGEMENT \<and> st_ownership s = Some NO_POSITION \<and>
     st_b_signal s = Some CASE_B_FINAL_STATE \<and> st_c_signal s = Some CASE_C_FINAL_STATE"

section \<open>Facts about configurations\<close>

lemma inactive_config_sel [simp]:
  "st_root (inactive_config r) = r" "st_ownership (inactive_config r) = None"
  "st_b_signal (inactive_config r) = None" "st_c_signal (inactive_config r) = None"
  "st_b_position (inactive_config r) = None" "st_c_position (inactive_config r) = None"
  by (simp_all add: inactive_config_def)

lemma initial_config_sel [simp]:
  "st_root trade_management_initial = TRADE_MANAGEMENT"
  "st_ownership trade_management_initial = Some NO_POSITION"
  "st_b_signal trade_management_initial = Some B_WAIT_TOUCH"
  "st_c_signal trade_management_initial = Some C_WAIT_SETUP"
  "st_b_position trade_management_initial = None"
  "st_c_position trade_management_initial = None"
  by (simp_all add: trade_management_initial_def)

lemma config_ok_inactive [simp, config_simps]:
  "config_ok (inactive_config r) \<longleftrightarrow> r \<noteq> TRADE_MANAGEMENT"
  by (simp add: config_ok_def)

lemma config_ok_initial [simp, config_simps]: "config_ok trade_management_initial"
  by (simp add: config_ok_def)

lemma config_ok_default [simp, config_simps]: "config_ok default_config"
  by (simp add: default_config_def)

text \<open>Replacing a signal state keeps a configuration inside trade management valid.\<close>

lemma config_ok_b_signal [config_simps]:
  "config_ok s \<Longrightarrow> st_root s = TRADE_MANAGEMENT \<Longrightarrow> config_ok (s\<lparr>st_b_signal := Some x\<rparr>)"
  by (auto simp: config_ok_def split: option.splits ownership_state.splits)

lemma config_ok_c_signal [config_simps]:
  "config_ok s \<Longrightarrow> st_root s = TRADE_MANAGEMENT \<Longrightarrow> config_ok (s\<lparr>st_c_signal := Some x\<rparr>)"
  by (auto simp: config_ok_def split: option.splits ownership_state.splits)

lemma config_ok_b_position [config_simps]:
  "config_ok s \<Longrightarrow> st_b_position s \<noteq> None \<Longrightarrow> config_ok (s\<lparr>st_b_position := Some x\<rparr>)"
  by (auto simp: config_ok_def split: option.splits ownership_state.splits if_splits)

lemma config_ok_c_position [config_simps]:
  "config_ok s \<Longrightarrow> st_c_position s \<noteq> None \<Longrightarrow> config_ok (s\<lparr>st_c_position := Some x\<rparr>)"
  by (auto simp: config_ok_def split: option.splits ownership_state.splits if_splits)

lemma config_ok_take_b [config_simps]:
  "config_ok s \<Longrightarrow> st_ownership s = Some NO_POSITION \<Longrightarrow>
   config_ok (s\<lparr>st_ownership := Some CASE_B_POSITION_MANAGEMENT, st_b_position := Some x\<rparr>)"
  by (auto simp: config_ok_def split: if_splits)

lemma config_ok_take_c [config_simps]:
  "config_ok s \<Longrightarrow> st_ownership s = Some NO_POSITION \<Longrightarrow>
   config_ok (s\<lparr>st_ownership := Some CASE_C_POSITION_MANAGEMENT, st_c_position := Some x\<rparr>)"
  by (auto simp: config_ok_def split: if_splits)

lemma config_ok_release_c [config_simps]:
  "config_ok s \<Longrightarrow> st_c_position s \<noteq> None \<Longrightarrow>
   config_ok (s\<lparr>st_ownership := Some NO_POSITION, st_c_position := None\<rparr>)"
  by (auto simp: config_ok_def split: option.splits ownership_state.splits if_splits)

text \<open>A position state is active only inside trade management and only under its owner.\<close>

lemma config_ok_b_position_owner:
  "config_ok s \<Longrightarrow> st_b_position s \<noteq> None \<Longrightarrow>
     st_root s = TRADE_MANAGEMENT \<and> st_ownership s = Some CASE_B_POSITION_MANAGEMENT \<and>
     st_c_position s = None"
  by (auto simp: config_ok_def split: option.splits ownership_state.splits if_splits)

lemma config_ok_c_position_owner:
  "config_ok s \<Longrightarrow> st_c_position s \<noteq> None \<Longrightarrow>
     st_root s = TRADE_MANAGEMENT \<and> st_ownership s = Some CASE_C_POSITION_MANAGEMENT \<and>
     st_b_position s = None"
  by (auto simp: config_ok_def split: option.splits ownership_state.splits if_splits)

lemma config_ok_no_position:
  "config_ok s \<Longrightarrow> st_root s = TRADE_MANAGEMENT \<Longrightarrow> st_b_position s = None \<Longrightarrow>
     st_c_position s = None \<Longrightarrow> st_ownership s = Some NO_POSITION"
  by (auto simp: config_ok_def split: option.splits ownership_state.splits if_splits)

lemma config_ok_signals:
  "config_ok s \<Longrightarrow> st_root s = TRADE_MANAGEMENT \<Longrightarrow>
     st_b_signal s \<noteq> None \<and> st_c_signal s \<noteq> None \<and> st_ownership s \<noteq> None"
  by (auto simp: config_ok_def split: option.splits)

lemma config_ok_outside:
  "config_ok s \<Longrightarrow> st_root s \<noteq> TRADE_MANAGEMENT \<Longrightarrow> s = inactive_config (st_root s)"
  by (cases s) (auto simp: config_ok_def inactive_config_def)

lemma make_config_ok [simp]: "config_ok s \<Longrightarrow> make_config s = Inr s"
  by (simp add: make_config_def)

lemma make_config_eq_Inr: "make_config s = Inr t \<longleftrightarrow> t = s \<and> config_ok s"
  by (auto simp: make_config_def)

end
