(* ===== verification/Trading_Snapshots.thy ===== *)
theory Trading_Snapshots
  imports Py_Decimal Trading_States
begin

text \<open>
  The immutable snapshots a decision reads (\<open>domain/trading/context.py\<close>,
  \<open>domain/trading/timers.py\<close>): timers, the market evaluation, the runtime values, the
  position, the pending order and the view that bundles them, each with the check of its
  \<open>__post_init__\<close>.  Field types are the HOL types, so the \<open>isinstance\<close> checks hold by
  typing; the value checks are the \<open>_ok\<close> predicates below.
\<close>

section \<open>Timers\<close>

record timer_snapshot =
  tm_condition_id :: string
  tm_timer_id :: string
  tm_kind :: string
  tm_state :: string
  tm_duration_seconds :: decimal
  tm_remaining_seconds :: decimal
  tm_sampled_at :: timestamp
  tm_reset_reason :: "string option"

definition timer_ok :: "timer_snapshot \<Rightarrow> bool" where
  "timer_ok t \<longleftrightarrow>
     is_finite (tm_duration_seconds t) \<and> is_finite (tm_remaining_seconds t) \<and>
     dlt dzero (tm_duration_seconds t) \<and> dle dzero (tm_remaining_seconds t) \<and>
     dle (tm_remaining_seconds t) (tm_duration_seconds t) \<and>
     tm_condition_id t \<noteq> [] \<and> tm_timer_id t \<noteq> [] \<and>
     tm_kind t \<in> {''window'', ''hold'', ''time_exit''} \<and>
     tm_state t \<in> {''waiting'', ''running'', ''stopped'', ''completed'', ''expired''} \<and>
     (case tm_reset_reason t of
        None \<Rightarrow> True
      | Some r \<Rightarrow> r \<in> {''timeout'', ''new_low'', ''condition_broken'', ''candle_changed'',
                      ''stream_reset''}) \<and>
     (tm_state t \<in> {''completed'', ''expired''} \<longrightarrow> dval (tm_remaining_seconds t) = 0) \<and>
     (tm_state t \<in> {''waiting'', ''stopped''} \<longrightarrow>
        dval (tm_remaining_seconds t) = dval (tm_duration_seconds t)) \<and>
     is_aware (tm_sampled_at t)"

section \<open>Market evaluation\<close>

record market_snapshot =
  mk_realtime_price :: decimal
  mk_lower_band :: decimal
  mk_upper_band :: decimal
  mk_realtime_pct_b :: decimal
  mk_current_30m_candle_id :: "string option"
  mk_current_30m_low :: decimal
  mk_current_30m_high :: decimal
  mk_touch_candle_bbw :: decimal
  mk_confirmed_30m_close :: bool
  mk_confirmed_30m_close_time :: "timestamp option"
  mk_confirmed_1m_close :: bool
  mk_ema_slope_30m_close :: decimal
  mk_realtime_ema_slope :: decimal
  mk_current_close_ema_slope :: decimal
  mk_tp_reference_ema_slope :: decimal
  mk_cci_30m_realtime :: decimal
  mk_pct_b_close :: decimal
  mk_current_closed_candle_low :: decimal
  mk_previous_3_closed_candle_lows :: "decimal list"
  mk_holding_elapsed :: timedelta
  mk_signal_elapsed :: timedelta
  mk_case_c_timer_elapsed :: timedelta
  mk_pct_b_at_least_060_for_5s :: bool
  mk_realtime_slope_above_008_for_5s :: bool
  mk_realtime_slope_at_most_004_for_5s :: bool
  mk_pct_b_below_060_for_5s :: bool
  mk_realtime_slope_at_most_minus_055_for_3m :: bool
  mk_condition_timers :: "timer_snapshot list"

definition default_market :: market_snapshot where
  "default_market = \<lparr>
     mk_realtime_price = dzero, mk_lower_band = dzero, mk_upper_band = dzero,
     mk_realtime_pct_b = dzero, mk_current_30m_candle_id = None,
     mk_current_30m_low = dzero, mk_current_30m_high = dzero, mk_touch_candle_bbw = dzero,
     mk_confirmed_30m_close = False, mk_confirmed_30m_close_time = None,
     mk_confirmed_1m_close = False, mk_ema_slope_30m_close = dzero,
     mk_realtime_ema_slope = dzero, mk_current_close_ema_slope = dzero,
     mk_tp_reference_ema_slope = dzero, mk_cci_30m_realtime = dzero, mk_pct_b_close = dzero,
     mk_current_closed_candle_low = dzero, mk_previous_3_closed_candle_lows = [],
     mk_holding_elapsed = 0, mk_signal_elapsed = 0, mk_case_c_timer_elapsed = 0,
     mk_pct_b_at_least_060_for_5s = False, mk_realtime_slope_above_008_for_5s = False,
     mk_realtime_slope_at_most_004_for_5s = False, mk_pct_b_below_060_for_5s = False,
     mk_realtime_slope_at_most_minus_055_for_3m = False, mk_condition_timers = []\<rparr>"

definition market_ok :: "market_snapshot \<Rightarrow> bool" where
  "market_ok m \<longleftrightarrow>
     (case mk_confirmed_30m_close_time m of
        None \<Rightarrow> True
      | Some t \<Rightarrow> is_aware t \<and> mk_confirmed_30m_close m) \<and>
     0 \<le> mk_holding_elapsed m \<and> 0 \<le> mk_signal_elapsed m \<and> 0 \<le> mk_case_c_timer_elapsed m \<and>
     length (mk_previous_3_closed_candle_lows m) \<in> {0, 3} \<and>
     list_all timer_ok (mk_condition_timers m) \<and>
     distinct (map tm_condition_id (mk_condition_timers m))"

section \<open>Runtime values\<close>

record runtime_snapshot =
  rt_position_owner :: "strategy_type option"
  rt_pending_strategy :: "strategy_type option"
  rt_pending_order_side :: "order_side option"
  rt_pending_order_id :: "string option"
  rt_pending_order_attempt_kind :: "order_attempt_kind option"
  rt_pending_intent_id :: "string option"
  rt_trading_phase :: trading_phase
  rt_lower_event_id :: "string option"
  rt_touch_time :: "timestamp option"
  rt_touch_candle_id :: "string option"
  rt_touch_candle_low :: "decimal option"
  rt_lower_band_at_touch :: "decimal option"
  rt_touch_candle_bbw :: "decimal option"
  rt_case_b_enabled :: bool
  rt_case_c_enabled :: bool
  rt_case_b_entry_paused :: bool
  rt_case_b_only_until_next_lower_touch :: bool
  rt_allow_new_case_c_setup :: bool
  rt_case_c_consumed_for_event :: bool
  rt_case_c_recovery_confirmed :: bool
  rt_signal_created :: bool
  rt_signal_candle_id :: "string option"
  rt_signal_time :: "timestamp option"
  rt_last_case_c_setup_candle_id :: "string option"
  rt_flush_low :: "decimal option"
  rt_flush_low_pct_b :: "decimal option"
  rt_flush_low_time :: "timestamp option"
  rt_current_open_pct_b :: "decimal option"
  rt_timer_base_pct_b :: "decimal option"
  rt_timer_base_time :: "timestamp option"
  rt_entry_pct_b :: "decimal option"
  rt_tp_price :: "decimal option"
  rt_previous_trail_ema_slope :: "decimal option"
  rt_pending_exit_reason :: "exit_reason option"
  rt_pending_exit_pct_b :: "decimal option"
  rt_pending_return_state :: "position_return_state option"
  rt_case_b_exit_reason :: "exit_reason option"
  rt_case_c_exit_reason :: "exit_reason option"
  rt_case_c_exit_pct_b :: "decimal option"

definition default_runtime :: runtime_snapshot where
  "default_runtime = \<lparr>
     rt_position_owner = None, rt_pending_strategy = None, rt_pending_order_side = None,
     rt_pending_order_id = None, rt_pending_order_attempt_kind = None,
     rt_pending_intent_id = None, rt_trading_phase = IDLE,
     rt_lower_event_id = None, rt_touch_time = None, rt_touch_candle_id = None,
     rt_touch_candle_low = None, rt_lower_band_at_touch = None, rt_touch_candle_bbw = None,
     rt_case_b_enabled = False, rt_case_c_enabled = False, rt_case_b_entry_paused = False,
     rt_case_b_only_until_next_lower_touch = False, rt_allow_new_case_c_setup = False,
     rt_case_c_consumed_for_event = False, rt_case_c_recovery_confirmed = False,
     rt_signal_created = False, rt_signal_candle_id = None, rt_signal_time = None,
     rt_last_case_c_setup_candle_id = None, rt_flush_low = None, rt_flush_low_pct_b = None,
     rt_flush_low_time = None, rt_current_open_pct_b = None, rt_timer_base_pct_b = None,
     rt_timer_base_time = None, rt_entry_pct_b = None, rt_tp_price = None,
     rt_previous_trail_ema_slope = None, rt_pending_exit_reason = None,
     rt_pending_exit_pct_b = None, rt_pending_return_state = None,
     rt_case_b_exit_reason = None, rt_case_c_exit_reason = None,
     rt_case_c_exit_pct_b = None\<rparr>"

definition runtime_ok :: "runtime_snapshot \<Rightarrow> bool" where
  "runtime_ok r \<longleftrightarrow>
     (rt_pending_order_id r \<noteq> None \<longrightarrow>
        rt_pending_strategy r \<noteq> None \<and> rt_pending_order_side r \<noteq> None \<and>
        rt_pending_order_attempt_kind r \<noteq> None) \<and>
     (rt_pending_exit_reason r = None \<longrightarrow> rt_pending_return_state r = None) \<and>
     (rt_pending_exit_reason r = None \<longrightarrow> rt_pending_exit_pct_b r = None) \<and>
     opt_aware (rt_touch_time r) \<and> opt_aware (rt_signal_time r) \<and>
     opt_aware (rt_flush_low_time r) \<and> opt_aware (rt_timer_base_time r)"

section \<open>Position and pending order\<close>

record position_snapshot =
  ps_quantity :: decimal
  ps_entry_price :: "decimal option"

definition position_ok :: "position_snapshot \<Rightarrow> bool" where
  "position_ok p \<longleftrightarrow>
     is_finite (ps_quantity p) \<and> dle dzero (ps_quantity p) \<and>
     (case ps_entry_price p of None \<Rightarrow> True | Some e \<Rightarrow> is_finite e \<and> dle dzero e)"

definition default_position :: position_snapshot where
  "default_position = \<lparr>ps_quantity = dzero, ps_entry_price = None\<rparr>"

definition is_open :: "position_snapshot \<Rightarrow> bool" where
  "is_open p \<longleftrightarrow> dlt dzero (ps_quantity p)"

record pending_order_snapshot =
  po_order_id :: string
  po_strategy :: strategy_type
  po_side :: order_side
  po_attempt_kind :: order_attempt_kind
  po_has_partial_fill :: bool
  po_status_unknown :: bool

text \<open>
  \<open>str.strip\<close> trims white space; \<open>order_id != order_id.strip()\<close> holds exactly when the first
  or the last character is white space.  The ASCII white space characters are tab to carriage
  return, the four separators and the blank.
\<close>

definition py_isspace :: "char \<Rightarrow> bool" where
  "py_isspace c \<longleftrightarrow> (let n = (of_char c :: nat) in (9 \<le> n \<and> n \<le> 13) \<or> (28 \<le> n \<and> n \<le> 32))"

definition py_strip :: "string \<Rightarrow> string" where
  "py_strip s = rev (dropWhile py_isspace (rev (dropWhile py_isspace s)))"

definition pending_order_ok :: "pending_order_snapshot \<Rightarrow> bool" where
  "pending_order_ok p \<longleftrightarrow> po_order_id p \<noteq> [] \<and> po_order_id p = py_strip (po_order_id p)"

section \<open>The decision view\<close>

definition valid_split_ratio :: "decimal \<Rightarrow> bool" where
  "valid_split_ratio d \<longleftrightarrow> is_finite d \<and> \<not> (is_signed d \<or> dlt (Fin 1) d)"

text \<open>The runtime fields and the authoritative pending order name the same order.\<close>

definition pending_aligned :: "runtime_snapshot \<Rightarrow> pending_order_snapshot option \<Rightarrow> bool" where
  "pending_aligned r po \<longleftrightarrow>
     (case po of
        None \<Rightarrow> True
      | Some p \<Rightarrow> rt_pending_order_id r = Some (po_order_id p) \<and>
          rt_pending_strategy r = Some (po_strategy p) \<and>
          rt_pending_order_side r = Some (po_side p) \<and>
          rt_pending_order_attempt_kind r = Some (po_attempt_kind p))"

record context_view =
  cv_version :: int
  cv_evaluated_at :: timestamp
  cv_market :: market_snapshot
  cv_runtime :: runtime_snapshot
  cv_position :: position_snapshot
  cv_pending_order :: "pending_order_snapshot option"
  cv_initialized :: bool
  cv_selected_regime :: "regime_type option"
  cv_scale_in_ratio :: decimal
  cv_scale_out_ratio :: decimal

definition view_ok :: "context_view \<Rightarrow> bool" where
  "view_ok c \<longleftrightarrow>
     0 \<le> cv_version c \<and> is_aware (cv_evaluated_at c) \<and>
     valid_split_ratio (cv_scale_in_ratio c) \<and> valid_split_ratio (cv_scale_out_ratio c) \<and>
     pending_aligned (cv_runtime c) (cv_pending_order c)"

definition make_view :: "context_view \<Rightarrow> context_view res" where
  "make_view c = (if view_ok c then Inr c else Inl ValueError)"

section \<open>Equality of snapshots\<close>

text \<open>
  The dataclasses compare field by field with \<open>==\<close>, which identifies the two zeros; two
  snapshots are the same when they agree after normalising every decimal.
\<close>

definition timer_norm :: "timer_snapshot \<Rightarrow> timer_snapshot" where
  "timer_norm t = t\<lparr>tm_duration_seconds := dnorm (tm_duration_seconds t),
     tm_remaining_seconds := dnorm (tm_remaining_seconds t)\<rparr>"

definition market_norm :: "market_snapshot \<Rightarrow> market_snapshot" where
  "market_norm m = m\<lparr>
     mk_realtime_price := dnorm (mk_realtime_price m),
     mk_lower_band := dnorm (mk_lower_band m),
     mk_upper_band := dnorm (mk_upper_band m),
     mk_realtime_pct_b := dnorm (mk_realtime_pct_b m),
     mk_current_30m_low := dnorm (mk_current_30m_low m),
     mk_current_30m_high := dnorm (mk_current_30m_high m),
     mk_touch_candle_bbw := dnorm (mk_touch_candle_bbw m),
     mk_ema_slope_30m_close := dnorm (mk_ema_slope_30m_close m),
     mk_realtime_ema_slope := dnorm (mk_realtime_ema_slope m),
     mk_current_close_ema_slope := dnorm (mk_current_close_ema_slope m),
     mk_tp_reference_ema_slope := dnorm (mk_tp_reference_ema_slope m),
     mk_cci_30m_realtime := dnorm (mk_cci_30m_realtime m),
     mk_pct_b_close := dnorm (mk_pct_b_close m),
     mk_current_closed_candle_low := dnorm (mk_current_closed_candle_low m),
     mk_previous_3_closed_candle_lows := map dnorm (mk_previous_3_closed_candle_lows m),
     mk_condition_timers := map timer_norm (mk_condition_timers m)\<rparr>"

definition runtime_norm :: "runtime_snapshot \<Rightarrow> runtime_snapshot" where
  "runtime_norm r = r\<lparr>
     rt_touch_candle_low := map_option dnorm (rt_touch_candle_low r),
     rt_lower_band_at_touch := map_option dnorm (rt_lower_band_at_touch r),
     rt_touch_candle_bbw := map_option dnorm (rt_touch_candle_bbw r),
     rt_flush_low := map_option dnorm (rt_flush_low r),
     rt_flush_low_pct_b := map_option dnorm (rt_flush_low_pct_b r),
     rt_current_open_pct_b := map_option dnorm (rt_current_open_pct_b r),
     rt_timer_base_pct_b := map_option dnorm (rt_timer_base_pct_b r),
     rt_entry_pct_b := map_option dnorm (rt_entry_pct_b r),
     rt_tp_price := map_option dnorm (rt_tp_price r),
     rt_previous_trail_ema_slope := map_option dnorm (rt_previous_trail_ema_slope r),
     rt_pending_exit_pct_b := map_option dnorm (rt_pending_exit_pct_b r),
     rt_case_c_exit_pct_b := map_option dnorm (rt_case_c_exit_pct_b r)\<rparr>"

definition position_norm :: "position_snapshot \<Rightarrow> position_snapshot" where
  "position_norm p = p\<lparr>ps_quantity := dnorm (ps_quantity p),
     ps_entry_price := map_option dnorm (ps_entry_price p)\<rparr>"

definition market_same :: "market_snapshot \<Rightarrow> market_snapshot \<Rightarrow> bool" where
  "market_same a b \<longleftrightarrow> market_norm a = market_norm b"

definition runtime_same :: "runtime_snapshot \<Rightarrow> runtime_snapshot \<Rightarrow> bool" where
  "runtime_same a b \<longleftrightarrow> runtime_norm a = runtime_norm b"

definition position_same :: "position_snapshot \<Rightarrow> position_snapshot \<Rightarrow> bool" where
  "position_same a b \<longleftrightarrow> position_norm a = position_norm b"

lemma same_refl [simp]: "market_same m m" "runtime_same r r" "position_same p p"
  by (simp_all add: market_same_def runtime_same_def position_same_def)

text \<open>Normalising touches decimals only, so the checks see no difference.\<close>

lemma runtime_ok_norm: "runtime_ok (runtime_norm r) = runtime_ok r"
  by (simp add: runtime_ok_def runtime_norm_def)

lemma pending_aligned_norm: "pending_aligned (runtime_norm r) po = pending_aligned r po"
  by (simp add: pending_aligned_def runtime_norm_def split: option.splits)

lemma pending_aligned_None [simp]: "pending_aligned r None"
  by (simp add: pending_aligned_def)

lemma runtime_ok_default [simp]: "runtime_ok default_runtime"
  by (simp add: runtime_ok_def default_runtime_def)

lemma position_ok_default [simp]: "position_ok default_position"
  by (simp add: position_ok_def default_position_def dzero_def)

lemma not_open_default [simp]: "\<not> is_open default_position"
  by (simp add: is_open_def default_position_def dzero_def)

lemma is_open_pos: "position_ok p \<Longrightarrow> is_open p \<longleftrightarrow> 0 < dval (ps_quantity p)"
  by (simp add: position_ok_def is_open_def dzero_def)

lemma market_ok_default [simp]: "market_ok default_market"
  by (simp add: market_ok_def default_market_def)

lemma make_view_ok [simp]: "view_ok c \<Longrightarrow> make_view c = Inr c"
  by (simp add: make_view_def)

end
