(* ===== verification/Trading_Events.thy ===== *)
theory Trading_Events
  imports Trading_Snapshots
begin

text \<open>
  The events of the trading state machine and of its serial queue
  (\<open>domain/trading/events.py\<close>, with \<open>RiskBlockReason\<close> of \<open>risk.py\<close>): priorities, event
  types, typed payloads and the event itself with the checks of its constructor.
\<close>

section \<open>Priorities and types\<close>

datatype event_priority = INTERNAL | USER_COMMAND | ORDER_OUTCOME | MARKET

text \<open>The \<open>IntEnum\<close> value; a smaller one is served first.\<close>

fun priority_value :: "event_priority \<Rightarrow> int" where
  "priority_value INTERNAL = 0"
| "priority_value USER_COMMAND = 10"
| "priority_value ORDER_OUTCOME = 20"
| "priority_value MARKET = 30"

datatype event_type =
    MARKET_DATA_UPDATED
  | LOGIC_STARTED
  | LOWER_BAND_TOUCHED
  | NEW_30M_LOWER_BAND_TOUCHED
  | TRADE_MANAGEMENT_COMPLETED
  | STOP_CONFIRMED
  | FORCE_SELL_FINISHED
  | FORCE_SELL_FAILED
  | UPPER_BAND_TOUCHED
  | ACTIVATE_TRADE_MANAGEMENT
  | CASE_B_POSITION_OPENED
  | ORDER_PREPARATION_EXPIRED
  | CASE_B_BUY_FAILED
  | CASE_B_BUY_RETRY
  | CASE_C_POSITION_OPENED
  | CASE_C_BUY_FAILED
  | CASE_C_BUY_RETRY
  | START_CASE_B_CONDITION_CHECK
  | RETRY_CASE_B_CONDITION_CHECK
  | CASE_B_EMERGENCY_STOP
  | CASE_B_STOP
  | CASE_B_TIME_EXIT
  | CASE_B_TAKE_PROFIT
  | CASE_B_UPPER_TREND
  | CASE_B_TREND_HOLD_CONDITION_CHECK
  | CASE_B_TREND_HOLD_SELL
  | CASE_B_SELL_FAILED
  | CASE_B_SELL_RETRY
  | CASE_B_SELL_FILLED
  | CASE_B_SELL_FINISHED
  | START_CASE_C_CONDITION_CHECK
  | RETRY_CASE_C_CONDITION_CHECK
  | CASE_C_STOP
  | CASE_C_TIME_EXIT
  | CASE_C_ENTER_PROFIT_ZONE
  | START_TP_TRAILING_CONDITION_CHECK
  | RETRY_TP_TRAILING_CONDITION_CHECK
  | CASE_C_EMA_INCREASEMENT
  | CASE_C_SELL_AT_TP_PRICE
  | CASE_C_EMA_DECREASEMENT
  | CASE_C_SELL_FAILED
  | CASE_C_SELL_RETRY
  | CASE_C_SELL_FILLED
  | CASE_C_SELL_FINISHED
  | CHECK_CASE_C_RECOVERY
  | CHECK_CASE_B_HANDOFF
  | CASE_B_ACTIVE_RESUME
  | CASE_B_WAIT_ONLY
  | BUY_RISK_BLOCKED
  | SELL_PREPARATION_DEFERRED
  | THIRTY_MINUTE_CANDLE_CLOSED
  | START_CASE_B_WAIT_PULLBACK_CONDITION_CHECK
  | RETRY_CASE_B_WAIT_PULLBACK_CONDITION_CHECK
  | RETRY_C_WAIT_SETUP
  | START_CASE_C_SETUP_CONDITION_CHECK
  | RETRY_CASE_C_SETUP_CONDITION_CHECK

text \<open>A \<open>StrEnum\<close> member is printed as its value.\<close>

fun show_event_type :: "event_type \<Rightarrow> string" where
  "show_event_type MARKET_DATA_UPDATED = ''MARKET_DATA_UPDATED''"
| "show_event_type LOGIC_STARTED = ''LOGIC_STARTED''"
| "show_event_type LOWER_BAND_TOUCHED = ''LOWER_BAND_TOUCHED''"
| "show_event_type NEW_30M_LOWER_BAND_TOUCHED = ''NEW_30M_LOWER_BAND_TOUCHED''"
| "show_event_type TRADE_MANAGEMENT_COMPLETED = ''TRADE_MANAGEMENT_COMPLETED''"
| "show_event_type STOP_CONFIRMED = ''STOP_CONFIRMED''"
| "show_event_type FORCE_SELL_FINISHED = ''FORCE_SELL_FINISHED''"
| "show_event_type FORCE_SELL_FAILED = ''FORCE_SELL_FAILED''"
| "show_event_type UPPER_BAND_TOUCHED = ''UPPER_BAND_TOUCHED''"
| "show_event_type ACTIVATE_TRADE_MANAGEMENT = ''ACTIVATE_TRADE_MANAGEMENT''"
| "show_event_type CASE_B_POSITION_OPENED = ''CASE_B_POSITION_OPENED''"
| "show_event_type ORDER_PREPARATION_EXPIRED = ''ORDER_PREPARATION_EXPIRED''"
| "show_event_type CASE_B_BUY_FAILED = ''CASE_B_BUY_FAILED''"
| "show_event_type CASE_B_BUY_RETRY = ''CASE_B_BUY_RETRY''"
| "show_event_type CASE_C_POSITION_OPENED = ''CASE_C_POSITION_OPENED''"
| "show_event_type CASE_C_BUY_FAILED = ''CASE_C_BUY_FAILED''"
| "show_event_type CASE_C_BUY_RETRY = ''CASE_C_BUY_RETRY''"
| "show_event_type START_CASE_B_CONDITION_CHECK = ''START_CASE_B_CONDITION_CHECK''"
| "show_event_type RETRY_CASE_B_CONDITION_CHECK = ''RETRY_CASE_B_CONDITION_CHECK''"
| "show_event_type CASE_B_EMERGENCY_STOP = ''CASE_B_EMERGENCY_STOP''"
| "show_event_type CASE_B_STOP = ''CASE_B_STOP''"
| "show_event_type CASE_B_TIME_EXIT = ''CASE_B_TIME_EXIT''"
| "show_event_type CASE_B_TAKE_PROFIT = ''CASE_B_TAKE_PROFIT''"
| "show_event_type CASE_B_UPPER_TREND = ''CASE_B_UPPER_TREND''"
| "show_event_type CASE_B_TREND_HOLD_CONDITION_CHECK = ''CASE_B_TREND_HOLD_CONDITION_CHECK''"
| "show_event_type CASE_B_TREND_HOLD_SELL = ''CASE_B_TREND_HOLD_SELL''"
| "show_event_type CASE_B_SELL_FAILED = ''CASE_B_SELL_FAILED''"
| "show_event_type CASE_B_SELL_RETRY = ''CASE_B_SELL_RETRY''"
| "show_event_type CASE_B_SELL_FILLED = ''CASE_B_SELL_FILLED''"
| "show_event_type CASE_B_SELL_FINISHED = ''CASE_B_SELL_FINISHED''"
| "show_event_type START_CASE_C_CONDITION_CHECK = ''START_CASE_C_CONDITION_CHECK''"
| "show_event_type RETRY_CASE_C_CONDITION_CHECK = ''RETRY_CASE_C_CONDITION_CHECK''"
| "show_event_type CASE_C_STOP = ''CASE_C_STOP''"
| "show_event_type CASE_C_TIME_EXIT = ''CASE_C_TIME_EXIT''"
| "show_event_type CASE_C_ENTER_PROFIT_ZONE = ''CASE_C_ENTER_PROFIT_ZONE''"
| "show_event_type START_TP_TRAILING_CONDITION_CHECK = ''START_TP_TRAILING_CONDITION_CHECK''"
| "show_event_type RETRY_TP_TRAILING_CONDITION_CHECK = ''RETRY_TP_TRAILING_CONDITION_CHECK''"
| "show_event_type CASE_C_EMA_INCREASEMENT = ''CASE_C_EMA_INCREASEMENT''"
| "show_event_type CASE_C_SELL_AT_TP_PRICE = ''CASE_C_SELL_AT_TP_PRICE''"
| "show_event_type CASE_C_EMA_DECREASEMENT = ''CASE_C_EMA_DECREASEMENT''"
| "show_event_type CASE_C_SELL_FAILED = ''CASE_C_SELL_FAILED''"
| "show_event_type CASE_C_SELL_RETRY = ''CASE_C_SELL_RETRY''"
| "show_event_type CASE_C_SELL_FILLED = ''CASE_C_SELL_FILLED''"
| "show_event_type CASE_C_SELL_FINISHED = ''CASE_C_SELL_FINISHED''"
| "show_event_type CHECK_CASE_C_RECOVERY = ''CHECK_CASE_C_RECOVERY''"
| "show_event_type CHECK_CASE_B_HANDOFF = ''CHECK_CASE_B_HANDOFF''"
| "show_event_type CASE_B_ACTIVE_RESUME = ''CASE_B_ACTIVE_RESUME''"
| "show_event_type CASE_B_WAIT_ONLY = ''CASE_B_WAIT_ONLY''"
| "show_event_type BUY_RISK_BLOCKED = ''BUY_RISK_BLOCKED''"
| "show_event_type SELL_PREPARATION_DEFERRED = ''SELL_PREPARATION_DEFERRED''"
| "show_event_type THIRTY_MINUTE_CANDLE_CLOSED = ''THIRTY_MINUTE_CANDLE_CLOSED''"
| "show_event_type START_CASE_B_WAIT_PULLBACK_CONDITION_CHECK = ''START_CASE_B_WAIT_PULLBACK_CONDITION_CHECK''"
| "show_event_type RETRY_CASE_B_WAIT_PULLBACK_CONDITION_CHECK = ''RETRY_CASE_B_WAIT_PULLBACK_CONDITION_CHECK''"
| "show_event_type RETRY_C_WAIT_SETUP = ''RETRY_C_WAIT_SETUP''"
| "show_event_type START_CASE_C_SETUP_CONDITION_CHECK = ''START_CASE_C_SETUP_CONDITION_CHECK''"
| "show_event_type RETRY_CASE_C_SETUP_CONDITION_CHECK = ''RETRY_CASE_C_SETUP_CONDITION_CHECK''"

section \<open>Payloads\<close>

datatype risk_block_reason =
    RISK_POLICY_UNAVAILABLE
  | RISK_POLICY_VERSION_MISMATCH
  | MANUAL_KILL_SWITCH_ACTIVE
  | RISK_ORDER_NOTIONAL_EXCEEDED
  | RISK_DAILY_LOSS_EXCEEDED
  | RISK_POSITION_NOTIONAL_EXCEEDED
  | RISK_BUY_BUDGET_INSUFFICIENT

datatype event_payload =
    BuyAttemptPayload order_attempt_kind
  | PreparationExpiredPayload strategy_type
  | BuyRiskBlockedPayload strategy_type risk_block_reason
  | SellAttemptPayload order_attempt_kind
  | SellPreparationDeferredPayload strategy_type string
  | ForceSellOutcomePayload bool bool bool

text \<open>
  The arguments of \<open>ForceSellOutcomePayload\<close> are \<open>execution_applied\<close>, \<open>history_persisted\<close> and
  \<open>terminal_unfilled\<close>.  Only the deferred payload checks a value: its intent is not blank.
\<close>

fun payload_ok :: "event_payload \<Rightarrow> bool" where
  "payload_ok (SellPreparationDeferredPayload st intent) = (py_strip intent \<noteq> [])"
| "payload_ok _ = True"

section \<open>Events\<close>

record trading_event =
  ev_type :: event_type
  ev_occurred_at :: timestamp
  ev_sequence_number :: int
  ev_priority :: event_priority
  ev_event_id :: "string option"
  ev_lower_event_id :: "string option"
  ev_candle_id :: "string option"
  ev_order_id :: "string option"
  ev_payload :: "event_payload option"
  ev_market_evaluation :: "market_snapshot option"
  ev_market_version :: "int option"

definition event_ok :: "trading_event \<Rightarrow> bool" where
  "event_ok e \<longleftrightarrow>
     is_aware (ev_occurred_at e) \<and> 0 \<le> ev_sequence_number e \<and>
     (ev_market_evaluation e \<noteq> None \<longleftrightarrow> ev_market_version e \<noteq> None) \<and>
     (case ev_market_version e of
        None \<Rightarrow> True
      | Some v \<Rightarrow> 0 < v \<and> ev_priority e = MARKET)"

definition make_event :: "trading_event \<Rightarrow> trading_event res" where
  "make_event e = (if event_ok e then Inr e else Inl ValueError)"

text \<open>An event with the defaults of the optional fields.\<close>

definition basic_event :: "event_type \<Rightarrow> timestamp \<Rightarrow> trading_event" where
  "basic_event t tm = \<lparr>ev_type = t, ev_occurred_at = tm, ev_sequence_number = 0,
     ev_priority = MARKET, ev_event_id = None, ev_lower_event_id = None, ev_candle_id = None,
     ev_order_id = None, ev_payload = None, ev_market_evaluation = None,
     ev_market_version = None\<rparr>"

definition with_queue_identity :: "trading_event \<Rightarrow> int \<Rightarrow> trading_event" where
  "with_queue_identity e n = e\<lparr>ev_sequence_number := n,
     ev_event_id := Some (py_or_str (ev_event_id e)
       (show_event_type (ev_type e) @ '':'' @ show_int n))\<rparr>"

definition with_type :: "event_type \<Rightarrow> trading_event \<Rightarrow> trading_event" where
  "with_type t e = e\<lparr>ev_type := t\<rparr>"

text \<open>\<open>replace(event, event_type=...)\<close> keeps every other field and the checks.\<close>

lemma with_type_sel [simp]:
  "ev_type (with_type t e) = t" "ev_occurred_at (with_type t e) = ev_occurred_at e"
  "ev_sequence_number (with_type t e) = ev_sequence_number e"
  "ev_event_id (with_type t e) = ev_event_id e"
  "ev_lower_event_id (with_type t e) = ev_lower_event_id e"
  "ev_candle_id (with_type t e) = ev_candle_id e"
  "ev_priority (with_type t e) = ev_priority e"
  "ev_payload (with_type t e) = ev_payload e"
  "ev_market_evaluation (with_type t e) = ev_market_evaluation e"
  by (simp_all add: with_type_def)

lemma event_ok_with_type: "event_ok (with_type t e) = event_ok e"
  by (simp add: event_ok_def with_type_def split: option.splits)

lemma event_ok_queue_identity: "event_ok e \<Longrightarrow> 0 \<le> n \<Longrightarrow> event_ok (with_queue_identity e n)"
  by (simp add: event_ok_def with_queue_identity_def split: option.splits)

lemma event_ok_basic [simp]: "event_ok (basic_event t tm) = is_aware tm"
  by (simp add: event_ok_def basic_event_def)

lemma basic_event_sel [simp]:
  "ev_type (basic_event t tm) = t" "ev_payload (basic_event t tm) = None"
  "ev_market_evaluation (basic_event t tm) = None" "ev_candle_id (basic_event t tm) = None"
  "ev_lower_event_id (basic_event t tm) = None" "ev_event_id (basic_event t tm) = None"
  "ev_sequence_number (basic_event t tm) = 0" "ev_occurred_at (basic_event t tm) = tm"
  "ev_priority (basic_event t tm) = MARKET"
  by (simp_all add: basic_event_def)

lemma priority_value_inject [simp]: "priority_value a = priority_value b \<longleftrightarrow> a = b"
  by (cases a; cases b) simp_all

end
