(* ===== verification/Trading_Actions.thy ===== *)
theory Trading_Actions
  imports Trading_Events
begin

text \<open>
  The action requests a decision returns (\<open>domain/trading/action_requests.py\<close>), the outcome of
  one region (\<open>transitions/base.py\<close>), the result of one microstep (\<open>results.py\<close>) and the
  catalog of transition identifiers (\<open>transitions/catalog.py\<close>).
\<close>

section \<open>Runtime patches\<close>

text \<open>
  The allow list of patchable fields and the typed change of one of them: a constructor per
  member of \<open>RuntimeField\<close>, carrying a value of the field's type.
\<close>

datatype runtime_change =
    Set_position_owner "strategy_type option"
  | Set_pending_strategy "strategy_type option"
  | Set_pending_order_side "order_side option"
  | Set_pending_order_id "string option"
  | Set_pending_order_attempt_kind "order_attempt_kind option"
  | Set_pending_intent_id "string option"
  | Set_trading_phase trading_phase
  | Set_case_b_enabled bool
  | Set_case_c_enabled bool
  | Set_case_b_entry_paused bool
  | Set_case_b_only_until_next_lower_touch bool
  | Set_allow_new_case_c_setup bool
  | Set_case_c_consumed_for_event bool
  | Set_case_c_recovery_confirmed bool
  | Set_signal_created bool
  | Set_signal_candle_id "string option"
  | Set_signal_time "timestamp option"
  | Set_last_case_c_setup_candle_id "string option"
  | Set_flush_low "decimal option"
  | Set_flush_low_pct_b "decimal option"
  | Set_flush_low_time "timestamp option"
  | Set_current_open_pct_b "decimal option"
  | Set_timer_base_pct_b "decimal option"
  | Set_timer_base_time "timestamp option"
  | Set_entry_pct_b "decimal option"
  | Set_tp_price "decimal option"
  | Set_previous_trail_ema_slope "decimal option"
  | Set_pending_exit_reason "exit_reason option"
  | Set_pending_exit_pct_b "decimal option"
  | Set_pending_return_state "position_return_state option"
  | Set_case_b_exit_reason "exit_reason option"
  | Set_case_c_exit_reason "exit_reason option"
  | Set_case_c_exit_pct_b "decimal option"

section \<open>Action requests\<close>

datatype reevaluation_trigger =
    MARKET_CHANGE
  | NEXT_1M_CLOSE
  | NEXT_30M_CLOSE
  | DEADLINE_OR_MARKET_CHANGE
  | RETRY_BACKOFF

record queue_event_request =
  qe_type :: event_type
  qe_payload :: "event_payload option"
  qe_lower_event_id :: "string option"
  qe_candle_id :: "string option"
  qe_order_id :: "string option"

record reevaluation_request =
  re_type :: event_type
  re_trigger :: reevaluation_trigger
  re_earliest_delay :: "timedelta option"
  re_lower_event_id :: "string option"
  re_reason :: string

record lower_event_request =
  le_lower_event_id :: string
  le_touch_time :: timestamp
  le_candle_id :: "string option"
  le_touch_candle_low :: decimal
  le_lower_band_at_touch :: decimal
  le_touch_candle_bbw :: decimal

record order_request =
  or_strategy :: strategy_type
  or_side :: order_side
  or_attempt_kind :: order_attempt_kind
  or_idempotency_key :: string
  or_exit_reason :: "exit_reason option"
  or_exit_pct_b_at_intent :: "decimal option"

datatype trading_action =
    PatchRuntimeContext "runtime_change list"
  | OpenLowerEvent lower_event_request
  | CloseLowerEvent string
  | ResetCaseBContext bool
  | ResetCaseCContext bool bool
  | QueueEvent queue_event_request
  | ScheduleReevaluation reevaluation_request
  | CancelScheduledEvaluation string
  | SubmitOrder order_request
  | CancelPendingOrder "string option" string
  | ForceSellAll bool bool
  | StopTradingRuntime string
  | ReconcileOrder string bool

text \<open>
  \<open>ResetCaseBContext\<close> carries \<open>preserve_signal\<close>, \<open>ResetCaseCContext\<close> \<open>preserve_exit_result\<close> and
  \<open>preserve_setup_candle\<close>, \<open>ForceSellAll\<close> \<open>retry\<close> and \<open>use_retry_policy\<close>, \<open>ReconcileOrder\<close>
  \<open>stop_after_reconciliation\<close>.
\<close>

definition queue_request :: "event_type \<Rightarrow> string option \<Rightarrow> trading_action" where
  "queue_request t lower = QueueEvent \<lparr>qe_type = t, qe_payload = None,
     qe_lower_event_id = lower, qe_candle_id = None, qe_order_id = None\<rparr>"

text \<open>The order a request asks for, if it is one.\<close>

fun order_of :: "trading_action \<Rightarrow> order_request option" where
  "order_of (SubmitOrder r) = Some r"
| "order_of _ = None"

definition is_buy_of :: "strategy_type \<Rightarrow> trading_action \<Rightarrow> bool" where
  "is_buy_of st a \<longleftrightarrow>
     (case a of SubmitOrder r \<Rightarrow> or_strategy r = st \<and> or_side r = BUY | _ \<Rightarrow> False)"

section \<open>Region outcomes\<close>

record transition_outcome =
  oc_transition_ids :: "string list"
  oc_state_after :: state_config
  oc_actions :: "trading_action list"
  oc_exclusive :: bool

type_synonym outcome_res = "transition_outcome option res"

definition create_transition_outcome ::
  "string \<Rightarrow> state_config \<Rightarrow> trading_action list \<Rightarrow> string list \<Rightarrow> bool \<Rightarrow> transition_outcome" where
  "create_transition_outcome tid s acts extra excl =
     \<lparr>oc_transition_ids = tid # extra, oc_state_after = s, oc_actions = acts, oc_exclusive = excl\<rparr>"

text \<open>
  A handler that keeps the state returns \<open>stay\<close>; one that builds a new configuration returns
  \<open>move\<close>, whose constructor check can raise.
\<close>

definition stay :: "string \<Rightarrow> state_config \<Rightarrow> trading_action list \<Rightarrow> outcome_res" where
  "stay tid s acts = Inr (Some (create_transition_outcome tid s acts [] False))"

definition move ::
  "string \<Rightarrow> state_config \<Rightarrow> trading_action list \<Rightarrow> string list \<Rightarrow> bool \<Rightarrow> outcome_res" where
  "move tid s acts extra excl =
     ebind (make_config s) (\<lambda>s'. Inr (Some (create_transition_outcome tid s' acts extra excl)))"

definition no_transition :: outcome_res where
  "no_transition = Inr None"

lemma create_transition_outcome_sel [simp]:
  "oc_transition_ids (create_transition_outcome t s a x e) = t # x"
  "oc_state_after (create_transition_outcome t s a x e) = s"
  "oc_actions (create_transition_outcome t s a x e) = a"
  "oc_exclusive (create_transition_outcome t s a x e) = e"
  by (simp_all add: create_transition_outcome_def)

section \<open>Results\<close>

record stm_result =
  sr_decision_id :: string
  sr_consumed :: bool
  sr_transition_ids :: "string list"
  sr_state_before :: state_config
  sr_state_after :: state_config
  sr_actions :: "trading_action list"
  sr_context_version :: int

section \<open>Transition catalog\<close>

definition two_digits :: "nat \<Rightarrow> string" where
  "two_digits n = (if n < 10 then CHR ''0'' # show_nat n else show_nat n)"

definition build_transition_ids :: "string \<Rightarrow> nat \<Rightarrow> nat \<Rightarrow> string list" where
  "build_transition_ids prefix lo hi =
     map (\<lambda>n. prefix @ ''-'' @ two_digits n) [lo..<Suc hi]"

definition global_transition_ids :: "string list" where
  "global_transition_ids = [''G-01'', ''G-02'', ''G-03'', ''G-04'', ''G-05'', ''G-06'',
     ''G-06P'', ''G-06F'', ''G-06R'', ''G-07'']"

definition ownership_transition_ids :: "string list" where
  "ownership_transition_ids = build_transition_ids ''O'' 1 9"

definition case_b_position_transition_ids :: "string list" where
  "case_b_position_transition_ids =
     build_transition_ids ''PB'' 1 22 @ [''PB-23F'', ''PB-23'', ''PB-24'']"

definition case_c_position_transition_ids :: "string list" where
  "case_c_position_transition_ids =
     build_transition_ids ''PC'' 1 23 @ [''PC-23F''] @ build_transition_ids ''PC'' 24 28"

definition case_b_signal_transition_ids :: "string list" where
  "case_b_signal_transition_ids = build_transition_ids ''B'' 1 19"

definition case_c_signal_transition_ids :: "string list" where
  "case_c_signal_transition_ids = build_transition_ids ''C'' 1 17"

definition transition_ids :: "string list" where
  "transition_ids = global_transition_ids @ ownership_transition_ids @
     case_b_position_transition_ids @ case_c_position_transition_ids @
     case_b_signal_transition_ids @ case_c_signal_transition_ids"

text \<open>The lists with their members written out, for membership tests by the simplifier.\<close>

lemma ownership_transition_ids_eval:
  "ownership_transition_ids = [''O-01'', ''O-02'', ''O-03'', ''O-04'', ''O-05'', ''O-06'', ''O-07'', ''O-08'', ''O-09'']"
  by code_simp

lemma case_b_position_transition_ids_eval:
  "case_b_position_transition_ids = [''PB-01'', ''PB-02'', ''PB-03'', ''PB-04'', ''PB-05'', ''PB-06'', ''PB-07'', ''PB-08'',
     ''PB-09'', ''PB-10'', ''PB-11'', ''PB-12'', ''PB-13'', ''PB-14'', ''PB-15'', ''PB-16'',
     ''PB-17'', ''PB-18'', ''PB-19'', ''PB-20'', ''PB-21'', ''PB-22'', ''PB-23F'', ''PB-23'',
     ''PB-24'']"
  by code_simp

lemma case_c_position_transition_ids_eval:
  "case_c_position_transition_ids = [''PC-01'', ''PC-02'', ''PC-03'', ''PC-04'', ''PC-05'', ''PC-06'', ''PC-07'', ''PC-08'',
     ''PC-09'', ''PC-10'', ''PC-11'', ''PC-12'', ''PC-13'', ''PC-14'', ''PC-15'', ''PC-16'',
     ''PC-17'', ''PC-18'', ''PC-19'', ''PC-20'', ''PC-21'', ''PC-22'', ''PC-23'', ''PC-23F'',
     ''PC-24'', ''PC-25'', ''PC-26'', ''PC-27'', ''PC-28'']"
  by code_simp

lemma case_b_signal_transition_ids_eval:
  "case_b_signal_transition_ids = [''B-01'', ''B-02'', ''B-03'', ''B-04'', ''B-05'', ''B-06'', ''B-07'', ''B-08'',
     ''B-09'', ''B-10'', ''B-11'', ''B-12'', ''B-13'', ''B-14'', ''B-15'', ''B-16'',
     ''B-17'', ''B-18'', ''B-19'']"
  by code_simp

lemma case_c_signal_transition_ids_eval:
  "case_c_signal_transition_ids = [''C-01'', ''C-02'', ''C-03'', ''C-04'', ''C-05'', ''C-06'', ''C-07'', ''C-08'',
     ''C-09'', ''C-10'', ''C-11'', ''C-12'', ''C-13'', ''C-14'', ''C-15'', ''C-16'', ''C-17'']"
  by code_simp

lemmas catalog_evals = global_transition_ids_def ownership_transition_ids_eval
  case_b_position_transition_ids_eval case_c_position_transition_ids_eval
  case_b_signal_transition_ids_eval case_c_signal_transition_ids_eval

lemma transition_ids_set:
  "set transition_ids = set global_transition_ids \<union> set ownership_transition_ids \<union>
     set case_b_position_transition_ids \<union> set case_c_position_transition_ids \<union>
     set case_b_signal_transition_ids \<union> set case_c_signal_transition_ids"
  by (auto simp: transition_ids_def)

end
