(* ===== verification/Trading_Conditions.thy ===== *)
theory Trading_Conditions
  imports Trading_Actions
begin

text \<open>
  The guard conditions of the strategy (\<open>domain/trading/conditions.py\<close>).  A condition compares
  two operands of the decision view; it is undetermined when an operand is missing or not
  finite, and some conditions read a hold flag the market evaluation has computed.
\<close>

section \<open>The table of conditions\<close>

text \<open>The keys of \<open>_DEFINITIONS\<close>.\<close>

datatype condition_id =
    lower_price
  | upper_safe_exit
  | b_touch_bbw
  | b_signal_slope
  | b_signal_pct_b
  | b_signal_low
  | b_pullback
  | b_signal_age
  | b_profit_zone
  | b_take_profit_slope
  | b_trend_slope
  | b_stop
  | b_emergency_stop
  | b_time_exit
  | b_trend_exit_slope
  | b_trend_exit_pct_b
  | c_setup_pct_b
  | c_setup_cci
  | c_flush
  | c_new_low
  | c_rebound
  | c_recovery_window
  | c_entry_limit
  | c_recovery
  | c_profit_zone
  | c_stop
  | c_time_exit
  | c_trail_fallback
  | c_trail_increase
  | c_handoff

text \<open>An operand: a field of the market or the runtime snapshot, a derived value or a constant.\<close>

datatype operand =
    Market_realtime_price
  | Market_lower_band
  | Market_upper_band
  | Market_ema_slope_30m_close
  | Market_pct_b_close
  | Market_current_closed_candle_low
  | Market_realtime_pct_b
  | Market_signal_elapsed
  | Market_realtime_ema_slope
  | Market_holding_elapsed
  | Market_cci_30m_realtime
  | Market_case_c_timer_elapsed
  | Market_current_close_ema_slope
  | Runtime_touch_candle_bbw
  | Runtime_flush_low
  | Runtime_entry_pct_b
  | Runtime_previous_trail_ema_slope
  | Runtime_case_c_exit_pct_b
  | Previous_low
  | Emergency_price
  | Const rat

datatype comparison = Cmp_lt | Cmp_le | Cmp_gt | Cmp_ge

datatype hold_flag =
    Hold_pct_b_at_least_060_for_5s
  | Hold_realtime_slope_above_008_for_5s
  | Hold_realtime_slope_at_most_004_for_5s
  | Hold_pct_b_below_060_for_5s
  | Hold_realtime_slope_at_most_minus_055_for_3m

record condition_row =
  cd_operand :: operand
  cd_comparison :: comparison
  cd_reference :: operand
  cd_source :: string
  cd_hold_flag :: "hold_flag option"
  cd_hold_seconds :: "nat option"

definition cdef ::
  "operand \<Rightarrow> comparison \<Rightarrow> operand \<Rightarrow> string \<Rightarrow> hold_flag option \<Rightarrow> nat option \<Rightarrow>
   condition_row" where
  "cdef a c b src h n = \<lparr>cd_operand = a, cd_comparison = c, cd_reference = b, cd_source = src,
     cd_hold_flag = h, cd_hold_seconds = n\<rparr>"

fun definition_of :: "condition_id \<Rightarrow> condition_row" where
  "definition_of lower_price =
     cdef Market_realtime_price Cmp_le Market_lower_band ''realtime'' None None"
| "definition_of upper_safe_exit =
     cdef Market_realtime_price Cmp_ge Market_upper_band ''realtime'' None None"
| "definition_of b_touch_bbw =
     cdef Runtime_touch_candle_bbw Cmp_lt (Const (2 / 100)) ''touch'' None None"
| "definition_of b_signal_slope =
     cdef Market_ema_slope_30m_close Cmp_gt (Const (- 3 / 100)) ''close_30m'' None None"
| "definition_of b_signal_pct_b =
     cdef Market_pct_b_close Cmp_gt (Const (25 / 100)) ''close_30m'' None None"
| "definition_of b_signal_low =
     cdef Market_current_closed_candle_low Cmp_ge Previous_low ''close_30m'' None None"
| "definition_of b_pullback =
     cdef Market_realtime_pct_b Cmp_le (Const (30 / 100)) ''realtime'' None None"
| "definition_of b_signal_age =
     cdef Market_signal_elapsed Cmp_le (Const 10800) ''elapsed'' None None"
| "definition_of b_profit_zone =
     cdef Market_realtime_pct_b Cmp_ge (Const (60 / 100)) ''realtime'' (Some Hold_pct_b_at_least_060_for_5s) (Some 5)"
| "definition_of b_take_profit_slope =
     cdef Market_realtime_ema_slope Cmp_le (Const (8 / 100)) ''realtime'' None None"
| "definition_of b_trend_slope =
     cdef Market_realtime_ema_slope Cmp_gt (Const (8 / 100)) ''realtime'' (Some Hold_realtime_slope_above_008_for_5s) (Some 5)"
| "definition_of b_stop =
     cdef Market_ema_slope_30m_close Cmp_lt (Const (- 8 / 100)) ''close_30m'' None None"
| "definition_of b_emergency_stop =
     cdef Market_realtime_price Cmp_le Emergency_price ''realtime'' None None"
| "definition_of b_time_exit =
     cdef Market_holding_elapsed Cmp_ge (Const 21600) ''elapsed'' None None"
| "definition_of b_trend_exit_slope =
     cdef Market_realtime_ema_slope Cmp_le (Const (4 / 100)) ''realtime'' (Some Hold_realtime_slope_at_most_004_for_5s) (Some 5)"
| "definition_of b_trend_exit_pct_b =
     cdef Market_realtime_pct_b Cmp_lt (Const (60 / 100)) ''realtime'' (Some Hold_pct_b_below_060_for_5s) (Some 5)"
| "definition_of c_setup_pct_b =
     cdef Market_realtime_pct_b Cmp_le (Const (- 15 / 100)) ''realtime'' None None"
| "definition_of c_setup_cci =
     cdef Market_cci_30m_realtime Cmp_le (Const (- 140)) ''realtime'' None None"
| "definition_of c_flush =
     cdef Market_realtime_pct_b Cmp_le (Const (- 25 / 100)) ''realtime'' None None"
| "definition_of c_new_low =
     cdef Market_realtime_price Cmp_lt Runtime_flush_low ''realtime'' None None"
| "definition_of c_rebound =
     cdef Market_realtime_pct_b Cmp_ge Runtime_entry_pct_b ''realtime'' None None"
| "definition_of c_recovery_window =
     cdef Market_case_c_timer_elapsed Cmp_le (Const 180) ''elapsed'' None None"
| "definition_of c_entry_limit =
     cdef Runtime_entry_pct_b Cmp_lt (Const (- 15 / 100)) ''runtime'' None None"
| "definition_of c_recovery =
     cdef Market_realtime_pct_b Cmp_ge (Const (25 / 100)) ''realtime'' None None"
| "definition_of c_profit_zone =
     cdef Market_realtime_pct_b Cmp_ge (Const (10 / 100)) ''realtime'' None None"
| "definition_of c_stop =
     cdef Market_realtime_ema_slope Cmp_le (Const (- 55 / 100)) ''realtime'' (Some Hold_realtime_slope_at_most_minus_055_for_3m) (Some 180)"
| "definition_of c_time_exit =
     cdef Market_holding_elapsed Cmp_ge (Const 3600) ''elapsed'' None None"
| "definition_of c_trail_fallback =
     cdef Market_realtime_pct_b Cmp_lt (Const (10 / 100)) ''realtime'' None None"
| "definition_of c_trail_increase =
     cdef Market_current_close_ema_slope Cmp_gt Runtime_previous_trail_ema_slope ''close_1m'' None None"
| "definition_of c_handoff =
     cdef Runtime_case_c_exit_pct_b Cmp_lt (Const (40 / 100)) ''runtime'' None None"

section \<open>Evaluation\<close>

definition finite_only :: "decimal \<Rightarrow> decimal option" where
  "finite_only d = (if is_finite d then Some d else None)"

definition finite_opt :: "decimal option \<Rightarrow> decimal option" where
  "finite_opt d = (case d of None \<Rightarrow> None | Some x \<Rightarrow> finite_only x)"

text \<open>A \<open>timedelta\<close> is read in seconds: its microseconds divided by a million, which is exact.\<close>

definition seconds_of :: "timedelta \<Rightarrow> decimal" where
  "seconds_of d = Fin (of_int d / 1000000)"

definition previous_low :: "market_snapshot \<Rightarrow> decimal option" where
  "previous_low m = (case mk_previous_3_closed_candle_lows m of
       [a, b, c] \<Rightarrow> if is_finite a \<and> is_finite b \<and> is_finite c then Some (dmin a [b, c]) else None
     | _ \<Rightarrow> None)"

text \<open>
  \<open>entry_price * Decimal("0.99")\<close>; the product cannot raise, since the constant is neither zero
  nor infinite.
\<close>

definition emergency_price :: "position_snapshot \<Rightarrow> decimal option" where
  "emergency_price p = (case ps_entry_price p of
       None \<Rightarrow> None
     | Some e \<Rightarrow> (case dmul e (Fin (99 / 100)) of Inl _ \<Rightarrow> None | Inr x \<Rightarrow> Some x))"

fun read_operand :: "operand \<Rightarrow> context_view \<Rightarrow> decimal option" where
  "read_operand Market_realtime_price c = finite_only (mk_realtime_price (cv_market c))"
| "read_operand Market_lower_band c = finite_only (mk_lower_band (cv_market c))"
| "read_operand Market_upper_band c = finite_only (mk_upper_band (cv_market c))"
| "read_operand Market_ema_slope_30m_close c = finite_only (mk_ema_slope_30m_close (cv_market c))"
| "read_operand Market_pct_b_close c = finite_only (mk_pct_b_close (cv_market c))"
| "read_operand Market_current_closed_candle_low c = finite_only (mk_current_closed_candle_low (cv_market c))"
| "read_operand Market_realtime_pct_b c = finite_only (mk_realtime_pct_b (cv_market c))"
| "read_operand Market_signal_elapsed c = Some (seconds_of (mk_signal_elapsed (cv_market c)))"
| "read_operand Market_realtime_ema_slope c = finite_only (mk_realtime_ema_slope (cv_market c))"
| "read_operand Market_holding_elapsed c = Some (seconds_of (mk_holding_elapsed (cv_market c)))"
| "read_operand Market_cci_30m_realtime c = finite_only (mk_cci_30m_realtime (cv_market c))"
| "read_operand Market_case_c_timer_elapsed c = Some (seconds_of (mk_case_c_timer_elapsed (cv_market c)))"
| "read_operand Market_current_close_ema_slope c = finite_only (mk_current_close_ema_slope (cv_market c))"
| "read_operand Runtime_touch_candle_bbw c = finite_opt (rt_touch_candle_bbw (cv_runtime c))"
| "read_operand Runtime_flush_low c = finite_opt (rt_flush_low (cv_runtime c))"
| "read_operand Runtime_entry_pct_b c = finite_opt (rt_entry_pct_b (cv_runtime c))"
| "read_operand Runtime_previous_trail_ema_slope c = finite_opt (rt_previous_trail_ema_slope (cv_runtime c))"
| "read_operand Runtime_case_c_exit_pct_b c = finite_opt (rt_case_c_exit_pct_b (cv_runtime c))"
| "read_operand Previous_low c = previous_low (cv_market c)"
| "read_operand Emergency_price c = emergency_price (cv_position c)"
| "read_operand (Const r) c = Some (Fin r)"

fun compare_by :: "comparison \<Rightarrow> decimal \<Rightarrow> decimal \<Rightarrow> bool" where
  "compare_by Cmp_lt x y = dlt x y"
| "compare_by Cmp_le x y = dle x y"
| "compare_by Cmp_gt x y = dlt y x"
| "compare_by Cmp_ge x y = dle y x"

fun read_hold :: "hold_flag \<Rightarrow> market_snapshot \<Rightarrow> bool" where
  "read_hold Hold_pct_b_at_least_060_for_5s m = mk_pct_b_at_least_060_for_5s m"
| "read_hold Hold_realtime_slope_above_008_for_5s m = mk_realtime_slope_above_008_for_5s m"
| "read_hold Hold_realtime_slope_at_most_004_for_5s m = mk_realtime_slope_at_most_004_for_5s m"
| "read_hold Hold_pct_b_below_060_for_5s m = mk_pct_b_below_060_for_5s m"
| "read_hold Hold_realtime_slope_at_most_minus_055_for_3m m = mk_realtime_slope_at_most_minus_055_for_3m m"

record trading_condition =
  tc_condition_id :: condition_id
  tc_value :: "decimal option"
  tc_threshold :: "decimal option"
  tc_comparison :: comparison
  tc_satisfied :: "bool option"
  tc_source :: string
  tc_hold_seconds :: "nat option"

definition condition_satisfied ::
  "condition_id \<Rightarrow> decimal \<Rightarrow> decimal \<Rightarrow> market_snapshot \<Rightarrow> bool" where
  "condition_satisfied cid v t m =
     (let d = definition_of cid in
      case cd_hold_flag d of
        None \<Rightarrow> compare_by (cd_comparison d) v t
      | Some h \<Rightarrow> read_hold h m \<and> (cid = b_trend_slope \<longrightarrow> dlt t v))"

definition evaluate_condition :: "condition_id \<Rightarrow> context_view \<Rightarrow> trading_condition" where
  "evaluate_condition cid c =
     (let d = definition_of cid;
          value = read_operand (cd_operand d) c;
          threshold = read_operand (cd_reference d) c
      in \<lparr>tc_condition_id = cid, tc_value = value, tc_threshold = threshold,
          tc_comparison = cd_comparison d,
          tc_satisfied = (case (value, threshold) of
              (Some v, Some t) \<Rightarrow> Some (condition_satisfied cid v t (cv_market c))
            | _ \<Rightarrow> None),
          tc_source = cd_source d, tc_hold_seconds = cd_hold_seconds d\<rparr>)"

definition condition_met :: "condition_id \<Rightarrow> context_view \<Rightarrow> bool" where
  "condition_met cid c \<longleftrightarrow> tc_satisfied (evaluate_condition cid c) = Some True"

definition condition_unmet :: "condition_id \<Rightarrow> context_view \<Rightarrow> bool" where
  "condition_unmet cid c \<longleftrightarrow> tc_satisfied (evaluate_condition cid c) = Some False"

text \<open>Before the first evaluation only a constant threshold is shown.\<close>

definition unevaluated_condition :: "condition_id \<Rightarrow> trading_condition" where
  "unevaluated_condition cid =
     (let d = definition_of cid in
      \<lparr>tc_condition_id = cid, tc_value = None,
       tc_threshold = (case cd_reference d of Const r \<Rightarrow> Some (Fin r) | _ \<Rightarrow> None),
       tc_comparison = cd_comparison d, tc_satisfied = None, tc_source = cd_source d,
       tc_hold_seconds = cd_hold_seconds d\<rparr>)"

section \<open>Facts about conditions\<close>

lemma cdef_sel [simp]:
  "cd_operand (cdef a c b s h n) = a" "cd_comparison (cdef a c b s h n) = c"
  "cd_reference (cdef a c b s h n) = b" "cd_source (cdef a c b s h n) = s"
  "cd_hold_flag (cdef a c b s h n) = h" "cd_hold_seconds (cdef a c b s h n) = n"
  by (simp_all add: cdef_def)

lemma finite_only_Some [simp]: "finite_only d = Some x \<longleftrightarrow> x = d \<and> is_finite d"
  by (auto simp: finite_only_def)

lemma finite_only_None [simp]: "finite_only d = None \<longleftrightarrow> \<not> is_finite d"
  by (auto simp: finite_only_def)

lemma finite_opt_Some [simp]: "finite_opt d = Some x \<longleftrightarrow> d = Some x \<and> is_finite x"
  by (auto simp: finite_opt_def split: option.splits)

lemma finite_opt_None [simp]: "finite_opt d = None \<longleftrightarrow> (\<forall>x. d = Some x \<longrightarrow> \<not> is_finite x)"
  by (auto simp: finite_opt_def split: option.splits)

lemma seconds_of_simps [simp]:
  "is_finite (seconds_of d)" "dval (seconds_of d) = of_int d / 1000000"
  by (simp_all add: seconds_of_def)

text \<open>A met condition has both operands, and so has an unmet one.\<close>

lemma condition_met_iff:
  "condition_met cid c \<longleftrightarrow>
     (\<exists>v t. read_operand (cd_operand (definition_of cid)) c = Some v \<and>
            read_operand (cd_reference (definition_of cid)) c = Some t \<and>
            condition_satisfied cid v t (cv_market c))"
  by (auto simp: condition_met_def evaluate_condition_def Let_def split: option.splits)

lemma condition_unmet_iff:
  "condition_unmet cid c \<longleftrightarrow>
     (\<exists>v t. read_operand (cd_operand (definition_of cid)) c = Some v \<and>
            read_operand (cd_reference (definition_of cid)) c = Some t \<and>
            \<not> condition_satisfied cid v t (cv_market c))"
  by (auto simp: condition_unmet_def evaluate_condition_def Let_def split: option.splits)

lemma condition_not_both: "condition_met cid c \<Longrightarrow> \<not> condition_unmet cid c"
  by (simp add: condition_met_def condition_unmet_def)

lemma condition_determined:
  "condition_met cid c \<or> condition_unmet cid c \<longleftrightarrow>
     read_operand (cd_operand (definition_of cid)) c \<noteq> None \<and>
     read_operand (cd_reference (definition_of cid)) c \<noteq> None"
  by (auto simp: condition_met_iff condition_unmet_iff)

text \<open>
  Without a hold flag, over finite operands, a condition is the comparison of the two numbers.
\<close>

fun num_compare :: "comparison \<Rightarrow> rat \<Rightarrow> rat \<Rightarrow> bool" where
  "num_compare Cmp_lt x y = (x < y)"
| "num_compare Cmp_le x y = (x \<le> y)"
| "num_compare Cmp_gt x y = (x > y)"
| "num_compare Cmp_ge x y = (x \<ge> y)"

lemma compare_by_finite [simp]:
  "is_finite x \<Longrightarrow> is_finite y \<Longrightarrow> compare_by cmp x y = num_compare cmp (dval x) (dval y)"
  by (cases cmp) simp_all

lemma condition_met_plain:
  assumes "definition_of cid = cdef a cmp b src None n"
  shows "condition_met cid c \<longleftrightarrow>
     (\<exists>v t. read_operand a c = Some v \<and> read_operand b c = Some t \<and> compare_by cmp v t)"
  using assms by (simp add: condition_met_iff condition_satisfied_def)

lemma condition_unmet_plain:
  assumes "definition_of cid = cdef a cmp b src None n"
  shows "condition_unmet cid c \<longleftrightarrow>
     (\<exists>v t. read_operand a c = Some v \<and> read_operand b c = Some t \<and> \<not> compare_by cmp v t)"
  using assms by (simp add: condition_unmet_iff condition_satisfied_def)

end
