(* ===== verification/Transition_Helpers.thy ===== *)
theory Transition_Helpers
  imports Trading_Conditions
begin

text \<open>
  The pure helpers the transition handlers share
  (\<open>domain/trading/transitions/helpers.py\<close>): identifiers of lower events, follow-up events,
  re-evaluations and the pairs of a runtime patch and an order request.
\<close>

section \<open>Lower events\<close>

definition is_lower_touch_condition_met :: "context_view \<Rightarrow> bool" where
  "is_lower_touch_condition_met c = condition_met lower_price c"

definition resolve_lower_event_id :: "trading_event \<Rightarrow> context_view \<Rightarrow> string" where
  "resolve_lower_event_id e c =
     (if truthy (ev_lower_event_id e) \<and> ev_lower_event_id e \<noteq> rt_lower_event_id (cv_runtime c)
      then the (ev_lower_event_id e)
      else ''lower:'' @
           py_or_str (py_or (ev_candle_id e) (mk_current_30m_candle_id (cv_market c))) ''realtime''
           @ '':'' @ show_int (ev_sequence_number e))"

definition create_open_lower_event_action ::
  "trading_event \<Rightarrow> context_view \<Rightarrow> lower_event_request" where
  "create_open_lower_event_action e c =
     (let m = cv_market c in
      \<lparr>le_lower_event_id = resolve_lower_event_id e c,
       le_touch_time = ev_occurred_at e,
       le_candle_id = py_or (ev_candle_id e) (mk_current_30m_candle_id m),
       le_touch_candle_low = mk_current_30m_low m,
       le_lower_band_at_touch = mk_lower_band m,
       le_touch_candle_bbw = mk_touch_candle_bbw m\<rparr>)"

text \<open>The comparison with \<open>0.02\<close> raises when the width is a NaN.\<close>

definition create_lower_event_initialization_patch :: "context_view \<Rightarrow> trading_action res" where
  "create_lower_event_initialization_patch c =
     ebind (dlt_checked (mk_touch_candle_bbw (cv_market c)) (Fin (2 / 100)))
       (\<lambda>enabled. Inr (PatchRuntimeContext
          [Set_case_b_enabled enabled,
           Set_case_c_enabled True,
           Set_allow_new_case_c_setup True,
           Set_case_c_consumed_for_event False,
           Set_case_c_recovery_confirmed False,
           Set_case_c_exit_reason None,
           Set_case_c_exit_pct_b None,
           Set_case_b_entry_paused False,
           Set_case_b_only_until_next_lower_touch False]))"

section \<open>Follow-up events and re-evaluations\<close>

definition create_queue_event_action :: "event_type \<Rightarrow> context_view \<Rightarrow> trading_action" where
  "create_queue_event_action t c = queue_request t (rt_lower_event_id (cv_runtime c))"

text \<open>No caller passes \<open>earliest_delay\<close>, whose default is \<open>None\<close>.\<close>

definition schedule_reevaluation ::
  "event_type \<Rightarrow> context_view \<Rightarrow> string \<Rightarrow> reevaluation_trigger \<Rightarrow> trading_action" where
  "schedule_reevaluation t c reason trigger =
     ScheduleReevaluation \<lparr>re_type = t, re_trigger = trigger, re_earliest_delay = None,
       re_lower_event_id = rt_lower_event_id (cv_runtime c), re_reason = reason\<rparr>"

definition schedule_market_reevaluation ::
  "event_type \<Rightarrow> context_view \<Rightarrow> string \<Rightarrow> trading_action" where
  "schedule_market_reevaluation t c reason =
     schedule_reevaluation t c reason DEADLINE_OR_MARKET_CHANGE"

section \<open>Orders\<close>

definition entry_intent_id :: "strategy_type \<Rightarrow> trading_event \<Rightarrow> context_view \<Rightarrow> string" where
  "entry_intent_id st e c =
     py_or_str (rt_pending_intent_id (cv_runtime c))
       (show_strategy st @ '':BUY:'' @ show_opt (rt_lower_event_id (cv_runtime c)) @ '':''
        @ show_int (ev_sequence_number e))"

definition create_entry_order_actions ::
  "strategy_type \<Rightarrow> order_attempt_kind \<Rightarrow> trading_event \<Rightarrow> context_view \<Rightarrow> trading_action list" where
  "create_entry_order_actions st kind e c =
     (let intent_id = entry_intent_id st e c in
      [PatchRuntimeContext
         [Set_pending_strategy (Some st),
          Set_pending_order_side (Some BUY),
          Set_pending_order_attempt_kind (Some kind),
          Set_pending_intent_id (Some intent_id),
          Set_trading_phase ENTRY_ORDER_PENDING],
       SubmitOrder \<lparr>or_strategy = st, or_side = BUY, or_attempt_kind = kind,
         or_idempotency_key = intent_id, or_exit_reason = None,
         or_exit_pct_b_at_intent = None\<rparr>])"

definition exit_intent_id ::
  "strategy_type \<Rightarrow> exit_reason \<Rightarrow> trading_event \<Rightarrow> context_view \<Rightarrow> string" where
  "exit_intent_id st reason e c =
     py_or_str (rt_pending_intent_id (cv_runtime c))
       (show_strategy st @ '':SELL:'' @ show_exit_reason reason @ '':''
        @ show_opt (rt_lower_event_id (cv_runtime c)) @ '':'' @ show_int (ev_sequence_number e))"

text \<open>Case C fixes the %B of the sell decision at the first attempt and repeats it on a retry.\<close>

definition exit_pct_b_at_intent ::
  "strategy_type \<Rightarrow> order_attempt_kind \<Rightarrow> context_view \<Rightarrow> decimal option" where
  "exit_pct_b_at_intent st kind c =
     (if st = CASE_C
      then if kind = INITIAL then Some (mk_realtime_pct_b (cv_market c))
           else rt_pending_exit_pct_b (cv_runtime c)
      else None)"

definition create_exit_order_actions ::
  "strategy_type \<Rightarrow> exit_reason \<Rightarrow> position_return_state \<Rightarrow> trading_event \<Rightarrow> context_view \<Rightarrow>
   order_attempt_kind \<Rightarrow> trading_action list" where
  "create_exit_order_actions st reason return_state e c kind =
     (let intent_id = exit_intent_id st reason e c;
          pct = exit_pct_b_at_intent st kind c
      in
      [PatchRuntimeContext
         ([Set_pending_strategy (Some st),
           Set_pending_order_side (Some SELL),
           Set_pending_order_attempt_kind (Some kind),
           Set_pending_intent_id (Some intent_id),
           Set_trading_phase EXIT_ORDER_PENDING] @
          (if kind = INITIAL
           then [Set_pending_exit_reason (Some reason),
                 Set_pending_exit_pct_b pct,
                 Set_pending_return_state (Some return_state)]
           else [])),
       SubmitOrder \<lparr>or_strategy = st, or_side = SELL, or_attempt_kind = kind,
         or_idempotency_key = intent_id, or_exit_reason = Some reason,
         or_exit_pct_b_at_intent = pct\<rparr>])"

text \<open>The patch that clears every field of a pending exit.\<close>

definition create_clear_exit_patch :: trading_action where
  "create_clear_exit_patch = PatchRuntimeContext
     [Set_pending_strategy None,
      Set_pending_order_side None,
      Set_pending_order_id None,
      Set_pending_order_attempt_kind None,
      Set_pending_intent_id None,
      Set_pending_exit_reason None,
      Set_pending_exit_pct_b None,
      Set_pending_return_state None,
      Set_trading_phase IDLE]"

text \<open>\<open>_can_start_exit\<close> of both position modules.\<close>

definition can_start_exit :: "context_view \<Rightarrow> bool" where
  "can_start_exit c \<longleftrightarrow> rt_pending_order_id (cv_runtime c) = None \<and>
     rt_pending_exit_reason (cv_runtime c) = None"

text \<open>\<open>_get_sell_attempt_kind\<close> of both position modules.\<close>

definition get_sell_attempt_kind :: "trading_event \<Rightarrow> context_view \<Rightarrow> order_attempt_kind" where
  "get_sell_attempt_kind e c =
     (case ev_payload e of
        Some (SellAttemptPayload kind) \<Rightarrow> kind
      | _ \<Rightarrow> (case rt_pending_order_attempt_kind (cv_runtime c) of
                None \<Rightarrow> INITIAL
              | Some kind \<Rightarrow> kind))"

section \<open>Facts about the helpers\<close>

lemmas helper_action_defs = create_entry_order_actions_def create_exit_order_actions_def
  create_queue_event_action_def queue_request_def schedule_market_reevaluation_def
  schedule_reevaluation_def create_clear_exit_patch_def

lemma order_of_simps [simp]:
  "order_of (create_queue_event_action t c) = None"
  "order_of (queue_request t l) = None"
  "order_of (schedule_market_reevaluation t c r) = None"
  "order_of (schedule_reevaluation t c r g) = None"
  "order_of create_clear_exit_patch = None"
  by (simp_all add: helper_action_defs)

lemma entry_intent_reused:
  "truthy (rt_pending_intent_id (cv_runtime c)) \<Longrightarrow>
     Some (entry_intent_id st e c) = rt_pending_intent_id (cv_runtime c)"
  by (cases "rt_pending_intent_id (cv_runtime c)") (auto simp: entry_intent_id_def py_or_str_def)

lemma exit_intent_reused:
  "truthy (rt_pending_intent_id (cv_runtime c)) \<Longrightarrow>
     Some (exit_intent_id st r e c) = rt_pending_intent_id (cv_runtime c)"
  by (cases "rt_pending_intent_id (cv_runtime c)") (auto simp: exit_intent_id_def py_or_str_def)

end
