(* ===== verification/Region_Contract.thy ===== *)
theory Region_Contract
  imports Transition_Helpers
begin

text \<open>
  What the state machine relies on when it calls a region handler.  Each of the five handlers
  of \<open>domain/trading/transitions\<close> is an instance of the locale \<open>region_handler\<close>; the
  state machine and the context are verified against the locale's facts.
\<close>

section \<open>Safe orders\<close>

text \<open>
  What the controller may rely on for an order requested by a decision taken on the view \<open>c\<close>:
  no order is pending; an existing intent identifier is reused; a BUY has no owner against it;
  a first SELL finds no pending exit and a SELL retry repeats the recorded exit reason.
\<close>

definition order_safe :: "context_view \<Rightarrow> order_request \<Rightarrow> bool" where
  "order_safe c r \<longleftrightarrow>
     rt_pending_order_id (cv_runtime c) = None \<and>
     (truthy (rt_pending_intent_id (cv_runtime c)) \<longrightarrow>
        Some (or_idempotency_key r) = rt_pending_intent_id (cv_runtime c)) \<and>
     (case or_side r of
        BUY \<Rightarrow> rt_position_owner (cv_runtime c) = None \<and> or_exit_reason r = None
      | SELL \<Rightarrow>
          or_exit_reason r \<noteq> None \<and>
          rt_pending_exit_reason (cv_runtime c) =
            (if or_attempt_kind r = INITIAL then None else or_exit_reason r))"

section \<open>Safe patches\<close>

datatype runtime_field =
    POSITION_OWNER | PENDING_STRATEGY | PENDING_ORDER_SIDE | PENDING_ORDER_ID
  | PENDING_ORDER_ATTEMPT_KIND | PENDING_INTENT_ID | TRADING_PHASE | CASE_B_ENABLED
  | CASE_C_ENABLED | CASE_B_ENTRY_PAUSED | CASE_B_ONLY_UNTIL_NEXT_LOWER_TOUCH
  | ALLOW_NEW_CASE_C_SETUP | CASE_C_CONSUMED_FOR_EVENT | CASE_C_RECOVERY_CONFIRMED
  | SIGNAL_CREATED | SIGNAL_CANDLE_ID | SIGNAL_TIME | LAST_CASE_C_SETUP_CANDLE_ID
  | FLUSH_LOW | FLUSH_LOW_PCT_B | FLUSH_LOW_TIME | CURRENT_OPEN_PCT_B | TIMER_BASE_PCT_B
  | TIMER_BASE_TIME | ENTRY_PCT_B | TP_PRICE | PREVIOUS_TRAIL_EMA_SLOPE
  | PENDING_EXIT_REASON | PENDING_EXIT_PCT_B | PENDING_RETURN_STATE | CASE_B_EXIT_REASON
  | CASE_C_EXIT_REASON | CASE_C_EXIT_PCT_B

fun change_field :: "runtime_change \<Rightarrow> runtime_field" where
  "change_field (Set_position_owner x) = POSITION_OWNER"
| "change_field (Set_pending_strategy x) = PENDING_STRATEGY"
| "change_field (Set_pending_order_side x) = PENDING_ORDER_SIDE"
| "change_field (Set_pending_order_id x) = PENDING_ORDER_ID"
| "change_field (Set_pending_order_attempt_kind x) = PENDING_ORDER_ATTEMPT_KIND"
| "change_field (Set_pending_intent_id x) = PENDING_INTENT_ID"
| "change_field (Set_trading_phase y) = TRADING_PHASE"
| "change_field (Set_case_b_enabled b) = CASE_B_ENABLED"
| "change_field (Set_case_c_enabled b) = CASE_C_ENABLED"
| "change_field (Set_case_b_entry_paused b) = CASE_B_ENTRY_PAUSED"
| "change_field (Set_case_b_only_until_next_lower_touch b) = CASE_B_ONLY_UNTIL_NEXT_LOWER_TOUCH"
| "change_field (Set_allow_new_case_c_setup b) = ALLOW_NEW_CASE_C_SETUP"
| "change_field (Set_case_c_consumed_for_event b) = CASE_C_CONSUMED_FOR_EVENT"
| "change_field (Set_case_c_recovery_confirmed b) = CASE_C_RECOVERY_CONFIRMED"
| "change_field (Set_signal_created b) = SIGNAL_CREATED"
| "change_field (Set_signal_candle_id x) = SIGNAL_CANDLE_ID"
| "change_field (Set_signal_time x) = SIGNAL_TIME"
| "change_field (Set_last_case_c_setup_candle_id x) = LAST_CASE_C_SETUP_CANDLE_ID"
| "change_field (Set_flush_low x) = FLUSH_LOW"
| "change_field (Set_flush_low_pct_b x) = FLUSH_LOW_PCT_B"
| "change_field (Set_flush_low_time x) = FLUSH_LOW_TIME"
| "change_field (Set_current_open_pct_b x) = CURRENT_OPEN_PCT_B"
| "change_field (Set_timer_base_pct_b x) = TIMER_BASE_PCT_B"
| "change_field (Set_timer_base_time x) = TIMER_BASE_TIME"
| "change_field (Set_entry_pct_b x) = ENTRY_PCT_B"
| "change_field (Set_tp_price x) = TP_PRICE"
| "change_field (Set_previous_trail_ema_slope x) = PREVIOUS_TRAIL_EMA_SLOPE"
| "change_field (Set_pending_exit_reason x) = PENDING_EXIT_REASON"
| "change_field (Set_pending_exit_pct_b x) = PENDING_EXIT_PCT_B"
| "change_field (Set_pending_return_state x) = PENDING_RETURN_STATE"
| "change_field (Set_case_b_exit_reason x) = CASE_B_EXIT_REASON"
| "change_field (Set_case_c_exit_reason x) = CASE_C_EXIT_REASON"
| "change_field (Set_case_c_exit_pct_b x) = CASE_C_EXIT_PCT_B"

text \<open>
  A patch never installs an owner or an order identifier and never writes a naive time stamp.
\<close>

fun safe_change :: "runtime_change \<Rightarrow> bool" where
  "safe_change (Set_position_owner x) = (x = None)"
| "safe_change (Set_pending_order_id x) = (x = None)"
| "safe_change (Set_signal_time x) = opt_aware x"
| "safe_change (Set_flush_low_time x) = opt_aware x"
| "safe_change (Set_timer_base_time x) = opt_aware x"
| "safe_change _ = True"

text \<open>The fields of an exit are written together.\<close>

fun sets_reason :: "runtime_change \<Rightarrow> bool" where
  "sets_reason (Set_pending_exit_reason x) = (x \<noteq> None)"
| "sets_reason _ = False"

fun clears_reason :: "runtime_change \<Rightarrow> bool" where
  "clears_reason (Set_pending_exit_reason x) = (x = None)"
| "clears_reason _ = False"

fun sets_exit_detail :: "runtime_change \<Rightarrow> bool" where
  "sets_exit_detail (Set_pending_exit_pct_b x) = (x \<noteq> None)"
| "sets_exit_detail (Set_pending_return_state x) = (x \<noteq> None)"
| "sets_exit_detail _ = False"

definition patch_safe :: "runtime_change list \<Rightarrow> bool" where
  "patch_safe cs \<longleftrightarrow>
     distinct (map change_field cs) \<and> list_all safe_change cs \<and>
     (list_ex clears_reason cs \<longrightarrow>
        Set_pending_exit_pct_b None \<in> set cs \<and> Set_pending_return_state None \<in> set cs) \<and>
     (list_ex sets_exit_detail cs \<longrightarrow> list_ex sets_reason cs)"

section \<open>Good outcomes\<close>

text \<open>The inputs are well formed: aware times, a valid market evaluation.\<close>

definition inputs_ok :: "trading_event \<Rightarrow> context_view \<Rightarrow> bool" where
  "inputs_ok e c \<longleftrightarrow> event_ok e \<and> market_ok (cv_market c) \<and> is_aware (cv_evaluated_at c)"

text \<open>
  The raw comparisons and the arithmetic of the handlers read these three market values; a NaN
  width, or a band that is not a number, is the only thing they can fail on.
\<close>

definition raw_unfit :: "market_snapshot \<Rightarrow> bool" where
  "raw_unfit m \<longleftrightarrow> mk_touch_candle_bbw m = NaN \<or>
     \<not> is_finite (mk_upper_band m) \<or> \<not> is_finite (mk_lower_band m)"

text \<open>
  The event types that come from outside the handlers: the user, the market, the outcome of an
  order, and the completion event of the state machine itself.  A handler that could queue one of
  them could invent a fill or a stop.
\<close>

fun external_event :: "event_type \<Rightarrow> bool" where
  "external_event MARKET_DATA_UPDATED = True"
| "external_event LOGIC_STARTED = True"
| "external_event LOWER_BAND_TOUCHED = True"
| "external_event NEW_30M_LOWER_BAND_TOUCHED = True"
| "external_event UPPER_BAND_TOUCHED = True"
| "external_event STOP_CONFIRMED = True"
| "external_event TRADE_MANAGEMENT_COMPLETED = True"
| "external_event FORCE_SELL_FINISHED = True"
| "external_event FORCE_SELL_FAILED = True"
| "external_event CASE_B_POSITION_OPENED = True"
| "external_event CASE_C_POSITION_OPENED = True"
| "external_event CASE_B_BUY_FAILED = True"
| "external_event CASE_C_BUY_FAILED = True"
| "external_event CASE_B_SELL_FAILED = True"
| "external_event CASE_C_SELL_FAILED = True"
| "external_event CASE_B_SELL_FILLED = True"
| "external_event CASE_C_SELL_FILLED = True"
| "external_event BUY_RISK_BLOCKED = True"
| "external_event SELL_PREPARATION_DEFERRED = True"
| "external_event ORDER_PREPARATION_EXPIRED = True"
| "external_event _ = False"

definition action_ok ::
  "(event_type \<Rightarrow> order_request \<Rightarrow> bool) \<Rightarrow> trading_event \<Rightarrow> context_view \<Rightarrow> trading_action \<Rightarrow> bool" where
  "action_ok P e c a \<longleftrightarrow>
     (case a of
        SubmitOrder r \<Rightarrow> order_safe c r \<and> P (ev_type e) r
      | PatchRuntimeContext cs \<Rightarrow> inputs_ok e c \<longrightarrow> patch_safe cs
      | QueueEvent q \<Rightarrow> \<not> external_event (qe_type q)
      | ScheduleReevaluation q \<Rightarrow> \<not> external_event (re_type q)
      | _ \<Rightarrow> True)"

definition orders :: "trading_action list \<Rightarrow> order_request list" where
  "orders acts = List.map_filter order_of acts"

definition actions_ok ::
  "(event_type \<Rightarrow> order_request \<Rightarrow> bool) \<Rightarrow> trading_event \<Rightarrow> context_view \<Rightarrow> trading_action list \<Rightarrow>
   bool" where
  "actions_ok P e c acts \<longleftrightarrow> list_all (action_ok P e c) acts \<and> length (orders acts) \<le> 1"

definition outcome_ok ::
  "(event_type \<Rightarrow> order_request \<Rightarrow> bool) \<Rightarrow> trading_event \<Rightarrow> context_view \<Rightarrow> transition_outcome \<Rightarrow>
   bool" where
  "outcome_ok P e c oc \<longleftrightarrow>
     config_ok (oc_state_after oc) \<and> set (oc_transition_ids oc) \<subseteq> set transition_ids \<and>
     actions_ok P e c (oc_actions oc)"

text \<open>A handler raises only on unfit market values, and what it returns is a good outcome.\<close>

definition good ::
  "(event_type \<Rightarrow> order_request \<Rightarrow> bool) \<Rightarrow> trading_event \<Rightarrow> context_view \<Rightarrow> outcome_res \<Rightarrow> bool" where
  "good P e c m \<longleftrightarrow>
     (case m of
        Inl err \<Rightarrow> err = InvalidOperation \<and> raw_unfit (cv_market c)
      | Inr None \<Rightarrow> True
      | Inr (Some oc) \<Rightarrow> outcome_ok P e c oc)"

subsection \<open>Composition\<close>

lemma orders_simps [simp]:
  "orders [] = []"
  "orders (a # as) = (case order_of a of None \<Rightarrow> orders as | Some r \<Rightarrow> r # orders as)"
  "orders (xs @ ys) = orders xs @ orders ys"
  by (simp_all add: orders_def List.map_filter_def split: option.splits)

lemma orders_set: "r \<in> set (orders acts) \<longleftrightarrow> SubmitOrder r \<in> set acts"
proof (induction acts)
  case (Cons a acts)
  then show ?case by (cases a) auto
qed simp

lemma good_no_transition [simp]: "good P e c no_transition"
  by (simp add: good_def no_transition_def)

lemma good_stay:
  "tid \<in> set transition_ids \<Longrightarrow> config_ok s \<Longrightarrow> actions_ok P e c acts \<Longrightarrow>
   good P e c (stay tid s acts)"
  by (simp add: good_def stay_def outcome_ok_def)

lemma good_move:
  "tid \<in> set transition_ids \<Longrightarrow> set extra \<subseteq> set transition_ids \<Longrightarrow> config_ok s \<Longrightarrow>
   actions_ok P e c acts \<Longrightarrow> good P e c (move tid s acts extra excl)"
  by (simp add: good_def move_def outcome_ok_def)

lemma good_if [intro]:
  "(b \<Longrightarrow> good P e c x) \<Longrightarrow> (\<not> b \<Longrightarrow> good P e c y) \<Longrightarrow> good P e c (if b then x else y)"
  by simp

lemma good_mono:
  assumes "good P e c m" and "\<And>r. P (ev_type e) r \<Longrightarrow> Q (ev_type e) r"
  shows "good Q e c m"
  using assms
  by (auto simp: good_def outcome_ok_def actions_ok_def action_ok_def list_all_iff
      split: sum.splits option.splits trading_action.splits)

lemma actions_ok_Nil [simp]: "actions_ok P e c []"
  by (simp add: actions_ok_def)

lemma actions_ok_Cons [simp]:
  "order_of a = None \<Longrightarrow> actions_ok P e c (a # as) \<longleftrightarrow> action_ok P e c a \<and> actions_ok P e c as"
  by (auto simp: actions_ok_def)

lemma action_ok_simps [simp]:
  "action_ok P e c (PatchRuntimeContext cs) \<longleftrightarrow> (inputs_ok e c \<longrightarrow> patch_safe cs)"
  "action_ok P e c (OpenLowerEvent r)" "action_ok P e c (CloseLowerEvent x)"
  "action_ok P e c (ResetCaseBContext b)" "action_ok P e c (ResetCaseCContext b b')"
  "action_ok P e c (QueueEvent q) \<longleftrightarrow> \<not> external_event (qe_type q)"
  "action_ok P e c (ScheduleReevaluation q') \<longleftrightarrow> \<not> external_event (re_type q')"
  "action_ok P e c (CancelScheduledEvaluation x)" "action_ok P e c (CancelPendingOrder y x)"
  "action_ok P e c (ForceSellAll b b')" "action_ok P e c (StopTradingRuntime x)"
  "action_ok P e c (ReconcileOrder x b)"
  "action_ok P e c (SubmitOrder r') \<longleftrightarrow> order_safe c r' \<and> P (ev_type e) r'"
  by (simp_all add: action_ok_def)

lemma action_ok_helpers [simp]:
  "action_ok P e c (create_queue_event_action t c') \<longleftrightarrow> \<not> external_event t"
  "action_ok P e c (queue_request t l) \<longleftrightarrow> \<not> external_event t"
  "action_ok P e c (schedule_market_reevaluation t c' r) \<longleftrightarrow> \<not> external_event t"
  "action_ok P e c (schedule_reevaluation t c' r g) \<longleftrightarrow> \<not> external_event t"
  by (simp_all add: helper_action_defs)

lemma patch_safe_clear_exit [simp]: "action_ok P e c create_clear_exit_patch"
  by (simp add: create_clear_exit_patch_def patch_safe_def)

lemma actions_ok_entry:
  assumes "rt_pending_order_id (cv_runtime c) = None" "rt_position_owner (cv_runtime c) = None"
    and "\<And>r. or_strategy r = st \<Longrightarrow> or_side r = BUY \<Longrightarrow> P (ev_type e) r"
  shows "actions_ok P e c (create_entry_order_actions st kind e c)"
  using assms
  by (simp add: create_entry_order_actions_def Let_def actions_ok_def order_safe_def
      patch_safe_def entry_intent_reused)

lemma actions_ok_first_exit:
  assumes "can_start_exit c"
    and "\<And>r. or_strategy r = st \<Longrightarrow> or_side r = SELL \<Longrightarrow> P (ev_type e) r"
  shows "actions_ok P e c (create_exit_order_actions st reason ret e c INITIAL)"
  using assms
  by (simp add: create_exit_order_actions_def Let_def actions_ok_def order_safe_def
      patch_safe_def exit_intent_reused can_start_exit_def)

lemma actions_ok_retry_exit:
  assumes "rt_pending_order_id (cv_runtime c) = None"
    and "rt_pending_exit_reason (cv_runtime c) = Some reason"
    and "\<And>r. or_strategy r = st \<Longrightarrow> or_side r = SELL \<Longrightarrow> P (ev_type e) r"
  shows "actions_ok P e c (create_exit_order_actions st reason ret e c RETRY)"
  using assms
  by (simp add: create_exit_order_actions_def Let_def actions_ok_def order_safe_def
      patch_safe_def exit_intent_reused)

lemma good_initialization:
  assumes "\<And>cs. patch_safe cs \<Longrightarrow> good P e c (f (PatchRuntimeContext cs))"
  shows "good P e c (ebind (create_lower_event_initialization_patch c) f)"
proof (cases "mk_touch_candle_bbw (cv_market c) = NaN")
  case True
  then show ?thesis
    by (simp add: create_lower_event_initialization_patch_def dlt_checked_def good_def raw_unfit_def)
next
  case False
  then show ?thesis
    by (simp add: create_lower_event_initialization_patch_def dlt_checked_def)
      (rule assms, simp add: patch_safe_def)
qed

lemma orders_entry [simp]:
  "orders (create_entry_order_actions st kind e c) =
     [\<lparr>or_strategy = st, or_side = BUY, or_attempt_kind = kind,
       or_idempotency_key = entry_intent_id st e c, or_exit_reason = None,
       or_exit_pct_b_at_intent = None\<rparr>]"
  by (simp add: create_entry_order_actions_def Let_def)

lemma initialization_patch_order_of [simp]:
  "create_lower_event_initialization_patch c = Inr a \<Longrightarrow> order_of a = None"
  by (auto simp: create_lower_event_initialization_patch_def ebind_eq_Inr)

section \<open>Postconditions\<close>

text \<open>What every outcome a handler selects satisfies, with the rules of its building blocks.\<close>

definition ensures :: "(transition_outcome \<Rightarrow> bool) \<Rightarrow> outcome_res \<Rightarrow> bool" where
  "ensures Q m \<longleftrightarrow> (\<forall>oc. m = Inr (Some oc) \<longrightarrow> Q oc)"

lemma ensuresD: "ensures Q m \<Longrightarrow> m = Inr (Some oc) \<Longrightarrow> Q oc"
  by (simp add: ensures_def)

lemma ensures_stay:
  "Q (create_transition_outcome tid s acts [] False) \<Longrightarrow> ensures Q (stay tid s acts)"
  by (simp add: ensures_def stay_def)

lemma ensures_move:
  "Q (create_transition_outcome tid s acts extra excl) \<Longrightarrow> ensures Q (move tid s acts extra excl)"
  by (simp add: ensures_def move_def make_config_def)

lemma ensures_none: "ensures Q no_transition"
  by (simp add: ensures_def no_transition_def)

lemma ensures_if:
  "(b \<Longrightarrow> ensures Q x) \<Longrightarrow> (\<not> b \<Longrightarrow> ensures Q y) \<Longrightarrow> ensures Q (if b then x else y)"
  by simp

lemma ensures_ebind: "(\<And>x. m = Inr x \<Longrightarrow> ensures Q (f x)) \<Longrightarrow> ensures Q (ebind m f)"
  by (auto simp: ensures_def ebind_eq_Inr)

lemma ensures_or_else:
  "ensures Q m \<Longrightarrow> ensures Q n \<Longrightarrow>
   ensures Q (ebind m (\<lambda>x. case x of Some oc \<Rightarrow> Inr (Some oc) | None \<Rightarrow> n))"
  by (auto simp: ensures_def ebind_eq_Inr split: option.splits)

lemmas ensures_rules = ensures_stay ensures_move ensures_none ensures_if ensures_ebind

lemma move_eq_Some:
  "move tid s acts extra excl = Inr (Some oc) \<longleftrightarrow>
     config_ok s \<and> oc = create_transition_outcome tid s acts extra excl"
  by (auto simp: move_def make_config_def)

lemma move_not_None [simp]: "move tid s acts extra excl \<noteq> Inr None"
  by (simp add: move_def make_config_def)

lemma no_transition_neq [simp]: "no_transition \<noteq> Inr (Some oc)"
  by (simp add: no_transition_def)

lemma good_or_else:
  "good P e c m \<Longrightarrow> good P e c n \<Longrightarrow>
   good P e c (ebind m (\<lambda>x. case x of Some oc \<Rightarrow> Inr (Some oc) | None \<Rightarrow> n))"
  by (cases m) (auto simp: good_def split: option.splits)

section \<open>The contract of a region\<close>

locale region_handler =
  fixes handle :: "state_config \<Rightarrow> trading_event \<Rightarrow> context_view \<Rightarrow> outcome_res"
    and active :: "state_config \<Rightarrow> bool"
    and may_order :: "event_type \<Rightarrow> order_request \<Rightarrow> bool"
  assumes good: "config_ok s \<Longrightarrow> active s \<Longrightarrow> good may_order e c (handle s e c)"
begin

lemma returns:
  assumes "config_ok s" "active s" "\<not> raw_unfit (cv_market c)"
  obtains oc where "handle s e c = Inr oc"
  using good [OF assms(1,2), of e c] assms(3) by (auto simp: good_def split: sum.splits)

lemma error_is_unfit:
  assumes "config_ok s" "active s" "handle s e c = Inl err"
  shows "err = InvalidOperation \<and> raw_unfit (cv_market c)"
  using good [OF assms(1,2), of e c] assms(3) by (simp add: good_def)

lemma outcome:
  assumes "config_ok s" "active s" "handle s e c = Inr (Some oc)"
  shows "outcome_ok may_order e c oc"
  using good [OF assms(1,2), of e c] assms(3) by (simp add: good_def)

lemma valid_after:
  assumes "config_ok s" "active s" "handle s e c = Inr (Some oc)"
  shows "config_ok (oc_state_after oc)"
  using outcome [OF assms] by (simp add: outcome_ok_def)

lemma known_ids:
  assumes "config_ok s" "active s" "handle s e c = Inr (Some oc)"
  shows "set (oc_transition_ids oc) \<subseteq> set transition_ids"
  using outcome [OF assms] by (simp add: outcome_ok_def)

lemma at_most_one_order:
  assumes "config_ok s" "active s" "handle s e c = Inr (Some oc)"
  shows "length (orders (oc_actions oc)) \<le> 1"
  using outcome [OF assms] by (simp add: outcome_ok_def actions_ok_def)

lemma order_allowed:
  assumes "config_ok s" "active s" "handle s e c = Inr (Some oc)" "r \<in> set (orders (oc_actions oc))"
  shows "order_safe c r \<and> may_order (ev_type e) r"
  using outcome [OF assms(1-3)] assms(4)
  by (auto simp: outcome_ok_def actions_ok_def list_all_iff orders_set action_ok_def)

lemma queues_no_outcome:
  assumes "config_ok s" "active s" "handle s e c = Inr (Some oc)" "QueueEvent q \<in> set (oc_actions oc)"
  shows "\<not> external_event (qe_type q)"
  using outcome [OF assms(1-3)] assms(4)
  by (auto simp: outcome_ok_def actions_ok_def list_all_iff dest!: bspec)

lemma no_order:
  assumes "config_ok s" "active s" "handle s e c = Inr (Some oc)" "\<And>r. \<not> may_order (ev_type e) r"
  shows "orders (oc_actions oc) = []"
  using order_allowed [OF assms(1-3)] assms(4) by (cases "orders (oc_actions oc)") auto

end

end
