(* ===== verification/Global_Transitions.thy ===== *)
theory Global_Transitions
  imports Region_Contract
begin

text \<open>
  The root transitions G-01 to G-07 (\<open>transitions/global_transitions.py\<close>): the session start,
  the first lower touch and its renewal, the completion of trade management, the STOP paths and
  the return at the upper band.  The last section fixes the life cycle of the root state.
\<close>

section \<open>The handlers\<close>

definition create_inactive_configuration :: "root_state \<Rightarrow> state_config" where
  "create_inactive_configuration r = inactive_config r"

text \<open>The patch of G-01 and G-07; G-06F writes the same fields with another phase.\<close>

definition clear_session_patch :: "trading_phase \<Rightarrow> trading_action" where
  "clear_session_patch phase = PatchRuntimeContext
     [Set_position_owner None, Set_pending_strategy None, Set_pending_order_side None,
      Set_pending_order_id None, Set_pending_order_attempt_kind None, Set_pending_intent_id None,
      Set_pending_exit_reason None, Set_pending_exit_pct_b None, Set_pending_return_state None,
      Set_trading_phase phase]"

definition handle_upper_band_touch :: "state_config \<Rightarrow> context_view \<Rightarrow> bool \<Rightarrow> outcome_res" where
  "handle_upper_band_touch s c is_market_observation =
     (let r = cv_runtime c in
      if rt_pending_order_id r \<noteq> None \<or> rt_pending_intent_id r \<noteq> None \<or> is_open (cv_position c)
      then if is_market_observation then no_transition
           else Inr (Some (create_transition_outcome ''G-07'' s [] [] True))
      else move ''G-07'' (create_inactive_configuration LOWER_TOUCH_WATCH)
             [CloseLowerEvent ''UPPER_BAND_RETURN_TO_LOWER_WATCH'',
              ResetCaseBContext False,
              ResetCaseCContext False False,
              clear_session_patch IDLE,
              CancelScheduledEvaluation ''lower-event'']
             [] True)"

definition is_market_observation :: "trading_event \<Rightarrow> bool" where
  "is_market_observation e \<longleftrightarrow>
     ev_type e = MARKET_DATA_UPDATED \<and> ev_market_evaluation e \<noteq> None"

text \<open>The actions shared by G-02 and G-03 after the optional close of the old event.\<close>

definition open_lower_event ::
  "string \<Rightarrow> trading_action list \<Rightarrow> trading_event \<Rightarrow> context_view \<Rightarrow> outcome_res" where
  "open_lower_event tid first_actions e c =
     ebind (create_lower_event_initialization_patch c) (\<lambda>initialization.
       move tid trade_management_initial
         (first_actions @
          [OpenLowerEvent (create_open_lower_event_action e c),
           initialization,
           PatchRuntimeContext [Set_position_owner None],
           queue_request ACTIVATE_TRADE_MANAGEMENT (Some (resolve_lower_event_id e c))])
         [''O-01'', ''C-01'', ''B-01''] True)"

definition can_open_first :: "state_config \<Rightarrow> trading_event \<Rightarrow> context_view \<Rightarrow> bool" where
  "can_open_first s e c \<longleftrightarrow>
     st_root s = LOWER_TOUCH_WATCH \<and>
     (ev_type e = LOWER_BAND_TOUCHED \<or>
      (is_market_observation e \<and> rt_lower_event_id (cv_runtime c) = None))"

definition can_renew :: "state_config \<Rightarrow> trading_event \<Rightarrow> context_view \<Rightarrow> bool" where
  "can_renew s e c \<longleftrightarrow>
     (let r = cv_runtime c; m = cv_market c in
      st_root s = TRADE_MANAGEMENT \<and>
      (ev_type e = NEW_30M_LOWER_BAND_TOUCHED \<or>
       (is_market_observation e \<and> rt_lower_event_id r \<noteq> None \<and>
        mk_current_30m_candle_id m \<noteq> None)) \<and>
      rt_position_owner r = None \<and> rt_pending_order_id r = None \<and>
      mk_current_30m_candle_id m \<noteq> rt_touch_candle_id r \<and>
      (\<not> rt_case_c_consumed_for_event r \<or> rt_case_c_recovery_confirmed r))"

text \<open>The raw comparisons with zero raise on a NaN; they run for market observations only.\<close>

definition handle_band_touch :: "state_config \<Rightarrow> trading_event \<Rightarrow> context_view \<Rightarrow> outcome_res" where
  "handle_band_touch s e c =
     ebind (if ev_type e = UPPER_BAND_TOUCHED then Inr True
            else if is_market_observation e then dlt_checked dzero (mk_upper_band (cv_market c))
            else Inr False) (\<lambda>upper.
     if upper \<and> condition_met upper_safe_exit c
     then if st_root s = TRADE_MANAGEMENT
          then handle_upper_band_touch s c (is_market_observation e)
          else no_transition
     else if \<not> is_market_observation e \<and>
             ev_type e \<noteq> LOWER_BAND_TOUCHED \<and> ev_type e \<noteq> NEW_30M_LOWER_BAND_TOUCHED
     then no_transition
     else
     ebind (if is_market_observation e then dle_checked (mk_lower_band (cv_market c)) dzero
            else Inr False) (\<lambda>no_band.
     if no_band then no_transition
     else if \<not> is_lower_touch_condition_met c then no_transition
     else if can_open_first s e c then open_lower_event ''G-02'' [] e c
     else if can_renew s e c
     then open_lower_event ''G-03'' [CloseLowerEvent ''NEW_30M_LOWER_TOUCH''] e c
     else no_transition))"

text \<open>The value of the position state that owns the strategy's position.\<close>

definition strategy_position_value :: "strategy_type \<Rightarrow> state_config \<Rightarrow> string option" where
  "strategy_position_value st s =
     (if st = CASE_B then map_option b_position_value (st_b_position s)
      else map_option c_position_value (st_c_position s))"

text \<open>A SELL whose preparation was deferred releases its reservation and keeps the state.\<close>

definition handle_sell_deferred ::
  "state_config \<Rightarrow> trading_event \<Rightarrow> context_view \<Rightarrow> outcome_res" where
  "handle_sell_deferred s e c =
     (case ev_payload e of
        Some (SellPreparationDeferredPayload st intent) \<Rightarrow>
          (let r = cv_runtime c; pos = strategy_position_value st s in
           if st_root s \<noteq> TRADE_MANAGEMENT \<or> \<not> is_open (cv_position c)
              \<or> rt_position_owner r \<noteq> Some st \<or> rt_pending_strategy r \<noteq> Some st
              \<or> rt_pending_intent_id r \<noteq> Some intent \<or> rt_pending_order_id r \<noteq> None
              \<or> rt_pending_order_side r \<noteq> Some SELL \<or> rt_pending_return_state r = None
              \<or> pos = None \<or> pos \<noteq> map_option return_value (rt_pending_return_state r)
           then no_transition
           else Inr (Some \<lparr>oc_transition_ids = [], oc_state_after = s,
             oc_actions = [PatchRuntimeContext
               [Set_pending_strategy None, Set_pending_order_side None,
                Set_pending_order_id None, Set_pending_order_attempt_kind None,
                Set_pending_intent_id None, Set_pending_exit_reason None,
                Set_pending_exit_pct_b None, Set_pending_return_state None,
                Set_trading_phase IDLE]],
             oc_exclusive = True\<rparr>))
      | _ \<Rightarrow> no_transition)"

definition handle_stop :: "state_config \<Rightarrow> context_view \<Rightarrow> outcome_res" where
  "handle_stop s c =
     (if st_root s = LOGIC_TERMINATED \<or> st_root s = STOPPING then no_transition
      else case rt_pending_order_id (cv_runtime c) of
        Some oid \<Rightarrow>
          move ''G-06P'' (create_inactive_configuration STOPPING)
            ([PatchRuntimeContext [Set_trading_phase PHASE_STOPPING]] @
             (if rt_pending_order_side (cv_runtime c) = Some BUY
              then [CancelPendingOrder (Some oid) ''STOP_CONFIRMED''] else []) @
             [ReconcileOrder oid True])
            [] True
      | None \<Rightarrow>
          if is_open (cv_position c)
          then move ''G-06'' (create_inactive_configuration STOPPING)
                 [PatchRuntimeContext [Set_trading_phase PHASE_STOPPING],
                  CancelScheduledEvaluation ''trading-strategy'',
                  ForceSellAll False False]
                 [] True
          else move ''G-05'' (create_inactive_configuration LOGIC_TERMINATED)
                 [CloseLowerEvent ''STOP_WITHOUT_POSITION'',
                  ResetCaseBContext False,
                  ResetCaseCContext False False,
                  PatchRuntimeContext
                    [Set_position_owner None, Set_pending_strategy None,
                     Set_pending_order_side None, Set_pending_order_id None,
                     Set_pending_order_attempt_kind None, Set_pending_intent_id None,
                     Set_trading_phase TERMINATED],
                  CancelScheduledEvaluation ''trading-session'',
                  StopTradingRuntime ''STOP_WITHOUT_POSITION'']
                 [] True)"

definition is_force_sell_completion_valid :: "trading_event \<Rightarrow> bool" where
  "is_force_sell_completion_valid e \<longleftrightarrow>
     (case ev_payload e of
        Some (ForceSellOutcomePayload applied persisted unfilled) \<Rightarrow> applied \<and> persisted
      | _ \<Rightarrow> False)"

definition is_force_sell_failure_terminal :: "trading_event \<Rightarrow> bool" where
  "is_force_sell_failure_terminal e \<longleftrightarrow>
     (case ev_payload e of
        Some (ForceSellOutcomePayload applied persisted unfilled) \<Rightarrow> unfilled
      | _ \<Rightarrow> False)"

definition force_sell_finished :: outcome_res where
  "force_sell_finished =
     move ''G-06F'' (create_inactive_configuration LOGIC_TERMINATED)
       [CloseLowerEvent ''FORCE_SELL_FINISHED'',
        ResetCaseBContext False,
        ResetCaseCContext False False,
        clear_session_patch TERMINATED,
        CancelScheduledEvaluation ''trading-session'',
        StopTradingRuntime ''FORCE_SELL_FINISHED'']
       [] True"

definition force_sell_retry :: "state_config \<Rightarrow> outcome_res" where
  "force_sell_retry s =
     Inr (Some (create_transition_outcome ''G-06R'' s [ForceSellAll True True] [] True))"

definition logic_started :: outcome_res where
  "logic_started =
     move ''G-01'' (create_inactive_configuration LOWER_TOUCH_WATCH)
       [ResetCaseBContext False, ResetCaseCContext False False, clear_session_patch IDLE] [] True"

definition trade_management_completed :: outcome_res where
  "trade_management_completed =
     move ''G-04'' (create_inactive_configuration LOWER_TOUCH_WATCH)
       [CloseLowerEvent ''TRADE_MANAGEMENT_COMPLETED'', CancelScheduledEvaluation ''lower-event'']
       [] True"

text \<open>The root decisions after the band touch has been ruled out.\<close>

definition handle_session :: "state_config \<Rightarrow> trading_event \<Rightarrow> context_view \<Rightarrow> outcome_res" where
  "handle_session s e c =
     (if st_root s = NOT_STARTED \<and> ev_type e = LOGIC_STARTED then logic_started
      else if st_root s = TRADE_MANAGEMENT \<and> ev_type e = TRADE_MANAGEMENT_COMPLETED \<and>
              rt_position_owner (cv_runtime c) = None \<and> trade_management_is_complete s
      then trade_management_completed
      else no_transition)"

definition handle_global_transition ::
  "state_config \<Rightarrow> trading_event \<Rightarrow> context_view \<Rightarrow> outcome_res" where
  "handle_global_transition s e c =
     (if ev_type e = SELL_PREPARATION_DEFERRED then handle_sell_deferred s e c
      else if ev_type e = STOP_CONFIRMED then handle_stop s c
      else if st_root s = STOPPING \<and> ev_type e = FORCE_SELL_FINISHED \<and>
              \<not> is_open (cv_position c) \<and> rt_pending_order_id (cv_runtime c) = None \<and>
              is_force_sell_completion_valid e
      then force_sell_finished
      else if st_root s = STOPPING \<and> ev_type e = FORCE_SELL_FAILED \<and>
              is_open (cv_position c) \<and> rt_pending_order_id (cv_runtime c) = None \<and>
              is_force_sell_failure_terminal e
      then force_sell_retry s
      else ebind (handle_band_touch s e c) (\<lambda>band_outcome.
        case band_outcome of
          Some oc \<Rightarrow> Inr (Some oc)
        | None \<Rightarrow> handle_session s e c))"

lemmas global_handler_defs [handler_defs] = handle_upper_band_touch_def open_lower_event_def
  handle_band_touch_def handle_sell_deferred_def handle_stop_def force_sell_finished_def
  force_sell_retry_def logic_started_def trade_management_completed_def handle_session_def
  create_inactive_configuration_def

section \<open>The contract\<close>

lemma global_ids [simp]:
  "tid \<in> set global_transition_ids \<Longrightarrow> tid \<in> set transition_ids"
  "tid \<in> set ownership_transition_ids \<Longrightarrow> tid \<in> set transition_ids"
  "tid \<in> set case_b_signal_transition_ids \<Longrightarrow> tid \<in> set transition_ids"
  "tid \<in> set case_c_signal_transition_ids \<Longrightarrow> tid \<in> set transition_ids"
  by (simp_all add: transition_ids_set)

lemma initial_ids [simp]:
  "''O-01'' \<in> set transition_ids" "''C-01'' \<in> set transition_ids" "''B-01'' \<in> set transition_ids"
  "''G-01'' \<in> set transition_ids" "''G-02'' \<in> set transition_ids" "''G-03'' \<in> set transition_ids"
  "''G-04'' \<in> set transition_ids" "''G-05'' \<in> set transition_ids" "''G-06'' \<in> set transition_ids"
  "''G-06P'' \<in> set transition_ids" "''G-06F'' \<in> set transition_ids"
  "''G-06R'' \<in> set transition_ids" "''G-07'' \<in> set transition_ids"
  by (simp_all add: transition_ids_set catalog_evals)

lemma good_ebind_if:
  "(b \<Longrightarrow> good P e c (ebind x f)) \<Longrightarrow> (\<not> b \<Longrightarrow> good P e c (ebind y f)) \<Longrightarrow>
   good P e c (ebind (if b then x else y) f)"
  by simp

lemma good_ebind_Inr: "good P e c (f x) \<Longrightarrow> good P e c (ebind (Inr x) f)"
  by simp

lemma good_upper_check:
  "(\<And>b. good P e c (f b)) \<Longrightarrow>
   good P e c (ebind (dlt_checked dzero (mk_upper_band (cv_market c))) f)"
  by (auto simp: dlt_checked_def good_def raw_unfit_def dzero_def)

lemma good_lower_check:
  "(\<And>b. good P e c (f b)) \<Longrightarrow>
   good P e c (ebind (dle_checked (mk_lower_band (cv_market c)) dzero) f)"
  by (auto simp: dle_checked_def good_def raw_unfit_def dzero_def)

abbreviation never_orders :: "event_type \<Rightarrow> order_request \<Rightarrow> bool" where
  "never_orders t r \<equiv> False"

lemma patch_safe_session [simp]:
  "patch_safe
     [Set_position_owner None, Set_pending_strategy None, Set_pending_order_side None,
      Set_pending_order_id None, Set_pending_order_attempt_kind None, Set_pending_intent_id None,
      Set_pending_exit_reason None, Set_pending_exit_pct_b None, Set_pending_return_state None,
      Set_trading_phase phase]"
  by (simp add: patch_safe_def)

lemma good_upper: "config_ok s \<Longrightarrow> good never_orders e c (handle_upper_band_touch s c b)"
  by (auto simp: handle_upper_band_touch_def Let_def create_inactive_configuration_def
      good_def outcome_ok_def clear_session_patch_def move_def no_transition_def)

lemma good_open_lower_event:
  assumes "tid \<in> set transition_ids" "actions_ok never_orders e c first" "orders first = []"
  shows "good never_orders e c (open_lower_event tid first e c)"
  unfolding open_lower_event_def
proof (rule good_initialization)
  fix cs
  assume "patch_safe cs"
  with assms show "good never_orders e c (move tid trade_management_initial
      (first @ [OpenLowerEvent (create_open_lower_event_action e c), PatchRuntimeContext cs,
         PatchRuntimeContext [Set_position_owner None],
         queue_request ACTIVATE_TRADE_MANAGEMENT (Some (resolve_lower_event_id e c))])
      [''O-01'', ''C-01'', ''B-01''] True)"
    by (intro good_move) (simp_all add: actions_ok_def patch_safe_def)
qed

lemma good_band_touch:
  assumes "config_ok s"
  shows "good never_orders e c (handle_band_touch s e c)"
proof -
  have open_ok: "good never_orders e c (open_lower_event ''G-02'' [] e c)"
    "good never_orders e c (open_lower_event ''G-03'' [CloseLowerEvent ''NEW_30M_LOWER_TOUCH''] e c)"
    by (simp_all add: good_open_lower_event)
  show ?thesis
    unfolding handle_band_touch_def
    by (intro good_ebind_if good_ebind_Inr good_upper_check good_lower_check good_if open_ok
        good_no_transition good_upper assms)
qed

lemma good_global: "config_ok s \<Longrightarrow> good never_orders e c (handle_global_transition s e c)"
proof -
  assume ok: "config_ok s"
  have band: "good never_orders e c (ebind (handle_band_touch s e c) (\<lambda>band_outcome.
        case band_outcome of Some oc \<Rightarrow> Inr (Some oc) | None \<Rightarrow> handle_session s e c))"
    using good_band_touch [OF ok, of e c]
    by (cases "handle_band_touch s e c")
      (auto simp: good_def handle_session_def logic_started_def trade_management_completed_def
        move_def create_inactive_configuration_def outcome_ok_def clear_session_patch_def
        no_transition_def split: option.splits)
  have stop: "good never_orders e c (handle_stop s c)"
    by (auto simp: handle_stop_def move_def good_def outcome_ok_def patch_safe_def
        create_inactive_configuration_def no_transition_def split: option.splits)
  have deferred: "good never_orders e c (handle_sell_deferred s e c)"
    using ok by (auto simp: handle_sell_deferred_def good_def outcome_ok_def Let_def patch_safe_def
        no_transition_def split: option.splits event_payload.splits)
  have force: "good never_orders e c force_sell_finished" "good never_orders e c (force_sell_retry s)"
    using ok by (auto simp: force_sell_finished_def force_sell_retry_def move_def good_def
        outcome_ok_def create_inactive_configuration_def clear_session_patch_def)
  show ?thesis
    unfolding handle_global_transition_def
    by (intro good_if stop deferred force band)
qed

interpretation gt: region_handler handle_global_transition "\<lambda>s. True" never_orders
  by unfold_locales (rule good_global)

section \<open>What each branch does\<close>

text \<open>The root state after a STOP: the pending order decides first, then the position.\<close>

lemma handle_stop_outcome:
  assumes "handle_stop s c = Inr (Some oc)"
  shows "st_root s \<notin> {STOPPING, LOGIC_TERMINATED}"
    and "rt_pending_order_id (cv_runtime c) \<noteq> None \<or> is_open (cv_position c) \<Longrightarrow>
      oc_state_after oc = inactive_config STOPPING"
    and "rt_pending_order_id (cv_runtime c) = None \<Longrightarrow> \<not> is_open (cv_position c) \<Longrightarrow>
      oc_state_after oc = inactive_config LOGIC_TERMINATED"
  using assms
  by (auto simp: handle_stop_def move_eq_Some create_inactive_configuration_def
      split: if_splits option.splits)

lemma handle_stop_decides:
  "st_root s \<notin> {STOPPING, LOGIC_TERMINATED} \<Longrightarrow> \<exists>oc. handle_stop s c = Inr (Some oc)"
  by (auto simp: handle_stop_def move_eq_Some create_inactive_configuration_def
      split: option.splits)

lemma open_lower_event_outcome:
  "open_lower_event tid first e c = Inr (Some oc) \<Longrightarrow> oc_state_after oc = trade_management_initial"
  by (auto simp: open_lower_event_def ebind_eq_Inr move_eq_Some)

lemma handle_upper_outcome:
  assumes "handle_upper_band_touch s c b = Inr (Some oc)"
  shows "if rt_pending_order_id (cv_runtime c) \<noteq> None \<or> rt_pending_intent_id (cv_runtime c) \<noteq> None
            \<or> is_open (cv_position c)
         then \<not> b \<and> oc_state_after oc = s \<and> oc_actions oc = []
         else oc_state_after oc = inactive_config LOWER_TOUCH_WATCH"
  using assms
  by (auto simp: handle_upper_band_touch_def Let_def move_eq_Some
      create_inactive_configuration_def split: if_splits)

lemma band_touch_outcome:
  assumes "handle_band_touch s e c = Inr (Some oc)"
  obtains (upper) b where "st_root s = TRADE_MANAGEMENT" "condition_met upper_safe_exit c"
      "handle_upper_band_touch s c b = Inr (Some oc)"
  | (first) "can_open_first s e c" "condition_met lower_price c"
      "open_lower_event ''G-02'' [] e c = Inr (Some oc)"
  | (renew) "can_renew s e c" "condition_met lower_price c"
      "open_lower_event ''G-03'' [CloseLowerEvent ''NEW_30M_LOWER_TOUCH''] e c = Inr (Some oc)"
  using assms
  by (auto simp: handle_band_touch_def ebind_eq_Inr is_lower_touch_condition_met_def
      split: if_splits)

lemma deferred_outcome:
  assumes "handle_sell_deferred s e c = Inr (Some oc)"
  shows "oc_state_after oc = s" "st_root s = TRADE_MANAGEMENT" "orders (oc_actions oc) = []"
    "oc_transition_ids oc = []"
  using assms
  by (auto simp: handle_sell_deferred_def Let_def split: option.splits event_payload.splits if_splits)

lemma session_outcome:
  assumes "handle_session s e c = Inr (Some oc)"
  shows "oc_state_after oc = inactive_config LOWER_TOUCH_WATCH"
    "st_root s \<in> {NOT_STARTED, TRADE_MANAGEMENT}"
  using assms
  by (auto simp: handle_session_def logic_started_def trade_management_completed_def
      move_eq_Some create_inactive_configuration_def split: if_splits)

lemma global_outcome:
  assumes "handle_global_transition s e c = Inr (Some oc)"
  obtains (deferred) "ev_type e = SELL_PREPARATION_DEFERRED" "handle_sell_deferred s e c = Inr (Some oc)"
  | (stop) "ev_type e = STOP_CONFIRMED" "handle_stop s c = Inr (Some oc)"
  | (finished) "st_root s = STOPPING" "ev_type e = FORCE_SELL_FINISHED"
      "\<not> is_open (cv_position c)" "rt_pending_order_id (cv_runtime c) = None"
      "is_force_sell_completion_valid e" "force_sell_finished = Inr (Some oc)"
  | (retry) "st_root s = STOPPING" "ev_type e = FORCE_SELL_FAILED" "is_open (cv_position c)"
      "rt_pending_order_id (cv_runtime c) = None" "is_force_sell_failure_terminal e"
      "force_sell_retry s = Inr (Some oc)"
  | (band) "handle_band_touch s e c = Inr (Some oc)"
  | (session) "handle_session s e c = Inr (Some oc)"
  using assms
  by (auto simp: handle_global_transition_def ebind_eq_Inr split: if_splits option.splits)

section \<open>The life cycle of the root state\<close>

text \<open>
  The abstract state machine the root transitions implement.  A STOP leads through \<open>STOPPING\<close> or
  directly to \<open>LOGIC_TERMINATED\<close>, which has no successor.
\<close>

inductive root_edge :: "root_state \<Rightarrow> root_state \<Rightarrow> bool" where
  start: "root_edge NOT_STARTED LOWER_TOUCH_WATCH"
| touch: "root_edge LOWER_TOUCH_WATCH TRADE_MANAGEMENT"
| manage: "root_edge TRADE_MANAGEMENT TRADE_MANAGEMENT"
| return: "root_edge TRADE_MANAGEMENT LOWER_TOUCH_WATCH"
| stop: "r \<notin> {STOPPING, LOGIC_TERMINATED} \<Longrightarrow> root_edge r STOPPING"
| terminate: "r \<noteq> LOGIC_TERMINATED \<Longrightarrow> root_edge r LOGIC_TERMINATED"
| sell_again: "root_edge STOPPING STOPPING"

inductive_simps root_edge_simps: "root_edge r r'"
inductive_cases terminated_edge: "root_edge LOGIC_TERMINATED r"
inductive_cases stopping_edge: "root_edge STOPPING r"

lemma global_root_edge:
  assumes "handle_global_transition s e c = Inr (Some oc)"
  shows "root_edge (st_root s) (st_root (oc_state_after oc))"
  using assms
proof (cases rule: global_outcome)
  case deferred
  then show ?thesis by (simp add: deferred_outcome root_edge.manage)
next
  case stop
  note st = handle_stop_outcome [OF stop(2)]
  show ?thesis
  proof (cases "rt_pending_order_id (cv_runtime c) \<noteq> None \<or> is_open (cv_position c)")
    case True
    with st show ?thesis by (simp add: root_edge.stop)
  next
    case False
    with st show ?thesis by (simp add: root_edge.terminate)
  qed
next
  case finished
  then show ?thesis
    by (auto simp: force_sell_finished_def move_eq_Some create_inactive_configuration_def
        intro: root_edge.terminate)
next
  case retry
  then show ?thesis by (auto simp: force_sell_retry_def root_edge.sell_again)
next
  case band
  then show ?thesis
  proof (cases rule: band_touch_outcome)
    case (upper b)
    from handle_upper_outcome [OF upper(3)] upper(1) show ?thesis
      by (auto intro: root_edge.intros split: if_splits)
  next
    case first
    then show ?thesis
      by (simp add: open_lower_event_outcome can_open_first_def root_edge.touch)
  next
    case renew
    then show ?thesis
      by (simp add: open_lower_event_outcome can_renew_def Let_def root_edge.manage)
  qed
next
  case session
  from session_outcome [OF session] show ?thesis by (auto intro: root_edge.intros)
qed

text \<open>A terminated root never leaves its state, whatever is broadcast.\<close>

lemma terminated_no_outcome:
  "st_root s = LOGIC_TERMINATED \<Longrightarrow> handle_global_transition s e c \<noteq> Inr (Some oc)"
  using global_root_edge [of s e c oc] handle_stop_outcome(1) [of s c oc]
  by (auto elim!: global_outcome band_touch_outcome
      simp: can_open_first_def can_renew_def Let_def
      dest: deferred_outcome(2) session_outcome(2))

text \<open>\<open>STOPPING\<close> is left only with the evidence of a finished forced sale.\<close>

lemma stopping_left_only_by_finish:
  assumes "handle_global_transition s e c = Inr (Some oc)" "st_root s = STOPPING"
  shows "oc_state_after oc = s \<and> oc_actions oc = [ForceSellAll True True] \<and>
           ev_type e = FORCE_SELL_FAILED \<and> is_open (cv_position c)
       \<or> oc_state_after oc = inactive_config LOGIC_TERMINATED \<and>
           ev_type e = FORCE_SELL_FINISHED \<and> is_force_sell_completion_valid e \<and>
           \<not> is_open (cv_position c) \<and> rt_pending_order_id (cv_runtime c) = None"
  using assms(1)
proof (cases rule: global_outcome)
  case band
  then show ?thesis
    by (cases rule: band_touch_outcome)
      (simp_all add: assms(2) can_open_first_def can_renew_def Let_def)
qed (use assms(2) handle_stop_outcome(1) [of s c oc] in
    \<open>auto simp: deferred_outcome force_sell_finished_def force_sell_retry_def move_eq_Some
       create_inactive_configuration_def dest: deferred_outcome(2) session_outcome(2)\<close>)

text \<open>A forced sale is requested for an open position without a pending order only.\<close>

lemma force_sell_needs_position:
  assumes "handle_global_transition s e c = Inr (Some oc)" "ForceSellAll b b' \<in> set (oc_actions oc)"
  shows "is_open (cv_position c) \<and> rt_pending_order_id (cv_runtime c) = None \<and>
    st_root (oc_state_after oc) = STOPPING"
  using assms(1)
proof (cases rule: global_outcome)
  case band
  then show ?thesis
    using assms(2)
    by (cases rule: band_touch_outcome)
      (auto simp: handle_upper_band_touch_def Let_def open_lower_event_def move_eq_Some
        ebind_eq_Inr clear_session_patch_def queue_request_def
        create_lower_event_initialization_patch_def split: if_splits)
next
  case stop
  with assms(2) show ?thesis
    by (auto simp: handle_stop_def move_eq_Some create_inactive_configuration_def
        split: if_splits option.splits)
qed (use assms(2) in
    \<open>auto simp: handle_sell_deferred_def force_sell_finished_def force_sell_retry_def
       handle_session_def logic_started_def trade_management_completed_def clear_session_patch_def
       move_eq_Some Let_def split: option.splits event_payload.splits if_splits\<close>)

end
