(* ===== verification/Ownership_Transitions.thy ===== *)
theory Ownership_Transitions
  imports Global_Transitions
begin

text \<open>
  The ownership region without a position, O-01 to O-09
  (\<open>transitions/ownership_transitions.py\<close>): the feedback of the entry orders, their retries and
  the return to signal watching after a blocked or expired order.
\<close>

section \<open>The handler\<close>

definition get_buy_attempt_kind :: "trading_event \<Rightarrow> order_attempt_kind option" where
  "get_buy_attempt_kind e =
     (case ev_payload e of Some (BuyAttemptPayload kind) \<Rightarrow> Some kind | _ \<Rightarrow> None)"

definition create_entry_retry_action ::
  "event_type \<Rightarrow> context_view \<Rightarrow> string \<Rightarrow> trading_action" where
  "create_entry_retry_action t c reason = schedule_reevaluation t c reason RETRY_BACKOFF"

text \<open>The strategy named by either of the two payloads of a blocked or expired entry.\<close>

definition blocked_strategy :: "trading_event \<Rightarrow> strategy_type option" where
  "blocked_strategy e =
     (case ev_payload e of
        Some (BuyRiskBlockedPayload st reason) \<Rightarrow> Some st
      | Some (PreparationExpiredPayload st) \<Rightarrow> Some st
      | _ \<Rightarrow> None)"

definition cleared_order_patch :: trading_action where
  "cleared_order_patch = PatchRuntimeContext
     [Set_pending_strategy None, Set_pending_order_side None,
      Set_pending_order_attempt_kind None, Set_pending_intent_id None, Set_trading_phase IDLE]"

definition expired_reevaluation ::
  "strategy_type \<Rightarrow> trading_event \<Rightarrow> context_view \<Rightarrow> trading_action list" where
  "expired_reevaluation st e c =
     (if ev_type e = ORDER_PREPARATION_EXPIRED
      then [schedule_reevaluation
              (if st = CASE_B then RETRY_CASE_B_WAIT_PULLBACK_CONDITION_CHECK
               else RETRY_CASE_C_SETUP_CONDITION_CHECK)
              c ''Order preparation signal expired'' DEADLINE_OR_MARKET_CHANGE]
      else [])"

definition handle_entry_blocked ::
  "state_config \<Rightarrow> trading_event \<Rightarrow> context_view \<Rightarrow> outcome_res" where
  "handle_entry_blocked s e c =
     (case blocked_strategy e of
        None \<Rightarrow> no_transition
      | Some st \<Rightarrow>
          if st = CASE_B \<and> (ev_type e = ORDER_PREPARATION_EXPIRED \<or>
                             st_b_signal s = Some B_POSITION_OPEN_SIGNALLED)
          then move ''O-03'' (s\<lparr>st_b_signal := Some B_WAIT_PULLBACK\<rparr>)
                 (cleared_order_patch # expired_reevaluation st e c) [] False
          else if st = CASE_C \<and> (ev_type e = ORDER_PREPARATION_EXPIRED \<or>
                                  st_c_signal s = Some C_POSITION_OPEN_SIGNALLED)
          then move ''O-07'' (s\<lparr>st_c_signal := Some C_SETUP\<rparr>)
                 (cleared_order_patch # expired_reevaluation st e c) [] False
          else no_transition)"

definition position_opened :: "strategy_type \<Rightarrow> context_view \<Rightarrow> bool" where
  "position_opened st c \<longleftrightarrow>
     rt_position_owner (cv_runtime c) = Some st \<and> rt_pending_order_id (cv_runtime c) = None \<and>
     is_open (cv_position c)"

definition case_b_opened :: "state_config \<Rightarrow> context_view \<Rightarrow> outcome_res" where
  "case_b_opened s c =
     move ''O-02'' (s\<lparr>st_ownership := Some CASE_B_POSITION_MANAGEMENT,
                      st_b_position := Some CASE_B_HOLDING\<rparr>)
       [create_queue_event_action START_CASE_B_CONDITION_CHECK c] [''PB-01''] False"

definition case_c_opened :: "state_config \<Rightarrow> context_view \<Rightarrow> outcome_res" where
  "case_c_opened s c =
     move ''O-06'' (s\<lparr>st_ownership := Some CASE_C_POSITION_MANAGEMENT,
                      st_c_position := Some CASE_C_HOLDING\<rparr>)
       [PatchRuntimeContext [Set_case_b_entry_paused True],
        create_queue_event_action START_CASE_C_CONDITION_CHECK c] [''PC-01''] False"

definition case_b_retry_allowed :: "context_view \<Rightarrow> bool" where
  "case_b_retry_allowed c \<longleftrightarrow>
     (let r = cv_runtime c in
      rt_position_owner r = None \<and> rt_pending_order_id r = None \<and>
      \<not> rt_case_b_entry_paused r \<and> rt_signal_created r \<and> condition_met b_signal_age c)"

definition case_c_retry_allowed :: "context_view \<Rightarrow> bool" where
  "case_c_retry_allowed c \<longleftrightarrow>
     (let r = cv_runtime c in
      rt_position_owner r = None \<and> rt_pending_order_id r = None \<and>
      rt_allow_new_case_c_setup r \<and> \<not> rt_case_c_consumed_for_event r)"

text \<open>O-02 to O-05.  The tests are on distinct event types, so a failed guard ends in \<open>None\<close>.\<close>

definition handle_case_b_entry ::
  "state_config \<Rightarrow> trading_event \<Rightarrow> context_view \<Rightarrow> outcome_res" where
  "handle_case_b_entry s e c =
     (if ev_type e = CASE_B_POSITION_OPENED \<and> position_opened CASE_B c then case_b_opened s c
      else if ev_type e = CASE_B_BUY_FAILED \<and> get_buy_attempt_kind e = Some INITIAL \<and>
              rt_position_owner (cv_runtime c) = None
      then stay ''O-03'' s
             [create_entry_retry_action CASE_B_BUY_RETRY c ''Case B initial buy failed'']
      else if ev_type e = CASE_B_BUY_RETRY \<and> case_b_retry_allowed c
      then stay ''O-04'' s (create_entry_order_actions CASE_B RETRY e c)
      else if ev_type e = CASE_B_BUY_FAILED \<and> get_buy_attempt_kind e = Some RETRY \<and>
              rt_position_owner (cv_runtime c) = None
      then stay ''O-05'' s
             [create_entry_retry_action CASE_B_BUY_RETRY c ''Case B retry buy failed'']
      else no_transition)"

text \<open>O-06 to O-09.\<close>

definition handle_case_c_entry ::
  "state_config \<Rightarrow> trading_event \<Rightarrow> context_view \<Rightarrow> outcome_res" where
  "handle_case_c_entry s e c =
     (if ev_type e = CASE_C_POSITION_OPENED \<and> position_opened CASE_C c then case_c_opened s c
      else if ev_type e = CASE_C_BUY_FAILED \<and> get_buy_attempt_kind e = Some INITIAL \<and>
              rt_position_owner (cv_runtime c) = None
      then stay ''O-07'' s
             [create_entry_retry_action CASE_C_BUY_RETRY c ''Case C initial buy failed'']
      else if ev_type e = CASE_C_BUY_RETRY \<and> case_c_retry_allowed c
      then stay ''O-08'' s (create_entry_order_actions CASE_C RETRY e c)
      else if ev_type e = CASE_C_BUY_FAILED \<and> get_buy_attempt_kind e = Some RETRY \<and>
              rt_position_owner (cv_runtime c) = None
      then stay ''O-09'' s
             [create_entry_retry_action CASE_C_BUY_RETRY c ''Case C retry buy failed'']
      else no_transition)"

definition handle_ownership_transition ::
  "state_config \<Rightarrow> trading_event \<Rightarrow> context_view \<Rightarrow> outcome_res" where
  "handle_ownership_transition s e c =
     (if st_ownership s \<noteq> Some NO_POSITION then no_transition
      else if ev_type e = BUY_RISK_BLOCKED \<or> ev_type e = ORDER_PREPARATION_EXPIRED
      then handle_entry_blocked s e c
      else ebind (handle_case_b_entry s e c) (\<lambda>case_b.
        case case_b of
          Some oc \<Rightarrow> Inr (Some oc)
        | None \<Rightarrow> handle_case_c_entry s e c))"

section \<open>The contract\<close>

text \<open>The region orders a BUY of the strategy whose retry event it handles.\<close>

definition ownership_orders :: "event_type \<Rightarrow> order_request \<Rightarrow> bool" where
  "ownership_orders t r \<longleftrightarrow> or_side r = BUY \<and>
     (t = CASE_B_BUY_RETRY \<and> or_strategy r = CASE_B \<or>
      t = CASE_C_BUY_RETRY \<and> or_strategy r = CASE_C)"

lemma ownership_ids [simp]:
  "''O-02'' \<in> set transition_ids" "''O-03'' \<in> set transition_ids"
  "''O-04'' \<in> set transition_ids" "''O-05'' \<in> set transition_ids"
  "''O-06'' \<in> set transition_ids" "''O-07'' \<in> set transition_ids"
  "''O-08'' \<in> set transition_ids" "''O-09'' \<in> set transition_ids"
  "''PB-01'' \<in> set transition_ids" "''PC-01'' \<in> set transition_ids"
  by (simp_all add: transition_ids_set catalog_evals)

lemma config_ok_ownership:
  "config_ok s \<Longrightarrow> st_ownership s = Some x \<Longrightarrow> st_root s = TRADE_MANAGEMENT"
  by (auto simp: config_ok_def split: if_splits)

lemma entry_retry_action_ok [simp]:
  "action_ok P e c (create_entry_retry_action t c' r) \<longleftrightarrow> \<not> external_event t"
  "order_of (create_entry_retry_action t c' r) = None"
  by (simp_all add: create_entry_retry_action_def)

lemma blocked_actions_ok: "actions_ok P e c (cleared_order_patch # expired_reevaluation st e c)"
  by (simp add: cleared_order_patch_def expired_reevaluation_def patch_safe_def)

lemma good_entry_blocked:
  assumes "config_ok s" "st_ownership s = Some NO_POSITION"
  shows "good P e c (handle_entry_blocked s e c)"
  using assms config_ok_ownership [OF assms]
  by (auto simp: handle_entry_blocked_def config_simps blocked_actions_ok
      split: option.splits intro!: good_move)

lemma good_case_b_entry:
  assumes "config_ok s" "st_ownership s = Some NO_POSITION"
  shows "good ownership_orders e c (handle_case_b_entry s e c)"
  using assms
  by (auto simp: handle_case_b_entry_def case_b_opened_def config_simps
      case_b_retry_allowed_def Let_def ownership_orders_def
      intro!: good_move good_stay actions_ok_entry)

lemma good_case_c_entry:
  assumes "config_ok s" "st_ownership s = Some NO_POSITION"
  shows "good ownership_orders e c (handle_case_c_entry s e c)"
  using assms
  by (auto simp: handle_case_c_entry_def case_c_opened_def config_simps patch_safe_def
      case_c_retry_allowed_def Let_def ownership_orders_def
      intro!: good_move good_stay actions_ok_entry)

lemma good_ownership: "config_ok s \<Longrightarrow> good ownership_orders e c (handle_ownership_transition s e c)"
  unfolding handle_ownership_transition_def
  by (intro good_if good_no_transition good_or_else good_entry_blocked good_case_b_entry
      good_case_c_entry) auto

interpretation ow: region_handler handle_ownership_transition
    "\<lambda>s. st_root s = TRADE_MANAGEMENT" ownership_orders
  by unfold_locales (rule good_ownership)

section \<open>Taking ownership\<close>

text \<open>
  The region keeps the root; it gives the position to a strategy exactly on that strategy's fill,
  with the position open, the order gone and the strategy recorded as the owner.
\<close>

definition ownership_post ::
  "state_config \<Rightarrow> trading_event \<Rightarrow> context_view \<Rightarrow> transition_outcome \<Rightarrow> bool" where
  "ownership_post s e c oc \<longleftrightarrow>
     \<not> oc_exclusive oc \<and> st_root (oc_state_after oc) = st_root s \<and>
     (st_ownership (oc_state_after oc) = Some NO_POSITION \<or>
      st_ownership (oc_state_after oc) = Some CASE_B_POSITION_MANAGEMENT \<and>
        st_b_position (oc_state_after oc) = Some CASE_B_HOLDING \<and>
        ev_type e = CASE_B_POSITION_OPENED \<and> position_opened CASE_B c \<or>
      st_ownership (oc_state_after oc) = Some CASE_C_POSITION_MANAGEMENT \<and>
        st_c_position (oc_state_after oc) = Some CASE_C_HOLDING \<and>
        ev_type e = CASE_C_POSITION_OPENED \<and> position_opened CASE_C c)"

lemma ownership_ensures: "ensures (ownership_post s e c) (handle_ownership_transition s e c)"
proof (cases "st_ownership s = Some NO_POSITION")
  case True
  have blocked: "ensures (ownership_post s e c) (handle_entry_blocked s e c)"
    unfolding handle_entry_blocked_def
    by (cases "blocked_strategy e")
      (auto simp: ownership_post_def True intro!: ensures_rules)
  have case_b: "ensures (ownership_post s e c) (handle_case_b_entry s e c)"
    unfolding handle_case_b_entry_def case_b_opened_def
    by (intro ensures_if ensures_none ensures_move ensures_stay)
      (simp_all add: ownership_post_def True)
  have case_c: "ensures (ownership_post s e c) (handle_case_c_entry s e c)"
    unfolding handle_case_c_entry_def case_c_opened_def
    by (intro ensures_if ensures_none ensures_move ensures_stay)
      (simp_all add: ownership_post_def True)
  show ?thesis
    unfolding handle_ownership_transition_def
    by (intro ensures_if ensures_none ensures_or_else blocked case_b case_c)
qed (simp add: handle_ownership_transition_def ensures_none)

end
