(* ===== verification/CaseB_Signal.thy ===== *)
theory CaseB_Signal
  imports Ownership_Transitions
begin

text \<open>
  The signal region of case B, B-01 to B-19 (\<open>transitions/case_b_signal_transitions.py\<close>): the
  width test of the touch, the first valid signal candle, the pullback inside three hours, and
  the arbitration with case C.
\<close>

section \<open>The handler\<close>

definition is_signal_candle_guard_satisfied :: "context_view \<Rightarrow> bool" where
  "is_signal_candle_guard_satisfied c \<longleftrightarrow>
     mk_confirmed_30m_close (cv_market c) \<and>
     condition_met b_signal_slope c \<and> condition_met b_signal_pct_b c \<and>
     length (mk_previous_3_closed_candle_lows (cv_market c)) = 3 \<and>
     condition_met b_signal_low c"

definition is_handoff_active :: "context_view \<Rightarrow> bool" where
  "is_handoff_active c \<longleftrightarrow>
     rt_case_c_exit_reason (cv_runtime c) = Some TP_TRAIL \<and>
     rt_case_c_exit_pct_b (cv_runtime c) \<noteq> None \<and> condition_met c_handoff c"

definition is_active_resume_guard_satisfied :: "context_view \<Rightarrow> bool" where
  "is_active_resume_guard_satisfied c \<longleftrightarrow>
     rt_case_c_recovery_confirmed (cv_runtime c) \<and> is_handoff_active c"

definition b_wait_touch :: "state_config \<Rightarrow> trading_event \<Rightarrow> context_view \<Rightarrow> outcome_res" where
  "b_wait_touch s e c =
     (if ev_type e \<noteq> ACTIVATE_TRADE_MANAGEMENT then no_transition
      else if \<not> (rt_touch_candle_bbw (cv_runtime c) \<noteq> None \<and> condition_met b_touch_bbw c)
      then move ''B-02'' (s\<lparr>st_b_signal := Some CASE_B_FINAL_STATE\<rparr>)
             [PatchRuntimeContext [Set_case_b_enabled False], ResetCaseBContext False] [] False
      else move ''B-03'' (s\<lparr>st_b_signal := Some B_WAIT_SIGNAL\<rparr>)
             [PatchRuntimeContext [Set_case_b_enabled True, Set_signal_created False],
              schedule_reevaluation THIRTY_MINUTE_CANDLE_CLOSED c
                ''Wait for the first valid Case B signal candle'' NEXT_30M_CLOSE] [] False)"

text \<open>The pause and the resumption of entries, with the identifiers of the current state.\<close>

definition b_entry_permission ::
  "string \<Rightarrow> string \<Rightarrow> string \<Rightarrow> state_config \<Rightarrow> trading_event \<Rightarrow> context_view \<Rightarrow> outcome_res" where
  "b_entry_permission paused_id resumed_id wait_id s e c =
     (if ev_type e = CASE_C_POSITION_OPENED \<and> rt_position_owner (cv_runtime c) = Some CASE_C
      then stay paused_id s [PatchRuntimeContext [Set_case_b_entry_paused True]]
      else if ev_type e = CASE_B_ACTIVE_RESUME \<and> is_active_resume_guard_satisfied c
      then stay resumed_id s [PatchRuntimeContext [Set_case_b_entry_paused False]]
      else if ev_type e = CASE_B_WAIT_ONLY \<and> \<not> is_handoff_active c
      then stay wait_id s [PatchRuntimeContext [Set_case_b_entry_paused True]]
      else no_transition)"

definition b_signal_time_of :: "trading_event \<Rightarrow> context_view \<Rightarrow> timestamp" where
  "b_signal_time_of e c =
     (case mk_confirmed_30m_close_time (cv_market c) of
        None \<Rightarrow> ev_occurred_at e
      | Some close_time \<Rightarrow> close_time)"

definition b_wait_signal :: "state_config \<Rightarrow> trading_event \<Rightarrow> context_view \<Rightarrow> outcome_res" where
  "b_wait_signal s e c =
     (if ev_type e = THIRTY_MINUTE_CANDLE_CLOSED \<and> \<not> is_signal_candle_guard_satisfied c
      then stay ''B-04'' s
             [schedule_reevaluation THIRTY_MINUTE_CANDLE_CLOSED c
                ''Case B signal candle guard not yet met'' NEXT_30M_CLOSE]
      else if ev_type e = THIRTY_MINUTE_CANDLE_CLOSED \<and> \<not> rt_signal_created (cv_runtime c)
      then move ''B-05'' (s\<lparr>st_b_signal := Some B_WAIT_PULLBACK\<rparr>)
             [PatchRuntimeContext
                [Set_signal_created True,
                 Set_signal_candle_id
                   (py_or (ev_candle_id e) (mk_current_30m_candle_id (cv_market c))),
                 Set_signal_time (Some (b_signal_time_of e c))],
              create_queue_event_action START_CASE_B_WAIT_PULLBACK_CONDITION_CHECK c] [] False
      else b_entry_permission ''B-12'' ''B-14'' ''B-16'' s e c)"

definition b_can_buy :: "context_view \<Rightarrow> bool" where
  "b_can_buy c \<longleftrightarrow>
     (let r = cv_runtime c in
      rt_position_owner r = None \<and> rt_pending_order_id r = None \<and>
      \<not> rt_case_b_entry_paused r \<and> condition_met b_signal_age c \<and> condition_met b_pullback c)"

definition b_should_wait :: "context_view \<Rightarrow> bool" where
  "b_should_wait c \<longleftrightarrow>
     condition_met b_signal_age c \<and>
     (condition_unmet b_pullback c \<or> rt_position_owner (cv_runtime c) \<noteq> None \<or>
      rt_case_b_entry_paused (cv_runtime c))"

definition b_check_pullback ::
  "bool \<Rightarrow> state_config \<Rightarrow> trading_event \<Rightarrow> context_view \<Rightarrow> outcome_res" where
  "b_check_pullback is_start s e c =
     (if condition_unmet b_signal_age c
      then move (if is_start then ''B-08'' else ''B-11'')
             (s\<lparr>st_b_signal := Some CASE_B_FINAL_STATE\<rparr>) [ResetCaseBContext False] [] False
      else if b_can_buy c
      then move (if is_start then ''B-06'' else ''B-09'')
             (s\<lparr>st_b_signal := Some B_POSITION_OPEN_SIGNALLED\<rparr>)
             (create_entry_order_actions CASE_B INITIAL e c) [] False
      else if b_should_wait c
      then stay (if is_start then ''B-07'' else ''B-10'') s
             [schedule_market_reevaluation RETRY_CASE_B_WAIT_PULLBACK_CONDITION_CHECK c
                ''Case B pullback or entry permission not yet available'']
      else no_transition)"

text \<open>
  A pullback check that takes no branch continues with tests on other event types, so it ends
  without a transition.
\<close>

definition b_wait_pullback :: "state_config \<Rightarrow> trading_event \<Rightarrow> context_view \<Rightarrow> outcome_res" where
  "b_wait_pullback s e c =
     (if ev_type e = START_CASE_B_WAIT_PULLBACK_CONDITION_CHECK \<or>
         ev_type e = RETRY_CASE_B_WAIT_PULLBACK_CONDITION_CHECK
      then b_check_pullback (ev_type e = START_CASE_B_WAIT_PULLBACK_CONDITION_CHECK) s e c
      else b_entry_permission ''B-13'' ''B-15'' ''B-17'' s e c)"

definition b_position_open_signalled ::
  "state_config \<Rightarrow> trading_event \<Rightarrow> context_view \<Rightarrow> outcome_res" where
  "b_position_open_signalled s e c =
     (if ev_type e = CASE_B_POSITION_OPENED \<and> rt_position_owner (cv_runtime c) = Some CASE_B
      then move ''B-18'' (s\<lparr>st_b_signal := Some CASE_B_FINAL_STATE\<rparr>) [] [] False
      else if ev_type e = CASE_C_POSITION_OPENED \<and> rt_position_owner (cv_runtime c) = Some CASE_C
      then move ''B-19'' (s\<lparr>st_b_signal := Some B_WAIT_PULLBACK\<rparr>)
             [CancelPendingOrder (rt_pending_order_id (cv_runtime c))
                ''CASE_C_WON_ENTRY_ARBITRATION'',
              PatchRuntimeContext [Set_case_b_entry_paused True]] [] False
      else no_transition)"

definition handle_case_b_signal_transition ::
  "state_config \<Rightarrow> trading_event \<Rightarrow> context_view \<Rightarrow> outcome_res" where
  "handle_case_b_signal_transition s e c =
     (case st_b_signal s of
        Some B_WAIT_TOUCH \<Rightarrow> b_wait_touch s e c
      | Some B_WAIT_SIGNAL \<Rightarrow> b_wait_signal s e c
      | Some B_WAIT_PULLBACK \<Rightarrow> b_wait_pullback s e c
      | Some B_POSITION_OPEN_SIGNALLED \<Rightarrow> b_position_open_signalled s e c
      | _ \<Rightarrow> no_transition)"

lemmas b_signal_defs [handler_defs] = b_wait_touch_def b_entry_permission_def b_wait_signal_def
  b_check_pullback_def b_wait_pullback_def b_position_open_signalled_def
  handle_case_b_signal_transition_def

section \<open>The contract\<close>

definition b_signal_orders :: "event_type \<Rightarrow> order_request \<Rightarrow> bool" where
  "b_signal_orders t r \<longleftrightarrow> or_side r = BUY \<and> or_strategy r = CASE_B \<and>
     t \<in> {START_CASE_B_WAIT_PULLBACK_CONDITION_CHECK, RETRY_CASE_B_WAIT_PULLBACK_CONDITION_CHECK}"

lemma b_signal_ids [simp]:
  "''B-02'' \<in> set transition_ids" "''B-03'' \<in> set transition_ids"
  "''B-04'' \<in> set transition_ids" "''B-05'' \<in> set transition_ids"
  "''B-06'' \<in> set transition_ids" "''B-07'' \<in> set transition_ids"
  "''B-08'' \<in> set transition_ids" "''B-09'' \<in> set transition_ids"
  "''B-10'' \<in> set transition_ids" "''B-11'' \<in> set transition_ids"
  "''B-12'' \<in> set transition_ids" "''B-13'' \<in> set transition_ids"
  "''B-14'' \<in> set transition_ids" "''B-15'' \<in> set transition_ids"
  "''B-16'' \<in> set transition_ids" "''B-17'' \<in> set transition_ids"
  "''B-18'' \<in> set transition_ids" "''B-19'' \<in> set transition_ids"
  by (simp_all add: transition_ids_set catalog_evals)

lemma patch_safe_signal:
  assumes "inputs_ok e c"
  shows "patch_safe [Set_signal_created True, Set_signal_candle_id i,
    Set_signal_time (Some (b_signal_time_of e c))]"
  using assms
  by (simp add: patch_safe_def b_signal_time_of_def inputs_ok_def event_ok_def market_ok_def
      split: option.splits)

lemma good_b_entry_permission:
  assumes "config_ok s" "{p, r, w} \<subseteq> set transition_ids"
  shows "good P e c (b_entry_permission p r w s e c)"
  using assms
  by (auto simp: b_entry_permission_def patch_safe_def intro!: good_stay)

lemma good_b_check_pullback:
  assumes "config_ok s" "st_root s = TRADE_MANAGEMENT"
    and "ev_type e \<in> {START_CASE_B_WAIT_PULLBACK_CONDITION_CHECK,
      RETRY_CASE_B_WAIT_PULLBACK_CONDITION_CHECK}"
  shows "good b_signal_orders e c (b_check_pullback b s e c)"
  unfolding b_check_pullback_def
proof (intro good_if good_no_transition good_stay good_move actions_ok_entry)
  fix r :: order_request
  assume "or_strategy r = CASE_B" "or_side r = BUY"
  with assms(3) show "b_signal_orders (ev_type e) r" by (simp add: b_signal_orders_def)
qed (simp_all add: assms config_simps b_can_buy_def Let_def)

lemma good_b_signal:
  assumes "config_ok s" "st_root s = TRADE_MANAGEMENT"
  shows "good b_signal_orders e c (handle_case_b_signal_transition s e c)"
proof -
  have "good b_signal_orders e c (b_wait_touch s e c)"
    using assms by (auto simp: b_wait_touch_def config_simps patch_safe_def
        intro!: good_move good_stay)
  moreover have "good b_signal_orders e c (b_wait_signal s e c)"
    using assms by (auto simp: b_wait_signal_def config_simps patch_safe_signal
        intro!: good_move good_stay good_b_entry_permission)
  moreover have "good b_signal_orders e c (b_wait_pullback s e c)"
    using assms by (auto simp: b_wait_pullback_def
        intro!: good_b_entry_permission good_b_check_pullback)
  moreover have "good b_signal_orders e c (b_position_open_signalled s e c)"
    using assms by (auto simp: b_position_open_signalled_def config_simps patch_safe_def
        intro!: good_move)
  ultimately show ?thesis
    by (simp add: handle_case_b_signal_transition_def split: option.splits case_b_signal_state.splits)
qed

interpretation bs: region_handler handle_case_b_signal_transition
    "\<lambda>s. st_root s = TRADE_MANAGEMENT" b_signal_orders
  by unfold_locales (rule good_b_signal)

section \<open>The entry of case B\<close>

text \<open>The region changes its own state only.\<close>

definition b_signal_frame :: "state_config \<Rightarrow> transition_outcome \<Rightarrow> bool" where
  "b_signal_frame s oc \<longleftrightarrow>
     st_root (oc_state_after oc) = st_root s \<and>
     st_ownership (oc_state_after oc) = st_ownership s \<and>
     st_c_signal (oc_state_after oc) = st_c_signal s \<and>
     st_b_position (oc_state_after oc) = st_b_position s \<and>
     st_c_position (oc_state_after oc) = st_c_position s \<and> \<not> oc_exclusive oc"

text \<open>The exact conditions of the first purchase.\<close>

definition b_signal_post :: "state_config \<Rightarrow> context_view \<Rightarrow> transition_outcome \<Rightarrow> bool" where
  "b_signal_post s c oc \<longleftrightarrow> b_signal_frame s oc \<and>
     (orders (oc_actions oc) \<noteq> [] \<longrightarrow>
        st_b_signal s = Some B_WAIT_PULLBACK \<and> b_can_buy c \<and>
        oc_state_after oc = s\<lparr>st_b_signal := Some B_POSITION_OPEN_SIGNALLED\<rparr>)"

lemma b_signal_ensures: "ensures (b_signal_post s c) (handle_case_b_signal_transition s e c)"
proof (cases "st_b_signal s")
  case None
  then show ?thesis by (simp add: handle_case_b_signal_transition_def ensures_none)
next
  case (Some x)
  note post = b_signal_post_def b_signal_frame_def
  show ?thesis
  proof (cases x)
    case B_WAIT_TOUCH
    have "ensures (b_signal_post s c) (b_wait_touch s e c)"
      unfolding b_wait_touch_def by (intro ensures_rules) (simp_all add: post)
    then show ?thesis by (simp add: handle_case_b_signal_transition_def Some B_WAIT_TOUCH)
  next
    case B_WAIT_SIGNAL
    have "ensures (b_signal_post s c) (b_wait_signal s e c)"
      unfolding b_wait_signal_def b_entry_permission_def
      by (intro ensures_rules) (simp_all add: post)
    then show ?thesis by (simp add: handle_case_b_signal_transition_def Some B_WAIT_SIGNAL)
  next
    case B_WAIT_PULLBACK
    have "ensures (b_signal_post s c) (b_wait_pullback s e c)"
      unfolding b_wait_pullback_def b_entry_permission_def b_check_pullback_def
      by (intro ensures_rules) (simp_all add: post Some B_WAIT_PULLBACK)
    then show ?thesis by (simp add: handle_case_b_signal_transition_def Some B_WAIT_PULLBACK)
  next
    case B_POSITION_OPEN_SIGNALLED
    have "ensures (b_signal_post s c) (b_position_open_signalled s e c)"
      unfolding b_position_open_signalled_def by (intro ensures_rules) (simp_all add: post)
    then show ?thesis
      by (simp add: handle_case_b_signal_transition_def Some B_POSITION_OPEN_SIGNALLED)
  next
    case CASE_B_FINAL_STATE
    then show ?thesis by (simp add: handle_case_b_signal_transition_def Some ensures_none)
  qed
qed

text \<open>The final state of the region is absorbing.\<close>

lemma b_signal_final:
  "st_b_signal s = Some CASE_B_FINAL_STATE \<Longrightarrow> handle_case_b_signal_transition s e c = no_transition"
  by (simp add: handle_case_b_signal_transition_def)

end
