(* ===== verification/CaseC_Signal.thy ===== *)
theory CaseC_Signal
  imports CaseB_Signal
begin

text \<open>
  The signal region of case C, C-01 to C-17 (\<open>transitions/case_c_signal_transitions.py\<close>): the
  setup of a candle, the flush low and its three minute recovery window, the entry below the
  chase limit, and the feedback of the entry orders.
\<close>

section \<open>The handler\<close>

definition is_setup_guard_satisfied :: "context_view \<Rightarrow> bool" where
  "is_setup_guard_satisfied c \<longleftrightarrow>
     (let r = cv_runtime c in
      rt_allow_new_case_c_setup r \<and> \<not> rt_case_c_consumed_for_event r \<and>
      rt_last_case_c_setup_candle_id r \<noteq> mk_current_30m_candle_id (cv_market c) \<and>
      condition_met c_setup_pct_b c \<and> condition_met c_setup_cci c)"

text \<open>The sum \<open>realtime_pct_b + Decimal("0.06")\<close>.\<close>

definition next_entry_pct_b :: "context_view \<Rightarrow> decimal res" where
  "next_entry_pct_b c = dadd (mk_realtime_pct_b (cv_market c)) (Fin (6 / 100))"

definition create_flush_actions :: "context_view \<Rightarrow> trading_action list res" where
  "create_flush_actions c =
     ebind (next_entry_pct_b c) (\<lambda>entry_pct_b. Inr
       [PatchRuntimeContext
          [Set_flush_low (Some (mk_realtime_price (cv_market c))),
           Set_flush_low_pct_b (Some (mk_realtime_pct_b (cv_market c))),
           Set_flush_low_time (Some (cv_evaluated_at c)),
           Set_timer_base_pct_b (Some (mk_realtime_pct_b (cv_market c))),
           Set_timer_base_time (Some (cv_evaluated_at c)),
           Set_entry_pct_b (Some entry_pct_b)],
        schedule_market_reevaluation RETRY_CASE_C_SETUP_CONDITION_CHECK c
          ''Track recovery from the latest Case C flush low''])"

definition c_wait_setup :: "state_config \<Rightarrow> trading_event \<Rightarrow> context_view \<Rightarrow> outcome_res" where
  "c_wait_setup s e c =
     (if ev_type e = ACTIVATE_TRADE_MANAGEMENT \<or> ev_type e = RETRY_C_WAIT_SETUP
      then let is_activation = (ev_type e = ACTIVATE_TRADE_MANAGEMENT) in
        if \<not> is_setup_guard_satisfied c
        then stay (if is_activation then ''C-02'' else ''C-04'') s
               [schedule_market_reevaluation RETRY_C_WAIT_SETUP c
                  ''Wait for a new Case C setup in this candle'']
        else move (if is_activation then ''C-03'' else ''C-05'') (s\<lparr>st_c_signal := Some C_SETUP\<rparr>)
               [PatchRuntimeContext
                  [Set_last_case_c_setup_candle_id (mk_current_30m_candle_id (cv_market c))],
                create_queue_event_action START_CASE_C_SETUP_CONDITION_CHECK c] [] False
      else if ev_type e = CASE_B_POSITION_OPENED \<and> rt_position_owner (cv_runtime c) = Some CASE_B
      then move ''C-06'' (s\<lparr>st_c_signal := Some CASE_C_FINAL_STATE\<rparr>)
             [PatchRuntimeContext [Set_allow_new_case_c_setup False]] [] False
      else no_transition)"

definition c_start_setup :: "state_config \<Rightarrow> context_view \<Rightarrow> outcome_res" where
  "c_start_setup s c = stay ''C-07'' s
     [PatchRuntimeContext
        [Set_flush_low None, Set_flush_low_pct_b None, Set_flush_low_time None,
         Set_timer_base_pct_b None, Set_timer_base_time None, Set_entry_pct_b None],
      create_queue_event_action RETRY_CASE_C_SETUP_CONDITION_CHECK c]"

definition c_window_expired :: "context_view \<Rightarrow> bool" where
  "c_window_expired c \<longleftrightarrow>
     rt_flush_low (cv_runtime c) \<noteq> None \<and> condition_unmet c_new_low c \<and>
     condition_unmet c_recovery_window c \<and> condition_unmet c_recovery c"

definition c_in_recovery_window :: "context_view \<Rightarrow> bool" where
  "c_in_recovery_window c \<longleftrightarrow>
     rt_flush_low (cv_runtime c) \<noteq> None \<and> rt_entry_pct_b (cv_runtime c) \<noteq> None \<and>
     condition_met c_recovery_window c \<and> condition_met c_rebound c \<and>
     condition_unmet c_recovery c"

definition c_can_buy :: "context_view \<Rightarrow> bool" where
  "c_can_buy c \<longleftrightarrow>
     rt_position_owner (cv_runtime c) = None \<and> rt_pending_order_id (cv_runtime c) = None \<and>
     c_in_recovery_window c \<and> condition_met c_entry_limit c"

definition c_should_watch :: "context_view \<Rightarrow> bool" where
  "c_should_watch c \<longleftrightarrow>
     condition_unmet c_recovery c \<and>
     (rt_flush_low (cv_runtime c) = None \<and> condition_unmet c_flush c \<or>
      rt_flush_low (cv_runtime c) \<noteq> None \<and> rt_entry_pct_b (cv_runtime c) \<noteq> None \<and>
      condition_unmet c_new_low c \<and> condition_met c_recovery_window c \<and>
      condition_unmet c_rebound c)"

definition c_restart_window :: "state_config \<Rightarrow> context_view \<Rightarrow> outcome_res" where
  "c_restart_window s c =
     ebind (next_entry_pct_b c) (\<lambda>entry_pct_b.
       stay ''C-11'' s
         [PatchRuntimeContext
            [Set_current_open_pct_b (Some (mk_realtime_pct_b (cv_market c))),
             Set_timer_base_pct_b (Some (mk_realtime_pct_b (cv_market c))),
             Set_timer_base_time (Some (cv_evaluated_at c)),
             Set_entry_pct_b (Some entry_pct_b)],
          schedule_market_reevaluation RETRY_CASE_C_SETUP_CONDITION_CHECK c
            ''Case C three-minute recovery window restarted''])"

definition c_check_setup :: "state_config \<Rightarrow> trading_event \<Rightarrow> context_view \<Rightarrow> outcome_res" where
  "c_check_setup s e c =
     (let r = cv_runtime c in
      if rt_position_owner r = None \<and> condition_met c_recovery c
      then move ''C-08'' (s\<lparr>st_c_signal := Some CASE_C_FINAL_STATE\<rparr>)
             [PatchRuntimeContext
                [Set_case_c_consumed_for_event True, Set_case_c_recovery_confirmed True,
                 Set_allow_new_case_c_setup False]] [] False
      else if rt_flush_low r = None \<and> condition_met c_flush c
      then ebind (create_flush_actions c) (\<lambda>acts. stay ''C-09'' s acts)
      else if rt_flush_low r \<noteq> None \<and> condition_met c_new_low c
      then ebind (create_flush_actions c) (\<lambda>acts. stay ''C-10'' s acts)
      else if c_window_expired c then c_restart_window s c
      else if c_can_buy c
      then move ''C-12'' (s\<lparr>st_c_signal := Some C_POSITION_OPEN_SIGNALLED\<rparr>)
             (PatchRuntimeContext
                [Set_current_open_pct_b (Some (mk_realtime_pct_b (cv_market c)))] #
              create_entry_order_actions CASE_C INITIAL e c) [] False
      else if c_in_recovery_window c \<and> condition_unmet c_entry_limit c
      then stay ''C-13'' s
             [schedule_market_reevaluation RETRY_CASE_C_SETUP_CONDITION_CHECK c
                ''Recovery was too strong for a Case C entry'']
      else if c_should_watch c
      then stay ''C-14'' s
             [schedule_market_reevaluation RETRY_CASE_C_SETUP_CONDITION_CHECK c
                ''Continue Case C flush/recovery observation'']
      else no_transition)"

definition c_setup :: "state_config \<Rightarrow> trading_event \<Rightarrow> context_view \<Rightarrow> outcome_res" where
  "c_setup s e c =
     (if ev_type e = START_CASE_C_SETUP_CONDITION_CHECK then c_start_setup s c
      else if ev_type e = RETRY_CASE_C_SETUP_CONDITION_CHECK then c_check_setup s e c
      else if ev_type e = CASE_B_POSITION_OPENED \<and> rt_position_owner (cv_runtime c) = Some CASE_B
      then move ''C-15'' (s\<lparr>st_c_signal := Some CASE_C_FINAL_STATE\<rparr>)
             [PatchRuntimeContext [Set_allow_new_case_c_setup False]] [] False
      else no_transition)"

definition c_position_open_signalled ::
  "state_config \<Rightarrow> trading_event \<Rightarrow> context_view \<Rightarrow> outcome_res" where
  "c_position_open_signalled s e c =
     (if ev_type e = CASE_C_POSITION_OPENED \<and> rt_position_owner (cv_runtime c) = Some CASE_C
      then move ''C-16'' (s\<lparr>st_c_signal := Some CASE_C_FINAL_STATE\<rparr>) [] [] False
      else if ev_type e = CASE_B_POSITION_OPENED \<and> rt_position_owner (cv_runtime c) = Some CASE_B
      then move ''C-17'' (s\<lparr>st_c_signal := Some CASE_C_FINAL_STATE\<rparr>)
             [CancelPendingOrder (rt_pending_order_id (cv_runtime c))
                ''CASE_B_WON_ENTRY_ARBITRATION'',
              PatchRuntimeContext [Set_allow_new_case_c_setup False]] [] False
      else no_transition)"

definition handle_case_c_signal_transition ::
  "state_config \<Rightarrow> trading_event \<Rightarrow> context_view \<Rightarrow> outcome_res" where
  "handle_case_c_signal_transition s e c =
     (case st_c_signal s of
        Some C_WAIT_SETUP \<Rightarrow> c_wait_setup s e c
      | Some C_SETUP \<Rightarrow> c_setup s e c
      | Some C_POSITION_OPEN_SIGNALLED \<Rightarrow> c_position_open_signalled s e c
      | _ \<Rightarrow> no_transition)"

lemmas c_signal_defs [handler_defs] = c_wait_setup_def c_start_setup_def c_restart_window_def
  c_check_setup_def c_setup_def c_position_open_signalled_def handle_case_c_signal_transition_def

section \<open>The contract\<close>

definition c_signal_orders :: "event_type \<Rightarrow> order_request \<Rightarrow> bool" where
  "c_signal_orders t r \<longleftrightarrow> or_side r = BUY \<and> or_strategy r = CASE_C \<and>
     t = RETRY_CASE_C_SETUP_CONDITION_CHECK"

lemma c_signal_ids [simp]:
  "''C-02'' \<in> set transition_ids" "''C-03'' \<in> set transition_ids"
  "''C-04'' \<in> set transition_ids" "''C-05'' \<in> set transition_ids"
  "''C-06'' \<in> set transition_ids" "''C-07'' \<in> set transition_ids"
  "''C-08'' \<in> set transition_ids" "''C-09'' \<in> set transition_ids"
  "''C-10'' \<in> set transition_ids" "''C-11'' \<in> set transition_ids"
  "''C-12'' \<in> set transition_ids" "''C-13'' \<in> set transition_ids"
  "''C-14'' \<in> set transition_ids" "''C-15'' \<in> set transition_ids"
  "''C-16'' \<in> set transition_ids" "''C-17'' \<in> set transition_ids"
  by (simp_all add: transition_ids_set catalog_evals)

text \<open>Adding a finite constant never raises: the only invalid sum is that of two infinities.\<close>

lemma next_entry_pct_b_returns: "\<exists>d. next_entry_pct_b c = Inr d"
  by (cases "mk_realtime_pct_b (cv_market c)") (simp_all add: next_entry_pct_b_def)

lemma good_with_next_entry:
  assumes "\<And>d. good P e c (f d)"
  shows "good P e c (ebind (next_entry_pct_b c) f)"
  using next_entry_pct_b_returns [of c] assms by auto

lemma patch_safe_flush:
  assumes "inputs_ok e c"
  shows "patch_safe [Set_flush_low a, Set_flush_low_pct_b b, Set_flush_low_time (Some (cv_evaluated_at c)),
      Set_timer_base_pct_b d, Set_timer_base_time (Some (cv_evaluated_at c)), Set_entry_pct_b f]"
    "patch_safe [Set_current_open_pct_b a, Set_timer_base_pct_b b,
      Set_timer_base_time (Some (cv_evaluated_at c)), Set_entry_pct_b f]"
  using assms by (simp_all add: patch_safe_def inputs_ok_def)

lemma good_flush:
  assumes "config_ok s" "tid \<in> set transition_ids"
  shows "good P e c (ebind (create_flush_actions c) (\<lambda>acts. stay tid s acts))"
  unfolding create_flush_actions_def ebind_assoc ebind_Inr
  using assms by (auto intro!: good_with_next_entry good_stay patch_safe_flush(1))

lemma good_c_check_setup:
  assumes "config_ok s" "st_root s = TRADE_MANAGEMENT"
    and "ev_type e = RETRY_CASE_C_SETUP_CONDITION_CHECK"
  shows "good c_signal_orders e c (c_check_setup s e c)"
proof -
  have "good c_signal_orders e c (c_restart_window s c)"
    unfolding c_restart_window_def
    using assms by (auto intro!: good_with_next_entry good_stay patch_safe_flush(2))
  then show ?thesis
    unfolding c_check_setup_def Let_def
    using assms
    by (intro good_if good_flush good_stay good_move good_no_transition)
      (auto simp: config_simps patch_safe_def c_can_buy_def c_signal_orders_def
        intro!: actions_ok_entry)
qed

lemma good_c_signal:
  assumes "config_ok s" "st_root s = TRADE_MANAGEMENT"
  shows "good c_signal_orders e c (handle_case_c_signal_transition s e c)"
proof -
  have "good c_signal_orders e c (c_wait_setup s e c)"
    using assms by (auto simp: c_wait_setup_def Let_def config_simps patch_safe_def
        intro!: good_move good_stay)
  moreover have "good c_signal_orders e c (c_setup s e c)"
    using assms by (auto simp: c_setup_def c_start_setup_def config_simps patch_safe_def
        intro!: good_move good_stay good_c_check_setup)
  moreover have "good c_signal_orders e c (c_position_open_signalled s e c)"
    using assms by (auto simp: c_position_open_signalled_def config_simps patch_safe_def
        intro!: good_move)
  ultimately show ?thesis
    by (simp add: handle_case_c_signal_transition_def split: option.splits case_c_signal_state.splits)
qed

interpretation cs: region_handler handle_case_c_signal_transition
    "\<lambda>s. st_root s = TRADE_MANAGEMENT" c_signal_orders
  by unfold_locales (rule good_c_signal)

section \<open>The entry of case C\<close>

lemma orders_scheduled [simp]:
  "create_flush_actions c = Inr acts \<Longrightarrow> orders acts = []"
  by (auto simp: create_flush_actions_def ebind_eq_Inr schedule_market_reevaluation_def
      schedule_reevaluation_def)

text \<open>The region changes its own state only.\<close>

definition c_signal_frame :: "state_config \<Rightarrow> transition_outcome \<Rightarrow> bool" where
  "c_signal_frame s oc \<longleftrightarrow>
     st_root (oc_state_after oc) = st_root s \<and>
     st_ownership (oc_state_after oc) = st_ownership s \<and>
     st_b_signal (oc_state_after oc) = st_b_signal s \<and>
     st_b_position (oc_state_after oc) = st_b_position s \<and>
     st_c_position (oc_state_after oc) = st_c_position s \<and> \<not> oc_exclusive oc"

text \<open>The exact conditions of the first purchase.\<close>

definition c_signal_post :: "state_config \<Rightarrow> context_view \<Rightarrow> transition_outcome \<Rightarrow> bool" where
  "c_signal_post s c oc \<longleftrightarrow> c_signal_frame s oc \<and>
     (orders (oc_actions oc) \<noteq> [] \<longrightarrow>
        st_c_signal s = Some C_SETUP \<and> c_can_buy c \<and>
        oc_state_after oc = s\<lparr>st_c_signal := Some C_POSITION_OPEN_SIGNALLED\<rparr>)"

lemma c_signal_ensures: "ensures (c_signal_post s c) (handle_case_c_signal_transition s e c)"
proof (cases "st_c_signal s")
  case None
  then show ?thesis by (simp add: handle_case_c_signal_transition_def ensures_none)
next
  case (Some x)
  note post = c_signal_post_def c_signal_frame_def
  show ?thesis
  proof (cases x)
    case C_WAIT_SETUP
    have "ensures (c_signal_post s c) (c_wait_setup s e c)"
      unfolding c_wait_setup_def Let_def by (intro ensures_rules) (simp_all add: post)
    then show ?thesis by (simp add: handle_case_c_signal_transition_def Some C_WAIT_SETUP)
  next
    case C_SETUP
    have "ensures (c_signal_post s c) (c_setup s e c)"
      unfolding c_setup_def c_start_setup_def c_check_setup_def c_restart_window_def Let_def
      by (intro ensures_rules) (simp_all add: post Some C_SETUP)
    then show ?thesis by (simp add: handle_case_c_signal_transition_def Some C_SETUP)
  next
    case C_POSITION_OPEN_SIGNALLED
    have "ensures (c_signal_post s c) (c_position_open_signalled s e c)"
      unfolding c_position_open_signalled_def by (intro ensures_rules) (simp_all add: post)
    then show ?thesis
      by (simp add: handle_case_c_signal_transition_def Some C_POSITION_OPEN_SIGNALLED)
  next
    case CASE_C_FINAL_STATE
    then show ?thesis by (simp add: handle_case_c_signal_transition_def Some ensures_none)
  qed
qed

lemma c_signal_final:
  "st_c_signal s = Some CASE_C_FINAL_STATE \<Longrightarrow> handle_case_c_signal_transition s e c = no_transition"
  by (simp add: handle_case_c_signal_transition_def)

text \<open>
  A purchase of case C happens below the chase limit: the recorded entry level is under
  \<open>-0.15\<close>, the %B has reached it, and three minutes have not passed.
\<close>

lemma c_can_buy_numbers:
  assumes "c_can_buy c"
  obtains level where "rt_entry_pct_b (cv_runtime c) = Some level" "is_finite level"
    "dval level < - 15 / 100" "is_finite (mk_realtime_pct_b (cv_market c))"
    "dval level \<le> dval (mk_realtime_pct_b (cv_market c))"
    "mk_case_c_timer_elapsed (cv_market c) \<le> 180 * 1000000"
proof -
  have met: "condition_met c_entry_limit c" "condition_met c_rebound c"
    "condition_met c_recovery_window c"
    using assms by (auto simp: c_can_buy_def c_in_recovery_window_def)
  from met(1) obtain level where level: "rt_entry_pct_b (cv_runtime c) = Some level"
    "is_finite level" "dval level < - 15 / 100"
    by (auto simp: condition_met_plain [OF definition_of.simps(23)])
  have rebound: "is_finite (mk_realtime_pct_b (cv_market c))"
    "dval level \<le> dval (mk_realtime_pct_b (cv_market c))"
    using met(2) level(1) by (auto simp: condition_met_plain [OF definition_of.simps(21)])
  have "(of_int (mk_case_c_timer_elapsed (cv_market c)) :: rat) / 1000000 \<le> 180"
    using met(3) by (auto simp: condition_met_plain [OF definition_of.simps(22)])
  then have "(of_int (mk_case_c_timer_elapsed (cv_market c)) :: rat) \<le> of_int (180 * 1000000)"
    by (simp add: divide_le_eq)
  then have "mk_case_c_timer_elapsed (cv_market c) \<le> 180 * 1000000"
    by (simp only: of_int_le_iff)
  with level rebound show thesis by (rule that)
qed

end
