(* ===== verification/CaseB_Position.thy ===== *)
theory CaseB_Position
  imports CaseC_Signal
begin

text \<open>
  The management of a case B position, PB-01 to PB-24
  (\<open>transitions/case_b_position_transitions.py\<close>): the exit guards and their priority, the exit
  orders with their retries, trend hold, and the end of the position.
\<close>

section \<open>Guards\<close>

definition is_upper_trend_guard_satisfied :: "context_view \<Rightarrow> bool" where
  "is_upper_trend_guard_satisfied c \<longleftrightarrow>
     condition_met b_profit_zone c \<and> condition_met b_trend_slope c"

definition is_trend_hold_exit_guard_satisfied :: "context_view \<Rightarrow> bool" where
  "is_trend_hold_exit_guard_satisfied c \<longleftrightarrow>
     condition_met b_trend_exit_slope c \<or> condition_met b_trend_exit_pct_b c"

definition is_holding_exit_guard_satisfied :: "event_type \<Rightarrow> context_view \<Rightarrow> bool" where
  "is_holding_exit_guard_satisfied t c =
     (if t = CASE_B_EMERGENCY_STOP
      then ps_entry_price (cv_position c) \<noteq> None \<and> condition_met b_emergency_stop c
      else if t = CASE_B_STOP
      then mk_confirmed_30m_close (cv_market c) \<and> condition_met b_stop c
      else if t = CASE_B_UPPER_TREND then is_upper_trend_guard_satisfied c
      else if t = CASE_B_TAKE_PROFIT
      then condition_met b_profit_zone c \<and> condition_met b_take_profit_slope c
      else if t = CASE_B_TIME_EXIT then condition_met b_time_exit c
      else False)"

text \<open>The priority: emergency stop, stop, trend, profit, time.\<close>

definition holding_exit_priority :: "event_type list" where
  "holding_exit_priority = [CASE_B_EMERGENCY_STOP, CASE_B_STOP, CASE_B_UPPER_TREND,
     CASE_B_TAKE_PROFIT, CASE_B_TIME_EXIT]"

definition select_holding_exit_event :: "context_view \<Rightarrow> event_type option" where
  "select_holding_exit_event c =
     List.find (\<lambda>t. is_holding_exit_guard_satisfied t c) holding_exit_priority"

section \<open>The handlers\<close>

fun case_b_holding_exit_by_event :: "event_type \<Rightarrow> (string \<times> exit_reason) option" where
  "case_b_holding_exit_by_event CASE_B_EMERGENCY_STOP = Some (''PB-06'', EMERGENCY_STOP)"
| "case_b_holding_exit_by_event CASE_B_STOP = Some (''PB-08'', STOP)"
| "case_b_holding_exit_by_event CASE_B_TIME_EXIT = Some (''PB-10'', TIME)"
| "case_b_holding_exit_by_event CASE_B_TAKE_PROFIT = Some (''PB-12'', TAKE_PROFIT)"
| "case_b_holding_exit_by_event _ = None"

fun case_b_initial_failure_id :: "exit_reason \<Rightarrow> string option" where
  "case_b_initial_failure_id EMERGENCY_STOP = Some ''PB-07''"
| "case_b_initial_failure_id STOP = Some ''PB-09''"
| "case_b_initial_failure_id TIME = Some ''PB-11''"
| "case_b_initial_failure_id TAKE_PROFIT = Some ''PB-13''"
| "case_b_initial_failure_id _ = None"

definition b_holding_check :: "state_config \<Rightarrow> bool \<Rightarrow> context_view \<Rightarrow> outcome_res" where
  "b_holding_check s is_start c =
     (case select_holding_exit_event c of
        None \<Rightarrow> stay (if is_start then ''PB-02'' else ''PB-04'') s
          [schedule_market_reevaluation RETRY_CASE_B_CONDITION_CHECK c
             ''No Case B exit guard is currently true'']
      | Some t \<Rightarrow> stay (if is_start then ''PB-03'' else ''PB-05'') s
          [create_queue_event_action t c])"

definition b_return_state :: "state_config \<Rightarrow> position_return_state" where
  "b_return_state s = (if st_b_position s = Some CASE_B_TREND_HOLD then RETURN_CASE_B_TREND_HOLD
     else RETURN_CASE_B_HOLDING)"

text \<open>The first exit order of the event, when its guard holds and no exit is under way.\<close>

definition b_holding_exit ::
  "string \<Rightarrow> exit_reason \<Rightarrow> state_config \<Rightarrow> trading_event \<Rightarrow> context_view \<Rightarrow> outcome_res" where
  "b_holding_exit tid reason s e c =
     (if is_holding_exit_guard_satisfied (ev_type e) c \<and> can_start_exit c
      then stay tid s (create_exit_order_actions CASE_B reason (b_return_state s) e c INITIAL)
      else no_transition)"

definition b_holding_failed :: "state_config \<Rightarrow> trading_event \<Rightarrow> context_view \<Rightarrow> outcome_res" where
  "b_holding_failed s e c =
     (case Option.bind (rt_pending_exit_reason (cv_runtime c)) case_b_initial_failure_id of
        None \<Rightarrow> no_transition
      | Some first_id \<Rightarrow>
          if rt_pending_return_state (cv_runtime c) = Some (b_return_state s)
          then stay (if get_sell_attempt_kind e c = INITIAL then first_id else ''PB-20'') s
                 [schedule_reevaluation CASE_B_SELL_RETRY c
                    ''Retry the same Case B holding exit intent'' RETRY_BACKOFF]
          else no_transition)"

definition b_holding_retry :: "state_config \<Rightarrow> trading_event \<Rightarrow> context_view \<Rightarrow> outcome_res" where
  "b_holding_retry s e c =
     (case rt_pending_exit_reason (cv_runtime c) of
        None \<Rightarrow> no_transition
      | Some reason \<Rightarrow>
          if reason \<in> {EMERGENCY_STOP, STOP, TIME, TAKE_PROFIT} \<and>
             rt_pending_return_state (cv_runtime c) = Some (b_return_state s) \<and>
             rt_pending_order_id (cv_runtime c) = None
          then stay ''PB-19'' s (create_exit_order_actions CASE_B reason (b_return_state s) e c RETRY)
          else no_transition)"

definition b_handle_holding :: "state_config \<Rightarrow> trading_event \<Rightarrow> context_view \<Rightarrow> outcome_res" where
  "b_handle_holding s e c =
     (if ev_type e = START_CASE_B_CONDITION_CHECK \<or> ev_type e = RETRY_CASE_B_CONDITION_CHECK
      then b_holding_check s (ev_type e = START_CASE_B_CONDITION_CHECK) c
      else case case_b_holding_exit_by_event (ev_type e) of
        Some (tid, reason) \<Rightarrow> b_holding_exit tid reason s e c
      | None \<Rightarrow>
          if ev_type e = CASE_B_UPPER_TREND \<and> is_upper_trend_guard_satisfied c \<and> can_start_exit c
          then move ''PB-14'' (s\<lparr>st_b_position := Some CASE_B_TREND_HOLD\<rparr>)
                 [create_queue_event_action CASE_B_TREND_HOLD_CONDITION_CHECK c] [] False
          else if ev_type e = CASE_B_SELL_FAILED then b_holding_failed s e c
          else if ev_type e = CASE_B_SELL_RETRY then b_holding_retry s e c
          else no_transition)"

definition trend_exit_pending :: "context_view \<Rightarrow> bool" where
  "trend_exit_pending c \<longleftrightarrow>
     rt_pending_exit_reason (cv_runtime c) = Some TREND_HOLD \<and>
     rt_pending_return_state (cv_runtime c) = Some RETURN_CASE_B_TREND_HOLD"

definition b_handle_trend_hold :: "state_config \<Rightarrow> trading_event \<Rightarrow> context_view \<Rightarrow> outcome_res" where
  "b_handle_trend_hold s e c =
     (if ev_type e = CASE_B_TREND_HOLD_CONDITION_CHECK
      then if \<not> is_trend_hold_exit_guard_satisfied c
           then stay ''PB-15'' s
                  [schedule_market_reevaluation CASE_B_TREND_HOLD_CONDITION_CHECK c
                     ''Case B Trend Hold remains valid'']
           else stay ''PB-16'' s [create_queue_event_action CASE_B_TREND_HOLD_SELL c]
      else if ev_type e = CASE_B_TREND_HOLD_SELL \<and> is_trend_hold_exit_guard_satisfied c \<and>
              can_start_exit c
      then stay ''PB-17'' s
             (create_exit_order_actions CASE_B TREND_HOLD RETURN_CASE_B_TREND_HOLD e c INITIAL)
      else if ev_type e = CASE_B_SELL_FAILED \<and> trend_exit_pending c
      then stay (if get_sell_attempt_kind e c = INITIAL then ''PB-18'' else ''PB-22'') s
             [schedule_reevaluation CASE_B_SELL_RETRY c
                ''Retry the same Case B Trend Hold exit intent'' RETRY_BACKOFF]
      else if ev_type e = CASE_B_SELL_RETRY \<and> trend_exit_pending c \<and>
              rt_pending_order_id (cv_runtime c) = None
      then stay ''PB-21'' s
             (create_exit_order_actions CASE_B TREND_HOLD RETURN_CASE_B_TREND_HOLD e c RETRY)
      else no_transition)"

text \<open>The sale has been filled: the position is released and carries the pending reason.\<close>

definition b_handle_filled :: "state_config \<Rightarrow> case_b_position_state \<Rightarrow> context_view \<Rightarrow> outcome_res" where
  "b_handle_filled s pos c =
     (let r = cv_runtime c in
      if pos \<in> {CASE_B_HOLDING, CASE_B_TREND_HOLD} \<and> rt_position_owner r = None \<and>
         rt_pending_exit_reason r \<noteq> None \<and> rt_case_b_exit_reason r = rt_pending_exit_reason r
      then move ''PB-23F'' (s\<lparr>st_b_position := Some CASE_B_CLOSED\<rparr>)
             [create_clear_exit_patch, create_queue_event_action CASE_B_SELL_FINISHED c] [] False
      else no_transition)"

definition b_restart_lower_event :: "context_view \<Rightarrow> bool" where
  "b_restart_lower_event c \<longleftrightarrow>
     rt_case_b_exit_reason (cv_runtime c) \<in> {Some STOP, Some EMERGENCY_STOP} \<and>
     is_lower_touch_condition_met c"

definition b_handle_closed :: "trading_event \<Rightarrow> context_view \<Rightarrow> outcome_res" where
  "b_handle_closed e c =
     (if ev_type e \<noteq> CASE_B_SELL_FINISHED then no_transition
      else if b_restart_lower_event c
      then let open_action = create_open_lower_event_action e c in
        ebind (create_lower_event_initialization_patch c) (\<lambda>initialization.
          move ''PB-23'' trade_management_initial
            [CloseLowerEvent ''CASE_B_STOP_REENTRY'',
             ResetCaseBContext False,
             ResetCaseCContext False True,
             OpenLowerEvent open_action,
             initialization,
             PatchRuntimeContext [Set_position_owner None],
             queue_request ACTIVATE_TRADE_MANAGEMENT (Some (le_lower_event_id open_action))]
            [''O-01'', ''C-01'', ''B-01''] True)
      else move ''PB-24'' (inactive_config LOWER_TOUCH_WATCH)
             [ResetCaseBContext False,
              CloseLowerEvent ''CASE_B_CLOSED'',
              CancelScheduledEvaluation ''lower-event''] [] True)"

definition handle_case_b_position_transition ::
  "state_config \<Rightarrow> trading_event \<Rightarrow> context_view \<Rightarrow> outcome_res" where
  "handle_case_b_position_transition s e c =
     (case st_b_position s of
        None \<Rightarrow> no_transition
      | Some pos \<Rightarrow>
          if ev_type e = CASE_B_SELL_FILLED then b_handle_filled s pos c
          else if pos = CASE_B_CLOSED then b_handle_closed e c
          else if rt_pending_exit_reason (cv_runtime c) \<noteq> None \<and>
                  ev_type e \<noteq> CASE_B_SELL_FAILED \<and> ev_type e \<noteq> CASE_B_SELL_RETRY
          then no_transition
          else if pos = CASE_B_HOLDING then b_handle_holding s e c
          else b_handle_trend_hold s e c)"

lemmas b_position_defs [handler_defs] = b_holding_check_def b_holding_exit_def b_holding_failed_def
  b_holding_retry_def b_handle_holding_def b_handle_trend_hold_def b_handle_filled_def
  b_handle_closed_def handle_case_b_position_transition_def

section \<open>The contract\<close>

definition b_exit_events :: "event_type list" where
  "b_exit_events = [CASE_B_EMERGENCY_STOP, CASE_B_STOP, CASE_B_TIME_EXIT, CASE_B_TAKE_PROFIT,
     CASE_B_TREND_HOLD_SELL, CASE_B_SELL_RETRY]"

definition b_position_orders :: "event_type \<Rightarrow> order_request \<Rightarrow> bool" where
  "b_position_orders t r \<longleftrightarrow>
     or_side r = SELL \<and> or_strategy r = CASE_B \<and> t \<in> set b_exit_events"

lemma b_position_ids [simp]:
  "''PB-02'' \<in> set transition_ids" "''PB-03'' \<in> set transition_ids"
  "''PB-04'' \<in> set transition_ids" "''PB-05'' \<in> set transition_ids"
  "''PB-06'' \<in> set transition_ids" "''PB-07'' \<in> set transition_ids"
  "''PB-08'' \<in> set transition_ids" "''PB-09'' \<in> set transition_ids"
  "''PB-10'' \<in> set transition_ids" "''PB-11'' \<in> set transition_ids"
  "''PB-12'' \<in> set transition_ids" "''PB-13'' \<in> set transition_ids"
  "''PB-14'' \<in> set transition_ids" "''PB-15'' \<in> set transition_ids"
  "''PB-16'' \<in> set transition_ids" "''PB-17'' \<in> set transition_ids"
  "''PB-18'' \<in> set transition_ids" "''PB-19'' \<in> set transition_ids"
  "''PB-20'' \<in> set transition_ids" "''PB-21'' \<in> set transition_ids"
  "''PB-22'' \<in> set transition_ids" "''PB-23F'' \<in> set transition_ids"
  "''PB-23'' \<in> set transition_ids" "''PB-24'' \<in> set transition_ids"
  by (simp_all add: transition_ids_set catalog_evals)

lemma exit_by_event_id:
  "case_b_holding_exit_by_event t = Some (tid, reason) \<Longrightarrow>
     tid \<in> set transition_ids \<and> t \<in> set b_exit_events"
  by (cases t) (auto simp: b_exit_events_def)

lemma initial_failure_id: "case_b_initial_failure_id r = Some tid \<Longrightarrow> tid \<in> set transition_ids"
  by (cases r) auto

lemma selected_exit_event: "select_holding_exit_event c = Some t \<Longrightarrow> \<not> external_event t"
proof -
  assume "select_holding_exit_event c = Some t"
  then have "t \<in> set holding_exit_priority"
    by (auto simp: select_holding_exit_event_def find_Some_iff)
  moreover have "\<forall>t\<in>set holding_exit_priority. \<not> external_event t"
    by (simp add: holding_exit_priority_def)
  ultimately show ?thesis by blast
qed

lemma good_b_holding:
  assumes "config_ok s" "st_b_position s \<noteq> None"
  shows "good b_position_orders e c (b_handle_holding s e c)"
proof -
  have check: "good P e c (b_holding_check s b c)" for P b
    using assms by (simp add: b_holding_check_def good_stay selected_exit_event split: option.splits)
  have exit_ok: "good b_position_orders e c (b_holding_exit tid reason s e c)"
    if "case_b_holding_exit_by_event (ev_type e) = Some (tid, reason)" for tid reason
    unfolding b_holding_exit_def
    using exit_by_event_id [OF that] assms
    by (intro good_if good_no_transition good_stay actions_ok_first_exit)
      (auto simp: b_position_orders_def)
  have failed: "good P e c (b_holding_failed s e c)" for P
  proof (cases "Option.bind (rt_pending_exit_reason (cv_runtime c)) case_b_initial_failure_id")
    case (Some tid)
    then have "tid \<in> set transition_ids"
      by (auto simp: Option.bind_eq_Some_conv dest: initial_failure_id)
    then show ?thesis
      using assms by (simp add: b_holding_failed_def Some good_stay)
  qed (simp add: b_holding_failed_def)
  have retry: "good b_position_orders e c (b_holding_retry s e c)" if "ev_type e = CASE_B_SELL_RETRY"
  proof (cases "rt_pending_exit_reason (cv_runtime c)")
    case (Some reason)
    then show ?thesis
      unfolding b_holding_retry_def Some option.case
      using assms that Some
      by (intro good_if good_no_transition good_stay actions_ok_retry_exit)
        (auto simp: b_position_orders_def b_exit_events_def)
  qed (simp add: b_holding_retry_def)
  have trend: "good P e c (move ''PB-14'' (s\<lparr>st_b_position := Some CASE_B_TREND_HOLD\<rparr>)
      [create_queue_event_action CASE_B_TREND_HOLD_CONDITION_CHECK c] [] False)" for P
    using assms by (intro good_move) (simp_all add: config_ok_b_position)
  show ?thesis
  proof (cases "case_b_holding_exit_by_event (ev_type e)")
    case None
    then show ?thesis
      unfolding b_handle_holding_def None option.case
      by (intro good_if check trend failed retry good_no_transition)
  next
    case (Some p)
    then show ?thesis
      unfolding b_handle_holding_def Some option.case
      using Some by (cases p) (simp add: check exit_ok)
  qed
qed

lemma good_b_trend_hold:
  assumes "config_ok s"
  shows "good b_position_orders e c (b_handle_trend_hold s e c)"
  unfolding b_handle_trend_hold_def
  by (intro good_if good_no_transition good_stay actions_ok_retry_exit actions_ok_first_exit)
    (auto simp: assms trend_exit_pending_def b_position_orders_def b_exit_events_def)

lemma good_b_closed: "good P e c (b_handle_closed e c)"
  unfolding b_handle_closed_def Let_def
  by (intro good_if good_no_transition good_initialization good_move)
    (simp_all add: patch_safe_def)

lemma good_b_position: "config_ok s \<Longrightarrow> good b_position_orders e c (handle_case_b_position_transition s e c)"
proof (cases "st_b_position s")
  case (Some pos)
  assume ok: "config_ok s"
  have filled: "good b_position_orders e c (b_handle_filled s pos c)"
    unfolding b_handle_filled_def Let_def
    using ok Some by (intro good_if good_move good_no_transition) (simp_all add: config_ok_b_position)
  have hold: "good b_position_orders e c (b_handle_holding s e c)"
    using ok Some by (simp add: good_b_holding)
  show ?thesis
    unfolding handle_case_b_position_transition_def Some option.case
    by (intro good_if good_no_transition filled good_b_closed hold good_b_trend_hold ok)
qed (simp add: handle_case_b_position_transition_def)

interpretation bp: region_handler handle_case_b_position_transition
    "\<lambda>s. st_root s = TRADE_MANAGEMENT" b_position_orders
  by unfold_locales (rule good_b_position)

section \<open>The life cycle of the position\<close>

inductive b_position_edge :: "case_b_position_state \<Rightarrow> case_b_position_state \<Rightarrow> bool" where
  keep: "b_position_edge x x"
| trend: "b_position_edge CASE_B_HOLDING CASE_B_TREND_HOLD"
| close: "x \<noteq> CASE_B_CLOSED \<Longrightarrow> b_position_edge x CASE_B_CLOSED"

inductive_cases closed_b_edge: "b_position_edge CASE_B_CLOSED x"

text \<open>
  A step moves the position along its life cycle and touches nothing else, or, from \<open>CLOSED\<close>,
  ends the lower event.  An order repeats a pending exit or starts one whose guard holds.
\<close>

definition b_order_justified :: "state_config \<Rightarrow> trading_event \<Rightarrow> context_view \<Rightarrow> order_request \<Rightarrow> bool" where
  "b_order_justified s e c r \<longleftrightarrow>
     (if or_attempt_kind r = INITIAL
      then can_start_exit c \<and>
           (st_b_position s = Some CASE_B_HOLDING \<and> is_holding_exit_guard_satisfied (ev_type e) c \<or>
            st_b_position s = Some CASE_B_TREND_HOLD \<and> or_exit_reason r = Some TREND_HOLD \<and>
            is_trend_hold_exit_guard_satisfied c)
      else ev_type e = CASE_B_SELL_RETRY \<and>
           rt_pending_exit_reason (cv_runtime c) = or_exit_reason r)"

definition b_position_post ::
  "state_config \<Rightarrow> trading_event \<Rightarrow> context_view \<Rightarrow> transition_outcome \<Rightarrow> bool" where
  "b_position_post s e c oc \<longleftrightarrow>
     (if oc_exclusive oc
      then st_b_position s = Some CASE_B_CLOSED \<and> ev_type e = CASE_B_SELL_FINISHED \<and>
           oc_state_after oc = (if b_restart_lower_event c then trade_management_initial
                                else inactive_config LOWER_TOUCH_WATCH)
      else (\<exists>x y. st_b_position s = Some x \<and> b_position_edge x y \<and>
              oc_state_after oc = s\<lparr>st_b_position := Some y\<rparr>)) \<and>
     (\<forall>r\<in>set (orders (oc_actions oc)). b_order_justified s e c r)"

lemma b_position_kept: "st_b_position s = Some x \<Longrightarrow> s = s\<lparr>st_b_position := Some x\<rparr>"
  by (cases s) simp

lemma exit_orders_members [simp]:
  "orders (create_exit_order_actions st reason ret e c kind) =
     [\<lparr>or_strategy = st, or_side = SELL, or_attempt_kind = kind,
       or_idempotency_key = exit_intent_id st reason e c, or_exit_reason = Some reason,
       or_exit_pct_b_at_intent = exit_pct_b_at_intent st kind c\<rparr>]"
  by (simp add: create_exit_order_actions_def Let_def)

lemma b_post_stay:
  assumes "st_b_position s = Some x" "\<forall>r\<in>set (orders acts). b_order_justified s e c r"
  shows "b_position_post s e c (create_transition_outcome tid s acts extra False)"
  using assms b_position_kept [OF assms(1)] by (auto simp: b_position_post_def intro: b_position_edge.keep)

lemma b_post_move:
  assumes "st_b_position s = Some x" "b_position_edge x y" "orders acts = []"
  shows "b_position_post s e c
    (create_transition_outcome tid (s\<lparr>st_b_position := Some y\<rparr>) acts extra False)"
  using assms by (auto simp: b_position_post_def)

lemma b_holding_ensures:
  assumes "st_b_position s = Some CASE_B_HOLDING"
  shows "ensures (b_position_post s e c) (b_handle_holding s e c)"
proof -
  note stay = ensures_stay [where Q = "b_position_post s e c", OF b_post_stay [OF assms]]
  have check: "ensures (b_position_post s e c) (b_holding_check s b c)" for b
    unfolding b_holding_check_def by (cases "select_holding_exit_event c") (auto intro!: stay)
  have exit_ok: "ensures (b_position_post s e c) (b_holding_exit tid reason s e c)" for tid reason
    unfolding b_holding_exit_def
    by (intro ensures_if ensures_none stay) (simp add: b_order_justified_def assms)
  have failed: "ensures (b_position_post s e c) (b_holding_failed s e c)"
    by (auto simp: b_holding_failed_def split: option.splits intro!: stay ensures_none)
  have retry: "ensures (b_position_post s e c) (b_holding_retry s e c)"
    if "ev_type e = CASE_B_SELL_RETRY"
    using that by (auto simp: b_holding_retry_def b_order_justified_def split: option.splits
        intro!: stay ensures_none)
  have trend: "ensures (b_position_post s e c) (move ''PB-14'' (s\<lparr>st_b_position := Some CASE_B_TREND_HOLD\<rparr>)
      [create_queue_event_action CASE_B_TREND_HOLD_CONDITION_CHECK c] [] False)"
    by (intro ensures_move b_post_move [OF assms] b_position_edge.trend) simp
  show ?thesis
    unfolding b_handle_holding_def
    by (cases "case_b_holding_exit_by_event (ev_type e)")
      (auto intro!: check exit_ok failed retry trend ensures_none)
qed

lemma b_trend_ensures:
  assumes "st_b_position s = Some CASE_B_TREND_HOLD"
  shows "ensures (b_position_post s e c) (b_handle_trend_hold s e c)"
  unfolding b_handle_trend_hold_def
  by (intro ensures_if ensures_none ensures_stay b_post_stay [OF assms])
    (simp_all add: b_order_justified_def assms trend_exit_pending_def)

lemma b_position_ensures: "ensures (b_position_post s e c) (handle_case_b_position_transition s e c)"
proof (cases "st_b_position s")
  case (Some pos)
  have filled: "ensures (b_position_post s e c) (b_handle_filled s pos c)"
    unfolding b_handle_filled_def Let_def
    by (intro ensures_if ensures_none ensures_move b_post_move [OF Some])
      (auto intro: b_position_edge.close)
  have finished: "ensures (b_position_post s e c) (b_handle_closed e c)" if "pos = CASE_B_CLOSED"
    unfolding b_handle_closed_def Let_def
    by (intro ensures_rules) (simp_all add: b_position_post_def Some that)
  show ?thesis
    unfolding handle_case_b_position_transition_def Some option.case
  proof (intro ensures_if ensures_none filled finished)
    assume "pos = CASE_B_HOLDING"
    with Some show "ensures (b_position_post s e c) (b_handle_holding s e c)"
      by (simp add: b_holding_ensures)
  next
    assume "pos \<noteq> CASE_B_CLOSED" "pos \<noteq> CASE_B_HOLDING"
    with Some show "ensures (b_position_post s e c) (b_handle_trend_hold s e c)"
      by (cases pos) (simp_all add: b_trend_ensures)
  qed
qed (simp add: handle_case_b_position_transition_def ensures_none)

section \<open>The exit priority\<close>

text \<open>The check selects the first event of the list whose guard holds.\<close>

lemma select_holding_exit_first:
  assumes "select_holding_exit_event c = Some t"
  obtains before after where "holding_exit_priority = before @ t # after"
    "is_holding_exit_guard_satisfied t c"
    "\<forall>u\<in>set before. \<not> is_holding_exit_guard_satisfied u c"
proof -
  from assms obtain i where "i < length holding_exit_priority" "holding_exit_priority ! i = t"
    "is_holding_exit_guard_satisfied t c"
    "\<forall>j<i. \<not> is_holding_exit_guard_satisfied (holding_exit_priority ! j) c"
    by (auto simp: select_holding_exit_event_def find_Some_iff)
  then show thesis
    by (intro that [of "take i holding_exit_priority" "drop (Suc i) holding_exit_priority"])
      (auto simp: id_take_nth_drop in_set_conv_nth)
qed

text \<open>While an exit is pending, the market cannot start another one.\<close>

lemma b_exit_locked:
  assumes "st_b_position s \<in> {Some CASE_B_HOLDING, Some CASE_B_TREND_HOLD}"
    and "rt_pending_exit_reason (cv_runtime c) \<noteq> None"
    and "ev_type e \<notin> {CASE_B_SELL_FILLED, CASE_B_SELL_FAILED, CASE_B_SELL_RETRY}"
  shows "handle_case_b_position_transition s e c = no_transition"
  using assms by (auto simp: handle_case_b_position_transition_def)

end
