(* ===== verification/CaseC_Position.thy ===== *)
theory CaseC_Position
  imports CaseB_Position
begin

text \<open>
  The management of a case C position, PC-01 to PC-28
  (\<open>transitions/case_c_position_transitions.py\<close>): holding, the trailing of the profit target,
  the exit orders with their retries, the recovery after the exit and the handoff to case B.
\<close>

section \<open>Guards\<close>

definition select_holding_event :: "context_view \<Rightarrow> event_type option" where
  "select_holding_event c =
     (if condition_met c_profit_zone c then Some CASE_C_ENTER_PROFIT_ZONE
      else if condition_met c_stop c then Some CASE_C_STOP
      else if condition_met c_time_exit c then Some CASE_C_TIME_EXIT
      else None)"

definition trail_comparable :: "context_view \<Rightarrow> bool" where
  "trail_comparable c \<longleftrightarrow> mk_confirmed_1m_close (cv_market c) \<and>
     rt_previous_trail_ema_slope (cv_runtime c) \<noteq> None"

definition select_trailing_event :: "context_view \<Rightarrow> event_type option" where
  "select_trailing_event c =
     (if condition_met c_trail_fallback c then Some CASE_C_SELL_AT_TP_PRICE
      else if trail_comparable c \<and> condition_met c_trail_increase c
      then Some CASE_C_EMA_INCREASEMENT
      else if trail_comparable c \<and> condition_unmet c_trail_increase c
      then Some CASE_C_EMA_DECREASEMENT
      else if condition_met c_time_exit c then Some CASE_C_TIME_EXIT
      else None)"

text \<open>\<open>_is_case_b_handoff_active\<close> of this module.\<close>

definition is_case_b_handoff_active :: "context_view \<Rightarrow> bool" where
  "is_case_b_handoff_active c \<longleftrightarrow>
     rt_case_c_exit_reason (cv_runtime c) = Some TP_TRAIL \<and>
     rt_case_c_exit_pct_b (cv_runtime c) \<noteq> None \<and> condition_met c_handoff c"

section \<open>The handlers\<close>

definition schedule_sell_retry :: "string \<Rightarrow> state_config \<Rightarrow> context_view \<Rightarrow> outcome_res" where
  "schedule_sell_retry tid s c =
     stay tid s [schedule_reevaluation CASE_C_SELL_RETRY c
       ''Retry the same Case C exit intent'' RETRY_BACKOFF]"

definition handle_time_exit_or_failure ::
  "state_config \<Rightarrow> trading_event \<Rightarrow> context_view \<Rightarrow> position_return_state \<Rightarrow> string \<Rightarrow>
   outcome_res" where
  "handle_time_exit_or_failure s e c return_state repeated_failure_id =
     (if ev_type e = CASE_C_TIME_EXIT \<and> condition_met c_time_exit c \<and> can_start_exit c
      then stay ''PC-08'' s (create_exit_order_actions CASE_C TIME return_state e c INITIAL)
      else if ev_type e = CASE_C_SELL_FAILED \<and>
              rt_pending_exit_reason (cv_runtime c) = Some TIME \<and>
              rt_pending_return_state (cv_runtime c) = Some return_state
      then schedule_sell_retry
             (if get_sell_attempt_kind e c = INITIAL then ''PC-09'' else repeated_failure_id) s c
      else no_transition)"

text \<open>A retry repeats the pending reason, whichever it is.\<close>

definition c_exit_retry ::
  "string \<Rightarrow> position_return_state \<Rightarrow> state_config \<Rightarrow> trading_event \<Rightarrow> context_view \<Rightarrow>
   outcome_res" where
  "c_exit_retry tid return_state s e c =
     (case rt_pending_exit_reason (cv_runtime c) of
        None \<Rightarrow> no_transition
      | Some reason \<Rightarrow>
          if rt_pending_return_state (cv_runtime c) = Some return_state \<and>
             rt_pending_order_id (cv_runtime c) = None
          then stay tid s (create_exit_order_actions CASE_C reason return_state e c RETRY)
          else no_transition)"

definition c_holding_check :: "state_config \<Rightarrow> bool \<Rightarrow> context_view \<Rightarrow> outcome_res" where
  "c_holding_check s is_start c =
     (case select_holding_event c of
        None \<Rightarrow> stay (if is_start then ''PC-02'' else ''PC-04'') s
          [schedule_market_reevaluation RETRY_CASE_C_CONDITION_CHECK c
             ''No Case C holding transition is currently enabled'']
      | Some t \<Rightarrow> stay (if is_start then ''PC-03'' else ''PC-05'') s
          [create_queue_event_action t c])"

text \<open>\<open>lower_band + Decimal("0.10") * (upper_band - lower_band)\<close>.\<close>

definition tp_price_of :: "market_snapshot \<Rightarrow> decimal res" where
  "tp_price_of m =
     ebind (dsub (mk_upper_band m) (mk_lower_band m)) (\<lambda>width.
     ebind (dmul (Fin (10 / 100)) width) (\<lambda>part.
     dadd (mk_lower_band m) part))"

definition c_enter_profit_zone :: "state_config \<Rightarrow> context_view \<Rightarrow> outcome_res" where
  "c_enter_profit_zone s c =
     ebind (tp_price_of (cv_market c)) (\<lambda>tp_price.
       move ''PC-10'' (s\<lparr>st_c_position := Some CASE_C_TP_TRAILING\<rparr>)
         [PatchRuntimeContext
            [Set_tp_price (Some tp_price),
             Set_previous_trail_ema_slope (Some (mk_tp_reference_ema_slope (cv_market c)))],
          create_queue_event_action START_TP_TRAILING_CONDITION_CHECK c] [] False)"

definition c_handle_holding :: "state_config \<Rightarrow> trading_event \<Rightarrow> context_view \<Rightarrow> outcome_res" where
  "c_handle_holding s e c =
     (if ev_type e = START_CASE_C_CONDITION_CHECK \<or> ev_type e = RETRY_CASE_C_CONDITION_CHECK
      then c_holding_check s (ev_type e = START_CASE_C_CONDITION_CHECK) c
      else if ev_type e = CASE_C_STOP \<and> condition_met c_stop c \<and> can_start_exit c
      then stay ''PC-06'' s
             (create_exit_order_actions CASE_C STOP RETURN_CASE_C_HOLDING e c INITIAL)
      else if ev_type e = CASE_C_ENTER_PROFIT_ZONE \<and> condition_met c_profit_zone c \<and>
              can_start_exit c
      then c_enter_profit_zone s c
      else ebind (handle_time_exit_or_failure s e c RETURN_CASE_C_HOLDING ''PC-21'') (\<lambda>shared.
        case shared of
          Some oc \<Rightarrow> Inr (Some oc)
        | None \<Rightarrow>
            if ev_type e = CASE_C_SELL_FAILED \<and>
               rt_pending_exit_reason (cv_runtime c) = Some STOP \<and>
               rt_pending_return_state (cv_runtime c) = Some RETURN_CASE_C_HOLDING
            then schedule_sell_retry
                   (if get_sell_attempt_kind e c = INITIAL then ''PC-07'' else ''PC-21'') s c
            else if ev_type e = CASE_C_SELL_RETRY
            then c_exit_retry ''PC-20'' RETURN_CASE_C_HOLDING s e c
            else no_transition))"

definition c_trailing_check :: "state_config \<Rightarrow> bool \<Rightarrow> context_view \<Rightarrow> outcome_res" where
  "c_trailing_check s is_start c =
     (case select_trailing_event c of
        None \<Rightarrow> stay (if is_start then ''PC-11'' else ''PC-13'') s
          [schedule_market_reevaluation RETRY_TP_TRAILING_CONDITION_CHECK c
             ''Case C TP trailing remains active'']
      | Some t \<Rightarrow> stay (if is_start then ''PC-12'' else ''PC-14'') s
          [create_queue_event_action t c])"

text \<open>The failure of a fallback or trail sale.\<close>

definition c_trailing_failed :: "state_config \<Rightarrow> trading_event \<Rightarrow> context_view \<Rightarrow> outcome_res" where
  "c_trailing_failed s e c =
     (if rt_pending_return_state (cv_runtime c) = Some RETURN_CASE_C_TP_TRAILING \<and>
         rt_pending_exit_reason (cv_runtime c) \<in> {Some TP_FALLBACK, Some TP_TRAIL}
      then schedule_sell_retry
             (if get_sell_attempt_kind e c = RETRY then ''PC-23''
              else if rt_pending_exit_reason (cv_runtime c) = Some TP_FALLBACK then ''PC-17''
              else ''PC-19'') s c
      else no_transition)"

definition c_handle_tp_trailing :: "state_config \<Rightarrow> trading_event \<Rightarrow> context_view \<Rightarrow> outcome_res" where
  "c_handle_tp_trailing s e c =
     (if ev_type e = START_TP_TRAILING_CONDITION_CHECK \<or>
         ev_type e = RETRY_TP_TRAILING_CONDITION_CHECK
      then c_trailing_check s (ev_type e = START_TP_TRAILING_CONDITION_CHECK) c
      else if ev_type e = CASE_C_EMA_INCREASEMENT \<and> trail_comparable c \<and>
              condition_met c_trail_increase c
      then stay ''PC-15'' s
             [PatchRuntimeContext
                [Set_previous_trail_ema_slope (Some (mk_current_close_ema_slope (cv_market c)))],
              schedule_market_reevaluation RETRY_TP_TRAILING_CONDITION_CHECK c
                ''Continue TP trailing after EMA slope increased'']
      else if ev_type e = CASE_C_SELL_AT_TP_PRICE \<and> condition_met c_trail_fallback c \<and>
              can_start_exit c
      then stay ''PC-16'' s
             (create_exit_order_actions CASE_C TP_FALLBACK RETURN_CASE_C_TP_TRAILING e c INITIAL)
      else if ev_type e = CASE_C_EMA_DECREASEMENT \<and> trail_comparable c \<and>
              condition_unmet c_trail_increase c \<and> can_start_exit c
      then stay ''PC-18'' s
             (create_exit_order_actions CASE_C TP_TRAIL RETURN_CASE_C_TP_TRAILING e c INITIAL)
      else ebind (handle_time_exit_or_failure s e c RETURN_CASE_C_TP_TRAILING ''PC-23'') (\<lambda>shared.
        case shared of
          Some oc \<Rightarrow> Inr (Some oc)
        | None \<Rightarrow>
            if ev_type e = CASE_C_SELL_FAILED then c_trailing_failed s e c
            else if ev_type e = CASE_C_SELL_RETRY
            then c_exit_retry ''PC-22'' RETURN_CASE_C_TP_TRAILING s e c
            else no_transition))"

definition c_handle_filled :: "state_config \<Rightarrow> case_c_position_state \<Rightarrow> context_view \<Rightarrow> outcome_res" where
  "c_handle_filled s pos c =
     (let r = cv_runtime c in
      if pos \<in> {CASE_C_HOLDING, CASE_C_TP_TRAILING} \<and> rt_position_owner r = None \<and>
         rt_pending_exit_reason r \<noteq> None \<and> rt_case_c_exit_reason r = rt_pending_exit_reason r
      then move ''PC-23F'' (s\<lparr>st_c_position := Some CASE_C_CLOSED\<rparr>)
             [create_clear_exit_patch, create_queue_event_action CASE_C_SELL_FINISHED c] [] False
      else no_transition)"

definition c_handle_closed :: "state_config \<Rightarrow> trading_event \<Rightarrow> context_view \<Rightarrow> outcome_res" where
  "c_handle_closed s e c =
     (if ev_type e = CASE_C_SELL_FINISHED
      then stay ''PC-24'' s
             [PatchRuntimeContext
                [Set_case_c_consumed_for_event True, Set_allow_new_case_c_setup False,
                 Set_case_b_entry_paused True],
              create_queue_event_action CHECK_CASE_C_RECOVERY c]
      else if ev_type e = CHECK_CASE_C_RECOVERY
      then if condition_unmet c_recovery c
           then stay ''PC-25'' s
                  [schedule_market_reevaluation CHECK_CASE_C_RECOVERY c
                     ''Wait for Case C post-exit %B recovery'']
           else if \<not> condition_met c_recovery c then no_transition
           else move ''PC-26'' (s\<lparr>st_c_position := Some CASE_C_RECOVERY_SUCCEEDED\<rparr>)
                  [PatchRuntimeContext [Set_case_c_recovery_confirmed True],
                   create_queue_event_action CHECK_CASE_B_HANDOFF c] [] False
      else no_transition)"

definition c_handle_recovered :: "state_config \<Rightarrow> trading_event \<Rightarrow> context_view \<Rightarrow> outcome_res" where
  "c_handle_recovered s e c =
     (if ev_type e \<noteq> CHECK_CASE_B_HANDOFF then no_transition
      else let state_after = s\<lparr>st_ownership := Some NO_POSITION, st_c_position := None\<rparr> in
        if is_case_b_handoff_active c
        then move ''PC-27'' state_after
               [PatchRuntimeContext
                  [Set_case_b_entry_paused False, Set_case_b_only_until_next_lower_touch True,
                   Set_allow_new_case_c_setup False],
                create_queue_event_action CASE_B_ACTIVE_RESUME c] [] False
        else move ''PC-28'' state_after
               [PatchRuntimeContext
                  [Set_case_b_entry_paused True, Set_case_b_only_until_next_lower_touch True,
                   Set_allow_new_case_c_setup False],
                create_queue_event_action CASE_B_WAIT_ONLY c] [] False)"

definition handle_case_c_position_transition ::
  "state_config \<Rightarrow> trading_event \<Rightarrow> context_view \<Rightarrow> outcome_res" where
  "handle_case_c_position_transition s e c =
     (case st_c_position s of
        None \<Rightarrow> no_transition
      | Some pos \<Rightarrow>
          if ev_type e = CASE_C_SELL_FILLED then c_handle_filled s pos c
          else if pos = CASE_C_CLOSED then c_handle_closed s e c
          else if pos = CASE_C_RECOVERY_SUCCEEDED then c_handle_recovered s e c
          else if rt_pending_exit_reason (cv_runtime c) \<noteq> None \<and>
                  ev_type e \<noteq> CASE_C_SELL_FAILED \<and> ev_type e \<noteq> CASE_C_SELL_RETRY
          then no_transition
          else if pos = CASE_C_HOLDING then c_handle_holding s e c
          else c_handle_tp_trailing s e c)"

lemmas c_position_defs [handler_defs] = handle_time_exit_or_failure_def c_exit_retry_def
  c_holding_check_def c_enter_profit_zone_def c_handle_holding_def c_trailing_check_def
  c_trailing_failed_def c_handle_tp_trailing_def c_handle_filled_def c_handle_closed_def
  c_handle_recovered_def handle_case_c_position_transition_def schedule_sell_retry_def

section \<open>The contract\<close>

definition c_exit_events :: "event_type list" where
  "c_exit_events = [CASE_C_STOP, CASE_C_TIME_EXIT, CASE_C_SELL_AT_TP_PRICE,
     CASE_C_EMA_DECREASEMENT, CASE_C_SELL_RETRY]"

definition c_position_orders :: "event_type \<Rightarrow> order_request \<Rightarrow> bool" where
  "c_position_orders t r \<longleftrightarrow>
     or_side r = SELL \<and> or_strategy r = CASE_C \<and> t \<in> set c_exit_events"

lemma c_position_ids [simp]:
  "''PC-02'' \<in> set transition_ids" "''PC-03'' \<in> set transition_ids"
  "''PC-04'' \<in> set transition_ids" "''PC-05'' \<in> set transition_ids"
  "''PC-06'' \<in> set transition_ids" "''PC-07'' \<in> set transition_ids"
  "''PC-08'' \<in> set transition_ids" "''PC-09'' \<in> set transition_ids"
  "''PC-10'' \<in> set transition_ids" "''PC-11'' \<in> set transition_ids"
  "''PC-12'' \<in> set transition_ids" "''PC-13'' \<in> set transition_ids"
  "''PC-14'' \<in> set transition_ids" "''PC-15'' \<in> set transition_ids"
  "''PC-16'' \<in> set transition_ids" "''PC-17'' \<in> set transition_ids"
  "''PC-18'' \<in> set transition_ids" "''PC-19'' \<in> set transition_ids"
  "''PC-20'' \<in> set transition_ids" "''PC-21'' \<in> set transition_ids"
  "''PC-22'' \<in> set transition_ids" "''PC-23'' \<in> set transition_ids"
  "''PC-23F'' \<in> set transition_ids" "''PC-24'' \<in> set transition_ids"
  "''PC-25'' \<in> set transition_ids" "''PC-26'' \<in> set transition_ids"
  "''PC-27'' \<in> set transition_ids" "''PC-28'' \<in> set transition_ids"
  by (simp_all add: transition_ids_set catalog_evals)

text \<open>With finite bands the target price is computed, rounded to 28 digits three times.\<close>

lemma tp_price_returns:
  assumes "is_finite (mk_upper_band m)" "is_finite (mk_lower_band m)"
  shows "\<exists>p. tp_price_of m = Inr p \<and> is_finite p \<and>
    dval p = round28 (dval (mk_lower_band m) + round28 (10 / 100 *
      round28 (dval (mk_upper_band m) - dval (mk_lower_band m))))"
proof -
  obtain w where w: "dsub (mk_upper_band m) (mk_lower_band m) = Inr w" "is_finite w"
    "dval w = round28 (dval (mk_upper_band m) - dval (mk_lower_band m))"
    using dsub_finite [OF assms] by blast
  obtain q where q: "dmul (Fin (10 / 100)) w = Inr q" "is_finite q"
    "dval q = round28 (10 / 100 * dval w)"
    using dmul_finite [of "Fin (10 / 100)" w] w(2) by auto
  obtain p where p: "dadd (mk_lower_band m) q = Inr p" "is_finite p"
    "dval p = round28 (dval (mk_lower_band m) + dval q)"
    using dadd_finite [OF assms(2) q(2)] by blast
  from w q p show ?thesis by (simp add: tp_price_of_def)
qed

text \<open>The only exception of the computation is the invalid operation on infinities.\<close>

lemma dadd_error: "dadd x y = Inl err \<Longrightarrow> err = InvalidOperation"
  by (cases x; cases y) (auto split: if_splits)

lemma dmul_error: "dmul x y = Inl err \<Longrightarrow> err = InvalidOperation"
  by (cases x; cases y) (auto split: if_splits)

lemma tp_price_error: "tp_price_of m = Inl err \<Longrightarrow> err = InvalidOperation"
  by (auto simp: tp_price_of_def ebind_eq_Inl dsub_def dest: dadd_error dmul_error)

lemma good_c_profit_zone:
  assumes "config_ok s" "st_c_position s \<noteq> None"
  shows "good P e c (c_enter_profit_zone s c)"
proof (cases "tp_price_of (cv_market c)")
  case (Inl err)
  then have "raw_unfit (cv_market c)"
    using tp_price_returns [of "cv_market c"] by (auto simp: raw_unfit_def)
  with Inl tp_price_error [OF Inl] show ?thesis
    by (simp add: c_enter_profit_zone_def good_def)
next
  case (Inr p)
  have "config_ok (s\<lparr>st_c_position := Some CASE_C_TP_TRAILING\<rparr>)"
    using assms by (simp add: config_ok_c_position)
  with Inr show ?thesis
    by (simp add: c_enter_profit_zone_def good_move patch_safe_def)
qed

lemma good_sell_retry_c:
  "config_ok s \<Longrightarrow> tid \<in> set transition_ids \<Longrightarrow> good P e c (schedule_sell_retry tid s c)"
  by (simp add: schedule_sell_retry_def good_stay)

lemma good_c_exit_retry:
  assumes "config_ok s" "tid \<in> set transition_ids" "ev_type e = CASE_C_SELL_RETRY"
  shows "good c_position_orders e c (c_exit_retry tid ret s e c)"
proof (cases "rt_pending_exit_reason (cv_runtime c)")
  case (Some reason)
  then show ?thesis
    unfolding c_exit_retry_def Some option.case
    using assms Some
    by (intro good_if good_no_transition good_stay actions_ok_retry_exit)
      (auto simp: c_position_orders_def c_exit_events_def)
qed (simp add: c_exit_retry_def)

lemma good_c_time_exit:
  assumes "config_ok s" "tid \<in> set transition_ids"
  shows "good c_position_orders e c (handle_time_exit_or_failure s e c ret tid)"
  unfolding handle_time_exit_or_failure_def
  by (intro good_if good_no_transition good_stay good_sell_retry_c actions_ok_first_exit)
    (auto simp: assms c_position_orders_def c_exit_events_def)

lemma selected_event_c:
  "select_holding_event c = Some t \<Longrightarrow> \<not> external_event t"
  "select_trailing_event c = Some t \<Longrightarrow> \<not> external_event t"
proof -
  have "pred_option (\<lambda>t. \<not> external_event t) (select_holding_event c)"
    "pred_option (\<lambda>t. \<not> external_event t) (select_trailing_event c)"
    by (simp_all add: select_holding_event_def select_trailing_event_def)
  then show "select_holding_event c = Some t \<Longrightarrow> \<not> external_event t"
    "select_trailing_event c = Some t \<Longrightarrow> \<not> external_event t" by auto
qed

lemma good_c_holding:
  assumes "config_ok s" "st_c_position s \<noteq> None"
  shows "good c_position_orders e c (c_handle_holding s e c)"
proof -
  have check: "good P e c (c_holding_check s b c)" for P b
    using assms by (simp add: c_holding_check_def good_stay selected_event_c split: option.splits)
  show ?thesis
    unfolding c_handle_holding_def
    by (intro good_if good_no_transition good_stay good_or_else check good_c_profit_zone
        good_c_time_exit good_c_exit_retry good_sell_retry_c actions_ok_first_exit)
      (auto simp: assms c_position_orders_def c_exit_events_def)
qed

lemma good_c_tp_trailing:
  assumes "config_ok s"
  shows "good c_position_orders e c (c_handle_tp_trailing s e c)"
proof -
  have check: "good P e c (c_trailing_check s b c)" for P b
    using assms by (simp add: c_trailing_check_def good_stay selected_event_c split: option.splits)
  have failed: "good P e c (c_trailing_failed s e c)" for P
    using assms by (simp add: c_trailing_failed_def good_sell_retry_c)
  show ?thesis
    unfolding c_handle_tp_trailing_def
    by (intro good_if good_no_transition good_stay good_or_else check failed
        good_c_time_exit good_c_exit_retry actions_ok_first_exit)
      (auto simp: assms c_position_orders_def c_exit_events_def patch_safe_def)
qed

lemma good_c_position: "config_ok s \<Longrightarrow> good c_position_orders e c (handle_case_c_position_transition s e c)"
proof (cases "st_c_position s")
  case (Some pos)
  assume ok: "config_ok s"
  have filled: "good c_position_orders e c (c_handle_filled s pos c)"
    unfolding c_handle_filled_def Let_def
    using ok Some by (intro good_if good_move good_no_transition) (simp_all add: config_ok_c_position)
  have finished: "good c_position_orders e c (c_handle_closed s e c)"
    unfolding c_handle_closed_def
    using ok Some by (intro good_if good_move good_stay good_no_transition)
      (simp_all add: config_ok_c_position patch_safe_def)
  have recovered: "good c_position_orders e c (c_handle_recovered s e c)"
    unfolding c_handle_recovered_def Let_def
    using ok Some by (intro good_if good_move good_no_transition)
      (simp_all add: config_ok_release_c patch_safe_def)
  have hold: "good c_position_orders e c (c_handle_holding s e c)"
    using ok Some by (simp add: good_c_holding)
  show ?thesis
    unfolding handle_case_c_position_transition_def Some option.case
    by (intro good_if good_no_transition filled finished recovered hold good_c_tp_trailing ok)
qed (simp add: handle_case_c_position_transition_def)

interpretation cp: region_handler handle_case_c_position_transition
    "\<lambda>s. st_root s = TRADE_MANAGEMENT" c_position_orders
  by unfold_locales (rule good_c_position)

section \<open>The life cycle of the position\<close>

inductive c_position_edge :: "case_c_position_state \<Rightarrow> case_c_position_state \<Rightarrow> bool" where
  keep: "c_position_edge x x"
| trail: "c_position_edge CASE_C_HOLDING CASE_C_TP_TRAILING"
| close: "x \<in> {CASE_C_HOLDING, CASE_C_TP_TRAILING} \<Longrightarrow> c_position_edge x CASE_C_CLOSED"
| recover: "c_position_edge CASE_C_CLOSED CASE_C_RECOVERY_SUCCEEDED"

text \<open>The guard behind the first exit order of each reason.\<close>

fun c_exit_guard :: "exit_reason \<Rightarrow> context_view \<Rightarrow> bool" where
  "c_exit_guard STOP c = condition_met c_stop c"
| "c_exit_guard TIME c = condition_met c_time_exit c"
| "c_exit_guard TP_FALLBACK c = condition_met c_trail_fallback c"
| "c_exit_guard TP_TRAIL c = (trail_comparable c \<and> condition_unmet c_trail_increase c)"
| "c_exit_guard _ c = False"

definition c_order_justified :: "trading_event \<Rightarrow> context_view \<Rightarrow> order_request \<Rightarrow> bool" where
  "c_order_justified e c r \<longleftrightarrow>
     (if or_attempt_kind r = INITIAL
      then can_start_exit c \<and> (\<exists>reason. or_exit_reason r = Some reason \<and> c_exit_guard reason c)
      else ev_type e = CASE_C_SELL_RETRY \<and>
           rt_pending_exit_reason (cv_runtime c) = or_exit_reason r)"

definition c_position_post ::
  "state_config \<Rightarrow> trading_event \<Rightarrow> context_view \<Rightarrow> transition_outcome \<Rightarrow> bool" where
  "c_position_post s e c oc \<longleftrightarrow> \<not> oc_exclusive oc \<and>
     (if st_c_position s = Some CASE_C_RECOVERY_SUCCEEDED
      then oc_state_after oc = s\<lparr>st_ownership := Some NO_POSITION, st_c_position := None\<rparr>
      else (\<exists>x y. st_c_position s = Some x \<and> c_position_edge x y \<and>
              oc_state_after oc = s\<lparr>st_c_position := Some y\<rparr>)) \<and>
     (\<forall>r\<in>set (orders (oc_actions oc)). c_order_justified e c r)"

lemma c_position_kept: "st_c_position s = Some x \<Longrightarrow> s = s\<lparr>st_c_position := Some x\<rparr>"
  by (cases s) simp

lemma c_post_stay:
  assumes "st_c_position s = Some x" "x \<noteq> CASE_C_RECOVERY_SUCCEEDED"
    and "\<forall>r\<in>set (orders acts). c_order_justified e c r"
  shows "c_position_post s e c (create_transition_outcome tid s acts extra False)"
  using assms c_position_kept [OF assms(1)]
  by (auto simp: c_position_post_def intro: c_position_edge.keep)

lemma c_post_move:
  assumes "st_c_position s = Some x" "x \<noteq> CASE_C_RECOVERY_SUCCEEDED" "c_position_edge x y"
    "orders acts = []"
  shows "c_position_post s e c
    (create_transition_outcome tid (s\<lparr>st_c_position := Some y\<rparr>) acts extra False)"
  using assms by (auto simp: c_position_post_def)

lemma c_time_exit_ensures:
  assumes "st_c_position s = Some x" "x \<noteq> CASE_C_RECOVERY_SUCCEEDED"
  shows "ensures (c_position_post s e c) (handle_time_exit_or_failure s e c ret tid)"
  unfolding handle_time_exit_or_failure_def schedule_sell_retry_def
  by (intro ensures_if ensures_none ensures_stay c_post_stay [OF assms])
    (simp_all add: c_order_justified_def)

lemma c_exit_retry_ensures:
  assumes "st_c_position s = Some x" "x \<noteq> CASE_C_RECOVERY_SUCCEEDED"
    and "ev_type e = CASE_C_SELL_RETRY"
  shows "ensures (c_position_post s e c) (c_exit_retry tid ret s e c)"
proof (cases "rt_pending_exit_reason (cv_runtime c)")
  case (Some reason)
  then show ?thesis
    unfolding c_exit_retry_def Some option.case
    by (intro ensures_if ensures_none ensures_stay c_post_stay [OF assms(1,2)])
      (simp add: c_order_justified_def assms(3) Some)
qed (simp add: c_exit_retry_def ensures_none)

lemma c_holding_ensures:
  assumes "st_c_position s = Some CASE_C_HOLDING"
  shows "ensures (c_position_post s e c) (c_handle_holding s e c)"
proof -
  note stay = ensures_stay [where Q = "c_position_post s e c", OF c_post_stay [OF assms]]
  have check: "ensures (c_position_post s e c) (c_holding_check s b c)" for b
    unfolding c_holding_check_def by (cases "select_holding_event c") (auto intro!: stay)
  have profit: "ensures (c_position_post s e c) (c_enter_profit_zone s c)"
    unfolding c_enter_profit_zone_def
    by (intro ensures_ebind ensures_move c_post_move [OF assms] c_position_edge.trail) simp_all
  have failed: "ensures (c_position_post s e c) (schedule_sell_retry tid s c)" for tid
    unfolding schedule_sell_retry_def by (intro stay) simp_all
  show ?thesis
    unfolding c_handle_holding_def
    by (intro ensures_if ensures_none ensures_or_else check profit failed stay
        c_time_exit_ensures [OF assms] c_exit_retry_ensures [OF assms])
      (simp_all add: c_order_justified_def)
qed

lemma c_trailing_ensures:
  assumes "st_c_position s = Some CASE_C_TP_TRAILING"
  shows "ensures (c_position_post s e c) (c_handle_tp_trailing s e c)"
proof -
  note stay = ensures_stay [where Q = "c_position_post s e c", OF c_post_stay [OF assms]]
  have check: "ensures (c_position_post s e c) (c_trailing_check s b c)" for b
    unfolding c_trailing_check_def by (cases "select_trailing_event c") (auto intro!: stay)
  have failed: "ensures (c_position_post s e c) (c_trailing_failed s e c)"
    unfolding c_trailing_failed_def schedule_sell_retry_def
    by (intro ensures_if ensures_none stay) simp_all
  show ?thesis
    unfolding c_handle_tp_trailing_def
    by (intro ensures_if ensures_none ensures_or_else check failed stay
        c_time_exit_ensures [OF assms] c_exit_retry_ensures [OF assms])
      (simp_all add: c_order_justified_def)
qed

lemma c_position_ensures: "ensures (c_position_post s e c) (handle_case_c_position_transition s e c)"
proof (cases "st_c_position s")
  case (Some pos)
  have filled: "ensures (c_position_post s e c) (c_handle_filled s pos c)"
    unfolding c_handle_filled_def Let_def
    by (intro ensures_if ensures_none ensures_move c_post_move [OF Some])
      (auto intro: c_position_edge.close)
  have finished: "ensures (c_position_post s e c) (c_handle_closed s e c)" if "pos = CASE_C_CLOSED"
    unfolding c_handle_closed_def
    by (intro ensures_if ensures_none ensures_stay ensures_move c_post_stay [OF Some]
        c_post_move [OF Some]) (auto simp: that intro: c_position_edge.recover)
  have recovered: "ensures (c_position_post s e c) (c_handle_recovered s e c)"
    if "pos = CASE_C_RECOVERY_SUCCEEDED"
    unfolding c_handle_recovered_def Let_def
    by (intro ensures_if ensures_none ensures_move) (simp_all add: c_position_post_def Some that)
  show ?thesis
    unfolding handle_case_c_position_transition_def Some option.case
  proof (intro ensures_if ensures_none filled finished recovered)
    assume "pos = CASE_C_HOLDING"
    with Some show "ensures (c_position_post s e c) (c_handle_holding s e c)"
      by (simp add: c_holding_ensures)
  next
    assume "pos \<noteq> CASE_C_CLOSED" "pos \<noteq> CASE_C_RECOVERY_SUCCEEDED" "pos \<noteq> CASE_C_HOLDING"
    with Some show "ensures (c_position_post s e c) (c_handle_tp_trailing s e c)"
      by (cases pos) (simp_all add: c_trailing_ensures)
  qed
qed (simp add: handle_case_c_position_transition_def ensures_none)

text \<open>While an exit is pending, the market cannot start another one.\<close>

lemma c_exit_locked:
  assumes "st_c_position s \<in> {Some CASE_C_HOLDING, Some CASE_C_TP_TRAILING}"
    and "rt_pending_exit_reason (cv_runtime c) \<noteq> None"
    and "ev_type e \<notin> {CASE_C_SELL_FILLED, CASE_C_SELL_FAILED, CASE_C_SELL_RETRY}"
  shows "handle_case_c_position_transition s e c = no_transition"
  using assms by (auto simp: handle_case_c_position_transition_def)

text \<open>The two modules decide the handoff alike.\<close>

lemma handoff_agree: "is_case_b_handoff_active c = is_handoff_active c"
  by (simp add: is_case_b_handoff_active_def is_handoff_active_def)

end
