(* ===== verification/Logic_Registry.thy ===== *)
theory Logic_Registry
  imports CaseC_Position
begin

text \<open>
  The registry of trading logics (\<open>domain/trading/logic_registry.py\<close>): the configuration of each
  regime, the check of its constructor, and the two lookups.  Only \<open>TYPE_0\<close> is implemented.
\<close>

datatype support_status = SUPPORTED | UNSUPPORTED

datatype start_guard = READY | UNSUPPORTED_TRADING_LOGIC

datatype registry_source = LOWER_BB

record logic_configuration =
  lc_regime_type :: regime_type
  lc_support_status :: support_status
  lc_transition_source :: "registry_source option"
  lc_transition_ids :: "string list"
  lc_start_guard :: start_guard

text \<open>The value checks of \<open>__post_init__\<close>; its \<open>isinstance\<close> checks hold by typing.\<close>

definition logic_configuration_ok :: "logic_configuration \<Rightarrow> bool" where
  "logic_configuration_ok k \<longleftrightarrow>
     distinct (lc_transition_ids k) \<and>
     (if lc_support_status k = SUPPORTED
      then lc_transition_source k \<noteq> None \<and> lc_transition_ids k \<noteq> [] \<and> lc_start_guard k = READY
      else lc_transition_source k = None \<and> lc_transition_ids k = [] \<and>
           lc_start_guard k = UNSUPPORTED_TRADING_LOGIC)"

definition unsupported_configuration :: "regime_type \<Rightarrow> logic_configuration" where
  "unsupported_configuration r = \<lparr>lc_regime_type = r, lc_support_status = UNSUPPORTED,
     lc_transition_source = None, lc_transition_ids = [],
     lc_start_guard = UNSUPPORTED_TRADING_LOGIC\<rparr>"

definition trading_logic_configurations :: "logic_configuration list" where
  "trading_logic_configurations =
     \<lparr>lc_regime_type = TYPE_0, lc_support_status = SUPPORTED, lc_transition_source = Some LOWER_BB,
      lc_transition_ids = transition_ids, lc_start_guard = READY\<rparr> #
     map unsupported_configuration [TYPE_1, TYPE_2, TYPE_3, TYPE_4]"

definition all_regimes :: "regime_type list" where
  "all_regimes = [TYPE_0, TYPE_1, TYPE_2, TYPE_3, TYPE_4]"

definition configuration_by_regime :: "regime_type \<Rightarrow> logic_configuration option" where
  "configuration_by_regime =
     map_of (map (\<lambda>k. (lc_regime_type k, k)) trading_logic_configurations)"

text \<open>The registry covers every regime, so the dictionary lookup never misses.\<close>

definition get_trading_logic_configuration :: "regime_type \<Rightarrow> logic_configuration" where
  "get_trading_logic_configuration r = the (configuration_by_regime r)"

definition require_supported_configuration :: "regime_type \<Rightarrow> logic_configuration res" where
  "require_supported_configuration r =
     (let k = get_trading_logic_configuration r in
      if lc_support_status k = UNSUPPORTED then Inl UnsupportedTradingLogicError else Inr k)"

section \<open>Facts about the registry\<close>

lemma registry_order: "map lc_regime_type trading_logic_configurations = all_regimes"
  by (simp add: trading_logic_configurations_def all_regimes_def unsupported_configuration_def)

lemma registry_total: "configuration_by_regime r \<noteq> None"
  by (cases r)
    (simp_all add: configuration_by_regime_def trading_logic_configurations_def
      unsupported_configuration_def)

lemma get_configuration_simps [simp]:
  "lc_regime_type (get_trading_logic_configuration r) = r"
  "lc_support_status (get_trading_logic_configuration r) = (if r = TYPE_0 then SUPPORTED else UNSUPPORTED)"
  "lc_transition_ids (get_trading_logic_configuration r) = (if r = TYPE_0 then transition_ids else [])"
  by (cases r; simp add: get_trading_logic_configuration_def configuration_by_regime_def
      trading_logic_configurations_def unsupported_configuration_def)+

lemma require_supported_iff:
  "require_supported_configuration r =
     (if r = TYPE_0 then Inr (get_trading_logic_configuration TYPE_0)
      else Inl UnsupportedTradingLogicError)"
  by (cases r) (simp_all add: require_supported_configuration_def Let_def)

end
