(* ===== verification/Trading_Stm.thy ===== *)
theory Trading_Stm
  imports Logic_Registry
begin

text \<open>
  The state machine itself (\<open>domain/trading/stm.py\<close>): one microstep evaluates the root
  transitions, then the position region, the signal region of case C and the signal region of
  case B on the same view, arbitrates, and commits one result.
\<close>

section \<open>The machine\<close>

record trading_stm =
  sm_configuration :: logic_configuration
  sm_state :: state_config
  sm_locked :: bool

definition create_stm :: "regime_type \<Rightarrow> trading_stm res" where
  "create_stm r = ebind (require_supported_configuration r) (\<lambda>k.
     Inr \<lparr>sm_configuration = k, sm_state = default_config, sm_locked = False\<rparr>)"

section \<open>One microstep\<close>

definition handle_region_one :: "state_config \<Rightarrow> trading_event \<Rightarrow> context_view \<Rightarrow> outcome_res" where
  "handle_region_one s e c =
     (if st_b_position s \<noteq> None then handle_case_b_position_transition s e c
      else if st_c_position s \<noteq> None then handle_case_c_position_transition s e c
      else handle_ownership_transition s e c)"

definition does_case_c_buy_win :: "trading_action list \<Rightarrow> transition_outcome \<Rightarrow> bool" where
  "does_case_c_buy_win accepted oc \<longleftrightarrow>
     list_ex (is_buy_of CASE_C) accepted \<and> list_ex (is_buy_of CASE_B) (oc_actions oc)"

definition resolve_region_one_event :: "state_config \<Rightarrow> trading_event \<Rightarrow> trading_event" where
  "resolve_region_one_event s e =
     (if ev_type e \<noteq> MARKET_DATA_UPDATED then e
      else if st_b_position s = Some CASE_B_TREND_HOLD
      then with_type CASE_B_TREND_HOLD_CONDITION_CHECK e
      else if st_b_position s = Some CASE_B_HOLDING
      then with_type RETRY_CASE_B_CONDITION_CHECK e
      else if st_c_position s = Some CASE_C_HOLDING
      then with_type RETRY_CASE_C_CONDITION_CHECK e
      else if st_c_position s = Some CASE_C_TP_TRAILING
      then with_type RETRY_TP_TRAILING_CONDITION_CHECK e
      else if st_c_position s = Some CASE_C_CLOSED
      then with_type CHECK_CASE_C_RECOVERY e
      else e)"

definition resolve_case_c_region_event :: "state_config \<Rightarrow> trading_event \<Rightarrow> trading_event" where
  "resolve_case_c_region_event s e =
     (if ev_type e \<noteq> MARKET_DATA_UPDATED then e
      else if st_c_signal s = Some C_WAIT_SETUP then with_type RETRY_C_WAIT_SETUP e
      else if st_c_signal s = Some C_SETUP
      then with_type RETRY_CASE_C_SETUP_CONDITION_CHECK e
      else e)"

definition resolve_case_b_region_event ::
  "state_config \<Rightarrow> trading_event \<Rightarrow> context_view \<Rightarrow> trading_event" where
  "resolve_case_b_region_event s e c =
     (if ev_type e \<noteq> MARKET_DATA_UPDATED then e
      else if st_b_signal s = Some B_WAIT_SIGNAL \<and> mk_confirmed_30m_close (cv_market c)
      then with_type THIRTY_MINUTE_CANDLE_CLOSED e
      else if st_b_signal s = Some B_WAIT_PULLBACK
      then with_type RETRY_CASE_B_WAIT_PULLBACK_CONDITION_CHECK e
      else e)"

fun join_ids :: "string list \<Rightarrow> string" where
  "join_ids [] = []"
| "join_ids [t] = t"
| "join_ids (t # ts) = t @ ''+'' @ join_ids ts"

definition create_decision_id ::
  "trading_event \<Rightarrow> context_view \<Rightarrow> string list \<Rightarrow> string" where
  "create_decision_id e c ids =
     py_or_str (ev_event_id e) (''seq-'' @ show_int (ev_sequence_number e)) @ '':v'' @
     show_int (cv_version c) @ '':'' @ (if ids \<noteq> [] then join_ids ids else ''NOOP'')"

text \<open>The commit refuses identifiers outside the catalog; it is the assignment of the state.\<close>

definition commit_outcome ::
  "logic_configuration \<Rightarrow> trading_event \<Rightarrow> context_view \<Rightarrow> state_config \<Rightarrow> transition_outcome \<Rightarrow>
   stm_result res" where
  "commit_outcome k e c s oc =
     (if set (oc_transition_ids oc) - set (lc_transition_ids k) \<noteq> {} then Inl RuntimeError
      else Inr \<lparr>sr_decision_id = create_decision_id e c (oc_transition_ids oc),
        sr_consumed = True, sr_transition_ids = oc_transition_ids oc, sr_state_before = s,
        sr_state_after = oc_state_after oc, sr_actions = oc_actions oc,
        sr_context_version = cv_version c\<rparr>)"

definition no_op :: "trading_event \<Rightarrow> context_view \<Rightarrow> state_config \<Rightarrow> stm_result" where
  "no_op e c s = \<lparr>sr_decision_id = create_decision_id e c [], sr_consumed = False,
     sr_transition_ids = [], sr_state_before = s, sr_state_after = s, sr_actions = [],
     sr_context_version = cv_version c\<rparr>"

text \<open>The local variables of the loop over the regions.\<close>

record progress =
  pg_state :: state_config
  pg_ids :: "string list"
  pg_actions :: "trading_action list"

definition accept :: "progress \<Rightarrow> transition_outcome option \<Rightarrow> progress" where
  "accept p r = (case r of
       None \<Rightarrow> p
     | Some oc \<Rightarrow> \<lparr>pg_state = oc_state_after oc, pg_ids = pg_ids p @ oc_transition_ids oc,
         pg_actions = pg_actions p @ oc_actions oc\<rparr>)"

definition accept_case_b :: "progress \<Rightarrow> transition_outcome option \<Rightarrow> progress" where
  "accept_case_b p r = (case r of
       None \<Rightarrow> p
     | Some oc \<Rightarrow> if does_case_c_buy_win (pg_actions p) oc then p else accept p (Some oc))"

definition combine :: "progress \<Rightarrow> bool \<Rightarrow> transition_outcome" where
  "combine p excl = \<lparr>oc_transition_ids = pg_ids p, oc_state_after = pg_state p,
     oc_actions = pg_actions p, oc_exclusive = excl\<rparr>"

definition with_completion :: "state_config \<Rightarrow> context_view \<Rightarrow> progress \<Rightarrow> progress" where
  "with_completion s c p =
     (if \<not> trade_management_is_complete s \<and> trade_management_is_complete (pg_state p)
      then p\<lparr>pg_actions := pg_actions p @
             [queue_request TRADE_MANAGEMENT_COMPLETED (rt_lower_event_id (cv_runtime c))]\<rparr>
      else p)"

text \<open>The two signal regions after the position region, and the commit.\<close>

definition handle_signals ::
  "logic_configuration \<Rightarrow> state_config \<Rightarrow> trading_event \<Rightarrow> context_view \<Rightarrow> progress \<Rightarrow>
   stm_result res" where
  "handle_signals k s e c p1 =
     ebind (handle_case_c_signal_transition (pg_state p1)
              (resolve_case_c_region_event (pg_state p1) e) c) (\<lambda>case_c.
     let p2 = accept p1 case_c in
     ebind (handle_case_b_signal_transition (pg_state p2)
              (resolve_case_b_region_event (pg_state p2) e c) c) (\<lambda>case_b.
     let p3 = accept_case_b p2 case_b in
     if pg_ids p3 = [] then Inr (no_op e c s)
     else commit_outcome k e c s (combine (with_completion s c p3) False)))"

definition handle_regions ::
  "logic_configuration \<Rightarrow> state_config \<Rightarrow> trading_event \<Rightarrow> context_view \<Rightarrow> stm_result res" where
  "handle_regions k s e c =
     ebind (handle_region_one s (resolve_region_one_event s e) c) (\<lambda>region_one.
     let p1 = accept \<lparr>pg_state = s, pg_ids = [], pg_actions = []\<rparr> region_one in
     if (case region_one of None \<Rightarrow> False | Some oc \<Rightarrow> oc_exclusive oc)
     then commit_outcome k e c s (combine p1 True)
     else handle_signals k s e c p1)"

text \<open>A touch of a new candle that opens no event is treated as plain market data.\<close>

definition demote_touch :: "trading_event \<Rightarrow> trading_event" where
  "demote_touch e =
     (if ev_type e = NEW_30M_LOWER_BAND_TOUCHED then with_type MARKET_DATA_UPDATED e else e)"

definition handle_locked ::
  "logic_configuration \<Rightarrow> state_config \<Rightarrow> trading_event \<Rightarrow> context_view \<Rightarrow> stm_result res" where
  "handle_locked k s e c =
     ebind (handle_global_transition s e c) (\<lambda>global_outcome.
       case global_outcome of
         Some oc \<Rightarrow> commit_outcome k e c s oc
       | None \<Rightarrow>
           if st_root s \<noteq> TRADE_MANAGEMENT then Inr (no_op (demote_touch e) c s)
           else handle_regions k s (demote_touch e) c)"

section \<open>The operations of the machine\<close>

text \<open>Each operation returns its value or exception together with the machine after it.\<close>

definition stm_handle ::
  "trading_stm \<Rightarrow> trading_event \<Rightarrow> context_view \<Rightarrow> stm_result res \<times> trading_stm" where
  "stm_handle m e c =
     (if sm_locked m then (Inl RuntimeError, m)
      else case handle_locked (sm_configuration m) (sm_state m) e c of
        Inl err \<Rightarrow> (Inl err, m)
      | Inr r \<Rightarrow> (Inr r, m\<lparr>sm_state := sr_state_after r\<rparr>))"

definition stm_run :: "trading_stm \<Rightarrow> context_view \<Rightarrow> stm_result res \<times> trading_stm" where
  "stm_run m c =
     (if st_root (sm_state m) \<noteq> NOT_STARTED then (Inl RuntimeError, m)
      else case make_event ((basic_event LOGIC_STARTED (cv_evaluated_at c))
                  \<lparr>ev_priority := INTERNAL, ev_event_id := Some ''logic-started''\<rparr>) of
        Inl err \<Rightarrow> (Inl err, m)
      | Inr e \<Rightarrow> stm_handle m e c)"

definition order_outcome_events :: "event_type list" where
  "order_outcome_events = [CASE_B_POSITION_OPENED, CASE_B_BUY_FAILED, CASE_B_SELL_FILLED,
     CASE_B_SELL_FAILED, CASE_C_POSITION_OPENED, CASE_C_BUY_FAILED, CASE_C_SELL_FILLED,
     CASE_C_SELL_FAILED, FORCE_SELL_FINISHED, FORCE_SELL_FAILED]"

definition stm_order_finished ::
  "trading_stm \<Rightarrow> trading_event \<Rightarrow> context_view \<Rightarrow> stm_result res \<times> trading_stm" where
  "stm_order_finished m e c =
     (if ev_type e \<notin> set order_outcome_events then (Inl ValueError, m) else stm_handle m e c)"

definition rollback_unpublished_result :: "trading_stm \<Rightarrow> stm_result \<Rightarrow> unit res \<times> trading_stm" where
  "rollback_unpublished_result m r =
     (if sm_locked m then (Inl RuntimeError, m)
      else if sm_state m \<noteq> sr_state_after r then (Inl RuntimeError, m)
      else (Inr (), m\<lparr>sm_state := sr_state_before r\<rparr>))"

section \<open>The position region as one region\<close>

definition region_one_orders :: "event_type \<Rightarrow> order_request \<Rightarrow> bool" where
  "region_one_orders t r \<longleftrightarrow>
     b_position_orders t r \<or> c_position_orders t r \<or> ownership_orders t r"

lemma good_region_one: "config_ok s \<Longrightarrow> good region_one_orders e c (handle_region_one s e c)"
proof -
  assume ok: "config_ok s"
  have "good region_one_orders e c (handle_case_b_position_transition s e c)"
    by (rule good_mono [OF good_b_position [OF ok]]) (simp add: region_one_orders_def)
  moreover have "good region_one_orders e c (handle_case_c_position_transition s e c)"
    by (rule good_mono [OF good_c_position [OF ok]]) (simp add: region_one_orders_def)
  moreover have "good region_one_orders e c (handle_ownership_transition s e c)"
    by (rule good_mono [OF good_ownership [OF ok]]) (simp add: region_one_orders_def)
  ultimately show ?thesis by (simp add: handle_region_one_def)
qed

interpretation r1: region_handler handle_region_one "\<lambda>s. st_root s = TRADE_MANAGEMENT"
    region_one_orders
  by unfold_locales (rule good_region_one)

text \<open>
  Outside the end of a lower event the region keeps the composite state; at its end it leaves for a
  fresh trade management or for the lower watch.
\<close>

lemma region_one_root:
  assumes "handle_region_one s e c = Inr (Some oc)" "st_root s = TRADE_MANAGEMENT"
  shows "if oc_exclusive oc
    then oc_state_after oc \<in> {trade_management_initial, inactive_config LOWER_TOUCH_WATCH}
    else st_root (oc_state_after oc) = TRADE_MANAGEMENT"
proof -
  have b: "?thesis" if "handle_case_b_position_transition s e c = Inr (Some oc)"
    using ensuresD [OF b_position_ensures that] assms(2)
    by (auto simp: b_position_post_def split: if_splits)
  have c: "?thesis" if "handle_case_c_position_transition s e c = Inr (Some oc)"
    using ensuresD [OF c_position_ensures that] assms(2)
    by (auto simp: c_position_post_def split: if_splits)
  have own: "?thesis" if "handle_ownership_transition s e c = Inr (Some oc)"
    using ensuresD [OF ownership_ensures that] assms(2) by (simp add: ownership_post_def)
  from assms(1) b c own show ?thesis by (auto simp: handle_region_one_def split: if_splits)
qed

section \<open>Correct results\<close>

text \<open>The result of a microstep on the state \<open>s\<close> and the view \<open>c\<close>.\<close>

definition result_ok :: "state_config \<Rightarrow> trading_event \<Rightarrow> context_view \<Rightarrow> stm_result \<Rightarrow> bool" where
  "result_ok s e c r \<longleftrightarrow>
     sr_state_before r = s \<and> config_ok (sr_state_after r) \<and>
     set (sr_transition_ids r) \<subseteq> set transition_ids \<and> sr_context_version r = cv_version c \<and>
     length (orders (sr_actions r)) \<le> 1 \<and>
     (\<forall>req\<in>set (orders (sr_actions r)). order_safe c req) \<and>
     (\<forall>cs. PatchRuntimeContext cs \<in> set (sr_actions r) \<longrightarrow> inputs_ok e c \<longrightarrow> patch_safe cs) \<and>
     (\<forall>q. QueueEvent q \<in> set (sr_actions r) \<longrightarrow>
        external_event (qe_type q) \<longrightarrow> qe_type q = TRADE_MANAGEMENT_COMPLETED) \<and>
     ((\<exists>q. QueueEvent q \<in> set (sr_actions r) \<and> qe_type q = TRADE_MANAGEMENT_COMPLETED) \<longleftrightarrow>
        \<not> trade_management_is_complete s \<and> trade_management_is_complete (sr_state_after r)) \<and>
     (if sr_consumed r then root_edge (st_root s) (st_root (sr_state_after r))
      else sr_state_after r = s \<and> sr_actions r = [])"

text \<open>What the loop over the regions keeps: valid state, known identifiers, safe actions.\<close>

definition progress_ok :: "trading_event \<Rightarrow> context_view \<Rightarrow> progress \<Rightarrow> bool" where
  "progress_ok e c p \<longleftrightarrow>
     config_ok (pg_state p) \<and> set (pg_ids p) \<subseteq> set transition_ids \<and>
     (\<forall>req\<in>set (orders (pg_actions p)). order_safe c req) \<and>
     (\<forall>cs. PatchRuntimeContext cs \<in> set (pg_actions p) \<longrightarrow> inputs_ok e c \<longrightarrow> patch_safe cs) \<and>
     (\<forall>q. QueueEvent q \<in> set (pg_actions p) \<longrightarrow> \<not> external_event (qe_type q))"

lemma progress_start: "config_ok s \<Longrightarrow> progress_ok e c \<lparr>pg_state = s, pg_ids = [], pg_actions = []\<rparr>"
  by (simp add: progress_ok_def)

lemma outcome_ok_actions:
  assumes "outcome_ok P e c oc"
  shows "config_ok (oc_state_after oc)" "set (oc_transition_ids oc) \<subseteq> set transition_ids"
    "\<forall>req\<in>set (orders (oc_actions oc)). order_safe c req \<and> P (ev_type e) req"
    "\<forall>cs. PatchRuntimeContext cs \<in> set (oc_actions oc) \<longrightarrow> inputs_ok e c \<longrightarrow> patch_safe cs"
    "\<forall>q. QueueEvent q \<in> set (oc_actions oc) \<longrightarrow> \<not> external_event (qe_type q)"
    "length (orders (oc_actions oc)) \<le> 1"
  using assms
  by (auto simp: outcome_ok_def actions_ok_def list_all_iff orders_set action_ok_def dest!: bspec)

lemma progress_accept:
  assumes "progress_ok e c p" "outcome_ok P e' c oc" "inputs_ok e c \<Longrightarrow> inputs_ok e' c"
  shows "progress_ok e c (accept p (Some oc))"
  using assms(1,3) outcome_ok_actions [OF assms(2)]
  by (auto simp: progress_ok_def accept_def)

lemma accept_None [simp]: "accept p None = p" "accept_case_b p None = p"
  by (simp_all add: accept_def accept_case_b_def)

lemma inputs_ok_with_type [simp]: "inputs_ok (with_type t e) c = inputs_ok e c"
  by (simp add: inputs_ok_def event_ok_with_type)

lemma inputs_ok_resolved [simp]:
  "inputs_ok (resolve_region_one_event s e) c = inputs_ok e c"
  "inputs_ok (resolve_case_c_region_event s e) c = inputs_ok e c"
  "inputs_ok (resolve_case_b_region_event s e c) c = inputs_ok e c"
  "inputs_ok (demote_touch e) c = inputs_ok e c"
  by (simp_all add: resolve_region_one_event_def resolve_case_c_region_event_def
      resolve_case_b_region_event_def demote_touch_def)

section \<open>A microstep returns a correct result\<close>

text \<open>What a microstep may return: a correct result, or the one exception of unfit market data.\<close>

definition step_ok :: "state_config \<Rightarrow> trading_event \<Rightarrow> context_view \<Rightarrow> stm_result res \<Rightarrow> bool" where
  "step_ok s e c m \<longleftrightarrow>
     (case m of
        Inl err \<Rightarrow> err = InvalidOperation \<and> raw_unfit (cv_market c)
      | Inr r \<Rightarrow> result_ok s e c r)"

abbreviation full_catalog :: "logic_configuration \<Rightarrow> bool" where
  "full_catalog k \<equiv> lc_transition_ids k = transition_ids"

lemma step_ok_no_op: "config_ok s \<Longrightarrow> step_ok s e c (Inr (no_op e' c s))"
  by (simp add: step_ok_def result_ok_def no_op_def)

lemma commit_known:
  assumes "full_catalog k" "progress_ok e c p"
  shows "set (pg_ids p) \<subseteq> set (lc_transition_ids k)"
  using assms by (simp add: progress_ok_def)

lemma step_ok_commit:
  assumes "full_catalog k" "progress_ok e c p" "length (orders (pg_actions p)) \<le> 1"
    and "root_edge (st_root s) (st_root (pg_state p))"
  shows "step_ok s e c (commit_outcome k e' c s (combine (with_completion s c p) b))"
    and "(trade_management_is_complete (pg_state p) \<Longrightarrow> trade_management_is_complete s) \<Longrightarrow>
      step_ok s e c (commit_outcome k e' c s (combine p b))"
  using assms commit_known [OF assms(1,2)]
  by (auto simp: commit_outcome_def combine_def with_completion_def step_ok_def result_ok_def
      progress_ok_def queue_request_def)

text \<open>The orders of the position region come from event types the signal regions ignore.\<close>

lemma region_one_type:
  assumes "region_one_orders (ev_type (resolve_region_one_event s e)) r"
  shows "ev_type e \<noteq> MARKET_DATA_UPDATED \<and> region_one_orders (ev_type e) r"
  using assms
  by (auto simp: resolve_region_one_event_def region_one_orders_def b_position_orders_def
      c_position_orders_def ownership_orders_def b_exit_events_def c_exit_events_def
      split: if_splits)

lemma region_one_excludes_signals:
  assumes "region_one_orders t r"
  shows "\<not> c_signal_orders t r'" "\<not> b_signal_orders t r'"
  using assms
  by (auto simp: region_one_orders_def b_position_orders_def c_position_orders_def
      ownership_orders_def b_exit_events_def c_exit_events_def c_signal_orders_def
      b_signal_orders_def)

text \<open>Two purchases of one microstep belong to the two cases, and case C wins.\<close>

lemma case_c_wins:
  assumes "outcome_ok c_signal_orders e1 c oc1" "orders (oc_actions oc1) \<noteq> []"
    and "outcome_ok b_signal_orders e2 c oc2" "orders (oc_actions oc2) \<noteq> []"
  shows "does_case_c_buy_win (acts @ oc_actions oc1) oc2"
proof -
  have buy: "list_ex (is_buy_of st) acts'"
    if "req \<in> set (orders acts')" "or_strategy req = st" "or_side req = BUY" for req st acts'
    using that by (auto simp: orders_set list_ex_iff is_buy_of_def intro!: bexI [of _ "SubmitOrder req"])
  obtain q1 where "q1 \<in> set (orders (oc_actions oc1))" using assms(2) by fastforce
  moreover from this have "c_signal_orders (ev_type e1) q1"
    using outcome_ok_actions(3) [OF assms(1)] by blast
  ultimately have "list_ex (is_buy_of CASE_C) (oc_actions oc1)"
    by (intro buy) (auto simp: c_signal_orders_def)
  obtain q2 where "q2 \<in> set (orders (oc_actions oc2))" using assms(4) by fastforce
  moreover from this have "b_signal_orders (ev_type e2) q2"
    using outcome_ok_actions(3) [OF assms(3)] by blast
  ultimately have "list_ex (is_buy_of CASE_B) (oc_actions oc2)"
    by (intro buy) (auto simp: b_signal_orders_def)
  with \<open>list_ex (is_buy_of CASE_C) (oc_actions oc1)\<close> show ?thesis
    by (simp add: does_case_c_buy_win_def)
qed

lemma case_b_step:
  assumes k: "full_catalog k" and s: "config_ok s"
    and tm: "st_root s = TRADE_MANAGEMENT"
    and p: "progress_ok e c p" "st_root (pg_state p) = TRADE_MANAGEMENT" "length (orders (pg_actions p)) \<le> 1"
    and clash: "\<And>oc. outcome_ok b_signal_orders (resolve_case_b_region_event (pg_state p) e c) c oc \<Longrightarrow>
      orders (pg_actions p) \<noteq> [] \<Longrightarrow> orders (oc_actions oc) = [] \<or> does_case_c_buy_win (pg_actions p) oc"
  shows "step_ok s e c
    (ebind (handle_case_b_signal_transition (pg_state p)
              (resolve_case_b_region_event (pg_state p) e c) c) (\<lambda>case_b.
     let p3 = accept_case_b p case_b in
     if pg_ids p3 = [] then Inr (no_op e c s)
     else commit_outcome k e c s (combine (with_completion s c p3) False)))"
    (is "step_ok s e c (ebind ?m ?f)")
proof (cases ?m)
  case (Inl err)
  have "config_ok (pg_state p)" using p(1) by (simp add: progress_ok_def)
  then show ?thesis
    using bs.error_is_unfit [OF _ p(2) Inl] Inl by (simp add: step_ok_def)
next
  case (Inr case_b)
  have valid: "config_ok (pg_state p)" using p(1) by (simp add: progress_ok_def)
  have ok3: "progress_ok e c (accept_case_b p case_b) \<and>
      length (orders (pg_actions (accept_case_b p case_b))) \<le> 1 \<and>
      st_root (pg_state (accept_case_b p case_b)) = TRADE_MANAGEMENT"
  proof (cases case_b)
    case (Some oc)
    have good: "outcome_ok b_signal_orders (resolve_case_b_region_event (pg_state p) e c) c oc"
      using bs.outcome [OF valid p(2)] Inr Some by simp
    show ?thesis
    proof (cases "does_case_c_buy_win (pg_actions p) oc")
      case True
      with Some p show ?thesis by (simp add: accept_case_b_def)
    next
      case False
      have "progress_ok e c (accept p (Some oc))"
        by (rule progress_accept [OF p(1) good]) simp
      moreover have "length (orders (pg_actions (accept p (Some oc)))) \<le> 1"
        using clash [OF good] False p(3) outcome_ok_actions(6) [OF good]
        by (cases "orders (pg_actions p) = []") (simp_all add: accept_def)
      moreover have "st_root (pg_state (accept p (Some oc))) = TRADE_MANAGEMENT"
        using ensuresD [OF b_signal_ensures Inr [unfolded Some]] p(2)
        by (simp add: accept_def b_signal_post_def b_signal_frame_def)
      ultimately show ?thesis using Some False by (simp add: accept_case_b_def)
    qed
  qed (use p in simp)
  then show ?thesis
    using Inr s tm step_ok_commit(1) [OF k] root_edge.manage by (simp add: Let_def step_ok_no_op)
qed

lemma handle_signals_ok:
  assumes k: "full_catalog k" and s: "config_ok s"
    and tm: "st_root s = TRADE_MANAGEMENT"
    and p: "progress_ok e c p" "st_root (pg_state p) = TRADE_MANAGEMENT" "length (orders (pg_actions p)) \<le> 1"
    and r1: "\<And>req. req \<in> set (orders (pg_actions p)) \<Longrightarrow>
      ev_type e \<noteq> MARKET_DATA_UPDATED \<and> region_one_orders (ev_type e) req"
  shows "step_ok s e c (handle_signals k s e c p)"
proof (cases "handle_case_c_signal_transition (pg_state p) (resolve_case_c_region_event (pg_state p) e) c")
  case (Inl err)
  have "config_ok (pg_state p)" using p(1) by (simp add: progress_ok_def)
  then show ?thesis
    using cs.error_is_unfit [OF _ p(2) Inl] Inl by (simp add: step_ok_def handle_signals_def)
next
  case (Inr case_c)
  have valid: "config_ok (pg_state p)" using p(1) by (simp add: progress_ok_def)
  have plain: "orders (oc_actions oc) = []"
    if "outcome_ok b_signal_orders (resolve_case_b_region_event s' e c) c oc \<or>
        outcome_ok c_signal_orders (resolve_case_c_region_event s' e) c oc"
      "orders (pg_actions p) \<noteq> []" for oc s'
  proof -
    from that(2) obtain req where "req \<in> set (orders (pg_actions p))" by fastforce
    note type = r1 [OF this]
    have "resolve_case_b_region_event s' e c = e" "resolve_case_c_region_event s' e = e"
      using type by (simp_all add: resolve_case_b_region_event_def resolve_case_c_region_event_def)
    then have "\<forall>q\<in>set (orders (oc_actions oc)). b_signal_orders (ev_type e) q \<or> c_signal_orders (ev_type e) q"
      using that(1) outcome_ok_actions(3) by fastforce
    then show ?thesis
      using region_one_excludes_signals type by (cases "orders (oc_actions oc)") auto
  qed
  let ?p2 = "accept p case_c"
  have p2: "progress_ok e c ?p2" "st_root (pg_state ?p2) = TRADE_MANAGEMENT"
    "length (orders (pg_actions ?p2)) \<le> 1"
    and clash: "\<And>oc. outcome_ok b_signal_orders (resolve_case_b_region_event (pg_state ?p2) e c) c oc \<Longrightarrow>
      orders (pg_actions ?p2) \<noteq> [] \<Longrightarrow> orders (oc_actions oc) = [] \<or> does_case_c_buy_win (pg_actions ?p2) oc"
  proof -
    have "progress_ok e c ?p2 \<and> st_root (pg_state ?p2) = TRADE_MANAGEMENT \<and>
      length (orders (pg_actions ?p2)) \<le> 1 \<and>
      (\<forall>oc. outcome_ok b_signal_orders (resolve_case_b_region_event (pg_state ?p2) e c) c oc \<longrightarrow>
        orders (pg_actions ?p2) \<noteq> [] \<longrightarrow>
        orders (oc_actions oc) = [] \<or> does_case_c_buy_win (pg_actions ?p2) oc)"
    proof (cases case_c)
      case None
      then show ?thesis using p plain by auto
    next
      case (Some oc1)
      have good: "outcome_ok c_signal_orders (resolve_case_c_region_event (pg_state p) e) c oc1"
        using cs.outcome [OF valid p(2)] Inr Some by simp
      have root: "st_root (oc_state_after oc1) = TRADE_MANAGEMENT"
        using ensuresD [OF c_signal_ensures Inr [unfolded Some]] p(2)
        by (simp add: c_signal_post_def c_signal_frame_def)
      have ok: "progress_ok e c (accept p (Some oc1))"
        by (rule progress_accept [OF p(1) good]) simp
      show ?thesis
      proof (cases "orders (pg_actions p) = []")
        case True
        then show ?thesis
          using Some root ok outcome_ok_actions(6) [OF good] case_c_wins [OF good]
          by (auto simp: accept_def)
      next
        case False
        then have "orders (oc_actions oc1) = []" using plain good by blast
        then show ?thesis
          using Some root ok p(3) plain False by (auto simp: accept_def)
      qed
    qed
    then show "progress_ok e c ?p2" "st_root (pg_state ?p2) = TRADE_MANAGEMENT"
      "length (orders (pg_actions ?p2)) \<le> 1"
      "\<And>oc. outcome_ok b_signal_orders (resolve_case_b_region_event (pg_state ?p2) e c) c oc \<Longrightarrow>
        orders (pg_actions ?p2) \<noteq> [] \<Longrightarrow> orders (oc_actions oc) = [] \<or> does_case_c_buy_win (pg_actions ?p2) oc"
      by blast+
  qed
  show ?thesis
    using case_b_step [OF k s tm p2 clash] Inr by (simp add: handle_signals_def Let_def)
qed

lemma handle_regions_ok:
  assumes k: "full_catalog k" and s: "config_ok s" "st_root s = TRADE_MANAGEMENT"
  shows "step_ok s e c (handle_regions k s e c)"
proof (cases "handle_region_one s (resolve_region_one_event s e) c")
  case (Inl err)
  then show ?thesis
    using r1.error_is_unfit [OF s Inl] by (simp add: step_ok_def handle_regions_def)
next
  case (Inr region_one)
  let ?p0 = "\<lparr>pg_state = s, pg_ids = [], pg_actions = []\<rparr>"
  show ?thesis
  proof (cases region_one)
    case None
    have "step_ok s e c (handle_signals k s e c ?p0)"
      by (rule handle_signals_ok [OF k s]) (simp_all add: progress_start s)
    with Inr None show ?thesis by (simp add: handle_regions_def)
  next
    case (Some oc)
    have good: "outcome_ok region_one_orders (resolve_region_one_event s e) c oc"
      using r1.outcome [OF s] Inr Some by simp
    let ?p1 = "accept ?p0 (Some oc)"
    have p1: "progress_ok e c ?p1"
      by (rule progress_accept [OF progress_start [OF s(1)] good]) simp
    have acts: "pg_actions ?p1 = oc_actions oc" "pg_state ?p1 = oc_state_after oc"
      by (simp_all add: accept_def)
    show ?thesis
    proof (cases "oc_exclusive oc")
      case True
      then have after: "oc_state_after oc \<in> {trade_management_initial, inactive_config LOWER_TOUCH_WATCH}"
        using region_one_root [OF Inr [unfolded Some] s(2)] by simp
      have "step_ok s e c (commit_outcome k e c s (combine ?p1 True))"
      proof (rule step_ok_commit(2) [OF k p1])
        show "root_edge (st_root s) (st_root (pg_state ?p1))"
          using after s(2) acts by (auto intro: root_edge.intros)
        show "trade_management_is_complete (pg_state ?p1) \<Longrightarrow> trade_management_is_complete s"
          using after acts by (auto simp: trade_management_is_complete_def)
      qed (use outcome_ok_actions(6) [OF good] acts in simp)
      with True Inr Some show ?thesis
        by (simp add: handle_regions_def Let_def)
    next
      case False
      have "step_ok s e c (handle_signals k s e c ?p1)"
      proof (rule handle_signals_ok [OF k s p1])
        show "st_root (pg_state ?p1) = TRADE_MANAGEMENT"
          using region_one_root [OF Inr [unfolded Some] s(2)] False acts by simp
        show "length (orders (pg_actions ?p1)) \<le> 1"
          using outcome_ok_actions(6) [OF good] acts by simp
        fix req
        assume "req \<in> set (orders (pg_actions ?p1))"
        then have "region_one_orders (ev_type (resolve_region_one_event s e)) req"
          using outcome_ok_actions(3) [OF good] acts by simp
        then show "ev_type e \<noteq> MARKET_DATA_UPDATED \<and> region_one_orders (ev_type e) req"
          by (rule region_one_type)
      qed
      with Inr Some False show ?thesis by (simp add: handle_regions_def Let_def)
    qed
  qed
qed

text \<open>No root transition completes the trade management.\<close>

lemma global_state_after:
  assumes "handle_global_transition s e c = Inr (Some oc)"
  shows "oc_state_after oc \<in> {s, trade_management_initial} \<union> range inactive_config"
  using assms
proof (cases rule: global_outcome)
  case stop
  then show ?thesis using handle_stop_outcome(2,3) [OF stop(2)] by auto
next
  case band
  then show ?thesis
    by (cases rule: band_touch_outcome)
      (auto simp: open_lower_event_outcome dest: handle_upper_outcome split: if_splits)
qed (auto simp: deferred_outcome session_outcome force_sell_finished_def force_sell_retry_def
    move_eq_Some create_inactive_configuration_def)

lemma global_not_completing:
  assumes "handle_global_transition s e c = Inr (Some oc)"
    and "trade_management_is_complete (oc_state_after oc)"
  shows "trade_management_is_complete s"
  using global_state_after [OF assms(1)] assms(2)
  by (auto simp: trade_management_is_complete_def)

lemma step_ok_demote: "step_ok s (demote_touch e) c m = step_ok s e c m"
  by (simp add: step_ok_def result_ok_def split: sum.splits)

lemma handle_locked_ok:
  assumes "full_catalog k" "config_ok s"
  shows "step_ok s e c (handle_locked k s e c)"
proof (cases "handle_global_transition s e c")
  case (Inl err)
  then show ?thesis
    using gt.error_is_unfit [OF assms(2) _ Inl] by (simp add: step_ok_def handle_locked_def)
next
  case (Inr g)
  show ?thesis
  proof (cases g)
    case None
    then show ?thesis
      using Inr assms handle_regions_ok [of k s "demote_touch e" c]
      by (simp add: handle_locked_def step_ok_no_op step_ok_demote)
  next
    case (Some oc)
    have good: "outcome_ok never_orders e c oc"
      using gt.outcome [OF assms(2)] Inr Some by simp
    let ?p = "accept \<lparr>pg_state = s, pg_ids = [], pg_actions = []\<rparr> (Some oc)"
    have "progress_ok e c ?p"
      by (rule progress_accept [OF progress_start [OF assms(2)] good]) simp
    moreover have "length (orders (pg_actions ?p)) \<le> 1"
      using outcome_ok_actions(6) [OF good] by (simp add: accept_def)
    moreover have "root_edge (st_root s) (st_root (pg_state ?p))"
      using global_root_edge [OF Inr [unfolded Some]] by (simp add: accept_def)
    moreover have "trade_management_is_complete (pg_state ?p) \<Longrightarrow> trade_management_is_complete s"
      using global_not_completing [OF Inr [unfolded Some]] by (simp add: accept_def)
    ultimately have "step_ok s e c (commit_outcome k e c s (combine ?p (oc_exclusive oc)))"
      by (rule step_ok_commit(2) [OF assms(1)])
    moreover have "combine ?p (oc_exclusive oc) = oc" by (simp add: combine_def accept_def)
    ultimately show ?thesis using Inr Some by (simp add: handle_locked_def)
  qed
qed

section \<open>The machine over its calls\<close>

definition stm_ok :: "trading_stm \<Rightarrow> bool" where
  "stm_ok m \<longleftrightarrow> config_ok (sm_state m) \<and> full_catalog (sm_configuration m)"

lemma stm_ok_create: "create_stm r = Inr m \<Longrightarrow> stm_ok m"
  by (auto simp: create_stm_def ebind_eq_Inr require_supported_iff stm_ok_def split: if_splits)

lemma stm_handle_cases:
  assumes "stm_ok m"
  obtains (locked) "sm_locked m" "stm_handle m e c = (Inl RuntimeError, m)"
  | (unfit) "\<not> sm_locked m" "stm_handle m e c = (Inl InvalidOperation, m)" "raw_unfit (cv_market c)"
  | (result) r where "\<not> sm_locked m"
      "stm_handle m e c = (Inr r, m\<lparr>sm_state := sr_state_after r\<rparr>)"
      "handle_locked (sm_configuration m) (sm_state m) e c = Inr r"
      "result_ok (sm_state m) e c r"
proof (cases "sm_locked m")
  case True
  then show thesis by (intro locked) (simp_all add: stm_handle_def)
next
  case False
  have ok: "step_ok (sm_state m) e c (handle_locked (sm_configuration m) (sm_state m) e c)"
    using assms by (simp add: stm_ok_def handle_locked_ok)
  show thesis
  proof (cases "handle_locked (sm_configuration m) (sm_state m) e c")
    case (Inl err)
    with ok False show thesis by (intro unfit) (simp_all add: stm_handle_def step_ok_def)
  next
    case (Inr r)
    with ok False show thesis by (intro result) (simp_all add: stm_handle_def step_ok_def)
  qed
qed

lemma stm_handle_ok:
  assumes "stm_ok m"
  shows "stm_ok (snd (stm_handle m e c))"
  by (rule stm_handle_cases [OF assms, of e c])
    (use assms in \<open>simp_all add: stm_ok_def result_ok_def\<close>)

lemma stm_handle_unlocked: "sm_locked (snd (stm_handle m e c)) = sm_locked m"
  by (simp add: stm_handle_def split: sum.splits)

text \<open>A result that has not been published is undone exactly.\<close>

lemma rollback_restores:
  assumes "stm_ok m" "stm_handle m e c = (Inr r, m')"
  shows "rollback_unpublished_result m' r = (Inr (), m)"
  using assms(1)
proof (cases rule: stm_handle_cases [of m e c])
  case (result r')
  with assms(2) show ?thesis
    by (auto simp: rollback_unpublished_result_def result_ok_def)
qed (use assms(2) in simp_all)

end
