(* ===== verification/Trading_Context.thy ===== *)
theory Trading_Context
  imports Trading_Stm
begin

text \<open>
  The mutable context of a session (\<open>TradingContext\<close> of \<open>domain/trading/context.py\<close>): its
  versioned mutations, the application of a result of the state machine, the snapshot, and the
  checkpoint the controller restores when a command fails.

  Every mutation validates before it assigns, so an exception leaves the context as it was; a
  mutation is therefore a function into \<open>'a res\<close>.  The lock of the class serialises its callers
  and has no value here.  The account is an opaque parameter \<open>'acc\<close> that the context only stores.
\<close>

section \<open>The state\<close>

record 'acc trading_context =
  tx_account :: "'acc option"
  tx_checkpoint_owner :: nat
  tx_initialized :: bool
  tx_selected_regime :: "regime_type option"
  tx_scale_in_ratio :: decimal
  tx_scale_out_ratio :: decimal
  tx_market :: market_snapshot
  tx_runtime :: runtime_snapshot
  tx_position :: position_snapshot
  tx_pending_order :: "pending_order_snapshot option"
  tx_version :: int

text \<open>A new context; the owner token stands for the object the constructor allocates.\<close>

definition new_context :: "nat \<Rightarrow> 'acc trading_context" where
  "new_context token = \<lparr>tx_account = None, tx_checkpoint_owner = token, tx_initialized = False,
     tx_selected_regime = None, tx_scale_in_ratio = Fin (5 / 10), tx_scale_out_ratio = Fin (5 / 10),
     tx_market = default_market, tx_runtime = default_runtime, tx_position = default_position,
     tx_pending_order = None, tx_version = 0\<rparr>"

section \<open>Runtime changes\<close>

fun apply_change :: "runtime_change \<Rightarrow> runtime_snapshot \<Rightarrow> runtime_snapshot" where
  "apply_change (Set_position_owner x) r = r\<lparr>rt_position_owner := x\<rparr>"
| "apply_change (Set_pending_strategy x) r = r\<lparr>rt_pending_strategy := x\<rparr>"
| "apply_change (Set_pending_order_side x) r = r\<lparr>rt_pending_order_side := x\<rparr>"
| "apply_change (Set_pending_order_id x) r = r\<lparr>rt_pending_order_id := x\<rparr>"
| "apply_change (Set_pending_order_attempt_kind x) r = r\<lparr>rt_pending_order_attempt_kind := x\<rparr>"
| "apply_change (Set_pending_intent_id x) r = r\<lparr>rt_pending_intent_id := x\<rparr>"
| "apply_change (Set_trading_phase x) r = r\<lparr>rt_trading_phase := x\<rparr>"
| "apply_change (Set_case_b_enabled x) r = r\<lparr>rt_case_b_enabled := x\<rparr>"
| "apply_change (Set_case_c_enabled x) r = r\<lparr>rt_case_c_enabled := x\<rparr>"
| "apply_change (Set_case_b_entry_paused x) r = r\<lparr>rt_case_b_entry_paused := x\<rparr>"
| "apply_change (Set_case_b_only_until_next_lower_touch x) r = r\<lparr>rt_case_b_only_until_next_lower_touch := x\<rparr>"
| "apply_change (Set_allow_new_case_c_setup x) r = r\<lparr>rt_allow_new_case_c_setup := x\<rparr>"
| "apply_change (Set_case_c_consumed_for_event x) r = r\<lparr>rt_case_c_consumed_for_event := x\<rparr>"
| "apply_change (Set_case_c_recovery_confirmed x) r = r\<lparr>rt_case_c_recovery_confirmed := x\<rparr>"
| "apply_change (Set_signal_created x) r = r\<lparr>rt_signal_created := x\<rparr>"
| "apply_change (Set_signal_candle_id x) r = r\<lparr>rt_signal_candle_id := x\<rparr>"
| "apply_change (Set_signal_time x) r = r\<lparr>rt_signal_time := x\<rparr>"
| "apply_change (Set_last_case_c_setup_candle_id x) r = r\<lparr>rt_last_case_c_setup_candle_id := x\<rparr>"
| "apply_change (Set_flush_low x) r = r\<lparr>rt_flush_low := x\<rparr>"
| "apply_change (Set_flush_low_pct_b x) r = r\<lparr>rt_flush_low_pct_b := x\<rparr>"
| "apply_change (Set_flush_low_time x) r = r\<lparr>rt_flush_low_time := x\<rparr>"
| "apply_change (Set_current_open_pct_b x) r = r\<lparr>rt_current_open_pct_b := x\<rparr>"
| "apply_change (Set_timer_base_pct_b x) r = r\<lparr>rt_timer_base_pct_b := x\<rparr>"
| "apply_change (Set_timer_base_time x) r = r\<lparr>rt_timer_base_time := x\<rparr>"
| "apply_change (Set_entry_pct_b x) r = r\<lparr>rt_entry_pct_b := x\<rparr>"
| "apply_change (Set_tp_price x) r = r\<lparr>rt_tp_price := x\<rparr>"
| "apply_change (Set_previous_trail_ema_slope x) r = r\<lparr>rt_previous_trail_ema_slope := x\<rparr>"
| "apply_change (Set_pending_exit_reason x) r = r\<lparr>rt_pending_exit_reason := x\<rparr>"
| "apply_change (Set_pending_exit_pct_b x) r = r\<lparr>rt_pending_exit_pct_b := x\<rparr>"
| "apply_change (Set_pending_return_state x) r = r\<lparr>rt_pending_return_state := x\<rparr>"
| "apply_change (Set_case_b_exit_reason x) r = r\<lparr>rt_case_b_exit_reason := x\<rparr>"
| "apply_change (Set_case_c_exit_reason x) r = r\<lparr>rt_case_c_exit_reason := x\<rparr>"
| "apply_change (Set_case_c_exit_pct_b x) r = r\<lparr>rt_case_c_exit_pct_b := x\<rparr>"

text \<open>\<open>replace(runtime, **changes)\<close>, whose constructor check may raise.\<close>

definition apply_changes :: "runtime_change list \<Rightarrow> runtime_snapshot \<Rightarrow> runtime_snapshot" where
  "apply_changes cs r = fold apply_change cs r"

definition make_runtime :: "runtime_snapshot \<Rightarrow> runtime_snapshot res" where
  "make_runtime r = (if runtime_ok r then Inr r else Inl ValueError)"

definition replace_runtime :: "runtime_snapshot \<Rightarrow> 'acc trading_context \<Rightarrow> 'acc trading_context" where
  "replace_runtime next_runtime x =
     (if runtime_same next_runtime (tx_runtime x) then x
      else x\<lparr>tx_runtime := next_runtime, tx_version := tx_version x + 1\<rparr>)"

text \<open>One patch: no field twice, then the constructor check.\<close>

definition patch_runtime :: "runtime_change list \<Rightarrow> runtime_snapshot \<Rightarrow> runtime_snapshot res" where
  "patch_runtime cs r =
     ebind (require (distinct (map change_field cs)) ValueError) (\<lambda>_.
     make_runtime (apply_changes cs r))"

definition validate_pending_alignment ::
  "runtime_snapshot \<Rightarrow> pending_order_snapshot option \<Rightarrow> unit res" where
  "validate_pending_alignment r po = require (pending_aligned r po) ValueError"

definition apply_runtime_patch ::
  "runtime_change list \<Rightarrow> 'acc trading_context \<Rightarrow> 'acc trading_context res" where
  "apply_runtime_patch cs x =
     ebind (patch_runtime cs (tx_runtime x)) (\<lambda>next_runtime.
     ebind (validate_pending_alignment next_runtime (tx_pending_order x)) (\<lambda>_.
     Inr (replace_runtime next_runtime x)))"

text \<open>All patches of a result are computed in order before any of them is published.\<close>

fun patch_all :: "trading_action list \<Rightarrow> runtime_snapshot \<Rightarrow> runtime_snapshot res" where
  "patch_all [] r = Inr r"
| "patch_all (PatchRuntimeContext cs # acts) r = ebind (patch_runtime cs r) (patch_all acts)"
| "patch_all (_ # acts) r = patch_all acts r"

definition apply_trading_stm_result ::
  "stm_result \<Rightarrow> 'acc trading_context \<Rightarrow> 'acc trading_context res" where
  "apply_trading_stm_result r x =
     (if sr_context_version r \<noteq> tx_version x then Inl ContextVersionConflictError
      else ebind (patch_all (sr_actions r) (tx_runtime x)) (\<lambda>next_runtime.
        ebind (validate_pending_alignment next_runtime (tx_pending_order x)) (\<lambda>_.
        Inr (replace_runtime next_runtime x))))"

section \<open>Settings of the session\<close>

definition select_regime :: "regime_type \<Rightarrow> 'acc trading_context \<Rightarrow> 'acc trading_context" where
  "select_regime r x =
     (if tx_selected_regime x = Some r then x
      else x\<lparr>tx_selected_regime := Some r, tx_version := tx_version x + 1\<rparr>)"

definition set_split_ratios ::
  "decimal \<Rightarrow> decimal \<Rightarrow> 'acc trading_context \<Rightarrow> 'acc trading_context res" where
  "set_split_ratios scale_in scale_out x =
     ebind (require (valid_split_ratio scale_in) ValueError) (\<lambda>_.
     ebind (require (valid_split_ratio scale_out) ValueError) (\<lambda>_.
     Inr (if dnorm (tx_scale_in_ratio x) = dnorm scale_in \<and>
             dnorm (tx_scale_out_ratio x) = dnorm scale_out
          then x
          else x\<lparr>tx_scale_in_ratio := scale_in, tx_scale_out_ratio := scale_out,
                 tx_version := tx_version x + 1\<rparr>)))"

definition initialize_context ::
  "'acc \<Rightarrow> regime_type \<Rightarrow> position_snapshot \<Rightarrow> decimal \<Rightarrow> decimal \<Rightarrow> 'acc trading_context \<Rightarrow>
   'acc trading_context res" where
  "initialize_context account regime pos scale_in scale_out x =
     ebind (require (valid_split_ratio scale_in) ValueError) (\<lambda>_.
     ebind (require (valid_split_ratio scale_out) ValueError) (\<lambda>_.
     Inr (x\<lparr>tx_account := Some account, tx_selected_regime := Some regime,
            tx_scale_in_ratio := scale_in, tx_scale_out_ratio := scale_out,
            tx_position := pos, tx_runtime := default_runtime, tx_pending_order := None,
            tx_initialized := True, tx_version := tx_version x + 1\<rparr>)))"

definition update_market :: "market_snapshot \<Rightarrow> 'acc trading_context \<Rightarrow> 'acc trading_context" where
  "update_market m x =
     (if market_same (tx_market x) m then x
      else x\<lparr>tx_market := m, tx_version := tx_version x + 1\<rparr>)"

section \<open>Positions and orders\<close>

definition update_position ::
  "position_snapshot \<Rightarrow> strategy_type option \<Rightarrow> 'acc trading_context \<Rightarrow> 'acc trading_context res" where
  "update_position pos owner x =
     ebind (require (is_open pos \<or> owner = None) ValueError) (\<lambda>_.
     ebind (make_runtime ((tx_runtime x)\<lparr>rt_position_owner := owner\<rparr>)) (\<lambda>next_runtime.
     Inr (if position_same (tx_position x) pos \<and> runtime_same (tx_runtime x) next_runtime then x
          else x\<lparr>tx_position := pos, tx_runtime := next_runtime,
                 tx_version := tx_version x + 1\<rparr>)))"

definition update_pending_order ::
  "pending_order_snapshot option \<Rightarrow> bool \<Rightarrow> 'acc trading_context \<Rightarrow> 'acc trading_context res" where
  "update_pending_order po preserve_intent_id x =
     ebind (make_runtime (case po of
         None \<Rightarrow> (tx_runtime x)
           \<lparr>rt_pending_strategy := None, rt_pending_order_side := None, rt_pending_order_id := None,
            rt_pending_order_attempt_kind := None,
            rt_pending_intent_id :=
              (if preserve_intent_id then rt_pending_intent_id (tx_runtime x) else None)\<rparr>
       | Some p \<Rightarrow> (tx_runtime x)
           \<lparr>rt_pending_strategy := Some (po_strategy p), rt_pending_order_side := Some (po_side p),
            rt_pending_order_id := Some (po_order_id p),
            rt_pending_order_attempt_kind := Some (po_attempt_kind p)\<rparr>)) (\<lambda>next_runtime.
     Inr (if tx_pending_order x = po \<and> runtime_same (tx_runtime x) next_runtime then x
          else x\<lparr>tx_pending_order := po, tx_runtime := next_runtime,
                 tx_version := tx_version x + 1\<rparr>))"

definition clear_pending_order :: "'acc trading_context \<Rightarrow> 'acc trading_context res" where
  "clear_pending_order x =
     ebind (make_runtime ((tx_runtime x)
       \<lparr>rt_pending_strategy := None, rt_pending_order_side := None, rt_pending_order_id := None,
        rt_pending_order_attempt_kind := None, rt_pending_intent_id := None,
        rt_pending_exit_reason := None, rt_pending_exit_pct_b := None,
        rt_pending_return_state := None, rt_trading_phase := IDLE\<rparr>)) (\<lambda>next_runtime.
     ebind (validate_pending_alignment next_runtime None) (\<lambda>_.
     Inr (if tx_pending_order x = None \<and> runtime_same (tx_runtime x) next_runtime then x
          else x\<lparr>tx_pending_order := None, tx_runtime := next_runtime,
                 tx_version := tx_version x + 1\<rparr>)))"

section \<open>Lower events and case contexts\<close>

definition context_open_lower_event ::
  "lower_event_request \<Rightarrow> 'acc trading_context \<Rightarrow> 'acc trading_context res" where
  "context_open_lower_event a x =
     ebind (make_runtime ((tx_runtime x)
       \<lparr>rt_lower_event_id := Some (le_lower_event_id a), rt_touch_time := Some (le_touch_time a),
        rt_touch_candle_id := le_candle_id a, rt_touch_candle_low := Some (le_touch_candle_low a),
        rt_lower_band_at_touch := Some (le_lower_band_at_touch a),
        rt_touch_candle_bbw := Some (le_touch_candle_bbw a)\<rparr>)) (\<lambda>next_runtime.
     Inr (replace_runtime next_runtime x))"

definition context_close_lower_event ::
  "string \<Rightarrow> 'acc trading_context \<Rightarrow> 'acc trading_context res" where
  "context_close_lower_event reason x =
     ebind (require (reason \<noteq> []) ValueError) (\<lambda>_.
     ebind (make_runtime ((tx_runtime x)
       \<lparr>rt_lower_event_id := None, rt_touch_time := None, rt_touch_candle_id := None,
        rt_touch_candle_low := None, rt_lower_band_at_touch := None,
        rt_touch_candle_bbw := None\<rparr>)) (\<lambda>next_runtime.
     Inr (replace_runtime next_runtime x)))"

definition reset_case_b_context :: "bool \<Rightarrow> 'acc trading_context \<Rightarrow> 'acc trading_context res" where
  "reset_case_b_context preserve_signal x =
     (let r = tx_runtime x;
          kept = (if preserve_signal then r
                  else r\<lparr>rt_signal_created := False, rt_signal_candle_id := None,
                         rt_signal_time := None\<rparr>)
      in ebind (make_runtime (kept
           \<lparr>rt_case_b_enabled := False, rt_case_b_entry_paused := False,
            rt_case_b_only_until_next_lower_touch := False, rt_case_b_exit_reason := None\<rparr>))
         (\<lambda>next_runtime. Inr (replace_runtime next_runtime x)))"

definition reset_case_c_context ::
  "bool \<Rightarrow> bool \<Rightarrow> 'acc trading_context \<Rightarrow> 'acc trading_context res" where
  "reset_case_c_context preserve_exit_result preserve_setup_candle x =
     (let r = tx_runtime x;
          kept = (if preserve_exit_result then r
                  else r\<lparr>rt_case_c_exit_reason := None, rt_case_c_exit_pct_b := None\<rparr>)
      in ebind (make_runtime (kept
           \<lparr>rt_case_c_enabled := False, rt_allow_new_case_c_setup := False,
            rt_case_c_consumed_for_event := False, rt_case_c_recovery_confirmed := False,
            rt_last_case_c_setup_candle_id :=
              (if preserve_setup_candle then rt_last_case_c_setup_candle_id r else None),
            rt_flush_low := None, rt_flush_low_pct_b := None, rt_flush_low_time := None,
            rt_current_open_pct_b := None, rt_timer_base_pct_b := None,
            rt_timer_base_time := None, rt_entry_pct_b := None, rt_tp_price := None,
            rt_previous_trail_ema_slope := None\<rparr>))
         (\<lambda>next_runtime. Inr (replace_runtime next_runtime x)))"

section \<open>Reading\<close>

definition get_split_ratio :: "'acc trading_context \<Rightarrow> decimal res" where
  "get_split_ratio x =
     (case rt_pending_order_side (tx_runtime x) of
        Some BUY \<Rightarrow> Inr (tx_scale_in_ratio x)
      | Some SELL \<Rightarrow> Inr (tx_scale_out_ratio x)
      | None \<Rightarrow> Inl TradingContextStateError)"

text \<open>\<open>evaluated_at\<close> is the value the injected clock returns.\<close>

definition context_snapshot :: "timestamp \<Rightarrow> 'acc trading_context \<Rightarrow> context_view res" where
  "context_snapshot evaluated_at x =
     ebind (require (is_aware evaluated_at) ValueError) (\<lambda>_.
     make_view \<lparr>cv_version = tx_version x, cv_evaluated_at = evaluated_at,
       cv_market = tx_market x, cv_runtime = tx_runtime x, cv_position = tx_position x,
       cv_pending_order = tx_pending_order x, cv_initialized = tx_initialized x,
       cv_selected_regime = tx_selected_regime x,
       cv_scale_in_ratio = tx_scale_in_ratio x, cv_scale_out_ratio = tx_scale_out_ratio x\<rparr>)"

text \<open>A checkpoint holds every field with the token of its owner: the record itself.\<close>

type_synonym 'acc context_checkpoint = "'acc trading_context"

definition create_checkpoint :: "'acc trading_context \<Rightarrow> 'acc context_checkpoint" where
  "create_checkpoint x = x"

definition restore_checkpoint ::
  "'acc context_checkpoint \<Rightarrow> 'acc trading_context \<Rightarrow> 'acc trading_context res" where
  "restore_checkpoint k x =
     (if tx_checkpoint_owner k \<noteq> tx_checkpoint_owner x then Inl ValueError
      else Inr (x\<lparr>tx_account := tx_account k, tx_initialized := tx_initialized k,
        tx_selected_regime := tx_selected_regime k,
        tx_scale_in_ratio := tx_scale_in_ratio k, tx_scale_out_ratio := tx_scale_out_ratio k,
        tx_market := tx_market k, tx_runtime := tx_runtime k, tx_position := tx_position k,
        tx_pending_order := tx_pending_order k, tx_version := tx_version k\<rparr>))"

section \<open>Operations as steps\<close>

datatype 'acc context_op =
    SelectRegime regime_type
  | SetSplitRatios decimal decimal
  | Initialize 'acc regime_type position_snapshot decimal decimal
  | UpdateMarket market_snapshot
  | UpdatePosition position_snapshot "strategy_type option"
  | UpdatePendingOrder "pending_order_snapshot option" bool
  | ClearPendingOrder
  | ApplyPatch "runtime_change list"
  | ApplyResult stm_result
  | OpenLower lower_event_request
  | CloseLower string
  | ResetCaseB bool
  | ResetCaseC bool bool

fun run_op :: "'acc context_op \<Rightarrow> 'acc trading_context \<Rightarrow> 'acc trading_context res" where
  "run_op (SelectRegime r) x = Inr (select_regime r x)"
| "run_op (SetSplitRatios i j) x = set_split_ratios i j x"
| "run_op (Initialize a r p i j) x = initialize_context a r p i j x"
| "run_op (UpdateMarket m) x = Inr (update_market m x)"
| "run_op (UpdatePosition p st) x = update_position p st x"
| "run_op (UpdatePendingOrder po k) x = update_pending_order po k x"
| "run_op ClearPendingOrder x = clear_pending_order x"
| "run_op (ApplyPatch cs) x = apply_runtime_patch cs x"
| "run_op (ApplyResult r) x = apply_trading_stm_result r x"
| "run_op (OpenLower a) x = context_open_lower_event a x"
| "run_op (CloseLower reason) x = context_close_lower_event reason x"
| "run_op (ResetCaseB b) x = reset_case_b_context b x"
| "run_op (ResetCaseC b b') x = reset_case_c_context b b' x"

text \<open>
  Well-formed arguments: objects that passed their constructors, and patches of the kind the state
  machine emits.
\<close>

fun op_ok :: "'acc context_op \<Rightarrow> bool" where
  "op_ok (Initialize a r p i j) = position_ok p"
| "op_ok (UpdateMarket m) = market_ok m"
| "op_ok (UpdatePosition p st) = position_ok p"
| "op_ok (ApplyPatch cs) = patch_safe cs"
| "op_ok (ApplyResult r) = (\<forall>cs. PatchRuntimeContext cs \<in> set (sr_actions r) \<longrightarrow> patch_safe cs)"
| "op_ok (OpenLower a) = is_aware (le_touch_time a)"
| "op_ok _ = True"

inductive reachable :: "nat \<Rightarrow> 'acc trading_context \<Rightarrow> bool" for token :: nat where
  new: "reachable token (new_context token)"
| step: "reachable token x \<Longrightarrow> op_ok op \<Longrightarrow> run_op op x = Inr y \<Longrightarrow> reachable token y"

text \<open>
  The invariant of a context: valid snapshots, an aligned pending order, an identifier only for an
  authoritative order, and an owner only for an open position.
\<close>

definition context_ok :: "'acc trading_context \<Rightarrow> bool" where
  "context_ok x \<longleftrightarrow>
     0 \<le> tx_version x \<and> market_ok (tx_market x) \<and> position_ok (tx_position x) \<and>
     runtime_ok (tx_runtime x) \<and> valid_split_ratio (tx_scale_in_ratio x) \<and>
     valid_split_ratio (tx_scale_out_ratio x) \<and>
     pending_aligned (tx_runtime x) (tx_pending_order x) \<and>
     (tx_pending_order x = None \<longrightarrow> rt_pending_order_id (tx_runtime x) = None) \<and>
     (rt_position_owner (tx_runtime x) \<noteq> None \<longrightarrow> is_open (tx_position x))"

section \<open>Patches\<close>

lemma apply_changes_simps [simp]:
  "apply_changes [] r = r"
  "apply_changes (ch # cs) r = apply_changes cs (apply_change ch r)"
  by (simp_all add: apply_changes_def)

text \<open>A field that is not named keeps its value; one that is named once receives it.\<close>

lemma exit_reason_unchanged:
  "PENDING_EXIT_REASON \<notin> change_field ` set cs \<Longrightarrow>
     rt_pending_exit_reason (apply_changes cs r) = rt_pending_exit_reason r"
proof (induction cs arbitrary: r)
  case (Cons ch cs)
  then show ?case by (cases ch) simp_all
qed simp

lemma exit_pct_unchanged:
  "PENDING_EXIT_PCT_B \<notin> change_field ` set cs \<Longrightarrow>
     rt_pending_exit_pct_b (apply_changes cs r) = rt_pending_exit_pct_b r"
proof (induction cs arbitrary: r)
  case (Cons ch cs)
  then show ?case by (cases ch) simp_all
qed simp

lemma return_state_unchanged:
  "PENDING_RETURN_STATE \<notin> change_field ` set cs \<Longrightarrow>
     rt_pending_return_state (apply_changes cs r) = rt_pending_return_state r"
proof (induction cs arbitrary: r)
  case (Cons ch cs)
  then show ?case by (cases ch) simp_all
qed simp

lemma exit_reason_set:
  "distinct (map change_field cs) \<Longrightarrow> Set_pending_exit_reason v \<in> set cs \<Longrightarrow>
     rt_pending_exit_reason (apply_changes cs r) = v"
proof (induction cs arbitrary: r)
  case (Cons ch cs)
  show ?case
  proof (cases "Set_pending_exit_reason v \<in> set cs")
    case False
    with Cons.prems have "ch = Set_pending_exit_reason v" by simp
    with Cons.prems show ?thesis by (auto simp: exit_reason_unchanged)
  qed (use Cons in simp)
qed simp

lemma exit_pct_set:
  "distinct (map change_field cs) \<Longrightarrow> Set_pending_exit_pct_b v \<in> set cs \<Longrightarrow>
     rt_pending_exit_pct_b (apply_changes cs r) = v"
proof (induction cs arbitrary: r)
  case (Cons ch cs)
  show ?case
  proof (cases "Set_pending_exit_pct_b v \<in> set cs")
    case False
    with Cons.prems have "ch = Set_pending_exit_pct_b v" by simp
    with Cons.prems show ?thesis by (auto simp: exit_pct_unchanged)
  qed (use Cons in simp)
qed simp

lemma return_state_set:
  "distinct (map change_field cs) \<Longrightarrow> Set_pending_return_state v \<in> set cs \<Longrightarrow>
     rt_pending_return_state (apply_changes cs r) = v"
proof (induction cs arbitrary: r)
  case (Cons ch cs)
  show ?case
  proof (cases "Set_pending_return_state v \<in> set cs")
    case False
    with Cons.prems have "ch = Set_pending_return_state v" by simp
    with Cons.prems show ?thesis by (auto simp: return_state_unchanged)
  qed (use Cons in simp)
qed simp

lemma change_field_eq_exit:
  "change_field ch = PENDING_EXIT_REASON \<longleftrightarrow> (\<exists>v. ch = Set_pending_exit_reason v)"
  "change_field ch = PENDING_EXIT_PCT_B \<longleftrightarrow> (\<exists>v. ch = Set_pending_exit_pct_b v)"
  "change_field ch = PENDING_RETURN_STATE \<longleftrightarrow> (\<exists>v. ch = Set_pending_return_state v)"
  by (cases ch; simp)+

text \<open>Safe changes install no owner, no order identifier and no naive time.\<close>

lemma safe_changes_effect:
  "list_all safe_change cs \<Longrightarrow>
     rt_position_owner (apply_changes cs r) \<in> {None, rt_position_owner r} \<and>
     rt_pending_order_id (apply_changes cs r) \<in> {None, rt_pending_order_id r} \<and>
     rt_touch_time (apply_changes cs r) = rt_touch_time r \<and>
     (opt_aware (rt_signal_time r) \<longrightarrow> opt_aware (rt_signal_time (apply_changes cs r))) \<and>
     (opt_aware (rt_flush_low_time r) \<longrightarrow> opt_aware (rt_flush_low_time (apply_changes cs r))) \<and>
     (opt_aware (rt_timer_base_time r) \<longrightarrow> opt_aware (rt_timer_base_time (apply_changes cs r)))"
proof (induction cs arbitrary: r)
  case (Cons ch cs)
  have "list_all safe_change cs" "safe_change ch" using Cons.prems by simp_all
  from Cons.IH [OF this(1), of "apply_change ch r"] this(2) show ?case
    by (cases ch) auto
qed simp

lemma exit_pct_values:
  "rt_pending_exit_pct_b (apply_changes cs r) = rt_pending_exit_pct_b r \<or>
   Set_pending_exit_pct_b (rt_pending_exit_pct_b (apply_changes cs r)) \<in> set cs"
proof (induction cs arbitrary: r)
  case (Cons ch cs)
  from Cons.IH [of "apply_change ch r"] show ?case by (cases ch) auto
qed simp

lemma return_state_values:
  "rt_pending_return_state (apply_changes cs r) = rt_pending_return_state r \<or>
   Set_pending_return_state (rt_pending_return_state (apply_changes cs r)) \<in> set cs"
proof (induction cs arbitrary: r)
  case (Cons ch cs)
  from Cons.IH [of "apply_change ch r"] show ?case by (cases ch) auto
qed simp

lemma exit_reason_values:
  "rt_pending_exit_reason (apply_changes cs r) = rt_pending_exit_reason r \<or>
   Set_pending_exit_reason (rt_pending_exit_reason (apply_changes cs r)) \<in> set cs"
proof (induction cs arbitrary: r)
  case (Cons ch cs)
  from Cons.IH [of "apply_change ch r"] show ?case by (cases ch) auto
qed simp

text \<open>A safe patch keeps the fields of an exit together.\<close>

lemma safe_patch_exit:
  assumes "patch_safe cs"
    and "rt_pending_exit_reason r = None \<Longrightarrow>
      rt_pending_exit_pct_b r = None \<and> rt_pending_return_state r = None"
    and "rt_pending_exit_reason (apply_changes cs r) = None"
  shows "rt_pending_exit_pct_b (apply_changes cs r) = None \<and>
    rt_pending_return_state (apply_changes cs r) = None"
proof -
  have d: "distinct (map change_field cs)" using assms(1) by (simp add: patch_safe_def)
  have clears: "list_ex clears_reason cs \<Longrightarrow>
      Set_pending_exit_pct_b None \<in> set cs \<and> Set_pending_return_state None \<in> set cs"
    and details: "list_ex sets_exit_detail cs \<Longrightarrow> list_ex sets_reason cs"
    using assms(1) by (simp_all add: patch_safe_def)
  show ?thesis
  proof (cases "list_ex clears_reason cs")
    case True
    with clears d show ?thesis by (simp add: exit_pct_set return_state_set)
  next
    case False
    then have "Set_pending_exit_reason None \<notin> set cs" by (auto simp: list_ex_iff)
    with assms(3) exit_reason_values [of cs r] have "rt_pending_exit_reason r = None" by auto
    with assms(2) have none: "rt_pending_exit_pct_b r = None" "rt_pending_return_state r = None"
      by simp_all
    have "\<not> list_ex sets_reason cs"
    proof
      assume "list_ex sets_reason cs"
      then obtain v where "Set_pending_exit_reason (Some v) \<in> set cs"
        by (auto simp: list_ex_iff elim!: sets_reason.elims)
      with exit_reason_set [OF d this, of r] assms(3) show False by simp
    qed
    with details have "\<not> list_ex sets_exit_detail cs" by blast
    then have "Set_pending_exit_pct_b (Some p) \<notin> set cs" "Set_pending_return_state (Some q) \<notin> set cs" for p q
      by (auto simp: list_ex_iff)
    with none exit_pct_values [of cs r] return_state_values [of cs r] show ?thesis
      by (metis not_None_eq)
  qed
qed

text \<open>A safe patch of a runtime without a pending order yields a valid runtime.\<close>

lemma safe_patch_runtime:
  assumes "patch_safe cs" "runtime_ok r" "rt_pending_order_id r = None"
  shows "patch_runtime cs r = Inr (apply_changes cs r)" "runtime_ok (apply_changes cs r)"
    "rt_pending_order_id (apply_changes cs r) = None"
proof -
  have safe: "list_all safe_change cs" and d: "distinct (map change_field cs)"
    using assms(1) by (simp_all add: patch_safe_def)
  note eff = safe_changes_effect [OF safe, of r]
  show "rt_pending_order_id (apply_changes cs r) = None" using eff assms(3) by auto
  then show "runtime_ok (apply_changes cs r)"
    using eff assms(2) safe_patch_exit [OF assms(1), of r] by (auto simp: runtime_ok_def)
  then show "patch_runtime cs r = Inr (apply_changes cs r)"
    using d by (simp add: patch_runtime_def make_runtime_def)
qed

lemma safe_patch_all:
  assumes "\<forall>cs. PatchRuntimeContext cs \<in> set acts \<longrightarrow> patch_safe cs"
    and "runtime_ok r" "rt_pending_order_id r = None"
  shows "\<exists>r'. patch_all acts r = Inr r' \<and> runtime_ok r' \<and> rt_pending_order_id r' = None"
  using assms
proof (induction acts r rule: patch_all.induct)
  case (2 cs acts r)
  then have "patch_safe cs" by simp
  note step = safe_patch_runtime [OF this 2(3,4)]
  from 2(1) [OF step(1)] 2(2) step show ?case by simp
qed simp_all

lemma patch_runtime_valid: "patch_runtime cs r = Inr r' \<Longrightarrow> r' = apply_changes cs r \<and> runtime_ok r'"
  by (auto simp: patch_runtime_def make_runtime_def ebind_eq_Inr split: if_splits)

lemma patch_all_effect:
  assumes "patch_all acts r = Inr r'"
    and "\<forall>cs. PatchRuntimeContext cs \<in> set acts \<longrightarrow> patch_safe cs" "runtime_ok r"
  shows "runtime_ok r' \<and> rt_position_owner r' \<in> {None, rt_position_owner r} \<and>
    rt_pending_order_id r' \<in> {None, rt_pending_order_id r}"
  using assms
proof (induction acts r rule: patch_all.induct)
  case (2 cs acts r)
  then obtain r1 where r1: "patch_runtime cs r = Inr r1" "patch_all acts r1 = Inr r'"
    by (auto simp: ebind_eq_Inr)
  have "list_all safe_change cs" using 2(3) by (simp add: patch_safe_def)
  note eff = safe_changes_effect [OF this, of r]
  have r1_eq: "r1 = apply_changes cs r" "runtime_ok r1"
    using patch_runtime_valid [OF r1(1)] by blast+
  have "\<forall>cs. PatchRuntimeContext cs \<in> set acts \<longrightarrow> patch_safe cs" using 2(3) by simp
  note ih = 2(1) [OF r1(1,2) this r1_eq(2)]
  have "rt_position_owner r1 \<in> {None, rt_position_owner r}"
    "rt_pending_order_id r1 \<in> {None, rt_pending_order_id r}"
    using eff by (simp_all add: r1_eq(1))
  with ih show ?case by fastforce
qed simp_all

section \<open>The invariant\<close>

lemma make_runtime_eq [simp]: "make_runtime r = Inr r' \<longleftrightarrow> r' = r \<and> runtime_ok r"
  by (auto simp: make_runtime_def)

lemma alignment_eq [simp]: "validate_pending_alignment r po = Inr u \<longleftrightarrow> pending_aligned r po"
  by (simp add: validate_pending_alignment_def)

lemma context_ok_new [simp]: "context_ok (new_context token)"
  by (simp add: context_ok_def new_context_def valid_split_ratio_def default_runtime_def
      runtime_ok_def)

lemma context_ok_replace:
  assumes "context_ok x" "runtime_ok r" "pending_aligned r (tx_pending_order x)"
    and "tx_pending_order x = None \<Longrightarrow> rt_pending_order_id r = None"
    and "rt_position_owner r \<in> {None, rt_position_owner (tx_runtime x)}"
  shows "context_ok (replace_runtime r x)"
  using assms by (auto simp: context_ok_def replace_runtime_def)

text \<open>Changes outside the order and the owner keep the invariant through their own check.\<close>

lemma context_ok_replace_other:
  assumes "context_ok x" "runtime_ok r"
    and "rt_pending_order_id r = rt_pending_order_id (tx_runtime x)"
      "rt_pending_strategy r = rt_pending_strategy (tx_runtime x)"
      "rt_pending_order_side r = rt_pending_order_side (tx_runtime x)"
      "rt_pending_order_attempt_kind r = rt_pending_order_attempt_kind (tx_runtime x)"
      "rt_position_owner r = rt_position_owner (tx_runtime x)"
  shows "context_ok (replace_runtime r x)"
  using assms by (intro context_ok_replace) (auto simp: context_ok_def pending_aligned_def
      split: option.splits)

lemma context_ok_patch:
  assumes "context_ok x" "patch_safe cs" "apply_runtime_patch cs x = Inr y"
  shows "context_ok y"
proof -
  obtain r where r: "patch_runtime cs (tx_runtime x) = Inr r"
    "pending_aligned r (tx_pending_order x)" "y = replace_runtime r x"
    using assms(3) by (auto simp: apply_runtime_patch_def ebind_eq_Inr)
  have "list_all safe_change cs" using assms(2) by (simp add: patch_safe_def)
  note eff = safe_changes_effect [OF this, of "tx_runtime x"]
  note valid = patch_runtime_valid [OF r(1)]
  have "context_ok (replace_runtime r x)"
  proof (rule context_ok_replace [OF assms(1)])
    show "tx_pending_order x = None \<Longrightarrow> rt_pending_order_id r = None"
      using eff valid assms(1) by (simp add: context_ok_def)
    show "rt_position_owner r \<in> {None, rt_position_owner (tx_runtime x)}"
      using eff valid by simp
    show "runtime_ok r" using valid by blast
  qed (rule r(2))
  with r(3) show ?thesis by simp
qed

lemma context_ok_result:
  assumes "context_ok x" "\<forall>cs. PatchRuntimeContext cs \<in> set (sr_actions r) \<longrightarrow> patch_safe cs"
    and "apply_trading_stm_result r x = Inr y"
  shows "context_ok y"
proof -
  obtain n where n: "patch_all (sr_actions r) (tx_runtime x) = Inr n"
    "pending_aligned n (tx_pending_order x)" "y = replace_runtime n x"
    using assms(3) by (auto simp: apply_trading_stm_result_def ebind_eq_Inr split: if_splits)
  have "runtime_ok (tx_runtime x)" using assms(1) by (simp add: context_ok_def)
  note eff = patch_all_effect [OF n(1) assms(2) this]
  have "context_ok (replace_runtime n x)"
  proof (rule context_ok_replace [OF assms(1)])
    show "tx_pending_order x = None \<Longrightarrow> rt_pending_order_id n = None"
      using eff assms(1) by (simp add: context_ok_def)
  qed (use eff n(2) in simp_all)
  with n(3) show ?thesis by simp
qed

text \<open>A mutation keeps the invariant, with the rules of the statements it is built from.\<close>

definition keeps_ok :: "'acc trading_context res \<Rightarrow> bool" where
  "keeps_ok m \<longleftrightarrow> (\<forall>y. m = Inr y \<longrightarrow> context_ok y)"

lemma keeps_ok_Inr: "context_ok y \<Longrightarrow> keeps_ok (Inr y)"
  by (simp add: keeps_ok_def)

lemma keeps_ok_require: "(b \<Longrightarrow> keeps_ok m) \<Longrightarrow> keeps_ok (ebind (require b err) (\<lambda>_. m))"
  by (cases b) (simp_all add: keeps_ok_def)

lemma keeps_ok_runtime: "(runtime_ok r \<Longrightarrow> keeps_ok (f r)) \<Longrightarrow> keeps_ok (ebind (make_runtime r) f)"
  by (cases "runtime_ok r") (simp_all add: keeps_ok_def make_runtime_def)

lemma keeps_ok_alignment:
  "(pending_aligned r po \<Longrightarrow> keeps_ok m) \<Longrightarrow>
   keeps_ok (ebind (validate_pending_alignment r po) (\<lambda>_. m))"
  unfolding validate_pending_alignment_def by (rule keeps_ok_require)

lemma context_ok_if: "context_ok x \<Longrightarrow> (\<not> b \<Longrightarrow> context_ok y) \<Longrightarrow> context_ok (if b then x else y)"
  by simp

lemmas keeps_ok_rules = keeps_ok_require keeps_ok_runtime keeps_ok_alignment keeps_ok_Inr context_ok_if

lemma context_ok_select: "context_ok x \<Longrightarrow> context_ok (select_regime r x)"
  by (simp add: context_ok_def select_regime_def)

lemma context_ok_market: "context_ok x \<Longrightarrow> market_ok m \<Longrightarrow> context_ok (update_market m x)"
  by (simp add: context_ok_def update_market_def)

lemma context_ok_ratios: "context_ok x \<Longrightarrow> keeps_ok (set_split_ratios i j x)"
  unfolding set_split_ratios_def by (intro keeps_ok_rules) (simp_all add: context_ok_def)

lemma context_ok_initialize:
  "context_ok x \<Longrightarrow> position_ok p \<Longrightarrow> keeps_ok (initialize_context a rg p i j x)"
  unfolding initialize_context_def
  by (intro keeps_ok_rules) (simp add: context_ok_def default_runtime_def runtime_ok_def)

lemma pending_aligned_owner [simp]:
  "pending_aligned (r\<lparr>rt_position_owner := st\<rparr>) po = pending_aligned r po"
  by (simp add: pending_aligned_def split: option.splits)

lemma context_ok_position:
  "context_ok x \<Longrightarrow> position_ok p \<Longrightarrow> keeps_ok (update_position p st x)"
  unfolding update_position_def by (intro keeps_ok_rules) (auto simp: context_ok_def)

lemma context_ok_pending: "context_ok x \<Longrightarrow> keeps_ok (update_pending_order po k x)"
  unfolding update_pending_order_def
proof (intro keeps_ok_rules)
  assume "context_ok x"
  then show "context_ok x" .
qed (cases po; simp add: context_ok_def pending_aligned_def)

lemma context_ok_clear: "context_ok x \<Longrightarrow> keeps_ok (clear_pending_order x)"
  unfolding clear_pending_order_def by (intro keeps_ok_rules) (simp_all add: context_ok_def)

lemma context_ok_open: "context_ok x \<Longrightarrow> keeps_ok (context_open_lower_event a x)"
  unfolding context_open_lower_event_def
  by (intro keeps_ok_rules context_ok_replace_other) simp_all

lemma context_ok_close: "context_ok x \<Longrightarrow> keeps_ok (context_close_lower_event rs x)"
  unfolding context_close_lower_event_def
  by (intro keeps_ok_rules context_ok_replace_other) simp_all

lemma context_ok_reset_b: "context_ok x \<Longrightarrow> keeps_ok (reset_case_b_context b x)"
  unfolding reset_case_b_context_def Let_def
  by (intro keeps_ok_rules context_ok_replace_other) simp_all

lemma context_ok_reset_c: "context_ok x \<Longrightarrow> keeps_ok (reset_case_c_context b b' x)"
  unfolding reset_case_c_context_def Let_def
  by (intro keeps_ok_rules context_ok_replace_other) simp_all

lemma keeps_ok_op: "context_ok x \<Longrightarrow> op_ok op \<Longrightarrow> keeps_ok (run_op op x)"
proof (cases op)
  case (ApplyPatch cs)
  assume "context_ok x" "op_ok op"
  with ApplyPatch show ?thesis by (auto simp: keeps_ok_def intro: context_ok_patch)
next
  case (ApplyResult r)
  assume "context_ok x" "op_ok op"
  with ApplyResult show ?thesis by (auto simp: keeps_ok_def intro: context_ok_result)
qed (simp_all add: context_ok_select context_ok_market context_ok_ratios context_ok_initialize
    context_ok_position context_ok_pending context_ok_clear context_ok_open context_ok_close
    context_ok_reset_b context_ok_reset_c keeps_ok_Inr)

lemma context_ok_step: "context_ok x \<Longrightarrow> op_ok op \<Longrightarrow> run_op op x = Inr y \<Longrightarrow> context_ok y"
  using keeps_ok_op by (auto simp: keeps_ok_def)

lemma reachable_ok: "reachable token x \<Longrightarrow> context_ok x"
  by (induction rule: reachable.induct) (auto intro: context_ok_step)

section \<open>Versions\<close>

lemma replace_runtime_owner [simp]:
  "tx_checkpoint_owner (replace_runtime r x) = tx_checkpoint_owner x"
  by (simp add: replace_runtime_def)

text \<open>The steps: unchanged, or the version is one higher; the owner token never changes.\<close>

definition version_step :: "'acc trading_context \<Rightarrow> 'acc trading_context \<Rightarrow> bool" where
  "version_step x y \<longleftrightarrow> (y = x \<or> tx_version y = tx_version x + 1) \<and>
     tx_checkpoint_owner y = tx_checkpoint_owner x"

lemma version_step_same: "version_step x x"
  by (simp add: version_step_def)

lemma version_step_next:
  "tx_version y = tx_version x + 1 \<Longrightarrow> tx_checkpoint_owner y = tx_checkpoint_owner x \<Longrightarrow>
   version_step x y"
  by (simp add: version_step_def)

lemma version_step_if: "version_step x y \<Longrightarrow> version_step x (if b then x else y)"
  by (simp add: version_step_same)

lemma version_step_replace: "version_step x (replace_runtime r x)"
  unfolding replace_runtime_def by (rule version_step_if) (simp add: version_step_next)

text \<open>A mutation that ends in \<open>Inr\<close> of a step is a step.\<close>

definition steps_from :: "'acc trading_context \<Rightarrow> 'acc trading_context res \<Rightarrow> bool" where
  "steps_from x m \<longleftrightarrow> (\<forall>y. m = Inr y \<longrightarrow> version_step x y)"

lemma steps_from_ebind: "(\<And>v. steps_from x (f v)) \<Longrightarrow> steps_from x (ebind m f)"
  by (auto simp: steps_from_def ebind_eq_Inr)

lemma steps_from_Inr: "version_step x y \<Longrightarrow> steps_from x (Inr y)"
  by (simp add: steps_from_def)

lemma steps_from_if: "steps_from x m \<Longrightarrow> steps_from x n \<Longrightarrow> steps_from x (if b then m else n)"
  by simp

lemma steps_from_Inl: "steps_from x (Inl err)"
  by (simp add: steps_from_def)

lemmas step_rules = steps_from_ebind steps_from_if steps_from_Inl steps_from_Inr
  version_step_if version_step_replace

lemma steps_from_op: "steps_from x (run_op op x)"
proof (cases op)
  case (SelectRegime r)
  then show ?thesis
    unfolding run_op.simps SelectRegime select_regime_def
    by (intro step_rules) (simp add: version_step_next)
next
  case (SetSplitRatios i j)
  then show ?thesis
    unfolding run_op.simps SetSplitRatios set_split_ratios_def
    by (intro step_rules) (simp add: version_step_next)
next
  case (Initialize a r p i j)
  then show ?thesis
    unfolding run_op.simps Initialize initialize_context_def
    by (intro step_rules) (simp add: version_step_next)
next
  case (UpdateMarket m)
  then show ?thesis
    unfolding run_op.simps UpdateMarket update_market_def
    by (intro step_rules) (simp add: version_step_next)
next
  case (UpdatePosition p st)
  then show ?thesis
    unfolding run_op.simps UpdatePosition update_position_def
    by (intro step_rules) (simp add: version_step_next)
next
  case (UpdatePendingOrder po k)
  then show ?thesis
    unfolding run_op.simps UpdatePendingOrder update_pending_order_def
    by (intro step_rules) (simp add: version_step_next)
next
  case ClearPendingOrder
  then show ?thesis
    unfolding run_op.simps ClearPendingOrder clear_pending_order_def
    by (intro step_rules) (simp add: version_step_next)
next
  case (ApplyPatch cs)
  then show ?thesis
    unfolding run_op.simps ApplyPatch apply_runtime_patch_def by (intro step_rules)
next
  case (ApplyResult r)
  then show ?thesis
    unfolding run_op.simps ApplyResult apply_trading_stm_result_def by (intro step_rules)
next
  case (OpenLower a)
  then show ?thesis
    unfolding run_op.simps OpenLower context_open_lower_event_def by (intro step_rules)
next
  case (CloseLower rs)
  then show ?thesis
    unfolding run_op.simps CloseLower context_close_lower_event_def by (intro step_rules)
next
  case (ResetCaseB b)
  then show ?thesis
    unfolding run_op.simps ResetCaseB reset_case_b_context_def Let_def by (intro step_rules)
next
  case (ResetCaseC b b')
  then show ?thesis
    unfolding run_op.simps ResetCaseC reset_case_c_context_def Let_def by (intro step_rules)
qed

lemma run_op_step: "run_op op x = Inr y \<Longrightarrow> version_step x y"
  using steps_from_op [of x op] by (simp add: steps_from_def)

lemma run_op_owner: "run_op op x = Inr y \<Longrightarrow> tx_checkpoint_owner y = tx_checkpoint_owner x"
  using run_op_step [of op x y] by (simp add: version_step_def)

lemma reachable_owner: "reachable token x \<Longrightarrow> tx_checkpoint_owner x = token"
  by (induction rule: reachable.induct) (auto simp: new_context_def dest: run_op_owner)

lemma checkpoint_inverse:
  "tx_checkpoint_owner y = tx_checkpoint_owner x \<Longrightarrow>
     restore_checkpoint (create_checkpoint x) y = Inr x"
  by (simp add: restore_checkpoint_def create_checkpoint_def)

section \<open>Snapshots and decisions\<close>

lemma snapshot_of_ok:
  assumes "context_ok x" "is_aware t"
  obtains c where "context_snapshot t x = Inr c" "view_ok c" "cv_version c = tx_version x"
    "cv_runtime c = tx_runtime x" "cv_market c = tx_market x" "cv_position c = tx_position x"
    "cv_pending_order c = tx_pending_order x" "cv_evaluated_at c = t"
  using assms by (auto simp: context_snapshot_def context_ok_def make_view_def view_ok_def)

text \<open>
  A decision on a snapshot applies to the context it was taken from, when no order is pending.
\<close>

lemma decision_applies:
  assumes "context_ok x" "context_snapshot t x = Inr c" "result_ok s e c r" "event_ok e"
    and "tx_pending_order x = None"
  obtains y where "apply_trading_stm_result r x = Inr y" "context_ok y"
proof -
  have c: "cv_version c = tx_version x" "cv_market c = tx_market x" "cv_evaluated_at c = t"
    "is_aware t"
    using assms(2) by (auto simp: context_snapshot_def ebind_eq_Inr make_view_def split: if_splits)
  have "inputs_ok e c"
    using assms(1,4) c by (simp add: inputs_ok_def context_ok_def)
  then have safe: "\<forall>cs. PatchRuntimeContext cs \<in> set (sr_actions r) \<longrightarrow> patch_safe cs"
    using assms(3) by (simp add: result_ok_def)
  have rt: "runtime_ok (tx_runtime x)" "rt_pending_order_id (tx_runtime x) = None"
    using assms(1,5) by (simp_all add: context_ok_def)
  from safe_patch_all [OF safe rt] obtain n
    where n: "patch_all (sr_actions r) (tx_runtime x) = Inr n" by blast
  have "sr_context_version r = tx_version x"
    using assms(3) c(1) by (simp add: result_ok_def)
  with n assms(5) have "apply_trading_stm_result r x = Inr (replace_runtime n x)"
    by (simp add: apply_trading_stm_result_def validate_pending_alignment_def)
  with that context_ok_result [OF assms(1) safe] show thesis by blast
qed

end
