(* ===== verification/Event_Queue.thy ===== *)
theory Event_Queue
  imports Trading_Stm "HOL-Library.Multiset" "HOL-Library.Product_Lexorder"
begin

text \<open>
  The serial queue of the controller (\<open>SerialEventQueue\<close> of \<open>domain/trading/event_queue.py\<close>).

  The heap is used through \<open>heappush\<close>, \<open>heappop\<close>, \<open>heapify\<close> and plain iteration, which
  promise a least entry on every pop and nothing else; they are modelled by insertion into a list
  sorted by the key of \<open>_QueueEntry\<close>, the pair of priority and sequence number.  The contract
  between the heap and the queue is the locale \<open>priority_heap\<close>.
\<close>

section \<open>The contract of a heap\<close>

locale priority_heap =
  fixes push :: "'e \<Rightarrow> 'h \<Rightarrow> 'h"
    and pop_min :: "'h \<Rightarrow> ('e \<times> 'h) option"
    and content :: "'h \<Rightarrow> 'e multiset"
    and valid :: "'h \<Rightarrow> bool"
    and key :: "'e \<Rightarrow> 'k::linorder"
  assumes push_valid: "valid h \<Longrightarrow> valid (push e h)"
    and push_content: "valid h \<Longrightarrow> content (push e h) = add_mset e (content h)"
    and pop_None: "valid h \<Longrightarrow> pop_min h = None \<longleftrightarrow> content h = {#}"
    and pop_valid: "valid h \<Longrightarrow> pop_min h = Some (e, h') \<Longrightarrow> valid h'"
    and pop_content: "valid h \<Longrightarrow> pop_min h = Some (e, h') \<Longrightarrow> content h = add_mset e (content h')"
    and pop_least: "valid h \<Longrightarrow> pop_min h = Some (e, h') \<Longrightarrow> x \<in># content h \<Longrightarrow> key e \<le> key x"
begin

lemma pop_size: "valid h \<Longrightarrow> pop_min h = Some (e, h') \<Longrightarrow> size (content h) = Suc (size (content h'))"
  by (simp add: pop_content)

lemma pop_total: "valid h \<Longrightarrow> content h \<noteq> {#} \<Longrightarrow> \<exists>e h'. pop_min h = Some (e, h')"
  using pop_None by (cases "pop_min h") auto

text \<open>With distinct keys the next entry is determined by the content alone.\<close>

lemma pop_unique:
  assumes "valid h" "pop_min h = Some (e, h')" "x \<in># content h"
    and "\<forall>y\<in>#content h. key x \<le> key y" "inj_on key (set_mset (content h))"
  shows "e = x"
proof -
  have e: "e \<in># content h" using pop_content [OF assms(1,2)] by simp
  have "key e = key x" using pop_least [OF assms(1,2,3)] assms(4) e by (simp add: order_antisym)
  with assms(3,5) e show ?thesis by (simp add: inj_on_def)
qed

text \<open>What is pushed and popped before anything smaller comes back unchanged.\<close>

lemma push_pop_restores:
  assumes "valid h" "pop_min h = Some (e, h')"
  shows "content (push e h') = content h" "valid (push e h')"
  using assms by (simp_all add: pop_content push_content pop_valid push_valid)

text \<open>Taking all entries out lists them in the order of their keys.\<close>

fun pops :: "nat \<Rightarrow> 'h \<Rightarrow> 'e list" where
  "pops 0 h = []"
| "pops (Suc n) h = (case pop_min h of None \<Rightarrow> [] | Some (e, h') \<Rightarrow> e # pops n h')"

lemma pops_content: "valid h \<Longrightarrow> size (content h) \<le> n \<Longrightarrow> mset (pops n h) = content h"
proof (induction n arbitrary: h)
  case (Suc n)
  show ?case
  proof (cases "pop_min h")
    case None
    then have "content h = {#}" using pop_None [OF Suc.prems(1)] by simp
    with None show ?thesis by simp
  next
    case (Some p)
    then obtain e h' where p: "pop_min h = Some (e, h')" by (cases p) auto
    with Suc.prems pop_size have "size (content h') \<le> n" by fastforce
    with Suc.IH pop_valid [OF Suc.prems(1) p] pop_content [OF Suc.prems(1) p] p
    show ?thesis by simp
  qed
qed simp

lemma pops_members: "valid h \<Longrightarrow> x \<in> set (pops n h) \<Longrightarrow> x \<in># content h"
proof (induction n arbitrary: h)
  case (Suc n)
  obtain e h' where p: "pop_min h = Some (e, h')" "x = e \<or> x \<in> set (pops n h')"
    using Suc.prems(2) by (cases "pop_min h") auto
  from Suc.IH [OF pop_valid [OF Suc.prems(1) p(1)]] p(2) pop_content [OF Suc.prems(1) p(1)]
  show ?case by auto
qed simp

lemma pops_sorted: "valid h \<Longrightarrow> sorted_wrt (\<lambda>x y. key x \<le> key y) (pops n h)"
proof (induction n arbitrary: h)
  case (Suc n)
  show ?case
  proof (cases "pop_min h")
    case (Some p)
    then obtain e h' where p: "pop_min h = Some (e, h')" by (cases p) auto
    note v = pop_valid [OF Suc.prems p]
    have "\<forall>y\<in>set (pops n h'). key e \<le> key y"
      using pops_members [OF v] pop_least [OF Suc.prems p] pop_content [OF Suc.prems p] by simp
    with Suc.IH [OF v] p show ?thesis by simp
  qed simp
qed simp

end

section \<open>The queue\<close>

record queue_entry =
  qn_priority :: int
  qn_sequence :: int
  qn_event :: trading_event

record event_queue =
  eq_heap :: "queue_entry list"
  eq_next_sequence :: int
  eq_seen_event_ids :: "string set"
  eq_highest_market_version :: int
  eq_last_claimed_market :: "trading_event option"
  eq_max_pending :: nat
  eq_max_seen :: nat

definition entry_key :: "queue_entry \<Rightarrow> int \<times> int" where
  "entry_key n = (qn_priority n, qn_sequence n)"

definition create_queue :: "int \<Rightarrow> int \<Rightarrow> event_queue res" where
  "create_queue max_pending max_seen =
     ebind (require (1 \<le> max_pending) ValueError) (\<lambda>_.
     ebind (require (1 \<le> max_seen) ValueError) (\<lambda>_.
     Inr \<lparr>eq_heap = [], eq_next_sequence = 1, eq_seen_event_ids = {},
       eq_highest_market_version = 0, eq_last_claimed_market = None,
       eq_max_pending = nat max_pending, eq_max_seen = nat max_seen\<rparr>))"

fun heappush :: "queue_entry \<Rightarrow> queue_entry list \<Rightarrow> queue_entry list" where
  "heappush n [] = [n]"
| "heappush n (x # xs) = (if entry_key n < entry_key x then n # x # xs else x # heappush n xs)"

definition heappop :: "queue_entry list \<Rightarrow> (queue_entry \<times> queue_entry list) option" where
  "heappop h = (case h of [] \<Rightarrow> None | n # ns \<Rightarrow> Some (n, ns))"

definition entry_of :: "trading_event \<Rightarrow> int \<Rightarrow> queue_entry" where
  "entry_of e n = \<lparr>qn_priority = priority_value (ev_priority e), qn_sequence = n, qn_event = e\<rparr>"

definition is_market_event :: "trading_event \<Rightarrow> bool" where
  "is_market_event e \<longleftrightarrow> ev_market_evaluation e \<noteq> None \<and> ev_market_version e \<noteq> None"

text \<open>The counters and identities are consumed before the constructor check of an internal event.\<close>

definition accept_identity :: "trading_event \<Rightarrow> event_queue \<Rightarrow> event_queue" where
  "accept_identity e q =
     (let q1 = q\<lparr>eq_next_sequence := eq_next_sequence q + 1\<rparr> in
      if is_market_event e then q1\<lparr>eq_highest_market_version := the (ev_market_version e)\<rparr>
      else q1\<lparr>eq_seen_event_ids := insert (the (ev_event_id e)) (eq_seen_event_ids q)\<rparr>)"

definition enqueue ::
  "trading_event \<Rightarrow> bool \<Rightarrow> event_queue \<Rightarrow> trading_event option res \<times> event_queue" where
  "enqueue event internal q =
     (let n = eq_next_sequence q;
          e = with_queue_identity event n in
      if is_market_event e \<and> the (ev_market_version e) \<le> eq_highest_market_version q
      then (Inr None, q)
      else if the (ev_event_id e) \<in> eq_seen_event_ids q then (Inr None, q)
      else if eq_max_pending q \<le> length (eq_heap q) then (Inl EventQueueCapacityError, q)
      else if \<not> is_market_event e \<and> eq_max_seen q \<le> card (eq_seen_event_ids q)
      then (Inl EventQueueCapacityError, q)
      else
        let q1 = accept_identity e q in
        case (if internal then make_event (e\<lparr>ev_priority := INTERNAL\<rparr>) else Inr e) of
          Inl err \<Rightarrow> (Inl err, q1)
        | Inr queued \<Rightarrow>
            (Inr (Some queued), q1\<lparr>eq_heap := heappush (entry_of queued n) (eq_heap q1)\<rparr>))"

definition pop_event :: "event_queue \<Rightarrow> trading_event option \<times> event_queue" where
  "pop_event q =
     (case heappop (eq_heap q) of
        None \<Rightarrow> (None, q)
      | Some (n, ns) \<Rightarrow>
          (Some (qn_event n),
           q\<lparr>eq_heap := ns,
             eq_last_claimed_market :=
               (if ev_market_evaluation (qn_event n) \<noteq> None then Some (qn_event n) else None)\<rparr>))"

text \<open>Events compare field by field; the market evaluation compares up to the sign of zero.\<close>

definition event_same :: "trading_event \<Rightarrow> trading_event \<Rightarrow> bool" where
  "event_same a b \<longleftrightarrow>
     a\<lparr>ev_market_evaluation := map_option market_norm (ev_market_evaluation a)\<rparr> =
     b\<lparr>ev_market_evaluation := map_option market_norm (ev_market_evaluation b)\<rparr>"

definition is_last_claimed :: "trading_event \<Rightarrow> event_queue \<Rightarrow> bool" where
  "is_last_claimed e q \<longleftrightarrow>
     (case eq_last_claimed_market q of None \<Rightarrow> False | Some m \<Rightarrow> event_same e m)"

definition id_seen :: "trading_event \<Rightarrow> event_queue \<Rightarrow> bool" where
  "id_seen e q \<longleftrightarrow>
     (case ev_event_id e of None \<Rightarrow> False | Some i \<Rightarrow> i \<in> eq_seen_event_ids q)"

definition restore_claimed :: "trading_event \<Rightarrow> event_queue \<Rightarrow> unit res \<times> event_queue" where
  "restore_claimed e q =
     (if \<not> is_last_claimed e q \<and> \<not> id_seen e q then (Inl ValueError, q)
      else if list_ex (\<lambda>n. ev_event_id (qn_event n) = ev_event_id e) (eq_heap q)
      then (Inl ValueError, q)
      else (Inr (), q\<lparr>eq_heap := heappush (entry_of e (ev_sequence_number e)) (eq_heap q)\<rparr>))"

definition survives_discard :: "queue_entry \<Rightarrow> bool" where
  "survives_discard n \<longleftrightarrow>
     ev_type (qn_event n) \<in> set order_outcome_events \<or> ev_priority (qn_event n) = USER_COMMAND"

definition discard_market_work :: "event_queue \<Rightarrow> int \<times> event_queue" where
  "discard_market_work q =
     (let kept = filter survives_discard (eq_heap q) in
      (int (length (eq_heap q)) - int (length kept), q\<lparr>eq_heap := kept\<rparr>))"

definition clear_queue :: "event_queue \<Rightarrow> int \<times> event_queue" where
  "clear_queue q = (int (length (eq_heap q)), q\<lparr>eq_heap := []\<rparr>)"

definition queue_length :: "event_queue \<Rightarrow> nat" where
  "queue_length q = length (eq_heap q)"

section \<open>The sorted list is a heap\<close>

definition heap_sorted :: "queue_entry list \<Rightarrow> bool" where
  "heap_sorted h \<longleftrightarrow> sorted_wrt (\<lambda>x y. entry_key x \<le> entry_key y) h"

lemma heappush_mset [simp]: "mset (heappush n h) = add_mset n (mset h)"
  by (induction h) auto

lemma heappush_set [simp]: "set (heappush n h) = insert n (set h)"
  by (induction h) auto

lemma heappush_length [simp]: "length (heappush n h) = Suc (length h)"
  by (induction h) auto

lemma heappush_sorted: "heap_sorted h \<Longrightarrow> heap_sorted (heappush n h)"
  unfolding heap_sorted_def
proof (induction h)
  case (Cons x xs)
  then show ?case by (auto simp: not_less intro: order_trans less_imp_le)
qed simp

interpretation hq: priority_heap heappush heappop mset heap_sorted entry_key
proof
  show "heap_sorted h \<Longrightarrow> heap_sorted (heappush e h)" for e h by (rule heappush_sorted)
qed (auto simp: heappop_def heap_sorted_def split: list.splits)

section \<open>Runs of a queue\<close>

text \<open>
  A consumer claims at most one event at a time and may restore the one it holds.  A run is a
  sequence of queue operations together with the claimed event.
\<close>

inductive queue_step ::
  "event_queue \<times> trading_event option \<Rightarrow> event_queue \<times> trading_event option \<Rightarrow> bool" where
  enqueue: "event_ok e \<Longrightarrow> queue_step (q, cl) (snd (enqueue e internal q), cl)"
| pop: "pop_event q = (r, q') \<Longrightarrow> queue_step (q, cl) (q', r)"
| restore: "restore_claimed e q = (Inr (), q') \<Longrightarrow> queue_step (q, Some e) (q', None)"
| discard: "queue_step (q, cl) (snd (discard_market_work q), cl)"
| clear: "queue_step (q, cl) (snd (clear_queue q), cl)"

inductive queue_run :: "event_queue \<Rightarrow> trading_event option \<Rightarrow> bool" where
  create: "create_queue a b = Inr q \<Longrightarrow> queue_run q None"
| step: "queue_run q cl \<Longrightarrow> queue_step (q, cl) (q', cl') \<Longrightarrow> queue_run q' cl'"

text \<open>An event the queue has issued: an identity below the counter, known to the deduplication.\<close>

definition issued :: "event_queue \<Rightarrow> trading_event \<Rightarrow> bool" where
  "issued q e \<longleftrightarrow>
     event_ok e \<and> 1 \<le> ev_sequence_number e \<and> ev_sequence_number e < eq_next_sequence q \<and>
     (if is_market_event e then the (ev_market_version e) \<le> eq_highest_market_version q
      else ev_event_id e \<noteq> None \<and> the (ev_event_id e) \<in> eq_seen_event_ids q)"

definition queue_inv :: "event_queue \<Rightarrow> trading_event option \<Rightarrow> bool" where
  "queue_inv q cl \<longleftrightarrow>
     heap_sorted (eq_heap q) \<and>
     (\<forall>n\<in>set (eq_heap q). n = entry_of (qn_event n) (ev_sequence_number (qn_event n)) \<and>
        issued q (qn_event n)) \<and>
     distinct (map qn_sequence (eq_heap q)) \<and>
     (\<forall>e. cl = Some e \<longrightarrow> issued q e \<and> ev_sequence_number e \<notin> qn_sequence ` set (eq_heap q)) \<and>
     1 \<le> eq_next_sequence q \<and> 0 \<le> eq_highest_market_version q \<and>
     finite (eq_seen_event_ids q) \<and> card (eq_seen_event_ids q) \<le> eq_max_seen q \<and>
     length (eq_heap q) + (if cl = None then 0 else 1) \<le> Suc (eq_max_pending q)"

lemma distinct_heappush [simp]:
  "distinct (map f (heappush n h)) \<longleftrightarrow> f n \<notin> f ` set h \<and> distinct (map f h)"
proof -
  have "distinct (map f (heappush n h)) = distinct (map f (n # h))"
    by (rule mset_eq_imp_distinct_iff) simp
  then show ?thesis by simp
qed

lemma entry_of_sel [simp]:
  "qn_sequence (entry_of e n) = n" "qn_event (entry_of e n) = e"
  "qn_priority (entry_of e n) = priority_value (ev_priority e)"
  by (simp_all add: entry_of_def)

lemma queue_identity_sel [simp]:
  "ev_sequence_number (with_queue_identity e n) = n"
  "ev_event_id (with_queue_identity e n) \<noteq> None"
  "ev_type (with_queue_identity e n) = ev_type e"
  "is_market_event (with_queue_identity e n) = is_market_event e"
  "ev_market_version (with_queue_identity e n) = ev_market_version e"
  "ev_market_evaluation (with_queue_identity e n) = ev_market_evaluation e"
  "ev_priority (with_queue_identity e n) = ev_priority e"
  by (simp_all add: with_queue_identity_def is_market_event_def)

subsection \<open>Enqueueing\<close>

lemma internal_event_ok:
  assumes "event_ok e" "0 \<le> n"
  shows "event_ok ((with_queue_identity e n)\<lparr>ev_priority := INTERNAL\<rparr>) \<longleftrightarrow> \<not> is_market_event e"
  using assms
  by (auto simp: event_ok_def with_queue_identity_def is_market_event_def split: option.splits)

text \<open>The event stored by an accepted enqueue.\<close>

definition stored_event :: "trading_event \<Rightarrow> bool \<Rightarrow> int \<Rightarrow> trading_event" where
  "stored_event e internal n =
     (if internal then (with_queue_identity e n)\<lparr>ev_priority := INTERNAL\<rparr>
      else with_queue_identity e n)"

lemma stored_event_sel [simp]:
  "ev_sequence_number (stored_event e i n) = n"
  "ev_event_id (stored_event e i n) = ev_event_id (with_queue_identity e n)"
  "is_market_event (stored_event e i n) = is_market_event e"
  "ev_market_version (stored_event e i n) = ev_market_version e"
  by (simp_all add: stored_event_def is_market_event_def with_queue_identity_def)

text \<open>
  The four ways an enqueue ends.  A market event that is queued as internal consumes a sequence
  number and its version and then raises, because such an event must keep the market priority.
\<close>

lemma enqueue_cases:
  assumes ok: "event_ok e" "1 \<le> eq_next_sequence q"
  obtains (duplicate) "enqueue e internal q = (Inr None, q)"
  | (full) "enqueue e internal q = (Inl EventQueueCapacityError, q)"
  | (refused) "internal" "is_market_event e" "length (eq_heap q) < eq_max_pending q"
      "the (ev_market_version e) > eq_highest_market_version q"
      "enqueue e internal q =
        (Inl ValueError, accept_identity (with_queue_identity e (eq_next_sequence q)) q)"
  | (accepted) "enqueue e internal q = (Inr (Some (stored_event e internal (eq_next_sequence q))),
        accept_identity (with_queue_identity e (eq_next_sequence q)) q
          \<lparr>eq_heap := heappush (entry_of (stored_event e internal (eq_next_sequence q))
             (eq_next_sequence q)) (eq_heap q)\<rparr>)"
      "event_ok (stored_event e internal (eq_next_sequence q))"
      "length (eq_heap q) < eq_max_pending q"
      "is_market_event e \<longrightarrow> the (ev_market_version e) > eq_highest_market_version q"
      "\<not> is_market_event e \<longrightarrow> card (eq_seen_event_ids q) < eq_max_seen q"
      "the (ev_event_id (with_queue_identity e (eq_next_sequence q))) \<notin> eq_seen_event_ids q"
proof -
  let ?n = "eq_next_sequence q" let ?e = "with_queue_identity e ?n"
  have heap: "eq_heap (accept_identity ?e q) = eq_heap q"
    by (simp add: accept_identity_def Let_def)
  consider (old) "is_market_event e" "the (ev_market_version e) \<le> eq_highest_market_version q"
    | (seen) "the (ev_event_id ?e) \<in> eq_seen_event_ids q"
    | (cap) "eq_max_pending q \<le> length (eq_heap q) \<or>
        \<not> is_market_event e \<and> eq_max_seen q \<le> card (eq_seen_event_ids q)"
      "\<not> (is_market_event e \<and> the (ev_market_version e) \<le> eq_highest_market_version q)"
      "the (ev_event_id ?e) \<notin> eq_seen_event_ids q"
    | (new) "\<not> (is_market_event e \<and> the (ev_market_version e) \<le> eq_highest_market_version q)"
      "the (ev_event_id ?e) \<notin> eq_seen_event_ids q" "length (eq_heap q) < eq_max_pending q"
      "\<not> is_market_event e \<longrightarrow> card (eq_seen_event_ids q) < eq_max_seen q"
    by (meson not_le)
  then show thesis
  proof cases
    case old
    then show thesis by (intro duplicate) (simp add: enqueue_def Let_def)
  next
    case seen
    then show thesis by (intro duplicate) (simp add: enqueue_def Let_def)
  next
    case cap
    then show thesis by (intro full) (auto simp: enqueue_def Let_def)
  next
    case new
    have base: "event_ok ?e" using ok by (simp add: event_ok_queue_identity)
    show thesis
    proof (cases "internal \<and> is_market_event e")
      case True
      then have "\<not> event_ok (?e\<lparr>ev_priority := INTERNAL\<rparr>)"
        using internal_event_ok [OF ok(1)] ok(2) by simp
      with True new show thesis
        by (intro refused) (simp_all add: enqueue_def Let_def make_event_def)
    next
      case False
      have stored: "event_ok (stored_event e internal ?n)"
        using False base internal_event_ok [OF ok(1)] ok(2) by (simp add: stored_event_def)
      then have "(if internal then make_event (?e\<lparr>ev_priority := INTERNAL\<rparr>) else Inr ?e) =
          Inr (stored_event e internal ?n)"
        by (simp add: stored_event_def make_event_def split: if_splits)
      with new stored show thesis
        by (intro accepted) (auto simp: enqueue_def Let_def heap not_le)
    qed
  qed
qed

lemma accept_identity_sel [simp]:
  "eq_heap (accept_identity e q) = eq_heap q"
  "eq_next_sequence (accept_identity e q) = eq_next_sequence q + 1"
  "eq_max_pending (accept_identity e q) = eq_max_pending q"
  "eq_max_seen (accept_identity e q) = eq_max_seen q"
  "eq_last_claimed_market (accept_identity e q) = eq_last_claimed_market q"
  "eq_seen_event_ids (accept_identity e q) =
     (if is_market_event e then eq_seen_event_ids q
      else insert (the (ev_event_id e)) (eq_seen_event_ids q))"
  "eq_highest_market_version (accept_identity e q) =
     (if is_market_event e then the (ev_market_version e) else eq_highest_market_version q)"
  by (simp_all add: accept_identity_def Let_def)

text \<open>Growing identities keep every issued event issued.\<close>

lemma issued_mono:
  assumes "issued q e" "eq_next_sequence q \<le> eq_next_sequence q'"
    "eq_highest_market_version q \<le> eq_highest_market_version q'"
    "eq_seen_event_ids q \<subseteq> eq_seen_event_ids q'"
  shows "issued q' e"
  using assms by (auto simp: issued_def split: if_splits)

text \<open>The identities of a queue only grow.\<close>

definition identities_grow :: "event_queue \<Rightarrow> event_queue \<Rightarrow> bool" where
  "identities_grow q q' \<longleftrightarrow>
     eq_next_sequence q \<le> eq_next_sequence q' \<and>
     eq_highest_market_version q \<le> eq_highest_market_version q' \<and>
     eq_seen_event_ids q \<subseteq> eq_seen_event_ids q' \<and>
     eq_max_pending q' = eq_max_pending q \<and> eq_max_seen q' = eq_max_seen q"

lemma grow_accept:
  assumes "is_market_event e \<longrightarrow> the (ev_market_version e) > eq_highest_market_version q"
  shows "identities_grow q (accept_identity e q)"
  using assms by (auto simp: identities_grow_def)

lemma enqueue_grows:
  assumes "event_ok e" "1 \<le> eq_next_sequence q"
  shows "identities_grow q (snd (enqueue e internal q))"
  using assms
proof (cases rule: enqueue_cases [of e q internal])
  case refused
  with grow_accept [of "with_queue_identity e (eq_next_sequence q)" q] show ?thesis by simp
next
  case accepted
  with grow_accept [of "with_queue_identity e (eq_next_sequence q)" q] show ?thesis
    by (simp add: identities_grow_def)
qed (simp_all add: identities_grow_def)

section \<open>The invariant\<close>

lemma queue_inv_accept:
  assumes inv: "queue_inv q cl"
    and new: "is_market_event e \<longrightarrow> the (ev_market_version e) > eq_highest_market_version q"
      "\<not> is_market_event e \<longrightarrow> card (eq_seen_event_ids q) < eq_max_seen q"
  shows "queue_inv (accept_identity e q) cl"
proof -
  have grow: "identities_grow q (accept_identity e q)" using new(1) by (rule grow_accept)
  have kept: "issued (accept_identity e q) x" if "issued q x" for x
    using issued_mono [OF that] grow by (auto simp: identities_grow_def)
  have "card (eq_seen_event_ids (accept_identity e q)) \<le> eq_max_seen q"
    using inv new(2) by (auto simp: queue_inv_def card_insert_if)
  with inv kept new(1) show ?thesis by (auto simp: queue_inv_def)
qed

lemma queue_inv_push:
  assumes inv: "queue_inv q cl" and e: "issued q e" "entry_ok = entry_of e (ev_sequence_number e)"
    and room: "ev_sequence_number e \<notin> qn_sequence ` set (eq_heap q)"
      "\<forall>x. cl = Some x \<longrightarrow> ev_sequence_number x \<noteq> ev_sequence_number e"
      "Suc (length (eq_heap q)) + (if cl = None then 0 else 1) \<le> Suc (eq_max_pending q)"
  shows "queue_inv (q\<lparr>eq_heap := heappush entry_ok (eq_heap q)\<rparr>) cl"
proof -
  have same: "issued (q\<lparr>eq_heap := h\<rparr>) x = issued q x" for h x by (simp add: issued_def)
  show ?thesis
    using assms by (auto simp: queue_inv_def same heappush_sorted)
qed

lemma queue_inv_enqueue:
  assumes inv: "queue_inv q cl" and e: "event_ok e"
  shows "queue_inv (snd (enqueue e internal q)) cl"
proof -
  have pos: "1 \<le> eq_next_sequence q" using inv by (simp add: queue_inv_def)
  let ?n = "eq_next_sequence q" let ?e = "with_queue_identity e ?n"
  from e pos show ?thesis
  proof (cases rule: enqueue_cases [of e q internal])
    case refused
    then have "queue_inv (accept_identity ?e q) cl" by (intro queue_inv_accept [OF inv]) simp_all
    with refused show ?thesis by simp
  next
    case accepted
    let ?q1 = "accept_identity ?e q" let ?s = "stored_event e internal ?n"
    have q1: "queue_inv ?q1 cl" using accepted by (intro queue_inv_accept [OF inv]) simp_all
    have "issued ?q1 ?s" using accepted pos by (simp add: issued_def)
    moreover have "\<forall>n\<in>set (eq_heap q). qn_sequence n < ?n"
      using inv by (auto simp: queue_inv_def issued_def) (metis entry_of_sel(1))
    moreover have "\<forall>x. cl = Some x \<longrightarrow> ev_sequence_number x < ?n"
      using inv by (auto simp: queue_inv_def issued_def)
    ultimately have "queue_inv (?q1\<lparr>eq_heap := heappush (entry_of ?s ?n) (eq_heap ?q1)\<rparr>) cl"
      using accepted(3) by (intro queue_inv_push [OF q1, where e = ?s]) auto
    with accepted(1) show ?thesis by simp
  qed (use inv in simp_all)
qed

lemma queue_inv_create: "create_queue a b = Inr q \<Longrightarrow> queue_inv q None"
  by (auto simp: create_queue_def ebind_eq_Inr queue_inv_def heap_sorted_def)

lemma heappop_eq: "heappop h = Some (n, ns) \<longleftrightarrow> h = n # ns"
  by (auto simp: heappop_def split: list.splits)

lemma pop_event_cases:
  assumes "pop_event q = (r, q')"
  obtains (empty) "eq_heap q = []" "r = None" "q' = q"
  | (entry) n ns where "eq_heap q = n # ns" "r = Some (qn_event n)"
      "q' = q\<lparr>eq_heap := ns, eq_last_claimed_market :=
        (if ev_market_evaluation (qn_event n) \<noteq> None then Some (qn_event n) else None)\<rparr>"
  using assms by (auto simp: pop_event_def heappop_def split: list.splits)

lemma queue_inv_pop:
  assumes inv: "queue_inv q cl" and pop: "pop_event q = (r, q')"
  shows "queue_inv q' r"
  using pop
proof (cases rule: pop_event_cases)
  case empty
  with inv show ?thesis by (auto simp: queue_inv_def split: if_splits)
next
  case (entry n ns)
  have same: "issued (q\<lparr>eq_heap := h, eq_last_claimed_market := m\<rparr>) x = issued q x" for h m x
    by (simp add: issued_def)
  have n: "qn_sequence n = ev_sequence_number (qn_event n)"
    using inv entry(1) unfolding queue_inv_def by (metis entry_of_sel(1) list.set_intros(1))
  show ?thesis
    using inv entry n by (auto simp: queue_inv_def same heap_sorted_def split: if_splits)
qed

lemma queue_inv_filter:
  assumes "queue_inv q cl"
  shows "queue_inv (q\<lparr>eq_heap := filter P (eq_heap q)\<rparr>) cl"
proof -
  have same: "issued (q\<lparr>eq_heap := h\<rparr>) x = issued q x" for h x by (simp add: issued_def)
  have "length (filter P (eq_heap q)) \<le> length (eq_heap q)" by simp
  with assms show ?thesis
    by (auto simp: queue_inv_def same heap_sorted_def sorted_wrt_filter distinct_map_filter
        simp del: length_filter_le)
qed

lemma queue_inv_step:
  assumes "queue_step a b" "queue_inv (fst a) (snd a)"
  shows "queue_inv (fst b) (snd b)"
  using assms
proof (induction rule: queue_step.induct)
  case (enqueue e q cl internal)
  then show ?case by (simp add: queue_inv_enqueue)
next
  case (pop q r q' cl)
  then show ?case by (simp add: queue_inv_pop)
next
  case (restore e q q')
  then have inv: "queue_inv q (Some e)" by simp
  have q': "q' = q\<lparr>eq_heap := heappush (entry_of e (ev_sequence_number e)) (eq_heap q)\<rparr>"
    using restore.hyps by (auto simp: restore_claimed_def split: if_splits)
  have "queue_inv q None" using inv by (simp add: queue_inv_def)
  moreover have "issued q e" "ev_sequence_number e \<notin> qn_sequence ` set (eq_heap q)"
    "Suc (length (eq_heap q)) \<le> Suc (eq_max_pending q)"
    using inv by (simp_all add: queue_inv_def)
  ultimately have "queue_inv q' None"
    unfolding q' by (intro queue_inv_push) simp_all
  then show ?case by simp
next
  case (discard q cl)
  then show ?case by (simp add: discard_market_work_def Let_def queue_inv_filter)
next
  case (clear q cl)
  then show ?case using queue_inv_filter [of q cl "\<lambda>_. False"] by (simp add: clear_queue_def)
qed

lemma queue_run_inv: "queue_run q cl \<Longrightarrow> queue_inv q cl"
proof (induction rule: queue_run.induct)
  case (create a b q)
  then show ?case by (rule queue_inv_create)
next
  case (step q cl q' cl')
  from queue_inv_step [OF step(2)] step(3) show ?case by simp
qed

section \<open>What a run guarantees\<close>

lemma pop_strictly_least:
  assumes "queue_inv q cl" "pop_event q = (Some e, q')" "n \<in> set (eq_heap q')"
  shows "(priority_value (ev_priority e), ev_sequence_number e) < entry_key n"
  using assms(2)
proof (cases rule: pop_event_cases)
  case (entry m ns)
  have m: "m = entry_of e (ev_sequence_number e)" and "n \<in> set ns"
    using assms(1,3) entry by (auto simp: queue_inv_def)
  have "entry_key m \<le> entry_key n"
    using assms(1) entry \<open>n \<in> set ns\<close> by (auto simp: queue_inv_def heap_sorted_def)
  moreover have "qn_sequence m \<noteq> qn_sequence n"
    using assms(1) entry \<open>n \<in> set ns\<close> by (auto simp: queue_inv_def)
  ultimately show ?thesis by (simp add: m entry_key_def less_le)
qed simp

lemma heappush_least: "\<forall>x\<in>set ns. entry_key n < entry_key x \<Longrightarrow> heappush n ns = n # ns"
  by (cases ns) auto

text \<open>
  Restoring the event that was just claimed puts the heap back, unless another queued event bears
  the same identifier.
\<close>

lemma restore_inverse:
  assumes inv: "queue_inv q cl" and pop: "pop_event q = (Some e, q')"
    and fresh: "\<forall>n\<in>set (eq_heap q'). ev_event_id (qn_event n) \<noteq> ev_event_id e"
  shows "restore_claimed e q' = (Inr (), q'\<lparr>eq_heap := eq_heap q\<rparr>)"
  using pop
proof (cases rule: pop_event_cases)
  case (entry n ns)
  have n: "n = entry_of e (ev_sequence_number e)" "issued q e"
    using inv entry by (auto simp: queue_inv_def)
  have least: "\<forall>x\<in>set ns. entry_key n < entry_key x"
    using pop_strictly_least [OF inv pop] entry(3) n(1) by (simp add: entry_key_def)
  have known: "is_last_claimed e q' \<or> id_seen e q'"
  proof (cases "is_market_event e")
    case True
    then show ?thesis
      using entry n by (simp add: is_last_claimed_def is_market_event_def event_same_def)
  next
    case False
    then show ?thesis using n(2) entry(3) by (auto simp: issued_def id_seen_def)
  qed
  have "\<not> list_ex (\<lambda>m. ev_event_id (qn_event m) = ev_event_id e) (eq_heap q')"
    using fresh by (auto simp: list_ex_iff)
  moreover have "heappush (entry_of e (ev_sequence_number e)) ns = n # ns"
    using heappush_least [OF least] n(1) by simp
  ultimately show ?thesis
    using known entry by (simp add: restore_claimed_def)
qed simp

text \<open>
  A market event that was rewritten after the claim is not the claimed one any more, and market
  events leave no identity behind: it cannot be restored.
\<close>

lemma rewritten_market_event_lost:
  assumes "pop_event q = (Some e, q')" "\<not> event_same e' e" "\<not> id_seen e' q'"
  shows "restore_claimed e' q' = (Inl ValueError, q')"
  using assms(1)
proof (cases rule: pop_event_cases)
  case (entry n ns)
  with assms(2,3) show ?thesis by (auto simp: restore_claimed_def is_last_claimed_def)
qed simp

lemma queue_step_grows:
  assumes "queue_step a b" "queue_inv (fst a) (snd a)"
  shows "identities_grow (fst a) (fst b)"
  using assms
proof (induction rule: queue_step.induct)
  case (enqueue e q cl internal)
  then show ?case by (simp add: enqueue_grows queue_inv_def)
next
  case (pop q r q' cl)
  from pop.hyps show ?case by (cases rule: pop_event_cases) (simp_all add: identities_grow_def)
next
  case (restore e q q')
  then show ?case by (auto simp: restore_claimed_def identities_grow_def split: if_splits)
qed (simp_all add: discard_market_work_def clear_queue_def Let_def identities_grow_def)

lemma identities_grow_trans: "identities_grow q r \<Longrightarrow> identities_grow r s \<Longrightarrow> identities_grow q s"
  by (auto simp: identities_grow_def)

lemma queue_steps_grow:
  assumes "queue_step\<^sup>*\<^sup>* a b" "queue_inv (fst a) (snd a)"
  shows "identities_grow (fst a) (fst b) \<and> queue_inv (fst b) (snd b)"
  using assms
proof (induction rule: rtranclp_induct)
  case base
  then show ?case by (simp add: identities_grow_def)
next
  case (step y z)
  then show ?case
    using queue_step_grows [OF step(2)] queue_inv_step [OF step(2)] identities_grow_trans by blast
qed

text \<open>What an accepted event is given, and what the queue remembers of it.\<close>

lemma enqueue_accepted:
  assumes "enqueue e internal q = (Inr (Some e'), q')" "event_ok e" "1 \<le> eq_next_sequence q"
  shows "ev_sequence_number e' = eq_next_sequence q \<and>
    eq_next_sequence q' = eq_next_sequence q + 1 \<and> ev_type e' = ev_type e \<and>
    mset (eq_heap q') = add_mset (entry_of e' (ev_sequence_number e')) (mset (eq_heap q)) \<and>
    (is_market_event e \<longrightarrow> eq_highest_market_version q < the (ev_market_version e) \<and>
       eq_highest_market_version q' = the (ev_market_version e)) \<and>
    (\<not> is_market_event e \<longrightarrow> the (ev_event_id e') \<in> eq_seen_event_ids q') \<and>
    length (eq_heap q') \<le> eq_max_pending q"
  using assms(2,3)
proof (cases rule: enqueue_cases [of e q internal])
  case accepted
  have "e' = stored_event e internal (eq_next_sequence q)"
    "q' = accept_identity (with_queue_identity e (eq_next_sequence q)) q
          \<lparr>eq_heap := heappush (entry_of (stored_event e internal (eq_next_sequence q))
             (eq_next_sequence q)) (eq_heap q)\<rparr>"
    using assms(1) accepted(1) by auto
  moreover have "ev_type (stored_event e internal (eq_next_sequence q)) = ev_type e"
    by (simp add: stored_event_def)
  ultimately show ?thesis
    using accepted(3,4) by simp
qed (use assms(1) in simp_all)

text \<open>An explicit identifier that has been accepted once is refused for the rest of the session.\<close>

lemma enqueue_seen:
  assumes "ev_event_id e = Some (c # cs)" "c # cs \<in> eq_seen_event_ids q"
  shows "enqueue e internal q = (Inr None, q)"
  using assms by (simp add: enqueue_def Let_def with_queue_identity_def)

end
