(* ===== verification/Event_Processor.thy ===== *)
theory Event_Processor
  imports Event_Queue
begin

text \<open>
  The run-to-completion processor (\<open>RunToCompletionEventProcessor\<close> of
  \<open>domain/trading/event_queue.py\<close>): one call claims one event, lets the state machine decide on
  a snapshot, executes the whole batch of actions, and queues what they produced.

  The callbacks are parameters over a world \<open>'w\<close> of everything outside the processor.  A read of
  the context threads the world, so that two reads may see different versions; this is how a
  concurrent change of the context appears here.  An executor that returns \<open>None\<close> returns \<open>[]\<close>.
\<close>

section \<open>Stateful steps\<close>

type_synonym ('a, 's) step = "'s \<Rightarrow> 'a res \<times> 's"

definition sreturn :: "'a \<Rightarrow> ('a, 's) step" where
  "sreturn x s = (Inr x, s)"

definition sraise :: "py_error \<Rightarrow> ('a, 's) step" where
  "sraise err s = (Inl err, s)"

definition sbind :: "('a, 's) step \<Rightarrow> ('a \<Rightarrow> ('b, 's) step) \<Rightarrow> ('b, 's) step" where
  "sbind m f s = (case m s of (Inl err, s') \<Rightarrow> (Inl err, s') | (Inr x, s') \<Rightarrow> f x s')"

section \<open>The processor\<close>

record 'w callbacks =
  cb_provide_context :: "(context_view, 'w) step"
  cb_execute_action :: "trading_action \<Rightarrow> (trading_event list, 'w) step"
  cb_clock :: "(timestamp, 'w) step"
  cb_order_finished_observer :: "(trading_event \<Rightarrow> context_view \<Rightarrow> (unit, 'w) step) option"
  cb_event_processing_observer :: "(trading_event option \<Rightarrow> (unit, 'w) step) option"
  cb_event_context_preparer :: "(trading_event \<Rightarrow> (trading_event, 'w) step) option"
  cb_result_observer :: "(stm_result \<Rightarrow> context_view \<Rightarrow> (unit, 'w) step) option"

record 'w processor =
  pr_stm :: trading_stm
  pr_queue :: event_queue
  pr_processing :: bool
  pr_world :: 'w

definition in_world :: "('a, 'w) step \<Rightarrow> ('a, 'w processor) step" where
  "in_world m p = (case m (pr_world p) of (r, w) \<Rightarrow> (r, p\<lparr>pr_world := w\<rparr>))"

definition in_queue :: "('a, event_queue) step \<Rightarrow> ('a, 'w processor) step" where
  "in_queue m p = (case m (pr_queue p) of (r, q) \<Rightarrow> (r, p\<lparr>pr_queue := q\<rparr>))"

definition in_stm :: "('a, trading_stm) step \<Rightarrow> ('a, 'w processor) step" where
  "in_stm m p = (case m (pr_stm p) of (r, s) \<Rightarrow> (r, p\<lparr>pr_stm := s\<rparr>))"

text \<open>An optional callback that is missing does nothing.\<close>

definition optional :: "('f \<Rightarrow> (unit, 'w) step) \<Rightarrow> 'f option \<Rightarrow> (unit, 'w processor) step" where
  "optional call f = (case f of None \<Rightarrow> sreturn () | Some g \<Rightarrow> in_world (call g))"

definition is_stale_lower_event :: "trading_event \<Rightarrow> context_view \<Rightarrow> bool" where
  "is_stale_lower_event e c \<longleftrightarrow>
     ev_type e \<notin> {LOGIC_STARTED, STOP_CONFIRMED, FORCE_SELL_FINISHED, FORCE_SELL_FAILED} \<and>
     ev_lower_event_id e \<noteq> None \<and> rt_lower_event_id (cv_runtime c) \<noteq> None \<and>
     ev_lower_event_id e \<noteq> rt_lower_event_id (cv_runtime c)"

text \<open>The batch: every action reaches the executor in order, queue requests are set aside.\<close>

fun run_actions ::
  "'w callbacks \<Rightarrow> trading_action list \<Rightarrow>
   (queue_event_request list \<times> trading_event list, 'w processor) step" where
  "run_actions cb [] = sreturn ([], [])"
| "run_actions cb (a # acts) =
     sbind (in_world (cb_execute_action cb a)) (\<lambda>events.
     sbind (run_actions cb acts) (\<lambda>(queued, returned).
     sreturn (case a of QueueEvent q \<Rightarrow> q # queued | _ \<Rightarrow> queued, events @ returned)))"

definition follow_up ::
  "queue_event_request \<Rightarrow> timestamp \<Rightarrow> context_view \<Rightarrow> trading_event \<Rightarrow> trading_event" where
  "follow_up q now latest e = (basic_event (qe_type q) now)
     \<lparr>ev_priority := INTERNAL,
      ev_lower_event_id := py_or (qe_lower_event_id q)
        (py_or (rt_lower_event_id (cv_runtime latest)) (ev_lower_event_id e)),
      ev_candle_id := qe_candle_id q, ev_order_id := qe_order_id q, ev_payload := qe_payload q\<rparr>"

fun enqueue_requests ::
  "'w callbacks \<Rightarrow> queue_event_request list \<Rightarrow> context_view \<Rightarrow> trading_event \<Rightarrow>
   (unit, 'w processor) step" where
  "enqueue_requests cb [] latest e = sreturn ()"
| "enqueue_requests cb (q # qs) latest e =
     sbind (in_world (cb_clock cb)) (\<lambda>now.
     case make_event (follow_up q now latest e) of
       Inl err \<Rightarrow> sraise err
     | Inr f \<Rightarrow> sbind (in_queue (enqueue f True)) (\<lambda>_. enqueue_requests cb qs latest e))"

fun enqueue_returned :: "trading_event list \<Rightarrow> (unit, 'w processor) step" where
  "enqueue_returned [] = sreturn ()"
| "enqueue_returned (e # es) =
     sbind (in_queue (enqueue e True)) (\<lambda>_. enqueue_returned es)"

text \<open>The decision: order outcomes pass through \<open>order_finished\<close>.\<close>

definition decide :: "trading_event \<Rightarrow> context_view \<Rightarrow> (stm_result, 'w processor) step" where
  "decide e c =
     in_stm (if ev_type e \<in> set order_outcome_events
       then (\<lambda>m. stm_order_finished m e c) else (\<lambda>m. stm_handle m e c))"

definition undo_decision ::
  "stm_result \<Rightarrow> trading_event \<Rightarrow> (stm_result option, 'w processor) step" where
  "undo_decision r e =
     sbind (in_stm (\<lambda>m. rollback_unpublished_result m r)) (\<lambda>_.
     sbind (in_queue (restore_claimed e)) (\<lambda>_. sraise ContextVersionError))"

definition publish ::
  "'w callbacks \<Rightarrow> stm_result \<Rightarrow> trading_event \<Rightarrow> context_view \<Rightarrow>
   (stm_result option, 'w processor) step" where
  "publish cb r e c =
     sbind (if ev_type e \<in> set order_outcome_events
            then optional (\<lambda>f. f e c) (cb_order_finished_observer cb) else sreturn ()) (\<lambda>_.
     sbind (run_actions cb (sr_actions r)) (\<lambda>(queued, returned).
     sbind (in_world (cb_provide_context cb)) (\<lambda>latest.
     sbind (enqueue_requests cb queued latest e) (\<lambda>_.
     sbind (enqueue_returned returned) (\<lambda>_.
     sbind (optional (\<lambda>f. f r c) (cb_result_observer cb)) (\<lambda>_. sreturn (Some r)))))))"

text \<open>The body of the \<open>try\<close>.\<close>

definition process_event ::
  "'w callbacks \<Rightarrow> trading_event \<Rightarrow> (stm_result option, 'w processor) step" where
  "process_event cb claimed =
     sbind (case cb_event_context_preparer cb of
              None \<Rightarrow> sreturn claimed
            | Some f \<Rightarrow> in_world (f claimed)) (\<lambda>e.
     sbind (in_world (cb_provide_context cb)) (\<lambda>c.
     if is_stale_lower_event e c then sreturn None
     else sbind (optional (\<lambda>f. f (Some e)) (cb_event_processing_observer cb)) (\<lambda>_.
     sbind (decide e c) (\<lambda>r.
     sbind (in_world (cb_provide_context cb)) (\<lambda>now.
     if cv_version now \<noteq> sr_context_version r then undo_decision r e
     else publish cb r e c)))))"

text \<open>The \<open>finally\<close>: the flag is reset, and the observer is told that processing has ended.\<close>

definition finish_processing ::
  "'w callbacks \<Rightarrow> 'a res \<Rightarrow> ('a, 'w processor) step" where
  "finish_processing cb r p =
     (case optional (\<lambda>f. f None) (cb_event_processing_observer cb) (p\<lparr>pr_processing := False\<rparr>) of
        (Inl err, p') \<Rightarrow> (Inl err, p')
      | (Inr _, p') \<Rightarrow> (r, p'))"

definition process_next :: "'w callbacks \<Rightarrow> (stm_result option, 'w processor) step" where
  "process_next cb p =
     (if pr_processing p then (Inl ReentrantProcessingError, p)
      else case pop_event (pr_queue p) of
        (None, q) \<Rightarrow> (Inr None, p\<lparr>pr_queue := q\<rparr>)
      | (Some e, q) \<Rightarrow>
          (case process_event cb e (p\<lparr>pr_queue := q, pr_processing := True\<rparr>) of
             (r, p') \<Rightarrow> finish_processing cb r p'))"

fun drain :: "'w callbacks \<Rightarrow> nat \<Rightarrow> stm_result list \<Rightarrow> (stm_result list, 'w processor) step" where
  "drain cb 0 results p = (Inl RuntimeError, p)"
| "drain cb (Suc n) results p =
     (if queue_length (pr_queue p) = 0 then (Inr results, p)
      else sbind (process_next cb)
        (\<lambda>r. drain cb n (results @ (case r of None \<Rightarrow> [] | Some x \<Rightarrow> [x]))) p)"

section \<open>Reasoning about steps\<close>

text \<open>A step from \<open>P\<close> returns a value and a state in \<open>Q\<close>, or raises in a state of \<open>E\<close>.\<close>

definition valid :: "('s \<Rightarrow> bool) \<Rightarrow> ('a, 's) step \<Rightarrow> ('a \<Rightarrow> 's \<Rightarrow> bool) \<Rightarrow> ('s \<Rightarrow> bool) \<Rightarrow> bool" where
  "valid P m Q E \<longleftrightarrow>
     (\<forall>s. P s \<longrightarrow> (case m s of (Inl err, s') \<Rightarrow> E s' | (Inr x, s') \<Rightarrow> Q x s'))"

lemma valid_sreturn: "(\<And>s. P s \<Longrightarrow> Q x s) \<Longrightarrow> valid P (sreturn x) Q E"
  by (simp add: valid_def sreturn_def)

lemma valid_sraise: "(\<And>s. P s \<Longrightarrow> E s) \<Longrightarrow> valid P (sraise err) Q E"
  by (simp add: valid_def sraise_def)

lemma valid_sbind:
  assumes "valid P m R E" "\<And>x. valid (R x) (f x) Q E"
  shows "valid P (sbind m f) Q E"
  unfolding valid_def
proof (intro allI impI)
  fix s
  assume "P s"
  with assms(1) have m: "case m s of (Inl err, s') \<Rightarrow> E s' | (Inr x, s') \<Rightarrow> R x s'"
    by (simp add: valid_def)
  show "case sbind m f s of (Inl err, s') \<Rightarrow> E s' | (Inr x, s') \<Rightarrow> Q x s'"
  proof (cases "m s")
    case (Pair r s')
    then show ?thesis
      using m assms(2) by (cases r) (auto simp: sbind_def valid_def)
  qed
qed

lemma valid_if:
  "(b \<Longrightarrow> valid P m Q E) \<Longrightarrow> (\<not> b \<Longrightarrow> valid P n Q E) \<Longrightarrow> valid P (if b then m else n) Q E"
  by simp

lemma valid_weaken:
  assumes "valid P m Q E" "\<And>s. P' s \<Longrightarrow> P s" "\<And>x s. Q x s \<Longrightarrow> Q' x s" "\<And>s. E s \<Longrightarrow> E' s"
  shows "valid P' m Q' E'"
  unfolding valid_def
proof (intro allI impI)
  fix s
  assume "P' s"
  with assms(1,2) have "case m s of (Inl err, s') \<Rightarrow> E s' | (Inr x, s') \<Rightarrow> Q x s'"
    by (simp add: valid_def)
  with assms(3,4) show "case m s of (Inl err, s') \<Rightarrow> E' s' | (Inr x, s') \<Rightarrow> Q' x s'"
    by (simp split: prod.splits sum.splits)
qed

lemma validD:
  assumes "valid P m Q E" "P s"
  shows "m s = (Inr x, s') \<Longrightarrow> Q x s'" "m s = (Inl err, s') \<Longrightarrow> E s'"
  using assms by (auto simp: valid_def dest!: spec [of _ s])

section \<open>The invariant of the processor\<close>

text \<open>
  The callbacks hand over well-formed events, and a preparer keeps what the queue knows of an event:
  its identifier, sequence number and version.
\<close>

definition same_identity :: "trading_event \<Rightarrow> trading_event \<Rightarrow> bool" where
  "same_identity e e' \<longleftrightarrow>
     event_ok e' \<and> ev_event_id e' = ev_event_id e \<and>
     ev_sequence_number e' = ev_sequence_number e \<and>
     is_market_event e' = is_market_event e \<and> ev_market_version e' = ev_market_version e"

definition callbacks_ok :: "'w callbacks \<Rightarrow> bool" where
  "callbacks_ok cb \<longleftrightarrow>
     (\<forall>a w es. fst (cb_execute_action cb a w) = Inr es \<longrightarrow> list_all event_ok es) \<and>
     (\<forall>f e w e'. cb_event_context_preparer cb = Some f \<longrightarrow> event_ok e \<longrightarrow>
        fst (f e w) = Inr e' \<longrightarrow> same_identity e e')"

definition processor_inv :: "trading_event option \<Rightarrow> 'w processor \<Rightarrow> bool" where
  "processor_inv cl p \<longleftrightarrow> stm_ok (pr_stm p) \<and> queue_inv (pr_queue p) cl"

text \<open>Dropping the claim only relaxes the invariant.\<close>

lemma queue_inv_drop: "queue_inv q cl \<Longrightarrow> queue_inv q None"
  by (auto simp: queue_inv_def split: if_splits)

lemma processor_inv_drop: "processor_inv cl p \<Longrightarrow> processor_inv None p"
  by (auto simp: processor_inv_def dest: queue_inv_drop)

lemma queue_inv_claim:
  assumes "queue_inv q (Some e)" "same_identity e e'"
  shows "queue_inv q (Some e')"
  using assms by (auto simp: queue_inv_def same_identity_def issued_def)

lemma valid_world:
  assumes "\<And>w x. fst (m w) = Inr x \<Longrightarrow> Q x"
  shows "valid (processor_inv cl) (in_world m) (\<lambda>x p. processor_inv cl p \<and> Q x) (processor_inv cl)"
  unfolding valid_def
proof (intro allI impI)
  fix p :: "'a processor"
  assume "processor_inv cl p"
  then show "case in_world m p of (Inl err, p') \<Rightarrow> processor_inv cl p'
    | (Inr x, p') \<Rightarrow> processor_inv cl p' \<and> Q x"
    using assms [of "pr_world p"]
    by (auto simp: in_world_def processor_inv_def split: prod.splits sum.splits)
qed

lemma valid_world_plain:
  "valid (processor_inv cl) (in_world m) (\<lambda>x. processor_inv cl) (processor_inv cl)"
  by (auto simp: valid_def in_world_def processor_inv_def split: prod.splits sum.splits)

lemma valid_optional:
  "valid (processor_inv cl) (optional call f) (\<lambda>x. processor_inv cl) (processor_inv cl)"
  by (cases f) (simp_all add: optional_def valid_world_plain valid_sreturn)

lemma valid_enqueue:
  assumes "event_ok e"
  shows "valid (processor_inv cl) (in_queue (enqueue e b)) (\<lambda>x. processor_inv cl) (processor_inv cl)"
  using queue_inv_enqueue [OF _ assms, of _ cl b]
  by (auto simp: valid_def in_queue_def processor_inv_def split: prod.splits sum.splits)
    (metis snd_conv)+

lemma valid_enqueue_returned:
  "list_all event_ok es \<Longrightarrow>
   valid (processor_inv cl) (enqueue_returned es) (\<lambda>x. processor_inv cl) (processor_inv cl)"
proof (induction es)
  case Nil
  then show ?case by (simp add: valid_sreturn)
next
  case (Cons e es)
  then show ?case by (auto intro!: valid_sbind valid_enqueue)
qed

lemma valid_enqueue_requests:
  "valid (processor_inv cl) (enqueue_requests cb qs latest e) (\<lambda>x. processor_inv cl) (processor_inv cl)"
proof (induction qs)
  case Nil
  then show ?case by (simp add: valid_sreturn)
next
  case (Cons q qs)
  have "valid (processor_inv cl)
      (case make_event (follow_up q now latest e) of Inl err \<Rightarrow> sraise err
       | Inr f \<Rightarrow> sbind (in_queue (enqueue f True)) (\<lambda>_. enqueue_requests cb qs latest e))
      (\<lambda>x. processor_inv cl) (processor_inv cl)" for now
    using Cons.IH
    by (auto simp: make_event_def intro!: valid_sraise valid_sbind valid_enqueue)
  then show ?case by (auto intro!: valid_sbind valid_world_plain)
qed

lemma valid_run_actions:
  assumes "callbacks_ok cb"
  shows "valid (processor_inv cl) (run_actions cb acts)
    (\<lambda>x p. processor_inv cl p \<and> list_all event_ok (snd x)) (processor_inv cl)"
proof (induction acts)
  case Nil
  then show ?case by (simp add: valid_sreturn)
next
  case (Cons a acts)
  have "valid (\<lambda>p. processor_inv cl p \<and> list_all event_ok events)
      (sbind (run_actions cb acts) (\<lambda>(queued, returned).
         sreturn (case a of QueueEvent q \<Rightarrow> q # queued | _ \<Rightarrow> queued, events @ returned)))
      (\<lambda>x p. processor_inv cl p \<and> list_all event_ok (snd x)) (processor_inv cl)" for events
  proof (cases "list_all event_ok events")
    case True
    then have "valid (processor_inv cl)
      (sbind (run_actions cb acts) (\<lambda>(queued, returned).
         sreturn (case a of QueueEvent q \<Rightarrow> q # queued | _ \<Rightarrow> queued, events @ returned)))
      (\<lambda>x p. processor_inv cl p \<and> list_all event_ok (snd x)) (processor_inv cl)"
      by (intro valid_sbind [OF Cons.IH]) (auto intro!: valid_sreturn split: prod.splits)
    with True show ?thesis by simp
  qed (simp add: valid_def)
  then show ?case
    unfolding run_actions.simps
    using assms by (intro valid_sbind [OF valid_world [where Q = "list_all event_ok"]])
      (auto simp: callbacks_ok_def)
qed

text \<open>\<open>order_finished\<close> is \<open>handle\<close> on the outcomes it accepts.\<close>

lemma decide_eq:
  "decide e c p = (case stm_handle (pr_stm p) e c of (r, m) \<Rightarrow> (r, p\<lparr>pr_stm := m\<rparr>))"
  by (simp add: decide_def in_stm_def stm_order_finished_def)

lemma decide_config:
  assumes "stm_ok m" "stm_handle m e c = (Inr r, m')"
  shows "config_ok (sr_state_before r)"
  using assms(1)
proof (cases rule: stm_handle_cases [of m e c])
  case (result r')
  then have "r' = r" using assms(2) by simp
  with result(4) assms(1) show ?thesis by (simp add: result_ok_def stm_ok_def)
qed (use assms(2) in simp_all)

lemma valid_decide:
  "valid (processor_inv cl) (decide e c)
     (\<lambda>r p. processor_inv cl p \<and> config_ok (sr_state_before r)) (processor_inv cl)"
  unfolding valid_def
proof (intro allI impI)
  fix p :: "'a processor"
  assume inv: "processor_inv cl p"
  obtain r m where h: "stm_handle (pr_stm p) e c = (r, m)" by fastforce
  have "stm_ok m" using stm_handle_ok [of "pr_stm p" e c] inv h by (simp add: processor_inv_def)
  with inv h decide_config [of "pr_stm p" e c] show
    "case decide e c p of (Inl err, p') \<Rightarrow> processor_inv cl p'
      | (Inr x, p') \<Rightarrow> processor_inv cl p' \<and> config_ok (sr_state_before x)"
    by (cases r) (auto simp: decide_eq processor_inv_def)
qed

lemma valid_drop: "valid P m Q (processor_inv cl) \<Longrightarrow> valid P m Q (processor_inv None)"
  by (rule valid_weaken [where P = P and Q = Q and E = "processor_inv cl"])
    (auto dest: processor_inv_drop)

lemma valid_rollback:
  assumes "config_ok (sr_state_before r)"
  shows "valid (processor_inv cl) (in_stm (\<lambda>m. rollback_unpublished_result m r))
    (\<lambda>_. processor_inv cl) (processor_inv cl)"
  using assms by (auto simp: valid_def in_stm_def rollback_unpublished_result_def processor_inv_def
    stm_ok_def)

lemma valid_restore:
  "valid (processor_inv (Some e)) (in_queue (restore_claimed e))
     (\<lambda>_. processor_inv None) (processor_inv None)"
  unfolding valid_def
proof (intro allI impI)
  fix p :: "'a processor"
  assume inv: "processor_inv (Some e) p"
  obtain r q where res: "restore_claimed e (pr_queue p) = (r, q)" by fastforce
  have "queue_inv q None"
  proof (cases r)
    case (Inl err)
    then have "q = pr_queue p" using res by (simp add: restore_claimed_def split: if_splits)
    with inv show ?thesis by (auto simp: processor_inv_def dest: queue_inv_drop)
  next
    case (Inr u)
    then have "queue_step (pr_queue p, Some e) (q, None)"
      using res by (auto intro: queue_step.restore)
    from queue_inv_step [OF this] inv show ?thesis by (simp add: processor_inv_def)
  qed
  with inv res show "case in_queue (restore_claimed e) p of (Inl err, p') \<Rightarrow> processor_inv None p'
      | (Inr x, p') \<Rightarrow> processor_inv None p'"
    by (cases r) (simp_all add: in_queue_def processor_inv_def)
qed

lemma valid_undo:
  assumes "config_ok (sr_state_before r)"
  shows "valid (processor_inv (Some e)) (undo_decision r e)
    (\<lambda>_. processor_inv None) (processor_inv None)"
  unfolding undo_decision_def
  by (rule valid_sbind [OF valid_drop [OF valid_rollback [OF assms]]],
      rule valid_sbind [OF valid_restore]) (simp add: valid_sraise)

lemma valid_publish:
  assumes "callbacks_ok cb"
  shows "valid (processor_inv cl) (publish cb r e c) (\<lambda>_. processor_inv cl) (processor_inv cl)"
proof -
  have tail: "valid (\<lambda>p. processor_inv cl p \<and> list_all event_ok (snd x))
      (case x of (queued, returned) \<Rightarrow>
         sbind (in_world (cb_provide_context cb)) (\<lambda>latest.
         sbind (enqueue_requests cb queued latest e) (\<lambda>_.
         sbind (enqueue_returned returned) (\<lambda>_.
         sbind (optional (\<lambda>f. f r c) (cb_result_observer cb)) (\<lambda>_. sreturn (Some r))))))
      (\<lambda>_. processor_inv cl) (processor_inv cl)" for x
  proof (cases "list_all event_ok (snd x)")
    case True
    then show ?thesis
      by (cases x) (auto intro!: valid_sbind [OF valid_world_plain]
        valid_sbind [OF valid_enqueue_requests] valid_sbind [OF valid_enqueue_returned]
        valid_sbind [OF valid_optional] valid_sreturn)
  qed (simp add: valid_def)
  show ?thesis
    unfolding publish_def
    by (rule valid_sbind, rule valid_if, rule valid_optional, rule valid_sreturn, assumption)
      (rule valid_sbind [OF valid_run_actions [OF assms] tail])
qed

lemma valid_process_event:
  assumes cb: "callbacks_ok cb" and ok: "event_ok claimed"
  shows "valid (processor_inv (Some claimed)) (process_event cb claimed)
    (\<lambda>_. processor_inv None) (processor_inv None)"
proof -
  have claim: "same_identity claimed e \<Longrightarrow> processor_inv (Some claimed) p \<Longrightarrow>
      processor_inv (Some e) p" for e and p :: "'a processor"
    by (auto simp: processor_inv_def dest: queue_inv_claim)
  have prepared: "valid (processor_inv (Some claimed))
      (case cb_event_context_preparer cb of None \<Rightarrow> sreturn claimed | Some f \<Rightarrow> in_world (f claimed))
      (\<lambda>e p. processor_inv (Some claimed) p \<and> same_identity claimed e)
      (processor_inv (Some claimed))"
  proof (cases "cb_event_context_preparer cb")
    case None
    with ok show ?thesis by (simp add: valid_sreturn same_identity_def)
  next
    case (Some f)
    have "same_identity claimed x" if "fst (f claimed w) = Inr x" for w x
      using cb ok Some that by (auto simp: callbacks_ok_def)
    then have "valid (processor_inv (Some claimed)) (in_world (f claimed))
      (\<lambda>e p. processor_inv (Some claimed) p \<and> same_identity claimed e)
      (processor_inv (Some claimed))" by (rule valid_world)
    with Some show ?thesis by simp
  qed
  have decided: "valid (\<lambda>p. processor_inv (Some e) p \<and> config_ok (sr_state_before r))
      (sbind (in_world (cb_provide_context cb)) (\<lambda>now.
         if cv_version now \<noteq> sr_context_version r then undo_decision r e else publish cb r e c))
      (\<lambda>_. processor_inv None) (processor_inv None)" for e c r
  proof (cases "config_ok (sr_state_before r)")
    case True
    have "valid (processor_inv (Some e))
      (sbind (in_world (cb_provide_context cb)) (\<lambda>now.
         if cv_version now \<noteq> sr_context_version r then undo_decision r e else publish cb r e c))
      (\<lambda>_. processor_inv None) (processor_inv None)"
    proof (rule valid_sbind [OF valid_drop [OF valid_world_plain]], rule valid_if)
      show "valid (processor_inv (Some e)) (publish cb r e c) (\<lambda>_. processor_inv None)
          (processor_inv None)"
        by (rule valid_weaken [OF valid_publish [OF cb, of "Some e" r e c]])
          (auto dest: processor_inv_drop)
    qed (rule valid_undo [OF True])
    with True show ?thesis by simp
  qed (simp add: valid_def)
  have rest: "valid (\<lambda>p. processor_inv (Some claimed) p \<and> same_identity claimed e)
      (sbind (in_world (cb_provide_context cb)) (\<lambda>c.
         if is_stale_lower_event e c then sreturn None
         else sbind (optional (\<lambda>f. f (Some e)) (cb_event_processing_observer cb)) (\<lambda>_.
         sbind (decide e c) (\<lambda>r.
         sbind (in_world (cb_provide_context cb)) (\<lambda>now.
         if cv_version now \<noteq> sr_context_version r then undo_decision r e
         else publish cb r e c)))))
      (\<lambda>_. processor_inv None) (processor_inv None)" (is "valid ?P ?m ?Q ?E") for e
  proof (rule valid_weaken)
    show "valid (processor_inv (Some e)) ?m ?Q ?E"
      by (rule valid_sbind [OF valid_drop [OF valid_world_plain]], rule valid_if,
          rule valid_sreturn, erule processor_inv_drop,
          rule valid_sbind [OF valid_drop [OF valid_optional]],
          rule valid_sbind [OF valid_drop [OF valid_decide] decided])
  qed (use claim in auto)
  show ?thesis
    unfolding process_event_def by (rule valid_sbind [OF valid_drop [OF prepared] rest])
qed

section \<open>Calls of the processor\<close>

lemma finish_inv:
  assumes "processor_inv None p"
  shows "processor_inv None (snd (finish_processing cb r p))"
    "\<not> pr_processing (snd (finish_processing cb r p))"
  using assms
  by (auto simp: finish_processing_def optional_def sreturn_def in_world_def processor_inv_def
      split: option.splits prod.splits sum.splits)

lemma finish_flag: "\<not> pr_processing (snd (finish_processing cb r p))"
  by (auto simp: finish_processing_def optional_def sreturn_def in_world_def
      split: option.splits prod.splits sum.splits)

lemma process_next_inv:
  assumes cb: "callbacks_ok cb" and inv: "processor_inv None p"
  shows "processor_inv None (snd (process_next cb p))"
proof (cases "pr_processing p")
  case False
  obtain r q where pop: "pop_event (pr_queue p) = (r, q)" by fastforce
  have q: "queue_inv q r" using queue_inv_pop [OF _ pop] inv by (auto simp: processor_inv_def)
  show ?thesis
  proof (cases r)
    case None
    with False pop q inv show ?thesis by (simp add: process_next_def processor_inv_def)
  next
    case (Some e)
    let ?p = "p\<lparr>pr_queue := q, pr_processing := True\<rparr>"
    have start: "processor_inv (Some e) ?p" using inv q Some by (simp add: processor_inv_def)
    have "event_ok e" using q Some by (auto simp: queue_inv_def issued_def)
    then have v: "valid (processor_inv (Some e)) (process_event cb e)
        (\<lambda>_. processor_inv None) (processor_inv None)" by (rule valid_process_event [OF cb])
    obtain x p' where run: "process_event cb e ?p = (x, p')" by fastforce
    have "processor_inv None p'"
      using validD [OF v start] run by (cases x) auto
    then show ?thesis
      using False pop Some run finish_inv(1) by (simp add: process_next_def)
  qed
qed (use inv in \<open>simp add: process_next_def\<close>)

lemma process_next_flag: "\<not> pr_processing p \<Longrightarrow> \<not> pr_processing (snd (process_next cb p))"
  by (simp add: process_next_def finish_flag split: prod.splits option.splits)

text \<open>What the two optional callbacks around a decision do to the world.\<close>

definition prepared_by :: "'w callbacks \<Rightarrow> trading_event \<Rightarrow> (trading_event, 'w) step" where
  "prepared_by cb e = (case cb_event_context_preparer cb of None \<Rightarrow> sreturn e | Some f \<Rightarrow> f e)"

definition observed_by :: "'w callbacks \<Rightarrow> trading_event option \<Rightarrow> (unit, 'w) step" where
  "observed_by cb x = (case cb_event_processing_observer cb of None \<Rightarrow> sreturn () | Some f \<Rightarrow> f x)"

lemma prepared_in_world:
  "(case cb_event_context_preparer cb of None \<Rightarrow> sreturn e | Some f \<Rightarrow> in_world (f e))
    = in_world (prepared_by cb e)"
  by (auto simp: prepared_by_def in_world_def sreturn_def split: option.split)

lemma observed_in_world:
  "optional (\<lambda>f. f x) (cb_event_processing_observer cb) = in_world (observed_by cb x)"
  by (auto simp: observed_by_def optional_def in_world_def sreturn_def split: option.split)

text \<open>
  A change of the context between the two reads: nothing is published, the decision of the state
  machine and the claim are undone, and only the callbacks around the decision leave a trace.
\<close>

lemma race_is_undone:
  assumes inv: "processor_inv None p" "\<not> pr_processing p"
    and pop: "pop_event (pr_queue p) = (Some e, q)"
    and fresh: "\<forall>n\<in>set (eq_heap q). ev_event_id (qn_event n) \<noteq> ev_event_id e"
    and prep: "prepared_by cb e (pr_world p) = (Inr e, w1)"
    and first: "cb_provide_context cb w1 = (Inr c, w2)" "\<not> is_stale_lower_event e c"
    and told: "observed_by cb (Some e) w2 = (Inr (), w3)"
    and decided: "fst (stm_handle (pr_stm p) e c) = Inr r"
    and second: "cb_provide_context cb w3 = (Inr now, w4)" "cv_version now \<noteq> cv_version c"
    and last: "observed_by cb None w4 = (x, w5)"
  shows "process_next cb p = (case x of Inl err \<Rightarrow> Inl err | Inr _ \<Rightarrow> Inl ContextVersionError,
    p\<lparr>pr_queue := q\<lparr>eq_heap := eq_heap (pr_queue p)\<rparr>, pr_world := w5\<rparr>)"
proof -
  obtain m where h: "stm_handle (pr_stm p) e c = (Inr r, m)" using decided by (metis prod.collapse)
  have ok: "stm_ok (pr_stm p)" using inv(1) by (simp add: processor_inv_def)
  have v: "sr_context_version r = cv_version c"
    using ok
  proof (cases rule: stm_handle_cases [of "pr_stm p" e c])
    case (result r')
    then show ?thesis using h by (simp add: result_ok_def)
  qed (use h in simp_all)
  have undone: "rollback_unpublished_result m r = (Inr (), pr_stm p)"
    by (rule rollback_restores [OF ok h])
  have res: "restore_claimed e q = (Inr (), q\<lparr>eq_heap := eq_heap (pr_queue p)\<rparr>)"
    using inv(1) by (intro restore_inverse [where cl = None, OF _ pop fresh]) (simp add: processor_inv_def)
  have "process_event cb e (p\<lparr>pr_queue := q, pr_processing := True\<rparr>) = (Inl ContextVersionError,
      p\<lparr>pr_queue := q\<lparr>eq_heap := eq_heap (pr_queue p)\<rparr>, pr_processing := True, pr_world := w4\<rparr>)"
    by (simp add: process_event_def prepared_in_world observed_in_world sbind_def sraise_def in_world_def
        prep told first second decide_eq h v undo_decision_def in_stm_def in_queue_def undone res)
  with inv(2) pop last show ?thesis
    by (cases x) (simp_all add: process_next_def finish_processing_def observed_in_world in_world_def)
qed

text \<open>
  When the preparer has rewritten a market event, the race ends in a \<open>ValueError\<close>: the decision is
  undone, but the event is gone.
\<close>

lemma race_loses_rewritten_event:
  assumes inv: "processor_inv None p" "\<not> pr_processing p"
    and observer: "cb_event_processing_observer cb = None"
    and prep: "cb_event_context_preparer cb = Some f" "f e (pr_world p) = (Inr e', w0)"
    and pop: "pop_event (pr_queue p) = (Some e, q)"
    and rewritten: "\<not> event_same e' e" "\<not> id_seen e' q"
    and first: "cb_provide_context cb w0 = (Inr c, w)" "\<not> is_stale_lower_event e' c"
    and decided: "fst (stm_handle (pr_stm p) e' c) = Inr r"
    and second: "cb_provide_context cb w = (Inr now, w')" "cv_version now \<noteq> cv_version c"
  shows "process_next cb p = (Inl ValueError, p\<lparr>pr_queue := q, pr_world := w'\<rparr>)"
proof -
  obtain m where h: "stm_handle (pr_stm p) e' c = (Inr r, m)" using decided by (metis prod.collapse)
  have ok: "stm_ok (pr_stm p)" using inv(1) by (simp add: processor_inv_def)
  have v: "sr_context_version r = cv_version c"
    using ok
  proof (cases rule: stm_handle_cases [of "pr_stm p" e' c])
    case (result r')
    then show ?thesis using h by (simp add: result_ok_def)
  qed (use h in simp_all)
  have undone: "rollback_unpublished_result m r = (Inr (), pr_stm p)"
    by (rule rollback_restores [OF ok h])
  have res: "restore_claimed e' q = (Inl ValueError, q)"
    by (rule rewritten_market_event_lost [OF pop rewritten])
  have "process_event cb e (p\<lparr>pr_queue := q, pr_processing := True\<rparr>) = (Inl ValueError,
      p\<lparr>pr_queue := q, pr_processing := True, pr_world := w'\<rparr>)"
    by (simp add: process_event_def sbind_def sreturn_def sraise_def optional_def observer prep
        in_world_def first second decide_eq h v undo_decision_def in_stm_def in_queue_def undone res)
  with inv(2) pop observer show ?thesis
    by (simp add: process_next_def finish_processing_def optional_def sreturn_def)
qed

text \<open>A stale event costs nothing but its place in the queue.\<close>

lemma stale_is_dropped:
  assumes "\<not> pr_processing p" "pop_event (pr_queue p) = (Some e, q)"
    and "cb_event_context_preparer cb = None" "cb_event_processing_observer cb = None"
    and "cb_provide_context cb (pr_world p) = (Inr c, w)" "is_stale_lower_event e c"
  shows "process_next cb p = (Inr None, p\<lparr>pr_queue := q, pr_world := w\<rparr>)"
  using assms
  by (simp add: process_next_def process_event_def sbind_def sreturn_def in_world_def
      finish_processing_def optional_def)

subsection \<open>Draining\<close>

lemma drain_returns_empty:
  "drain cb n results p = (Inr out, p') \<Longrightarrow>
   queue_length (pr_queue p') = 0 \<and> (\<exists>more. out = results @ more \<and> length more < Suc n)"
proof (induction n arbitrary: results p)
  case (Suc n)
  show ?case
  proof (cases "queue_length (pr_queue p) = 0")
    case False
    then obtain r p1 where
      r: "drain cb n (results @ (case r of None \<Rightarrow> [] | Some x \<Rightarrow> [x])) p1 = (Inr out, p')"
      using Suc.prems by (auto simp: sbind_def split: prod.splits sum.splits)
    from Suc.IH [OF r] obtain more where "queue_length (pr_queue p') = 0"
        "out = results @ (case r of None \<Rightarrow> [] | Some x \<Rightarrow> [x]) @ more" "length more < Suc n"
      by auto
    then show ?thesis
      by (intro conjI exI [of _ "(case r of None \<Rightarrow> [] | Some x \<Rightarrow> [x]) @ more"])
        (auto split: option.splits)
  qed (use Suc.prems in auto)
qed simp

text \<open>
  Some microsteps in a row: each starts with an event in the queue and returns, and the results
  other than \<open>None\<close> are collected.
\<close>

primrec microsteps ::
  "'w callbacks \<Rightarrow> nat \<Rightarrow> 'w processor \<Rightarrow> stm_result list \<Rightarrow> 'w processor \<Rightarrow> bool" where
  "microsteps cb 0 p out p' \<longleftrightarrow> out = [] \<and> p' = p"
| "microsteps cb (Suc k) p out p' \<longleftrightarrow> eq_heap (pr_queue p) \<noteq> [] \<and>
     (\<exists>x p1 more. process_next cb p = (Inr x, p1) \<and> microsteps cb k p1 more p' \<and>
        out = (case x of None \<Rightarrow> [] | Some r \<Rightarrow> [r]) @ more)"

lemma microsteps_results: "microsteps cb k p out p' \<Longrightarrow> length out \<le> k"
  by (induction k arbitrary: p out) (fastforce split: option.splits)+

lemma drain_step:
  assumes "eq_heap (pr_queue p) \<noteq> []" "process_next cb p = (Inr x, p1)"
  shows "drain cb (Suc n) results p = drain cb n (results @ (case x of None \<Rightarrow> [] | Some r \<Rightarrow> [r])) p1"
  using assms by (simp add: queue_length_def sbind_def)

lemma drain_returns_iff:
  "drain cb n results p = (Inr out, p') \<longleftrightarrow>
   (\<exists>k more. k < n \<and> microsteps cb k p more p' \<and> eq_heap (pr_queue p') = [] \<and> out = results @ more)"
proof (induction n arbitrary: results p)
  case (Suc n)
  show ?case
  proof (cases "eq_heap (pr_queue p) = []")
    case True
    have "microsteps cb k p more p' \<longleftrightarrow> k = 0 \<and> more = [] \<and> p' = p" for k more
      using True by (cases k) auto
    then show ?thesis using True by (auto simp: queue_length_def)
  next
    case False
    show ?thesis
    proof (cases "process_next cb p")
      case (Pair y p1)
      show ?thesis
      proof (cases y)
        case (Inl err)
        have "\<not> (microsteps cb k p more p' \<and> eq_heap (pr_queue p') = [])" for k more
          using False Pair Inl by (cases k) auto
        then show ?thesis using False Pair Inl by (auto simp: queue_length_def sbind_def)
      next
        case (Inr x)
        let ?xs = "case x of None \<Rightarrow> [] | Some r \<Rightarrow> [r]"
        have step: "microsteps cb k p more p' \<and> eq_heap (pr_queue p') = [] \<longleftrightarrow>
            (\<exists>j rest. k = Suc j \<and> more = ?xs @ rest \<and> microsteps cb j p1 rest p' \<and> eq_heap (pr_queue p') = [])"
          for k more using False Pair Inr by (cases k) auto
        show ?thesis
          unfolding drain_step [OF False Pair [unfolded Inr]] Suc.IH
        proof (intro iffI)
          assume "\<exists>k more. k < n \<and> microsteps cb k p1 more p' \<and> eq_heap (pr_queue p') = [] \<and>
            out = (results @ ?xs) @ more"
          then obtain k more where "k < n" "microsteps cb k p1 more p'" "eq_heap (pr_queue p') = []"
            "out = results @ ?xs @ more" by auto
          then show "\<exists>k more. k < Suc n \<and> microsteps cb k p more p' \<and> eq_heap (pr_queue p') = [] \<and>
            out = results @ more"
            using step [of "Suc k" "?xs @ more"] by (intro exI [of _ "Suc k"] exI [of _ "?xs @ more"]) simp
        qed (use step in fastforce)
      qed
    qed
  qed
qed simp

lemma drain_raises_iff:
  "drain cb n results p = (Inl err, p') \<longleftrightarrow>
   err = RuntimeError \<and> (\<exists>more. microsteps cb n p more p') \<or>
   (\<exists>k more p1. k < n \<and> microsteps cb k p more p1 \<and> eq_heap (pr_queue p1) \<noteq> [] \<and>
      process_next cb p1 = (Inl err, p'))"
proof (induction n arbitrary: results p)
  case (Suc n)
  have split: "(\<exists>k more p1. k < Suc n \<and> microsteps cb k p more p1 \<and> eq_heap (pr_queue p1) \<noteq> [] \<and>
      process_next cb p1 = (Inl err, p')) \<longleftrightarrow>
    eq_heap (pr_queue p) \<noteq> [] \<and> (process_next cb p = (Inl err, p') \<or>
      (\<exists>x q. process_next cb p = (Inr x, q) \<and> (\<exists>k more p1. k < n \<and> microsteps cb k q more p1 \<and>
         eq_heap (pr_queue p1) \<noteq> [] \<and> process_next cb p1 = (Inl err, p'))))" (is "?l = ?r")
  proof
    assume ?l
    then obtain k more p1 where k: "k < Suc n" "microsteps cb k p more p1" "eq_heap (pr_queue p1) \<noteq> []"
      "process_next cb p1 = (Inl err, p')" by blast
    show ?r
    proof (cases k)
      case (Suc j)
      with k(2) obtain x q rest where "eq_heap (pr_queue p) \<noteq> []" "process_next cb p = (Inr x, q)"
        "microsteps cb j q rest p1" by auto
      with k(1,3,4) Suc show ?thesis by auto
    qed (use k in auto)
  next
    assume ?r
    then consider (now) "eq_heap (pr_queue p) \<noteq> []" "process_next cb p = (Inl err, p')"
      | (later) x q k more p1 where "eq_heap (pr_queue p) \<noteq> []" "process_next cb p = (Inr x, q)" "k < n"
        "microsteps cb k q more p1" "eq_heap (pr_queue p1) \<noteq> []" "process_next cb p1 = (Inl err, p')" by blast
    then show ?l
    proof cases
      case now
      then show ?thesis by (intro exI [of _ 0]) simp
    next
      case later
      then show ?thesis by (intro exI [of _ "Suc k"]) auto
    qed
  qed
  show ?case
  proof (cases "eq_heap (pr_queue p) = []")
    case True
    then show ?thesis unfolding split by (simp add: queue_length_def)
  next
    case False
    show ?thesis
    proof (cases "process_next cb p")
      case (Pair y p1)
      show ?thesis
      proof (cases y)
        case (Inl e)
        then show ?thesis unfolding split using False Pair by (auto simp: queue_length_def sbind_def)
      next
        case (Inr x)
        show ?thesis
          unfolding split drain_step [OF False Pair [unfolded Inr]] Suc.IH using False Pair Inr by auto
      qed
    qed
  qed
qed auto

lemma drain_inv:
  assumes "callbacks_ok cb" "processor_inv None p"
  shows "processor_inv None (snd (drain cb n results p))"
  using assms(2)
proof (induction n arbitrary: results p)
  case (Suc n)
  have "processor_inv None (snd (process_next cb p))"
    by (rule process_next_inv [OF assms(1) Suc.prems])
  with Suc show ?case
    by (auto simp: sbind_def split: prod.splits sum.splits)
qed simp

end
