(* ===== verification/Sample_Inputs.thy ===== *)
theory Sample_Inputs
  imports Trading_Context Event_Processor
begin

text \<open>
  Concrete machines, views, events, queues and processors at which the properties are applied.
\<close>

section \<open>Markets and views\<close>

text \<open>A quiet market inside the bands 100 and 110.\<close>

definition quiet_market :: market_snapshot where
  "quiet_market = default_market\<lparr>mk_realtime_price := Fin 105, mk_lower_band := Fin 100,
     mk_upper_band := Fin 110, mk_realtime_pct_b := Fin (1 / 2), mk_touch_candle_bbw := Fin (1 / 100),
     mk_current_30m_candle_id := Some ''k1''\<rparr>"

definition view_of :: "market_snapshot \<Rightarrow> runtime_snapshot \<Rightarrow> position_snapshot \<Rightarrow> context_view" where
  "view_of m r p = \<lparr>cv_version = 7, cv_evaluated_at = Aware 0, cv_market = m, cv_runtime = r,
     cv_position = p, cv_pending_order = None, cv_initialized = True,
     cv_selected_regime = Some TYPE_0, cv_scale_in_ratio = Fin (1 / 2),
     cv_scale_out_ratio = Fin (1 / 2)\<rparr>"

definition quiet_view :: context_view where
  "quiet_view = view_of quiet_market default_runtime default_position"

text \<open>A price at the lower band.\<close>

definition touch_view :: context_view where
  "touch_view = view_of (quiet_market\<lparr>mk_realtime_price := Fin 99\<rparr>) default_runtime default_position"

text \<open>A price at the upper band.\<close>

definition upper_view :: context_view where
  "upper_view = view_of (quiet_market\<lparr>mk_realtime_price := Fin 111\<rparr>) default_runtime default_position"

text \<open>A rebound in which both cases may buy.\<close>

definition entry_view :: context_view where
  "entry_view = view_of (quiet_market\<lparr>mk_realtime_price := Fin 98, mk_realtime_pct_b := Fin (- 18 / 100)\<rparr>)
     (default_runtime\<lparr>rt_lower_event_id := Some ''x'', rt_flush_low := Some (Fin 97),
        rt_entry_pct_b := Some (Fin (- 20 / 100))\<rparr>) default_position"

definition held_position :: position_snapshot where
  "held_position = \<lparr>ps_quantity = Fin 1, ps_entry_price = Some (Fin 104)\<rparr>"

text \<open>Six hours of a case B position, and one hour of a case C position.\<close>

definition late_market :: market_snapshot where
  "late_market = quiet_market\<lparr>mk_holding_elapsed := 21600 * 1000000, mk_realtime_pct_b := Fin 0\<rparr>"

definition b_hold_view :: context_view where
  "b_hold_view = view_of late_market (default_runtime\<lparr>rt_position_owner := Some CASE_B\<rparr>) held_position"

definition c_hold_view :: context_view where
  "c_hold_view = view_of late_market (default_runtime\<lparr>rt_position_owner := Some CASE_C\<rparr>) held_position"

text \<open>An exit of each case is pending.\<close>

definition exiting_view :: context_view where
  "exiting_view = view_of late_market (default_runtime\<lparr>rt_position_owner := Some CASE_B,
     rt_pending_exit_reason := Some TIME, rt_pending_return_state := Some RETURN_CASE_B_HOLDING\<rparr>)
     held_position"

section \<open>Machines and events\<close>

definition machine_at :: "state_config \<Rightarrow> trading_stm" where
  "machine_at s = \<lparr>sm_configuration = get_trading_logic_configuration TYPE_0, sm_state = s,
     sm_locked = False\<rparr>"

definition watch_state :: state_config where
  "watch_state = inactive_config LOWER_TOUCH_WATCH"

definition entry_state :: state_config where
  "entry_state = trade_management_initial
     \<lparr>st_b_signal := Some B_WAIT_PULLBACK, st_c_signal := Some C_SETUP\<rparr>"

definition b_hold_state :: state_config where
  "b_hold_state = trade_management_initial
     \<lparr>st_ownership := Some CASE_B_POSITION_MANAGEMENT, st_b_position := Some CASE_B_HOLDING,
      st_b_signal := Some CASE_B_FINAL_STATE, st_c_signal := Some CASE_C_FINAL_STATE\<rparr>"

definition c_hold_state :: state_config where
  "c_hold_state = trade_management_initial
     \<lparr>st_ownership := Some CASE_C_POSITION_MANAGEMENT, st_c_position := Some CASE_C_HOLDING,
      st_b_signal := Some B_WAIT_PULLBACK, st_c_signal := Some CASE_C_FINAL_STATE\<rparr>"

definition event_at :: "event_type \<Rightarrow> trading_event" where
  "event_at t = basic_event t (Aware 0)"

lemmas sample_views = quiet_view_def touch_view_def upper_view_def entry_view_def b_hold_view_def
  c_hold_view_def exiting_view_def view_of_def quiet_market_def late_market_def held_position_def
  default_market_def default_runtime_def default_position_def

lemmas sample_states = watch_state_def entry_state_def b_hold_state_def c_hold_state_def
  trade_management_initial_def inactive_config_def

lemma sample_machine_ok [simp]: "stm_ok (machine_at s) \<longleftrightarrow> config_ok s"
  by (simp add: stm_ok_def machine_at_def)

lemma sample_machine_sel [simp]:
  "sm_state (machine_at s) = s" "\<not> sm_locked (machine_at s)"
  "sm_configuration (machine_at s) = get_trading_logic_configuration TYPE_0"
  by (simp_all add: machine_at_def)

lemma sample_states_ok [simp]:
  "config_ok watch_state" "config_ok entry_state" "config_ok b_hold_state" "config_ok c_hold_state"
  by (simp_all add: sample_states config_ok_def)

lemma event_at_sel [simp]:
  "ev_type (event_at t) = t" "ev_market_evaluation (event_at t) = None"
  "ev_payload (event_at t) = None" "ev_priority (event_at t) = MARKET" "event_ok (event_at t)"
  by (simp_all add: event_at_def)

section \<open>What the samples evaluate to\<close>

lemma entry_conditions [simp]:
  "condition_met c_recovery_window entry_view" "condition_met c_rebound entry_view"
  "condition_unmet c_recovery entry_view" "condition_met c_entry_limit entry_view"
  "condition_unmet c_new_low entry_view" "\<not> condition_met c_new_low entry_view"
  "\<not> condition_met c_recovery entry_view" "\<not> condition_unmet c_recovery_window entry_view"
  "condition_met b_signal_age entry_view" "condition_met b_pullback entry_view"
  "\<not> condition_unmet b_signal_age entry_view"
  by (simp_all add: condition_met_iff condition_unmet_iff condition_satisfied_def sample_views)

text \<open>On a market tick the rebound gives case C its order; case B asks for one as well.\<close>

lemma entry_tick [simp]:
  "handle_global_transition entry_state (event_at MARKET_DATA_UPDATED) entry_view = no_transition"
  "handle_region_one entry_state (event_at MARKET_DATA_UPDATED) entry_view = no_transition"
  "resolve_region_one_event entry_state (event_at MARKET_DATA_UPDATED) = event_at MARKET_DATA_UPDATED"
  "resolve_case_c_region_event entry_state (event_at MARKET_DATA_UPDATED) =
     event_at RETRY_CASE_C_SETUP_CONDITION_CHECK"
  "demote_touch (event_at MARKET_DATA_UPDATED) = event_at MARKET_DATA_UPDATED"
  by (simp_all add: handle_global_transition_def handle_band_touch_def is_market_observation_def
      handle_session_def handle_region_one_def handle_ownership_transition_def
      handle_case_b_entry_def handle_case_c_entry_def resolve_region_one_event_def
      resolve_case_c_region_event_def sample_states event_at_def with_type_def basic_event_def
      no_transition_def demote_touch_def)

definition c_entry_outcome :: transition_outcome where
  "c_entry_outcome = create_transition_outcome ''C-12''
     (entry_state\<lparr>st_c_signal := Some C_POSITION_OPEN_SIGNALLED\<rparr>)
     (PatchRuntimeContext [Set_current_open_pct_b (Some (Fin (- 18 / 100)))] #
      create_entry_order_actions CASE_C INITIAL
        (event_at RETRY_CASE_C_SETUP_CONDITION_CHECK) entry_view) [] False"

lemma c_entry [simp]:
  "handle_case_c_signal_transition entry_state (event_at RETRY_CASE_C_SETUP_CONDITION_CHECK)
     entry_view = Inr (Some c_entry_outcome)"
proof -
  have view: "rt_flush_low (cv_runtime entry_view) = Some (Fin 97)"
    "rt_entry_pct_b (cv_runtime entry_view) = Some (Fin (- 20 / 100))"
    "rt_position_owner (cv_runtime entry_view) = None"
    "rt_pending_order_id (cv_runtime entry_view) = None"
    "mk_realtime_pct_b (cv_market entry_view) = Fin (- 18 / 100)"
    by (simp_all add: sample_views)
  have s: "st_c_signal entry_state = Some C_SETUP" "config_ok (entry_state\<lparr>st_c_signal := Some C_POSITION_OPEN_SIGNALLED\<rparr>)"
    by (simp_all add: sample_states config_ok_def)
  show ?thesis
    by (simp add: handle_case_c_signal_transition_def s c_setup_def c_check_setup_def Let_def view
        c_window_expired_def c_can_buy_def c_in_recovery_window_def move_def c_entry_outcome_def)
qed

definition b_entry_outcome :: transition_outcome where
  "b_entry_outcome = create_transition_outcome ''B-09''
     (entry_state\<lparr>st_c_signal := Some C_POSITION_OPEN_SIGNALLED,
        st_b_signal := Some B_POSITION_OPEN_SIGNALLED\<rparr>)
     (create_entry_order_actions CASE_B INITIAL
        (event_at RETRY_CASE_B_WAIT_PULLBACK_CONDITION_CHECK) entry_view) [] False"

lemma b_entry [simp]:
  "resolve_case_b_region_event (oc_state_after c_entry_outcome) (event_at MARKET_DATA_UPDATED)
     entry_view = event_at RETRY_CASE_B_WAIT_PULLBACK_CONDITION_CHECK"
  "handle_case_b_signal_transition (oc_state_after c_entry_outcome)
     (event_at RETRY_CASE_B_WAIT_PULLBACK_CONDITION_CHECK) entry_view = Inr (Some b_entry_outcome)"
proof -
  have view: "\<not> rt_case_b_entry_paused (cv_runtime entry_view)"
    "rt_position_owner (cv_runtime entry_view) = None"
    "rt_pending_order_id (cv_runtime entry_view) = None"
    by (simp_all add: sample_views)
  have s: "st_b_signal entry_state = Some B_WAIT_PULLBACK"
    "config_ok (entry_state\<lparr>st_c_signal := Some C_POSITION_OPEN_SIGNALLED,
        st_b_signal := Some B_POSITION_OPEN_SIGNALLED\<rparr>)"
    "config_ok (entry_state\<lparr>st_b_signal := Some B_POSITION_OPEN_SIGNALLED,
        st_c_signal := Some C_POSITION_OPEN_SIGNALLED\<rparr>)"
    by (simp_all add: sample_states config_ok_def)
  show "resolve_case_b_region_event (oc_state_after c_entry_outcome) (event_at MARKET_DATA_UPDATED)
     entry_view = event_at RETRY_CASE_B_WAIT_PULLBACK_CONDITION_CHECK"
    by (simp add: resolve_case_b_region_event_def c_entry_outcome_def s event_at_def with_type_def
        basic_event_def)
  show "handle_case_b_signal_transition (oc_state_after c_entry_outcome)
     (event_at RETRY_CASE_B_WAIT_PULLBACK_CONDITION_CHECK) entry_view = Inr (Some b_entry_outcome)"
    by (simp add: handle_case_b_signal_transition_def c_entry_outcome_def s b_wait_pullback_def
        b_check_pullback_def b_can_buy_def Let_def view move_def b_entry_outcome_def)
qed

lemma entry_outcome_orders [simp]:
  "orders (oc_actions c_entry_outcome) \<noteq> []" "orders (oc_actions b_entry_outcome) \<noteq> []"
  by (simp_all add: c_entry_outcome_def b_entry_outcome_def create_entry_order_actions_def Let_def)

lemma entry_outcome_ids [simp]: "oc_transition_ids c_entry_outcome = [''C-12'']"
  by (simp add: c_entry_outcome_def)

lemma digit_zero: "digit_char 0 = CHR ''0''"
  unfolding digit_char_def by code_simp

lemma c_entry_request:
  "orders (oc_actions c_entry_outcome) = [\<lparr>or_strategy = CASE_C, or_side = BUY,
     or_attempt_kind = INITIAL, or_idempotency_key = ''StrategyType.CASE_C:BUY:x:0'', or_exit_reason = None,
     or_exit_pct_b_at_intent = None\<rparr>]"
  by (simp add: c_entry_outcome_def create_entry_order_actions_def entry_intent_id_def
      sample_views show_opt_def event_at_def basic_event_def show_int_def show_nat.simps [of 0] Let_def digit_zero)

text \<open>The whole microstep on the tick.\<close>

lemma entry_handled:
  obtains r where "stm_handle (machine_at entry_state) (event_at MARKET_DATA_UPDATED) entry_view =
      (Inr r, machine_at (sr_state_after r))" "sr_actions r = oc_actions c_entry_outcome"
    "sr_state_after r = oc_state_after c_entry_outcome"
proof -
  have state: "st_root entry_state = TRADE_MANAGEMENT"
    "\<not> trade_management_is_complete (oc_state_after c_entry_outcome)"
    by (simp_all add: c_entry_outcome_def trade_management_is_complete_def sample_states)
  have win: "does_case_c_buy_win (oc_actions c_entry_outcome) b_entry_outcome"
    by (simp add: does_case_c_buy_win_def c_entry_outcome_def b_entry_outcome_def is_buy_of_def
        create_entry_order_actions_def Let_def)
  have "''C-12'' \<in> set transition_ids" by simp
  then show thesis
    using that win state
    by (simp add: stm_handle_def handle_locked_def no_transition_def [symmetric] handle_regions_def)
      (simp add: no_transition_def handle_signals_def accept_def accept_case_b_def
        commit_outcome_def combine_def with_completion_def Let_def machine_at_def)
qed

section \<open>Exits\<close>

lemma hold_conditions [simp]:
  "condition_met b_time_exit b_hold_view" "condition_met c_time_exit c_hold_view"
  "\<not> condition_met b_stop b_hold_view"
  "\<not> condition_met b_profit_zone b_hold_view" "\<not> condition_met c_profit_zone c_hold_view"
  "\<not> condition_met c_stop c_hold_view" "can_start_exit b_hold_view" "can_start_exit c_hold_view"
  by (simp_all add: condition_met_iff condition_satisfied_def can_start_exit_def sample_views
      dzero_def)

lemma no_emergency [simp]: "\<not> condition_met b_emergency_stop b_hold_view"
proof -
  have "round28 (104 * (99 / 100)) = 104 * (99 / 100)"
    by (rule round28_exact [where c = 10296 and e = "- 2"]) (simp_all add: pow10_def)
  then show ?thesis
    by (simp add: condition_met_iff condition_satisfied_def emergency_price_def sample_views dec_of_def)
qed

definition b_time_order :: transition_outcome where
  "b_time_order = create_transition_outcome ''PB-10'' b_hold_state
     (create_exit_order_actions CASE_B TIME RETURN_CASE_B_HOLDING (event_at CASE_B_TIME_EXIT)
        b_hold_view INITIAL) [] False"

definition c_time_order :: transition_outcome where
  "c_time_order = create_transition_outcome ''PC-08'' c_hold_state
     (create_exit_order_actions CASE_C TIME RETURN_CASE_C_HOLDING (event_at CASE_C_TIME_EXIT)
        c_hold_view INITIAL) [] False"

lemma hold_exits [simp]:
  "handle_case_b_position_transition b_hold_state (event_at CASE_B_TIME_EXIT) b_hold_view =
     Inr (Some b_time_order)"
  "handle_case_c_position_transition c_hold_state (event_at CASE_C_TIME_EXIT) c_hold_view =
     Inr (Some c_time_order)"
proof -
  have s: "st_b_position b_hold_state = Some CASE_B_HOLDING"
    "st_c_position c_hold_state = Some CASE_C_HOLDING"
    by (simp_all add: sample_states)
  have v: "rt_pending_exit_reason (cv_runtime b_hold_view) = None"
    "rt_pending_exit_reason (cv_runtime c_hold_view) = None"
    by (simp_all add: sample_views)
  show "handle_case_b_position_transition b_hold_state (event_at CASE_B_TIME_EXIT) b_hold_view =
     Inr (Some b_time_order)"
    by (simp add: handle_case_b_position_transition_def s v b_handle_holding_def b_holding_exit_def
        is_holding_exit_guard_satisfied_def stay_def b_return_state_def b_time_order_def)
  show "handle_case_c_position_transition c_hold_state (event_at CASE_C_TIME_EXIT) c_hold_view =
     Inr (Some c_time_order)"
    by (simp add: handle_case_c_position_transition_def s v c_handle_holding_def
        handle_time_exit_or_failure_def stay_def c_time_order_def)
qed

lemma time_orders [simp]:
  "orders (oc_actions b_time_order) \<noteq> []" "orders (oc_actions c_time_order) \<noteq> []"
  "\<not> oc_exclusive b_time_order" "\<not> oc_exclusive c_time_order"
  "oc_state_after b_time_order = b_hold_state" "oc_state_after c_time_order = c_hold_state"
  by (simp_all add: b_time_order_def c_time_order_def)

section \<open>The end of a session\<close>

definition finish_event :: trading_event where
  "finish_event = (event_at FORCE_SELL_FINISHED)
     \<lparr>ev_payload := Some (ForceSellOutcomePayload True True False)\<rparr>"

lemma finish_handled:
  obtains r where "stm_handle (machine_at (inactive_config STOPPING)) finish_event quiet_view =
      (Inr r, machine_at (inactive_config LOGIC_TERMINATED))" "sr_consumed r"
    "sr_state_after r = inactive_config LOGIC_TERMINATED"
    "sr_actions r \<noteq> [ForceSellAll True True]"
proof -
  have e: "ev_type finish_event = FORCE_SELL_FINISHED"
    "ev_payload finish_event = Some (ForceSellOutcomePayload True True False)"
    by (simp_all add: finish_event_def)
  have v: "\<not> is_open (cv_position quiet_view)" "rt_pending_order_id (cv_runtime quiet_view) = None"
    by (simp_all add: sample_views is_open_def dzero_def)
  have "''G-06F'' \<in> set transition_ids" by simp
  then show thesis
    using that by (simp add: stm_handle_def handle_locked_def handle_global_transition_def e v
        is_force_sell_completion_valid_def force_sell_finished_def move_def
        create_inactive_configuration_def commit_outcome_def machine_at_def)
qed

section \<open>The first touch\<close>

lemma touch_condition [simp]: "condition_met lower_price touch_view"
  "mk_touch_candle_bbw (cv_market touch_view) \<noteq> NaN"
  by (simp_all add: condition_met_iff condition_satisfied_def sample_views)

text \<open>The fill of a case B purchase.\<close>

definition b_fill_view :: context_view where
  "b_fill_view = view_of quiet_market (default_runtime\<lparr>rt_position_owner := Some CASE_B\<rparr>) held_position"

lemma b_fill [simp]:
  "handle_ownership_transition entry_state (event_at CASE_B_POSITION_OPENED) b_fill_view =
     Inr (Some (create_transition_outcome ''O-02'' (entry_state
       \<lparr>st_ownership := Some CASE_B_POSITION_MANAGEMENT, st_b_position := Some CASE_B_HOLDING\<rparr>)
       [create_queue_event_action START_CASE_B_CONDITION_CHECK b_fill_view] [''PB-01''] False))"
  by (simp add: handle_ownership_transition_def handle_case_b_entry_def case_b_opened_def
      position_opened_def entry_state_def trade_management_initial_def b_fill_view_def view_of_def
      held_position_def default_runtime_def is_open_def dzero_def move_def make_config_def config_ok_def)

section \<open>A context with a position\<close>

definition live_context :: "unit trading_context" where
  "live_context = (new_context 1)\<lparr>tx_position := held_position,
     tx_runtime := default_runtime\<lparr>rt_position_owner := Some CASE_B\<rparr>, tx_version := 1\<rparr>"

lemma live_context_sel [simp]:
  "tx_pending_order live_context = None" "tx_version live_context = 1"
  "tx_position live_context = held_position" "tx_market live_context = default_market"
  "rt_position_owner (tx_runtime live_context) = Some CASE_B"
  by (simp_all add: live_context_def new_context_def)

lemma live_step:
  "run_op (UpdatePosition held_position (Some CASE_B)) (new_context 1) = Inr live_context"
  by (simp add: update_position_def new_context_def live_context_def held_position_def is_open_def
      dzero_def make_runtime_def runtime_ok_def default_runtime_def position_same_def
      position_norm_def default_position_def)

lemma live_reachable: "reachable 1 live_context"
  by (rule reachable.step [OF reachable.new _ live_step])
    (simp add: position_ok_def held_position_def dzero_def)

section \<open>A queue with two events\<close>

definition empty_queue :: event_queue where
  "empty_queue = \<lparr>eq_heap = [], eq_next_sequence = 1, eq_seen_event_ids = {},
     eq_highest_market_version = 0, eq_last_claimed_market = None, eq_max_pending = 10,
     eq_max_seen = 100\<rparr>"

definition stop_event :: trading_event where
  "stop_event = (event_at STOP_CONFIRMED)
     \<lparr>ev_priority := USER_COMMAND, ev_event_id := Some ''stop''\<rparr>"

definition tick_event :: trading_event where
  "tick_event = (event_at MARKET_DATA_UPDATED)\<lparr>ev_event_id := Some ''tick''\<rparr>"

definition tick_queue :: event_queue where
  "tick_queue = empty_queue\<lparr>eq_heap := [entry_of (tick_event\<lparr>ev_sequence_number := 1\<rparr>) 1],
     eq_next_sequence := 2, eq_seen_event_ids := {''tick''}\<rparr>"

definition busy_queue :: event_queue where
  "busy_queue = empty_queue\<lparr>eq_heap := [entry_of (stop_event\<lparr>ev_sequence_number := 2\<rparr>) 2,
       entry_of (tick_event\<lparr>ev_sequence_number := 1\<rparr>) 1],
     eq_next_sequence := 3, eq_seen_event_ids := {''tick'', ''stop''}\<rparr>"

lemmas queue_samples = empty_queue_def tick_queue_def busy_queue_def stop_event_def tick_event_def
  event_at_def basic_event_def

lemma sample_events_ok [simp]: "event_ok stop_event" "event_ok tick_event"
  by (simp_all add: stop_event_def tick_event_def event_ok_def event_at_def basic_event_def)

lemma tick_enqueued: "enqueue tick_event False empty_queue =
    (Inr (Some (tick_event\<lparr>ev_sequence_number := 1\<rparr>)), tick_queue)"
  by (simp add: enqueue_def queue_samples with_queue_identity_def is_market_event_def
      accept_identity_def Let_def)

lemma stop_enqueued: "enqueue stop_event False tick_queue =
    (Inr (Some (stop_event\<lparr>ev_sequence_number := 2\<rparr>)), busy_queue)"
  by (simp add: enqueue_def queue_samples with_queue_identity_def is_market_event_def
      accept_identity_def entry_of_def entry_key_def Let_def insert_commute)

lemma empty_run: "queue_run empty_queue None"
  by (rule queue_run.create [of 10 100]) (simp add: create_queue_def empty_queue_def)

lemma tick_run: "queue_run tick_queue None"
  using queue_run.step [OF empty_run queue_step.enqueue [of tick_event empty_queue None False]]
  by (simp add: tick_enqueued)

lemma busy_run: "queue_run busy_queue None"
  using queue_run.step [OF tick_run queue_step.enqueue [of stop_event tick_queue None False]]
  by (simp add: stop_enqueued)

text \<open>The command is claimed before the older market event.\<close>

lemma busy_pop: "pop_event busy_queue =
    (Some (stop_event\<lparr>ev_sequence_number := 2\<rparr>), tick_queue
       \<lparr>eq_next_sequence := 3, eq_seen_event_ids := {''tick'', ''stop''}\<rparr>)"
  by (simp add: pop_event_def heappop_def queue_samples)

section \<open>Processors\<close>

text \<open>
  A world that hands out a list of views and records the executed actions.  Its executor returns no
  events.
\<close>

type_synonym script = "context_view list \<times> trading_action list"

definition script_callbacks :: "script callbacks" where
  "script_callbacks = \<lparr>
     cb_provide_context = (\<lambda>(views, done). (Inr (hd views), (tl views, done))),
     cb_execute_action = (\<lambda>a (views, done). (Inr [], (views, done @ [a]))),
     cb_clock = (\<lambda>w. (Inr (Aware 0), w)),
     cb_order_finished_observer = None, cb_event_processing_observer = None,
     cb_event_context_preparer = None, cb_result_observer = None\<rparr>"

definition script_processor :: "state_config \<Rightarrow> event_queue \<Rightarrow> context_view list \<Rightarrow> script processor" where
  "script_processor s q views = \<lparr>pr_stm = machine_at s, pr_queue = q, pr_processing = False,
     pr_world = (views, [])\<rparr>"

lemma script_callbacks_ok: "callbacks_ok script_callbacks"
  by (auto simp: callbacks_ok_def script_callbacks_def split: prod.splits)

lemma tick_pop: "pop_event tick_queue =
    (Some (tick_event\<lparr>ev_sequence_number := 1\<rparr>), tick_queue\<lparr>eq_heap := []\<rparr>)"
  by (simp add: pop_event_def heappop_def queue_samples)

lemma script_inv:
  "config_ok s \<Longrightarrow> queue_run q None \<Longrightarrow> processor_inv None (script_processor s q views)"
  by (simp add: processor_inv_def script_processor_def queue_run_inv)

text \<open>With fit market values an unlocked machine decides every event.\<close>

lemma sample_decides:
  assumes "config_ok s" "\<not> raw_unfit (cv_market c)"
  obtains r where "fst (stm_handle (machine_at s) e c) = Inr r"
proof -
  have "stm_ok (machine_at s)" using assms(1) by simp
  then show thesis
  proof (cases rule: stm_handle_cases [of "machine_at s" e c])
    case (result r)
    then show ?thesis using that by simp
  qed (use assms(2) in simp_all)
qed

lemma entry_fit [simp]: "\<not> raw_unfit (cv_market entry_view)" "\<not> raw_unfit (cv_market quiet_view)"
  by (simp_all add: raw_unfit_def sample_views)

text \<open>A market event that carries its evaluation, and a preparer that rewrites it.\<close>

definition market_event :: trading_event where
  "market_event = (event_at MARKET_DATA_UPDATED)\<lparr>ev_event_id := Some ''m'',
     ev_market_evaluation := Some quiet_market, ev_market_version := Some 1\<rparr>"

definition market_queue :: event_queue where
  "market_queue = empty_queue\<lparr>eq_heap := [entry_of (market_event\<lparr>ev_sequence_number := 1\<rparr>) 1],
     eq_next_sequence := 2, eq_highest_market_version := 1\<rparr>"

lemma market_run: "queue_run market_queue None"
proof -
  have "event_ok market_event"
    by (simp add: market_event_def event_ok_def event_at_def basic_event_def)
  from queue_run.step [OF empty_run queue_step.enqueue [OF this]]
  have "queue_run (snd (enqueue market_event False empty_queue)) None" .
  moreover have "snd (enqueue market_event False empty_queue) = market_queue"
    by (simp add: enqueue_def market_queue_def market_event_def empty_queue_def event_at_def
        basic_event_def with_queue_identity_def is_market_event_def accept_identity_def Let_def)
  ultimately show ?thesis by simp
qed

definition rewriting_callbacks :: "script callbacks" where
  "rewriting_callbacks = script_callbacks\<lparr>cb_event_context_preparer :=
     Some (\<lambda>e w. (Inr (e\<lparr>ev_candle_id := Some ''k1''\<rparr>), w))\<rparr>"

lemma script_sel [simp]:
  "cb_provide_context script_callbacks (v # views, done) = (Inr v, (views, done))"
  "cb_provide_context rewriting_callbacks (v # views, done) = (Inr v, (views, done))"
  "cb_event_context_preparer script_callbacks = None"
  "cb_event_processing_observer script_callbacks = None"
  "cb_event_processing_observer rewriting_callbacks = None"
  "cb_event_context_preparer rewriting_callbacks =
     Some (\<lambda>e w. (Inr (e\<lparr>ev_candle_id := Some ''k1''\<rparr>), w))"
  "pr_stm (script_processor s q views) = machine_at s"
  "pr_queue (script_processor s q views) = q" "\<not> pr_processing (script_processor s q views)"
  "pr_world (script_processor s q views) = (views, [])"
  by (simp_all add: script_callbacks_def rewriting_callbacks_def script_processor_def)

lemma entry_view_version [simp]: "cv_version entry_view = 7"
  by (simp add: entry_view_def view_of_def)

text \<open>
  Callbacks with a preparer that leaves the event alone and an observer that takes one view off the
  script whenever it is told of a beginning or an end.
\<close>

definition observed_callbacks :: "script callbacks" where
  "observed_callbacks = script_callbacks
     \<lparr>cb_event_context_preparer := Some (\<lambda>e w. (Inr e, w)),
      cb_event_processing_observer := Some (\<lambda>x (views, done). (Inr (), (tl views, done)))\<rparr>"

lemma observed_sel [simp]:
  "cb_provide_context observed_callbacks (v # views, done) = (Inr v, (views, done))"
  "prepared_by observed_callbacks e w = (Inr e, w)"
  "observed_by observed_callbacks x (v # views, done) = (Inr (), (views, done))"
  by (simp_all add: observed_callbacks_def script_callbacks_def prepared_by_def observed_by_def)

text \<open>An event of a lower event that has been replaced.\<close>

definition old_event :: trading_event where
  "old_event = (event_at CASE_B_STOP)\<lparr>ev_event_id := Some ''old'', ev_lower_event_id := Some ''w''\<rparr>"

definition old_queue :: event_queue where
  "old_queue = empty_queue\<lparr>eq_heap := [entry_of (old_event\<lparr>ev_sequence_number := 1\<rparr>) 1],
     eq_next_sequence := 2, eq_seen_event_ids := {''old''}\<rparr>"

lemma old_pop: "pop_event old_queue =
    (Some (old_event\<lparr>ev_sequence_number := 1\<rparr>), old_queue\<lparr>eq_heap := []\<rparr>)"
  by (simp add: pop_event_def heappop_def old_queue_def old_event_def empty_queue_def)

lemma old_is_stale: "is_stale_lower_event (old_event\<lparr>ev_sequence_number := 1\<rparr>) entry_view"
  by (simp add: is_stale_lower_event_def old_event_def sample_views event_at_def basic_event_def)

lemma old_dropped:
  "process_next script_callbacks (script_processor entry_state old_queue [entry_view]) =
     (Inr None, (script_processor entry_state old_queue [entry_view])
        \<lparr>pr_queue := old_queue\<lparr>eq_heap := []\<rparr>, pr_world := ([], [])\<rparr>)"
  by (rule stale_is_dropped [where c = entry_view and e = "old_event\<lparr>ev_sequence_number := 1\<rparr>"])
    (simp_all add: old_pop old_is_stale)

end
