(* ===== verification/Entry_Rules.thy ===== *)
theory Entry_Rules
  imports Trading_Stm
begin

text \<open>
  Where the BUY orders of case C come from, over a whole microstep of \<open>domain/trading/stm.py\<close>: the first
  one from the signal region (C-12 of \<open>case_c_signal_transitions.py\<close>), a repeated one from the ownership
  region (O-08 of \<open>ownership_transitions.py\<close>), and no other region asks for one.
\<close>

definition buy_retry_justified ::
  "state_config \<Rightarrow> event_type \<Rightarrow> context_view \<Rightarrow> order_request \<Rightarrow> bool" where
  "buy_retry_justified s t c q \<longleftrightarrow>
     or_attempt_kind q = RETRY \<and> st_ownership s = Some NO_POSITION \<and>
     (or_strategy q = CASE_B \<and> t = CASE_B_BUY_RETRY \<and> case_b_retry_allowed c \<or>
      or_strategy q = CASE_C \<and> t = CASE_C_BUY_RETRY \<and> case_c_retry_allowed c)"

text \<open>
  The ownership region orders only the retries, and moves the signal of case C only when an entry
  was blocked or expired.
\<close>

definition ownership_entry_post ::
  "state_config \<Rightarrow> trading_event \<Rightarrow> context_view \<Rightarrow> transition_outcome \<Rightarrow> bool" where
  "ownership_entry_post s e c oc \<longleftrightarrow>
     (\<forall>q\<in>set (orders (oc_actions oc)). buy_retry_justified s (ev_type e) c q) \<and>
     (st_c_signal (oc_state_after oc) = st_c_signal s \<or>
      ev_type e \<in> {BUY_RISK_BLOCKED, ORDER_PREPARATION_EXPIRED})"

lemma entry_actions_orders [simp]:
  "orders (create_entry_order_actions st kind e c)
   = [\<lparr>or_strategy = st, or_side = BUY, or_attempt_kind = kind, or_idempotency_key = entry_intent_id st e c,
       or_exit_reason = None, or_exit_pct_b_at_intent = None\<rparr>]"
  by (simp add: create_entry_order_actions_def Let_def)

lemma ownership_entry: "ensures (ownership_entry_post s e c) (handle_ownership_transition s e c)"
proof (cases "st_ownership s = Some NO_POSITION")
  case True
  note post = ownership_entry_post_def True buy_retry_justified_def
  have blocked: "ensures (ownership_entry_post s e c) (handle_entry_blocked s e c)"
    if "ev_type e \<in> {BUY_RISK_BLOCKED, ORDER_PREPARATION_EXPIRED}"
    unfolding handle_entry_blocked_def
    by (cases "blocked_strategy e")
      (use that in \<open>auto simp: post cleared_order_patch_def expired_reevaluation_def schedule_reevaluation_def
         intro!: ensures_rules\<close>)
  have case_b: "ensures (ownership_entry_post s e c) (handle_case_b_entry s e c)"
    unfolding handle_case_b_entry_def case_b_opened_def
    by (intro ensures_if ensures_none ensures_move ensures_stay) (auto simp: post)
  have case_c: "ensures (ownership_entry_post s e c) (handle_case_c_entry s e c)"
    unfolding handle_case_c_entry_def case_c_opened_def
    by (intro ensures_if ensures_none ensures_move ensures_stay) (auto simp: post)
  show ?thesis
    unfolding handle_ownership_transition_def
    by (intro ensures_if ensures_none ensures_or_else blocked case_b case_c) auto
qed (simp add: handle_ownership_transition_def ensures_none)

text \<open>The position region: its sales do not matter here.\<close>

lemma region_one_entry:
  assumes ok: "config_ok s" and oc: "handle_region_one s e c = Inr (Some oc)"
  shows "(\<forall>q\<in>set (orders (oc_actions oc)). or_side q = BUY \<longrightarrow> buy_retry_justified s (ev_type e) c q) \<and>
    (oc_exclusive oc \<or> st_c_signal (oc_state_after oc) = st_c_signal s \<or>
     ev_type e \<in> {BUY_RISK_BLOCKED, ORDER_PREPARATION_EXPIRED})"
proof (cases "st_b_position s = None \<and> st_c_position s = None")
  case True
  then show ?thesis
    using ensuresD [OF ownership_entry, of s e c oc] oc
    by (auto simp: handle_region_one_def ownership_entry_post_def)
next
  case False
  show ?thesis
  proof (cases "st_b_position s = None")
    case True
    then have h: "handle_case_c_position_transition s e c = Inr (Some oc)"
      using oc False by (simp add: handle_region_one_def)
    have "outcome_ok c_position_orders e c oc"
      using good_c_position [OF ok, of e c] by (simp add: good_def h)
    then have "\<forall>q\<in>set (orders (oc_actions oc)). or_side q = SELL"
      using outcome_ok_actions(3) by (force simp: c_position_orders_def)
    with ensuresD [OF c_position_ensures h] show ?thesis by (auto simp: c_position_post_def split: if_splits)
  next
    case b: False
    then have h: "handle_case_b_position_transition s e c = Inr (Some oc)"
      using oc by (simp add: handle_region_one_def)
    have "outcome_ok b_position_orders e c oc"
      using good_b_position [OF ok, of e c] by (simp add: good_def h)
    then have "\<forall>q\<in>set (orders (oc_actions oc)). or_side q = SELL"
      using outcome_ok_actions(3) by (force simp: b_position_orders_def)
    with ensuresD [OF b_position_ensures h] show ?thesis by (auto simp: b_position_post_def split: if_splits)
  qed
qed

lemma resolved_retry:
  "buy_retry_justified s (ev_type (resolve_region_one_event s' e)) c q = buy_retry_justified s (ev_type e) c q"
  "buy_retry_justified s (ev_type (demote_touch e)) c q = buy_retry_justified s (ev_type e) c q"
  "ev_type (resolve_region_one_event s' e) \<in> {BUY_RISK_BLOCKED, ORDER_PREPARATION_EXPIRED} \<Longrightarrow>
   resolve_region_one_event s' e = e"
  by (auto simp: buy_retry_justified_def resolve_region_one_event_def demote_touch_def)

text \<open>The signal region of case C asks only for its first order, on the event of its setup.\<close>

lemma c_signal_first:
  "ensures (\<lambda>oc. \<forall>q\<in>set (orders (oc_actions oc)). or_attempt_kind q = INITIAL)
     (handle_case_c_signal_transition s e c)"
proof -
  let ?P = "\<lambda>oc. \<forall>q\<in>set (orders (oc_actions oc)). or_attempt_kind q = INITIAL"
  have "ensures ?P (c_wait_setup s e c)" "ensures ?P (c_setup s e c)"
    "ensures ?P (c_position_open_signalled s e c)"
    unfolding c_wait_setup_def c_setup_def c_start_setup_def c_check_setup_def
      c_restart_window_def c_position_open_signalled_def Let_def
    by (intro ensures_rules; simp)+
  then show ?thesis
    by (simp add: handle_case_c_signal_transition_def ensures_none
        split: option.splits case_c_signal_state.splits)
qed

definition first_buy_justified :: "state_config \<Rightarrow> context_view \<Rightarrow> stm_result \<Rightarrow> order_request \<Rightarrow> bool" where
  "first_buy_justified s c r q \<longleftrightarrow>
     or_attempt_kind q = INITIAL \<and> st_c_signal s = Some C_SETUP \<and> c_can_buy c \<and>
     st_c_signal (sr_state_after r) = Some C_POSITION_OPEN_SIGNALLED"

text \<open>
  What the signal regions add: an order of case C comes from the position region before them or is
  the first one of the signal region.
\<close>

lemma signals_entry:
  assumes "config_ok (pg_state p1)" "st_root (pg_state p1) = TRADE_MANAGEMENT"
    and "handle_signals k s e c p1 = Inr r" "q \<in> set (orders (sr_actions r))" "or_strategy q = CASE_C"
    and moved: "st_c_signal (pg_state p1) = st_c_signal s \<or>
      ev_type e \<in> {BUY_RISK_BLOCKED, ORDER_PREPARATION_EXPIRED}"
  shows "q \<in> set (orders (pg_actions p1)) \<or> first_buy_justified s c r q"
proof -
  let ?e = "resolve_case_c_region_event (pg_state p1) e"
  obtain case_c case_b where hc: "handle_case_c_signal_transition (pg_state p1) ?e c = Inr case_c"
    and hb: "handle_case_b_signal_transition (pg_state (accept p1 case_c))
      (resolve_case_b_region_event (pg_state (accept p1 case_c)) e c) c = Inr case_b"
    and r: "(if pg_ids (accept_case_b (accept p1 case_c) case_b) = [] then Inr (no_op e c s)
       else commit_outcome k e c s (combine (with_completion s c
         (accept_case_b (accept p1 case_c) case_b)) False)) = Inr r"
    using assms(3) by (auto simp: handle_signals_def ebind_eq_Inr Let_def)
  let ?p2 = "accept p1 case_c" and ?p3 = "accept_case_b (accept p1 case_c) case_b"
  have after: "orders (sr_actions r) = orders (pg_actions ?p3)" "sr_state_after r = pg_state ?p3"
    using r assms(4)
    by (auto simp: no_op_def commit_outcome_def combine_def with_completion_def queue_request_def split: if_splits)
  have p2: "config_ok (pg_state ?p2) \<and> st_root (pg_state ?p2) = TRADE_MANAGEMENT"
  proof (cases case_c)
    case (Some oc)
    then show ?thesis
      using cs.outcome [OF assms(1,2)] hc ensuresD [OF c_signal_ensures, of "pg_state p1" ?e c oc] assms(2)
      by (auto simp: accept_def outcome_ok_def c_signal_post_def c_signal_frame_def)
  qed (use assms(1,2) in simp)
  have b: "q \<in> set (orders (pg_actions ?p2)) \<and> st_c_signal (pg_state ?p3) = st_c_signal (pg_state ?p2)"
  proof (cases case_b)
    case (Some ob)
    have good: "outcome_ok b_signal_orders (resolve_case_b_region_event (pg_state ?p2) e c) c ob"
      using bs.outcome p2 hb Some by blast
    have "q \<notin> set (orders (oc_actions ob))"
      using outcome_ok_actions(3) [OF good] assms(5) by (auto simp: b_signal_orders_def)
    moreover have "st_c_signal (oc_state_after ob) = st_c_signal (pg_state ?p2)"
      using ensuresD [OF b_signal_ensures] hb Some by (auto simp: b_signal_post_def b_signal_frame_def)
    ultimately show ?thesis using assms(4) Some by (auto simp: after accept_case_b_def accept_def split: if_splits)
  qed (use assms(4) after in simp)
  show ?thesis
  proof (cases case_c)
    case None
    then show ?thesis using b by simp
  next
    case (Some oc)
    show ?thesis
    proof (cases "q \<in> set (orders (pg_actions p1))")
      case False
      then have q: "q \<in> set (orders (oc_actions oc))" using b Some by (simp add: accept_def)
      have good: "outcome_ok c_signal_orders ?e c oc" using cs.outcome [OF assms(1,2)] hc Some by simp
      have "ev_type ?e = RETRY_CASE_C_SETUP_CONDITION_CHECK"
        using bspec [OF outcome_ok_actions(3) [OF good] q] by (simp add: c_signal_orders_def)
      then have "ev_type e \<notin> {BUY_RISK_BLOCKED, ORDER_PREPARATION_EXPIRED}"
        by (auto simp: resolve_case_c_region_event_def split: if_splits)
      moreover have "c_signal_post (pg_state p1) c oc" "or_attempt_kind q = INITIAL"
        using ensuresD [OF c_signal_ensures] ensuresD [OF c_signal_first] hc Some q by blast+
      ultimately show ?thesis
        using moved q b Some
        by (auto simp: first_buy_justified_def c_signal_post_def after accept_def)
    qed simp
  qed
qed

text \<open>Over the whole microstep a BUY of case C is its first order or the allowed retry.\<close>

lemma locked_entry:
  assumes k: "full_catalog k" and s: "config_ok s"
    and "handle_locked k s e c = Inr r" "q \<in> set (orders (sr_actions r))"
    and "or_side q = BUY" "or_strategy q = CASE_C"
  shows "first_buy_justified s c r q \<or> buy_retry_justified s (ev_type e) c q"
proof (cases "handle_global_transition s e c")
  case (Inl err)
  then show ?thesis using assms(3) by (simp add: handle_locked_def)
next
  case (Inr g)
  show ?thesis
  proof (cases g)
    case (Some oc)
    have "outcome_ok never_orders e c oc" using gt.outcome [OF s] Inr Some by simp
    moreover have "q \<in> set (orders (oc_actions oc))"
      using assms(3,4) Inr Some by (auto simp: handle_locked_def commit_outcome_def split: if_splits)
    ultimately show ?thesis using outcome_ok_actions(3) by blast
  next
    case None
    let ?e = "demote_touch e"
    have tm: "st_root s = TRADE_MANAGEMENT" and regions: "handle_regions k s ?e c = Inr r"
      using assms(3,4) Inr None by (auto simp: handle_locked_def no_op_def split: if_splits)
    obtain ro where ro: "handle_region_one s (resolve_region_one_event s ?e) c = Inr ro"
      using regions by (auto simp: handle_regions_def ebind_eq_Inr)
    let ?p1 = "accept \<lparr>pg_state = s, pg_ids = [], pg_actions = []\<rparr> ro"
    show ?thesis
    proof (cases ro)
      case None
      then have "handle_signals k s ?e c ?p1 = Inr r" using regions ro by (simp add: handle_regions_def)
      from signals_entry [OF _ _ this assms(4,6)] None s tm show ?thesis by simp
    next
      case (Some oc)
      note one = region_one_entry [OF s ro [unfolded Some], unfolded resolved_retry]
      have p1: "pg_actions ?p1 = oc_actions oc" "pg_state ?p1 = oc_state_after oc"
        by (simp_all add: Some accept_def)
      show ?thesis
      proof (cases "oc_exclusive oc")
        case True
        then have "q \<in> set (orders (oc_actions oc))"
          using regions ro Some p1 assms(4)
          by (auto simp: handle_regions_def Let_def commit_outcome_def combine_def split: if_splits)
        then show ?thesis using one assms(5) by blast
      next
        case False
        then have sig: "handle_signals k s ?e c ?p1 = Inr r"
          using regions ro Some by (simp add: handle_regions_def Let_def)
        have good: "outcome_ok region_one_orders (resolve_region_one_event s ?e) c oc"
          using r1.outcome [OF s tm] ro Some by simp
        have root: "st_root (oc_state_after oc) = TRADE_MANAGEMENT"
          using region_one_root [OF ro [unfolded Some] tm] False by simp
        have "st_c_signal (pg_state ?p1) = st_c_signal s \<or>
            ev_type ?e \<in> {BUY_RISK_BLOCKED, ORDER_PREPARATION_EXPIRED}"
          using one False resolved_retry(3) [of s ?e] unfolding p1 by auto
        from signals_entry [OF _ _ sig assms(4,6) this] good root
        have "q \<in> set (orders (oc_actions oc)) \<or> first_buy_justified s c r q"
          by (simp add: p1 outcome_ok_def)
        then show ?thesis using one assms(5) by blast
      qed
    qed
  qed
qed

end
