(* ===== verification/Decimal_Arith.thy ===== *)
theory Decimal_Arith
  imports Py_Decimal
begin

text \<open>
  Decimal arithmetic with an explicit precision, as inside a \<open>localcontext\<close> whose \<open>prec\<close> is set
  (34 in the ledger, risk and indicator code) and whose rounding is half even.  The locale
  \<open>decimal_rounding\<close> states what the ledger proofs need of a rounding; the rounding to any
  number of significant digits is an interpretation.
\<close>

section \<open>Rounding to significant digits\<close>

definition sig_exponent :: "nat \<Rightarrow> rat \<Rightarrow> int" where
  "sig_exponent p r = dec_exponent r + 28 - int p"

definition round_sig :: "nat \<Rightarrow> rat \<Rightarrow> rat" where
  "round_sig p r = (if r = 0 then 0
     else of_int (round_half_even (r / pow10 (sig_exponent p r))) * pow10 (sig_exponent p r))"

lemma round_sig_28: "round_sig 28 r = round28 r"
  by (simp add: round_sig_def sig_exponent_def round28_def)

lemma pow10_mono: "a \<le> b \<Longrightarrow> pow10 a \<le> pow10 b"
  by (simp add: pow10_powi power_int_increasing)

lemma sig_exponent_bounds:
  assumes "r \<noteq> 0" "0 < p"
  shows "10 ^ (p - 1) * pow10 (sig_exponent p r) \<le> \<bar>r\<bar>"
    and "\<bar>r\<bar> < 10 ^ p * pow10 (sig_exponent p r)"
proof -
  define d where "d = dec_exponent r"
  have "10 ^ (p - 1) * pow10 (sig_exponent p r) = pow10 (d + 27)"
    using assms(2) by (simp add: sig_exponent_def d_def pow10_nat [symmetric] pow10_add [symmetric]
        of_nat_diff add.commute)
  also have "\<dots> = 10 ^ 27 * pow10 d" by (simp only: pow10_add) (simp add: pow10_def)
  also have "\<dots> \<le> \<bar>r\<bar>" using dec_exponent_bounds [OF assms(1)] by (simp add: d_def field_simps)
  finally show "10 ^ (p - 1) * pow10 (sig_exponent p r) \<le> \<bar>r\<bar>" .
  have "\<bar>r\<bar> < 10 ^ 28 * pow10 d"
    using dec_exponent_bounds [OF assms(1)] by (simp add: d_def field_simps)
  also have "\<dots> = pow10 (d + 28)" by (simp only: pow10_add) (simp add: pow10_def)
  also have "\<dots> = 10 ^ p * pow10 (sig_exponent p r)"
    by (simp add: sig_exponent_def d_def pow10_nat [symmetric] pow10_add [symmetric])
  finally show "\<bar>r\<bar> < 10 ^ p * pow10 (sig_exponent p r)" .
qed

lemma round_half_even_mono: "x \<le> y \<Longrightarrow> round_half_even x \<le> round_half_even y"
proof (cases "\<lfloor>x\<rfloor> = \<lfloor>y\<rfloor>")
  case False
  assume "x \<le> y"
  with False have "\<lfloor>x\<rfloor> + 1 \<le> \<lfloor>y\<rfloor>" using floor_mono [of x y] by linarith
  moreover have "round_half_even x \<le> \<lfloor>x\<rfloor> + 1" "\<lfloor>y\<rfloor> \<le> round_half_even y"
    unfolding round_half_even_def Let_def by auto
  ultimately show ?thesis by linarith
qed (auto simp: round_half_even_def Let_def)

lemma round_half_even_uminus: "round_half_even (- x) = - round_half_even x"
proof -
  define f d where "f = \<lfloor>x\<rfloor>" and "d = x - of_int f"
  have x: "x = of_int f + d" by (simp add: d_def)
  have d: "0 \<le> d" "d < 1" unfolding d_def f_def by linarith+
  show ?thesis
  proof (cases "d = 0")
    case True
    then show ?thesis using x round_half_even_of_int [of f] round_half_even_of_int [of "- f"] by simp
  next
    case False
    with d x have fl: "\<lfloor>x\<rfloor> = f" "\<lfloor>- x\<rfloor> = - f - 1" by linarith+
    have half: "round_half_even x = (if d < 1/2 then f else if d > 1/2 then f + 1
        else if even f then f else f + 1)"
      unfolding round_half_even_def Let_def fl by (simp add: x)
    have "- x - of_int (- f - 1) = 1 - d" by (simp add: x)
    then have "round_half_even (- x) = (if 1 - d < 1/2 then - f - 1 else if 1 - d > 1/2 then - f
        else if even (- f - 1) then - f - 1 else - f)"
      unfolding round_half_even_def Let_def fl by simp
    then show ?thesis unfolding half by auto
  qed
qed

lemma dec_exponent_uminus [simp]: "dec_exponent (- r) = dec_exponent r"
  by (simp add: dec_exponent_def)

lemma round_sig_uminus: "round_sig p (- r) = - round_sig p r"
  by (simp add: round_sig_def sig_exponent_def round_half_even_uminus)

lemma round_sig_0 [simp]: "round_sig p 0 = 0"
  by (simp add: round_sig_def)

lemma sig_exponent_mono:
  assumes "0 < r" "r \<le> s" "0 < p"
  shows "sig_exponent p r \<le> sig_exponent p s"
proof -
  have "10 ^ (p - 1) * pow10 (sig_exponent p r) < 10 ^ p * pow10 (sig_exponent p s)"
    using sig_exponent_bounds(1) [of r p] sig_exponent_bounds(2) [of s p] assms by linarith
  also have "10 ^ p = (10 ^ (p - 1) * 10 :: rat)" using assms(3) by (cases p) simp_all
  finally have "pow10 (sig_exponent p r) < pow10 (sig_exponent p s + 1)"
    by (simp add: pow10_Suc)
  then show ?thesis using pow10_mono [of "sig_exponent p s + 1" "sig_exponent p r"] by linarith
qed

text \<open>The rounded value stays inside the decade of the value.\<close>

lemma round_sig_decade:
  assumes "0 < r" "0 < p"
  shows "10 ^ (p - 1) * pow10 (sig_exponent p r) \<le> round_sig p r"
    and "round_sig p r \<le> 10 ^ p * pow10 (sig_exponent p r)"
proof -
  define e where "e = sig_exponent p r"
  define x where "x = r / pow10 e"
  have "10 ^ (p - 1) \<le> x" "x \<le> 10 ^ p"
    using sig_exponent_bounds [of r p] assms by (simp_all add: x_def e_def field_simps)
  then have "round_half_even (of_int (10 ^ (p - 1))) \<le> round_half_even x"
    "round_half_even x \<le> round_half_even (of_int (10 ^ p))"
    by (auto intro!: round_half_even_mono)
  then have "(10::int) ^ (p - 1) \<le> round_half_even x" "round_half_even x \<le> 10 ^ p"
    by (simp_all only: round_half_even_of_int)
  then have "(of_int (10 ^ (p - 1)) :: rat) \<le> of_int (round_half_even x)"
    "(of_int (round_half_even x) :: rat) \<le> of_int (10 ^ p)"
    by (simp_all only: of_int_le_iff)
  then show "10 ^ (p - 1) * pow10 e \<le> round_sig p r" "round_sig p r \<le> 10 ^ p * pow10 e"
    using assms(1) by (simp_all add: round_sig_def e_def [symmetric] x_def)
qed

lemma round_sig_pos:
  assumes "0 < r" "0 < p"
  shows "0 < round_sig p r"
proof -
  have "0 < 10 ^ (p - 1) * pow10 (sig_exponent p r)" by simp
  also have "\<dots> \<le> round_sig p r" using assms by (rule round_sig_decade)
  finally show ?thesis .
qed

lemma round_sig_mono_pos:
  assumes "0 < r" "r \<le> s" "0 < p"
  shows "round_sig p r \<le> round_sig p s"
proof (cases "sig_exponent p r = sig_exponent p s")
  case True
  with assms show ?thesis
    by (auto simp: round_sig_def intro!: mult_right_mono round_half_even_mono divide_right_mono
        less_imp_le [OF pow10_pos])
next
  case False
  with sig_exponent_mono [OF assms] have less: "sig_exponent p r + 1 \<le> sig_exponent p s" by simp
  have p: "10 ^ p = (10 ^ (p - 1) * 10 :: rat)" using assms(3) by (cases p) simp_all
  have "round_sig p r \<le> 10 ^ (p - 1) * pow10 (sig_exponent p r + 1)"
    using round_sig_decade(2) [of r p] assms by (simp add: p pow10_Suc)
  also have "\<dots> \<le> 10 ^ (p - 1) * pow10 (sig_exponent p s)"
    by (intro mult_left_mono pow10_mono less) simp
  also have "\<dots> \<le> round_sig p s" using round_sig_decade(1) [of s p] assms by simp
  finally show ?thesis .
qed

lemma round_sig_mono:
  assumes "r \<le> s" "0 < p"
  shows "round_sig p r \<le> round_sig p s"
proof -
  have nonneg: "0 \<le> round_sig p t" if "0 \<le> t" for t
    using round_sig_pos [of t p] that assms(2) by (cases "t = 0") auto
  consider "0 < r" | "r \<le> 0" "0 \<le> s" | "s < 0" by linarith
  then show ?thesis
  proof cases
    case 1
    then show ?thesis using assms by (intro round_sig_mono_pos)
  next
    case 2
    then have "0 \<le> round_sig p (- r)" "0 \<le> round_sig p s" by (auto intro: nonneg)
    then show ?thesis by (simp add: round_sig_uminus)
  next
    case 3
    then have "round_sig p (- s) \<le> round_sig p (- r)" using assms by (intro round_sig_mono_pos) auto
    then show ?thesis by (simp add: round_sig_uminus)
  qed
qed

text \<open>A value of at most \<open>p\<close> significant digits is not changed.\<close>

definition fits :: "nat \<Rightarrow> rat \<Rightarrow> bool" where
  "fits p r \<longleftrightarrow> (\<exists>c e. r = of_int c * pow10 e \<and> \<bar>c\<bar> \<le> 10 ^ p)"

lemma round_sig_exact:
  assumes "r = of_int c * pow10 e" "\<bar>c\<bar> < 10 ^ p" "0 < p"
  shows "round_sig p r = r"
proof (cases "r = 0")
  case False
  define k where "k = sig_exponent p r"
  have "10 ^ (p - 1) * pow10 k \<le> \<bar>r\<bar>"
    unfolding k_def using False assms(3) by (rule sig_exponent_bounds)
  also have "\<dots> < 10 ^ p * pow10 e"
  proof -
    have "\<bar>of_int c :: rat\<bar> < 10 ^ p"
      using assms(2) by (metis of_int_abs of_int_less_iff of_int_numeral of_int_power)
    then show ?thesis by (simp add: assms(1) abs_mult)
  qed
  also have "10 ^ p = (10 ^ (p - 1) * 10 :: rat)" using assms(3) by (cases p) simp_all
  finally have "pow10 k < pow10 (e + 1)" by (simp add: pow10_Suc)
  then have "k \<le> e" using pow10_mono [of "e + 1" k] by linarith
  then obtain n where n: "e = k + int n" by (metis zle_iff_zadd)
  have "r / pow10 k = of_int (c * 10 ^ n)" by (simp add: assms(1) n pow10_add pow10_nat)
  then have "round_sig p r = of_int (c * 10 ^ n) * pow10 k"
    using False by (simp only: round_sig_def k_def [symmetric] round_half_even_of_int) simp
  then show ?thesis by (simp add: assms(1) n pow10_add pow10_nat)
qed simp

lemma round_sig_fits:
  assumes "fits p r" "0 < p"
  shows "round_sig p r = r"
proof -
  obtain c e where r: "r = of_int c * pow10 e" and c: "\<bar>c\<bar> \<le> 10 ^ p"
    using assms(1) by (auto simp: fits_def)
  show ?thesis
  proof (cases "\<bar>c\<bar> = 10 ^ p")
    case False
    with c have "\<bar>c\<bar> < 10 ^ p" by simp
    with r show ?thesis using assms(2) by (intro round_sig_exact [where c = c and e = e])
  next
    case True
    then have "c = 10 ^ p \<or> c = - (10 ^ p)" by linarith
    then obtain s :: int where s: "\<bar>s\<bar> = 1" "c = s * 10 ^ p"
      by (metis abs_1 abs_minus_cancel mult_1 mult_minus_left)
    have "(1::int) < 10 ^ p" using assms(2) by simp
    then have "\<bar>s\<bar> < 10 ^ p" using s(1) by linarith
    moreover have "r = of_int s * pow10 (int p + e)" by (simp add: r s(2) pow10_add pow10_nat)
    ultimately show ?thesis
      using assms(2) by (intro round_sig_exact [where c = s and e = "int p + e"])
  qed
qed

lemma fits_round_sig: "0 < p \<Longrightarrow> fits p (round_sig p r)"
proof -
  assume p: "0 < p"
  have pos: "fits p (round_sig p r)" if "0 < r" for r
  proof -
    define i where "i = round_half_even (r / pow10 (sig_exponent p r))"
    have eq: "round_sig p r = of_int i * pow10 (sig_exponent p r)"
      using that by (simp add: round_sig_def i_def)
    have "(of_int i :: rat) \<le> of_int (10 ^ p)"
      using round_sig_decade(2) [OF that p] unfolding eq by simp
    then have "i \<le> 10 ^ p" by (simp only: of_int_le_iff)
    moreover have "0 < (of_int i :: rat)"
      using round_sig_pos [OF that p] unfolding eq by (rule zero_less_mult_pos2) simp
    then have "0 \<le> i" by simp
    ultimately have "i \<le> 10 ^ p" "0 \<le> i" by simp_all
    then show ?thesis
      unfolding fits_def eq by (intro exI [of _ i] exI [of _ "sig_exponent p r"]) simp
  qed
  consider "0 < r" | "r = 0" | "0 < - r" by linarith
  then show ?thesis
  proof cases
    case 3
    from pos [OF this] obtain c e where "round_sig p (- r) = of_int c * pow10 e" "\<bar>c\<bar> \<le> 10 ^ p"
      by (auto simp: fits_def)
    then have "round_sig p r = of_int (- c) * pow10 e \<and> \<bar>- c\<bar> \<le> 10 ^ p"
      by (simp add: round_sig_uminus minus_equation_iff)
    then show ?thesis unfolding fits_def by blast
  qed (use pos in \<open>auto simp: fits_def intro: exI [of _ 0]\<close>)
qed

lemma round_sig_idem: "0 < p \<Longrightarrow> round_sig p (round_sig p r) = round_sig p r"
  by (intro round_sig_fits fits_round_sig)

text \<open>The relative error of one rounding.\<close>

lemma round_sig_relative:
  assumes "0 < p"
  shows "\<bar>round_sig p r - r\<bar> \<le> \<bar>r\<bar> / (2 * 10 ^ (p - 1))"
proof (cases "r = 0")
  case False
  define e x where "e = sig_exponent p r" and "x = r / pow10 e"
  have "round_sig p r - r = (of_int (round_half_even x) - x) * pow10 e"
    using False by (simp add: round_sig_def e_def x_def algebra_simps)
  then have "\<bar>round_sig p r - r\<bar> = \<bar>of_int (round_half_even x) - x\<bar> * pow10 e"
    by (simp add: abs_mult)
  also have "\<dots> \<le> 1/2 * pow10 e"
    by (intro mult_right_mono round_half_even_error) (simp add: less_imp_le)
  also have "\<dots> \<le> \<bar>r\<bar> / (2 * 10 ^ (p - 1))"
    using sig_exponent_bounds(1) [OF False assms] by (simp add: e_def field_simps)
  finally show ?thesis .
qed simp

section \<open>The laws of a decimal rounding\<close>

text \<open>What the ledger relies on: a monotone, odd and idempotent rounding that loses no sign.\<close>

locale decimal_rounding =
  fixes rnd :: "rat \<Rightarrow> rat"
  assumes mono: "r \<le> s \<Longrightarrow> rnd r \<le> rnd s"
    and odd: "rnd (- r) = - rnd r"
    and idem: "rnd (rnd r) = rnd r"
    and pos: "0 < r \<Longrightarrow> 0 < rnd r"
begin

lemma zero: "rnd 0 = 0"
  using odd [of 0] by simp

lemma nonneg: "0 \<le> r \<Longrightarrow> 0 \<le> rnd r"
  using pos [of r] zero by (cases "r = 0") auto

lemma pos_iff: "0 < rnd r \<longleftrightarrow> 0 < r"
  using pos [of r] mono [of r 0] zero by (cases "0 < r") auto

lemma zero_iff: "rnd r = 0 \<longleftrightarrow> r = 0"
  using pos [of r] pos [of "- r"] odd [of r] zero by (cases r "0::rat" rule: linorder_cases) auto

text \<open>A difference rounds to zero only between equal values.\<close>

lemma diff_zero_iff: "rnd (a - b) = 0 \<longleftrightarrow> a = b"
  by (simp add: zero_iff)

lemma grow: "rnd a = a \<Longrightarrow> 0 \<le> x \<Longrightarrow> a \<le> rnd (a + x)"
  using mono [of a "a + x"] by simp

lemma shrink: "rnd a = a \<Longrightarrow> 0 \<le> x \<Longrightarrow> rnd (a - x) \<le> a"
  using mono [of "a - x" a] by simp

lemma below: "rnd b = b \<Longrightarrow> a \<le> b \<Longrightarrow> rnd a \<le> b"
  using mono [of a b] by simp

lemma above: "rnd b = b \<Longrightarrow> b \<le> a \<Longrightarrow> b \<le> rnd a"
  using mono [of b a] by simp

end

interpretation r34: decimal_rounding "round_sig 34"
  by unfold_locales (auto intro: round_sig_mono round_sig_pos simp: round_sig_idem round_sig_uminus)

interpretation r28: decimal_rounding "round_sig 28"
  by unfold_locales (auto intro: round_sig_mono round_sig_pos simp: round_sig_idem round_sig_uminus)

text \<open>A rounding with a bound on its relative error.\<close>

locale relative_rounding = decimal_rounding +
  fixes eps :: rat
  assumes eps_nonneg: "0 \<le> eps"
    and relative: "\<bar>rnd r - r\<bar> \<le> \<bar>r\<bar> * eps"
begin

text \<open>A product rounded twice, once after the multiplication and once after the division.\<close>

lemma share_error:
  assumes "0 \<le> c" "0 \<le> q" "0 < d"
  shows "\<bar>rnd (rnd (c * q) / d) - c * q / d\<bar> \<le> c * q / d * (2 * eps + eps * eps)"
proof -
  define x where "x = c * q / d"
  have x: "0 \<le> x" using assms by (simp add: x_def)
  define y where "y = rnd (c * q) / d"
  have "\<bar>y - x\<bar> = \<bar>rnd (c * q) - c * q\<bar> / d"
    using assms(3) by (simp add: y_def x_def diff_divide_distrib [symmetric])
  also have "\<dots> \<le> \<bar>c * q\<bar> * eps / d" using assms(3) by (intro divide_right_mono relative) simp
  also have "\<dots> = x * eps" using assms by (simp add: x_def)
  finally have y: "\<bar>y - x\<bar> \<le> x * eps" .
  have "\<bar>rnd y - y\<bar> \<le> \<bar>y\<bar> * eps" by (rule relative)
  also have "\<bar>y\<bar> * eps \<le> (x + x * eps) * eps" using x y eps_nonneg by (intro mult_right_mono) linarith+
  finally have "\<bar>rnd y - x\<bar> \<le> x * eps + (x + x * eps) * eps" using y by linarith
  then show ?thesis by (simp add: x_def y_def algebra_simps)
qed

lemma share_below:
  assumes "0 < c" "0 \<le> q" "0 < d" "q * (1 + 3 * eps) < d" "eps \<le> 1"
  shows "rnd (rnd (c * q) / d) < c"
proof -
  define x where "x = c * q / d"
  have x: "0 \<le> x" using assms by (simp add: x_def)
  have "rnd (rnd (c * q) / d) \<le> x + x * (2 * eps + eps * eps)"
    using share_error [of c q d] assms unfolding x_def [symmetric] by linarith
  also have "eps * eps \<le> eps" using assms(5) eps_nonneg by (simp add: mult_left_le)
  then have "x * (2 * eps + eps * eps) \<le> x * (3 * eps)" using x by (intro mult_left_mono) linarith+
  then have "x + x * (2 * eps + eps * eps) \<le> c * (q * (1 + 3 * eps) / d)"
    using assms(3) by (simp add: x_def field_simps)
  also have "\<dots> < c * 1" using assms by (intro mult_strict_left_mono) simp_all
  finally show ?thesis by simp
qed

end

interpretation r34e: relative_rounding "round_sig 34" "1 / (2 * 10 ^ 33)"
proof unfold_locales
  show "\<bar>round_sig 34 r - r\<bar> \<le> \<bar>r\<bar> * (1 / (2 * 10 ^ 33))" for r
    using round_sig_relative [of 34 r] by simp
qed simp

section \<open>Operations\<close>

text \<open>Equality is numeric, and false with a NaN.\<close>

definition deq :: "decimal \<Rightarrow> decimal \<Rightarrow> bool" where
  "deq x y \<longleftrightarrow> x \<noteq> NaN \<and> y \<noteq> NaN \<and> dnorm x = dnorm y"

definition add_at :: "nat \<Rightarrow> decimal \<Rightarrow> decimal \<Rightarrow> decimal res" where
  "add_at p x y =
     (if x = NaN \<or> y = NaN then Inr NaN
      else if is_finite x \<and> is_finite y
      then Inr (dec_of (x = NegZero \<and> y = NegZero) (round_sig p (dval x + dval y)))
      else if is_finite x then Inr y
      else if is_finite y \<or> x = y then Inr x
      else Inl InvalidOperation)"

definition sub_at :: "nat \<Rightarrow> decimal \<Rightarrow> decimal \<Rightarrow> decimal res" where
  "sub_at p x y = add_at p x (dneg y)"

definition mul_at :: "nat \<Rightarrow> decimal \<Rightarrow> decimal \<Rightarrow> decimal res" where
  "mul_at p x y =
     (if x = NaN \<or> y = NaN then Inr NaN
      else if is_finite x \<and> is_finite y
      then Inr (dec_of (is_signed x \<noteq> is_signed y) (round_sig p (dval x * dval y)))
      else if (is_finite x \<and> dval x = 0) \<or> (is_finite y \<and> dval y = 0)
      then Inl InvalidOperation
      else Inr (if is_signed x \<noteq> is_signed y then NegInf else PosInf))"

text \<open>\<open>0 / 0\<close> is \<open>DivisionUndefined\<close>, a subclass of \<open>InvalidOperation\<close>.\<close>

definition div_at :: "nat \<Rightarrow> decimal \<Rightarrow> decimal \<Rightarrow> decimal res" where
  "div_at p x y =
     (if x = NaN \<or> y = NaN then Inr NaN
      else if is_finite x \<and> is_finite y
      then if dval y = 0 then Inl (if dval x = 0 then InvalidOperation else DivisionByZero)
           else Inr (dec_of (is_signed x \<noteq> is_signed y) (round_sig p (dval x / dval y)))
      else if is_finite x then Inr (if is_signed x \<noteq> is_signed y then NegZero else Fin 0)
      else if is_finite y then Inr (if is_signed x \<noteq> is_signed y then NegInf else PosInf)
      else Inl InvalidOperation)"

text \<open>The unary minus rounds as well, and never gives a negative zero.\<close>

definition minus_at :: "nat \<Rightarrow> decimal \<Rightarrow> decimal" where
  "minus_at p x = (if is_finite x then Fin (round_sig p (- dval x)) else dneg x)"

text \<open>\<open>sum(values, start)\<close> adds from the left.\<close>

fun sum_at :: "nat \<Rightarrow> decimal \<Rightarrow> decimal list \<Rightarrow> decimal res" where
  "sum_at p a [] = Inr a"
| "sum_at p a (x # xs) = ebind (add_at p a x) (\<lambda>s. sum_at p s xs)"

text \<open>\<open>max(a, b)\<close> of two numbers keeps the first of equal values.\<close>

definition dmax :: "decimal \<Rightarrow> decimal \<Rightarrow> decimal" where
  "dmax a b = (if dlt a b then b else a)"

section \<open>The operations on finite values\<close>

named_theorems finite_arith \<open>decimal operations on finite operands\<close>

lemma deq_finite [finite_arith]: "is_finite x \<Longrightarrow> is_finite y \<Longrightarrow> deq x y \<longleftrightarrow> dval x = dval y"
  by (cases x; cases y) (auto simp: deq_def)

lemma add_at_finite [finite_arith]:
  "is_finite x \<Longrightarrow> is_finite y \<Longrightarrow>
   add_at p x y = Inr (dec_of (x = NegZero \<and> y = NegZero) (round_sig p (dval x + dval y)))"
  by (simp add: add_at_def)

lemma sub_at_finite [finite_arith]:
  "is_finite x \<Longrightarrow> is_finite y \<Longrightarrow>
   sub_at p x y = Inr (dec_of (x = NegZero \<and> dneg y = NegZero) (round_sig p (dval x - dval y)))"
  by (simp add: sub_at_def add_at_finite)

lemma mul_at_finite [finite_arith]:
  "is_finite x \<Longrightarrow> is_finite y \<Longrightarrow>
   mul_at p x y = Inr (dec_of (is_signed x \<noteq> is_signed y) (round_sig p (dval x * dval y)))"
  by (simp add: mul_at_def)

lemma div_at_finite [finite_arith]:
  "is_finite x \<Longrightarrow> is_finite y \<Longrightarrow> dval y \<noteq> 0 \<Longrightarrow>
   div_at p x y = Inr (dec_of (is_signed x \<noteq> is_signed y) (round_sig p (dval x / dval y)))"
  by (simp add: div_at_def)

lemma minus_at_finite [finite_arith]:
  "is_finite x \<Longrightarrow> minus_at p x = Fin (round_sig p (- dval x))"
  by (simp add: minus_at_def)

lemma dmax_finite [finite_arith]:
  "is_finite x \<Longrightarrow> is_finite y \<Longrightarrow> dval (dmax x y) = max (dval x) (dval y)"
  "is_finite x \<Longrightarrow> is_finite y \<Longrightarrow> is_finite (dmax x y)"
  by (auto simp: dmax_def)

text \<open>The rounded sum of numbers.\<close>

definition sum_sig :: "nat \<Rightarrow> rat \<Rightarrow> rat list \<Rightarrow> rat" where
  "sum_sig p = foldl (\<lambda>a x. round_sig p (a + x))"

lemma sum_sig_simps [simp]:
  "sum_sig p a [] = a" "sum_sig p a (x # xs) = sum_sig p (round_sig p (a + x)) xs"
  by (simp_all add: sum_sig_def)

lemma sum_at_finite:
  "is_finite a \<Longrightarrow> \<forall>x\<in>set xs. is_finite x \<Longrightarrow>
   \<exists>z. sum_at p a xs = Inr z \<and> is_finite z \<and> dval z = sum_sig p (dval a) (map dval xs)"
proof (induction xs arbitrary: a)
  case (Cons x xs)
  define s where "s = dec_of (a = NegZero \<and> x = NegZero) (round_sig p (dval a + dval x))"
  have "add_at p a x = Inr s" using Cons.prems by (simp add: s_def add_at_finite)
  with Cons.IH [of s] Cons.prems show ?case by (simp add: s_def)
qed simp

context decimal_rounding
begin

text \<open>Adding non-negative numbers never lowers a rounded sum.\<close>

lemma foldl_grow:
  "rnd a = a \<Longrightarrow> \<forall>x\<in>set xs. 0 \<le> x \<Longrightarrow> a \<le> foldl (\<lambda>a x. rnd (a + x)) a xs"
proof (induction xs arbitrary: a)
  case (Cons x xs)
  have "a \<le> rnd (a + x)" using Cons.prems by (intro grow) auto
  also have "\<dots> \<le> foldl (\<lambda>a x. rnd (a + x)) (rnd (a + x)) xs"
    using Cons.prems by (intro Cons.IH) (auto simp: idem)
  finally show ?case by simp
qed simp

lemma foldl_pos:
  "rnd a = a \<Longrightarrow> 0 \<le> a \<Longrightarrow> \<forall>x\<in>set xs. 0 < x \<Longrightarrow> xs \<noteq> [] \<Longrightarrow>
   0 < foldl (\<lambda>a x. rnd (a + x)) a xs"
proof (induction xs)
  case (Cons x xs)
  then have "0 < rnd (a + x)" by (intro pos) auto
  also have "\<dots> \<le> foldl (\<lambda>a x. rnd (a + x)) (rnd (a + x)) xs"
    using Cons.prems by (intro foldl_grow) (auto simp: idem less_imp_le)
  finally show ?case by simp
qed simp

text \<open>Leaving out non-negative numbers never raises a rounded sum.\<close>

lemma foldl_filter_le:
  "a \<le> b \<Longrightarrow> rnd b = b \<Longrightarrow> \<forall>x\<in>set xs. 0 \<le> f x \<Longrightarrow>
   foldl (\<lambda>a x. rnd (a + x)) a (map f (filter P xs)) \<le> foldl (\<lambda>a x. rnd (a + x)) b (map f xs)"
proof (induction xs arbitrary: a b)
  case (Cons x xs)
  show ?case
  proof (cases "P x")
    case True
    have "rnd (a + f x) \<le> rnd (b + f x)" using Cons.prems by (intro mono) simp
    with True Cons.IH [of "rnd (a + f x)" "rnd (b + f x)"] Cons.prems show ?thesis
      by (simp add: idem)
  next
    case False
    have "a \<le> rnd (b + f x)" using grow [of b "f x"] Cons.prems by simp
    with False Cons.IH [of a "rnd (b + f x)"] Cons.prems show ?thesis by (simp add: idem)
  qed
qed simp

lemma foldl_fixed: "rnd a = a \<Longrightarrow> rnd (foldl (\<lambda>a x. rnd (a + x)) a xs) = foldl (\<lambda>a x. rnd (a + x)) a xs"
  by (induction xs arbitrary: a) (simp_all add: idem)

end

lemmas sum_sig_grow = r34.foldl_grow [folded sum_sig_def]
lemmas sum_sig_filter_le = r34.foldl_filter_le [folded sum_sig_def]
lemmas sum_sig_pos = r34.foldl_pos [folded sum_sig_def]
lemmas sum_sig_fixed = r34.foldl_fixed [folded sum_sig_def]

lemma sum_sig_append: "sum_sig p a (xs @ ys) = sum_sig p (sum_sig p a xs) ys"
  by (simp add: sum_sig_def)

text \<open>
  Numbers on a common decimal grid add up exactly as long as the total has at most \<open>p\<close> digits.
\<close>

lemma sum_sig_exact:
  assumes "0 < p" "0 \<le> c" "\<forall>i\<in>set cs. (0::int) \<le> i" "c + sum_list cs \<le> 10 ^ p"
  shows "sum_sig p (of_int c * pow10 e) (map (\<lambda>i. of_int i * pow10 e) cs)
    = of_int (c + sum_list cs) * pow10 e"
  using assms(2-)
proof (induction cs arbitrary: c)
  case (Cons k ks)
  have "0 \<le> sum_list ks" using Cons.prems by (intro sum_list_nonneg) auto
  with Cons.prems have "\<bar>c + k\<bar> \<le> 10 ^ p" by simp
  then have "fits p (of_int (c + k) * pow10 e)" unfolding fits_def by blast
  then have "round_sig p (of_int (c + k) * pow10 e) = of_int (c + k) * pow10 e"
    using assms(1) by (rule round_sig_fits)
  then have "round_sig p (of_int c * pow10 e + of_int k * pow10 e) = of_int (c + k) * pow10 e"
    by (simp add: ring_distribs(2))
  with Cons show ?case by (simp add: add.assoc del: of_int_add)
qed simp

section \<open>Eight places\<close>

text \<open>\<open>quantize\<close> to eight places; a coefficient of more than 34 digits is refused.\<close>

definition quantize_rate :: "decimal \<Rightarrow> decimal res" where
  "quantize_rate d =
     (if d = NaN then Inr NaN
      else if \<not> is_finite d then Inl InvalidOperation
      else let k = round_half_even (dval d * 10 ^ 8) in
        if \<bar>k\<bar> < 10 ^ 34 then Inr (dec_of (is_signed d) (of_int k / 10 ^ 8))
        else Inl InvalidOperation)"

lemma quantize_rate_value:
  assumes "quantize_rate d = Inr q" "is_finite d"
  shows "is_finite q" "dval q = of_int (round_half_even (dval d * 10 ^ 8)) / 10 ^ 8"
  using assms by (auto simp: quantize_rate_def Let_def split: if_splits)

lemma quantize_rate_bounds:
  assumes "quantize_rate d = Inr q" "is_finite d" "of_int lo / 10 ^ 8 \<le> dval d" "dval d \<le> of_int hi / 10 ^ 8"
  shows "of_int lo / 10 ^ 8 \<le> dval q" "dval q \<le> of_int hi / 10 ^ 8"
proof -
  have "of_int lo \<le> dval d * 10 ^ 8" "dval d * 10 ^ 8 \<le> of_int hi"
    using assms(3,4) by (simp_all add: field_simps)
  from this [THEN round_half_even_mono]
  have "lo \<le> round_half_even (dval d * 10 ^ 8)" "round_half_even (dval d * 10 ^ 8) \<le> hi"
    unfolding round_half_even_of_int .
  then show "of_int lo / 10 ^ 8 \<le> dval q" "dval q \<le> of_int hi / 10 ^ 8"
    unfolding quantize_rate_value(2) [OF assms(1,2)]
    by (simp_all add: divide_right_mono)
qed

lemma quantize_rate_defined:
  assumes "is_finite d" "\<bar>dval d\<bar> \<le> 10 ^ 25"
  obtains q where "quantize_rate d = Inr q"
proof -
  define k where "k = round_half_even (dval d * 10 ^ 8)"
  define y where "y = dval d * 10 ^ 8"
  have "\<bar>of_int k - y\<bar> \<le> 1 / 2" unfolding k_def y_def by (rule round_half_even_error)
  moreover have "\<bar>y\<bar> \<le> 10 ^ 25 * 10 ^ 8"
    unfolding y_def abs_mult using assms(2) by (intro mult_mono) simp_all
  moreover have "\<bar>of_int k\<bar> \<le> \<bar>of_int k - y\<bar> + \<bar>y\<bar>" by linarith
  ultimately have "\<bar>of_int k\<bar> < (10 ^ 34 :: rat)" by simp
  then have "(of_int \<bar>k\<bar> :: rat) < of_int (10 ^ 34)" by simp
  then have k: "\<bar>k\<bar> < 10 ^ 34" by (simp only: of_int_less_iff)
  have "quantize_rate d = Inr (dec_of (is_signed d) (of_int k / 10 ^ 8))"
    unfolding quantize_rate_def Let_def k_def [symmetric] using assms(1) k by (cases d) auto
  then show ?thesis by (rule that)
qed

lemma quantize_rate_error:
  assumes "quantize_rate d = Inr q" "is_finite d"
  shows "\<bar>dval q - dval d\<bar> \<le> 1 / (2 * 10 ^ 8)"
proof -
  define y where "y = dval d * 10 ^ 8"
  have "\<bar>of_int (round_half_even y) - y\<bar> \<le> 1 / 2" by (rule round_half_even_error)
  then show ?thesis
    unfolding quantize_rate_value(2) [OF assms] y_def [symmetric]
    by (simp add: y_def abs_le_iff field_simps)
qed

section \<open>Magnitudes\<close>

lemma round34_abs: "\<bar>round_sig 34 x\<bar> \<le> 2 * \<bar>x\<bar>"
proof -
  have "\<bar>round_sig 34 x - x\<bar> \<le> \<bar>x\<bar> / (2 * 10 ^ 33)" using round_sig_relative [of 34 x] by simp
  also have "\<dots> \<le> \<bar>x\<bar>" by (simp add: divide_le_eq_1 field_simps)
  finally show ?thesis by linarith
qed

lemma round34_ge: "0 \<le> r \<Longrightarrow> r * (1 - 1 / (2 * 10 ^ 33)) \<le> round_sig 34 r"
proof -
  assume "0 \<le> r"
  then have "\<bar>round_sig 34 r - r\<bar> \<le> r / (2 * 10 ^ 33)" using round_sig_relative [of 34 r] by simp
  then have "r - r / (2 * 10 ^ 33) \<le> round_sig 34 r" by linarith
  then show ?thesis by (simp add: right_diff_distrib)
qed

end
