(* ===== verification/Ledger_Values.thy ===== *)
theory Ledger_Values
  imports Decimal_Arith Trading_Events
begin

text \<open>
  Values and checks that the risk, order and position code share: instants with their offset,
  the texts, identifiers and symbols of an order, and the number checks of the constructors.
\<close>

section \<open>Instants with an offset\<close>

text \<open>
  A \<open>datetime\<close> whose offset matters: the instant and the offset in microseconds, \<open>None\<close> for a
  naive value.  Aware values compare by their instants.
\<close>

datatype moment = Moment (instant: int) (offset: "int option")

definition is_utc :: "moment \<Rightarrow> bool" where
  "is_utc m \<longleftrightarrow> offset m = Some 0"

definition utc :: "int \<Rightarrow> moment" where
  "utc i = Moment i (Some 0)"

lemma utc_sel [simp]: "instant (utc i) = i" "is_utc (utc i)"
  by (simp_all add: utc_def is_utc_def)

lemma is_utc_eq: "is_utc m \<Longrightarrow> m = utc (instant m)"
  by (cases m) (simp add: is_utc_def utc_def)

text \<open>\<open>_normalize_utc_datetime\<close>: anything but a UTC value is refused.\<close>

definition normalize_utc :: "moment \<Rightarrow> moment res" where
  "normalize_utc m = (if is_utc m then Inr (utc (instant m)) else Inl ValueError)"

definition max_moment :: "moment \<Rightarrow> moment \<Rightarrow> moment" where
  "max_moment a b = (if instant a < instant b then b else a)"

lemma instant_max_moment [simp]: "instant (max_moment a b) = max (instant a) (instant b)"
  by (simp add: max_moment_def)

lemma is_utc_max_moment [simp]: "is_utc a \<Longrightarrow> is_utc b \<Longrightarrow> is_utc (max_moment a b)"
  by (simp add: max_moment_def)

section \<open>Numbers\<close>

definition positive :: "decimal \<Rightarrow> bool" where
  "positive d \<longleftrightarrow> is_finite d \<and> \<not> dle d dzero"

definition non_negative :: "decimal \<Rightarrow> bool" where
  "non_negative d \<longleftrightarrow> is_finite d \<and> \<not> dlt d dzero"

lemma dzero_sel [simp]: "is_finite dzero" "dval dzero = 0" "dzero \<noteq> NegZero"
  by (simp_all add: dzero_def)

lemma positive_iff: "positive d \<longleftrightarrow> is_finite d \<and> 0 < dval d"
  by (cases d) (auto simp: positive_def)

lemma non_negative_iff: "non_negative d \<longleftrightarrow> is_finite d \<and> 0 \<le> dval d"
  by (cases d) (auto simp: non_negative_def)

lemma positive_finite [simp]: "positive d \<Longrightarrow> is_finite d"
  by (simp add: positive_def)

lemma non_negative_finite [simp]: "non_negative d \<Longrightarrow> is_finite d"
  by (simp add: non_negative_def)

definition opt_all :: "('a \<Rightarrow> bool) \<Rightarrow> 'a option \<Rightarrow> bool" where
  "opt_all P x \<longleftrightarrow> (case x of None \<Rightarrow> True | Some y \<Rightarrow> P y)"

lemma opt_all_simps [simp]: "opt_all P None" "opt_all P (Some x) = P x"
  by (simp_all add: opt_all_def)

section \<open>Texts\<close>

text \<open>\<open>_validate_non_empty_text\<close>: not empty, and without white space at its ends.\<close>

definition trimmed_text :: "string \<Rightarrow> bool" where
  "trimmed_text s \<longleftrightarrow> s \<noteq> [] \<and> s = py_strip s"

definition is_digit :: "char \<Rightarrow> bool" where
  "is_digit c \<longleftrightarrow> (let n = (of_char c :: nat) in 48 \<le> n \<and> n \<le> 57)"

definition is_upper_alnum :: "char \<Rightarrow> bool" where
  "is_upper_alnum c \<longleftrightarrow> (let n = (of_char c :: nat) in is_digit c \<or> (65 \<le> n \<and> n \<le> 90))"

text \<open>The pattern \<open>[1-9][0-9]*\<close> of an order identifier of the exchange.\<close>

definition exchange_order_id_ok :: "string \<Rightarrow> bool" where
  "exchange_order_id_ok s \<longleftrightarrow>
     trimmed_text s \<and> hd s \<noteq> CHR ''0'' \<and> list_all is_digit s"

definition supported_symbol :: string where
  "supported_symbol = ''ETHUSDT''"

text \<open>The pattern \<open>[A-Z0-9]+\<close> of an asset code.\<close>

definition asset_code_ok :: "string \<Rightarrow> bool" where
  "asset_code_ok s \<longleftrightarrow> trimmed_text s \<and> list_all is_upper_alnum s"

definition symbol_ok :: "string \<Rightarrow> bool" where
  "symbol_ok s \<longleftrightarrow> asset_code_ok s \<and> s = supported_symbol"

section \<open>Lists\<close>

fun map_res :: "('a \<Rightarrow> 'b res) \<Rightarrow> 'a list \<Rightarrow> 'b list res" where
  "map_res f [] = Inr []"
| "map_res f (x # xs) = ebind (f x) (\<lambda>y. ebind (map_res f xs) (\<lambda>ys. Inr (y # ys)))"

lemma map_res_defined:
  assumes "\<forall>x\<in>set xs. \<exists>y. f x = Inr y \<and> P x y"
  obtains ys where "map_res f xs = Inr ys" "list_all2 P xs ys"
proof -
  have "\<exists>ys. map_res f xs = Inr ys \<and> list_all2 P xs ys" using assms by (induction xs) auto
  then show ?thesis using that by blast
qed

end
