(* ===== verification/Buy_Risk.thy ===== *)
theory Buy_Risk
  imports Ledger_Values
begin

text \<open>
  The risk gate of a new BUY, \<open>domain/trading/risk.py\<close>: the control state of the manual kill
  switch, the policy, the budget of one decision with its consistency checks, and the evaluation
  of the gates in their documented order.  All sums round to 34 digits, half even.
\<close>

section \<open>Policy and control state\<close>

datatype daily_loss_scope = REALIZED_ONLY | REALIZED_AND_UNREALIZED

datatype manual_kill_behavior = BLOCK_NEW_ORDERS | CANCEL_AND_LIQUIDATE

record manual_kill_state =
  kc_active :: bool
  kc_version :: int
  kc_command_id :: "string option"
  kc_expected_version :: "int option"
  kc_behavior :: "manual_kill_behavior option"
  kc_policy_version :: "int option"

definition check_manual_kill_state :: "manual_kill_state \<Rightarrow> unit res" where
  "check_manual_kill_state k =
     ebind (require (0 \<le> kc_version k) ValueError) (\<lambda>_.
     case kc_command_id k of
       None \<Rightarrow>
         require (kc_version k = 0 \<and> \<not> kc_active k \<and> kc_expected_version k = None \<and>
                  kc_behavior k = None \<and> kc_policy_version k = None) ValueError
     | Some command \<Rightarrow>
         ebind (require (trimmed_text command) ValueError) (\<lambda>_.
         case kc_expected_version k of
           None \<Rightarrow> Inl TypeError
         | Some expected \<Rightarrow>
             require (0 \<le> expected \<and> (expected = kc_version k \<or> expected = kc_version k - 1) \<and>
                      (kc_behavior k = None \<longleftrightarrow> kc_policy_version k = None) \<and>
                      opt_all (\<lambda>v. 1 \<le> v) (kc_policy_version k)) ValueError))"

text \<open>A limit that is \<open>None\<close> is an explicit absence of the limit.\<close>

record risk_policy =
  rp_version :: int
  rp_max_order_notional :: "decimal option"
  rp_max_position_notional :: "decimal option"
  rp_max_daily_loss :: "decimal option"
  rp_daily_loss_scope :: daily_loss_scope
  rp_manual_kill_behavior :: manual_kill_behavior

definition risk_policy_ok :: "risk_policy \<Rightarrow> bool" where
  "risk_policy_ok p \<longleftrightarrow>
     1 \<le> rp_version p \<and> opt_all positive (rp_max_order_notional p) \<and>
     opt_all positive (rp_max_position_notional p) \<and> opt_all positive (rp_max_daily_loss p)"

datatype policy_state = Configured risk_policy | RiskPolicyUnavailable

section \<open>The budget\<close>

record risk_budget =
  rb_policy_version :: "int option"
  rb_market_version :: int
  rb_account_version :: int
  rb_context_version :: int
  rb_current_position_notional :: decimal
  rb_reserved_buy_notional :: decimal
  rb_candidate_order_notional :: decimal
  rb_projected_position_notional :: decimal
  rb_daily_realized_pnl :: decimal
  rb_unrealized_pnl :: decimal
  rb_daily_loss :: decimal
  rb_manual_kill_active :: bool
  rb_evaluated_at :: "moment option"
  rb_strategy_position_notional :: "decimal option"
  rb_residual_position_notional :: "decimal option"
  rb_remaining_position_notional :: "decimal option"
  rb_requested_order_notional :: "decimal option"
  rb_max_position_notional :: "decimal option"

text \<open>The values of the budget on their own.\<close>

definition budget_values_ok :: "risk_budget \<Rightarrow> bool" where
  "budget_values_ok b \<longleftrightarrow>
     opt_all (\<lambda>v. 1 \<le> v) (rb_policy_version b) \<and>
     0 \<le> rb_market_version b \<and> 0 \<le> rb_account_version b \<and> 0 \<le> rb_context_version b \<and>
     non_negative (rb_current_position_notional b) \<and> non_negative (rb_reserved_buy_notional b) \<and>
     non_negative (rb_candidate_order_notional b) \<and>
     non_negative (rb_projected_position_notional b) \<and> non_negative (rb_daily_loss b) \<and>
     is_finite (rb_daily_realized_pnl b) \<and> is_finite (rb_unrealized_pnl b)"

definition budget_options_ok :: "risk_budget \<Rightarrow> bool" where
  "budget_options_ok b \<longleftrightarrow>
     opt_all is_utc (rb_evaluated_at b) \<and>
     opt_all non_negative (rb_strategy_position_notional b) \<and>
     opt_all non_negative (rb_residual_position_notional b) \<and>
     opt_all non_negative (rb_remaining_position_notional b) \<and>
     opt_all non_negative (rb_requested_order_notional b) \<and>
     opt_all non_negative (rb_max_position_notional b) \<and>
     (rb_strategy_position_notional b = None \<longleftrightarrow> rb_residual_position_notional b = None)"

definition check_projection :: "risk_budget \<Rightarrow> unit res" where
  "check_projection b =
     ebind (add_at 34 (rb_current_position_notional b) (rb_reserved_buy_notional b)) (\<lambda>s.
     ebind (add_at 34 s (rb_candidate_order_notional b)) (\<lambda>expected.
     require (deq (rb_projected_position_notional b) expected) ValueError))"

definition check_breakdown :: "risk_budget \<Rightarrow> unit res" where
  "check_breakdown b =
     (case (rb_strategy_position_notional b, rb_residual_position_notional b) of
        (Some strategy, Some residual) \<Rightarrow>
          ebind (add_at 34 strategy residual) (\<lambda>s.
          require (deq s (rb_current_position_notional b)) ValueError)
      | _ \<Rightarrow> Inr ())"

definition check_remaining :: "risk_budget \<Rightarrow> unit res" where
  "check_remaining b =
     (case rb_remaining_position_notional b of
        None \<Rightarrow> Inr ()
      | Some remaining \<Rightarrow>
          (case rb_max_position_notional b of
             None \<Rightarrow> Inl ValueError
           | Some limit \<Rightarrow>
               ebind (sub_at 34 limit (rb_current_position_notional b)) (\<lambda>s.
               ebind (sub_at 34 s (rb_reserved_buy_notional b)) (\<lambda>rest.
               require (deq remaining (dmax dzero rest)) ValueError))))"

definition check_risk_budget :: "risk_budget \<Rightarrow> unit res" where
  "check_risk_budget b =
     ebind (require (budget_values_ok b) ValueError) (\<lambda>_.
     ebind (check_projection b) (\<lambda>_.
     ebind (require (budget_options_ok b) ValueError) (\<lambda>_.
     ebind (check_breakdown b) (\<lambda>_.
     check_remaining b))))"

section \<open>The decision\<close>

record risk_decision =
  rd_allowed :: bool
  rd_budget :: risk_budget
  rd_block_reason :: "risk_block_reason option"

definition risk_decision_ok :: "risk_decision \<Rightarrow> bool" where
  "risk_decision_ok d \<longleftrightarrow> (rd_allowed d \<longleftrightarrow> rd_block_reason d = None)"

definition blocked_decision :: "risk_budget \<Rightarrow> risk_block_reason \<Rightarrow> risk_decision" where
  "blocked_decision b reason =
     \<lparr>rd_allowed = False, rd_budget = b, rd_block_reason = Some reason\<rparr>"

definition calculate_daily_loss :: "daily_loss_scope \<Rightarrow> decimal \<Rightarrow> decimal \<Rightarrow> decimal res" where
  "calculate_daily_loss scope realized unrealized =
     ebind (if scope = REALIZED_AND_UNREALIZED then add_at 34 realized unrealized
            else Inr realized) (\<lambda>scoped.
     Inr (dmax (minus_at 34 scoped) dzero))"

definition exceeds :: "decimal \<Rightarrow> decimal option \<Rightarrow> bool" where
  "exceeds d limit \<longleftrightarrow> (case limit of None \<Rightarrow> False | Some m \<Rightarrow> dlt m d)"

definition reaches :: "decimal \<Rightarrow> decimal option \<Rightarrow> bool" where
  "reaches d limit \<longleftrightarrow> (case limit of None \<Rightarrow> False | Some m \<Rightarrow> dle m d)"

definition evaluate_configured :: "risk_policy \<Rightarrow> risk_budget \<Rightarrow> risk_decision res" where
  "evaluate_configured p b =
     (if rb_policy_version b \<noteq> Some (rp_version p)
      then Inr (blocked_decision b RISK_POLICY_VERSION_MISMATCH)
      else if rb_manual_kill_active b then Inr (blocked_decision b MANUAL_KILL_SWITCH_ACTIVE)
      else if exceeds (rb_candidate_order_notional b) (rp_max_order_notional p)
      then Inr (blocked_decision b RISK_ORDER_NOTIONAL_EXCEEDED)
      else
        ebind (calculate_daily_loss (rp_daily_loss_scope p) (rb_daily_realized_pnl b)
                 (rb_unrealized_pnl b)) (\<lambda>expected.
        ebind (require (deq (rb_daily_loss b) expected) ValueError) (\<lambda>_.
        if reaches (rb_daily_loss b) (rp_max_daily_loss p)
        then Inr (blocked_decision b RISK_DAILY_LOSS_EXCEEDED)
        else if exceeds (rb_projected_position_notional b) (rp_max_position_notional p)
        then Inr (blocked_decision b RISK_POSITION_NOTIONAL_EXCEEDED)
        else Inr \<lparr>rd_allowed = True, rd_budget = b, rd_block_reason = None\<rparr>)))"

definition evaluate_buy_risk :: "policy_state \<Rightarrow> risk_budget \<Rightarrow> risk_decision res" where
  "evaluate_buy_risk ps b =
     (case ps of
        RiskPolicyUnavailable \<Rightarrow> Inr (blocked_decision b RISK_POLICY_UNAVAILABLE)
      | Configured p \<Rightarrow> evaluate_configured p b)"

section \<open>Facts\<close>

lemma check_risk_budget_ok:
  assumes "check_risk_budget b = Inr u"
  shows "budget_values_ok b" "check_projection b = Inr ()"
  using assms by (auto simp: check_risk_budget_def ebind_eq_Inr)

text \<open>The projected exposure is the sum, rounded twice.\<close>

lemma projection_value:
  assumes "check_risk_budget b = Inr u"
  shows "dval (rb_projected_position_notional b) = round_sig 34 (round_sig 34
    (dval (rb_current_position_notional b) + dval (rb_reserved_buy_notional b))
    + dval (rb_candidate_order_notional b))"
  using check_risk_budget_ok [OF assms]
  by (simp add: budget_values_ok_def check_projection_def finite_arith)

lemma daily_loss_value:
  assumes "is_finite r" "is_finite u"
  shows "\<exists>z. calculate_daily_loss scope r u = Inr z \<and> is_finite z \<and>
    dval z = max 0 (round_sig 34 (- (if scope = REALIZED_AND_UNREALIZED
       then round_sig 34 (dval r + dval u) else dval r)))"
  using assms
  by (cases scope) (auto simp: calculate_daily_loss_def finite_arith max.commute)

text \<open>Rounding loses at most half a unit of the 34th digit.\<close>

lemma round34_ge_twice:
  assumes "0 \<le> a" "0 \<le> c"
  shows "(a + c) * (1 - 1 / 10 ^ 33) \<le> round_sig 34 (round_sig 34 a + c)"
proof -
  define k :: rat where "k = 1 / (2 * 10 ^ 33)"
  have k: "0 \<le> k" "k \<le> 1" by (simp_all add: k_def)
  have a: "a * (1 - k) \<le> round_sig 34 a" using round34_ge [OF assms(1)] by (simp add: k_def)
  have "(a + c) * (1 - 1 / 10 ^ 33) = (a + c) * (1 - 2 * k)" by (simp add: k_def)
  also have "\<dots> \<le> (a + c) * ((1 - k) * (1 - k))"
    using assms k by (intro mult_left_mono) (auto simp: algebra_simps)
  also have "\<dots> = (a * (1 - k) + c * (1 - k)) * (1 - k)" by (simp add: algebra_simps)
  also have "\<dots> \<le> (round_sig 34 a + c) * (1 - k)"
    using a assms k by (intro mult_right_mono add_mono) (auto simp: mult_left_le)
  also have "\<dots> \<le> round_sig 34 (round_sig 34 a + c)"
    unfolding k_def using assms by (intro round34_ge add_nonneg_nonneg r34.nonneg)
  finally show ?thesis .
qed

text \<open>The gates of a configured policy, in their order, on a consistent budget.\<close>

definition failed_gates :: "risk_policy \<Rightarrow> risk_budget \<Rightarrow> (risk_block_reason \<times> bool) list" where
  "failed_gates p b =
     [(RISK_POLICY_VERSION_MISMATCH, rb_policy_version b \<noteq> Some (rp_version p)),
      (MANUAL_KILL_SWITCH_ACTIVE, rb_manual_kill_active b),
      (RISK_ORDER_NOTIONAL_EXCEEDED,
       \<exists>m. rp_max_order_notional p = Some m \<and> dval m < dval (rb_candidate_order_notional b)),
      (RISK_DAILY_LOSS_EXCEEDED,
       \<exists>m. rp_max_daily_loss p = Some m \<and> dval m \<le> dval (rb_daily_loss b)),
      (RISK_POSITION_NOTIONAL_EXCEEDED,
       \<exists>m. rp_max_position_notional p = Some m \<and> dval m < dval (rb_projected_position_notional b))]"

lemma evaluate_configured_gates:
  assumes "risk_policy_ok p" "budget_values_ok b"
    and "calculate_daily_loss (rp_daily_loss_scope p) (rb_daily_realized_pnl b) (rb_unrealized_pnl b)
      = Inr l" "deq (rb_daily_loss b) l"
  shows "evaluate_configured p b = Inr (case List.find snd (failed_gates p b) of
      None \<Rightarrow> \<lparr>rd_allowed = True, rd_budget = b, rd_block_reason = None\<rparr>
    | Some (reason, _) \<Rightarrow> blocked_decision b reason)"
proof -
  note ok = assms(1,2) [unfolded risk_policy_ok_def budget_values_ok_def]
  have order: "exceeds (rb_candidate_order_notional b) (rp_max_order_notional p) \<longleftrightarrow>
      (\<exists>m. rp_max_order_notional p = Some m \<and> dval m < dval (rb_candidate_order_notional b))"
    using ok by (cases "rp_max_order_notional p") (auto simp: exceeds_def)
  have loss: "reaches (rb_daily_loss b) (rp_max_daily_loss p) \<longleftrightarrow>
      (\<exists>m. rp_max_daily_loss p = Some m \<and> dval m \<le> dval (rb_daily_loss b))"
    using ok by (cases "rp_max_daily_loss p") (auto simp: reaches_def)
  have position: "exceeds (rb_projected_position_notional b) (rp_max_position_notional p) \<longleftrightarrow>
      (\<exists>m. rp_max_position_notional p = Some m \<and> dval m < dval (rb_projected_position_notional b))"
    using ok by (cases "rp_max_position_notional p") (auto simp: exceeds_def)
  show ?thesis
    unfolding evaluate_configured_def failed_gates_def
      order [symmetric] loss [symmetric] position [symmetric]
    using assms(3,4) by simp
qed

lemma allowed_gates:
  assumes "evaluate_buy_risk ps b = Inr d" "rd_allowed d"
  obtains p l where "ps = Configured p" "rb_policy_version b = Some (rp_version p)"
    "\<not> rb_manual_kill_active b" "\<not> exceeds (rb_candidate_order_notional b) (rp_max_order_notional p)"
    "calculate_daily_loss (rp_daily_loss_scope p) (rb_daily_realized_pnl b) (rb_unrealized_pnl b) = Inr l"
    "deq (rb_daily_loss b) l" "\<not> reaches (rb_daily_loss b) (rp_max_daily_loss p)"
    "\<not> exceeds (rb_projected_position_notional b) (rp_max_position_notional p)"
  using assms
  by (auto simp: evaluate_buy_risk_def evaluate_configured_def blocked_decision_def ebind_eq_Inr
      split: policy_state.splits if_splits)

lemma evaluate_buy_risk_ok:
  "evaluate_buy_risk ps b = Inr d \<Longrightarrow> risk_decision_ok d \<and> rd_budget d = b"
  by (auto simp: evaluate_buy_risk_def evaluate_configured_def blocked_decision_def ebind_eq_Inr
      risk_decision_ok_def split: policy_state.splits if_splits)

end
