(* ===== verification/Order_Fills.thy ===== *)
theory Order_Fills
  imports Ledger_Values
begin

text \<open>
  The facts of an executed order: the valuation of a BNB fee (\<open>domain/trading/fee_valuation.py\<close>),
  and from \<open>domain/trading/order.py\<close> the fill, the normalised result of the exchange, the
  aggregation of fills and the execution summary that the position consumes.
\<close>

section \<open>The valuation of a BNB fee\<close>

record bnb_valuation =
  bv_open_time_ms :: int
  bv_close_time_ms :: int
  bv_rate :: decimal
  bv_source :: string

definition bnb_valuation_ok :: "bnb_valuation \<Rightarrow> bool" where
  "bnb_valuation_ok v \<longleftrightarrow>
     bv_source v = ''BINANCE_BNBUSDT_PREVIOUS_1S_CLOSE_V1'' \<and>
     0 \<le> bv_open_time_ms v \<and> bv_open_time_ms v mod 1000 = 0 \<and>
     bv_close_time_ms v = bv_open_time_ms v + 999 \<and> positive (bv_rate v)"

text \<open>
  \<open>elapsed.days * 86400 + elapsed.seconds\<close> is the number of whole seconds since the epoch, rounded
  down; instants count microseconds since the epoch.
\<close>

definition quote_amount :: "bnb_valuation \<Rightarrow> decimal \<Rightarrow> moment \<Rightarrow> decimal res" where
  "quote_amount v amount executed_at =
     (if offset executed_at = None then Inl ValueError
      else if bv_close_time_ms v \<noteq> instant executed_at div 1000000 * 1000 - 1 then Inl ValueError
      else if \<not> non_negative amount then Inl ValueError
      else mul_at 34 amount (bv_rate v))"

section \<open>Fills\<close>

record fill =
  fl_exchange_order_id :: string
  fl_trade_id :: string
  fl_quantity :: decimal
  fl_price :: decimal
  fl_fee_amount :: decimal
  fl_fee_asset :: string
  fl_fee_quote_amount :: decimal
  fl_executed_at :: moment
  fl_fee_valuation :: "bnb_valuation option"

definition calculate_product :: "decimal \<Rightarrow> decimal \<Rightarrow> decimal res" where
  "calculate_product x y = mul_at 34 x y"

text \<open>The fee of each asset against its quote value.\<close>

definition check_fee :: "fill \<Rightarrow> unit res" where
  "check_fee f =
     (if fl_fee_asset f = ''BNB''
      then case fl_fee_valuation f of
          None \<Rightarrow> Inl FeeAssetReconciliationRequiredError
        | Some v \<Rightarrow>
            ebind (quote_amount v (fl_fee_amount f) (fl_executed_at f)) (\<lambda>expected.
            require (deq (fl_fee_quote_amount f) expected) ValueError)
      else if fl_fee_valuation f \<noteq> None then Inl ValueError
      else Inr ())"

definition check_quote_fee :: "fill \<Rightarrow> unit res" where
  "check_quote_fee f =
     (if fl_fee_asset f \<notin> {''ETH'', ''USDT'', ''BNB''} then Inl FeeAssetReconciliationRequiredError
      else if fl_fee_asset f = ''USDT''
      then require (deq (fl_fee_quote_amount f) (fl_fee_amount f)) ValueError
      else if fl_fee_asset f = ''ETH''
      then ebind (calculate_product (fl_fee_amount f) (fl_price f)) (\<lambda>expected.
           require (deq (fl_fee_quote_amount f) expected) ValueError)
      else Inr ())"

definition check_fill :: "fill \<Rightarrow> unit res" where
  "check_fill f =
     ebind (require (exchange_order_id_ok (fl_exchange_order_id f) \<and> trimmed_text (fl_trade_id f) \<and>
        positive (fl_quantity f) \<and> positive (fl_price f) \<and> non_negative (fl_fee_amount f) \<and>
        non_negative (fl_fee_quote_amount f) \<and> asset_code_ok (fl_fee_asset f)) ValueError) (\<lambda>_.
     ebind (check_quote_fee f) (\<lambda>_.
     ebind (check_fee f) (\<lambda>_.
     require (is_utc (fl_executed_at f)) ValueError)))"

text \<open>A fill that exists has passed its checks, and so has the valuation it carries.\<close>

definition fill_ok :: "fill \<Rightarrow> bool" where
  "fill_ok f \<longleftrightarrow> check_fill f = Inr () \<and> opt_all bnb_valuation_ok (fl_fee_valuation f)"

definition fill_key :: "fill \<Rightarrow> string \<times> string" where
  "fill_key f = (fl_exchange_order_id f, fl_trade_id f)"

definition fill_executed_amount :: "fill \<Rightarrow> decimal res" where
  "fill_executed_amount f = calculate_product (fl_quantity f) (fl_price f)"

text \<open>Dataclass equality: field by field, decimals by their number.\<close>

definition fill_norm :: "fill \<Rightarrow> fill" where
  "fill_norm f = f\<lparr>fl_quantity := dnorm (fl_quantity f), fl_price := dnorm (fl_price f),
     fl_fee_amount := dnorm (fl_fee_amount f), fl_fee_quote_amount := dnorm (fl_fee_quote_amount f),
     fl_fee_valuation := map_option (\<lambda>v. v\<lparr>bv_rate := dnorm (bv_rate v)\<rparr>) (fl_fee_valuation f)\<rparr>"

definition fill_same :: "fill \<Rightarrow> fill \<Rightarrow> bool" where
  "fill_same a b \<longleftrightarrow> fill_norm a = fill_norm b"

lemma fill_same_refl [simp]: "fill_same f f"
  by (simp add: fill_same_def)

lemma fill_norm_sel:
  "fl_exchange_order_id (fill_norm f) = fl_exchange_order_id f"
  "fl_trade_id (fill_norm f) = fl_trade_id f"
  "fl_quantity (fill_norm f) = dnorm (fl_quantity f)"
  "fl_executed_at (fill_norm f) = fl_executed_at f"
  by (simp_all add: fill_norm_def)

lemma fill_same_key: "fill_same a b \<Longrightarrow> fill_key a = fill_key b"
  using fill_norm_sel [of a] fill_norm_sel [of b] by (simp add: fill_same_def fill_key_def)

lemma fill_ok_values:
  assumes "fill_ok f"
  shows "positive (fl_quantity f)" "positive (fl_price f)" "non_negative (fl_fee_amount f)"
    "non_negative (fl_fee_quote_amount f)" "is_utc (fl_executed_at f)"
    "exchange_order_id_ok (fl_exchange_order_id f)" "asset_code_ok (fl_fee_asset f)"
    "fl_fee_asset f \<in> {''ETH'', ''USDT'', ''BNB''}"
  using assms
  by (auto simp: fill_ok_def check_fill_def check_quote_fee_def ebind_eq_Inr split: if_splits)

lemma fill_amount_ok:
  assumes "fill_ok f"
  shows "\<exists>z. fill_executed_amount f = Inr z \<and> positive z \<and>
    dval z = round_sig 34 (dval (fl_quantity f) * dval (fl_price f))"
  using fill_ok_values(1,2) [OF assms]
  by (auto simp: fill_executed_amount_def calculate_product_def finite_arith positive_iff
      intro: round_sig_pos)

section \<open>Order results\<close>

datatype order_status =
    ORDER_UNKNOWN
  | PENDING_NEW
  | ORDER_NEW
  | PARTIALLY_FILLED
  | PENDING_CANCEL
  | FILLED
  | CANCELED
  | REJECTED
  | EXPIRED
  | EXPIRED_IN_MATCH

datatype order_failure_kind = SUBMISSION_REJECTED | ORDER_NOT_VISIBLE | NOT_SUBMITTED_EXPIRED

definition active_statuses :: "order_status set" where
  "active_statuses = {PENDING_NEW, ORDER_NEW, PARTIALLY_FILLED, PENDING_CANCEL}"

definition terminal_statuses :: "order_status set" where
  "terminal_statuses = {FILLED, CANCELED, REJECTED, EXPIRED, EXPIRED_IN_MATCH}"

fun active_progress :: "order_status \<Rightarrow> nat" where
  "active_progress PENDING_NEW = 0"
| "active_progress ORDER_NEW = 1"
| "active_progress PARTIALLY_FILLED = 2"
| "active_progress PENDING_CANCEL = 3"
| "active_progress _ = 0"

record order_result =
  os_symbol :: string
  os_client_order_id :: string
  os_status :: order_status
  os_processed_at :: moment
  os_exchange_order_id :: "string option"
  os_fills :: "fill list"
  os_failure_reason :: "string option"
  os_failure_kind :: "order_failure_kind option"
  os_retry_after :: "timedelta option"

definition failure_kind_ok :: "order_result \<Rightarrow> bool" where
  "failure_kind_ok r \<longleftrightarrow>
     (case os_failure_kind r of
        None \<Rightarrow> True
      | Some SUBMISSION_REJECTED \<Rightarrow> os_status r = REJECTED \<and> os_fills r = []
      | Some ORDER_NOT_VISIBLE \<Rightarrow> os_status r = ORDER_UNKNOWN \<and> os_fills r = []
      | Some NOT_SUBMITTED_EXPIRED \<Rightarrow>
          os_status r = REJECTED \<and> os_fills r = [] \<and> os_exchange_order_id r = None)"

definition order_result_ok :: "order_result \<Rightarrow> bool" where
  "order_result_ok r \<longleftrightarrow>
     symbol_ok (os_symbol r) \<and> trimmed_text (os_client_order_id r) \<and>
     opt_all exchange_order_id_ok (os_exchange_order_id r) \<and>
     list_all fill_ok (os_fills r) \<and>
     (os_fills r \<noteq> [] \<longrightarrow> os_exchange_order_id r \<noteq> None) \<and>
     list_all (\<lambda>f. os_exchange_order_id r = Some (fl_exchange_order_id f)) (os_fills r) \<and>
     opt_all trimmed_text (os_failure_reason r) \<and> failure_kind_ok r \<and>
     opt_all (\<lambda>d. 0 \<le> d) (os_retry_after r) \<and> is_utc (os_processed_at r)"

section \<open>Aggregation\<close>

record aggregate =
  ag_quantity :: decimal
  ag_amount :: decimal
  ag_average_price :: decimal
  ag_fee_amount :: decimal
  ag_fee_asset :: string
  ag_fee_quote_amount :: decimal
  ag_executed_at :: moment

definition single_fee_asset :: "fill list \<Rightarrow> string option" where
  "single_fee_asset fills =
     (case remdups (map fl_fee_asset fills) of [a] \<Rightarrow> Some a | _ \<Rightarrow> None)"

definition aggregate_fills :: "fill list \<Rightarrow> aggregate res" where
  "aggregate_fills fills =
     (case fills of
        [] \<Rightarrow> Inl ExecutionSummaryUnavailableError
      | first # rest \<Rightarrow>
          if single_fee_asset fills = None \<and> ''BNB'' \<notin> set (map fl_fee_asset fills)
          then Inl MixedFeeAssetError
          else
            ebind (sum_at 34 dzero (map fl_quantity fills)) (\<lambda>quantity.
            ebind (map_res fill_executed_amount fills) (\<lambda>amounts.
            ebind (sum_at 34 dzero amounts) (\<lambda>amount.
            ebind (div_at 34 amount quantity) (\<lambda>average.
            ebind (if single_fee_asset fills = None then Inr dzero
                   else sum_at 34 dzero (map fl_fee_amount fills)) (\<lambda>fee.
            ebind (sum_at 34 dzero (map fl_fee_quote_amount fills)) (\<lambda>fee_quote.
            Inr \<lparr>ag_quantity = quantity, ag_amount = amount, ag_average_price = average,
              ag_fee_amount = fee,
              ag_fee_asset = (case single_fee_asset fills of None \<Rightarrow> ''MIXED'' | Some a \<Rightarrow> a),
              ag_fee_quote_amount = fee_quote,
              ag_executed_at = fold max_moment (map fl_executed_at rest) (fl_executed_at first)\<rparr>)))))))"

section \<open>The execution summary\<close>

record execution_summary =
  es_exchange_order_id :: string
  es_client_order_id :: string
  es_symbol :: string
  es_side :: order_side
  es_strategy :: strategy_type
  es_regime_type :: regime_type
  es_exit_reason :: "exit_reason option"
  es_requested_quantity :: decimal
  es_submitted_quantity :: decimal
  es_executed_quantity :: decimal
  es_executed_amount :: decimal
  es_average_fill_price :: decimal
  es_fee_amount :: decimal
  es_fee_asset :: string
  es_fee_quote_amount :: decimal
  es_executed_at :: moment
  es_fills :: "fill list"

definition base_fee_of :: "fill list \<Rightarrow> decimal \<Rightarrow> string \<Rightarrow> decimal res" where
  "base_fee_of fills fee_amount fee_asset =
     (if fills = [] then Inr (if fee_asset = ''ETH'' then fee_amount else dzero)
      else sum_at 34 dzero (map fl_fee_amount (filter (\<lambda>f. fl_fee_asset f = ''ETH'') fills)))"

definition non_base_fee_of :: "fill list \<Rightarrow> decimal \<Rightarrow> string \<Rightarrow> decimal res" where
  "non_base_fee_of fills fee_quote fee_asset =
     (if fills = [] then Inr (if fee_asset \<noteq> ''ETH'' then fee_quote else dzero)
      else sum_at 34 dzero (map fl_fee_quote_amount (filter (\<lambda>f. fl_fee_asset f \<noteq> ''ETH'') fills)))"

definition base_fee_amount :: "execution_summary \<Rightarrow> decimal res" where
  "base_fee_amount s = base_fee_of (es_fills s) (es_fee_amount s) (es_fee_asset s)"

definition non_base_fee_quote_amount :: "execution_summary \<Rightarrow> decimal res" where
  "non_base_fee_quote_amount s = non_base_fee_of (es_fills s) (es_fee_quote_amount s) (es_fee_asset s)"

definition summary_matches :: "aggregate \<Rightarrow> execution_summary \<Rightarrow> bool" where
  "summary_matches a s \<longleftrightarrow>
     deq (ag_quantity a) (es_executed_quantity s) \<and> deq (ag_amount a) (es_executed_amount s) \<and>
     deq (ag_average_price a) (es_average_fill_price s) \<and> deq (ag_fee_amount a) (es_fee_amount s) \<and>
     ag_fee_asset a = es_fee_asset s \<and> deq (ag_fee_quote_amount a) (es_fee_quote_amount s) \<and>
     instant (ag_executed_at a) = instant (es_executed_at s)"

definition summary_values_ok :: "execution_summary \<Rightarrow> bool" where
  "summary_values_ok s \<longleftrightarrow>
     exchange_order_id_ok (es_exchange_order_id s) \<and> trimmed_text (es_client_order_id s) \<and>
     symbol_ok (es_symbol s) \<and>
     positive (es_requested_quantity s) \<and> positive (es_submitted_quantity s) \<and>
     positive (es_executed_quantity s) \<and> positive (es_executed_amount s) \<and>
     positive (es_average_fill_price s) \<and>
     \<not> dlt (es_requested_quantity s) (es_submitted_quantity s) \<and>
     \<not> dlt (es_submitted_quantity s) (es_executed_quantity s) \<and>
     non_negative (es_fee_amount s) \<and> non_negative (es_fee_quote_amount s) \<and>
     asset_code_ok (es_fee_asset s) \<and> es_fills s \<noteq> [] \<and>
     list_all (\<lambda>f. fl_exchange_order_id f = es_exchange_order_id s) (es_fills s)"

definition check_summary :: "execution_summary \<Rightarrow> unit res" where
  "check_summary s =
     ebind (require (summary_values_ok s) ValueError) (\<lambda>_.
     ebind (require (distinct (map fill_key (es_fills s))) DuplicateFillConflictError) (\<lambda>_.
     ebind (aggregate_fills (es_fills s)) (\<lambda>a.
     ebind (require (summary_matches a s) ValueError) (\<lambda>_.
     require (is_utc (es_executed_at s)) ValueError))))"

definition summary_ok :: "execution_summary \<Rightarrow> bool" where
  "summary_ok s \<longleftrightarrow> check_summary s = Inr () \<and> list_all fill_ok (es_fills s)"

section \<open>Facts about aggregation\<close>

lemma map_res_amounts:
  "list_all fill_ok fs \<Longrightarrow>
   \<exists>zs. map_res fill_executed_amount fs = Inr zs \<and> list_all positive zs \<and> length zs = length fs \<and>
     map dval zs = map (\<lambda>f. round_sig 34 (dval (fl_quantity f) * dval (fl_price f))) fs"
proof (induction fs)
  case (Cons f fs)
  obtain z where "fill_executed_amount f = Inr z" "positive z"
    "dval z = round_sig 34 (dval (fl_quantity f) * dval (fl_price f))"
    using fill_amount_ok [of f] Cons.prems by auto
  with Cons show ?case by auto
qed simp

text \<open>The executed quantity of a list of fills as a number.\<close>

definition total_quantity :: "fill list \<Rightarrow> rat" where
  "total_quantity fs = sum_sig 34 0 (map (\<lambda>f. dval (fl_quantity f)) fs)"

lemma sum_non_negative:
  assumes "list_all non_negative xs"
  shows "\<exists>z. sum_at 34 dzero xs = Inr z \<and> non_negative z \<and> dval z = sum_sig 34 0 (map dval xs)"
proof -
  have fin: "\<forall>x\<in>set xs. is_finite x" and pos: "\<forall>x\<in>set (map dval xs). 0 \<le> x"
    using assms by (auto simp: list_all_iff non_negative_iff)
  from sum_at_finite [OF _ fin, of dzero 34]
  obtain z where "sum_at 34 dzero xs = Inr z" "is_finite z" "dval z = sum_sig 34 0 (map dval xs)"
    by auto
  with sum_sig_grow [OF _ pos, of 0] show ?thesis by (auto simp: non_negative_iff)
qed

lemma sum_positive:
  assumes "list_all positive xs" "xs \<noteq> []"
  shows "\<exists>z. sum_at 34 dzero xs = Inr z \<and> positive z \<and> dval z = sum_sig 34 0 (map dval xs)"
proof -
  have fin: "\<forall>x\<in>set xs. is_finite x" and pos: "\<forall>x\<in>set (map dval xs). 0 < x"
    using assms by (auto simp: list_all_iff positive_iff)
  from sum_at_finite [OF _ fin, of dzero 34]
  obtain z where "sum_at 34 dzero xs = Inr z" "is_finite z" "dval z = sum_sig 34 0 (map dval xs)"
    by auto
  with sum_sig_pos [OF _ _ pos, of 0] assms(2) show ?thesis by (auto simp: positive_iff)
qed

lemma single_fee_asset_SomeD:
  assumes "single_fee_asset fs = Some a" "f \<in> set fs"
  shows "fl_fee_asset f = a"
proof -
  have "remdups (map fl_fee_asset fs) = [a]"
    using assms(1) by (auto simp: single_fee_asset_def split: list.splits)
  then have "set (map fl_fee_asset fs) = {a}" by (metis list.set(1,2) set_remdups)
  with assms(2) show ?thesis by auto
qed

lemma is_utc_fold: "list_all is_utc ms \<Longrightarrow> is_utc m \<Longrightarrow> is_utc (fold max_moment ms m)"
  by (induction ms arbitrary: m) simp_all

text \<open>Valid fills either mix fee assets without BNB or aggregate to valid numbers.\<close>

lemma aggregate_fills_cases:
  assumes "list_all fill_ok fs" "fs \<noteq> []"
  obtains (mixed) "aggregate_fills fs = Inl MixedFeeAssetError" "single_fee_asset fs = None"
    | (aggregate) a where "aggregate_fills fs = Inr a" "positive (ag_quantity a)"
      "dval (ag_quantity a) = total_quantity fs" "positive (ag_amount a)"
      "positive (ag_average_price a)"
      "dval (ag_average_price a) = round_sig 34 (dval (ag_amount a) / dval (ag_quantity a))"
      "non_negative (ag_fee_amount a)" "non_negative (ag_fee_quote_amount a)"
      "is_utc (ag_executed_at a)" "asset_code_ok (ag_fee_asset a)"
proof (cases "single_fee_asset fs = None \<and> ''BNB'' \<notin> set (map fl_fee_asset fs)")
  case True
  obtain f rest where fs: "fs = f # rest" using assms(2) by (cases fs) auto
  show ?thesis by (rule mixed) (use True in \<open>simp_all add: aggregate_fills_def fs\<close>)
next
  case False
  obtain f rest where fs: "fs = f # rest" using assms(2) by (cases fs) auto
  have all: "list_all positive (map fl_quantity fs)" "list_all non_negative (map fl_fee_amount fs)"
    "list_all non_negative (map fl_fee_quote_amount fs)" "list_all is_utc (map fl_executed_at fs)"
    using assms(1) by (auto simp: list_all_iff dest: fill_ok_values)
  obtain q where q: "sum_at 34 dzero (map fl_quantity fs) = Inr q" "positive q"
    "dval q = total_quantity fs"
    using sum_positive [OF all(1)] assms(2) by (auto simp: total_quantity_def comp_def)
  obtain zs where zs: "map_res fill_executed_amount fs = Inr zs" "list_all positive zs" "zs \<noteq> []"
    using map_res_amounts [OF assms(1)] assms(2) by fastforce
  obtain am where am: "sum_at 34 dzero zs = Inr am" "positive am"
    using sum_positive [OF zs(2,3)] by auto
  define av where "av = dec_of (is_signed am \<noteq> is_signed q) (round_sig 34 (dval am / dval q))"
  have av: "div_at 34 am q = Inr av" "positive av" "dval av = round_sig 34 (dval am / dval q)"
    using am(2) q(2) by (auto simp: div_at_finite av_def positive_iff intro: round_sig_pos)
  obtain fee where fee: "(if single_fee_asset fs = None then Inr dzero
      else sum_at 34 dzero (map fl_fee_amount fs)) = Inr fee" "non_negative fee"
  proof (cases "single_fee_asset fs")
    case None
    show ?thesis by (rule that [of dzero]) (simp_all add: None non_negative_iff)
  next
    case (Some a)
    then show ?thesis using sum_non_negative [OF all(2)] that by auto
  qed
  obtain quote where quote: "sum_at 34 dzero (map fl_fee_quote_amount fs) = Inr quote"
    "non_negative quote"
    using sum_non_negative [OF all(3)] by auto
  define asset where "asset = (case single_fee_asset fs of None \<Rightarrow> ''MIXED'' | Some a \<Rightarrow> a)"
  have asset: "asset_code_ok asset"
  proof (cases "single_fee_asset fs")
    case None
    then show ?thesis
      by (simp add: asset_def asset_code_ok_def trimmed_text_def py_strip_def py_isspace_def
          is_upper_alnum_def is_digit_def)
  next
    case (Some a)
    then have "fl_fee_asset f = a" by (rule single_fee_asset_SomeD) (simp add: fs)
    moreover have "fill_ok f" using assms(1) by (simp add: fs)
    ultimately show ?thesis using Some by (auto simp: asset_def dest: fill_ok_values(7))
  qed
  define t where "t = fold max_moment (map fl_executed_at rest) (fl_executed_at f)"
  have t: "is_utc t" unfolding t_def using all(4) by (intro is_utc_fold) (simp_all add: fs)
  have "aggregate_fills fs = Inr \<lparr>ag_quantity = q, ag_amount = am, ag_average_price = av,
      ag_fee_amount = fee, ag_fee_asset = asset, ag_fee_quote_amount = quote, ag_executed_at = t\<rparr>"
    by (insert False q(1) zs(1) am(1) av(1) fee(1) quote(1), cases "single_fee_asset fs")
      (simp_all add: aggregate_fills_def fs asset_def t_def del: sum_at.simps map_res.simps)
  then show ?thesis
    by (rule aggregate) (simp_all add: q am av fee quote t asset)
qed

text \<open>More fills never lower the executed quantity.\<close>

lemma total_quantity_append:
  assumes "list_all fill_ok gs"
  shows "total_quantity fs \<le> total_quantity (fs @ gs)"
proof -
  have "\<forall>x\<in>set (map (\<lambda>f. dval (fl_quantity f)) gs). 0 \<le> x"
    using assms fill_ok_values(1) by (fastforce simp: list_all_iff positive_iff)
  moreover have "round_sig 34 (total_quantity fs) = total_quantity fs"
    unfolding total_quantity_def by (rule sum_sig_fixed) simp
  ultimately show ?thesis
    unfolding total_quantity_def map_append sum_sig_append by (rule sum_sig_grow [rotated])
qed

end
