(* ===== verification/Order_Aggregate.thy ===== *)
theory Order_Aggregate
  imports Order_Fills "HOL-Library.Multiset"
begin

text \<open>
  The mutable \<open>Order\<close> of \<open>domain/trading/order.py\<close>: the intent fixed at its creation, the results
  of the exchange merged into it fill by fill, the summaries built from it, and the record of the
  fills that the position has taken.  An operation returns the order after it or the exception;
  the code assigns only after all checks, so an exception leaves the order as it was.
\<close>

section \<open>The order\<close>

record order_intent =
  oa_intent_id :: string
  oa_client_order_id :: string
  oa_submission_attempt :: int
  oa_symbol :: string
  oa_side :: order_side
  oa_strategy :: strategy_type
  oa_regime_type :: regime_type
  oa_requested_quantity :: decimal
  oa_submitted_quantity :: decimal
  oa_market_price_at_decision :: decimal
  oa_risk_policy_version :: "int option"
  oa_exit_reason :: "exit_reason option"
  oa_exit_pct_b_at_intent :: "decimal option"

text \<open>\<open>oa_fills_by_key\<close> is a dictionary in the order of insertion.\<close>

record order = order_intent +
  oa_exchange_order_id :: "string option"
  oa_status :: "order_status option"
  oa_filled_quantity :: decimal
  oa_filled_amount :: decimal
  oa_fill_price :: "decimal option"
  oa_fee_amount :: decimal
  oa_fee_asset :: "string option"
  oa_fee_quote_amount :: decimal
  oa_processed_at :: "moment option"
  oa_fills :: "fill list"
  oa_failure_reason :: "string option"
  oa_has_applied_result :: bool
  oa_fills_by_key :: "((string \<times> string) \<times> fill) list"
  oa_position_applied :: "(string \<times> string) set"

definition order_intent_ok :: "'a order_intent_scheme \<Rightarrow> bool" where
  "order_intent_ok i \<longleftrightarrow>
     trimmed_text (oa_intent_id i) \<and> trimmed_text (oa_client_order_id i) \<and>
     0 \<le> oa_submission_attempt i \<and> symbol_ok (oa_symbol i) \<and>
     oa_exit_reason i \<noteq> Some EXTERNAL_MANUAL \<and>
     (oa_side i = BUY \<longrightarrow> oa_exit_reason i = None) \<and>
     (case oa_exit_pct_b_at_intent i of
        None \<Rightarrow> True
      | Some d \<Rightarrow> is_finite d \<and> oa_side i = SELL \<and> oa_exit_reason i \<noteq> None \<and>
          oa_strategy i = CASE_C) \<and>
     positive (oa_requested_quantity i) \<and> positive (oa_submitted_quantity i) \<and>
     positive (oa_market_price_at_decision i) \<and>
     \<not> dlt (oa_requested_quantity i) (oa_submitted_quantity i) \<and>
     opt_all (\<lambda>v. 1 \<le> v) (oa_risk_policy_version i)"

definition create_order :: "order_intent \<Rightarrow> order res" where
  "create_order i =
     (if order_intent_ok i
      then Inr (order_intent.extend i
        \<lparr>oa_exchange_order_id = None, oa_status = None, oa_filled_quantity = dzero,
         oa_filled_amount = dzero, oa_fill_price = None, oa_fee_amount = dzero,
         oa_fee_asset = None, oa_fee_quote_amount = dzero, oa_processed_at = None, oa_fills = [],
         oa_failure_reason = None, oa_has_applied_result = False, oa_fills_by_key = [],
         oa_position_applied = {}\<rparr>)
      else Inl ValueError)"

section \<open>Applying a result\<close>

definition resolve_order_status :: "order_status option \<Rightarrow> order_status \<Rightarrow> order_status res" where
  "resolve_order_status current observed =
     (case current of
        None \<Rightarrow> Inr observed
      | Some c \<Rightarrow>
          if c \<in> terminal_statuses
          then if observed = c \<or> observed = ORDER_UNKNOWN then Inr c
               else if observed \<notin> terminal_statuses then Inr c
               else Inl OrderStateTransitionError
          else if observed = ORDER_UNKNOWN then Inr c
          else if c = ORDER_UNKNOWN then Inr observed
          else if c \<in> active_statuses \<and> observed \<in> active_statuses \<and>
                  active_progress observed < active_progress c
          then Inr c
          else Inr observed)"

definition validate_result_identity :: "order_result \<Rightarrow> order \<Rightarrow> unit res" where
  "validate_result_identity r od =
     require (os_symbol r = oa_symbol od \<and> os_client_order_id r = oa_client_order_id od \<and>
        (case oa_exchange_order_id od of
           None \<Rightarrow> True
         | Some x \<Rightarrow> (os_exchange_order_id r = None \<or> os_exchange_order_id r = Some x) \<and>
             list_all (\<lambda>f. fl_exchange_order_id f = x) (os_fills r)))
       OrderResultConflictError"

fun merge_fills ::
  "((string \<times> string) \<times> fill) list \<Rightarrow> fill list \<Rightarrow> ((string \<times> string) \<times> fill) list res" where
  "merge_fills d [] = Inr d"
| "merge_fills d (f # fs) =
     (case map_of d (fill_key f) of
        None \<Rightarrow> merge_fills (d @ [(fill_key f, f)]) fs
      | Some g \<Rightarrow> if fill_same g f then merge_fills d fs else Inl OrderResultConflictError)"

definition checked_aggregate :: "order \<Rightarrow> fill list \<Rightarrow> aggregate option res" where
  "checked_aggregate od fills =
     (if fills = [] then Inr None
      else ebind (aggregate_fills fills) (\<lambda>a.
           ebind (require (\<not> dlt (oa_submitted_quantity od) (ag_quantity a)) OrderResultConflictError)
             (\<lambda>_. Inr (Some a))))"

definition status_explained :: "order \<Rightarrow> order_status \<Rightarrow> aggregate option \<Rightarrow> bool" where
  "status_explained od st agg \<longleftrightarrow>
     (st = PARTIALLY_FILLED \<longrightarrow>
        (case agg of None \<Rightarrow> False | Some a \<Rightarrow> \<not> dle (oa_submitted_quantity od) (ag_quantity a))) \<and>
     (st = FILLED \<longrightarrow>
        (case agg of None \<Rightarrow> False | Some a \<Rightarrow> deq (ag_quantity a) (oa_submitted_quantity od)))"

definition commit_aggregate :: "aggregate option \<Rightarrow> order \<Rightarrow> order" where
  "commit_aggregate agg od =
     (case agg of
        None \<Rightarrow> od
      | Some a \<Rightarrow> od\<lparr>oa_filled_quantity := ag_quantity a, oa_filled_amount := ag_amount a,
          oa_fill_price := Some (ag_average_price a), oa_fee_amount := ag_fee_amount a,
          oa_fee_asset := Some (ag_fee_asset a), oa_fee_quote_amount := ag_fee_quote_amount a\<rparr>)"

text \<open>The time is updated first; the reason of the failure is compared with the updated time.\<close>

definition commit_result ::
  "order_result \<Rightarrow> order_status \<Rightarrow> ((string \<times> string) \<times> fill) list \<Rightarrow> aggregate option \<Rightarrow> order \<Rightarrow>
   order" where
  "commit_result r st d agg od =
     (let t = (case oa_processed_at od of
                 None \<Rightarrow> os_processed_at r
               | Some old \<Rightarrow> max_moment old (os_processed_at r));
          reason = (if os_failure_reason r \<noteq> None \<and>
                       (oa_failure_reason od = None \<or> instant t \<le> instant (os_processed_at r))
                    then os_failure_reason r else oa_failure_reason od)
      in commit_aggregate agg
        (od\<lparr>oa_exchange_order_id :=
             (if oa_exchange_order_id od = None then os_exchange_order_id r
              else oa_exchange_order_id od),
           oa_status := Some st, oa_fills_by_key := d, oa_fills := map snd d,
           oa_processed_at := Some t, oa_failure_reason := reason, oa_has_applied_result := True\<rparr>))"

definition apply_result :: "order_result \<Rightarrow> order \<Rightarrow> order res" where
  "apply_result r od =
     ebind (validate_result_identity r od) (\<lambda>_.
     ebind (merge_fills (oa_fills_by_key od) (os_fills r)) (\<lambda>d.
     ebind (resolve_order_status (oa_status od) (os_status r)) (\<lambda>st.
     ebind (checked_aggregate od (map snd d)) (\<lambda>agg.
     ebind (require (status_explained od st agg) OrderResultConflictError) (\<lambda>_.
     Inr (commit_result r st d agg od))))))"

definition apply_order_result :: "order_result \<Rightarrow> order \<Rightarrow> order res" where
  "apply_order_result r od =
     (if oa_has_applied_result od then Inl OrderStateTransitionError else apply_result r od)"

definition reapply_order_result :: "order_result \<Rightarrow> order \<Rightarrow> order res" where
  "reapply_order_result r od =
     (if \<not> oa_has_applied_result od then Inl OrderStateTransitionError else apply_result r od)"

section \<open>Summaries and applied fills\<close>

definition order_is_terminal :: "order \<Rightarrow> bool" where
  "order_is_terminal od \<longleftrightarrow> (case oa_status od of None \<Rightarrow> False | Some s \<Rightarrow> s \<in> terminal_statuses)"

definition unapplied_fills :: "order \<Rightarrow> fill list" where
  "unapplied_fills od = filter (\<lambda>f. fill_key f \<notin> oa_position_applied od) (oa_fills od)"

definition validate_fill_subset :: "fill list \<Rightarrow> order \<Rightarrow> fill list res" where
  "validate_fill_subset fills od =
     (if fills = [] then Inl ExecutionSummaryUnavailableError
      else if \<not> distinct (map fill_key fills) then Inl OrderResultConflictError
      else if \<not> list_all (\<lambda>f. case map_of (oa_fills_by_key od) (fill_key f) of
                None \<Rightarrow> False | Some g \<Rightarrow> fill_same g f) fills
      then Inl OrderResultConflictError
      else Inr fills)"

definition make_summary :: "order \<Rightarrow> string \<Rightarrow> fill list \<Rightarrow> aggregate \<Rightarrow> execution_summary" where
  "make_summary od xid fills a =
     \<lparr>es_exchange_order_id = xid, es_client_order_id = oa_client_order_id od,
      es_symbol = oa_symbol od, es_side = oa_side od, es_strategy = oa_strategy od,
      es_regime_type = oa_regime_type od, es_exit_reason = oa_exit_reason od,
      es_requested_quantity = oa_requested_quantity od,
      es_submitted_quantity = oa_submitted_quantity od,
      es_executed_quantity = ag_quantity a, es_executed_amount = ag_amount a,
      es_average_fill_price = ag_average_price a, es_fee_amount = ag_fee_amount a,
      es_fee_asset = ag_fee_asset a, es_fee_quote_amount = ag_fee_quote_amount a,
      es_executed_at = ag_executed_at a, es_fills = fills\<rparr>"

definition build_execution_summary ::
  "fill list option \<Rightarrow> bool \<Rightarrow> order \<Rightarrow> execution_summary res" where
  "build_execution_summary selection require_terminal od =
     (if require_terminal \<and> \<not> order_is_terminal od then Inl ExecutionSummaryUnavailableError
      else case oa_exchange_order_id od of
        None \<Rightarrow> Inl ExecutionSummaryUnavailableError
      | Some xid \<Rightarrow>
          ebind (case selection of None \<Rightarrow> Inr (oa_fills od) | Some fs \<Rightarrow> validate_fill_subset fs od)
            (\<lambda>fills.
          if fills = [] then Inl ExecutionSummaryUnavailableError
          else
            ebind (aggregate_fills fills) (\<lambda>a.
            let s = make_summary od xid fills a in
            ebind (check_summary s) (\<lambda>_. Inr s))))"

definition mark_fills_applied :: "fill list \<Rightarrow> order \<Rightarrow> order res" where
  "mark_fills_applied fills od =
     ebind (validate_fill_subset fills od) (\<lambda>fs.
     Inr (od\<lparr>oa_position_applied := oa_position_applied od \<union> set (map fill_key fs)\<rparr>))"

section \<open>Recovery records\<close>

datatype recovery_lifecycle =
    LIFE_PREPARED
  | LIFE_SUBMITTED
  | LIFE_UNKNOWN
  | LIFE_PARTIAL
  | LIFE_TERMINAL
  | LIFE_HISTORY_COMMITTED
  | LIFE_SUBMISSION_REJECTED_CONFIRMED
  | LIFE_NOT_SUBMITTED_CONFIRMED

datatype submission_provenance =
  LEGACY_PREPARED_AMBIGUOUS | SUBMITTED_FSYNC_PRECEDES_REST_POST

record recovery_record =
  rr_order :: order
  rr_lifecycle :: recovery_lifecycle
  rr_submission_provenance :: submission_provenance

section \<open>Statuses\<close>

text \<open>The progress of an order as a number; every terminal status is at the top.\<close>

fun status_rank :: "order_status option \<Rightarrow> nat" where
  "status_rank None = 0"
| "status_rank (Some ORDER_UNKNOWN) = 1"
| "status_rank (Some PENDING_NEW) = 2"
| "status_rank (Some ORDER_NEW) = 3"
| "status_rank (Some PARTIALLY_FILLED) = 4"
| "status_rank (Some PENDING_CANCEL) = 5"
| "status_rank (Some _) = 6"

lemma resolve_progress:
  assumes "resolve_order_status current observed = Inr n"
  shows "status_rank current \<le> status_rank (Some n)"
    and "Some n = current \<or> n = observed"
    and "current = Some c \<Longrightarrow> c \<in> terminal_statuses \<Longrightarrow> n = c"
proof -
  show "status_rank current \<le> status_rank (Some n)"
  proof (cases current)
    case (Some c)
    with assms show ?thesis
      by (cases c; cases observed)
        (auto simp: resolve_order_status_def terminal_statuses_def active_statuses_def)
  qed simp
  show "Some n = current \<or> n = observed" "current = Some c \<Longrightarrow> c \<in> terminal_statuses \<Longrightarrow> n = c"
    using assms by (auto simp: resolve_order_status_def split: option.splits if_splits)
qed

lemma resolve_again:
  assumes "resolve_order_status current observed = Inr n"
  shows "resolve_order_status (Some n) observed = Inr n"
proof (cases current)
  case None
  with assms show ?thesis by (cases n) (auto simp: resolve_order_status_def)
next
  case (Some c)
  with assms show ?thesis
    by (auto simp: resolve_order_status_def split: if_splits)
qed

section \<open>Merging fills\<close>

definition keyed :: "((string \<times> string) \<times> fill) list \<Rightarrow> bool" where
  "keyed d \<longleftrightarrow> (\<forall>kf\<in>set d. fst kf = fill_key (snd kf)) \<and> distinct (map fst d)"

lemma keyed_lookup: "keyed d \<Longrightarrow> map_of d k = Some f \<Longrightarrow> fill_key f = k \<and> f \<in> set (map snd d)"
  by (force simp: keyed_def dest: map_of_SomeD)

lemma keyed_mem: "keyed d \<Longrightarrow> f \<in> set (map snd d) \<Longrightarrow> map_of d (fill_key f) = Some f"
  by (force simp: keyed_def)

lemma keyed_keys: "keyed d \<Longrightarrow> map fill_key (map snd d) = map fst d"
  by (simp add: keyed_def)

text \<open>Merging only appends; it takes every new key, and only fills of the result.\<close>

lemma merge_fills_props:
  assumes "merge_fills d fs = Inr d'" "keyed d"
  shows "\<exists>new. d' = d @ new \<and> set (map snd new) \<subseteq> set fs" and "keyed d'"
    and "set (map fst d') = set (map fst d) \<union> set (map fill_key fs)"
    and "\<forall>f\<in>set fs. \<exists>g. map_of d' (fill_key f) = Some g \<and> fill_same g f"
proof -
  have "(\<exists>new. d' = d @ new \<and> set (map snd new) \<subseteq> set fs) \<and> keyed d' \<and>
    set (map fst d') = set (map fst d) \<union> set (map fill_key fs) \<and>
    (\<forall>f\<in>set fs. \<exists>g. map_of d' (fill_key f) = Some g \<and> fill_same g f)"
    using assms
  proof (induction d fs rule: merge_fills.induct)
    case (2 d f fs)
    show ?case
    proof (cases "map_of d (fill_key f)")
      case None
      then have keyed: "keyed (d @ [(fill_key f, f)])"
        using "2.prems"(2) by (auto simp: keyed_def map_of_eq_None_iff)
      have rec: "merge_fills (d @ [(fill_key f, f)]) fs = Inr d'" using None "2.prems"(1) by simp
      note ih = "2.IH"(1) [OF None rec keyed]
      then obtain new where new: "d' = d @ (fill_key f, f) # new" "set (map snd new) \<subseteq> set fs" by auto
      have "map_of d' (fill_key f) = Some f"
        using new(1) None by (simp add: map_add_def)
      with ih new show ?thesis by (auto intro!: exI [of _ "(fill_key f, f) # new"])
    next
      case (Some g)
      with "2.prems"(1) have same: "fill_same g f" and rec: "merge_fills d fs = Inr d'"
        by (auto split: if_splits)
      note ih = "2.IH"(2) [OF Some same rec "2.prems"(2)]
      then obtain new where new: "d' = d @ new" "set (map snd new) \<subseteq> set fs" by auto
      have "map_of d' (fill_key f) = Some g"
        unfolding new(1)
      proof (rule map_of_eq_Some_iff [THEN iffD2])
        have "distinct (map fst d')" using ih unfolding keyed_def by blast
        then show "distinct (map fst (d @ new))" unfolding new(1) .
        show "(fill_key f, g) \<in> set (d @ new)" using Some by (auto dest: map_of_SomeD)
      qed
      moreover have "set (map fst d) \<union> set (map fill_key (f # fs)) = set (map fst d) \<union> set (map fill_key fs)"
        using map_of_SomeD [OF Some] by force
      moreover have "set (map snd new) \<subseteq> set (f # fs)" using new(2) by auto
      ultimately show ?thesis using ih same new(1) by (metis set_ConsD)
    qed
  qed auto
  then show "\<exists>new. d' = d @ new \<and> set (map snd new) \<subseteq> set fs" "keyed d'"
    "set (map fst d') = set (map fst d) \<union> set (map fill_key fs)"
    "\<forall>f\<in>set fs. \<exists>g. map_of d' (fill_key f) = Some g \<and> fill_same g f"
    by blast+
qed

lemma merge_fills_known:
  "\<forall>f\<in>set fs. \<exists>g. map_of d (fill_key f) = Some g \<and> fill_same g f \<Longrightarrow> merge_fills d fs = Inr d"
  by (induction fs) auto

section \<open>The invariant of an order\<close>

definition aggregate_stored :: "order \<Rightarrow> bool" where
  "aggregate_stored od \<longleftrightarrow>
     (if oa_fills od = []
      then oa_filled_quantity od = dzero \<and> oa_filled_amount od = dzero \<and> oa_fill_price od = None
      else (\<exists>a. aggregate_fills (oa_fills od) = Inr a \<and> oa_filled_quantity od = ag_quantity a \<and>
            oa_filled_amount od = ag_amount a \<and> oa_fill_price od = Some (ag_average_price a)))"

definition order_inv :: "order \<Rightarrow> bool" where
  "order_inv od \<longleftrightarrow>
     order_intent_ok od \<and> (oa_has_applied_result od \<longleftrightarrow> oa_status od \<noteq> None) \<and>
     oa_fills od = map snd (oa_fills_by_key od) \<and> keyed (oa_fills_by_key od) \<and>
     list_all fill_ok (oa_fills od) \<and>
     list_all (\<lambda>f. oa_exchange_order_id od = Some (fl_exchange_order_id f)) (oa_fills od) \<and>
     opt_all exchange_order_id_ok (oa_exchange_order_id od) \<and>
     oa_position_applied od \<subseteq> fill_key ` set (oa_fills od) \<and> aggregate_stored od \<and>
     dval (oa_filled_quantity od) \<le> dval (oa_submitted_quantity od) \<and>
     (oa_status od = Some FILLED \<longrightarrow>
        dval (oa_filled_quantity od) = dval (oa_submitted_quantity od)) \<and>
     (oa_status od = Some PARTIALLY_FILLED \<longrightarrow> 0 < dval (oa_filled_quantity od) \<and>
        dval (oa_filled_quantity od) < dval (oa_submitted_quantity od))"

lemma order_intent_ok_truncate: "order_intent_ok (order_intent.truncate i) = order_intent_ok i"
  by (cases "oa_exit_pct_b_at_intent i") (simp_all add: order_intent_ok_def order_intent.defs)

lemma order_inv_create: "create_order i = Inr od \<Longrightarrow> order_inv od"
proof -
  assume "create_order i = Inr od"
  then have i: "order_intent_ok i" and od: "od = order_intent.extend i
        \<lparr>oa_exchange_order_id = None, oa_status = None, oa_filled_quantity = dzero,
         oa_filled_amount = dzero, oa_fill_price = None, oa_fee_amount = dzero,
         oa_fee_asset = None, oa_fee_quote_amount = dzero, oa_processed_at = None, oa_fills = [],
         oa_failure_reason = None, oa_has_applied_result = False, oa_fills_by_key = [],
         oa_position_applied = {}\<rparr>"
    by (simp_all add: create_order_def split: if_splits)
  have "order_intent.truncate od = i" by (simp add: od order_intent.defs)
  then have "order_intent_ok od" using i by (metis order_intent_ok_truncate)
  moreover from this have "positive (oa_submitted_quantity od)" by (simp add: order_intent_ok_def)
  ultimately show ?thesis
    by (simp add: order_inv_def aggregate_stored_def keyed_def positive_iff od order_intent.defs)
qed

lemma commit_result_sel [simp]:
  "oa_fills (commit_result r st d agg od) = map snd d"
  "oa_fills_by_key (commit_result r st d agg od) = d"
  "oa_status (commit_result r st d agg od) = Some st"
  "oa_has_applied_result (commit_result r st d agg od)"
  "oa_position_applied (commit_result r st d agg od) = oa_position_applied od"
  "oa_submitted_quantity (commit_result r st d agg od) = oa_submitted_quantity od"
  "oa_requested_quantity (commit_result r st d agg od) = oa_requested_quantity od"
  "oa_symbol (commit_result r st d agg od) = oa_symbol od"
  "oa_client_order_id (commit_result r st d agg od) = oa_client_order_id od"
  "oa_exchange_order_id (commit_result r st d agg od) =
     (if oa_exchange_order_id od = None then os_exchange_order_id r else oa_exchange_order_id od)"
  by (cases agg; simp add: commit_result_def commit_aggregate_def Let_def)+

lemma commit_result_intent [simp]:
  "order_intent.truncate (commit_result r st d agg od) = order_intent.truncate od"
  by (cases agg) (simp_all add: commit_result_def commit_aggregate_def Let_def order_intent.defs)

lemma commit_result_intent_ok [simp]:
  "order_intent_ok (commit_result r st d agg od) = order_intent_ok od"
  by (metis commit_result_intent order_intent_ok_truncate)

lemma apply_resultE:
  assumes "apply_result r od = Inr od'"
  obtains d st agg where "validate_result_identity r od = Inr ()"
    "merge_fills (oa_fills_by_key od) (os_fills r) = Inr d"
    "resolve_order_status (oa_status od) (os_status r) = Inr st"
    "checked_aggregate od (map snd d) = Inr agg" "status_explained od st agg"
    "od' = commit_result r st d agg od"
  using assms by (auto simp: apply_result_def ebind_eq_Inr)

lemma result_keeps_inv:
  assumes "order_inv od" "order_result_ok r" "apply_result r od = Inr od'"
  shows "order_inv od'"
  using assms(3)
proof (cases rule: apply_resultE)
  case (1 d st agg)
  note inv = assms(1) [unfolded order_inv_def] and r = assms(2) [unfolded order_result_ok_def]
  have old: "keyed (oa_fills_by_key od)" "oa_fills od = map snd (oa_fills_by_key od)"
    using inv by blast+
  have d: "keyed d" by (rule merge_fills_props(2) [OF 1(2) old(1)])
  obtain new where new: "d = oa_fills_by_key od @ new" "set (map snd new) \<subseteq> set (os_fills r)"
    using merge_fills_props(1) [OF 1(2) old(1)] by blast
  have sub: "set (map snd d) \<subseteq> set (oa_fills od) \<union> set (os_fills r)"
    and mono: "set (oa_fills od) \<subseteq> set (map snd d)" using new old(2) by auto
  have "list_all fill_ok (oa_fills od)" "list_all fill_ok (os_fills r)" using inv r by blast+
  then have ok: "list_all fill_ok (map snd d)" using sub by (auto simp: list_all_iff)
  have old_exch: "list_all (\<lambda>f. oa_exchange_order_id od = Some (fl_exchange_order_id f)) (oa_fills od)"
    and res_exch: "list_all (\<lambda>f. os_exchange_order_id r = Some (fl_exchange_order_id f)) (os_fills r)"
    using inv r by blast+
  have exch: "list_all (\<lambda>f. oa_exchange_order_id od' = Some (fl_exchange_order_id f)) (map snd d)"
  proof (cases "oa_exchange_order_id od")
    case None
    then have "oa_fills od = []" using old_exch by (cases "oa_fills od") auto
    then have "set (map snd d) \<subseteq> set (os_fills r)" using sub by simp
    with None res_exch show ?thesis unfolding 1(6) list_all_iff commit_result_sel by auto
  next
    case (Some x)
    with 1(1) have "list_all (\<lambda>f. fl_exchange_order_id f = x) (os_fills r)"
      by (simp add: validate_result_identity_def)
    with Some sub old_exch show ?thesis unfolding 1(6) list_all_iff commit_result_sel by auto
  qed
  have sub_pos: "positive (oa_submitted_quantity od)" using inv by (simp add: order_intent_ok_def)
  have agg: "aggregate_stored od' \<and>
      dval (oa_filled_quantity od') \<le> dval (oa_submitted_quantity od') \<and>
      (st = FILLED \<longrightarrow> dval (oa_filled_quantity od') = dval (oa_submitted_quantity od')) \<and>
      (st = PARTIALLY_FILLED \<longrightarrow> 0 < dval (oa_filled_quantity od') \<and>
        dval (oa_filled_quantity od') < dval (oa_submitted_quantity od'))"
  proof (cases "map snd d = []")
    case True
    then have none: "agg = None" using 1(4) by (simp add: checked_aggregate_def)
    have "oa_fills od = []" using mono True by auto
    moreover have "aggregate_stored od" using inv by blast
    ultimately have "oa_filled_quantity od' = dzero \<and> oa_filled_amount od' = dzero \<and>
        oa_fill_price od' = None"
      unfolding 1(6) none by (simp add: aggregate_stored_def commit_result_def
          commit_aggregate_def Let_def)
    moreover note none
    ultimately show ?thesis
      using 1(5) True sub_pos
      by (simp add: 1(6) aggregate_stored_def status_explained_def positive_iff)
  next
    case False
    with 1(4) obtain a where a: "aggregate_fills (map snd d) = Inr a" "agg = Some a"
      "\<not> dlt (oa_submitted_quantity od) (ag_quantity a)"
      by (auto simp: checked_aggregate_def ebind_eq_Inr)
    have q: "positive (ag_quantity a)"
      by (rule aggregate_fills_cases [OF ok False]) (use a in auto)
    have set: "oa_filled_quantity od' = ag_quantity a" "oa_filled_amount od' = ag_amount a"
      "oa_fill_price od' = Some (ag_average_price a)"
      by (simp_all add: 1(6) commit_result_def commit_aggregate_def Let_def a(2))
    then show ?thesis
      using a q sub_pos 1(5,6) False
      by (auto simp: aggregate_stored_def status_explained_def positive_iff finite_arith)
  qed
  have "oa_position_applied od \<subseteq> fill_key ` set (oa_fills od)" using inv by blast
  then have applied: "oa_position_applied od' \<subseteq> fill_key ` set (map snd d)"
    unfolding 1(6) commit_result_sel using mono by blast
  have "opt_all exchange_order_id_ok (oa_exchange_order_id od')"
    unfolding 1(6) using inv r by simp
  moreover have "order_intent_ok od'" unfolding 1(6) using inv by simp
  ultimately show ?thesis
    using agg ok exch d applied unfolding order_inv_def by (simp add: 1(6))
qed

lemma apply_result_steps:
  "apply_order_result r od = Inr od' \<or> reapply_order_result r od = Inr od' \<Longrightarrow>
   apply_result r od = Inr od'"
  by (auto simp: apply_order_result_def reapply_order_result_def split: if_splits)

text \<open>A result appends fills with new keys.\<close>

lemma result_appends:
  assumes "order_inv od" "apply_result r od = Inr od'"
  obtains new where "oa_fills od' = oa_fills od @ new" "set new \<subseteq> set (os_fills r)"
    "fill_key ` set new \<inter> fill_key ` set (oa_fills od) = {}"
    "fill_key ` set (oa_fills od') = fill_key ` set (oa_fills od) \<union> fill_key ` set (os_fills r)"
    "distinct (map fill_key (oa_fills od'))"
  using assms(2)
proof (cases rule: apply_resultE)
  case (1 d st agg)
  have old: "keyed (oa_fills_by_key od)" "oa_fills od = map snd (oa_fills_by_key od)"
    using assms(1) by (simp_all add: order_inv_def)
  obtain new where new: "d = oa_fills_by_key od @ new" "set (map snd new) \<subseteq> set (os_fills r)"
    using merge_fills_props(1) [OF 1(2) old(1)] by blast
  have d: "keyed d" by (rule merge_fills_props(2) [OF 1(2) old(1)])
  have keys: "map fill_key (map snd d) = map fst d" by (rule keyed_keys [OF d])
  have dist: "distinct (map fill_key (map snd d))" using d unfolding keys by (simp add: keyed_def)
  have "set (map fst d) = set (map fst (oa_fills_by_key od)) \<union> set (map fill_key (os_fills r))"
    by (rule merge_fills_props(3) [OF 1(2) old(1)])
  then have all: "set (map fill_key (map snd d))
      = set (map fill_key (oa_fills od)) \<union> set (map fill_key (os_fills r))"
    unfolding keys keyed_keys [OF old(1), folded old(2)] .
  show ?thesis
  proof (rule that [of "map snd new"])
    show "oa_fills od' = oa_fills od @ map snd new" by (simp add: 1(6) new(1) old(2))
    show "set (map snd new) \<subseteq> set (os_fills r)" by (rule new(2))
    show "fill_key ` set (map snd new) \<inter> fill_key ` set (oa_fills od) = {}"
      using dist unfolding new(1) old(2) by auto
    show "fill_key ` set (oa_fills od') = fill_key ` set (oa_fills od) \<union> fill_key ` set (os_fills r)"
      unfolding 1(6) commit_result_sel using all by (simp only: set_map)
    show "distinct (map fill_key (oa_fills od'))" unfolding 1(6) commit_result_sel by (rule dist)
  qed
qed

text \<open>The same result again changes nothing.\<close>

lemma max_moment_again [simp]: "max_moment (max_moment a b) b = max_moment a b"
  by (simp add: max_moment_def)

lemma commit_result_again:
  "commit_result r st d agg (commit_result r st d agg od) = commit_result r st d agg od"
proof -
  have "commit_aggregate agg (commit_aggregate agg x) = commit_aggregate agg x" for x
    by (cases agg) (simp_all add: commit_aggregate_def)
  moreover have "commit_aggregate agg x = commit_aggregate agg y" if "x = y" for x y
    using that by simp
  ultimately show ?thesis
    by (cases agg; cases "oa_processed_at od")
      (simp_all add: commit_result_def commit_aggregate_def Let_def max_moment_def)
qed

lemma apply_result_again:
  assumes "order_inv od" "order_result_ok r" "apply_result r od = Inr od'"
  shows "apply_result r od' = Inr od'"
  using assms(3)
proof (cases rule: apply_resultE)
  case (1 d st agg)
  have old: "keyed (oa_fills_by_key od)" using assms(1) by (simp add: order_inv_def)
  have "list_all (\<lambda>f. os_exchange_order_id r = Some (fl_exchange_order_id f)) (os_fills r)"
    using assms(2) by (simp add: order_result_ok_def)
  then have "validate_result_identity r od' = Inr ()"
    using 1(1) unfolding validate_result_identity_def 1(6)
    by (cases "oa_exchange_order_id od"; cases "os_exchange_order_id r") (auto simp: list_all_iff)
  moreover have "merge_fills d (os_fills r) = Inr d"
    by (rule merge_fills_known [OF merge_fills_props(4) [OF 1(2) old]])
  moreover have "checked_aggregate od' (map snd d) = Inr agg"
    using 1(4) unfolding checked_aggregate_def 1(6) commit_result_sel .
  moreover have "status_explained od' st agg"
    using 1(5) unfolding status_explained_def 1(6) commit_result_sel .
  ultimately show ?thesis
    using resolve_again [OF 1(3)]
    by (simp add: apply_result_def 1(6) commit_result_again del: merge_fills.simps)
qed

section \<open>Summaries of valid orders\<close>

lemma deq_refl: "is_finite d \<Longrightarrow> deq d d"
  by (simp add: deq_def)

text \<open>Fills of a valid order aggregate into a valid summary.\<close>

lemma summary_of_fills:
  assumes "order_inv od" "oa_exchange_order_id od = Some xid" "set fs \<subseteq> set (oa_fills od)"
    "fs \<noteq> []" "distinct (map fill_key fs)" "aggregate_fills fs = Inr a"
    "dval (ag_quantity a) \<le> dval (oa_submitted_quantity od)"
  shows "summary_ok (make_summary od xid fs a)"
proof -
  note inv = assms(1) [unfolded order_inv_def]
  have "list_all fill_ok (oa_fills od)" using inv by blast
  then have ok: "list_all fill_ok fs" using assms(3) unfolding list_all_iff by blast
  have exch: "list_all (\<lambda>f. fl_exchange_order_id f = xid) fs"
  proof -
    have "list_all (\<lambda>f. oa_exchange_order_id od = Some (fl_exchange_order_id f)) (oa_fills od)"
      using inv by blast
    then show ?thesis using assms(2,3) by (auto simp: list_all_iff)
  qed
  have "opt_all exchange_order_id_ok (oa_exchange_order_id od)" using inv by blast
  then have xid: "exchange_order_id_ok xid" unfolding assms(2) by simp
  have intent: "order_intent_ok od" using inv by blast
  from ok assms(4) have vals: "positive (ag_quantity a)" "positive (ag_amount a)"
    "positive (ag_average_price a)" "non_negative (ag_fee_amount a)"
    "non_negative (ag_fee_quote_amount a)" "is_utc (ag_executed_at a)" "asset_code_ok (ag_fee_asset a)"
    by (rule aggregate_fills_cases; use assms(6) in simp)+
  have below: "\<not> dlt (oa_submitted_quantity od) (ag_quantity a)" 
    using assms(7) intent vals(1) by (auto simp: positive_iff order_intent_ok_def finite_arith)
  have "summary_values_ok (make_summary od xid fs a)"
    using intent xid vals exch assms(4) below
    unfolding summary_values_ok_def order_intent_ok_def by (simp add: make_summary_def)
  moreover have "summary_matches a (make_summary od xid fs a)"
    using vals by (simp add: summary_matches_def make_summary_def deq_refl)
  ultimately have "check_summary (make_summary od xid fs a) = Inr ()"
    using assms(5,6) vals(6) by (simp add: check_summary_def make_summary_def)
  then show ?thesis using ok by (simp add: summary_ok_def make_summary_def)
qed

lemma terminal_summary:
  assumes "order_inv od" "order_is_terminal od" "oa_fills od \<noteq> []"
  obtains s where "build_execution_summary None True od = Inr s" "summary_ok s"
    "es_fills s = oa_fills od" "es_executed_quantity s = oa_filled_quantity od"
    "es_executed_amount s = oa_filled_amount od" "es_side s = oa_side od"
    "es_strategy s = oa_strategy od" "es_exit_reason s = oa_exit_reason od"
proof -
  note inv = assms(1) [unfolded order_inv_def]
  have "list_all (\<lambda>f. oa_exchange_order_id od = Some (fl_exchange_order_id f)) (oa_fills od)"
    using inv by blast
  then obtain xid where xid: "oa_exchange_order_id od = Some xid"
    using assms(3) by (cases "oa_fills od") auto
  have "aggregate_stored od" using inv by blast
  then obtain a where a: "aggregate_fills (oa_fills od) = Inr a"
    "oa_filled_quantity od = ag_quantity a" "oa_filled_amount od = ag_amount a"
    using assms(3) by (auto simp: aggregate_stored_def)
  have keyed: "keyed (oa_fills_by_key od)" "oa_fills od = map snd (oa_fills_by_key od)" using inv by blast+
  have "distinct (map fill_key (oa_fills od))"
    unfolding keyed(2) keyed_keys [OF keyed(1)] using keyed(1) by (simp add: keyed_def)
  moreover have "dval (ag_quantity a) \<le> dval (oa_submitted_quantity od)" using inv a(2) by simp
  ultimately have ok: "summary_ok (make_summary od xid (oa_fills od) a)"
    by (intro summary_of_fills [OF assms(1) xid subset_refl assms(3) _ a(1)])
  show ?thesis
    by (rule that [OF _ ok])
      (use assms(2,3) xid a ok in \<open>auto simp: build_execution_summary_def make_summary_def summary_ok_def\<close>)
qed

text \<open>The fills the position has not taken can be summarised and marked at any time.\<close>

lemma unapplied_valid:
  assumes "order_inv od" "unapplied_fills od \<noteq> []"
  shows "validate_fill_subset (unapplied_fills od) od = Inr (unapplied_fills od)"
proof -
  have keyed: "keyed (oa_fills_by_key od)" "oa_fills od = map snd (oa_fills_by_key od)"
    using assms(1) by (simp_all add: order_inv_def)
  have "distinct (map fill_key (oa_fills od))"
    unfolding keyed(2) keyed_keys [OF keyed(1)] using keyed(1) by (simp add: keyed_def)
  then have "distinct (map fill_key (unapplied_fills od))"
    by (simp add: unapplied_fills_def distinct_map_filter)
  moreover have "map_of (oa_fills_by_key od) (fill_key f) = Some f" if "f \<in> set (unapplied_fills od)" for f
    using that keyed_mem [OF keyed(1), folded keyed(2)] by (simp add: unapplied_fills_def)
  ultimately show ?thesis
    using assms(2) by (auto simp: validate_fill_subset_def list_all_iff)
qed

lemma unapplied_summary:
  assumes "order_inv od" "unapplied_fills od \<noteq> []"
  shows "build_execution_summary (Some (unapplied_fills od)) False od = Inl MixedFeeAssetError \<or>
    (\<exists>s. build_execution_summary (Some (unapplied_fills od)) False od = Inr s \<and> summary_ok s \<and>
      es_fills s = unapplied_fills od \<and> dval (es_executed_quantity s) = total_quantity (unapplied_fills od))"
proof -
  note inv = assms(1) [unfolded order_inv_def]
  note val = unapplied_valid [OF assms]
  have sub: "set (unapplied_fills od) \<subseteq> set (oa_fills od)" by (auto simp: unapplied_fills_def)
  have all: "list_all fill_ok (oa_fills od)" using inv by blast
  have ne: "oa_fills od \<noteq> []" using assms(2) by (auto simp: unapplied_fills_def)
  have ok: "list_all fill_ok (unapplied_fills od)" using all sub by (auto simp: list_all_iff)
  have dist: "distinct (map fill_key (unapplied_fills od))"
    using val by (simp add: validate_fill_subset_def split: if_splits)
  have "list_all (\<lambda>f. oa_exchange_order_id od = Some (fl_exchange_order_id f)) (oa_fills od)"
    using inv by blast
  then obtain xid where xid: "oa_exchange_order_id od = Some xid"
    using ne by (cases "oa_fills od") auto
  show ?thesis
    using ok assms(2)
  proof (cases rule: aggregate_fills_cases)
    case mixed
    then show ?thesis
      using val xid assms(2) by (simp add: build_execution_summary_def)
  next
    case (aggregate a)
    have "aggregate_stored od" using inv by blast
    then obtain b where b: "aggregate_fills (oa_fills od) = Inr b" "oa_filled_quantity od = ag_quantity b"
      using ne by (auto simp: aggregate_stored_def)
    have below: "dval (oa_filled_quantity od) \<le> dval (oa_submitted_quantity od)" using inv by blast
    have total: "dval (ag_quantity b) = total_quantity (oa_fills od)"
      by (rule aggregate_fills_cases [OF all ne]) (use b(1) in auto)
    have "total_quantity (unapplied_fills od) \<le> total_quantity (oa_fills od)"
      unfolding total_quantity_def unapplied_fills_def
      by (rule sum_sig_filter_le)
        (use all in \<open>auto simp: list_all_iff positive_iff dest!: fill_ok_values(1) intro: less_imp_le\<close>)
    then have "dval (ag_quantity a) \<le> dval (oa_submitted_quantity od)"
      using below unfolding b(2) total aggregate(3) by linarith
    from summary_of_fills [OF assms(1) xid sub assms(2) dist aggregate(1) this]
    show ?thesis
      using val xid assms(2) aggregate(1,3)
      by (auto simp: build_execution_summary_def summary_ok_def make_summary_def)
  qed
qed

section \<open>Runs of an order\<close>

text \<open>
  The controller applies results as they arrive and, whenever it has applied the fills that are
  new to the position, marks them.  The list collects these batches.
\<close>

inductive order_run :: "order_intent \<Rightarrow> order \<Rightarrow> fill list list \<Rightarrow> bool" for i :: order_intent where
  created: "create_order i = Inr od \<Longrightarrow> order_run i od []"
| result: "order_run i od bs \<Longrightarrow> order_result_ok r \<Longrightarrow>
     apply_order_result r od = Inr od' \<or> reapply_order_result r od = Inr od' \<Longrightarrow> order_run i od' bs"
| taken: "order_run i od bs \<Longrightarrow> unapplied_fills od \<noteq> [] \<Longrightarrow>
     mark_fills_applied (unapplied_fills od) od = Inr od' \<Longrightarrow>
     order_run i od' (bs @ [unapplied_fills od])"

lemma mark_unapplied:
  assumes "order_inv od" "mark_fills_applied (unapplied_fills od) od = Inr od'"
  shows "od' = od\<lparr>oa_position_applied := oa_position_applied od \<union> fill_key ` set (unapplied_fills od)\<rparr>"
    and "unapplied_fills od' = []" and "order_inv od'"
proof -
  have ne: "unapplied_fills od \<noteq> []"
    using assms(2) by (auto simp: mark_fills_applied_def validate_fill_subset_def)
  show od': "od' = od\<lparr>oa_position_applied := oa_position_applied od \<union> fill_key ` set (unapplied_fills od)\<rparr>"
    using assms(2) unapplied_valid [OF assms(1) ne] by (auto simp: mark_fills_applied_def)
  show "unapplied_fills od' = []"
    unfolding od' by (auto simp: unapplied_fills_def filter_empty_conv)
  have "order_intent_ok od' = order_intent_ok od"
    using order_intent_ok_truncate [of od] order_intent_ok_truncate [of od']
    by (simp add: od' order_intent.defs)
  then show "order_inv od'"
    using assms(1) unfolding order_inv_def
    by (auto simp: od' aggregate_stored_def unapplied_fills_def)
qed

lemma order_run_inv: "order_run i od bs \<Longrightarrow> order_inv od"
proof (induction rule: order_run.induct)
  case (created od)
  then show ?case by (rule order_inv_create)
next
  case (result od bs r od')
  show ?case by (rule result_keeps_inv [OF result.IH result.hyps(2) apply_result_steps [OF result.hyps(3)]])
next
  case (taken od bs od')
  then show ?case by (blast intro: mark_unapplied(3))
qed

text \<open>The batches and the fills still to be taken are together the fills of the order.\<close>

lemma order_run_batches:
  "order_run i od bs \<Longrightarrow>
   mset (concat bs) + mset (unapplied_fills od) = mset (oa_fills od) \<and>
   fill_key ` set (concat bs) = oa_position_applied od"
proof (induction rule: order_run.induct)
  case (created od)
  then show ?case by (auto simp: create_order_def unapplied_fills_def order_intent.defs split: if_splits)
next
  case (result od bs r od')
  from result.hyps(1) have inv: "order_inv od" by (rule order_run_inv)
  from result.hyps(3) have step: "apply_result r od = Inr od'" by (rule apply_result_steps)
  then have applied: "oa_position_applied od' = oa_position_applied od"
    by (cases rule: apply_resultE) simp
  from inv step obtain new where new: "oa_fills od' = oa_fills od @ new"
    "fill_key ` set new \<inter> fill_key ` set (oa_fills od) = {}"
    by (rule result_appends)
  have "oa_position_applied od \<subseteq> fill_key ` set (oa_fills od)" using inv unfolding order_inv_def by blast
  with new have "unapplied_fills od' = unapplied_fills od @ new"
    by (auto simp: unapplied_fills_def applied filter_id_conv)
  with result.IH new applied show ?case by simp
next
  case (taken od bs od')
  have inv: "order_inv od" using taken.hyps(1) by (rule order_run_inv)
  note od' = mark_unapplied [OF inv taken.hyps(3)]
  have "oa_fills od' = oa_fills od"
    "oa_position_applied od' = oa_position_applied od \<union> fill_key ` set (unapplied_fills od)"
    by (simp_all add: od'(1))
  then show ?case using taken.IH od'(2) by (simp add: image_Un)
qed

end
