(* ===== verification/Trade_Record.thy ===== *)
theory Trade_Record
  imports Order_Aggregate
begin

text \<open>
  The durable trade of \<open>domain/history/trade.py\<close>: its fields, the checks of its constructor, the
  factory that builds it from a terminal order, and the realised result of a sale that
  \<open>domain/history/performance.py\<close> calculates.  Decimals are numbers here; of the rule that a return
  rate is written with exactly eight places the model keeps that it is a multiple of \<open>10^-8\<close>.
\<close>

section \<open>Rates\<close>

definition eight_places :: "decimal \<Rightarrow> bool" where
  "eight_places d \<longleftrightarrow> of_int \<lfloor>dval d * 10 ^ 8\<rfloor> = dval d * 10 ^ 8"

record realized_result =
  rz_allocated_cost_basis :: decimal
  rz_realized_pnl :: decimal
  rz_realized_return_rate :: decimal

definition make_realized_result :: "realized_result \<Rightarrow> realized_result res" where
  "make_realized_result z =
     (if is_finite (rz_allocated_cost_basis z) \<and> is_finite (rz_realized_pnl z) \<and>
         is_finite (rz_realized_return_rate z) \<and> positive (rz_allocated_cost_basis z) \<and>
         eight_places (rz_realized_return_rate z)
      then Inr z else Inl ValueError)"

text \<open>Proceeds less the fee and the cost; the rate is the profit over the cost in percent.\<close>

definition net_profit :: "decimal \<Rightarrow> decimal \<Rightarrow> decimal \<Rightarrow> decimal res" where
  "net_profit amount fee_quote cost = ebind (sub_at 34 amount fee_quote) (\<lambda>x. sub_at 34 x cost)"

definition return_rate :: "decimal \<Rightarrow> decimal \<Rightarrow> decimal res" where
  "return_rate pnl cost =
     ebind (div_at 34 pnl cost) (\<lambda>x. ebind (mul_at 34 x (Fin 100)) quantize_rate)"

definition calculate_realized_result ::
  "execution_summary \<Rightarrow> decimal \<Rightarrow> realized_result res" where
  "calculate_realized_result s cost =
     (if es_side s \<noteq> SELL then Inl ValueError
      else if \<not> is_finite cost then Inl ValueError
      else if deq cost dzero then Inl InvalidZeroCostBasisError
      else if dlt cost dzero then Inl ValueError
      else
        ebind (net_profit (es_executed_amount s) (es_fee_quote_amount s) cost) (\<lambda>pnl.
        ebind (return_rate pnl cost) (\<lambda>rate.
        make_realized_result
          \<lparr>rz_allocated_cost_basis = cost, rz_realized_pnl = pnl, rz_realized_return_rate = rate\<rparr>)))"

section \<open>The trade\<close>

record trade =
  tr_trade_id :: string
  tr_order_id :: string
  tr_client_order_id :: string
  tr_symbol :: string
  tr_executed_at :: moment
  tr_side :: order_side
  tr_regime_type :: regime_type
  tr_strategy :: strategy_type
  tr_requested_quantity :: decimal
  tr_executed_quantity :: decimal
  tr_executed_amount :: decimal
  tr_average_fill_price :: decimal
  tr_market_price_at_decision :: "decimal option"
  tr_fee_amount :: decimal
  tr_fee_asset :: string
  tr_fee_quote_amount :: decimal
  tr_allocated_cost_basis :: "decimal option"
  tr_realized_pnl :: "decimal option"
  tr_realized_return_rate :: "decimal option"
  tr_exit_reason :: "exit_reason option"
  tr_schema_version :: int
  tr_fee_fills :: "fill list"

definition tr_base_fee_amount :: "trade \<Rightarrow> decimal res" where
  "tr_base_fee_amount t = base_fee_of (tr_fee_fills t) (tr_fee_amount t) (tr_fee_asset t)"

definition tr_non_base_fee_quote_amount :: "trade \<Rightarrow> decimal res" where
  "tr_non_base_fee_quote_amount t =
     non_base_fee_of (tr_fee_fills t) (tr_fee_quote_amount t) (tr_fee_asset t)"

definition legacy_schema_version :: int where
  "legacy_schema_version = 1"

definition check_trade_identity :: "trade \<Rightarrow> unit res" where
  "check_trade_identity t =
     require (tr_schema_version t \<in> {1, 2, 3, 4} \<and> trimmed_text (tr_trade_id t) \<and>
        exchange_order_id_ok (tr_order_id t) \<and> trimmed_text (tr_client_order_id t) \<and>
        symbol_ok (tr_symbol t) \<and> is_utc (tr_executed_at t) \<and>
        positive (tr_requested_quantity t) \<and> positive (tr_executed_quantity t) \<and>
        positive (tr_executed_amount t) \<and> positive (tr_average_fill_price t)) ValueError"

text \<open>Only a reconciled external sale has no price of a decision.\<close>

definition check_trade_provenance :: "trade \<Rightarrow> unit res" where
  "check_trade_provenance t =
     (if tr_schema_version t = 4
      then require (tr_side t = SELL \<and> tr_exit_reason t = Some EXTERNAL_MANUAL \<and>
             tr_market_price_at_decision t = None \<and>
             take 4 (tr_client_order_id t) \<noteq> ''bat-'') ValueError
      else if tr_exit_reason t = Some EXTERNAL_MANUAL then Inl ValueError
      else case tr_market_price_at_decision t of
          None \<Rightarrow> Inl TypeError
        | Some p \<Rightarrow> require (positive p) ValueError)"

definition check_trade_fees :: "trade \<Rightarrow> unit res" where
  "check_trade_fees t =
     require (non_negative (tr_fee_amount t) \<and> non_negative (tr_fee_quote_amount t) \<and>
        asset_code_ok (tr_fee_asset t)) ValueError"

definition trade_matches :: "aggregate \<Rightarrow> trade \<Rightarrow> bool" where
  "trade_matches a t \<longleftrightarrow>
     deq (ag_quantity a) (tr_executed_quantity t) \<and> deq (ag_amount a) (tr_executed_amount t) \<and>
     deq (ag_average_price a) (tr_average_fill_price t) \<and> deq (ag_fee_amount a) (tr_fee_amount t) \<and>
     ag_fee_asset a = tr_fee_asset t \<and> deq (ag_fee_quote_amount a) (tr_fee_quote_amount t) \<and>
     instant (ag_executed_at a) = instant (tr_executed_at t)"

definition check_trade_evidence :: "trade \<Rightarrow> unit res" where
  "check_trade_evidence t =
     (if tr_schema_version t \<in> {3, 4}
      then
        ebind (require (tr_fee_fills t \<noteq> [] \<and>
            list_all (\<lambda>f. fl_exchange_order_id f = tr_order_id t) (tr_fee_fills t) \<and>
            distinct (map fill_key (tr_fee_fills t))) ValueError) (\<lambda>_.
        ebind (aggregate_fills (tr_fee_fills t)) (\<lambda>a.
        require (trade_matches a t) ValueError))
      else require (tr_fee_fills t = []) ValueError)"

definition check_fee_conversion :: "trade \<Rightarrow> unit res" where
  "check_fee_conversion t =
     (if tr_schema_version t \<in> {3, 4} then Inr ()
      else if tr_fee_asset t = ''USDT''
      then require (deq (tr_fee_quote_amount t) (tr_fee_amount t)) ValueError
      else if tr_fee_asset t = ''ETH''
      then require (deq (tr_fee_amount t) dzero = deq (tr_fee_quote_amount t) dzero) ValueError
      else Inl FeeAssetConversionRequiredError)"

definition check_realized :: "trade \<Rightarrow> unit res" where
  "check_realized t =
     (if tr_side t = BUY
      then require (tr_allocated_cost_basis t = None \<and> tr_realized_pnl t = None \<and>
             tr_realized_return_rate t = None \<and> tr_exit_reason t = None) ValueError
      else case (tr_allocated_cost_basis t, tr_realized_pnl t, tr_realized_return_rate t,
                 tr_exit_reason t) of
          (Some cost, Some pnl, Some rate, Some reason) \<Rightarrow>
            ebind (require (is_finite cost \<and> is_finite pnl \<and> is_finite rate \<and> positive cost \<and>
                eight_places rate) ValueError) (\<lambda>_.
            ebind (net_profit (tr_executed_amount t) (tr_fee_quote_amount t) cost) (\<lambda>expected.
            ebind (return_rate pnl cost) (\<lambda>expected_rate.
            ebind (require (deq pnl expected) ValueError) (\<lambda>_.
            require (deq rate expected_rate) ValueError))))
        | _ \<Rightarrow> Inl ValueError)"

definition check_trade :: "trade \<Rightarrow> unit res" where
  "check_trade t =
     ebind (check_trade_identity t) (\<lambda>_.
     ebind (check_trade_provenance t) (\<lambda>_.
     ebind (check_trade_fees t) (\<lambda>_.
     ebind (check_trade_evidence t) (\<lambda>_.
     ebind (check_fee_conversion t) (\<lambda>_.
     check_realized t)))))"

definition trade_ok :: "trade \<Rightarrow> bool" where
  "trade_ok t \<longleftrightarrow> check_trade t = Inr () \<and> list_all fill_ok (tr_fee_fills t)"

definition make_trade :: "trade \<Rightarrow> trade res" where
  "make_trade t = ebind (check_trade t) (\<lambda>_. Inr t)"

section \<open>The factory\<close>

definition summary_of_order :: "order \<Rightarrow> execution_summary \<Rightarrow> bool" where
  "summary_of_order od s \<longleftrightarrow>
     es_client_order_id s = oa_client_order_id od \<and> es_symbol s = oa_symbol od \<and>
     es_side s = oa_side od \<and> es_strategy s = oa_strategy od \<and>
     es_regime_type s = oa_regime_type od \<and> es_exit_reason s = oa_exit_reason od \<and>
     deq (es_requested_quantity s) (oa_requested_quantity od) \<and>
     deq (es_submitted_quantity s) (oa_submitted_quantity od) \<and>
     list_all2 fill_same (es_fills s) (oa_fills od)"

definition has_bnb_fee :: "fill list \<Rightarrow> bool" where
  "has_bnb_fee fs \<longleftrightarrow> list_ex (\<lambda>f. fl_fee_asset f = ''BNB'') fs"

definition trade_of :: "order \<Rightarrow> string \<Rightarrow> execution_summary \<Rightarrow> realized_result option \<Rightarrow> trade" where
  "trade_of od xid s z =
     \<lparr>tr_trade_id = ''trade-'' @ xid, tr_order_id = xid,
      tr_client_order_id = oa_client_order_id od, tr_symbol = oa_symbol od,
      tr_executed_at = es_executed_at s, tr_side = oa_side od,
      tr_regime_type = oa_regime_type od, tr_strategy = oa_strategy od,
      tr_requested_quantity = oa_requested_quantity od,
      tr_executed_quantity = es_executed_quantity s, tr_executed_amount = es_executed_amount s,
      tr_average_fill_price = es_average_fill_price s,
      tr_market_price_at_decision = Some (oa_market_price_at_decision od),
      tr_fee_amount = es_fee_amount s, tr_fee_asset = es_fee_asset s,
      tr_fee_quote_amount = es_fee_quote_amount s,
      tr_allocated_cost_basis = map_option rz_allocated_cost_basis z,
      tr_realized_pnl = map_option rz_realized_pnl z,
      tr_realized_return_rate = map_option rz_realized_return_rate z,
      tr_exit_reason = oa_exit_reason od,
      tr_schema_version = (if has_bnb_fee (es_fills s) then 3 else 2),
      tr_fee_fills = (if has_bnb_fee (es_fills s) then es_fills s else [])\<rparr>"

definition from_order_execution ::
  "order \<Rightarrow> execution_summary \<Rightarrow> realized_result option \<Rightarrow> trade res" where
  "from_order_execution od s z =
     (if \<not> order_is_terminal od then Inl ValueError
      else case oa_exchange_order_id od of
          None \<Rightarrow> Inl ValueError
        | Some xid \<Rightarrow>
            if es_exchange_order_id s \<noteq> xid \<or> \<not> summary_of_order od s then Inl ValueError
            else make_trade (trade_of od xid s z))"

section \<open>The fees of an aggregate\<close>

lemma aggregate_fees:
  assumes "aggregate_fills fs = Inr a"
  shows "fs \<noteq> []" "sum_at 34 dzero (map fl_fee_quote_amount fs) = Inr (ag_fee_quote_amount a)"
    and "single_fee_asset fs = Some x \<Longrightarrow>
      sum_at 34 dzero (map fl_fee_amount fs) = Inr (ag_fee_amount a) \<and> ag_fee_asset a = x"
    and "single_fee_asset fs = None \<Longrightarrow> has_bnb_fee fs"
proof -
  show ne: "fs \<noteq> []" using assms by (auto simp: aggregate_fills_def)
  then obtain f rest where fs: "fs = f # rest" by (cases fs) auto
  have split: "\<not> (single_fee_asset fs = None \<and> ''BNB'' \<notin> set (map fl_fee_asset fs))"
    using assms by (cases "single_fee_asset fs = None \<and> ''BNB'' \<notin> set (map fl_fee_asset fs)")
      (simp_all add: aggregate_fills_def fs del: list.map list.set)
  then show "single_fee_asset fs = None \<Longrightarrow> has_bnb_fee fs"
    by (auto simp: has_bnb_fee_def list_ex_iff)
  show "sum_at 34 dzero (map fl_fee_quote_amount fs) = Inr (ag_fee_quote_amount a)"
    using assms split by (auto simp: aggregate_fills_def fs ebind_eq_Inr simp del: sum_at.simps
        map_res.simps list.map split: if_splits)
  show "single_fee_asset fs = Some x \<Longrightarrow>
      sum_at 34 dzero (map fl_fee_amount fs) = Inr (ag_fee_amount a) \<and> ag_fee_asset a = x"
    using assms by (auto simp: aggregate_fills_def fs ebind_eq_Inr simp del: sum_at.simps
        map_res.simps list.map split: if_splits)
qed

lemma no_bnb_single:
  assumes "aggregate_fills fs = Inr a" "\<not> has_bnb_fee fs" "list_all fill_ok fs"
  obtains x where "single_fee_asset fs = Some x" "x = ''ETH'' \<or> x = ''USDT''"
    "\<forall>f\<in>set fs. fl_fee_asset f = x"
proof -
  obtain x where x: "single_fee_asset fs = Some x"
    using aggregate_fees(4) [OF assms(1)] assms(2) by (cases "single_fee_asset fs") auto
  have all: "\<forall>f\<in>set fs. fl_fee_asset f = x" using single_fee_asset_SomeD [OF x] by blast
  obtain f where f: "f \<in> set fs" using aggregate_fees(1) [OF assms(1)] by (cases fs) auto
  then have "x \<in> {''ETH'', ''USDT'', ''BNB''}" "x \<noteq> ''BNB''"
    using all assms(2,3) fill_ok_values(8) [of f] by (auto simp: has_bnb_fee_def list_all_iff list_ex_iff)
  with x all that show ?thesis by blast
qed

lemma fill_fee_value:
  assumes "fill_ok f"
  shows "fl_fee_asset f = ''USDT'' \<Longrightarrow> dval (fl_fee_quote_amount f) = dval (fl_fee_amount f)"
    and "fl_fee_asset f = ''ETH'' \<Longrightarrow>
      dval (fl_fee_quote_amount f) = round_sig 34 (dval (fl_fee_amount f) * dval (fl_price f))"
proof -
  note v = fill_ok_values [OF assms, unfolded positive_iff non_negative_iff]
  have chk: "check_quote_fee f = Inr ()" using assms by (auto simp: fill_ok_def check_fill_def ebind_eq_Inr)
  show "fl_fee_asset f = ''USDT'' \<Longrightarrow> dval (fl_fee_quote_amount f) = dval (fl_fee_amount f)"
    using chk v by (simp add: check_quote_fee_def deq_finite)
  show "fl_fee_asset f = ''ETH'' \<Longrightarrow>
      dval (fl_fee_quote_amount f) = round_sig 34 (dval (fl_fee_amount f) * dval (fl_price f))"
    using chk v by (simp add: check_quote_fee_def calculate_product_def mul_at_finite deq_finite)
qed

text \<open>The sums of the fees as numbers.\<close>

lemma fee_sums:
  assumes "list_all fill_ok fs"
  shows "sum_at 34 dzero (map fl_fee_amount fs) = Inr z \<Longrightarrow>
      non_negative z \<and> dval z = sum_sig 34 0 (map (\<lambda>f. dval (fl_fee_amount f)) fs)"
    and "sum_at 34 dzero (map fl_fee_quote_amount fs) = Inr z \<Longrightarrow>
      non_negative z \<and> dval z = sum_sig 34 0 (map (\<lambda>f. dval (fl_fee_quote_amount f)) fs)"
proof -
  have "list_all non_negative (map fl_fee_amount fs)" "list_all non_negative (map fl_fee_quote_amount fs)"
    using assms by (auto simp: list_all_iff dest: fill_ok_values)
  from sum_non_negative [OF this(1)] sum_non_negative [OF this(2)]
  show "sum_at 34 dzero (map fl_fee_amount fs) = Inr z \<Longrightarrow>
      non_negative z \<and> dval z = sum_sig 34 0 (map (\<lambda>f. dval (fl_fee_amount f)) fs)"
    "sum_at 34 dzero (map fl_fee_quote_amount fs) = Inr z \<Longrightarrow>
      non_negative z \<and> dval z = sum_sig 34 0 (map (\<lambda>f. dval (fl_fee_quote_amount f)) fs)"
    by (auto simp: comp_def)
qed

lemma foldl_zero_iff:
  "0 \<le> a \<Longrightarrow> round_sig 34 a = a \<Longrightarrow> \<forall>x\<in>set xs. 0 \<le> x \<Longrightarrow>
   sum_sig 34 a xs = 0 \<longleftrightarrow> a = 0 \<and> (\<forall>x\<in>set xs. x = 0)"
proof (induction xs arbitrary: a)
  case (Cons x xs)
  have "0 \<le> round_sig 34 (a + x)" "round_sig 34 (round_sig 34 (a + x)) = round_sig 34 (a + x)"
    using Cons.prems by (auto intro: r34.nonneg simp: r34.idem)
  with Cons.IH [of "round_sig 34 (a + x)"] Cons.prems r34.zero_iff [of "a + x"]
  show ?case by (auto simp: add_nonneg_eq_0_iff)
qed simp

lemma single_fee_zero:
  assumes "list_all fill_ok fs" "\<forall>f\<in>set fs. fl_fee_asset f = ''ETH''"
    "sum_at 34 dzero (map fl_fee_amount fs) = Inr x"
    "sum_at 34 dzero (map fl_fee_quote_amount fs) = Inr y"
  shows "dval x = 0 \<longleftrightarrow> dval y = 0"
proof -
  have each: "dval (fl_fee_amount f) = 0 \<longleftrightarrow> dval (fl_fee_quote_amount f) = 0"
    "0 \<le> dval (fl_fee_amount f)" "0 \<le> dval (fl_fee_quote_amount f)" if "f \<in> set fs" for f
  proof -
    have ok: "fill_ok f" and eth: "fl_fee_asset f = ''ETH''" using assms(1,2) that by (auto simp: list_all_iff)
    note v = fill_ok_values(2-4) [OF ok, unfolded positive_iff non_negative_iff]
    show "dval (fl_fee_amount f) = 0 \<longleftrightarrow> dval (fl_fee_quote_amount f) = 0"
      unfolding fill_fee_value(2) [OF ok eth] using v by (simp add: r34.zero_iff)
    show "0 \<le> dval (fl_fee_amount f)" "0 \<le> dval (fl_fee_quote_amount f)" using v by simp_all
  qed
  have "dval x = 0 \<longleftrightarrow> (\<forall>f\<in>set fs. dval (fl_fee_amount f) = 0)"
    using fee_sums(1) [OF assms(1,3)] each foldl_zero_iff [of 0 "map (\<lambda>f. dval (fl_fee_amount f)) fs"]
    by simp
  moreover have "dval y = 0 \<longleftrightarrow> (\<forall>f\<in>set fs. dval (fl_fee_quote_amount f) = 0)"
    using fee_sums(2) [OF assms(1,4)] each
      foldl_zero_iff [of 0 "map (\<lambda>f. dval (fl_fee_quote_amount f)) fs"] by simp
  ultimately show ?thesis using each(1) by blast
qed

lemma single_fee_usdt:
  assumes "list_all fill_ok fs" "\<forall>f\<in>set fs. fl_fee_asset f = ''USDT''"
    "sum_at 34 dzero (map fl_fee_amount fs) = Inr x"
    "sum_at 34 dzero (map fl_fee_quote_amount fs) = Inr y"
  shows "dval x = dval y"
proof -
  have "map (\<lambda>f. dval (fl_fee_amount f)) fs = map (\<lambda>f. dval (fl_fee_quote_amount f)) fs"
    using assms(1,2) fill_fee_value(1) by (auto simp: list_all_iff)
  with fee_sums(1) [OF assms(1,3)] fee_sums(2) [OF assms(1,4)] show ?thesis by (simp only:)
qed

section \<open>Completed orders become trades\<close>

lemma trimmed_text_prefix:
  assumes "trimmed_text s" "trimmed_text p"
  shows "trimmed_text (p @ s)"
proof -
  have ends: "\<not> py_isspace (hd t)" "\<not> py_isspace (last t)" "t \<noteq> []" if t: "trimmed_text t" for t
  proof -
    show ne: "t \<noteq> []" using t by (simp add: trimmed_text_def)
    define d where "d = dropWhile py_isspace t"
    have eq: "t = rev (dropWhile py_isspace (rev d))" using t by (simp add: trimmed_text_def py_strip_def d_def)
    have le: "length (dropWhile py_isspace (rev d)) \<le> length d" "length d \<le> length t"
      using length_dropWhile_le [of py_isspace "rev d"] length_dropWhile_le [of py_isspace t]
      by (simp_all add: d_def)
    then have len: "length d = length t" "length (dropWhile py_isspace (rev d)) = length d"
      using arg_cong [OF eq, of length] by simp_all
    then have d: "d = t" using length_dropWhile_le [of py_isspace "tl t"] ne
      by (cases t) (auto simp: d_def split: if_splits)
    show "\<not> py_isspace (hd t)" using d ne hd_dropWhile [of py_isspace t] by (simp add: d_def)
    have "hd (rev d) = last t" "rev d \<noteq> []" using d ne by (simp_all add: hd_rev)
    moreover have "dropWhile py_isspace (rev d) = rev t" using eq by (metis rev_rev_ident)
    ultimately show "\<not> py_isspace (last t)" using hd_dropWhile [of py_isspace "rev d"] ne
      by (simp add: hd_rev)
  qed
  have "dropWhile py_isspace (p @ s) = p @ s"
    using ends [OF assms(2)] by (cases p) auto
  moreover have "dropWhile py_isspace (rev (p @ s)) = rev (p @ s)"
  proof (cases s rule: rev_cases)
    case (snoc t c)
    then show ?thesis using ends(2) [OF assms(1)] by simp
  qed (use ends(3) [OF assms(1)] in simp)
  ultimately show ?thesis
    using ends(3) [OF assms(2)] by (simp add: trimmed_text_def py_strip_def del: rev_append)
qed

lemma list_all2_fill_same: "list_all2 fill_same fs fs"
  by (simp add: list_all2_refl)

text \<open>The realised result of a sale has the numbers that the check of the trade computes again.\<close>

lemma realized_resultD:
  assumes "calculate_realized_result s c = Inr z"
  shows "es_side s = SELL" "rz_allocated_cost_basis z = c" "positive c"
    "is_finite (rz_realized_pnl z)" "is_finite (rz_realized_return_rate z)"
    "eight_places (rz_realized_return_rate z)"
    "net_profit (es_executed_amount s) (es_fee_quote_amount s) c = Inr (rz_realized_pnl z)"
    "return_rate (rz_realized_pnl z) c = Inr (rz_realized_return_rate z)"
  using assms
  by (auto simp: calculate_realized_result_def make_realized_result_def ebind_eq_Inr split: if_splits)

lemma from_order_executionE:
  assumes "from_order_execution od s z = Inr t"
  obtains xid where "order_is_terminal od" "oa_exchange_order_id od = Some xid"
    "es_exchange_order_id s = xid" "summary_of_order od s" "t = trade_of od xid s z" "check_trade t = Inr ()"
  using assms
  by (auto simp: from_order_execution_def make_trade_def ebind_eq_Inr
      split: if_splits option.splits)

lemma fee_conversion_ok:
  assumes "summary_ok s"
  shows "check_fee_conversion (trade_of od xid s z) = Inr ()"
    and "check_trade_evidence (trade_of od (es_exchange_order_id s) s z) = Inr ()"
proof -
  note ok = summary_ok_def [THEN iffD1, OF assms]
  obtain a where a: "aggregate_fills (es_fills s) = Inr a" "summary_matches a s"
    "summary_values_ok s" "distinct (map fill_key (es_fills s))" "list_all fill_ok (es_fills s)"
    using ok by (auto simp: check_summary_def ebind_eq_Inr)
  have fin: "is_finite (ag_fee_amount a)" "is_finite (ag_fee_quote_amount a)"
      "is_finite (es_fee_amount s)" "is_finite (es_fee_quote_amount s)"
    using aggregate_fills_cases [OF a(5) aggregate_fees(1) [OF a(1)]] a(1,3)
    by (fastforce simp: summary_values_ok_def)+
  have eq: "dval (ag_fee_amount a) = dval (es_fee_amount s)"
    "dval (ag_fee_quote_amount a) = dval (es_fee_quote_amount s)" "ag_fee_asset a = es_fee_asset s"
    using a(2) fin by (auto simp: summary_matches_def deq_finite)
  show "check_fee_conversion (trade_of od xid s z) = Inr ()"
  proof (cases "has_bnb_fee (es_fills s)")
    case False
    obtain x where x: "single_fee_asset (es_fills s) = Some x" "x = ''ETH'' \<or> x = ''USDT''"
      "\<forall>f\<in>set (es_fills s). fl_fee_asset f = x"
      by (rule no_bnb_single [OF a(1) False a(5)])
    note sums = aggregate_fees(2) [OF a(1)] conjunct1 [OF aggregate_fees(3) [OF a(1) x(1)]]
    have asset: "es_fee_asset s = x" using aggregate_fees(3) [OF a(1) x(1)] eq(3) by simp
    from x(2) show ?thesis
    proof
      assume eth: "x = ''ETH''"
      then have "dval (ag_fee_amount a) = 0 \<longleftrightarrow> dval (ag_fee_quote_amount a) = 0"
        using single_fee_zero [OF a(5) _ sums(2,1)] x(3) by simp
      then show ?thesis
        using False fin eq asset eth by (simp add: check_fee_conversion_def trade_of_def deq_finite)
    next
      assume usdt: "x = ''USDT''"
      then have "dval (ag_fee_amount a) = dval (ag_fee_quote_amount a)"
        using single_fee_usdt [OF a(5) _ sums(2,1)] x(3) by simp
      then show ?thesis
        using False fin eq asset usdt by (simp add: check_fee_conversion_def trade_of_def deq_finite)
    qed
  qed (simp add: check_fee_conversion_def trade_of_def)
  have "trade_matches a (trade_of od (es_exchange_order_id s) s z)"
    using a(2) by (simp add: summary_matches_def trade_matches_def trade_of_def)
  moreover have "list_all (\<lambda>f. fl_exchange_order_id f = es_exchange_order_id s) (es_fills s)"
    "es_fills s \<noteq> []" using a(3) by (simp_all add: summary_values_ok_def)
  ultimately show "check_trade_evidence (trade_of od (es_exchange_order_id s) s z) = Inr ()"
    using a(1,4) by (cases "has_bnb_fee (es_fills s)") (simp_all add: check_trade_evidence_def trade_of_def)
qed

lemma check_realized_ok:
  assumes "order_intent_ok od"
    "(oa_side od = BUY \<and> z = None) \<or>
     (oa_side od = SELL \<and> oa_exit_reason od \<noteq> None \<and>
      (\<exists>c r. calculate_realized_result s c = Inr r \<and> z = Some r))"
  shows "check_realized (trade_of od xid s z) = Inr ()"
  using assms(2)
proof
  assume "oa_side od = BUY \<and> z = None"
  then show ?thesis
    using assms(1) by (simp add: check_realized_def trade_of_def order_intent_ok_def)
next
  assume "oa_side od = SELL \<and> oa_exit_reason od \<noteq> None \<and>
      (\<exists>c r. calculate_realized_result s c = Inr r \<and> z = Some r)"
  then obtain c r e where sell: "oa_side od = SELL" "oa_exit_reason od = Some e" "z = Some r"
    and r: "calculate_realized_result s c = Inr r" by auto
  note v = realized_resultD [OF r]
  have "is_finite c" using v(3) by simp
  with sell v show ?thesis
    by (simp add: check_realized_def trade_of_def deq_refl)
qed

text \<open>A terminal order with fills is always accepted as a trade.\<close>

lemma completed_order_trade:
  assumes "order_inv od" "order_is_terminal od" "build_execution_summary None True od = Inr s"
    "(oa_side od = BUY \<and> z = None) \<or>
     (oa_side od = SELL \<and> oa_exit_reason od \<noteq> None \<and>
      (\<exists>c r. calculate_realized_result s c = Inr r \<and> z = Some r))"
  shows "from_order_execution od s z = Inr (trade_of od (es_exchange_order_id s) s z)"
    and "summary_of_order od s" and "summary_ok s"
proof -
  have ne: "oa_fills od \<noteq> []"
    using assms(3) by (auto simp: build_execution_summary_def split: if_splits option.splits)
  then obtain s' where s': "build_execution_summary None True od = Inr s'" "summary_ok s'"
    by (rule terminal_summary [OF assms(1,2)]) blast
  then show ok: "summary_ok s" using assms(3) by simp
  obtain xid a where xid: "oa_exchange_order_id od = Some xid" and s: "s = make_summary od xid (oa_fills od) a"
    using assms(2,3) ne by (auto simp: build_execution_summary_def Let_def ebind_eq_Inr
        split: option.splits)
  have intent: "order_intent_ok od" using assms(1) unfolding order_inv_def by blast
  then have fin: "positive (oa_requested_quantity od)" "positive (oa_submitted_quantity od)"
    by (auto simp: order_intent_ok_def)
  show sum: "summary_of_order od s"
    using fin by (simp add: summary_of_order_def s make_summary_def deq_refl list_all2_fill_same)
  note v = summary_ok_def [THEN iffD1, OF ok]
  have vals: "summary_values_ok s" "is_utc (es_executed_at s)" using v by (auto simp: check_summary_def ebind_eq_Inr)
  have id: "es_exchange_order_id s = xid" by (simp add: s make_summary_def)
  let ?t = "trade_of od (es_exchange_order_id s) s z"
  have "trimmed_text ''trade-''" by code_simp
  then have tid: "trimmed_text (''trade-'' @ es_exchange_order_id s)"
    using vals(1) by (intro trimmed_text_prefix) (auto simp: summary_values_ok_def exchange_order_id_ok_def)
  have "check_trade_identity ?t = Inr ()"
    using vals intent tid
    by (auto simp: check_trade_identity_def trade_of_def summary_values_ok_def order_intent_ok_def)
  moreover have "check_trade_provenance ?t = Inr ()"
    using intent by (auto simp: check_trade_provenance_def trade_of_def order_intent_ok_def)
  moreover have "check_trade_fees ?t = Inr ()"
    using vals(1) by (simp add: check_trade_fees_def trade_of_def summary_values_ok_def)
  moreover note fee_conversion_ok [OF ok, of od] check_realized_ok [OF intent assms(4)]
  ultimately have "check_trade ?t = Inr ()" by (simp add: check_trade_def)
  then show "from_order_execution od s z = Inr ?t"
    using assms(2) xid id sum by (simp add: from_order_execution_def make_trade_def)
qed

section \<open>When a sale has a result\<close>

lemma quantize_rate_ok:
  assumes "is_finite d" "\<bar>dval d\<bar> \<le> 10 ^ 25"
  obtains q where "quantize_rate d = Inr q" "is_finite q" "eight_places q"
proof -
  obtain q where q: "quantize_rate d = Inr q" by (rule quantize_rate_defined [OF assms])
  moreover have "eight_places q"
    using quantize_rate_value(2) [OF q assms(1)] by (simp add: eight_places_def)
  ultimately show ?thesis using that quantize_rate_value(1) [OF q assms(1)] by blast
qed

text \<open>A sale whose amount and fee are in proportion to the cost has a realised result.\<close>

lemma calculate_realized_ok:
  assumes "es_side s = SELL" "is_finite (es_executed_amount s)" "is_finite (es_fee_quote_amount s)"
    "positive c" "\<bar>dval (es_executed_amount s)\<bar> \<le> 10 ^ 20 * dval c"
    "\<bar>dval (es_fee_quote_amount s)\<bar> \<le> 10 ^ 20 * dval c"
  obtains z where "calculate_realized_result s c = Inr z"
proof -
  have c: "is_finite c" "0 < dval c" using assms(4) unfolding positive_iff by blast+
  define g where "g = round_sig 34 (dval (es_executed_amount s) - dval (es_fee_quote_amount s))"
  define p where "p = round_sig 34 (g - dval c)"
  define r where "r = round_sig 34 (p / dval c)"
  define h where "h = dval (es_executed_amount s) - dval (es_fee_quote_amount s)"
  have "\<bar>h\<bar> \<le> 2 * (10 ^ 20 * dval c)"
    unfolding h_def
    using abs_triangle_ineq4 [of "dval (es_executed_amount s)" "dval (es_fee_quote_amount s)"] assms(5,6)
    by linarith
  moreover have "\<bar>g\<bar> \<le> 2 * \<bar>h\<bar>" unfolding g_def h_def by (rule round34_abs)
  ultimately have g: "\<bar>g\<bar> \<le> 4 * (10 ^ 20 * dval c)" by simp
  have "\<bar>g - dval c\<bar> \<le> 5 * (10 ^ 20 * dval c)"
    using abs_triangle_ineq4 [of g "dval c"] g c(2) by simp
  then have "\<bar>p\<bar> \<le> 10 ^ 21 * dval c"
    using round34_abs [of "g - dval c", folded p_def] by simp
  then have "\<bar>p / dval c\<bar> \<le> 10 ^ 21" using c(2) by (simp add: abs_div_pos [symmetric] divide_le_eq)
  then have "\<bar>r\<bar> \<le> 2 * 10 ^ 21" using round34_abs [of "p / dval c"] unfolding r_def by linarith
  then have small: "\<bar>round_sig 34 (r * 100)\<bar> \<le> 10 ^ 25" using round34_abs [of "r * 100"] by simp
  obtain pnl where pnl: "net_profit (es_executed_amount s) (es_fee_quote_amount s) c = Inr pnl"
    "is_finite pnl" "dval pnl = p"
    using assms(2,3) c(1) by (auto simp: net_profit_def finite_arith p_def g_def)
  obtain x where x: "div_at 34 pnl c = Inr x" "is_finite x" "dval x = r"
    using pnl(2,3) c by (auto simp: div_at_finite r_def)
  obtain y where y: "mul_at 34 x (Fin 100) = Inr y" "is_finite y" "dval y = round_sig 34 (r * 100)"
    using x(2,3) by (auto simp: mul_at_finite)
  obtain q where q: "quantize_rate y = Inr q" "is_finite q" "eight_places q"
    by (rule quantize_rate_ok [OF y(2)]) (use small y(3) in auto)
  have "return_rate pnl c = Inr q" using x(1) y(1) q(1) by (simp add: return_rate_def)
  then show ?thesis
    using that assms(1,4) pnl c q by (simp add: calculate_realized_result_def make_realized_result_def finite_arith)
qed

end
