(* ===== verification/Position_Ledger.thy ===== *)
theory Position_Ledger
  imports Trade_Record
begin

text \<open>
  The position of \<open>domain/trading/position.py\<close>: quantity and average cost of the ETH held, updated
  by executions, replayed from the durable trades after a restart, and released to the residual
  ledger of \<open>domain/trading/residual.py\<close>.  An operation builds the whole next state before it
  assigns it, so an exception leaves the position as it was.
\<close>

section \<open>The state\<close>

datatype position_status = POSITION_OPEN | POSITION_CLOSED

record position_state =
  pl_symbol :: string
  pl_owner :: "strategy_type option"
  pl_quantity :: decimal
  pl_average_entry_price :: decimal
  pl_cost_basis :: decimal
  pl_entered_at :: "moment option"
  pl_status :: position_status
  pl_exit_reason :: "exit_reason option"
  pl_entry_quantity :: decimal
  pl_entry_amount :: decimal

definition common_values_ok :: "position_state \<Rightarrow> bool" where
  "common_values_ok s \<longleftrightarrow>
     pl_symbol s = supported_symbol \<and> non_negative (pl_quantity s) \<and>
     non_negative (pl_average_entry_price s) \<and> non_negative (pl_cost_basis s) \<and>
     (if pl_status s = POSITION_CLOSED
      then non_negative (pl_entry_quantity s) \<and> non_negative (pl_entry_amount s)
      else positive (pl_entry_quantity s) \<and> positive (pl_entry_amount s))"

definition open_values_ok :: "position_state \<Rightarrow> bool" where
  "open_values_ok s \<longleftrightarrow>
     positive (pl_quantity s) \<and> positive (pl_cost_basis s) \<and>
     positive (pl_average_entry_price s) \<and> pl_owner s \<noteq> None \<and> pl_entered_at s \<noteq> None"

definition closed_values_ok :: "position_state \<Rightarrow> bool" where
  "closed_values_ok s \<longleftrightarrow>
     deq (pl_quantity s) dzero \<and> deq (pl_cost_basis s) dzero \<and>
     deq (pl_average_entry_price s) dzero \<and> deq (pl_entry_quantity s) dzero \<and>
     deq (pl_entry_amount s) dzero \<and> pl_owner s = None \<and> pl_entered_at s = None"

text \<open>\<open>__post_init__\<close> of the snapshot, which also makes the time of entry a canonical UTC value.\<close>

definition make_position_state :: "position_state \<Rightarrow> position_state res" where
  "make_position_state s =
     ebind (require (common_values_ok s) ValueError) (\<lambda>_.
     if pl_status s = POSITION_OPEN
     then
       ebind (require (open_values_ok s) ValueError) (\<lambda>_.
       ebind (normalize_utc (the (pl_entered_at s))) (\<lambda>t.
       ebind (div_at 34 (pl_cost_basis s) (pl_quantity s)) (\<lambda>expected.
       ebind (require (deq (pl_average_entry_price s) expected) ValueError) (\<lambda>_.
       Inr (s\<lparr>pl_entered_at := Some t\<rparr>)))))
     else ebind (require (closed_values_ok s) ValueError) (\<lambda>_. Inr s))"

definition closed_state :: "string \<Rightarrow> exit_reason option \<Rightarrow> position_state" where
  "closed_state symb reason =
     \<lparr>pl_symbol = symb, pl_owner = None, pl_quantity = dzero, pl_average_entry_price = dzero,
      pl_cost_basis = dzero, pl_entered_at = None, pl_status = POSITION_CLOSED,
      pl_exit_reason = reason, pl_entry_quantity = dzero, pl_entry_amount = dzero\<rparr>"

definition average_fill_price :: "position_state \<Rightarrow> decimal res" where
  "average_fill_price s =
     (if deq (pl_entry_quantity s) dzero then Inr dzero
      else div_at 34 (pl_entry_amount s) (pl_entry_quantity s))"

record position =
  pn_state :: position_state
  pn_legacy :: bool

definition new_position :: position where
  "new_position = \<lparr>pn_state = closed_state supported_symbol None, pn_legacy = False\<rparr>"

definition require_history_accounting_compatibility :: "position \<Rightarrow> unit res" where
  "require_history_accounting_compatibility p =
     require (\<not> pn_legacy p) LegacyFeeAccountingMigrationRequiredError"

definition clone_position :: "position \<Rightarrow> position" where
  "clone_position p = \<lparr>pn_state = pn_state p, pn_legacy = pn_legacy p\<rparr>"

section \<open>Executions\<close>

definition calculate_net_buy_quantity :: "decimal \<Rightarrow> decimal \<Rightarrow> string \<Rightarrow> decimal res" where
  "calculate_net_buy_quantity executed fee asset =
     ebind (if asset = ''ETH'' then sub_at 34 executed fee else Inr executed) (\<lambda>net.
     if dle net dzero then Inl ValueError else Inr net)"

text \<open>The cost of a share of the position; the whole cost for the whole quantity.\<close>

definition allocate_cost :: "position_state \<Rightarrow> decimal \<Rightarrow> decimal res" where
  "allocate_cost s sold =
     (if deq sold (pl_quantity s) then Inr (pl_cost_basis s)
      else ebind (mul_at 34 (pl_cost_basis s) sold) (\<lambda>m. div_at 34 m (pl_quantity s)))"

definition get_cost_basis :: "decimal \<Rightarrow> position \<Rightarrow> decimal res" where
  "get_cost_basis executed p =
     (if \<not> positive executed then Inl ValueError
      else if pl_status (pn_state p) \<noteq> POSITION_OPEN then Inl ValueError
      else if dlt (pl_quantity (pn_state p)) executed then Inl ValueError
      else allocate_cost (pn_state p) executed)"

text \<open>The state after a purchase, from the numbers the summary or the trade supplies.\<close>

definition bought_state ::
  "position_state \<Rightarrow> strategy_type \<Rightarrow> decimal \<Rightarrow> decimal \<Rightarrow> decimal \<Rightarrow> decimal \<Rightarrow> moment \<Rightarrow>
   position_state res" where
  "bought_state s owner acquired executed amount fee executed_at =
     ebind (add_at 34 (pl_quantity s) acquired) (\<lambda>quantity.
     ebind (add_at 34 (pl_cost_basis s) amount) (\<lambda>gross.
     ebind (add_at 34 gross fee) (\<lambda>cost.
     ebind (div_at 34 cost quantity) (\<lambda>average.
     ebind (add_at 34 (pl_entry_quantity s) executed) (\<lambda>entry_quantity.
     ebind (add_at 34 (pl_entry_amount s) amount) (\<lambda>entry_amount.
     make_position_state
       \<lparr>pl_symbol = pl_symbol s, pl_owner = Some owner, pl_quantity = quantity,
        pl_average_entry_price = average, pl_cost_basis = cost,
        pl_entered_at = (if pl_entered_at s \<noteq> None then pl_entered_at s else Some executed_at),
        pl_status = POSITION_OPEN, pl_exit_reason = None, pl_entry_quantity = entry_quantity,
        pl_entry_amount = entry_amount\<rparr>))))))"

text \<open>The state after a sale that leaves \<open>rest\<close> and the cost \<open>cost\<close>.\<close>

definition reduced_state ::
  "position_state \<Rightarrow> decimal \<Rightarrow> decimal \<Rightarrow> exit_reason option \<Rightarrow> position_state res" where
  "reduced_state s rest cost reason =
     ebind (div_at 34 cost rest) (\<lambda>average.
     ebind (mul_at 34 (pl_entry_quantity s) rest) (\<lambda>mq.
     ebind (div_at 34 mq (pl_quantity s)) (\<lambda>entry_quantity.
     ebind (mul_at 34 (pl_entry_amount s) rest) (\<lambda>ma.
     ebind (div_at 34 ma (pl_quantity s)) (\<lambda>entry_amount.
     make_position_state
       \<lparr>pl_symbol = pl_symbol s, pl_owner = pl_owner s, pl_quantity = rest,
        pl_average_entry_price = average, pl_cost_basis = cost, pl_entered_at = pl_entered_at s,
        pl_status = POSITION_OPEN, pl_exit_reason = reason, pl_entry_quantity = entry_quantity,
        pl_entry_amount = entry_amount\<rparr>)))))"

definition build_buy_state ::
  "execution_summary \<Rightarrow> moment \<Rightarrow> position_state \<Rightarrow> position_state res" where
  "build_buy_state s executed_at st =
     (if pl_owner st \<noteq> None \<and> pl_owner st \<noteq> Some (es_strategy s) then Inl ValueError
      else
        ebind (base_fee_amount s) (\<lambda>base_fee.
        ebind (calculate_net_buy_quantity (es_executed_quantity s) base_fee ''ETH'') (\<lambda>acquired.
        ebind (non_base_fee_quote_amount s) (\<lambda>fee.
        bought_state st (es_strategy s) acquired (es_executed_quantity s) (es_executed_amount s) fee
          executed_at))))"

definition build_sell_state :: "execution_summary \<Rightarrow> position \<Rightarrow> position_state res" where
  "build_sell_state s p =
     (let st = pn_state p in
      ebind (base_fee_amount s) (\<lambda>base_fee.
      if dlt dzero base_fee then Inl ValueError
      else if pl_status st \<noteq> POSITION_OPEN then Inl ValueError
      else if pl_owner st \<noteq> Some (es_strategy s) then Inl ValueError
      else if dlt (pl_quantity st) (es_executed_quantity s) then Inl ValueError
      else
        ebind (get_cost_basis (es_executed_quantity s) p) (\<lambda>allocated.
        ebind (sub_at 34 (pl_quantity st) (es_executed_quantity s)) (\<lambda>rest.
        if deq rest dzero
        then make_position_state (closed_state (pl_symbol st) (es_exit_reason s))
        else
          ebind (sub_at 34 (pl_cost_basis st) allocated) (\<lambda>cost.
          reduced_state st rest cost (es_exit_reason s))))))"

definition apply_execution :: "execution_summary \<Rightarrow> position \<Rightarrow> position res" where
  "apply_execution s p =
     ebind (require (es_symbol s = supported_symbol \<and> positive (es_executed_quantity s) \<and>
        positive (es_executed_amount s) \<and> non_negative (es_fee_quote_amount s)) ValueError) (\<lambda>_.
     ebind (normalize_utc (es_executed_at s)) (\<lambda>executed_at.
     ebind (require (\<not> pn_legacy p) LegacyFeeAccountingMigrationRequiredError) (\<lambda>_.
     ebind (require (es_symbol s = pl_symbol (pn_state p)) ValueError) (\<lambda>_.
     ebind (case es_side s of BUY \<Rightarrow> build_buy_state s executed_at (pn_state p)
                            | SELL \<Rightarrow> build_sell_state s p) (\<lambda>st.
     Inr (p\<lparr>pn_state := st\<rparr>))))))"

section \<open>The residual\<close>

definition detach_residual :: "decimal \<Rightarrow> decimal \<Rightarrow> decimal \<Rightarrow> position \<Rightarrow> position res" where
  "detach_residual quantity cost step p =
     (if \<not> (positive quantity \<and> positive cost \<and> positive step) then Inl ValueError
      else if dle step quantity \<or> \<not> deq (pl_quantity (pn_state p)) quantity \<or>
              \<not> deq (pl_cost_basis (pn_state p)) cost
      then Inl ValueError
      else
        ebind (require_history_accounting_compatibility p) (\<lambda>_.
        ebind (make_position_state
            (closed_state (pl_symbol (pn_state p)) (pl_exit_reason (pn_state p)))) (\<lambda>st.
        Inr (p\<lparr>pn_state := st\<rparr>))))"

definition allocate_external_residual ::
  "decimal \<Rightarrow> decimal \<Rightarrow> decimal \<Rightarrow> decimal \<Rightarrow> (decimal \<times> decimal) res" where
  "allocate_external_residual position_quantity executed residual_quantity residual_cost =
     (if \<not> list_all non_negative [position_quantity, executed, residual_quantity, residual_cost]
      then Inl ValueError
      else if dle position_quantity dzero \<or> dle executed dzero \<or>
              deq residual_quantity dzero \<noteq> deq residual_cost dzero
      then Inl ValueError
      else
        ebind (sub_at 34 executed position_quantity) (\<lambda>excess.
        let consumed = dmax dzero excess in
        if dlt residual_quantity consumed then Inl ValueError
        else
          ebind (if deq consumed dzero then Inr dzero
                 else if deq consumed residual_quantity then Inr residual_cost
                 else ebind (mul_at 34 residual_cost consumed) (\<lambda>m. div_at 34 m residual_quantity))
            (\<lambda>cost. Inr (consumed, cost))))"

section \<open>Replaying the history\<close>

definition replay_buy :: "trade \<Rightarrow> position \<Rightarrow> position res" where
  "replay_buy t p =
     (let st = pn_state p; old = tr_schema_version t = legacy_schema_version in
      if pl_owner st \<noteq> None \<and> pl_owner st \<noteq> Some (tr_strategy t) then Inl ValueError
      else
        ebind (if old then Inr (tr_executed_quantity t)
               else ebind (tr_base_fee_amount t) (\<lambda>fee.
                    calculate_net_buy_quantity (tr_executed_quantity t) fee ''ETH'')) (\<lambda>acquired.
        ebind (if old then Inr (tr_fee_quote_amount t) else tr_non_base_fee_quote_amount t) (\<lambda>fee.
        ebind (bought_state st (tr_strategy t) acquired (tr_executed_quantity t)
            (tr_executed_amount t) fee (tr_executed_at t)) (\<lambda>st'.
        Inr \<lparr>pn_state = st',
             pn_legacy = (pn_legacy p \<or>
               (old \<and> tr_fee_asset t = ''ETH'' \<and> dlt dzero (tr_fee_amount t)))\<rparr>))))"

definition replay_sell :: "trade \<Rightarrow> decimal \<Rightarrow> decimal \<Rightarrow> position \<Rightarrow> position res" where
  "replay_sell t residual_quantity residual_cost p =
     (let st = pn_state p in
      ebind (if tr_schema_version t \<noteq> legacy_schema_version then tr_base_fee_amount t
             else Inr dzero) (\<lambda>base_fee.
      if dlt dzero base_fee then Inl ValueError
      else if pl_status st \<noteq> POSITION_OPEN then Inl ValueError
      else if pl_owner st \<noteq> Some (tr_strategy t) then Inl ValueError
      else
        ebind (sub_at 34 (tr_executed_quantity t) residual_quantity) (\<lambda>sold.
        if \<not> deq residual_quantity dzero \<and> \<not> deq sold (pl_quantity st) then Inl ValueError
        else if dle sold dzero \<or> dlt (pl_quantity st) sold then Inl ValueError
        else
          ebind (allocate_cost st sold) (\<lambda>allocated.
          ebind (if deq residual_quantity dzero then Inr ()
                 else ebind (add_at 34 allocated residual_cost) (\<lambda>total.
                      require (case tr_allocated_cost_basis t of
                          None \<Rightarrow> False | Some c \<Rightarrow> deq c total) ValueError)) (\<lambda>_.
          ebind (sub_at 34 (pl_quantity st) sold) (\<lambda>rest.
          ebind (sub_at 34 (pl_cost_basis st) allocated) (\<lambda>cost.
          if deq rest dzero
          then ebind (make_position_state (closed_state (pl_symbol st) (tr_exit_reason t))) (\<lambda>st'.
               Inr \<lparr>pn_state = st', pn_legacy = False\<rparr>)
          else ebind (reduced_state st rest cost (tr_exit_reason t)) (\<lambda>st'.
               Inr (p\<lparr>pn_state := st'\<rparr>))))))))) "

definition apply_historical_trade ::
  "trade \<Rightarrow> decimal \<Rightarrow> decimal \<Rightarrow> position \<Rightarrow> position res" where
  "apply_historical_trade t residual_quantity residual_cost p =
     (if tr_symbol t \<noteq> pl_symbol (pn_state p) then Inl ValueError
      else if \<not> (non_negative residual_quantity \<and> non_negative residual_cost) then Inl ValueError
      else if (\<not> deq residual_quantity dzero \<or> \<not> deq residual_cost dzero) \<and>
              (tr_schema_version t \<noteq> 4 \<or> tr_exit_reason t \<noteq> Some EXTERNAL_MANUAL \<or>
               tr_side t \<noteq> SELL \<or> dle residual_quantity dzero \<or> dle residual_cost dzero)
      then Inl ValueError
      else if pn_legacy p \<and> tr_schema_version t \<noteq> legacy_schema_version
      then Inl LegacyFeeAccountingMigrationRequiredError
      else case tr_side t of BUY \<Rightarrow> replay_buy t p
                           | SELL \<Rightarrow> replay_sell t residual_quantity residual_cost p)"

section \<open>The invariant\<close>

definition position_state_ok :: "position_state \<Rightarrow> bool" where
  "position_state_ok s \<longleftrightarrow> make_position_state s = Inr s"

text \<open>Only an open position can carry the mark of the old fee accounting.\<close>

definition position_inv :: "position \<Rightarrow> bool" where
  "position_inv p \<longleftrightarrow>
     position_state_ok (pn_state p) \<and> (pn_legacy p \<longrightarrow> pl_status (pn_state p) = POSITION_OPEN)"

lemma make_position_stateD:
  assumes "make_position_state s = Inr s'"
  shows "position_state_ok s'" and "s' = s \<or> (\<exists>t. s' = s\<lparr>pl_entered_at := Some (utc t)\<rparr>)"
  using assms
  by (auto simp: make_position_state_def position_state_ok_def ebind_eq_Inr normalize_utc_def
      common_values_ok_def open_values_ok_def split: if_splits)

lemma open_position:
  assumes "position_state_ok s" "pl_status s = POSITION_OPEN"
  shows "positive (pl_quantity s)" "positive (pl_cost_basis s)" "positive (pl_entry_quantity s)"
    "positive (pl_entry_amount s)" "pl_owner s \<noteq> None" "pl_symbol s = supported_symbol"
    "\<exists>t. pl_entered_at s = Some t \<and> is_utc t"
    "dval (pl_average_entry_price s) = round_sig 34 (dval (pl_cost_basis s) / dval (pl_quantity s))"
proof -
  have all: "common_values_ok s" "open_values_ok s" "is_utc (the (pl_entered_at s))"
    "div_at 34 (pl_cost_basis s) (pl_quantity s) = Inr e \<Longrightarrow> deq (pl_average_entry_price s) e" for e
    using assms
    by (auto simp: make_position_state_def position_state_ok_def ebind_eq_Inr normalize_utc_def
        split: if_splits)
  then show pos: "positive (pl_quantity s)" "positive (pl_cost_basis s)" "positive (pl_entry_quantity s)"
    "positive (pl_entry_amount s)" "pl_owner s \<noteq> None" "pl_symbol s = supported_symbol"
    "\<exists>t. pl_entered_at s = Some t \<and> is_utc t"
    using assms(2) by (auto simp: common_values_ok_def open_values_ok_def)
  have "positive (pl_average_entry_price s)" using all(2) by (simp add: open_values_ok_def)
  then show "dval (pl_average_entry_price s) =
      round_sig 34 (dval (pl_cost_basis s) / dval (pl_quantity s))"
    using all(4) pos(1,2) by (simp add: div_at_finite positive_iff deq_finite)
qed

lemma closed_position:
  assumes "position_state_ok s" "pl_status s = POSITION_CLOSED"
  shows "is_finite (pl_quantity s)" "dval (pl_quantity s) = 0" "is_finite (pl_cost_basis s)"
    "dval (pl_cost_basis s) = 0" "is_finite (pl_entry_quantity s)" "dval (pl_entry_quantity s) = 0"
    "is_finite (pl_entry_amount s)" "dval (pl_entry_amount s) = 0"
    "pl_owner s = None" "pl_entered_at s = None" "pl_symbol s = supported_symbol"
  using assms
  by (auto simp: make_position_state_def position_state_ok_def ebind_eq_Inr common_values_ok_def
      closed_values_ok_def deq_finite split: if_splits)

lemma position_values:
  assumes "position_state_ok s"
  shows "is_finite (pl_quantity s)" "0 \<le> dval (pl_quantity s)"
    "is_finite (pl_cost_basis s)" "0 \<le> dval (pl_cost_basis s)"
    "is_finite (pl_entry_quantity s)" "0 \<le> dval (pl_entry_quantity s)"
    "is_finite (pl_entry_amount s)" "0 \<le> dval (pl_entry_amount s)"
    "pl_symbol s = supported_symbol" "\<forall>t. pl_entered_at s = Some t \<longrightarrow> is_utc t"
    "pl_owner s = None \<longleftrightarrow> pl_status s = POSITION_CLOSED"
    "pl_entered_at s = None \<longleftrightarrow> pl_status s = POSITION_CLOSED"
    "0 < dval (pl_quantity s) \<longleftrightarrow> pl_status s = POSITION_OPEN"
proof -
  consider "pl_status s = POSITION_OPEN" | "pl_status s = POSITION_CLOSED"
    by (cases "pl_status s") auto
  then have "is_finite (pl_quantity s) \<and> 0 \<le> dval (pl_quantity s) \<and>
    is_finite (pl_cost_basis s) \<and> 0 \<le> dval (pl_cost_basis s) \<and>
    is_finite (pl_entry_quantity s) \<and> 0 \<le> dval (pl_entry_quantity s) \<and>
    is_finite (pl_entry_amount s) \<and> 0 \<le> dval (pl_entry_amount s) \<and>
    pl_symbol s = supported_symbol \<and> (\<forall>t. pl_entered_at s = Some t \<longrightarrow> is_utc t) \<and>
    (pl_owner s = None \<longleftrightarrow> pl_status s = POSITION_CLOSED) \<and>
    (pl_entered_at s = None \<longleftrightarrow> pl_status s = POSITION_CLOSED) \<and>
    (0 < dval (pl_quantity s) \<longleftrightarrow> pl_status s = POSITION_OPEN)"
  proof cases
    case 1
    show ?thesis using open_position [OF assms 1] 1 by (auto simp: positive_iff)
  next
    case 2
    show ?thesis using closed_position [OF assms 2] 2 by simp
  qed
  then show "is_finite (pl_quantity s)" "0 \<le> dval (pl_quantity s)"
    "is_finite (pl_cost_basis s)" "0 \<le> dval (pl_cost_basis s)"
    "is_finite (pl_entry_quantity s)" "0 \<le> dval (pl_entry_quantity s)"
    "is_finite (pl_entry_amount s)" "0 \<le> dval (pl_entry_amount s)"
    "pl_symbol s = supported_symbol" "\<forall>t. pl_entered_at s = Some t \<longrightarrow> is_utc t"
    "pl_owner s = None \<longleftrightarrow> pl_status s = POSITION_CLOSED"
    "pl_entered_at s = None \<longleftrightarrow> pl_status s = POSITION_CLOSED"
    "0 < dval (pl_quantity s) \<longleftrightarrow> pl_status s = POSITION_OPEN"
    by simp_all
qed

lemma closed_state_ok:
  "make_position_state (closed_state supported_symbol r) = Inr (closed_state supported_symbol r)"
  by (simp add: make_position_state_def closed_state_def common_values_ok_def closed_values_ok_def
      non_negative_iff deq_finite)

lemma position_inv_new: "position_inv new_position"
  by (simp add: position_inv_def position_state_ok_def new_position_def closed_state_ok)

section \<open>Buying\<close>

lemma bought_state_ok:
  assumes "position_state_ok s" "positive acquired" "positive executed" "positive amount"
    "non_negative fee" "is_utc t"
  obtains s' where "bought_state s owner acquired executed amount fee t = Inr s'"
    "position_state_ok s'" "pl_status s' = POSITION_OPEN" "pl_owner s' = Some owner"
    "dval (pl_quantity s') = round_sig 34 (dval (pl_quantity s) + dval acquired)"
    "dval (pl_cost_basis s') =
       round_sig 34 (round_sig 34 (dval (pl_cost_basis s) + dval amount) + dval fee)"
    "pl_entered_at s' = (if pl_entered_at s = None then Some t else pl_entered_at s)"
    "pl_exit_reason s' = None"
proof -
  note v = position_values [OF assms(1)] and a = assms(2-5) [unfolded positive_iff non_negative_iff]
  define g where "g = round_sig 34 (dval (pl_cost_basis s) + dval amount)"
  define c where "c = round_sig 34 (g + dval fee)"
  define q where "q = round_sig 34 (dval (pl_quantity s) + dval acquired)"
  define eq where "eq = round_sig 34 (dval (pl_entry_quantity s) + dval executed)"
  define ea where "ea = round_sig 34 (dval (pl_entry_amount s) + dval amount)"
  have pos: "0 < g" "0 < q" "0 < eq" "0 < ea"
    using v a by (auto simp: g_def q_def eq_def ea_def intro!: r34.pos)
  then have c: "0 < c" using a by (auto simp: c_def intro!: r34.pos)
  with pos have avg: "0 < round_sig 34 (c / q)" by (auto intro!: r34.pos)
  define s' where "s' = \<lparr>pl_symbol = pl_symbol s, pl_owner = Some owner, pl_quantity = Fin q,
        pl_average_entry_price = Fin (round_sig 34 (c / q)), pl_cost_basis = Fin c,
        pl_entered_at = (if pl_entered_at s \<noteq> None then pl_entered_at s else Some t),
        pl_status = POSITION_OPEN, pl_exit_reason = None, pl_entry_quantity = Fin eq,
        pl_entry_amount = Fin ea\<rparr>"
  have entered: "normalize_utc (the (pl_entered_at s')) = Inr (the (pl_entered_at s'))"
    "pl_entered_at s' = Some (the (pl_entered_at s'))"
    using v(10) assms(6) by (auto simp: s'_def normalize_utc_def dest: is_utc_eq [symmetric])
  have ok: "make_position_state s' = Inr s'"
  proof -
    have "common_values_ok s'" "open_values_ok s'"
      using pos c avg v(9) by (auto simp: common_values_ok_def open_values_ok_def s'_def
          positive_iff non_negative_iff)
    moreover have "pl_status s' = POSITION_OPEN" "div_at 34 (pl_cost_basis s') (pl_quantity s')
        = Inr (pl_average_entry_price s')"
      using pos c avg by (simp_all add: s'_def div_at_finite dec_of_def)
    moreover have "deq (pl_average_entry_price s') (pl_average_entry_price s')"
      by (simp add: s'_def deq_refl)
    ultimately show ?thesis
      using entered by (simp add: make_position_state_def)
  qed
  have "bought_state s owner acquired executed amount fee t = make_position_state s'"
    using v a pos c avg
    by (simp add: bought_state_def add_at_finite div_at_finite dec_of_def s'_def
        g_def [symmetric] c_def [symmetric] q_def [symmetric] eq_def [symmetric] ea_def [symmetric])
  with ok have "bought_state s owner acquired executed amount fee t = Inr s'" by simp
  then show ?thesis
    by (rule that) (use ok in \<open>auto simp: position_state_ok_def s'_def q_def c_def g_def\<close>)
qed

text \<open>The fees of a valid summary.\<close>

lemma summary_okD:
  assumes "summary_ok s"
  shows "summary_values_ok s" "es_fills s \<noteq> []" "list_all fill_ok (es_fills s)"
    "is_utc (es_executed_at s)" "\<exists>a. aggregate_fills (es_fills s) = Inr a \<and> summary_matches a s"
    "positive (es_executed_quantity s)" "positive (es_executed_amount s)"
    "non_negative (es_fee_quote_amount s)" "es_symbol s = supported_symbol"
    "distinct (map fill_key (es_fills s))"
  using assms
  by (auto simp: summary_ok_def check_summary_def ebind_eq_Inr summary_values_ok_def symbol_ok_def)

lemma summary_fees:
  assumes "summary_ok s"
  obtains b n where "base_fee_amount s = Inr b" "non_negative b"
    "non_base_fee_quote_amount s = Inr n" "non_negative n"
proof -
  note ok = summary_okD(2,3) [OF assms]
  have all: "list_all non_negative (map fl_fee_amount (filter P (es_fills s)))"
    "list_all non_negative (map fl_fee_quote_amount (filter P (es_fills s)))" for P
    using ok(2) by (auto simp: list_all_iff dest: fill_ok_values)
  from sum_non_negative [OF all(1) [where P = "\<lambda>f. fl_fee_asset f = ''ETH''"]]
  obtain b where b: "sum_at 34 dzero
      (map fl_fee_amount (filter (\<lambda>f. fl_fee_asset f = ''ETH'') (es_fills s))) = Inr b"
    "non_negative b" by blast
  from sum_non_negative [OF all(2) [where P = "\<lambda>f. fl_fee_asset f \<noteq> ''ETH''"]]
  obtain n where n: "sum_at 34 dzero
      (map fl_fee_quote_amount (filter (\<lambda>f. fl_fee_asset f \<noteq> ''ETH'') (es_fills s))) = Inr n"
    "non_negative n" by blast
  show ?thesis
    by (rule that [of b n]) (use ok(1) b n in \<open>simp_all add: base_fee_amount_def base_fee_of_def
        non_base_fee_quote_amount_def non_base_fee_of_def\<close>)
qed

lemma net_buy_quantity:
  assumes "positive e" "non_negative b"
  shows "dval b < dval e \<Longrightarrow> \<exists>z. calculate_net_buy_quantity e b ''ETH'' = Inr z \<and> positive z \<and>
      dval z = round_sig 34 (dval e - dval b)"
    and "\<not> dval b < dval e \<Longrightarrow> calculate_net_buy_quantity e b ''ETH'' = Inl ValueError"
proof -
  have fin: "is_finite e" "is_finite b" "e \<noteq> NegZero"
    using assms [unfolded positive_iff non_negative_iff] by auto
  define r where "r = round_sig 34 (dval e - dval b)"
  have net: "calculate_net_buy_quantity e b ''ETH'' = (if r \<le> 0 then Inl ValueError else Inr (Fin r))"
  proof -
    have "sub_at 34 e b = Inr (Fin r)" using fin by (simp add: sub_at_finite dec_of_def r_def)
    then show ?thesis by (simp add: calculate_net_buy_quantity_def)
  qed
  have "0 < r \<longleftrightarrow> dval b < dval e" using r34.pos_iff [of "dval e - dval b"] by (simp add: r_def)
  then show "dval b < dval e \<Longrightarrow> \<exists>z. calculate_net_buy_quantity e b ''ETH'' = Inr z \<and> positive z \<and>
      dval z = round_sig 34 (dval e - dval b)"
    "\<not> dval b < dval e \<Longrightarrow> calculate_net_buy_quantity e b ''ETH'' = Inl ValueError"
    unfolding net by (auto simp: positive_iff r_def [symmetric])
qed

text \<open>What a position accepts before it looks at the side.\<close>

lemma apply_execution_step:
  assumes "summary_ok s" "position_inv p" "\<not> pn_legacy p"
  shows "apply_execution s p =
    ebind (case es_side s of BUY \<Rightarrow> build_buy_state s (es_executed_at s) (pn_state p)
                           | SELL \<Rightarrow> build_sell_state s p) (\<lambda>st. Inr (p\<lparr>pn_state := st\<rparr>))"
proof -
  have "pl_symbol (pn_state p) = supported_symbol"
    using assms(2) position_values(9) by (simp add: position_inv_def)
  then show ?thesis
    using summary_okD [OF assms(1)] assms(3) is_utc_eq [of "es_executed_at s"]
    by (simp add: apply_execution_def normalize_utc_def)
qed

lemma buy_booked:
  assumes "position_inv p" "\<not> pn_legacy p" "summary_ok s" "es_side s = BUY"
    "pl_owner (pn_state p) \<in> {None, Some (es_strategy s)}"
    "base_fee_amount s = Inr b" "dval b < dval (es_executed_quantity s)"
    "non_base_fee_quote_amount s = Inr n"
  obtains p' where "apply_execution s p = Inr p'" "position_inv p'" "\<not> pn_legacy p'"
    "pl_owner (pn_state p') = Some (es_strategy s)" "pl_status (pn_state p') = POSITION_OPEN"
    "dval (pl_quantity (pn_state p')) = round_sig 34 (dval (pl_quantity (pn_state p)) +
       round_sig 34 (dval (es_executed_quantity s) - dval b))"
    "dval (pl_cost_basis (pn_state p')) = round_sig 34 (round_sig 34
       (dval (pl_cost_basis (pn_state p)) + dval (es_executed_amount s)) + dval n)"
    "pl_entered_at (pn_state p') = (if pl_entered_at (pn_state p) = None then Some (es_executed_at s)
       else pl_entered_at (pn_state p))"
proof -
  have st: "position_state_ok (pn_state p)" using assms(1) by (simp add: position_inv_def)
  have fees: "non_negative b" "non_negative n" using summary_fees [OF assms(3)] assms(6,8) by auto
  note s = summary_okD [OF assms(3)]
  obtain z where z: "calculate_net_buy_quantity (es_executed_quantity s) b ''ETH'' = Inr z"
    "positive z" "dval z = round_sig 34 (dval (es_executed_quantity s) - dval b)"
    using net_buy_quantity(1) [OF s(6) fees(1) assms(7)] by auto
  obtain st' where st': "bought_state (pn_state p) (es_strategy s) z (es_executed_quantity s)
      (es_executed_amount s) n (es_executed_at s) = Inr st'"
    "position_state_ok st'" "pl_status st' = POSITION_OPEN" "pl_owner st' = Some (es_strategy s)"
    "dval (pl_quantity st') = round_sig 34 (dval (pl_quantity (pn_state p)) + dval z)"
    "dval (pl_cost_basis st') = round_sig 34 (round_sig 34
       (dval (pl_cost_basis (pn_state p)) + dval (es_executed_amount s)) + dval n)"
    "pl_entered_at st' = (if pl_entered_at (pn_state p) = None then Some (es_executed_at s)
       else pl_entered_at (pn_state p))"
    by (rule bought_state_ok [OF st z(2) s(6,7) fees(2) s(4)]) blast
  have "build_buy_state s (es_executed_at s) (pn_state p) = Inr st'"
    using assms(5,6,8) z(1) st'(1) by (auto simp: build_buy_state_def)
  then have "apply_execution s p = Inr (p\<lparr>pn_state := st'\<rparr>)"
    by (simp add: apply_execution_step [OF assms(3,1,2)] assms(4))
  then show ?thesis
    by (rule that) (use st' assms(2) z(3) in \<open>simp_all add: position_inv_def\<close>)
qed

text \<open>Every other purchase is refused.\<close>

lemma buy_refused:
  assumes "position_inv p" "\<not> pn_legacy p" "summary_ok s" "es_side s = BUY"
    "base_fee_amount s = Inr b"
    "pl_owner (pn_state p) \<notin> {None, Some (es_strategy s)} \<or> \<not> dval b < dval (es_executed_quantity s)"
  shows "apply_execution s p = Inl ValueError"
proof -
  have "non_negative b" using summary_fees [OF assms(3)] assms(5) by auto
  then have "build_buy_state s (es_executed_at s) (pn_state p) = Inl ValueError"
    using assms(5,6) net_buy_quantity(2) summary_okD(6) [OF assms(3)]
    by (auto simp: build_buy_state_def)
  then show ?thesis by (simp add: apply_execution_step [OF assms(3,1,2)] assms(4))
qed

section \<open>Selling\<close>

lemma allocate_cost_whole: "deq q (pl_quantity s) \<Longrightarrow> allocate_cost s q = Inr (pl_cost_basis s)"
  by (simp add: allocate_cost_def)

lemma allocate_cost_share:
  assumes "position_state_ok s" "pl_status s = POSITION_OPEN" "positive q"
    "dval q \<noteq> dval (pl_quantity s)"
  shows "allocate_cost s q = Inr (Fin (round_sig 34
      (round_sig 34 (dval (pl_cost_basis s) * dval q) / dval (pl_quantity s))))"
proof -
  note v = open_position(1,2) [OF assms(1,2), unfolded positive_iff] assms(3) [unfolded positive_iff]
  define m where "m = round_sig 34 (dval (pl_cost_basis s) * dval q)"
  have m: "0 < m" using v by (auto simp: m_def intro!: r34.pos)
  then have "0 < round_sig 34 (m / dval (pl_quantity s))" using v by (auto intro!: r34.pos)
  with m show ?thesis
    using v assms(4)
    by (simp add: allocate_cost_def deq_finite mul_at_finite div_at_finite dec_of_def m_def [symmetric])
qed

text \<open>The share of the cost of a part that leaves a \<open>10^-32\<close> of the quantity is below the cost.\<close>

lemma share_leaves_cost:
  assumes "position_state_ok s" "pl_status s = POSITION_OPEN" "positive q"
    "dval q \<le> dval (pl_quantity s) * (1 - 1 / 10 ^ 32)" "allocate_cost s q = Inr a"
  shows "dval a < dval (pl_cost_basis s)"
proof -
  note v = open_position(1,2) [OF assms(1,2), unfolded positive_iff] assms(3) [unfolded positive_iff]
  let ?Q = "dval (pl_quantity s)"
  have ne: "dval q \<noteq> ?Q" using assms(4) v by auto
  have "dval q * (1 + 3 * (1 / (2 * 10 ^ 33))) \<le>
      ?Q * (1 - 1 / 10 ^ 32) * (1 + 3 * (1 / (2 * 10 ^ 33)))"
    using assms(4) by (intro mult_right_mono) simp_all
  also have "\<dots> < ?Q * 1" unfolding mult.assoc using v by (intro mult_strict_left_mono) simp_all
  finally have "dval q * (1 + 3 * (1 / (2 * 10 ^ 33))) < ?Q" by simp
  then have "round_sig 34 (round_sig 34 (dval (pl_cost_basis s) * dval q) / ?Q) < dval (pl_cost_basis s)"
    using v by (intro r34e.share_below) simp_all
  then show ?thesis using assms(5) unfolding allocate_cost_share [OF assms(1-3) ne] by auto
qed

lemma reduced_state_ok:
  assumes "position_state_ok s" "pl_status s = POSITION_OPEN" "positive rest" "positive cost"
  obtains s' where "reduced_state s rest cost reason = Inr s'" "position_state_ok s'"
    "pl_status s' = POSITION_OPEN" "pl_owner s' = pl_owner s" "pl_quantity s' = rest"
    "pl_cost_basis s' = cost" "pl_entered_at s' = pl_entered_at s" "pl_exit_reason s' = reason"
proof -
  note op = open_position [OF assms(1,2)]
  note v = op(1-4) [unfolded positive_iff] assms(3,4) [unfolded positive_iff]
  define avg where "avg = round_sig 34 (dval cost / dval rest)"
  define mq where "mq = round_sig 34 (dval (pl_entry_quantity s) * dval rest)"
  define ma where "ma = round_sig 34 (dval (pl_entry_amount s) * dval rest)"
  define eq where "eq = round_sig 34 (mq / dval (pl_quantity s))"
  define ea where "ea = round_sig 34 (ma / dval (pl_quantity s))"
  have m: "0 < avg" "0 < mq" "0 < ma" using v by (auto simp: avg_def mq_def ma_def intro!: r34.pos)
  then have e: "0 < eq" "0 < ea" using v by (auto simp: eq_def ea_def intro!: r34.pos)
  define s' where "s' = \<lparr>pl_symbol = pl_symbol s, pl_owner = pl_owner s, pl_quantity = rest,
        pl_average_entry_price = Fin avg, pl_cost_basis = cost, pl_entered_at = pl_entered_at s,
        pl_status = POSITION_OPEN, pl_exit_reason = reason, pl_entry_quantity = Fin eq,
        pl_entry_amount = Fin ea\<rparr>"
  have ok: "make_position_state s' = Inr s'"
  proof -
    obtain t where t: "pl_entered_at s = Some t" "normalize_utc t = Inr t"
      using op(7) is_utc_eq by (auto simp: normalize_utc_def)
    have "common_values_ok s'" "open_values_ok s'"
      unfolding common_values_ok_def open_values_ok_def positive_iff non_negative_iff
      using op(5,6) t(1) v m(1) e by (simp_all add: s'_def)
    moreover have "div_at 34 cost rest = Inr (Fin avg)"
      using v m(1) by (simp add: div_at_finite dec_of_def avg_def)
    ultimately show ?thesis
      using t by (simp add: make_position_state_def s'_def deq_refl)
  qed
  have "div_at 34 cost rest = Inr (Fin avg)"
    "mul_at 34 (pl_entry_quantity s) rest = Inr (Fin mq)"
    "mul_at 34 (pl_entry_amount s) rest = Inr (Fin ma)"
    using v m by (simp_all add: div_at_finite mul_at_finite dec_of_def avg_def mq_def ma_def)
  moreover have "div_at 34 (Fin mq) (pl_quantity s) = Inr (Fin eq)"
    "div_at 34 (Fin ma) (pl_quantity s) = Inr (Fin ea)"
    using v e by (simp_all add: div_at_finite dec_of_def eq_def ea_def)
  ultimately have "reduced_state s rest cost reason = make_position_state s'"
    by (simp add: reduced_state_def s'_def)
  with ok have "reduced_state s rest cost reason = Inr s'" by simp
  then show ?thesis
    by (rule that) (use ok in \<open>simp_all add: position_state_ok_def s'_def\<close>)
qed

text \<open>Selling everything closes the position and releases its whole cost.\<close>

definition sell_allowed :: "execution_summary \<Rightarrow> position \<Rightarrow> bool" where
  "sell_allowed s p \<longleftrightarrow>
     es_side s = SELL \<and> pl_owner (pn_state p) = Some (es_strategy s) \<and>
     dval (es_executed_quantity s) \<le> dval (pl_quantity (pn_state p)) \<and>
     (\<exists>b. base_fee_amount s = Inr b \<and> dval b = 0)"

lemma sell_step:
  assumes "position_inv p" "\<not> pn_legacy p" "summary_ok s" "sell_allowed s p"
  shows "get_cost_basis (es_executed_quantity s) p
      = allocate_cost (pn_state p) (es_executed_quantity s)"
    and "apply_execution s p =
      ebind (allocate_cost (pn_state p) (es_executed_quantity s)) (\<lambda>allocated.
      ebind (sub_at 34 (pl_quantity (pn_state p)) (es_executed_quantity s)) (\<lambda>rest.
      ebind (if deq rest dzero
             then Inr (closed_state supported_symbol (es_exit_reason s))
             else ebind (sub_at 34 (pl_cost_basis (pn_state p)) allocated) (\<lambda>cost.
                  reduced_state (pn_state p) rest cost (es_exit_reason s))) (\<lambda>st.
      Inr (p\<lparr>pn_state := st\<rparr>))))"
    and "pl_status (pn_state p) = POSITION_OPEN" and "position_state_ok (pn_state p)"
proof -
  show ok: "position_state_ok (pn_state p)" using assms(1) by (simp add: position_inv_def)
  show opn: "pl_status (pn_state p) = POSITION_OPEN"
    using position_values(11) [OF ok] assms(4)
    by (cases "pl_status (pn_state p)") (auto simp: sell_allowed_def)
  have e: "positive (es_executed_quantity s)" by (rule summary_okD(6) [OF assms(3)])
  have le: "\<not> dlt (pl_quantity (pn_state p)) (es_executed_quantity s)"
    using assms(4) position_values(1) [OF ok] e by (simp add: sell_allowed_def)
  show cost: "get_cost_basis (es_executed_quantity s) p
      = allocate_cost (pn_state p) (es_executed_quantity s)"
    using e opn le by (simp add: get_cost_basis_def)
  obtain b where b: "base_fee_amount s = Inr b" "\<not> dlt dzero b"
    using assms(4) summary_fees [OF assms(3)] by (fastforce simp: sell_allowed_def)
  have closed: "make_position_state (closed_state (pl_symbol (pn_state p)) (es_exit_reason s)) =
      Inr (closed_state supported_symbol (es_exit_reason s))"
    by (simp add: position_values(9) [OF ok] closed_state_ok)
  show "apply_execution s p =
      ebind (allocate_cost (pn_state p) (es_executed_quantity s)) (\<lambda>allocated.
      ebind (sub_at 34 (pl_quantity (pn_state p)) (es_executed_quantity s)) (\<lambda>rest.
      ebind (if deq rest dzero
             then Inr (closed_state supported_symbol (es_exit_reason s))
             else ebind (sub_at 34 (pl_cost_basis (pn_state p)) allocated) (\<lambda>cost.
                  reduced_state (pn_state p) rest cost (es_exit_reason s))) (\<lambda>st.
      Inr (p\<lparr>pn_state := st\<rparr>))))"
    unfolding closed [symmetric] using assms(4) b opn le
    by (simp add: apply_execution_step [OF assms(3,1,2)] build_sell_state_def Let_def cost
        sell_allowed_def ebind_assoc)
qed

lemma sell_everything:
  assumes "position_inv p" "\<not> pn_legacy p" "summary_ok s" "sell_allowed s p"
    "dval (es_executed_quantity s) = dval (pl_quantity (pn_state p))"
  shows "get_cost_basis (es_executed_quantity s) p = Inr (pl_cost_basis (pn_state p))"
    and "apply_execution s p = Inr (p\<lparr>pn_state := closed_state supported_symbol (es_exit_reason s)\<rparr>)"
proof -
  note st = sell_step [OF assms(1-4)]
  have e: "is_finite (es_executed_quantity s)" using summary_okD(6) [OF assms(3)] by simp
  have Q: "is_finite (pl_quantity (pn_state p))" by (rule position_values(1) [OF st(4)])
  have all: "allocate_cost (pn_state p) (es_executed_quantity s) = Inr (pl_cost_basis (pn_state p))"
    by (intro allocate_cost_whole) (simp add: deq_finite e Q assms(5))
  then show "get_cost_basis (es_executed_quantity s) p = Inr (pl_cost_basis (pn_state p))"
    by (simp add: st(1))
  have "sub_at 34 (pl_quantity (pn_state p)) (es_executed_quantity s) = Inr r \<Longrightarrow> deq r dzero" for r
    using e Q by (auto simp: sub_at_finite deq_finite assms(5))
  moreover obtain r where "sub_at 34 (pl_quantity (pn_state p)) (es_executed_quantity s) = Inr r"
    using e Q by (simp add: sub_at_finite)
  ultimately show "apply_execution s p
      = Inr (p\<lparr>pn_state := closed_state supported_symbol (es_exit_reason s)\<rparr>)"
    unfolding st(2) all by simp
qed

text \<open>
  Selling a part keeps the position open.  The cost that is released and the cost that stays make
  up the old cost but for one rounding.
\<close>

lemma sell_part:
  assumes "position_inv p" "\<not> pn_legacy p" "summary_ok s" "sell_allowed s p"
    "dval (es_executed_quantity s) \<le> dval (pl_quantity (pn_state p)) * (1 - 1 / 10 ^ 32)"
  obtains a p' where "get_cost_basis (es_executed_quantity s) p = Inr a"
    "apply_execution s p = Inr p'" "position_inv p'" "\<not> pn_legacy p'"
    "pl_status (pn_state p') = POSITION_OPEN" "pl_owner (pn_state p') = pl_owner (pn_state p)"
    "pl_entered_at (pn_state p') = pl_entered_at (pn_state p)"
    "pl_exit_reason (pn_state p') = es_exit_reason s"
    "dval (pl_quantity (pn_state p')) =
       round_sig 34 (dval (pl_quantity (pn_state p)) - dval (es_executed_quantity s))"
    "0 < dval a" "dval a < dval (pl_cost_basis (pn_state p))"
    "\<bar>dval a - dval (pl_cost_basis (pn_state p)) * dval (es_executed_quantity s)
        / dval (pl_quantity (pn_state p))\<bar> \<le> dval (pl_cost_basis (pn_state p)) / 10 ^ 32"
    "\<bar>dval (pl_cost_basis (pn_state p')) + dval a - dval (pl_cost_basis (pn_state p))\<bar>
       \<le> dval (pl_cost_basis (pn_state p)) / 10 ^ 33"
    "dval a = round_sig 34 (round_sig 34 (dval (pl_cost_basis (pn_state p)) *
       dval (es_executed_quantity s)) / dval (pl_quantity (pn_state p)))"
    "dval (pl_cost_basis (pn_state p')) = round_sig 34 (dval (pl_cost_basis (pn_state p)) - dval a)"
proof -
  note st = sell_step [OF assms(1-4)]
  note v = open_position(1,2) [OF st(4,3), unfolded positive_iff]
  have e: "positive (es_executed_quantity s)" by (rule summary_okD(6) [OF assms(3)])
  define E Q C where "E = dval (es_executed_quantity s)" and "Q = dval (pl_quantity (pn_state p))"
    and "C = dval (pl_cost_basis (pn_state p))"
  have E: "0 < E" "is_finite (es_executed_quantity s)" using e unfolding positive_iff E_def by auto
  have Q: "0 < Q" and C: "0 < C" and le: "E \<le> Q * (1 - 1 / 10 ^ 32)"
    using v assms(5) by (auto simp: Q_def C_def E_def)
  have "Q * (1 - 1 / 10 ^ 32) < Q * 1" using Q by (intro mult_strict_left_mono) simp_all
  with le have less: "E < Q" by linarith
  define a where "a = round_sig 34 (round_sig 34 (C * E) / Q)"
  have a: "allocate_cost (pn_state p) (es_executed_quantity s) = Inr (Fin a)"
    using allocate_cost_share [OF st(4,3) e] less unfolding a_def C_def E_def Q_def by simp
  have "a < C" using share_leaves_cost [OF st(4,3) e assms(5) a] by (simp add: C_def)
  have "0 < a" unfolding a_def using C E Q by (intro r34.pos divide_pos_pos) auto
  define rest cost where "rest = round_sig 34 (Q - E)" and "cost = round_sig 34 (C - a)"
  have pos: "0 < rest" "0 < cost" using less \<open>a < C\<close> by (auto simp: rest_def cost_def intro!: r34.pos)
  have subs: "sub_at 34 (pl_quantity (pn_state p)) (es_executed_quantity s) = Inr (Fin rest)"
    "sub_at 34 (pl_cost_basis (pn_state p)) (Fin a) = Inr (Fin cost)"
    using v E pos by (simp_all add: sub_at_finite dec_of_def rest_def cost_def Q_def E_def C_def)
  have okr: "positive (Fin rest)" "positive (Fin cost)" unfolding positive_iff using pos by simp_all
  obtain st' where st': "reduced_state (pn_state p) (Fin rest) (Fin cost) (es_exit_reason s) = Inr st'"
    "position_state_ok st'" "pl_status st' = POSITION_OPEN" "pl_owner st' = pl_owner (pn_state p)"
    "pl_quantity st' = Fin rest" "pl_cost_basis st' = Fin cost"
    "pl_entered_at st' = pl_entered_at (pn_state p)" "pl_exit_reason st' = es_exit_reason s"
    by (rule reduced_state_ok [OF st(4,3) okr]) blast
  have "\<not> deq (Fin rest) dzero" using pos by (simp add: deq_finite)
  then have applied: "apply_execution s p = Inr (p\<lparr>pn_state := st'\<rparr>)"
    unfolding st(2) a by (simp add: subs st'(1))
  have "\<bar>a - C * E / Q\<bar> \<le> C * E / Q * (2 * (1 / (2 * 10 ^ 33)) + 1 / (2 * 10 ^ 33) * (1 / (2 * 10 ^ 33)))"
    unfolding a_def using C E Q by (intro r34e.share_error) simp_all
  also have "\<dots> \<le> C * (1 / 10 ^ 32)"
  proof (rule mult_mono)
    show "C * E / Q \<le> C" using C E Q less by (simp add: field_simps)
  qed (use C in simp_all)
  finally have share: "\<bar>a - C * E / Q\<bar> \<le> C / 10 ^ 32" by simp
  have "\<bar>cost - (C - a)\<bar> \<le> \<bar>C - a\<bar> * (1 / (2 * 10 ^ 33))"
    unfolding cost_def by (rule r34e.relative)
  also have "\<dots> \<le> C * (1 / 10 ^ 33)" using \<open>0 < a\<close> \<open>a < C\<close> by (intro mult_mono) simp_all
  finally have "\<bar>cost - (C - a)\<bar> \<le> C / 10 ^ 33" by simp
  moreover have "cost - (C - a) = cost + a - C" by linarith
  ultimately have kept: "\<bar>cost + a - C\<bar> \<le> C / 10 ^ 33" by (simp only:)
  show ?thesis
    by (rule that [of "Fin a" "p\<lparr>pn_state := st'\<rparr>"])
      (use st'(2-8) applied share kept \<open>0 < a\<close> \<open>a < C\<close> assms(2) st(1) a
       in \<open>simp_all add: position_inv_def rest_def E_def Q_def C_def a_def cost_def\<close>)
qed

text \<open>Every operation that succeeds leaves a valid position.\<close>

lemma bought_state_valid: "bought_state s ow acq ex am fee t = Inr s' \<Longrightarrow> position_state_ok s'"
  by (auto simp: bought_state_def ebind_eq_Inr dest: make_position_stateD)

lemma reduced_state_valid: "reduced_state s rest cost reason = Inr s' \<Longrightarrow> position_state_ok s'"
  by (auto simp: reduced_state_def ebind_eq_Inr dest: make_position_stateD)

lemma make_position_state_status: "make_position_state s = Inr s' \<Longrightarrow> pl_status s' = pl_status s"
  using make_position_stateD(2) [of s s'] by auto

lemma bought_state_open: "bought_state s ow acq ex am fee t = Inr s' \<Longrightarrow> pl_status s' = POSITION_OPEN"
  by (auto simp: bought_state_def ebind_eq_Inr dest!: make_position_state_status)

lemma reduced_state_open: "reduced_state s rest cost reason = Inr s' \<Longrightarrow> pl_status s' = POSITION_OPEN"
  by (auto simp: reduced_state_def ebind_eq_Inr dest!: make_position_state_status)

lemma apply_execution_inv:
  assumes "position_inv p" "apply_execution s p = Inr p'"
  shows "position_inv p'" and "\<not> pn_legacy p'"
proof -
  obtain st t where st: "p' = p\<lparr>pn_state := st\<rparr>" "\<not> pn_legacy p"
    "es_side s = BUY \<Longrightarrow> build_buy_state s t (pn_state p) = Inr st"
    "es_side s = SELL \<Longrightarrow> build_sell_state s p = Inr st"
    using assms(2) by (cases "es_side s") (auto simp: apply_execution_def ebind_eq_Inr)
  have "position_state_ok st"
  proof (cases "es_side s")
    case BUY
    then show ?thesis
      using st(3) by (auto simp: build_buy_state_def ebind_eq_Inr split: if_splits
          intro: bought_state_valid)
  next
    case SELL
    then show ?thesis
      using st(4) by (auto simp: build_sell_state_def Let_def ebind_eq_Inr split: if_splits
          intro: reduced_state_valid make_position_stateD(1))
  qed
  then show "position_inv p'" "\<not> pn_legacy p'" using st(1,2) by (simp_all add: position_inv_def)
qed

lemma historical_trade_inv:
  assumes "position_inv p" "apply_historical_trade t rq rc p = Inr p'"
  shows "position_inv p'"
proof (cases "tr_side t")
  case BUY
  then have "replay_buy t p = Inr p'"
    using assms(2) by (auto simp: apply_historical_trade_def split: if_splits)
  then show ?thesis
    by (auto simp: replay_buy_def Let_def ebind_eq_Inr position_inv_def split: if_splits
        intro: bought_state_valid bought_state_open)
next
  case SELL
  then have "replay_sell t rq rc p = Inr p'"
    using assms(2) by (auto simp: apply_historical_trade_def split: if_splits)
  then show ?thesis
    by (auto simp: replay_sell_def Let_def ebind_eq_Inr position_inv_def split: if_splits
        intro: reduced_state_valid reduced_state_open make_position_stateD(1))
qed

lemma detach_residual_inv:
  assumes "detach_residual q c step p = Inr p'"
  shows "position_inv p'" and "pn_state p' = closed_state (pl_symbol (pn_state p)) (pl_exit_reason (pn_state p))"
proof -
  obtain st where st: "make_position_state (closed_state (pl_symbol (pn_state p))
      (pl_exit_reason (pn_state p))) = Inr st" "p' = p\<lparr>pn_state := st\<rparr>" "\<not> pn_legacy p"
    using assms by (auto simp: detach_residual_def ebind_eq_Inr
        require_history_accounting_compatibility_def split: if_splits)
  have "st = closed_state (pl_symbol (pn_state p)) (pl_exit_reason (pn_state p))"
    using st(1) by (auto simp: make_position_state_def closed_state_def ebind_eq_Inr)
  then show "pn_state p' = closed_state (pl_symbol (pn_state p)) (pl_exit_reason (pn_state p))"
    by (simp add: st(2))
  show "position_inv p'"
    using make_position_stateD(1) [OF st(1)] st(2,3) by (simp add: position_inv_def)
qed

section \<open>Replay and live execution\<close>

text \<open>The trade of a summary carries the same fees, up to the sign of a zero.\<close>

lemma trade_fees:
  assumes "summary_ok s"
  obtains b b' n n' where
    "base_fee_amount s = Inr b" "tr_base_fee_amount (trade_of od xid s z) = Inr b'"
    "non_negative b" "non_negative b'" "dval b' = dval b"
    "non_base_fee_quote_amount s = Inr n" "tr_non_base_fee_quote_amount (trade_of od xid s z) = Inr n'"
    "non_negative n" "non_negative n'" "dval n' = dval n"
proof (cases "has_bnb_fee (es_fills s)")
  case True
  obtain b n where bn: "base_fee_amount s = Inr b" "non_negative b"
    "non_base_fee_quote_amount s = Inr n" "non_negative n"
    by (rule summary_fees [OF assms])
  have "es_fills s \<noteq> []" by (rule summary_okD(2) [OF assms])
  then show ?thesis
    by (intro that [of b b n n]) (use bn True in \<open>simp_all add: tr_base_fee_amount_def
      tr_non_base_fee_quote_amount_def trade_of_def base_fee_amount_def base_fee_of_def
      non_base_fee_quote_amount_def non_base_fee_of_def\<close>)
next
  case False
  note sv = summary_okD [OF assms]
  obtain a where a: "aggregate_fills (es_fills s) = Inr a" "summary_matches a s" using sv(5) by blast
  obtain x where x: "single_fee_asset (es_fills s) = Some x" "x = ''ETH'' \<or> x = ''USDT''"
    "\<forall>f\<in>set (es_fills s). fl_fee_asset f = x"
    by (rule no_bnb_single [OF a(1) False sv(3)])
  note fee = aggregate_fees(3) [OF a(1) x(1)] and quote = aggregate_fees(2) [OF a(1)]
  have nn: "non_negative (ag_fee_amount a)" "non_negative (ag_fee_quote_amount a)"
    using fee_sums [OF sv(3)] fee quote by blast+
  have nns: "non_negative (es_fee_amount s)" "non_negative (es_fee_quote_amount s)"
    using sv(1) by (simp_all add: summary_values_ok_def)
  have eq: "dval (es_fee_amount s) = dval (ag_fee_amount a)"
    "dval (es_fee_quote_amount s) = dval (ag_fee_quote_amount a)" "es_fee_asset s = x"
    using a(2) nn nns fee by (auto simp: summary_matches_def deq_finite)
  have z: "non_negative dzero" unfolding non_negative_iff by simp
  from x(2) show ?thesis
  proof
    assume eth: "x = ''ETH''"
    then have filters: "filter (\<lambda>f. fl_fee_asset f = ''ETH'') (es_fills s) = es_fills s"
      "filter (\<lambda>f. fl_fee_asset f \<noteq> ''ETH'') (es_fills s) = []"
      using x(3) by (simp_all add: filter_id_conv filter_empty_conv)
    show ?thesis
      by (rule that [of "ag_fee_amount a" "es_fee_amount s" dzero dzero])
        (use eth eq nn nns z fee sv(2) False filters in \<open>simp_all add: tr_base_fee_amount_def
          tr_non_base_fee_quote_amount_def trade_of_def base_fee_amount_def base_fee_of_def
          non_base_fee_quote_amount_def non_base_fee_of_def\<close>)
  next
    assume usdt: "x = ''USDT''"
    then have filters: "filter (\<lambda>f. fl_fee_asset f = ''ETH'') (es_fills s) = []"
      "filter (\<lambda>f. fl_fee_asset f \<noteq> ''ETH'') (es_fills s) = es_fills s"
      using x(3) by (simp_all add: filter_id_conv filter_empty_conv)
    show ?thesis
      by (rule that [of dzero dzero "ag_fee_quote_amount a" "es_fee_quote_amount s"])
        (use usdt eq nn nns z quote sv(2) False filters in \<open>simp_all add: tr_base_fee_amount_def
          tr_non_base_fee_quote_amount_def trade_of_def base_fee_amount_def base_fee_of_def
          non_base_fee_quote_amount_def non_base_fee_of_def\<close>)
  qed
qed

lemma net_buy_cong:
  assumes "positive e" "non_negative b" "non_negative b'" "dval b' = dval b"
  shows "calculate_net_buy_quantity e b' ''ETH'' = calculate_net_buy_quantity e b ''ETH''"
proof -
  have fin: "is_finite e" "e \<noteq> NegZero" using assms(1) [unfolded positive_iff] by auto
  have "sub_at 34 e b' = sub_at 34 e b"
    using assms(2-4) fin by (simp add: sub_at_finite)
  then show ?thesis by (simp add: calculate_net_buy_quantity_def)
qed

lemma bought_state_fee_cong:
  assumes "position_state_ok s" "positive amount" "non_negative n" "non_negative n'" "dval n' = dval n"
  shows "bought_state s ow acq ex amount n' t = bought_state s ow acq ex amount n t"
proof -
  note v = position_values(3,4) [OF assms(1)] and am = assms(2) [unfolded positive_iff]
  define g where "g = round_sig 34 (dval (pl_cost_basis s) + dval amount)"
  have "0 < g" unfolding g_def using v am by (intro r34.pos) simp
  then have g: "add_at 34 (pl_cost_basis s) amount = Inr (Fin g)"
    using v am by (simp add: add_at_finite dec_of_def g_def)
  have "add_at 34 (Fin g) n' = add_at 34 (Fin g) n"
    using assms(3-5) by (simp add: add_at_finite)
  then show ?thesis by (simp add: bought_state_def g)
qed

text \<open>The executed quantity of a summary has at most 34 digits.\<close>

lemma executed_quantity_exact:
  assumes "summary_ok s"
  shows "sub_at 34 (es_executed_quantity s) dzero = Inr (es_executed_quantity s)"
proof -
  note sv = summary_okD [OF assms]
  obtain a where a: "aggregate_fills (es_fills s) = Inr a" "summary_matches a s" using sv(5) by blast
  have q: "positive (ag_quantity a)" "dval (ag_quantity a) = total_quantity (es_fills s)"
    using aggregate_fills_cases [OF sv(3,2)] a(1) by auto
  have e: "is_finite (es_executed_quantity s)" "0 < dval (es_executed_quantity s)"
    using sv(6) [unfolded positive_iff] by auto
  have "dval (es_executed_quantity s) = total_quantity (es_fills s)"
    using a(2) q e by (auto simp: summary_matches_def deq_finite)
  then have "round_sig 34 (dval (es_executed_quantity s)) = dval (es_executed_quantity s)"
    unfolding total_quantity_def by (simp add: sum_sig_fixed)
  moreover have "es_executed_quantity s = Fin (dval (es_executed_quantity s))"
    using e by (cases "es_executed_quantity s") auto
  ultimately show ?thesis using e by (auto simp: sub_at_finite dec_of_def)
qed

lemma sell_replayed:
  assumes "position_inv p" "summary_ok s" "\<not> pn_legacy p" "tr_strategy t = es_strategy s"
    "tr_exit_reason t = es_exit_reason s" "tr_executed_quantity t = es_executed_quantity s"
    "tr_schema_version t \<noteq> legacy_schema_version" "base_fee_amount s = Inr b"
    "tr_base_fee_amount t = Inr b'" "non_negative b" "non_negative b'" "dval b' = dval b"
    "build_sell_state s p = Inr st"
  shows "replay_sell t dzero dzero p = Inr (p\<lparr>pn_state := st\<rparr>)"
proof -
  have ok: "position_state_ok (pn_state p)" using assms(1) by (simp add: position_inv_def)
  define E where "E = es_executed_quantity s"
  have E: "positive E" "is_finite E" "\<not> dle E dzero"
    using summary_okD(6) [OF assms(2)] unfolding E_def positive_def by blast+
  obtain a r where live: "\<not> dlt dzero b" "pl_status (pn_state p) = POSITION_OPEN"
    "pl_owner (pn_state p) = Some (es_strategy s)" "\<not> dlt (pl_quantity (pn_state p)) E"
    "allocate_cost (pn_state p) E = Inr a" "sub_at 34 (pl_quantity (pn_state p)) E = Inr r"
    "(if deq r dzero then make_position_state (closed_state (pl_symbol (pn_state p)) (es_exit_reason s))
      else ebind (sub_at 34 (pl_cost_basis (pn_state p)) a) (\<lambda>cost.
           reduced_state (pn_state p) r cost (es_exit_reason s))) = Inr st"
    using assms(8,13) by (auto simp: build_sell_state_def get_cost_basis_def Let_def ebind_eq_Inr E_def
        split: if_splits)
  have nb: "\<not> dlt dzero b'" using live(1) assms(10-12) by simp
  have fin: "is_finite a"
  proof (cases "deq E (pl_quantity (pn_state p))")
    case True
    then show ?thesis using live(5) position_values(3) [OF ok] allocate_cost_whole by auto
  next
    case False
    then have "dval E \<noteq> dval (pl_quantity (pn_state p))"
      using E position_values(1) [OF ok] by (simp add: deq_finite)
    then show ?thesis using live(5) allocate_cost_share [OF ok live(2) E(1)] by auto
  qed
  obtain c where c: "sub_at 34 (pl_cost_basis (pn_state p)) a = Inr c"
    using fin position_values(3) [OF ok] by (simp add: sub_at_finite)
  have "deq dzero dzero" by (simp add: deq_refl)
  with live nb c E(3) assms(3-7,9) executed_quantity_exact [OF assms(2)] show ?thesis
    by (cases "deq r dzero") (simp_all add: replay_sell_def Let_def E_def)
qed

text \<open>
  Replaying the trade of an execution gives the position that the execution gave.
\<close>

lemma replay_equals_live:
  assumes "position_inv p" "summary_ok s" "summary_of_order od s"
    "apply_execution s p = Inr p'"
  shows "apply_historical_trade (trade_of od xid s z) dzero dzero p = Inr p'"
proof -
  let ?t = "trade_of od xid s z"
  have leg: "\<not> pn_legacy p" using assms(4) by (auto simp: apply_execution_def ebind_eq_Inr)
  have ok: "position_state_ok (pn_state p)" using assms(1) by (simp add: position_inv_def)
  note sv = summary_okD [OF assms(2)]
  have side: "oa_side od = es_side s" "oa_strategy od = es_strategy s"
    "oa_exit_reason od = es_exit_reason s" "oa_symbol od = es_symbol s"
    using assms(3) by (simp_all add: summary_of_order_def)
  have t: "tr_symbol ?t = supported_symbol" "tr_side ?t = es_side s" "tr_strategy ?t = es_strategy s"
    "tr_exit_reason ?t = es_exit_reason s" "tr_executed_quantity ?t = es_executed_quantity s"
    "tr_executed_amount ?t = es_executed_amount s" "tr_executed_at ?t = es_executed_at s"
    "tr_schema_version ?t \<noteq> legacy_schema_version"
    using sv(9) by (simp_all add: trade_of_def side legacy_schema_version_def)
  have sym: "pl_symbol (pn_state p) = supported_symbol" by (rule position_values(9) [OF ok])
  obtain b b' n n' where fees:
    "base_fee_amount s = Inr b" "tr_base_fee_amount ?t = Inr b'"
    "non_negative b" "non_negative b'" "dval b' = dval b"
    "non_base_fee_quote_amount s = Inr n" "tr_non_base_fee_quote_amount ?t = Inr n'"
    "non_negative n" "non_negative n'" "dval n' = dval n"
    by (rule trade_fees [OF assms(2)])
  have hist: "apply_historical_trade ?t dzero dzero p =
      (case es_side s of BUY \<Rightarrow> replay_buy ?t p | SELL \<Rightarrow> replay_sell ?t dzero dzero p)"
    using sym leg t(1,2) by (simp add: apply_historical_trade_def non_negative_iff deq_finite)
  note live = assms(4) [unfolded apply_execution_step [OF assms(2,1) leg]]
  show ?thesis
  proof (cases "es_side s")
    case BUY
    then obtain st where st: "build_buy_state s (es_executed_at s) (pn_state p) = Inr st"
      "p' = p\<lparr>pn_state := st\<rparr>" using live by (auto simp: ebind_eq_Inr)
    have "replay_buy ?t p = Inr (p\<lparr>pn_state := st\<rparr>)"
      using st(1) fees leg t(8)
      by (auto simp: replay_buy_def build_buy_state_def Let_def t ebind_eq_Inr
          net_buy_cong [OF sv(6) fees(3-5)] bought_state_fee_cong [OF ok sv(7) fees(8-10)]
          split: if_splits)
    then show ?thesis by (simp add: hist BUY st(2))
  next
    case SELL
    then obtain st where st: "build_sell_state s p = Inr st" "p' = p\<lparr>pn_state := st\<rparr>"
      using live by (auto simp: ebind_eq_Inr)
    have "replay_sell ?t dzero dzero p = Inr (p\<lparr>pn_state := st\<rparr>)"
      by (rule sell_replayed [OF assms(1,2) leg t(3-5,8) fees(1-5) st(1)])
    then show ?thesis by (simp add: hist SELL st(2))
  qed
qed

lemma get_cost_basis_finite:
  assumes "position_state_ok (pn_state p)" "get_cost_basis q p = Inr a"
  shows "is_finite a"
proof -
  note v = position_values [OF assms(1)]
  have a: "positive q" "pl_status (pn_state p) = POSITION_OPEN" "allocate_cost (pn_state p) q = Inr a"
    using assms(2) by (auto simp: get_cost_basis_def split: if_splits)
  show ?thesis
  proof (cases "deq q (pl_quantity (pn_state p))")
    case True
    then show ?thesis using a(3) v(3) allocate_cost_whole by auto
  next
    case False
    then have "dval q \<noteq> dval (pl_quantity (pn_state p))" using a(1) v(1) by (simp add: deq_finite)
    then show ?thesis using a(3) allocate_cost_share [OF assms(1) a(2,1)] by auto
  qed
qed

end
