(* ===== verification/Fill_Booking.thy ===== *)
theory Fill_Booking
  imports Position_Ledger Trading_Context "HOL-Library.AList"
begin

text \<open>
  How the controller books new fills (\<open>_apply_unapplied_fills\<close> and the methods it calls in
  \<open>application/trading_controller.py\<close>): the summary of the fills the position has not taken, the
  cost of a sale, the position, the overlay on the free balances, the mark on the order, and the
  context that the state machine reads.  A step returns the desk after it and its outcome: booked,
  closed into reconciliation with the failure and the message it reports, or an exception that
  leaves the method.  Closing into reconciliation (\<open>_enter_order_reconciliation\<close>) records the cause,
  locks the session, puts the phase into the context and drops the scheduled query of the order; the
  issue it registers for the automatic recovery, the pause of the indicators, the traces and the
  diagnostics are not part of the desk.  The indicator of the exit, calculated from the candles, is
  the parameter \<open>execution_pct_b\<close>.
\<close>

section \<open>The desk\<close>

record free_overlay =
  fo_observed_free :: decimal
  fo_adjustment :: decimal

datatype session_status =
    SESSION_NOT_STARTED
  | SESSION_RUNNING
  | SESSION_STOPPING
  | SESSION_RECONCILIATION_REQUIRED
  | SESSION_TERMINATED

datatype cause_category =
    ACCOUNT_STREAM_UNKNOWN_OR_EXTERNAL_EXECUTION
  | PREPARE_DATA_INVALID
  | PREPARE_INTERNAL_ERROR
  | PREPARE_FILTER_OR_CAP_REJECTED
  | EVENT_WORKER_OR_RUNTIME_FAILED
  | MARKET_STREAM_FAILED
  | ORDER_OR_PERSISTENCE_AMBIGUOUS
  | PROCESS_OWNERSHIP_AMBIGUOUS

datatype cause_status = CAUSE_MISSING | CAUSE_EXACT | CAUSE_DUPLICATE | CAUSE_CONFLICT

text \<open>
  What booking one order reads and writes: the execution state of the order, the position, and the
  attributes of the controller.  \<open>dk_recovers\<close> tells whether a notifier of the session recovery is
  set; the scheduled queries map the client identifier of an order to the time of its next query.
\<close>

record 'acc desk =
  dk_order :: order
  dk_force_sell :: bool
  dk_stop_after_reconciliation :: bool
  dk_allocated_cost_basis :: decimal
  dk_position :: position
  dk_position_snapshot :: position_snapshot
  dk_context :: "'acc trading_context"
  dk_free :: "string \<rightharpoonup> decimal"
  dk_overlays :: "string \<rightharpoonup> free_overlay"
  dk_status :: session_status
  dk_recovers :: bool
  dk_cause_status :: cause_status
  dk_cause_category :: "cause_category option"
  dk_scheduled_queries :: "string \<rightharpoonup> moment"

datatype booking_failure = ORDER_RESULT_INVALID | POSITION_UPDATE_FAILED

datatype booking_outcome =
    Booked
  | Reconciling booking_failure string
  | Booking_raised py_error

type_synonym 'acc booking = "'acc desk \<times> booking_outcome"

section \<open>Closing into reconciliation\<close>

text \<open>
  A single cause is kept; a second one makes the cause ambiguous, except a repeated failure of the
  market stream.  With a recovery notifier the last cause is the cause.
\<close>

definition record_reconciliation_cause :: "cause_category \<Rightarrow> 'acc desk \<Rightarrow> 'acc desk" where
  "record_reconciliation_cause category dk =
     (if dk_recovers dk
      then dk\<lparr>dk_cause_status := CAUSE_EXACT, dk_cause_category := Some category\<rparr>
      else if dk_cause_status dk \<in> {CAUSE_DUPLICATE, CAUSE_CONFLICT} then dk
      else if dk_cause_status dk = CAUSE_MISSING
      then dk\<lparr>dk_cause_status := CAUSE_EXACT, dk_cause_category := Some category\<rparr>
      else if dk_cause_category dk = Some category \<and> category = MARKET_STREAM_FAILED then dk
      else dk\<lparr>dk_cause_status :=
               (if dk_cause_category dk = Some category then CAUSE_DUPLICATE else CAUSE_CONFLICT),
             dk_cause_category := None\<rparr>)"

text \<open>Both failures of a booking belong to the category of ambiguous orders.\<close>

definition enter_order_reconciliation ::
  "booking_failure \<Rightarrow> string \<Rightarrow> 'acc desk \<Rightarrow> 'acc booking" where
  "enter_order_reconciliation failure message dk =
     (let dk1 = (record_reconciliation_cause ORDER_OR_PERSISTENCE_AMBIGUOUS dk)
                  \<lparr>dk_status := SESSION_RECONCILIATION_REQUIRED\<rparr>;
          drop_query = dk_scheduled_queries_update (\<lambda>q. q(oa_client_order_id (dk_order dk) := None))
      in if tx_initialized (dk_context dk1)
         then case apply_runtime_patch [Set_trading_phase RECONCILIATION_REQUIRED] (dk_context dk1) of
              Inl e \<Rightarrow> (dk1, Booking_raised e)
            | Inr cx \<Rightarrow> (drop_query (dk1\<lparr>dk_context := cx\<rparr>), Reconciling failure message)
         else (drop_query dk1, Reconciling failure message))"

section \<open>The balances that a fill moves\<close>

text \<open>The adjustments in the order of insertion: base, quote, then the assets of the fees.\<close>

fun subtract_fees :: "(string \<times> decimal) list \<Rightarrow> fill list \<Rightarrow> (string \<times> decimal) list res" where
  "subtract_fees adj [] = Inr adj"
| "subtract_fees adj (f # fs) =
     (let old = (case map_of adj (fl_fee_asset f) of None \<Rightarrow> dzero | Some d \<Rightarrow> d) in
      ebind (sub_at 34 old (fl_fee_amount f)) (\<lambda>d.
      subtract_fees (AList.update (fl_fee_asset f) d adj) fs))"

definition fill_adjustments :: "order_side \<Rightarrow> fill list \<Rightarrow> (string \<times> decimal) list res" where
  "fill_adjustments side fills =
     ebind (sum_at 34 dzero (map fl_quantity fills)) (\<lambda>base.
     ebind (map_res fill_executed_amount fills) (\<lambda>amounts.
     ebind (sum_at 34 dzero amounts) (\<lambda>quote.
     subtract_fees
       [(''ETH'', if side = SELL then minus_at 34 base else base),
        (''USDT'', if side = SELL then quote else minus_at 34 quote)] fills)))"

definition adjust_overlay ::
  "(string \<rightharpoonup> decimal) \<Rightarrow> string \<times> decimal \<Rightarrow> (string \<rightharpoonup> free_overlay) \<Rightarrow>
   (string \<rightharpoonup> free_overlay) res" where
  "adjust_overlay free ad ov =
     (let observed = (case free (fst ad) of None \<Rightarrow> dzero | Some d \<Rightarrow> d);
          fresh = \<lparr>fo_observed_free = observed, fo_adjustment = dzero\<rparr>;
          current = (case ov (fst ad) of
              None \<Rightarrow> fresh
            | Some v \<Rightarrow> if deq (fo_observed_free v) observed then v else fresh)
      in ebind (add_at 34 (fo_adjustment current) (snd ad)) (\<lambda>total.
         Inr (ov(fst ad \<mapsto> current\<lparr>fo_adjustment := total\<rparr>))))"

text \<open>Asset by asset; an exception keeps the assets before it.\<close>

fun adjust_overlays ::
  "(string \<rightharpoonup> decimal) \<Rightarrow> (string \<times> decimal) list \<Rightarrow> (string \<rightharpoonup> free_overlay) \<Rightarrow>
   (string \<rightharpoonup> free_overlay) \<times> py_error option" where
  "adjust_overlays free [] ov = (ov, None)"
| "adjust_overlays free (ad # adj) ov =
     (case adjust_overlay free ad ov of
        Inl e \<Rightarrow> (ov, Some e)
      | Inr ov' \<Rightarrow> adjust_overlays free adj ov')"

definition apply_account_fill_overlay ::
  "order_side \<Rightarrow> fill list \<Rightarrow> 'acc desk \<Rightarrow> 'acc desk \<times> py_error option" where
  "apply_account_fill_overlay side fills dk =
     (case fill_adjustments side fills of
        Inl e \<Rightarrow> (dk, Some e)
      | Inr adj \<Rightarrow>
          (let (ov, r) = adjust_overlays (dk_free dk) adj (dk_overlays dk) in
           (dk\<lparr>dk_overlays := ov\<rparr>, r)))"

section \<open>The context\<close>

definition context_position :: "position_state \<Rightarrow> position_snapshot" where
  "context_position st =
     \<lparr>ps_quantity = pl_quantity st,
      ps_entry_price = (if dlt dzero (pl_quantity st) then Some (pl_average_entry_price st) else None)\<rparr>"

definition publish_position_to_context :: "'acc desk \<Rightarrow> 'acc desk \<times> py_error option" where
  "publish_position_to_context dk =
     (let st = pn_state (dk_position dk); snap = context_position st;
          dk1 = dk\<lparr>dk_position_snapshot := snap\<rparr> in
      if \<not> position_ok snap then (dk, Some ValueError)
      else case update_position snap (pl_owner st) (dk_context dk) of
          Inl e \<Rightarrow> (dk1, Some e)
        | Inr cx \<Rightarrow> (dk1\<lparr>dk_context := cx\<rparr>, None))"

definition exit_not_completed :: "strategy_type \<Rightarrow> 'acc desk \<Rightarrow> bool" where
  "exit_not_completed st dk \<longleftrightarrow>
     dk_force_sell dk \<or> dk_stop_after_reconciliation dk \<or> oa_side (dk_order dk) \<noteq> SELL \<or>
     oa_strategy (dk_order dk) \<noteq> st \<or> dlt dzero (pl_quantity (pn_state (dk_position dk)))"

text \<open>\<open>Inr None\<close> is the early \<open>return False\<close> after entering reconciliation.\<close>

definition publish_case_b_exit_result :: "'acc desk \<Rightarrow> 'acc desk option res" where
  "publish_case_b_exit_result dk =
     (if exit_not_completed CASE_B dk then Inr (Some dk)
      else let r = tx_runtime (dk_context dk) in
        case rt_pending_exit_reason r of
          None \<Rightarrow> Inr None
        | Some reason \<Rightarrow>
            if oa_exit_reason (dk_order dk) \<noteq> Some reason \<or>
               rt_case_b_exit_reason r \<notin> {None, Some reason}
            then Inr None
            else if rt_case_b_exit_reason r = None
            then ebind (apply_runtime_patch [Set_case_b_exit_reason (Some reason)] (dk_context dk))
                   (\<lambda>cx. Inr (Some (dk\<lparr>dk_context := cx\<rparr>)))
            else Inr (Some dk))"

text \<open>
  The last fill by time, then by its number, or by its place where the number is not decimal; of
  equal fills \<open>max\<close> keeps the first.
\<close>

definition fill_rank :: "nat \<Rightarrow> fill \<Rightarrow> int \<times> int" where
  "fill_rank i f =
     (instant (fl_executed_at f),
      if fl_trade_id f \<noteq> [] \<and> list_all is_digit (fl_trade_id f) then int (read_nat (fl_trade_id f))
      else int i)"

definition rank_less :: "int \<times> int \<Rightarrow> int \<times> int \<Rightarrow> bool" where
  "rank_less a b \<longleftrightarrow> fst a < fst b \<or> (fst a = fst b \<and> snd a < snd b)"

fun latest_fill :: "nat \<Rightarrow> int \<times> int \<Rightarrow> fill \<Rightarrow> fill list \<Rightarrow> fill" where
  "latest_fill i k g [] = g"
| "latest_fill i k g (f # fs) =
     (if rank_less k (fill_rank i f) then latest_fill (Suc i) (fill_rank i f) f fs
      else latest_fill (Suc i) k g fs)"

definition publish_case_c_exit_result ::
  "(moment \<Rightarrow> decimal \<Rightarrow> decimal option) \<Rightarrow> 'acc desk \<Rightarrow> 'acc desk option res" where
  "publish_case_c_exit_result execution_pct_b dk =
     (if exit_not_completed CASE_C dk then Inr (Some dk)
      else let r = tx_runtime (dk_context dk); od = dk_order dk in
        case (rt_pending_exit_reason r, oa_exit_pct_b_at_intent od) of
          (Some reason, Some pct) \<Rightarrow>
            if oa_exit_reason od \<noteq> Some reason \<or>
               (case rt_pending_exit_pct_b r of None \<Rightarrow> True | Some q \<Rightarrow> \<not> deq q pct)
            then Inr None
            else if rt_case_c_exit_reason r = Some reason then Inr (Some dk)
            else if rt_case_c_exit_reason r \<noteq> None \<or> rt_case_c_exit_pct_b r \<noteq> None then Inr None
            else (case oa_fills od of
                [] \<Rightarrow> Inl ValueError
              | f # fs \<Rightarrow>
                  let g = latest_fill 1 (fill_rank 0 f) f fs in
                  ebind (apply_runtime_patch
                      [Set_case_c_exit_reason (Some reason),
                       Set_case_c_exit_pct_b (execution_pct_b (fl_executed_at g) (fl_price g))]
                      (dk_context dk)) (\<lambda>cx.
                  Inr (Some (dk\<lparr>dk_context := cx\<rparr>))))
        | _ \<Rightarrow> Inr None)"

section \<open>Booking\<close>

text \<open>The handler of the exceptions, which keeps what was assigned before them.\<close>

definition position_update_failed :: "'acc desk \<Rightarrow> 'acc booking" where
  "position_update_failed = enter_order_reconciliation POSITION_UPDATE_FAILED ''12''"

text \<open>
  The early return of the two methods above enters reconciliation inside the \<open>try\<close>, so an exception
  there reaches the handler.
\<close>

definition exit_result_refused :: "'acc desk \<Rightarrow> 'acc booking" where
  "exit_result_refused dk =
     (case enter_order_reconciliation ORDER_RESULT_INVALID ''12'' dk of
        (dk', Booking_raised e) \<Rightarrow> position_update_failed dk'
      | (dk', r) \<Rightarrow> (dk', r))"

text \<open>What follows the update of the position.\<close>

definition publish_booking ::
  "(moment \<Rightarrow> decimal \<Rightarrow> decimal option) \<Rightarrow> 'acc desk \<Rightarrow> 'acc booking" where
  "publish_booking execution_pct_b dk =
     (case publish_position_to_context dk of
        (dk1, Some _) \<Rightarrow> position_update_failed dk1
      | (dk1, None) \<Rightarrow>
          (case publish_case_b_exit_result dk1 of
             Inl _ \<Rightarrow> position_update_failed dk1
           | Inr None \<Rightarrow> exit_result_refused dk1
           | Inr (Some dk2) \<Rightarrow>
               (case publish_case_c_exit_result execution_pct_b dk2 of
                  Inl _ \<Rightarrow> position_update_failed dk2
                | Inr None \<Rightarrow> exit_result_refused dk2
                | Inr (Some dk3) \<Rightarrow> (dk3, Booked))))"

definition add_allocated_cost :: "decimal \<Rightarrow> 'acc desk \<Rightarrow> 'acc desk res" where
  "add_allocated_cost cost dk =
     (if oa_side (dk_order dk) = SELL
      then ebind (add_at 34 (dk_allocated_cost_basis dk) cost) (\<lambda>total.
           Inr (dk\<lparr>dk_allocated_cost_basis := total\<rparr>))
      else Inr dk)"

definition apply_unapplied_fills ::
  "(moment \<Rightarrow> decimal \<Rightarrow> decimal option) \<Rightarrow> 'acc desk \<Rightarrow> 'acc booking" where
  "apply_unapplied_fills execution_pct_b dk =
     (let od = dk_order dk; fills = unapplied_fills od in
      if fills = [] then (dk, Booked)
      else case build_execution_summary (Some fills) False od of
          Inl _ \<Rightarrow> enter_order_reconciliation ORDER_RESULT_INVALID ''10'' dk
        | Inr s \<Rightarrow>
            (case (if oa_side od = SELL then get_cost_basis (es_executed_quantity s) (dk_position dk)
                   else Inr dzero) of
               Inl _ \<Rightarrow> position_update_failed dk
             | Inr cost \<Rightarrow>
                 (case apply_execution s (dk_position dk) of
                    Inl _ \<Rightarrow> position_update_failed dk
                  | Inr p \<Rightarrow>
                      (let dk1 = dk\<lparr>dk_position := p\<rparr> in
                       case apply_account_fill_overlay (oa_side od) fills dk1 of
                         (dk2, Some _) \<Rightarrow> position_update_failed dk2
                       | (dk2, None) \<Rightarrow>
                           (case mark_fills_applied fills (dk_order dk2) of
                              Inl _ \<Rightarrow> position_update_failed dk2
                            | Inr od' \<Rightarrow>
                                (case add_allocated_cost cost (dk2\<lparr>dk_order := od'\<rparr>) of
                                   Inl _ \<Rightarrow> position_update_failed (dk2\<lparr>dk_order := od'\<rparr>)
                                 | Inr dk3 \<Rightarrow> publish_booking execution_pct_b dk3))))))"

section \<open>The overlays\<close>

text \<open>Fees are subtracted asset by asset.\<close>

definition fees_of :: "string \<Rightarrow> fill list \<Rightarrow> rat list" where
  "fees_of a fs = map (\<lambda>f. - dval (fl_fee_amount f)) (filter (\<lambda>f. fl_fee_asset f = a) fs)"

definition alist_value :: "(string \<times> decimal) list \<Rightarrow> string \<Rightarrow> rat" where
  "alist_value adj a = (case map_of adj a of None \<Rightarrow> 0 | Some d \<Rightarrow> dval d)"

lemma subtract_fees_ok:
  "list_all fill_ok fs \<Longrightarrow> \<forall>d\<in>snd ` set adj. is_finite d \<Longrightarrow> distinct (map fst adj) \<Longrightarrow>
   \<exists>adj'. subtract_fees adj fs = Inr adj' \<and> (\<forall>d\<in>snd ` set adj'. is_finite d) \<and>
     distinct (map fst adj') \<and> fst ` set adj' = fst ` set adj \<union> fl_fee_asset ` set fs \<and>
     (\<forall>a. alist_value adj' a = sum_sig 34 (alist_value adj a) (fees_of a fs))"
proof (induction fs arbitrary: adj)
  case Nil
  then show ?case by (auto simp: fees_of_def)
next
  case (Cons f fs)
  define old where "old = (case map_of adj (fl_fee_asset f) of None \<Rightarrow> dzero | Some d \<Rightarrow> d)"
  have look: "is_finite e" if "map_of adj k = Some e" for k e
    using Cons.prems(2) map_of_SomeD [OF that] by force
  have old: "is_finite old" "dval old = alist_value adj (fl_fee_asset f)"
    using look by (auto simp: old_def alist_value_def split: option.split)
  have "non_negative (fl_fee_amount f)" using Cons.prems(1) fill_ok_values(3) by simp
  then have fee: "is_finite (fl_fee_amount f)" by simp
  obtain d where d: "sub_at 34 old (fl_fee_amount f) = Inr d" "is_finite d"
    "dval d = round_sig 34 (dval old - dval (fl_fee_amount f))"
    using old fee by (simp add: sub_at_finite)
  define adj1 where "adj1 = AList.update (fl_fee_asset f) d adj"
  have m1: "map_of adj1 = (map_of adj)(fl_fee_asset f \<mapsto> d)" by (simp add: adj1_def update_conv')
  have keys: "fst ` set adj1 = insert (fl_fee_asset f) (fst ` set adj)"
    unfolding dom_map_of_conv_image_fst [symmetric] m1 by simp
  have dist: "distinct (map fst adj1)" unfolding adj1_def by (rule distinct_update [OF Cons.prems(3)])
  have fin: "\<forall>d\<in>snd ` set adj1. is_finite d"
  proof
    fix e assume "e \<in> snd ` set adj1"
    then obtain k where "map_of adj1 k = Some e" using dist by (force intro: map_of_is_SomeI)
    then show "is_finite e" using look d(2) unfolding m1 by (auto split: if_splits)
  qed
  have val: "alist_value adj1 a = (if a = fl_fee_asset f then dval d else alist_value adj a)" for a
    by (simp add: alist_value_def m1)
  have "list_all fill_ok fs" using Cons.prems(1) by simp
  from Cons.IH [OF this fin dist]
  obtain adj' where adj': "subtract_fees adj1 fs = Inr adj'" "\<forall>d\<in>snd ` set adj'. is_finite d"
    "distinct (map fst adj')" "fst ` set adj' = fst ` set adj1 \<union> fl_fee_asset ` set fs"
    "\<forall>a. alist_value adj' a = sum_sig 34 (alist_value adj1 a) (fees_of a fs)"
    by (elim exE conjE) (rule that; assumption)
  have "subtract_fees adj (f # fs) = Inr adj'"
    using d(1) adj'(1) by (simp add: old_def [symmetric] adj1_def [symmetric])
  moreover have "\<forall>a. alist_value adj' a = sum_sig 34 (alist_value adj a) (fees_of a (f # fs))"
    using adj'(5) d(3) old(2) by (simp add: val fees_of_def)
  moreover have "fst ` set adj' = fst ` set adj \<union> fl_fee_asset ` set (f # fs)"
    using adj'(4) keys by simp
  ultimately show ?case using adj'(2,3) by blast
qed

text \<open>The movement of each asset: base and quote against each other, every fee in its own asset.\<close>

definition traded :: "order_side \<Rightarrow> fill list \<Rightarrow> string \<Rightarrow> rat" where
  "traded side fs a =
     (if a = ''ETH'' then (if side = SELL then - 1 else 1) * total_quantity fs
      else if a = ''USDT'' then (if side = SELL then 1 else - 1) *
        sum_sig 34 0 (map (\<lambda>f. round_sig 34 (dval (fl_quantity f) * dval (fl_price f))) fs)
      else 0)"

lemma fill_adjustments_ok:
  assumes "list_all fill_ok fs"
  obtains adj where "fill_adjustments side fs = Inr adj" "\<forall>d\<in>snd ` set adj. is_finite d"
    "distinct (map fst adj)" "fst ` set adj = {''ETH'', ''USDT''} \<union> fl_fee_asset ` set fs"
    "\<forall>a. alist_value adj a = sum_sig 34 (traded side fs a) (fees_of a fs)"
proof -
  have "list_all positive (map fl_quantity fs)"
    using assms by (auto simp: list_all_iff dest: fill_ok_values)
  then have "list_all non_negative (map fl_quantity fs)"
    unfolding list_all_iff positive_iff non_negative_iff by auto
  from sum_non_negative [OF this]
  obtain q where q: "sum_at 34 dzero (map fl_quantity fs) = Inr q" "is_finite q" "dval q = total_quantity fs"
    by (auto simp: total_quantity_def comp_def)
  obtain zs where zs: "map_res fill_executed_amount fs = Inr zs" "list_all positive zs"
    "map dval zs = map (\<lambda>f. round_sig 34 (dval (fl_quantity f) * dval (fl_price f))) fs"
    using map_res_amounts [OF assms] by blast
  have "list_all non_negative zs" using zs(2) unfolding list_all_iff positive_iff non_negative_iff by auto
  from sum_non_negative [OF this]
  obtain m where m: "sum_at 34 dzero zs = Inr m" "is_finite m"
    "dval m = sum_sig 34 0 (map (\<lambda>f. round_sig 34 (dval (fl_quantity f) * dval (fl_price f))) fs)"
    unfolding zs(3) by auto
  have fixed: "round_sig 34 (dval q) = dval q" "round_sig 34 (dval m) = dval m"
    unfolding q(3) m(3) total_quantity_def by (simp_all add: sum_sig_fixed)
  define adj where "adj = [(''ETH'', if side = SELL then minus_at 34 q else q),
        (''USDT'', if side = SELL then m else minus_at 34 m)]"
  have adj: "\<forall>d\<in>snd ` set adj. is_finite d" "distinct (map fst adj)"
    using q(2) m(2) by (auto simp: adj_def minus_at_finite)
  have "dval (minus_at 34 q) = - dval q" "dval (minus_at 34 m) = - dval m"
    unfolding minus_at_finite [OF q(2)] minus_at_finite [OF m(2)] dval.simps round_sig_uminus fixed
    by (rule refl)+
  note neg = this
  have val: "alist_value adj a = traded side fs a" for a
  proof -
    have "traded side fs a = (if a = ''ETH'' then (if side = SELL then - 1 else 1) * dval q
        else if a = ''USDT'' then (if side = SELL then 1 else - 1) * dval m else 0)"
      by (simp only: traded_def q(3) m(3))
    also have "\<dots> = alist_value adj a" by (simp add: adj_def alist_value_def neg)
    finally show ?thesis by (rule sym)
  qed
  obtain adj' where adj': "subtract_fees adj fs = Inr adj'" "\<forall>d\<in>snd ` set adj'. is_finite d"
    "distinct (map fst adj')" "fst ` set adj' = fst ` set adj \<union> fl_fee_asset ` set fs"
    "\<forall>a. alist_value adj' a = sum_sig 34 (alist_value adj a) (fees_of a fs)"
    using subtract_fees_ok [OF assms adj] by (elim exE conjE) (rule that; assumption)
  have "fill_adjustments side fs = Inr adj'"
    using q(1) zs(1) m(1) adj'(1) by (simp add: fill_adjustments_def adj_def)
  moreover have "fst ` set adj = {''ETH'', ''USDT''}" by (simp add: adj_def)
  ultimately show ?thesis using adj' val that by simp
qed

text \<open>
  The overlay in force for an asset: none once the observed balance has changed.
\<close>

definition observed_free :: "(string \<rightharpoonup> decimal) \<Rightarrow> string \<Rightarrow> decimal" where
  "observed_free free a = (case free a of None \<Rightarrow> dzero | Some d \<Rightarrow> d)"

definition overlay_value ::
  "(string \<rightharpoonup> decimal) \<Rightarrow> (string \<rightharpoonup> free_overlay) \<Rightarrow> string \<Rightarrow> rat" where
  "overlay_value free ov a =
     (case ov a of
        None \<Rightarrow> 0
      | Some v \<Rightarrow> if deq (fo_observed_free v) (observed_free free a) then dval (fo_adjustment v) else 0)"

definition overlays_ok :: "(string \<rightharpoonup> decimal) \<Rightarrow> (string \<rightharpoonup> free_overlay) \<Rightarrow> bool" where
  "overlays_ok free ov \<longleftrightarrow>
     (\<forall>a d. free a = Some d \<longrightarrow> is_finite d) \<and> (\<forall>a v. ov a = Some v \<longrightarrow> is_finite (fo_adjustment v))"

lemma adjust_overlay_ok:
  assumes "overlays_ok free ov" "is_finite d"
  obtains ov' where "adjust_overlay free (a, d) ov = Inr ov'" "overlays_ok free ov'"
    "overlay_value free ov' = (overlay_value free ov)
       (a := round_sig 34 (overlay_value free ov a + dval d))"
proof -
  define obs where "obs = observed_free free a"
  have obs: "is_finite obs"
    using assms(1) by (auto simp: obs_def observed_free_def overlays_ok_def split: option.split)
  define cur where "cur = (case ov a of
      None \<Rightarrow> \<lparr>fo_observed_free = obs, fo_adjustment = dzero\<rparr>
    | Some v \<Rightarrow> if deq (fo_observed_free v) obs then v
        else \<lparr>fo_observed_free = obs, fo_adjustment = dzero\<rparr>)"
  have cur: "is_finite (fo_adjustment cur)" "deq (fo_observed_free cur) obs"
    "dval (fo_adjustment cur) = overlay_value free ov a"
    using assms(1) obs
    by (auto simp: cur_def overlay_value_def overlays_ok_def deq_refl obs_def split: option.splits)
  obtain t where t: "add_at 34 (fo_adjustment cur) d = Inr t" "is_finite t"
    "dval t = round_sig 34 (overlay_value free ov a + dval d)"
    using assms(2) cur by (simp add: add_at_finite)
  let ?ov = "ov(a \<mapsto> cur\<lparr>fo_adjustment := t\<rparr>)"
  show ?thesis
  proof (rule that [of ?ov])
    show "adjust_overlay free (a, d) ov = Inr ?ov"
      using t(1) unfolding adjust_overlay_def Let_def fst_conv snd_conv
        observed_free_def [symmetric] obs_def [symmetric] cur_def [symmetric] by simp
    show "overlays_ok free ?ov" using assms(1) t(2) by (simp add: overlays_ok_def)
    show "overlay_value free ?ov = (overlay_value free ov)
       (a := round_sig 34 (overlay_value free ov a + dval d))"
      using cur(2) t(3) by (auto simp: overlay_value_def obs_def)
  qed
qed

lemma adjust_overlays_ok:
  "overlays_ok free ov \<Longrightarrow> \<forall>d\<in>snd ` set adj. is_finite d \<Longrightarrow> distinct (map fst adj) \<Longrightarrow>
   \<exists>ov'. adjust_overlays free adj ov = (ov', None) \<and> overlays_ok free ov' \<and>
     (\<forall>a. overlay_value free ov' a =
        (if a \<in> fst ` set adj then round_sig 34 (overlay_value free ov a + alist_value adj a)
         else overlay_value free ov a))"
proof (induction adj arbitrary: ov)
  case (Cons ad adj)
  obtain a d where ad: "ad = (a, d)" by (cases ad)
  have d: "is_finite d" using Cons.prems(2) by (simp add: ad)
  obtain ov1 where ov1: "adjust_overlay free (a, d) ov = Inr ov1" "overlays_ok free ov1"
    "overlay_value free ov1 = (overlay_value free ov)
       (a := round_sig 34 (overlay_value free ov a + dval d))"
    by (rule adjust_overlay_ok [OF Cons.prems(1) d])
  have rest: "\<forall>d\<in>snd ` set adj. is_finite d" "distinct (map fst adj)" "a \<notin> fst ` set adj"
    using Cons.prems by (auto simp: ad)
  from Cons.IH [OF ov1(2) rest(1,2)]
  obtain ov' where ov': "adjust_overlays free adj ov1 = (ov', None)" "overlays_ok free ov'"
    "\<forall>b. overlay_value free ov' b =
        (if b \<in> fst ` set adj then round_sig 34 (overlay_value free ov1 b + alist_value adj b)
         else overlay_value free ov1 b)" by (elim exE conjE) (rule that; assumption)
  have "alist_value ((a, d) # adj) b = (if b = a then dval d else alist_value adj b)" for b
    by (simp add: alist_value_def)
  with ov' ov1(1,3) rest(3) show ?case by (auto simp: ad)
qed simp

section \<open>Booking is atomic\<close>

definition desk_ok :: "'acc desk \<Rightarrow> bool" where
  "desk_ok dk \<longleftrightarrow>
     order_inv (dk_order dk) \<and> position_inv (dk_position dk) \<and> context_ok (dk_context dk) \<and>
     is_finite (dk_allocated_cost_basis dk) \<and> overlays_ok (dk_free dk) (dk_overlays dk)"

lemma context_position_ok:
  assumes "position_state_ok st"
  shows "position_ok (context_position st)" "is_open (context_position st) \<or> pl_owner st = None"
proof -
  note v = position_values [OF assms]
  have avg: "is_finite (pl_average_entry_price st) \<and> 0 \<le> dval (pl_average_entry_price st)"
    if "0 < dval (pl_quantity st)"
  proof -
    have "common_values_ok st" using assms
      by (auto simp: position_state_ok_def make_position_state_def ebind_eq_Inr)
    then show ?thesis unfolding common_values_ok_def non_negative_iff by blast
  qed
  show "position_ok (context_position st)"
    using v(1,2) avg by (simp add: position_ok_def context_position_def)
  show "is_open (context_position st) \<or> pl_owner st = None"
    using v(1,2,11,13) by (cases "pl_status st") (auto simp: is_open_def context_position_def)
qed

text \<open>The context shows the position: the same numbers and the same owner.\<close>

definition context_shows :: "position_state \<Rightarrow> 'acc trading_context \<Rightarrow> bool" where
  "context_shows st cx \<longleftrightarrow>
     position_same (tx_position cx) (context_position st) \<and>
     rt_position_owner (tx_runtime cx) = pl_owner st"

lemma update_position_ok:
  assumes "context_ok cx" "position_ok snap" "is_open snap \<or> owner = None"
  obtains cx' where "update_position snap owner cx = Inr cx'" "context_ok cx'"
    "position_same (tx_position cx') snap" "rt_position_owner (tx_runtime cx') = owner"
    "rt_pending_exit_reason (tx_runtime cx') = rt_pending_exit_reason (tx_runtime cx)"
proof -
  let ?r = "(tx_runtime cx)\<lparr>rt_position_owner := owner\<rparr>"
  have ok: "runtime_ok ?r" using assms(1) by (simp add: context_ok_def runtime_ok_def)
  define same where "same \<longleftrightarrow> position_same (tx_position cx) snap \<and> runtime_same (tx_runtime cx) ?r"
  define cx' where "cx' = (if same then cx
      else cx\<lparr>tx_position := snap, tx_runtime := ?r, tx_version := tx_version cx + 1\<rparr>)"
  have res: "update_position snap owner cx = Inr cx'"
    using assms(3) ok by (simp add: update_position_def make_runtime_def cx'_def same_def)
  moreover have "context_ok cx'"
    using context_ok_position [OF assms(1,2), of owner] res by (simp add: keeps_ok_def)
  moreover have "position_same (tx_position cx') snap" by (auto simp: cx'_def same_def)
  moreover have "rt_position_owner (tx_runtime cx') = owner"
  proof (cases same)
    case True
    then have "runtime_norm (tx_runtime cx) = runtime_norm ?r" by (simp add: same_def runtime_same_def)
    then have "rt_position_owner (runtime_norm (tx_runtime cx)) = rt_position_owner (runtime_norm ?r)" by simp
    then show ?thesis using True by (simp add: cx'_def runtime_norm_def)
  qed (simp add: cx'_def)
  moreover have "rt_pending_exit_reason (tx_runtime cx') = rt_pending_exit_reason (tx_runtime cx)"
    by (simp add: cx'_def)
  ultimately show ?thesis by (rule that)
qed

text \<open>Setting the result of an exit leaves position and owner of the context.\<close>

lemma exit_patch:
  assumes "apply_runtime_patch cs cx = Inr cx'" "context_ok cx"
    "cs = [Set_case_b_exit_reason v] \<or> cs = [Set_case_c_exit_reason v, Set_case_c_exit_pct_b w]"
  shows "context_ok cx'" "tx_position cx' = tx_position cx"
    "rt_position_owner (tx_runtime cx') = rt_position_owner (tx_runtime cx)"
proof -
  have "patch_safe cs" using assms(3) by (auto simp: patch_safe_def)
  then show "context_ok cx'" using context_ok_patch [OF assms(2) _ assms(1)] by blast
  show "tx_position cx' = tx_position cx"
    "rt_position_owner (tx_runtime cx') = rt_position_owner (tx_runtime cx)"
    using assms(1,3)
    by (auto simp: apply_runtime_patch_def patch_runtime_def make_runtime_def ebind_eq_Inr
        replace_runtime_def split: if_splits)
qed

text \<open>Publishing never touches the order, the position or the overlays.\<close>

definition same_books :: "'acc desk \<Rightarrow> 'acc desk \<Rightarrow> bool" where
  "same_books a b \<longleftrightarrow>
     dk_order a = dk_order b \<and> dk_position a = dk_position b \<and> dk_overlays a = dk_overlays b \<and>
     dk_free a = dk_free b \<and> dk_allocated_cost_basis a = dk_allocated_cost_basis b"

definition same_session :: "'acc desk \<Rightarrow> 'acc desk \<Rightarrow> bool" where
  "same_session a b \<longleftrightarrow>
     dk_status a = dk_status b \<and> dk_cause_status a = dk_cause_status b \<and>
     dk_cause_category a = dk_cause_category b \<and> dk_scheduled_queries a = dk_scheduled_queries b"

lemma same_books_ok:
  "same_books a b \<Longrightarrow> desk_ok b \<Longrightarrow> context_ok (dk_context a) \<Longrightarrow> desk_ok a"
  by (simp add: same_books_def desk_ok_def)

text \<open>
  Entering reconciliation locks the session: the status, the phase of an initialized context, and no
  scheduled query of the order.
\<close>

definition session_locked :: "'acc desk \<Rightarrow> bool" where
  "session_locked dk \<longleftrightarrow>
     dk_status dk = SESSION_RECONCILIATION_REQUIRED \<and>
     (tx_initialized (dk_context dk) \<longrightarrow>
        rt_trading_phase (tx_runtime (dk_context dk)) = RECONCILIATION_REQUIRED) \<and>
     dk_scheduled_queries dk (oa_client_order_id (dk_order dk)) = None"

definition reconciling_context :: "'acc trading_context \<Rightarrow> 'acc trading_context" where
  "reconciling_context cx =
     (if tx_initialized cx
      then replace_runtime ((tx_runtime cx)\<lparr>rt_trading_phase := RECONCILIATION_REQUIRED\<rparr>) cx
      else cx)"

definition only_reconciling :: "'acc desk \<Rightarrow> 'acc desk \<Rightarrow> bool" where
  "only_reconciling dk dk' \<longleftrightarrow>
     same_books dk' dk \<and> dk_position_snapshot dk' = dk_position_snapshot dk \<and>
     dk_context dk' = reconciling_context (dk_context dk) \<and>
     dk_status dk' = SESSION_RECONCILIATION_REQUIRED \<and>
     dk_scheduled_queries dk' =
       (dk_scheduled_queries dk)(oa_client_order_id (dk_order dk) := None)"

lemma cause_fields [simp]:
  "dk_order (record_reconciliation_cause c dk) = dk_order dk"
  "dk_position (record_reconciliation_cause c dk) = dk_position dk"
  "dk_position_snapshot (record_reconciliation_cause c dk) = dk_position_snapshot dk"
  "dk_context (record_reconciliation_cause c dk) = dk_context dk"
  "dk_overlays (record_reconciliation_cause c dk) = dk_overlays dk"
  "dk_free (record_reconciliation_cause c dk) = dk_free dk"
  "dk_allocated_cost_basis (record_reconciliation_cause c dk) = dk_allocated_cost_basis dk"
  "dk_scheduled_queries (record_reconciliation_cause c dk) = dk_scheduled_queries dk"
  by (simp_all add: record_reconciliation_cause_def)

lemma phase_patch:
  assumes "context_ok cx"
  shows "apply_runtime_patch [Set_trading_phase ph] cx
    = Inr (replace_runtime ((tx_runtime cx)\<lparr>rt_trading_phase := ph\<rparr>) cx)"
proof -
  have "runtime_ok ((tx_runtime cx)\<lparr>rt_trading_phase := ph\<rparr>)"
    "pending_aligned ((tx_runtime cx)\<lparr>rt_trading_phase := ph\<rparr>) (tx_pending_order cx)"
    using assms by (auto simp: context_ok_def runtime_ok_def pending_aligned_def split: option.splits)
  then show ?thesis
    by (simp add: apply_runtime_patch_def patch_runtime_def make_runtime_def validate_pending_alignment_def)
qed

lemma replaced_phase:
  "rt_trading_phase (tx_runtime (replace_runtime r cx)) = rt_trading_phase r"
proof (cases "runtime_same r (tx_runtime cx)")
  case True
  then have "rt_trading_phase (runtime_norm r) = rt_trading_phase (runtime_norm (tx_runtime cx))"
    by (simp add: runtime_same_def)
  then show ?thesis using True by (simp add: replace_runtime_def runtime_norm_def)
qed (simp add: replace_runtime_def)

lemma reconciling_context_ok:
  assumes "context_ok cx"
  shows "context_ok (reconciling_context cx)"
    and "tx_position (reconciling_context cx) = tx_position cx"
    and "rt_position_owner (tx_runtime (reconciling_context cx)) = rt_position_owner (tx_runtime cx)"
    and "tx_initialized (reconciling_context cx) = tx_initialized cx"
    and "tx_initialized cx \<Longrightarrow>
      rt_trading_phase (tx_runtime (reconciling_context cx)) = RECONCILIATION_REQUIRED"
proof -
  have "patch_safe [Set_trading_phase RECONCILIATION_REQUIRED]" by (simp add: patch_safe_def)
  then show "context_ok (reconciling_context cx)"
    using context_ok_patch [OF assms _ phase_patch [OF assms]] assms by (auto simp: reconciling_context_def)
qed (simp_all add: reconciling_context_def replaced_phase, simp_all add: replace_runtime_def)

lemma enter_reconciliation:
  assumes "context_ok (dk_context dk)"
  obtains dk' where "enter_order_reconciliation f m dk = (dk', Reconciling f m)"
    "only_reconciling dk dk'" "session_locked dk'" "same_books dk' dk" "context_ok (dk_context dk')"
    "\<And>st. context_shows st (dk_context dk) \<Longrightarrow> context_shows st (dk_context dk')"
proof -
  define dk' where "dk' = fst (enter_order_reconciliation f m dk)"
  note cx = reconciling_context_ok [OF assms]
  have res: "enter_order_reconciliation f m dk = (dk', Reconciling f m)" and only: "only_reconciling dk dk'"
    using assms by (simp_all add: dk'_def enter_order_reconciliation_def Let_def phase_patch
        only_reconciling_def same_books_def reconciling_context_def)
  then have "session_locked dk'" using cx(4,5)
    by (simp add: only_reconciling_def session_locked_def same_books_def)
  moreover have "same_books dk' dk" "context_ok (dk_context dk')"
    "\<And>st. context_shows st (dk_context dk) \<Longrightarrow> context_shows st (dk_context dk')"
    using only cx(1,2,3) by (simp_all add: only_reconciling_def context_shows_def)
  ultimately show ?thesis using res only that by blast
qed

lemma publish_case_b_books:
  assumes "publish_case_b_exit_result dk = Inr (Some dk')" "context_ok (dk_context dk)"
    "context_shows st (dk_context dk)"
  shows "same_books dk' dk" "same_session dk' dk" "context_ok (dk_context dk')"
    "context_shows st (dk_context dk')"
  using assms exit_patch [OF _ assms(2)]
  by (auto simp: publish_case_b_exit_result_def Let_def ebind_eq_Inr same_books_def same_session_def
      context_shows_def split: if_splits option.splits)

lemma publish_case_c_books:
  assumes "publish_case_c_exit_result ep dk = Inr (Some dk')" "context_ok (dk_context dk)"
    "context_shows st (dk_context dk)"
  shows "same_books dk' dk" "same_session dk' dk" "context_ok (dk_context dk')"
    "context_shows st (dk_context dk')"
  using assms exit_patch [OF _ assms(2)]
  by (auto simp: publish_case_c_exit_result_def Let_def ebind_eq_Inr same_books_def same_session_def
      context_shows_def split: if_splits option.splits list.splits)

text \<open>
  After the books only three things can happen: everything is published, or one of the two exits
  locks the session; the books stay, and the context keeps showing the position.
\<close>

definition booking_published :: "position_state \<Rightarrow> 'acc desk \<Rightarrow> 'acc booking \<Rightarrow> bool" where
  "booking_published st dk b \<longleftrightarrow>
     same_books (fst b) dk \<and> context_ok (dk_context (fst b)) \<and> context_shows st (dk_context (fst b)) \<and>
     (snd b = Booked \<and> same_session (fst b) dk \<or>
      (\<exists>f. snd b = Reconciling f ''12'') \<and> session_locked (fst b))"

lemma booking_published_cong: "booking_published st dk1 b \<Longrightarrow> same_books dk1 dk \<Longrightarrow> same_session dk1 dk \<Longrightarrow> booking_published st dk b"
  by (auto simp: booking_published_def same_books_def same_session_def)

lemma reconciliation_published:
  assumes "context_ok (dk_context dk)" "context_shows st (dk_context dk)"
  obtains dk' where "enter_order_reconciliation f ''12'' dk = (dk', Reconciling f ''12'')"
    "booking_published st dk (dk', Reconciling f ''12'')"
proof (rule enter_reconciliation [OF assms(1), of f "''12''"])
  fix dk2
  assume "enter_order_reconciliation f ''12'' dk = (dk2, Reconciling f ''12'')" "session_locked dk2"
    "same_books dk2 dk" "context_ok (dk_context dk2)"
    "\<And>st. context_shows st (dk_context dk) \<Longrightarrow> context_shows st (dk_context dk2)"
  then show ?thesis using assms(2) by (intro that [of dk2]) (simp_all add: booking_published_def)
qed

lemma failures_published:
  assumes "context_ok (dk_context dk)" "context_shows st (dk_context dk)"
  shows "booking_published st dk (position_update_failed dk)" "booking_published st dk (exit_result_refused dk)"
proof -
  obtain dk1 dk2 where out:
    "enter_order_reconciliation POSITION_UPDATE_FAILED ''12'' dk = (dk1, Reconciling POSITION_UPDATE_FAILED ''12'')"
    "booking_published st dk (dk1, Reconciling POSITION_UPDATE_FAILED ''12'')"
    "enter_order_reconciliation ORDER_RESULT_INVALID ''12'' dk = (dk2, Reconciling ORDER_RESULT_INVALID ''12'')"
    "booking_published st dk (dk2, Reconciling ORDER_RESULT_INVALID ''12'')"
    by (metis reconciliation_published [OF assms])
  show "booking_published st dk (position_update_failed dk)"
    unfolding position_update_failed_def out(1) by (rule out(2))
  show "booking_published st dk (exit_result_refused dk)"
    using out(4) by (simp add: exit_result_refused_def out(3))
qed

lemma publish_position_ok:
  assumes "desk_ok dk"
  obtains dk1 where "publish_position_to_context dk = (dk1, None)" "same_books dk1 dk"
    "same_session dk1 dk" "context_ok (dk_context dk1)"
    "context_shows (pn_state (dk_position dk)) (dk_context dk1)"
proof -
  let ?st = "pn_state (dk_position dk)"
  have st: "position_state_ok ?st" and cx: "context_ok (dk_context dk)"
    using assms(1) by (simp_all add: desk_ok_def position_inv_def)
  note pos = context_position_ok [OF st]
  obtain cx' where cx': "update_position (context_position ?st) (pl_owner ?st) (dk_context dk) = Inr cx'"
    "context_ok cx'" "position_same (tx_position cx') (context_position ?st)"
    "rt_position_owner (tx_runtime cx') = pl_owner ?st"
    by (rule update_position_ok [OF cx pos]) blast
  show ?thesis
    by (rule that [of "dk\<lparr>dk_position_snapshot := context_position ?st, dk_context := cx'\<rparr>"])
      (use cx' pos(1) in \<open>simp_all add: publish_position_to_context_def Let_def same_books_def
         same_session_def context_shows_def\<close>)
qed

lemma publish_booking_books:
  assumes "desk_ok dk"
  shows "booking_published (pn_state (dk_position dk)) dk (publish_booking ep dk)"
proof -
  let ?st = "pn_state (dk_position dk)"
  obtain dk1 where pub: "publish_position_to_context dk = (dk1, None)" and one: "same_books dk1 dk"
    "same_session dk1 dk" "context_ok (dk_context dk1)" "context_shows ?st (dk_context dk1)"
    by (rule publish_position_ok [OF assms])
  have "booking_published ?st dk1 (publish_booking ep dk)"
  proof (cases "\<exists>dk2. publish_case_b_exit_result dk1 = Inr (Some dk2)")
    case False
    then show ?thesis using failures_published [OF one(3,4)]
      by (auto simp: publish_booking_def pub split: sum.splits option.splits)
  next
    case True
    then obtain dk2 where dk2: "publish_case_b_exit_result dk1 = Inr (Some dk2)" by blast
    note two = publish_case_b_books [OF dk2 one(3,4)]
    note fails = failures_published [OF two(3,4)]
    have "booking_published ?st dk2 (publish_booking ep dk)"
    proof (cases "\<exists>dk3. publish_case_c_exit_result ep dk2 = Inr (Some dk3)")
      case False
      then show ?thesis using fails by (auto simp: publish_booking_def pub dk2 split: sum.splits option.splits)
    next
      case True
      then obtain dk3 where dk3: "publish_case_c_exit_result ep dk2 = Inr (Some dk3)" by blast
      show ?thesis using publish_case_c_books [OF dk3 two(3,4)]
        by (simp add: publish_booking_def pub dk2 dk3 booking_published_def)
    qed
    then show ?thesis using two(1,2) by (rule booking_published_cong)
  qed
  then show ?thesis using one(1,2) by (rule booking_published_cong)
qed

lemma apply_overlay_ok:
  assumes "list_all fill_ok fills" "overlays_ok (dk_free dk) (dk_overlays dk)"
  obtains ov where "apply_account_fill_overlay side fills dk = (dk\<lparr>dk_overlays := ov\<rparr>, None)"
    "overlays_ok (dk_free dk) ov"
    "\<forall>a. overlay_value (dk_free dk) ov a =
       (if a \<in> {''ETH'', ''USDT''} \<union> fl_fee_asset ` set fills
        then round_sig 34 (overlay_value (dk_free dk) (dk_overlays dk) a +
               sum_sig 34 (traded side fills a) (fees_of a fills))
        else overlay_value (dk_free dk) (dk_overlays dk) a)"
proof -
  obtain adj where adj: "fill_adjustments side fills = Inr adj" "\<forall>d\<in>snd ` set adj. is_finite d"
    "distinct (map fst adj)" "fst ` set adj = {''ETH'', ''USDT''} \<union> fl_fee_asset ` set fills"
    "\<forall>a. alist_value adj a = sum_sig 34 (traded side fills a) (fees_of a fills)"
    by (rule fill_adjustments_ok [OF assms(1), of side])
  from adjust_overlays_ok [OF assms(2) adj(2,3)]
  obtain ov where ov: "adjust_overlays (dk_free dk) adj (dk_overlays dk) = (ov, None)"
    "overlays_ok (dk_free dk) ov"
    "\<forall>a. overlay_value (dk_free dk) ov a =
        (if a \<in> fst ` set adj
         then round_sig 34 (overlay_value (dk_free dk) (dk_overlays dk) a + alist_value adj a)
         else overlay_value (dk_free dk) (dk_overlays dk) a)" by (elim exE conjE) (rule that; assumption)
  show ?thesis
  proof (rule that [of ov])
    show "apply_account_fill_overlay side fills dk = (dk\<lparr>dk_overlays := ov\<rparr>, None)"
      using adj(1) ov(1) by (simp add: apply_account_fill_overlay_def)
    show "overlays_ok (dk_free dk) ov" by (rule ov(2))
    show "\<forall>a. overlay_value (dk_free dk) ov a =
       (if a \<in> {''ETH'', ''USDT''} \<union> fl_fee_asset ` set fills
        then round_sig 34 (overlay_value (dk_free dk) (dk_overlays dk) a +
               sum_sig 34 (traded side fills a) (fees_of a fills))
        else overlay_value (dk_free dk) (dk_overlays dk) a)"
      using ov(3) unfolding adj(4) adj(5) [THEN spec] .
  qed
qed

lemma summary_side: "build_execution_summary sel req od = Inr s \<Longrightarrow> es_side s = oa_side od"
  by (auto simp: build_execution_summary_def make_summary_def ebind_eq_Inr Let_def
      split: if_splits option.splits)

lemma executed_sale_cost:
  assumes "apply_execution s p = Inr p'" "es_side s = SELL"
  obtains cost where "get_cost_basis (es_executed_quantity s) p = Inr cost"
  using assms by (auto simp: apply_execution_def build_sell_state_def ebind_eq_Inr Let_def split: if_splits)

text \<open>
  Up to the publication the books are computed without an exception: the desk \<open>dk3\<close> the publication
  starts from has them, and the session is untouched.
\<close>

definition books_taken :: "execution_summary \<Rightarrow> position \<Rightarrow> 'acc desk \<Rightarrow> 'acc desk \<Rightarrow> bool" where
  "books_taken s p dk dk' \<longleftrightarrow>
     (let fills = unapplied_fills (dk_order dk); side = oa_side (dk_order dk) in
      dk_position dk' = p \<and>
      mark_fills_applied fills (dk_order dk) = Inr (dk_order dk') \<and> unapplied_fills (dk_order dk') = [] \<and>
      apply_account_fill_overlay side fills dk = (dk\<lparr>dk_overlays := dk_overlays dk'\<rparr>, None) \<and>
      (if side = SELL
       then ebind (get_cost_basis (es_executed_quantity s) (dk_position dk))
              (add_at 34 (dk_allocated_cost_basis dk)) = Inr (dk_allocated_cost_basis dk')
       else dk_allocated_cost_basis dk' = dk_allocated_cost_basis dk))"

lemma add_allocated_cost_ok:
  assumes "oa_side (dk_order dk) = SELL \<Longrightarrow> is_finite cost" "is_finite (dk_allocated_cost_basis dk)"
  obtains total where "add_allocated_cost cost dk = Inr (dk\<lparr>dk_allocated_cost_basis := total\<rparr>)"
    "is_finite total"
    "if oa_side (dk_order dk) = SELL then add_at 34 (dk_allocated_cost_basis dk) cost = Inr total
     else total = dk_allocated_cost_basis dk"
proof (cases "oa_side (dk_order dk) = SELL")
  case True
  then obtain t where "add_at 34 (dk_allocated_cost_basis dk) cost = Inr t" "is_finite t"
    using assms by (simp add: add_at_finite)
  with True show ?thesis by (intro that [of t]) (simp_all add: add_allocated_cost_def)
next
  case False
  with assms(2) show ?thesis
    by (intro that [of "dk_allocated_cost_basis dk"]) (simp_all add: add_allocated_cost_def)
qed

lemma books_are_taken:
  assumes "desk_ok dk" "unapplied_fills (dk_order dk) \<noteq> []"
    "build_execution_summary (Some (unapplied_fills (dk_order dk))) False (dk_order dk) = Inr s"
    "apply_execution s (dk_position dk) = Inr p"
  obtains dk3 where "apply_unapplied_fills ep dk = publish_booking ep dk3" "desk_ok dk3"
    "books_taken s p dk dk3" "same_session dk3 dk"
proof -
  define od fills where "od = dk_order dk" and "fills = unapplied_fills od"
  have od: "order_inv od" and pos: "position_inv (dk_position dk)"
    and ov: "overlays_ok (dk_free dk) (dk_overlays dk)" and fin: "is_finite (dk_allocated_cost_basis dk)"
    using assms(1) by (simp_all add: desk_ok_def od_def)
  have ne: "fills \<noteq> []" using assms(2) by (simp add: fills_def od_def)
  have sub: "set fills \<subseteq> set (oa_fills od)" by (auto simp: fills_def unapplied_fills_def)
  have "list_all fill_ok (oa_fills od)" using od unfolding order_inv_def by blast
  then have ok: "list_all fill_ok fills" using sub unfolding list_all_iff by blast
  have side: "es_side s = oa_side od" using assms(3) unfolding od_def by (rule summary_side)
  obtain cost where cost: "(if oa_side od = SELL then get_cost_basis (es_executed_quantity s) (dk_position dk)
      else Inr dzero) = Inr cost"
    by (cases "oa_side od = SELL") (auto simp: side intro: executed_sale_cost [OF assms(4)])
  define dk1 where "dk1 = dk\<lparr>dk_position := p\<rparr>"
  obtain nv where nv: "apply_account_fill_overlay (oa_side od) fills dk = (dk\<lparr>dk_overlays := nv\<rparr>, None)"
    "overlays_ok (dk_free dk) nv"
    by (rule apply_overlay_ok [OF ok ov]) blast
  then have nv1: "apply_account_fill_overlay (oa_side od) fills dk1 = (dk1\<lparr>dk_overlays := nv\<rparr>, None)"
    by (auto simp: apply_account_fill_overlay_def dk1_def split: sum.splits prod.splits
        dest!: arg_cong [where f = dk_overlays])
  obtain od' where od': "mark_fills_applied fills od = Inr od'"
    using unapplied_valid [OF od ne [unfolded fills_def]]
    by (auto simp: mark_fills_applied_def fills_def)
  note marked = mark_unapplied [OF od od' [unfolded fills_def]]
  define dk2 where "dk2 = dk1\<lparr>dk_overlays := nv, dk_order := od'\<rparr>"
  have fields: "oa_side (dk_order dk2) = oa_side od"
    "dk_allocated_cost_basis dk2 = dk_allocated_cost_basis dk"
    using marked(1) by (simp_all add: dk2_def dk1_def)
  have "is_finite cost" if "oa_side od = SELL"
    using cost pos that by (auto simp: position_inv_def intro: get_cost_basis_finite)
  from add_allocated_cost_ok [of dk2 cost, unfolded fields, OF this fin]
  obtain total where total: "add_allocated_cost cost dk2 = Inr (dk2\<lparr>dk_allocated_cost_basis := total\<rparr>)"
    "is_finite total" "if oa_side od = SELL then add_at 34 (dk_allocated_cost_basis dk) cost = Inr total
      else total = dk_allocated_cost_basis dk" by blast
  show ?thesis
  proof (rule that [of "dk2\<lparr>dk_allocated_cost_basis := total\<rparr>"])
    show "apply_unapplied_fills ep dk = publish_booking ep (dk2\<lparr>dk_allocated_cost_basis := total\<rparr>)"
      using assms(3,4) cost nv1 od' total(1) ne
      unfolding apply_unapplied_fills_def Let_def od_def [symmetric] fills_def [symmetric]
      by (simp add: dk2_def dk1_def [symmetric]) (simp add: dk1_def od_def)
    show "desk_ok (dk2\<lparr>dk_allocated_cost_basis := total\<rparr>)"
      using apply_execution_inv(1) [OF pos assms(4)] assms(1) marked(3) nv(2) total(2)
      by (simp add: desk_ok_def dk2_def dk1_def)
    show "books_taken s p dk (dk2\<lparr>dk_allocated_cost_basis := total\<rparr>)"
      using nv(1) od' marked(2) total(3) cost
      by (auto simp: books_taken_def Let_def dk2_def dk1_def od_def fills_def split: if_splits)
  qed (simp add: same_session_def dk2_def dk1_def)
qed

text \<open>A purchase has no exit to publish.\<close>

lemma publish_purchase:
  assumes "desk_ok dk" "oa_side (dk_order dk) \<noteq> SELL"
  shows "snd (publish_booking ep dk) = Booked"
proof -
  obtain dk1 where "publish_position_to_context dk = (dk1, None)" "same_books dk1 dk"
    by (rule publish_position_ok [OF assms(1)])
  then show ?thesis
    using assms(2) by (simp add: publish_booking_def publish_case_b_exit_result_def
        publish_case_c_exit_result_def exit_not_completed_def same_books_def)
qed

text \<open>
  When the summary of the new fills exists and the position executes it, everything is booked; when
  one of the two fails, only the lock of the session changes.
\<close>

lemma booking_decided:
  assumes "desk_ok dk" "unapplied_fills (dk_order dk) \<noteq> []" "apply_unapplied_fills ep dk = (dk', r)"
  shows "desk_ok dk' \<and>
    (case build_execution_summary (Some (unapplied_fills (dk_order dk))) False (dk_order dk) of
       Inl e \<Rightarrow> r = Reconciling ORDER_RESULT_INVALID ''10'' \<and> only_reconciling dk dk'
     | Inr s \<Rightarrow>
         (case apply_execution s (dk_position dk) of
            Inl e \<Rightarrow> r = Reconciling POSITION_UPDATE_FAILED ''12'' \<and> only_reconciling dk dk'
          | Inr p \<Rightarrow> books_taken s p dk dk' \<and> context_shows (pn_state p) (dk_context dk') \<and>
              (r = Booked \<and> same_session dk' dk \<or>
               (\<exists>f. r = Reconciling f ''12'') \<and> session_locked dk')))"
proof -
  have cx: "context_ok (dk_context dk)" using assms(1) by (simp add: desk_ok_def)
  have fails: "desk_ok dk' \<and> r = Reconciling f m \<and> only_reconciling dk dk'"
    if "enter_order_reconciliation f m dk = (dk', r)" for f m
  proof (rule enter_reconciliation [OF cx, of f m])
    fix dk2 assume dk2: "enter_order_reconciliation f m dk = (dk2, Reconciling f m)" "only_reconciling dk dk2"
      "same_books dk2 dk" "context_ok (dk_context dk2)"
    then show ?thesis using that same_books_ok [OF dk2(3) assms(1) dk2(4)] by simp
  qed
  show ?thesis
  proof (cases "build_execution_summary (Some (unapplied_fills (dk_order dk))) False (dk_order dk)")
    case (Inl e)
    then show ?thesis using assms(2,3) fails by (simp add: apply_unapplied_fills_def Let_def)
  next
    case summary: (Inr s)
    show ?thesis
    proof (cases "apply_execution s (dk_position dk)")
      case (Inl e)
      then have "position_update_failed dk = (dk', r)"
        using assms(2,3) summary by (auto simp: apply_unapplied_fills_def Let_def split: sum.splits)
      then show ?thesis using fails summary Inl by (simp add: position_update_failed_def)
    next
      case execution: (Inr p)
      from books_are_taken [OF assms(1,2) summary execution, of ep]
      obtain dk3 where dk3: "apply_unapplied_fills ep dk = publish_booking ep dk3" "desk_ok dk3"
        "books_taken s p dk dk3" "same_session dk3 dk" by blast
      have "dk_position dk3 = p" using dk3(3) by (simp add: books_taken_def Let_def)
      then have after: "booking_published (pn_state p) dk3 (dk', r)"
        using publish_booking_books [OF dk3(2), of ep] assms(3) dk3(1) by simp
      then have books: "same_books dk' dk3" "context_ok (dk_context dk')" by (simp_all add: booking_published_def)
      have "books_taken s p dk dk'" using dk3(3) books(1)
        unfolding books_taken_def same_books_def Let_def by simp
      with after summary execution dk3(4) same_books_ok [OF books(1) dk3(2) books(2)]
      show ?thesis by (auto simp: booking_published_def same_session_def)
    qed
  qed
qed

end
