(* ===== verification/Performance_Ledger.thy ===== *)
theory Performance_Ledger
  imports Trade_Record
begin

text \<open>
  The trade history and the performance of \<open>domain/history/\<close>: the list of trades indexed by order
  (\<open>trade_history.py\<close>) and the figures aggregated from it (\<open>performance.py\<close>).  The calendar day of
  an instant in Korea comes from the time zone database and is the parameter \<open>kst\<close>; the day of the
  clock is an argument.
\<close>

section \<open>The trade history\<close>

text \<open>Dataclass equality of trades: decimals by their number, times by their instant.\<close>

definition trade_norm :: "trade \<Rightarrow> trade" where
  "trade_norm t = t\<lparr>tr_executed_at := utc (instant (tr_executed_at t)),
     tr_requested_quantity := dnorm (tr_requested_quantity t),
     tr_executed_quantity := dnorm (tr_executed_quantity t),
     tr_executed_amount := dnorm (tr_executed_amount t),
     tr_average_fill_price := dnorm (tr_average_fill_price t),
     tr_market_price_at_decision := map_option dnorm (tr_market_price_at_decision t),
     tr_fee_amount := dnorm (tr_fee_amount t), tr_fee_quote_amount := dnorm (tr_fee_quote_amount t),
     tr_allocated_cost_basis := map_option dnorm (tr_allocated_cost_basis t),
     tr_realized_pnl := map_option dnorm (tr_realized_pnl t),
     tr_realized_return_rate := map_option dnorm (tr_realized_return_rate t),
     tr_fee_fills := map fill_norm (tr_fee_fills t)\<rparr>"

definition trade_same :: "trade \<Rightarrow> trade \<Rightarrow> bool" where
  "trade_same a b \<longleftrightarrow> trade_norm a = trade_norm b"

record trade_history =
  th_trades :: "trade list"
  th_by_order_id :: "string \<rightharpoonup> trade"

definition empty_history :: trade_history where
  "empty_history = \<lparr>th_trades = [], th_by_order_id = Map.empty\<rparr>"

definition add_trade :: "trade \<Rightarrow> trade_history \<Rightarrow> trade_history res" where
  "add_trade t h =
     (case th_by_order_id h (tr_order_id t) of
        Some e \<Rightarrow> if trade_same e t then Inr h else Inl OrderHistoryConflictError
      | None \<Rightarrow> Inr \<lparr>th_trades = th_trades h @ [t],
                      th_by_order_id = (th_by_order_id h)(tr_order_id t \<mapsto> t)\<rparr>)"

fun add_trades :: "trade list \<Rightarrow> trade_history \<Rightarrow> trade_history res" where
  "add_trades [] h = Inr h"
| "add_trades (t # ts) h = ebind (add_trade t h) (add_trades ts)"

definition make_history :: "trade list \<Rightarrow> trade_history res" where
  "make_history ts = add_trades ts empty_history"

datatype trade_side = SIDE_ALL | SIDE_BUY | SIDE_SELL

record history_query =
  hq_start :: int
  hq_end :: int
  hq_side :: trade_side

definition make_query :: "history_query \<Rightarrow> history_query res" where
  "make_query q = (if hq_end q < hq_start q then Inl ValueError else Inr q)"

definition find_trades :: "(int \<Rightarrow> int) \<Rightarrow> history_query \<Rightarrow> trade_history \<Rightarrow> trade list" where
  "find_trades kst q h =
     filter (\<lambda>t. hq_start q \<le> kst (instant (tr_executed_at t)) \<and>
       kst (instant (tr_executed_at t)) \<le> hq_end q \<and>
       \<not> (hq_side q = SIDE_BUY \<and> tr_side t \<noteq> BUY) \<and> \<not> (hq_side q = SIDE_SELL \<and> tr_side t \<noteq> SELL))
       (th_trades h)"

text \<open>The price at which the lot of each trade was bought; the last purchase explains a sale.\<close>

definition same_lot :: "trade \<Rightarrow> trade \<Rightarrow> bool" where
  "same_lot b t \<longleftrightarrow>
     instant (tr_executed_at b) \<le> instant (tr_executed_at t) \<and> tr_symbol b = tr_symbol t \<and>
     tr_strategy b = tr_strategy t \<and> tr_regime_type b = tr_regime_type t"

fun entry_prices ::
  "trade option \<Rightarrow> (string \<rightharpoonup> decimal option) \<Rightarrow> trade list \<Rightarrow> (string \<rightharpoonup> decimal option)" where
  "entry_prices latest m [] = m"
| "entry_prices latest m (t # ts) =
     (if tr_side t = BUY
      then entry_prices (Some t) (m(tr_order_id t \<mapsto> Some (tr_average_fill_price t))) ts
      else entry_prices latest
        (m(tr_order_id t \<mapsto> (case latest of
             None \<Rightarrow> None
           | Some b \<Rightarrow> if same_lot b t then Some (tr_average_fill_price b) else None))) ts)"

definition get_entry_prices :: "trade_history \<Rightarrow> (string \<rightharpoonup> decimal option)" where
  "get_entry_prices h = entry_prices None Map.empty (th_trades h)"

section \<open>The aggregation\<close>

record tally =
  ta_total_fee :: decimal
  ta_daily_fee :: decimal
  ta_pnl :: decimal
  ta_cost :: decimal
  ta_daily_pnl :: decimal
  ta_daily_cost :: decimal
  ta_rate_sum :: decimal
  ta_winning :: int
  ta_losing :: int
  ta_breakeven :: int
  ta_completed :: int

definition zero_tally :: tally where
  "zero_tally = \<lparr>ta_total_fee = dzero, ta_daily_fee = dzero, ta_pnl = dzero, ta_cost = dzero,
     ta_daily_pnl = dzero, ta_daily_cost = dzero, ta_rate_sum = dzero, ta_winning = 0,
     ta_losing = 0, ta_breakeven = 0, ta_completed = 0\<rparr>"

definition add_fee :: "bool \<Rightarrow> decimal \<Rightarrow> tally \<Rightarrow> tally res" where
  "add_fee today fee a =
     ebind (add_at 34 (ta_total_fee a) fee) (\<lambda>total.
     ebind (if today then add_at 34 (ta_daily_fee a) fee else Inr (ta_daily_fee a)) (\<lambda>daily.
     Inr (a\<lparr>ta_total_fee := total, ta_daily_fee := daily\<rparr>)))"

definition count_sale :: "decimal \<Rightarrow> tally \<Rightarrow> tally" where
  "count_sale pnl a =
     (if dlt dzero pnl then a\<lparr>ta_winning := ta_winning a + 1\<rparr>
      else if dlt pnl dzero then a\<lparr>ta_losing := ta_losing a + 1\<rparr>
      else a\<lparr>ta_breakeven := ta_breakeven a + 1\<rparr>)"

definition add_sale :: "bool \<Rightarrow> decimal \<Rightarrow> decimal \<Rightarrow> decimal \<Rightarrow> tally \<Rightarrow> tally res" where
  "add_sale today cost pnl rate a =
     ebind (add_at 34 (ta_cost a) cost) (\<lambda>c.
     ebind (add_at 34 (ta_pnl a) pnl) (\<lambda>p.
     ebind (add_at 34 (ta_rate_sum a) rate) (\<lambda>r.
     ebind (if today then add_at 34 (ta_daily_cost a) cost else Inr (ta_daily_cost a)) (\<lambda>dc.
     ebind (if today then add_at 34 (ta_daily_pnl a) pnl else Inr (ta_daily_pnl a)) (\<lambda>dp.
     Inr (count_sale pnl
       (a\<lparr>ta_completed := ta_completed a + 1, ta_cost := c, ta_pnl := p, ta_rate_sum := r,
          ta_daily_cost := dc, ta_daily_pnl := dp\<rparr>)))))))"

definition tally_trade :: "(int \<Rightarrow> int) \<Rightarrow> int \<Rightarrow> trade \<Rightarrow> tally \<Rightarrow> tally res" where
  "tally_trade kst day t a =
     (let today = (kst (instant (tr_executed_at t)) = day) in
      ebind (add_fee today (tr_fee_quote_amount t) a) (\<lambda>b.
      if tr_side t \<noteq> SELL then Inr b
      else case (tr_allocated_cost_basis t, tr_realized_pnl t, tr_realized_return_rate t) of
          (Some cost, Some pnl, Some rate) \<Rightarrow> add_sale today cost pnl rate b
        | _ \<Rightarrow> Inl ValueError))"

fun tally_trades :: "(int \<Rightarrow> int) \<Rightarrow> int \<Rightarrow> trade list \<Rightarrow> tally \<Rightarrow> tally res" where
  "tally_trades kst day [] a = Inr a"
| "tally_trades kst day (t # ts) a = ebind (tally_trade kst day t a) (tally_trades kst day ts)"

definition calculate_weighted_return :: "decimal \<Rightarrow> decimal \<Rightarrow> decimal res" where
  "calculate_weighted_return pnl cost = (if deq cost dzero then Inr dzero else return_rate pnl cost)"

record figures =
  fg_daily_return_rate :: decimal
  fg_cumulative_return_rate :: decimal
  fg_realized_pnl :: decimal
  fg_daily_fee :: decimal
  fg_total_fee :: decimal
  fg_average_sell_return_rate :: decimal
  fg_total_profit :: decimal
  fg_winning_sell_count :: int
  fg_losing_sell_count :: int
  fg_breakeven_sell_count :: int
  fg_completed_sell_count :: int
  fg_win_rate :: "decimal option"

definition average_rates :: "tally \<Rightarrow> (decimal \<times> decimal option) res" where
  "average_rates a =
     (if 0 < ta_completed a
      then
        ebind (ebind (div_at 34 (ta_rate_sum a) (Fin (of_int (ta_completed a)))) quantize_rate) (\<lambda>avg.
        ebind (return_rate (Fin (of_int (ta_winning a))) (Fin (of_int (ta_completed a)))) (\<lambda>win.
        Inr (avg, Some win)))
      else Inr (dzero, None))"

definition figures_of :: "tally \<Rightarrow> figures res" where
  "figures_of a =
     ebind (calculate_weighted_return (ta_pnl a) (ta_cost a)) (\<lambda>cumulative.
     ebind (calculate_weighted_return (ta_daily_pnl a) (ta_daily_cost a)) (\<lambda>daily.
     ebind (average_rates a) (\<lambda>(avg, win).
     Inr \<lparr>fg_daily_return_rate = daily, fg_cumulative_return_rate = cumulative,
          fg_realized_pnl = ta_pnl a, fg_daily_fee = ta_daily_fee a, fg_total_fee = ta_total_fee a,
          fg_average_sell_return_rate = avg, fg_total_profit = ta_pnl a,
          fg_winning_sell_count = ta_winning a, fg_losing_sell_count = ta_losing a,
          fg_breakeven_sell_count = ta_breakeven a, fg_completed_sell_count = ta_completed a,
          fg_win_rate = win\<rparr>)))"

definition aggregate_trades :: "(int \<Rightarrow> int) \<Rightarrow> int \<Rightarrow> trade list \<Rightarrow> figures res" where
  "aggregate_trades kst day ts = ebind (tally_trades kst day ts zero_tally) figures_of"

section \<open>The performance\<close>

record performance =
  pf_figures :: figures
  pf_trades :: "trade list"
  pf_day :: int

definition make_performance :: "(int \<Rightarrow> int) \<Rightarrow> int \<Rightarrow> trade list \<Rightarrow> performance res" where
  "make_performance kst day ts =
     ebind (aggregate_trades kst day ts) (\<lambda>f.
     Inr \<lparr>pf_figures = f, pf_trades = ts, pf_day = day\<rparr>)"

definition apply_new_trade :: "(int \<Rightarrow> int) \<Rightarrow> int \<Rightarrow> trade \<Rightarrow> performance \<Rightarrow> performance res" where
  "apply_new_trade kst day t p =
     (case find (\<lambda>e. tr_order_id e = tr_order_id t) (pf_trades p) of
        Some e \<Rightarrow> if trade_same e t then Inr p else Inl OrderHistoryConflictError
      | None \<Rightarrow>
          ebind (aggregate_trades kst day (pf_trades p @ [t])) (\<lambda>f.
          Inr \<lparr>pf_figures = f, pf_trades = pf_trades p @ [t], pf_day = day\<rparr>))"

definition get_performance :: "(int \<Rightarrow> int) \<Rightarrow> int \<Rightarrow> performance \<Rightarrow> performance res" where
  "get_performance kst day p =
     (if day = pf_day p then Inr p
      else ebind (aggregate_trades kst day (pf_trades p)) (\<lambda>f.
           Inr (p\<lparr>pf_figures := f, pf_day := day\<rparr>)))"

section \<open>Facts about the history\<close>

definition history_inv :: "trade_history \<Rightarrow> bool" where
  "history_inv h \<longleftrightarrow>
     distinct (map tr_order_id (th_trades h)) \<and>
     (\<forall>k t. th_by_order_id h k = Some t \<longleftrightarrow> t \<in> set (th_trades h) \<and> tr_order_id t = k)"

lemma history_inv_empty: "history_inv empty_history"
  by (simp add: history_inv_def empty_history_def)

lemma add_trade_cases:
  assumes "history_inv h"
  obtains (known) e where "e \<in> set (th_trades h)" "tr_order_id e = tr_order_id t" "trade_same e t"
      "add_trade t h = Inr h"
    | (conflict) e where "e \<in> set (th_trades h)" "tr_order_id e = tr_order_id t" "\<not> trade_same e t"
      "add_trade t h = Inl OrderHistoryConflictError"
    | (new) h' where "tr_order_id t \<notin> tr_order_id ` set (th_trades h)" "add_trade t h = Inr h'"
      "th_trades h' = th_trades h @ [t]" "history_inv h'"
proof (cases "th_by_order_id h (tr_order_id t)")
  case None
  have fresh: "tr_order_id t \<notin> tr_order_id ` set (th_trades h)"
  proof
    assume "tr_order_id t \<in> tr_order_id ` set (th_trades h)"
    then obtain u where u: "u \<in> set (th_trades h)" "tr_order_id u = tr_order_id t" by (auto simp: image_iff)
    have "th_by_order_id h (tr_order_id t) = Some u \<longleftrightarrow> u \<in> set (th_trades h) \<and> tr_order_id u = tr_order_id t"
      using assms unfolding history_inv_def by blast
    with u None show False by simp
  qed
  show ?thesis
  proof (rule new [OF fresh])
    let ?h = "\<lparr>th_trades = th_trades h @ [t],
        th_by_order_id = (th_by_order_id h)(tr_order_id t \<mapsto> t)\<rparr>"
    show "add_trade t h = Inr ?h" by (simp add: add_trade_def None)
    have dist: "distinct (map tr_order_id (th_trades h))"
      and idx: "\<forall>k u. th_by_order_id h k = Some u \<longleftrightarrow> u \<in> set (th_trades h) \<and> tr_order_id u = k"
      using assms unfolding history_inv_def by blast+
    show "history_inv ?h"
      unfolding history_inv_def
    proof (intro conjI allI)
      show "distinct (map tr_order_id (th_trades ?h))" using dist fresh by simp
      show "th_by_order_id ?h k = Some u \<longleftrightarrow> u \<in> set (th_trades ?h) \<and> tr_order_id u = k" for k u
      proof (cases "u \<in> set (th_trades h)")
        case True
        then have "tr_order_id u \<noteq> tr_order_id t" using fresh by (metis imageI)
        then show ?thesis using idx True by auto
      qed (use idx in auto)
    qed
  qed simp
next
  case (Some e)
  then have "e \<in> set (th_trades h)" "tr_order_id e = tr_order_id t"
    using assms by (auto simp: history_inv_def)
  then show ?thesis
    using known conflict Some by (cases "trade_same e t") (simp_all add: add_trade_def)
qed

lemma trade_same_refl [simp]: "trade_same t t"
  by (simp add: trade_same_def)

lemma trade_same_order_id: "trade_same a b \<Longrightarrow> tr_order_id a = tr_order_id b"
proof -
  assume "trade_same a b"
  then have "tr_order_id (trade_norm a) = tr_order_id (trade_norm b)" by (simp add: trade_same_def)
  then show ?thesis by (simp add: trade_norm_def)
qed

text \<open>A list of trades with distinct orders is loaded as it is.\<close>

lemma add_trades_distinct:
  "history_inv h \<Longrightarrow> distinct (map tr_order_id (th_trades h @ ts)) \<Longrightarrow>
   \<exists>h'. add_trades ts h = Inr h' \<and> history_inv h' \<and> th_trades h' = th_trades h @ ts"
proof (induction ts arbitrary: h)
  case (Cons t ts)
  have fresh: "tr_order_id t \<notin> tr_order_id ` set (th_trades h)" using Cons.prems(2) by auto
  show ?case using Cons.prems(1)
  proof (cases rule: add_trade_cases [where t = t])
    case (new h')
    then show ?thesis using Cons.IH [of h'] Cons.prems(2) by auto
  next
    case (known e)
    then show ?thesis using fresh by (metis imageI)
  next
    case (conflict e)
    then show ?thesis using fresh by (metis imageI)
  qed
qed simp

lemma make_history_distinct:
  assumes "distinct (map tr_order_id ts)"
  obtains h where "make_history ts = Inr h" "history_inv h" "th_trades h = ts"
  using add_trades_distinct [OF history_inv_empty, of ts] assms
  by (auto simp: make_history_def empty_history_def)

section \<open>Facts about the aggregation\<close>

definition sales :: "trade list \<Rightarrow> nat" where
  "sales ts = length (filter (\<lambda>t. tr_side t = SELL) ts)"

lemma count_sale_sel [simp]:
  "ta_completed (count_sale p a) = ta_completed a"
  "ta_winning (count_sale p a) + ta_losing (count_sale p a) + ta_breakeven (count_sale p a)
     = ta_winning a + ta_losing a + ta_breakeven a + 1"
  "ta_total_fee (count_sale p a) = ta_total_fee a" "ta_daily_fee (count_sale p a) = ta_daily_fee a"
  "ta_pnl (count_sale p a) = ta_pnl a" "ta_cost (count_sale p a) = ta_cost a"
  "ta_daily_pnl (count_sale p a) = ta_daily_pnl a" "ta_daily_cost (count_sale p a) = ta_daily_cost a"
  "ta_rate_sum (count_sale p a) = ta_rate_sum a"
  by (simp_all add: count_sale_def)

lemma count_sale_grows:
  "ta_winning a \<le> ta_winning (count_sale p a)" "ta_losing a \<le> ta_losing (count_sale p a)"
  "ta_breakeven a \<le> ta_breakeven (count_sale p a)"
  by (simp_all add: count_sale_def)

lemma tally_trade_shape:
  assumes "tally_trade kst day t a = Inr b"
  obtains (purchase) "tr_side t \<noteq> SELL" "ta_completed b = ta_completed a"
      "ta_winning b = ta_winning a" "ta_losing b = ta_losing a" "ta_breakeven b = ta_breakeven a"
    | (sale) c pnl where "tr_side t = SELL" "b = count_sale pnl c" "ta_completed c = ta_completed a + 1"
      "ta_winning c = ta_winning a" "ta_losing c = ta_losing a" "ta_breakeven c = ta_breakeven a"
proof -
  let ?today = "kst (instant (tr_executed_at t)) = day"
  obtain d where fee: "add_fee ?today (tr_fee_quote_amount t) a = Inr d"
    using assms by (auto simp: tally_trade_def Let_def ebind_eq_Inr)
  then have d: "ta_completed d = ta_completed a" "ta_winning d = ta_winning a"
    "ta_losing d = ta_losing a" "ta_breakeven d = ta_breakeven a"
    by (auto simp: add_fee_def ebind_eq_Inr)
  show ?thesis
  proof (cases "tr_side t = SELL")
    case False
    then have "b = d" using assms fee by (auto simp: tally_trade_def Let_def ebind_eq_Inr)
    then show ?thesis using purchase False d by simp
  next
    case True
    then obtain cost pnl rate where "add_sale ?today cost pnl rate d = Inr b"
      using assms fee by (auto simp: tally_trade_def Let_def ebind_eq_Inr split: option.splits)
    then show ?thesis
      by (auto simp: add_sale_def ebind_eq_Inr d intro!: sale [OF True])
  qed
qed

lemma tally_trade_counts:
  assumes "tally_trade kst day t a = Inr b"
  shows "ta_completed b = ta_completed a + (if tr_side t = SELL then 1 else 0)"
    "ta_winning b + ta_losing b + ta_breakeven b - (ta_winning a + ta_losing a + ta_breakeven a)
       = ta_completed b - ta_completed a"
    "ta_winning a \<le> ta_winning b" "ta_losing a \<le> ta_losing b" "ta_breakeven a \<le> ta_breakeven b"
proof -
  show "ta_completed b = ta_completed a + (if tr_side t = SELL then 1 else 0)"
    using assms by (cases rule: tally_trade_shape) simp_all
  show "ta_winning b + ta_losing b + ta_breakeven b - (ta_winning a + ta_losing a + ta_breakeven a)
       = ta_completed b - ta_completed a"
    using assms by (cases rule: tally_trade_shape) simp_all
  show "ta_winning a \<le> ta_winning b"
    using assms
  proof (cases rule: tally_trade_shape)
    case (sale c pnl)
    then show ?thesis using count_sale_grows(1) [of c pnl] by simp
  qed simp
  show "ta_losing a \<le> ta_losing b"
    using assms
  proof (cases rule: tally_trade_shape)
    case (sale c pnl)
    then show ?thesis using count_sale_grows(2) [of c pnl] by simp
  qed simp
  show "ta_breakeven a \<le> ta_breakeven b"
    using assms
  proof (cases rule: tally_trade_shape)
    case (sale c pnl)
    then show ?thesis using count_sale_grows(3) [of c pnl] by simp
  qed simp
qed

lemma tally_trades_counts:
  "tally_trades kst day ts a = Inr b \<Longrightarrow>
   ta_completed b = ta_completed a + int (sales ts) \<and>
   ta_winning b + ta_losing b + ta_breakeven b - (ta_winning a + ta_losing a + ta_breakeven a)
     = ta_completed b - ta_completed a \<and>
   ta_winning a \<le> ta_winning b \<and> ta_losing a \<le> ta_losing b \<and> ta_breakeven a \<le> ta_breakeven b"
proof (induction ts arbitrary: a)
  case (Cons t ts)
  then obtain c where c: "tally_trade kst day t a = Inr c" "tally_trades kst day ts c = Inr b"
    by (auto simp: ebind_eq_Inr)
  have "sales (t # ts) = (if tr_side t = SELL then 1 else 0) + sales ts" by (simp add: sales_def)
  with tally_trade_counts [OF c(1)] Cons.IH [OF c(2)] show ?case by auto
qed (simp add: sales_def)

lemma tally_trades_append:
  "tally_trades kst day (xs @ ys) a = ebind (tally_trades kst day xs a) (tally_trades kst day ys)"
proof (induction xs arbitrary: a)
  case (Cons x xs)
  have "tally_trades kst day (xs @ ys) = (\<lambda>b. ebind (tally_trades kst day xs b) (tally_trades kst day ys))"
    using Cons.IH by (rule ext)
  then show ?case by (simp add: ebind_assoc)
qed simp

text \<open>Rates.\<close>

lemma win_rate_bounds:
  assumes "return_rate (Fin (of_int w)) (Fin (of_int c)) = Inr r" "0 \<le> w" "w \<le> c" "0 < c"
  shows "is_finite r" "0 \<le> dval r" "dval r \<le> 100"
proof -
  define x where "x = round_sig 34 (of_int w / of_int c)"
  define y where "y = round_sig 34 (x * 100)"
  have one: "round_sig 34 1 = 1" "round_sig 34 100 = 100" by code_simp+
  have x: "0 \<le> x" "x \<le> 1" unfolding x_def
    using assms(2-4) one(1) by (auto intro: r34.nonneg r34.below simp: field_simps)
  then have y: "0 \<le> y" "y \<le> 100" unfolding y_def
    using one(2) by (auto intro: r34.nonneg r34.below)
  obtain d where d: "quantize_rate d = Inr r" "is_finite d" "dval d = y"
  proof -
    have "div_at 34 (Fin (of_int w)) (Fin (of_int c)) = Inr (dec_of (is_signed (Fin (of_int w)) \<noteq>
        is_signed (Fin (of_int c))) x)"
      using assms(4) by (simp add: div_at_finite x_def)
    then show ?thesis
      using assms(1) that by (auto simp: return_rate_def mul_at_finite y_def)
  qed
  have "of_int 0 / 10 ^ 8 \<le> dval d" "dval d \<le> of_int 10000000000 / 10 ^ 8"
    using y unfolding d(3) by simp_all
  from quantize_rate_bounds [OF d(1,2) this]
  show "0 \<le> dval r" "dval r \<le> 100" by simp_all
  show "is_finite r" by (rule quantize_rate_value(1) [OF d(1,2)])
qed

lemma aggregate_counts:
  assumes "aggregate_trades kst day ts = Inr f"
  shows "fg_completed_sell_count f = int (sales ts)"
    "fg_winning_sell_count f + fg_losing_sell_count f + fg_breakeven_sell_count f = int (sales ts)"
    "fg_win_rate f = None \<longleftrightarrow> sales ts = 0"
    "\<forall>r. fg_win_rate f = Some r \<longrightarrow> is_finite r \<and> 0 \<le> dval r \<and> dval r \<le> 100"
proof -
  obtain b where b: "tally_trades kst day ts zero_tally = Inr b" "figures_of b = Inr f"
    using assms by (auto simp: aggregate_trades_def ebind_eq_Inr)
  note counts = tally_trades_counts [OF b(1)]
  obtain avg win where rates: "average_rates b = Inr (avg, win)" "fg_win_rate f = win"
    "fg_completed_sell_count f = ta_completed b" "fg_winning_sell_count f = ta_winning b"
    "fg_losing_sell_count f = ta_losing b" "fg_breakeven_sell_count f = ta_breakeven b"
    using b(2) by (auto simp: figures_of_def ebind_eq_Inr)
  have n: "ta_completed b = int (sales ts)" "0 \<le> ta_winning b" "ta_winning b \<le> ta_completed b"
    "ta_winning b + ta_losing b + ta_breakeven b = int (sales ts)"
    using counts by (auto simp: zero_tally_def)
  then show "fg_completed_sell_count f = int (sales ts)"
    "fg_winning_sell_count f + fg_losing_sell_count f + fg_breakeven_sell_count f = int (sales ts)"
    using rates by simp_all
  show "fg_win_rate f = None \<longleftrightarrow> sales ts = 0"
    using rates(1) n(1) unfolding rates(2) by (cases win) (auto simp: average_rates_def ebind_eq_Inr split: if_splits)
  show "\<forall>r. fg_win_rate f = Some r \<longrightarrow> is_finite r \<and> 0 \<le> dval r \<and> dval r \<le> 100"
  proof (intro allI impI)
    fix r assume "fg_win_rate f = Some r"
    then have "0 < ta_completed b"
      "return_rate (Fin (of_int (ta_winning b))) (Fin (of_int (ta_completed b))) = Inr r"
      using rates(1,2) by (auto simp: average_rates_def ebind_eq_Inr split: if_splits)
    then show "is_finite r \<and> 0 \<le> dval r \<and> dval r \<le> 100" using win_rate_bounds n(2,3) by blast
  qed
qed

text \<open>The fees and the profit are the sums over the trades, rounded at each addition.\<close>

definition sale_profits :: "trade list \<Rightarrow> rat list" where
  "sale_profits ts = map (\<lambda>t. dval (the (tr_realized_pnl t))) (filter (\<lambda>t. tr_side t = SELL) ts)"

lemma trade_ok_values:
  assumes "trade_ok t"
  shows "is_finite (tr_fee_quote_amount t)"
    and "tr_side t = SELL \<Longrightarrow> \<exists>c p r. tr_allocated_cost_basis t = Some c \<and> tr_realized_pnl t = Some p \<and>
      tr_realized_return_rate t = Some r \<and> is_finite c \<and> is_finite p \<and> is_finite r"
proof -
  have checked: "check_trade_fees t = Inr ()" "check_realized t = Inr ()"
    using assms by (auto simp: trade_ok_def check_trade_def ebind_eq_Inr)
  show "is_finite (tr_fee_quote_amount t)" using checked(1) by (simp add: check_trade_fees_def)
  show "tr_side t = SELL \<Longrightarrow> \<exists>c p r. tr_allocated_cost_basis t = Some c \<and> tr_realized_pnl t = Some p \<and>
      tr_realized_return_rate t = Some r \<and> is_finite c \<and> is_finite p \<and> is_finite r"
    using checked(2) by (auto simp: check_realized_def ebind_eq_Inr split: option.splits)
qed

definition sums_finite :: "tally \<Rightarrow> bool" where
  "sums_finite a \<longleftrightarrow> is_finite (ta_total_fee a) \<and> is_finite (ta_pnl a)"

lemma tally_trade_sums:
  assumes "trade_ok t" "sums_finite a" "tally_trade kst day t a = Inr b"
  shows "sums_finite b" "dval (ta_total_fee b) = round_sig 34 (dval (ta_total_fee a) + dval (tr_fee_quote_amount t))"
    "dval (ta_pnl b) = sum_sig 34 (dval (ta_pnl a)) (sale_profits [t])"
proof -
  note fin = assms(2) [unfolded sums_finite_def]
  have fee: "is_finite (tr_fee_quote_amount t)" using trade_ok_values(1) [OF assms(1)] .
  have "sums_finite b \<and>
      dval (ta_total_fee b) = round_sig 34 (dval (ta_total_fee a) + dval (tr_fee_quote_amount t)) \<and>
      dval (ta_pnl b) = sum_sig 34 (dval (ta_pnl a)) (sale_profits [t])"
  proof (cases "tr_side t = SELL")
    case True
    then obtain c p r where vals: "tr_allocated_cost_basis t = Some c" "tr_realized_pnl t = Some p"
      "tr_realized_return_rate t = Some r" "is_finite p"
      using trade_ok_values(2) [OF assms(1)] by auto
    show ?thesis
      using assms(3) fin fee vals True
      by (auto simp: tally_trade_def Let_def add_fee_def add_sale_def ebind_eq_Inr finite_arith
          sums_finite_def sale_profits_def split: if_splits)
  next
    case False
    then show ?thesis
      using assms(3) fin fee
      by (auto simp: tally_trade_def Let_def add_fee_def ebind_eq_Inr finite_arith sums_finite_def
          sale_profits_def split: if_splits)
  qed
  then show "sums_finite b"
    "dval (ta_total_fee b) = round_sig 34 (dval (ta_total_fee a) + dval (tr_fee_quote_amount t))"
    "dval (ta_pnl b) = sum_sig 34 (dval (ta_pnl a)) (sale_profits [t])" by simp_all
qed

lemma tally_trades_sums:
  "list_all trade_ok ts \<Longrightarrow> sums_finite a \<Longrightarrow> tally_trades kst day ts a = Inr b \<Longrightarrow>
   sums_finite b \<and>
   dval (ta_total_fee b) = sum_sig 34 (dval (ta_total_fee a)) (map (\<lambda>t. dval (tr_fee_quote_amount t)) ts) \<and>
   dval (ta_pnl b) = sum_sig 34 (dval (ta_pnl a)) (sale_profits ts)"
proof (induction ts arbitrary: a)
  case (Cons t ts)
  then obtain c where c: "tally_trade kst day t a = Inr c" "tally_trades kst day ts c = Inr b"
    by (auto simp: ebind_eq_Inr)
  have "sale_profits (t # ts) = sale_profits [t] @ sale_profits ts" by (simp add: sale_profits_def)
  then show ?case
    using Cons.IH [OF _ _ c(2)] tally_trade_sums [OF _ Cons.prems(2) c(1)] Cons.prems(1)
    by (simp add: sum_sig_append)
qed (simp add: sale_profits_def)

lemma aggregate_sums:
  assumes "list_all trade_ok ts" "aggregate_trades kst day ts = Inr f"
  shows "dval (fg_total_fee f) = sum_sig 34 0 (map (\<lambda>t. dval (tr_fee_quote_amount t)) ts)"
    "dval (fg_realized_pnl f) = sum_sig 34 0 (sale_profits ts)" "fg_total_profit f = fg_realized_pnl f"
proof -
  obtain b where b: "tally_trades kst day ts zero_tally = Inr b" "figures_of b = Inr f"
    using assms(2) by (auto simp: aggregate_trades_def ebind_eq_Inr)
  have f: "fg_total_fee f = ta_total_fee b" "fg_realized_pnl f = ta_pnl b" "fg_total_profit f = ta_pnl b"
    using b(2) by (auto simp: figures_of_def ebind_eq_Inr split: prod.splits)
  have "sums_finite zero_tally" by (simp add: sums_finite_def zero_tally_def)
  note sums = tally_trades_sums [OF assms(1) this b(1)]
  show "dval (fg_total_fee f) = sum_sig 34 0 (map (\<lambda>t. dval (tr_fee_quote_amount t)) ts)"
    "dval (fg_realized_pnl f) = sum_sig 34 0 (sale_profits ts)" "fg_total_profit f = fg_realized_pnl f"
    using sums f by (simp_all add: zero_tally_def)
qed

end
