(* ===== verification/History_Publication.thy ===== *)
theory History_Publication
  imports Performance_Ledger
begin

text \<open>
  How a completed order becomes part of the published history
  (\<open>application/trade_history_controller.py\<close>): the trade is built, candidates of the history and of
  the performance are prepared, the trade is saved, and only then both candidates are published
  together.  A save that raises leaves the published state alone and keeps the candidates, and until
  they are published nothing else can be recorded.

  The repository appends a line and forces it to disk.  Its effect is an argument of the operations:
  the list of the trades on disk, and whether an append returned, raised before the line was on
  disk, or raised although it is on disk.
\<close>

section \<open>The repository\<close>

datatype save_outcome = SAVED | LOST | STORED_UNCONFIRMED

definition on_disk :: "trade \<Rightarrow> trade list \<Rightarrow> trade option" where
  "on_disk t disk = find (\<lambda>e. tr_order_id e = tr_order_id t) disk"

definition save_trade :: "save_outcome \<Rightarrow> trade \<Rightarrow> trade list \<Rightarrow> trade list \<times> unit res" where
  "save_trade outcome t disk =
     (case on_disk t disk of
        Some e \<Rightarrow>
          if \<not> trade_same e t then (disk, Inl OrderHistoryConflictError)
          else (disk, if outcome = SAVED then Inr () else Inl OSError)
      | None \<Rightarrow>
          (if outcome = LOST then disk else disk @ [t],
           if outcome = SAVED then Inr () else Inl OSError))"

section \<open>The controller\<close>

record pending_publication =
  pp_trade :: trade
  pp_history :: trade_history
  pp_performance :: performance

record publication =
  pb_history :: trade_history
  pb_performance :: performance
  pb_pending :: "string \<rightharpoonup> pending_publication"

text \<open>The days that the successive readings of the clock give.\<close>

record clock_days =
  cd_load :: int
  cd_apply :: int
  cd_before :: int
  cd_get :: int
  cd_after :: int
  cd_before_again :: int
  cd_get_again :: int
  cd_after_again :: int

text \<open>
  The performance is refreshed in place, so the object keeps the refresh even where the day changed
  twice and an exception follows.
\<close>

definition stabilize_account_day ::
  "(int \<Rightarrow> int) \<Rightarrow> clock_days \<Rightarrow> performance \<Rightarrow> performance \<times> unit res" where
  "stabilize_account_day kst c p =
     (case get_performance kst (cd_get c) p of
        Inl e \<Rightarrow> (p, Inl e)
      | Inr p1 \<Rightarrow>
          if cd_before c = cd_after c then (p1, Inr ())
          else (case get_performance kst (cd_get_again c) p1 of
              Inl e \<Rightarrow> (p1, Inl e)
            | Inr p2 \<Rightarrow> (p2, if cd_before_again c = cd_after_again c then Inr () else Inl RuntimeError)))"

definition publish_candidate ::
  "(int \<Rightarrow> int) \<Rightarrow> clock_days \<Rightarrow> save_outcome \<Rightarrow> pending_publication \<Rightarrow> publication \<Rightarrow> trade list \<Rightarrow>
   publication \<times> trade list \<times> trade res" where
  "publish_candidate kst c outcome pp st disk =
     (let (disk', saved) = save_trade outcome (pp_trade pp) disk; key = tr_order_id (pp_trade pp) in
      case saved of
        Inl e \<Rightarrow> (st\<lparr>pb_pending := (pb_pending st)(key \<mapsto> pp)\<rparr>, disk', Inl e)
      | Inr _ \<Rightarrow>
          (case stabilize_account_day kst c (pp_performance pp) of
             (p, Inl e) \<Rightarrow>
               (st\<lparr>pb_pending := (pb_pending st)(key \<mapsto> pp\<lparr>pp_performance := p\<rparr>)\<rparr>, disk', Inl e)
           | (p, Inr _) \<Rightarrow>
               (st\<lparr>pb_history := pp_history pp, pb_performance := p,
                   pb_pending := (pb_pending st)(key := None)\<rparr>, disk', Inr (pp_trade pp))))"

definition publish_completed_trade ::
  "(int \<Rightarrow> int) \<Rightarrow> clock_days \<Rightarrow> save_outcome \<Rightarrow> trade \<Rightarrow> publication \<Rightarrow> trade list \<Rightarrow>
   publication \<times> trade list \<times> trade res" where
  "publish_completed_trade kst c outcome t st disk =
     (if pb_pending st \<noteq> Map.empty then (st, disk, Inl TradeHistoryPersistencePendingError)
      else
        let published = th_trades (pb_history st) in
        case ebind (make_history published) (add_trade t) of
          Inl e \<Rightarrow> (st, disk, Inl e)
        | Inr h \<Rightarrow>
            if length (th_trades h) = length published
            then (st, disk, case find (\<lambda>e. tr_order_id e = tr_order_id t) published of
                Some e \<Rightarrow> Inr e | None \<Rightarrow> Inl RuntimeError)
            else (case ebind (make_performance kst (cd_load c) published)
                       (apply_new_trade kst (cd_apply c) t) of
                Inl e \<Rightarrow> (st, disk, Inl e)
              | Inr p \<Rightarrow>
                  publish_candidate kst c outcome
                    \<lparr>pp_trade = t, pp_history = h, pp_performance = p\<rparr> st disk))"

definition realize ::
  "order \<Rightarrow> execution_summary \<Rightarrow> decimal option \<Rightarrow> realized_result option res" where
  "realize od s cost =
     (if oa_side od = SELL
      then case cost of
          None \<Rightarrow> Inl ValueError
        | Some c \<Rightarrow> ebind (calculate_realized_result s c) (\<lambda>z. Inr (Some z))
      else if cost \<noteq> None then Inl ValueError
      else Inr None)"

definition record_order_execution ::
  "(int \<Rightarrow> int) \<Rightarrow> clock_days \<Rightarrow> save_outcome \<Rightarrow> order \<Rightarrow> execution_summary \<Rightarrow> decimal option \<Rightarrow>
   publication \<Rightarrow> trade list \<Rightarrow> publication \<times> trade list \<times> trade res" where
  "record_order_execution kst c outcome od s cost st disk =
     (if pb_pending st \<noteq> Map.empty then (st, disk, Inl TradeHistoryPersistencePendingError)
      else case ebind (realize od s cost) (from_order_execution od s) of
          Inl e \<Rightarrow> (st, disk, Inl e)
        | Inr t \<Rightarrow> publish_completed_trade kst c outcome t st disk)"

definition record_reconciled_external_trade ::
  "(int \<Rightarrow> int) \<Rightarrow> clock_days \<Rightarrow> save_outcome \<Rightarrow> trade \<Rightarrow> publication \<Rightarrow> trade list \<Rightarrow>
   publication \<times> trade list \<times> trade res" where
  "record_reconciled_external_trade kst c outcome t st disk =
     (if tr_schema_version t \<noteq> 4 \<or> tr_exit_reason t \<noteq> Some EXTERNAL_MANUAL
      then (st, disk, Inl ValueError)
      else publish_completed_trade kst c outcome t st disk)"

definition retry_pending_persistence ::
  "(int \<Rightarrow> int) \<Rightarrow> clock_days \<Rightarrow> save_outcome \<Rightarrow> string \<Rightarrow> publication \<Rightarrow> trade list \<Rightarrow>
   publication \<times> trade list \<times> trade res" where
  "retry_pending_persistence kst c outcome key st disk =
     (if key = [] \<or> \<not> list_all is_digit key then (st, disk, Inl ValueError)
      else case pb_pending st key of
          None \<Rightarrow> (st, disk, Inl KeyError)
        | Some pp \<Rightarrow> publish_candidate kst c outcome pp st disk)"

definition load_trade_history ::
  "(int \<Rightarrow> int) \<Rightarrow> clock_days \<Rightarrow> publication \<Rightarrow> trade list \<Rightarrow> publication \<times> unit res" where
  "load_trade_history kst c st disk =
     (if pb_pending st \<noteq> Map.empty then (st, Inl TradeHistoryPersistencePendingError)
      else case make_history disk of
          Inl e \<Rightarrow> (st, Inl e)
        | Inr h \<Rightarrow>
            (case make_performance kst (cd_load c) (th_trades h) of
               Inl e \<Rightarrow> (st, Inl e)
             | Inr p \<Rightarrow> (st\<lparr>pb_history := h, pb_performance := p\<rparr>, Inr ())))"

section \<open>Runs\<close>

definition initial_publication :: "(int \<Rightarrow> int) \<Rightarrow> int \<Rightarrow> publication res" where
  "initial_publication kst day =
     ebind (make_performance kst day []) (\<lambda>p.
     Inr \<lparr>pb_history = empty_history, pb_performance = p, pb_pending = Map.empty\<rparr>)"

text \<open>A session loads the history once and then records and retries in any order.\<close>

inductive publication_run :: "(int \<Rightarrow> int) \<Rightarrow> publication \<Rightarrow> trade list \<Rightarrow> bool"
  for kst :: "int \<Rightarrow> int" where
  loaded: "distinct (map tr_order_id disk) \<Longrightarrow> initial_publication kst day = Inr st \<Longrightarrow>
     load_trade_history kst c st disk = (st', Inr ()) \<Longrightarrow> publication_run kst st' disk"
| recorded: "publication_run kst st disk \<Longrightarrow>
     record_order_execution kst c outcome od s cost st disk = (st', disk', r) \<Longrightarrow>
     publication_run kst st' disk'"
| external: "publication_run kst st disk \<Longrightarrow>
     record_reconciled_external_trade kst c outcome t st disk = (st', disk', r) \<Longrightarrow>
     publication_run kst st' disk'"
| retried: "publication_run kst st disk \<Longrightarrow>
     retry_pending_persistence kst c outcome key st disk = (st', disk', r) \<Longrightarrow>
     publication_run kst st' disk'"

section \<open>The published history is on disk\<close>

text \<open>A performance shows the figures of its trades on its day.\<close>

definition performance_inv :: "(int \<Rightarrow> int) \<Rightarrow> performance \<Rightarrow> bool" where
  "performance_inv kst p \<longleftrightarrow> aggregate_trades kst (pf_day p) (pf_trades p) = Inr (pf_figures p)"

lemma make_performance_inv:
  "make_performance kst day ts = Inr p \<Longrightarrow> performance_inv kst p \<and> pf_trades p = ts"
  by (auto simp: make_performance_def performance_inv_def ebind_eq_Inr)

lemma get_performance_inv:
  "get_performance kst day p = Inr p' \<Longrightarrow> performance_inv kst p \<Longrightarrow>
   performance_inv kst p' \<and> pf_trades p' = pf_trades p"
  by (auto simp: get_performance_def performance_inv_def ebind_eq_Inr split: if_splits)

lemma apply_new_trade_inv:
  assumes "apply_new_trade kst day t p = Inr p'" "tr_order_id t \<notin> tr_order_id ` set (pf_trades p)"
  shows "performance_inv kst p' \<and> pf_trades p' = pf_trades p @ [t]"
proof -
  have "find (\<lambda>e. tr_order_id e = tr_order_id t) (pf_trades p) = None"
    using assms(2) by (auto simp: find_None_iff image_iff)
  then show ?thesis
    using assms(1) by (auto simp: apply_new_trade_def performance_inv_def ebind_eq_Inr)
qed

lemma stabilize_inv:
  assumes "stabilize_account_day kst c p = (p', r)" "performance_inv kst p"
  shows "performance_inv kst p' \<and> pf_trades p' = pf_trades p"
proof (cases "get_performance kst (cd_get c) p")
  case (Inl e)
  then show ?thesis using assms by (simp add: stabilize_account_day_def)
next
  case (Inr p1)
  note one = get_performance_inv [OF Inr assms(2)]
  show ?thesis
  proof (cases "get_performance kst (cd_get_again c) p1")
    case (Inl e)
    then show ?thesis using assms(1) one Inr by (auto simp: stabilize_account_day_def split: if_splits)
  next
    case two: (Inr p2)
    then show ?thesis
      using assms(1) one Inr get_performance_inv [OF two] by (auto simp: stabilize_account_day_def split: if_splits)
  qed
qed

text \<open>A candidate is the published history with one new trade.\<close>

definition candidate_ok :: "(int \<Rightarrow> int) \<Rightarrow> trade list \<Rightarrow> pending_publication \<Rightarrow> bool" where
  "candidate_ok kst ts pp \<longleftrightarrow>
     tr_order_id (pp_trade pp) \<notin> tr_order_id ` set ts \<and> history_inv (pp_history pp) \<and>
     th_trades (pp_history pp) = ts @ [pp_trade pp] \<and> performance_inv kst (pp_performance pp) \<and>
     pf_trades (pp_performance pp) = ts @ [pp_trade pp]"

text \<open>
  The disk holds the published trades in order, and at most the trade of the one pending candidate
  after them.
\<close>

definition publication_inv :: "(int \<Rightarrow> int) \<Rightarrow> publication \<Rightarrow> trade list \<Rightarrow> bool" where
  "publication_inv kst st disk \<longleftrightarrow>
     (let ts = th_trades (pb_history st) in
      history_inv (pb_history st) \<and> performance_inv kst (pb_performance st) \<and>
      pf_trades (pb_performance st) = ts \<and>
      (if pb_pending st = Map.empty then disk = ts
       else \<exists>pp. pb_pending st = [tr_order_id (pp_trade pp) \<mapsto> pp] \<and> candidate_ok kst ts pp \<and>
              (disk = ts \<or> disk = ts @ [pp_trade pp])))"

lemma save_candidate:
  assumes "tr_order_id t \<notin> tr_order_id ` set ts" "disk = ts \<or> disk = ts @ [t]"
    "save_trade outcome t disk = (disk', r)"
  shows "disk' = ts \<or> disk' = ts @ [t]" and "r = Inr () \<Longrightarrow> disk' = ts @ [t]"
proof -
  have none: "find (\<lambda>e. tr_order_id e = tr_order_id t) ts = None"
    using assms(1) by (auto simp: find_None_iff image_iff)
  have some: "find (\<lambda>e. tr_order_id e = tr_order_id t) (ts @ [t]) = Some t"
    using assms(1) by (induction ts) auto
  from assms(2) have "(disk' = ts \<or> disk' = ts @ [t]) \<and> (r = Inr () \<longrightarrow> disk' = ts @ [t])"
  proof
    assume "disk = ts"
    then show ?thesis
      using assms(3) none by (cases outcome) (auto simp: save_trade_def on_disk_def)
  next
    assume "disk = ts @ [t]"
    then show ?thesis
      using assms(3) some by (cases outcome) (auto simp: save_trade_def on_disk_def)
  qed
  then show "disk' = ts \<or> disk' = ts @ [t]" "r = Inr () \<Longrightarrow> disk' = ts @ [t]" by blast+
qed

lemma publish_candidate_inv:
  assumes "history_inv (pb_history st)" "performance_inv kst (pb_performance st)"
    "pf_trades (pb_performance st) = th_trades (pb_history st)"
    "candidate_ok kst (th_trades (pb_history st)) pp"
    "pb_pending st = Map.empty \<or> pb_pending st = [tr_order_id (pp_trade pp) \<mapsto> pp]"
    "disk = th_trades (pb_history st) \<or> disk = th_trades (pb_history st) @ [pp_trade pp]"
    "publish_candidate kst c outcome pp st disk = (st', disk', r)"
  shows "publication_inv kst st' disk'"
    and "\<forall>t. r = Inr t \<longrightarrow> th_trades (pb_history st') = th_trades (pb_history st) @ [t] \<and> t = pp_trade pp"
proof -
  note cand = assms(4) [unfolded candidate_ok_def]
  define key ts where "key = tr_order_id (pp_trade pp)" and "ts = th_trades (pb_history st)"
  obtain saved where save: "save_trade outcome (pp_trade pp) disk = (disk', saved)"
    using assms(7) by (auto simp: publish_candidate_def Let_def split: prod.splits sum.splits)
  have fresh: "tr_order_id (pp_trade pp) \<notin> tr_order_id ` set ts" using cand by (simp add: ts_def)
  have disk: "disk' = ts \<or> disk' = ts @ [pp_trade pp]" "saved = Inr () \<Longrightarrow> disk' = ts @ [pp_trade pp]"
    using save_candidate [OF fresh assms(6) [folded ts_def] save] by blast+
  obtain p s where stab: "stabilize_account_day kst c (pp_performance pp) = (p, s)" by fastforce
  have p: "performance_inv kst p" "pf_trades p = ts @ [pp_trade pp]"
    using stabilize_inv [OF stab] cand by (simp_all add: ts_def)
  have pend: "(pb_pending st)(key \<mapsto> q) = [key \<mapsto> q]" "(pb_pending st)(key := None) = Map.empty" for q
    using assms(5) by (auto simp: key_def)
  have fail: "publication_inv kst (st\<lparr>pb_pending := [key \<mapsto> q]\<rparr>) disk'"
    if "candidate_ok kst ts q" "pp_trade q = pp_trade pp" for q
  proof -
    have "[key \<mapsto> q] = [tr_order_id (pp_trade q) \<mapsto> q]" by (simp add: key_def that(2))
    then show ?thesis
      using that assms(1-3) disk(1) by (auto simp: publication_inv_def Let_def ts_def intro!: exI [of _ q])
  qed
  have "publication_inv kst st' disk' \<and>
    (\<forall>t. r = Inr t \<longrightarrow> th_trades (pb_history st') = ts @ [t] \<and> t = pp_trade pp)"
  proof (cases saved)
    case (Inl e)
    then have "st' = st\<lparr>pb_pending := [key \<mapsto> pp]\<rparr>" "r = Inl e"
      using assms(7) by (simp_all add: publish_candidate_def Let_def save pend key_def [symmetric])
    then show ?thesis using fail [of pp] assms(4) by (simp add: ts_def)
  next
    case (Inr u)
    show ?thesis
    proof (cases s)
      case failed: (Inl e)
      then have "st' = st\<lparr>pb_pending := [key \<mapsto> pp\<lparr>pp_performance := p\<rparr>]\<rparr>" "r = Inl e"
        using assms(7) Inr by (simp_all add: publish_candidate_def Let_def save stab pend key_def [symmetric])
      moreover have "candidate_ok kst ts (pp\<lparr>pp_performance := p\<rparr>)"
        using cand p by (simp add: candidate_ok_def ts_def)
      ultimately show ?thesis using fail [of "pp\<lparr>pp_performance := p\<rparr>"] by simp
    next
      case stable: (Inr v)
      then have "st' = st\<lparr>pb_history := pp_history pp, pb_performance := p, pb_pending := Map.empty\<rparr>"
        "r = Inr (pp_trade pp)"
        using assms(7) Inr by (simp_all add: publish_candidate_def Let_def save stab pend key_def [symmetric])
      then show ?thesis
        using cand p disk(2) Inr by (auto simp: publication_inv_def Let_def ts_def)
    qed
  qed
  then show "publication_inv kst st' disk'"
    "\<forall>t. r = Inr t \<longrightarrow> th_trades (pb_history st') = th_trades (pb_history st) @ [t] \<and> t = pp_trade pp"
    by (simp_all add: ts_def)
qed

lemma publish_completed_inv:
  assumes "publication_inv kst st disk"
    "publish_completed_trade kst c outcome t st disk = (st', disk', r)"
  shows "publication_inv kst st' disk'"
    and "\<forall>u. r = Inr u \<longrightarrow> tr_order_id u = tr_order_id t \<and> u \<in> set (th_trades (pb_history st'))"
proof -
  define ts where "ts = th_trades (pb_history st)"
  have inv: "history_inv (pb_history st)" "performance_inv kst (pb_performance st)"
    "pf_trades (pb_performance st) = ts" "pb_pending st = Map.empty \<Longrightarrow> disk = ts"
    using assms(1) by (simp_all add: publication_inv_def Let_def ts_def)
  obtain h0 where h0: "make_history ts = Inr h0" "history_inv h0" "th_trades h0 = ts"
    using make_history_distinct [of ts] inv(1) by (auto simp: history_inv_def ts_def)
  have "publication_inv kst st' disk' \<and>
    (\<forall>u. r = Inr u \<longrightarrow> tr_order_id u = tr_order_id t \<and> u \<in> set (th_trades (pb_history st')))"
  proof (cases "pb_pending st = Map.empty")
    case False
    then show ?thesis using assms by (auto simp: publish_completed_trade_def)
  next
    case empty: True
    show ?thesis
      using h0(2)
    proof (cases rule: add_trade_cases [where t = t])
      case (conflict e)
      then show ?thesis using assms empty h0
        by (auto simp: publish_completed_trade_def Let_def ts_def [symmetric])
    next
      case (known e)
      then obtain u where u: "find (\<lambda>e. tr_order_id e = tr_order_id t) ts = Some u"
        using h0(3) by (cases "find (\<lambda>e. tr_order_id e = tr_order_id t) ts") (auto simp: find_None_iff)
      then have "tr_order_id u = tr_order_id t" "u \<in> set ts"
        by (auto simp: find_Some_iff)
      moreover have "st' = st" "disk' = disk" "r = Inr u"
        using assms(2) empty h0 known(4) u
        by (simp_all add: publish_completed_trade_def Let_def ts_def [symmetric])
      ultimately show ?thesis using assms(1) by (simp add: ts_def)
    next
      case (new h)
      show ?thesis
      proof (cases "ebind (make_performance kst (cd_load c) ts) (apply_new_trade kst (cd_apply c) t)")
        case (Inl e)
        then show ?thesis using assms empty h0 new
          by (auto simp: publish_completed_trade_def Let_def ts_def [symmetric])
      next
        case (Inr p)
        have fresh: "tr_order_id t \<notin> tr_order_id ` set ts" using new(1) h0(3) by simp
        obtain p0 where p0: "make_performance kst (cd_load c) ts = Inr p0"
          "apply_new_trade kst (cd_apply c) t p0 = Inr p" using Inr by (auto simp: ebind_eq_Inr)
        have "performance_inv kst p \<and> pf_trades p = ts @ [t]"
          using apply_new_trade_inv [OF p0(2)] make_performance_inv [OF p0(1)] fresh by simp
        then have cand: "candidate_ok kst ts \<lparr>pp_trade = t, pp_history = h, pp_performance = p\<rparr>"
          using new fresh h0(3) by (simp add: candidate_ok_def)
        have pub: "publish_candidate kst c outcome
            \<lparr>pp_trade = t, pp_history = h, pp_performance = p\<rparr> st disk = (st', disk', r)"
          using assms(2) empty h0 new Inr by (simp add: publish_completed_trade_def Let_def ts_def [symmetric])
        show ?thesis
          using publish_candidate_inv [OF inv(1,2) inv(3) [unfolded ts_def] cand [unfolded ts_def] _ _ pub]
            empty inv(4) by (auto simp: ts_def)
      qed
    qed
  qed
  then show "publication_inv kst st' disk'"
    "\<forall>u. r = Inr u \<longrightarrow> tr_order_id u = tr_order_id t \<and> u \<in> set (th_trades (pb_history st'))" by blast+
qed

lemma record_inv:
  assumes "publication_inv kst st disk"
    "record_order_execution kst c outcome od s cost st disk = (st', disk', r)"
  shows "publication_inv kst st' disk'"
  using assms publish_completed_inv(1)
  by (auto simp: record_order_execution_def split: if_splits sum.splits)

lemma external_inv:
  assumes "publication_inv kst st disk"
    "record_reconciled_external_trade kst c outcome t st disk = (st', disk', r)"
  shows "publication_inv kst st' disk'"
  using assms publish_completed_inv(1)
  by (auto simp: record_reconciled_external_trade_def split: if_splits)

lemma retry_inv:
  assumes "publication_inv kst st disk"
    "retry_pending_persistence kst c outcome key st disk = (st', disk', r)"
  shows "publication_inv kst st' disk'"
proof (cases "pb_pending st key")
  case None
  then show ?thesis using assms by (auto simp: retry_pending_persistence_def split: if_splits)
next
  case (Some q)
  then have ne: "pb_pending st \<noteq> Map.empty" by auto
  define ts where "ts = th_trades (pb_history st)"
  obtain pp where pp: "pb_pending st = [tr_order_id (pp_trade pp) \<mapsto> pp]" "candidate_ok kst ts pp"
    "disk = ts \<or> disk = ts @ [pp_trade pp]"
    and inv: "history_inv (pb_history st)" "performance_inv kst (pb_performance st)"
      "pf_trades (pb_performance st) = ts"
    using assms(1) ne by (auto simp: publication_inv_def Let_def ts_def)
  have "q = pp" using Some pp(1) by (simp split: if_splits)
  then have "st' = st \<and> disk' = disk \<or> publish_candidate kst c outcome pp st disk = (st', disk', r)"
    using assms(2) Some by (auto simp: retry_pending_persistence_def split: if_splits)
  then show ?thesis
    using publish_candidate_inv(1) [OF inv(1,2) inv(3) [unfolded ts_def] pp(2) [unfolded ts_def] _
        pp(3) [unfolded ts_def]] pp(1) assms(1) by blast
qed

lemma publication_run_inv: "publication_run kst st disk \<Longrightarrow> publication_inv kst st disk"
proof (induction rule: publication_run.induct)
  case (loaded disk day st c st')
  obtain h where h: "make_history disk = Inr h" "history_inv h" "th_trades h = disk"
    by (rule make_history_distinct [OF loaded(1)])
  have "pb_pending st = Map.empty" using loaded(2) by (auto simp: initial_publication_def ebind_eq_Inr)
  with h loaded(3) obtain p where "make_performance kst (cd_load c) disk = Inr p"
    "st' = st\<lparr>pb_history := h, pb_performance := p\<rparr>" "pb_pending st = Map.empty"
    by (auto simp: load_trade_history_def split: sum.splits)
  then show ?case using h make_performance_inv [of kst "cd_load c" disk p]
    by (simp add: publication_inv_def Let_def)
qed (blast intro: record_inv external_inv retry_inv)+

end
