(* ===== verification/Residual_Ledger.thy ===== *)
theory Residual_Ledger
  imports Position_Ledger "HOL-Library.Product_Lexorder"
begin

text \<open>
  The ledger of ETH that a sale could not sell because it is less than one order step
  (\<open>domain/trading/residual.py\<close> and \<open>application/residual_settlement.py\<close>).  The settlement replays the
  durable trades and transfers, checks that the live position agrees with the replay, saves a
  transfer bound to the history by a digest, and only then closes the position.  The SHA-256 digest
  of the serialised trades is the parameter \<open>digest\<close>; the file is the list of the saved transfers.
\<close>

section \<open>Transfers\<close>

record residual_transfer =
  rs_history_count :: int
  rs_history_sha256 :: string
  rs_quantity :: decimal
  rs_cost_basis :: decimal
  rs_step_size :: decimal

definition is_hex :: "char \<Rightarrow> bool" where
  "is_hex c \<longleftrightarrow> (let n = (of_char c :: nat) in is_digit c \<or> (97 \<le> n \<and> n \<le> 102))"

definition make_transfer :: "residual_transfer \<Rightarrow> residual_transfer res" where
  "make_transfer r =
     (if 2 \<le> rs_history_count r \<and> length (rs_history_sha256 r) = 64 \<and>
         list_all is_hex (rs_history_sha256 r) \<and> positive (rs_quantity r) \<and>
         positive (rs_cost_basis r) \<and> positive (rs_step_size r) \<and>
         \<not> dle (rs_step_size r) (rs_quantity r)
      then Inr r else Inl ValueError)"

section \<open>The settlement\<close>

record settlement =
  sl_transfers :: "residual_transfer list"
  sl_consumptions :: "(int \<times> decimal \<times> decimal) list"
  sl_open_base_fee :: bool

definition new_settlement :: settlement where
  "new_settlement = \<lparr>sl_transfers = [], sl_consumptions = [], sl_open_base_fee = False\<rparr>"

definition residual_events :: "settlement \<Rightarrow> (int \<times> decimal \<times> decimal) list" where
  "residual_events st =
     map (\<lambda>e. (rs_history_count e, rs_quantity e, rs_cost_basis e)) (sl_transfers st) @
     map (\<lambda>(n, q, c). (n, minus_at 34 q, minus_at 34 c)) (sl_consumptions st)"

fun add_events :: "(int \<times> decimal \<times> decimal) list \<Rightarrow> decimal \<times> decimal \<Rightarrow> (decimal \<times> decimal) res" where
  "add_events [] acc = Inr acc"
| "add_events ((n, q, c) # es) acc =
     ebind (add_at 34 (fst acc) q) (\<lambda>q'. ebind (add_at 34 (snd acc) c) (\<lambda>c'. add_events es (q', c')))"

definition totals :: "settlement \<Rightarrow> (decimal \<times> decimal) res" where
  "totals st =
     add_events (sort_key (\<lambda>(n, q, c). (n, dval q, dval c)) (residual_events st)) (dzero, dzero)"

definition apply_external_trade ::
  "position \<Rightarrow> trade \<Rightarrow> int \<Rightarrow> settlement \<Rightarrow> (position \<times> settlement) res" where
  "apply_external_trade p t nth_trade st =
     (if tr_schema_version t \<noteq> 4 \<or> tr_exit_reason t \<noteq> Some EXTERNAL_MANUAL \<or> tr_side t \<noteq> SELL
      then Inl ValueError
      else
        ebind (totals st) (\<lambda>(tq, tc).
        ebind (add_at 34 (pl_quantity (pn_state p)) tq) (\<lambda>available.
        if dlt available (tr_requested_quantity t) then Inl ValueError
        else
          ebind (allocate_external_residual (pl_quantity (pn_state p)) (tr_executed_quantity t) tq tc)
            (\<lambda>(q, c).
          ebind (apply_historical_trade t q c p) (\<lambda>p'.
          Inr (p', if deq q dzero then st
                   else st\<lparr>sl_consumptions := sl_consumptions st @ [(nth_trade, q, c)]\<rparr>))))))"

section \<open>Replay\<close>

text \<open>\<open>x // y\<close> truncates; a quotient of more than 34 digits is refused.\<close>

definition floor_div_at :: "nat \<Rightarrow> decimal \<Rightarrow> decimal \<Rightarrow> decimal res" where
  "floor_div_at p x y =
     (if \<not> is_finite x \<or> \<not> is_finite y then Inl InvalidOperation
      else if dval y = 0 then Inl (if dval x = 0 then InvalidOperation else DivisionByZero)
      else let q = dval x / dval y; k = (if q < 0 then - \<lfloor>- q\<rfloor> else \<lfloor>q\<rfloor>) in
        if \<bar>k\<bar> < 10 ^ p then Inr (dec_of (is_signed x \<noteq> is_signed y) (of_int k)) else Inl InvalidOperation)"

definition external_full_step :: "trade \<Rightarrow> decimal \<Rightarrow> decimal option \<Rightarrow> bool res" where
  "external_full_step t previous step =
     (case step of
        None \<Rightarrow> Inr False
      | Some y \<Rightarrow>
          if tr_exit_reason t = Some EXTERNAL_MANUAL \<and> dlt dzero y \<and>
             deq (tr_requested_quantity t) (tr_executed_quantity t)
          then ebind (floor_div_at 34 previous y) (\<lambda>k. ebind (mul_at 34 k y) (\<lambda>whole.
               Inr (deq (tr_executed_quantity t) whole)))
          else Inr False)"

record replay =
  rp_position :: position
  rp_settlement :: settlement
  rp_fee_seen :: bool
  rp_eligible :: bool

definition sees_base_fee :: "trade \<Rightarrow> bool res" where
  "sees_base_fee t =
     (if tr_side t \<noteq> BUY then Inr False else ebind (tr_base_fee_amount t) (\<lambda>b. Inr (dlt dzero b)))"

definition replay_trade :: "trade \<Rightarrow> int \<Rightarrow> position \<Rightarrow> settlement \<Rightarrow> (position \<times> settlement) res" where
  "replay_trade t nth_trade p st =
     (if tr_exit_reason t = Some EXTERNAL_MANUAL then apply_external_trade p t nth_trade st
      else ebind (apply_historical_trade t dzero dzero p) (\<lambda>p'. Inr (p', st)))"

definition restore_step ::
  "(trade list \<Rightarrow> string) \<Rightarrow> trade list \<Rightarrow> (int \<rightharpoonup> residual_transfer) \<Rightarrow> decimal option \<Rightarrow> int \<Rightarrow> trade \<Rightarrow>
   replay \<Rightarrow> replay res" where
  "restore_step digest prefix entries current_step nth_trade t rp =
     (let previous = pl_quantity (pn_state (rp_position rp)); entry = entries nth_trade;
          step = (case entry of Some e \<Rightarrow> Some (rs_step_size e) | None \<Rightarrow> current_step) in
      ebind (sees_base_fee t) (\<lambda>fee.
      let fee_seen = (fee \<or> (rp_fee_seen rp \<and> \<not> deq previous dzero)) in
      ebind (external_full_step t previous step) (\<lambda>full.
      let eligible = (tr_side t = SELL \<and> fee_seen \<and> (deq (tr_requested_quantity t) previous \<or> full)) in
      ebind (replay_trade t nth_trade (rp_position rp) (rp_settlement rp)) (\<lambda>(p, st).
      case entry of
        None \<Rightarrow> Inr \<lparr>rp_position = p, rp_settlement = st, rp_fee_seen = fee_seen, rp_eligible = eligible\<rparr>
      | Some e \<Rightarrow>
          if \<not> eligible \<or> rs_history_sha256 e \<noteq> digest prefix then Inl ValueError
          else
            ebind (detach_residual (rs_quantity e) (rs_cost_basis e) (rs_step_size e) p) (\<lambda>p'.
            Inr \<lparr>rp_position = p',
                 rp_settlement = st\<lparr>sl_transfers := sl_transfers st @ [e]\<rparr>,
                 rp_fee_seen = fee_seen, rp_eligible = False\<rparr>)))))"

text \<open>\<open>before\<close> holds the trades replayed so far.\<close>

fun restore_loop ::
  "(trade list \<Rightarrow> string) \<Rightarrow> (int \<rightharpoonup> residual_transfer) \<Rightarrow> decimal option \<Rightarrow> trade list \<Rightarrow> trade list \<Rightarrow>
   replay \<Rightarrow> replay res" where
  "restore_loop digest entries step before [] rp = Inr rp"
| "restore_loop digest entries step before (t # ts) rp =
     ebind (restore_step digest (before @ [t]) entries step (int (length before) + 1) t rp)
       (restore_loop digest entries step (before @ [t]) ts)"

definition step_covers :: "decimal option \<Rightarrow> residual_transfer list \<Rightarrow> bool" where
  "step_covers step transfers \<longleftrightarrow>
     transfers = [] \<or>
     (case step of None \<Rightarrow> False
      | Some y \<Rightarrow> positive y \<and> list_all (\<lambda>e. \<not> dlt y (rs_step_size e)) transfers)"

definition restore ::
  "(trade list \<Rightarrow> string) \<Rightarrow> residual_transfer list \<Rightarrow> position \<Rightarrow> trade list \<Rightarrow> decimal option \<Rightarrow>
   settlement \<Rightarrow> (position \<times> settlement \<times> bool) res" where
  "restore digest stored p ts step st =
     (if \<not> step_covers step stored then Inl ValueError
      else if \<not> distinct (map rs_history_count stored) \<or>
              list_ex (\<lambda>e. int (length ts) < rs_history_count e) stored
      then Inl ValueError
      else
        ebind (restore_loop digest (map_of (map (\<lambda>e. (rs_history_count e, e)) stored)) step [] ts
          \<lparr>rp_position = p, rp_settlement = new_settlement, rp_fee_seen = False, rp_eligible = False\<rparr>)
          (\<lambda>rp.
        ebind (require_history_accounting_compatibility (rp_position rp)) (\<lambda>_.
        Inr (rp_position rp,
          st\<lparr>sl_transfers := stored, sl_consumptions := sl_consumptions (rp_settlement rp),
             sl_open_base_fee := rp_fee_seen rp \<and> dlt dzero (pl_quantity (pn_state (rp_position rp)))\<rparr>,
          rp_eligible rp))))"

section \<open>Settling\<close>

definition allows_rounding ::
  "(trade list \<Rightarrow> string) \<Rightarrow> residual_transfer list \<Rightarrow> position \<Rightarrow> trade list \<Rightarrow> decimal \<Rightarrow> decimal \<Rightarrow>
   settlement \<Rightarrow> (settlement \<times> bool) res" where
  "allows_rounding digest stored p ts submitted step st =
     ebind (restore digest stored new_position ts (Some step) st) (\<lambda>(q, st', _).
     let live = pn_state p; old = pn_state q in
     if \<not> (sl_open_base_fee st' \<and> deq (pl_quantity live) (pl_quantity old) \<and>
            deq (pl_cost_basis live) (pl_cost_basis old) \<and> dlt dzero submitted \<and>
            dlt submitted (pl_quantity live))
     then Inr (st', False)
     else ebind (sub_at 28 (pl_quantity live) submitted) (\<lambda>rest. Inr (st', dlt rest step)))"

text \<open>
  \<open>stored\<close> is the file before the call; the result has the file after it.  \<open>saved\<close> tells whether
  the storage confirmed a new line; where it raised, \<open>kept\<close> tells whether the line is in the file
  all the same.
\<close>

definition settle ::
  "(trade list \<Rightarrow> string) \<Rightarrow> bool \<Rightarrow> bool \<Rightarrow> residual_transfer list \<Rightarrow> position \<Rightarrow> trade list \<Rightarrow>
   decimal \<Rightarrow> settlement \<Rightarrow>
   position \<times> settlement \<times> residual_transfer list \<times> bool res" where
  "settle digest saved kept stored p ts step st =
     (case restore digest stored new_position ts (Some step) st of
        Inl e \<Rightarrow> (p, st, stored, Inl e)
      | Inr (q, st1, eligible) \<Rightarrow>
          if sl_transfers st1 \<noteq> [] \<and>
             rs_history_count (last (sl_transfers st1)) = int (length ts)
          then
            (if dlt dzero (pl_quantity (pn_state p))
             then let e = last (sl_transfers st1) in
               (case detach_residual (rs_quantity e) (rs_cost_basis e) (rs_step_size e) p of
                  Inl err \<Rightarrow> (p, st1, stored, Inl err)
                | Inr p' \<Rightarrow> (p', st1, stored, Inr True))
             else (p, st1, stored, Inr False))
          else if \<not> eligible \<or> \<not> is_finite step \<or> \<not> dlt dzero (pl_quantity (pn_state p)) \<or>
                  \<not> dlt (pl_quantity (pn_state p)) step
          then (p, st1, stored, Inr False)
          else if \<not> (deq (pl_quantity (pn_state p)) (pl_quantity (pn_state q)) \<and>
                     deq (pl_cost_basis (pn_state p)) (pl_cost_basis (pn_state q)))
          then (p, st1, stored, Inl ValueError)
          else
            (case make_transfer
                \<lparr>rs_history_count = int (length ts), rs_history_sha256 = digest ts,
                 rs_quantity = pl_quantity (pn_state p), rs_cost_basis = pl_cost_basis (pn_state p),
                 rs_step_size = step\<rparr> of
               Inl e \<Rightarrow> (p, st1, stored, Inl e)
             | Inr r \<Rightarrow>
                 if \<not> saved then (p, st1, if kept then stored @ [r] else stored, Inl OSError)
                 else
                   let st2 = st1\<lparr>sl_transfers := sl_transfers st1 @ [r]\<rparr> in
                   (case detach_residual (rs_quantity r) (rs_cost_basis r) (rs_step_size r) p of
                      Inl err \<Rightarrow> (p, st2, stored @ [r], Inl err)
                    | Inr p' \<Rightarrow> (p', st2, stored @ [r], Inr True))))"

section \<open>What settling does\<close>

lemma detach_residual_ok:
  assumes "position_inv p" "\<not> pn_legacy p" "positive quantity" "positive cost" "positive step"
    "\<not> dle step quantity" "deq (pl_quantity (pn_state p)) quantity" "deq (pl_cost_basis (pn_state p)) cost"
  shows "detach_residual quantity cost step p
      = Inr (p\<lparr>pn_state := closed_state supported_symbol (pl_exit_reason (pn_state p))\<rparr>)"
proof -
  have "pl_symbol (pn_state p) = supported_symbol"
    using assms(1) position_values(9) by (simp add: position_inv_def)
  then show ?thesis
    using assms(2-8) by (simp add: detach_residual_def require_history_accounting_compatibility_def
        closed_state_ok)
qed

text \<open>The position is touched only by a settlement that reports success.\<close>

lemma settle_untouched:
  "settle digest saved kept stored p ts step st = (p', st', stored', r) \<Longrightarrow> r \<noteq> Inr True \<Longrightarrow> p' = p"
  by (auto simp: settle_def Let_def split: sum.splits prod.splits if_splits)

text \<open>A settlement that succeeds has a transfer of the whole position in the file.\<close>

lemma settle_transfer:
  assumes "settle digest saved kept stored p ts step st = (p', st', stored', Inr True)"
  obtains r where "last stored' = r" "stored' = stored \<or> stored' = stored @ [r]" "stored' \<noteq> []"
    "rs_history_count r = int (length ts)" "deq (pl_quantity (pn_state p)) (rs_quantity r)"
    "deq (pl_cost_basis (pn_state p)) (rs_cost_basis r)" "\<not> dle (rs_step_size r) (rs_quantity r)"
    "pn_state p' = closed_state (pl_symbol (pn_state p)) (pl_exit_reason (pn_state p))"
proof -
  obtain q st1 el where res: "restore digest stored new_position ts (Some step) st = Inr (q, st1, el)"
    using assms by (auto simp: settle_def split: sum.splits)
  then have st1: "sl_transfers st1 = stored"
    by (auto simp: restore_def ebind_eq_Inr split: if_splits)
  have detached: "deq (pl_quantity (pn_state p)) x \<and> deq (pl_cost_basis (pn_state p)) y \<and> \<not> dle z x \<and>
      pn_state p' = closed_state (pl_symbol (pn_state p)) (pl_exit_reason (pn_state p))"
    if "detach_residual x y z p = Inr p'" for x y z
    using detach_residual_inv(2) [OF that] that by (auto simp: detach_residual_def split: if_splits)
  show ?thesis
  proof (cases "stored \<noteq> [] \<and> rs_history_count (last stored) = int (length ts)")
    case True
    then have "detach_residual (rs_quantity (last stored)) (rs_cost_basis (last stored))
        (rs_step_size (last stored)) p = Inr p'" "stored' = stored"
      using assms by (auto simp: settle_def res st1 Let_def split: if_splits sum.splits)
    then show ?thesis using detached True that by blast
  next
    case False
    then obtain r where r: "make_transfer
                \<lparr>rs_history_count = int (length ts), rs_history_sha256 = digest ts,
                 rs_quantity = pl_quantity (pn_state p), rs_cost_basis = pl_cost_basis (pn_state p),
                 rs_step_size = step\<rparr> = Inr r"
      "detach_residual (rs_quantity r) (rs_cost_basis r) (rs_step_size r) p = Inr p'"
      "stored' = stored @ [r]"
      using assms by (auto simp: settle_def res st1 Let_def split: if_splits sum.splits)
    then have "rs_history_count r = int (length ts)" by (auto simp: make_transfer_def split: if_splits)
    then show ?thesis using detached [OF r(2)] r(3) that by auto
  qed
qed

section \<open>Resuming a settlement\<close>

lemma restore_loop_append:
  "restore_loop digest E step before (xs @ ys) rp =
     ebind (restore_loop digest E step before xs rp) (restore_loop digest E step (before @ xs) ys)"
proof (induction xs arbitrary: before rp)
  case (Cons x xs)
  have "restore_loop digest E step (before @ [x]) (xs @ ys) =
      (\<lambda>r. ebind (restore_loop digest E step (before @ [x]) xs r)
        (restore_loop digest E step (before @ x # xs) ys))"
    using Cons.IH [of "before @ [x]"] by (intro ext) simp
  then show ?case by (simp add: ebind_assoc)
qed simp

text \<open>A transfer for a later trade does not change the replay.\<close>

lemma restore_loop_later:
  "int (length before + length ts) < n \<Longrightarrow>
   restore_loop digest (E(n := x)) step before ts rp = restore_loop digest E step before ts rp"
proof (induction ts arbitrary: before rp)
  case (Cons t ts)
  have "restore_step digest (before @ [t]) (E(n := x)) step (int (length before) + 1) t =
      restore_step digest (before @ [t]) E step (int (length before) + 1) t"
    using Cons.prems by (intro ext) (simp add: restore_step_def)
  moreover have "restore_loop digest (E(n := x)) step (before @ [t]) ts =
      restore_loop digest E step (before @ [t]) ts"
    using Cons.prems by (intro ext Cons.IH) simp
  ultimately show ?case by (simp only: restore_loop.simps)
qed simp

lemma replay_trade_inv:
  assumes "position_inv p" "replay_trade t n p st = Inr (p', st')"
  shows "position_inv p'"
  using assms historical_trade_inv
  by (auto simp: replay_trade_def apply_external_trade_def ebind_eq_Inr split: if_splits prod.splits)

definition fee_seen_after :: "bool \<Rightarrow> replay \<Rightarrow> bool" where
  "fee_seen_after fee rp \<longleftrightarrow> fee \<or> (rp_fee_seen rp \<and> \<not> deq (pl_quantity (pn_state (rp_position rp))) dzero)"

definition sold_all :: "bool \<Rightarrow> bool \<Rightarrow> trade \<Rightarrow> replay \<Rightarrow> bool" where
  "sold_all fee full t rp \<longleftrightarrow> tr_side t = SELL \<and> fee_seen_after fee rp \<and>
     (deq (tr_requested_quantity t) (pl_quantity (pn_state (rp_position rp))) \<or> full)"

lemma restore_stepE:
  assumes "restore_step digest pre E step n t rp = Inr rp'"
  obtains fee full p st where "sees_base_fee t = Inr fee"
    "external_full_step t (pl_quantity (pn_state (rp_position rp)))
       (case E n of Some e \<Rightarrow> Some (rs_step_size e) | None \<Rightarrow> step) = Inr full"
    "replay_trade t n (rp_position rp) (rp_settlement rp) = Inr (p, st)"
    "(E n = None \<and> rp' = \<lparr>rp_position = p, rp_settlement = st,
        rp_fee_seen = fee_seen_after fee rp, rp_eligible = sold_all fee full t rp\<rparr>) \<or>
     (\<exists>e p'. E n = Some e \<and> sold_all fee full t rp \<and> rs_history_sha256 e = digest pre \<and>
        detach_residual (rs_quantity e) (rs_cost_basis e) (rs_step_size e) p = Inr p' \<and>
        rp' = \<lparr>rp_position = p', rp_settlement = st\<lparr>sl_transfers := sl_transfers st @ [e]\<rparr>,
          rp_fee_seen = fee_seen_after fee rp, rp_eligible = False\<rparr>)"
proof -
  obtain fee full p st where main: "sees_base_fee t = Inr fee"
    "external_full_step t (pl_quantity (pn_state (rp_position rp)))
       (case E n of Some e \<Rightarrow> Some (rs_step_size e) | None \<Rightarrow> step) = Inr full"
    "replay_trade t n (rp_position rp) (rp_settlement rp) = Inr (p, st)"
    using assms by (auto simp: restore_step_def Let_def ebind_eq_Inr)
  show ?thesis
  proof (rule that [OF main], cases "E n")
    case None
    then show "(E n = None \<and> rp' = \<lparr>rp_position = p, rp_settlement = st,
        rp_fee_seen = fee_seen_after fee rp, rp_eligible = sold_all fee full t rp\<rparr>) \<or>
     (\<exists>e p'. E n = Some e \<and> sold_all fee full t rp \<and> rs_history_sha256 e = digest pre \<and>
        detach_residual (rs_quantity e) (rs_cost_basis e) (rs_step_size e) p = Inr p' \<and>
        rp' = \<lparr>rp_position = p', rp_settlement = st\<lparr>sl_transfers := sl_transfers st @ [e]\<rparr>,
          rp_fee_seen = fee_seen_after fee rp, rp_eligible = False\<rparr>)"
      using assms main by (simp add: restore_step_def Let_def sold_all_def fee_seen_after_def)
  next
    case (Some e)
    have "sold_all fee full t rp \<and> rs_history_sha256 e = digest pre"
      using assms main Some
      by (simp add: restore_step_def Let_def sold_all_def fee_seen_after_def split: if_splits)
    moreover obtain p' where
      "detach_residual (rs_quantity e) (rs_cost_basis e) (rs_step_size e) p = Inr p'"
      "rp' = \<lparr>rp_position = p', rp_settlement = st\<lparr>sl_transfers := sl_transfers st @ [e]\<rparr>,
          rp_fee_seen = fee_seen_after fee rp, rp_eligible = False\<rparr>"
      using assms main Some
      by (auto simp: restore_step_def Let_def ebind_eq_Inr fee_seen_after_def split: if_splits)
    ultimately show "(E n = None \<and> rp' = \<lparr>rp_position = p, rp_settlement = st,
        rp_fee_seen = fee_seen_after fee rp, rp_eligible = sold_all fee full t rp\<rparr>) \<or>
     (\<exists>e p'. E n = Some e \<and> sold_all fee full t rp \<and> rs_history_sha256 e = digest pre \<and>
        detach_residual (rs_quantity e) (rs_cost_basis e) (rs_step_size e) p = Inr p' \<and>
        rp' = \<lparr>rp_position = p', rp_settlement = st\<lparr>sl_transfers := sl_transfers st @ [e]\<rparr>,
          rp_fee_seen = fee_seen_after fee rp, rp_eligible = False\<rparr>)"
      using Some by blast
  qed
qed

lemma restore_step_inv:
  assumes "position_inv (rp_position rp)" "restore_step digest pre E step n t rp = Inr rp'"
  shows "position_inv (rp_position rp')"
  using assms(2)
proof (cases rule: restore_stepE)
  case (1 fee full p st)
  then show ?thesis using replay_trade_inv [OF assms(1) 1(3)] detach_residual_inv(1) by auto
qed

lemma restore_loop_inv:
  "position_inv (rp_position rp) \<Longrightarrow> restore_loop digest E step before ts rp = Inr rp' \<Longrightarrow>
   position_inv (rp_position rp')"
  by (induction ts arbitrary: before rp) (auto simp: ebind_eq_Inr dest: restore_step_inv)

lemma map_of_transfers:
  "n \<notin> rs_history_count ` set xs \<Longrightarrow> rs_history_count r = n \<Longrightarrow>
   map_of (map (\<lambda>e. (rs_history_count e, e)) (xs @ [r])) =
   (map_of (map (\<lambda>e. (rs_history_count e, e)) xs))(n := Some r)"
  by (induction xs) (auto simp: fun_eq_iff)

lemma restore_loop_eligible:
  assumes "restore_loop digest E step [] ts rp = Inr rp'" "rp_eligible rp'" "\<not> rp_eligible rp"
  shows "E (int (length ts)) = None" and "ts \<noteq> []"
proof -
  show ne: "ts \<noteq> []" using assms by auto
  then obtain us t where ts: "ts = us @ [t]" by (cases ts rule: rev_cases) auto
  obtain rp1 where "restore_step digest (us @ [t]) E step (int (length us) + 1) t rp1 = Inr rp'"
    using assms(1) unfolding ts restore_loop_append by (auto simp: ebind_eq_Inr)
  then show "E (int (length ts)) = None"
  proof (cases rule: restore_stepE)
    case (1 fee full p st)
    then show ?thesis using assms(2) by (auto simp: ts add.commute)
  qed
qed

text \<open>
  A transfer whose save was not confirmed but is in the file is found by the next settlement, which
  closes the position with it and adds no second one.
\<close>

lemma restore_resumed:
  assumes "restore digest stored new_position ts (Some step) st = Inr (q, st1, True)"
    "make_transfer r = Inr r" "rs_history_count r = int (length ts)" "rs_history_sha256 r = digest ts"
    "deq (pl_quantity (pn_state q)) (rs_quantity r)" "deq (pl_cost_basis (pn_state q)) (rs_cost_basis r)"
    "rs_step_size r = step"
  obtains q' st2 where "restore digest (stored @ [r]) new_position ts (Some step) st' = Inr (q', st2, False)"
    "sl_transfers st2 = stored @ [r]"
proof -
  define E where "E = map_of (map (\<lambda>e. (rs_history_count e, e)) stored)"
  define rp0 where "rp0 = \<lparr>rp_position = new_position, rp_settlement = new_settlement,
      rp_fee_seen = False, rp_eligible = False\<rparr>"
  obtain rp where chk: "step_covers (Some step) stored" "distinct (map rs_history_count stored)"
    "\<not> list_ex (\<lambda>e. int (length ts) < rs_history_count e) stored"
    and loop: "restore_loop digest E (Some step) [] ts rp0 = Inr rp" "rp_position rp = q" "rp_eligible rp"
    and compat: "\<not> pn_legacy q"
    using assms(1) unfolding restore_def E_def [symmetric] rp0_def [symmetric]
    by (auto simp: ebind_eq_Inr require_history_accounting_compatibility_def split: if_splits)
  have none: "E (int (length ts)) = None" and ne: "ts \<noteq> []"
    using restore_loop_eligible [OF loop(1,3)] by (simp_all add: rp0_def)
  then have new: "int (length ts) \<notin> rs_history_count ` set stored"
    unfolding E_def map_of_eq_None_iff by (simp add: image_image)
  define E' where "E' = E(int (length ts) := Some r)"
  have E': "map_of (map (\<lambda>e. (rs_history_count e, e)) (stored @ [r])) = E'"
    unfolding E'_def E_def using map_of_transfers [OF new assms(3)] by simp
  obtain us t where ts: "ts = us @ [t]" using ne by (cases ts rule: rev_cases) auto
  obtain rp1 where rp1: "restore_loop digest E (Some step) [] us rp0 = Inr rp1"
    "restore_step digest ts E (Some step) (int (length ts)) t rp1 = Inr rp"
    using loop(1) unfolding ts restore_loop_append by (auto simp: ebind_eq_Inr add.commute)
  have same: "restore_loop digest E' (Some step) [] us rp0 = Inr rp1"
    unfolding E'_def using rp1(1) by (subst restore_loop_later) (simp_all add: ts)
  have "position_inv (rp_position rp0)" by (simp add: rp0_def position_inv_new)
  then have inv: "position_inv q" using restore_loop_inv [OF _ loop(1)] loop(2) by blast
  obtain rp' where step: "restore_step digest ts E' (Some step) (int (length ts)) t rp1 = Inr rp'"
    "\<not> rp_eligible rp'" "\<not> pn_legacy (rp_position rp')"
    using rp1(2)
  proof (cases rule: restore_stepE)
    case (1 fee full p st)
    then have rp: "rp = \<lparr>rp_position = p, rp_settlement = st, rp_fee_seen = fee_seen_after fee rp1,
        rp_eligible = sold_all fee full t rp1\<rparr>" using none by simp
    have vals: "positive (rs_quantity r)" "positive (rs_cost_basis r)" "positive (rs_step_size r)"
      "\<not> dle (rs_step_size r) (rs_quantity r)"
      using assms(2) by (auto simp: make_transfer_def split: if_splits)
    have "p = q" using rp loop(2) by simp
    then have det: "detach_residual (rs_quantity r) (rs_cost_basis r) (rs_step_size r) p =
        Inr (p\<lparr>pn_state := closed_state supported_symbol (pl_exit_reason (pn_state p))\<rparr>)"
      using detach_residual_ok [OF inv compat vals assms(5,6)] by simp
    have sold: "sold_all fee full t rp1" using rp loop(3) by simp
    have "E' (int (length ts)) = Some r" by (simp add: E'_def)
    then have "restore_step digest ts E' (Some step) (int (length ts)) t rp1 =
        Inr \<lparr>rp_position = p\<lparr>pn_state := closed_state supported_symbol (pl_exit_reason (pn_state p))\<rparr>,
          rp_settlement = st\<lparr>sl_transfers := sl_transfers st @ [r]\<rparr>,
          rp_fee_seen = fee_seen_after fee rp1, rp_eligible = False\<rparr>"
      using 1(1-3) none det assms(4,7) sold
      by (simp add: restore_step_def Let_def sold_all_def fee_seen_after_def)
    then show ?thesis using that compat \<open>p = q\<close> by simp
  qed
  have "restore_loop digest E' (Some step) [] ts rp0 = Inr rp'"
    using same step(1) unfolding ts restore_loop_append by (simp add: add.commute)
  moreover have "step_covers (Some step) (stored @ [r])"
    using chk(1) assms(2,7) by (auto simp: step_covers_def make_transfer_def split: if_splits)
  moreover have "distinct (map rs_history_count (stored @ [r]))" using chk(2) new assms(3) by auto
  ultimately show ?thesis
    using chk(3) assms(3) step(2,3) that
    unfolding restore_def E' rp0_def [symmetric]
    by (auto simp: require_history_accounting_compatibility_def)
qed

lemma settle_resumes:
  assumes "position_inv p" "\<not> pn_legacy p"
    "settle digest False True stored p ts step st = (p1, st1, stored1, Inl OSError)" "stored1 \<noteq> stored"
  obtains p2 st2 where "settle digest saved kept stored1 p ts step st' = (p2, st2, stored1, Inr True)"
    "p1 = p" "pl_status (pn_state p2) = POSITION_CLOSED" "length stored1 = Suc (length stored)"
proof -
  define r where "r = \<lparr>rs_history_count = int (length ts), rs_history_sha256 = digest ts,
       rs_quantity = pl_quantity (pn_state p), rs_cost_basis = pl_cost_basis (pn_state p),
       rs_step_size = step\<rparr>"
  obtain q sq e where restored: "restore digest stored new_position ts (Some step) st = Inr (q, sq, e)"
    using assms(3,4) by (cases "restore digest stored new_position ts (Some step) st")
      (auto simp: settle_def)
  note settled = assms(3) [unfolded settle_def Let_def restored, folded r_def, simplified]
  have fresh: "\<not> (sl_transfers sq \<noteq> [] \<and> rs_history_count (last (sl_transfers sq)) = int (length ts))"
    using settled assms(4) by (auto split: if_splits sum.splits)
  have due: "e \<and> is_finite step \<and> dlt dzero (pl_quantity (pn_state p)) \<and> dlt (pl_quantity (pn_state p)) step"
    using settled assms(4) unfolding if_not_P [OF fresh] by (auto split: if_splits)
  have eq: "deq (pl_quantity (pn_state p)) (pl_quantity (pn_state q)) \<and>
      deq (pl_cost_basis (pn_state p)) (pl_cost_basis (pn_state q))"
    using settled assms(4) due unfolding if_not_P [OF fresh] by (auto split: if_splits)
  have checked: "make_transfer r = Inr r" and r: "stored1 = stored @ [r]" and p1: "p1 = p"
    using settled assms(4) due eq unfolding if_not_P [OF fresh]
    by (auto simp: make_transfer_def split: sum.splits if_splits)
  have res: "restore digest stored new_position ts (Some step) st = Inr (q, sq, True)"
    using restored due by simp
  have swap: "deq (pl_quantity (pn_state q)) (rs_quantity r)" "deq (pl_cost_basis (pn_state q)) (rs_cost_basis r)"
    using eq by (simp_all add: r_def deq_def)
  obtain q' s2 where res2: "restore digest stored1 new_position ts (Some step) st' = Inr (q', s2, False)"
    "sl_transfers s2 = stored1"
    using restore_resumed [OF res checked _ _ swap, of st'] r by (auto simp: r_def)
  have vals: "positive (rs_quantity r)" "positive (rs_cost_basis r)" "positive (rs_step_size r)"
    "\<not> dle (rs_step_size r) (rs_quantity r)"
    using checked by (auto simp: make_transfer_def split: if_splits)
  have "deq (pl_quantity (pn_state p)) (rs_quantity r)" "deq (pl_cost_basis (pn_state p)) (rs_cost_basis r)"
    using vals by (simp_all add: r_def deq_refl)
  note det = detach_residual_ok [OF assms(1,2) vals this]
  have "settle digest saved kept stored1 p ts step st' =
     (p\<lparr>pn_state := closed_state supported_symbol (pl_exit_reason (pn_state p))\<rparr>, s2, stored1, Inr True)"
    using res2 r due det by (simp add: settle_def Let_def r_def)
  then show ?thesis by (rule that) (use p1 r in \<open>simp_all add: closed_state_def\<close>)
qed

end
