(* ===== verification/Ledger_Samples.thy ===== *)
theory Ledger_Samples
  imports Sample_Inputs Buy_Risk Fill_Booking History_Publication Residual_Ledger
begin

text \<open>
  Concrete fills, orders, positions and trades at which the properties of the ledger are applied.
  An order buys 0.1 ETH at 3000 in two fills with fees in ETH; another sells what can be sold of it
  at 3100, in two fills with fees in USDT.
\<close>

section \<open>Decimal fractions\<close>

text \<open>A number with at most eight decimals is not rounded.\<close>

lemma round34_eight:
  assumes "r * 10 ^ 8 = of_int c" "\<bar>c\<bar> < 10 ^ 34"
  shows "round_sig 34 r = r"
proof (rule round_sig_exact [where c = c and e = "- 8"])
  show "r = of_int c * pow10 (- 8)" using assms(1) by (simp add: pow10_def field_simps)
qed (use assms(2) in simp_all)

lemma round34_ratio [simp]:
  assumes "(numeral m :: int) dvd numeral k * 10 ^ 8" "(numeral k :: int) < 10 ^ 26"
  shows "round_sig 34 (numeral k / numeral m) = numeral k / numeral m"
proof -
  from assms(1) obtain c where c: "(numeral k :: int) * 10 ^ 8 = numeral m * c" by (rule dvdE)
  show ?thesis
  proof (rule round34_eight [where c = c])
    have "(of_int (numeral k * 10 ^ 8) :: rat) = of_int (numeral m * c)" by (simp only: c)
    then show "(numeral k :: rat) / numeral m * 10 ^ 8 = of_int c" by (simp add: field_simps)
    have pos: "0 < numeral m * c" unfolding c [symmetric] by simp
    then have "0 < c" by (simp add: zero_less_mult_iff)
    then have "c * 1 \<le> c * numeral m" by (intro mult_left_mono) simp_all
    also have "\<dots> = numeral k * 10 ^ 8" using c by (simp only: mult.commute)
    also have "\<dots> < 10 ^ 26 * 10 ^ 8" using assms(2) by (rule mult_strict_right_mono) simp
    finally show "\<bar>c\<bar> < 10 ^ 34" using \<open>0 < c\<close> by simp
  qed
qed

lemma round34_numeral [simp]:
  "(numeral k :: int) < 10 ^ 26 \<Longrightarrow> round_sig 34 (numeral k) = numeral k"
  using round34_ratio [of num.One k] by simp

lemma round34_one [simp]: "round_sig 34 1 = 1"
  by (rule round34_eight [where c = "10 ^ 8"]) simp_all

lemma round34_unit_ratio [simp]:
  "(numeral m :: int) dvd 10 ^ 8 \<Longrightarrow> round_sig 34 (1 / numeral m) = 1 / numeral m"
  using round34_ratio [of m num.One] by simp

lemma sign_Fin [simp]: "positive (Fin r) \<longleftrightarrow> 0 < r" "non_negative (Fin r) \<longleftrightarrow> 0 \<le> r"
  unfolding positive_iff non_negative_iff by simp_all

section \<open>Fills\<close>

definition sample_fill :: "string \<Rightarrow> string \<Rightarrow> rat \<Rightarrow> rat \<Rightarrow> rat \<Rightarrow> string \<Rightarrow> rat \<Rightarrow> int \<Rightarrow> fill" where
  "sample_fill xid tid quantity price fee asset fee_quote t =
     \<lparr>fl_exchange_order_id = xid, fl_trade_id = tid, fl_quantity = Fin quantity, fl_price = Fin price,
      fl_fee_amount = Fin fee, fl_fee_asset = asset, fl_fee_quote_amount = Fin fee_quote,
      fl_executed_at = utc t, fl_fee_valuation = None\<rparr>"

definition first_fill :: fill where
  "first_fill = sample_fill ''77'' ''5'' (1 / 20) 3000 (1 / 40000) ''ETH'' (3 / 40) 1000000"

definition second_fill :: fill where
  "second_fill = sample_fill ''77'' ''6'' (1 / 20) 3000 (1 / 40000) ''ETH'' (3 / 40) 2000000"

definition third_fill :: fill where
  "third_fill = sample_fill ''78'' ''7'' (7 / 100) 3100 (217 / 1000) ''USDT'' (217 / 1000) 3000000"

definition fourth_fill :: fill where
  "fourth_fill = sample_fill ''78'' ''8'' (299 / 10000) 3100 (9269 / 100000) ''USDT'' (9269 / 100000) 4000000"

lemma sample_texts [simp]:
  "trimmed_text ''77''" "trimmed_text ''5''" "trimmed_text ''6''" "trimmed_text ''7''" "trimmed_text ''8''"
  "trimmed_text ''bat-1''" "trimmed_text ''bat-2''" "trimmed_text ''i1''" "trimmed_text ''i2''"
  "exchange_order_id_ok ''77''" "exchange_order_id_ok ''78''" "asset_code_ok ''ETH''"
  "asset_code_ok ''USDT''" "symbol_ok supported_symbol"
  by code_simp+

lemmas sample_fills = first_fill_def second_fill_def third_fill_def fourth_fill_def sample_fill_def

lemma sample_fills_ok [simp]:
  "fill_ok first_fill" "fill_ok second_fill" "fill_ok third_fill" "fill_ok fourth_fill"
  by (simp_all add: fill_ok_def check_fill_def check_quote_fee_def check_fee_def sample_fills
      calculate_product_def finite_arith dec_of_def)

lemma sample_keys:
  "fill_key first_fill = (''77'', ''5'')" "fill_key second_fill = (''77'', ''6'')"
  "fill_key third_fill = (''78'', ''7'')" "fill_key fourth_fill = (''78'', ''8'')"
  "fl_exchange_order_id first_fill = ''77''" "fl_exchange_order_id second_fill = ''77''"
  "fl_exchange_order_id third_fill = ''78''" "fl_exchange_order_id fourth_fill = ''78''"
  by (simp_all add: fill_key_def sample_fills)

definition sample_aggregate :: "rat \<Rightarrow> rat \<Rightarrow> rat \<Rightarrow> rat \<Rightarrow> string \<Rightarrow> rat \<Rightarrow> int \<Rightarrow> aggregate" where
  "sample_aggregate quantity amount average fee asset fee_quote t =
     \<lparr>ag_quantity = Fin quantity, ag_amount = Fin amount, ag_average_price = Fin average,
      ag_fee_amount = Fin fee, ag_fee_asset = asset, ag_fee_quote_amount = Fin fee_quote,
      ag_executed_at = utc t\<rparr>"

definition first_aggregate :: aggregate where
  "first_aggregate = sample_aggregate (1 / 20) 150 3000 (1 / 40000) ''ETH'' (3 / 40) 1000000"
definition bought_aggregate :: aggregate where
  "bought_aggregate = sample_aggregate (1 / 10) 300 3000 (1 / 20000) ''ETH'' (3 / 20) 2000000"
definition third_aggregate :: aggregate where
  "third_aggregate =
  sample_aggregate (7 / 100) 217 3100 (217 / 1000) ''USDT'' (217 / 1000) 3000000"
definition fourth_aggregate :: aggregate where
  "fourth_aggregate =
  sample_aggregate (299 / 10000) (9269 / 100) 3100 (9269 / 100000) ''USDT'' (9269 / 100000) 4000000"
definition sold_aggregate :: aggregate where
  "sold_aggregate =
  sample_aggregate (999 / 10000) (30969 / 100) 3100 (30969 / 100000) ''USDT'' (30969 / 100000) 4000000"

lemmas sample_aggregates = first_aggregate_def bought_aggregate_def third_aggregate_def
  fourth_aggregate_def sold_aggregate_def sample_aggregate_def

lemma sample_aggregate_fills:
  "aggregate_fills [first_fill] = Inr first_aggregate"
  "aggregate_fills [first_fill, second_fill] = Inr bought_aggregate"
  "aggregate_fills [third_fill] = Inr third_aggregate"
  "aggregate_fills [fourth_fill] = Inr fourth_aggregate"
  "aggregate_fills [third_fill, fourth_fill] = Inr sold_aggregate"
  by (simp_all add: aggregate_fills_def single_fee_asset_def fill_executed_amount_def
      calculate_product_def finite_arith dec_of_def sample_fills sample_aggregates max_moment_def utc_def)

section \<open>Orders\<close>

definition sample_result :: "string \<Rightarrow> string \<Rightarrow> order_status \<Rightarrow> fill list \<Rightarrow> int \<Rightarrow> order_result" where
  "sample_result client xid st fills t =
     \<lparr>os_symbol = supported_symbol, os_client_order_id = client, os_status = st,
      os_processed_at = utc t, os_exchange_order_id = Some xid, os_fills = fills,
      os_failure_reason = None, os_failure_kind = None, os_retry_after = None\<rparr>"

definition half_bought :: order_result where
  "half_bought = sample_result ''bat-1'' ''77'' PARTIALLY_FILLED [first_fill] 1000000"
definition all_bought :: order_result where
  "all_bought = sample_result ''bat-1'' ''77'' FILLED [first_fill, second_fill] 2000000"
definition part_sold :: order_result where
  "part_sold = sample_result ''bat-2'' ''78'' PARTIALLY_FILLED [third_fill] 3000000"
definition all_sold :: order_result where
  "all_sold = sample_result ''bat-2'' ''78'' FILLED [third_fill, fourth_fill] 4000000"

lemmas sample_results = half_bought_def all_bought_def part_sold_def all_sold_def sample_result_def

lemma sample_results_ok [simp]:
  "order_result_ok half_bought" "order_result_ok all_bought" "order_result_ok part_sold"
  "order_result_ok all_sold"
  by (simp_all add: order_result_ok_def failure_kind_ok_def sample_results sample_keys)

definition sample_intent ::
  "string \<Rightarrow> order_side \<Rightarrow> rat \<Rightarrow> rat \<Rightarrow> exit_reason option \<Rightarrow> order_intent" where
  "sample_intent n side requested submitted reason =
     \<lparr>oa_intent_id = ''i'' @ n, oa_client_order_id = ''bat-'' @ n, oa_submission_attempt = 0,
      oa_symbol = supported_symbol, oa_side = side, oa_strategy = CASE_B, oa_regime_type = TYPE_0,
      oa_requested_quantity = Fin requested, oa_submitted_quantity = Fin submitted,
      oa_market_price_at_decision = Fin 3000, oa_risk_policy_version = Some 1,
      oa_exit_reason = reason, oa_exit_pct_b_at_intent = None\<rparr>"

definition buy_intent :: order_intent where
  "buy_intent = sample_intent ''1'' BUY (1 / 10) (1 / 10) None"
definition sell_intent :: order_intent where
  "sell_intent = sample_intent ''2'' SELL (1999 / 20000) (999 / 10000) (Some STOP)"

lemma sample_intents_ok [simp]: "order_intent_ok buy_intent" "order_intent_ok sell_intent"
  by (simp_all add: order_intent_ok_def buy_intent_def sell_intent_def sample_intent_def)

definition sample_order :: "order_intent \<Rightarrow> order" where
  "sample_order i = order_intent.extend i
     \<lparr>oa_exchange_order_id = None, oa_status = None, oa_filled_quantity = dzero,
      oa_filled_amount = dzero, oa_fill_price = None, oa_fee_amount = dzero,
      oa_fee_asset = None, oa_fee_quote_amount = dzero, oa_processed_at = None, oa_fills = [],
      oa_failure_reason = None, oa_has_applied_result = False, oa_fills_by_key = [],
      oa_position_applied = {}\<rparr>"

lemma sample_create: "order_intent_ok i \<Longrightarrow> create_order i = Inr (sample_order i)"
  by (simp add: create_order_def sample_order_def)

definition half_buy :: order where
  "half_buy = commit_result half_bought PARTIALLY_FILLED
  [((''77'', ''5''), first_fill)] (Some first_aggregate) (sample_order buy_intent)"
definition full_buy :: order where
  "full_buy = commit_result all_bought FILLED
  [((''77'', ''5''), first_fill), ((''77'', ''6''), second_fill)] (Some bought_aggregate) half_buy"
definition part_sell :: order where
  "part_sell = commit_result part_sold PARTIALLY_FILLED
  [((''78'', ''7''), third_fill)] (Some third_aggregate) (sample_order sell_intent)"
definition full_sell :: order where
  "full_sell = commit_result all_sold FILLED
  [((''78'', ''7''), third_fill), ((''78'', ''8''), fourth_fill)] (Some sold_aggregate) part_sell"

text \<open>What the orders hold.\<close>

lemma new_orders:
  "oa_status (sample_order i) = None" "oa_fills_by_key (sample_order i) = []"
  "oa_exchange_order_id (sample_order i) = None" "\<not> oa_has_applied_result (sample_order i)"
  "oa_position_applied (sample_order i) = {}" "order_intent.truncate (sample_order i) = i"
  by (simp_all add: sample_order_def order_intent.defs)

lemma intent_fields:
  "oa_symbol (sample_order i) = oa_symbol i" "oa_client_order_id (sample_order i) = oa_client_order_id i"
  "oa_submitted_quantity (sample_order i) = oa_submitted_quantity i"
  by (simp_all add: sample_order_def order_intent.defs)

lemmas sample_orders = half_buy_def full_buy_def part_sell_def full_sell_def new_orders intent_fields
  buy_intent_def sell_intent_def sample_intent_def

lemma half_bought_step: "apply_result half_bought (sample_order buy_intent) = Inr half_buy"
  and all_bought_step: "apply_result all_bought half_buy = Inr full_buy"
  and part_sold_step: "apply_result part_sold (sample_order sell_intent) = Inr part_sell"
  and all_sold_step: "apply_result all_sold part_sell = Inr full_sell"
proof -
  have "validate_result_identity half_bought (sample_order buy_intent) = Inr ()"
    "validate_result_identity all_bought half_buy = Inr ()"
    "validate_result_identity part_sold (sample_order sell_intent) = Inr ()"
    "validate_result_identity all_sold part_sell = Inr ()"
    by (simp_all add: validate_result_identity_def sample_results sample_orders sample_keys)
  moreover have
    "merge_fills (oa_fills_by_key (sample_order buy_intent)) (os_fills half_bought)
       = Inr [((''77'', ''5''), first_fill)]"
    "merge_fills (oa_fills_by_key half_buy) (os_fills all_bought)
       = Inr [((''77'', ''5''), first_fill), ((''77'', ''6''), second_fill)]"
    "merge_fills (oa_fills_by_key (sample_order sell_intent)) (os_fills part_sold)
       = Inr [((''78'', ''7''), third_fill)]"
    "merge_fills (oa_fills_by_key part_sell) (os_fills all_sold)
       = Inr [((''78'', ''7''), third_fill), ((''78'', ''8''), fourth_fill)]"
    by (simp_all add: sample_results sample_orders sample_keys)
  moreover have
    "resolve_order_status (oa_status (sample_order i)) PARTIALLY_FILLED = Inr PARTIALLY_FILLED"
    "resolve_order_status (oa_status half_buy) FILLED = Inr FILLED"
    "resolve_order_status (oa_status part_sell) FILLED = Inr FILLED" for i
    by (simp_all add: resolve_order_status_def terminal_statuses_def active_statuses_def sample_orders)
  moreover have "oa_submitted_quantity (sample_order buy_intent) = Fin (1 / 10)"
    "oa_submitted_quantity half_buy = Fin (1 / 10)"
    "oa_submitted_quantity (sample_order sell_intent) = Fin (999 / 10000)"
    "oa_submitted_quantity part_sell = Fin (999 / 10000)"
    by (simp_all add: sample_orders)
  ultimately show "apply_result half_bought (sample_order buy_intent) = Inr half_buy"
    "apply_result all_bought half_buy = Inr full_buy"
    "apply_result part_sold (sample_order sell_intent) = Inr part_sell"
    "apply_result all_sold part_sell = Inr full_sell"
    by (simp_all add: apply_result_def sample_results checked_aggregate_def sample_aggregate_fills
        status_explained_def finite_arith sample_aggregates half_buy_def full_buy_def part_sell_def
        full_sell_def)
qed

section \<open>Rounded numbers\<close>

text \<open>A number whose 34 digits are known.\<close>

lemma round34_at:
  assumes "10 ^ 33 < k" "k < 10 ^ 34" "\<bar>r * 10 ^ n - of_int k\<bar> < 1 / 2"
  shows "round_sig 34 r = of_int k / 10 ^ n"
proof -
  define e where "e = - int n"
  have e: "pow10 e = 1 / 10 ^ n" by (simp add: e_def pow10_def)
  define x where "x = r / pow10 e"
  have x: "x = r * 10 ^ n" by (simp add: x_def e)
  have "10 ^ 33 + 1 \<le> k" "k \<le> 10 ^ 34 - 1" using assms(1,2) by simp_all
  then have "(of_int (10 ^ 33 + 1) :: rat) \<le> of_int k" "(of_int k :: rat) \<le> of_int (10 ^ 34 - 1)"
    by (simp_all only: of_int_le_iff)
  then have k: "10 ^ 33 + 1 \<le> (of_int k :: rat)" "of_int k \<le> (10 ^ 34 - 1 :: rat)" by simp_all
  have "10 ^ 33 < x" "x < 10 ^ 34" using k assms(3) unfolding x by linarith+
  then have r: "10 ^ 33 * pow10 e < r" "r < 10 ^ 34 * pow10 e" by (simp_all add: x_def field_simps)
  have "0 < 10 ^ 33 * pow10 e" by simp
  then have pos: "0 < r" using r(1) by linarith
  define s where "s = sig_exponent 34 r"
  have s: "10 ^ 33 * pow10 s \<le> r" "r < 10 ^ 34 * pow10 s"
    using sig_exponent_bounds [of r 34] pos by (simp_all add: s_def)
  have "10 ^ 33 * pow10 s < 10 ^ 34 * pow10 e" "10 ^ 33 * pow10 e < 10 ^ 34 * pow10 s"
    using r s by linarith+
  then have "pow10 s < pow10 (e + 1)" "pow10 e < pow10 (s + 1)" by (simp_all add: pow10_Suc)
  then have "s = e" using pow10_mono [of "e + 1" s] pow10_mono [of "s + 1" e] by linarith
  moreover have "round_half_even x = k"
  proof -
    have "\<bar>of_int (round_half_even x) - x\<bar> \<le> 1 / 2" by (rule round_half_even_error)
    then have "\<bar>of_int (round_half_even x) - of_int k :: rat\<bar> < 1" using assms(3) x by linarith
    then show ?thesis by linarith
  qed
  ultimately show ?thesis using pos by (simp add: round_sig_def s_def x_def e)
qed

text \<open>The numbers of a sale of 0.07 and 0.0299 out of 0.09995 ETH that cost 300.\<close>

lemma batch_roundings:
  "round_sig 34 (21 / (1999 / 20000)) = 2101050525262631315657828914457229 / 10 ^ 31"
  "round_sig 34 (300 - 2101050525262631315657828914457229 / 10 ^ 31)
     = 8989494747373686843421710855427710 / 10 ^ 32"
  "round_sig 34 (8989494747373686843421710855427710 / 10 ^ 32 * (299 / 10000))
     = 2687858929464732366183091545772885 / 10 ^ 33"
  "round_sig 34 (2687858929464732366183091545772885 / 10 ^ 33 / (599 / 20000))
     = 8974487243621810905452726363181586 / 10 ^ 32"
  "round_sig 34 (8989494747373686843421710855427710 / 10 ^ 32
     - 8974487243621810905452726363181586 / 10 ^ 32) = 1500750375187593796898449224612400 / 10 ^ 34"
  "round_sig 34 (2997 / 100 / (1999 / 20000)) = 2998499249624812406203101550775388 / 10 ^ 31"
  "round_sig 34 (300 - 2998499249624812406203101550775388 / 10 ^ 31)
     = 1500750375187593796898449224612000 / 10 ^ 34"
proof -
  show "round_sig 34 (21 / (1999 / 20000)) = 2101050525262631315657828914457229 / 10 ^ 31"
    using round34_at [where n = 31 and k = 2101050525262631315657828914457229 and r = "21 / (1999 / 20000)"] by simp
  show "round_sig 34 (300 - 2101050525262631315657828914457229 / 10 ^ 31)
     = 8989494747373686843421710855427710 / 10 ^ 32"
    using round34_at [where n = 32 and k = 8989494747373686843421710855427710
      and r = "300 - 2101050525262631315657828914457229 / 10 ^ 31"] by simp
  show "round_sig 34 (8989494747373686843421710855427710 / 10 ^ 32 * (299 / 10000))
     = 2687858929464732366183091545772885 / 10 ^ 33"
    using round34_at [where n = 33 and k = 2687858929464732366183091545772885
      and r = "8989494747373686843421710855427710 / 10 ^ 32 * (299 / 10000)"] by simp
  show "round_sig 34 (2687858929464732366183091545772885 / 10 ^ 33 / (599 / 20000))
     = 8974487243621810905452726363181586 / 10 ^ 32"
    using round34_at [where n = 32 and k = 8974487243621810905452726363181586
      and r = "2687858929464732366183091545772885 / 10 ^ 33 / (599 / 20000)"] by simp
  show "round_sig 34 (8989494747373686843421710855427710 / 10 ^ 32
     - 8974487243621810905452726363181586 / 10 ^ 32) = 1500750375187593796898449224612400 / 10 ^ 34"
    using round34_at [where n = 34 and k = 1500750375187593796898449224612400
      and r = "8989494747373686843421710855427710 / 10 ^ 32
        - 8974487243621810905452726363181586 / 10 ^ 32"] by simp
  show "round_sig 34 (2997 / 100 / (1999 / 20000)) = 2998499249624812406203101550775388 / 10 ^ 31"
    using round34_at [where n = 31 and k = 2998499249624812406203101550775388
      and r = "2997 / 100 / (1999 / 20000)"] by simp
  show "round_sig 34 (300 - 2998499249624812406203101550775388 / 10 ^ 31)
     = 1500750375187593796898449224612000 / 10 ^ 34"
    using round34_at [where n = 34 and k = 1500750375187593796898449224612000
      and r = "300 - 2998499249624812406203101550775388 / 10 ^ 31"] by simp
qed

section \<open>Runs and summaries\<close>

lemma sample_runs:
  "order_run buy_intent half_buy []" "order_run buy_intent full_buy []"
  "order_run sell_intent part_sell []" "order_run sell_intent full_sell []"
proof -
  have flags: "\<not> oa_has_applied_result (sample_order i)" "oa_has_applied_result half_buy"
    "oa_has_applied_result part_sell" for i by (simp_all add: sample_orders)
  show half: "order_run buy_intent half_buy []"
    using flags half_bought_step
    by (intro order_run.result [OF order_run.created [OF sample_create], where r = half_bought])
      (simp_all add: apply_order_result_def)
  show "order_run buy_intent full_buy []"
    using half all_bought_step flags(2)
    by (intro order_run.result [OF half, where r = all_bought]) (simp_all add: reapply_order_result_def)
  show part: "order_run sell_intent part_sell []"
    using flags part_sold_step
    by (intro order_run.result [OF order_run.created [OF sample_create], where r = part_sold])
      (simp_all add: apply_order_result_def)
  show "order_run sell_intent full_sell []"
    using part all_sold_step flags(3)
    by (intro order_run.result [OF part, where r = all_sold]) (simp_all add: reapply_order_result_def)
qed

definition bought_summary :: execution_summary where
  "bought_summary = make_summary full_buy ''77'' [first_fill, second_fill] bought_aggregate"
definition third_summary :: execution_summary where
  "third_summary = make_summary part_sell ''78'' [third_fill] third_aggregate"
definition fourth_summary :: execution_summary where
  "fourth_summary = make_summary full_sell ''78'' [fourth_fill] fourth_aggregate"
definition sold_summary :: execution_summary where
  "sold_summary = make_summary full_sell ''78'' [third_fill, fourth_fill] sold_aggregate"

lemma sample_fields:
  "oa_fills full_buy = [first_fill, second_fill]" "oa_exchange_order_id full_buy = Some ''77''"
  "oa_submitted_quantity full_buy = Fin (1 / 10)" "oa_status full_buy = Some FILLED"
  "oa_side full_buy = BUY" "oa_strategy full_buy = CASE_B" "oa_exit_reason full_buy = None"
  "oa_symbol full_buy = supported_symbol" "oa_requested_quantity full_buy = Fin (1 / 10)"
  "oa_fills full_sell = [third_fill, fourth_fill]" "oa_exchange_order_id full_sell = Some ''78''"
  "oa_submitted_quantity full_sell = Fin (999 / 10000)" "oa_status full_sell = Some FILLED"
  "oa_side full_sell = SELL" "oa_strategy full_sell = CASE_B" "oa_exit_reason full_sell = Some STOP"
  "oa_symbol full_sell = supported_symbol" "oa_requested_quantity full_sell = Fin (1999 / 20000)"
  "oa_fills part_sell = [third_fill]" "oa_exchange_order_id part_sell = Some ''78''"
  "oa_submitted_quantity part_sell = Fin (999 / 10000)" "oa_side part_sell = SELL"
  "oa_strategy part_sell = CASE_B" "oa_exit_reason part_sell = Some STOP"
  "oa_fills half_buy = [first_fill]" "oa_exchange_order_id half_buy = Some ''77''"
  "oa_status half_buy = Some PARTIALLY_FILLED" "oa_position_applied half_buy = {}"
  by (simp_all add: full_buy_def half_buy_def full_sell_def part_sell_def sample_results
      buy_intent_def sell_intent_def sample_intent_def sample_order_def order_intent.defs
      commit_result_def commit_aggregate_def Let_def)

lemma sample_summaries_ok [simp]:
  "summary_ok bought_summary" "summary_ok third_summary" "summary_ok fourth_summary"
  "summary_ok sold_summary"
proof -
  note inv = sample_runs [THEN order_run_inv]
  show "summary_ok bought_summary"
    unfolding bought_summary_def
    by (rule summary_of_fills [OF inv(2)])
      (simp_all add: sample_fields sample_aggregate_fills sample_aggregates sample_keys)
  show "summary_ok third_summary"
    unfolding third_summary_def
    by (rule summary_of_fills [OF inv(3)])
      (simp_all add: sample_fields sample_aggregate_fills sample_aggregates sample_keys)
  show "summary_ok fourth_summary"
    unfolding fourth_summary_def
    by (rule summary_of_fills [OF inv(4)])
      (simp_all add: sample_fields sample_aggregate_fills sample_aggregates sample_keys)
  show "summary_ok sold_summary"
    unfolding sold_summary_def
    by (rule summary_of_fills [OF inv(4)])
      (simp_all add: sample_fields sample_aggregate_fills sample_aggregates sample_keys)
qed

lemma sample_summary_fields:
  "es_side bought_summary = BUY" "es_strategy bought_summary = CASE_B"
  "es_executed_quantity bought_summary = Fin (1 / 10)" "es_executed_amount bought_summary = Fin 300"
  "es_executed_at bought_summary = utc 2000000"
  "base_fee_amount bought_summary = Inr (Fin (1 / 20000))"
  "non_base_fee_quote_amount bought_summary = Inr dzero"
  "es_side third_summary = SELL" "es_strategy third_summary = CASE_B"
  "es_executed_quantity third_summary = Fin (7 / 100)" "base_fee_amount third_summary = Inr dzero"
  "es_exit_reason third_summary = Some STOP"
  "es_side fourth_summary = SELL" "es_strategy fourth_summary = CASE_B"
  "es_executed_quantity fourth_summary = Fin (299 / 10000)" "base_fee_amount fourth_summary = Inr dzero"
  "es_side sold_summary = SELL" "es_strategy sold_summary = CASE_B"
  "es_executed_quantity sold_summary = Fin (999 / 10000)" "base_fee_amount sold_summary = Inr dzero"
  "es_executed_amount sold_summary = Fin (30969 / 100)"
  "es_fee_quote_amount sold_summary = Fin (30969 / 100000)"
  by (simp_all add: bought_summary_def third_summary_def fourth_summary_def sold_summary_def
      make_summary_def sample_fields sample_aggregates base_fee_amount_def base_fee_of_def
      non_base_fee_quote_amount_def non_base_fee_of_def sample_fills finite_arith dec_of_def)

section \<open>The position\<close>

text \<open>0.09995 ETH for 300 USDT.\<close>

lemma sample_position:
  obtains p where "apply_execution bought_summary new_position = Inr p" "position_inv p" "\<not> pn_legacy p"
    "pl_owner (pn_state p) = Some CASE_B" "pl_status (pn_state p) = POSITION_OPEN"
    "dval (pl_quantity (pn_state p)) = 1999 / 20000" "dval (pl_cost_basis (pn_state p)) = 300"
proof -
  have new: "\<not> pn_legacy new_position" "pl_owner (pn_state new_position) = None"
    "dval (pl_quantity (pn_state new_position)) = 0" "dval (pl_cost_basis (pn_state new_position)) = 0"
    by (simp_all add: new_position_def closed_state_def)
  show ?thesis
    by (rule buy_booked [OF position_inv_new new(1), of bought_summary "Fin (1 / 20000)" dzero])
      (use that new in \<open>simp_all add: sample_summary_fields\<close>)
qed

text \<open>The part of it that is sold first.\<close>

lemma sample_sale:
  assumes "position_inv p" "\<not> pn_legacy p" "pl_owner (pn_state p) = Some CASE_B"
    "dval (pl_quantity (pn_state p)) = 1999 / 20000"
  shows "sell_allowed third_summary p" "sell_allowed sold_summary p"
  using assms by (auto simp: sell_allowed_def sample_summary_fields)

end
