(* ===== verification/Ledger_Properties.thy ===== *)
theory Ledger_Properties
  imports Ledger_Samples
begin

text \<open>
  The properties of the ledger: the risk gate of a purchase, orders and their fills, the position,
  the booking of fills, the durable history and the settlement of remainders.
\<close>

section \<open>The risk gate\<close>

text \<open>
  C16.  A purchase without a policy is blocked.  With a policy the five gates are tried in their
  documented order (policy version, manual kill, order size, daily loss, position size), and the
  decision names the first that fails; when none fails the purchase is allowed.  The daily loss of
  the budget must be the one of the policy, or the evaluation raises instead of reaching the gate.
\<close>

theorem risk_gates_in_order:
  assumes "risk_policy_ok p" "check_risk_budget b = Inr u"
  defines "scoped \<equiv> (if rp_daily_loss_scope p = REALIZED_AND_UNREALIZED
      then round_sig 34 (dval (rb_daily_realized_pnl b) + dval (rb_unrealized_pnl b))
      else dval (rb_daily_realized_pnl b))"
  shows "evaluate_buy_risk RiskPolicyUnavailable b = Inr (blocked_decision b RISK_POLICY_UNAVAILABLE) \<and>
    evaluate_buy_risk (Configured p) b =
      (case List.find snd (take 3 (failed_gates p b)) of
         Some (reason, _) \<Rightarrow> Inr (blocked_decision b reason)
       | None \<Rightarrow>
           if dval (rb_daily_loss b) \<noteq> max 0 (round_sig 34 (- scoped)) then Inl ValueError
           else Inr (case List.find snd (failed_gates p b) of
               None \<Rightarrow> \<lparr>rd_allowed = True, rd_budget = b, rd_block_reason = None\<rparr>
             | Some (reason, _) \<Rightarrow> blocked_decision b reason))"
proof -
  have b: "budget_values_ok b" by (rule check_risk_budget_ok [OF assms(2)])
  then have fin: "is_finite (rb_daily_realized_pnl b)" "is_finite (rb_unrealized_pnl b)"
    "is_finite (rb_daily_loss b)" by (simp_all add: budget_values_ok_def)
  obtain l where l: "calculate_daily_loss (rp_daily_loss_scope p) (rb_daily_realized_pnl b)
      (rb_unrealized_pnl b) = Inr l" "is_finite l" "dval l = max 0 (round_sig 34 (- scoped))"
    using daily_loss_value [OF fin(1,2)] unfolding scoped_def by blast
  have deq: "deq (rb_daily_loss b) l \<longleftrightarrow> dval (rb_daily_loss b) = max 0 (round_sig 34 (- scoped))"
    using fin(3) l(2,3) by (simp add: deq_finite)
  have order: "exceeds (rb_candidate_order_notional b) (rp_max_order_notional p) \<longleftrightarrow>
      (\<exists>m. rp_max_order_notional p = Some m \<and> dval m < dval (rb_candidate_order_notional b))"
    using assms(1) b by (cases "rp_max_order_notional p")
      (auto simp: exceeds_def risk_policy_ok_def budget_values_ok_def)
  show ?thesis
  proof (cases "deq (rb_daily_loss b) l")
    case True
    note gates = evaluate_configured_gates [OF assms(1) b l(1) True]
    show ?thesis using True unfolding deq
      by (auto simp: evaluate_buy_risk_def gates failed_gates_def)
  next
    case False
    then show ?thesis unfolding deq
      by (auto simp: evaluate_buy_risk_def evaluate_configured_def failed_gates_def l(1) order
          deq_finite fin(3) l(2,3))
  qed
qed

definition sample_policy :: risk_policy where
  "sample_policy =
  \<lparr>rp_version = 1, rp_max_order_notional = Some (Fin 500), rp_max_position_notional = Some (Fin 900),
   rp_max_daily_loss = Some (Fin 50), rp_daily_loss_scope = REALIZED_AND_UNREALIZED,
   rp_manual_kill_behavior = BLOCK_NEW_ORDERS\<rparr>"
definition sample_budget :: "rat \<Rightarrow> risk_budget" where
  "sample_budget candidate =
  \<lparr>rb_policy_version = Some 1, rb_market_version = 3, rb_account_version = 4, rb_context_version = 5,
   rb_current_position_notional = Fin 300, rb_reserved_buy_notional = Fin 0,
   rb_candidate_order_notional = Fin candidate,
   rb_projected_position_notional = Fin (round_sig 34 (300 + candidate)),
   rb_daily_realized_pnl = Fin 15, rb_unrealized_pnl = Fin (- 25), rb_daily_loss = Fin 10,
   rb_manual_kill_active = False, rb_evaluated_at = None, rb_strategy_position_notional = None,
   rb_residual_position_notional = None, rb_remaining_position_notional = None,
   rb_requested_order_notional = None, rb_max_position_notional = None\<rparr>"

lemma round_minus_ten: "round_sig 34 (- 10) = - 10"
  by (rule round34_eight [where c = "- (10 ^ 9)"]) simp_all

lemma sample_policy_ok [simp]: "risk_policy_ok sample_policy"
  by (simp add: risk_policy_ok_def sample_policy_def)

lemma sample_budgets_ok [simp]:
  "check_risk_budget (sample_budget 400) = Inr ()" "check_risk_budget (sample_budget 700) = Inr ()"
  by (simp_all add: check_risk_budget_def budget_values_ok_def budget_options_ok_def
      check_projection_def check_breakdown_def check_remaining_def sample_budget_def finite_arith
      dec_of_def)

lemma sample_budget_fields:
  "dval (rb_daily_realized_pnl (sample_budget c)) = 15" "dval (rb_unrealized_pnl (sample_budget c)) = - 25"
  "dval (rb_daily_loss (sample_budget c)) = 10" "rb_policy_version (sample_budget c) = Some 1"
  "\<not> rb_manual_kill_active (sample_budget c)" "dval (rb_candidate_order_notional (sample_budget c)) = c"
  "dval (rb_projected_position_notional (sample_budget c)) = round_sig 34 (300 + c)"
  by (simp_all add: sample_budget_def)

theorem risk_gates_in_order_witness:
  "(\<exists>d. evaluate_buy_risk (Configured sample_policy) (sample_budget 400) = Inr d \<and> rd_allowed d) \<and>
   evaluate_buy_risk (Configured sample_policy) (sample_budget 700)
     = Inr (blocked_decision (sample_budget 700) RISK_ORDER_NOTIONAL_EXCEEDED)"
proof -
  show ?thesis
    using risk_gates_in_order [OF sample_policy_ok sample_budgets_ok(1)]
      risk_gates_in_order [OF sample_policy_ok sample_budgets_ok(2)]
    by (simp add: sample_budget_fields failed_gates_def sample_policy_def round_minus_ten)
qed

text \<open>
  A purchase that the gate allows stays within every limit of the policy: the policy and the
  budget have the same version, manual kill is off, the notional of the order is at most the limit,
  the loss of the day is below its limit, and the exact sum of position, reserved purchases and
  candidate exceeds the limit of the position by less than one part in \<open>10\<^sup>3\<^sup>3\<close>, which is the error of
  the two additions at 34 digits.
\<close>

theorem allowed_buy_within_limits:
  assumes "evaluate_buy_risk ps b = Inr d" "rd_allowed d" "check_risk_budget b = Inr u"
    "\<And>p. ps = Configured p \<Longrightarrow> risk_policy_ok p"
  shows "rd_budget d = b \<and> \<not> rb_manual_kill_active b \<and>
    (\<exists>p. ps = Configured p \<and> rb_policy_version b = Some (rp_version p) \<and>
       (\<forall>m. rp_max_order_notional p = Some m \<longrightarrow> dval (rb_candidate_order_notional b) \<le> dval m) \<and>
       (\<forall>m. rp_max_daily_loss p = Some m \<longrightarrow> dval (rb_daily_loss b) < dval m) \<and>
       (\<forall>m. rp_max_position_notional p = Some m \<longrightarrow>
          (dval (rb_current_position_notional b) + dval (rb_reserved_buy_notional b)
            + dval (rb_candidate_order_notional b)) * (1 - 1 / 10 ^ 33) \<le> dval m))"
proof -
  obtain p where p: "ps = Configured p" "rb_policy_version b = Some (rp_version p)"
    "\<not> rb_manual_kill_active b" "\<not> exceeds (rb_candidate_order_notional b) (rp_max_order_notional p)"
    "\<not> reaches (rb_daily_loss b) (rp_max_daily_loss p)"
    "\<not> exceeds (rb_projected_position_notional b) (rp_max_position_notional p)"
    by (rule allowed_gates [OF assms(1,2)])
  have b: "budget_values_ok b" by (rule check_risk_budget_ok [OF assms(3)])
  then have signs: "0 \<le> dval (rb_current_position_notional b)" "0 \<le> dval (rb_reserved_buy_notional b)"
    "0 \<le> dval (rb_candidate_order_notional b)" "is_finite (rb_candidate_order_notional b)"
    "is_finite (rb_daily_loss b)" "is_finite (rb_projected_position_notional b)"
    unfolding budget_values_ok_def non_negative_iff by simp_all
  have limits: "opt_all positive (rp_max_order_notional p)" "opt_all positive (rp_max_daily_loss p)"
    "opt_all positive (rp_max_position_notional p)"
    using assms(4) [OF p(1)] by (simp_all add: risk_policy_ok_def)
  have order: "dval (rb_candidate_order_notional b) \<le> dval m"
    if "rp_max_order_notional p = Some m" for m
    using p(4) limits(1) signs(4) that by (simp add: exceeds_def positive_iff)
  have loss: "dval (rb_daily_loss b) < dval m" if "rp_max_daily_loss p = Some m" for m
    using p(5) limits(2) signs(5) that by (simp add: reaches_def positive_iff)
  have position: "(dval (rb_current_position_notional b) + dval (rb_reserved_buy_notional b)
      + dval (rb_candidate_order_notional b)) * (1 - 1 / 10 ^ 33) \<le> dval m"
    if "rp_max_position_notional p = Some m" for m
  proof -
    have "dval (rb_projected_position_notional b) \<le> dval m"
      using p(6) limits(3) signs(6) that by (simp add: exceeds_def positive_iff)
    then show ?thesis
      unfolding projection_value [OF assms(3)] using round34_ge_twice signs(1-3)
      by (meson add_nonneg_nonneg order_trans)
  qed
  show ?thesis
    using p(1-3) order loss position evaluate_buy_risk_ok [OF assms(1)] by blast
qed

theorem allowed_buy_within_limits_witness:
  "\<exists>d. evaluate_buy_risk (Configured sample_policy) (sample_budget 400) = Inr d \<and>
     (700 :: rat) * (1 - 1 / 10 ^ 33) \<le> 900 \<and> dval (rb_candidate_order_notional (sample_budget 400)) \<le> 500"
proof -
  have "evaluate_buy_risk (Configured sample_policy) (sample_budget 400)
    = Inr \<lparr>rd_allowed = True, rd_budget = sample_budget 400, rd_block_reason = None\<rparr>"
    by (simp add: evaluate_buy_risk_def evaluate_configured_def sample_budget_def sample_policy_def
        exceeds_def reaches_def calculate_daily_loss_def finite_arith dec_of_def round_minus_ten)
  from allowed_buy_within_limits [OF this _ sample_budgets_ok(1)] show ?thesis
    using \<open>evaluate_buy_risk _ _ = _\<close> by (simp add: sample_policy_def sample_budget_def)
qed

section \<open>Orders and their fills\<close>

lemma order_fills_ok:
  assumes "order_inv od"
  shows "list_all fill_ok (oa_fills od)" "distinct (map fill_key (oa_fills od))"
proof -
  have k: "oa_fills od = map snd (oa_fills_by_key od)" "keyed (oa_fills_by_key od)"
    using assms unfolding order_inv_def by blast+
  show "distinct (map fill_key (oa_fills od))"
    using k(2) unfolding k(1) keyed_keys [OF k(2)] by (simp add: keyed_def)
  show "list_all fill_ok (oa_fills od)" using assms unfolding order_inv_def by blast
qed

lemma filled_is_total:
  assumes "order_inv od"
  shows "dval (oa_filled_quantity od) = total_quantity (oa_fills od)"
proof (cases "oa_fills od = []")
  case True
  then show ?thesis using assms by (simp add: order_inv_def aggregate_stored_def total_quantity_def)
next
  case False
  then obtain a where a: "aggregate_fills (oa_fills od) = Inr a" "oa_filled_quantity od = ag_quantity a"
    using assms by (auto simp: order_inv_def aggregate_stored_def)
  show ?thesis
    by (rule aggregate_fills_cases [OF order_fills_ok(1) [OF assms] False]) (use a in simp_all)
qed

text \<open>
  C17.  However results and fills arrived before, an accepted result of an order keeps its invariant
  and only moves it forward: the status never falls back in the order unknown, pending new, new,
  partially filled, pending cancel, terminal, a terminal status never changes, and the filled
  quantity never falls and never exceeds the submitted one.
\<close>

theorem order_status_progresses:
  assumes "order_run i od bs" "order_result_ok r"
    "apply_order_result r od = Inr od' \<or> reapply_order_result r od = Inr od'"
  shows "order_inv od' \<and> status_rank (oa_status od) \<le> status_rank (oa_status od') \<and>
    (order_is_terminal od \<longrightarrow> oa_status od' = oa_status od) \<and>
    dval (oa_filled_quantity od) \<le> dval (oa_filled_quantity od') \<and>
    dval (oa_filled_quantity od') \<le> dval (oa_submitted_quantity od)"
proof -
  have inv: "order_inv od" by (rule order_run_inv [OF assms(1)])
  have step: "apply_result r od = Inr od'" by (rule apply_result_steps [OF assms(3)])
  have inv': "order_inv od'" by (rule result_keeps_inv [OF inv assms(2) step])
  obtain d st agg where r: "resolve_order_status (oa_status od) (os_status r) = Inr st"
    "od' = commit_result r st d agg od"
    by (rule apply_resultE [OF step])
  obtain new where new: "oa_fills od' = oa_fills od @ new" by (rule result_appends [OF inv step])
  have "list_all fill_ok new" using order_fills_ok(1) [OF inv'] new by simp
  then have "dval (oa_filled_quantity od) \<le> dval (oa_filled_quantity od')"
    unfolding filled_is_total [OF inv] filled_is_total [OF inv'] new by (rule total_quantity_append)
  moreover have "dval (oa_filled_quantity od') \<le> dval (oa_submitted_quantity od)"
    using inv' by (simp add: order_inv_def r(2))
  moreover have "status_rank (oa_status od) \<le> status_rank (oa_status od')"
    using resolve_progress(1) [OF r(1)] by (simp add: r(2))
  moreover have "order_is_terminal od \<longrightarrow> oa_status od' = oa_status od"
    using resolve_progress(3) [OF r(1)] by (auto simp: r(2) order_is_terminal_def split: option.splits)
  ultimately show ?thesis using inv' by blast
qed

lemma half_buy_reapplied: "reapply_order_result all_bought half_buy = Inr full_buy"
proof -
  have "oa_has_applied_result half_buy" by (simp add: half_buy_def)
  then show ?thesis by (simp add: reapply_order_result_def all_bought_step)
qed

theorem order_status_progresses_witness:
  "order_inv full_buy \<and> status_rank (oa_status half_buy) \<le> status_rank (oa_status full_buy)"
  using order_status_progresses [OF sample_runs(1) sample_results_ok(2), of full_buy] half_buy_reapplied
  by blast

text \<open>
  A result that was applied once can be delivered again with no effect, whatever came before:
  the second delivery returns the very same order.
\<close>

theorem redelivery_changes_nothing:
  assumes "order_run i od bs" "order_result_ok r"
    "apply_order_result r od = Inr od' \<or> reapply_order_result r od = Inr od'"
  shows "reapply_order_result r od' = Inr od'"
proof -
  have inv: "order_inv od" by (rule order_run_inv [OF assms(1)])
  have step: "apply_result r od = Inr od'" by (rule apply_result_steps [OF assms(3)])
  have "oa_has_applied_result od'" by (rule apply_resultE [OF step]) simp
  then show ?thesis
    using apply_result_again [OF inv assms(2) step] by (simp add: reapply_order_result_def)
qed

theorem redelivery_changes_nothing_witness:
  "reapply_order_result all_bought full_buy = Inr full_buy"
  using redelivery_changes_nothing [OF sample_runs(1) sample_results_ok(2), of full_buy]
    half_buy_reapplied by blast

text \<open>
  C18.  Every fill reaches the position exactly once: in whatever order results arrive and batches
  of new fills are taken, the batches taken so far have distinct fills, and with the fills still
  waiting they are exactly the fills of the order.
\<close>

theorem fills_reach_position_once:
  assumes "order_run i od bs"
  shows "distinct (map fill_key (concat bs)) \<and>
    mset (concat bs) + mset (unapplied_fills od) = mset (oa_fills od) \<and>
    fill_key ` set (concat bs) = oa_position_applied od"
proof -
  note batches = order_run_batches [OF assms]
  have "distinct (map fill_key (oa_fills od))"
    by (rule order_fills_ok(2) [OF order_run_inv [OF assms]])
  moreover have "mset (map fill_key (oa_fills od)) =
      mset (map fill_key (concat bs @ unapplied_fills od))"
    using batches by (metis mset_append mset_map)
  ultimately have "distinct (map fill_key (concat bs @ unapplied_fills od))"
    using mset_eq_imp_distinct_iff by blast
  then show ?thesis using batches by simp
qed

theorem fills_reach_position_once_witness:
  "\<exists>od. order_run buy_intent od [[first_fill]] \<and>
     mset (concat [[first_fill]]) + mset (unapplied_fills od) = mset (oa_fills od)"
proof -
  have un: "unapplied_fills half_buy = [first_fill]"
    by (simp add: unapplied_fills_def sample_fields sample_keys)
  have "map_of (oa_fills_by_key half_buy) (''77'', ''5'') = Some first_fill"
    by (simp add: half_buy_def)
  then obtain od where od: "mark_fills_applied [first_fill] half_buy = Inr od"
    by (simp add: mark_fills_applied_def validate_fill_subset_def sample_keys)
  have run: "order_run buy_intent od ([] @ [unapplied_fills half_buy])"
    by (rule order_run.taken [OF sample_runs(1)]) (simp_all add: un od)
  then have "order_run buy_intent od [[first_fill]]" by (simp add: un)
  then show ?thesis using fills_reach_position_once by blast
qed

text \<open>
  C19.  A completed order with fills always becomes a valid trade of its fills: its summary can be
  built, a purchase gives a trade without realized result, and a sale with a reason gives one for
  every cost basis for which the result can be calculated.
\<close>

theorem completed_orders_become_trades:
  assumes "order_run i od bs" "order_is_terminal od" "oa_fills od \<noteq> []"
  shows "\<exists>s. build_execution_summary None True od = Inr s \<and> es_fills s = oa_fills od \<and>
    (oa_side od = BUY \<longrightarrow> (\<exists>t. from_order_execution od s None = Inr t \<and> trade_ok t \<and>
       tr_executed_quantity t = oa_filled_quantity od)) \<and>
    (oa_side od = SELL \<longrightarrow> oa_exit_reason od \<noteq> None \<longrightarrow>
       (\<forall>c z. calculate_realized_result s c = Inr z \<longrightarrow>
          (\<exists>t. from_order_execution od s (Some z) = Inr t \<and> trade_ok t \<and>
             tr_executed_quantity t = oa_filled_quantity od \<and> tr_allocated_cost_basis t = Some c)))"
proof -
  have inv: "order_inv od" by (rule order_run_inv [OF assms(1)])
  obtain s where s: "build_execution_summary None True od = Inr s" "summary_ok s"
    "es_fills s = oa_fills od" "es_executed_quantity s = oa_filled_quantity od"
    by (rule terminal_summary [OF inv assms(2,3)])
  have ok: "trade_ok t \<and> tr_executed_quantity t = oa_filled_quantity od \<and>
      tr_allocated_cost_basis t = map_option rz_allocated_cost_basis z"
    if "from_order_execution od s z = Inr t" for t z
    using that s(4) summary_okD(3) [OF s(2)]
    by (elim from_order_executionE) (simp add: trade_ok_def trade_of_def)
  show ?thesis
  proof (intro exI [of _ s] conjI impI allI)
    assume "oa_side od = BUY"
    then show "\<exists>t. from_order_execution od s None = Inr t \<and> trade_ok t \<and>
       tr_executed_quantity t = oa_filled_quantity od"
      using completed_order_trade(1) [OF inv assms(2) s(1), of None] ok by blast
  next
    fix c z assume sale: "oa_side od = SELL" "oa_exit_reason od \<noteq> None"
      "calculate_realized_result s c = Inr z"
    then have "from_order_execution od s (Some z) = Inr (trade_of od (es_exchange_order_id s) s (Some z))"
      using completed_order_trade(1) [OF inv assms(2) s(1), of "Some z"] by blast
    then show "\<exists>t. from_order_execution od s (Some z) = Inr t \<and> trade_ok t \<and>
       tr_executed_quantity t = oa_filled_quantity od \<and> tr_allocated_cost_basis t = Some c"
      using ok realized_resultD(2) [OF sale(3)] by force
  qed (use s in simp_all)
qed

theorem completed_orders_become_trades_witness:
  "\<exists>s t. build_execution_summary None True full_buy = Inr s \<and>
     from_order_execution full_buy s None = Inr t \<and> trade_ok t"
proof -
  have "order_is_terminal full_buy" by (simp add: order_is_terminal_def sample_fields terminal_statuses_def)
  then show ?thesis
    using completed_orders_become_trades [OF sample_runs(2)] by (auto simp: sample_fields)
qed

section \<open>The position\<close>

text \<open>
  A purchase is booked exactly when the position is free or of the same strategy and the fee
  taken in ETH is less than what was bought; anything else raises and books nothing.  A booked
  purchase adds the net quantity and the amount with the other fees, each rounded to 34 digits, and
  keeps the invariant: the average price is cost by quantity, the owner the buying strategy, the
  entry time the first one.
\<close>

theorem buys_are_booked:
  assumes "position_inv p" "\<not> pn_legacy p" "summary_ok s" "es_side s = BUY"
  shows "\<exists>b n. base_fee_amount s = Inr b \<and> non_base_fee_quote_amount s = Inr n \<and>
    (if pl_owner (pn_state p) \<in> {None, Some (es_strategy s)} \<and> dval b < dval (es_executed_quantity s)
     then \<exists>p'. apply_execution s p = Inr p' \<and> position_inv p' \<and> \<not> pn_legacy p' \<and>
       pl_owner (pn_state p') = Some (es_strategy s) \<and> pl_status (pn_state p') = POSITION_OPEN \<and>
       dval (pl_quantity (pn_state p')) = round_sig 34 (dval (pl_quantity (pn_state p)) +
         round_sig 34 (dval (es_executed_quantity s) - dval b)) \<and>
       dval (pl_cost_basis (pn_state p')) = round_sig 34 (round_sig 34
         (dval (pl_cost_basis (pn_state p)) + dval (es_executed_amount s)) + dval n) \<and>
       dval (pl_average_entry_price (pn_state p')) =
         round_sig 34 (dval (pl_cost_basis (pn_state p')) / dval (pl_quantity (pn_state p'))) \<and>
       pl_entered_at (pn_state p') = (if pl_entered_at (pn_state p) = None
         then Some (es_executed_at s) else pl_entered_at (pn_state p))
     else apply_execution s p = Inl ValueError)"
proof -
  obtain b n where fees: "base_fee_amount s = Inr b" "non_base_fee_quote_amount s = Inr n"
    by (rule summary_fees [OF assms(3)])
  show ?thesis
  proof (cases "pl_owner (pn_state p) \<in> {None, Some (es_strategy s)} \<and>
      dval b < dval (es_executed_quantity s)")
    case True
    obtain p' where p': "apply_execution s p = Inr p'" "position_inv p'" "\<not> pn_legacy p'"
      "pl_owner (pn_state p') = Some (es_strategy s)" "pl_status (pn_state p') = POSITION_OPEN"
      "dval (pl_quantity (pn_state p')) = round_sig 34 (dval (pl_quantity (pn_state p)) +
         round_sig 34 (dval (es_executed_quantity s) - dval b))"
      "dval (pl_cost_basis (pn_state p')) = round_sig 34 (round_sig 34
         (dval (pl_cost_basis (pn_state p)) + dval (es_executed_amount s)) + dval n)"
      "pl_entered_at (pn_state p') = (if pl_entered_at (pn_state p) = None
         then Some (es_executed_at s) else pl_entered_at (pn_state p))"
      by (rule buy_booked [OF assms(1-4) _ fees(1) _ fees(2)]) (use True in simp_all)
    have "dval (pl_average_entry_price (pn_state p')) =
        round_sig 34 (dval (pl_cost_basis (pn_state p')) / dval (pl_quantity (pn_state p')))"
      by (rule open_position(8)) (use p'(2,5) in \<open>simp_all add: position_inv_def\<close>)
    with p' show ?thesis
      by - (rule exI [of _ b], rule exI [of _ n], simp (no_asm) only: fees if_P [OF True] simp_thms, blast)
  next
    case False
    then have "apply_execution s p = Inl ValueError"
      using buy_refused [OF assms fees(1)] by blast
    then show ?thesis
      by - (rule exI [of _ b], rule exI [of _ n], simp only: fees if_not_P [OF False] simp_thms)
  qed
qed

theorem buys_are_booked_witness:
  "\<exists>p. apply_execution bought_summary new_position = Inr p \<and> position_inv p \<and>
     dval (pl_quantity (pn_state p)) = 1999 / 20000 \<and>
     dval (pl_average_entry_price (pn_state p)) = round_sig 34 (300 / (1999 / 20000))"
proof -
  have new: "\<not> pn_legacy new_position" "pl_owner (pn_state new_position) = None"
    "dval (pl_quantity (pn_state new_position)) = 0" "dval (pl_cost_basis (pn_state new_position)) = 0"
    by (simp_all add: new_position_def closed_state_def)
  show ?thesis
    using buys_are_booked [OF position_inv_new new(1), of bought_summary] new
    by (auto simp: sample_summary_fields simp del: eq_divide_eq_numeral1 if_split)
qed

text \<open>
  C20.  A permitted sale conserves the cost of the position.  Selling everything realizes the whole
  cost and closes the position.  Selling a part of at most \<open>q (1 - 1 / 10\<^sup>3\<^sup>2)\<close> of the
  quantity \<open>q\<close> realizes a positive share that is exact up to one part in \<open>10\<^sup>3\<^sup>2\<close> of the cost, leaves a positive rest, and the two together miss the cost by at most
  one part in \<open>10\<^sup>3\<^sup>3\<close>; the position stays open with its owner and entry time.  Between that bound and
  everything nothing is claimed: there the share can round to the whole cost, and the code raises
  because a remainder has no cost left.
\<close>

theorem sales_conserve_cost:
  assumes "position_inv p" "\<not> pn_legacy p" "summary_ok s" "sell_allowed s p"
  defines "c \<equiv> dval (pl_cost_basis (pn_state p))" and "q \<equiv> dval (pl_quantity (pn_state p))"
    and "e \<equiv> dval (es_executed_quantity s)"
  shows "(e = q \<longrightarrow> get_cost_basis (es_executed_quantity s) p = Inr (pl_cost_basis (pn_state p)) \<and>
      apply_execution s p = Inr (p\<lparr>pn_state := closed_state supported_symbol (es_exit_reason s)\<rparr>)) \<and>
    (e \<le> q * (1 - 1 / 10 ^ 32) \<longrightarrow>
      (\<exists>a p'. get_cost_basis (es_executed_quantity s) p = Inr a \<and> apply_execution s p = Inr p' \<and>
        position_inv p' \<and> pl_status (pn_state p') = POSITION_OPEN \<and>
        pl_owner (pn_state p') = pl_owner (pn_state p) \<and>
        pl_entered_at (pn_state p') = pl_entered_at (pn_state p) \<and>
        dval (pl_quantity (pn_state p')) = round_sig 34 (q - e) \<and>
        0 < dval a \<and> dval a < c \<and> \<bar>dval a - c * e / q\<bar> \<le> c / 10 ^ 32 \<and>
        \<bar>dval (pl_cost_basis (pn_state p')) + dval a - c\<bar> \<le> c / 10 ^ 33))"
proof (intro conjI impI)
  assume "e = q"
  then show "get_cost_basis (es_executed_quantity s) p = Inr (pl_cost_basis (pn_state p))"
    "apply_execution s p = Inr (p\<lparr>pn_state := closed_state supported_symbol (es_exit_reason s)\<rparr>)"
    using sell_everything [OF assms(1-4)] by (simp_all add: e_def q_def)
next
  assume "e \<le> q * (1 - 1 / 10 ^ 32)"
  then show "\<exists>a p'. get_cost_basis (es_executed_quantity s) p = Inr a \<and> apply_execution s p = Inr p' \<and>
        position_inv p' \<and> pl_status (pn_state p') = POSITION_OPEN \<and>
        pl_owner (pn_state p') = pl_owner (pn_state p) \<and>
        pl_entered_at (pn_state p') = pl_entered_at (pn_state p) \<and>
        dval (pl_quantity (pn_state p')) = round_sig 34 (q - e) \<and>
        0 < dval a \<and> dval a < c \<and> \<bar>dval a - c * e / q\<bar> \<le> c / 10 ^ 32 \<and>
        \<bar>dval (pl_cost_basis (pn_state p')) + dval a - c\<bar> \<le> c / 10 ^ 33"
    unfolding c_def q_def e_def by (elim sell_part [OF assms(1-4)]) blast
qed

theorem sales_conserve_cost_witness:
  "\<exists>p p'. apply_execution bought_summary new_position = Inr p \<and> apply_execution third_summary p = Inr p' \<and>
     dval (pl_quantity (pn_state p')) = 599 / 20000 \<and>
     \<bar>dval (pl_cost_basis (pn_state p')) - (300 - 300 * (7 / 100) / (1999 / 20000))\<bar> \<le> 600 / 10 ^ 32"
proof -
  obtain p where p: "apply_execution bought_summary new_position = Inr p" "position_inv p" "\<not> pn_legacy p"
    "pl_owner (pn_state p) = Some CASE_B" "pl_status (pn_state p) = POSITION_OPEN"
    "dval (pl_quantity (pn_state p)) = 1999 / 20000" "dval (pl_cost_basis (pn_state p)) = 300"
    by (rule sample_position)
  obtain a p' where s: "apply_execution third_summary p = Inr p'"
    "dval (pl_quantity (pn_state p')) = 599 / 20000"
    "\<bar>dval a - 300 * (7 / 100) / (1999 / 20000)\<bar> \<le> 300 / 10 ^ 32"
    "\<bar>dval (pl_cost_basis (pn_state p')) + dval a - 300\<bar> \<le> 300 / 10 ^ 33"
    using sales_conserve_cost [OF p(2,3) sample_summaries_ok(2) sample_sale(1) [OF p(2,3,4,6)]]
    by (auto simp: p(6,7) sample_summary_fields)
  have "\<bar>dval (pl_cost_basis (pn_state p')) - (300 - 300 * (7 / 100) / (1999 / 20000))\<bar> \<le> 600 / 10 ^ 32"
    using abs_triangle_ineq4 [of "dval (pl_cost_basis (pn_state p')) + dval a - 300"
        "dval a - 300 * (7 / 100) / (1999 / 20000)"] s(3,4) by (simp add: field_simps)
  then show ?thesis using p(1) s(1,2) by blast
qed

text \<open>A desk that books an order into an empty position.\<close>

definition sample_desk :: "order \<Rightarrow> unit desk" where
  "sample_desk od =
  \<lparr>dk_order = od, dk_force_sell = False, dk_stop_after_reconciliation = False,
   dk_allocated_cost_basis = dzero, dk_position = new_position,
   dk_position_snapshot = tx_position (new_context 1 :: unit trading_context), dk_context = new_context 1,
   dk_free = Map.empty, dk_overlays = Map.empty, dk_status = SESSION_RUNNING, dk_recovers = False,
   dk_cause_status = CAUSE_MISSING, dk_cause_category = None,
   dk_scheduled_queries = [oa_client_order_id od \<mapsto> utc 5000000]\<rparr>"

lemma sample_desk_ok: "order_inv od \<Longrightarrow> desk_ok (sample_desk od)"
  using position_inv_new by (simp add: desk_ok_def sample_desk_def overlays_ok_def)

lemma sample_terminal: "order_is_terminal full_buy" "order_is_terminal full_sell"
  by (simp_all add: order_is_terminal_def terminal_statuses_def sample_fields)

lemma sample_summaries:
  "build_execution_summary None True full_buy = Inr bought_summary"
  "build_execution_summary None True full_sell = Inr sold_summary"
  using sample_summaries_ok(1,4)
  by (simp_all add: build_execution_summary_def sample_terminal sample_fields sample_aggregate_fills
      summary_ok_def bought_summary_def sold_summary_def Let_def)

lemma applied_summary:
  "build_execution_summary None req (od\<lparr>oa_position_applied := keys\<rparr>) = build_execution_summary None req od"
proof -
  have "make_summary (od\<lparr>oa_position_applied := keys\<rparr>) = make_summary od"
    by (intro ext) (simp add: make_summary_def)
  then show ?thesis
    by (simp add: build_execution_summary_def order_is_terminal_def split: option.split)
qed

text \<open>In one batch the new fills are all the fills, before and after they are marked.\<close>

lemma one_batch_summary:
  assumes "order_inv od" "order_is_terminal od" "unapplied_fills od = oa_fills od" "oa_fills od \<noteq> []"
  shows "build_execution_summary (Some (unapplied_fills od)) False od = build_execution_summary None True od"
  using unapplied_valid [OF assms(1)] assms(2-4)
  by (auto simp: build_execution_summary_def split: option.split)

lemma marked_summary:
  assumes "order_inv od" "mark_fills_applied (unapplied_fills od) od = Inr od'"
  shows "build_execution_summary None True od' = build_execution_summary None True od"
  unfolding mark_unapplied(1) [OF assms] by (rule applied_summary)

text \<open>
  C21.  The trade of an order booked in one batch replays to the live position.  Where the fills of a
  completed order were all still to be applied when the controller booked them, replaying the trade
  recorded for the order on the position before the booking gives exactly the position after it,
  although the trade keeps the fees only in its totals where no fee was paid in BNB.  The condition
  is needed: an order that is booked in several batches can differ in the last digit (C25).
\<close>

theorem history_replays_position:
  assumes "desk_ok dk" "order_is_terminal (dk_order dk)" "oa_fills (dk_order dk) \<noteq> []"
    "unapplied_fills (dk_order dk) = oa_fills (dk_order dk)"
    "apply_unapplied_fills ep dk = (dk', Booked)"
    "build_execution_summary None True (dk_order dk') = Inr s"
    "from_order_execution (dk_order dk') s z = Inr t"
  shows "apply_historical_trade t dzero dzero (dk_position dk) = Inr (dk_position dk') \<and>
    position_inv (dk_position dk')"
proof -
  have od: "order_inv (dk_order dk)" and pos: "position_inv (dk_position dk)"
    using assms(1) by (simp_all add: desk_ok_def)
  have ne: "unapplied_fills (dk_order dk) \<noteq> []" using assms(3,4) by simp
  note booked = booking_decided [OF assms(1) ne assms(5), unfolded one_batch_summary [OF od assms(2,4,3)]]
  then obtain s' p where s': "build_execution_summary None True (dk_order dk) = Inr s'"
    "apply_execution s' (dk_position dk) = Inr p" "books_taken s' p dk dk'"
    by (auto split: sum.splits)
  then have p: "dk_position dk' = p" and "mark_fills_applied (unapplied_fills (dk_order dk)) (dk_order dk)
      = Inr (dk_order dk')" by (simp_all add: books_taken_def Let_def)
  with s'(1) assms(6) have "s' = s" by (simp add: marked_summary [OF od])
  moreover have "summary_ok s"
    by (rule terminal_summary [OF od assms(2,3)]) (use s'(1) \<open>s' = s\<close> in simp)
  ultimately have live: "summary_ok s" "apply_execution s (dk_position dk) = Inr p" using s'(2) by simp_all
  show ?thesis
    using assms(7)
  proof (rule from_order_executionE)
    fix xid assume "summary_of_order (dk_order dk') s" "t = trade_of (dk_order dk') xid s z"
    then show ?thesis
      using replay_equals_live [OF pos live(1) _ live(2)] apply_execution_inv(1) [OF pos live(2)] p by simp
  qed
qed

text \<open>The desk that books the two fills of the purchase at once.\<close>

lemma sample_booking:
  obtains dk p where "apply_unapplied_fills (\<lambda>_ _. None) (sample_desk full_buy) = (dk, Booked)"
    "apply_execution bought_summary new_position = Inr p" "dk_position dk = p"
    "dk_order dk = full_buy\<lparr>oa_position_applied := fill_key ` {first_fill, second_fill}\<rparr>"
    "dval (pl_quantity (pn_state p)) = 1999 / 20000"
proof -
  let ?dk = "sample_desk full_buy"
  have od: "order_inv full_buy" by (rule order_run_inv [OF sample_runs(2)])
  have desk: "desk_ok ?dk" by (rule sample_desk_ok [OF od])
  have fills: "dk_order ?dk = full_buy" "dk_position ?dk = new_position"
    "unapplied_fills full_buy = [first_fill, second_fill]" "oa_fills full_buy = [first_fill, second_fill]"
    "oa_position_applied full_buy = {}"
    by (simp_all add: sample_desk_def unapplied_fills_def sample_fields full_buy_def)
  have summary: "build_execution_summary (Some (unapplied_fills full_buy)) False full_buy = Inr bought_summary"
    using one_batch_summary [OF od sample_terminal(1)] fills sample_summaries(1) by simp
  obtain p where p: "apply_execution bought_summary new_position = Inr p"
    "dval (pl_quantity (pn_state p)) = 1999 / 20000" by (rule sample_position)
  obtain dk3 where dk3: "apply_unapplied_fills (\<lambda>_ _. None) ?dk = publish_booking (\<lambda>_ _. None) dk3"
    "desk_ok dk3" "books_taken bought_summary p ?dk dk3"
    by (rule books_are_taken [OF desk, of bought_summary p "\<lambda>_ _. None"]) (use fills summary p in simp_all)
  have marked: "mark_fills_applied (unapplied_fills full_buy) full_buy = Inr (dk_order dk3)"
    and pos: "dk_position dk3 = p" using dk3(3) fills by (simp_all add: books_taken_def Let_def)
  note od3 = mark_unapplied(1) [OF od marked]
  have "oa_side (dk_order dk3) \<noteq> SELL" unfolding od3 by (simp add: sample_fields)
  from publish_purchase [OF dk3(2) this] publish_booking_books [OF dk3(2)]
  obtain dk where "publish_booking (\<lambda>_ _. None) dk3 = (dk, Booked)" "same_books dk dk3"
    by (metis prod.collapse booking_published_def)
  then show ?thesis
    using that [of dk p] dk3(1) p pos od3 fills by (simp add: same_books_def)
qed

theorem history_replays_position_witness:
  "\<exists>dk t. apply_unapplied_fills (\<lambda>_ _. None) (sample_desk full_buy) = (dk, Booked) \<and>
     from_order_execution (dk_order dk) bought_summary None = Inr t \<and>
     apply_historical_trade t dzero dzero new_position = Inr (dk_position dk) \<and>
     dval (pl_quantity (pn_state (dk_position dk))) = 1999 / 20000"
proof -
  let ?dk = "sample_desk full_buy"
  obtain dk p where dk: "apply_unapplied_fills (\<lambda>_ _. None) ?dk = (dk, Booked)"
    "apply_execution bought_summary new_position = Inr p" "dk_position dk = p"
    "dk_order dk = full_buy\<lparr>oa_position_applied := fill_key ` {first_fill, second_fill}\<rparr>"
    "dval (pl_quantity (pn_state p)) = 1999 / 20000" by (rule sample_booking)
  have od: "order_inv full_buy" by (rule order_run_inv [OF sample_runs(2)])
  have desk: "desk_ok ?dk" by (rule sample_desk_ok [OF od])
  have fills: "dk_order ?dk = full_buy" "dk_position ?dk = new_position"
    "unapplied_fills full_buy = oa_fills full_buy" "oa_fills full_buy \<noteq> []"
    by (simp_all add: sample_desk_def unapplied_fills_def sample_fields full_buy_def)
  have after: "order_inv (dk_order dk)" "order_is_terminal (dk_order dk)"
    using booking_decided [OF desk _ dk(1)] fills sample_terminal(1)
    by (simp_all add: desk_ok_def dk(4) order_is_terminal_def)
  have summary: "build_execution_summary None True (dk_order dk) = Inr bought_summary"
    unfolding dk(4) applied_summary by (rule sample_summaries(1))
  obtain t where t: "from_order_execution (dk_order dk) bought_summary None = Inr t"
    using completed_order_trade(1) [OF after summary, of None] by (auto simp: dk(4) sample_fields)
  show ?thesis
    using history_replays_position [OF desk _ _ _ dk(1) summary t] dk(1,3,5) t fills sample_terminal(1) by auto
qed

section \<open>The settlement of remainders\<close>

lemma sample_trade_fields:
  "tr_side (trade_of full_buy x bought_summary y) = BUY" "tr_side (trade_of full_sell x sold_summary y) = SELL"
  "tr_exit_reason (trade_of full_buy x bought_summary y) = None"
  "tr_exit_reason (trade_of full_sell x sold_summary y) = Some STOP"
  "tr_requested_quantity (trade_of full_sell x sold_summary y) = Fin (1999 / 20000)"
  by (simp_all add: trade_of_def sample_fields)

lemma sample_batches:
  "build_execution_summary (Some [third_fill]) False part_sell = Inr third_summary"
  "build_execution_summary (Some [fourth_fill]) False full_sell = Inr fourth_summary"
proof -
  have "map_of (oa_fills_by_key part_sell) (''78'', ''7'') = Some third_fill"
    "map_of (oa_fills_by_key full_sell) (''78'', ''8'') = Some fourth_fill"
    by (simp_all add: part_sell_def full_sell_def)
  then show "build_execution_summary (Some [third_fill]) False part_sell = Inr third_summary"
    "build_execution_summary (Some [fourth_fill]) False full_sell = Inr fourth_summary"
    using sample_summaries_ok(2,3)
    by (simp_all add: build_execution_summary_def validate_fill_subset_def sample_fields sample_keys
        sample_aggregate_fills summary_ok_def third_summary_def fourth_summary_def Let_def)
qed

text \<open>
  The purchase and the sale of everything that a lot of 0.0001 allows, as trades; the sale leaves
  0.00005 ETH, and the replay of both trades finds them eligible for a settlement.
\<close>

lemma sample_ledger:
  obtains p q bt z sale where "apply_execution bought_summary new_position = Inr p"
    "apply_execution sold_summary p = Inr q" "position_inv p" "position_inv q" "\<not> pn_legacy p" "\<not> pn_legacy q"
    "pl_owner (pn_state p) = Some CASE_B" "dval (pl_quantity (pn_state p)) = 1999 / 20000"
    "dval (pl_cost_basis (pn_state p)) = 300" "dval (pl_quantity (pn_state q)) = 1 / 20000"
    "dval (pl_cost_basis (pn_state q)) = 1500750375187593796898449224612000 / 10 ^ 34"
    "from_order_execution full_buy bought_summary None = Inr bt"
    "from_order_execution full_sell sold_summary (Some z) = Inr sale"
    "\<And>digest s. restore digest [] new_position [bt, sale] (Some (Fin (1 / 10000))) s
       = Inr (q, s\<lparr>sl_transfers := [], sl_consumptions := [], sl_open_base_fee := True\<rparr>, True)"
proof -
  obtain p where p: "apply_execution bought_summary new_position = Inr p" "position_inv p" "\<not> pn_legacy p"
    "pl_owner (pn_state p) = Some CASE_B" "pl_status (pn_state p) = POSITION_OPEN"
    "dval (pl_quantity (pn_state p)) = 1999 / 20000" "dval (pl_cost_basis (pn_state p)) = 300"
    by (rule sample_position)
  have part: "dval (es_executed_quantity sold_summary) \<le> dval (pl_quantity (pn_state p)) * (1 - 1 / 10 ^ 32)"
    by (simp add: sample_summary_fields p(6))
  obtain a q where q: "get_cost_basis (es_executed_quantity sold_summary) p = Inr a"
    "apply_execution sold_summary p = Inr q" "position_inv q" "\<not> pn_legacy q"
    "dval (pl_quantity (pn_state q)) =
       round_sig 34 (dval (pl_quantity (pn_state p)) - dval (es_executed_quantity sold_summary))"
    "0 < dval a"
    "dval a = round_sig 34 (round_sig 34 (dval (pl_cost_basis (pn_state p)) *
       dval (es_executed_quantity sold_summary)) / dval (pl_quantity (pn_state p)))"
    "dval (pl_cost_basis (pn_state q)) = round_sig 34 (dval (pl_cost_basis (pn_state p)) - dval a)"
    by (rule sell_part [OF p(2,3) sample_summaries_ok(4) sample_sale(2) [OF p(2,3,4,6)] part])
  have a: "dval a = 2998499249624812406203101550775388 / 10 ^ 31"
    unfolding q(7) p(6,7) using batch_roundings(6) by (simp add: sample_summary_fields)
  have "dval (pl_cost_basis (pn_state q)) = round_sig 34 (300 - 2998499249624812406203101550775388 / 10 ^ 31)"
    unfolding q(8) p(7) a ..
  note cost = this [unfolded batch_roundings(7)]
  have quantity: "dval (pl_quantity (pn_state q)) = 1 / 20000"
    unfolding q(5) p(6) by (simp add: sample_summary_fields)
  have "is_finite a" using get_cost_basis_finite [OF _ q(1)] p(2) by (simp add: position_inv_def)
  with q(6) have pos: "positive a" by (simp add: positive_iff)
  have amounts: "is_finite (es_executed_amount sold_summary)" "is_finite (es_fee_quote_amount sold_summary)"
    "\<bar>dval (es_executed_amount sold_summary)\<bar> \<le> 10 ^ 20 * dval a"
    "\<bar>dval (es_fee_quote_amount sold_summary)\<bar> \<le> 10 ^ 20 * dval a"
    by (simp_all add: sample_summary_fields a)
  obtain z where z: "calculate_realized_result sold_summary a = Inr z"
    by (rule calculate_realized_ok [OF sample_summary_fields(17) amounts(1,2) pos amounts(3,4)])
  obtain bt where bt: "bt = trade_of full_buy (es_exchange_order_id bought_summary) bought_summary None"
    "from_order_execution full_buy bought_summary None = Inr bt"
    using completed_order_trade(1) [OF order_run_inv [OF sample_runs(2)] sample_terminal(1)
        sample_summaries(1)] by (auto simp: sample_fields)
  obtain sale where sale: "sale = trade_of full_sell (es_exchange_order_id sold_summary) sold_summary (Some z)"
    "from_order_execution full_sell sold_summary (Some z) = Inr sale"
    using completed_order_trade(1) [OF order_run_inv [OF sample_runs(4)] sample_terminal(2)
        sample_summaries(2), of "Some z"] z by (auto simp: sample_fields)
  have same: "summary_of_order full_buy bought_summary" "summary_of_order full_sell sold_summary"
    using bt(2) sale(2) by (auto elim: from_order_executionE)
  have replay: "apply_historical_trade bt dzero dzero new_position = Inr p"
    "apply_historical_trade sale dzero dzero p = Inr q"
    unfolding bt(1) sale(1)
    using replay_equals_live [OF position_inv_new sample_summaries_ok(1) same(1) p(1)]
      replay_equals_live [OF p(2) sample_summaries_ok(4) same(2) q(2)] by simp_all
  obtain b b' where fee: "base_fee_amount bought_summary = Inr b" "tr_base_fee_amount bt = Inr b'"
    "non_negative b'" "dval b' = dval b"
    unfolding bt(1) by (rule trade_fees [OF sample_summaries_ok(1)])
  then have "dlt dzero b'" by (auto simp: sample_summary_fields non_negative_iff)
  with fee(2) have fees: "sees_base_fee bt = Inr True" "sees_base_fee sale = Inr False"
    by (simp_all add: sees_base_fee_def bt(1) sale(1) sample_trade_fields)
  have fin: "is_finite (pl_quantity (pn_state p))" "is_finite (pl_quantity (pn_state q))"
    using p(2) q(3) by (auto simp: position_inv_def dest: position_values)
  have full: "external_full_step bt r y = Inr False" "external_full_step sale r y = Inr False" for r y
    by (simp_all add: external_full_step_def bt(1) sale(1) sample_trade_fields split: option.split)
  have trades: "replay_trade bt n new_position s = Inr (p, s)" "replay_trade sale n p s = Inr (q, s)" for n s
    using replay by (simp_all add: replay_trade_def bt(1) sale(1) sample_trade_fields)
  have "deq (tr_requested_quantity sale) (pl_quantity (pn_state p))" "\<not> deq (pl_quantity (pn_state p)) dzero"
    using fin p(6) by (simp_all add: sale(1) sample_trade_fields deq_finite)
  then have "restore digest [] new_position [bt, sale] (Some (Fin (1 / 10000))) s
      = Inr (q, s\<lparr>sl_transfers := [], sl_consumptions := [], sl_open_base_fee := True\<rparr>, True)" for digest s
    using q(4) quantity fin
    by (simp add: restore_def step_covers_def restore_step_def Let_def fees full trades new_settlement_def
        require_history_accounting_compatibility_def)
      (simp add: bt(1) sale(1) sample_trade_fields)
  with that [OF p(1) q(2) p(2) q(3) p(3) q(4) p(4,6,7) quantity cost bt(2) sale(2)]
  show ?thesis by blast
qed

text \<open>
  C24.  A settlement interrupted after its entry was stored is taken up again: where the save raised
  but the entry is on disk, the next settlement of the same position and history finds the entry,
  stores nothing new, detaches exactly this remainder and leaves the position closed, whatever
  settlement object it is called on.
\<close>

theorem settlement_resumes:
  assumes "position_inv p" "\<not> pn_legacy p"
    "settle digest False True stored p ts step st = (p1, st1, stored1, Inl OSError)" "stored1 \<noteq> stored"
  shows "p1 = p \<and> length stored1 = Suc (length stored) \<and>
    (\<exists>p2 st2. settle digest saved kept stored1 p ts step st' = (p2, st2, stored1, Inr True) \<and>
       pl_status (pn_state p2) = POSITION_CLOSED)"
  by (rule settle_resumes [OF assms]) blast

definition sample_digest :: "trade list \<Rightarrow> string" where
  "sample_digest ts = replicate 64 CHR ''a''"

lemma sample_digest_hex: "length (sample_digest ts) = 64" "list_all is_hex (sample_digest ts)"
  unfolding sample_digest_def by code_simp+

theorem settlement_resumes_witness:
  "\<exists>p ts st1 stored p2 st2.
     settle sample_digest False True [] p ts (Fin (1 / 10000)) new_settlement = (p, st1, stored, Inl OSError) \<and>
     settle sample_digest True False stored p ts (Fin (1 / 10000)) st1 = (p2, st2, stored, Inr True)"
proof -
  obtain q bt sale where q: "position_inv q" "\<not> pn_legacy q" "dval (pl_quantity (pn_state q)) = 1 / 20000"
    "dval (pl_cost_basis (pn_state q)) = 1500750375187593796898449224612000 / 10 ^ 34"
    and restored: "\<And>digest s. restore digest [] new_position [bt, sale] (Some (Fin (1 / 10000))) s
       = Inr (q, s\<lparr>sl_transfers := [], sl_consumptions := [], sl_open_base_fee := True\<rparr>, True)"
    by (rule sample_ledger) blast
  have fin: "is_finite (pl_quantity (pn_state q))" "is_finite (pl_cost_basis (pn_state q))"
    using q(1) by (auto simp: position_inv_def dest: position_values)
  define r where "r = \<lparr>rs_history_count = 2, rs_history_sha256 = sample_digest [bt, sale],
    rs_quantity = pl_quantity (pn_state q), rs_cost_basis = pl_cost_basis (pn_state q),
    rs_step_size = Fin (1 / 10000)\<rparr>"
  have "make_transfer r = Inr r"
    using fin q(3,4) by (simp add: make_transfer_def r_def sample_digest_hex positive_iff)
  then obtain st1 where first: "settle sample_digest False True [] q [bt, sale] (Fin (1 / 10000))
      new_settlement = (q, st1, [r], Inl OSError)"
    using fin q(3,4) by (simp add: settle_def restored r_def deq_finite)
  then obtain p2 st2 where "settle sample_digest True False [r] q [bt, sale] (Fin (1 / 10000)) st1
      = (p2, st2, [r], Inr True)"
    using settlement_resumes [OF q(1,2) first, of True False st1] by auto
  with first show ?thesis by blast
qed

text \<open>At the cost of the replay the remainder is settled at once.\<close>

lemma sample_settled:
  assumes "position_inv q" "\<not> pn_legacy q" "dval (pl_quantity (pn_state q)) = 1 / 20000"
    "dval (pl_cost_basis (pn_state q)) = 1500750375187593796898449224612000 / 10 ^ 34"
    and restored: "\<And>s. restore sample_digest [] new_position [bt, sale] (Some (Fin (1 / 10000))) s
       = Inr (q, s\<lparr>sl_transfers := [], sl_consumptions := [], sl_open_base_fee := True\<rparr>, True)"
  shows "\<exists>q' st' r. settle sample_digest True False [] q [bt, sale] (Fin (1 / 10000)) new_settlement
      = (q', st', [r], Inr True)"
proof -
  have fin: "is_finite (pl_quantity (pn_state q))" "is_finite (pl_cost_basis (pn_state q))"
    using assms(1) by (auto simp: position_inv_def dest: position_values)
  have transfer: "make_transfer \<lparr>rs_history_count = 2, rs_history_sha256 = sample_digest [bt, sale],
    rs_quantity = pl_quantity (pn_state q), rs_cost_basis = pl_cost_basis (pn_state q),
    rs_step_size = Fin (1 / 10000)\<rparr> = Inr \<lparr>rs_history_count = 2, rs_history_sha256 = sample_digest [bt, sale],
    rs_quantity = pl_quantity (pn_state q), rs_cost_basis = pl_cost_basis (pn_state q),
    rs_step_size = Fin (1 / 10000)\<rparr>"
    using fin assms(3,4) by (simp add: make_transfer_def sample_digest_hex positive_iff)
  obtain p' where "detach_residual (pl_quantity (pn_state q)) (pl_cost_basis (pn_state q)) (Fin (1 / 10000)) q
      = Inr p'"
    by (rule that, rule detach_residual_ok [OF assms(1,2)])
      (use fin assms(3,4) in \<open>simp_all add: positive_iff deq_refl finite_arith\<close>)
  then show ?thesis
    using fin assms(3,4) transfer by (simp add: settle_def restored deq_finite)
qed

text \<open>
  C25.  On one concrete purchase and sale, a sale filled in two batches breaks the settlement of its
  remainder.  0.1 ETH are bought for 300 with a fee in ETH, and the 0.0999 that a lot of 0.0001
  allows are sold in fills of 0.07 and 0.0299.  The live position allocates its cost once per batch
  and ends at \<open>p2\<close>; the durable trades are replayed in one step and end at \<open>q\<close>.  Both hold the same
  0.00005 ETH, but their costs differ in the last of 34 digits: ...2124 against ...2120.  The
  settlement compares them exactly and raises, whatever its digest, its disk and its earlier state,
  and leaves position and file as they are; at the cost of the replay the same call settles.
\<close>

theorem batches_break_settlement:
  "\<exists>p0 p1 p2 q bt z sale.
     apply_execution bought_summary new_position = Inr p0 \<and>
     build_execution_summary (Some [third_fill]) False part_sell = Inr third_summary \<and>
     apply_execution third_summary p0 = Inr p1 \<and>
     build_execution_summary (Some [fourth_fill]) False full_sell = Inr fourth_summary \<and>
     apply_execution fourth_summary p1 = Inr p2 \<and>
     build_execution_summary None True full_sell = Inr sold_summary \<and>
     apply_execution sold_summary p0 = Inr q \<and>
     dval (pl_quantity (pn_state p2)) = 1 / 20000 \<and> dval (pl_quantity (pn_state q)) = 1 / 20000 \<and>
     dval (pl_cost_basis (pn_state p2)) = 1500750375187593796898449224612400 / 10 ^ 34 \<and>
     dval (pl_cost_basis (pn_state q)) = 1500750375187593796898449224612000 / 10 ^ 34 \<and>
     from_order_execution full_buy bought_summary None = Inr bt \<and>
     from_order_execution full_sell sold_summary (Some z) = Inr sale \<and>
     (\<forall>digest st. \<exists>st'. restore digest [] new_position [bt, sale] (Some (Fin (1 / 10000))) st
        = Inr (q, st', True)) \<and>
     (\<forall>digest saved kept st. \<exists>st'.
        settle digest saved kept [] p2 [bt, sale] (Fin (1 / 10000)) st = (p2, st', [], Inl ValueError)) \<and>
     (\<exists>q' st' r. settle sample_digest True False [] q [bt, sale] (Fin (1 / 10000)) new_settlement
        = (q', st', [r], Inr True))"
proof -
  obtain p q bt z sale where p: "apply_execution bought_summary new_position = Inr p" "position_inv p"
    "position_inv q" "\<not> pn_legacy p" "pl_owner (pn_state p) = Some CASE_B"
    "dval (pl_quantity (pn_state p)) = 1999 / 20000" "dval (pl_cost_basis (pn_state p)) = 300"
    and replayed: "apply_execution sold_summary p = Inr q" "dval (pl_quantity (pn_state q)) = 1 / 20000"
      "\<not> pn_legacy q"
    and q: "dval (pl_cost_basis (pn_state q)) = 1500750375187593796898449224612000 / 10 ^ 34"
    and trades: "from_order_execution full_buy bought_summary None = Inr bt"
      "from_order_execution full_sell sold_summary (Some z) = Inr sale"
    and restored: "\<And>digest s. restore digest [] new_position [bt, sale] (Some (Fin (1 / 10000))) s
       = Inr (q, s\<lparr>sl_transfers := [], sl_consumptions := [], sl_open_base_fee := True\<rparr>, True)"
    by (rule sample_ledger) blast
  have part: "dval (es_executed_quantity third_summary) \<le> dval (pl_quantity (pn_state p)) * (1 - 1 / 10 ^ 32)"
    by (simp add: sample_summary_fields p(6))
  obtain a p1 where p1: "apply_execution third_summary p = Inr p1" "position_inv p1" "\<not> pn_legacy p1"
    "pl_owner (pn_state p1) = pl_owner (pn_state p)"
    "dval (pl_quantity (pn_state p1)) =
       round_sig 34 (dval (pl_quantity (pn_state p)) - dval (es_executed_quantity third_summary))"
    "dval a = round_sig 34 (round_sig 34 (dval (pl_cost_basis (pn_state p)) *
       dval (es_executed_quantity third_summary)) / dval (pl_quantity (pn_state p)))"
    "dval (pl_cost_basis (pn_state p1)) = round_sig 34 (dval (pl_cost_basis (pn_state p)) - dval a)"
    by (rule sell_part [OF p(2,4) sample_summaries_ok(2) sample_sale(1) [OF p(2,4,5,6)] part])
  have a: "dval a = 2101050525262631315657828914457229 / 10 ^ 31"
    unfolding p1(6) p(6,7) using batch_roundings(1) by (simp add: sample_summary_fields)
  have "dval (pl_cost_basis (pn_state p1)) = round_sig 34 (300 - 2101050525262631315657828914457229 / 10 ^ 31)"
    unfolding p1(7) p(7) a ..
  note cost1 = this [unfolded batch_roundings(2)]
  have quantity1: "dval (pl_quantity (pn_state p1)) = 599 / 20000"
    unfolding p1(5) p(6) by (simp add: sample_summary_fields)
  have allowed: "sell_allowed fourth_summary p1"
    using p1(4) p(5) quantity1 by (simp add: sell_allowed_def sample_summary_fields)
  have part1: "dval (es_executed_quantity fourth_summary) \<le> dval (pl_quantity (pn_state p1)) * (1 - 1 / 10 ^ 32)"
    by (simp add: sample_summary_fields quantity1)
  obtain a' p2 where p2: "apply_execution fourth_summary p1 = Inr p2" "position_inv p2"
    "dval (pl_quantity (pn_state p2)) =
       round_sig 34 (dval (pl_quantity (pn_state p1)) - dval (es_executed_quantity fourth_summary))"
    "dval a' = round_sig 34 (round_sig 34 (dval (pl_cost_basis (pn_state p1)) *
       dval (es_executed_quantity fourth_summary)) / dval (pl_quantity (pn_state p1)))"
    "dval (pl_cost_basis (pn_state p2)) = round_sig 34 (dval (pl_cost_basis (pn_state p1)) - dval a')"
    by (rule sell_part [OF p1(2,3) sample_summaries_ok(3) allowed part1])
  have executed: "dval (es_executed_quantity fourth_summary) = 299 / 10000"
    by (simp add: sample_summary_fields)
  have a': "dval a' = 8974487243621810905452726363181586 / 10 ^ 32"
    unfolding p2(4) quantity1 cost1 executed batch_roundings(3,4) ..
  have live: "dval (pl_cost_basis (pn_state p2)) = 1500750375187593796898449224612400 / 10 ^ 34"
    unfolding p2(5) cost1 a' batch_roundings(5) ..
  have costs: "dval (pl_cost_basis (pn_state p2)) \<noteq> dval (pl_cost_basis (pn_state q))"
    unfolding q live by simp
  have quantity: "dval (pl_quantity (pn_state p2)) = 1 / 20000"
    unfolding p2(3) quantity1 by (simp add: sample_summary_fields)
  have fin: "is_finite (pl_quantity (pn_state p2))" "is_finite (pl_cost_basis (pn_state p2))"
    "is_finite (pl_cost_basis (pn_state q))"
    using p2(2) p(3) by (auto simp: position_inv_def dest: position_values)
  have "\<not> deq (pl_cost_basis (pn_state p2)) (pl_cost_basis (pn_state q))"
    using fin costs by (simp add: deq_finite)
  then have fails: "\<exists>st'. settle digest saved kept [] p2 [bt, sale] (Fin (1 / 10000)) st = (p2, st', [], Inl ValueError)"
    for digest saved kept st
    using fin quantity by (simp add: settle_def restored)
  have "\<exists>q' st' r. settle sample_digest True False [] q [bt, sale] (Fin (1 / 10000)) new_settlement
      = (q', st', [r], Inr True)"
    by (rule sample_settled [OF p(3) replayed(3,2) q]) (use restored in blast)+
  with p(1) p1(1) p2(1) replayed(1,2) q live quantity trades sample_batches sample_summaries(2) restored fails
  show ?thesis by blast
qed

section \<open>Booking\<close>



section \<open>The durable history\<close>

text \<open>
  C23.  However recording, external reconciliation, failing saves and retries follow each other, the
  published history and the disk agree: the trades have distinct orders, the published performance
  is the one of the published trades, and without a pending publication the disk holds exactly these
  trades.  A pending publication is the only one, and the disk holds at most its trade more.
\<close>

theorem history_matches_disk:
  assumes "publication_run kst st disk"
  shows "distinct (map tr_order_id (th_trades (pb_history st))) \<and>
    aggregate_trades kst (pf_day (pb_performance st)) (th_trades (pb_history st))
      = Inr (pf_figures (pb_performance st)) \<and>
    (pb_pending st = Map.empty \<longrightarrow> disk = th_trades (pb_history st)) \<and>
    (\<forall>k pp. pb_pending st k = Some pp \<longrightarrow>
       pb_pending st = [k \<mapsto> pp] \<and> k = tr_order_id (pp_trade pp) \<and>
       k \<notin> tr_order_id ` set (th_trades (pb_history st)) \<and>
       (disk = th_trades (pb_history st) \<or> disk = th_trades (pb_history st) @ [pp_trade pp]))"
proof -
  have inv: "history_inv (pb_history st)" "performance_inv kst (pb_performance st)"
    "pf_trades (pb_performance st) = th_trades (pb_history st)"
    "if pb_pending st = Map.empty then disk = th_trades (pb_history st)
       else \<exists>pp. pb_pending st = [tr_order_id (pp_trade pp) \<mapsto> pp] \<and>
         candidate_ok kst (th_trades (pb_history st)) pp \<and>
         (disk = th_trades (pb_history st) \<or> disk = th_trades (pb_history st) @ [pp_trade pp])"
    using publication_run_inv [OF assms] by (simp_all add: publication_inv_def Let_def)
  have pending: "pb_pending st = [k \<mapsto> pp] \<and> k = tr_order_id (pp_trade pp) \<and>
       k \<notin> tr_order_id ` set (th_trades (pb_history st)) \<and>
       (disk = th_trades (pb_history st) \<or> disk = th_trades (pb_history st) @ [pp_trade pp])"
    if "pb_pending st k = Some pp" for k pp
    using inv(4) that by (auto simp: candidate_ok_def image_iff split: if_splits)
  show ?thesis
    using inv(1-3) pending inv(4) by (auto simp: history_inv_def performance_inv_def)
qed

lemma no_trades: "\<exists>f. aggregate_trades kst day [] = Inr f"
  by (simp add: aggregate_trades_def figures_of_def zero_tally_def calculate_weighted_return_def
      average_rates_def deq_refl)

lemma one_purchase:
  assumes "tr_side t = BUY" "is_finite (tr_fee_quote_amount t)"
  shows "\<exists>f. aggregate_trades kst day [t] = Inr f"
proof -
  obtain a where "tally_trade kst day t zero_tally = Inr a" "ta_cost a = dzero" "ta_daily_cost a = dzero"
    "ta_completed a = 0"
    using assms by (cases "kst (instant (tr_executed_at t)) = day")
      (auto simp: tally_trade_def Let_def add_fee_def zero_tally_def finite_arith)
  then show ?thesis
    by (simp add: aggregate_trades_def figures_of_def calculate_weighted_return_def average_rates_def
        deq_refl)
qed

lemma sample_purchase:
  obtains t where "from_order_execution full_buy bought_summary None = Inr t" "trade_ok t"
    "tr_side t = BUY" "is_finite (tr_fee_quote_amount t)" "dval (tr_fee_quote_amount t) = 3 / 20"
proof -
  obtain t where t: "from_order_execution full_buy bought_summary None = Inr t"
    using completed_order_trade(1) [OF order_run_inv [OF sample_runs(2)] sample_terminal(1)
        sample_summaries(1)] by (auto simp: sample_fields)
  then obtain x where "t = trade_of full_buy x bought_summary None" "check_trade t = Inr ()"
    by (rule from_order_executionE)
  moreover have "list_all fill_ok (es_fills bought_summary)"
    using sample_summaries_ok(1) by (simp add: summary_ok_def)
  ultimately show ?thesis
    using t that by (simp add: trade_ok_def trade_of_def bought_summary_def make_summary_def
        sample_aggregates sample_fields)
qed

lemma sample_publication:
  obtains t st where "from_order_execution full_buy bought_summary None = Inr t"
    "publication_run (\<lambda>x. x div 86400000000) st [t]"
proof -
  define kst where "kst = (\<lambda>x :: int. x div 86400000000)"
  obtain bt where bt: "from_order_execution full_buy bought_summary None = Inr bt"
    "tr_side bt = BUY" "is_finite (tr_fee_quote_amount bt)" by (rule sample_purchase)
  then obtain f where f: "aggregate_trades kst 0 [bt] = Inr f" using one_purchase by blast
  obtain f0 where f0: "aggregate_trades kst 0 [] = Inr f0" using no_trades by blast
  obtain st0 where st0: "initial_publication kst 0 = Inr st0" "pb_pending st0 = Map.empty"
    by (simp add: initial_publication_def make_performance_def f0)
  obtain h where h: "make_history [bt] = Inr h" "th_trades h = [bt]"
    by (rule make_history_distinct [of "[bt]"]) simp_all
  define c where "c = \<lparr>cd_load = 0, cd_apply = 0, cd_before = 0, cd_get = 0, cd_after = 0,
    cd_before_again = 0, cd_get_again = 0, cd_after_again = 0\<rparr>"
  obtain st where "load_trade_history kst c st0 [bt] = (st, Inr ())"
    using st0(2) h f by (simp add: load_trade_history_def make_performance_def c_def)
  then have "publication_run kst st [bt]"
    using publication_run.loaded [of "[bt]" kst 0 st0 c st] st0(1) by simp
  then show ?thesis using that bt(1) by (simp add: kst_def)
qed

theorem history_matches_disk_witness:
  "\<exists>t st. publication_run (\<lambda>x. x div 86400000000) st [t] \<and>
     distinct (map tr_order_id (th_trades (pb_history st)))"
proof -
  obtain t st where "publication_run (\<lambda>x. x div 86400000000) st [t]" by (rule sample_publication)
  then show ?thesis using history_matches_disk by blast
qed

text \<open>
  The figures of the performance are those of the trades: the sales are counted and each is
  winning, losing or neither, the win rate exists exactly with a sale and lies between 0 and 100,
  and for valid trades the total fee and the realized profit are the sums over all trades and over
  all sales, added in order at 34 digits.
\<close>

theorem performance_adds_up:
  assumes "aggregate_trades kst day ts = Inr f"
  shows "fg_completed_sell_count f = int (sales ts) \<and>
    fg_winning_sell_count f + fg_losing_sell_count f + fg_breakeven_sell_count f = int (sales ts) \<and>
    (fg_win_rate f = None \<longleftrightarrow> sales ts = 0) \<and>
    (\<forall>r. fg_win_rate f = Some r \<longrightarrow> 0 \<le> dval r \<and> dval r \<le> 100) \<and>
    (list_all trade_ok ts \<longrightarrow>
       dval (fg_total_fee f) = sum_sig 34 0 (map (\<lambda>t. dval (tr_fee_quote_amount t)) ts) \<and>
       dval (fg_realized_pnl f) = sum_sig 34 0 (sale_profits ts) \<and> fg_total_profit f = fg_realized_pnl f)"
  using aggregate_counts [OF assms] aggregate_sums [OF _ assms] by simp

theorem performance_adds_up_witness:
  "\<exists>t f. from_order_execution full_buy bought_summary None = Inr t \<and>
     aggregate_trades (\<lambda>x. x div 86400000000) 0 [t] = Inr f \<and>
     dval (fg_total_fee f) = 3 / 20 \<and> fg_win_rate f = None"
proof -
  obtain t where t: "from_order_execution full_buy bought_summary None = Inr t" "trade_ok t"
    "tr_side t = BUY" "is_finite (tr_fee_quote_amount t)" "dval (tr_fee_quote_amount t) = 3 / 20"
    by (rule sample_purchase)
  obtain f where f: "aggregate_trades (\<lambda>x. x div 86400000000) 0 [t] = Inr f"
    using one_purchase [OF t(3,4)] by blast
  then show ?thesis
    using performance_adds_up [OF f] t by (auto simp: sales_def sum_sig_def)
qed

end
