(* ===== verification/Ema_Slope.thy ===== *)
theory Ema_Slope
  imports Ledger_Values
begin

text \<open>
  The exponential moving average of nine closes and the slope of its last six values
  (\<open>domain/market/ema_slope.py\<close>), calculated in a context of 34 digits, and how far the calculated
  numbers are from the exact ones.
\<close>

section \<open>The average\<close>

text \<open>One more price: \<open>EMA_ALPHA * price + EMA_COMPLEMENT * ema\<close>.\<close>

definition ema_step :: "decimal \<Rightarrow> decimal \<Rightarrow> decimal res" where
  "ema_step price ema =
     ebind (mul_at 34 (Fin (1 / 5)) price) (\<lambda>a.
     ebind (mul_at 34 (Fin (4 / 5)) ema) (\<lambda>b. add_at 34 a b))"

fun ema_steps :: "decimal \<Rightarrow> decimal list \<Rightarrow> decimal list res" where
  "ema_steps ema [] = Inr []"
| "ema_steps ema (p # ps) =
     ebind (ema_step p ema) (\<lambda>e. ebind (ema_steps e ps) (\<lambda>es. Inr (e # es)))"

definition calculate_ema9_series :: "decimal list \<Rightarrow> decimal list res" where
  "calculate_ema9_series ps =
     ebind (require (9 \<le> length ps \<and> list_all positive ps) ValueError) (\<lambda>_.
     ebind (sum_at 34 dzero (take 9 ps)) (\<lambda>total.
     ebind (div_at 34 total (Fin 9)) (\<lambda>seed.
     ebind (ema_steps seed (drop 9 ps)) (\<lambda>es. Inr (seed # es)))))"

section \<open>The slope\<close>

definition x_offset :: "nat \<Rightarrow> decimal res" where
  "x_offset i = sub_at 34 (Fin (of_nat i)) (Fin (5 / 2))"

definition slope_term :: "decimal \<Rightarrow> nat \<times> decimal \<Rightarrow> decimal res" where
  "slope_term mean iv =
     ebind (x_offset (fst iv)) (\<lambda>x. ebind (sub_at 34 (snd iv) mean) (\<lambda>y. mul_at 34 x y))"

definition calculate_raw_ols_slope :: "decimal list \<Rightarrow> decimal res" where
  "calculate_raw_ols_slope vs =
     ebind (require (length vs = 6 \<and> list_all is_finite vs) ValueError) (\<lambda>_.
     ebind (sum_at 34 dzero vs) (\<lambda>total.
     ebind (div_at 34 total (Fin 6)) (\<lambda>mean.
     ebind (map_res (slope_term mean) (zip [0..<6] vs)) (\<lambda>terms.
     ebind (sum_at 34 dzero terms) (\<lambda>numerator.
     ebind (map_res (\<lambda>i. ebind (x_offset i) (\<lambda>x. mul_at 34 x x)) [0..<6]) (\<lambda>squares.
     ebind (sum_at 34 dzero squares) (\<lambda>denominator.
     div_at 34 numerator denominator)))))))"

definition normalize_ols_slope :: "decimal \<Rightarrow> decimal \<Rightarrow> decimal res" where
  "normalize_ols_slope raw price =
     ebind (require (is_finite raw \<and> positive price) ValueError) (\<lambda>_.
     ebind (div_at 34 raw price) (\<lambda>q.
     ebind (mul_at 34 q (Fin 100)) quantize_rate))"

definition calculate_normalized_ols_slope :: "decimal list \<Rightarrow> decimal \<Rightarrow> decimal res" where
  "calculate_normalized_ols_slope vs price =
     ebind (calculate_raw_ols_slope vs) (\<lambda>raw. normalize_ols_slope raw price)"

text \<open>\<open>series[-k:]\<close> is the last \<open>k\<close> values.\<close>

definition last_values :: "nat \<Rightarrow> 'a list \<Rightarrow> 'a list" where
  "last_values k xs = drop (length xs - k) xs"

definition calculate_candidate_ema9_slope :: "decimal list \<Rightarrow> decimal \<Rightarrow> decimal res" where
  "calculate_candidate_ema9_slope series price =
     ebind (require (5 \<le> length series \<and> positive price) ValueError) (\<lambda>_.
     ebind (ema_step price (last series)) (\<lambda>candidate.
     calculate_normalized_ols_slope (last_values 5 series @ [candidate]) price))"

section \<open>Exact numbers\<close>

definition ema_next :: "rat \<Rightarrow> rat \<Rightarrow> rat" where
  "ema_next price ema = price / 5 + 4 * ema / 5"

fun ema_exact_steps :: "rat \<Rightarrow> rat list \<Rightarrow> rat list" where
  "ema_exact_steps ema [] = []"
| "ema_exact_steps ema (p # ps) = (let e = ema_next p ema in e # ema_exact_steps e ps)"

definition ema_exact :: "rat list \<Rightarrow> rat list" where
  "ema_exact ps = (let seed = sum_list (take 9 ps) / 9 in seed # ema_exact_steps seed (drop 9 ps))"

text \<open>The least squares slope over \<open>x = 0, ..., 5\<close>; the mean of the values falls out.\<close>

definition slope_exact :: "rat list \<Rightarrow> rat" where
  "slope_exact vs = (\<Sum>(i, v) \<leftarrow> zip [0..<6] vs. (of_nat i - 5 / 2) * v) / (35 / 2)"

section \<open>Errors that grow by one rounding at a time\<close>

context relative_rounding
begin

text \<open>\<open>x\<close> approximates the number \<open>y\<close> that is not negative up to \<open>n\<close> roundings.\<close>

definition near :: "nat \<Rightarrow> rat \<Rightarrow> rat \<Rightarrow> bool" where
  "near n x y \<longleftrightarrow> 0 \<le> y \<and> y * (1 - eps) ^ n \<le> x \<and> x \<le> y * (1 + eps) ^ n"

lemma near_refl: "0 \<le> x \<Longrightarrow> near 0 x x"
  by (simp add: near_def)

lemma near_mono:
  assumes "near m x y" "m \<le> n" "eps \<le> 1"
  shows "near n x y"
proof -
  have "(1 - eps) ^ n \<le> (1 - eps) ^ m" using assms(2,3) eps_nonneg by (intro power_decreasing) simp_all
  then have "y * (1 - eps) ^ n \<le> y * (1 - eps) ^ m"
    using assms(1) by (intro mult_left_mono) (simp_all add: near_def)
  moreover have "(1 + eps) ^ m \<le> (1 + eps) ^ n" using assms(2) eps_nonneg by (intro power_increasing) simp_all
  then have "y * (1 + eps) ^ m \<le> y * (1 + eps) ^ n"
    using assms(1) by (intro mult_left_mono) (simp_all add: near_def)
  ultimately show ?thesis using assms(1) unfolding near_def by linarith
qed

lemma near_add:
  assumes "near n a x" "near n b y"
  shows "near n (a + b) (x + y)"
  using assms by (simp add: near_def ring_distribs)

lemma near_scale:
  assumes "near n x y" "0 \<le> c"
  shows "near n (c * x) (c * y)"
  using assms mult_left_mono [of "y * (1 - eps) ^ n" x c] mult_left_mono [of x "y * (1 + eps) ^ n" c]
  by (simp add: near_def mult.assoc)

lemma near_round:
  assumes "near n x y" "eps \<le> 1"
  shows "near (Suc n) (rnd x) y"
proof -
  have y: "0 \<le> y" "y * (1 - eps) ^ n \<le> x" "x \<le> y * (1 + eps) ^ n" using assms(1) by (simp_all add: near_def)
  have "0 \<le> y * (1 - eps) ^ n" using y(1) assms(2) by simp
  then have x: "0 \<le> x" using y(2) by linarith
  have r: "\<bar>rnd x - x\<bar> \<le> x * eps" using relative [of x] x by simp
  have "x * (1 - eps) \<le> rnd x" "rnd x \<le> x * (1 + eps)" using r by (simp_all add: algebra_simps abs_le_iff)
  moreover have "y * (1 - eps) ^ n * (1 - eps) \<le> x * (1 - eps)"
    using y(2) assms(2) by (intro mult_right_mono) simp_all
  moreover have "x * (1 + eps) \<le> y * (1 + eps) ^ n * (1 + eps)"
    using y(3) eps_nonneg by (intro mult_right_mono) simp_all
  ultimately show ?thesis unfolding near_def using y(1) by (simp add: ac_simps)
qed

lemma bernoulli:
  assumes "eps \<le> 1" "2 * of_nat n * eps \<le> 1"
  shows "1 - of_nat n * eps \<le> (1 - eps) ^ n" "(1 + eps) ^ n \<le> 1 + 2 * of_nat n * eps"
proof -
  show "1 - of_nat n * eps \<le> (1 - eps) ^ n"
  proof (induction n)
    case (Suc n)
    have "(1 - of_nat n * eps) * (1 - eps) \<le> (1 - eps) ^ n * (1 - eps)"
      using Suc assms(1) by (intro mult_right_mono) simp_all
    moreover have "0 \<le> of_nat n * eps * eps" using eps_nonneg by simp
    ultimately show ?case by (simp add: algebra_simps)
  qed simp
  show "(1 + eps) ^ n \<le> 1 + 2 * of_nat n * eps"
    using assms(2)
  proof (induction n)
    case (Suc n)
    have small: "2 * of_nat n * eps \<le> 1" using Suc.prems eps_nonneg by (simp add: algebra_simps)
    have "(1 + eps) ^ n * (1 + eps) \<le> (1 + 2 * of_nat n * eps) * (1 + eps)"
      using Suc.IH [OF small] eps_nonneg by (intro mult_right_mono) simp_all
    moreover have "2 * of_nat n * eps * eps \<le> 1 * eps"
      using small eps_nonneg by (intro mult_right_mono) simp_all
    ultimately show ?case by (simp add: algebra_simps)
  qed simp
qed

lemma near_error:
  assumes "near n x y" "eps \<le> 1" "2 * of_nat n * eps \<le> 1"
  shows "\<bar>x - y\<bar> \<le> y * (2 * of_nat n * eps)"
proof -
  have y: "0 \<le> y" "y * (1 - eps) ^ n \<le> x" "x \<le> y * (1 + eps) ^ n" using assms(1) by (simp_all add: near_def)
  have "y * (1 - of_nat n * eps) \<le> y * (1 - eps) ^ n" "y * (1 + eps) ^ n \<le> y * (1 + 2 * of_nat n * eps)"
    using bernoulli [OF assms(2,3)] y(1) by (simp_all add: mult_left_mono)
  then have "y - y * (of_nat n * eps) \<le> x" "x \<le> y + y * (2 * of_nat n * eps)"
    using y(2,3) by (simp_all add: algebra_simps)
  moreover have "0 \<le> y * (of_nat n * eps)" using y(1) eps_nonneg by simp
  ultimately show ?thesis by (simp add: abs_le_iff algebra_simps)
qed

lemma near_sum:
  assumes "eps \<le> 1"
  shows "near n a x \<Longrightarrow> \<forall>v\<in>set vs. 0 \<le> v \<Longrightarrow>
    near (n + length vs) (foldl (\<lambda>a v. rnd (a + v)) a vs) (x + sum_list vs)"
proof (induction vs arbitrary: n a x)
  case (Cons v vs)
  have "near n v v" using near_mono [OF near_refl [of v], of n] Cons.prems(2) assms by simp
  from near_round [OF near_add [OF Cons.prems(1) this] assms]
  show ?case using Cons.IH [of "Suc n" "rnd (a + v)" "x + v"] Cons.prems(2) by (simp add: add.assoc)
qed simp

end

section \<open>The calculated average\<close>

lemma ema_step_near:
  assumes "positive price" "positive ema" "r34e.near n (dval ema) x"
  obtains e where "ema_step price ema = Inr e" "positive e"
    "r34e.near (n + 2) (dval e) (ema_next (dval price) x)"
proof -
  have fin: "is_finite price" "is_finite ema" "0 < dval price" "0 < dval ema"
    using assms(1,2) by (simp_all add: positive_iff)
  define a b where "a = round_sig 34 (1 / 5 * dval price)" and "b = round_sig 34 (4 / 5 * dval ema)"
  have pos: "0 < a" "0 < b" unfolding a_def b_def using fin by (simp_all add: round_sig_pos)
  have "ema_step price ema = Inr (dec_of False (round_sig 34 (a + b)))"
  proof -
    have "mul_at 34 (Fin (1 / 5)) price = Inr (Fin a)" "mul_at 34 (Fin (4 / 5)) ema = Inr (Fin b)"
      using fin pos by (cases price; cases ema; simp add: mul_at_finite dec_of_def a_def b_def)+
    then show ?thesis by (simp add: ema_step_def add_at_finite)
  qed
  moreover have "positive (dec_of False (round_sig 34 (a + b)))"
    using pos by (simp add: positive_iff round_sig_pos)
  moreover have "r34e.near (Suc n) a (1 / 5 * dval price)"
  proof -
    have "r34e.near n (1 / 5 * dval price) (1 / 5 * dval price)"
      by (rule r34e.near_mono [OF r34e.near_refl]) (use fin in simp_all)
    then show ?thesis unfolding a_def by (rule r34e.near_round) simp
  qed
  moreover have "r34e.near (Suc n) b (4 / 5 * x)"
    unfolding b_def by (rule r34e.near_round [OF r34e.near_scale [OF assms(3)]]) simp_all
  ultimately show ?thesis
    using that r34e.near_round [OF r34e.near_add, of "Suc n" a "1 / 5 * dval price" b "4 / 5 * x"]
    by (simp add: ema_next_def)
qed

lemma ema_steps_near:
  "list_all positive ps \<Longrightarrow> positive ema \<Longrightarrow> r34e.near n (dval ema) x \<Longrightarrow>
   \<exists>es. ema_steps ema ps = Inr es \<and> list_all positive es \<and> length es = length ps \<and>
     (\<forall>k<length es. r34e.near (n + 2 * Suc k) (dval (es ! k)) (ema_exact_steps x (map dval ps) ! k))"
proof (induction ps arbitrary: ema n x)
  case (Cons p ps)
  obtain e where e: "ema_step p ema = Inr e" "positive e"
    "r34e.near (n + 2) (dval e) (ema_next (dval p) x)"
    using ema_step_near [of p ema n x] Cons.prems by auto
  obtain es where es: "ema_steps e ps = Inr es" "list_all positive es" "length es = length ps"
    "\<forall>k<length es. r34e.near (n + 2 + 2 * Suc k) (dval (es ! k))
       (ema_exact_steps (ema_next (dval p) x) (map dval ps) ! k)"
    using Cons.IH [OF _ e(2,3)] Cons.prems(1) by auto
  show ?case
    using e es by (auto simp: Let_def nth_Cons split: nat.splits)
qed simp

lemma ema_series_near:
  assumes "9 \<le> length ps" "list_all positive ps"
  obtains es where "calculate_ema9_series ps = Inr es" "list_all positive es" "length es = length ps - 8"
    "\<And>k. k < length es \<Longrightarrow> r34e.near (10 + 2 * k) (dval (es ! k)) (ema_exact (map dval ps) ! k)"
proof -
  have first: "list_all positive (take 9 ps)" "list_all positive (drop 9 ps)" "length (take 9 ps) = 9"
    using assms by (auto simp: list_all_iff dest: in_set_takeD in_set_dropD)
  then have vals: "\<forall>v\<in>set (take 9 ps). is_finite v" "\<forall>v\<in>set (map dval (take 9 ps)). 0 < v"
    by (auto simp: list_all_iff positive_iff)
  obtain total where total: "sum_at 34 dzero (take 9 ps) = Inr total" "is_finite total"
    "dval total = sum_sig 34 0 (map dval (take 9 ps))"
    using sum_at_finite [OF _ vals(1), of dzero 34] by auto
  have near: "r34e.near 9 (dval total) (sum_list (map dval (take 9 ps)))"
    using r34e.near_sum [OF _ r34e.near_refl [of 0], of "map dval (take 9 ps)"] vals(2) first(3)
    by (simp add: total(3) sum_sig_def less_imp_le)
  have pos: "0 < dval total"
    unfolding total(3) by (rule sum_sig_pos) (use vals(2) first(3) in \<open>auto simp del: length_take\<close>)
  define seed where "seed = dec_of False (round_sig 34 (dval total / 9))"
  have "div_at 34 total (Fin 9) = Inr seed"
    using total(2) pos by (cases total) (simp_all add: finite_arith seed_def)
  moreover have "positive seed" using pos by (simp add: seed_def positive_iff round_sig_pos)
  moreover have seed: "r34e.near 10 (dval seed) (sum_list (take 9 (map dval ps)) / 9)"
    using r34e.near_round [OF r34e.near_scale [OF near, of "1 / 9"]]
    by (simp add: seed_def take_map)
  moreover obtain es where es: "ema_steps seed (drop 9 ps) = Inr es" "list_all positive es"
    "length es = length (drop 9 ps)"
    "\<forall>k<length es. r34e.near (10 + 2 * Suc k) (dval (es ! k))
       (ema_exact_steps (sum_list (take 9 (map dval ps)) / 9) (map dval (drop 9 ps)) ! k)"
    using ema_steps_near [OF first(2) \<open>positive seed\<close> seed] by auto
  ultimately have run: "calculate_ema9_series ps = Inr (seed # es)" "list_all positive (seed # es)"
    "length (seed # es) = length ps - 8"
    using assms total(1) by (simp_all add: calculate_ema9_series_def)
  have "r34e.near (10 + 2 * k) (dval ((seed # es) ! k)) (ema_exact (map dval ps) ! k)"
    if "k < length (seed # es)" for k
    using that seed es(4) by (cases k) (simp_all add: ema_exact_def Let_def drop_map)
  from that [OF run this] show ?thesis .
qed

text \<open>The relative error of an average after \<open>k\<close> further prices.\<close>

lemma ema_series_error:
  assumes "9 \<le> length ps" "list_all positive ps" "calculate_ema9_series ps = Inr es" "k < length es"
    "k \<le> 10 ^ 30"
  shows "\<bar>dval (es ! k) - ema_exact (map dval ps) ! k\<bar> \<le>
    ema_exact (map dval ps) ! k * (of_nat (10 + 2 * k) / 10 ^ 33)"
proof -
  have near: "r34e.near (10 + 2 * k) (dval (es ! k)) (ema_exact (map dval ps) ! k)"
    using ema_series_near [OF assms(1,2)] assms(3,4) by (metis sum.inject(2))
  have "(of_nat (10 + 2 * k) :: rat) \<le> of_nat (10 + 2 * 10 ^ 30)" using assms(5) by (subst of_nat_le_iff) simp
  then have "2 * of_nat (10 + 2 * k) * (1 / (2 * 10 ^ 33)) \<le> (1 :: rat)" by simp
  from r34e.near_error [OF near _ this]
  show ?thesis by (rule order_trans) (simp_all add: field_simps)
qed

section \<open>The calculated slope\<close>

context relative_rounding
begin

lemma round_error:
  assumes "\<bar>x - y\<bar> \<le> E" "\<bar>x\<bar> \<le> B"
  shows "\<bar>rnd x - y\<bar> \<le> E + B * eps"
proof -
  have "\<bar>rnd x - x\<bar> \<le> \<bar>x\<bar> * eps" by (rule relative)
  also have "\<dots> \<le> B * eps" using assms(2) eps_nonneg by (intro mult_right_mono) simp_all
  finally show ?thesis using assms(1) by linarith
qed

lemma round_size:
  assumes "\<bar>x\<bar> \<le> B"
  shows "\<bar>rnd x\<bar> \<le> B + B * eps"
  using round_error [of x x 0 B] assms by linarith

text \<open>A rounded sum of at most \<open>n\<close> numbers of a bounded size.\<close>

lemma sum_error:
  assumes "2 * of_nat n * eps \<le> 1" "0 \<le> B"
  shows "\<bar>a - x\<bar> \<le> E \<Longrightarrow> \<bar>a\<bar> \<le> 2 * of_nat k * B \<Longrightarrow> \<forall>v\<in>set vs. \<bar>v\<bar> \<le> B \<Longrightarrow> k + length vs \<le> n \<Longrightarrow>
    \<bar>foldl (\<lambda>a v. rnd (a + v)) a vs - (x + sum_list vs)\<bar> \<le> E + of_nat (length vs) * (2 * of_nat n * B * eps)"
proof (induction vs arbitrary: a x E k)
  case (Cons v vs)
  define C where "C = (2 * of_nat k + 1) * B"
  have "\<bar>v\<bar> \<le> B" using Cons.prems(3) by simp
  then have size: "\<bar>a + v\<bar> \<le> C" using Cons.prems(2) by (simp add: C_def ring_distribs)
  have "2 * of_nat k + 1 \<le> 2 * (of_nat n :: rat)"
    using Cons.prems(4) of_nat_le_iff [of "Suc k" n, where 'a = rat] by (simp del: of_nat_le_iff)
  then have "(2 * of_nat k + 1) * (B * eps) \<le> 2 * of_nat n * (B * eps)"
    using assms(2) eps_nonneg by (intro mult_right_mono) simp_all
  then have step: "C * eps \<le> 2 * of_nat n * B * eps" by (simp add: C_def mult.assoc)
  have "2 * of_nat n * B * eps \<le> B"
    using mult_right_mono [OF assms(1,2)] by (simp add: ac_simps)
  with step have next_size: "C + C * eps \<le> 2 * of_nat (Suc k) * B" by (simp add: C_def algebra_simps)
  have "\<bar>rnd (a + v) - (x + v)\<bar> \<le> E + 2 * of_nat n * B * eps"
    using round_error [of "a + v" "x + v" E C] Cons.prems(1) size step by simp
  moreover have "\<bar>rnd (a + v)\<bar> \<le> 2 * of_nat (Suc k) * B" using round_size [OF size] next_size by linarith
  ultimately show ?case
    using Cons.IH [of "rnd (a + v)" "x + v" "E + 2 * of_nat n * B * eps" "Suc k"] Cons.prems(3,4)
    by (simp add: algebra_simps)
qed simp

text \<open>One term of the numerator, with a mean that carries an error of 14 roundings.\<close>

lemma term_error:
  assumes "\<bar>v\<bar> \<le> M" "\<bar>m\<bar> \<le> M" "\<bar>m' - m\<bar> \<le> 14 * (M * eps)" "\<bar>c\<bar> \<le> 5 / 2" "eps \<le> 1 / 1000"
  shows "\<bar>rnd (c * rnd (v - m')) - c * (v - m)\<bar> \<le> 51 * (M * eps)" "\<bar>rnd (c * rnd (v - m'))\<bar> \<le> 6 * M"
proof -
  define w where "w = M * eps"
  have M: "0 \<le> M" using assms(1) by linarith
  then have w: "0 \<le> w" "w \<le> M / 1000"
    using eps_nonneg mult_left_mono [OF assms(5) M] by (simp_all add: w_def)
  define y where "y = rnd (v - m')"
  have "\<bar>v - m'\<bar> \<le> 3 * M" using assms(1-3) w unfolding w_def [symmetric] by linarith
  then have y: "\<bar>y - (v - m)\<bar> \<le> 17 * w"
    using round_error [of "v - m'" "v - m" "14 * w" "3 * M"] assms(3) by (simp add: y_def w_def)
  have "\<bar>c * y - c * (v - m)\<bar> = \<bar>c\<bar> * \<bar>y - (v - m)\<bar>" by (simp add: abs_mult [symmetric] right_diff_distrib)
  also have "\<dots> \<le> 5 / 2 * (17 * w)" using assms(4) y by (intro mult_mono) simp_all
  finally have near: "\<bar>c * y - c * (v - m)\<bar> \<le> 85 / 2 * w" by simp
  have "\<bar>c * (v - m)\<bar> \<le> 5 / 2 * (2 * M)"
    unfolding abs_mult using assms(1,2,4) by (intro mult_mono) simp_all
  then have exact: "\<bar>c * (v - m)\<bar> \<le> 5 * M" by simp
  then have "\<bar>c * y\<bar> \<le> 17 / 2 * M" using near w by linarith
  from round_error [OF near this] have "\<bar>rnd (c * y) - c * (v - m)\<bar> \<le> 51 * w" by (simp add: w_def)
  then show "\<bar>rnd (c * rnd (v - m')) - c * (v - m)\<bar> \<le> 51 * (M * eps)" "\<bar>rnd (c * rnd (v - m'))\<bar> \<le> 6 * M"
    using exact w unfolding y_def w_def by linarith+
qed

end

definition sum34 :: "rat list \<Rightarrow> rat" where
  "sum34 = sum_sig 34 0"

text \<open>The slope of the numbers, each operation rounded.\<close>

definition slope_rounded :: "rat list \<Rightarrow> rat" where
  "slope_rounded vs =
     (let m = round_sig 34 (sum34 vs / 6) in
      round_sig 34 (sum34 (map (\<lambda>(i, v). round_sig 34 ((of_nat i - 5 / 2) * round_sig 34 (v - m)))
        (zip [0..<6] vs)) / (35 / 2)))"

lemma upt_six: "[0..<6] = [0, 1, 2, 3, 4, 5]"
  by (simp add: upt_rec eval_nat_numeral)

lemma six_values:
  assumes "length vs = 6"
  obtains a b c d e f where "vs = [a, b, c, d, e, f]"
  using assms by (auto simp: eval_nat_numeral length_Suc_conv)

lemma six_errors:
  fixes E :: rat
  assumes "\<bar>a - a'\<bar> \<le> E" "\<bar>b - b'\<bar> \<le> E" "\<bar>c - c'\<bar> \<le> E" "\<bar>d - d'\<bar> \<le> E" "\<bar>e - e'\<bar> \<le> E" "\<bar>f - f'\<bar> \<le> E"
  shows "\<bar>a + (b + (c + (d + (e + f)))) - (a' + (b' + (c' + (d' + (e' + f')))))\<bar> \<le> 6 * E"
  using assms unfolding abs_le_iff by linarith

lemma round_quarter:
  assumes "\<bar>c\<bar> < 10 ^ 30"
  shows "round_sig 34 (of_int c / 4) = of_int c / 4"
  by (rule round_sig_exact [of _ "25 * c" "-2"]) (use assms in \<open>simp_all add: pow10_def abs_mult\<close>)

lemma x_offset_value:
  assumes "i < 6"
  shows "\<exists>x. x_offset i = Inr x \<and> is_finite x \<and> dval x = of_nat i - 5 / 2"
proof -
  have eq: "of_int (4 * int i - 10) / 4 = (of_nat i - 5 / 2 :: rat)" by (simp add: field_simps)
  have "\<bar>4 * int i - 10\<bar> < 10 ^ 30" using assms by simp
  from round_quarter [OF this] have "round_sig 34 (of_nat i - 5 / 2) = of_nat i - 5 / 2" unfolding eq .
  then show ?thesis by (simp add: x_offset_def sub_at_finite)
qed

lemma offset_squares:
  "sum34 (map (\<lambda>i. round_sig 34 ((of_nat i - 5 / 2) * (of_nat i - 5 / 2))) [0..<6]) = 35 / 2"
proof -
  have exact: "round_sig 34 (25 / 4) = 25 / 4" "round_sig 34 (9 / 4) = 9 / 4" "round_sig 34 (1 / 4) = 1 / 4"
    "round_sig 34 (17 / 2) = 17 / 2" "round_sig 34 (35 / 4) = 35 / 4" "round_sig 34 9 = 9"
    "round_sig 34 (45 / 4) = 45 / 4" "round_sig 34 (35 / 2) = 35 / 2"
    using round_quarter [of 25] round_quarter [of 9] round_quarter [of 1] round_quarter [of 34]
      round_quarter [of 35] round_quarter [of 36] round_quarter [of 45] round_quarter [of 70] by simp_all
  show ?thesis by (simp add: sum34_def upt_six exact)
qed

lemma sum34_at:
  assumes "list_all2 (\<lambda>x y. is_finite y \<and> dval y = g x) xs ys"
  obtains z where "sum_at 34 dzero ys = Inr z" "is_finite z" "dval z = sum34 (map g xs)"
proof -
  have "(\<forall>y\<in>set ys. is_finite y) \<and> map dval ys = map g xs"
    using assms by (induction rule: list_all2_induct) auto
  then show ?thesis using sum_at_finite [of dzero ys 34] that by (auto simp: sum34_def)
qed

lemma slope_term_value:
  assumes "i < 6" "is_finite v" "is_finite m"
  shows "\<exists>y. slope_term m (i, v) = Inr y \<and> is_finite y \<and>
    dval y = round_sig 34 ((of_nat i - 5 / 2) * round_sig 34 (dval v - dval m))"
  using x_offset_value [OF assms(1)] assms(2,3)
  by (auto simp: slope_term_def sub_at_finite mul_at_finite)

lemma raw_slope_value:
  assumes "length vs = 6" "\<forall>v\<in>set vs. is_finite v"
  obtains raw where "calculate_raw_ols_slope vs = Inr raw" "is_finite raw"
    "dval raw = slope_rounded (map dval vs)"
proof -
  obtain total where total: "sum_at 34 dzero vs = Inr total" "is_finite total"
    "dval total = sum34 (map dval vs)"
    using sum_at_finite [of dzero vs 34] assms(2) by (auto simp: sum34_def)
  obtain mean where mean: "div_at 34 total (Fin 6) = Inr mean" "is_finite mean"
    "dval mean = round_sig 34 (sum34 (map dval vs) / 6)"
    using total by (simp add: div_at_finite)
  define f where "f = (\<lambda>(i, v). round_sig 34 ((of_nat i - 5 / 2) * round_sig 34 (dval v - dval mean)))"
  have "\<forall>iv\<in>set (zip [0..<6] vs). \<exists>y. slope_term mean iv = Inr y \<and> is_finite y \<and> dval y = f iv"
  proof clarify
    fix i v assume "(i, v) \<in> set (zip [0..<6] vs)"
    then have "i < 6" "is_finite v" using assms(2) set_zip_leftD set_zip_rightD by fastforce+
    from slope_term_value [OF this mean(2)]
    show "\<exists>y. slope_term mean (i, v) = Inr y \<and> is_finite y \<and> dval y = f (i, v)" by (simp add: f_def)
  qed
  then obtain terms where terms: "map_res (slope_term mean) (zip [0..<6] vs) = Inr terms"
    "list_all2 (\<lambda>iv y. is_finite y \<and> dval y = f iv) (zip [0..<6] vs) terms"
    by (rule map_res_defined)
  obtain num where num: "sum_at 34 dzero terms = Inr num" "is_finite num"
    "dval num = sum34 (map f (zip [0..<6] vs))"
    by (rule sum34_at [OF terms(2)])
  define g where "g = (\<lambda>i::nat. round_sig 34 ((of_nat i - 5 / 2) * (of_nat i - 5 / 2)))"
  have "\<forall>i\<in>set [0..<6]. \<exists>y. ebind (x_offset i) (\<lambda>x. mul_at 34 x x) = Inr y \<and> is_finite y \<and> dval y = g i"
    using x_offset_value by (fastforce simp: mul_at_finite g_def)
  then obtain squares where squares:
    "map_res (\<lambda>i. ebind (x_offset i) (\<lambda>x. mul_at 34 x x)) [0..<6] = Inr squares"
    "list_all2 (\<lambda>i y. is_finite y \<and> dval y = g i) [0..<6] squares"
    by (rule map_res_defined)
  obtain den where den: "sum_at 34 dzero squares = Inr den" "is_finite den" "dval den = 35 / 2"
    using sum34_at [OF squares(2)] unfolding g_def offset_squares by blast
  have "zip [0..<6] (map dval vs) = map (\<lambda>(i, v). (i, dval v)) (zip [0..<6] vs)"
    by (simp add: zip_map2)
  then have "sum34 (map f (zip [0..<6] vs)) = sum34 (map (\<lambda>(i, v).
      round_sig 34 ((of_nat i - 5 / 2) * round_sig 34 (v - dval mean))) (zip [0..<6] (map dval vs)))"
    by (simp add: f_def comp_def case_prod_beta')
  then show ?thesis
    using that assms total mean terms(1) num squares(1) den
    by (simp add: calculate_raw_ols_slope_def list_all_iff div_at_finite slope_rounded_def Let_def)
qed

lemma slope_rounded_error:
  assumes "length vs = 6" "\<forall>v\<in>set vs. \<bar>v\<bar> \<le> M"
  shows "\<bar>slope_rounded vs - slope_exact vs\<bar> \<le> 50 * (M / (2 * 10 ^ 33))"
proof -
  define w where "w = M * (1 / (2 * 10 ^ 33))"
  have "vs \<noteq> []" using assms(1) by auto
  with assms(2) have M: "0 \<le> M" by (cases vs) (auto intro: order_trans [OF abs_ge_zero])
  then have w: "0 \<le> w" "w \<le> M / 1000" by (simp_all add: w_def)
  define s m m' where "s = sum_list vs" and "m = s / 6" and "m' = round_sig 34 (sum34 vs / 6)"
  have s: "\<bar>sum34 vs - s\<bar> \<le> 72 * w"
    using r34e.sum_error [of 6 M 0 0 0 0 vs] assms M by (simp add: sum34_def sum_sig_def s_def w_def)
  obtain a b c d e f where vs: "vs = [a, b, c, d, e, f]" by (rule six_values [OF assms(1)])
  have v: "\<bar>a\<bar> \<le> M" "\<bar>b\<bar> \<le> M" "\<bar>c\<bar> \<le> M" "\<bar>d\<bar> \<le> M" "\<bar>e\<bar> \<le> M" "\<bar>f\<bar> \<le> M" using assms(2) vs by simp_all
  have sm: "s = a + (b + (c + (d + (e + f))))" by (simp add: s_def vs)
  have "\<bar>s\<bar> \<le> 6 * M" unfolding sm abs_le_iff using v [unfolded abs_le_iff] by linarith
  then have m: "\<bar>m\<bar> \<le> M" by (simp add: m_def)
  have "\<bar>sum34 vs / 6 - m\<bar> \<le> 12 * w" "\<bar>sum34 vs / 6\<bar> \<le> 2 * M"
    using s m w M unfolding m_def by linarith+
  from r34e.round_error [OF this] have m': "\<bar>m' - m\<bar> \<le> 14 * w" by (simp add: m'_def w_def)
  define t where "t = (\<lambda>i v. round_sig 34 ((of_nat i - 5 / 2) * round_sig 34 (v - m')))"
  have t: "\<bar>t i v - (of_nat i - 5 / 2) * (v - m)\<bar> \<le> 51 * w" "\<bar>t i v\<bar> \<le> 6 * M" if "i \<in> {0, 1, 2, 3, 4, 5}" "\<bar>v\<bar> \<le> M" for i :: nat and v
    unfolding t_def w_def
  proof -
    have "(0 :: rat) \<le> of_nat i" "of_nat i \<le> (5 :: rat)" using that(1) by auto
    then have "\<bar>of_nat i - 5 / 2 :: rat\<bar> \<le> 5 / 2" unfolding abs_le_iff by linarith
    from r34e.term_error [OF that(2) m _ this, of m'] m'
    show "\<bar>round_sig 34 ((of_nat i - 5 / 2) * round_sig 34 (v - m')) - (of_nat i - 5 / 2) * (v - m)\<bar>
        \<le> 51 * (M * (1 / (2 * 10 ^ 33)))"
      "\<bar>round_sig 34 ((of_nat i - 5 / 2) * round_sig 34 (v - m'))\<bar> \<le> 6 * M"
      by (simp_all add: w_def)
  qed
  define ts where "ts = map (\<lambda>(i, v). t i v) (zip [0..<6] vs)"
  have ts: "ts = [t 0 a, t 1 b, t 2 c, t 3 d, t 4 e, t 5 f]"
    by (simp add: ts_def vs upt_six)
  define num where "num = -5/2 * a + (-3/2 * b + (-1/2 * c + (1/2 * d + (3/2 * e + 5/2 * f))))"
  have "\<bar>sum_list ts - num\<bar> \<le> 306 * w"
  proof -
    have eq: "num = -5/2 * (a - m) + (-3/2 * (b - m) + (-1/2 * (c - m) + (1/2 * (d - m) + (3/2 * (e - m) + 5/2 * (f - m)))))"
      unfolding num_def by (simp add: field_simps)
    have sum: "sum_list ts = t 0 a + (t 1 b + (t 2 c + (t 3 d + (t 4 e + t 5 f))))" by (simp add: ts)
    have ea: "\<bar>t 0 a - -5/2 * (a - m)\<bar> \<le> 51 * w" using t(1) [OF _ v(1), of 0] by simp
    have eb: "\<bar>t 1 b - -3/2 * (b - m)\<bar> \<le> 51 * w" using t(1) [OF _ v(2), of 1] by simp
    have ec: "\<bar>t 2 c - -1/2 * (c - m)\<bar> \<le> 51 * w" using t(1) [OF _ v(3), of 2] by simp
    have ed: "\<bar>t 3 d - 1/2 * (d - m)\<bar> \<le> 51 * w" using t(1) [OF _ v(4), of 3] by simp
    have ee: "\<bar>t 4 e - 3/2 * (e - m)\<bar> \<le> 51 * w" using t(1) [OF _ v(5), of 4] by simp
    have ef: "\<bar>t 5 f - 5/2 * (f - m)\<bar> \<le> 51 * w" using t(1) [OF _ v(6), of 5] by simp
    show ?thesis using six_errors [OF ea eb ec ed ee ef] unfolding eq sum by simp
  qed
  moreover have "\<bar>sum34 ts - sum_list ts\<bar> \<le> 432 * w"
    using r34e.sum_error [of 6 "6 * M" 0 0 0 0 ts] t(2) v M by (simp add: ts sum34_def sum_sig_def w_def)
  ultimately have n: "\<bar>sum34 ts - num\<bar> \<le> 738 * w" by linarith
  have "\<bar>num\<bar> \<le> 9 * M" unfolding num_def abs_le_iff using v [unfolded abs_le_iff] by linarith
  then have "\<bar>sum34 ts / (35 / 2) - num / (35 / 2)\<bar> \<le> 43 * w" "\<bar>sum34 ts / (35 / 2)\<bar> \<le> 2 * M"
    using n w by simp_all
  from r34e.round_error [OF this]
  have "\<bar>round_sig 34 (sum34 ts / (35 / 2)) - num / (35 / 2)\<bar> \<le> 50 * w" using w by (simp add: w_def)
  moreover have "slope_rounded vs = round_sig 34 (sum34 ts / (35 / 2))"
    by (simp add: slope_rounded_def Let_def ts_def t_def m'_def)
  moreover have "slope_exact vs = num / (35 / 2)"
    by (simp add: slope_exact_def num_def vs upt_six)
  ultimately have "\<bar>slope_rounded vs - slope_exact vs\<bar> \<le> 50 * w" by simp
  then show ?thesis by (simp add: w_def)
qed

text \<open>
  The slope is positively homogeneous and the mean falls out; its size is below the largest value.
\<close>

lemma slope_exact_bound:
  assumes "length vs = 6" "\<forall>v\<in>set vs. \<bar>v\<bar> \<le> M"
  shows "\<bar>slope_exact vs\<bar> \<le> M"
proof -
  obtain a b c d e f where vs: "vs = [a, b, c, d, e, f]" by (rule six_values [OF assms(1)])
  define num where "num = -5/2 * a + (-3/2 * b + (-1/2 * c + (1/2 * d + (3/2 * e + 5/2 * f))))"
  have "\<bar>a\<bar> \<le> M" "\<bar>b\<bar> \<le> M" "\<bar>c\<bar> \<le> M" "\<bar>d\<bar> \<le> M" "\<bar>e\<bar> \<le> M" "\<bar>f\<bar> \<le> M" using assms(2) vs by simp_all
  then have "\<bar>num\<bar> \<le> 9 * M" unfolding num_def abs_le_iff by linarith
  moreover have "slope_exact vs = num / (35 / 2)"
    by (simp add: slope_exact_def num_def vs upt_six)
  ultimately show ?thesis by simp
qed

lemma normalized_slope_accurate:
  assumes "length vs = 6" "\<forall>v\<in>set vs. is_finite v \<and> \<bar>dval v\<bar> \<le> M" "positive price"
    "M \<le> 10 ^ 20 * dval price"
  obtains s where "calculate_normalized_ols_slope vs price = Inr s" "is_finite s"
    "\<bar>dval s - 100 * slope_exact (map dval vs) / dval price\<bar> \<le> 1 / 10 ^ 8"
proof -
  have p: "is_finite price" "0 < dval price" using assms(3) by (simp_all add: positive_iff)
  obtain raw where raw: "calculate_raw_ols_slope vs = Inr raw" "is_finite raw"
    "dval raw = slope_rounded (map dval vs)"
    by (rule raw_slope_value [OF assms(1)]) (use assms(2) in blast)+
  define r x where "r = M / dval price" and "x = slope_exact (map dval vs) / dval price"
  have lists: "length (map dval vs) = 6" "\<forall>v\<in>set (map dval vs). \<bar>v\<bar> \<le> M" using assms(1,2) by auto
  have r: "r \<le> 10 ^ 20" using assms(4) p(2) by (simp add: r_def divide_le_eq)
  have x: "\<bar>x\<bar> \<le> r" using slope_exact_bound [OF lists] p(2) by (simp add: x_def r_def divide_right_mono)
  define w where "w = r * (1 / (2 * 10 ^ 33))"
  have w: "0 \<le> w" "w \<le> r / 1000" "w \<le> 1 / (2 * 10 ^ 13)" using x r by (simp_all add: w_def)
  have "\<bar>dval raw / dval price - x\<bar> = \<bar>slope_rounded (map dval vs) - slope_exact (map dval vs)\<bar> / dval price"
    using p(2) by (simp add: x_def raw(3) diff_divide_distrib [symmetric])
  also have "\<dots> \<le> 50 * (M / (2 * 10 ^ 33)) / dval price"
    using slope_rounded_error [OF lists] p(2) by (intro divide_right_mono) simp_all
  also have "\<dots> = 50 * w" by (simp add: w_def r_def)
  finally have q0: "\<bar>dval raw / dval price - x\<bar> \<le> 50 * w" .
  then have "\<bar>dval raw / dval price\<bar> \<le> 2 * r" using x w by linarith
  from r34e.round_error [OF q0 this]
  have q: "\<bar>round_sig 34 (dval raw / dval price) - x\<bar> \<le> 52 * w" by (simp add: w_def)
  define q' where "q' = round_sig 34 (dval raw / dval price)"
  have "\<bar>q' * 100 - 100 * x\<bar> \<le> 5200 * w" "\<bar>q' * 100\<bar> \<le> 200 * r"
    using q x w unfolding q'_def [symmetric] by linarith+
  from r34e.round_error [OF this]
  have m: "\<bar>round_sig 34 (q' * 100) - 100 * x\<bar> \<le> 5400 * w" by (simp add: w_def)
  obtain y where y: "ebind (div_at 34 raw price) (\<lambda>q. mul_at 34 q (Fin 100)) = Inr y" "is_finite y"
    "dval y = round_sig 34 (q' * 100)"
    using raw(2) p by (simp add: div_at_finite mul_at_finite q'_def)
  have "\<bar>dval y\<bar> \<le> 5400 * w + 100 * r" using m x unfolding y(3) by linarith
  also have "\<dots> \<le> 10 ^ 25" using r w by simp
  finally have "\<bar>dval y\<bar> \<le> 10 ^ 25" .
  from quantize_rate_defined [OF y(2) this] obtain s where s: "quantize_rate y = Inr s" .
  have "\<bar>dval s - 100 * x\<bar> \<le> 1 / 10 ^ 8"
  proof -
    have "\<bar>dval s - 100 * x\<bar> \<le> 1 / (2 * 10 ^ 8) + 5400 * w"
      using quantize_rate_error [OF s y(2)] m unfolding y(3) by linarith
    also have "\<dots> \<le> 1 / 10 ^ 8" using w(3) by simp
    finally show ?thesis .
  qed
  moreover have "normalize_ols_slope raw price =
      ebind (ebind (div_at 34 raw price) (\<lambda>q. mul_at 34 q (Fin 100))) quantize_rate"
    using raw(2) assms(3) by (simp add: normalize_ols_slope_def ebind_assoc)
  then have "calculate_normalized_ols_slope vs price = Inr s"
    by (simp add: calculate_normalized_ols_slope_def raw(1) y(1) s)
  ultimately show ?thesis
    using that quantize_rate_value(1) [OF s y(2)] by (simp add: x_def)
qed

text \<open>
  The candidate slope of one more price: the exact candidate average of the stored averages, the
  exact slope of the last six values, and an error of at most one unit of the eighth place.
\<close>

lemma candidate_values:
  assumes "5 \<le> length es" "list_all positive es" "positive price"
  obtains c where "ema_step price (last es) = Inr c" "positive c"
    "calculate_candidate_ema9_slope es price =
       calculate_normalized_ols_slope (last_values 5 es @ [c]) price"
    "length (last_values 5 es @ [c]) = 6"
proof -
  have "es \<noteq> []" using assms(1) by auto
  then have last: "positive (last es)" using assms(2) by (auto simp: list_all_iff)
  then have "r34e.near 0 (dval (last es)) (dval (last es))"
    by (intro r34e.near_refl) (simp add: positive_iff)
  from ema_step_near [OF assms(3) last this] obtain c where "ema_step price (last es) = Inr c" "positive c"
    by blast
  then show ?thesis
    using that assms(1,3) by (simp add: calculate_candidate_ema9_slope_def last_values_def)
qed

lemma candidate_slope_accurate:
  assumes "5 \<le> length es" "list_all positive es" "positive price" "ema_step price (last es) = Inr c"
    "\<forall>v\<in>set (last_values 5 es @ [c]). dval v \<le> 10 ^ 20 * dval price"
  obtains s where "calculate_candidate_ema9_slope es price = Inr s" "is_finite s"
    "\<bar>dval s - 100 * slope_exact (map dval (last_values 5 es @ [c])) / dval price\<bar> \<le> 1 / 10 ^ 8"
proof -
  obtain c' where c: "ema_step price (last es) = Inr c'" "positive c'"
    "calculate_candidate_ema9_slope es price =
       calculate_normalized_ols_slope (last_values 5 es @ [c']) price"
    "length (last_values 5 es @ [c']) = 6"
    by (rule candidate_values [OF assms(1-3)])
  have [simp]: "c' = c" using c(1) assms(4) by simp
  have pos: "\<forall>v\<in>set (last_values 5 es @ [c]). positive v"
    using c(2) assms(2) by (auto simp: last_values_def list_all_iff dest: in_set_dropD)
  have "\<forall>v\<in>set (last_values 5 es @ [c]). is_finite v \<and> \<bar>dval v\<bar> \<le> 10 ^ 20 * dval price"
    using pos assms(5) by (auto simp: positive_iff)
  from normalized_slope_accurate [OF _ this assms(3) order_refl] c(4)
  obtain s where "calculate_normalized_ols_slope (last_values 5 es @ [c]) price = Inr s" "is_finite s"
    "\<bar>dval s - 100 * slope_exact (map dval (last_values 5 es @ [c])) / dval price\<bar> \<le> 1 / 10 ^ 8"
    by auto
  then show ?thesis using that c(3) by simp
qed

end
