(* ===== verification/Market_Klines.thy ===== *)
theory Market_Klines
  imports Ledger_Values
begin

text \<open>
  The candles of the market (\<open>domain/market/kline.py\<close>) and the order of a stream of candles
  (\<open>domain/market/stream_ordering.py\<close>): a candle of one interval is accepted, repeated, stale, in
  conflict with the last one, or the late close of the candle before it.
\<close>

section \<open>Intervals\<close>

datatype interval = ONE_MINUTE | THIRTY_MINUTES | FOUR_HOURS | ONE_DAY

definition supported_intervals :: "interval list" where
  "supported_intervals = [ONE_MINUTE, THIRTY_MINUTES, FOUR_HOURS, ONE_DAY]"

fun interval_value :: "interval \<Rightarrow> string" where
  "interval_value ONE_MINUTE = ''1m''"
| "interval_value THIRTY_MINUTES = ''30m''"
| "interval_value FOUR_HOURS = ''4h''"
| "interval_value ONE_DAY = ''1d''"

text \<open>The durations, in microseconds.\<close>

fun interval_duration :: "interval \<Rightarrow> int" where
  "interval_duration ONE_MINUTE = 60000000"
| "interval_duration THIRTY_MINUTES = 1800000000"
| "interval_duration FOUR_HOURS = 14400000000"
| "interval_duration ONE_DAY = 86400000000"

lemma interval_duration_pos [simp]: "0 < interval_duration i"
  by (cases i) simp_all

lemma supported_intervals_all [simp]: "i \<in> set supported_intervals"
  by (cases i) (simp_all add: supported_intervals_def)

section \<open>Candles\<close>

record kline =
  kl_symbol :: string
  kl_interval :: interval
  kl_open_time :: moment
  kl_open :: decimal
  kl_high :: decimal
  kl_low :: decimal
  kl_close :: decimal
  kl_volume :: decimal
  kl_closed :: bool
  kl_event_time :: "moment option"

text \<open>The pattern \<open>[A-Z0-9]+\<close> of a symbol.\<close>

definition normalized_symbol_ok :: "string \<Rightarrow> bool" where
  "normalized_symbol_ok s \<longleftrightarrow> s \<noteq> [] \<and> list_all is_upper_alnum s"

definition normalize_optional_utc :: "moment option \<Rightarrow> moment option res" where
  "normalize_optional_utc m =
     (case m of None \<Rightarrow> Inr None | Some t \<Rightarrow> ebind (normalize_utc t) (\<lambda>u. Inr (Some u)))"

definition kline_prices_ok :: "kline \<Rightarrow> bool" where
  "kline_prices_ok k \<longleftrightarrow>
     positive (kl_open k) \<and> positive (kl_high k) \<and> positive (kl_low k) \<and> positive (kl_close k) \<and>
     non_negative (kl_volume k) \<and> \<not> dlt (dmin (kl_open k) [kl_close k]) (kl_low k) \<and>
     \<not> dlt (kl_high k) (dmax (kl_open k) (kl_close k))"

definition make_kline :: "kline \<Rightarrow> kline res" where
  "make_kline k =
     ebind (require (normalized_symbol_ok (kl_symbol k)) ValueError) (\<lambda>_.
     ebind (normalize_utc (kl_open_time k)) (\<lambda>t.
     ebind (normalize_optional_utc (kl_event_time k)) (\<lambda>e.
     ebind (require (kline_prices_ok k) ValueError) (\<lambda>_.
     Inr (k\<lparr>kl_open_time := t, kl_event_time := e\<rparr>)))))"

definition kline_ok :: "kline \<Rightarrow> bool" where
  "kline_ok k \<longleftrightarrow>
     normalized_symbol_ok (kl_symbol k) \<and> is_utc (kl_open_time k) \<and>
     opt_all is_utc (kl_event_time k) \<and> kline_prices_ok k"

abbreviation open_at :: "kline \<Rightarrow> int" where
  "open_at k \<equiv> instant (kl_open_time k)"

abbreviation close_boundary :: "kline \<Rightarrow> int" where
  "close_boundary k \<equiv> open_at k + interval_duration (kl_interval k)"

text \<open>What a constructed candle satisfies, and that construction gives nothing else.\<close>

lemma normalize_utc_eq_Inr: "normalize_utc m = Inr t \<longleftrightarrow> is_utc m \<and> t = m"
  by (cases m) (auto simp: normalize_utc_def is_utc_def utc_def)

lemma normalize_optional_utc_eq_Inr:
  "normalize_optional_utc m = Inr t \<longleftrightarrow> opt_all is_utc m \<and> t = m"
  by (cases m) (auto simp: normalize_optional_utc_def ebind_eq_Inr normalize_utc_eq_Inr)

lemma make_kline_eq_Inr: "make_kline k = Inr k' \<longleftrightarrow> kline_ok k \<and> k' = k"
  by (auto simp: make_kline_def kline_ok_def ebind_eq_Inr normalize_utc_eq_Inr
      normalize_optional_utc_eq_Inr)

lemma kline_prices:
  assumes "kline_ok k"
  shows "positive (kl_close k)" "dval (kl_low k) \<le> dval (kl_close k)"
    "dval (kl_close k) \<le> dval (kl_high k)" "positive (kl_low k)" "positive (kl_high k)"
proof -
  have p: "kline_prices_ok k" using assms by (simp add: kline_ok_def)
  then show "positive (kl_close k)" "positive (kl_low k)" "positive (kl_high k)"
    by (simp_all add: kline_prices_ok_def)
  have fin: "is_finite (kl_open k)" "is_finite (kl_close k)" "is_finite (kl_low k)" "is_finite (kl_high k)"
    using p by (simp_all add: kline_prices_ok_def)
  show "dval (kl_low k) \<le> dval (kl_close k)" "dval (kl_close k) \<le> dval (kl_high k)"
    using p fin dmin_le [of "kl_open k" "[kl_close k]"] dmin_finite [of "kl_open k" "[kl_close k]"]
      dmax_finite [of "kl_open k" "kl_close k"]
    by (auto simp: kline_prices_ok_def)
qed

text \<open>Equality of candles: numbers are compared as numbers and times as instants.\<close>

definition kline_norm :: "kline \<Rightarrow> kline" where
  "kline_norm k = k\<lparr>kl_open_time := utc (open_at k), kl_open := dnorm (kl_open k),
     kl_high := dnorm (kl_high k), kl_low := dnorm (kl_low k), kl_close := dnorm (kl_close k),
     kl_volume := dnorm (kl_volume k), kl_event_time := map_option (utc \<circ> instant) (kl_event_time k)\<rparr>"

definition kline_same :: "kline \<Rightarrow> kline \<Rightarrow> bool" where
  "kline_same a b \<longleftrightarrow> kline_norm a = kline_norm b"

lemma kline_same_refl [simp]: "kline_same k k"
  by (simp add: kline_same_def)

lemma utc_inject [simp]: "utc a = utc b \<longleftrightarrow> a = b"
  by (simp add: utc_def)

lemma kline_norm_sel:
  "kl_symbol (kline_norm k) = kl_symbol k" "kl_interval (kline_norm k) = kl_interval k"
  "kl_open_time (kline_norm k) = utc (open_at k)" "kl_closed (kline_norm k) = kl_closed k"
  by (simp_all add: kline_norm_def)

lemma kline_same_sel:
  assumes "kline_same a b"
  shows "kl_interval a = kl_interval b" "open_at a = open_at b" "kl_closed a = kl_closed b"
    "kl_symbol a = kl_symbol b"
proof -
  note eq = assms [unfolded kline_same_def]
  show "kl_interval a = kl_interval b" using arg_cong [OF eq, of kl_interval] by (simp add: kline_norm_sel)
  show "open_at a = open_at b" using arg_cong [OF eq, of kl_open_time] by (simp add: kline_norm_sel)
  show "kl_closed a = kl_closed b" using arg_cong [OF eq, of kl_closed] by (simp add: kline_norm_sel)
  show "kl_symbol a = kl_symbol b" using arg_cong [OF eq, of kl_symbol] by (simp add: kline_norm_sel)
qed

section \<open>The order of a stream\<close>

datatype kline_class = ACCEPT | DUPLICATE | STALE | CONFLICT | LATE_CLOSE

definition same_instant_class :: "kline \<Rightarrow> kline \<Rightarrow> kline_class" where
  "same_instant_class p c =
     (if kl_symbol p = kl_symbol c \<and> kl_interval p = kl_interval c \<and> kl_closed p \<and> \<not> kl_closed c \<and>
         open_at c = open_at p + interval_duration (kl_interval c) \<and>
         (case kl_event_time c of None \<Rightarrow> False | Some e \<Rightarrow> open_at c \<le> instant e)
      then ACCEPT
      else if open_at c = open_at p \<and> \<not> kl_closed p \<and> kl_closed c \<and>
              deq (kl_open c) (kl_open p) \<and> dle (kl_high p) (kl_high c) \<and>
              dle (kl_low c) (kl_low p) \<and> dle (kl_volume p) (kl_volume c)
      then ACCEPT
      else CONFLICT)"

definition classify_kline :: "kline \<Rightarrow> kline \<Rightarrow> kline_class res" where
  "classify_kline p c =
     (if kline_same p c then Inr DUPLICATE
      else if kl_closed p \<and> kl_closed c \<and> kline_same (p\<lparr>kl_event_time := kl_event_time c\<rparr>) c
      then Inr DUPLICATE
      else case (kl_event_time p, kl_event_time c) of
        (Some ep, Some ec) \<Rightarrow>
          Inr (if open_at c < open_at p
               then if kl_closed c \<and> \<not> kl_closed p \<and>
                       open_at c + interval_duration (kl_interval c) = open_at p
                    then LATE_CLOSE else STALE
               else if open_at c = open_at p \<and> kl_closed p \<and> \<not> kl_closed c then STALE
               else if instant ec < instant ep then STALE
               else if instant ec = instant ep then same_instant_class p c
               else if open_at c = open_at p \<and> kl_closed p then CONFLICT
               else ACCEPT)
      | _ \<Rightarrow> Inl ValueError)"

text \<open>An accepted candle moves the cursor forward, and a closed candle stays as it is.\<close>

lemma accepted_forward:
  assumes "classify_kline p c = Inr ACCEPT"
  obtains ep ec where "kl_event_time p = Some ep" "kl_event_time c = Some ec"
    "instant ep \<le> instant ec" "open_at p \<le> open_at c"
    "open_at c = open_at p \<Longrightarrow> \<not> kl_closed p"
    "instant ep = instant ec \<Longrightarrow> open_at c = open_at p \<Longrightarrow> kl_closed c"
  using assms
  by (auto simp: classify_kline_def same_instant_class_def split: if_splits option.splits
      intro: that)

lemma classify_total:
  "kl_event_time p \<noteq> None \<Longrightarrow> kl_event_time c \<noteq> None \<Longrightarrow> \<exists>r. classify_kline p c = Inr r"
  by (auto simp: classify_kline_def simp del: if_split split: if_split)

end
