(* ===== verification/Market_State.thy ===== *)
theory Market_State
  imports Market_Klines "HOL-Library.AList"
begin

text \<open>
  The snapshot of the market (\<open>domain/market/market_snapshot.py\<close>): the candles of all four
  intervals, replaced as a whole after they were deduplicated, sorted and checked for gaps and
  against the clock.  An update that raises leaves the snapshot as it is.
\<close>

section \<open>Checks\<close>

fun continuous :: "int \<Rightarrow> kline list \<Rightarrow> bool" where
  "continuous d (a # b # ks) \<longleftrightarrow> open_at b - open_at a = d \<and> continuous d (b # ks)"
| "continuous d _ \<longleftrightarrow> True"

definition kline_at_time :: "int \<Rightarrow> int \<Rightarrow> kline \<Rightarrow> bool" where
  "kline_at_time d now k \<longleftrightarrow>
     open_at k \<le> now \<and> (kl_closed k \<longrightarrow> open_at k + d \<le> now) \<and>
     (\<not> kl_closed k \<longrightarrow> open_at k \<le> now \<and> now < open_at k + d)"

definition four_hour_current :: "kline list \<Rightarrow> int \<Rightarrow> bool" where
  "four_hour_current ks now \<longleftrightarrow>
     list_all kl_closed (butlast ks) \<and> \<not> kl_closed (last ks) \<and>
     open_at (last ks) \<le> now \<and> now < open_at (last ks) + 14400000000"

section \<open>The snapshot\<close>

record market_state =
  ms_klines :: "interval \<Rightarrow> kline list"
  ms_price :: "decimal option"
  ms_version :: int
  ms_updated_at :: "moment option"
  ms_ready :: bool
  ms_sources :: "kline list"

definition empty_market :: market_state where
  "empty_market =
     \<lparr>ms_klines = (\<lambda>_. []), ms_price = None, ms_version = 0, ms_updated_at = None, ms_ready = False,
      ms_sources = []\<rparr>"

text \<open>A dictionary keeps the place of its first entry and the value of its last one.\<close>

definition dedup_klines :: "kline list \<Rightarrow> kline list" where
  "dedup_klines ks =
     map snd (fold (\<lambda>k. AList.update (kl_symbol k, kl_interval k, open_at k) k) ks [])"

definition prepare_klines :: "interval \<Rightarrow> kline list \<Rightarrow> kline list res" where
  "prepare_klines i ks =
     ebind (require (ks \<noteq> [] \<and> list_all (\<lambda>k. kl_symbol k = supported_symbol \<and> kl_interval k = i) ks)
       ValueError) (\<lambda>_.
     let sorted_klines = sort_key open_at (dedup_klines ks) in
     ebind (require (continuous (interval_duration i) sorted_klines) ValueError) (\<lambda>_.
     Inr sorted_klines))"

definition prepare_all :: "(interval \<rightharpoonup> kline list) \<Rightarrow> (interval \<Rightarrow> kline list) res" where
  "prepare_all m =
     ebind (require (list_all (\<lambda>i. m i \<noteq> None) supported_intervals) ValueError) (\<lambda>_.
     ebind (map_res (\<lambda>i. prepare_klines i (the (m i))) supported_intervals) (\<lambda>kss.
     Inr (\<lambda>i. the (map_of (zip supported_intervals kss) i))))"

definition check_sources :: "(interval \<Rightarrow> kline list) \<Rightarrow> kline list option \<Rightarrow> kline list res" where
  "check_sources next_klines sources =
     (case sources of
        None \<Rightarrow> Inr []
      | Some ks \<Rightarrow>
          ebind (require (ks \<noteq> [] \<and>
              list_all (\<lambda>k. list_ex (kline_same k) (next_klines (kl_interval k))) ks) ValueError) (\<lambda>_.
          Inr ks))"

text \<open>At most five seconds are taken over from an event that is ahead of the clock.\<close>

definition clock_skew :: int where
  "clock_skew = 5000000"

definition source_times :: "int \<Rightarrow> kline list \<Rightarrow> moment option \<Rightarrow> int list" where
  "source_times now sources previous =
     filter (\<lambda>t. now < t \<and> t \<le> now + clock_skew)
       (map instant (List.map_filter kl_event_time sources) @
        (case previous of None \<Rightarrow> [] | Some p \<Rightarrow> [instant p]))"

definition update_time :: "int \<Rightarrow> kline list \<Rightarrow> moment option \<Rightarrow> int" where
  "update_time now sources previous = fold max (source_times now sources previous) now"

definition update_market_state ::
  "(interval \<rightharpoonup> kline list) \<Rightarrow> kline list option \<Rightarrow> moment \<Rightarrow> market_state \<Rightarrow> market_state res" where
  "update_market_state m sources clock st =
     ebind (prepare_all m) (\<lambda>next_klines.
     ebind (check_sources next_klines sources) (\<lambda>used.
     ebind (normalize_utc clock) (\<lambda>c.
     let now = update_time (instant c) used (ms_updated_at st) in
     ebind (require (list_all (\<lambda>i. list_all (kline_at_time (interval_duration i) now) (next_klines i))
         supported_intervals \<and> four_hour_current (next_klines FOUR_HOURS) now) ValueError) (\<lambda>_.
     Inr \<lparr>ms_klines = next_klines, ms_price = Some (kl_close (last (next_klines FOUR_HOURS))),
          ms_version = ms_version st + 1, ms_updated_at = Some (utc now), ms_ready = True,
          ms_sources = used\<rparr>))))"

definition get_current_eth_price :: "market_state \<Rightarrow> decimal res" where
  "get_current_eth_price st =
     (if ms_ready st then (case ms_price st of None \<Rightarrow> Inl RuntimeError | Some p \<Rightarrow> Inr p)
      else Inl RuntimeError)"

section \<open>Candles in order\<close>

lemma continuous_sorted:
  "continuous d ks \<Longrightarrow> 0 < d \<Longrightarrow> sorted (map open_at ks) \<and> distinct (map open_at ks)"
proof (induction d ks rule: continuous.induct)
  case (1 d a b ks)
  then have IH: "sorted (map open_at (b # ks))" "distinct (map open_at (b # ks))" by simp_all
  have "open_at a < open_at b" using 1 by simp
  moreover have "\<forall>k\<in>set ks. open_at b \<le> open_at k" using IH(1) by simp
  ultimately show ?case using IH by (auto simp: image_iff)
qed simp_all

text \<open>The candle at place \<open>n\<close> opens \<open>n\<close> durations after the first.\<close>

lemma continuous_nth:
  "continuous d ks \<Longrightarrow> n < length ks \<Longrightarrow> open_at (ks ! n) = open_at (ks ! 0) + int n * d"
proof (induction d ks arbitrary: n rule: continuous.induct)
  case (1 d a b ks)
  show ?case
  proof (cases n)
    case (Suc k)
    with 1 have "open_at ((b # ks) ! k) = open_at ((b # ks) ! 0) + int k * d" by simp
    with 1 Suc show ?thesis by (simp add: algebra_simps)
  qed simp
qed simp_all

lemma dedup_update:
  "fst ` set (fold (\<lambda>k. AList.update (f k) k) ks al) = fst ` set al \<union> f ` set ks"
  by (induction ks arbitrary: al) (auto simp: dom_update)

lemma dedup_values:
  "snd ` set (fold (\<lambda>k. AList.update (f k) k) ks al) \<subseteq> snd ` set al \<union> set ks"
proof (induction ks arbitrary: al)
  case (Cons k ks)
  have "snd ` set (AList.update (f k) k al) \<subseteq> insert k (snd ` set al)"
    by (induction al) auto
  with Cons [of "AList.update (f k) k al"] show ?case by auto
qed simp

lemma dedup_klines_subset: "set (dedup_klines ks) \<subseteq> set ks"
  using dedup_values [of "\<lambda>k. (kl_symbol k, kl_interval k, open_at k)" ks "[]"]
  by (simp add: dedup_klines_def)

lemma dedup_klines_empty: "dedup_klines ks = [] \<longleftrightarrow> ks = []"
  using dedup_update [of "\<lambda>k. (kl_symbol k, kl_interval k, open_at k)" ks "[]"]
  by (cases ks) (auto simp: dedup_klines_def simp flip: set_empty)

text \<open>Candles in order are not changed by another update.\<close>

lemma fold_update_fresh:
  "distinct (map f ks) \<Longrightarrow> f ` set ks \<inter> fst ` set al = {} \<Longrightarrow>
   fold (\<lambda>k. AList.update (f k) k) ks al = al @ map (\<lambda>k. (f k, k)) ks"
proof (induction ks arbitrary: al)
  case (Cons k ks)
  have "AList.update (f k) k al = al @ [(f k, k)]"
    using Cons.prems(2) by (induction al) auto
  with Cons.IH [of "al @ [(f k, k)]"] Cons.prems show ?case by auto
qed simp

lemma dedup_continuous:
  assumes "continuous d ks" "0 < d"
  shows "sort_key open_at (dedup_klines ks) = ks"
proof -
  have "sorted (map open_at ks)" "distinct (map open_at ks)"
    using continuous_sorted [OF assms] by simp_all
  then have "distinct (map (\<lambda>k. (kl_symbol k, kl_interval k, open_at k)) ks)"
    by (auto simp: distinct_map inj_on_def)
  then have "dedup_klines ks = ks"
    unfolding dedup_klines_def by (subst fold_update_fresh) (simp_all add: comp_def)
  then show ?thesis using \<open>sorted _\<close> by (simp add: sort_key_id_if_sorted)
qed

section \<open>The invariant\<close>

text \<open>
  The candles of an interval: its own, of the supported symbol, valid, without a gap, and closed or
  open as the time of the snapshot says.
\<close>

definition interval_ok :: "interval \<Rightarrow> int \<Rightarrow> kline list \<Rightarrow> bool" where
  "interval_ok i now ks \<longleftrightarrow>
     ks \<noteq> [] \<and> continuous (interval_duration i) ks \<and>
     list_all (\<lambda>k. kl_symbol k = supported_symbol \<and> kl_interval k = i \<and> kline_ok k \<and>
       kline_at_time (interval_duration i) now k) ks"

definition market_inv :: "market_state \<Rightarrow> bool" where
  "market_inv st \<longleftrightarrow>
     (if ms_ready st
      then 1 \<le> ms_version st \<and>
        (\<exists>now. ms_updated_at st = Some (utc now) \<and> (\<forall>i. interval_ok i now (ms_klines st i)) \<and>
           four_hour_current (ms_klines st FOUR_HOURS) now) \<and>
        ms_price st = Some (kl_close (last (ms_klines st FOUR_HOURS)))
      else st = empty_market)"

lemma market_inv_empty: "market_inv empty_market"
  by (simp add: market_inv_def empty_market_def)

lemma map_res_Inr: "map_res f xs = Inr ys \<Longrightarrow> map f xs = map Inr ys"
  by (induction xs arbitrary: ys) (auto simp: ebind_eq_Inr)

lemma prepare_allE:
  assumes "prepare_all m = Inr g"
  obtains ks where "m i = Some ks" "prepare_klines i ks = Inr (g i)"
proof -
  obtain kss where kss: "map_res (\<lambda>i. prepare_klines i (the (m i))) supported_intervals = Inr kss"
    "g = (\<lambda>i. the (map_of (zip supported_intervals kss) i))"
    "list_all (\<lambda>i. m i \<noteq> None) supported_intervals"
    using assms by (auto simp: prepare_all_def ebind_eq_Inr)
  have "m i \<noteq> None" using kss(3) supported_intervals_all unfolding list_all_iff by blast
  then obtain ks where ks: "m i = Some ks" by blast
  have "map (\<lambda>i. prepare_klines i (the (m i))) supported_intervals = map Inr kss"
    by (rule map_res_Inr [OF kss(1)])
  then have "prepare_klines i (the (m i)) = Inr (g i)"
    unfolding kss(2) supported_intervals_def by (cases i) auto
  with ks show ?thesis using that by simp
qed

lemma prepare_klines_Inr:
  assumes "prepare_klines i ks = Inr xs"
  shows "xs \<noteq> []" "continuous (interval_duration i) xs" "set xs \<subseteq> set ks"
    "list_all (\<lambda>k. kl_symbol k = supported_symbol \<and> kl_interval k = i) xs"
proof -
  have xs: "xs = sort_key open_at (dedup_klines ks)" "ks \<noteq> []"
    "list_all (\<lambda>k. kl_symbol k = supported_symbol \<and> kl_interval k = i) ks"
    "continuous (interval_duration i) xs"
    using assms by (auto simp: prepare_klines_def Let_def ebind_eq_Inr)
  show "xs \<noteq> []" using xs(1,2) by (metis dedup_klines_empty set_empty set_sort)
  show sub: "set xs \<subseteq> set ks" using xs(1) dedup_klines_subset by simp
  show "list_all (\<lambda>k. kl_symbol k = supported_symbol \<and> kl_interval k = i) xs"
    using xs(3) sub by (auto simp: list_all_iff)
  show "continuous (interval_duration i) xs" by (rule xs(4))
qed

lemma update_marketE:
  assumes "update_market_state m sources clock st = Inr st'"
  obtains c now where "clock = utc c" "now = update_time c (ms_sources st') (ms_updated_at st)"
    "ms_updated_at st' = Some (utc now)" "ms_version st' = ms_version st + 1" "ms_ready st'"
    "prepare_all m = Inr (ms_klines st')" "four_hour_current (ms_klines st' FOUR_HOURS) now"
    "\<And>i. list_all (kline_at_time (interval_duration i) now) (ms_klines st' i)"
    "ms_price st' = Some (kl_close (last (ms_klines st' FOUR_HOURS)))"
  using assms
  by (auto simp: update_market_state_def ebind_eq_Inr normalize_utc_eq_Inr Let_def list_all_iff is_utc_eq
      supported_intervals_all intro!: that [OF is_utc_eq])

lemma update_market_inv:
  assumes "\<And>i ks. m i = Some ks \<Longrightarrow> list_all kline_ok ks" "market_inv st"
    "update_market_state m sources clock st = Inr st'"
  shows "market_inv st'"
proof -
  obtain now where u: "ms_updated_at st' = Some (utc now)" "ms_version st' = ms_version st + 1"
    "ms_ready st'" "prepare_all m = Inr (ms_klines st')"
    "four_hour_current (ms_klines st' FOUR_HOURS) now"
    "\<And>i. list_all (kline_at_time (interval_duration i) now) (ms_klines st' i)"
    "ms_price st' = Some (kl_close (last (ms_klines st' FOUR_HOURS)))"
    by (rule update_marketE [OF assms(3)]) (rule that)
  have "interval_ok i now (ms_klines st' i)" for i
  proof -
    obtain ks where "m i = Some ks" "prepare_klines i ks = Inr (ms_klines st' i)"
      by (rule prepare_allE [OF u(4)])
    then show ?thesis
      using prepare_klines_Inr [of i ks] assms(1) [of i ks] u(6) [of i]
      by (auto simp: interval_ok_def list_all_iff)
  qed
  moreover have "0 \<le> ms_version st"
    using assms(2) by (auto simp: market_inv_def empty_market_def split: if_splits)
  ultimately show ?thesis using u by (auto simp: market_inv_def)
qed

section \<open>The time of the snapshot\<close>

lemma fold_max_bounds:
  "(a :: int) \<le> fold max xs a" "x \<in> set xs \<Longrightarrow> x \<le> fold max xs a"
  "\<forall>x\<in>set xs. x \<le> b \<Longrightarrow> a \<le> b \<Longrightarrow> fold max xs a \<le> b"
  by (induction xs arbitrary: a) (auto, (meson max.cobounded1 max.cobounded2 order_trans)+)

lemma update_time_bounds:
  "now \<le> update_time now ks previous" "update_time now ks previous \<le> now + clock_skew"
  "previous = Some p \<Longrightarrow> instant p \<le> now + clock_skew \<Longrightarrow> instant p \<le> update_time now ks previous"
proof -
  show "now \<le> update_time now ks previous" unfolding update_time_def by (rule fold_max_bounds(1))
  show "update_time now ks previous \<le> now + clock_skew"
    unfolding update_time_def by (rule fold_max_bounds(3)) (auto simp: source_times_def clock_skew_def)
  assume p: "previous = Some p" "instant p \<le> now + clock_skew"
  show "instant p \<le> update_time now ks previous"
  proof (cases "now < instant p")
    case True
    then have "instant p \<in> set (source_times now ks previous)" using p by (simp add: source_times_def)
    then show ?thesis unfolding update_time_def by (rule fold_max_bounds(2))
  next
    case False
    then show ?thesis using fold_max_bounds(1) [of now] unfolding update_time_def by (meson not_le order_trans)
  qed
qed

text \<open>A session of updates, with a clock that never goes back; failed updates change nothing.\<close>

inductive market_run :: "market_state \<Rightarrow> int \<Rightarrow> bool" where
  started: "market_run empty_market t"
| waited: "market_run st t \<Longrightarrow> t \<le> t' \<Longrightarrow> market_run st t'"
| updated: "market_run st t \<Longrightarrow> t \<le> instant clock \<Longrightarrow>
     (\<And>i ks. m i = Some ks \<Longrightarrow> list_all kline_ok ks) \<Longrightarrow>
     update_market_state m sources clock st = Inr st' \<Longrightarrow> market_run st' (instant clock)"

lemma market_run_inv:
  "market_run st t \<Longrightarrow> market_inv st \<and> (\<forall>u. ms_updated_at st = Some u \<longrightarrow> instant u \<le> t + clock_skew)"
proof (induction rule: market_run.induct)
  case (started t)
  then show ?case by (simp add: market_inv_empty) (simp add: empty_market_def)
next
  case (updated st t clock m sources st')
  then have "market_inv st'" using update_market_inv by blast
  moreover have "instant u \<le> instant clock + clock_skew" if "ms_updated_at st' = Some u" for u
  proof -
    obtain c where "clock = utc c"
      "ms_updated_at st' = Some (utc (update_time c (ms_sources st') (ms_updated_at st)))"
      by (rule update_marketE [OF updated.hyps(4)]) blast
    then show ?thesis using that update_time_bounds(2) by fastforce
  qed
  ultimately show ?case by blast
qed auto

lemma update_time_forward:
  assumes "market_run st t" "t \<le> instant clock" "update_market_state m sources clock st = Inr st'"
    "ms_updated_at st = Some u" "ms_updated_at st' = Some u'"
  shows "instant u \<le> instant u'"
proof -
  have "instant u \<le> t + clock_skew" using market_run_inv [OF assms(1)] assms(4) by blast
  then have "instant u \<le> instant clock + clock_skew" using assms(2) by simp
  moreover obtain c where "clock = utc c"
    "ms_updated_at st' = Some (utc (update_time c (ms_sources st') (ms_updated_at st)))"
    by (rule update_marketE [OF assms(3)]) blast
  ultimately show ?thesis
    using update_time_bounds(3) [of "ms_updated_at st" u c "ms_sources st'"] assms(4,5) by simp
qed

text \<open>Updating a snapshot with its own candles keeps them.\<close>

lemma prepare_klines_again:
  assumes "interval_ok i now ks"
  shows "prepare_klines i ks = Inr ks"
  using assms dedup_continuous [of "interval_duration i" ks]
  by (auto simp: prepare_klines_def interval_ok_def list_all_iff)

lemma prepare_all_same:
  assumes "\<And>i. prepare_klines i (f i) = Inr (f i)"
  shows "prepare_all (\<lambda>i. Some (f i)) = Inr f"
proof -
  have "(\<lambda>i. the (map_of (zip supported_intervals (map f supported_intervals)) i)) = f"
  proof
    fix i show "the (map_of (zip supported_intervals (map f supported_intervals)) i) = f i"
      by (cases i) (simp_all add: supported_intervals_def)
  qed
  moreover have "map_res (\<lambda>i. prepare_klines i (f i)) supported_intervals = Inr (map f supported_intervals)"
    by (simp add: supported_intervals_def assms)
  ultimately show ?thesis by (simp add: prepare_all_def list_all_iff)
qed

end
