(* ===== verification/Regime_Stm.thy ===== *)
theory Regime_Stm
  imports Market_Klines
begin

text \<open>
  The state machine that recommends a regime (\<open>domain/regime\<close>): states, events, the input of an
  evaluation, the seven guards, the thirteen rows of the transition registry and
  \<open>RegimeSTM.handle\<close>.  A reference function says which type an evaluation recommends; the guards
  of the registry pick exactly this type for every valid input.
\<close>

section \<open>States and events\<close>

datatype regime_state =
    REGIME_INITIAL
  | FOUR_HOUR_CANDLE_EVALUATION
  | TYPE_0_RECOMMENDED
  | TYPE_1_RECOMMENDED
  | TYPE_2_RECOMMENDED
  | TYPE_3_RECOMMENDED
  | TYPE_4_RECOMMENDED

fun regime_state_name :: "regime_state \<Rightarrow> string" where
  "regime_state_name REGIME_INITIAL = ''INITIAL''"
| "regime_state_name FOUR_HOUR_CANDLE_EVALUATION = ''FOUR_HOUR_CANDLE_EVALUATION''"
| "regime_state_name TYPE_0_RECOMMENDED = ''TYPE_0_RECOMMENDED''"
| "regime_state_name TYPE_1_RECOMMENDED = ''TYPE_1_RECOMMENDED''"
| "regime_state_name TYPE_2_RECOMMENDED = ''TYPE_2_RECOMMENDED''"
| "regime_state_name TYPE_3_RECOMMENDED = ''TYPE_3_RECOMMENDED''"
| "regime_state_name TYPE_4_RECOMMENDED = ''TYPE_4_RECOMMENDED''"

fun recommended_state_for :: "regime_type \<Rightarrow> regime_state" where
  "recommended_state_for TYPE_0 = TYPE_0_RECOMMENDED"
| "recommended_state_for TYPE_1 = TYPE_1_RECOMMENDED"
| "recommended_state_for TYPE_2 = TYPE_2_RECOMMENDED"
| "recommended_state_for TYPE_3 = TYPE_3_RECOMMENDED"
| "recommended_state_for TYPE_4 = TYPE_4_RECOMMENDED"

fun regime_type_for :: "regime_state \<Rightarrow> regime_type res" where
  "regime_type_for TYPE_0_RECOMMENDED = Inr TYPE_0"
| "regime_type_for TYPE_1_RECOMMENDED = Inr TYPE_1"
| "regime_type_for TYPE_2_RECOMMENDED = Inr TYPE_2"
| "regime_type_for TYPE_3_RECOMMENDED = Inr TYPE_3"
| "regime_type_for TYPE_4_RECOMMENDED = Inr TYPE_4"
| "regime_type_for REGIME_INITIAL = Inl ValueError"
| "regime_type_for FOUR_HOUR_CANDLE_EVALUATION = Inl ValueError"

datatype regime_event_type = INITIAL_EVALUATION_REQUESTED | FOUR_HOUR_CANDLE_CLOSED | EVALUATION_READY

fun regime_event_name :: "regime_event_type \<Rightarrow> string" where
  "regime_event_name INITIAL_EVALUATION_REQUESTED = ''INITIAL_EVALUATION_REQUESTED''"
| "regime_event_name FOUR_HOUR_CANDLE_CLOSED = ''FOUR_HOUR_CANDLE_CLOSED''"
| "regime_event_name EVALUATION_READY = ''EVALUATION_READY''"

datatype regime_trigger = INITIAL_TRIGGER | FOUR_HOUR_CANDLE_CLOSE

fun regime_trigger_name :: "regime_trigger \<Rightarrow> string" where
  "regime_trigger_name INITIAL_TRIGGER = ''INITIAL''"
| "regime_trigger_name FOUR_HOUR_CANDLE_CLOSE = ''FOUR_HOUR_CANDLE_CLOSE''"

text \<open>\<open>validate_non_empty_text\<close>: more than white space.\<close>

definition nonblank :: "string \<Rightarrow> bool" where
  "nonblank s \<longleftrightarrow> py_strip s \<noteq> []"

lemma nonblank_iff: "nonblank s \<longleftrightarrow> (\<exists>c\<in>set s. \<not> py_isspace c)"
proof (cases "dropWhile py_isspace s")
  case Nil
  then have "\<forall>c\<in>set s. py_isspace c" by (simp add: dropWhile_eq_Nil_conv)
  then show ?thesis unfolding nonblank_def py_strip_def Nil by simp
next
  case (Cons c cs)
  then have "\<not> py_isspace c" by (simp add: dropWhile_eq_Cons_conv)
  moreover have "c \<in> set s" using Cons set_dropWhileD [of c py_isspace s] by simp
  ultimately show ?thesis using Cons by (auto simp: nonblank_def py_strip_def dropWhile_eq_Nil_conv)
qed

lemma nonblank_append [simp]: "nonblank (s @ t) \<longleftrightarrow> nonblank s \<or> nonblank t"
  by (auto simp: nonblank_iff)

definition has_offset :: "moment \<Rightarrow> bool" where
  "has_offset m \<longleftrightarrow> offset m \<noteq> None"

record regime_event =
  rv_type :: regime_event_type
  rv_id :: string
  rv_occurred_at :: moment
  rv_evaluation_id :: string
  rv_candle_id :: "string option"

definition regime_event_ok :: "regime_event \<Rightarrow> bool" where
  "regime_event_ok e \<longleftrightarrow>
     nonblank (rv_id e) \<and> has_offset (rv_occurred_at e) \<and>
     nonblank (rv_evaluation_id e) \<and> opt_all nonblank (rv_candle_id e) \<and>
     \<not> (rv_type e = FOUR_HOUR_CANDLE_CLOSED \<and> rv_candle_id e = None)"

definition make_regime_event :: "regime_event \<Rightarrow> regime_event res" where
  "make_regime_event e = ebind (require (regime_event_ok e) ValueError) (\<lambda>_. Inr e)"

section \<open>The input of an evaluation\<close>

record regime_context =
  rx_evaluation_id :: string
  rx_symbol :: string
  rx_timeframe :: interval
  rx_slope :: decimal
  rx_higher_high :: bool
  rx_higher_low :: bool
  rx_lower_high :: bool
  rx_lower_low :: bool
  rx_price :: decimal
  rx_live_ema9 :: decimal
  rx_version :: int
  rx_candle_id :: "string option"
  rx_calculated_at :: moment

definition regime_context_ok :: "regime_context \<Rightarrow> bool" where
  "regime_context_ok x \<longleftrightarrow>
     nonblank (rx_evaluation_id x) \<and> nonblank (rx_symbol x) \<and> rx_timeframe x = FOUR_HOURS \<and>
     is_finite (rx_slope x) \<and> positive (rx_price x) \<and> positive (rx_live_ema9 x) \<and>
     0 \<le> rx_version x \<and> opt_all nonblank (rx_candle_id x) \<and> has_offset (rx_calculated_at x)"

definition make_regime_context :: "regime_context \<Rightarrow> regime_context res" where
  "make_regime_context x = ebind (require (regime_context_ok x) ValueError) (\<lambda>_. Inr x)"

section \<open>Guards\<close>

definition sideways_min_slope :: decimal where "sideways_min_slope = Fin (- 15 / 100)"
definition sideways_max_slope :: decimal where "sideways_max_slope = Fin (15 / 100)"
definition strong_down_slope :: decimal where "strong_down_slope = Fin (- 30 / 100)"
definition strong_up_slope :: decimal where "strong_up_slope = Fin (30 / 100)"

definition matches_sideways_regime :: "regime_context \<Rightarrow> bool" where
  "matches_sideways_regime x \<longleftrightarrow>
     dle sideways_min_slope (rx_slope x) \<and> dle (rx_slope x) sideways_max_slope"

definition matches_weak_up_regime :: "regime_context \<Rightarrow> bool" where
  "matches_weak_up_regime x \<longleftrightarrow>
     dlt sideways_max_slope (rx_slope x) \<and> dlt (rx_slope x) strong_up_slope"

definition matches_strong_up_fallback :: "regime_context \<Rightarrow> bool" where
  "matches_strong_up_fallback x \<longleftrightarrow>
     dle strong_up_slope (rx_slope x) \<and>
     \<not> (rx_higher_high x \<and> rx_higher_low x \<and> dle (rx_live_ema9 x) (rx_price x))"

definition matches_strong_up_regime :: "regime_context \<Rightarrow> bool" where
  "matches_strong_up_regime x \<longleftrightarrow>
     dle strong_up_slope (rx_slope x) \<and> rx_higher_high x \<and> rx_higher_low x \<and>
     dle (rx_live_ema9 x) (rx_price x)"

definition matches_weak_down_regime :: "regime_context \<Rightarrow> bool" where
  "matches_weak_down_regime x \<longleftrightarrow>
     dlt strong_down_slope (rx_slope x) \<and> dlt (rx_slope x) sideways_min_slope"

definition matches_strong_down_fallback :: "regime_context \<Rightarrow> bool" where
  "matches_strong_down_fallback x \<longleftrightarrow>
     dle (rx_slope x) strong_down_slope \<and>
     \<not> (rx_lower_high x \<and> rx_lower_low x \<and> dle (rx_price x) (rx_live_ema9 x))"

definition matches_strong_down_regime :: "regime_context \<Rightarrow> bool" where
  "matches_strong_down_regime x \<longleftrightarrow>
     dle (rx_slope x) strong_down_slope \<and> rx_lower_high x \<and> rx_lower_low x \<and>
     dle (rx_price x) (rx_live_ema9 x)"

lemmas regime_guard_defs =
  matches_sideways_regime_def matches_weak_up_regime_def matches_strong_up_fallback_def
  matches_strong_up_regime_def matches_weak_down_regime_def matches_strong_down_fallback_def
  matches_strong_down_regime_def
  sideways_min_slope_def sideways_max_slope_def strong_down_slope_def strong_up_slope_def

section \<open>Action requests and results\<close>

datatype regime_action =
    StartRegimeEvaluation string regime_trigger "string option"
  | ApplyRecommendedRegime string regime_type "string option"

fun make_regime_action :: "regime_action \<Rightarrow> regime_action res" where
  "make_regime_action (StartRegimeEvaluation e t c) =
     ebind (require (nonblank e \<and> opt_all nonblank c \<and> \<not> (t = FOUR_HOUR_CANDLE_CLOSE \<and> c = None))
       ValueError) (\<lambda>_. Inr (StartRegimeEvaluation e t c))"
| "make_regime_action (ApplyRecommendedRegime e r c) =
     ebind (require (nonblank e \<and> opt_all nonblank c) ValueError) (\<lambda>_. Inr (ApplyRecommendedRegime e r c))"

record stm_decision =
  sd_decision_id :: string
  sd_consumed :: bool
  sd_transition_id :: "string option"
  sd_state_before :: regime_state
  sd_state_after :: regime_state
  sd_actions :: "regime_action list"
  sd_evaluation_id :: string

definition make_stm_decision :: "stm_decision \<Rightarrow> stm_decision res" where
  "make_stm_decision d =
     ebind (require (nonblank (sd_decision_id d) \<and> opt_all nonblank (sd_transition_id d) \<and>
       nonblank (sd_evaluation_id d) \<and>
       (sd_consumed d \<longrightarrow> sd_transition_id d \<noteq> None \<and> sd_actions d \<noteq> []) \<and>
       (\<not> sd_consumed d \<longrightarrow> sd_transition_id d = None \<and> sd_actions d = [] \<and>
          sd_state_before d = sd_state_after d)) ValueError) (\<lambda>_. Inr d)"

section \<open>The transition registry\<close>

record regime_transition =
  tn_id :: string
  tn_state :: regime_state
  tn_event :: regime_event_type
  tn_next :: regime_state
  tn_guard :: "(regime_context \<Rightarrow> bool) option"
  tn_trigger :: "regime_trigger option"
  tn_type :: "regime_type option"

text \<open>The checks of the constructor of a row.\<close>

definition transition_ok :: "regime_transition \<Rightarrow> bool" where
  "transition_ok t \<longleftrightarrow>
     nonblank (tn_id t) \<and> take 3 (tn_id t) = ''EA-'' \<and> (tn_trigger t = None) \<noteq> (tn_type t = None) \<and>
     (if tn_event t = EVALUATION_READY
      then (case (tn_guard t, tn_type t) of
              (Some g, Some r) \<Rightarrow> tn_next t = recommended_state_for r
            | _ \<Rightarrow> False)
      else (case (tn_guard t, tn_trigger t) of (None, Some g) \<Rightarrow> True | _ \<Rightarrow> False))"

definition start_row :: "string \<Rightarrow> regime_state \<Rightarrow> regime_event_type \<Rightarrow> regime_trigger \<Rightarrow> regime_transition" where
  "start_row i s e t =
     \<lparr>tn_id = i, tn_state = s, tn_event = e, tn_next = FOUR_HOUR_CANDLE_EVALUATION, tn_guard = None,
      tn_trigger = Some t, tn_type = None\<rparr>"

definition ready_row :: "string \<Rightarrow> regime_state \<Rightarrow> (regime_context \<Rightarrow> bool) \<Rightarrow> regime_type \<Rightarrow> regime_transition" where
  "ready_row i next_state g r =
     \<lparr>tn_id = i, tn_state = FOUR_HOUR_CANDLE_EVALUATION, tn_event = EVALUATION_READY, tn_next = next_state,
      tn_guard = Some g, tn_trigger = None, tn_type = Some r\<rparr>"

definition transition_registry :: "regime_transition list" where
  "transition_registry =
     [start_row ''EA-001'' REGIME_INITIAL INITIAL_EVALUATION_REQUESTED INITIAL_TRIGGER,
      ready_row ''EA-002'' TYPE_0_RECOMMENDED matches_sideways_regime TYPE_0,
      ready_row ''EA-003'' TYPE_1_RECOMMENDED matches_weak_up_regime TYPE_1,
      ready_row ''EA-004'' TYPE_1_RECOMMENDED matches_strong_up_fallback TYPE_1,
      ready_row ''EA-005'' TYPE_2_RECOMMENDED matches_strong_up_regime TYPE_2,
      ready_row ''EA-006'' TYPE_3_RECOMMENDED matches_weak_down_regime TYPE_3,
      ready_row ''EA-007'' TYPE_3_RECOMMENDED matches_strong_down_fallback TYPE_3,
      ready_row ''EA-008'' TYPE_4_RECOMMENDED matches_strong_down_regime TYPE_4,
      start_row ''EA-101'' TYPE_0_RECOMMENDED FOUR_HOUR_CANDLE_CLOSED FOUR_HOUR_CANDLE_CLOSE,
      start_row ''EA-102'' TYPE_1_RECOMMENDED FOUR_HOUR_CANDLE_CLOSED FOUR_HOUR_CANDLE_CLOSE,
      start_row ''EA-103'' TYPE_2_RECOMMENDED FOUR_HOUR_CANDLE_CLOSED FOUR_HOUR_CANDLE_CLOSE,
      start_row ''EA-104'' TYPE_3_RECOMMENDED FOUR_HOUR_CANDLE_CLOSED FOUR_HOUR_CANDLE_CLOSE,
      start_row ''EA-105'' TYPE_4_RECOMMENDED FOUR_HOUR_CANDLE_CLOSED FOUR_HOUR_CANDLE_CLOSE]"

definition specification_transition_ids :: "string list" where
  "specification_transition_ids =
     [''EA-001'', ''EA-002'', ''EA-003'', ''EA-004'', ''EA-005'', ''EA-006'', ''EA-007'', ''EA-008'',
      ''EA-101'', ''EA-102'', ''EA-103'', ''EA-104'', ''EA-105'']"

definition validate_transition_registry :: "regime_transition list \<Rightarrow> unit res" where
  "validate_transition_registry ts =
     ebind (require (distinct (map tn_id ts)) RuntimeError) (\<lambda>_.
     require (set (map tn_id ts) = set specification_transition_ids) RuntimeError)"

text \<open>\<open>setdefault(key, []).append(row)\<close> for every row of the registry.\<close>

definition index_row ::
  "regime_transition \<Rightarrow> ((regime_state \<times> regime_event_type) \<rightharpoonup> regime_transition list) \<Rightarrow>
   ((regime_state \<times> regime_event_type) \<rightharpoonup> regime_transition list)" where
  "index_row t m =
     (let k = (tn_state t, tn_event t) in
      m(k \<mapsto> (case m k of None \<Rightarrow> [] | Some ts \<Rightarrow> ts) @ [t]))"

definition build_transition_index ::
  "regime_transition list \<Rightarrow> ((regime_state \<times> regime_event_type) \<rightharpoonup> regime_transition list)" where
  "build_transition_index ts = fold index_row ts Map.empty"

definition get_transition_candidates :: "regime_state \<Rightarrow> regime_event_type \<Rightarrow> regime_transition list" where
  "get_transition_candidates s e =
     (case build_transition_index transition_registry (s, e) of None \<Rightarrow> [] | Some ts \<Rightarrow> ts)"

definition transition_matches :: "regime_transition \<Rightarrow> regime_context option \<Rightarrow> bool res" where
  "transition_matches t ctx =
     (case tn_guard t of
        None \<Rightarrow> Inr True
      | Some g \<Rightarrow> (case ctx of None \<Rightarrow> Inl ValueError | Some x \<Rightarrow> Inr (g x)))"

definition create_action :: "regime_transition \<Rightarrow> regime_event \<Rightarrow> regime_action res" where
  "create_action t e =
     (if rv_type e \<noteq> tn_event t then Inl ValueError
      else case tn_trigger t of
        Some g \<Rightarrow> make_regime_action (StartRegimeEvaluation (rv_evaluation_id e) g (rv_candle_id e))
      | None \<Rightarrow> (case tn_type t of
          None \<Rightarrow> Inl RuntimeError
        | Some r \<Rightarrow> make_regime_action (ApplyRecommendedRegime (rv_evaluation_id e) r (rv_candle_id e))))"

section \<open>The state machine\<close>

definition create_regime_decision_id :: "regime_event \<Rightarrow> regime_state \<Rightarrow> string option \<Rightarrow> string" where
  "create_regime_decision_id e s tid =
     rv_id e @ '':'' @ regime_state_name s @ '':'' @ py_or_str tid ''NO-TRANSITION''"

definition create_no_op_result :: "regime_event \<Rightarrow> regime_state \<Rightarrow> stm_decision res" where
  "create_no_op_result e s =
     make_stm_decision
       \<lparr>sd_decision_id = create_regime_decision_id e s None, sd_consumed = False, sd_transition_id = None,
        sd_state_before = s, sd_state_after = s, sd_actions = [], sd_evaluation_id = rv_evaluation_id e\<rparr>"

definition create_transition_result :: "regime_event \<Rightarrow> regime_state \<Rightarrow> regime_transition \<Rightarrow> stm_decision res" where
  "create_transition_result e s t =
     ebind (create_action t e) (\<lambda>a.
     make_stm_decision
       \<lparr>sd_decision_id = create_regime_decision_id e s (Some (tn_id t)), sd_consumed = True,
        sd_transition_id = Some (tn_id t), sd_state_before = s, sd_state_after = tn_next t,
        sd_actions = [a], sd_evaluation_id = rv_evaluation_id e\<rparr>)"

definition validate_regime_context :: "regime_event \<Rightarrow> regime_context option \<Rightarrow> unit res" where
  "validate_regime_context e ctx =
     (case ctx of
        None \<Rightarrow> require (rv_type e \<noteq> EVALUATION_READY) ValueError
      | Some x \<Rightarrow> require (rv_evaluation_id e = rx_evaluation_id x \<and> rv_candle_id e = rx_candle_id x) ValueError)"

fun filter_res :: "('a \<Rightarrow> bool res) \<Rightarrow> 'a list \<Rightarrow> 'a list res" where
  "filter_res p [] = Inr []"
| "filter_res p (x # xs) =
     ebind (p x) (\<lambda>b. ebind (filter_res p xs) (\<lambda>ys. Inr (if b then x # ys else ys)))"

text \<open>One event: the decision and the state the machine has afterwards.\<close>

definition handle_regime_event ::
  "regime_state \<Rightarrow> regime_event \<Rightarrow> regime_context option \<Rightarrow> (stm_decision \<times> regime_state) res" where
  "handle_regime_event s e ctx =
     (case get_transition_candidates s (rv_type e) of
        [] \<Rightarrow> ebind (create_no_op_result e s) (\<lambda>d. Inr (d, s))
      | candidates \<Rightarrow>
          ebind (validate_regime_context e ctx) (\<lambda>_.
          ebind (filter_res (\<lambda>t. transition_matches t ctx) candidates) (\<lambda>matching.
          case matching of
            [] \<Rightarrow> ebind (create_no_op_result e s) (\<lambda>d. Inr (d, s))
          | [t] \<Rightarrow> ebind (create_transition_result e s t) (\<lambda>d. Inr (d, tn_next t))
          | _ \<Rightarrow> Inl RuntimeError)))"

section \<open>The registry is sound\<close>

lemmas registry_defs = transition_registry_def start_row_def ready_row_def

lemma registry_valid: "list_all transition_ok transition_registry"
  by (simp add: registry_defs transition_ok_def nonblank_iff py_isspace_def)

lemma registry_accepted: "validate_transition_registry transition_registry = Inr ()"
  by (simp add: validate_transition_registry_def specification_transition_ids_def registry_defs)

lemma index_lookup:
  "(case fold index_row ts m k of None \<Rightarrow> [] | Some us \<Rightarrow> us) =
   (case m k of None \<Rightarrow> [] | Some us \<Rightarrow> us) @ filter (\<lambda>t. (tn_state t, tn_event t) = k) ts"
  by (induction ts arbitrary: m) (auto simp: index_row_def Let_def split: option.splits)

lemma candidates_filter:
  "get_transition_candidates s e = filter (\<lambda>t. tn_state t = s \<and> tn_event t = e) transition_registry"
  using index_lookup [of transition_registry Map.empty "(s, e)"]
  by (simp add: get_transition_candidates_def build_transition_index_def)

section \<open>What an event does\<close>

text \<open>The type that an evaluation recommends, as a function of its input.\<close>

definition recommended_type :: "regime_context \<Rightarrow> regime_type" where
  "recommended_type x =
     (let s = dval (rx_slope x) in
      if s \<le> - 30 / 100
      then if rx_lower_high x \<and> rx_lower_low x \<and> dval (rx_price x) \<le> dval (rx_live_ema9 x)
        then TYPE_4 else TYPE_3
      else if s < - 15 / 100 then TYPE_3
      else if s \<le> 15 / 100 then TYPE_0
      else if s < 30 / 100 then TYPE_1
      else if rx_higher_high x \<and> rx_higher_low x \<and> dval (rx_live_ema9 x) \<le> dval (rx_price x)
      then TYPE_2 else TYPE_1)"

text \<open>The rows that start an evaluation.\<close>

fun start_transition :: "regime_state \<Rightarrow> regime_event_type \<Rightarrow> (string \<times> regime_trigger) option" where
  "start_transition REGIME_INITIAL INITIAL_EVALUATION_REQUESTED = Some (''EA-001'', INITIAL_TRIGGER)"
| "start_transition TYPE_0_RECOMMENDED FOUR_HOUR_CANDLE_CLOSED = Some (''EA-101'', FOUR_HOUR_CANDLE_CLOSE)"
| "start_transition TYPE_1_RECOMMENDED FOUR_HOUR_CANDLE_CLOSED = Some (''EA-102'', FOUR_HOUR_CANDLE_CLOSE)"
| "start_transition TYPE_2_RECOMMENDED FOUR_HOUR_CANDLE_CLOSED = Some (''EA-103'', FOUR_HOUR_CANDLE_CLOSE)"
| "start_transition TYPE_3_RECOMMENDED FOUR_HOUR_CANDLE_CLOSED = Some (''EA-104'', FOUR_HOUR_CANDLE_CLOSE)"
| "start_transition TYPE_4_RECOMMENDED FOUR_HOUR_CANDLE_CLOSED = Some (''EA-105'', FOUR_HOUR_CANDLE_CLOSE)"
| "start_transition _ _ = None"

definition accepted_decision ::
  "regime_event \<Rightarrow> regime_state \<Rightarrow> string \<Rightarrow> regime_state \<Rightarrow> regime_action \<Rightarrow> stm_decision" where
  "accepted_decision e s i s' a =
     \<lparr>sd_decision_id = create_regime_decision_id e s (Some i), sd_consumed = True, sd_transition_id = Some i,
      sd_state_before = s, sd_state_after = s', sd_actions = [a], sd_evaluation_id = rv_evaluation_id e\<rparr>"

lemma decision_id_nonblank [simp]: "nonblank (create_regime_decision_id e s i)"
  by (simp add: create_regime_decision_id_def nonblank_iff py_isspace_def)

lemma candidates_start:
  "start_transition s t = Some (i, g) \<Longrightarrow> get_transition_candidates s t = [start_row i s t g]"
  by (cases "(s, t)" rule: start_transition.cases) (auto simp: candidates_filter registry_defs)

lemma candidates_ready:
  "get_transition_candidates FOUR_HOUR_CANDLE_EVALUATION EVALUATION_READY =
     filter (\<lambda>t. tn_event t = EVALUATION_READY) transition_registry"
  by (simp add: candidates_filter registry_defs)

lemma candidates_none:
  "start_transition s t = None \<Longrightarrow> \<not> (s = FOUR_HOUR_CANDLE_EVALUATION \<and> t = EVALUATION_READY) \<Longrightarrow>
   get_transition_candidates s t = []"
  by (cases "(s, t)" rule: start_transition.cases) (auto simp: candidates_filter registry_defs)

lemma event_trigger:
  "start_transition s t = Some (i, g) \<Longrightarrow> g = FOUR_HOUR_CANDLE_CLOSE \<longleftrightarrow> t = FOUR_HOUR_CANDLE_CLOSED"
  by (cases "(s, t)" rule: start_transition.cases) auto

lemma start_id_nonblank: "start_transition s t = Some (i, g) \<Longrightarrow> nonblank i"
  by (cases "(s, t)" rule: start_transition.cases) (auto simp: nonblank_iff py_isspace_def)

lemma handle_start:
  assumes "regime_event_ok e" "start_transition s (rv_type e) = Some (i, g)"
  shows "handle_regime_event s e None =
    Inr (accepted_decision e s i FOUR_HOUR_CANDLE_EVALUATION
      (StartRegimeEvaluation (rv_evaluation_id e) g (rv_candle_id e)), FOUR_HOUR_CANDLE_EVALUATION)"
proof -
  have "rv_type e \<noteq> EVALUATION_READY"
    using assms(2) by (cases "(s, rv_type e)" rule: start_transition.cases) auto
  then show ?thesis
    using assms event_trigger [OF assms(2)] start_id_nonblank [OF assms(2)]
    by (auto simp: handle_regime_event_def candidates_start [OF assms(2)] validate_regime_context_def
        transition_matches_def start_row_def create_transition_result_def create_action_def
        make_stm_decision_def accepted_decision_def regime_event_ok_def)
qed

lemma handle_ignored:
  assumes "regime_event_ok e" "start_transition s (rv_type e) = None"
    "\<not> (s = FOUR_HOUR_CANDLE_EVALUATION \<and> rv_type e = EVALUATION_READY)"
  obtains d where "handle_regime_event s e ctx = Inr (d, s)" "\<not> sd_consumed d" "sd_transition_id d = None"
    "sd_actions d = []" "sd_state_before d = s" "sd_state_after d = s"
  using assms(1) that
  by (auto simp: handle_regime_event_def candidates_none [OF assms(2,3)] create_no_op_result_def
      make_stm_decision_def regime_event_ok_def)

text \<open>Exactly one guard holds, and it is the one of the recommended type.\<close>

definition ready_rows :: "regime_transition list" where
  "ready_rows = filter (\<lambda>t. tn_event t = EVALUATION_READY) transition_registry"

lemma filter_res_ready:
  "filter_res (\<lambda>t. transition_matches t (Some x)) ready_rows =
     Inr (filter (\<lambda>t. case tn_guard t of None \<Rightarrow> True | Some g \<Rightarrow> g x) ready_rows)"
  by (simp add: ready_rows_def registry_defs transition_matches_def)

lemma ready_selected:
  assumes "regime_context_ok x"
  shows "\<exists>i g. nonblank i \<and> filter (\<lambda>t. case tn_guard t of None \<Rightarrow> True | Some g \<Rightarrow> g x) ready_rows =
    [ready_row i (recommended_state_for (recommended_type x)) g (recommended_type x)]"
proof -
  have fin: "is_finite (rx_slope x)" "is_finite (rx_price x)" "is_finite (rx_live_ema9 x)"
    using assms by (simp_all add: regime_context_ok_def positive_iff)
  define v where "v = dval (rx_slope x)"
  note rules = ready_rows_def transition_registry_def start_row_def ready_row_def regime_guard_defs
    recommended_type_def fin nonblank_iff py_isspace_def v_def [symmetric] Let_def
  consider "v \<le> - 30 / 100" | "- 30 / 100 < v" "v < - 15 / 100" | "- 15 / 100 \<le> v" "v \<le> 15 / 100"
    | "15 / 100 < v" "v < 30 / 100" | "30 / 100 \<le> v"
    by linarith
  then show ?thesis
  proof cases
    case 1
    then show ?thesis by (cases "rx_lower_high x \<and> rx_lower_low x \<and> dval (rx_price x) \<le> dval (rx_live_ema9 x)") (auto simp: rules)
  next
    case 5
    then show ?thesis by (cases "rx_higher_high x \<and> rx_higher_low x \<and> dval (rx_live_ema9 x) \<le> dval (rx_price x)") (auto simp: rules)
  qed (auto simp: rules)
qed

definition ready_pair :: "regime_event \<Rightarrow> regime_context \<Rightarrow> bool" where
  "ready_pair e x \<longleftrightarrow>
     regime_event_ok e \<and> regime_context_ok x \<and> rv_type e = EVALUATION_READY \<and>
     rv_evaluation_id e = rx_evaluation_id x \<and> rv_candle_id e = rx_candle_id x"

lemma handle_ready:
  assumes "ready_pair e x"
  obtains i where "handle_regime_event FOUR_HOUR_CANDLE_EVALUATION e (Some x) =
    Inr (accepted_decision e FOUR_HOUR_CANDLE_EVALUATION i (recommended_state_for (recommended_type x))
      (ApplyRecommendedRegime (rv_evaluation_id e) (recommended_type x) (rv_candle_id e)),
      recommended_state_for (recommended_type x))" "nonblank i"
proof -
  have x: "regime_context_ok x" using assms by (simp add: ready_pair_def)
  obtain i g where sel: "nonblank i"
    "filter (\<lambda>t. case tn_guard t of None \<Rightarrow> True | Some g \<Rightarrow> g x) ready_rows =
       [ready_row i (recommended_state_for (recommended_type x)) g (recommended_type x)]"
    using ready_selected [OF x] by blast
  define row where "row = ready_row i (recommended_state_for (recommended_type x)) g (recommended_type x)"
  have cands: "get_transition_candidates FOUR_HOUR_CANDLE_EVALUATION (rv_type e) = ready_rows"
    using assms by (simp add: ready_pair_def candidates_ready ready_rows_def)
  obtain c cs where ne: "ready_rows = c # cs" by (simp add: ready_rows_def registry_defs)
  have "filter_res (\<lambda>t. transition_matches t (Some x)) (c # cs) = Inr [row]"
    using trans [OF filter_res_ready arg_cong [where f = Inr, OF sel(2)]] unfolding row_def [symmetric] ne .
  moreover have "create_transition_result e FOUR_HOUR_CANDLE_EVALUATION row =
    Inr (accepted_decision e FOUR_HOUR_CANDLE_EVALUATION i (recommended_state_for (recommended_type x))
      (ApplyRecommendedRegime (rv_evaluation_id e) (recommended_type x) (rv_candle_id e)))"
    using assms sel(1)
    by (auto simp: create_transition_result_def create_action_def row_def ready_row_def ready_pair_def
        regime_event_ok_def make_stm_decision_def accepted_decision_def)
  moreover have "tn_next row = recommended_state_for (recommended_type x)" by (simp add: row_def ready_row_def)
  moreover have "validate_regime_context e (Some x) = Inr ()"
    using assms by (simp add: validate_regime_context_def ready_pair_def)
  ultimately have "handle_regime_event FOUR_HOUR_CANDLE_EVALUATION e (Some x) =
    Inr (accepted_decision e FOUR_HOUR_CANDLE_EVALUATION i (recommended_state_for (recommended_type x))
      (ApplyRecommendedRegime (rv_evaluation_id e) (recommended_type x) (rv_candle_id e)),
      recommended_state_for (recommended_type x))"
    by (simp add: handle_regime_event_def cands ne del: filter_res.simps)
  from that [OF this sel(1)] show ?thesis .
qed

lemma regime_type_for_recommended [simp]: "regime_type_for (recommended_state_for r) = Inr r"
  by (cases r) simp_all

lemma recommended_state_for_inject [simp]: "recommended_state_for r = recommended_state_for q \<longleftrightarrow> r = q"
  by (cases r; cases q) simp_all

lemma recommended_state_not [simp]:
  "recommended_state_for r \<noteq> REGIME_INITIAL" "recommended_state_for r \<noteq> FOUR_HOUR_CANDLE_EVALUATION"
  by (cases r; simp)+

end
