(* ===== verification/Regime_Indicators.thy ===== *)
theory Regime_Indicators
  imports Ema_Slope Market_State Regime_Stm
begin

text \<open>
  The indicators of the four hour candles: candle identifiers, confirmed swings and their
  structure, the live average (the functions of \<open>application/regime_controller.py\<close>) and the
  snapshot that holds them (\<open>domain/market/indicator_snapshot.py\<close>).
\<close>

section \<open>Failures\<close>

datatype failure_code =
    MARKET_SNAPSHOT_MISMATCH
  | MARKET_SNAPSHOT_NOT_READY
  | INSUFFICIENT_CLOSED_KLINES
  | INSUFFICIENT_SWING_POINTS
  | INVALID_FOUR_HOUR_CANDLES
  | REPEATED_FAILED_MARKET_VERSION
  | STALE_MARKET_SNAPSHOT
  | STALE_FOUR_HOUR_CANDLE
  | DUPLICATE_FOUR_HOUR_CANDLE
  | INVALID_TRIGGER_STATE
  | INVALID_INDICATOR_SNAPSHOT
  | STM_TRANSITION_REJECTED
  | ACTION_CONTRACT_MISMATCH
  | INDICATOR_CALCULATION_FAILED

text \<open>\<open>RegimeEvaluationError\<close>: its code, and the progress and provenance that handlers add to it.\<close>

record evaluation_failure =
  ef_code :: failure_code
  ef_steps :: "string list"
  ef_event_ids :: "string list"
  ef_transition_ids :: "string list"
  ef_state_before :: "regime_state option"
  ef_state_after :: "regime_state option"
  ef_version :: "int option"
  ef_candle_id :: "string option"
  ef_recorded_at :: "moment option"

definition evaluation_error :: "failure_code \<Rightarrow> evaluation_failure" where
  "evaluation_error c =
     \<lparr>ef_code = c, ef_steps = [], ef_event_ids = [], ef_transition_ids = [], ef_state_before = None,
      ef_state_after = None, ef_version = None, ef_candle_id = None, ef_recorded_at = None\<rparr>"

datatype regime_error = Evaluation evaluation_failure | Raised py_error

definition raise_code :: "failure_code \<Rightarrow> regime_error + 'a" where
  "raise_code c = Inl (Evaluation (evaluation_error c))"

definition lift_res :: "'a res \<Rightarrow> regime_error + 'a" where
  "lift_res r = (case r of Inl e \<Rightarrow> Inl (Raised e) | Inr x \<Rightarrow> Inr x)"

definition gbind :: "regime_error + 'a \<Rightarrow> ('a \<Rightarrow> regime_error + 'b) \<Rightarrow> regime_error + 'b" where
  "gbind m f = (case m of Inl e \<Rightarrow> Inl e | Inr x \<Rightarrow> f x)"

lemma gbind_simps [simp]: "gbind (Inr x) f = f x" "gbind (Inl e) f = Inl e"
  by (simp_all add: gbind_def)

lemma gbind_eq_Inr: "gbind m f = Inr y \<longleftrightarrow> (\<exists>x. m = Inr x \<and> f x = Inr y)"
  by (cases m) auto

lemma lift_res_simps [simp]:
  "lift_res (Inr x) = Inr x" "lift_res (Inl e) = Inl (Raised e)" "lift_res r = Inr y \<longleftrightarrow> r = Inr y"
  by (auto simp: lift_res_def split: sum.split)

lemma raise_code_not_Inr [simp]: "raise_code c \<noteq> Inr x" "Inr x \<noteq> raise_code c"
  by (simp_all add: raise_code_def)

section \<open>Candle identifiers\<close>

text \<open>
  The civil date of a day, counted as \<open>datetime\<close> counts it (day 1 is 0001-01-01), with cycles of
  400, 100, 4 and 1 years.
\<close>

definition leap_year :: "int \<Rightarrow> bool" where
  "leap_year y \<longleftrightarrow> y mod 4 = 0 \<and> (y mod 100 \<noteq> 0 \<or> y mod 400 = 0)"

definition month_lengths :: "int \<Rightarrow> int list" where
  "month_lengths y = [31, if leap_year y then 29 else 28, 31, 30, 31, 30, 31, 31, 30, 31, 30, 31]"

fun month_of_day :: "int \<Rightarrow> int list \<Rightarrow> int \<Rightarrow> int \<times> int" where
  "month_of_day m [] d = (m, d + 1)"
| "month_of_day m (n # ns) d = (if d < n then (m, d + 1) else month_of_day (m + 1) ns (d - n))"

definition civil_date :: "int \<Rightarrow> int \<times> int \<times> int" where
  "civil_date ordinal =
     (let d = ordinal - 1; n400 = d div 146097; d = d mod 146097;
          n100 = d div 36524; d = d mod 36524; n4 = d div 1461; d = d mod 1461;
          n1 = d div 365; d = d mod 365; y = 400 * n400 + 100 * n100 + 4 * n4 + n1 + 1 in
      if n1 = 4 \<or> n100 = 4 then (y - 1, 12, 31)
      else (y, month_of_day 1 (month_lengths y) d))"

definition epoch_ordinal :: int where
  "epoch_ordinal = 719163"

definition pad :: "nat \<Rightarrow> int \<Rightarrow> string" where
  "pad k i = (let s = show_nat (nat i) in replicate (k - length s) (CHR ''0'') @ s)"

text \<open>\<open>isoformat\<close> of a UTC instant, with \<open>Z\<close> for the offset; instants count from 1970.\<close>

definition iso_utc :: "int \<Rightarrow> string" where
  "iso_utc t =
     (let (y, m, d) = civil_date (epoch_ordinal + t div 86400000000); r = t mod 86400000000;
          us = r mod 1000000; s = r div 1000000 in
      pad 4 y @ ''-'' @ pad 2 m @ ''-'' @ pad 2 d @ ''T'' @
      pad 2 (s div 3600) @ '':'' @ pad 2 (s div 60 mod 60) @ '':'' @ pad 2 (s mod 60) @
      (if us = 0 then [] else ''.'' @ pad 6 us) @ ''Z'')"

definition create_candle_id :: "kline \<Rightarrow> string" where
  "create_candle_id k = kl_symbol k @ '':'' @ interval_value (kl_interval k) @ '':'' @ iso_utc (open_at k)"

definition closed_of :: "kline list \<Rightarrow> kline list" where
  "closed_of = filter kl_closed"

text \<open>\<open>max\<close> with a key returns the first of the greatest elements.\<close>

definition latest_kline :: "kline \<Rightarrow> kline list \<Rightarrow> kline" where
  "latest_kline k ks = foldl (\<lambda>a b. if open_at a < open_at b then b else a) k ks"

definition find_latest_closed_candle_id :: "market_state option \<Rightarrow> string option" where
  "find_latest_closed_candle_id m =
     (case m of
        None \<Rightarrow> None
      | Some st \<Rightarrow>
          if \<not> ms_ready st then None
          else (case closed_of (ms_klines st FOUR_HOURS) of
              [] \<Rightarrow> None
            | k # ks \<Rightarrow> Some (create_candle_id (latest_kline k ks))))"

section \<open>Swings\<close>

definition swing_at :: "bool \<Rightarrow> decimal list \<Rightarrow> nat \<Rightarrow> bool" where
  "swing_at highs vs i \<longleftrightarrow>
     list_all (\<lambda>j. if highs then dlt (vs ! j) (vs ! i) else dlt (vs ! i) (vs ! j)) [i - 2, i - 1, i + 1, i + 2]"

definition find_swing_values :: "bool \<Rightarrow> decimal list \<Rightarrow> decimal list" where
  "find_swing_values highs vs = map (\<lambda>i. vs ! i) (filter (swing_at highs vs) [2..<length vs - 2])"

record swing_structure =
  sw_highs :: "decimal list"
  sw_lows :: "decimal list"
  sw_higher_high :: bool
  sw_higher_low :: bool
  sw_lower_high :: bool
  sw_lower_low :: bool

definition swing_structure_ok :: "swing_structure \<Rightarrow> bool" where
  "swing_structure_ok w \<longleftrightarrow>
     2 \<le> length (sw_highs w) \<and> 2 \<le> length (sw_lows w) \<and>
     list_all positive (sw_highs w) \<and> list_all positive (sw_lows w) \<and>
     \<not> (sw_higher_high w \<and> sw_lower_high w) \<and> \<not> (sw_higher_low w \<and> sw_lower_low w)"

definition make_swing_structure :: "swing_structure \<Rightarrow> swing_structure res" where
  "make_swing_structure w = ebind (require (swing_structure_ok w) ValueError) (\<lambda>_. Inr w)"

text \<open>\<open>abs\<close> rounds to the precision of the context.\<close>

fun abs_at :: "nat \<Rightarrow> decimal \<Rightarrow> decimal" where
  "abs_at p (Fin r) = Fin (round_sig p \<bar>r\<bar>)"
| "abs_at p NegZero = Fin 0"
| "abs_at p PosInf = PosInf"
| "abs_at p NegInf = PosInf"
| "abs_at p NaN = NaN"

definition percent_change :: "decimal \<Rightarrow> decimal \<Rightarrow> decimal res" where
  "percent_change previous latest =
     ebind (sub_at 34 latest previous) (\<lambda>d.
     ebind (div_at 34 d (abs_at 34 previous)) (\<lambda>q. mul_at 34 q (Fin 100)))"

definition swing_change_threshold :: decimal where
  "swing_change_threshold = Fin (30 / 100)"

definition swing_change_floor :: decimal where
  "swing_change_floor = Fin (- 30 / 100)"

definition calculate_swing_structure :: "kline list \<Rightarrow> regime_error + swing_structure" where
  "calculate_swing_structure ks =
     (let highs = find_swing_values True (map kl_high ks); lows = find_swing_values False (map kl_low ks) in
      if length highs < 2 \<or> length lows < 2 then raise_code INSUFFICIENT_SWING_POINTS
      else
        gbind (lift_res (percent_change (highs ! (length highs - 2)) (last highs))) (\<lambda>h.
        gbind (lift_res (percent_change (lows ! (length lows - 2)) (last lows))) (\<lambda>l.
        lift_res (make_swing_structure
          \<lparr>sw_highs = highs, sw_lows = lows,
           sw_higher_high = dle swing_change_threshold h, sw_higher_low = dle swing_change_threshold l,
           sw_lower_high = dle h swing_change_floor, sw_lower_low = dle l swing_change_floor\<rparr>))))"

section \<open>Averages\<close>

definition minimum_closed_klines :: nat where
  "minimum_closed_klines = 14"

definition ema9_of_klines :: "kline list \<Rightarrow> regime_error + decimal list" where
  "ema9_of_klines ks =
     (if length ks < minimum_closed_klines then raise_code INSUFFICIENT_CLOSED_KLINES
      else lift_res (calculate_ema9_series (map kl_close ks)))"

definition calculate_normalized_slope :: "decimal list \<Rightarrow> decimal \<Rightarrow> regime_error + decimal" where
  "calculate_normalized_slope series price =
     (let recent = last_values 6 series in
      if length recent \<noteq> 6 then raise_code INSUFFICIENT_CLOSED_KLINES
      else lift_res (calculate_normalized_ols_slope recent price))"

definition calculate_live_ema9 :: "decimal \<Rightarrow> decimal \<Rightarrow> decimal res" where
  "calculate_live_ema9 ema price =
     ebind (mul_at 34 price (Fin (1 / 5))) (\<lambda>a. ebind (mul_at 34 ema (Fin (4 / 5))) (\<lambda>b. add_at 34 a b))"

section \<open>The snapshot of the indicators\<close>

text \<open>
  \<open>is_object\<close> is the identity of the object, so that equal snapshots are the same object; a snapshot
  that was not updated has no values.
\<close>

record indicator_snapshot =
  is_object :: nat
  is_symbol :: string
  is_price :: decimal
  is_version :: int
  is_candle_id :: string
  is_calculated_at :: moment
  is_timeframe :: interval
  is_series :: "decimal list"
  is_slope :: "decimal option"
  is_swing :: "swing_structure option"
  is_live_ema9 :: "decimal option"
  is_ready :: bool

definition make_indicator_snapshot ::
  "nat \<Rightarrow> string \<Rightarrow> decimal \<Rightarrow> int \<Rightarrow> string \<Rightarrow> moment \<Rightarrow> interval \<Rightarrow> indicator_snapshot res" where
  "make_indicator_snapshot obj symbol price version candle calculated timeframe =
     ebind (require (normalized_symbol_ok symbol \<and> positive price \<and> 0 < version \<and> nonblank candle) ValueError) (\<lambda>_.
     ebind (normalize_utc calculated) (\<lambda>t.
     ebind (require (timeframe = FOUR_HOURS) ValueError) (\<lambda>_.
     Inr \<lparr>is_object = obj, is_symbol = symbol, is_price = price, is_version = version, is_candle_id = candle,
          is_calculated_at = t, is_timeframe = timeframe, is_series = [], is_slope = None, is_swing = None,
          is_live_ema9 = None, is_ready = False\<rparr>)))"

definition update_indicator_snapshot ::
  "decimal list \<Rightarrow> decimal \<Rightarrow> swing_structure \<Rightarrow> decimal \<Rightarrow> indicator_snapshot \<Rightarrow> indicator_snapshot res" where
  "update_indicator_snapshot series slope swing live s =
     ebind (require (6 \<le> length series \<and> list_all positive series \<and> is_finite slope \<and> positive live)
       ValueError) (\<lambda>_.
     Inr (s\<lparr>is_series := series, is_slope := Some slope, is_swing := Some swing, is_live_ema9 := Some live,
            is_ready := True\<rparr>))"

text \<open>Reading a value of a snapshot that is not ready raises.\<close>

definition indicator_value :: "'a option \<Rightarrow> 'a res" where
  "indicator_value x = (case x of None \<Rightarrow> Inl RuntimeError | Some v \<Rightarrow> Inr v)"

section \<open>What the calculations give\<close>

lemma finite_nonzero_cases:
  assumes "positive x"
  obtains r where "x = Fin r" "0 < r"
  using assms by (cases x) (auto simp: positive_iff)

lemma positive_Fin [simp]: "positive (Fin r) \<longleftrightarrow> 0 < r"
  by (simp add: positive_iff)

lemma find_swing_values_subset: "set (find_swing_values highs vs) \<subseteq> set vs"
  by (auto simp: find_swing_values_def)

lemma percent_change_value:
  assumes "positive previous" "positive latest"
  obtains d where "percent_change previous latest = Inr d" "is_finite d"
    "dval d = round_sig 34 (round_sig 34 (round_sig 34 (dval latest - dval previous) /
       round_sig 34 (dval previous)) * 100)"
proof -
  obtain p where p: "previous = Fin p" "0 < p" by (rule finite_nonzero_cases [OF assms(1)])
  have l: "is_finite latest" using assms(2) by (simp add: positive_iff)
  have "round_sig 34 p \<noteq> 0" using p(2) r34.zero_iff [of p] by simp
  then show ?thesis
    using that l p by (simp add: percent_change_def sub_at_finite div_at_finite mul_at_finite)
qed

text \<open>A higher swing is a greater number, a lower one a smaller number, and no swing is both.\<close>

lemma percent_change_sign:
  assumes "positive previous" "positive latest" "percent_change previous latest = Inr d"
  shows "is_finite d" "0 < dval d \<longleftrightarrow> dval previous < dval latest" "dval d < 0 \<longleftrightarrow> dval latest < dval previous"
proof -
  obtain d' where d': "percent_change previous latest = Inr d'" "is_finite d'"
    "dval d' = round_sig 34 (round_sig 34 (round_sig 34 (dval latest - dval previous) /
       round_sig 34 (dval previous)) * 100)"
    by (rule percent_change_value [OF assms(1,2)])
  then have d: "is_finite d" "dval d = dval d'" using assms(3) by simp_all
  show "is_finite d" by (rule d(1))
  have p: "0 < round_sig 34 (dval previous)"
    using assms(1) by (simp add: positive_iff round_sig_pos)
  have neg: "round_sig 34 r < 0 \<longleftrightarrow> r < 0" for r
    using r34.pos_iff [of "- r"] by (simp add: round_sig_uminus)
  show "0 < dval d \<longleftrightarrow> dval previous < dval latest"
    unfolding d(2) d'(3) using p by (auto simp: neg r34.pos_iff zero_less_mult_iff zero_less_divide_iff)
  show "dval d < 0 \<longleftrightarrow> dval latest < dval previous"
    unfolding d(2) d'(3) using p by (auto simp: neg r34.pos_iff mult_less_0_iff divide_less_0_iff)
qed

definition swing_pair :: "decimal list \<Rightarrow> decimal \<times> decimal" where
  "swing_pair vs = (vs ! (length vs - 2), last vs)"

lemma swing_structure_value:
  assumes "list_all kline_ok ks"
  shows "calculate_swing_structure ks = raise_code INSUFFICIENT_SWING_POINTS \<or>
    (\<exists>w. calculate_swing_structure ks = Inr w \<and> swing_structure_ok w)"
proof -
  define hs ls where "hs = find_swing_values True (map kl_high ks)" and "ls = find_swing_values False (map kl_low ks)"
  have pos: "list_all positive hs" "list_all positive ls"
    using assms kline_prices(4,5) find_swing_values_subset [of True "map kl_high ks"]
      find_swing_values_subset [of False "map kl_low ks"]
    by (auto simp: list_all_iff hs_def ls_def)
  show ?thesis
  proof (cases "length hs < 2 \<or> length ls < 2")
    case True
    then show ?thesis by (simp add: calculate_swing_structure_def hs_def ls_def Let_def)
  next
    case False
    then have len: "2 \<le> length hs" "2 \<le> length ls" "hs \<noteq> []" "ls \<noteq> []" by auto
    have p: "positive (hs ! (length hs - 2))" "positive (last hs)" "positive (ls ! (length ls - 2))" "positive (last ls)"
      using pos len by (auto simp: list_all_iff)
    obtain h where h: "percent_change (hs ! (length hs - 2)) (last hs) = Inr h" "is_finite h"
      using percent_change_value [OF p(1,2)] by metis
    obtain l where l: "percent_change (ls ! (length ls - 2)) (last ls) = Inr l" "is_finite l"
      using percent_change_value [OF p(3,4)] by metis
    show ?thesis
      using False pos len h l
      by (auto simp: calculate_swing_structure_def hs_def [symmetric] ls_def [symmetric] Let_def
          make_swing_structure_def swing_structure_ok_def swing_change_threshold_def swing_change_floor_def)
  qed
qed

lemma swing_structure_directions:
  assumes "list_all kline_ok ks" "calculate_swing_structure ks = Inr w"
  shows "swing_structure_ok w"
    "sw_higher_high w \<Longrightarrow> dval (fst (swing_pair (sw_highs w))) < dval (snd (swing_pair (sw_highs w)))"
    "sw_lower_high w \<Longrightarrow> dval (snd (swing_pair (sw_highs w))) < dval (fst (swing_pair (sw_highs w)))"
    "sw_higher_low w \<Longrightarrow> dval (fst (swing_pair (sw_lows w))) < dval (snd (swing_pair (sw_lows w)))"
    "sw_lower_low w \<Longrightarrow> dval (snd (swing_pair (sw_lows w))) < dval (fst (swing_pair (sw_lows w)))"
proof -
  show ok: "swing_structure_ok w" using swing_structure_value [OF assms(1)] assms(2) by auto
  then have "sw_highs w \<noteq> []" "sw_lows w \<noteq> []" by (auto simp: swing_structure_ok_def)
  with ok have p: "positive (fst (swing_pair (sw_highs w)))" "positive (snd (swing_pair (sw_highs w)))"
    "positive (fst (swing_pair (sw_lows w)))" "positive (snd (swing_pair (sw_lows w)))"
    by (auto simp: swing_pair_def swing_structure_ok_def list_all_iff)
  obtain h l where hl: "percent_change (fst (swing_pair (sw_highs w))) (snd (swing_pair (sw_highs w))) = Inr h"
    "percent_change (fst (swing_pair (sw_lows w))) (snd (swing_pair (sw_lows w))) = Inr l"
    "sw_higher_high w = dle swing_change_threshold h" "sw_higher_low w = dle swing_change_threshold l"
    "sw_lower_high w = dle h swing_change_floor" "sw_lower_low w = dle l swing_change_floor"
    using assms(2)
    by (auto simp: calculate_swing_structure_def Let_def swing_pair_def gbind_eq_Inr make_swing_structure_def
        ebind_eq_Inr split: if_splits)
  note h = percent_change_sign [OF p(1,2) hl(1)] and l = percent_change_sign [OF p(3,4) hl(2)]
  show "sw_higher_high w \<Longrightarrow> dval (fst (swing_pair (sw_highs w))) < dval (snd (swing_pair (sw_highs w)))"
    "sw_lower_high w \<Longrightarrow> dval (snd (swing_pair (sw_highs w))) < dval (fst (swing_pair (sw_highs w)))"
    using h by (auto simp: hl(3,5) swing_change_threshold_def swing_change_floor_def)
  show "sw_higher_low w \<Longrightarrow> dval (fst (swing_pair (sw_lows w))) < dval (snd (swing_pair (sw_lows w)))"
    "sw_lower_low w \<Longrightarrow> dval (snd (swing_pair (sw_lows w))) < dval (fst (swing_pair (sw_lows w)))"
    using l by (auto simp: hl(4,6) swing_change_threshold_def swing_change_floor_def)
qed

lemma live_ema9_step:
  assumes "positive ema" "positive price"
  shows "calculate_live_ema9 ema price = ema_step price ema"
  using assms by (auto simp: calculate_live_ema9_def ema_step_def mul_at_finite positive_iff mult.commute
      elim!: finite_nonzero_cases)

end
