(* ===== verification/Regime_Controller.thy ===== *)
theory Regime_Controller
  imports Regime_Indicators
begin

text \<open>
  \<open>RegimeController\<close> of \<open>application/regime_controller.py\<close>: it calculates the indicators of one
  version of the market, drives the state machine through the two steps of an evaluation and
  applies the recommended regime, or records why it did not.

  The snapshot of the market is an object that other threads update.  A call is given a
  \<open>market_view\<close>: the identity of the object, the version that is read first, the state the candles
  are read from, and the versions that the later checks read.
\<close>

section \<open>The controller\<close>

record market_view =
  mv_object :: nat
  mv_captured :: int
  mv_state :: market_state
  mv_after :: int
  mv_recorded :: int
  mv_prepared :: int
  mv_started :: int
  mv_final :: market_state

record regime_result =
  rr_evaluation_id :: string
  rr_recommended :: regime_type
  rr_previous :: "regime_type option"
  rr_changed :: bool
  rr_transition_id :: string
  rr_state :: regime_state
  rr_version :: int
  rr_candle_id :: "string option"
  rr_calculated_at :: moment

definition regime_result_ok :: "regime_result \<Rightarrow> bool" where
  "regime_result_ok r \<longleftrightarrow>
     nonblank (rr_evaluation_id r) \<and> rr_changed r = (rr_previous r \<noteq> Some (rr_recommended r)) \<and>
     nonblank (rr_transition_id r) \<and> rr_state r = recommended_state_for (rr_recommended r) \<and>
     0 < rr_version r \<and> opt_all nonblank (rr_candle_id r) \<and> has_offset (rr_calculated_at r)"

definition make_regime_result :: "regime_result \<Rightarrow> regime_result res" where
  "make_regime_result r = ebind (require (regime_result_ok r) ValueError) (\<lambda>_. Inr r)"

record evaluation_trace =
  et_evaluation_id :: string
  et_trigger :: regime_trigger
  et_steps :: "string list"
  et_event_ids :: "string list"
  et_transition_ids :: "string list"
  et_state_before :: regime_state
  et_state_after :: regime_state
  et_version :: int
  et_candle_id :: "string option"
  et_recommended :: "regime_type option"
  et_changed :: "bool option"
  et_failure :: "failure_code option"
  et_recorded_at :: "moment option"

definition evaluation_trace_ok :: "evaluation_trace \<Rightarrow> bool" where
  "evaluation_trace_ok t \<longleftrightarrow>
     nonblank (et_evaluation_id t) \<and> 0 \<le> et_version t \<and> opt_all nonblank (et_candle_id t) \<and>
     opt_all has_offset (et_recorded_at t) \<and>
     (et_failure t = None \<longrightarrow>
        length (et_transition_ids t) = 2 \<and> et_recommended t \<noteq> None \<and> et_changed t \<noteq> None) \<and>
     (et_failure t \<noteq> None \<longrightarrow> et_changed t = None)"

definition make_evaluation_trace :: "evaluation_trace \<Rightarrow> evaluation_trace res" where
  "make_evaluation_trace t = ebind (require (evaluation_trace_ok t) ValueError) (\<lambda>_. Inr t)"

record regime_controller =
  rc_stm :: regime_state
  rc_market :: "nat option"
  rc_failed_market :: "nat option"
  rc_failed_version :: "int option"
  rc_failed_recorded_at :: "moment option"
  rc_failed_candle_id :: "string option"
  rc_indicator :: "indicator_snapshot option"
  rc_indicator_open_time :: "moment option"
  rc_indicator_market :: "nat option"
  rc_recommended :: "regime_type option"
  rc_selected :: "regime_type option"
  rc_last_result :: "regime_result option"
  rc_watermark :: "moment option"
  rc_processed :: "string set"
  rc_traces :: "evaluation_trace list"
  rc_objects :: nat

text \<open>A new controller, with the snapshot it is built with.\<close>

definition new_controller :: "nat option \<Rightarrow> regime_controller" where
  "new_controller m =
     \<lparr>rc_stm = REGIME_INITIAL, rc_market = m, rc_failed_market = None, rc_failed_version = None,
      rc_failed_recorded_at = None, rc_failed_candle_id = None, rc_indicator = None,
      rc_indicator_open_time = None, rc_indicator_market = None, rc_recommended = None,
      rc_selected = None, rc_last_result = None, rc_watermark = None, rc_processed = {}, rc_traces = [],
      rc_objects = 0\<rparr>"

text \<open>An operation returns a value or an error, and the controller it leaves behind.\<close>

type_synonym 'a operation = "regime_controller \<Rightarrow> (regime_error + 'a) \<times> regime_controller"

definition obind :: "'a operation \<Rightarrow> ('a \<Rightarrow> 'b operation) \<Rightarrow> 'b operation" where
  "obind m f c = (case m c of (Inl e, c') \<Rightarrow> (Inl e, c') | (Inr x, c') \<Rightarrow> f x c')"

definition opure :: "regime_error + 'a \<Rightarrow> 'a operation" where
  "opure r c = (r, c)"

definition orequire :: "bool \<Rightarrow> failure_code \<Rightarrow> unit operation" where
  "orequire b e c = (if b then Inr () else raise_code e, c)"

definition oget :: "(regime_controller \<Rightarrow> 'a) \<Rightarrow> 'a operation" where
  "oget f c = (Inr (f c), c)"

definition omodify :: "(regime_controller \<Rightarrow> regime_controller) \<Rightarrow> unit operation" where
  "omodify f c = (Inr (), f c)"

text \<open>\<open>try: ... except RegimeEvaluationError\<close>: the handler sees the state at the point of failure.\<close>

definition ocatch :: "'a operation \<Rightarrow> (evaluation_failure \<Rightarrow> 'a operation) \<Rightarrow> 'a operation" where
  "ocatch m h c = (case m c of (Inl (Evaluation f), c') \<Rightarrow> h f c' | r \<Rightarrow> r)"

lemmas operation_defs = obind_def opure_def orequire_def oget_def omodify_def ocatch_def

section \<open>Indicators\<close>

definition bind_market_snapshot :: "nat \<Rightarrow> unit operation" where
  "bind_market_snapshot obj c =
     (case rc_market c of
        None \<Rightarrow> (Inr (), c\<lparr>rc_market := Some obj\<rparr>)
      | Some m \<Rightarrow> (if m = obj then Inr () else raise_code MARKET_SNAPSHOT_MISMATCH, c))"

definition create_calculation_error ::
  "failure_code \<Rightarrow> int \<Rightarrow> string option \<Rightarrow> moment \<Rightarrow> regime_error" where
  "create_calculation_error e version candle recorded =
     Evaluation ((evaluation_error e)\<lparr>ef_version := Some version, ef_candle_id := candle,
       ef_recorded_at := Some recorded\<rparr>)"

definition remember_failed_calculation ::
  "nat \<Rightarrow> int \<Rightarrow> string option \<Rightarrow> moment \<Rightarrow> regime_controller \<Rightarrow> regime_controller" where
  "remember_failed_calculation obj version candle recorded c =
     c\<lparr>rc_failed_market := Some obj, rc_failed_version := Some version, rc_failed_candle_id := candle,
       rc_failed_recorded_at := Some recorded\<rparr>"

definition forget_failed_calculation :: "regime_controller \<Rightarrow> regime_controller" where
  "forget_failed_calculation c =
     c\<lparr>rc_failed_market := None, rc_failed_version := None, rc_failed_candle_id := None,
       rc_failed_recorded_at := None\<rparr>"

definition raise_calculation_failure ::
  "market_view \<Rightarrow> failure_code \<Rightarrow> string option \<Rightarrow> moment \<Rightarrow> 'a operation" where
  "raise_calculation_failure v e candle recorded c =
     (let version = mv_captured v;
          stale = create_calculation_error STALE_MARKET_SNAPSHOT version candle recorded in
      if mv_after v \<noteq> version then (Inl stale, c)
      else let c' = remember_failed_calculation (mv_object v) version candle recorded c in
        if mv_recorded v \<noteq> version then (Inl stale, forget_failed_calculation c')
        else (Inl (create_calculation_error e version candle recorded), c'))"

text \<open>The numbers, in the order of the code; \<open>ArithmeticError\<close> covers both decimal exceptions.\<close>

definition calculate_values ::
  "kline list \<Rightarrow> decimal \<Rightarrow> regime_error + decimal list \<times> decimal \<times> swing_structure \<times> decimal" where
  "calculate_values closed_ks price =
     gbind (ema9_of_klines closed_ks) (\<lambda>series.
     gbind (calculate_normalized_slope series price) (\<lambda>slope.
     gbind (calculate_swing_structure closed_ks) (\<lambda>swing.
     gbind (lift_res (calculate_live_ema9 (last series) price)) (\<lambda>live.
     Inr (series, slope, swing, live)))))"

definition arithmetic_error :: "py_error \<Rightarrow> bool" where
  "arithmetic_error e \<longleftrightarrow> e = InvalidOperation \<or> e = DivisionByZero"

definition guarded_values ::
  "market_view \<Rightarrow> kline list \<Rightarrow> decimal \<Rightarrow> string option \<Rightarrow> moment \<Rightarrow>
   (decimal list \<times> decimal \<times> swing_structure \<times> decimal) operation" where
  "guarded_values v closed_ks price candle recorded c =
     (case calculate_values closed_ks price of
        Inr x \<Rightarrow> (Inr x, c)
      | Inl (Evaluation f) \<Rightarrow> raise_calculation_failure v (ef_code f) candle recorded c
      | Inl (Raised e) \<Rightarrow>
          if arithmetic_error e
          then raise_calculation_failure v INDICATOR_CALCULATION_FAILED candle recorded c
          else (Inl (Raised e), c))"

definition dedup_by_open_time :: "kline list \<Rightarrow> kline list" where
  "dedup_by_open_time ks = map snd (fold (\<lambda>k. AList.update (open_at k) k) ks [])"

text \<open>The candle of the last closed four hours, if there is one.\<close>

definition last_candle_id :: "kline list \<Rightarrow> string option" where
  "last_candle_id closed_ks = (if closed_ks = [] then None else Some (create_candle_id (last closed_ks)))"

text \<open>\<open>sorted_klines[-1] is open_klines[0]\<close>: the only open candle is the last one.\<close>

definition only_last_open :: "kline list \<Rightarrow> bool" where
  "only_last_open ks \<longleftrightarrow>
     length (filter (\<lambda>k. \<not> kl_closed k) ks) = 1 \<and> ks \<noteq> [] \<and> \<not> kl_closed (last ks)"

definition publish_indicators ::
  "market_view \<Rightarrow> kline list \<Rightarrow> decimal \<Rightarrow> string \<Rightarrow> moment \<Rightarrow>
   decimal list \<times> decimal \<times> swing_structure \<times> decimal \<Rightarrow> indicator_snapshot operation" where
  "publish_indicators v closed_ks price candle calculated =
     (\<lambda>(series, slope, swing, live).
       obind (oget rc_objects) (\<lambda>obj.
       obind (opure (lift_res (ebind
           (make_indicator_snapshot obj supported_symbol price (mv_captured v) candle calculated FOUR_HOURS)
           (update_indicator_snapshot series slope swing live)))) (\<lambda>s.
       obind (omodify (\<lambda>c. (forget_failed_calculation c)\<lparr>rc_indicator := Some s,
           rc_indicator_open_time := Some (kl_open_time (last closed_ks)),
           rc_indicator_market := Some (mv_object v), rc_objects := Suc obj\<rparr>)) (\<lambda>_.
       opure (Inr s)))))"

definition four_hour_klines :: "market_view \<Rightarrow> kline list" where
  "four_hour_klines v = sort_key open_at (dedup_by_open_time (ms_klines (mv_state v) FOUR_HOURS))"

definition calculate_candles :: "market_view \<Rightarrow> moment \<Rightarrow> indicator_snapshot operation" where
  "calculate_candles v calculated =
     (let ks = four_hour_klines v; closed_ks = closed_of ks; candle = last_candle_id closed_ks in
      if \<not> only_last_open ks then raise_calculation_failure v INVALID_FOUR_HOUR_CANDLES candle calculated
      else if length closed_ks < minimum_closed_klines
      then raise_calculation_failure v INSUFFICIENT_CLOSED_KLINES candle calculated
      else let price = kl_close (last ks) in
        (case candle of
           None \<Rightarrow> opure (Inl (Raised RuntimeError))
         | Some candle_id \<Rightarrow>
             obind (guarded_values v closed_ks price candle calculated) (\<lambda>vals.
             if mv_after v \<noteq> mv_captured v
             then opure (Inl (create_calculation_error STALE_MARKET_SNAPSHOT (mv_captured v) candle calculated))
             else publish_indicators v closed_ks price candle_id calculated vals)))"

text \<open>A version that failed is not tried again.\<close>

definition calculate_bound :: "market_view \<Rightarrow> indicator_snapshot operation" where
  "calculate_bound v c =
     (if rc_failed_market c = Some (mv_object v) \<and> rc_failed_version c = Some (mv_captured v)
      then opure (case rc_failed_recorded_at c of
          None \<Rightarrow> Inl (Raised RuntimeError)
        | Some recorded \<Rightarrow>
            Inl (create_calculation_error REPEATED_FAILED_MARKET_VERSION (mv_captured v)
              (rc_failed_candle_id c) recorded)) c
      else case ms_updated_at (mv_state v) of
        None \<Rightarrow> opure (raise_code MARKET_SNAPSHOT_NOT_READY) c
      | Some calculated \<Rightarrow> calculate_candles v calculated c)"

definition calculate_4h_indicators :: "market_view \<Rightarrow> indicator_snapshot operation" where
  "calculate_4h_indicators v =
     obind (bind_market_snapshot (mv_object v)) (\<lambda>_.
     obind (orequire (ms_ready (mv_state v)) MARKET_SNAPSHOT_NOT_READY) (\<lambda>_. calculate_bound v))"

section \<open>The two steps of an evaluation\<close>

definition success_steps :: "string list" where
  "success_steps =
     [''1.4:MarketDataController->RegimeController.calculate_4h_indicators'',
      ''1.4.1:RegimeController->IndicatorSnapshot.update'',
      ''1.5:MarketDataController->RegimeController.recommend_regime'',
      ''1.5.1:RegimeController->RegimeSTM.handle:trigger'',
      ''1.5.1:RegimeController->RegimeSTM.handle:EVALUATION_READY'']"

definition infer_evaluation_trigger :: "regime_trigger operation" where
  "infer_evaluation_trigger c =
     (if rc_stm c = REGIME_INITIAL then Inr INITIAL_TRIGGER
      else if rc_stm c = FOUR_HOUR_CANDLE_EVALUATION then raise_code INVALID_TRIGGER_STATE
      else Inr FOUR_HOUR_CANDLE_CLOSE, c)"

definition evaluation_id_text :: "regime_trigger \<Rightarrow> int \<Rightarrow> string \<Rightarrow> string" where
  "evaluation_id_text t version candle =
     ''regime-evaluation:'' @ regime_trigger_name t @ '':'' @ show_int version @ '':'' @ candle"

definition create_evaluation_id :: "regime_trigger \<Rightarrow> indicator_snapshot \<Rightarrow> string" where
  "create_evaluation_id t s = evaluation_id_text t (is_version s) (is_candle_id s)"

definition create_evaluation_context :: "string \<Rightarrow> indicator_snapshot \<Rightarrow> regime_context res" where
  "create_evaluation_context eid s =
     ebind (indicator_value (is_swing s)) (\<lambda>w.
     ebind (indicator_value (is_slope s)) (\<lambda>slope.
     ebind (indicator_value (is_live_ema9 s)) (\<lambda>live.
     make_regime_context
       \<lparr>rx_evaluation_id = eid, rx_symbol = is_symbol s, rx_timeframe = is_timeframe s, rx_slope = slope,
        rx_higher_high = sw_higher_high w, rx_higher_low = sw_higher_low w,
        rx_lower_high = sw_lower_high w, rx_lower_low = sw_lower_low w, rx_price = is_price s,
        rx_live_ema9 = live, rx_version = is_version s, rx_candle_id = Some (is_candle_id s),
        rx_calculated_at = is_calculated_at s\<rparr>)))"

definition regime_event_of :: "regime_event_type \<Rightarrow> string \<Rightarrow> indicator_snapshot \<Rightarrow> regime_event res" where
  "regime_event_of t eid s =
     make_regime_event
       \<lparr>rv_type = t, rv_id = eid @ '':'' @ regime_event_name t, rv_occurred_at = is_calculated_at s,
        rv_evaluation_id = eid, rv_candle_id = Some (is_candle_id s)\<rparr>"

definition create_external_event :: "regime_trigger \<Rightarrow> string \<Rightarrow> indicator_snapshot \<Rightarrow> regime_event res" where
  "create_external_event t =
     regime_event_of (if t = INITIAL_TRIGGER then INITIAL_EVALUATION_REQUESTED else FOUR_HOUR_CANDLE_CLOSED)"

definition require_action ::
  "stm_decision \<Rightarrow> (regime_action \<Rightarrow> bool) \<Rightarrow> string \<Rightarrow> regime_error + regime_action" where
  "require_action d expected eid =
     (if sd_evaluation_id d \<noteq> eid then raise_code ACTION_CONTRACT_MISMATCH
      else if \<not> sd_consumed d \<or> sd_transition_id d = None then raise_code STM_TRANSITION_REJECTED
      else case sd_actions d of
        [a] \<Rightarrow> if expected a then Inr a else raise_code ACTION_CONTRACT_MISMATCH
      | _ \<Rightarrow> raise_code ACTION_CONTRACT_MISMATCH)"

fun is_start_action :: "regime_action \<Rightarrow> bool" where
  "is_start_action (StartRegimeEvaluation e t c) = True"
| "is_start_action (ApplyRecommendedRegime e r c) = False"

fun validate_start_action :: "regime_action \<Rightarrow> regime_context \<Rightarrow> regime_trigger \<Rightarrow> regime_error + unit" where
  "validate_start_action (StartRegimeEvaluation e t c) x g =
     (if e = rx_evaluation_id x \<and> c = rx_candle_id x \<and> t = g then Inr () else raise_code ACTION_CONTRACT_MISMATCH)"
| "validate_start_action (ApplyRecommendedRegime e r c) x g = raise_code ACTION_CONTRACT_MISMATCH"

text \<open>The identifier and the type of the recommendation that was requested.\<close>

fun validate_recommendation_action ::
  "regime_action \<Rightarrow> regime_context \<Rightarrow> regime_error + string \<times> regime_type" where
  "validate_recommendation_action (ApplyRecommendedRegime e r c) x =
     (if e = rx_evaluation_id x \<and> c = rx_candle_id x then Inr (e, r) else raise_code ACTION_CONTRACT_MISMATCH)"
| "validate_recommendation_action (StartRegimeEvaluation e t c) x = raise_code ACTION_CONTRACT_MISMATCH"

text \<open>One event of the state machine, which keeps its state when it raises.\<close>

definition run_stm :: "regime_event \<Rightarrow> regime_context option \<Rightarrow> stm_decision operation" where
  "run_stm e ctx c =
     (case handle_regime_event (rc_stm c) e ctx of
        Inl err \<Rightarrow> (Inl (Raised err), c)
      | Inr (d, s) \<Rightarrow> (Inr d, c\<lparr>rc_stm := s\<rparr>))"

definition add_progress ::
  "string list \<Rightarrow> string list \<Rightarrow> string list \<Rightarrow> regime_state \<Rightarrow> regime_state \<Rightarrow>
   evaluation_failure \<Rightarrow> evaluation_failure" where
  "add_progress steps events transitions prior after f =
     f\<lparr>ef_steps := steps, ef_event_ids := events, ef_transition_ids := transitions,
       ef_state_before := Some prior, ef_state_after := Some after\<rparr>"

definition opt_list :: "'a option \<Rightarrow> 'a list" where
  "opt_list x = (case x of None \<Rightarrow> [] | Some y \<Rightarrow> [y])"

definition with_progress ::
  "string list \<Rightarrow> string list \<Rightarrow> string list \<Rightarrow> regime_state \<Rightarrow> regime_error + 'a \<Rightarrow> 'a operation" where
  "with_progress steps events transitions prior r =
     ocatch (opure r) (\<lambda>f c.
       (Inl (Evaluation (add_progress steps events transitions prior (rc_stm c) f)), c))"

definition apply_recommended_regime ::
  "string \<Rightarrow> regime_type \<Rightarrow> stm_decision \<Rightarrow> stm_decision \<Rightarrow> regime_event \<Rightarrow> regime_event \<Rightarrow> indicator_snapshot \<Rightarrow>
   regime_result operation" where
  "apply_recommended_regime eid r started recommended external ready s c =
     (case (sd_transition_id started, sd_transition_id recommended) of
        (Some t1, Some t2) \<Rightarrow>
          obind (opure (lift_res (make_regime_result
            \<lparr>rr_evaluation_id = eid, rr_recommended = r, rr_previous = rc_recommended c,
             rr_changed = (rc_recommended c \<noteq> Some r), rr_transition_id = t2,
             rr_state = sd_state_after recommended, rr_version = is_version s,
             rr_candle_id = Some (is_candle_id s), rr_calculated_at = is_calculated_at s\<rparr>))) (\<lambda>result.
          obind (opure (lift_res (make_evaluation_trace
            \<lparr>et_evaluation_id = eid,
             et_trigger = (if rv_type external = INITIAL_EVALUATION_REQUESTED then INITIAL_TRIGGER
                           else FOUR_HOUR_CANDLE_CLOSE),
             et_steps = success_steps, et_event_ids = [rv_id external, rv_id ready],
             et_transition_ids = [t1, t2], et_state_before = sd_state_before started,
             et_state_after = sd_state_after recommended, et_version = is_version s,
             et_candle_id = Some (is_candle_id s), et_recommended = Some r,
             et_changed = Some (rc_recommended c \<noteq> Some r), et_failure = None,
             et_recorded_at = Some (is_calculated_at s)\<rparr>))) (\<lambda>trace.
          obind (omodify (\<lambda>c. c\<lparr>rc_recommended := Some r, rc_last_result := Some result,
            rc_processed := insert (is_candle_id s) (rc_processed c),
            rc_watermark := rc_indicator_open_time c, rc_traces := rc_traces c @ [trace]\<rparr>)) (\<lambda>_.
          opure (Inr result)))) c
      | _ \<Rightarrow> (Inl (Raised RuntimeError), c))"

text \<open>Everything that is checked and built before the state machine runs.\<close>

definition prepare_evaluation ::
  "regime_trigger \<Rightarrow> market_view \<Rightarrow> indicator_snapshot \<Rightarrow> (regime_context \<times> regime_event) operation" where
  "prepare_evaluation g v s =
     obind (orequire (is_ready s) INVALID_INDICATOR_SNAPSHOT) (\<lambda>_.
     obind (oget id) (\<lambda>c0.
     obind (orequire (rc_market c0 \<noteq> None \<or> rc_indicator_market c0 \<noteq> None) MARKET_SNAPSHOT_MISMATCH) (\<lambda>_.
     obind (orequire (rc_indicator c0 = Some s) INVALID_INDICATOR_SNAPSHOT) (\<lambda>_.
     obind (orequire (mv_prepared v = is_version s) STALE_MARKET_SNAPSHOT) (\<lambda>_.
     obind (orequire (is_candle_id s \<notin> rc_processed c0) DUPLICATE_FOUR_HOUR_CANDLE) (\<lambda>_.
     obind (opure (lift_res (indicator_value (rc_indicator_open_time c0)))) (\<lambda>open_time.
     obind (orequire (opt_all (\<lambda>w. instant w < instant open_time) (rc_watermark c0)) STALE_FOUR_HOUR_CANDLE) (\<lambda>_.
     obind (orequire (g = INITIAL_TRIGGER \<longrightarrow> rc_stm c0 = REGIME_INITIAL) INVALID_TRIGGER_STATE) (\<lambda>_.
     obind (orequire (g = FOUR_HOUR_CANDLE_CLOSE \<longrightarrow>
         rc_stm c0 \<notin> {REGIME_INITIAL, FOUR_HOUR_CANDLE_EVALUATION}) INVALID_TRIGGER_STATE) (\<lambda>_.
     obind (opure (lift_res (create_evaluation_context (create_evaluation_id g s) s))) (\<lambda>x.
     obind (opure (lift_res (create_external_event g (create_evaluation_id g s) s))) (\<lambda>external.
     obind (orequire (mv_started v = is_version s) STALE_MARKET_SNAPSHOT) (\<lambda>_.
     opure (Inr (x, external)))))))))))))))"

definition run_microsteps ::
  "regime_trigger \<Rightarrow> indicator_snapshot \<Rightarrow> regime_context \<Rightarrow> regime_event \<Rightarrow> regime_result operation" where
  "run_microsteps g s x external =
     (let eid = create_evaluation_id g s in
     obind (oget rc_stm) (\<lambda>prior.
     obind (run_stm external None) (\<lambda>started.
     obind (with_progress (take 4 success_steps) [rv_id external] (opt_list (sd_transition_id started)) prior
         (gbind (require_action started is_start_action eid) (\<lambda>a. validate_start_action a x g))) (\<lambda>_.
     obind (opure (lift_res (regime_event_of EVALUATION_READY eid s))) (\<lambda>ready.
     obind (run_stm ready (Some x)) (\<lambda>recommended.
     obind (with_progress success_steps [rv_id external, rv_id ready]
         (opt_list (sd_transition_id started) @ opt_list (sd_transition_id recommended)) prior
         (gbind (require_action recommended (Not \<circ> is_start_action) eid)
            (\<lambda>a. validate_recommendation_action a x))) (\<lambda>(action_id, r).
     apply_recommended_regime action_id r started recommended external ready s)))))))"

definition run_prepared_evaluation ::
  "regime_trigger \<Rightarrow> market_view \<Rightarrow> indicator_snapshot \<Rightarrow> regime_result operation" where
  "run_prepared_evaluation g v s =
     obind (prepare_evaluation g v s) (\<lambda>(x, external). run_microsteps g s x external)"

section \<open>The record of a failure\<close>

definition failure_trace ::
  "regime_trigger \<Rightarrow> indicator_snapshot option \<Rightarrow> market_state option \<Rightarrow> evaluation_failure \<Rightarrow>
   regime_controller \<Rightarrow> evaluation_trace" where
  "failure_trace g indicators market f c =
     (let known = ef_version f \<noteq> None;
          version = (case indicators of
              Some s \<Rightarrow> is_version s
            | None \<Rightarrow> (case ef_version f of Some n \<Rightarrow> n | None \<Rightarrow> (case market of Some m \<Rightarrow> ms_version m | None \<Rightarrow> 0)));
          candle = (case indicators of
              Some s \<Rightarrow> Some (is_candle_id s)
            | None \<Rightarrow> if known then ef_candle_id f else find_latest_closed_candle_id market);
          recorded = (case indicators of
              Some s \<Rightarrow> Some (is_calculated_at s)
            | None \<Rightarrow> if known then ef_recorded_at f
                else (case market of Some m \<Rightarrow> ms_updated_at m | None \<Rightarrow> None));
          eid = (case indicators of
              Some s \<Rightarrow> create_evaluation_id g s
            | None \<Rightarrow> evaluation_id_text g version (py_or_str candle ''UNAVAILABLE''));
          steps = (if ef_steps f \<noteq> [] then ef_steps f
            else if indicators \<noteq> None then take 3 success_steps else take 1 success_steps) in
      \<lparr>et_evaluation_id = eid, et_trigger = g, et_steps = steps, et_event_ids = ef_event_ids f,
         et_transition_ids = ef_transition_ids f,
         et_state_before = (case ef_state_before f of Some s \<Rightarrow> s | None \<Rightarrow> rc_stm c),
         et_state_after = (case ef_state_after f of Some s \<Rightarrow> s | None \<Rightarrow> rc_stm c),
         et_version = version, et_candle_id = candle, et_recommended = rc_recommended c, et_changed = None,
         et_failure = Some (ef_code f), et_recorded_at = recorded\<rparr>)"

definition record_failure ::
  "regime_trigger \<Rightarrow> indicator_snapshot option \<Rightarrow> market_state option \<Rightarrow> evaluation_failure \<Rightarrow> unit operation" where
  "record_failure g indicators market f =
     obind (oget (failure_trace g indicators market f)) (\<lambda>raw.
     obind (opure (lift_res (make_evaluation_trace raw))) (\<lambda>trace.
     omodify (\<lambda>c. c\<lparr>rc_traces := rc_traces c @ [trace]\<rparr>)))"

section \<open>Operations\<close>

definition recommend_regime :: "market_view \<Rightarrow> indicator_snapshot \<Rightarrow> regime_type operation" where
  "recommend_regime v s =
     obind infer_evaluation_trigger (\<lambda>g.
     obind (ocatch (run_prepared_evaluation g v s) (\<lambda>f.
         obind (record_failure g (Some s) None f) (\<lambda>_. opure (Inl (Evaluation f))))) (\<lambda>result.
     opure (Inr (rr_recommended result))))"

text \<open>The end of a failed attempt: one trace, unless the attempt already left one.\<close>

definition finish_failed ::
  "regime_trigger \<Rightarrow> market_view \<Rightarrow> nat \<Rightarrow> indicator_snapshot option \<Rightarrow> evaluation_failure \<Rightarrow>
   'a option operation" where
  "finish_failed g v n indicators f c =
     (if length (rc_traces c) = n
      then obind (record_failure g indicators (Some (mv_final v)) f) (\<lambda>_. opure (Inr None)) c
      else (Inr None, c))"

text \<open>What is checked between the indicators and the recommendation, with the progress it reports.\<close>

definition check_before_recommendation :: "regime_trigger \<Rightarrow> indicator_snapshot \<Rightarrow> unit operation" where
  "check_before_recommendation g s =
     obind (oget id) (\<lambda>c0.
     obind (with_progress (take 2 success_steps) [] [] (rc_stm c0)
         (if is_candle_id s \<in> rc_processed c0 then raise_code DUPLICATE_FOUR_HOUR_CANDLE else Inr ())) (\<lambda>_.
     obind infer_evaluation_trigger (\<lambda>expected.
     with_progress (take 2 success_steps) [] [] (rc_stm c0)
       (if g \<noteq> expected then raise_code INVALID_TRIGGER_STATE else Inr ()))))"

definition last_regime_result :: "regime_result operation" where
  "last_regime_result c =
     (case rc_last_result c of None \<Rightarrow> (Inl (Raised RuntimeError), c) | Some r \<Rightarrow> (Inr r, c))"

definition evaluate_prepared ::
  "regime_trigger \<Rightarrow> market_view \<Rightarrow> indicator_snapshot \<Rightarrow> regime_result option operation" where
  "evaluate_prepared g v s =
     obind (check_before_recommendation g s) (\<lambda>_.
     obind (recommend_regime v s) (\<lambda>_.
     obind last_regime_result (\<lambda>r. opure (Inr (Some r)))))"

text \<open>The indicators, then the rest; a failure of either goes to the handler.\<close>

definition with_indicators ::
  "market_view \<Rightarrow> (indicator_snapshot \<Rightarrow> 'a operation) \<Rightarrow>
   (indicator_snapshot option \<Rightarrow> evaluation_failure \<Rightarrow> 'a operation) \<Rightarrow> 'a operation" where
  "with_indicators v body handler c =
     (case calculate_4h_indicators v c of
        (Inr s, c') \<Rightarrow> ocatch (body s) (handler (Some s)) c'
      | (Inl (Evaluation f), c') \<Rightarrow> handler None f c'
      | (Inl (Raised e), c') \<Rightarrow> (Inl (Raised e), c'))"

definition evaluation_attempt ::
  "regime_trigger \<Rightarrow> market_view \<Rightarrow> regime_result option operation option \<Rightarrow> regime_result option operation" where
  "evaluation_attempt g v retry c =
     with_indicators v (evaluate_prepared g v) (\<lambda>s f.
       case (if ef_code f = STALE_MARKET_SNAPSHOT then retry else None) of
         Some again \<Rightarrow> again
       | None \<Rightarrow> finish_failed g v (length (rc_traces c)) s f) c"

text \<open>A market that moved on during the attempt is tried once more.\<close>

definition evaluate_regime ::
  "regime_trigger \<Rightarrow> market_view \<Rightarrow> market_view \<Rightarrow> regime_result option operation" where
  "evaluate_regime g v again = evaluation_attempt g v (Some (evaluation_attempt g again None))"

definition rebound_result :: "regime_result \<Rightarrow> indicator_snapshot \<Rightarrow> regime_result" where
  "rebound_result previous s =
     \<lparr>rr_evaluation_id = ''regime-reconciliation:'' @ show_int (is_version s) @ '':'' @ is_candle_id s,
      rr_recommended = rr_recommended previous, rr_previous = Some (rr_recommended previous),
      rr_changed = False, rr_transition_id = rr_transition_id previous, rr_state = rr_state previous,
      rr_version = is_version s, rr_candle_id = Some (is_candle_id s),
      rr_calculated_at = is_calculated_at s\<rparr>"

definition reconcile_prepared ::
  "regime_result \<Rightarrow> market_view \<Rightarrow> indicator_snapshot \<Rightarrow> regime_result option operation" where
  "reconcile_prepared previous v s =
     (if Some (is_candle_id s) \<noteq> rr_candle_id previous
      then obind (recommend_regime v s) (\<lambda>_. oget rc_last_result)
      else
        obind (oget id) (\<lambda>c0.
        obind (orequire (rc_recommended c0 = Some (rr_recommended previous) \<and> rc_stm c0 = rr_state previous)
          ACTION_CONTRACT_MISMATCH) (\<lambda>_.
        obind (opure (lift_res (make_regime_result (rebound_result previous s)))) (\<lambda>rebound.
        obind (omodify (\<lambda>c. c\<lparr>rc_last_result := Some rebound\<rparr>)) (\<lambda>_. opure (Inr (Some rebound)))))))"

definition reconcile_regime :: "market_view \<Rightarrow> market_view \<Rightarrow> regime_result option operation" where
  "reconcile_regime v again c =
     (case rc_last_result c of
        None \<Rightarrow> evaluate_regime INITIAL_TRIGGER v again c
      | Some previous \<Rightarrow>
          with_indicators v (reconcile_prepared previous v)
            (finish_failed FOUR_HOUR_CANDLE_CLOSE v (length (rc_traces c))) c)"

section \<open>The selection of the user\<close>

text \<open>
  The port of the trading layer: the factory, the commit and the regime it has selected
  afterwards.  They are given by the caller.
\<close>

record ('stm, 'r) selection_port =
  sp_fetch :: "regime_type \<Rightarrow> 'stm res"
  sp_commit :: "regime_type \<Rightarrow> 'stm option \<Rightarrow> string \<Rightarrow> int \<Rightarrow> 'r res"
  sp_selected :: "regime_type option"

definition set_regime_type ::
  "('stm, 'r) selection_port option \<Rightarrow> regime_type \<Rightarrow> string \<Rightarrow> int \<Rightarrow> 'r operation" where
  "set_regime_type port r command version c =
     (case port of
        None \<Rightarrow> (Inl (Raised RuntimeError), c)
      | Some p \<Rightarrow>
          (let commit = (\<lambda>selected.
             case sp_commit p r selected command version of
               Inl e \<Rightarrow> (Inl (Raised e), c)
             | Inr result \<Rightarrow>
                 (case sp_selected p of
                    None \<Rightarrow> (Inl (Raised RuntimeError), c)
                  | Some q \<Rightarrow> (Inr result, c\<lparr>rc_selected := Some q\<rparr>))) in
           case sp_fetch p r of
             Inr stm \<Rightarrow> commit (Some stm)
           | Inl e \<Rightarrow> if e = UnsupportedTradingLogicError then commit None else (Inl (Raised e), c)))"

text \<open>The newest trace of a failure.\<close>

definition last_error :: "regime_controller \<Rightarrow> evaluation_trace option" where
  "last_error c = find (\<lambda>t. et_failure t \<noteq> None) (rev (rc_traces c))"

section \<open>What a calculation leaves\<close>

definition indicator_ok :: "indicator_snapshot \<Rightarrow> bool" where
  "indicator_ok s \<longleftrightarrow>
     is_ready s \<and> is_timeframe s = FOUR_HOURS \<and> normalized_symbol_ok (is_symbol s) \<and> positive (is_price s) \<and>
     0 < is_version s \<and> nonblank (is_candle_id s) \<and> is_utc (is_calculated_at s) \<and>
     (\<exists>slope w live. is_slope s = Some slope \<and> is_swing s = Some w \<and> is_live_ema9 s = Some live \<and>
        is_finite slope \<and> swing_structure_ok w \<and> positive live)"

text \<open>The parts of the controller that only a recommendation changes.\<close>

definition same_recommendation :: "regime_controller \<Rightarrow> regime_controller \<Rightarrow> bool" where
  "same_recommendation c c' \<longleftrightarrow>
     rc_stm c' = rc_stm c \<and> rc_recommended c' = rc_recommended c \<and> rc_last_result c' = rc_last_result c \<and>
     rc_watermark c' = rc_watermark c \<and> rc_processed c' = rc_processed c \<and> rc_selected c' = rc_selected c"

definition failure_memory_ok :: "regime_controller \<Rightarrow> bool" where
  "failure_memory_ok c \<longleftrightarrow>
     (rc_failed_market c = None) = (rc_failed_recorded_at c = None) \<and> opt_all nonblank (rc_failed_candle_id c) \<and>
     opt_all has_offset (rc_failed_recorded_at c)"

text \<open>What a failed calculation keeps.\<close>

definition kept :: "regime_controller \<Rightarrow> regime_controller \<Rightarrow> bool" where
  "kept c c' \<longleftrightarrow>
     same_recommendation c c' \<and> rc_traces c' = rc_traces c \<and> rc_indicator c' = rc_indicator c \<and>
     rc_indicator_open_time c' = rc_indicator_open_time c \<and> rc_objects c' = rc_objects c \<and>
     rc_indicator_market c' = rc_indicator_market c"

lemma same_recommendation_refl [simp]: "same_recommendation c c"
  by (simp add: same_recommendation_def)

lemma same_recommendation_trans:
  "same_recommendation a b \<Longrightarrow> same_recommendation b c \<Longrightarrow> same_recommendation a c"
  by (simp add: same_recommendation_def)

lemma kept_refl [simp]: "kept c c"
  by (simp add: kept_def)

lemma kept_market [simp]: "kept c (c'\<lparr>rc_market := m\<rparr>) \<longleftrightarrow> kept c c'"
  by (simp add: kept_def same_recommendation_def)

text \<open>The provenance that a failed calculation reports.\<close>

definition provenance :: "market_view \<Rightarrow> string option \<Rightarrow> moment \<Rightarrow> evaluation_failure \<Rightarrow> bool" where
  "provenance v candle recorded f \<longleftrightarrow>
     ef_version f = Some (mv_captured v) \<and> ef_candle_id f = candle \<and> ef_recorded_at f = Some recorded \<and>
     ef_steps f = [] \<and> ef_state_before f = None \<and> ef_state_after f = None"

lemma raise_calculation_failureD:
  assumes "raise_calculation_failure v e candle recorded c = (r, c')"
  shows "\<exists>f. r = Inl (Evaluation f) \<and> kept c c' \<and> rc_market c' = rc_market c \<and> provenance v candle recorded f \<and>
     (failure_memory_ok c \<longrightarrow> opt_all nonblank candle \<longrightarrow> has_offset recorded \<longrightarrow> failure_memory_ok c')"
  using assms
  by (auto simp: raise_calculation_failure_def Let_def create_calculation_error_def evaluation_error_def
      remember_failed_calculation_def forget_failed_calculation_def kept_def same_recommendation_def
      provenance_def failure_memory_ok_def split: if_splits)

lemma candle_id_nonblank [simp]: "nonblank (create_candle_id k)"
  by (simp add: create_candle_id_def nonblank_iff py_isspace_def)

lemma last_candle_id_nonblank [simp]: "opt_all nonblank (last_candle_id ks)"
  by (simp add: last_candle_id_def)

lemma swing_made: "calculate_swing_structure ks = Inr w \<Longrightarrow> swing_structure_ok w"
  by (auto simp: calculate_swing_structure_def Let_def gbind_eq_Inr make_swing_structure_def ebind_eq_Inr
      split: if_splits)

text \<open>A published snapshot is complete, and belongs to a version that did not change meanwhile.\<close>

definition published ::
  "market_view \<Rightarrow> regime_controller \<Rightarrow> indicator_snapshot \<Rightarrow> regime_controller \<Rightarrow> bool" where
  "published v c s c' \<longleftrightarrow>
     (let ks = four_hour_klines v; closed_ks = closed_of ks in
      c' = (forget_failed_calculation c)\<lparr>rc_market := Some (mv_object v), rc_indicator := Some s,
        rc_indicator_open_time := Some (kl_open_time (last closed_ks)),
        rc_indicator_market := Some (mv_object v), rc_objects := Suc (rc_objects c)\<rparr> \<and>
      indicator_ok s \<and> is_object s = rc_objects c \<and> is_version s = mv_captured v \<and>
      mv_after v = mv_captured v \<and> only_last_open ks \<and> 14 \<le> length closed_ks \<and>
      is_price s = kl_close (last ks) \<and> is_candle_id s = create_candle_id (last closed_ks) \<and>
      ms_updated_at (mv_state v) = Some (is_calculated_at s) \<and>
      (\<exists>slope w live. is_slope s = Some slope \<and> is_swing s = Some w \<and> is_live_ema9 s = Some live \<and>
         calculate_values closed_ks (is_price s) = Inr (is_series s, slope, w, live)))"

lemma publish_indicators_Inr:
  assumes "publish_indicators v closed_ks price candle calculated (series, slope, w, live) c = (Inr s, c')"
    "swing_structure_ok w"
  shows "indicator_ok s" "is_object s = rc_objects c" "is_version s = mv_captured v" "is_price s = price"
    "is_candle_id s = candle" "calculated = is_calculated_at s" "is_series s = series"
    "is_slope s = Some slope" "is_swing s = Some w" "is_live_ema9 s = Some live"
    "c' = (forget_failed_calculation c)\<lparr>rc_indicator := Some s,
       rc_indicator_open_time := Some (kl_open_time (last closed_ks)),
       rc_indicator_market := Some (mv_object v), rc_objects := Suc (rc_objects c)\<rparr>"
  using assms
  by (auto simp: publish_indicators_def operation_defs make_indicator_snapshot_def update_indicator_snapshot_def
      ebind_eq_Inr normalize_utc_eq_Inr indicator_ok_def split: sum.splits)

lemma publish_indicators_Inl:
  "publish_indicators v closed_ks price candle calculated x c = (Inl e, c') \<Longrightarrow> c' = c"
  by (auto simp: publish_indicators_def operation_defs split: sum.splits prod.splits)

text \<open>The candle and time that a failure of \<open>calculate_candles\<close> reports, and its effect.\<close>

definition calculation_failed ::
  "market_view \<Rightarrow> moment \<Rightarrow> regime_controller \<Rightarrow> evaluation_failure \<Rightarrow> regime_controller \<Rightarrow> bool" where
  "calculation_failed v calculated c f c' \<longleftrightarrow>
     kept c c' \<and> rc_market c' = rc_market c \<and>
     provenance v (last_candle_id (closed_of (four_hour_klines v))) calculated f \<and>
     (failure_memory_ok c \<longrightarrow> has_offset calculated \<longrightarrow> failure_memory_ok c')"

lemma calculation_failedI:
  assumes "raise_calculation_failure v e (last_candle_id (closed_of (four_hour_klines v))) calculated c = (r, c')"
  shows "\<exists>f. r = Inl (Evaluation f) \<and> calculation_failed v calculated c f c'"
  using raise_calculation_failureD [OF assms] by (auto simp: calculation_failed_def)

definition values_raise :: "market_view \<Rightarrow> moment \<Rightarrow> regime_controller \<Rightarrow> py_error \<Rightarrow> bool" where
  "values_raise v calculated c e \<longleftrightarrow>
     (let ks = four_hour_klines v; closed_ks = closed_of ks; price = kl_close (last ks) in
      only_last_open ks \<and> 14 \<le> length closed_ks \<and>
      (calculate_values closed_ks price = Inl (Raised e) \<and> \<not> arithmetic_error e \<or>
       (\<exists>x. calculate_values closed_ks price = Inr x \<and>
          publish_indicators v closed_ks price (create_candle_id (last closed_ks)) calculated x c = (Inl (Raised e), c))))"

lemma publish_indicators_Evaluation:
  "publish_indicators v closed_ks price candle calculated x c \<noteq> (Inl (Evaluation f), c')"
  by (auto simp: publish_indicators_def operation_defs lift_res_def split: sum.splits prod.splits)

lemma calculate_values_swing: "calculate_values ks p = Inr (series, slope, w, live) \<Longrightarrow> swing_structure_ok w"
  by (auto simp: calculate_values_def gbind_eq_Inr dest: swing_made)

lemma guarded_values_cases:
  assumes "guarded_values v ks price (last_candle_id (closed_of (four_hour_klines v))) calculated c = (r, c')"
  shows "(\<exists>x. r = Inr x \<and> c' = c \<and> calculate_values ks price = Inr x) \<or>
    (\<exists>f. r = Inl (Evaluation f) \<and> calculation_failed v calculated c f c') \<or>
    (\<exists>e. r = Inl (Raised e) \<and> c' = c \<and> calculate_values ks price = Inl (Raised e) \<and> \<not> arithmetic_error e)"
proof (cases "calculate_values ks price")
  case (Inl e)
  then show ?thesis
    using assms calculation_failedI [where 'a = "decimal list \<times> decimal \<times> swing_structure \<times> decimal"]
    by (cases e) (auto simp: guarded_values_def split: if_splits)
next
  case (Inr x)
  then have "r = Inr x" "c' = c" using assms by (auto simp: guarded_values_def)
  with Inr show ?thesis by blast
qed

lemma calculate_candles_cases:
  assumes "calculate_candles v calculated c = (r, c')" "ms_updated_at (mv_state v) = Some calculated"
    "rc_market c = Some (mv_object v)"
  shows "(\<exists>s. r = Inr s \<and> published v c s c') \<or>
    (\<exists>f. r = Inl (Evaluation f) \<and> calculation_failed v calculated c f c') \<or>
    (\<exists>e. r = Inl (Raised e) \<and> c' = c \<and> values_raise v calculated c e)"
proof -
  define ks where "ks = four_hour_klines v"
  define cl where "cl = closed_of ks"
  show ?thesis
  proof (cases "only_last_open ks \<and> 14 \<le> length cl")
    case False
    then have "\<exists>e. raise_calculation_failure v e (last_candle_id cl) calculated c = (r, c')"
      using assms(1)
      by (auto simp: calculate_candles_def Let_def ks_def [symmetric] cl_def [symmetric] minimum_closed_klines_def
          split: if_splits)
    then show ?thesis unfolding cl_def ks_def using calculation_failedI by blast
  next
    case True
    then have "cl \<noteq> []" by auto
    then have id: "last_candle_id cl = Some (create_candle_id (last cl))" by (simp add: last_candle_id_def)
    obtain r1 c1 where g: "guarded_values v cl (kl_close (last ks)) (last_candle_id cl) calculated c = (r1, c1)"
      by (cases "guarded_values v cl (kl_close (last ks)) (last_candle_id cl) calculated c")
    have run: "(r, c') = (case r1 of Inl e \<Rightarrow> (Inl e, c1) | Inr x \<Rightarrow>
        if mv_after v \<noteq> mv_captured v
        then (Inl (create_calculation_error STALE_MARKET_SNAPSHOT (mv_captured v) (last_candle_id cl) calculated), c1)
        else publish_indicators v cl (kl_close (last ks)) (create_candle_id (last cl)) calculated x c1)"
      using assms(1) True g id
      by (auto simp: calculate_candles_def Let_def ks_def [symmetric] cl_def [symmetric] minimum_closed_klines_def
          obind_def opure_def split: sum.splits)
    from guarded_values_cases [of v cl "kl_close (last ks)" calculated c r1 c1] g
    consider x where "r1 = Inr x" "c1 = c" "calculate_values cl (kl_close (last ks)) = Inr x"
      | f where "r1 = Inl (Evaluation f)" "calculation_failed v calculated c f c1"
      | e where "r1 = Inl (Raised e)" "c1 = c" "calculate_values cl (kl_close (last ks)) = Inl (Raised e)" "\<not> arithmetic_error e"
      unfolding cl_def ks_def by blast
    then show ?thesis
    proof cases
      case 1
      show ?thesis
      proof (cases "mv_after v = mv_captured v")
        case False
        then show ?thesis
          using run 1(1,2)
          by (simp add: calculation_failed_def create_calculation_error_def evaluation_error_def provenance_def
              cl_def ks_def)
      next
        case same: True
        then have pub: "publish_indicators v cl (kl_close (last ks)) (create_candle_id (last cl)) calculated x c = (r, c')"
          using run 1(1,2) by simp
        obtain series slope w live where x: "x = (series, slope, w, live)" by (metis prod.collapse)
        show ?thesis
        proof (cases r)
          case (Inr s)
          have "swing_structure_ok w" using calculate_values_swing 1(3) x by blast
          from publish_indicators_Inr [OF pub [unfolded x Inr] this] have "published v c s c'"
            using True same 1(3) assms(2,3) x
            by (simp add: published_def Let_def ks_def [symmetric] cl_def [symmetric] forget_failed_calculation_def)
          then show ?thesis using Inr by simp
        next
          case (Inl e)
          have "c' = c" by (rule publish_indicators_Inl [OF pub [unfolded Inl]])
          then show ?thesis
            using pub Inl True 1(3) publish_indicators_Evaluation x
            by (cases e) (auto simp: values_raise_def Let_def ks_def [symmetric] cl_def [symmetric])
        qed
      qed
    next
      case 2
      then show ?thesis using run by simp
    next
      case 3
      then show ?thesis
        using run True by (auto simp: values_raise_def Let_def ks_def [symmetric] cl_def [symmetric])
    qed
  qed
qed

definition bound_to :: "market_view \<Rightarrow> regime_controller \<Rightarrow> regime_controller" where
  "bound_to v c = c\<lparr>rc_market := Some (mv_object v)\<rparr>"

definition view_dated :: "market_view \<Rightarrow> bool" where
  "view_dated v \<longleftrightarrow> opt_all has_offset (ms_updated_at (mv_state v))"

text \<open>A failure that can be recorded.\<close>

definition reportable :: "evaluation_failure \<Rightarrow> bool" where
  "reportable f \<longleftrightarrow>
     (case ef_version f of
        None \<Rightarrow> True
      | Some n \<Rightarrow> 0 \<le> n \<and> opt_all nonblank (ef_candle_id f) \<and> opt_all has_offset (ef_recorded_at f))"

definition calculation_raises :: "market_view \<Rightarrow> regime_controller \<Rightarrow> py_error \<Rightarrow> bool" where
  "calculation_raises v c e \<longleftrightarrow>
     \<not> failure_memory_ok c \<or>
     (\<exists>calculated. ms_ready (mv_state v) \<and> ms_updated_at (mv_state v) = Some calculated \<and>
        values_raise v calculated (bound_to v c) e)"

lemma kept_bound [simp]: "kept (bound_to v c) c' \<longleftrightarrow> kept c c'" "kept c (bound_to v c)"
  by (auto simp: kept_def same_recommendation_def bound_to_def)

lemma failure_memory_bound [simp]: "failure_memory_ok (bound_to v c) \<longleftrightarrow> failure_memory_ok c"
  by (simp add: failure_memory_ok_def bound_to_def)

lemma published_bound [simp]: "published v (bound_to v c) s c' \<longleftrightarrow> published v c s c'"
  by (simp add: published_def bound_to_def forget_failed_calculation_def)

lemma reportable_code [simp]: "reportable (evaluation_error e)"
  by (simp add: reportable_def evaluation_error_def)

lemma calculation_failed_reportable:
  assumes "calculation_failed v calculated c f c'" "0 \<le> mv_captured v" "has_offset calculated"
  shows "reportable f"
  using assms by (simp add: calculation_failed_def provenance_def reportable_def)

lemma calculate_bound_cases:
  assumes "calculate_bound v (bound_to v c) = (r, c')" "ms_ready (mv_state v)"
  shows "(\<exists>s. r = Inr s \<and> published v c s c') \<or>
    (\<exists>f. r = Inl (Evaluation f) \<and> kept c c' \<and>
       (0 \<le> mv_captured v \<longrightarrow> view_dated v \<longrightarrow> failure_memory_ok c \<longrightarrow> failure_memory_ok c' \<and> reportable f)) \<or>
    (\<exists>e. r = Inl (Raised e) \<and> kept c c' \<and> calculation_raises v c e)"
proof (cases "rc_failed_market c = Some (mv_object v) \<and> rc_failed_version c = Some (mv_captured v)")
  case True
  then show ?thesis
    using assms(1)
    by (cases "rc_failed_recorded_at c")
      (auto simp: calculate_bound_def bound_to_def opure_def calculation_raises_def failure_memory_ok_def
        reportable_def create_calculation_error_def kept_def same_recommendation_def)
next
  case False
  show ?thesis
  proof (cases "ms_updated_at (mv_state v)")
    case None
    then show ?thesis
      using assms(1) False
      by (auto simp: calculate_bound_def bound_to_def opure_def raise_code_def kept_def same_recommendation_def
          failure_memory_ok_def)
  next
    case (Some calculated)
    then have run: "calculate_candles v calculated (bound_to v c) = (r, c')"
      using assms(1) False by (auto simp: calculate_bound_def bound_to_def)
    have "rc_market (bound_to v c) = Some (mv_object v)" by (simp add: bound_to_def)
    from calculate_candles_cases [OF run Some this] consider s where "r = Inr s" "published v c s c'"
      | f where "r = Inl (Evaluation f)" "calculation_failed v calculated (bound_to v c) f c'"
      | e where "r = Inl (Raised e)" "c' = bound_to v c" "values_raise v calculated (bound_to v c) e"
      unfolding published_bound by blast
    then show ?thesis
    proof cases
      case 2
      then have "kept c c'" "failure_memory_ok c \<longrightarrow> has_offset calculated \<longrightarrow> failure_memory_ok c'"
        by (simp_all add: calculation_failed_def)
      then show ?thesis
        using 2 calculation_failed_reportable [OF 2(2)] Some by (simp add: view_dated_def)
    next
      case 3
      then show ?thesis using assms(2) Some by (auto simp: calculation_raises_def)
    qed simp
  qed
qed

lemma calculate_cases:
  assumes "calculate_4h_indicators v c = (r, c')"
  shows "(\<exists>s. r = Inr s \<and> published v c s c') \<or>
    (\<exists>f. r = Inl (Evaluation f) \<and> kept c c' \<and>
       (0 \<le> mv_captured v \<longrightarrow> view_dated v \<longrightarrow> failure_memory_ok c \<longrightarrow> failure_memory_ok c' \<and> reportable f)) \<or>
    (\<exists>e. r = Inl (Raised e) \<and> kept c c' \<and> calculation_raises v c e)"
proof (cases "rc_market c \<in> {None, Some (mv_object v)} \<and> ms_ready (mv_state v)")
  case True
  then have "bind_market_snapshot (mv_object v) c = (Inr (), bound_to v c)"
    by (auto simp: bind_market_snapshot_def bound_to_def)
  then have "calculate_bound v (bound_to v c) = (r, c')"
    using assms True by (simp add: calculate_4h_indicators_def operation_defs)
  from calculate_bound_cases [OF this] True show ?thesis by simp
next
  case False
  have "\<exists>e. r = raise_code e \<and> kept c c' \<and> (failure_memory_ok c \<longrightarrow> failure_memory_ok c')"
    using assms False
    by (auto simp: calculate_4h_indicators_def operation_defs bind_market_snapshot_def raise_code_def kept_def
        same_recommendation_def failure_memory_ok_def split: option.splits if_splits)
  then show ?thesis by (auto simp: raise_code_def)
qed

section \<open>What an evaluation leaves\<close>

text \<open>The input that the state machine sees, and the type it recommends.\<close>

definition context_of :: "string \<Rightarrow> indicator_snapshot \<Rightarrow> regime_context" where
  "context_of eid s =
     (let w = the (is_swing s) in
      \<lparr>rx_evaluation_id = eid, rx_symbol = is_symbol s, rx_timeframe = is_timeframe s,
       rx_slope = the (is_slope s), rx_higher_high = sw_higher_high w, rx_higher_low = sw_higher_low w,
       rx_lower_high = sw_lower_high w, rx_lower_low = sw_lower_low w, rx_price = is_price s,
       rx_live_ema9 = the (is_live_ema9 s), rx_version = is_version s, rx_candle_id = Some (is_candle_id s),
       rx_calculated_at = is_calculated_at s\<rparr>)"

definition recommendation_of :: "indicator_snapshot \<Rightarrow> regime_type" where
  "recommendation_of s = recommended_type (context_of [] s)"

lemma evaluation_id_nonblank [simp]: "nonblank (create_evaluation_id g s)"
  by (simp add: create_evaluation_id_def evaluation_id_text_def nonblank_iff py_isspace_def)

lemma has_offset_utc: "is_utc m \<Longrightarrow> has_offset m"
  by (simp add: is_utc_def has_offset_def)

lemma symbol_nonblank: "normalized_symbol_ok s \<Longrightarrow> nonblank s"
proof -
  assume "normalized_symbol_ok s"
  then have "s \<noteq> []" "is_upper_alnum (hd s)" by (cases s; simp add: normalized_symbol_ok_def)+
  moreover have "\<not> py_isspace c" if "is_upper_alnum c" for c
    using that by (auto simp: is_upper_alnum_def is_digit_def py_isspace_def Let_def)
  ultimately show ?thesis unfolding nonblank_iff by (meson hd_in_set)
qed

lemma context_created:
  assumes "indicator_ok s" "nonblank eid"
  shows "create_evaluation_context eid s = Inr (context_of eid s)" "regime_context_ok (context_of eid s)"
  using assms symbol_nonblank has_offset_utc
  by (auto simp: indicator_ok_def create_evaluation_context_def indicator_value_def make_regime_context_def
      context_of_def Let_def regime_context_ok_def)

lemma event_created:
  assumes "indicator_ok s" "nonblank eid"
  shows "\<exists>e. regime_event_of t eid s = Inr e \<and> regime_event_ok e \<and> rv_type e = t \<and> rv_evaluation_id e = eid \<and>
    rv_candle_id e = Some (is_candle_id s)"
  using assms has_offset_utc
  by (auto simp: indicator_ok_def regime_event_of_def make_regime_event_def regime_event_ok_def)

text \<open>The conditions of an evaluation.\<close>

definition accepts :: "regime_trigger \<Rightarrow> market_view \<Rightarrow> indicator_snapshot \<Rightarrow> regime_controller \<Rightarrow> bool" where
  "accepts g v s c \<longleftrightarrow>
     rc_indicator c = Some s \<and> (rc_market c \<noteq> None \<or> rc_indicator_market c \<noteq> None) \<and>
     mv_prepared v = is_version s \<and> mv_started v = is_version s \<and> is_candle_id s \<notin> rc_processed c \<and>
     opt_all (\<lambda>w. instant w < instant (the (rc_indicator_open_time c))) (rc_watermark c) \<and>
     (if g = INITIAL_TRIGGER then rc_stm c = REGIME_INITIAL
      else rc_stm c \<notin> {REGIME_INITIAL, FOUR_HOUR_CANDLE_EVALUATION})"

text \<open>The indicators of a controller are complete.\<close>

definition indicators_ok :: "regime_controller \<Rightarrow> bool" where
  "indicators_ok c \<longleftrightarrow>
     (\<forall>s. rc_indicator c = Some s \<longrightarrow> indicator_ok s \<and> rc_indicator_open_time c \<noteq> None \<and> is_object s < rc_objects c)"

lemma prepare_evaluation_cases:
  assumes "prepare_evaluation g v s c = (r, c')" "indicators_ok c"
  shows "c' = c \<and>
    ((\<exists>e. r = raise_code e \<and> \<not> accepts g v s c) \<or>
     (\<exists>external. r = Inr (context_of (create_evaluation_id g s) s, external) \<and> accepts g v s c \<and>
        create_external_event g (create_evaluation_id g s) s = Inr external))"
proof (cases "rc_indicator c = Some s")
  case True
  then have ok: "indicator_ok s" "rc_indicator_open_time c \<noteq> None" using assms(2) by (auto simp: indicators_ok_def)
  obtain external where ext: "create_external_event g (create_evaluation_id g s) s = Inr external"
    unfolding create_external_event_def using event_created [OF ok(1)] evaluation_id_nonblank by blast
  have "is_ready s" using ok(1) by (simp add: indicator_ok_def)
  then show ?thesis
    using assms(1) ok(2) True ext context_created(1) [OF ok(1) evaluation_id_nonblank, of g]
    by (cases g) (auto simp: prepare_evaluation_def operation_defs accepts_def indicator_value_def raise_code_def
        split: if_splits regime_trigger.splits)
next
  case False
  then show ?thesis
    using assms(1)
    by (auto simp: prepare_evaluation_def operation_defs accepts_def raise_code_def split: if_splits)
qed

text \<open>What an accepted evaluation leaves.\<close>

definition recommends ::
  "regime_controller \<Rightarrow> indicator_snapshot \<Rightarrow> regime_result \<Rightarrow> regime_controller \<Rightarrow> bool" where
  "recommends c s result c' \<longleftrightarrow>
     (\<exists>trace. c' = c\<lparr>rc_stm := recommended_state_for (recommendation_of s),
        rc_recommended := Some (recommendation_of s), rc_last_result := Some result,
        rc_processed := insert (is_candle_id s) (rc_processed c),
        rc_watermark := rc_indicator_open_time c, rc_traces := rc_traces c @ [trace]\<rparr> \<and>
      evaluation_trace_ok trace \<and> et_failure trace = None \<and> et_candle_id trace = Some (is_candle_id s) \<and>
      et_recommended trace = Some (recommendation_of s)) \<and>
     regime_result_ok result \<and> rr_recommended result = recommendation_of s \<and>
     rr_previous result = rc_recommended c \<and> rr_version result = is_version s \<and>
     rr_candle_id result = Some (is_candle_id s)"

lemma recommended_type_context [simp]: "recommended_type (context_of eid s) = recommendation_of s"
  by (simp add: recommendation_of_def recommended_type_def context_of_def Let_def)

lemma context_of_sel [simp]:
  "rx_evaluation_id (context_of eid s) = eid" "rx_candle_id (context_of eid s) = Some (is_candle_id s)"
  by (simp_all add: context_of_def Let_def)

lemma started_by:
  assumes "if g = INITIAL_TRIGGER then st = REGIME_INITIAL else st \<notin> {REGIME_INITIAL, FOUR_HOUR_CANDLE_EVALUATION}"
  shows "\<exists>i. start_transition st (if g = INITIAL_TRIGGER then INITIAL_EVALUATION_REQUESTED else FOUR_HOUR_CANDLE_CLOSED) =
    Some (i, g)"
  using assms by (cases g; cases st) auto

lemma run_microsteps_ok:
  assumes "accepts g v s c" "indicators_ok c"
    "create_external_event g (create_evaluation_id g s) s = Inr external"
  shows "\<exists>result c'. run_microsteps g s (context_of (create_evaluation_id g s) s) external c = (Inr result, c') \<and>
    recommends c s result c'"
proof -
  define eid where "eid = create_evaluation_id g s"
  have s: "indicator_ok s" using assms(1,2) by (auto simp: accepts_def indicators_ok_def)
  have eid: "nonblank eid" by (simp add: eid_def)
  have ext: "regime_event_ok external" "rv_evaluation_id external = eid" "rv_candle_id external = Some (is_candle_id s)"
    "rv_type external = (if g = INITIAL_TRIGGER then INITIAL_EVALUATION_REQUESTED else FOUR_HOUR_CANDLE_CLOSED)"
    using assms(3) event_created [OF s eid, of "if g = INITIAL_TRIGGER then INITIAL_EVALUATION_REQUESTED else FOUR_HOUR_CANDLE_CLOSED"]
    by (auto simp: create_external_event_def eid_def split: if_splits)
  obtain i where i: "start_transition (rc_stm c) (rv_type external) = Some (i, g)"
    using started_by [of g "rc_stm c"] assms(1) ext(4) by (auto simp: accepts_def)
  define started where "started = accepted_decision external (rc_stm c) i FOUR_HOUR_CANDLE_EVALUATION
    (StartRegimeEvaluation eid g (Some (is_candle_id s)))"
  have first: "run_stm external None c = (Inr started, c\<lparr>rc_stm := FOUR_HOUR_CANDLE_EVALUATION\<rparr>)"
    using handle_start [OF ext(1) i] by (simp add: run_stm_def started_def ext(2,3))
  obtain ready where ready: "regime_event_of EVALUATION_READY eid s = Inr ready" "regime_event_ok ready"
    "rv_type ready = EVALUATION_READY" "rv_evaluation_id ready = eid" "rv_candle_id ready = Some (is_candle_id s)"
    using event_created [OF s eid] by blast
  have "ready_pair ready (context_of eid s)"
    using ready context_created(2) [OF s eid] by (simp add: ready_pair_def)
  then obtain j where j: "nonblank j" "handle_regime_event FOUR_HOUR_CANDLE_EVALUATION ready (Some (context_of eid s)) =
    Inr (accepted_decision ready FOUR_HOUR_CANDLE_EVALUATION j (recommended_state_for (recommendation_of s))
      (ApplyRecommendedRegime eid (recommendation_of s) (Some (is_candle_id s))),
      recommended_state_for (recommendation_of s))"
    by (rule handle_ready) (simp add: ready)
  have "0 < is_version s" "nonblank (is_candle_id s)" "has_offset (is_calculated_at s)"
    using s has_offset_utc by (auto simp: indicator_ok_def)
  then show ?thesis
    using first ready(1) j eid
    by (auto simp: run_microsteps_def Let_def eid_def [symmetric] obind_def oget_def opure_def omodify_def
        with_progress_def ocatch_def require_action_def started_def accepted_decision_def run_stm_def
        apply_recommended_regime_def make_regime_result_def regime_result_ok_def make_evaluation_trace_def
        evaluation_trace_ok_def opt_list_def ready(4) ext(2) recommends_def)
qed

lemma run_prepared_evaluation_cases:
  assumes "run_prepared_evaluation g v s c = (r, c')" "indicators_ok c"
  shows "(\<exists>e. r = raise_code e \<and> c' = c \<and> \<not> accepts g v s c) \<or>
    (\<exists>result. r = Inr result \<and> accepts g v s c \<and> recommends c s result c')"
proof -
  obtain r1 c1 where p: "prepare_evaluation g v s c = (r1, c1)" by (cases "prepare_evaluation g v s c")
  from prepare_evaluation_cases [OF this assms(2)]
  consider e where "c1 = c" "r1 = raise_code e" "\<not> accepts g v s c"
    | external where "c1 = c" "r1 = Inr (context_of (create_evaluation_id g s) s, external)" "accepts g v s c"
      "create_external_event g (create_evaluation_id g s) s = Inr external"
    by blast
  then show ?thesis
  proof cases
    case 1
    then show ?thesis using assms(1) p by (auto simp: run_prepared_evaluation_def obind_def raise_code_def)
  next
    case 2
    then show ?thesis
      using assms(1) p run_microsteps_ok [OF 2(3) assms(2) 2(4)]
      by (auto simp: run_prepared_evaluation_def obind_def)
  qed
qed

text \<open>Recording a failure appends one trace and changes nothing else.\<close>

definition logged :: "regime_controller \<Rightarrow> evaluation_failure \<Rightarrow> regime_controller \<Rightarrow> bool" where
  "logged c f c' \<longleftrightarrow>
     (\<exists>trace. c' = c\<lparr>rc_traces := rc_traces c @ [trace]\<rparr> \<and> evaluation_trace_ok trace \<and>
        et_failure trace = Some (ef_code f))"

definition market_dated :: "market_state \<Rightarrow> bool" where
  "market_dated m \<longleftrightarrow> 0 \<le> ms_version m \<and> opt_all has_offset (ms_updated_at m)"

lemma evaluation_id_text_nonblank [simp]: "nonblank (evaluation_id_text g n t)"
  by (simp add: evaluation_id_text_def nonblank_iff py_isspace_def)

lemma latest_candle_nonblank [simp]: "opt_all nonblank (find_latest_closed_candle_id m)"
  by (auto simp: find_latest_closed_candle_id_def opt_all_def split: option.splits list.splits)

lemma record_failure_logged:
  assumes "evaluation_trace_ok (failure_trace g indicators m f c)"
  shows "\<exists>c'. record_failure g indicators m f c = (Inr (), c') \<and> logged c f c'"
proof -
  define trace where "trace = failure_trace g indicators m f c"
  have "record_failure g indicators m f c = (Inr (), c\<lparr>rc_traces := rc_traces c @ [trace]\<rparr>)"
    using assms unfolding trace_def [symmetric]
    by (simp add: record_failure_def operation_defs make_evaluation_trace_def trace_def [symmetric])
  moreover have "et_failure trace = Some (ef_code f)" unfolding trace_def failure_trace_def Let_def by simp
  ultimately show ?thesis using assms unfolding logged_def trace_def [symmetric] by blast
qed

text \<open>What every constructed snapshot satisfies.\<close>

definition snapshot_ok :: "indicator_snapshot \<Rightarrow> bool" where
  "snapshot_ok s \<longleftrightarrow> 0 < is_version s \<and> nonblank (is_candle_id s) \<and> is_utc (is_calculated_at s)"

lemma indicator_snapshot_ok: "indicator_ok s \<Longrightarrow> snapshot_ok s"
  by (simp add: indicator_ok_def snapshot_ok_def)

lemma made_snapshot_ok:
  "make_indicator_snapshot obj symbol price version candle calculated timeframe = Inr s \<Longrightarrow> snapshot_ok s"
  by (auto simp: make_indicator_snapshot_def ebind_eq_Inr normalize_utc_eq_Inr snapshot_ok_def)

lemma record_failure_known:
  assumes "snapshot_ok s"
  shows "\<exists>c'. record_failure g (Some s) m f c = (Inr (), c') \<and> logged c f c'"
proof (rule record_failure_logged)
  have "0 \<le> is_version s" "nonblank (is_candle_id s)" "has_offset (is_calculated_at s)"
    using assms has_offset_utc by (auto simp: snapshot_ok_def)
  then show "evaluation_trace_ok (failure_trace g (Some s) m f c)"
    unfolding evaluation_trace_ok_def failure_trace_def by (simp add: Let_def)
qed

lemma record_failure_unknown:
  assumes "reportable f" "market_dated m"
  shows "\<exists>c'. record_failure g None (Some m) f c = (Inr (), c') \<and> logged c f c'"
proof (rule record_failure_logged)
  show "evaluation_trace_ok (failure_trace g None (Some m) f c)"
    using assms unfolding evaluation_trace_ok_def failure_trace_def
    by (cases "ef_version f") (simp_all add: Let_def reportable_def market_dated_def)
qed

section \<open>Calculations do not raise\<close>

lemma last_values_six:
  assumes "6 \<le> length xs"
  shows "length (last_values 6 xs) = 6" "set (last_values 6 xs) \<subseteq> set xs"
  using assms by (auto simp: last_values_def dest: in_set_dropD)

lemma quantize_rate_error_only:
  "quantize_rate d = Inl e \<Longrightarrow> e = InvalidOperation"
  by (auto simp: quantize_rate_def Let_def split: if_splits)

lemma normalized_slope_outcome:
  assumes "length vs = 6" "\<forall>v\<in>set vs. is_finite v" "positive price"
  shows "calculate_normalized_ols_slope vs price = Inl InvalidOperation \<or>
    (\<exists>s. calculate_normalized_ols_slope vs price = Inr s \<and> is_finite s)"
proof -
  obtain raw where raw: "calculate_raw_ols_slope vs = Inr raw" "is_finite raw"
    using raw_slope_value [OF assms(1,2)] by blast
  have p: "is_finite price" "0 < dval price" using assms(3) by (simp_all add: positive_iff)
  obtain q where q: "div_at 34 raw price = Inr q" "is_finite q" using raw(2) p by (simp add: div_at_finite)
  obtain y where y: "mul_at 34 q (Fin 100) = Inr y" "is_finite y" using q(2) by (simp add: mul_at_finite)
  have norm: "normalize_ols_slope raw price = quantize_rate y"
    using raw(2) assms(3) q(1) y(1) by (simp add: normalize_ols_slope_def)
  show ?thesis
  proof (cases "quantize_rate y")
    case (Inl e)
    then show ?thesis using quantize_rate_error_only raw(1) norm by (simp add: calculate_normalized_ols_slope_def)
  next
    case (Inr s)
    then show ?thesis
      using quantize_rate_value(1) [OF Inr y(2)] raw(1) norm by (simp add: calculate_normalized_ols_slope_def)
  qed
qed

text \<open>Valid candles give numbers, a failure code, or an arithmetic error.\<close>

lemma calculate_values_outcome:
  assumes "list_all kline_ok ks" "14 \<le> length ks" "positive price"
  obtains e where "calculate_values ks price = Inl (Evaluation (evaluation_error e))"
  | "calculate_values ks price = Inl (Raised InvalidOperation)"
  | series slope w live where "calculate_values ks price = Inr (series, slope, w, live)"
      "6 \<le> length series" "list_all positive series" "is_finite slope" "positive live"
proof -
  have closes: "list_all positive (map kl_close ks)" "9 \<le> length (map kl_close ks)"
    using assms(1,2) kline_prices(1) by (auto simp: list_all_iff)
  obtain series where series: "calculate_ema9_series (map kl_close ks) = Inr series" "list_all positive series"
    "length series = length (map kl_close ks) - 8"
    by (rule ema_series_near [OF closes(2,1)])
  have len: "6 \<le> length series" "series \<noteq> []" using series(3) assms(2) by auto
  have fin: "\<forall>v\<in>set (last_values 6 series). is_finite v"
    using last_values_six(2) [OF len(1)] series(2) by (auto simp: list_all_iff)
  have last: "positive (last series)" using series(2) len(2) by (auto simp: list_all_iff)
  then have "r34e.near 0 (dval (last series)) (dval (last series))"
    by (intro r34e.near_refl) (simp add: positive_iff)
  from ema_step_near [OF assms(3) last this]
  obtain live where live: "calculate_live_ema9 (last series) price = Inr live" "positive live"
    using live_ema9_step [OF last assms(3)] by metis
  note parts = calculate_values_def ema9_of_klines_def minimum_closed_klines_def calculate_normalized_slope_def
    series(1) live(1) last_values_six(1) [OF len(1)]
  from normalized_slope_outcome [OF last_values_six(1) [OF len(1)] fin assms(3)] show ?thesis
  proof
    assume "calculate_normalized_ols_slope (last_values 6 series) price = Inl InvalidOperation"
    then show ?thesis using that(2) assms(2) by (simp add: parts)
  next
    assume "\<exists>s. calculate_normalized_ols_slope (last_values 6 series) price = Inr s \<and> is_finite s"
    then obtain s where s: "calculate_normalized_ols_slope (last_values 6 series) price = Inr s" "is_finite s" by blast
    from swing_structure_value [OF assms(1)] show ?thesis
    proof
      assume "calculate_swing_structure ks = raise_code INSUFFICIENT_SWING_POINTS"
      then show ?thesis using that(1) assms(2) s by (simp add: parts raise_code_def)
    next
      assume "\<exists>w. calculate_swing_structure ks = Inr w \<and> swing_structure_ok w"
      then obtain w where "calculate_swing_structure ks = Inr w" by blast
      then have "calculate_values ks price = Inr (series, s, w, live)" using assms(2) s by (simp add: parts)
      from that(3) [OF this len(1) series(2) s(2) live(2)] show ?thesis .
    qed
  qed
qed

text \<open>
  A view of a real market: the states are those of a market snapshot, and a version that was
  read after the snapshot was ready is positive.
\<close>

definition market_view_ok :: "market_view \<Rightarrow> bool" where
  "market_view_ok v \<longleftrightarrow>
     market_inv (mv_state v) \<and> market_inv (mv_final v) \<and> 0 \<le> mv_captured v \<and>
     (ms_ready (mv_state v) \<longrightarrow> 0 < mv_captured v)"

lemma market_inv_dated: "market_inv m \<Longrightarrow> market_dated m"
  by (auto simp: market_inv_def market_dated_def empty_market_def has_offset_utc split: if_splits)

lemma view_ok_dated: "market_view_ok v \<Longrightarrow> view_dated v \<and> market_dated (mv_final v) \<and> 0 \<le> mv_captured v"
  using market_inv_dated by (auto simp: market_view_ok_def view_dated_def market_dated_def)

lemma dedup_by_open_time_subset: "set (dedup_by_open_time ks) \<subseteq> set ks"
proof -
  have "snd ` set (fold (\<lambda>k. AList.update (open_at k) k) ks al) \<subseteq> snd ` set al \<union> set ks" for al
  proof (induction ks arbitrary: al)
    case (Cons k ks)
    have "snd ` set (AList.update (open_at k) k al) \<subseteq> insert k (snd ` set al)"
      by (induction al) (auto simp: AList.update.simps)
    with Cons [of "AList.update (open_at k) k al"]
    have "snd ` set (fold (\<lambda>k. AList.update (open_at k) k) ks (AList.update (open_at k) k al)) \<subseteq>
        snd ` set al \<union> set (k # ks)"
      unfolding list.set by (elim order_trans) blast
    then show ?case by simp
  qed simp
  from this [of "[]"] show ?thesis by (simp add: dedup_by_open_time_def)
qed

lemma four_hour_klines_ok:
  assumes "market_view_ok v" "ms_ready (mv_state v)"
  shows "list_all kline_ok (four_hour_klines v)"
proof -
  obtain now where "interval_ok FOUR_HOURS now (ms_klines (mv_state v) FOUR_HOURS)"
    using assms by (auto simp: market_view_ok_def market_inv_def)
  then have "list_all kline_ok (ms_klines (mv_state v) FOUR_HOURS)" by (auto simp: interval_ok_def list_all_iff)
  then show ?thesis using dedup_by_open_time_subset by (fastforce simp: four_hour_klines_def list_all_iff)
qed

lemma supported_symbol_ok [simp]: "normalized_symbol_ok supported_symbol"
  by (simp add: normalized_symbol_ok_def supported_symbol_def is_upper_alnum_def is_digit_def Let_def)

lemma values_raise_not:
  assumes "market_view_ok v" "ms_ready (mv_state v)" "ms_updated_at (mv_state v) = Some calculated"
  shows "\<not> values_raise v calculated c e"
proof
  assume raised: "values_raise v calculated c e"
  define ks where "ks = four_hour_klines v"
  define cl where "cl = closed_of ks"
  have h: "only_last_open ks" "14 \<le> length cl"
    "calculate_values cl (kl_close (last ks)) = Inl (Raised e) \<and> \<not> arithmetic_error e \<or>
     (\<exists>x. calculate_values cl (kl_close (last ks)) = Inr x \<and>
        publish_indicators v cl (kl_close (last ks)) (create_candle_id (last cl)) calculated x c = (Inl (Raised e), c))"
    using raised by (auto simp: values_raise_def Let_def ks_def cl_def)
  have ok: "list_all kline_ok ks" unfolding ks_def by (rule four_hour_klines_ok [OF assms(1,2)])
  then have cl: "list_all kline_ok cl" by (simp add: cl_def closed_of_def list_all_iff)
  have "ks \<noteq> []" using h(1) by (simp add: only_last_open_def)
  then have price: "positive (kl_close (last ks))" using ok kline_prices(1) by (auto simp: list_all_iff)
  have version: "0 < mv_captured v" using assms(1,2) by (simp add: market_view_ok_def)
  have utc: "is_utc calculated" using assms by (auto simp: market_view_ok_def market_inv_def)
  show False
    by (rule calculate_values_outcome [OF cl h(2) price])
      (use h(3) price version utc in \<open>auto simp: arithmetic_error_def publish_indicators_def operation_defs
        make_indicator_snapshot_def update_indicator_snapshot_def normalize_utc_def\<close>)
qed

lemma calculation_raises_not: "market_view_ok v \<Longrightarrow> failure_memory_ok c \<Longrightarrow> \<not> calculation_raises v c e"
  using values_raise_not by (auto simp: calculation_raises_def)

end
