(* ===== verification/Regime_Evaluation.thy ===== *)
theory Regime_Evaluation
  imports Regime_Controller
begin

text \<open>
  The invariant of the regime controller and what its operations do: a recommendation is applied
  completely or not at all, every failure leaves exactly its trace, and no market that was really
  published makes an evaluation raise.
\<close>

section \<open>The invariant\<close>

definition successes :: "regime_controller \<Rightarrow> string option list" where
  "successes c = map et_candle_id (filter (\<lambda>t. et_failure t = None) (rc_traces c))"

definition recommendation_inv :: "regime_controller \<Rightarrow> bool" where
  "recommendation_inv c \<longleftrightarrow>
     (case rc_last_result c of
        None \<Rightarrow> rc_stm c = REGIME_INITIAL \<and> rc_recommended c = None \<and> rc_watermark c = None \<and> rc_processed c = {}
      | Some r \<Rightarrow> regime_result_ok r \<and> rc_recommended c = Some (rr_recommended r) \<and>
          rc_stm c = recommended_state_for (rr_recommended r) \<and> rc_watermark c \<noteq> None \<and>
          rr_candle_id r \<in> Some ` rc_processed c)"

definition traces_inv :: "regime_controller \<Rightarrow> bool" where
  "traces_inv c \<longleftrightarrow>
     list_all evaluation_trace_ok (rc_traces c) \<and> distinct (successes c) \<and>
     set (successes c) = Some ` rc_processed c"

definition regime_inv :: "regime_controller \<Rightarrow> bool" where
  "regime_inv c \<longleftrightarrow> indicators_ok c \<and> failure_memory_ok c \<and> recommendation_inv c \<and> traces_inv c"

lemmas regime_inv_defs = regime_inv_def indicators_ok_def failure_memory_ok_def recommendation_inv_def
  traces_inv_def successes_def

lemma regime_inv_new [simp]: "regime_inv (new_controller m)"
  by (simp add: regime_inv_defs new_controller_def)

lemma recommendation_inv_same:
  assumes "same_recommendation c c'"
  shows "recommendation_inv c' = recommendation_inv c"
  using assms by (cases "rc_last_result c") (simp_all add: recommendation_inv_def same_recommendation_def)

lemma traces_inv_same:
  assumes "same_recommendation c c'" "rc_traces c' = rc_traces c"
  shows "traces_inv c' = traces_inv c"
  using assms by (simp add: traces_inv_def successes_def same_recommendation_def)

lemma regime_inv_kept:
  assumes "regime_inv c" "kept c c'" "failure_memory_ok c'"
  shows "regime_inv c'"
  using assms recommendation_inv_same [of c c'] traces_inv_same [of c c']
  by (simp add: regime_inv_def kept_def indicators_ok_def)

lemma regime_inv_published:
  assumes "regime_inv c" "published v c s c'"
  shows "regime_inv c'"
proof -
  obtain t where c': "c' = (forget_failed_calculation c)\<lparr>rc_market := Some (mv_object v), rc_indicator := Some s,
      rc_indicator_open_time := Some t, rc_indicator_market := Some (mv_object v), rc_objects := Suc (rc_objects c)\<rparr>"
    "indicator_ok s" "is_object s = rc_objects c"
    using assms(2) unfolding published_def Let_def by blast
  have "same_recommendation c c'" "rc_traces c' = rc_traces c"
    by (simp_all add: c'(1) same_recommendation_def forget_failed_calculation_def)
  then have "recommendation_inv c'" "traces_inv c'"
    using assms(1) recommendation_inv_same traces_inv_same by (auto simp: regime_inv_def)
  then show ?thesis
    by (simp add: regime_inv_def indicators_ok_def failure_memory_ok_def c' forget_failed_calculation_def)
qed

lemma regime_inv_logged:
  assumes "regime_inv c" "logged c f c'"
  shows "regime_inv c'"
proof -
  obtain trace where c': "c' = c\<lparr>rc_traces := rc_traces c @ [trace]\<rparr>" "evaluation_trace_ok trace"
    "et_failure trace = Some (ef_code f)"
    using assms(2) by (auto simp: logged_def)
  have "same_recommendation c c'" by (simp add: c'(1) same_recommendation_def)
  then have "recommendation_inv c'" using assms(1) recommendation_inv_same by (auto simp: regime_inv_def)
  moreover have "traces_inv c'" using assms(1) c'(2,3) by (simp add: regime_inv_def traces_inv_def successes_def c'(1))
  ultimately show ?thesis
    using assms(1) by (simp add: regime_inv_def indicators_ok_def failure_memory_ok_def c'(1))
qed

lemma regime_inv_recommends:
  assumes "regime_inv c" "accepts g v s c" "recommends c s result c'"
  shows "regime_inv c'"
proof -
  obtain trace where c': "c' = c\<lparr>rc_stm := recommended_state_for (recommendation_of s),
        rc_recommended := Some (recommendation_of s), rc_last_result := Some result,
        rc_processed := insert (is_candle_id s) (rc_processed c),
        rc_watermark := rc_indicator_open_time c, rc_traces := rc_traces c @ [trace]\<rparr>"
    "evaluation_trace_ok trace" "et_failure trace = None" "et_candle_id trace = Some (is_candle_id s)"
    "regime_result_ok result" "rr_recommended result = recommendation_of s"
    "rr_candle_id result = Some (is_candle_id s)"
    using assms(3) by (auto simp: recommends_def)
  have new: "rc_indicator c = Some s" "is_candle_id s \<notin> rc_processed c" using assms(2) by (simp_all add: accepts_def)
  have open_time: "rc_indicator_open_time c \<noteq> None"
    using assms(1) new(1) by (auto simp: regime_inv_def indicators_ok_def)
  have "successes c' = successes c @ [Some (is_candle_id s)]"
    by (simp add: successes_def c'(1,3,4))
  then have "traces_inv c'"
    using assms(1) new(2) c'(2) by (auto simp: regime_inv_def traces_inv_def c'(1))
  moreover have "recommendation_inv c'" using c'(5-7) open_time by (simp add: recommendation_inv_def c'(1))
  ultimately show ?thesis
    using assms(1) by (simp add: regime_inv_def indicators_ok_def failure_memory_ok_def c'(1))
qed

text \<open>The machine rests in the initial state or in the state of the recommendation.\<close>

lemma regime_inv_state:
  assumes "regime_inv c"
  shows "rc_stm c = (case rc_recommended c of None \<Rightarrow> REGIME_INITIAL | Some r \<Rightarrow> recommended_state_for r)"
  using assms by (auto simp: regime_inv_def recommendation_inv_def split: option.splits)

section \<open>The recommendation\<close>

lemma infer_trigger_inv:
  assumes "regime_inv c"
  shows "infer_evaluation_trigger c =
    (Inr (if rc_stm c = REGIME_INITIAL then INITIAL_TRIGGER else FOUR_HOUR_CANDLE_CLOSE), c)"
  using regime_inv_state [OF assms] by (auto simp: infer_evaluation_trigger_def split: option.splits)

text \<open>A recommendation of the calculated snapshot: applied, or refused with one trace.\<close>

lemma recommend_regime_cases:
  assumes "recommend_regime v s c = (r, c')" "regime_inv c" "snapshot_ok s"
  shows "(\<exists>g result. r = Inr (recommendation_of s) \<and> accepts g v s c \<and> recommends c s result c') \<or>
    (\<exists>e. r = Inl (Evaluation (evaluation_error e)) \<and> logged c (evaluation_error e) c' \<and> (\<forall>g. \<not> accepts g v s c))"
proof -
  define g where "g = (if rc_stm c = REGIME_INITIAL then INITIAL_TRIGGER else FOUR_HOUR_CANDLE_CLOSE)"
  obtain r1 c1 where run: "run_prepared_evaluation g v s c = (r1, c1)" by (cases "run_prepared_evaluation g v s c")
  have ind: "indicators_ok c" using assms(2) by (simp add: regime_inv_def)
  have only: "(\<exists>g'. accepts g' v s c) \<longleftrightarrow> accepts g v s c"
  proof
    assume "\<exists>g'. accepts g' v s c"
    then obtain g' where "accepts g' v s c" ..
    then show "accepts g v s c" by (cases g') (auto simp: accepts_def g_def)
  qed blast
  from run_prepared_evaluation_cases [OF run ind] show ?thesis
  proof (elim disjE exE conjE)
    fix e assume e: "r1 = raise_code e" "c1 = c" "\<not> accepts g v s c"
    obtain c2 where "record_failure g (Some s) None (evaluation_error e) c = (Inr (), c2)"
      "logged c (evaluation_error e) c2"
      using record_failure_known [OF assms(3)] by blast
    then show ?thesis
      using assms(1) run e only infer_trigger_inv [OF assms(2)]
      by (auto simp: recommend_regime_def obind_def ocatch_def opure_def raise_code_def g_def [symmetric])
  next
    fix result assume "r1 = Inr result" "accepts g v s c" "recommends c s result c1"
    then show ?thesis
      using assms(1) run infer_trigger_inv [OF assms(2)]
      by (auto simp: recommend_regime_def obind_def ocatch_def opure_def g_def [symmetric] recommends_def)
  qed
qed

section \<open>Attempts\<close>

lemma evaluation_error_sel [simp]:
  "ef_code (evaluation_error e) = e" "ef_version (evaluation_error e) = None"
  by (simp_all add: evaluation_error_def)

lemma add_progress_sel [simp]:
  "ef_code (add_progress a b d x y f) = ef_code f" "ef_version (add_progress a b d x y f) = ef_version f"
  by (simp_all add: add_progress_def)

text \<open>The trigger that a state expects.\<close>

definition expected_trigger :: "regime_controller \<Rightarrow> regime_trigger" where
  "expected_trigger c = (if rc_stm c = REGIME_INITIAL then INITIAL_TRIGGER else FOUR_HOUR_CANDLE_CLOSE)"

lemma accepts_expected: "accepts g v s c \<Longrightarrow> g = expected_trigger c"
  by (cases g) (auto simp: accepts_def expected_trigger_def)

lemma check_before_cases:
  assumes "check_before_recommendation g s c = (r, c')" "regime_inv c"
  shows "c' = c \<and>
    (r = Inr () \<and> is_candle_id s \<notin> rc_processed c \<and> g = expected_trigger c \<or>
     (\<exists>f. r = Inl (Evaluation f) \<and> ef_code f \<noteq> STALE_MARKET_SNAPSHOT \<and> reportable f \<and>
        (is_candle_id s \<in> rc_processed c \<or> g \<noteq> expected_trigger c)))"
  using assms(1) infer_trigger_inv [OF assms(2)]
  by (auto simp: check_before_recommendation_def obind_def oget_def with_progress_def ocatch_def opure_def
      raise_code_def expected_trigger_def [symmetric] reportable_def split: if_splits)

lemma evaluate_prepared_cases:
  assumes "evaluate_prepared g v s c = (r, c')" "regime_inv c" "snapshot_ok s"
  shows "(\<exists>result. r = Inr (Some result) \<and> accepts g v s c \<and> recommends c s result c') \<or>
    (\<exists>f. r = Inl (Evaluation f) \<and> reportable f \<and> \<not> accepts g v s c \<and>
       (c' = c \<and> ef_code f \<noteq> STALE_MARKET_SNAPSHOT \<or> logged c f c'))"
proof -
  obtain r1 c1 where check: "check_before_recommendation g s c = (r1, c1)"
    by (cases "check_before_recommendation g s c")
  have c1: "c1 = c" using check_before_cases [OF check assms(2)] by blast
  show ?thesis
  proof (cases r1)
    case (Inl e)
    then obtain f where "e = Evaluation f" "ef_code f \<noteq> STALE_MARKET_SNAPSHOT" "reportable f"
      "is_candle_id s \<in> rc_processed c \<or> g \<noteq> expected_trigger c"
      using check_before_cases [OF check assms(2)] by blast
    moreover have "r = Inl e" "c' = c"
      using assms(1) check Inl c1 by (simp_all add: evaluate_prepared_def obind_def)
    moreover have "g = expected_trigger c \<and> is_candle_id s \<notin> rc_processed c" if "accepts g v s c"
      using accepts_expected [OF that] that by (simp add: accepts_def)
    ultimately show ?thesis by blast
  next
    case (Inr u)
    then have g: "g = expected_trigger c" using check_before_cases [OF check assms(2)] by auto
    obtain r2 c2 where rec: "recommend_regime v s c = (r2, c2)" by (cases "recommend_regime v s c")
    from recommend_regime_cases [OF rec assms(2,3)] show ?thesis
    proof (elim disjE exE conjE)
      fix g' result
      assume h: "r2 = Inr (recommendation_of s)" "accepts g' v s c" "recommends c s result c2"
      then have "g' = g" using g accepts_expected by blast
      moreover have "rc_last_result c2 = Some result" using h(3) by (auto simp: recommends_def)
      ultimately show ?thesis
        using assms(1) check Inr c1 rec h
        by (auto simp: evaluate_prepared_def obind_def last_regime_result_def opure_def)
    next
      fix e
      assume "r2 = Inl (Evaluation (evaluation_error e))" "logged c (evaluation_error e) c2" "\<forall>g. \<not> accepts g v s c"
      then show ?thesis using assms(1) check Inr c1 rec by (auto simp: evaluate_prepared_def obind_def)
    qed
  qed
qed

text \<open>A failed attempt: the recommendation stays and one trace says why.\<close>

definition failed_once :: "regime_controller \<Rightarrow> regime_controller \<Rightarrow> bool" where
  "failed_once c c' \<longleftrightarrow>
     same_recommendation c c' \<and> regime_inv c' \<and>
     (\<exists>trace. rc_traces c' = rc_traces c @ [trace] \<and> et_failure trace \<noteq> None)"

definition stale_attempt :: "regime_controller \<Rightarrow> regime_controller \<Rightarrow> bool" where
  "stale_attempt c c' \<longleftrightarrow>
     same_recommendation c c' \<and> regime_inv c' \<and>
     (\<exists>ts. rc_traces c' = rc_traces c @ ts \<and> length ts \<le> 1 \<and>
        (\<forall>t\<in>set ts. et_failure t = Some STALE_MARKET_SNAPSHOT))"

definition succeeded :: "regime_trigger \<Rightarrow> market_view \<Rightarrow> regime_controller \<Rightarrow> regime_result \<Rightarrow> regime_controller \<Rightarrow> bool" where
  "succeeded g v c result c' \<longleftrightarrow>
     (\<exists>s c1. published v c s c1 \<and> accepts g v s c1 \<and> recommends c1 s result c')"

lemma logged_failed_once:
  assumes "logged c1 f c'" "same_recommendation c c1" "rc_traces c1 = rc_traces c" "regime_inv c1"
  shows "failed_once c c'"
proof -
  obtain trace where c': "c' = c1\<lparr>rc_traces := rc_traces c1 @ [trace]\<rparr>" "et_failure trace = Some (ef_code f)"
    using assms(1) unfolding logged_def by blast
  have "same_recommendation c1 c'" by (simp add: c'(1) same_recommendation_def)
  then have "same_recommendation c c'" by (rule same_recommendation_trans [OF assms(2)])
  moreover have "rc_traces c' = rc_traces c @ [trace]" by (simp add: c'(1) assms(3))
  ultimately show ?thesis using regime_inv_logged [OF assms(4,1)] c'(2) unfolding failed_once_def by blast
qed

lemma finish_failed_cases:
  assumes "regime_inv c1" "same_recommendation c c1" "market_view_ok v" "reportable f"
    "\<forall>s. indicators = Some s \<longrightarrow> snapshot_ok s"
    "rc_traces c1 = rc_traces c \<or> (\<exists>c0. logged c0 f c1 \<and> rc_traces c0 = rc_traces c)"
  obtains c' where "finish_failed g v (length (rc_traces c)) indicators f c1 = (Inr None, c')" "failed_once c c'"
proof (cases "rc_traces c1 = rc_traces c")
  case True
  have "\<exists>c2. record_failure g indicators (Some (mv_final v)) f c1 = (Inr (), c2) \<and> logged c1 f c2"
    using record_failure_known record_failure_unknown [OF assms(4)] view_ok_dated [OF assms(3)] assms(5)
    by (cases indicators) blast+
  then obtain c2 where c2: "record_failure g indicators (Some (mv_final v)) f c1 = (Inr (), c2)" "logged c1 f c2" by blast
  have "finish_failed g v (length (rc_traces c)) indicators f c1 = (Inr None, c2)"
    using c2(1) True by (simp add: finish_failed_def obind_def opure_def)
  moreover have "failed_once c c2" by (rule logged_failed_once [OF c2(2) assms(2) True assms(1)])
  ultimately show ?thesis by (rule that)
next
  case False
  then obtain c0 where c0: "logged c0 f c1" "rc_traces c0 = rc_traces c" using assms(6) by blast
  then obtain trace where "rc_traces c1 = rc_traces c @ [trace]" "et_failure trace = Some (ef_code f)"
    by (auto simp: logged_def)
  then show ?thesis using that assms(1,2) by (simp add: finish_failed_def failed_once_def)
qed

lemma published_keeps:
  assumes "published v c s c'"
  shows "same_recommendation c c'" "rc_traces c' = rc_traces c" "indicator_ok s" "rc_indicator c' = Some s"
proof -
  obtain t where c': "c' = (forget_failed_calculation c)\<lparr>rc_market := Some (mv_object v), rc_indicator := Some s,
      rc_indicator_open_time := Some t, rc_indicator_market := Some (mv_object v), rc_objects := Suc (rc_objects c)\<rparr>"
    "indicator_ok s"
    using assms unfolding published_def Let_def by blast
  show "same_recommendation c c'" "rc_traces c' = rc_traces c" "indicator_ok s" "rc_indicator c' = Some s"
    using c'(2) by (simp_all add: c'(1) same_recommendation_def forget_failed_calculation_def)
qed

lemma logged_keeps:
  assumes "logged c f c'"
  obtains trace where "same_recommendation c c'" "rc_traces c' = rc_traces c @ [trace]"
    "et_failure trace = Some (ef_code f)"
proof -
  obtain trace where c': "c' = c\<lparr>rc_traces := rc_traces c @ [trace]\<rparr>" "et_failure trace = Some (ef_code f)"
    using assms unfolding logged_def by blast
  show ?thesis by (rule that [of trace]) (simp_all add: c' same_recommendation_def)
qed

text \<open>The handler of an attempt.\<close>

lemma attempt_handler:
  assumes "regime_inv c1" "same_recommendation c c1" "market_view_ok v" "reportable f"
    "\<forall>s. indicators = Some s \<longrightarrow> snapshot_ok s"
    "rc_traces c1 = rc_traces c \<or> (\<exists>c0. logged c0 f c1 \<and> rc_traces c0 = rc_traces c)"
    "(case (if ef_code f = STALE_MARKET_SNAPSHOT then retry else None) of
       Some again \<Rightarrow> again
     | None \<Rightarrow> finish_failed g v (length (rc_traces c)) indicators f) c1 = (r, c')"
  shows "(r = Inr None \<and> failed_once c c') \<or>
    (\<exists>again c2. retry = Some again \<and> stale_attempt c c2 \<and> again c2 = (r, c'))"
proof (cases "ef_code f = STALE_MARKET_SNAPSHOT \<and> retry \<noteq> None")
  case True
  then obtain again where again: "retry = Some again" "again c1 = (r, c')" using assms(7) by auto
  have "\<exists>ts. rc_traces c1 = rc_traces c @ ts \<and> length ts \<le> 1 \<and> (\<forall>t\<in>set ts. et_failure t = Some STALE_MARKET_SNAPSHOT)"
    using assms(6)
  proof (elim disjE exE conjE)
    fix c0 assume c0: "logged c0 f c1" "rc_traces c0 = rc_traces c"
    from c0(1) obtain trace where "rc_traces c1 = rc_traces c0 @ [trace]" "et_failure trace = Some (ef_code f)"
      by (rule logged_keeps)
    then show ?thesis using True c0(2) by (intro exI [of _ "[trace]"]) simp
  qed simp
  then have "stale_attempt c c1" using assms(1,2) unfolding stale_attempt_def by blast
  with again show ?thesis by blast
next
  case False
  then have "finish_failed g v (length (rc_traces c)) indicators f c1 = (r, c')"
    using assms(7) by (cases retry) (auto split: if_splits)
  then show ?thesis using finish_failed_cases [OF assms(1-6), of g] by (metis prod.inject)
qed

lemma attempt_cases:
  assumes "evaluation_attempt g v retry c = (r, c')" "regime_inv c" "market_view_ok v"
  shows "(\<exists>result. r = Inr (Some result) \<and> succeeded g v c result c') \<or>
    (r = Inr None \<and> failed_once c c') \<or>
    (\<exists>again c1. retry = Some again \<and> stale_attempt c c1 \<and> again c1 = (r, c'))"
proof -
  obtain r1 c1 where calc: "calculate_4h_indicators v c = (r1, c1)" by (cases "calculate_4h_indicators v c")
  have mem: "failure_memory_ok c" using assms(2) by (simp add: regime_inv_def)
  note dated = view_ok_dated [OF assms(3)]
  consider s where "r1 = Inr s" "published v c s c1"
    | f where "r1 = Inl (Evaluation f)" "kept c c1" "failure_memory_ok c1" "reportable f"
    using calculate_cases [OF calc] calculation_raises_not [OF assms(3) mem] mem dated by blast
  then show ?thesis
  proof cases
    case 1
    note pub = published_keeps [OF 1(2)]
    have inv: "regime_inv c1" by (rule regime_inv_published [OF assms(2) 1(2)])
    obtain r2 c2 where body: "evaluate_prepared g v s c1 = (r2, c2)" by (cases "evaluate_prepared g v s c1")
    from evaluate_prepared_cases [OF body inv indicator_snapshot_ok [OF pub(3)]]
    consider result where "r2 = Inr (Some result)" "accepts g v s c1" "recommends c1 s result c2"
      | f where "r2 = Inl (Evaluation f)" "reportable f" "c2 = c1 \<or> logged c1 f c2"
      by blast
    then show ?thesis
    proof cases
      case success: 1
      then have "r = Inr (Some result)" "c' = c2"
        using assms(1) calc 1(1) body by (simp_all add: evaluation_attempt_def with_indicators_def ocatch_def)
      then show ?thesis using success(2,3) 1(2) unfolding succeeded_def by blast
    next
      case failed: 2
      then have handler: "(case (if ef_code f = STALE_MARKET_SNAPSHOT then retry else None) of
          Some again \<Rightarrow> again
        | None \<Rightarrow> finish_failed g v (length (rc_traces c)) (Some s) f) c2 = (r, c')"
        using assms(1) calc 1(1) body by (simp add: evaluation_attempt_def with_indicators_def ocatch_def)
      have "regime_inv c2" using failed(3) inv regime_inv_logged by blast
      moreover have "same_recommendation c c2"
        using failed(3)
      proof
        assume "logged c1 f c2"
        then have "same_recommendation c1 c2" by (rule logged_keeps)
        then show ?thesis by (rule same_recommendation_trans [OF pub(1)])
      qed (use pub(1) in simp)
      moreover have "rc_traces c2 = rc_traces c \<or> (\<exists>c0. logged c0 f c2 \<and> rc_traces c0 = rc_traces c)"
        using failed(3) pub(2) by blast
      ultimately show ?thesis using attempt_handler [OF _ _ assms(3) failed(2) _ _ handler] indicator_snapshot_ok [OF pub(3)] by blast
    qed
  next
    case 2
    then have handler: "(case (if ef_code f = STALE_MARKET_SNAPSHOT then retry else None) of
        Some again \<Rightarrow> again
      | None \<Rightarrow> finish_failed g v (length (rc_traces c)) None f) c1 = (r, c')"
      using assms(1) calc by (simp add: evaluation_attempt_def with_indicators_def)
    have "regime_inv c1" by (rule regime_inv_kept [OF assms(2) 2(2,3)])
    moreover have "same_recommendation c c1" "rc_traces c1 = rc_traces c" using 2(2) by (simp_all add: kept_def)
    ultimately show ?thesis using attempt_handler [OF _ _ assms(3) 2(4) _ _ handler] by blast
  qed
qed

section \<open>Operations\<close>

text \<open>A market that moved on is tried once more, so two attempts bound an evaluation.\<close>

lemma evaluate_regime_cases:
  assumes "evaluate_regime g v w c = (r, c')" "regime_inv c" "market_view_ok v" "market_view_ok w"
  shows "(\<exists>result. r = Inr (Some result) \<and>
      (succeeded g v c result c' \<or> (\<exists>c1. stale_attempt c c1 \<and> succeeded g w c1 result c'))) \<or>
    (r = Inr None \<and> (failed_once c c' \<or> (\<exists>c1. stale_attempt c c1 \<and> failed_once c1 c')))"
proof -
  have "evaluation_attempt g v (Some (evaluation_attempt g w None)) c = (r, c')"
    using assms(1) by (simp add: evaluate_regime_def)
  from attempt_cases [OF this assms(2,3)] show ?thesis
  proof (elim disjE exE conjE)
    fix again c1
    assume h: "Some (evaluation_attempt g w None) = Some again" "stale_attempt c c1" "again c1 = (r, c')"
    then have "evaluation_attempt g w None c1 = (r, c')" "regime_inv c1" by (simp_all add: stale_attempt_def)
    from attempt_cases [OF this assms(4)] h(2) show ?thesis by blast
  qed blast+
qed

lemma succeeded_inv:
  assumes "regime_inv c" "succeeded g v c result c'"
  shows "regime_inv c'"
proof -
  obtain s c1 where "published v c s c1" "accepts g v s c1" "recommends c1 s result c'"
    using assms(2) unfolding succeeded_def by blast
  then show ?thesis using regime_inv_recommends [OF regime_inv_published [OF assms(1)]] by blast
qed

lemma evaluate_regime_inv:
  assumes "evaluate_regime g v w c = (r, c')" "regime_inv c" "market_view_ok v" "market_view_ok w"
  shows "regime_inv c'"
  using evaluate_regime_cases [OF assms] succeeded_inv assms(2)
  by (auto simp: failed_once_def stale_attempt_def)

text \<open>The result is bound to the version of a new calculation of the same candle.\<close>

definition rebinds ::
  "market_view \<Rightarrow> regime_controller \<Rightarrow> regime_result \<Rightarrow> regime_result \<Rightarrow> regime_controller \<Rightarrow> bool" where
  "rebinds v c previous result c' \<longleftrightarrow>
     (\<exists>s c1. published v c s c1 \<and> c' = c1\<lparr>rc_last_result := Some result\<rparr> \<and> regime_result_ok result \<and>
        rr_recommended result = rr_recommended previous \<and> rr_state result = rr_state previous \<and>
        rr_candle_id result = rr_candle_id previous \<and> rr_candle_id result = Some (is_candle_id s) \<and>
        rr_version result = mv_captured v)"

lemma reconcile_prepared_cases:
  assumes "reconcile_prepared previous v s c = (r, c')" "regime_inv c" "published v c0 s c" "regime_result_ok previous"
    "rc_last_result c0 = Some previous"
  shows "(\<exists>g result. r = Inr (Some result) \<and> accepts g v s c \<and> recommends c s result c') \<or>
    (\<exists>result. r = Inr (Some result) \<and> rebinds v c0 previous result c') \<or>
    (\<exists>e. r = Inl (Evaluation (evaluation_error e)) \<and> logged c (evaluation_error e) c')"
proof -
  note pub = published_keeps [OF assms(3)]
  have snap: "snapshot_ok s" by (rule indicator_snapshot_ok [OF pub(3)])
  show ?thesis
  proof (cases "Some (is_candle_id s) = rr_candle_id previous")
    case False
    obtain r2 c2 where rec: "recommend_regime v s c = (r2, c2)" by (cases "recommend_regime v s c")
    from recommend_regime_cases [OF rec assms(2) snap] show ?thesis
    proof (elim disjE exE conjE)
      fix g result assume h: "r2 = Inr (recommendation_of s)" "accepts g v s c" "recommends c s result c2"
      then have "rc_last_result c2 = Some result" by (auto simp: recommends_def)
      with h show ?thesis
        using assms(1) False rec by (auto simp: reconcile_prepared_def obind_def oget_def)
    next
      fix e assume "r2 = Inl (Evaluation (evaluation_error e))" "logged c (evaluation_error e) c2"
      then show ?thesis using assms(1) False rec by (auto simp: reconcile_prepared_def obind_def)
    qed
  next
    case True
    have last: "rc_last_result c = Some previous" using pub(1) assms(5) by (simp add: same_recommendation_def)
    then have state: "rc_recommended c = Some (rr_recommended previous)" "rc_stm c = rr_state previous"
      using assms(2,4) by (auto simp: regime_inv_def recommendation_inv_def regime_result_ok_def)
    define result where "result = rebound_result previous s"
    have "nonblank (''regime-reconciliation:'' @ show_int (is_version s) @ '':'' @ is_candle_id s)"
      by (simp add: nonblank_iff py_isspace_def)
    then have ok: "regime_result_ok result"
      using assms(4) snap has_offset_utc unfolding result_def rebound_result_def
      by (simp add: regime_result_ok_def snapshot_ok_def)
    have "r = Inr (Some result)" "c' = c\<lparr>rc_last_result := Some result\<rparr>"
      using assms(1) True state ok
      by (auto simp: reconcile_prepared_def operation_defs make_regime_result_def result_def [symmetric])
    moreover have "is_version s = mv_captured v" using assms(3) by (simp add: published_def Let_def)
    then have "rr_recommended result = rr_recommended previous" "rr_state result = rr_state previous"
      "rr_candle_id result = rr_candle_id previous" "rr_candle_id result = Some (is_candle_id s)"
      "rr_version result = mv_captured v"
      by (simp_all add: result_def rebound_result_def True)
    ultimately show ?thesis using assms(3) ok unfolding rebinds_def by blast
  qed
qed

lemma reconcile_regime_cases:
  assumes "reconcile_regime v w c = (r, c')" "regime_inv c" "market_view_ok v" "rc_last_result c = Some previous"
  shows "(\<exists>g result. r = Inr (Some result) \<and> succeeded g v c result c') \<or>
    (\<exists>result. r = Inr (Some result) \<and> rebinds v c previous result c') \<or>
    (r = Inr None \<and> failed_once c c')"
proof -
  let ?handler = "finish_failed FOUR_HOUR_CANDLE_CLOSE v (length (rc_traces c)) :: _ \<Rightarrow> _ \<Rightarrow> regime_result option operation"
  obtain r1 c1 where calc: "calculate_4h_indicators v c = (r1, c1)" by (cases "calculate_4h_indicators v c")
  have mem: "failure_memory_ok c" using assms(2) by (simp add: regime_inv_def)
  have prev: "regime_result_ok previous" using assms(2,4) by (simp add: regime_inv_def recommendation_inv_def)
  note dated = view_ok_dated [OF assms(3)]
  consider s where "r1 = Inr s" "published v c s c1"
    | f where "r1 = Inl (Evaluation f)" "kept c c1" "failure_memory_ok c1" "reportable f"
    using calculate_cases [OF calc] calculation_raises_not [OF assms(3) mem] mem dated by blast
  then show ?thesis
  proof cases
    case 1
    note pub = published_keeps [OF 1(2)]
    have inv: "regime_inv c1" by (rule regime_inv_published [OF assms(2) 1(2)])
    obtain r2 c2 where body: "reconcile_prepared previous v s c1 = (r2, c2)" by (cases "reconcile_prepared previous v s c1")
    have run: "(r, c') = (case r2 of Inl (Evaluation f) \<Rightarrow> ?handler (Some s) f c2 | _ \<Rightarrow> (r2, c2))"
      using assms(1,4) calc 1(1) body
      by (auto simp: reconcile_regime_def with_indicators_def ocatch_def split: sum.splits regime_error.splits)
    from reconcile_prepared_cases [OF body inv 1(2) prev assms(4)] show ?thesis
    proof (elim disjE exE conjE)
      fix g result assume h: "r2 = Inr (Some result)" "accepts g v s c1" "recommends c1 s result c2"
      then have "succeeded g v c result c2" using 1(2) unfolding succeeded_def by blast
      then show ?thesis using run h(1) by auto
    next
      fix result assume "r2 = Inr (Some result)" "rebinds v c previous result c2"
      then show ?thesis using run by auto
    next
      fix e assume h: "r2 = Inl (Evaluation (evaluation_error e))" "logged c1 (evaluation_error e) c2"
      have "regime_inv c2" by (rule regime_inv_logged [OF inv h(2)])
      moreover have "same_recommendation c1 c2" using h(2) by (rule logged_keeps)
      then have "same_recommendation c c2" by (rule same_recommendation_trans [OF pub(1)])
      moreover have "\<forall>s'. Some s = Some s' \<longrightarrow> snapshot_ok s'" using indicator_snapshot_ok [OF pub(3)] by simp
      ultimately obtain c3 where "?handler (Some s) (evaluation_error e) c2 = (Inr None, c3)" "failed_once c c3"
        using finish_failed_cases [OF _ _ assms(3) reportable_code, of c2 c "Some s" e] h(2) pub(2) by blast
      then show ?thesis using run h(1) by auto
    qed
  next
    case 2
    then have run: "?handler None f c1 = (r, c')"
      using assms(1,4) calc by (simp add: reconcile_regime_def with_indicators_def)
    have "regime_inv c1" by (rule regime_inv_kept [OF assms(2) 2(2,3)])
    moreover have "same_recommendation c c1" "rc_traces c1 = rc_traces c" using 2(2) by (simp_all add: kept_def)
    ultimately obtain c3 where "?handler None f c1 = (Inr None, c3)" "failed_once c c3"
      using finish_failed_cases [OF _ _ assms(3) 2(4), of c1 c None] by blast
    then show ?thesis using run by simp
  qed
qed

lemma rebinds_inv:
  assumes "regime_inv c" "rebinds v c previous result c'" "rc_last_result c = Some previous"
  shows "regime_inv c'"
proof -
  obtain s c1 where h: "published v c s c1" "c' = c1\<lparr>rc_last_result := Some result\<rparr>" "regime_result_ok result"
    "rr_recommended result = rr_recommended previous" "rr_candle_id result = rr_candle_id previous"
    using assms(2) unfolding rebinds_def by blast
  have inv: "regime_inv c1" by (rule regime_inv_published [OF assms(1) h(1)])
  have "rc_last_result c1 = Some previous"
    using published_keeps(1) [OF h(1)] assms(3) by (simp add: same_recommendation_def)
  then have "recommendation_inv c'"
    using inv h(3-5) by (simp add: regime_inv_def recommendation_inv_def h(2))
  then show ?thesis
    using inv by (simp add: regime_inv_def indicators_ok_def failure_memory_ok_def traces_inv_def successes_def h(2))
qed

lemma reconcile_regime_inv:
  assumes "reconcile_regime v w c = (r, c')" "regime_inv c" "market_view_ok v" "market_view_ok w"
  shows "regime_inv c'"
proof (cases "rc_last_result c")
  case None
  then have "evaluate_regime INITIAL_TRIGGER v w c = (r, c')" using assms(1) by (simp add: reconcile_regime_def)
  then show ?thesis by (rule evaluate_regime_inv) (use assms in simp_all)
next
  case (Some previous)
  from reconcile_regime_cases [OF assms(1-3) Some] show ?thesis
    using succeeded_inv [OF assms(2)] rebinds_inv [OF assms(2) _ Some] by (auto simp: failed_once_def)
qed

lemma recommend_regime_inv:
  assumes "recommend_regime v s c = (r, c')" "regime_inv c" "snapshot_ok s"
  shows "regime_inv c'"
  using recommend_regime_cases [OF assms] regime_inv_recommends [OF assms(2)] regime_inv_logged [OF assms(2)] by blast

lemma calculate_inv:
  assumes "calculate_4h_indicators v c = (r, c')" "regime_inv c" "market_view_ok v"
  shows "regime_inv c'"
proof -
  have mem: "failure_memory_ok c" using assms(2) by (simp add: regime_inv_def)
  show ?thesis
    using calculate_cases [OF assms(1)] calculation_raises_not [OF assms(3) mem] mem view_ok_dated [OF assms(3)]
      regime_inv_published [OF assms(2)] regime_inv_kept [OF assms(2)]
    by blast
qed

section \<open>Sessions\<close>

text \<open>The operations of the controller, on views of a real market.\<close>

inductive regime_step :: "regime_controller \<Rightarrow> regime_controller \<Rightarrow> bool" where
  calculated: "market_view_ok v \<Longrightarrow> calculate_4h_indicators v c = (ri, c') \<Longrightarrow> regime_step c c'"
| recommended: "snapshot_ok s \<Longrightarrow> recommend_regime v s c = (rt, c') \<Longrightarrow> regime_step c c'"
| evaluated: "market_view_ok v \<Longrightarrow> market_view_ok w \<Longrightarrow> evaluate_regime g v w c = (rr, c') \<Longrightarrow> regime_step c c'"
| reconciled: "market_view_ok v \<Longrightarrow> market_view_ok w \<Longrightarrow> reconcile_regime v w c = (rr, c') \<Longrightarrow> regime_step c c'"
| selected: "regime_step c (c\<lparr>rc_selected := Some q\<rparr>)"

inductive regime_run :: "regime_controller \<Rightarrow> bool" where
  created: "regime_run (new_controller m)"
| stepped: "regime_run c \<Longrightarrow> regime_step c c' \<Longrightarrow> regime_run c'"

inductive_cases regime_stepE: "regime_step c c'"

lemma set_regime_type_effect:
  assumes "set_regime_type port r command version c = (result, c')"
  shows "c' = c \<or> (\<exists>q. c' = c\<lparr>rc_selected := Some q\<rparr>)"
  using assms
  by (auto simp: set_regime_type_def Let_def split: option.splits sum.splits if_splits)

lemma regime_inv_selected: "regime_inv (c\<lparr>rc_selected := q\<rparr>) \<longleftrightarrow> regime_inv c"
  by (cases "rc_last_result c") (simp_all add: regime_inv_defs)

lemma regime_step_inv:
  assumes "regime_step c c'" "regime_inv c"
  shows "regime_inv c'"
  using assms
proof cases
  case (calculated v ri)
  then show ?thesis using calculate_inv [OF calculated(2) assms(2) calculated(1)] by simp
next
  case (recommended s v rt)
  then show ?thesis using recommend_regime_inv [OF recommended(2) assms(2) recommended(1)] by simp
next
  case (evaluated v w g rr)
  then show ?thesis using evaluate_regime_inv [OF evaluated(3) assms(2) evaluated(1,2)] by simp
next
  case (reconciled v w rr)
  then show ?thesis using reconcile_regime_inv [OF reconciled(3) assms(2) reconciled(1,2)] by simp
next
  case (selected q)
  then show ?thesis using assms(2) by (simp add: regime_inv_selected)
qed

lemma regime_run_inv: "regime_run c \<Longrightarrow> regime_inv c"
  by (induction rule: regime_run.induct) (simp, rule regime_step_inv)

section \<open>One candle, one recommendation\<close>

text \<open>A step changes nothing about the candles that were evaluated, or it adds one newer candle.\<close>

definition unmoved :: "regime_controller \<Rightarrow> regime_controller \<Rightarrow> bool" where
  "unmoved c c' \<longleftrightarrow>
     rc_processed c' = rc_processed c \<and> rc_watermark c' = rc_watermark c \<and> rc_recommended c' = rc_recommended c \<and>
     successes c' = successes c"

definition advanced :: "regime_controller \<Rightarrow> regime_controller \<Rightarrow> bool" where
  "advanced c c' \<longleftrightarrow>
     (\<exists>candle w' r. candle \<notin> rc_processed c \<and> rc_processed c' = insert candle (rc_processed c) \<and>
        rc_watermark c' = Some w' \<and> opt_all (\<lambda>w. instant w < instant w') (rc_watermark c) \<and>
        rc_recommended c' = Some r \<and> successes c' = successes c @ [Some candle])"

lemma unmoved_refl [simp]: "unmoved c c"
  by (simp add: unmoved_def)

lemma unmoved_trans: "unmoved a b \<Longrightarrow> unmoved b c \<Longrightarrow> unmoved a c"
  by (simp add: unmoved_def)

lemma unmoved_advanced: "unmoved a b \<Longrightarrow> advanced b c \<Longrightarrow> advanced a c"
  by (simp add: unmoved_def advanced_def)

lemma unmovedI:
  assumes "same_recommendation c c'" "rc_traces c' = rc_traces c @ ts" "\<forall>t\<in>set ts. et_failure t \<noteq> None"
  shows "unmoved c c'"
  using assms by (simp add: unmoved_def same_recommendation_def successes_def)

lemma recommends_advanced:
  assumes "regime_inv c" "accepts g v s c" "recommends c s result c'"
  shows "advanced c c'"
proof -
  obtain trace where c': "c' = c\<lparr>rc_stm := recommended_state_for (recommendation_of s),
        rc_recommended := Some (recommendation_of s), rc_last_result := Some result,
        rc_processed := insert (is_candle_id s) (rc_processed c),
        rc_watermark := rc_indicator_open_time c, rc_traces := rc_traces c @ [trace]\<rparr>"
    "et_failure trace = None" "et_candle_id trace = Some (is_candle_id s)"
    using assms(3) unfolding recommends_def by blast
  have acc: "rc_indicator c = Some s" "is_candle_id s \<notin> rc_processed c"
    "opt_all (\<lambda>w. instant w < instant (the (rc_indicator_open_time c))) (rc_watermark c)"
    using assms(2) by (simp_all add: accepts_def)
  obtain w' where "rc_indicator_open_time c = Some w'"
    using assms(1) acc(1) by (auto simp: regime_inv_def indicators_ok_def)
  moreover have "successes c' = successes c @ [Some (is_candle_id s)]" by (simp add: successes_def c')
  ultimately show ?thesis using acc(2,3) unfolding advanced_def by (simp add: c'(1))
qed

lemma succeeded_advanced:
  assumes "regime_inv c" "succeeded g v c result c'"
  shows "advanced c c'"
proof -
  obtain s c1 where h: "published v c s c1" "accepts g v s c1" "recommends c1 s result c'"
    using assms(2) unfolding succeeded_def by blast
  have "unmoved c c1" using published_keeps(1,2) [OF h(1)] by (intro unmovedI [where ts = "[]"]) simp_all
  then show ?thesis
    using recommends_advanced [OF regime_inv_published [OF assms(1) h(1)] h(2,3)] by (rule unmoved_advanced)
qed

lemma stale_attempt_unmoved: "stale_attempt c c' \<Longrightarrow> unmoved c c'"
  unfolding stale_attempt_def using unmovedI by fastforce

lemma failed_once_unmoved: "failed_once c c' \<Longrightarrow> unmoved c c'"
  unfolding failed_once_def by (elim conjE exE, rule unmovedI) auto

lemma evaluate_regime_moves:
  assumes "evaluate_regime g v w c = (r, c')" "regime_inv c" "market_view_ok v" "market_view_ok w"
  shows "unmoved c c' \<or> advanced c c'"
  using evaluate_regime_cases [OF assms]
proof (elim disjE exE conjE)
  fix result c1 assume "stale_attempt c c1" "succeeded g w c1 result c'"
  then show ?thesis
    using succeeded_advanced unmoved_advanced stale_attempt_unmoved by (meson stale_attempt_def)
next
  fix c1 assume "stale_attempt c c1" "failed_once c1 c'"
  then show ?thesis using unmoved_trans stale_attempt_unmoved failed_once_unmoved by blast
qed (use succeeded_advanced [OF assms(2)] failed_once_unmoved in blast)+

lemma regime_step_moves:
  assumes "regime_step c c'" "regime_inv c"
  shows "unmoved c c' \<or> advanced c c'"
  using assms(1)
proof cases
  case (calculated v ri)
  have mem: "failure_memory_ok c" using assms(2) by (simp add: regime_inv_def)
  have "same_recommendation c c' \<and> rc_traces c' = rc_traces c"
    using calculate_cases [OF calculated(2)] published_keeps(1,2) by (auto simp: kept_def)
  then show ?thesis using unmovedI [where ts = "[]"] by simp
next
  case (recommended s v rt)
  from recommend_regime_cases [OF recommended(2) assms(2) recommended(1)] show ?thesis
  proof (elim disjE exE conjE)
    fix e assume "logged c (evaluation_error e) c'"
    then obtain trace where "same_recommendation c c'" "rc_traces c' = rc_traces c @ [trace]" "et_failure trace \<noteq> None"
      by (rule logged_keeps) simp
    then show ?thesis using unmovedI [where ts = "[trace]"] by simp
  qed (use recommends_advanced [OF assms(2)] in blast)
next
  case (evaluated v w g rr)
  then show ?thesis using evaluate_regime_moves [OF evaluated(3) assms(2) evaluated(1,2)] by simp
next
  case (reconciled v w rr)
  show ?thesis
  proof (cases "rc_last_result c")
    case None
    then have "evaluate_regime INITIAL_TRIGGER v w c = (rr, c')" using reconciled(3) by (simp add: reconcile_regime_def)
    then show ?thesis by (rule evaluate_regime_moves) (use assms reconciled in simp_all)
  next
    case (Some previous)
    from reconcile_regime_cases [OF reconciled(3) assms(2) reconciled(1) Some] show ?thesis
    proof (elim disjE exE conjE)
      fix result assume "rebinds v c previous result c'"
      then obtain s c1 where h: "published v c s c1" "c' = c1\<lparr>rc_last_result := Some result\<rparr>"
        unfolding rebinds_def by blast
      have "unmoved c c1" using published_keeps(1,2) [OF h(1)] by (intro unmovedI [where ts = "[]"]) simp_all
      then show ?thesis by (simp add: unmoved_def successes_def h(2))
    qed (use succeeded_advanced [OF assms(2)] failed_once_unmoved in blast)+
  qed
next
  case (selected q)
  then show ?thesis by (simp add: unmoved_def successes_def)
qed

end
