(* ===== verification/Market_Samples.thy ===== *)
theory Market_Samples
  imports Ledger_Samples Regime_Evaluation
begin

text \<open>
  A concrete market at which the properties of the market and of the regime controller are applied:
  fourteen closed four hour candles at a constant close of 100, with two swings, and one open candle
  of every interval.
\<close>

section \<open>Candles\<close>

definition sample_kline :: "interval \<Rightarrow> int \<Rightarrow> rat \<Rightarrow> rat \<Rightarrow> bool \<Rightarrow> kline" where
  "sample_kline i t high low is_done =
     \<lparr>kl_symbol = supported_symbol, kl_interval = i, kl_open_time = utc t, kl_open = Fin 100,
      kl_high = Fin high, kl_low = Fin low, kl_close = Fin 100, kl_volume = Fin 1,
      kl_closed = is_done, kl_event_time = None\<rparr>"

definition sample_hours :: "int \<Rightarrow> kline" where
  "sample_hours n =
     sample_kline FOUR_HOURS (n * 14400000000) (if n = 3 \<or> n = 8 then 120 else 110)
       (if n = 3 \<or> n = 8 then 80 else 90) (n < 14)"

definition sample_market_klines :: "interval \<Rightarrow> kline list" where
  "sample_market_klines i =
     (if i = FOUR_HOURS then map sample_hours [0..14]
      else [sample_kline i (if i = ONE_DAY then 172800000000 else 201600000000) 110 90 False])"

lemma sample_kline_sel [simp]:
  "kl_symbol (sample_kline i t h l b) = supported_symbol" "kl_interval (sample_kline i t h l b) = i"
  "kl_open_time (sample_kline i t h l b) = utc t" "kl_high (sample_kline i t h l b) = Fin h"
  "kl_low (sample_kline i t h l b) = Fin l" "kl_close (sample_kline i t h l b) = Fin 100"
  "kl_closed (sample_kline i t h l b) = b" "kl_event_time (sample_kline i t h l b) = None"
  by (simp_all add: sample_kline_def)

lemma sample_kline_ok [simp]:
  assumes "100 \<le> h" "0 < l" "l \<le> 100"
  shows "kline_ok (sample_kline i t h l b)"
  using assms
  by (simp add: kline_ok_def kline_prices_ok_def sample_kline_def dmax_def)

lemma sample_hours_ok [simp]: "kline_ok (sample_hours n)"
  by (simp add: sample_hours_def)

lemma sample_klines_ok: "list_all kline_ok (sample_market_klines i)"
  by (simp add: sample_market_klines_def list_all_iff)

lemma upto_fifteen: "[0..14] = [0, 1, 2, 3, 4, 5, 6, 7, 8, 9, 10, 11, 12, 13, 14 :: int]"
  by code_simp

lemma sample_interval_ok: "interval_ok i 201600000000 (sample_market_klines i)"
  by (cases i)
    (simp_all add: interval_ok_def sample_market_klines_def upto_fifteen sample_hours_def kline_at_time_def)

section \<open>The snapshot\<close>

lemma normalized_utc [simp]: "normalize_utc (utc t) = Inr (utc t)"
  by (simp add: normalize_utc_eq_Inr)

definition sample_market :: market_state where
  "sample_market =
     \<lparr>ms_klines = sample_market_klines, ms_price = Some (Fin 100), ms_version = 1,
      ms_updated_at = Some (utc 201600000000), ms_ready = True, ms_sources = []\<rparr>"

lemma sample_prepared: "prepare_all (\<lambda>i. Some (sample_market_klines i)) = Inr sample_market_klines"
  by (rule prepare_all_same) (rule prepare_klines_again [OF sample_interval_ok])

lemma sample_current: "four_hour_current (sample_market_klines FOUR_HOURS) 201600000000"
  by (simp add: four_hour_current_def sample_market_klines_def upto_fifteen sample_hours_def)

lemma sample_updated:
  "update_market_state (\<lambda>i. Some (sample_market_klines i)) None (utc 201600000000) empty_market = Inr sample_market"
proof -
  have "list_all (kline_at_time (interval_duration i) 201600000000) (sample_market_klines i)" for i
    using sample_interval_ok [of i] by (simp add: interval_ok_def list_all_iff)
  moreover have "kl_close (last (sample_market_klines FOUR_HOURS)) = Fin 100"
    by (simp add: sample_market_klines_def upto_fifteen sample_hours_def)
  ultimately show ?thesis
    using sample_current
    by (simp add: update_market_state_def sample_prepared check_sources_def update_time_def
        source_times_def empty_market_def sample_market_def list_all_iff)
qed

lemma sample_market_run: "market_run sample_market 201600000000"
proof -
  have "market_run sample_market (instant (utc 201600000000))"
    by (rule market_run.updated [OF market_run.started [of 0] _ _ sample_updated])
      (use sample_klines_ok in auto)
  then show ?thesis by simp
qed

lemma sample_market_inv [simp]: "market_inv sample_market"
  using market_run_inv [OF sample_market_run] by blast

section \<open>The indicators\<close>

definition sample_closed :: "kline list" where
  "sample_closed = map sample_hours [0..13]"

lemma upto_fourteen: "[0..13] = [0, 1, 2, 3, 4, 5, 6, 7, 8, 9, 10, 11, 12, 13 :: int]"
  by code_simp

lemma replicates:
  "replicate 5 x = [x, x, x, x, x]" "replicate 6 x = [x, x, x, x, x, x]"
  "replicate 9 x = [x, x, x, x, x, x, x, x, x]"
  "replicate 14 x = [x, x, x, x, x, x, x, x, x, x, x, x, x, x]"
  by (simp_all add: numeral_eq_Suc)

lemma sample_closes: "map kl_close sample_closed = replicate 14 (Fin 100)"
  by (simp add: sample_closed_def upto_fourteen sample_hours_def replicates)

lemma add_hundreds: "add_at 34 (Fin (numeral a)) (Fin (numeral b)) = Inr (dec_of False (round_sig 34 (numeral (a + b))))"
  "add_at 34 dzero (Fin (numeral b)) = Inr (dec_of False (round_sig 34 (numeral b)))"
  by (simp_all add: add_at_def dzero_def)

lemma nine_hundreds: "sum_at 34 dzero (replicate 9 (Fin 100)) = Inr (Fin 900)"
  by (simp add: replicates add_hundreds dec_of_def)

lemma constant_step: "ema_step (Fin 100) (Fin 100) = Inr (Fin 100)"
  by (simp add: ema_step_def mul_at_def add_at_def dec_of_def)

lemma sample_series: "ema9_of_klines sample_closed = Inr (replicate 6 (Fin 100))"
proof -
  have "div_at 34 (Fin 900) (Fin 9) = Inr (Fin 100)" by (simp add: div_at_def dec_of_def)
  moreover have "length sample_closed = 14" using arg_cong [OF sample_closes, of length] by simp
  ultimately show ?thesis
    using replicates(1,2) [of "Fin 100"]
    by (simp add: ema9_of_klines_def minimum_closed_klines_def sample_closes calculate_ema9_series_def
        nine_hundreds list_all_iff min_def constant_step)
qed

lemma sample_slope:
  obtains s where "calculate_normalized_slope (replicate 6 (Fin 100)) (Fin 100) = Inr s" "is_finite s"
    "\<bar>dval s\<bar> \<le> 1 / 10 ^ 8"
proof -
  have "slope_exact (map dval (replicate 6 (Fin 100))) = 0"
    by (simp add: slope_exact_def upt_six replicates)
  then show ?thesis
    using normalized_slope_accurate [of "replicate 6 (Fin 100)" 100 "Fin 100"] that
    by (auto simp: calculate_normalized_slope_def last_values_def)
qed

lemma sample_swing:
  obtains w where "calculate_swing_structure sample_closed = Inr w" "sw_highs w = [Fin 120, Fin 120]"
    "sw_lows w = [Fin 80, Fin 80]"
proof -
  have "find_swing_values True (map kl_high sample_closed) = [Fin 120, Fin 120]"
    "find_swing_values False (map kl_low sample_closed) = [Fin 80, Fin 80]"
    by (simp_all add: sample_closed_def upto_fourteen sample_hours_def find_swing_values_def swing_at_def upt_rec)
  moreover have "percent_change (Fin r) (Fin r) = Inr dzero" if "r = 120 \<or> r = 80" for r
    using that by (auto simp: percent_change_def sub_at_def add_at_def div_at_def mul_at_def dec_of_def dzero_def)
  ultimately show ?thesis
    using that
    by (simp add: calculate_swing_structure_def Let_def make_swing_structure_def swing_structure_ok_def
        swing_change_threshold_def swing_change_floor_def dzero_def)
qed

section \<open>An evaluation\<close>

definition sample_view :: market_view where
  "sample_view =
     \<lparr>mv_object = 0, mv_captured = 1, mv_state = sample_market, mv_after = 1, mv_recorded = 1, mv_prepared = 1,
      mv_started = 1, mv_final = sample_market\<rparr>"

lemma sample_view_ok [simp]: "market_view_ok sample_view"
  by (simp add: market_view_ok_def sample_view_def)

lemma sample_four_hours: "four_hour_klines sample_view = sample_closed @ [sample_hours 14]"
proof -
  define ks where "ks = sample_market_klines FOUR_HOURS"
  have "continuous (interval_duration FOUR_HOURS) ks"
    using sample_interval_ok [of FOUR_HOURS] by (simp add: interval_ok_def ks_def)
  then have order: "sorted (map open_at ks)" "distinct (map open_at ks)"
    using continuous_sorted [of "interval_duration FOUR_HOURS" ks] by simp_all
  then have "dedup_by_open_time ks = ks"
    unfolding dedup_by_open_time_def by (subst fold_update_fresh) (simp_all add: comp_def)
  then have "four_hour_klines sample_view = ks"
    using order(1) by (simp add: four_hour_klines_def sample_view_def sample_market_def ks_def sort_key_id_if_sorted)
  then show ?thesis by (simp add: ks_def sample_market_klines_def sample_closed_def upto_fifteen upto_fourteen)
qed

lemma sample_closed_klines: "closed_of (sample_closed @ [sample_hours 14]) = sample_closed" "sample_closed \<noteq> []"
  "length sample_closed = 14" "\<forall>k\<in>set sample_closed. kl_closed k" "\<not> kl_closed (sample_hours 14)"
  by (simp_all add: closed_of_def sample_closed_def upto_fourteen sample_hours_def)

lemma sample_calculated:
  obtains s c where "calculate_4h_indicators sample_view (new_controller None) = (Inr s, c)"
    "recommendation_of s = TYPE_0"
proof -
  obtain slope where slope: "calculate_normalized_slope (replicate 6 (Fin 100)) (Fin 100) = Inr slope"
    "is_finite slope" "\<bar>dval slope\<bar> \<le> 1 / 10 ^ 8"
    by (rule sample_slope)
  obtain w where w: "calculate_swing_structure sample_closed = Inr w" by (rule sample_swing)
  have live: "calculate_live_ema9 (Fin 100) (Fin 100) = Inr (Fin 100)"
    using live_ema9_step [of "Fin 100" "Fin 100"] constant_step by simp
  have vals: "calculate_values sample_closed (Fin 100) = Inr (replicate 6 (Fin 100), slope, w, Fin 100)"
    by (simp add: calculate_values_def sample_series slope(1) w live)
  have only: "only_last_open (sample_closed @ [sample_hours 14])"
    using sample_closed_klines by (simp add: only_last_open_def filter_empty_conv)
  have price: "kl_close (sample_hours 14) = Fin 100" by (simp add: sample_hours_def)
  have closed: "last_candle_id sample_closed = Some (create_candle_id (last sample_closed))"
    using sample_closed_klines(2) by (simp add: last_candle_id_def)
  have parts: "mv_captured sample_view = 1" "mv_after sample_view = 1" "mv_object sample_view = 0"
    "ms_updated_at (mv_state sample_view) = Some (utc 201600000000)" "ms_ready (mv_state sample_view)"
    by (simp_all add: sample_view_def sample_market_def)
  have "\<exists>s c. calculate_4h_indicators sample_view (new_controller None) = (Inr s, c)"
    using slope(2) sample_closed_klines vals only closed price
    by (simp add: calculate_4h_indicators_def bind_market_snapshot_def new_controller_def operation_defs parts
        calculate_bound_def calculate_candles_def Let_def sample_four_hours guarded_values_def minimum_closed_klines_def
        publish_indicators_def make_indicator_snapshot_def update_indicator_snapshot_def list_all_iff)
  then obtain s c where s: "calculate_4h_indicators sample_view (new_controller None) = (Inr s, c)" by blast
  then have "published sample_view (new_controller None) s c" using calculate_cases [OF s] by blast
  then have "is_slope s = Some slope"
    using vals price sample_closed_klines by (auto simp: published_def Let_def sample_four_hours)
  moreover have "\<not> dval slope \<le> - 30 / 100" "\<not> dval slope < - 15 / 100" "dval slope \<le> 15 / 100"
    using slope(3) by (simp_all add: abs_le_iff)
  ultimately have "recommendation_of s = TYPE_0"
    by (simp add: recommendation_of_def recommended_type_def context_of_def Let_def)
  with s show ?thesis by (rule that)
qed

end
