(* ===== verification/Market_Properties.thy ===== *)
theory Market_Properties
  imports Market_Samples
begin

text \<open>
  The properties of the market snapshot, of the indicators and of the regime recommendation, each
  with its application to the concrete market of \<open>Market_Samples\<close>.
\<close>

section \<open>The market\<close>

text \<open>
  C26.  Whatever updates a session made, with valid candles and a clock that never goes back: the
  snapshot satisfies its invariant (all intervals without a gap, every candle closed or open as the
  time of the snapshot says, the price that of the newest four hour candle), an accepted update
  raises the version by one, and the time of the snapshot never goes back and is at most five
  seconds ahead of the clock.
\<close>

theorem market_session_is_valid:
  assumes "market_run st t" "t \<le> instant clock" "\<And>i ks. m i = Some ks \<Longrightarrow> list_all kline_ok ks"
    "update_market_state m sources clock st = Inr st'"
  shows "market_inv st \<and> market_inv st' \<and> ms_version st' = ms_version st + 1 \<and>
    (\<exists>p. get_current_eth_price st' = Inr p \<and> positive p) \<and>
    (\<exists>u'. ms_updated_at st' = Some u' \<and> instant clock \<le> instant u' \<and> instant u' \<le> instant clock + clock_skew \<and>
       (\<forall>u. ms_updated_at st = Some u \<longrightarrow> instant u \<le> instant u'))"
proof -
  have run: "market_run st' (instant clock)" by (rule market_run.updated [OF assms])
  then have inv: "market_inv st'" using market_run_inv by blast
  obtain c where u: "clock = utc c" "ms_ready st'" "ms_version st' = ms_version st + 1"
    "ms_updated_at st' = Some (utc (update_time c (ms_sources st') (ms_updated_at st)))"
    by (rule update_marketE [OF assms(4)]) blast
  have klines: "interval_ok FOUR_HOURS (update_time c (ms_sources st') (ms_updated_at st)) (ms_klines st' FOUR_HOURS)"
    "ms_price st' = Some (kl_close (last (ms_klines st' FOUR_HOURS)))"
    using inv u(2,4) by (auto simp: market_inv_def)
  then have "positive (kl_close (last (ms_klines st' FOUR_HOURS)))"
    using kline_prices(1) by (auto simp: interval_ok_def list_all_iff)
  then have "\<exists>p. get_current_eth_price st' = Inr p \<and> positive p"
    using u(2) klines(2) by (simp add: get_current_eth_price_def)
  moreover have "\<exists>u'. ms_updated_at st' = Some u' \<and> instant clock \<le> instant u' \<and>
      instant u' \<le> instant clock + clock_skew \<and> (\<forall>u. ms_updated_at st = Some u \<longrightarrow> instant u \<le> instant u')"
    using u(1,4) update_time_bounds(1,2) [of c] update_time_forward [OF assms(1,2,4) _ u(4)] by simp
  ultimately show ?thesis using market_run_inv [OF assms(1)] inv u(3) by blast
qed

theorem market_session_is_valid_witness:
  "market_inv empty_market \<and> market_inv sample_market \<and> ms_version sample_market = ms_version empty_market + 1"
  using market_session_is_valid [OF market_run.started [of 0] _ _ sample_updated] sample_klines_ok by auto

text \<open>
  An update with the very candles of the snapshot, at the time of the snapshot, is accepted and
  changes nothing but the version and the list of sources.
\<close>

theorem market_update_is_idempotent:
  assumes "market_inv st" "ms_ready st" "ms_updated_at st = Some u"
  shows "update_market_state (\<lambda>i. Some (ms_klines st i)) None u st =
    Inr (st\<lparr>ms_version := ms_version st + 1, ms_sources := []\<rparr>)"
proof -
  obtain now where now: "u = utc now" "\<And>i. interval_ok i now (ms_klines st i)"
    "four_hour_current (ms_klines st FOUR_HOURS) now"
    "ms_price st = Some (kl_close (last (ms_klines st FOUR_HOURS)))"
    using assms by (auto simp: market_inv_def)
  have "prepare_klines i (ms_klines st i) = Inr (ms_klines st i)" for i by (rule prepare_klines_again [OF now(2)])
  then have "prepare_all (\<lambda>i. Some (ms_klines st i)) = Inr (ms_klines st)" by (rule prepare_all_same)
  moreover have "update_time now [] (Some u) = now" by (simp add: update_time_def source_times_def now(1))
  moreover have "list_all (kline_at_time (interval_duration i) now) (ms_klines st i)" for i
    using now(2) [of i] by (simp add: interval_ok_def list_all_iff)
  ultimately show ?thesis
    using now(3,4) assms(2,3) by (simp add: update_market_state_def check_sources_def now(1) list_all_iff Let_def)
qed

theorem market_update_is_idempotent_witness:
  "update_market_state (\<lambda>i. Some (ms_klines sample_market i)) None (utc 201600000000) sample_market =
     Inr (sample_market\<lparr>ms_version := ms_version sample_market + 1, ms_sources := []\<rparr>)"
  by (rule market_update_is_idempotent) (simp, simp_all add: sample_market_def)

definition take_kline :: "kline \<Rightarrow> kline \<Rightarrow> kline" where
  "take_kline p c = (if classify_kline p c = Inr ACCEPT then c else p)"

text \<open>
  C27.  A stream that takes over only the candles it classifies as accepted never goes back: neither the
  time of the event nor the opening of the candle, and a closed candle is not changed any more.
\<close>

theorem accepted_candles_move_forward:
  assumes "kl_event_time p = Some e"
  shows "\<exists>e'. kl_event_time (foldl take_kline p cs) = Some e' \<and> instant e \<le> instant e' \<and>
    open_at p \<le> open_at (foldl take_kline p cs) \<and>
    (kl_closed p \<longrightarrow> open_at (foldl take_kline p cs) = open_at p \<longrightarrow> foldl take_kline p cs = p)"
  using assms
proof (induction cs arbitrary: p e)
  case (Cons c cs)
  show ?case
  proof (cases "classify_kline p c = Inr ACCEPT")
    case True
    then obtain ec where c: "kl_event_time c = Some ec" "instant e \<le> instant ec" "open_at p \<le> open_at c"
      "open_at c = open_at p \<Longrightarrow> \<not> kl_closed p"
      by (rule accepted_forward) (use Cons.prems in auto)
    from Cons.IH [OF c(1)] show ?thesis using c(2-4) True by (auto simp: take_kline_def)
  next
    case False
    with Cons show ?thesis by (simp add: take_kline_def)
  qed
qed simp

theorem accepted_candles_move_forward_witness:
  "open_at ((sample_hours 0)\<lparr>kl_event_time := Some (utc 0)\<rparr>) \<le>
     open_at (foldl take_kline ((sample_hours 0)\<lparr>kl_event_time := Some (utc 0)\<rparr>)
       [(sample_hours 1)\<lparr>kl_event_time := Some (utc 5)\<rparr>])"
  using accepted_candles_move_forward [of "(sample_hours 0)\<lparr>kl_event_time := Some (utc 0)\<rparr>" "utc 0"
      "[(sample_hours 1)\<lparr>kl_event_time := Some (utc 5)\<rparr>]"]
  by (auto simp: sample_hours_def)

section \<open>Indicators\<close>

text \<open>
  The average of closes over nine candles is defined for every history of at least nine positive
  closes, and each value is within (10 + 2k) / 10^33 of the exact one, relatively.
\<close>

theorem ema_series_is_accurate:
  assumes "9 \<le> length ps" "list_all positive ps" "length ps \<le> 10 ^ 30"
  shows "\<exists>es. calculate_ema9_series ps = Inr es \<and> length es = length ps - 8 \<and> list_all positive es \<and>
    (\<forall>k<length es. \<bar>dval (es ! k) - ema_exact (map dval ps) ! k\<bar> \<le>
       ema_exact (map dval ps) ! k * (of_nat (10 + 2 * k) / 10 ^ 33))"
proof -
  obtain es where es: "calculate_ema9_series ps = Inr es" "list_all positive es" "length es = length ps - 8"
    by (rule ema_series_near [OF assms(1,2)])
  have "k \<le> 10 ^ 30" if "k < length es" for k using that es(3) assms(3) by linarith
  then show ?thesis using es ema_series_error [OF assms(1,2) es(1)] by blast
qed

theorem ema_series_is_accurate_witness:
  "\<exists>es. calculate_ema9_series (replicate 9 (Fin 3)) = Inr es \<and> length es = 1"
  using ema_series_is_accurate [of "replicate 9 (Fin 3)"] by (auto simp: list_all_iff)

text \<open>
  C28.  The live slope of the averages is defined, and within 10^-8 of the exact least squares slope in
  percent of the price, as long as no average exceeds the price by a factor of 10^20.
\<close>

theorem live_slope_is_accurate:
  assumes "5 \<le> length es" "list_all positive es" "positive price" "ema_step price (last es) = Inr c"
    "\<forall>v\<in>set (last_values 5 es @ [c]). dval v \<le> 10 ^ 20 * dval price"
  shows "\<exists>s. calculate_candidate_ema9_slope es price = Inr s \<and> is_finite s \<and>
    \<bar>dval s - 100 * slope_exact (map dval (last_values 5 es @ [c])) / dval price\<bar> \<le> 1 / 10 ^ 8"
  by (rule candidate_slope_accurate [OF assms]) blast

theorem live_slope_is_accurate_witness:
  "\<exists>s. calculate_candidate_ema9_slope (replicate 5 (Fin 100)) (Fin 100) = Inr s \<and> \<bar>dval s\<bar> \<le> 1 / 10 ^ 8"
proof -
  have "slope_exact (map dval (last_values 5 (replicate 5 (Fin 100)) @ [Fin 100])) = 0"
    by (simp add: slope_exact_def upt_six replicates last_values_def)
  then show ?thesis
    using live_slope_is_accurate [of "replicate 5 (Fin 100)" "Fin 100" "Fin 100"] constant_step
    by (auto simp: list_all_iff last_values_def)
qed

section \<open>The regime state machine\<close>

text \<open>
  C29.  The state machine is total on the inputs of its protocol: a valid event without context starts an
  evaluation exactly in the rows of the table, and the result of an evaluation, with its matching
  input, ends in the state of the type that the reference function recommends; every other valid
  event is not consumed and leaves the state as it is.
\<close>

theorem regime_machine_is_total:
  assumes "regime_event_ok e"
    "case ctx of None \<Rightarrow> \<not> (s = FOUR_HOUR_CANDLE_EVALUATION \<and> rv_type e = EVALUATION_READY)
     | Some x \<Rightarrow> s = FOUR_HOUR_CANDLE_EVALUATION \<and> ready_pair e x"
  shows "\<exists>d s'. handle_regime_event s e ctx = Inr (d, s') \<and> sd_state_before d = s \<and> sd_state_after d = s' \<and>
    sd_consumed d = (s' \<noteq> s) \<and> (sd_consumed d \<longrightarrow> (\<exists>a. sd_actions d = [a] \<and> make_regime_action a = Inr a)) \<and>
    s' = (case ctx of
        Some x \<Rightarrow> recommended_state_for (recommended_type x)
      | None \<Rightarrow> if start_transition s (rv_type e) = None then s else FOUR_HOUR_CANDLE_EVALUATION)"
proof (cases ctx)
  case (Some x)
  then have s: "s = FOUR_HOUR_CANDLE_EVALUATION" "ready_pair e x" using assms(2) by simp_all
  obtain i where "handle_regime_event s e ctx = Inr (accepted_decision e s i (recommended_state_for (recommended_type x))
      (ApplyRecommendedRegime (rv_evaluation_id e) (recommended_type x) (rv_candle_id e)),
      recommended_state_for (recommended_type x))"
    unfolding Some s(1) by (rule handle_ready [OF s(2)])
  then show ?thesis
    using assms(1) recommended_state_not(2) by (auto simp: accepted_decision_def Some s(1) regime_event_ok_def)
next
  case None
  show ?thesis
  proof (cases "start_transition s (rv_type e)")
    case none: None
    have "\<not> (s = FOUR_HOUR_CANDLE_EVALUATION \<and> rv_type e = EVALUATION_READY)" using assms(2) None by simp
    from handle_ignored [OF assms(1) none this, of ctx] show ?thesis by (auto simp: None none)
  next
    case (Some ig)
    obtain i g where ig: "ig = (i, g)" by (cases ig)
    have "s \<noteq> FOUR_HOUR_CANDLE_EVALUATION"
      using Some by (cases "(s, rv_type e)" rule: start_transition.cases) auto
    then show ?thesis
      using handle_start [OF assms(1) Some [unfolded ig]] event_trigger [OF Some [unfolded ig]] assms(1)
      by (auto simp: accepted_decision_def None Some regime_event_ok_def)
  qed
qed

theorem regime_machine_is_total_witness:
  "\<exists>d. handle_regime_event REGIME_INITIAL
     \<lparr>rv_type = INITIAL_EVALUATION_REQUESTED, rv_id = ''e1'', rv_occurred_at = utc 0,
      rv_evaluation_id = ''v1'', rv_candle_id = None\<rparr> None = Inr (d, FOUR_HOUR_CANDLE_EVALUATION)"
  using regime_machine_is_total [of "\<lparr>rv_type = INITIAL_EVALUATION_REQUESTED, rv_id = ''e1'',
      rv_occurred_at = utc 0, rv_evaluation_id = ''v1'', rv_candle_id = None\<rparr>" REGIME_INITIAL None]
  by (auto simp: regime_event_ok_def nonblank_iff py_isspace_def has_offset_def utc_def)

text \<open>
  C30.  Exactly one of the seven guards of the registry holds for every valid input, and its row leads to
  the type of the reference function: the slope decides between side, weak and strong, and only a
  confirmed structure on the right side of the average makes a strong type.
\<close>

theorem one_guard_recommends:
  assumes "regime_context_ok x"
  shows "\<exists>t. filter (\<lambda>t. transition_matches t (Some x) = Inr True)
      (get_transition_candidates FOUR_HOUR_CANDLE_EVALUATION EVALUATION_READY) = [t] \<and>
    tn_type t = Some (recommended_type x) \<and> tn_next t = recommended_state_for (recommended_type x)"
proof -
  define p :: "regime_transition \<Rightarrow> bool" where "p t = (case tn_guard t of None \<Rightarrow> True | Some g \<Rightarrow> g x)" for t
  have "(transition_matches t (Some x) = Inr True) = p t" for t
    by (simp add: transition_matches_def p_def split: option.split)
  then have "filter (\<lambda>t. transition_matches t (Some x) = Inr True) ready_rows = filter p ready_rows" by simp
  moreover obtain i g where "filter p ready_rows = [ready_row i (recommended_state_for (recommended_type x)) g (recommended_type x)]"
    using ready_selected [OF assms] unfolding p_def by blast
  ultimately show ?thesis
    unfolding candidates_ready ready_rows_def [symmetric] by (simp add: ready_row_def)
qed

definition sample_context :: regime_context where
  "sample_context =
     \<lparr>rx_evaluation_id = ''v1'', rx_symbol = supported_symbol, rx_timeframe = FOUR_HOURS, rx_slope = Fin (30 / 100),
      rx_higher_high = True, rx_higher_low = False, rx_lower_high = False, rx_lower_low = False, rx_price = Fin 100,
      rx_live_ema9 = Fin 100, rx_version = 1, rx_candle_id = None, rx_calculated_at = utc 0\<rparr>"

theorem one_guard_recommends_witness:
  "\<exists>t. filter (\<lambda>t. transition_matches t (Some sample_context) = Inr True)
      (get_transition_candidates FOUR_HOUR_CANDLE_EVALUATION EVALUATION_READY) = [t] \<and> tn_type t = Some TYPE_1"
  using one_guard_recommends [of sample_context]
  by (auto simp: regime_context_ok_def sample_context_def nonblank_iff py_isspace_def has_offset_def utc_def
      supported_symbol_def recommended_type_def Let_def)

section \<open>The regime controller\<close>

text \<open>
  C31.  After every sequence of operations on views of real markets: the machine rests in the initial
  state or in the state of the recommendation, the last result agrees with both, every trace is well
  formed, and the candles with a successful trace are exactly the evaluated ones, each once.
\<close>

theorem regime_controller_is_consistent:
  assumes "regime_run c"
  shows "rc_stm c = (case rc_recommended c of None \<Rightarrow> REGIME_INITIAL | Some r \<Rightarrow> recommended_state_for r) \<and>
    (rc_last_result c = None) = (rc_recommended c = None) \<and>
    (\<forall>r. rc_last_result c = Some r \<longrightarrow>
       regime_result_ok r \<and> rc_recommended c = Some (rr_recommended r) \<and> rr_state r = rc_stm c) \<and>
    list_all evaluation_trace_ok (rc_traces c) \<and> distinct (successes c) \<and>
    set (successes c) = Some ` rc_processed c \<and> (rc_watermark c = None) = (rc_processed c = {})"
proof -
  have inv: "regime_inv c" by (rule regime_run_inv [OF assms])
  then have "recommendation_inv c" "traces_inv c" by (simp_all add: regime_inv_def)
  then show ?thesis
    using regime_inv_state [OF inv]
    by (cases "rc_last_result c") (auto simp: recommendation_inv_def traces_inv_def regime_result_ok_def)
qed

theorem regime_controller_is_consistent_witness:
  "\<exists>s c. calculate_4h_indicators sample_view (new_controller None) = (Inr s, c) \<and> rc_stm c = REGIME_INITIAL \<and>
     distinct (successes c)"
proof -
  obtain s c where s: "calculate_4h_indicators sample_view (new_controller None) = (Inr s, c)"
    by (rule sample_calculated)
  have run: "regime_run c"
    by (rule regime_run.stepped [OF regime_run.created regime_step.calculated [OF sample_view_ok s]])
  have "published sample_view (new_controller None) s c" using calculate_cases [OF s] by blast
  then have "rc_recommended c = None"
    using published_keeps(1) by (fastforce simp: same_recommendation_def new_controller_def)
  with s regime_controller_is_consistent [OF run] show ?thesis by auto
qed

text \<open>
  C32.  No candle is recommended twice and none after a newer one: an operation leaves the evaluated
  candles and the recommendation as they are, or adds one candle that was not evaluated before,
  whose opening lies after the watermark.
\<close>

theorem candles_are_evaluated_once:
  assumes "regime_run c" "regime_step c c'"
  shows "(rc_processed c' = rc_processed c \<and> rc_watermark c' = rc_watermark c \<and> rc_recommended c' = rc_recommended c) \<or>
    (\<exists>candle w r. candle \<notin> rc_processed c \<and> rc_processed c' = insert candle (rc_processed c) \<and>
       rc_watermark c' = Some w \<and> opt_all (\<lambda>u. instant u < instant w) (rc_watermark c) \<and>
       rc_recommended c' = Some r \<and> successes c' = successes c @ [Some candle])"
  using regime_step_moves [OF assms(2) regime_run_inv [OF assms(1)]]
  by (auto simp: unmoved_def advanced_def)

theorem candles_are_evaluated_once_witness:
  "\<exists>c. regime_step (new_controller None) c \<and>
     (rc_processed c = {} \<or> (\<exists>candle. rc_processed c = {candle}))"
proof -
  obtain s c where s: "calculate_4h_indicators sample_view (new_controller None) = (Inr s, c)"
    by (rule sample_calculated)
  have step: "regime_step (new_controller None) c" by (rule regime_step.calculated [OF sample_view_ok s])
  from candles_are_evaluated_once [OF regime_run.created step] step show ?thesis
    by (auto simp: new_controller_def)
qed

text \<open>
  An evaluation of a view of a real market never raises.  When it returns nothing, the machine, the
  recommendation and the evaluated candles are as before, and the last trace says why; at most one
  more trace, of a market that moved on, comes before it.
\<close>

theorem failed_evaluation_is_traced:
  assumes "regime_run c" "market_view_ok v" "market_view_ok w"
  shows "\<exists>r c'. evaluate_regime g v w c = (Inr r, c') \<and>
    (r = None \<longrightarrow> same_recommendation c c' \<and>
       (\<exists>ts t. rc_traces c' = rc_traces c @ ts @ [t] \<and> et_failure t \<noteq> None \<and> length ts \<le> 1 \<and>
          (\<forall>u\<in>set ts. et_failure u = Some STALE_MARKET_SNAPSHOT)))"
proof -
  obtain r c' where run: "evaluate_regime g v w c = (r, c')" by (cases "evaluate_regime g v w c")
  from evaluate_regime_cases [OF run regime_run_inv [OF assms(1)] assms(2,3)] show ?thesis
  proof (elim disjE exE conjE)
    assume "r = Inr None" "failed_once c c'"
    then show ?thesis using run by (fastforce simp: failed_once_def)
  next
    fix c1 assume h: "r = Inr None" "stale_attempt c c1" "failed_once c1 c'"
    then obtain ts t where t: "rc_traces c1 = rc_traces c @ ts" "length ts \<le> 1"
      "\<forall>u\<in>set ts. et_failure u = Some STALE_MARKET_SNAPSHOT" "rc_traces c' = rc_traces c1 @ [t]" "et_failure t \<noteq> None"
      unfolding stale_attempt_def failed_once_def by blast
    have "same_recommendation c c'"
      using h(2,3) same_recommendation_trans unfolding stale_attempt_def failed_once_def by blast
    then show ?thesis using run h(1) t by auto
  qed (use run in auto)
qed

definition empty_view :: market_view where
  "empty_view =
     \<lparr>mv_object = 0, mv_captured = 0, mv_state = empty_market, mv_after = 0, mv_recorded = 0, mv_prepared = 0,
      mv_started = 0, mv_final = empty_market\<rparr>"

lemma empty_view_ok: "market_view_ok empty_view"
  by (simp add: market_view_ok_def empty_view_def market_inv_empty) (simp add: empty_market_def)

theorem failed_evaluation_is_traced_witness:
  "\<exists>c'. evaluate_regime INITIAL_TRIGGER empty_view empty_view (new_controller None) = (Inr None, c') \<and>
     (\<exists>t. rc_traces c' = [t])"
proof -
  obtain r c' where h: "evaluate_regime INITIAL_TRIGGER empty_view empty_view (new_controller None) = (Inr r, c')"
    "r = None \<longrightarrow> (\<exists>ts t. rc_traces c' = rc_traces (new_controller None) @ ts @ [t] \<and> length ts \<le> 1 \<and>
       (\<forall>u\<in>set ts. et_failure u = Some STALE_MARKET_SNAPSHOT))"
    using failed_evaluation_is_traced [OF regime_run.created empty_view_ok empty_view_ok] by metis
  have "length (rc_traces c') = 1 \<and> r = None"
    using h(1)
    by (auto simp: evaluate_regime_def evaluation_attempt_def with_indicators_def calculate_4h_indicators_def
        bind_market_snapshot_def new_controller_def operation_defs empty_view_def empty_market_def raise_code_def
        evaluation_error_def finish_failed_def record_failure_def split: sum.splits)
  then show ?thesis using h(1) by (auto simp: length_Suc_conv)
qed

text \<open>
  C33.  A new candle is evaluated: when the indicators of a market that does not move meanwhile can be
  calculated and the candle is newer than every evaluated one, the evaluation ends with the type
  that the reference function recommends for these indicators, whatever was recommended before.
\<close>

theorem new_candle_is_recommended:
  assumes "regime_run c" "market_view_ok v" "market_view_ok w" "calculate_4h_indicators v c = (Inr s, c1)"
    "mv_prepared v = mv_captured v" "mv_started v = mv_captured v" "is_candle_id s \<notin> rc_processed c"
    "\<And>u t. rc_watermark c = Some u \<Longrightarrow> rc_indicator_open_time c1 = Some t \<Longrightarrow> instant u < instant t"
  shows "\<exists>result c'.
    evaluate_regime (if rc_recommended c = None then INITIAL_TRIGGER else FOUR_HOUR_CANDLE_CLOSE) v w c =
      (Inr (Some result), c') \<and>
    rr_recommended result = recommendation_of s \<and> rr_version result = mv_captured v \<and>
    rr_previous result = rc_recommended c \<and> rc_stm c' = recommended_state_for (recommendation_of s) \<and>
    rc_recommended c' = Some (recommendation_of s) \<and> rc_processed c' = insert (is_candle_id s) (rc_processed c)"
proof -
  define g where "g = (if rc_recommended c = None then INITIAL_TRIGGER else FOUR_HOUR_CANDLE_CLOSE)"
  have inv: "regime_inv c" by (rule regime_run_inv [OF assms(1)])
  have pub: "published v c s c1" using calculate_cases [OF assms(4)] by blast
  note keeps = published_keeps [OF pub]
  have inv1: "regime_inv c1" by (rule regime_inv_published [OF inv pub])
  have same: "rc_recommended c1 = rc_recommended c" "rc_processed c1 = rc_processed c" "rc_watermark c1 = rc_watermark c"
    using keeps(1) by (simp_all add: same_recommendation_def)
  have at_rest: "rc_stm c1 = (case rc_recommended c of None \<Rightarrow> REGIME_INITIAL | Some r \<Rightarrow> recommended_state_for r)"
    using regime_inv_state [OF inv1] same(1) by simp
  have version: "is_version s = mv_captured v" "rc_market c1 = Some (mv_object v)"
    using pub by (auto simp: published_def Let_def)
  have open_time: "rc_indicator_open_time c1 \<noteq> None" using pub by (auto simp: published_def Let_def)
  have acc: "accepts g v s c1"
    using keeps(4) assms(5-8) at_rest open_time
    by (cases "rc_recommended c"; cases "rc_watermark c") (auto simp: accepts_def g_def version same)
  obtain r2 c2 where body: "evaluate_prepared g v s c1 = (r2, c2)" by (cases "evaluate_prepared g v s c1")
  obtain result where result: "r2 = Inr (Some result)" "recommends c1 s result c2"
    using evaluate_prepared_cases [OF body inv1 indicator_snapshot_ok [OF keeps(3)]] acc by blast
  have "evaluate_regime g v w c = (Inr (Some result), c2)"
    using assms(4) body result(1)
    by (simp add: evaluate_regime_def evaluation_attempt_def with_indicators_def ocatch_def)
  then show ?thesis
    using result(2) version(1) same unfolding g_def [symmetric] recommends_def by auto
qed

theorem new_candle_is_recommended_witness:
  "\<exists>result c'. evaluate_regime INITIAL_TRIGGER sample_view sample_view (new_controller None) = (Inr (Some result), c') \<and>
     rr_recommended result = TYPE_0 \<and> rc_stm c' = TYPE_0_RECOMMENDED"
proof -
  obtain s c where s: "calculate_4h_indicators sample_view (new_controller None) = (Inr s, c)"
    "recommendation_of s = TYPE_0"
    by (rule sample_calculated)
  have "mv_prepared sample_view = mv_captured sample_view" "mv_started sample_view = mv_captured sample_view"
    by (simp_all add: sample_view_def)
  from new_candle_is_recommended [OF regime_run.created sample_view_ok sample_view_ok s(1) this] s(2)
  show ?thesis by (auto simp: new_controller_def)
qed

text \<open>
  Published indicators belong to one version of the market: it did not change during the
  calculation, the candles are closed ones and one open one, the price is that of the open candle,
  the named candle is the last closed one, and the averages are those of the closed candles.
\<close>

theorem indicators_belong_to_their_version:
  assumes "calculate_4h_indicators v c = (Inr s, c')"
  shows "mv_after v = mv_captured v \<and> is_version s = mv_captured v \<and> rc_indicator c' = Some s \<and>
    same_recommendation c c' \<and>
    (\<exists>ks k. closed_of (four_hour_klines v) = ks \<and> last (four_hour_klines v) = k \<and> \<not> kl_closed k \<and>
       length (four_hour_klines v) = Suc (length ks) \<and> 14 \<le> length ks \<and>
       is_price s = kl_close k \<and> is_candle_id s = create_candle_id (last ks) \<and>
       ema9_of_klines ks = Inr (is_series s) \<and>
       (\<exists>w. calculate_swing_structure ks = Inr w \<and> is_swing s = Some w) \<and>
       (\<exists>slope. calculate_normalized_slope (is_series s) (kl_close k) = Inr slope \<and> is_slope s = Some slope))"
proof -
  have pub: "published v c s c'" using calculate_cases [OF assms] by blast
  have only: "only_last_open (four_hour_klines v)" using pub by (simp add: published_def Let_def)
  have "length (four_hour_klines v) = Suc (length (closed_of (four_hour_klines v)))"
    using only sum_length_filter_compl [of kl_closed "four_hour_klines v"]
    by (simp add: only_last_open_def closed_of_def)
  then show ?thesis
    using published_keeps(1,4) [OF pub] pub only
    by (auto simp: published_def Let_def only_last_open_def calculate_values_def gbind_eq_Inr)
qed

theorem indicators_belong_to_their_version_witness:
  "\<exists>s c. calculate_4h_indicators sample_view (new_controller None) = (Inr s, c) \<and> is_version s = 1 \<and>
     is_price s = Fin 100 \<and> ema9_of_klines sample_closed = Inr (is_series s)"
proof -
  obtain s c where s: "calculate_4h_indicators sample_view (new_controller None) = (Inr s, c)"
    by (rule sample_calculated)
  from indicators_belong_to_their_version [OF s] have "is_version s = 1" "is_price s = Fin 100"
    "ema9_of_klines sample_closed = Inr (is_series s)"
    by (simp_all add: sample_four_hours sample_closed_klines(1)) (simp_all add: sample_view_def sample_hours_def)
  with s show ?thesis by blast
qed

definition remembers :: "market_view \<Rightarrow> evaluation_failure \<Rightarrow> regime_controller \<Rightarrow> bool" where
  "remembers v f c \<longleftrightarrow>
     rc_market c = Some (mv_object v) \<and> rc_failed_market c = Some (mv_object v) \<and>
     rc_failed_version c = Some (mv_captured v) \<and> rc_failed_recorded_at c \<noteq> None \<and>
     rc_failed_candle_id c = ef_candle_id f"

lemma raise_calculation_remembers:
  assumes "raise_calculation_failure v e candle recorded c = (Inl (Evaluation f), c')"
    "ef_code f \<noteq> STALE_MARKET_SNAPSHOT" "rc_market c = Some (mv_object v)"
  shows "remembers v f c'"
  using assms
  by (auto simp: raise_calculation_failure_def Let_def create_calculation_error_def evaluation_error_def
      remember_failed_calculation_def remembers_def split: if_splits)

lemma guarded_values_remembers:
  assumes "guarded_values v ks price candle recorded c = (Inl (Evaluation f), c')"
    "ef_code f \<noteq> STALE_MARKET_SNAPSHOT" "rc_market c = Some (mv_object v)"
  shows "remembers v f c'"
  using assms raise_calculation_remembers
  by (auto simp: guarded_values_def split: sum.splits regime_error.splits if_splits)

lemma calculate_candles_remembers:
  assumes "calculate_candles v recorded c = (Inl (Evaluation f), c')"
    "ef_code f \<noteq> STALE_MARKET_SNAPSHOT" "rc_market c = Some (mv_object v)"
  shows "remembers v f c'"
  using assms raise_calculation_remembers guarded_values_remembers publish_indicators_Evaluation
  by (auto simp: calculate_candles_def Let_def obind_def opure_def create_calculation_error_def evaluation_error_def
      split: if_splits option.splits sum.splits prod.splits)

text \<open>
  A version of the market that failed is not tried again: after a failed calculation every further
  one on the same version of the same market fails at once, with the candle of the first failure,
  and changes nothing.
\<close>

theorem failed_version_is_not_retried:
  assumes "regime_run c" "market_view_ok v" "calculate_4h_indicators v c = (Inl (Evaluation f), c')"
    "ms_ready (mv_state v)" "ef_code f \<notin> {STALE_MARKET_SNAPSHOT, MARKET_SNAPSHOT_MISMATCH}"
    "mv_object w = mv_object v" "mv_captured w = mv_captured v" "ms_ready (mv_state w)"
  shows "\<exists>f'. calculate_4h_indicators w c' = (Inl (Evaluation f'), c') \<and>
    ef_code f' = REPEATED_FAILED_MARKET_VERSION \<and> ef_version f' = Some (mv_captured v) \<and>
    ef_candle_id f' = ef_candle_id f"
proof -
  have mem: "failure_memory_ok c" using regime_run_inv [OF assms(1)] by (simp add: regime_inv_def)
  obtain t where t: "ms_updated_at (mv_state v) = Some t"
    using assms(2,4) by (auto simp: market_view_ok_def market_inv_def)
  have market: "rc_market c \<in> {None, Some (mv_object v)}"
    using assms(3,5)
    by (auto simp: calculate_4h_indicators_def bind_market_snapshot_def operation_defs raise_code_def
        evaluation_error_def split: if_splits option.splits)
  then have "bind_market_snapshot (mv_object v) c = (Inr (), bound_to v c)"
    by (auto simp: bind_market_snapshot_def bound_to_def)
  then have run: "calculate_bound v (bound_to v c) = (Inl (Evaluation f), c')"
    using assms(3,4) by (simp add: calculate_4h_indicators_def operation_defs)
  have "remembers v f c'"
  proof (cases "rc_failed_market c = Some (mv_object v) \<and> rc_failed_version c = Some (mv_captured v)")
    case True
    then show ?thesis
      using run mem
      by (auto simp: calculate_bound_def bound_to_def opure_def remembers_def create_calculation_error_def
          failure_memory_ok_def split: option.splits)
  next
    case False
    then have "calculate_candles v t (bound_to v c) = (Inl (Evaluation f), c')"
      using run t by (auto simp: calculate_bound_def bound_to_def)
    then show ?thesis by (rule calculate_candles_remembers) (use assms(5) in \<open>simp_all add: bound_to_def\<close>)
  qed
  then show ?thesis
    using assms(6-8)
    by (auto simp: remembers_def calculate_4h_indicators_def bind_market_snapshot_def operation_defs
        calculate_bound_def create_calculation_error_def evaluation_error_def)
qed

definition short_market :: market_state where
  "short_market =
     sample_market\<lparr>ms_klines := sample_market_klines(FOUR_HOURS := [sample_hours 14])\<rparr>"

definition short_view :: market_view where
  "short_view = sample_view\<lparr>mv_state := short_market, mv_final := short_market\<rparr>"

lemma short_view_ok: "market_view_ok short_view"
proof -
  have "interval_ok FOUR_HOURS 201600000000 [sample_hours 14]"
    by (simp add: interval_ok_def sample_hours_def kline_at_time_def)
  then have "interval_ok i 201600000000 (ms_klines short_market i)" for i
    using sample_interval_ok [of i] by (simp add: short_market_def sample_market_def)
  moreover have "four_hour_current [sample_hours 14] 201600000000"
    by (simp add: four_hour_current_def sample_hours_def)
  ultimately have "market_inv short_market"
    by (auto simp: market_inv_def short_market_def sample_market_def sample_hours_def)
  then show ?thesis by (simp add: market_view_ok_def short_view_def sample_view_def)
qed

theorem failed_version_is_not_retried_witness:
  "\<exists>f c f'. calculate_4h_indicators short_view (new_controller None) = (Inl (Evaluation f), c) \<and>
     ef_code f = INSUFFICIENT_CLOSED_KLINES \<and>
     calculate_4h_indicators short_view c = (Inl (Evaluation f'), c) \<and>
     ef_code f' = REPEATED_FAILED_MARKET_VERSION"
proof -
  have klines: "four_hour_klines short_view = [sample_hours 14]"
    by (simp add: four_hour_klines_def short_view_def short_market_def dedup_by_open_time_def)
  have ready: "ms_ready (mv_state short_view)" "ms_updated_at (mv_state short_view) = Some (utc 201600000000)"
    "mv_after short_view = mv_captured short_view" "mv_recorded short_view = mv_captured short_view"
    by (simp_all add: short_view_def sample_view_def short_market_def sample_market_def)
  have "only_last_open [sample_hours 14]" "closed_of [sample_hours 14] = []"
    by (simp_all add: only_last_open_def closed_of_def sample_hours_def)
  then obtain f c where f: "calculate_4h_indicators short_view (new_controller None) = (Inl (Evaluation f), c)"
    "ef_code f = INSUFFICIENT_CLOSED_KLINES"
    by (simp add: calculate_4h_indicators_def bind_market_snapshot_def new_controller_def operation_defs ready
        calculate_bound_def calculate_candles_def Let_def klines minimum_closed_klines_def
        raise_calculation_failure_def create_calculation_error_def evaluation_error_def)
  then show ?thesis
    using failed_version_is_not_retried [OF regime_run.created short_view_ok f(1) ready(1) _ refl refl ready(1)]
    by auto
qed

end
