(* ===== verification/Decimal_Sqrt.thy ===== *)
theory Decimal_Sqrt
  imports Decimal_Arith
begin

text \<open>
  The square root of \<open>decimal.Decimal\<close>: the exact root rounded half even to the digits of the
  context.  It is computed from integer square roots.
\<close>

section \<open>Integer square roots\<close>

fun isqrt :: "nat \<Rightarrow> nat" where
  "isqrt n =
     (if n = 0 then 0
      else let r = 2 * isqrt (n div 4) in if (r + 1) * (r + 1) \<le> n then r + 1 else r)"

declare isqrt.simps [simp del]

lemma isqrt_bounds: "isqrt n * isqrt n \<le> n \<and> n < (isqrt n + 1) * (isqrt n + 1)"
proof (induction n rule: isqrt.induct)
  case (1 n)
  show ?case
  proof (cases "n = 0")
    case True
    then show ?thesis by (simp add: isqrt.simps)
  next
    case False
    define s where "s = isqrt (n div 4)"
    have IH: "s * s \<le> n div 4" "n div 4 < (s + 1) * (s + 1)" using 1 False by (simp_all add: s_def)
    have low: "(2 * s) * (2 * s) \<le> n"
    proof -
      have "(2 * s) * (2 * s) = 4 * (s * s)" by simp
      also have "\<dots> \<le> 4 * (n div 4)" using IH(1) by simp
      also have "\<dots> \<le> n" by simp
      finally show ?thesis .
    qed
    have high: "n < (2 * s + 2) * (2 * s + 2)"
    proof -
      have "n < 4 * (n div 4 + 1)" by simp
      also have "\<dots> \<le> 4 * ((s + 1) * (s + 1))" using IH(2) by simp
      also have "\<dots> = (2 * s + 2) * (2 * s + 2)" by simp
      finally show ?thesis .
    qed
    have "isqrt n = (if (2 * s + 1) * (2 * s + 1) \<le> n then 2 * s + 1 else 2 * s)"
      using False by (subst isqrt.simps) (simp add: s_def Let_def)
    then show ?thesis using low high by auto
  qed
qed

section \<open>Decimal square roots\<close>

text \<open>The exponent of the last digit of the root, for a positive number.\<close>

definition sqrt_exponent :: "nat \<Rightarrow> rat \<Rightarrow> int" where
  "sqrt_exponent p r = (dec_exponent r + 27) div 2 - int p + 1"

definition sqrt_digits :: "nat \<Rightarrow> rat \<Rightarrow> nat" where
  "sqrt_digits p r =
     (let q = r / (pow10 (sqrt_exponent p r) * pow10 (sqrt_exponent p r)); s = isqrt (nat \<lfloor>q\<rfloor>);
          middle = (of_nat s + 1 / 2) * (of_nat s + 1 / 2) in
      if q < middle then s else if middle < q then s + 1 else if even s then s else s + 1)"

definition sqrt_round :: "nat \<Rightarrow> rat \<Rightarrow> rat" where
  "sqrt_round p r = of_nat (sqrt_digits p r) * pow10 (sqrt_exponent p r)"

fun sqrt_at :: "nat \<Rightarrow> decimal \<Rightarrow> decimal res" where
  "sqrt_at p (Fin r) =
     (if r < 0 then Inl InvalidOperation else Inr (Fin (if r = 0 then 0 else sqrt_round p r)))"
| "sqrt_at p NegZero = Inr NegZero"
| "sqrt_at p PosInf = Inr PosInf"
| "sqrt_at p NegInf = Inl InvalidOperation"
| "sqrt_at p NaN = Inr NaN"

text \<open>The scaled number has enough digits.\<close>

lemma sqrt_scale:
  assumes "0 < r" "0 < p"
  shows "10 ^ (2 * (p - 1)) \<le> r / (pow10 (sqrt_exponent p r) * pow10 (sqrt_exponent p r))"
proof -
  define a where "a = dec_exponent r + 27"
  define e where "e = sqrt_exponent p r"
  define k where "k = nat (a - 2 * (a div 2))"
  have "10 ^ 27 \<le> r / pow10 (dec_exponent r)" using dec_exponent_bounds [of r] assms(1) by simp
  then have r: "pow10 a \<le> r"
    unfolding a_def pow10_add using pow10_nat [of 27] by (simp add: field_simps)
  have "0 \<le> a - 2 * (a div 2)" by simp
  then have "a - (e + e) = int (2 * (p - 1) + k)"
    using assms(2) by (simp add: e_def sqrt_exponent_def a_def [symmetric] k_def of_nat_diff)
  then have "pow10 a / (pow10 e * pow10 e) = 10 ^ (2 * (p - 1) + k)"
    unfolding pow10_add [symmetric] pow10_diff [symmetric] by (simp only: pow10_nat)
  moreover have "(10 :: rat) ^ (2 * (p - 1)) \<le> 10 ^ (2 * (p - 1) + k)" by (rule power_increasing) simp_all
  moreover have "pow10 a / (pow10 e * pow10 e) \<le> r / (pow10 e * pow10 e)"
    using r by (rule divide_right_mono) simp
  ultimately show ?thesis unfolding e_def [symmetric] by linarith
qed

text \<open>The digits are within one half of the exact root, and have the full precision.\<close>

lemma sqrt_digits_close:
  fixes p r
  assumes "0 < r" "0 < p"
  defines "q \<equiv> r / (pow10 (sqrt_exponent p r) * pow10 (sqrt_exponent p r))"
  shows "\<bar>of_nat (sqrt_digits p r) * of_nat (sqrt_digits p r) + 1 / 4 - q\<bar> \<le> (of_nat (sqrt_digits p r) :: rat)"
    "10 ^ (p - 1) \<le> sqrt_digits p r"
proof -
  define s where "s = isqrt (nat \<lfloor>q\<rfloor>)"
  define d where "d = sqrt_digits p r"
  have q: "10 ^ (2 * (p - 1)) \<le> q" unfolding q_def by (rule sqrt_scale [OF assms(1,2)])
  have "s * s \<le> nat \<lfloor>q\<rfloor>" "nat \<lfloor>q\<rfloor> < (s + 1) * (s + 1)"
    using isqrt_bounds [of "nat \<lfloor>q\<rfloor>"] by (simp_all add: s_def)
  moreover have "(0 :: rat) < 10 ^ (2 * (p - 1))" by simp
  then have "0 < q" using q by linarith
  ultimately have "int (s * s) \<le> \<lfloor>q\<rfloor>" "\<lfloor>q\<rfloor> < int ((s + 1) * (s + 1))" by (simp_all add: nat_less_iff le_nat_iff)
  then have "of_int (int (s * s)) \<le> q" "q < of_int (int ((s + 1) * (s + 1)))"
    by (simp_all only: le_floor_iff floor_less_iff)
  then have b: "of_nat s * of_nat s \<le> q" "q < (of_nat s + 1) * (of_nat s + 1)" by (simp_all add: algebra_simps)
  have "10 ^ (2 * (p - 1)) < (of_nat s + 1) * (of_nat s + 1 :: rat)" using q b(2) by linarith
  then have "((10 ^ (p - 1)) ^ 2 :: rat) < (of_nat (s + 1)) ^ 2"
    by (simp add: power_mult [symmetric] power2_eq_square mult.commute power_even_eq add.commute)
  then have "(10 ^ (p - 1) :: rat) < of_nat (s + 1)" by (rule power2_less_imp_less) simp
  then have "(of_nat (10 ^ (p - 1)) :: rat) < of_nat (s + 1)" by simp
  then have large: "10 ^ (p - 1) \<le> s" by (simp only: of_nat_less_iff)
  have d: "d = s \<and> q \<le> (of_nat s + 1 / 2) * (of_nat s + 1 / 2) \<or>
      d = s + 1 \<and> (of_nat s + 1 / 2) * (of_nat s + 1 / 2) \<le> q"
    unfolding d_def sqrt_digits_def q_def [symmetric] s_def [symmetric] Let_def by auto
  then show "10 ^ (p - 1) \<le> sqrt_digits p r" using large by (auto simp: d_def)
  have "(1 :: nat) \<le> 10 ^ (p - 1)" by simp
  then have "1 \<le> s" using large by linarith
  then have one: "(1 :: rat) \<le> of_nat s" by simp
  from d have "\<bar>of_nat d * of_nat d + 1 / 4 - q\<bar> \<le> (of_nat d :: rat)"
  proof
    assume h: "d = s \<and> q \<le> (of_nat s + 1 / 2) * (of_nat s + 1 / 2)"
    then have "q \<le> of_nat d * of_nat d + of_nat d + 1 / 4" by (simp add: algebra_simps)
    moreover have "of_nat d * of_nat d \<le> q" using h b(1) by simp
    ultimately show ?thesis using one h by (simp add: abs_le_iff)
  next
    assume h: "d = s + 1 \<and> (of_nat s + 1 / 2) * (of_nat s + 1 / 2) \<le> q"
    then have s: "(of_nat s :: rat) = of_nat d - 1" by simp
    have "(of_nat s + 1 / 2) * (of_nat s + 1 / 2) \<le> q" using h by blast
    then have "of_nat d * of_nat d - of_nat d + 1 / 4 \<le> q" unfolding s by (simp add: algebra_simps)
    moreover have "q < of_nat d * of_nat d" using b(2) unfolding s by (simp add: algebra_simps)
    ultimately show ?thesis using one s by (simp add: abs_le_iff)
  qed
  then show "\<bar>of_nat (sqrt_digits p r) * of_nat (sqrt_digits p r) + 1 / 4 - q\<bar> \<le> (of_nat (sqrt_digits p r) :: rat)"
    by (simp only: d_def)
qed

lemma square_grows:
  fixes d dd :: rat
  assumes "10 * d \<le> dd" "10 \<le> d"
  shows "dd + d / 4 \<le> 2 * (dd - d + 1 / 4)"
  using assms by (simp add: field_simps)

text \<open>The square of the root is relatively close to the number.\<close>

lemma sqrt_round_error:
  assumes "0 < r" "2 \<le> p"
  shows "0 < sqrt_round p r" "\<bar>sqrt_round p r * sqrt_round p r - r\<bar> \<le> r * (2 / 10 ^ (p - 1))"
proof -
  define e where "e = pow10 (sqrt_exponent p r) * pow10 (sqrt_exponent p r)"
  define d where "d = (of_nat (sqrt_digits p r) :: rat)"
  define q where "q = r / e"
  define N where "N = (10 ^ (p - 1) :: rat)"
  have e: "0 < e" by (simp add: e_def)
  have p: "0 < p" using assms(2) by simp
  have close: "\<bar>d * d + 1 / 4 - q\<bar> \<le> d"
    using sqrt_digits_close(1) [OF assms(1) p] by (simp add: d_def q_def e_def)
  have "(of_nat (10 ^ (p - 1)) :: rat) \<le> d" unfolding d_def using sqrt_digits_close(2) [OF assms(1) p] by (simp only: of_nat_le_iff)
  then have large: "N \<le> d" by (simp add: N_def)
  have "(10 :: rat) ^ 1 \<le> N" unfolding N_def using assms(2) by (intro power_increasing) simp_all
  then have N: "10 \<le> N" by simp
  show "0 < sqrt_round p r" using large N by (simp add: sqrt_round_def d_def [symmetric])
  have low: "d * d - d + 1 / 4 \<le> q" using close by (simp add: abs_le_iff)
  have "N * (d + 1 / 4) \<le> d * (d + 1 / 4)" using large N by (intro mult_right_mono) simp_all
  moreover have "10 * d \<le> d * d" using large N by (intro mult_right_mono) linarith+
  then have "d * d + d / 4 \<le> 2 * (d * d - d + 1 / 4)"
    using large N square_grows [of d "d * d"] by linarith
  moreover have "d * (d + 1 / 4) = d * d + d / 4" by (simp add: algebra_simps)
  moreover have "2 * (d * d - d + 1 / 4) \<le> 2 * q" using low by simp
  ultimately have "N * (d + 1 / 4) \<le> 2 * q" by linarith
  then have bound: "d + 1 / 4 \<le> q * (2 / N)" using N by (simp add: field_simps)
  have "\<bar>d * d - q\<bar> \<le> d + 1 / 4" using close unfolding abs_le_iff by linarith
  then have "\<bar>d * d - q\<bar> * e \<le> q * (2 / N) * e" using bound e by (intro mult_right_mono) simp_all
  moreover have "\<bar>d * d - q\<bar> * e = \<bar>(d * d - q) * e\<bar>" using e by (simp add: abs_mult)
  moreover have "(d * d - q) * e = sqrt_round p r * sqrt_round p r - r"
    using e by (simp add: sqrt_round_def d_def [symmetric] q_def e_def algebra_simps)
  moreover have "q * (2 / N) * e = r * (2 / N)" using e by (simp add: q_def)
  ultimately have "\<bar>sqrt_round p r * sqrt_round p r - r\<bar> \<le> r * (2 / N)" by argo
  then show "\<bar>sqrt_round p r * sqrt_round p r - r\<bar> \<le> r * (2 / 10 ^ (p - 1))" by (simp only: N_def)
qed

lemma sqrt_at_value:
  assumes "is_finite d" "0 \<le> dval d"
  obtains s where "sqrt_at 34 d = Inr s" "is_finite s" "0 \<le> dval s" "0 < dval s \<longleftrightarrow> 0 < dval d"
    "\<bar>dval s * dval s - dval d\<bar> \<le> dval d * (2 / 10 ^ 33)"
proof (cases d)
  case (Fin r)
  show ?thesis
  proof (cases "r = 0")
    case True
    then show ?thesis using that [of "Fin 0"] by (simp add: Fin)
  next
    case False
    then have "0 < r" using assms(2) Fin by simp
    then show ?thesis
      using that [of "Fin (sqrt_round 34 r)"] sqrt_round_error [of r 34] Fin by simp
  qed
qed (use assms that [of NegZero] in auto)

end
