(* ===== verification/Band_Indicators.thy ===== *)
theory Band_Indicators
  imports Decimal_Sqrt Market_State Ema_Slope Regime_Indicators
begin

text \<open>
  The pure indicators of \<open>application/market_evaluation_builder.py\<close>: Bollinger bands of twenty
  closes, the position of a price in them (\<open>%B\<close>), the commodity channel index, and the \<open>%B\<close> at
  the moment of an execution.  Everything is computed at 34 digits.
\<close>

section \<open>Bands\<close>

definition bollinger_period :: nat where
  "bollinger_period = 20"

text \<open>The square of a difference is the correctly rounded one.\<close>

definition squared_difference :: "decimal \<Rightarrow> decimal \<Rightarrow> decimal res" where
  "squared_difference m x = ebind (sub_at 34 x m) (\<lambda>d. mul_at 34 d d)"

record bands =
  bb_middle :: decimal
  bb_lower :: decimal
  bb_upper :: decimal
  bb_width :: decimal

definition calculate_bollinger_bands :: "decimal list \<Rightarrow> bands res" where
  "calculate_bollinger_bands ps =
     ebind (require (length ps = bollinger_period) MarketEvaluationCalculationError) (\<lambda>_.
     ebind (sum_at 34 dzero ps) (\<lambda>total.
     ebind (div_at 34 total (Fin 20)) (\<lambda>middle.
     ebind (map_res (squared_difference middle) ps) (\<lambda>squares.
     ebind (sum_at 34 dzero squares) (\<lambda>square_total.
     ebind (div_at 34 square_total (Fin 20)) (\<lambda>variance.
     ebind (sqrt_at 34 variance) (\<lambda>deviation.
     ebind (mul_at 34 deviation (Fin 2)) (\<lambda>band_offset.
     ebind (sub_at 34 middle band_offset) (\<lambda>lower.
     ebind (add_at 34 middle band_offset) (\<lambda>upper.
     ebind (dle_checked middle dzero) (\<lambda>no_middle.
     ebind (if no_middle then Inr True else dle_checked upper lower) (\<lambda>refused.
     ebind (require (\<not> refused) MarketEvaluationCalculationError) (\<lambda>_.
     ebind (sub_at 34 upper lower) (\<lambda>width.
     ebind (div_at 34 width middle) (\<lambda>relative.
     Inr \<lparr>bb_middle = middle, bb_lower = lower, bb_upper = upper, bb_width = relative\<rparr>)))))))))))))))"

definition calculate_pct_b :: "decimal \<Rightarrow> decimal \<Rightarrow> decimal \<Rightarrow> decimal res" where
  "calculate_pct_b price lower upper =
     ebind (sub_at 34 upper lower) (\<lambda>width.
     ebind (dle_checked width dzero) (\<lambda>refused.
     ebind (require (\<not> refused) MarketEvaluationCalculationError) (\<lambda>_.
     ebind (sub_at 34 price lower) (\<lambda>d. div_at 34 d width))))"

section \<open>The channel index\<close>

definition absolute_difference :: "decimal \<Rightarrow> decimal \<Rightarrow> decimal res" where
  "absolute_difference m x = ebind (sub_at 34 x m) (\<lambda>d. Inr (abs_at 34 d))"

definition calculate_cci :: "decimal list \<Rightarrow> decimal res" where
  "calculate_cci ts =
     ebind (require (length ts = 20) MarketEvaluationCalculationError) (\<lambda>_.
     ebind (sum_at 34 dzero ts) (\<lambda>total.
     ebind (div_at 34 total (Fin 20)) (\<lambda>average.
     ebind (map_res (absolute_difference average) ts) (\<lambda>ds.
     ebind (sum_at 34 dzero ds) (\<lambda>deviation_total.
     ebind (div_at 34 deviation_total (Fin 20)) (\<lambda>deviation.
     if deq deviation dzero then Inr dzero
     else
       ebind (sub_at 34 (last ts) average) (\<lambda>d.
       ebind (mul_at 34 (Fin (15 / 1000)) deviation) (\<lambda>scale. div_at 34 d scale))))))))"

definition calculate_typical_price :: "decimal \<Rightarrow> decimal \<Rightarrow> decimal \<Rightarrow> decimal res" where
  "calculate_typical_price high low price =
     ebind (add_at 34 high low) (\<lambda>a. ebind (add_at 34 a price) (\<lambda>b. div_at 34 b (Fin 3)))"

section \<open>The position of an execution\<close>

text \<open>The candle of thirty minutes that contains an instant, and the nineteen closed ones before it.\<close>

definition half_hour_open :: "int \<Rightarrow> int" where
  "half_hour_open t = t - t mod 1800000000"

definition candles_before :: "int \<Rightarrow> kline list \<Rightarrow> kline list" where
  "candles_before t ks = last_values 19 (filter (\<lambda>k. kl_closed k \<and> open_at k < t) ks)"

definition consecutive_before :: "int \<Rightarrow> kline list \<Rightarrow> bool" where
  "consecutive_before t ks \<longleftrightarrow>
     length ks = 19 \<and> list_all (\<lambda>(i, k). open_at k = t - 1800000000 * (19 - int i)) (zip [0..<19] ks)"

definition calculate_execution_pct_b :: "market_state \<Rightarrow> moment \<Rightarrow> decimal \<Rightarrow> decimal option res" where
  "calculate_execution_pct_b m executed_at price =
     (if \<not> ms_ready m \<or> offset executed_at = None then Inr None
      else
        let candle_open = half_hour_open (instant executed_at);
            previous = candles_before candle_open (ms_klines m THIRTY_MINUTES) in
        if \<not> consecutive_before candle_open previous then Inr None
        else (case calculate_bollinger_bands (map kl_close previous @ [price]) of
            Inl e \<Rightarrow> if e = MarketEvaluationCalculationError then Inr None else Inl e
          | Inr b \<Rightarrow> ebind (calculate_pct_b price (bb_lower b) (bb_upper b)) (\<lambda>x. Inr (Some x))))"

section \<open>Values of the bands\<close>

text \<open>
  The bands of positive prices: the middle is positive, the lower band is below it and the upper
  above, or the width is zero and the calculation is refused; nothing else is raised.
\<close>

definition bands_ok :: "bands \<Rightarrow> bool" where
  "bands_ok b \<longleftrightarrow>
     positive (bb_middle b) \<and> is_finite (bb_lower b) \<and> is_finite (bb_upper b) \<and> is_finite (bb_width b) \<and>
     round_sig 34 (dval (bb_lower b)) = dval (bb_lower b) \<and> round_sig 34 (dval (bb_upper b)) = dval (bb_upper b) \<and>
     dval (bb_lower b) \<le> dval (bb_middle b) \<and> dval (bb_middle b) \<le> dval (bb_upper b) \<and>
     dval (bb_lower b) < dval (bb_upper b) \<and> 0 < dval (bb_width b)"

lemma squared_difference_value:
  assumes "is_finite m" "is_finite x"
  shows "\<exists>y. squared_difference m x = Inr y \<and> is_finite y \<and> 0 \<le> dval y"
proof -
  obtain d where d: "sub_at 34 x m = Inr d" "is_finite d" using sub_at_finite [OF assms(2,1)] by simp
  have "0 \<le> round_sig 34 (dval d * dval d)" by (rule r34.nonneg) simp
  then show ?thesis using d by (simp add: squared_difference_def mul_at_finite)
qed

lemma map_res_values:
  assumes "\<forall>x\<in>set xs. \<exists>y. f x = Inr y \<and> P y"
  obtains ys where "map_res f xs = Inr ys" "\<forall>y\<in>set ys. P y" "length ys = length xs"
proof -
  have "\<exists>ys. map_res f xs = Inr ys \<and> (\<forall>y\<in>set ys. P y) \<and> length ys = length xs"
    using assms
  proof (induction xs)
    case (Cons x xs)
    then obtain y ys where "f x = Inr y" "P y" "map_res f xs = Inr ys" "\<forall>y\<in>set ys. P y" "length ys = length xs"
      by auto
    then show ?case by (intro exI [of _ "y # ys"]) simp
  qed simp
  with that show ?thesis by blast
qed

lemma sum_pos_value:
  assumes "\<forall>x\<in>set xs. is_finite x \<and> 0 < dval x" "xs \<noteq> []"
  obtains z where "sum_at 34 dzero xs = Inr z" "is_finite z" "0 < dval z"
proof -
  obtain z where z: "sum_at 34 dzero xs = Inr z" "is_finite z" "dval z = sum_sig 34 0 (map dval xs)"
    using sum_at_finite [of dzero xs] assms(1) by auto
  have "0 < sum_sig 34 0 (map dval xs)"
    unfolding sum_sig_def by (rule r34.foldl_pos) (use assms in auto)
  with z that show ?thesis by simp
qed

lemma sum_nonneg_value:
  assumes "\<forall>x\<in>set xs. is_finite x \<and> 0 \<le> dval x"
  obtains z where "sum_at 34 dzero xs = Inr z" "is_finite z" "0 \<le> dval z"
proof -
  obtain z where z: "sum_at 34 dzero xs = Inr z" "is_finite z" "dval z = sum_sig 34 0 (map dval xs)"
    using sum_at_finite [of dzero xs] assms(1) by auto
  have "0 \<le> sum_sig 34 0 (map dval xs)"
    unfolding sum_sig_def by (rule r34.foldl_grow) (use assms in auto)
  with z that show ?thesis by simp
qed

lemma div_positive:
  assumes "is_finite x" "is_finite y" "0 < dval y"
  obtains z where "div_at 34 x y = Inr z" "is_finite z" "0 < dval z \<longleftrightarrow> 0 < dval x" "0 \<le> dval z \<longleftrightarrow> 0 \<le> dval x"
    "dval z = round_sig 34 (dval x / dval y)"
proof -
  have "0 < round_sig 34 (dval x / dval y) \<longleftrightarrow> 0 < dval x"
    using assms(3) by (simp add: r34.pos_iff zero_less_divide_iff)
  moreover have "round_sig 34 (dval x / dval y) < 0 \<longleftrightarrow> dval x < 0"
    using r34.pos_iff [of "- (dval x / dval y)"] assms(3) by (simp add: r34.odd divide_less_0_iff)
  ultimately show ?thesis using that assms by (simp add: div_at_finite not_less [symmetric])
qed

lemma div_pos_value:
  "is_finite x \<Longrightarrow> is_finite y \<Longrightarrow> 0 < dval x \<Longrightarrow> 0 < dval y \<Longrightarrow>
   \<exists>z. div_at 34 x y = Inr z \<and> is_finite z \<and> 0 < dval z"
  by (metis div_positive)

lemma div_nonneg_value:
  "is_finite x \<Longrightarrow> is_finite y \<Longrightarrow> 0 \<le> dval x \<Longrightarrow> 0 < dval y \<Longrightarrow>
   \<exists>z. div_at 34 x y = Inr z \<and> is_finite z \<and> 0 \<le> dval z"
  by (metis div_positive)

lemma squares_value:
  assumes "is_finite m" "\<forall>x\<in>set xs. is_finite x"
  obtains sq where "map_res (squared_difference m) xs = Inr sq" "\<forall>y\<in>set sq. is_finite y \<and> 0 \<le> dval y"
  using map_res_values [of xs "squared_difference m" "\<lambda>y. is_finite y \<and> 0 \<le> dval y"]
    squared_difference_value [OF assms(1)] assms(2) by metis

lemma dle_checked_finite [finite_arith]:
  "is_finite x \<Longrightarrow> is_finite y \<Longrightarrow> dle_checked x y = Inr (dval x \<le> dval y)"
  by (cases x; cases y) (simp_all add: dle_checked_def)

text \<open>The last steps of the bands, from the middle and the standard deviation.\<close>

lemma bands_from_deviation:
  assumes m: "is_finite m" "0 < dval m" "round_sig 34 (dval m) = dval m" and d: "is_finite d" "0 \<le> dval d"
  shows "\<exists>o' l u. mul_at 34 d (Fin 2) = Inr o' \<and> sub_at 34 m o' = Inr l \<and> add_at 34 m o' = Inr u \<and>
     is_finite l \<and> is_finite u \<and> round_sig 34 (dval l) = dval l \<and> round_sig 34 (dval u) = dval u \<and>
     dval l \<le> dval m \<and> dval m \<le> dval u"
proof -
  obtain b where b: "mul_at 34 d (Fin 2) = Inr b" "is_finite b" "dval b = round_sig 34 (dval d * 2)"
    using d by (simp add: mul_at_finite)
  have "0 \<le> dval b" unfolding b(3) by (rule r34.nonneg) (use d in simp)
  then have "round_sig 34 (dval m - dval b) \<le> dval m" "dval m \<le> round_sig 34 (dval m + dval b)"
    using m(3) by (auto intro: r34.shrink r34.grow)
  then show ?thesis using m b by (simp add: finite_arith round_sig_idem)
qed

lemma bollinger_cases:
  assumes "length ps = 20" "list_all positive ps"
  shows "calculate_bollinger_bands ps = Inl MarketEvaluationCalculationError \<or>
    (\<exists>b. calculate_bollinger_bands ps = Inr b \<and> bands_ok b)"
proof -
  have vals: "\<forall>x\<in>set ps. is_finite x \<and> 0 < dval x" using assms(2) by (simp add: list_all_iff positive_iff)
  have "ps \<noteq> []" using assms(1) by auto
  then obtain total where total: "sum_at 34 dzero ps = Inr total" "is_finite total" "0 < dval total"
    using sum_pos_value [OF vals] by blast
  obtain m where m: "div_at 34 total (Fin 20) = Inr m" "is_finite m" "0 < dval m"
    "dval m = round_sig 34 (dval total / 20)"
    using div_positive [of total "Fin 20"] total by auto
  obtain sq where sq: "map_res (squared_difference m) ps = Inr sq" "\<forall>y\<in>set sq. is_finite y \<and> 0 \<le> dval y"
    using squares_value [OF m(2), of ps] vals by metis
  obtain st where st: "sum_at 34 dzero sq = Inr st" "is_finite st" "0 \<le> dval st" using sum_nonneg_value [OF sq(2)] by blast
  obtain var where var: "div_at 34 st (Fin 20) = Inr var" "is_finite var" "0 \<le> dval var"
    using div_nonneg_value [of st "Fin 20"] st by auto
  obtain dev where dev: "sqrt_at 34 var = Inr dev" "is_finite dev" "0 \<le> dval dev"
    using sqrt_at_value [OF var(2,3)] by blast
  have fixed: "round_sig 34 (dval m) = dval m" by (simp add: m(4) round_sig_idem)
  obtain b l u where b: "mul_at 34 dev (Fin 2) = Inr b" "sub_at 34 m b = Inr l" "add_at 34 m b = Inr u"
    "is_finite l" "is_finite u" "round_sig 34 (dval l) = dval l" "round_sig 34 (dval u) = dval u"
    "dval l \<le> dval m" "dval m \<le> dval u"
    using bands_from_deviation [OF m(2,3) fixed dev(2,3)] by blast
  note run = calculate_bollinger_bands_def bollinger_period_def assms(1) total(1) m(1) sq(1) st(1) var(1) dev(1) b(1-3)
  show ?thesis
  proof (cases "dval u \<le> dval l")
    case True
    then show ?thesis using m b by (simp add: run finite_arith)
  next
    case False
    obtain w where w: "sub_at 34 u l = Inr w" "is_finite w" "0 < dval w"
      using b False by (simp add: finite_arith r34.pos_iff)
    obtain rel where rel: "div_at 34 w m = Inr rel" "is_finite rel" "0 < dval rel"
      using div_positive [OF w(2) m(2,3)] w(3) by blast
    have "calculate_bollinger_bands ps = Inr \<lparr>bb_middle = m, bb_lower = l, bb_upper = u, bb_width = rel\<rparr>"
      using m b False w(1) rel(1) by (simp add: run finite_arith)
    moreover have "bands_ok \<lparr>bb_middle = m, bb_lower = l, bb_upper = u, bb_width = rel\<rparr>"
      using m b False rel by (simp add: bands_ok_def positive_iff)
    ultimately show ?thesis by blast
  qed
qed

text \<open>The position in the bands: on the right side of both of them.\<close>

lemma pct_b_value:
  assumes "bands_ok b" "is_finite price"
  shows "\<exists>x. calculate_pct_b price (bb_lower b) (bb_upper b) = Inr x \<and> is_finite x \<and>
    (dval x < 0 \<longleftrightarrow> dval price < dval (bb_lower b)) \<and>
    (dval price \<le> dval (bb_upper b) \<longrightarrow> dval x \<le> 1) \<and> (dval (bb_upper b) \<le> dval price \<longrightarrow> 1 \<le> dval x)"
proof -
  define l u p where "l = dval (bb_lower b)" and "u = dval (bb_upper b)" and "p = dval price"
  define w where "w = round_sig 34 (u - l)"
  define q where "q = round_sig 34 (p - l)"
  have lu: "l < u" using assms(1) by (simp add: bands_ok_def l_def u_def)
  then have w: "0 < w" by (simp add: w_def r34.pos_iff)
  obtain width where width: "sub_at 34 (bb_upper b) (bb_lower b) = Inr width" "is_finite width" "dval width = w"
    using assms(1) by (simp add: bands_ok_def finite_arith w_def l_def u_def)
  obtain d where d: "sub_at 34 price (bb_lower b) = Inr d" "is_finite d" "dval d = q"
    using assms by (simp add: bands_ok_def finite_arith q_def l_def p_def)
  obtain x where x: "div_at 34 d width = Inr x" "is_finite x" "dval x = round_sig 34 (q / w)"
    using div_positive [OF d(2) width(2)] width(3) d(3) w by auto
  have "calculate_pct_b price (bb_lower b) (bb_upper b) = Inr x"
    using width d x w by (simp add: calculate_pct_b_def finite_arith)
  moreover have "round_sig 34 (q / w) < 0 \<longleftrightarrow> p < l"
  proof -
    have "round_sig 34 (q / w) < 0 \<longleftrightarrow> q < 0"
      using r34.pos_iff [of "- (q / w)"] w by (simp add: r34.odd divide_less_0_iff)
    also have "\<dots> \<longleftrightarrow> p < l" using r34.pos_iff [of "- (p - l)"] unfolding q_def r34.odd by simp
    finally show ?thesis .
  qed
  moreover have one: "round_sig 34 1 = 1" using round_quarter [of 4] by simp
  have "round_sig 34 (q / w) \<le> 1" if "p \<le> u"
  proof -
    have "q \<le> w" unfolding q_def w_def by (rule r34.mono) (use that in simp)
    then show ?thesis using w one by (intro r34.below) simp_all
  qed
  moreover have "1 \<le> round_sig 34 (q / w)" if "u \<le> p"
  proof -
    have "w \<le> q" unfolding q_def w_def by (rule r34.mono) (use that in simp)
    then show ?thesis using w one by (intro r34.above) simp_all
  qed
  ultimately show ?thesis using x(2,3) by (simp add: l_def u_def p_def)
qed

text \<open>The channel index of positive prices is a number.\<close>

lemma absolute_difference_value:
  assumes "is_finite m" "is_finite x"
  shows "\<exists>y. absolute_difference m x = Inr y \<and> is_finite y \<and> 0 \<le> dval y"
proof -
  obtain d where d: "sub_at 34 x m = Inr d" "is_finite d" using sub_at_finite [OF assms(2,1)] by simp
  have "is_finite (abs_at 34 d)" "0 \<le> dval (abs_at 34 d)" using d(2) by (cases d; simp add: r34.nonneg)+
  then show ?thesis using d by (simp add: absolute_difference_def)
qed

lemma absolutes_value:
  assumes "is_finite m" "\<forall>x\<in>set xs. is_finite x"
  obtains ds where "map_res (absolute_difference m) xs = Inr ds" "\<forall>y\<in>set ds. is_finite y \<and> 0 \<le> dval y"
  using map_res_values [of xs "absolute_difference m" "\<lambda>y. is_finite y \<and> 0 \<le> dval y"]
    absolute_difference_value [OF assms(1)] assms(2) by metis

lemma cci_value:
  assumes "length ts = 20" "list_all positive ts"
  shows "\<exists>x. calculate_cci ts = Inr x \<and> is_finite x"
proof -
  have vals: "\<forall>x\<in>set ts. is_finite x \<and> 0 < dval x" using assms(2) by (simp add: list_all_iff positive_iff)
  have ne: "ts \<noteq> []" using assms(1) by auto
  then obtain total where total: "sum_at 34 dzero ts = Inr total" "is_finite total" "0 < dval total"
    using sum_pos_value [OF vals] by blast
  obtain m where m: "div_at 34 total (Fin 20) = Inr m" "is_finite m"
    using div_positive [of total "Fin 20"] total by auto
  obtain ds where ds: "map_res (absolute_difference m) ts = Inr ds" "\<forall>y\<in>set ds. is_finite y \<and> 0 \<le> dval y"
    using absolutes_value [OF m(2), of ts] vals by metis
  obtain st where st: "sum_at 34 dzero ds = Inr st" "is_finite st" "0 \<le> dval st" using sum_nonneg_value [OF ds(2)] by blast
  obtain dev where dev: "div_at 34 st (Fin 20) = Inr dev" "is_finite dev" "0 \<le> dval dev"
    using div_nonneg_value [of st "Fin 20"] st by auto
  note run = calculate_cci_def assms(1) total(1) m(1) ds(1) st(1) dev(1)
  show ?thesis
  proof (cases "dval dev = 0")
    case True
    then show ?thesis using dev by (simp add: run finite_arith)
  next
    case False
    then have "0 < dval dev" using dev(3) by simp
    then have scale: "0 < round_sig 34 (15 / 1000 * dval dev)" by (simp add: r34.pos_iff)
    have "is_finite (last ts)" using ne vals by simp
    then obtain d where d: "sub_at 34 (last ts) m = Inr d" "is_finite d" using m by (simp add: finite_arith)
    obtain s where s: "mul_at 34 (Fin (15 / 1000)) dev = Inr s" "is_finite s" "0 < dval s"
      using dev scale by (simp add: finite_arith)
    obtain x where "div_at 34 d s = Inr x" "is_finite x" using div_positive [OF d(2) s(2,3)] by blast
    then show ?thesis using dev False d s by (simp add: run finite_arith)
  qed
qed

lemma typical_price_value:
  assumes "positive h" "positive l" "positive c"
  shows "\<exists>x. calculate_typical_price h l c = Inr x \<and> positive x"
proof -
  have f: "is_finite h" "is_finite l" "is_finite c" "0 < dval h" "0 < dval l" "0 < dval c"
    using assms by (simp_all add: positive_iff)
  obtain a where a: "add_at 34 h l = Inr a" "is_finite a" "0 < dval a"
    using f by (simp add: finite_arith r34.pos_iff)
  obtain b where b: "add_at 34 a c = Inr b" "is_finite b" "0 < dval b"
    using f a by (simp add: finite_arith r34.pos_iff)
  obtain x where "div_at 34 b (Fin 3) = Inr x" "is_finite x" "0 < dval x"
    using div_pos_value [of b "Fin 3"] b by auto
  then show ?thesis using a b by (simp add: calculate_typical_price_def positive_iff)
qed

end
