(* ===== verification/Hold_Timers.thy ===== *)
theory Hold_Timers
  imports Ledger_Values Trading_Snapshots
begin

text \<open>
  The five hold conditions of \<open>application/market_evaluation_builder.py\<close> and the timers that
  \<open>application/market_condition_timers.py\<close> makes of them.  A condition is held when it was
  satisfied at every tick of a span of time; the start of the span is all that is kept.
\<close>

section \<open>Conditions\<close>

datatype hold_condition =
    PCT_B_AT_LEAST_060_FOR_5S
  | REALTIME_SLOPE_ABOVE_008_FOR_5S
  | REALTIME_SLOPE_AT_MOST_004_FOR_5S
  | PCT_B_BELOW_060_FOR_5S
  | REALTIME_SLOPE_AT_MOST_MINUS_055_FOR_3M

definition evaluated_conditions :: "hold_condition list" where
  "evaluated_conditions =
     [PCT_B_AT_LEAST_060_FOR_5S, REALTIME_SLOPE_ABOVE_008_FOR_5S, REALTIME_SLOPE_AT_MOST_004_FOR_5S,
      PCT_B_BELOW_060_FOR_5S, REALTIME_SLOPE_AT_MOST_MINUS_055_FOR_3M]"

fun hold_condition_id :: "hold_condition \<Rightarrow> string" where
  "hold_condition_id PCT_B_AT_LEAST_060_FOR_5S = ''b_profit_zone''"
| "hold_condition_id REALTIME_SLOPE_ABOVE_008_FOR_5S = ''b_trend_slope''"
| "hold_condition_id REALTIME_SLOPE_AT_MOST_004_FOR_5S = ''b_trend_exit_slope''"
| "hold_condition_id PCT_B_BELOW_060_FOR_5S = ''b_trend_exit_pct_b''"
| "hold_condition_id REALTIME_SLOPE_AT_MOST_MINUS_055_FOR_3M = ''c_stop''"

text \<open>The comparisons are of finite numbers, the calculated position and slope.\<close>

fun hold_satisfied :: "decimal \<Rightarrow> decimal \<Rightarrow> hold_condition \<Rightarrow> bool" where
  "hold_satisfied pct slope PCT_B_AT_LEAST_060_FOR_5S = dle (Fin (60 / 100)) pct"
| "hold_satisfied pct slope REALTIME_SLOPE_ABOVE_008_FOR_5S = dlt (Fin (8 / 100)) slope"
| "hold_satisfied pct slope REALTIME_SLOPE_AT_MOST_004_FOR_5S = dle slope (Fin (4 / 100))"
| "hold_satisfied pct slope PCT_B_BELOW_060_FOR_5S = dlt pct (Fin (60 / 100))"
| "hold_satisfied pct slope REALTIME_SLOPE_AT_MOST_MINUS_055_FOR_3M = dle slope (Fin (- 55 / 100))"

text \<open>In nanoseconds.\<close>

fun condition_duration :: "hold_condition \<Rightarrow> int" where
  "condition_duration REALTIME_SLOPE_AT_MOST_MINUS_055_FOR_3M = 180000000000"
| "condition_duration _ = 5000000000"

type_synonym hold_starts = "hold_condition \<Rightarrow> int option"

type_synonym hold_flags = "hold_condition \<Rightarrow> bool"

definition evaluate_conditions ::
  "hold_starts \<Rightarrow> int \<Rightarrow> decimal \<Rightarrow> decimal \<Rightarrow> hold_flags \<times> hold_starts" where
  "evaluate_conditions previous time pct slope =
     (let starts = (\<lambda>c. if hold_satisfied pct slope c
                        then Some (case previous c of None \<Rightarrow> time | Some t \<Rightarrow> t) else None) in
      (\<lambda>c. case starts c of None \<Rightarrow> False | Some t \<Rightarrow> condition_duration c \<le> time - t, starts))"

section \<open>Timers\<close>

definition nanoseconds_decimal :: "int \<Rightarrow> decimal res" where
  "nanoseconds_decimal n = div_at 28 (Fin (of_int n)) (Fin 1000000000)"

definition hold_timer_id :: "int \<Rightarrow> hold_condition \<Rightarrow> int option \<Rightarrow> string" where
  "hold_timer_id generation c start =
     ''hold:'' @ show_int generation @ '':'' @ hold_condition_id c @ '':'' @
     show_opt (map_option show_int start)"

definition previous_timer :: "timer_snapshot list \<Rightarrow> hold_condition \<Rightarrow> timer_snapshot option" where
  "previous_timer previous c = find (\<lambda>t. tm_condition_id t = hold_condition_id c) (rev previous)"

definition make_timer :: "timer_snapshot \<Rightarrow> timer_snapshot res" where
  "make_timer t = ebind (require (timer_ok t) ValueError) (\<lambda>_. Inr t)"

definition create_hold_timer ::
  "hold_flags \<Rightarrow> hold_starts \<Rightarrow> timer_snapshot list \<Rightarrow> int \<Rightarrow> timestamp \<Rightarrow> int \<Rightarrow>
   hold_condition \<Rightarrow> timer_snapshot res" where
  "create_hold_timer flags starts previous time sampled generation c =
     ebind (nanoseconds_decimal (condition_duration c)) (\<lambda>duration.
     let old = previous_timer previous c;
         reset = (if 0 < generation \<and> previous = [] then Some ''stream_reset'' else None);
         ident = hold_timer_id generation c (starts c);
         timer = \<lparr>tm_condition_id = hold_condition_id c, tm_timer_id = ident, tm_kind = ''hold'',
           tm_state = ''waiting'', tm_duration_seconds = duration, tm_remaining_seconds = duration,
           tm_sampled_at = sampled, tm_reset_reason = reset\<rparr> in
     (case starts c of
        None \<Rightarrow>
          make_timer (case old of
              None \<Rightarrow> timer
            | Some t \<Rightarrow>
                if tm_state t = ''waiting'' then timer
                else timer\<lparr>tm_state := ''stopped'', tm_timer_id := tm_timer_id t,
                       tm_reset_reason := Some ''condition_broken''\<rparr>)
      | Some start \<Rightarrow>
          ebind (nanoseconds_decimal (time - start)) (\<lambda>elapsed.
          ebind (sub_at 28 duration elapsed) (\<lambda>rest.
          make_timer (timer\<lparr>tm_state := (if flags c then ''completed'' else ''running''),
            tm_remaining_seconds := dmax dzero rest,
            tm_reset_reason := (case old of
                None \<Rightarrow> reset
              | Some t \<Rightarrow> if tm_timer_id t = ident then tm_reset_reason t else reset)\<rparr>)))))"

definition create_hold_timer_snapshots ::
  "hold_flags \<Rightarrow> hold_starts \<Rightarrow> timer_snapshot list \<Rightarrow> int \<Rightarrow> timestamp \<Rightarrow> int \<Rightarrow> timer_snapshot list res"
where
  "create_hold_timer_snapshots flags starts previous time sampled generation =
     map_res (create_hold_timer flags starts previous time sampled generation) evaluated_conditions"

section \<open>Runs of ticks\<close>

text \<open>The ticks of a stream: the monotonic time, the position and the slope.\<close>

type_synonym hold_tick = "int \<times> decimal \<times> decimal"

definition tick_satisfied :: "hold_condition \<Rightarrow> hold_tick \<Rightarrow> bool" where
  "tick_satisfied c k = hold_satisfied (fst (snd k)) (snd (snd k)) c"

definition hold_step :: "hold_starts \<Rightarrow> hold_tick \<Rightarrow> hold_starts" where
  "hold_step starts k = snd (evaluate_conditions starts (fst k) (fst (snd k)) (snd (snd k)))"

text \<open>The start that is kept is the time of the first tick of the last span of satisfied ticks.\<close>

lemma hold_step_eq:
  "hold_step starts k c =
     (if tick_satisfied c k then Some (case starts c of None \<Rightarrow> fst k | Some t \<Rightarrow> t) else None)"
  by (simp add: hold_step_def evaluate_conditions_def tick_satisfied_def Let_def)

lemma hold_run_start:
  "foldl hold_step (\<lambda>_. None) ks c =
     (case takeWhile (tick_satisfied c) (rev ks) of [] \<Rightarrow> None | ts \<Rightarrow> Some (fst (last ts)))"
proof (induction ks rule: rev_induct)
  case (snoc k ks)
  then show ?case
    by (cases "takeWhile (tick_satisfied c) (rev ks)") (simp_all add: hold_step_eq)
qed simp

text \<open>The last span starts at a tick after which every tick is satisfied.\<close>

lemma takeWhile_rev_span:
  assumes "takeWhile P (rev ks) \<noteq> []"
  obtains us vs where "ks = us @ vs" "vs \<noteq> []" "takeWhile P (rev ks) = rev vs" "\<forall>k\<in>set vs. P k"
    "us \<noteq> [] \<Longrightarrow> \<not> P (last us)"
proof -
  define us vs where "us = rev (dropWhile P (rev ks))" and "vs = rev (takeWhile P (rev ks))"
  have "rev ks = rev vs @ rev us" by (simp add: us_def vs_def)
  then have "ks = us @ vs" using rev_append [of us vs] by (metis rev_rev_ident)
  moreover have "vs \<noteq> []" using assms by (simp add: vs_def)
  moreover have "\<forall>k\<in>set vs. P k" by (auto simp: vs_def dest: set_takeWhileD)
  moreover have "\<not> P (last us)" if "us \<noteq> []"
    using that hd_dropWhile [of P "rev ks"] by (simp add: us_def last_rev)
  moreover have "takeWhile P (rev ks) = rev vs" by (simp add: vs_def)
  ultimately show ?thesis using that by metis
qed

definition held_over :: "hold_condition \<Rightarrow> hold_tick list \<Rightarrow> bool" where
  "held_over c vs \<longleftrightarrow>
     vs \<noteq> [] \<and> list_all (tick_satisfied c) vs \<and> condition_duration c \<le> fst (last vs) - fst (hd vs)"

lemma hold_flag_eq:
  "fst (evaluate_conditions starts time pct slope) c =
     (case hold_step starts (time, pct, slope) c of None \<Rightarrow> False | Some t \<Rightarrow> condition_duration c \<le> time - t)"
  by (simp add: hold_step_def evaluate_conditions_def Let_def)

lemma condition_duration_pos [simp]: "0 < condition_duration c"
  by (cases c) simp_all

lemma hold_flag_span:
  assumes "sorted (map fst (ks @ [(time, pct, slope)]))"
  shows "fst (evaluate_conditions (foldl hold_step (\<lambda>_. None) ks) time pct slope) c \<longleftrightarrow>
    (\<exists>us vs. ks @ [(time, pct, slope)] = us @ vs \<and> held_over c vs)"
proof -
  define all where "all = ks @ [(time, pct, slope)]"
  have start: "hold_step (foldl hold_step (\<lambda>_. None) ks) (time, pct, slope) c =
      (case takeWhile (tick_satisfied c) (rev all) of [] \<Rightarrow> None | ts \<Rightarrow> Some (fst (last ts)))"
    using hold_run_start [of all c] by (simp add: all_def)
  show ?thesis
  proof
    assume flag: "fst (evaluate_conditions (foldl hold_step (\<lambda>_. None) ks) time pct slope) c"
    then have "takeWhile (tick_satisfied c) (rev all) \<noteq> []" by (auto simp: hold_flag_eq start)
    then obtain us vs where s: "all = us @ vs" "vs \<noteq> []" "takeWhile (tick_satisfied c) (rev all) = rev vs"
      "\<forall>k\<in>set vs. tick_satisfied c k" by (rule takeWhile_rev_span)
    have "condition_duration c \<le> time - fst (hd vs)"
    proof -
      obtain k ts where k: "rev vs = k # ts" using s(2) by (cases "rev vs") auto
      then have "last (k # ts) = hd vs" using last_rev [of vs] s(2) by simp
      then show ?thesis using flag unfolding hold_flag_eq start s(3) k by simp
    qed
    moreover have "last vs = (time, pct, slope)"
      using s(1,2) unfolding all_def by (metis last_appendR last_snoc)
    ultimately have "held_over c vs" using s(2,4) by (simp add: held_over_def list_all_iff)
    then show "\<exists>us vs. ks @ [(time, pct, slope)] = us @ vs \<and> held_over c vs"
      using s(1) unfolding all_def by blast
  next
    assume "\<exists>us vs. ks @ [(time, pct, slope)] = us @ vs \<and> held_over c vs"
    then obtain ws xs where w: "all = ws @ xs" "held_over c xs" unfolding all_def by blast
    then have x: "xs \<noteq> []" "list_all (tick_satisfied c) xs" "condition_duration c \<le> fst (last xs) - fst (hd xs)"
      by (simp_all add: held_over_def)
    have last: "fst (last xs) = time"
      using w(1) x(1) unfolding all_def by (metis last_appendR last_snoc fst_conv)
    have tw: "takeWhile (tick_satisfied c) (rev all) = rev xs @ takeWhile (tick_satisfied c) (rev ws)"
      unfolding w(1) rev_append by (rule takeWhile_append2) (use x(2) in \<open>simp add: list_all_iff\<close>)
    define ts where "ts = rev xs @ takeWhile (tick_satisfied c) (rev ws)"
    have ts: "ts \<noteq> []" using x(1) by (simp add: ts_def)
    have "fst (last ts) \<le> fst (hd xs)"
    proof (cases "takeWhile (tick_satisfied c) (rev ws) = []")
      case True
      then show ?thesis using x(1) by (simp add: ts_def last_rev)
    next
      case False
      then have "last ts \<in> set (takeWhile (tick_satisfied c) (rev ws))" by (simp add: ts_def)
      then have "last ts \<in> set ws" by (auto dest: set_takeWhileD)
      moreover have "sorted (map fst ws @ map fst xs)" using assms w(1) unfolding all_def by simp
      ultimately show ?thesis using x(1) by (auto simp: sorted_append)
    qed
    then have "condition_duration c \<le> time - fst (last ts)" using x(3) last by simp
    moreover have "hold_step (foldl hold_step (\<lambda>_. None) ks) (time, pct, slope) c = Some (fst (last ts))"
      unfolding start tw ts_def [symmetric] using ts by (cases ts) simp_all
    ultimately show "fst (evaluate_conditions (foldl hold_step (\<lambda>_. None) ks) time pct slope) c"
      unfolding hold_flag_eq by simp
  qed
qed

section \<open>The timers of a tick\<close>

lemma nanoseconds_value:
  "\<exists>d. nanoseconds_decimal n = Inr d \<and> is_finite d \<and> dval d = round_sig 28 (of_int n / 1000000000)"
  by (simp add: nanoseconds_decimal_def div_at_finite)

lemma duration_value:
  "\<exists>d. nanoseconds_decimal (condition_duration c) = Inr d \<and> is_finite d \<and>
     dval d = of_int (condition_duration c) / 1000000000"
proof -
  have "round_sig 28 (5 :: rat) = 5" "round_sig 28 (180 :: rat) = 180"
    using round_sig_exact [of 5 5 0 28] round_sig_exact [of 180 180 0 28] by (simp_all add: pow10_def)
  then show ?thesis using nanoseconds_value [of "condition_duration c"] by (cases c) simp_all
qed

text \<open>The time that is left: zero exactly when the condition is held, and never more than the duration.\<close>

lemma remaining_value:
  assumes "start \<le> time"
  obtains d e r where "nanoseconds_decimal (condition_duration c) = Inr d"
    "nanoseconds_decimal (time - start) = Inr e" "sub_at 28 d e = Inr r" "is_finite d" "is_finite (dmax dzero r)"
    "0 < dval d" "0 \<le> dval (dmax dzero r)" "dval (dmax dzero r) \<le> dval d"
    "condition_duration c \<le> time - start \<longrightarrow> dval (dmax dzero r) = 0"
proof -
  obtain d where d: "nanoseconds_decimal (condition_duration c) = Inr d" "is_finite d"
    "dval d = of_int (condition_duration c) / 1000000000" using duration_value by blast
  obtain e where e: "nanoseconds_decimal (time - start) = Inr e" "is_finite e"
    "dval e = round_sig 28 (of_int (time - start) / 1000000000)" using nanoseconds_value by blast
  obtain r where r: "sub_at 28 d e = Inr r" "is_finite r" "dval r = round_sig 28 (dval d - dval e)"
    using sub_at_finite [OF d(2) e(2)] by simp
  have pos: "0 < dval d" by (simp add: d(3))
  have "dval d = round_sig 28 (of_int (condition_duration c) / 1000000000)"
    using nanoseconds_value [of "condition_duration c"] d(1) by auto
  then have fixed: "round_sig 28 (dval d) = dval d" by (simp add: round_sig_idem)
  have e0: "0 \<le> dval e" unfolding e(3) by (rule r28.nonneg) (use assms in simp)
  have "dval r \<le> dval d" unfolding r(3) by (rule r28.shrink [OF fixed e0])
  moreover have "dval r \<le> 0" if "condition_duration c \<le> time - start"
  proof -
    have "of_int (condition_duration c) / 1000000000 \<le> (of_int (time - start) / 1000000000 :: rat)"
      using divide_right_mono [of "of_int (condition_duration c)" "of_int (time - start) :: rat" 1000000000] that
      by (simp del: of_int_diff)
    then have "dval d \<le> dval e" unfolding e(3) using r28.mono fixed d(3) by metis
    then show ?thesis unfolding r(3) using r28.nonneg [of "dval e - dval d"] r28.odd [of "dval e - dval d"] by simp
  qed
  moreover have "dval (dmax dzero r) = max 0 (dval r)" "is_finite (dmax dzero r)"
    using dmax_finite [of dzero r] r(2) by simp_all
  ultimately show ?thesis using that [OF d(1) e(1) r(1) d(2)] pos by simp
qed

lemma previous_timer_ok:
  "list_all timer_ok ts \<Longrightarrow> previous_timer ts c = Some t \<Longrightarrow> timer_ok t"
  unfolding previous_timer_def find_Some_iff list_all_iff by (metis length_rev nth_mem set_rev)

lemma make_timer_ok: "timer_ok t \<Longrightarrow> make_timer t = Inr t"
  by (simp add: make_timer_def)

text \<open>A timer of a tick is valid, and completed exactly when the condition is held.\<close>

definition starts_ok :: "hold_starts \<Rightarrow> int \<Rightarrow> bool" where
  "starts_ok starts time \<longleftrightarrow> (\<forall>c s. starts c = Some s \<longrightarrow> 0 \<le> s \<and> s \<le> time)"

definition flags_of :: "hold_starts \<Rightarrow> int \<Rightarrow> hold_flags" where
  "flags_of starts time c = (case starts c of None \<Rightarrow> False | Some s \<Rightarrow> condition_duration c \<le> time - s)"

lemma evaluate_conditions_eq:
  "evaluate_conditions previous time pct slope =
     (flags_of (hold_step previous (time, pct, slope)) time, hold_step previous (time, pct, slope))"
  by (simp add: evaluate_conditions_def hold_step_def flags_of_def fun_eq_iff Let_def)

lemma hold_timer_idle:
  assumes "is_aware sampled" "list_all timer_ok previous" "starts c = None"
  shows "\<exists>t. create_hold_timer flags starts previous time sampled generation c = Inr t \<and> timer_ok t \<and>
    tm_condition_id t = hold_condition_id c \<and> tm_state t \<in> {''waiting'', ''stopped''}"
proof -
  obtain d where d: "nanoseconds_decimal (condition_duration c) = Inr d" "is_finite d"
    "dval d = of_int (condition_duration c) / 1000000000" using duration_value by blast
  have pos: "0 < dval d" by (simp add: d(3))
  have cid: "hold_condition_id c \<noteq> []" by (cases c) simp_all
  have tid: "hold_timer_id generation c None \<noteq> []" by (simp add: hold_timer_id_def)
  show ?thesis
  proof (cases "previous_timer previous c")
    case None
    then show ?thesis
      using d pos cid tid assms by (simp add: create_hold_timer_def Let_def make_timer_ok timer_ok_def)
  next
    case (Some t)
    then have "timer_ok t" by (rule previous_timer_ok [OF assms(2)])
    then have "tm_timer_id t \<noteq> []" by (simp add: timer_ok_def)
    then show ?thesis
      using Some d pos cid tid assms
      by (cases "tm_state t = ''waiting''") (simp_all add: create_hold_timer_def Let_def make_timer_ok timer_ok_def)
  qed
qed

lemma hold_timer_running:
  assumes "is_aware sampled" "list_all timer_ok previous" "starts c = Some s" "s \<le> time"
  shows "\<exists>t. create_hold_timer (flags_of starts time) starts previous time sampled generation c = Inr t \<and>
    timer_ok t \<and> tm_condition_id t = hold_condition_id c \<and>
    tm_state t = (if flags_of starts time c then ''completed'' else ''running'')"
proof -
  obtain d e r where r: "nanoseconds_decimal (condition_duration c) = Inr d"
    "nanoseconds_decimal (time - s) = Inr e" "sub_at 28 d e = Inr r" "is_finite d" "is_finite (dmax dzero r)"
    "0 < dval d" "0 \<le> dval (dmax dzero r)" "dval (dmax dzero r) \<le> dval d"
    "condition_duration c \<le> time - s \<longrightarrow> dval (dmax dzero r) = 0"
    by (rule remaining_value [OF assms(4), of c])
  define reason where "reason =
    (case previous_timer previous c of
       None \<Rightarrow> if 0 < generation \<and> previous = [] then Some ''stream_reset'' else None
     | Some t \<Rightarrow> if tm_timer_id t = hold_timer_id generation c (Some s) then tm_reset_reason t
         else if 0 < generation \<and> previous = [] then Some ''stream_reset'' else None)"
  define t where "t =
    \<lparr>tm_condition_id = hold_condition_id c, tm_timer_id = hold_timer_id generation c (Some s), tm_kind = ''hold'',
     tm_state = (if flags_of starts time c then ''completed'' else ''running''), tm_duration_seconds = d,
     tm_remaining_seconds = dmax dzero r, tm_sampled_at = sampled, tm_reset_reason = reason\<rparr>"
  have reason: "case reason of None \<Rightarrow> True
      | Some x \<Rightarrow> x \<in> {''timeout'', ''new_low'', ''condition_broken'', ''candle_changed'', ''stream_reset''}"
  proof (cases "previous_timer previous c")
    case (Some o')
    then show ?thesis using previous_timer_ok [OF assms(2) Some] by (simp add: reason_def timer_ok_def)
  qed (simp add: reason_def)
  have "flags_of starts time c \<longleftrightarrow> condition_duration c \<le> time - s" by (simp add: flags_of_def assms(3))
  moreover have "hold_condition_id c \<noteq> []" by (cases c) simp_all
  moreover have "hold_timer_id generation c (Some s) \<noteq> []" by (simp add: hold_timer_id_def)
  ultimately have "timer_ok t" using r reason assms(1) by (simp add: t_def timer_ok_def)
  moreover have "create_hold_timer (flags_of starts time) starts previous time sampled generation c = make_timer t"
    using r(1-3) assms(3) by (simp add: create_hold_timer_def Let_def t_def reason_def)
  ultimately show ?thesis by (simp add: make_timer_ok) (simp add: t_def)
qed

lemma hold_timers_ok:
  assumes "is_aware sampled" "list_all timer_ok previous" "starts_ok starts time"
  obtains ts where
    "create_hold_timer_snapshots (flags_of starts time) starts previous time sampled generation = Inr ts"
    "list_all timer_ok ts" "map tm_condition_id ts = map hold_condition_id evaluated_conditions"
    "map (\<lambda>t. tm_state t = ''completed'') ts = map (flags_of starts time) evaluated_conditions"
proof -
  let ?make = "create_hold_timer (flags_of starts time) starts previous time sampled generation"
  have one: "\<exists>t. ?make c = Inr t \<and> timer_ok t \<and> tm_condition_id t = hold_condition_id c \<and>
      (tm_state t = ''completed'' \<longleftrightarrow> flags_of starts time c)" for c
  proof (cases "starts c")
    case None
    then show ?thesis
      using hold_timer_idle [where starts = starts and c = c, OF assms(1,2) None, of "flags_of starts time" time generation]
      by (auto simp: flags_of_def)
  next
    case (Some s)
    then have "s \<le> time" using assms(3) by (auto simp: starts_ok_def)
    from hold_timer_running [where starts = starts and c = c and generation = generation, OF assms(1,2) Some this] show ?thesis by (auto split: if_splits)
  qed
  then obtain f where f: "\<And>c. ?make c = Inr (f c)" "\<And>c. timer_ok (f c)"
    "\<And>c. tm_condition_id (f c) = hold_condition_id c"
    "\<And>c. tm_state (f c) = ''completed'' \<longleftrightarrow> flags_of starts time c" by metis
  have "map_res ?make cs = Inr (map f cs)" for cs by (induction cs) (simp_all add: f(1))
  then show ?thesis
    using that [of "map f evaluated_conditions"] f by (simp add: create_hold_timer_snapshots_def list_all_iff)
qed

lemma distinct_hold_ids: "distinct (map hold_condition_id evaluated_conditions)"
  by (simp add: evaluated_conditions_def)

lemma hold_step_starts_ok:
  "starts_ok starts t \<Longrightarrow> t \<le> fst k \<Longrightarrow> 0 \<le> fst k \<Longrightarrow> starts_ok (hold_step starts k) (fst k)"
  by (force simp: starts_ok_def hold_step_eq split: option.splits if_splits)

end
