(* ===== verification/Market_Evaluation.thy ===== *)
theory Market_Evaluation
  imports Band_Indicators Hold_Timers
begin

text \<open>
  The builder of market evaluations (\<open>application/market_evaluation_builder.py\<close>): it checks that a
  snapshot of the market was caused by the candle it is called with, calculates the indicators of
  the thirty minute candles at 34 digits, carries the hold conditions from tick to tick and makes
  the evaluation that the trading state machine decides on.

  The clock is the number its call would return.  A snapshot that is ready has candles of every
  interval.  An operation gives its result, or the exception, and the builder it leaves.
\<close>

section \<open>The sources of a version\<close>

definition strategy_interval :: "interval \<Rightarrow> bool" where
  "strategy_interval i \<longleftrightarrow> i = ONE_MINUTE \<or> i = THIRTY_MINUTES"

text \<open>Full hours of UTC that are multiples of four, and midnight; instants count from 1970.\<close>

definition is_four_hour_boundary :: "int \<Rightarrow> bool" where
  "is_four_hour_boundary t \<longleftrightarrow> t mod 14400000000 = 0"

definition is_one_day_boundary :: "int \<Rightarrow> bool" where
  "is_one_day_boundary t \<longleftrightarrow> is_four_hour_boundary t \<and> t mod 86400000000 = 0"

definition expected_source_count :: "int \<Rightarrow> nat" where
  "expected_source_count t = (if is_one_day_boundary t then 6 else if is_four_hour_boundary t then 4 else 2)"

text \<open>A candle that closes at the boundary and the open one after it, the last two of their interval.\<close>

definition canonical_pair :: "market_state \<Rightarrow> interval \<Rightarrow> int \<Rightarrow> kline \<Rightarrow> kline \<Rightarrow> bool" where
  "canonical_pair m i boundary c d \<longleftrightarrow>
     kl_interval c = i \<and> kl_interval d = i \<and> kl_closed c \<and> \<not> kl_closed d \<and>
     close_boundary c = boundary \<and> open_at d = boundary \<and>
     list_all2 kline_same (last_values 2 (ms_klines m i)) [c, d]"

definition source_exact :: "market_state \<Rightarrow> kline \<Rightarrow> bool" where
  "source_exact m k \<longleftrightarrow>
     kl_symbol k = supported_symbol \<and>
     (case kl_event_time k of None \<Rightarrow> False | Some e \<Rightarrow> open_at k \<le> instant e) \<and>
     list_ex (kline_same k) (ms_klines m (kl_interval k))"

definition event_reaches :: "int \<Rightarrow> kline \<Rightarrow> bool" where
  "event_reaches t k \<longleftrightarrow> (case kl_event_time k of None \<Rightarrow> False | Some e \<Rightarrow> t \<le> instant e)"

definition canonical_sources :: "market_state \<Rightarrow> kline \<Rightarrow> kline list \<Rightarrow> bool" where
  "canonical_sources m k ss \<longleftrightarrow>
     (case ss of
        a # b # rest \<Rightarrow>
          length ss \<in> {2, 4, 6} \<and>
          kl_interval a = ONE_MINUTE \<and> kl_interval b = THIRTY_MINUTES \<and> kl_closed a \<and> kl_closed b \<and>
          kline_same k b \<and> close_boundary a = close_boundary b \<and>
          length ss = expected_source_count (close_boundary a) \<and>
          list_all (source_exact m) ss \<and>
          kline_same a (last (ms_klines m ONE_MINUTE)) \<and> kline_same b (last (ms_klines m THIRTY_MINUTES)) \<and>
          list_all (event_reaches (close_boundary a)) ss \<and>
          (is_four_hour_boundary (close_boundary a) \<longrightarrow>
             canonical_pair m FOUR_HOURS (close_boundary a) (rest ! 0) (rest ! 1)) \<and>
          (is_one_day_boundary (close_boundary a) \<longrightarrow>
             canonical_pair m ONE_DAY (close_boundary a) (rest ! 2) (rest ! 3))
      | _ \<Rightarrow> False)"

definition resolve_one_minute_close :: "market_state \<Rightarrow> kline \<Rightarrow> kline option res" where
  "resolve_one_minute_close m k =
     (if list_all2 kline_same (ms_sources m) [k]
      then
        ebind (require (\<not> (kl_closed k \<and> strategy_interval (kl_interval k) \<and>
            is_four_hour_boundary (close_boundary k))) MarketEvaluationCalculationError) (\<lambda>_.
        Inr (if kl_interval k = ONE_MINUTE \<and> kl_closed k then Some k else None))
      else
        ebind (require (canonical_sources m k (ms_sources m)) MarketEvaluationCalculationError) (\<lambda>_.
        Inr (Some (hd (ms_sources m)))))"

section \<open>The values of an evaluation\<close>

definition confirmed_close :: "kline \<Rightarrow> bool" where
  "confirmed_close k \<longleftrightarrow> kl_interval k = THIRTY_MINUTES \<and> kl_closed k"

definition calculate_tp_price :: "bands \<Rightarrow> decimal res" where
  "calculate_tp_price b =
     ebind (sub_at 34 (bb_upper b) (bb_lower b)) (\<lambda>width.
     ebind (mul_at 34 (Fin (10 / 100)) width) (\<lambda>part. add_at 34 (bb_lower b) part))"

definition typical_price_of :: "kline \<Rightarrow> decimal res" where
  "typical_price_of k = calculate_typical_price (kl_high k) (kl_low k) (kl_close k)"

definition calculate_evaluation_values :: "market_state \<Rightarrow> kline \<Rightarrow> market_snapshot res" where
  "calculate_evaluation_values m k =
     (let klines = ms_klines m THIRTY_MINUTES;
          latest = last klines;
          closed_klines = filter kl_closed klines;
          latest_closed = last closed_klines;
          closes = map kl_close closed_klines;
          price = kl_close latest;
          confirmed = confirmed_close k in
      ebind (if ms_sources m = [] then Inr None else resolve_one_minute_close m k) (\<lambda>one_minute.
      ebind (require (bollinger_period \<le> length closed_klines) MarketEvaluationCalculationError) (\<lambda>_.
      ebind (calculate_ema9_series closes) (\<lambda>committed.
      ebind (require (6 \<le> length committed) MarketEvaluationCalculationError) (\<lambda>_.
      ebind (calculate_normalized_ols_slope (last_values 6 committed) (kl_close latest_closed)) (\<lambda>confirmed_slope.
      ebind (if confirmed then Inr confirmed_slope
             else calculate_candidate_ema9_slope committed price) (\<lambda>realtime_slope.
      ebind (calculate_bollinger_bands
             (if confirmed then last_values 20 closes else last_values 19 closes @ [price])) (\<lambda>live.
      ebind (calculate_pct_b price (bb_lower live) (bb_upper live)) (\<lambda>realtime_pct_b.
      ebind (calculate_bollinger_bands (last_values 20 closes)) (\<lambda>settled.
      ebind (calculate_pct_b (kl_close latest_closed) (bb_lower settled) (bb_upper settled)) (\<lambda>pct_b_close.
      ebind (map_res typical_price_of
             (if confirmed then last_values 20 closed_klines
              else last_values 19 closed_klines @ [latest])) (\<lambda>typical_prices.
      ebind (calculate_cci typical_prices) (\<lambda>cci.
      ebind (calculate_tp_price live) (\<lambda>tp_price.
      ebind (if confirmed then calculate_ema9_series (butlast closes) else Inr committed) (\<lambda>base.
      ebind (calculate_candidate_ema9_slope base tp_price) (\<lambda>tp_slope.
      ebind (case one_minute of
               None \<Rightarrow> Inr realtime_slope
             | Some s \<Rightarrow> calculate_candidate_ema9_slope base (kl_close s)) (\<lambda>close_slope.
      Inr (default_market\<lparr>
        mk_realtime_price := price, mk_lower_band := bb_lower live, mk_upper_band := bb_upper live,
        mk_realtime_pct_b := realtime_pct_b, mk_current_30m_candle_id := Some (create_candle_id latest),
        mk_current_30m_low := kl_low latest, mk_current_30m_high := kl_high latest,
        mk_touch_candle_bbw := bb_width live, mk_confirmed_30m_close := confirmed,
        mk_confirmed_30m_close_time :=
          (if confirmed then Some (Aware (open_at latest + interval_duration THIRTY_MINUTES)) else None),
        mk_confirmed_1m_close := (one_minute \<noteq> None), mk_ema_slope_30m_close := confirmed_slope,
        mk_realtime_ema_slope := realtime_slope, mk_current_close_ema_slope := close_slope,
        mk_tp_reference_ema_slope := tp_slope, mk_cci_30m_realtime := cci, mk_pct_b_close := pct_b_close,
        mk_current_closed_candle_low := kl_low latest_closed,
        mk_previous_3_closed_candle_lows := map kl_low (butlast (last_values 4 closed_klines))\<rparr>))))))))))))))))))"

section \<open>The builder\<close>

record evaluation_builder =
  eb_last_version :: "int option"
  eb_last_time :: "int option"
  eb_candle_id :: "string option"
  eb_starts :: hold_starts
  eb_timers :: "timer_snapshot list"
  eb_generation :: int

definition new_builder :: evaluation_builder where
  "new_builder =
     \<lparr>eb_last_version = None, eb_last_time = None, eb_candle_id = None, eb_starts = (\<lambda>_. None), eb_timers = [],
      eb_generation = 0\<rparr>"

definition reset_builder :: "evaluation_builder \<Rightarrow> evaluation_builder" where
  "reset_builder b =
     b\<lparr>eb_last_version := None, eb_last_time := None, eb_candle_id := None, eb_starts := (\<lambda>_. None),
       eb_timers := [], eb_generation := eb_generation b + 1\<rparr>"

definition rebase :: "market_state \<Rightarrow> evaluation_builder \<Rightarrow> unit res \<times> evaluation_builder" where
  "rebase m b =
     (let latest = last (ms_klines m THIRTY_MINUTES) in
      if \<not> ms_ready m \<or> ms_version m \<le> 0 \<or> kl_closed latest then (Inl MarketEvaluationCalculationError, b)
      else let b' = reset_builder b in
        (case calculate_evaluation_values m latest of
           Inl e \<Rightarrow> (Inl e, b')
         | Inr v \<Rightarrow> (Inr (), b'\<lparr>eb_last_version := Some (ms_version m),
                               eb_candle_id := mk_current_30m_candle_id v\<rparr>)))"

definition validate_source :: "evaluation_builder \<Rightarrow> market_state \<Rightarrow> kline \<Rightarrow> bool res" where
  "validate_source b m k =
     ebind (require (ms_ready m \<and> 0 < ms_version m) MarketEvaluationCalculationError) (\<lambda>_.
     ebind (require (event_reaches (open_at k) k \<and>
         (kl_closed k \<and> strategy_interval (kl_interval k) \<longrightarrow> event_reaches (close_boundary k) k) \<and>
         kl_symbol k = supported_symbol) MarketEvaluationCalculationError) (\<lambda>_.
     ebind (require (case eb_last_version b of None \<Rightarrow> True | Some v \<Rightarrow> v < ms_version m)
         MarketEvaluationCalculationError) (\<lambda>_.
     ebind (require (ms_klines m (kl_interval k) \<noteq> [] \<and> kline_same k (last (ms_klines m (kl_interval k))) \<and>
         list_ex (kline_same k) (ms_sources m)) MarketEvaluationCalculationError) (\<lambda>_.
     ebind (if list_ex (\<lambda>s. strategy_interval (kl_interval s)) (ms_sources m)
            then resolve_one_minute_close m k else Inr None) (\<lambda>_.
     let latest = last (ms_klines m THIRTY_MINUTES) in
     Inr (if kl_interval k = THIRTY_MINUTES then True
          else kl_interval k = ONE_MINUTE \<and> kl_closed k \<and> \<not> kl_closed latest \<and>
            open_at latest \<le> open_at k \<and> open_at k < open_at latest + interval_duration THIRTY_MINUTES))))))"

definition read_monotonic_time :: "evaluation_builder \<Rightarrow> int \<Rightarrow> int res" where
  "read_monotonic_time b clock =
     ebind (require (0 \<le> clock) ValueError) (\<lambda>_.
     ebind (require (case eb_last_time b of None \<Rightarrow> True | Some t \<Rightarrow> t \<le> clock)
         MarketEvaluationCalculationError) (\<lambda>_. Inr clock))"

definition make_market_evaluation :: "market_snapshot \<Rightarrow> market_snapshot res" where
  "make_market_evaluation e = ebind (require (market_ok e) ValueError) (\<lambda>_. Inr e)"

definition stamp_of :: "moment \<Rightarrow> timestamp" where
  "stamp_of t = (case offset t of None \<Rightarrow> Naive (instant t) | Some _ \<Rightarrow> Aware (instant t))"

definition with_flags :: "hold_flags \<Rightarrow> timer_snapshot list \<Rightarrow> market_snapshot \<Rightarrow> market_snapshot" where
  "with_flags flags timers e =
     e\<lparr>mk_pct_b_at_least_060_for_5s := flags PCT_B_AT_LEAST_060_FOR_5S,
       mk_realtime_slope_above_008_for_5s := flags REALTIME_SLOPE_ABOVE_008_FOR_5S,
       mk_realtime_slope_at_most_004_for_5s := flags REALTIME_SLOPE_AT_MOST_004_FOR_5S,
       mk_pct_b_below_060_for_5s := flags PCT_B_BELOW_060_FOR_5S,
       mk_realtime_slope_at_most_minus_055_for_3m := flags REALTIME_SLOPE_AT_MOST_MINUS_055_FOR_3M,
       mk_condition_timers := timers\<rparr>"

definition build_steps ::
  "int \<Rightarrow> market_state \<Rightarrow> kline \<Rightarrow> evaluation_builder \<Rightarrow> (market_snapshot \<times> evaluation_builder) res" where
  "build_steps clock m k b =
     ebind (calculate_evaluation_values m k) (\<lambda>v.
     let advances = (kl_interval k = THIRTY_MINUTES) in
     ebind (if advances then read_monotonic_time b clock
            else Inr (case eb_last_time b of None \<Rightarrow> 0 | Some t \<Rightarrow> t)) (\<lambda>time.
     let (flags, starts) =
       evaluate_conditions (eb_starts b) time (mk_realtime_pct_b v) (mk_realtime_ema_slope v) in
     ebind (if advances
            then (case ms_updated_at m of
                None \<Rightarrow> Inl MarketEvaluationCalculationError
              | Some u \<Rightarrow> create_hold_timer_snapshots flags starts (eb_timers b) time (stamp_of u) (eb_generation b))
            else Inr (eb_timers b)) (\<lambda>timers.
     ebind (make_market_evaluation (with_flags flags timers v)) (\<lambda>e.
     Inr (e, (if advances
              then b\<lparr>eb_candle_id := mk_current_30m_candle_id v, eb_starts := starts, eb_last_time := Some time,
                     eb_timers := timers\<rparr>
              else b)\<lparr>eb_last_version := Some (ms_version m)\<rparr>)))))"

definition build_evaluation ::
  "int \<Rightarrow> market_state \<Rightarrow> kline \<Rightarrow> evaluation_builder \<Rightarrow> market_snapshot res \<times> evaluation_builder" where
  "build_evaluation clock m k b =
     (case build_steps clock m k b of Inl e \<Rightarrow> (Inl e, b) | Inr (v, b') \<Rightarrow> (Inr v, b'))"

definition call_builder ::
  "int \<Rightarrow> market_state \<Rightarrow> kline \<Rightarrow> evaluation_builder \<Rightarrow> market_snapshot option res \<times> evaluation_builder" where
  "call_builder clock m k b =
     (case validate_source b m k of
        Inl e \<Rightarrow> (Inl e, b)
      | Inr should \<Rightarrow>
          if should
          then (case build_evaluation clock m k b of
              (Inl e, b') \<Rightarrow> (Inl e, b') | (Inr v, b') \<Rightarrow> (Inr (Some v), b'))
          else (Inr None, b))"

definition build_recovery_evaluation ::
  "int \<Rightarrow> market_state \<Rightarrow> evaluation_builder \<Rightarrow> market_snapshot res \<times> evaluation_builder" where
  "build_recovery_evaluation clock m b =
     (let latest = last (ms_klines m THIRTY_MINUTES) in
      if \<not> ms_ready m \<or> eb_last_version b \<noteq> Some (ms_version m) \<or> ms_sources m \<noteq> [] \<or> kl_closed latest
      then (Inl MarketEvaluationCalculationError, b)
      else build_evaluation clock m latest b)"

section \<open>The candles of a snapshot\<close>

text \<open>A ready snapshot that satisfies its invariant has valid thirty minute candles.\<close>

lemma ready_candles:
  assumes "market_inv m" "ms_ready m"
  shows "ms_klines m i \<noteq> []" "k \<in> set (ms_klines m i) \<Longrightarrow> kline_ok k" "0 < ms_version m"
    "\<exists>t. ms_updated_at m = Some (utc t)"
proof -
  obtain now where "1 \<le> ms_version m" "ms_updated_at m = Some (utc now)" "\<And>i. interval_ok i now (ms_klines m i)"
    using assms by (auto simp: market_inv_def)
  then show "ms_klines m i \<noteq> []" "k \<in> set (ms_klines m i) \<Longrightarrow> kline_ok k" "0 < ms_version m"
    "\<exists>t. ms_updated_at m = Some (utc t)"
    by (auto simp: interval_ok_def list_all_iff)
qed

lemma last_values_subset: "set (last_values n xs) \<subseteq> set xs"
  by (simp add: last_values_def set_drop_subset)

lemma length_last_values: "n \<le> length xs \<Longrightarrow> length (last_values n xs) = n"
  by (simp add: last_values_def)

lemma last_values_eq_Nil: "last_values n xs = [] \<longleftrightarrow> n = 0 \<or> xs = []"
  by (cases xs) (auto simp: last_values_def)

definition closed_candles :: "market_state \<Rightarrow> kline list" where
  "closed_candles m = filter kl_closed (ms_klines m THIRTY_MINUTES)"

definition band_prices :: "market_state \<Rightarrow> kline \<Rightarrow> decimal list" where
  "band_prices m k =
     (if confirmed_close k then last_values 20 (map kl_close (closed_candles m))
      else last_values 19 (map kl_close (closed_candles m)) @ [kl_close (last (ms_klines m THIRTY_MINUTES))])"

lemma band_prices_ok:
  assumes "market_inv m" "ms_ready m" "20 \<le> length (closed_candles m)"
  shows "length (band_prices m k) = 20" "list_all positive (band_prices m k)"
    "set (band_prices m k) \<subseteq> kl_close ` set (ms_klines m THIRTY_MINUTES)"
proof -
  have sub: "set (last_values n (map kl_close (closed_candles m))) \<subseteq> kl_close ` set (ms_klines m THIRTY_MINUTES)" for n
    using last_values_subset [of n "map kl_close (closed_candles m)"] by (auto simp: closed_candles_def)
  have "last (ms_klines m THIRTY_MINUTES) \<in> set (ms_klines m THIRTY_MINUTES)"
    by (rule last_in_set [OF ready_candles(1) [OF assms(1,2)]])
  then show s: "set (band_prices m k) \<subseteq> kl_close ` set (ms_klines m THIRTY_MINUTES)"
    using sub by (auto simp: band_prices_def)
  show "length (band_prices m k) = 20" using assms(3) by (simp add: band_prices_def length_last_values)
  have "positive (kl_close x)" if "x \<in> set (ms_klines m THIRTY_MINUTES)" for x
    using ready_candles(2) [OF assms(1,2) that] by (rule kline_prices(1))
  then show "list_all positive (band_prices m k)" using s by (auto simp: list_all_iff)
qed

section \<open>The values\<close>

lemma evaluation_valuesE:
  assumes "calculate_evaluation_values m k = Inr v"
  obtains b where "20 \<le> length (closed_candles m)" "calculate_bollinger_bands (band_prices m k) = Inr b"
    "calculate_pct_b (mk_realtime_price v) (bb_lower b) (bb_upper b) = Inr (mk_realtime_pct_b v)"
    "mk_realtime_price v = kl_close (last (ms_klines m THIRTY_MINUTES))"
    "mk_lower_band v = bb_lower b" "mk_upper_band v = bb_upper b" "mk_touch_candle_bbw v = bb_width b"
    "mk_confirmed_30m_close v = confirmed_close k"
    "mk_confirmed_30m_close_time v =
       (if confirmed_close k then Some (Aware (open_at (last (ms_klines m THIRTY_MINUTES)) + 1800000000)) else None)"
    "length (mk_previous_3_closed_candle_lows v) = 3"
    "mk_holding_elapsed v = 0" "mk_signal_elapsed v = 0" "mk_case_c_timer_elapsed v = 0"
    "mk_current_30m_candle_id v = Some (create_candle_id (last (ms_klines m THIRTY_MINUTES)))"
  by (rule exE [OF assms [unfolded calculate_evaluation_values_def Let_def ebind_eq_Inr closed_candles_def [symmetric]
        band_prices_def [symmetric]]], elim exE conjE, rule that)
    (auto simp: bollinger_period_def length_last_values default_market_def)

lemma with_flags_sel [simp]:
  "mk_confirmed_30m_close_time (with_flags f ts v) = mk_confirmed_30m_close_time v"
  "mk_confirmed_30m_close (with_flags f ts v) = mk_confirmed_30m_close v"
  "mk_holding_elapsed (with_flags f ts v) = mk_holding_elapsed v"
  "mk_signal_elapsed (with_flags f ts v) = mk_signal_elapsed v"
  "mk_case_c_timer_elapsed (with_flags f ts v) = mk_case_c_timer_elapsed v"
  "mk_previous_3_closed_candle_lows (with_flags f ts v) = mk_previous_3_closed_candle_lows v"
  "mk_condition_timers (with_flags f ts v) = ts"
  "mk_realtime_price (with_flags f ts v) = mk_realtime_price v"
  "mk_lower_band (with_flags f ts v) = mk_lower_band v"
  "mk_upper_band (with_flags f ts v) = mk_upper_band v"
  "mk_realtime_pct_b (with_flags f ts v) = mk_realtime_pct_b v"
  by (simp_all add: with_flags_def)

definition timers_ok :: "timer_snapshot list \<Rightarrow> bool" where
  "timers_ok ts \<longleftrightarrow> list_all timer_ok ts \<and> distinct (map tm_condition_id ts)"

text \<open>Calculated values with valid timers are a valid evaluation.\<close>

lemma evaluation_ok:
  assumes "calculate_evaluation_values m k = Inr v" "timers_ok ts"
  shows "make_market_evaluation (with_flags f ts v) = Inr (with_flags f ts v)" "market_ok (with_flags f ts v)"
proof -
  show "market_ok (with_flags f ts v)"
    by (rule evaluation_valuesE [OF assms(1)]) (use assms(2) in \<open>simp add: market_ok_def timers_ok_def\<close>)
  then show "make_market_evaluation (with_flags f ts v) = Inr (with_flags f ts v)"
    by (simp add: make_market_evaluation_def)
qed

text \<open>The price is on the right side of both bands.\<close>

definition evaluation_placed :: "market_snapshot \<Rightarrow> bool" where
  "evaluation_placed e \<longleftrightarrow>
     dval (mk_lower_band e) < dval (mk_upper_band e) \<and>
     (dval (mk_realtime_pct_b e) < 0 \<longleftrightarrow> dval (mk_realtime_price e) < dval (mk_lower_band e)) \<and>
     (dval (mk_realtime_price e) \<le> dval (mk_upper_band e) \<longrightarrow> dval (mk_realtime_pct_b e) \<le> 1) \<and>
     (dval (mk_upper_band e) \<le> dval (mk_realtime_price e) \<longrightarrow> 1 \<le> dval (mk_realtime_pct_b e))"

lemma evaluation_values_placed:
  assumes "market_inv m" "ms_ready m" "calculate_evaluation_values m k = Inr v"
  shows "evaluation_placed v"
proof -
  obtain b where b: "20 \<le> length (closed_candles m)" "calculate_bollinger_bands (band_prices m k) = Inr b"
    "calculate_pct_b (mk_realtime_price v) (bb_lower b) (bb_upper b) = Inr (mk_realtime_pct_b v)"
    "mk_realtime_price v = kl_close (last (ms_klines m THIRTY_MINUTES))"
    "mk_lower_band v = bb_lower b" "mk_upper_band v = bb_upper b"
    by (rule evaluation_valuesE [OF assms(3)]) (rule that)
  have ok: "bands_ok b"
    using bollinger_cases [OF band_prices_ok(1,2) [OF assms(1,2) b(1)], of k] b(2) by auto
  have "positive (mk_realtime_price v)"
    unfolding b(4) by (rule kline_prices(1) [OF ready_candles(2) [OF assms(1,2) last_in_set [OF ready_candles(1) [OF assms(1,2)]]]])
  then have "is_finite (mk_realtime_price v)" by simp
  from pct_b_value [OF ok this] b(3) ok show ?thesis
    by (auto simp: evaluation_placed_def b(5,6) bands_ok_def)
qed

section \<open>The invariant of the builder\<close>

definition builder_ok :: "evaluation_builder \<Rightarrow> bool" where
  "builder_ok b \<longleftrightarrow>
     opt_all (\<lambda>v. 0 < v) (eb_last_version b) \<and> timers_ok (eb_timers b) \<and> 0 \<le> eb_generation b \<and>
     (case eb_last_time b of
        None \<Rightarrow> eb_starts b = (\<lambda>_. None) \<and> eb_timers b = []
      | Some t \<Rightarrow> 0 \<le> t \<and> starts_ok (eb_starts b) t)"

lemma builder_ok_new: "builder_ok new_builder"
  by (simp add: builder_ok_def new_builder_def timers_ok_def)

lemma builder_ok_reset: "builder_ok b \<Longrightarrow> builder_ok (reset_builder b)"
  by (simp add: builder_ok_def reset_builder_def timers_ok_def)

lemma builder_ok_version: "builder_ok b \<Longrightarrow> 0 < v \<Longrightarrow> builder_ok (b\<lparr>eb_last_version := Some v\<rparr>)"
  by (cases "eb_last_time b") (simp_all add: builder_ok_def timers_ok_def)

lemma builder_starts: "builder_ok b \<Longrightarrow> eb_last_time b = None \<or> (\<exists>t. eb_last_time b = Some t \<and> 0 \<le> t \<and> starts_ok (eb_starts b) t)"
  by (auto simp: builder_ok_def split: option.splits)

section \<open>Building\<close>

text \<open>The part of a build after the calculation, which only the clock can make fail.\<close>

lemma finish_tick:
  fixes pct slope
  assumes "builder_ok b" "0 \<le> clock" "\<And>t. eb_last_time b = Some t \<Longrightarrow> t \<le> clock"
  defines "starts \<equiv> hold_step (eb_starts b) (clock, pct, slope)"
  obtains ts where
    "create_hold_timer_snapshots (flags_of starts clock) starts (eb_timers b) clock (Aware i) (eb_generation b) = Inr ts"
    "timers_ok ts" "starts_ok starts clock"
proof -
  have "starts_ok (eb_starts b) (case eb_last_time b of None \<Rightarrow> 0 | Some t \<Rightarrow> t)"
    using assms(1) by (auto simp: builder_ok_def starts_ok_def split: option.splits)
  moreover have "(case eb_last_time b of None \<Rightarrow> 0 | Some t \<Rightarrow> t) \<le> clock"
    using assms(2,3) by (auto split: option.splits)
  ultimately have ok: "starts_ok starts clock"
    unfolding starts_def using hold_step_starts_ok [of "eb_starts b" _ "(clock, pct, slope)"] assms(2) by simp
  have "list_all timer_ok (eb_timers b)" using assms(1) by (simp add: builder_ok_def timers_ok_def)
  from hold_timers_ok [OF _ this ok, of "Aware i" "eb_generation b"] obtain ts where
    "create_hold_timer_snapshots (flags_of starts clock) starts (eb_timers b) clock (Aware i) (eb_generation b) = Inr ts"
    "list_all timer_ok ts" "map tm_condition_id ts = map hold_condition_id evaluated_conditions" by auto
  then show ?thesis using that ok distinct_hold_ids by (simp add: timers_ok_def)
qed

lemma stamp_of_utc [simp]: "stamp_of (utc t) = Aware t"
  by (simp add: stamp_of_def utc_def)

text \<open>A build with values: the evaluation and the builder after it, or an error of the clock.\<close>

lemma build_steps_tick:
  assumes "builder_ok b" "market_inv m" "ms_ready m" "calculate_evaluation_values m k = Inr v"
    "kl_interval k = THIRTY_MINUTES"
  shows "if clock < 0 then build_steps clock m k b = Inl ValueError
    else if (\<exists>t. eb_last_time b = Some t \<and> clock < t) then build_steps clock m k b = Inl MarketEvaluationCalculationError
    else \<exists>ts starts. build_steps clock m k b = Inr (with_flags (flags_of starts clock) ts v,
        b\<lparr>eb_candle_id := mk_current_30m_candle_id v, eb_starts := starts, eb_last_time := Some clock,
          eb_timers := ts, eb_last_version := Some (ms_version m)\<rparr>) \<and>
      starts = hold_step (eb_starts b) (clock, mk_realtime_pct_b v, mk_realtime_ema_slope v) \<and>
      timers_ok ts \<and> starts_ok starts clock"
proof -
  obtain i where i: "ms_updated_at m = Some (utc i)" using ready_candles(4) [OF assms(2,3)] by blast
  show ?thesis
  proof (cases "clock < 0 \<or> (\<exists>t. eb_last_time b = Some t \<and> clock < t)")
    case True
    then show ?thesis
      using assms(4,5) by (auto simp: build_steps_def read_monotonic_time_def split: option.splits)
  next
    case False
    then have clock: "0 \<le> clock" "\<And>t. eb_last_time b = Some t \<Longrightarrow> t \<le> clock" by (auto simp: not_less)
    then have read: "read_monotonic_time b clock = Inr clock"
      by (cases "eb_last_time b") (simp_all add: read_monotonic_time_def)
    define starts where "starts = hold_step (eb_starts b) (clock, mk_realtime_pct_b v, mk_realtime_ema_slope v)"
    obtain ts where ts:
      "create_hold_timer_snapshots (flags_of starts clock) starts (eb_timers b) clock (Aware i) (eb_generation b) = Inr ts"
      "timers_ok ts" "starts_ok starts clock"
      unfolding starts_def by (rule finish_tick [OF assms(1) clock])
    have "build_steps clock m k b = Inr (with_flags (flags_of starts clock) ts v,
        b\<lparr>eb_candle_id := mk_current_30m_candle_id v, eb_starts := starts, eb_last_time := Some clock,
          eb_timers := ts, eb_last_version := Some (ms_version m)\<rparr>)"
      using ts(1) assms(4,5) i
      by (simp add: build_steps_def read evaluate_conditions_eq starts_def [symmetric] evaluation_ok(1) [OF assms(4) ts(2)])
    then show ?thesis using False ts starts_def by auto
  qed
qed

lemma build_steps_other:
  assumes "builder_ok b" "calculate_evaluation_values m k = Inr v" "kl_interval k \<noteq> THIRTY_MINUTES"
  shows "\<exists>flags. build_steps clock m k b =
    Inr (with_flags flags (eb_timers b) v, b\<lparr>eb_last_version := Some (ms_version m)\<rparr>)"
proof -
  have "timers_ok (eb_timers b)" using assms(1) by (simp add: builder_ok_def)
  from evaluation_ok(1) [OF assms(2) this] show ?thesis
    using assms(2,3) by (auto simp: build_steps_def evaluate_conditions_eq)
qed

text \<open>What a finished build gives, and what stops one.\<close>

lemma with_flags_placed [simp]: "evaluation_placed (with_flags f ts v) = evaluation_placed v"
  by (simp add: evaluation_placed_def)

lemma build_steps_result:
  assumes "builder_ok b" "market_inv m" "ms_ready m"
  shows "case build_steps clock m k b of
      Inl e \<Rightarrow> calculate_evaluation_values m k = Inl e \<or> e = MarketEvaluationCalculationError \<or> (clock < 0 \<and> e = ValueError)
    | Inr (e, b') \<Rightarrow> market_ok e \<and> evaluation_placed e \<and> builder_ok b' \<and> eb_last_version b' = Some (ms_version m) \<and>
        mk_realtime_price e = kl_close (last (ms_klines m THIRTY_MINUTES)) \<and> mk_confirmed_30m_close e = confirmed_close k"
proof (cases "calculate_evaluation_values m k")
  case (Inl e)
  then show ?thesis by (simp add: build_steps_def)
next
  case (Inr v)
  have v: "mk_realtime_price v = kl_close (last (ms_klines m THIRTY_MINUTES))" "mk_confirmed_30m_close v = confirmed_close k"
    by (rule evaluation_valuesE [OF Inr], assumption)+
  have placed: "evaluation_placed v" by (rule evaluation_values_placed [OF assms(2,3) Inr])
  have version: "0 < ms_version m" by (rule ready_candles(3) [OF assms(2,3)])
  show ?thesis
  proof (cases "kl_interval k = THIRTY_MINUTES")
    case True
    from build_steps_tick [OF assms Inr True, of clock] show ?thesis
      using evaluation_ok(2) [OF Inr] placed v version assms(1)
      by (auto simp: builder_ok_def split: if_splits)
  next
    case False
    from build_steps_other [OF assms(1) Inr False, of clock] show ?thesis
      using evaluation_ok(2) [OF Inr] placed v version assms(1) builder_ok_version [OF assms(1) version]
      by (auto simp: builder_ok_def)
  qed
qed

end
