(* ===== verification/Evaluation_Bounds.thy ===== *)
theory Evaluation_Bounds
  imports Market_Evaluation
begin

text \<open>
  When the calculation of an evaluation is defined: the averages stay below a power of ten that
  covers the prices, so every slope is a number, and the standard deviation of twenty prices within
  a factor of three is below six tenths of their mean, so the reference price of a take profit is
  positive.
\<close>

section \<open>A power of ten that covers the prices\<close>

lemma pow10_cover:
  assumes "0 < hi"
  obtains e where "hi \<le> pow10 e" "pow10 e \<le> 10 * hi"
proof -
  have "pow10 (dec_exponent hi + 27) \<le> hi" "hi < pow10 (dec_exponent hi + 28)"
    using dec_exponent_bounds [of hi] assms pow10_nat [of 27] pow10_nat [of 28]
    by (simp_all add: pow10_add pos_le_divide_eq pos_divide_less_eq mult.commute)
  moreover have "pow10 (dec_exponent hi + 28) = 10 * pow10 (dec_exponent hi + 27)"
    using pow10_add [of "dec_exponent hi + 27" 1] pow10_nat [of 1] by (simp add: add.commute)
  ultimately show ?thesis using that [of "dec_exponent hi + 28"] by linarith
qed

lemma round_digit:
  assumes "\<bar>c\<bar> < 10 ^ 34"
  shows "round_sig 34 (of_int c * pow10 e) = of_int c * pow10 e"
  by (rule round_sig_exact [OF refl assms]) simp

lemma round_tenths:
  assumes "c \<in> {0..100}"
  shows "round_sig 34 (of_int c / 10 * pow10 e) = of_int c / 10 * pow10 e"
proof -
  have "pow10 e = 10 * pow10 (e - 1)" using pow10_add [of "e - 1" 1] by (simp add: pow10_def)
  then have eq: "of_int c / 10 * pow10 e = of_int c * pow10 (e - 1)" by simp
  show ?thesis unfolding eq by (rule round_digit) (use assms in simp)
qed

lemma ema_step_below:
  assumes "positive p" "positive x" "dval p \<le> pow10 e" "dval x \<le> pow10 e"
  obtains y where "ema_step p x = Inr y" "positive y" "dval y \<le> pow10 e"
proof -
  obtain y where y: "ema_step p x = Inr y" "positive y"
    by (rule ema_step_near [OF assms(1,2) r34e.near_refl]) (use assms(2) in \<open>simp_all add: positive_iff\<close>)
  have fin: "is_finite p" "is_finite x" using assms(1,2) by simp_all
  have "round_sig 34 (1 / 5 * dval p) \<le> of_int 2 / 10 * pow10 e"
    by (rule r34.below [OF round_tenths]) (use assms(3) in simp_all)
  moreover have "round_sig 34 (4 / 5 * dval x) \<le> of_int 8 / 10 * pow10 e"
    by (rule r34.below [OF round_tenths]) (use assms(4) in simp_all)
  ultimately have "round_sig 34 (round_sig 34 (1 / 5 * dval p) + round_sig 34 (4 / 5 * dval x)) \<le> of_int 10 / 10 * pow10 e"
    by (intro r34.below [OF round_tenths]) simp_all
  moreover have "dval y = round_sig 34 (round_sig 34 (1 / 5 * dval p) + round_sig 34 (4 / 5 * dval x))"
    using y(1) fin by (auto simp: ema_step_def finite_arith)
  ultimately show ?thesis using that y by simp
qed

lemma ema_steps_below:
  "list_all positive ps \<Longrightarrow> positive x \<Longrightarrow> \<forall>p\<in>set ps. dval p \<le> pow10 e \<Longrightarrow> dval x \<le> pow10 e \<Longrightarrow>
   ema_steps x ps = Inr es \<Longrightarrow> \<forall>y\<in>set es. dval y \<le> pow10 e"
proof (induction ps arbitrary: x es)
  case (Cons p ps)
  obtain y where y: "ema_step p x = Inr y" "positive y" "dval y \<le> pow10 e"
    by (rule ema_step_below [of p x e]) (use Cons.prems in simp_all)
  obtain ys where "es = y # ys" "ema_steps y ps = Inr ys" using Cons.prems(5) y(1) by (auto simp: ebind_eq_Inr)
  then show ?case using Cons.IH [of y ys] Cons.prems y by simp
qed simp

lemma sum_below:
  "\<forall>p\<in>set ps. is_finite p \<and> dval p \<le> pow10 e \<Longrightarrow> is_finite a \<Longrightarrow> dval a \<le> of_nat k * pow10 e \<Longrightarrow>
   k + length ps \<le> 100 \<Longrightarrow> sum_at 34 a ps = Inr z \<Longrightarrow> is_finite z \<and> dval z \<le> of_nat (k + length ps) * pow10 e"
proof (induction ps arbitrary: a k)
  case (Cons p ps)
  have p: "is_finite p" "dval p \<le> pow10 e" using Cons.prems(1) by simp_all
  obtain s where s: "add_at 34 a p = Inr s" "is_finite s" "dval s = round_sig 34 (dval a + dval p)"
    using Cons.prems(2) p(1) by (simp add: finite_arith)
  have "dval a + dval p \<le> of_int (int (Suc k)) * pow10 e" using Cons.prems(3) p(2) by (simp add: algebra_simps)
  then have "dval s \<le> of_int (int (Suc k)) * pow10 e"
    unfolding s(3) using round_digit [of "int (Suc k)" e] Cons.prems(4) by (intro r34.below) simp_all
  then show ?case using Cons.IH [of s "Suc k"] Cons.prems(1,4,5) s(1,2) by simp
qed simp

lemma ema_series_below:
  assumes "9 \<le> length ps" "list_all positive ps" "\<forall>p\<in>set ps. dval p \<le> pow10 e"
  obtains es where "calculate_ema9_series ps = Inr es" "list_all positive es" "length es = length ps - 8"
    "\<forall>y\<in>set es. dval y \<le> pow10 e"
proof -
  obtain es where es: "calculate_ema9_series ps = Inr es" "list_all positive es" "length es = length ps - 8"
    by (rule ema_series_near [OF assms(1,2)])
  obtain total seed rest where parts: "sum_at 34 dzero (take 9 ps) = Inr total" "div_at 34 total (Fin 9) = Inr seed"
    "ema_steps seed (drop 9 ps) = Inr rest" "es = seed # rest"
    using es(1) by (auto simp: calculate_ema9_series_def ebind_eq_Inr)
  have sub: "set (take 9 ps) \<subseteq> set ps" "set (drop 9 ps) \<subseteq> set ps" by (simp_all add: set_take_subset set_drop_subset)
  have "is_finite total \<and> dval total \<le> of_nat (0 + length (take 9 ps)) * pow10 e"
    by (rule sum_below [OF _ _ _ _ parts(1)])
      (use assms sub in \<open>auto simp: list_all_iff positive_iff\<close>)
  then have t: "is_finite total" "dval total / 9 \<le> of_int 10 / 10 * pow10 e" using assms(1) by simp_all
  have "dval seed = round_sig 34 (dval total / 9)" using parts(2) t(1) by (auto simp: finite_arith)
  then have "dval seed \<le> pow10 e" using r34.below [OF round_tenths [of 10 e] t(2)] by simp
  moreover have "positive seed" using es(2) parts(4) by simp
  ultimately have "\<forall>y\<in>set rest. dval y \<le> pow10 e"
    by (intro ema_steps_below [OF _ _ _ _ parts(3)]) (use assms(2,3) sub in \<open>auto simp: list_all_iff\<close>)
  then show ?thesis using that es parts(4) \<open>dval seed \<le> pow10 e\<close> by simp
qed

section \<open>The slopes are numbers\<close>

lemma settled_slope_defined:
  assumes "list_all positive es" "\<forall>y\<in>set es. dval y \<le> pow10 e" "6 \<le> length es" "positive price"
    "pow10 e \<le> 10 ^ 20 * dval price"
  shows "\<exists>s. calculate_normalized_ols_slope (last_values 6 es) price = Inr s"
proof -
  have "\<forall>v\<in>set (last_values 6 es). is_finite v \<and> \<bar>dval v\<bar> \<le> pow10 e"
    using assms(1,2) last_values_subset [of 6 es] unfolding list_all_iff positive_iff by fastforce
  from normalized_slope_accurate [OF _ this assms(4,5)] show ?thesis
    using assms(3) by (metis length_last_values)
qed

lemma candidate_slope_defined:
  assumes "list_all positive es" "\<forall>y\<in>set es. dval y \<le> pow10 e" "5 \<le> length es" "positive price"
    "dval price \<le> pow10 e" "pow10 e \<le> 10 ^ 20 * dval price"
  shows "\<exists>s. calculate_candidate_ema9_slope es price = Inr s"
proof -
  have "last es \<in> set es" using assms(3) by (intro last_in_set) auto
  then have last: "positive (last es)" "dval (last es) \<le> pow10 e" using assms(1,2) by (auto simp: list_all_iff)
  obtain c where c: "ema_step price (last es) = Inr c" "positive c" "dval c \<le> pow10 e"
    by (rule ema_step_below [OF assms(4) last(1) assms(5) last(2)])
  have "\<forall>v\<in>set (last_values 5 es @ [c]). dval v \<le> 10 ^ 20 * dval price"
    using assms(2,6) c(3) last_values_subset [of 5 es] by force
  from candidate_slope_accurate [OF assms(3,1,4) c(1) this] show ?thesis by metis
qed

section \<open>The deviation of prices within a factor of three\<close>

lemma squares_below:
  fixes lo :: rat
  assumes "\<forall>x\<in>set xs. lo \<le> x \<and> x \<le> 3 * lo"
  shows "sum_list (map (\<lambda>x. (x - m) * (x - m)) xs) \<le>
    (4 * lo - 2 * m) * sum_list xs + of_nat (length xs) * (m * m - 3 * (lo * lo))"
  using assms
proof (induction xs)
  case (Cons x xs)
  have "0 \<le> (x - lo) * (3 * lo - x)" using Cons.prems by (intro mult_nonneg_nonneg) simp_all
  then have "(x - m) * (x - m) \<le> (4 * lo - 2 * m) * x + (m * m - 3 * (lo * lo))" by (simp add: algebra_simps)
  then show ?case using Cons by (simp add: algebra_simps)
qed simp

lemma variance_below:
  fixes lo :: rat
  assumes "\<forall>x\<in>set xs. lo \<le> x \<and> x \<le> 3 * lo" "length xs = 20" "a = sum_list xs / 20"
  shows "sum_list (map (\<lambda>x. (x - m) * (x - m)) xs) \<le> 20 * (a * a / 3 + (m - a) * (m - a))"
proof -
  have "sum_list xs = 20 * a" using assms(3) by simp
  then have "sum_list (map (\<lambda>x. (x - m) * (x - m)) xs) \<le> (4 * lo - 2 * m) * (20 * a) + 20 * (m * m - 3 * (lo * lo))"
    using squares_below [OF assms(1), of m] assms(2) by simp
  moreover have "0 \<le> (2 * a - 3 * lo) * (2 * a - 3 * lo)" by simp
  ultimately show ?thesis by (simp add: algebra_simps)
qed

text \<open>The roundings of the calculation: each sum and square is off by less than a millionth.\<close>

lemma sum_near:
  assumes "\<forall>x\<in>set xs. is_finite x \<and> 0 \<le> dval x" "length xs = 20" "sum_at 34 dzero xs = Inr z"
  shows "is_finite z" "\<bar>dval z - sum_list (map dval xs)\<bar> \<le> sum_list (map dval xs) / 10 ^ 6"
    "0 \<le> sum_list (map dval xs)"
proof -
  have z: "is_finite z" "dval z = sum_sig 34 0 (map dval xs)"
    using sum_at_finite [of dzero xs 34] assms by auto
  then show "is_finite z" by simp
  have near: "r34e.near 20 (dval z) (sum_list (map dval xs))"
    using r34e.near_sum [OF _ r34e.near_refl [of 0], of "map dval xs"] assms(1,2) z(2)
    by (simp add: sum_sig_def)
  then show nonneg: "0 \<le> sum_list (map dval xs)" unfolding r34e.near_def by blast
  have "\<bar>dval z - sum_list (map dval xs)\<bar> \<le> sum_list (map dval xs) * (2 * of_nat 20 * (1 / (2 * 10 ^ 33)))"
    by (rule r34e.near_error [OF near]) simp_all
  also have "\<dots> \<le> sum_list (map dval xs) * (1 / 10 ^ 6)" using nonneg by (intro mult_left_mono) simp_all
  finally show "\<bar>dval z - sum_list (map dval xs)\<bar> \<le> sum_list (map dval xs) / 10 ^ 6" by simp
qed

lemma round_near: "0 \<le> x \<Longrightarrow> \<bar>round_sig 34 x - x\<bar> \<le> x / 10 ^ 6"
proof -
  assume x: "0 \<le> x"
  have "\<bar>round_sig 34 x - x\<bar> \<le> \<bar>x\<bar> * (1 / (2 * 10 ^ 33))" by (rule r34e.relative)
  also have "\<dots> \<le> x * (1 / 10 ^ 6)" using x by (intro mult_mono) simp_all
  finally show ?thesis by simp
qed

lemma round_upper: "0 \<le> x \<Longrightarrow> round_sig 34 x \<le> x * (1 + 1 / 10 ^ 6)"
  using round_near [of x] unfolding distrib_left abs_le_iff by simp

lemma squared_difference_below:
  assumes "is_finite m" "is_finite x" "squared_difference m x = Inr y"
  shows "dval y \<le> (dval x - dval m) * (dval x - dval m) * (1 + 1 / 10 ^ 5)"
proof -
  define z where "z = dval x - dval m"
  define d where "d = round_sig 34 z"
  have y: "dval y = round_sig 34 (d * d)"
    using assms by (auto simp: squared_difference_def finite_arith d_def z_def)
  have "\<bar>d - z\<bar> \<le> \<bar>z\<bar> / 10 ^ 6"
  proof (cases "0 \<le> z")
    case True
    then show ?thesis using round_near [of z] by (simp add: d_def)
  next
    case False
    then have "\<bar>round_sig 34 (- z) - - z\<bar> \<le> - z / 10 ^ 6" using round_near [of "- z"] by simp
    then show ?thesis using False by (simp add: d_def r34.odd abs_minus_commute)
  qed
  moreover have "\<bar>d\<bar> \<le> \<bar>z\<bar> + \<bar>d - z\<bar>" by simp
  ultimately have "\<bar>d\<bar> \<le> \<bar>z\<bar> + \<bar>z\<bar> / 10 ^ 6" by linarith
  then have "\<bar>d\<bar> \<le> \<bar>z\<bar> * (1 + 1 / 10 ^ 6)" by (simp add: distrib_left)
  then have "\<bar>d\<bar> * \<bar>d\<bar> \<le> (\<bar>z\<bar> * (1 + 1 / 10 ^ 6)) * (\<bar>z\<bar> * (1 + 1 / 10 ^ 6))" by (intro mult_mono) simp_all
  then have "d * d \<le> z * z * ((1 + 1 / 10 ^ 6) * (1 + 1 / 10 ^ 6))"
    using abs_mult_self_eq [of d] abs_mult_self_eq [of z] by (simp add: ac_simps)
  moreover have "dval y \<le> d * d * (1 + 1 / 10 ^ 6)"
    unfolding y by (rule round_upper) simp
  moreover have "d * d * (1 + 1 / 10 ^ 6) \<le> z * z * ((1 + 1 / 10 ^ 6) * (1 + 1 / 10 ^ 6)) * (1 + 1 / 10 ^ 6)"
    by (rule mult_right_mono) (use calculation(1) in simp_all)
  moreover have "z * z * ((1 + 1 / 10 ^ 6) * (1 + 1 / 10 ^ 6)) * (1 + 1 / 10 ^ 6) \<le> z * z * (1 + 1 / 10 ^ 5)"
    unfolding mult.assoc [of "z * z"] by (intro mult_left_mono) simp_all
  ultimately show ?thesis unfolding z_def by linarith
qed

lemma squares_sum_below:
  assumes "is_finite m" "\<forall>x\<in>set xs. is_finite x" "map_res (squared_difference m) xs = Inr ys"
  shows "sum_list (map dval ys) \<le> sum_list (map (\<lambda>x. (x - dval m) * (x - dval m)) (map dval xs)) * (1 + 1 / 10 ^ 5)"
  using assms(2,3)
proof (induction xs arbitrary: ys)
  case (Cons x xs)
  then obtain y ys' where y: "squared_difference m x = Inr y" "map_res (squared_difference m) xs = Inr ys'" "ys = y # ys'"
    by (auto simp: ebind_eq_Inr)
  have "is_finite x" using Cons.prems(1) by simp
  from squared_difference_below [OF assms(1) this y(1)] Cons.IH [OF _ y(2)] Cons.prems(1) show ?case
    unfolding y(3) list.map sum_list.Cons distrib_right by simp
qed simp

text \<open>The parts of the bands of twenty positive prices.\<close>

lemma bollinger_parts:
  assumes "length ps = 20" "list_all positive ps" "calculate_bollinger_bands ps = Inr b"
  obtains total sq st var dev offs where
    "sum_at 34 dzero ps = Inr total" "div_at 34 total (Fin 20) = Inr (bb_middle b)"
    "map_res (squared_difference (bb_middle b)) ps = Inr sq" "sum_at 34 dzero sq = Inr st"
    "div_at 34 st (Fin 20) = Inr var" "sqrt_at 34 var = Inr dev" "mul_at 34 dev (Fin 2) = Inr offs"
    "sub_at 34 (bb_middle b) offs = Inr (bb_lower b)" "add_at 34 (bb_middle b) offs = Inr (bb_upper b)"
  using assms(3) unfolding calculate_bollinger_bands_def ebind_eq_Inr by (elim exE conjE) (rule that, auto)

lemma mean_range:
  fixes xs :: "rat list"
  assumes "\<forall>x\<in>set xs. lo \<le> x" "length xs = 20"
  shows "lo \<le> sum_list xs / 20"
proof -
  have "of_nat (length xs) * lo \<le> sum_list xs" using assms(1) by (induction xs) (simp_all add: algebra_simps)
  then show ?thesis using assms(2) by simp
qed

lemma mean_range_above:
  fixes xs :: "rat list"
  assumes "\<forall>x\<in>set xs. x \<le> hi" "length xs = 20"
  shows "sum_list xs / 20 \<le> hi"
proof -
  have "sum_list xs \<le> of_nat (length xs) * hi" using assms(1) by (induction xs) (simp_all add: algebra_simps)
  then show ?thesis using assms(2) by simp
qed

lemma small_remainder:
  fixes A r :: rat
  shows "0 \<le> A \<Longrightarrow> r \<le> A * (9 / 10 ^ 12) \<Longrightarrow> A / 3 + r \<le> A * (3334 / 10000)"
  by (simp add: field_simps)

lemma offset_below:
  assumes "length ps = 20" "\<forall>p\<in>set ps. is_finite p \<and> lo \<le> dval p \<and> dval p \<le> 3 * lo" "0 < lo"
    "calculate_bollinger_bands ps = Inr b"
  obtains offs where "is_finite offs" "0 \<le> dval offs" "dval offs \<le> 117 / 100 * dval (bb_middle b)"
    "9 / 10 * lo \<le> dval (bb_middle b)" "dval (bb_middle b) \<le> 4 * lo"
    "sub_at 34 (bb_middle b) offs = Inr (bb_lower b)" "add_at 34 (bb_middle b) offs = Inr (bb_upper b)"
    "is_finite (bb_middle b)"
proof -
  have pos: "list_all positive ps" using assms(2,3) by (fastforce simp: list_all_iff positive_iff)
  obtain total sq st var dev offs where parts:
    "sum_at 34 dzero ps = Inr total" "div_at 34 total (Fin 20) = Inr (bb_middle b)"
    "map_res (squared_difference (bb_middle b)) ps = Inr sq" "sum_at 34 dzero sq = Inr st"
    "div_at 34 st (Fin 20) = Inr var" "sqrt_at 34 var = Inr dev" "mul_at 34 dev (Fin 2) = Inr offs"
    "sub_at 34 (bb_middle b) offs = Inr (bb_lower b)" "add_at 34 (bb_middle b) offs = Inr (bb_upper b)"
    by (rule bollinger_parts [OF assms(1) pos assms(4)])
  define a m where "a = sum_list (map dval ps) / 20" and "m = dval (bb_middle b)"
  have vals: "\<forall>p\<in>set ps. is_finite p \<and> 0 \<le> dval p" using assms(2,3) by fastforce
  have total: "is_finite total" "20 * a - 20 * a / 10 ^ 6 \<le> dval total" "dval total \<le> 20 * a + 20 * a / 10 ^ 6" "0 \<le> a"
    using sum_near [OF vals assms(1) parts(1)] unfolding abs_le_iff by (simp_all add: a_def)
  have xs: "\<forall>x\<in>set (map dval ps). lo \<le> x \<and> x \<le> 3 * lo" using assms(2) by simp
  have a: "lo \<le> a" unfolding a_def by (rule mean_range) (use xs assms(1) in simp_all)
  have a3: "a \<le> 3 * lo" unfolding a_def by (rule mean_range_above) (use xs assms(1) in simp_all)
  have middle: "is_finite (bb_middle b)" "m = round_sig 34 (dval total / 20)"
  proof -
    have "bb_middle b = dec_of (is_signed total) (round_sig 34 (dval total / 20))"
      using parts(2) total(1) by (simp add: finite_arith)
    then show "is_finite (bb_middle b)" "m = round_sig 34 (dval total / 20)" by (simp_all add: m_def)
  qed
  have t: "dval total / 20 \<le> a + a / 10 ^ 6" "a - a / 10 ^ 6 \<le> dval total / 20"
    using total(2,3) by (simp_all add: field_simps)
  then have "0 \<le> dval total / 20" "dval total / 20 \<le> 2 * a" using total(4) by (simp_all add: field_simps)
  from round_near [OF this(1)] this(2)
  have "m \<le> dval total / 20 + 2 * a / 10 ^ 6" "dval total / 20 - 2 * a / 10 ^ 6 \<le> m"
    unfolding middle(2) abs_le_iff by (simp_all add: field_simps)
  then have "m \<le> a + 3 * a / 10 ^ 6" "a - 3 * a / 10 ^ 6 \<le> m" using t by (simp_all add: field_simps)
  then have m: "\<bar>m - a\<bar> \<le> 3 * a / 10 ^ 6" "m \<le> a + 3 * a / 10 ^ 6" "a - 3 * a / 10 ^ 6 \<le> m"
    unfolding abs_le_iff by simp_all
  have sq: "\<forall>y\<in>set sq. is_finite y \<and> 0 \<le> dval y" "length sq = 20"
  proof -
    obtain sq' where "map_res (squared_difference (bb_middle b)) ps = Inr sq'" "\<forall>y\<in>set sq'. is_finite y \<and> 0 \<le> dval y"
      by (rule squares_value [OF middle(1), of ps]) (use vals in auto)
    then show "\<forall>y\<in>set sq. is_finite y \<and> 0 \<le> dval y" using parts(3) by simp
    show "length sq = 20" using map_res_Inr [OF parts(3)] assms(1) by (metis length_map)
  qed
  have "sum_list (map dval sq) \<le> sum_list (map (\<lambda>x. (x - m) * (x - m)) (map dval ps)) * (1 + 1 / 10 ^ 5)"
    unfolding m_def by (rule squares_sum_below [OF middle(1) _ parts(3)]) (use vals in simp)
  also have "\<dots> \<le> 20 * (a * a / 3 + (m - a) * (m - a)) * (1 + 1 / 10 ^ 5)"
    by (intro mult_right_mono variance_below [OF xs]) (use assms(1) in \<open>simp_all add: a_def\<close>)
  also have "\<dots> \<le> 20 * (a * a * (3334 / 10000)) * (1 + 1 / 10 ^ 5)"
  proof -
    have "\<bar>m - a\<bar> * \<bar>m - a\<bar> \<le> (3 * a / 10 ^ 6) * (3 * a / 10 ^ 6)" using m(1) total(4) by (intro mult_mono) simp_all
    then have "(m - a) * (m - a) \<le> a * a * (9 / 10 ^ 12)" by (simp add: abs_mult_self_eq)
    moreover have "0 \<le> a * a" by simp
    ultimately have "a * a / 3 + (m - a) * (m - a) \<le> a * a * (3334 / 10000)" by (rule small_remainder [rotated])
    then show ?thesis by (intro mult_right_mono mult_left_mono) simp_all
  qed
  finally have scaled: "sum_list (map dval sq) \<le> 20 * (a * a * (3334 / 10000)) * (1 + 1 / 10 ^ 5)" .
  define A where "A = a * a"
  have A: "0 \<le> A" by (simp add: A_def)
  have sums: "sum_list (map dval sq) \<le> A * (6669 / 1000)"
    using scaled [folded A_def] A by (simp add: field_simps)
  have st: "is_finite st" "dval st \<le> A * (6670 / 1000)" "0 \<le> dval st"
    using sum_near [OF sq parts(4)] sums A unfolding abs_le_iff by (simp_all add: field_simps)
  have var: "is_finite var" "dval var = round_sig 34 (dval st / 20)" using parts(5) st(1) by (auto simp: finite_arith)
  have v0: "0 \<le> dval var" unfolding var(2) by (rule r34.nonneg) (use st(3) in simp)
  have "dval var \<le> dval st / 20 * (1 + 1 / 10 ^ 6)" unfolding var(2) by (rule round_upper) (use st(3) in simp)
  then have v: "dval var \<le> A * (3336 / 10000)" using st(2) A by (simp add: field_simps)
  obtain s where s: "sqrt_at 34 var = Inr s" "is_finite s" "0 \<le> dval s"
    "\<bar>dval s * dval s - dval var\<bar> \<le> dval var * (2 / 10 ^ 33)"
    by (rule sqrt_at_value [OF var(1) v0]) (rule that)
  have dev: "is_finite dev" "0 \<le> dval dev" "dval dev * dval dev \<le> dval var * (1 + 2 / 10 ^ 33)"
    using s parts(6) unfolding abs_le_iff distrib_left by simp_all
  have "dval dev * dval dev \<le> A * (3337 / 10000)"
    using dev(3) v v0 A by (simp add: field_simps)
  also have "\<dots> \<le> (5778 / 10000 * a) * (5778 / 10000 * a)" using A by (simp add: A_def)
  finally have d: "dval dev \<le> 5778 / 10000 * a"
    using total(4) by (metis abs_le_square_iff abs_of_nonneg dev(2) power2_eq_square mult_nonneg_nonneg divide_nonneg_nonneg zero_le_numeral)
  have offs: "is_finite offs" "dval offs = round_sig 34 (dval dev * 2)" using parts(7) dev(1) by (auto simp: finite_arith)
  have "dval offs \<le> dval dev * 2 * (1 + 1 / 10 ^ 6)" unfolding offs(2) by (rule round_upper) (use dev(2) in simp)
  then have "dval offs \<le> 1156 / 1000 * a" using d total(4) by (simp add: field_simps)
  moreover have "a \<le> m * (1 + 1 / 10 ^ 5)" using m(3) total(4) by (simp add: field_simps)
  moreover have "m \<le> 4 * lo" using a3 m(2) assms(3) total(4) by (simp add: field_simps)
  moreover have "9 / 10 * lo \<le> m" using a m(3) total(4) by (simp add: field_simps)
  moreover have "0 \<le> dval offs" unfolding offs(2) by (rule r34.nonneg) (use dev(2) in simp)
  ultimately show ?thesis using that [of offs] offs(1) parts(8,9) middle(1) assms(3) by (simp add: m_def field_simps)
qed

section \<open>The reference price of a take profit\<close>

lemma round_near_abs: "\<bar>x\<bar> \<le> B \<Longrightarrow> \<bar>round_sig 34 x - x\<bar> \<le> B / 10 ^ 6"
proof (cases "0 \<le> x")
  case True
  assume "\<bar>x\<bar> \<le> B"
  then have "x / 10 ^ 6 \<le> B / 10 ^ 6" by (simp add: divide_right_mono)
  then show ?thesis using round_near [OF True] by (rule order_trans [rotated])
next
  case False
  assume "\<bar>x\<bar> \<le> B"
  then have "- x / 10 ^ 6 \<le> B / 10 ^ 6" by (simp add: divide_right_mono)
  moreover have "\<bar>round_sig 34 (- x) - - x\<bar> \<le> - x / 10 ^ 6" using round_near [of "- x"] False by simp
  moreover have "\<bar>round_sig 34 (- x) - - x\<bar> = \<bar>round_sig 34 x - x\<bar>" by (simp add: r34.odd abs_minus_commute)
  ultimately show ?thesis by linarith
qed

lemma round_both: "\<bar>x\<bar> \<le> B \<Longrightarrow> round_sig 34 x \<le> x + B / 10 ^ 6 \<and> x - B / 10 ^ 6 \<le> round_sig 34 x"
  using round_near_abs [of x B] unfolding abs_le_iff by (simp add: algebra_simps)

lemma tp_price_above:
  assumes m: "is_finite m" "0 < dval m" and o': "is_finite o'" "0 \<le> dval o'" "dval o' \<le> 117 / 100 * dval m"
    and b: "sub_at 34 m o' = Inr (bb_lower b)" "add_at 34 m o' = Inr (bb_upper b)"
  obtains tp where "calculate_tp_price b = Inr tp" "is_finite tp" "dval m / 25 \<le> dval tp" "dval tp \<le> 3 * dval m"
proof -
  define M where "M = dval m"
  define l u where "l = round_sig 34 (M - dval o')" and "u = round_sig 34 (M + dval o')"
  have lower: "is_finite (bb_lower b)" "dval (bb_lower b) = l"
  proof -
    obtain q where "bb_lower b = dec_of q (round_sig 34 (M - dval o'))" using b(1) m(1) o'(1) by (simp add: finite_arith M_def) metis
    then show "is_finite (bb_lower b)" "dval (bb_lower b) = l" by (simp_all add: l_def)
  qed
  have upper: "is_finite (bb_upper b)" "dval (bb_upper b) = u"
  proof -
    obtain q where "bb_upper b = dec_of q (round_sig 34 (M + dval o'))" using b(2) m(1) o'(1) by (simp add: finite_arith M_def) metis
    then show "is_finite (bb_upper b)" "dval (bb_upper b) = u" by (simp_all add: u_def)
  qed
  have M: "0 < M" "dval o' \<le> 117 / 100 * M" using m(2) o'(3) by (simp_all add: M_def)
  have l: "l \<le> M - dval o' + M / 10 ^ 6" "M - dval o' - M / 10 ^ 6 \<le> l"
    using round_both [of "M - dval o'" M] M o'(2) unfolding l_def by (simp_all add: abs_le_iff field_simps)
  have u: "u \<le> M + dval o' + 3 * M / 10 ^ 6" "M + dval o' - 3 * M / 10 ^ 6 \<le> u"
    using round_both [of "M + dval o'" "3 * M"] M o'(2) unfolding u_def by (simp_all add: abs_le_iff field_simps)
  define w where "w = round_sig 34 (u - l)"
  have "\<bar>u - l\<bar> \<le> 4 * M" using l u M o'(2) by (simp add: abs_le_iff field_simps)
  from round_both [OF this] have w: "w \<le> u - l + 4 * M / 10 ^ 6" "u - l - 4 * M / 10 ^ 6 \<le> w" by (simp_all add: w_def)
  define t where "t = round_sig 34 (1 / 10 * w)"
  have "\<bar>1 / 10 * w\<bar> \<le> M" using l u w M o'(2) by (simp add: abs_le_iff field_simps)
  from round_both [OF this] have t: "t \<le> 1 / 10 * w + M / 10 ^ 6" "1 / 10 * w - M / 10 ^ 6 \<le> t" by (simp_all add: t_def)
  have sum: "M / 20 \<le> l + t" "l + t \<le> 2 * M" using l u w t M o'(2) by (simp_all add: field_simps)
  then have "\<bar>l + t\<bar> \<le> 2 * M" using M by (simp add: abs_le_iff field_simps)
  from round_both [OF this] have r: "M / 25 \<le> round_sig 34 (l + t)" "round_sig 34 (l + t) \<le> 3 * M"
    using sum M by (simp_all add: field_simps)
  obtain width where width: "sub_at 34 (bb_upper b) (bb_lower b) = Inr width" "is_finite width" "dval width = w"
    using lower upper by (simp add: finite_arith w_def)
  obtain part where part: "mul_at 34 (Fin (10 / 100)) width = Inr part" "is_finite part" "dval part = t"
    using width by (simp add: finite_arith t_def)
  obtain tp where tp: "add_at 34 (bb_lower b) part = Inr tp" "is_finite tp" "dval tp = round_sig 34 (l + t)"
    using lower part by (simp add: finite_arith)
  show ?thesis using that [of tp] width(1) part(1) tp r by (simp add: calculate_tp_price_def M_def)
qed

section \<open>The calculation fails closed\<close>

lemma resolve_error: "resolve_one_minute_close m k = Inl e \<Longrightarrow> e = MarketEvaluationCalculationError"
  by (auto simp: resolve_one_minute_close_def ebind_eq_Inl split: if_splits)

definition within_three :: "rat \<Rightarrow> decimal \<Rightarrow> bool" where
  "within_three lo d \<longleftrightarrow> is_finite d \<and> lo \<le> dval d \<and> dval d \<le> 3 * lo"

lemma typical_prices_value:
  assumes "\<forall>k\<in>set ks. kline_ok k"
  obtains ts where "map_res typical_price_of ks = Inr ts" "list_all positive ts" "length ts = length ks"
proof -
  have "\<forall>k\<in>set ks. \<exists>t. typical_price_of k = Inr t \<and> positive t"
    using assms typical_price_value kline_prices unfolding typical_price_of_def by blast
  from map_res_values [OF this] show ?thesis using that by (metis list_all_iff)
qed

text \<open>What keeps an evaluation from being calculated.\<close>

definition evaluation_blocked :: "market_state \<Rightarrow> kline \<Rightarrow> bool" where
  "evaluation_blocked m k \<longleftrightarrow>
     (ms_sources m \<noteq> [] \<and> (\<exists>e. resolve_one_minute_close m k = Inl e)) \<or> length (closed_candles m) < 20 \<or>
     (\<exists>e. calculate_bollinger_bands (band_prices m k) = Inl e) \<or>
     (\<exists>e. calculate_bollinger_bands (last_values 20 (map kl_close (closed_candles m))) = Inl e)"

lemma values_fail_closed:
  assumes inv: "market_inv m" "ms_ready m" and lo: "0 < lo"
    and prices: "\<forall>x\<in>set (ms_klines m THIRTY_MINUTES). within_three lo (kl_close x)"
    and source: "\<And>s. ms_sources m \<noteq> [] \<Longrightarrow> resolve_one_minute_close m k = Inr (Some s) \<Longrightarrow> within_three lo (kl_close s)"
  shows "if evaluation_blocked m k then calculate_evaluation_values m k = Inl MarketEvaluationCalculationError
    else \<exists>v. calculate_evaluation_values m k = Inr v"
proof (rule ccontr)
  assume contra: "\<not> ?thesis"
  define one where "one = (if ms_sources m = [] then Inr None else resolve_one_minute_close m k)"
  define closes where "closes = map kl_close (closed_candles m)"
  define latest where "latest = last (ms_klines m THIRTY_MINUTES)"
  note def = calculate_evaluation_values_def [of m k, unfolded Let_def bollinger_period_def, folded closed_candles_def,
      folded band_prices_def, folded one_def closes_def latest_def]
  have failed: "\<not> (calculate_evaluation_values m k = Inl MarketEvaluationCalculationError \<and> evaluation_blocked m k)"
    using contra by (auto split: if_splits)
  obtain om where om: "one = Inr om"
  proof (cases one)
    case (Inl e)
    then have "ms_sources m \<noteq> []" "resolve_one_minute_close m k = Inl e" by (auto simp: one_def split: if_splits)
    then have "evaluation_blocked m k" "e = MarketEvaluationCalculationError"
      by (auto simp: evaluation_blocked_def dest: resolve_error)
    then show ?thesis using failed Inl by (simp add: def)
  qed
  have om_price: "\<And>s. om = Some s \<Longrightarrow> within_three lo (kl_close s)" using om source by (auto simp: one_def split: if_splits)
  have len: "20 \<le> length (closed_candles m)"
  proof (rule ccontr)
    assume "\<not> ?thesis"
    then show False using failed om by (simp add: def evaluation_blocked_def)
  qed
  have member: "latest \<in> set (ms_klines m THIRTY_MINUTES)" "last (closed_candles m) \<in> set (ms_klines m THIRTY_MINUTES)"
  proof -
    show "latest \<in> set (ms_klines m THIRTY_MINUTES)" unfolding latest_def by (rule last_in_set [OF ready_candles(1) [OF inv]])
    have "closed_candles m \<noteq> []" using len by auto
    from last_in_set [OF this] show "last (closed_candles m) \<in> set (ms_klines m THIRTY_MINUTES)"
      by (simp add: closed_candles_def)
  qed
  obtain e where e: "12 * lo \<le> pow10 e" "pow10 e \<le> 10 * (12 * lo)" by (rule pow10_cover [of "12 * lo"]) (use lo in simp)
  have fits: "positive d \<and> dval d \<le> pow10 e \<and> pow10 e \<le> 10 ^ 20 * dval d" if "within_three lo d" for d
    using that lo e by (simp add: within_three_def positive_iff)
  have closes: "list_all positive closes" "\<forall>p\<in>set closes. dval p \<le> pow10 e" "20 \<le> length closes"
    using prices fits len by (auto simp: closes_def closed_candles_def list_all_iff)
  obtain es where es: "calculate_ema9_series closes = Inr es" "list_all positive es" "length es = length closes - 8"
    "\<forall>y\<in>set es. dval y \<le> pow10 e"
    by (rule ema_series_below [OF _ closes(1,2)]) (use closes(3) in simp_all)
  have es6: "6 \<le> length es" using es(3) closes(3) by simp
  obtain cs where cs: "calculate_normalized_ols_slope (last_values 6 es) (kl_close (last (closed_candles m))) = Inr cs"
    using settled_slope_defined [OF es(2,4) es6] fits prices member(2) by blast
  have price: "within_three lo (kl_close latest)" using prices member(1) by blast
  obtain rs where rs: "(if confirmed_close k then Inr cs else calculate_candidate_ema9_slope es (kl_close latest)) = Inr rs"
    using candidate_slope_defined [OF es(2,4)] es6 fits [OF price] by (cases "confirmed_close k") auto
  note early = def om len es(1) es6 cs rs
  obtain b where b: "calculate_bollinger_bands (band_prices m k) = Inr b" "bands_ok b"
    using bollinger_cases [OF band_prices_ok(1,2) [OF inv len], of k] failed
    by (auto simp: early evaluation_blocked_def)
  obtain pct where pct: "calculate_pct_b (kl_close latest) (bb_lower b) (bb_upper b) = Inr pct"
    using pct_b_value [OF b(2)] price by (auto simp: within_three_def)
  have settled: "length (last_values 20 closes) = 20" "list_all positive (last_values 20 closes)"
    using closes last_values_subset [of 20 closes] by (auto simp: length_last_values list_all_iff)
  obtain c where c: "calculate_bollinger_bands (last_values 20 closes) = Inr c" "bands_ok c"
    using bollinger_cases [OF settled] failed
    by (auto simp: early b(1) pct evaluation_blocked_def closes_def [symmetric])
  have "is_finite (kl_close (last (closed_candles m)))" using prices member(2) by (simp add: within_three_def)
  from pct_b_value [OF c(2) this] obtain pc where pc:
    "calculate_pct_b (kl_close (last (closed_candles m))) (bb_lower c) (bb_upper c) = Inr pc" by blast
  define ks where "ks = (if confirmed_close k then last_values 20 (closed_candles m)
    else last_values 19 (closed_candles m) @ [latest])"
  have ks: "\<forall>x\<in>set ks. kline_ok x" "length ks = 20"
  proof -
    have "set (last_values n (closed_candles m)) \<subseteq> set (ms_klines m THIRTY_MINUTES)" for n
      using last_values_subset [of n "closed_candles m"] by (auto simp: closed_candles_def)
    then have "set ks \<subseteq> set (ms_klines m THIRTY_MINUTES)" using member(1) by (simp add: ks_def)
    then show "\<forall>x\<in>set ks. kline_ok x" using ready_candles(2) [OF inv] by blast
    show "length ks = 20" using len by (simp add: ks_def length_last_values)
  qed
  obtain ts where ts: "map_res typical_price_of ks = Inr ts" "list_all positive ts" "length ts = 20"
    by (rule typical_prices_value [OF ks(1)]) (use ks(2) in simp)
  obtain cci where cci: "calculate_cci ts = Inr cci" using cci_value [OF ts(3,2)] by blast
  have bp: "\<forall>p\<in>set (band_prices m k). is_finite p \<and> lo \<le> dval p \<and> dval p \<le> 3 * lo"
    using band_prices_ok(3) [OF inv len, of k] prices by (auto simp: within_three_def)
  obtain offs where offs: "is_finite offs" "0 \<le> dval offs" "dval offs \<le> 117 / 100 * dval (bb_middle b)"
    "9 / 10 * lo \<le> dval (bb_middle b)" "dval (bb_middle b) \<le> 4 * lo"
    "sub_at 34 (bb_middle b) offs = Inr (bb_lower b)" "add_at 34 (bb_middle b) offs = Inr (bb_upper b)"
    "is_finite (bb_middle b)"
    by (rule offset_below [OF band_prices_ok(1) [OF inv len] bp lo b(1)])
  have "0 < dval (bb_middle b)" using offs(4) lo by simp
  then obtain tp where tp: "calculate_tp_price b = Inr tp" "is_finite tp" "dval (bb_middle b) / 25 \<le> dval tp"
    "dval tp \<le> 3 * dval (bb_middle b)"
    by (rule tp_price_above [OF offs(8) _ offs(1,2,3,6,7)])
  have tpp: "positive tp" "dval tp \<le> pow10 e" "pow10 e \<le> 10 ^ 20 * dval tp"
    using tp offs(4,5) lo e by (simp_all add: positive_iff field_simps)
  have "list_all positive (butlast closes)" "\<forall>p\<in>set (butlast closes). dval p \<le> pow10 e"
    using closes(1,2) by (auto simp: list_all_iff dest: in_set_butlastD)
  then obtain fs where fs: "calculate_ema9_series (butlast closes) = Inr fs" "list_all positive fs"
    "length fs = length (butlast closes) - 8" "\<forall>y\<in>set fs. dval y \<le> pow10 e"
    by (rule ema_series_below [rotated]) (use closes(3) in simp_all)
  define base where "base = (if confirmed_close k then fs else es)"
  have base: "(if confirmed_close k then calculate_ema9_series (butlast closes) else Inr es) = Inr base"
    "list_all positive base" "\<forall>y\<in>set base. dval y \<le> pow10 e" "5 \<le> length base"
  proof -
    have "5 \<le> length fs" "5 \<le> length es" using fs(3) es(3) closes(3) by simp_all
    then show "5 \<le> length base" by (simp add: base_def)
  qed (use fs es in \<open>simp_all add: base_def\<close>)
  obtain tps where tps: "calculate_candidate_ema9_slope base tp = Inr tps"
    using candidate_slope_defined [OF base(2-4) tpp] by blast
  obtain close_slope where close_slope: "(case om of None \<Rightarrow> Inr rs | Some s \<Rightarrow> calculate_candidate_ema9_slope base (kl_close s)) = Inr close_slope"
    using candidate_slope_defined [OF base(2-4)] fits om_price by (cases om) auto
  have "\<exists>v. calculate_evaluation_values m k = Inr v"
    by (simp add: early b(1) pct c(1) pc ks_def [symmetric] ts(1) cci tp(1) base(1) tps close_slope)
  moreover have "\<not> evaluation_blocked m k"
    using om len b(1) c(1) by (auto simp: evaluation_blocked_def one_def closes_def split: if_splits)
  ultimately show False using contra by simp
qed

end
