(* ===== verification/Evaluation_Samples.thy ===== *)
theory Evaluation_Samples
  imports Evaluation_Bounds Market_Samples
begin

text \<open>
  A concrete market at which an evaluation is defined: twenty closed candles of thirty minutes that
  close at 99 and 101 in turn, and an open one at 99.
\<close>

section \<open>Bands that are wide enough\<close>

lemma bands_defined:
  assumes run: "length ps = 20" "sum_at 34 dzero ps = Inr tot" "div_at 34 tot (Fin 20) = Inr (Fin 100)"
    "map_res (squared_difference (Fin 100)) ps = Inr sq" "sum_at 34 dzero sq = Inr st"
    "div_at 34 st (Fin 20) = Inr (Fin 1)"
  shows "\<exists>b. calculate_bollinger_bands ps = Inr b"
proof -
  obtain s where s: "sqrt_at 34 (Fin 1) = Inr s" "is_finite s" "0 \<le> dval s" "\<bar>dval s * dval s - 1\<bar> \<le> 1 * (2 / 10 ^ 33)"
    by (rule sqrt_at_value [of "Fin 1"]) auto
  have "1 - dval s * dval s \<le> 2 / 10 ^ 33" using s(4) unfolding abs_le_iff by simp
  then have "1 / 2 * (1 / 2) \<le> dval s * dval s" by simp
  then have half: "1 / 2 \<le> dval s" by (rule power2_le_imp_le [of "1 / 2 :: rat", unfolded power2_eq_square, OF _ s(3)])
  obtain offs where o': "mul_at 34 s (Fin 2) = Inr offs" "is_finite offs" "dval offs = round_sig 34 (dval s * 2)"
    using s(2) by (simp add: finite_arith)
  have wide: "1 \<le> dval offs" unfolding o'(3) by (rule r34.above [OF round34_one]) (use half in simp)
  obtain l where l: "sub_at 34 (Fin 100) offs = Inr l" "is_finite l" "dval l = round_sig 34 (100 - dval offs)"
    using o'(2) by (simp add: finite_arith)
  obtain u where u: "add_at 34 (Fin 100) offs = Inr u" "is_finite u" "dval u = round_sig 34 (100 + dval offs)"
    using o'(2) by (simp add: finite_arith)
  have "round_sig 34 99 = 99" "round_sig 34 101 = 101" by simp_all
  then have "dval l \<le> 99" "101 \<le> dval u"
    unfolding l(3) u(3) using wide by (auto intro: r34.below r34.above)
  then have apart: "\<not> dval u \<le> dval l" by simp
  obtain w where w: "sub_at 34 u l = Inr w" "is_finite w" using l u by (simp add: finite_arith)
  obtain r where r: "div_at 34 w (Fin 100) = Inr r" using w(2) by (simp add: finite_arith)
  show ?thesis
    using run s(1) o'(1) l u apart w(1) r
    by (simp add: calculate_bollinger_bands_def bollinger_period_def finite_arith)
qed

definition alternating :: "rat \<Rightarrow> decimal list" where
  "alternating d = concat (replicate 10 [Fin (100 - d), Fin (100 + d)])"

lemma alternating_list:
  "alternating d = [Fin (100 - d), Fin (100 + d), Fin (100 - d), Fin (100 + d), Fin (100 - d), Fin (100 + d),
     Fin (100 - d), Fin (100 + d), Fin (100 - d), Fin (100 + d), Fin (100 - d), Fin (100 + d), Fin (100 - d),
     Fin (100 + d), Fin (100 - d), Fin (100 + d), Fin (100 - d), Fin (100 + d), Fin (100 - d), Fin (100 + d)]"
  by (simp add: alternating_def numeral_eq_Suc)

lemma add_plain:
  "add_at 34 dzero (Fin r) = Inr (dec_of False (round_sig 34 r))"
  "add_at 34 (Fin x) (Fin y) = Inr (dec_of False (round_sig 34 (x + y)))"
  by (simp_all add: add_at_def dzero_def)

lemma sub_plain: "sub_at 34 (Fin x) (Fin y) = Inr (dec_of False (round_sig 34 (x - y)))" if "y \<noteq> 0"
  using that by (simp add: sub_at_def add_at_def)

lemma dec_of_plain: "dec_of False r = Fin r" by (simp add: dec_of_def)

lemma square_plain: "squared_difference (Fin 100) (Fin 99) = Inr (Fin 1)" "squared_difference (Fin 100) (Fin 101) = Inr (Fin 1)"
proof -
  have "round_sig 34 (- 1) = - 1" using round34_one by (simp only: round_sig_uminus)
  then show "squared_difference (Fin 100) (Fin 99) = Inr (Fin 1)"
    by (simp add: squared_difference_def sub_plain mul_at_def dec_of_plain)
  show "squared_difference (Fin 100) (Fin 101) = Inr (Fin 1)"
    by (simp add: squared_difference_def sub_plain mul_at_def dec_of_plain)
qed

lemma twenty_ones: "sum_at 34 dzero (replicate 20 (Fin 1)) = Inr (Fin 20)"
proof -
  have "replicate 20 (Fin 1) = [Fin 1, Fin 1, Fin 1, Fin 1, Fin 1, Fin 1, Fin 1, Fin 1, Fin 1, Fin 1,
      Fin 1, Fin 1, Fin 1, Fin 1, Fin 1, Fin 1, Fin 1, Fin 1, Fin 1, Fin 1]" by (simp add: numeral_eq_Suc)
  then show ?thesis by (simp add: add_plain dec_of_plain)
qed

lemma alternating_bands: "\<exists>b. calculate_bollinger_bands (alternating 1) = Inr b"
  "\<exists>b. calculate_bollinger_bands (alternating (- 1)) = Inr b"
proof -
  have ones: "[Fin 1, Fin 1, Fin 1, Fin 1, Fin 1, Fin 1, Fin 1, Fin 1, Fin 1, Fin 1,
      Fin 1, Fin 1, Fin 1, Fin 1, Fin 1, Fin 1, Fin 1, Fin 1, Fin 1, Fin 1] = replicate 20 (Fin 1)"
    by (simp add: numeral_eq_Suc)
  have div: "div_at 34 (Fin 2000) (Fin 20) = Inr (Fin 100)" "div_at 34 (Fin 20) (Fin 20) = Inr (Fin 1)"
    by (simp_all add: div_at_def dec_of_def)
  show "\<exists>b. calculate_bollinger_bands (alternating 1) = Inr b"
    by (rule bands_defined [where tot = "Fin 2000" and sq = "replicate 20 (Fin 1)" and st = "Fin 20"])
      (simp_all only: twenty_ones div, simp_all add: alternating_list add_plain dec_of_plain square_plain ones)
  show "\<exists>b. calculate_bollinger_bands (alternating (- 1)) = Inr b"
    by (rule bands_defined [where tot = "Fin 2000" and sq = "replicate 20 (Fin 1)" and st = "Fin 20"])
      (simp_all only: twenty_ones div, simp_all add: alternating_list add_plain dec_of_plain square_plain ones)
qed

section \<open>The market\<close>

definition band_candle :: "int \<Rightarrow> kline" where
  "band_candle n =
     sample_kline THIRTY_MINUTES (201600000000 + (n - 20) * 1800000000) 110 90 (n < 20)
       \<lparr>kl_close := Fin (if even n then 99 else 101),
         kl_event_time := (if n < 20 then None else Some (utc 201600000000))\<rparr>"

definition band_market :: market_state where
  "band_market =
     sample_market\<lparr>ms_klines := sample_market_klines(THIRTY_MINUTES := map band_candle [0..20])\<rparr>"

lemma upto_twenty: "[0..20] = [0, 1, 2, 3, 4, 5, 6, 7, 8, 9, 10, 11, 12, 13, 14, 15, 16, 17, 18, 19, 20 :: int]"
  by code_simp

lemma band_candle_sel [simp]:
  "kl_symbol (band_candle n) = supported_symbol" "kl_interval (band_candle n) = THIRTY_MINUTES"
  "kl_open_time (band_candle n) = utc (201600000000 + (n - 20) * 1800000000)" "kl_closed (band_candle n) = (n < 20)"
  "kl_close (band_candle n) = Fin (if even n then 99 else 101)" "kl_event_time (band_candle n) = (if n < 20 then None else Some (utc 201600000000))"
  by (simp_all add: band_candle_def)

lemma band_candle_ok [simp]: "kline_ok (band_candle n)"
  by (simp add: kline_ok_def kline_prices_ok_def sample_kline_def dmax_def band_candle_def)

lemma band_market_klines:
  "ms_klines band_market THIRTY_MINUTES = map band_candle [0..20]"
  "i \<noteq> THIRTY_MINUTES \<Longrightarrow> ms_klines band_market i = sample_market_klines i"
  by (simp_all add: band_market_def)

lemma band_market_sel [simp]: "ms_ready band_market" "ms_sources band_market = []" "ms_version band_market = 1"
  by (simp_all add: band_market_def sample_market_def)

lemma band_candles_continuous: "continuous 1800000000 (map band_candle [0..20])"
  by (simp add: upto_twenty)

lemma band_interval_ok: "interval_ok i 201600000000 (ms_klines band_market i)"
proof (cases "i = THIRTY_MINUTES")
  case True
  have "kline_at_time 1800000000 201600000000 (band_candle n)" if "n \<in> set [0..20]" for n
    using that by (auto simp: kline_at_time_def)
  then show ?thesis
    using True band_candles_continuous by (simp add: band_market_klines interval_ok_def list_all_iff)
next
  case False
  then show ?thesis using sample_interval_ok [of i] by (simp add: band_market_klines)
qed

lemma band_market_inv [simp]: "market_inv band_market"
proof -
  have "ms_updated_at band_market = Some (utc 201600000000)" "ms_price band_market = Some (Fin 100)"
    by (simp_all add: band_market_def sample_market_def)
  moreover have "kl_close (last (sample_market_klines FOUR_HOURS)) = Fin 100"
    by (simp add: sample_market_klines_def upto_fifteen sample_hours_def)
  ultimately show ?thesis
    using band_interval_ok sample_current by (auto simp: market_inv_def band_market_klines)
qed

lemma band_market_closed: "closed_candles band_market = map band_candle [0..19]"
  by (simp add: closed_candles_def band_market_klines upto_twenty) code_simp

lemma upto_nineteen: "[0..19] = [0, 1, 2, 3, 4, 5, 6, 7, 8, 9, 10, 11, 12, 13, 14, 15, 16, 17, 18, 19 :: int]"
  by code_simp

lemma band_market_prices: "x \<in> set (ms_klines band_market THIRTY_MINUTES) \<Longrightarrow> within_three 50 (kl_close x)"
  by (auto simp: band_market_klines within_three_def)

lemma band_market_last: "last (ms_klines band_market THIRTY_MINUTES) = band_candle 20"
  by (simp add: band_market_klines upto_twenty)

lemma band_not_blocked: "\<not> evaluation_blocked band_market (band_candle 20)"
proof -
  have "map kl_close (closed_candles band_market) = alternating 1"
    by (simp add: band_market_closed upto_nineteen alternating_list)
  then have "last_values 20 (map kl_close (closed_candles band_market)) = alternating 1"
    "band_prices band_market (band_candle 20) = alternating (- 1)"
    by (simp_all add: band_prices_def confirmed_close_def band_market_last last_values_def alternating_list)
  moreover have "length (closed_candles band_market) = 20" by (simp add: band_market_closed)
  ultimately show ?thesis using alternating_bands by (auto simp: evaluation_blocked_def)
qed

lemma band_market_values: "\<exists>v. calculate_evaluation_values band_market (band_candle 20) = Inr v"
  using values_fail_closed [of band_market 50 "band_candle 20"] band_market_prices band_not_blocked by auto

section \<open>A live call\<close>

definition live_market :: market_state where
  "live_market = band_market\<lparr>ms_version := 2, ms_sources := [band_candle 20]\<rparr>"

lemma live_market_sel [simp]:
  "ms_ready live_market" "ms_sources live_market = [band_candle 20]" "ms_version live_market = 2"
  "ms_klines live_market = ms_klines band_market" "ms_updated_at live_market = ms_updated_at band_market"
  by (simp_all add: live_market_def)

lemma live_market_inv [simp]: "market_inv live_market"
  using band_market_inv by (simp add: market_inv_def) (simp add: live_market_def)

lemma live_resolved: "resolve_one_minute_close live_market (band_candle 20) = Inr None"
  by (simp add: resolve_one_minute_close_def)

lemma live_not_blocked: "\<not> evaluation_blocked live_market (band_candle 20)"
proof -
  have "closed_candles live_market = closed_candles band_market" "band_prices live_market k = band_prices band_market k" for k
    by (simp_all add: closed_candles_def band_prices_def)
  then show ?thesis using band_not_blocked by (simp add: evaluation_blocked_def live_resolved)
qed

lemma live_validated: "validate_source new_builder live_market (band_candle 20) = Inr True"
  by (simp add: validate_source_def live_resolved event_reaches_def new_builder_def band_market_last [simplified]
      band_market_klines strategy_interval_def upto_twenty)

end
