(* ===== verification/Account_State.thy ===== *)
theory Account_State
  imports Order_Fills "HOL-Library.AList"
begin

text \<open>
  The account (\<open>domain/trading/account.py\<close>): the balances of all assets with the price and the
  valuation of one version, replaced by full snapshots of REST and patched by the account stream.
  The execution that an account query proves (\<open>domain/trading/account_execution.py\<close>) stands at the
  end.
\<close>

section \<open>Balances\<close>

record asset_balance =
  ab_asset :: string
  ab_free :: decimal
  ab_locked :: decimal

definition asset_name_ok :: "string \<Rightarrow> bool" where
  "asset_name_ok s \<longleftrightarrow> trimmed_text s \<and> list_all (\<lambda>c. \<not> py_isspace c \<and> 32 \<le> (of_char c :: nat)) s"

definition balance_ok :: "asset_balance \<Rightarrow> bool" where
  "balance_ok b \<longleftrightarrow> asset_name_ok (ab_asset b) \<and> non_negative (ab_free b) \<and> non_negative (ab_locked b)"

definition make_balance :: "asset_balance \<Rightarrow> asset_balance res" where
  "make_balance b = ebind (require (balance_ok b) ValueError) (\<lambda>_. Inr b)"

definition balance_total :: "asset_balance \<Rightarrow> decimal res" where
  "balance_total b = dadd (ab_free b) (ab_locked b)"

text \<open>The equality of the dataclass identifies equal decimals.\<close>

definition balance_same :: "asset_balance \<Rightarrow> asset_balance \<Rightarrow> bool" where
  "balance_same a b \<longleftrightarrow> ab_asset a = ab_asset b \<and> deq (ab_free a) (ab_free b) \<and> deq (ab_locked a) (ab_locked b)"

record account_snapshot =
  an_balances :: "asset_balance list"
  an_updated_at :: moment
  an_full :: bool

definition make_account_snapshot :: "account_snapshot \<Rightarrow> account_snapshot res" where
  "make_account_snapshot n =
     ebind (require (distinct (map ab_asset (an_balances n))) ValueError) (\<lambda>_.
     ebind (normalize_utc (an_updated_at n)) (\<lambda>t. Inr (n\<lparr>an_updated_at := t\<rparr>)))"

text \<open>A dictionary of balances, in the order of insertion.\<close>

type_synonym balances = "(string \<times> asset_balance) list"

definition balances_by_asset :: "account_snapshot \<Rightarrow> balances" where
  "balances_by_asset n = map (\<lambda>b. (ab_asset b, b)) (an_balances n)"

definition balances_same :: "balances \<Rightarrow> balances \<Rightarrow> bool" where
  "balances_same a b \<longleftrightarrow>
     length a = length b \<and>
     list_all (\<lambda>(k, v). case map_of b k of None \<Rightarrow> False | Some w \<Rightarrow> balance_same v w) a"

section \<open>The account\<close>

record account_state =
  ac_balances :: balances
  ac_price :: "decimal option"
  ac_valuation :: "decimal option"
  ac_updated_at :: "moment option"
  ac_version :: int
  ac_ready :: bool

definition empty_account :: account_state where
  "empty_account =
     \<lparr>ac_balances = [], ac_price = None, ac_valuation = None, ac_updated_at = None, ac_version = 0,
      ac_ready = False\<rparr>"

definition valuation_asset :: string where
  "valuation_asset = ''ETH''"

definition new_account :: "string \<Rightarrow> account_state res" where
  "new_account asset =
     ebind (require (asset_name_ok asset \<and> asset = valuation_asset) ValueError) (\<lambda>_. Inr empty_account)"

definition get_holdings :: "string \<Rightarrow> account_state \<Rightarrow> decimal res" where
  "get_holdings asset st =
     ebind (require (asset_name_ok asset) ValueError) (\<lambda>_.
     case map_of (ac_balances st) asset of None \<Rightarrow> Inr dzero | Some b \<Rightarrow> balance_total b)"

definition calculate_valuation :: "balances \<Rightarrow> decimal \<Rightarrow> decimal res" where
  "calculate_valuation bs price =
     (case map_of bs valuation_asset of
        None \<Rightarrow> Inr dzero
      | Some b \<Rightarrow> ebind (balance_total b) (\<lambda>t. dmul t price))"

text \<open>The same full fact: ready, at the same time, with the same balances and price.\<close>

definition same_account_fact :: "account_snapshot \<Rightarrow> decimal \<Rightarrow> account_state \<Rightarrow> bool" where
  "same_account_fact n price st \<longleftrightarrow>
     ac_ready st \<and> (case ac_updated_at st of None \<Rightarrow> False | Some u \<Rightarrow> instant u = instant (an_updated_at n)) \<and>
     balances_same (ac_balances st) (balances_by_asset n) \<and>
     (case ac_price st of None \<Rightarrow> False | Some p \<Rightarrow> deq p price)"

definition older_than :: "account_snapshot \<Rightarrow> account_state \<Rightarrow> bool" where
  "older_than n st \<longleftrightarrow>
     (case ac_updated_at st of None \<Rightarrow> False | Some u \<Rightarrow> instant (an_updated_at n) < instant u)"

definition apply_full_snapshot ::
  "bool \<Rightarrow> bool \<Rightarrow> account_snapshot \<Rightarrow> decimal \<Rightarrow> account_state \<Rightarrow> (bool \<times> account_state) res" where
  "apply_full_snapshot replace_stream ignore_stale n price st =
     ebind (require (an_full n) ValueError) (\<lambda>_.
     ebind (require (non_negative price) ValueError) (\<lambda>_.
     ebind (require (\<not> deq price dzero) ValueError) (\<lambda>_.
     ebind (calculate_valuation (balances_by_asset n) price) (\<lambda>v.
     if older_than n st \<and> ignore_stale then Inr (False, st)
     else if older_than n st \<and> \<not> replace_stream then Inl ValueError
     else if same_account_fact n price st then Inr (False, st)
     else Inr (True, \<lparr>ac_balances = balances_by_asset n, ac_price = Some price, ac_valuation = Some v,
            ac_updated_at = Some (an_updated_at n), ac_version = ac_version st + 1, ac_ready = True\<rparr>)))))"

definition apply_initial_snapshot :: "account_snapshot \<Rightarrow> decimal \<Rightarrow> account_state \<Rightarrow> (bool \<times> account_state) res" where
  "apply_initial_snapshot = apply_full_snapshot False False"

definition apply_reconciliation_snapshot ::
  "account_snapshot \<Rightarrow> decimal \<Rightarrow> account_state \<Rightarrow> (bool \<times> account_state) res" where
  "apply_reconciliation_snapshot = apply_full_snapshot True False"

definition apply_startup_reconciliation_snapshot ::
  "account_snapshot \<Rightarrow> decimal \<Rightarrow> account_state \<Rightarrow> (bool \<times> account_state) res" where
  "apply_startup_reconciliation_snapshot = apply_full_snapshot True True"

text \<open>One entry of a patch: whether it changes a balance, and the dictionary with it.\<close>

definition patch_balance :: "string \<times> asset_balance \<Rightarrow> bool \<times> balances \<Rightarrow> bool \<times> balances" where
  "patch_balance = (\<lambda>(k, b) (changed, bs).
     (changed \<or> (case map_of bs k of None \<Rightarrow> True | Some old \<Rightarrow> \<not> balance_same old b), AList.update k b bs))"

definition apply_stream_snapshot :: "account_snapshot \<Rightarrow> account_state \<Rightarrow> (bool \<times> account_state) res" where
  "apply_stream_snapshot n st =
     (if an_full n then Inl ValueError
      else if \<not> ac_ready st then Inl RuntimeError
      else case (ac_updated_at st, ac_price st) of
        (Some u, Some price) \<Rightarrow>
          if instant (an_updated_at n) < instant u then Inr (False, st)
          else let (changed, bs) = fold patch_balance (balances_by_asset n) (False, ac_balances st) in
            if \<not> changed \<and> instant (an_updated_at n) = instant u then Inr (False, st)
            else ebind (calculate_valuation bs price) (\<lambda>v.
              Inr (True, \<lparr>ac_balances = bs, ac_price = Some price, ac_valuation = Some v,
                ac_updated_at = Some (an_updated_at n), ac_version = ac_version st + 1, ac_ready = True\<rparr>))
      | _ \<Rightarrow> Inl RuntimeError)"

section \<open>The invariant\<close>

definition account_snapshot_ok :: "account_snapshot \<Rightarrow> bool" where
  "account_snapshot_ok n \<longleftrightarrow>
     list_all balance_ok (an_balances n) \<and> distinct (map ab_asset (an_balances n)) \<and> is_utc (an_updated_at n)"

definition balances_ok :: "balances \<Rightarrow> bool" where
  "balances_ok bs \<longleftrightarrow> distinct (map fst bs) \<and> list_all (\<lambda>(k, b). k = ab_asset b \<and> balance_ok b) bs"

definition account_inv :: "account_state \<Rightarrow> bool" where
  "account_inv st \<longleftrightarrow>
     (if ac_ready st
      then 1 \<le> ac_version st \<and> balances_ok (ac_balances st) \<and> opt_all is_utc (ac_updated_at st) \<and>
        ac_updated_at st \<noteq> None \<and>
        (\<exists>p v. ac_price st = Some p \<and> positive p \<and> ac_valuation st = Some v \<and>
           calculate_valuation (ac_balances st) p = Inr v \<and> non_negative v)
      else st = empty_account)"

lemma account_inv_empty [simp]: "account_inv empty_account"
  by (simp add: account_inv_def empty_account_def)

lemma non_negative_positive: "non_negative p \<Longrightarrow> \<not> deq p dzero \<Longrightarrow> positive p"
  unfolding non_negative_iff positive_iff by (simp add: deq_finite)

lemma round28_nonneg: "0 \<le> r \<Longrightarrow> 0 \<le> round28 r"
  using r28.nonneg [of r] by (simp add: round_sig_28)

lemma valuation_value:
  assumes "balances_ok bs" "positive p"
  obtains v where "calculate_valuation bs p = Inr v" "non_negative v"
proof (cases "map_of bs valuation_asset")
  case None
  then show ?thesis using that by (simp add: calculate_valuation_def non_negative_iff)
next
  case (Some b)
  then have b: "balance_ok b" using assms(1) by (auto simp: balances_ok_def list_all_iff dest: map_of_SomeD)
  then have fin: "is_finite (ab_free b)" "is_finite (ab_locked b)" "0 \<le> dval (ab_free b)" "0 \<le> dval (ab_locked b)"
    by (simp_all add: balance_ok_def non_negative_iff)
  obtain t where t: "balance_total b = Inr t" "is_finite t" "dval t = round28 (dval (ab_free b) + dval (ab_locked b))"
    using dadd_finite [OF fin(1,2)] by (auto simp: balance_total_def)
  have p: "is_finite p" "0 < dval p" using assms(2) by (simp_all add: positive_iff)
  obtain v where v: "dmul t p = Inr v" "is_finite v" "dval v = round28 (dval t * dval p)"
    using dmul_finite [OF t(2) p(1)] by blast
  have "0 \<le> dval t" using fin(3,4) by (simp add: t(3) round28_nonneg)
  then have "0 \<le> dval v" using p(2) by (simp add: v(3) round28_nonneg)
  then show ?thesis using that Some t(1) v(1,2) by (simp add: calculate_valuation_def non_negative_iff)
qed

lemma balances_by_asset_ok: "account_snapshot_ok n \<Longrightarrow> balances_ok (balances_by_asset n)"
  by (simp add: account_snapshot_ok_def balances_ok_def balances_by_asset_def list_all_iff comp_def)

text \<open>A patch keeps the dictionary valid, takes over its own balances and no others.\<close>

lemma update_entries: "set (AList.update k v al) \<subseteq> insert (k, v) (set al)"
  by (induction al) auto

lemma patch_balances_ok:
  "balances_ok bs \<Longrightarrow> list_all (\<lambda>(k, b). k = ab_asset b \<and> balance_ok b) ps \<Longrightarrow>
   balances_ok (snd (fold patch_balance ps (c, bs)))"
proof (induction ps arbitrary: c bs)
  case (Cons x ps)
  obtain k b where x: "x = (k, b)" by (cases x)
  have "balances_ok (AList.update k b bs)"
    using Cons.prems update_entries [of k b bs] by (auto simp: balances_ok_def list_all_iff x distinct_update)
  then show ?case using Cons by (simp add: x patch_balance_def)
qed simp

lemma patch_lookup:
  "map_of (snd (fold patch_balance ps (c, bs))) k =
     (case map_of (rev ps) k of None \<Rightarrow> map_of bs k | Some b \<Rightarrow> Some b)"
proof (induction ps arbitrary: c bs)
  case (Cons x ps)
  then show ?case by (cases x) (auto simp: patch_balance_def update_conv' split: option.splits)
qed simp

lemma patch_again:
  "\<forall>(k, b)\<in>set ps. map_of bs k = Some b \<and> balance_same b b \<Longrightarrow> \<not> fst (fold patch_balance ps (False, bs))"
proof (induction ps arbitrary: bs)
  case (Cons x ps)
  obtain k b where x: "x = (k, b)" by (cases x)
  then have b: "map_of bs k = Some b" "balance_same b b" using Cons.prems by auto
  then have "map_of (AList.update k b bs) = map_of bs" by (simp add: update_conv' map_upd_triv)
  then have "\<not> fst (fold patch_balance ps (False, AList.update k b bs))"
    using Cons.prems by (intro Cons.IH) (auto simp: x)
  then show ?case using b by (simp add: x patch_balance_def)
qed simp

lemma balance_same_refl: "balance_ok b \<Longrightarrow> balance_same b b"
  unfolding balance_ok_def non_negative_iff balance_same_def by (simp add: deq_finite)

section \<open>Sessions\<close>

text \<open>What an accepted call changes: the next version, with the valuation of its own balances.\<close>

lemma apply_full_cases:
  assumes "apply_full_snapshot rs ig n price st = Inr (b, st')" "account_inv st" "account_snapshot_ok n"
  shows "account_inv st' \<and> (if b then ac_version st' = ac_version st + 1 \<and> ac_balances st' = balances_by_asset n \<and>
       ac_price st' = Some price \<and> ac_updated_at st' = Some (an_updated_at n) \<and> (older_than n st \<longrightarrow> rs \<and> \<not> ig)
     else st' = st)"
proof (cases b)
  case False
  then have "st' = st"
    using assms(1) by (auto simp: apply_full_snapshot_def ebind_eq_Inr split: if_splits)
  then show ?thesis using False assms(2) by simp
next
  case True
  obtain v where v: "non_negative price" "\<not> deq price dzero" "calculate_valuation (balances_by_asset n) price = Inr v"
    "st' = \<lparr>ac_balances = balances_by_asset n, ac_price = Some price, ac_valuation = Some v,
      ac_updated_at = Some (an_updated_at n), ac_version = ac_version st + 1, ac_ready = True\<rparr>"
    "older_than n st \<longrightarrow> rs \<and> \<not> ig"
    using assms(1) True by (auto simp: apply_full_snapshot_def ebind_eq_Inr split: if_splits)
  have bs: "balances_ok (balances_by_asset n)" by (rule balances_by_asset_ok [OF assms(3)])
  have pos: "positive price" by (rule non_negative_positive [OF v(1,2)])
  have "0 \<le> ac_version st" using assms(2) by (auto simp: account_inv_def empty_account_def split: if_splits)
  moreover have "non_negative v" using valuation_value [OF bs pos] v(3) by auto
  moreover have "is_utc (an_updated_at n)" using assms(3) by (simp add: account_snapshot_ok_def)
  ultimately show ?thesis using True bs pos v by (simp add: account_inv_def)
qed

lemma apply_stream_cases:
  assumes "apply_stream_snapshot n st = Inr (b, st')" "account_inv st" "account_snapshot_ok n"
  shows "account_inv st' \<and> (if b then ac_version st' = ac_version st + 1 \<and>
       ac_balances st' = snd (fold patch_balance (balances_by_asset n) (False, ac_balances st)) \<and>
       ac_price st' = ac_price st \<and> ac_updated_at st' = Some (an_updated_at n) \<and> \<not> older_than n st
     else st' = st)"
proof -
  have ready: "ac_ready st" using assms(1) by (auto simp: apply_stream_snapshot_def split: if_splits)
  then obtain u price where st: "ac_updated_at st = Some u" "ac_price st = Some price" "positive price"
    "balances_ok (ac_balances st)" "1 \<le> ac_version st"
    using assms(2) by (auto simp: account_inv_def)
  obtain ch bs where fold: "fold patch_balance (balances_by_asset n) (False, ac_balances st) = (ch, bs)"
    by (cases "fold patch_balance (balances_by_asset n) (False, ac_balances st)")
  have "balances_ok (balances_by_asset n)" by (rule balances_by_asset_ok [OF assms(3)])
  then have bs: "balances_ok bs"
    using patch_balances_ok [OF st(4), of "balances_by_asset n" False] fold by (simp add: balances_ok_def)
  obtain v where v: "calculate_valuation bs price = Inr v" "non_negative v" by (rule valuation_value [OF bs st(3)])
  have "is_utc (an_updated_at n)" using assms(3) by (simp add: account_snapshot_ok_def)
  then show ?thesis
    using assms(1,2) ready st bs v fold
    by (auto simp: apply_stream_snapshot_def older_than_def account_inv_def Let_def split: if_splits)
qed

inductive account_run :: "account_state \<Rightarrow> bool" where
  created: "account_run empty_account"
| replaced: "account_run st \<Longrightarrow> account_snapshot_ok n \<Longrightarrow>
    apply_full_snapshot rs ig n price st = Inr (b, st') \<Longrightarrow> account_run st'"
| patched: "account_run st \<Longrightarrow> account_snapshot_ok n \<Longrightarrow> apply_stream_snapshot n st = Inr (b, st') \<Longrightarrow> account_run st'"

lemma account_run_inv: "account_run st \<Longrightarrow> account_inv st"
proof (induction rule: account_run.induct)
  case (replaced st n rs ig price b st')
  then show ?case using apply_full_cases [OF replaced.hyps(3)] by blast
next
  case (patched st n b st')
  then show ?case using apply_stream_cases [OF patched.hyps(3)] by blast
qed simp

section \<open>Executions of an account query\<close>

record account_execution =
  ax_side :: order_side
  ax_requested_quantity :: decimal
  ax_created_at :: moment
  ax_result :: order_result

definition execution_time_ok :: "moment \<Rightarrow> order_result \<Rightarrow> bool" where
  "execution_time_ok created r \<longleftrightarrow>
     list_all (\<lambda>f. instant created \<le> instant (fl_executed_at f) \<and>
       instant (fl_executed_at f) \<le> instant (os_processed_at r)) (os_fills r)"

definition make_account_execution :: "account_execution \<Rightarrow> account_execution res" where
  "make_account_execution x =
     (let r = ax_result x in
     ebind (require (positive (ax_requested_quantity x)) ValueError) (\<lambda>_.
     ebind (require (offset (ax_created_at x) \<noteq> None) ValueError) (\<lambda>_.
     ebind (require (os_fills r \<noteq> [] \<and> distinct (map fill_key (os_fills r))) ValueError) (\<lambda>_.
     ebind (aggregate_fills (os_fills r)) (\<lambda>a.
     ebind (require (os_status r = FILLED \<longrightarrow> deq (ag_quantity a) (ax_requested_quantity x)) ValueError) (\<lambda>_.
     ebind (require (\<not> dlt (ax_requested_quantity x) (ag_quantity a)) ValueError) (\<lambda>_.
     ebind (require (execution_time_ok (ax_created_at x) r) ValueError) (\<lambda>_.
     Inr (x\<lparr>ax_created_at := utc (instant (ax_created_at x))\<rparr>)))))))))"

end
