(* ===== verification/Account_Properties.thy ===== *)
theory Account_Properties
  imports Account_State
begin

text \<open>The properties of the account, with a concrete account.\<close>

definition sample_balances :: account_snapshot where
  "sample_balances =
     \<lparr>an_balances = [\<lparr>ab_asset = ''ETH'', ab_free = Fin 1, ab_locked = Fin 0\<rparr>], an_updated_at = utc 5, an_full = True\<rparr>"

definition sample_patch :: account_snapshot where
  "sample_patch =
     \<lparr>an_balances = [\<lparr>ab_asset = ''USDT'', ab_free = Fin 10, ab_locked = Fin 0\<rparr>], an_updated_at = utc 7, an_full = False\<rparr>"

lemma sample_balances_ok: "account_snapshot_ok sample_balances" "account_snapshot_ok sample_patch"
  by (simp_all add: account_snapshot_ok_def sample_balances_def sample_patch_def balance_ok_def asset_name_ok_def
      trimmed_text_def py_strip_def py_isspace_def non_negative_def)

lemma sample_account:
  obtains st where "apply_initial_snapshot sample_balances (Fin 3000) empty_account = Inr (True, st)"
proof -
  have bs: "balances_ok (balances_by_asset sample_balances)" by (rule balances_by_asset_ok [OF sample_balances_ok(1)])
  obtain v where "calculate_valuation (balances_by_asset sample_balances) (Fin 3000) = Inr v"
    by (rule valuation_value [OF bs, of "Fin 3000"]) (simp add: positive_def dzero_def)
  then show ?thesis
    using that
    by (simp add: apply_initial_snapshot_def apply_full_snapshot_def sample_balances_def older_than_def
        same_account_fact_def empty_account_def non_negative_def deq_def dzero_def)
qed

text \<open>
  C34.  Whatever snapshots and patches were applied: the account satisfies its invariant (valid balances
  under their own names, and the valuation is that of its balances at its price), a call that
  reports a change raises the version by one and takes the time of its source, every other call
  changes nothing, and only a reconciliation that replaces the stream goes back in time.
\<close>

theorem account_follows_its_sources:
  assumes "account_run st" "account_snapshot_ok n"
    "apply_full_snapshot replace_stream ignore_stale n price st = Inr (b, st') \<or> apply_stream_snapshot n st = Inr (b, st')"
  shows "account_inv st' \<and> (\<not> b \<longrightarrow> st' = st) \<and>
    (b \<longrightarrow> ac_version st' = ac_version st + 1 \<and> ac_updated_at st' = Some (an_updated_at n) \<and>
       (\<exists>p v. ac_price st' = Some p \<and> positive p \<and> ac_valuation st' = Some v \<and>
          calculate_valuation (ac_balances st') p = Inr v \<and> non_negative v) \<and>
       (older_than n st \<longrightarrow> replace_stream \<and> \<not> ignore_stale \<and> an_full n))"
proof -
  have inv: "account_inv st" by (rule account_run_inv [OF assms(1)])
  have valued: "\<exists>p v. ac_price st' = Some p \<and> positive p \<and> ac_valuation st' = Some v \<and>
      calculate_valuation (ac_balances st') p = Inr v \<and> non_negative v" if "account_inv st'" "ac_updated_at st' \<noteq> None"
    using that by (auto simp: account_inv_def empty_account_def split: if_splits)
  from assms(3) show ?thesis
  proof
    assume full: "apply_full_snapshot replace_stream ignore_stale n price st = Inr (b, st')"
    then have "an_full n" by (auto simp: apply_full_snapshot_def ebind_eq_Inr)
    then show ?thesis using apply_full_cases [OF full inv assms(2)] valued by (cases b) auto
  next
    assume "apply_stream_snapshot n st = Inr (b, st')"
    from apply_stream_cases [OF this inv assms(2)] show ?thesis using valued by (cases b) auto
  qed
qed

theorem account_follows_its_sources_witness:
  "\<exists>st. apply_initial_snapshot sample_balances (Fin 3000) empty_account = Inr (True, st) \<and> account_inv st \<and>
     ac_version st = 1"
proof -
  obtain st where st: "apply_initial_snapshot sample_balances (Fin 3000) empty_account = Inr (True, st)"
    by (rule sample_account)
  then show ?thesis
    using account_follows_its_sources [OF account_run.created sample_balances_ok(1), of False False "Fin 3000" True st]
    by (simp add: apply_initial_snapshot_def empty_account_def)
qed

lemma map_of_rev_distinct: "distinct (map fst xs) \<Longrightarrow> map_of (rev xs) k = map_of xs k"
proof (cases "map_of xs k")
  case None
  then have "k \<notin> fst ` set xs" by (simp add: map_of_eq_None_iff)
  then have "map_of (rev xs) k = None" by (simp add: map_of_eq_None_iff)
  with None show ?thesis by simp
next
  case (Some v)
  assume "distinct (map fst xs)"
  then show ?thesis using Some by (simp add: map_of_eq_Some_iff rev_map [symmetric])
qed

text \<open>
  An accepted patch of the account stream replaces exactly the balances it names and keeps the
  others with the price, and delivering it again changes nothing.
\<close>

theorem stream_patch_is_exact:
  assumes "account_run st" "account_snapshot_ok n" "apply_stream_snapshot n st = Inr (True, st')"
  shows "map_of (ac_balances st') asset =
      (case map_of (balances_by_asset n) asset of Some b \<Rightarrow> Some b | None \<Rightarrow> map_of (ac_balances st) asset) \<and>
    ac_price st' = ac_price st \<and> apply_stream_snapshot n st' = Inr (False, st')"
proof -
  have inv: "account_inv st" by (rule account_run_inv [OF assms(1)])
  note cases = apply_stream_cases [OF assms(3) inv assms(2)]
  have bs: "balances_ok (balances_by_asset n)" by (rule balances_by_asset_ok [OF assms(2)])
  then have keys: "distinct (map fst (balances_by_asset n))" by (simp add: balances_ok_def)
  have lookup: "map_of (ac_balances st') k =
      (case map_of (balances_by_asset n) k of Some b \<Rightarrow> Some b | None \<Rightarrow> map_of (ac_balances st) k)" for k
    using cases patch_lookup [of "balances_by_asset n" False "ac_balances st" k] map_of_rev_distinct [OF keys, of k]
    by (simp add: option.case_eq_if)
  have "\<forall>(k, b)\<in>set (balances_by_asset n). map_of (ac_balances st') k = Some b \<and> balance_same b b"
    using bs keys lookup balance_same_refl by (fastforce simp: balances_ok_def list_all_iff)
  then have again: "\<not> fst (fold patch_balance (balances_by_asset n) (False, ac_balances st'))" by (rule patch_again)
  have "ac_updated_at st' = Some (an_updated_at n)" "account_inv st'" using cases by simp_all
  then have "ac_ready st'" "ac_updated_at st' = Some (an_updated_at n)" "ac_price st' \<noteq> None" "\<not> an_full n"
    using assms(3)
    by (auto simp: account_inv_def empty_account_def apply_stream_snapshot_def split: if_splits)
  then have "apply_stream_snapshot n st' = Inr (False, st')"
    using again by (auto simp: apply_stream_snapshot_def split: prod.split)
  then show ?thesis using lookup cases by simp
qed

theorem stream_patch_is_exact_witness:
  "\<exists>st st'. apply_stream_snapshot sample_patch st = Inr (True, st') \<and>
     apply_stream_snapshot sample_patch st' = Inr (False, st')"
proof -
  obtain st where st: "apply_initial_snapshot sample_balances (Fin 3000) empty_account = Inr (True, st)"
    by (rule sample_account)
  then have run: "account_run st"
    using account_run.replaced [OF account_run.created sample_balances_ok(1)] by (simp add: apply_initial_snapshot_def)
  have fields: "ac_ready st" "ac_updated_at st = Some (utc 5)" "ac_price st = Some (Fin 3000)"
    "ac_balances st = balances_by_asset sample_balances"
    using st by (auto simp: apply_initial_snapshot_def apply_full_snapshot_def ebind_eq_Inr sample_balances_def split: if_splits)
  define bs where "bs = ac_balances st @ balances_by_asset sample_patch"
  have fold: "fold patch_balance (balances_by_asset sample_patch) (False, ac_balances st) = (True, bs)"
    by (simp add: bs_def fields(4) balances_by_asset_def sample_patch_def sample_balances_def patch_balance_def)
  have "balances_ok bs"
    using balances_by_asset_ok [OF sample_balances_ok(1)] balances_by_asset_ok [OF sample_balances_ok(2)]
    by (simp add: bs_def fields(4) balances_ok_def) (simp add: balances_by_asset_def sample_patch_def sample_balances_def)
  then obtain v where v: "calculate_valuation bs (Fin 3000) = Inr v"
    by (rule valuation_value [of _ "Fin 3000"]) (simp_all add: positive_def dzero_def)
  have "an_updated_at sample_patch = utc 7" "\<not> an_full sample_patch" by (simp_all add: sample_patch_def)
  then obtain st' where "apply_stream_snapshot sample_patch st = Inr (True, st')"
    using fields(1-3) fold v by (simp add: apply_stream_snapshot_def)
  then show ?thesis using stream_patch_is_exact [OF run sample_balances_ok(2)] by blast
qed

end
