(* ===== verification/Evaluation_Properties.thy ===== *)
theory Evaluation_Properties
  imports Evaluation_Samples Account_Properties
begin

text \<open>The properties of the builder of market evaluations, applied at the sample market.\<close>

section \<open>Calls\<close>

lemma validate_error: "validate_source b m k = Inl e \<Longrightarrow> e = MarketEvaluationCalculationError"
  by (auto simp: validate_source_def ebind_eq_Inl Let_def dest: resolve_error split: if_splits)

lemma validate_facts:
  assumes "validate_source b m k = Inr x"
  shows "ms_ready m" "0 < ms_version m" "event_reaches (open_at k) k" "list_ex (kline_same k) (ms_sources m)"
    "kline_same k (last (ms_klines m (kl_interval k)))" "\<And>v. eb_last_version b = Some v \<Longrightarrow> v < ms_version m"
  using assms by (auto simp: validate_source_def ebind_eq_Inr split: if_splits)

text \<open>The one minute source of a validated call is the last one minute candle.\<close>

lemma source_is_last:
  assumes "validate_source b m k = Inr x" "resolve_one_minute_close m k = Inr (Some s)"
  shows "kline_same s (last (ms_klines m ONE_MINUTE))"
proof (cases "list_all2 kline_same (ms_sources m) [k]")
  case True
  then have "s = k" "kl_interval k = ONE_MINUTE"
    using assms(2) by (auto simp: resolve_one_minute_close_def ebind_eq_Inr split: if_splits)
  then show ?thesis using validate_facts(5) [OF assms(1)] by simp
next
  case False
  then have "canonical_sources m k (ms_sources m)" "s = hd (ms_sources m)"
    using assms(2) by (auto simp: resolve_one_minute_close_def ebind_eq_Inr)
  then show ?thesis by (auto simp: canonical_sources_def split: list.splits)
qed

lemma within_three_same: "kline_same a b \<Longrightarrow> within_three lo (kl_close b) \<Longrightarrow> within_three lo (kl_close a)"
proof -
  assume same: "kline_same a b" and b: "within_three lo (kl_close b)"
  have "dnorm (kl_close a) = dnorm (kl_close b)"
    using arg_cong [OF same [unfolded kline_same_def], of kl_close] by (simp add: kline_norm_def)
  then have "is_finite (kl_close a) = is_finite (kl_close b)" "dval (kl_close a) = dval (kl_close b)"
    by (cases "kl_close a"; cases "kl_close b"; simp)+
  then show ?thesis using b by (simp add: within_three_def)
qed

text \<open>
  C35.  A call of the builder raises or returns nothing and leaves the builder as it was, or returns a valid
  evaluation: of a version above that of the previous evaluation, caused by the candle of the call,
  at the close of the last thirty minute candle, with the lower band below the upper one and the
  position on the right side of both, and the builder keeps its invariant.
\<close>

theorem evaluation_is_valid:
  assumes "builder_ok b" "market_inv m"
  shows "case call_builder clock m k b of
      (Inl e, b') \<Rightarrow> b' = b
    | (Inr None, b') \<Rightarrow> b' = b
    | (Inr (Some e), b') \<Rightarrow>
        market_ok e \<and> evaluation_placed e \<and> mk_realtime_price e = kl_close (last (ms_klines m THIRTY_MINUTES)) \<and>
        (\<forall>v. eb_last_version b = Some v \<longrightarrow> v < ms_version m) \<and> eb_last_version b' = Some (ms_version m) \<and>
        event_reaches (open_at k) k \<and> list_ex (kline_same k) (ms_sources m) \<and> builder_ok b'"
proof (cases "validate_source b m k")
  case (Inl e)
  then show ?thesis by (simp add: call_builder_def)
next
  case (Inr x)
  note facts = validate_facts [OF Inr]
  from build_steps_result [OF assms facts(1), where clock = clock and k = k] show ?thesis
    using Inr facts by (auto simp: call_builder_def build_evaluation_def split: sum.splits prod.splits)
qed

lemma live_call:
  "\<exists>e b'. call_builder 5 live_market (band_candle 20) new_builder = (Inr (Some e), b')"
proof -
  obtain v where v: "calculate_evaluation_values live_market (band_candle 20) = Inr v"
    using values_fail_closed [of live_market 50 "band_candle 20"] band_market_prices live_not_blocked live_resolved
    by auto
  have "\<exists>r. build_steps 5 live_market (band_candle 20) new_builder = Inr r"
    using build_steps_tick [OF builder_ok_new live_market_inv _ v, of 5] by (auto simp: new_builder_def)
  then show ?thesis by (auto simp: call_builder_def live_validated build_evaluation_def)
qed

theorem evaluation_is_valid_witness:
  "\<exists>e b'. call_builder 5 live_market (band_candle 20) new_builder = (Inr (Some e), b') \<and> market_ok e \<and>
     evaluation_placed e \<and> eb_last_version b' = Some 2"
  using live_call evaluation_is_valid [OF builder_ok_new live_market_inv, where clock = 5 and k = "band_candle 20"] by auto

text \<open>
  C36.  When the prices of the one and thirty minute candles are within a factor of three and the clock
  returns a time, a call raises nothing but the error of the calculation; and it does return an
  evaluation when the source is accepted, the clock has not gone back, and neither the sources nor
  the twenty candles and their bands stand in the way.
\<close>

theorem evaluation_fails_closed:
  assumes "builder_ok b" "market_inv m" "0 \<le> clock" "0 < lo"
    "\<And>i x. strategy_interval i \<Longrightarrow> x \<in> set (ms_klines m i) \<Longrightarrow> within_three lo (kl_close x)"
  shows "(\<forall>e. fst (call_builder clock m k b) = Inl e \<longrightarrow> e = MarketEvaluationCalculationError) \<and>
    (validate_source b m k = Inr True \<and> \<not> evaluation_blocked m k \<and> (\<forall>t. eb_last_time b = Some t \<longrightarrow> t \<le> clock) \<longrightarrow>
       (\<exists>e. fst (call_builder clock m k b) = Inr (Some e)))"
proof (cases "validate_source b m k")
  case (Inl e)
  then show ?thesis using validate_error by (auto simp: call_builder_def)
next
  case (Inr x)
  note facts = validate_facts [OF Inr]
  have "last (ms_klines m ONE_MINUTE) \<in> set (ms_klines m ONE_MINUTE)"
    by (rule last_in_set [OF ready_candles(1) [OF assms(2) facts(1)]])
  then have one: "within_three lo (kl_close (last (ms_klines m ONE_MINUTE)))"
    using assms(5) [of ONE_MINUTE] by (simp add: strategy_interval_def)
  have closed: "if evaluation_blocked m k then calculate_evaluation_values m k = Inl MarketEvaluationCalculationError
      else \<exists>v. calculate_evaluation_values m k = Inr v"
    by (rule values_fail_closed [OF assms(2) facts(1) assms(4)])
      (use assms(5) source_is_last [OF Inr] within_three_same [OF _ one] in \<open>auto simp: strategy_interval_def\<close>)
  then have errors: "e = MarketEvaluationCalculationError" if "build_steps clock m k b = Inl e" for e
    using build_steps_result [OF assms(1,2) facts(1), where clock = clock and k = k] that assms(3) by (auto split: if_splits)
  have returns: "\<exists>r. build_steps clock m k b = Inr r"
    if "\<not> evaluation_blocked m k" "\<forall>t. eb_last_time b = Some t \<longrightarrow> t \<le> clock"
  proof -
    have "\<exists>v. calculate_evaluation_values m k = Inr v" using closed that(1) by simp
    then obtain v where v: "calculate_evaluation_values m k = Inr v" by blast
    show ?thesis
    proof (cases "kl_interval k = THIRTY_MINUTES")
      case True
      from build_steps_tick [OF assms(1,2) facts(1) v True, where clock = clock] show ?thesis
        using that(2) assms(3) by (auto split: if_splits)
    next
      case False
      from build_steps_other [OF assms(1) v False, where clock = clock] show ?thesis by blast
    qed
  qed
  show ?thesis
  proof (cases "build_steps clock m k b")
    case (Inl e)
    then have "\<not> (\<not> evaluation_blocked m k \<and> (\<forall>t. eb_last_time b = Some t \<longrightarrow> t \<le> clock))" using returns by auto
    then show ?thesis using \<open>validate_source b m k = Inr x\<close> Inl errors [OF Inl]
      by (cases x) (auto simp: call_builder_def build_evaluation_def)
  next
    case (Inr r)
    then show ?thesis using \<open>validate_source b m k = Inr x\<close>
      by (cases x; cases r) (auto simp: call_builder_def build_evaluation_def)
  qed
qed

theorem evaluation_fails_closed_witness:
  "\<exists>e. fst (call_builder 5 live_market (band_candle 20) new_builder) = Inr (Some e)"
proof -
  have "within_three 50 (kl_close x)" if "strategy_interval i" "x \<in> set (ms_klines live_market i)" for i x
    using that band_market_prices
    by (cases i) (auto simp: strategy_interval_def band_market_klines sample_market_klines_def within_three_def)
  from evaluation_fails_closed [OF builder_ok_new live_market_inv _ _ this, where clock = 5 and k = "band_candle 20"]
  show ?thesis using live_validated live_not_blocked by (simp add: new_builder_def)
qed

text \<open>
  C37.  A hold condition is reported exactly when it was satisfied at every tick of a last span of ticks that
  lasts at least its duration.
\<close>

theorem hold_flag_needs_its_span:
  assumes "sorted (map fst (ks @ [(time, pct, slope)]))"
  shows "fst (evaluate_conditions (foldl hold_step (\<lambda>_. None) ks) time pct slope) c \<longleftrightarrow>
    (\<exists>us vs. ks @ [(time, pct, slope)] = us @ vs \<and> vs \<noteq> [] \<and> condition_duration c \<le> fst (last vs) - fst (hd vs) \<and>
       (\<forall>k\<in>set vs. hold_satisfied (fst (snd k)) (snd (snd k)) c))"
  unfolding hold_flag_span [OF assms] held_over_def tick_satisfied_def list_all_iff by blast

theorem hold_flag_needs_its_span_witness:
  "fst (evaluate_conditions (foldl hold_step (\<lambda>_. None) [(0, Fin 1, Fin 0)]) 5000000000 (Fin 1) (Fin 0))
     PCT_B_AT_LEAST_060_FOR_5S"
  by (rule iffD2 [OF hold_flag_needs_its_span]; (intro exI [of _ "[]"] exI [of _ "[(0, Fin 1, Fin 0), (5000000000, Fin 1, Fin 0)]"])?)
    simp_all

text \<open>
  After a rebase the first recovery evaluation of the same snapshot cannot fail, reports no condition as
  held and no timer as completed, whatever was held before.
\<close>

theorem recovery_follows_rebase:
  assumes "builder_ok b" "market_inv m" "ms_sources m = []" "0 \<le> clock" "rebase m b = (Inr (), b')"
  shows "\<exists>e b''. build_recovery_evaluation clock m b' = (Inr e, b'') \<and> market_ok e \<and> builder_ok b'' \<and>
    \<not> mk_pct_b_at_least_060_for_5s e \<and> \<not> mk_realtime_slope_above_008_for_5s e \<and>
    \<not> mk_realtime_slope_at_most_004_for_5s e \<and> \<not> mk_pct_b_below_060_for_5s e \<and>
    \<not> mk_realtime_slope_at_most_minus_055_for_3m e"
proof -
  define latest where "latest = last (ms_klines m THIRTY_MINUTES)"
  obtain v where v: "ms_ready m" "\<not> kl_closed latest" "calculate_evaluation_values m latest = Inr v"
    "b' = (reset_builder b)\<lparr>eb_last_version := Some (ms_version m), eb_candle_id := mk_current_30m_candle_id v\<rparr>"
    using assms(5) by (auto simp: rebase_def Let_def latest_def split: if_splits sum.splits)
  have version: "0 < ms_version m" by (rule ready_candles(3) [OF assms(2) v(1)])
  have b': "builder_ok b'" "eb_last_time b' = None" "eb_starts b' = (\<lambda>_. None)" "eb_last_version b' = Some (ms_version m)"
    using builder_ok_reset [OF assms(1)] version by (simp_all add: v(4) builder_ok_def reset_builder_def)
  have "kl_interval latest = THIRTY_MINUTES"
  proof -
    obtain now where "interval_ok THIRTY_MINUTES now (ms_klines m THIRTY_MINUTES)"
      using assms(2) v(1) by (auto simp: market_inv_def)
    then show ?thesis by (simp add: interval_ok_def list_all_iff latest_def)
  qed
  from build_steps_tick [OF b'(1) assms(2) v(1,3) this, where clock = clock] obtain ts starts b'' where run:
    "build_steps clock m latest b' = Inr (with_flags (flags_of starts clock) ts v, b'')"
    "starts = hold_step (eb_starts b') (clock, mk_realtime_pct_b v, mk_realtime_ema_slope v)"
    using assms(4) b'(2) by auto
  have "\<not> flags_of starts clock c" for c
    by (auto simp: flags_of_def run(2) b'(3) hold_step_eq not_le)
  moreover have "market_ok (with_flags (flags_of starts clock) ts v) \<and> builder_ok b''"
    using build_steps_result [OF b'(1) assms(2) v(1), where clock = clock and k = latest] by (simp add: run(1))
  moreover have "build_recovery_evaluation clock m b' = (Inr (with_flags (flags_of starts clock) ts v), b'')"
    using v(1,2) b'(4) assms(3) run(1)
    by (simp add: build_recovery_evaluation_def Let_def latest_def [symmetric] build_evaluation_def)
  ultimately show ?thesis by (intro exI conjI) (auto simp: with_flags_def)
qed

theorem recovery_follows_rebase_witness:
  "\<exists>b' e b''. rebase band_market new_builder = (Inr (), b') \<and> build_recovery_evaluation 5 band_market b' = (Inr e, b'')"
proof -
  obtain b' where "rebase band_market new_builder = (Inr (), b')"
    using band_market_values by (auto simp: rebase_def band_market_last)
  moreover from recovery_follows_rebase [OF builder_ok_new band_market_inv _ _ this, of 5]
  obtain e b'' where "build_recovery_evaluation 5 band_market b' = (Inr e, b'')" by auto
  ultimately show ?thesis by blast
qed

end
