(* ===== verification/Earn_Evidence.thy ===== *)
theory Earn_Evidence
  imports Residual_Ledger "HOL-Library.List_Lexorder" "HOL-Library.Char_ord" "HOL-Library.Multiset"
begin

text \<open>
  The evidence for ETH that the exchange deposited by itself in its Earn product
  (\<open>EarnResidualEvidence\<close> of \<open>domain/trading/residual.py\<close> and \<open>adapters/binance/earn_residual.py\<close>):
  the evidence with its checks, the quantities read from JSON texts, the pages and the windows of a
  history, and the reading of the whole evidence.  The signed GET is the parameter \<open>req\<close>, a function
  of the endpoint and the parameters: one reading asks for each page of each window once, so answers
  that change over time are covered.
\<close>

section \<open>The evidence\<close>

type_synonym movement = "string \<times> int \<times> decimal"

record earn_evidence =
  ee_subscriptions :: "movement list"
  ee_quantity :: decimal
  ee_rewards :: decimal
  ee_redemptions :: "movement list"

abbreviation movement_id :: "movement \<Rightarrow> string" where "movement_id m \<equiv> fst m"
abbreviation movement_ms :: "movement \<Rightarrow> int" where "movement_ms m \<equiv> fst (snd m)"
abbreviation movement_amount :: "movement \<Rightarrow> decimal" where "movement_amount m \<equiv> snd (snd m)"

definition movements_ok :: "movement list \<Rightarrow> bool" where
  "movements_ok ms \<longleftrightarrow>
     distinct (map movement_id ms) \<and>
     list_all (\<lambda>m. movement_id m \<noteq> [] \<and> list_all is_digit (movement_id m) \<and> 0 < movement_ms m \<and>
       positive (movement_amount m)) ms"

definition make_evidence :: "earn_evidence \<Rightarrow> earn_evidence res" where
  "make_evidence e =
     (if ee_subscriptions e = [] then Inl ValueError
      else if \<not> movements_ok (ee_subscriptions e) \<or> \<not> movements_ok (ee_redemptions e) then Inl ValueError
      else if \<not> non_negative (ee_quantity e) \<or> \<not> non_negative (ee_rewards e) then Inl ValueError
      else
        ebind (sum_at 34 dzero (map movement_amount (ee_redemptions e))) (\<lambda>returned.
        ebind (add_at 34 (ee_quantity e) returned) (\<lambda>held.
        ebind (sum_at 34 dzero (map movement_amount (ee_subscriptions e))) (\<lambda>subscribed.
        ebind (add_at 34 subscribed (ee_rewards e)) (\<lambda>earned.
        if deq held earned then Inr e else Inl ValueError)))))"

section \<open>JSON values\<close>

datatype json =
    JNull
  | JBool bool
  | JInt int
  | JFloat rat
  | JStr string
  | JList "json list"
  | JObj "(string \<times> json) list"

type_synonym row = "(string \<times> json) list"

text \<open>\<open>row.get(key)\<close> and \<open>row.get(key, default)\<close>.\<close>

definition jget_or :: "string \<Rightarrow> json \<Rightarrow> row \<Rightarrow> json" where
  "jget_or k d r = (case map_of r k of None \<Rightarrow> d | Some v \<Rightarrow> v)"

definition jget :: "string \<Rightarrow> row \<Rightarrow> json" where
  "jget k r = jget_or k JNull r"

section \<open>Decimal texts\<close>

text \<open>
  \<open>Decimal(text)\<close>: white space at the ends and underscores are dropped, the rest is a sign and a
  number, an infinity or a NaN.  The conversion is exact; the limits of the C library on exponents of
  eighteen digits are not modelled.
\<close>

definition lower_char :: "char \<Rightarrow> char" where
  "lower_char c = (let n = (of_char c :: nat) in if 65 \<le> n \<and> n \<le> 90 then char_of (n + 32) else c)"

definition parse_sign :: "string \<Rightarrow> bool \<times> string" where
  "parse_sign s =
     (case s of [] \<Rightarrow> (False, [])
      | c # t \<Rightarrow> if c = CHR ''-'' then (True, t) else if c = CHR ''+'' then (False, t) else (False, s))"

definition parse_exponent :: "string \<Rightarrow> int option" where
  "parse_exponent s =
     (case s of [] \<Rightarrow> Some 0
      | c # t \<Rightarrow>
          let (neg, ds) = parse_sign t in
          if lower_char c = CHR ''e'' \<and> ds \<noteq> [] \<and> list_all is_digit ds
          then Some (if neg then - int (read_nat ds) else int (read_nat ds)) else None)"

definition parse_number :: "string \<Rightarrow> rat option" where
  "parse_number s =
     (let whole = takeWhile is_digit s; rest = dropWhile is_digit s;
          (frac, rest') =
            (case rest of [] \<Rightarrow> ([], [])
             | c # t \<Rightarrow> if c = CHR ''.'' then (takeWhile is_digit t, dropWhile is_digit t) else ([], rest)) in
      if whole = [] \<and> frac = [] then None
      else map_option (\<lambda>e. of_nat (read_nat (whole @ frac)) * pow10 (e - int (length frac))) (parse_exponent rest'))"

definition is_nan_text :: "string \<Rightarrow> bool" where
  "is_nan_text s \<longleftrightarrow>
     (take 3 s = ''nan'' \<and> list_all is_digit (drop 3 s)) \<or> (take 4 s = ''snan'' \<and> list_all is_digit (drop 4 s))"

definition decimal_of_text :: "string \<Rightarrow> decimal res" where
  "decimal_of_text text =
     (let (neg, s) = parse_sign (filter (\<lambda>c. c \<noteq> CHR ''_'') (py_strip text)); low = map lower_char s in
      if low \<in> {''inf'', ''infinity''} then Inr (if neg then NegInf else PosInf)
      else if is_nan_text low then Inr NaN
      else case parse_number s of
        None \<Rightarrow> Inl InvalidOperation
      | Some r \<Rightarrow> Inr (dec_of neg (if neg then - r else r)))"

text \<open>\<open>_amount\<close>.\<close>

definition earn_amount :: "json \<Rightarrow> decimal res" where
  "earn_amount v =
     (case v of
        JStr s \<Rightarrow> ebind (decimal_of_text s) (\<lambda>d. if non_negative d then Inr d else Inl ValueError)
      | _ \<Rightarrow> Inl ValueError)"

section \<open>Pages\<close>

type_synonym earn_request = "string \<Rightarrow> row \<Rightarrow> json res"

definition eth_row :: "json \<Rightarrow> row res" where
  "eth_row v =
     (case v of JObj r \<Rightarrow> if jget ''asset'' r = JStr ''ETH'' then Inr r else Inl ValueError | _ \<Rightarrow> Inl ValueError)"

definition earn_page :: "json \<Rightarrow> (int \<times> row list) res" where
  "earn_page payload =
     (case payload of
        JObj o1 \<Rightarrow>
          (case (jget ''total'' o1, jget ''rows'' o1) of
             (JInt n, JList vs) \<Rightarrow>
               if 0 \<le> n \<and> n \<le> 1000 \<and> length vs \<le> 100
               then ebind (map_res eth_row vs) (\<lambda>rows. Inr (n, rows)) else Inl ValueError
           | _ \<Rightarrow> Inl ValueError)
      | _ \<Rightarrow> Inl ValueError)"

definition page_parameters :: "row \<Rightarrow> int \<Rightarrow> row" where
  "page_parameters params page = params @ [(''asset'', JStr ''ETH''), (''current'', JInt page), (''size'', JInt 100)]"

text \<open>The pages of one reading: how many may still be read, the next one, the total of the first page, the rows so far.\<close>

fun read_pages ::
  "earn_request \<Rightarrow> string \<Rightarrow> row \<Rightarrow> nat \<Rightarrow> int \<Rightarrow> int option \<Rightarrow> row list \<Rightarrow> row list res" where
  "read_pages req endpoint params 0 page expected rows = Inl ValueError"
| "read_pages req endpoint params (Suc n) page expected rows =
     ebind (req endpoint (page_parameters params page)) (\<lambda>payload.
     ebind (earn_page payload) (\<lambda>(count, batch).
     if expected \<noteq> None \<and> expected \<noteq> Some count then Inl ValueError
     else let rows' = rows @ batch in
       if int (length rows') = count then Inr rows'
       else if batch = [] \<or> count < int (length rows') then Inl ValueError
       else read_pages req endpoint params n (page + 1) (Some count) rows'))"

definition read_rows :: "earn_request \<Rightarrow> string \<Rightarrow> row \<Rightarrow> row list res" where
  "read_rows req endpoint params = read_pages req endpoint params 10 1 None []"

section \<open>Windows\<close>

definition history_window_ms :: int where
  "history_window_ms = 30 * 24 * 60 * 60 * 1000"

function windows :: "int \<Rightarrow> int \<Rightarrow> (int \<times> int) list" where
  "windows start now =
     (if start \<le> now
      then let w = min (start + history_window_ms - 1) now in (start, w) # windows (w + 1) now
      else [])"
  by pat_completeness auto
termination
  by (relation "measure (\<lambda>(start, now). nat (now - start + 1))") (auto simp: history_window_ms_def)

declare windows.simps [simp del]

definition window_parameters :: "int \<times> int \<Rightarrow> row" where
  "window_parameters w = [(''startTime'', JInt (fst w)), (''endTime'', JInt (snd w))]"

section \<open>Rows\<close>

definition flexible :: string where "flexible = ''/sapi/v1/simple-earn/flexible/''"
definition position_endpoint :: string where "position_endpoint = flexible @ ''position''"
definition subscription_endpoint :: string where
  "subscription_endpoint = flexible @ ''history/subscriptionRecord''"
definition redemption_endpoint :: string where
  "redemption_endpoint = flexible @ ''history/redemptionRecord''"
definition rewards_endpoint :: string where "rewards_endpoint = flexible @ ''history/rewardsRecord''"

definition product_ok :: "json \<Rightarrow> bool" where
  "product_ok p \<longleftrightarrow> (case p of JStr s \<Rightarrow> s \<noteq> [] | _ \<Rightarrow> False)"

text \<open>\<open>str(identity)\<close> of an integer or a text.\<close>

definition identity_text :: "json \<Rightarrow> string option" where
  "identity_text v = (case v of JInt n \<Rightarrow> Some (show_int n) | JStr s \<Rightarrow> Some s | _ \<Rightarrow> None)"

definition time_between :: "int \<Rightarrow> int \<Rightarrow> json \<Rightarrow> int option" where
  "time_between start end_ms v =
     (case v of JInt t \<Rightarrow> if start \<le> t \<and> t \<le> end_ms then Some t else None | _ \<Rightarrow> None)"

definition check_earn_position :: "row list \<Rightarrow> (row option \<times> json) res" where
  "check_earn_position positions =
     (case positions of
        [] \<Rightarrow> Inr (None, JNull)
      | [p] \<Rightarrow>
          if \<not> product_ok (jget ''productId'' p) \<or> jget ''canRedeem'' p \<noteq> JBool True then Inl ValueError
          else ebind (earn_amount (jget ''collateralAmount'' p)) (\<lambda>c.
            if deq c dzero then Inr (Some p, jget ''productId'' p) else Inl ValueError)
      | _ \<Rightarrow> Inl ValueError)"

text \<open>\<open>"k" in row and _amount(row["k"]) != expected\<close>.\<close>

definition amount_differs :: "string \<Rightarrow> decimal \<Rightarrow> row \<Rightarrow> bool res" where
  "amount_differs k d r =
     (case map_of r k of None \<Rightarrow> Inr False | Some v \<Rightarrow> ebind (earn_amount v) (\<lambda>a. Inr (\<not> deq a d)))"

definition subscription_of :: "int \<times> int \<Rightarrow> json \<Rightarrow> row \<Rightarrow> (json \<times> movement) res" where
  "subscription_of w product r =
     ebind (earn_amount (jget ''amount'' r)) (\<lambda>amount.
     let product' = (if product = JNull then jget ''productId'' r else product) in
     if jget ''type'' r = JStr ''AUTO'' \<and> jget ''status'' r = JStr ''SUCCESS'' \<and>
        jget ''sourceAccount'' r = JStr ''SPOT'' \<and> product_ok product' \<and> jget ''productId'' r = product'
     then
       (case (time_between (fst w) (snd w) (jget ''time'' r), identity_text (jget ''purchaseId'' r)) of
          (Some t, Some i) \<Rightarrow>
            if \<not> positive amount then Inl ValueError
            else ebind (amount_differs ''amtFromSpot'' amount r) (\<lambda>mixed.
              if mixed then Inl ValueError
              else ebind (amount_differs ''amtFromFunding'' dzero r) (\<lambda>mixed.
                if mixed then Inl ValueError else Inr (product', (i, t, amount))))
        | _ \<Rightarrow> Inl ValueError)
     else Inl ValueError)"

fun subscriptions_of :: "int \<times> int \<Rightarrow> json \<Rightarrow> row list \<Rightarrow> (json \<times> movement list) res" where
  "subscriptions_of w product [] = Inr (product, [])"
| "subscriptions_of w product (r # rs) =
     ebind (subscription_of w product r) (\<lambda>(product', m).
     ebind (subscriptions_of w product' rs) (\<lambda>(product'', ms). Inr (product'', m # ms)))"

text \<open>The loop over the windows: the rows of redemptions and the subscriptions of each.\<close>

fun read_histories ::
  "earn_request \<Rightarrow> (int \<times> int) list \<Rightarrow> json \<Rightarrow> (json \<times> row list \<times> movement list) res" where
  "read_histories req [] product = Inr (product, [], [])"
| "read_histories req (w # ws) product =
     ebind (read_rows req redemption_endpoint (window_parameters w)) (\<lambda>redeemed.
     ebind (read_rows req subscription_endpoint (window_parameters w)) (\<lambda>rows.
     ebind (subscriptions_of w product rows) (\<lambda>(product', ms).
     ebind (read_histories req ws product') (\<lambda>(product'', rs, ms').
     Inr (product'', redeemed @ rs, ms @ ms')))))"

text \<open>A movement of the product: \<open>row.get("productId", row.get("projectId"))\<close>.\<close>

definition row_product :: "row \<Rightarrow> json" where
  "row_product r = jget_or ''productId'' (jget ''projectId'' r) r"

definition redemption_of :: "int \<Rightarrow> int \<Rightarrow> json \<Rightarrow> int \<Rightarrow> row \<Rightarrow> movement res" where
  "redemption_of since_ms now_ms product first_ms r =
     (if row_product r = product \<and> jget ''destAccount'' r = JStr ''SPOT'' \<and> jget ''status'' r = JStr ''PAID''
      then
        (case (time_between since_ms now_ms (jget ''time'' r), identity_text (jget ''redeemId'' r)) of
           (Some t, Some i) \<Rightarrow>
             if t \<le> first_ms then Inl ValueError
             else ebind (earn_amount (jget ''amount'' r)) (\<lambda>amount. Inr (i, t, amount))
         | _ \<Rightarrow> Inl ValueError)
      else Inl ValueError)"

fun reward_rows :: "earn_request \<Rightarrow> (int \<times> int) list \<Rightarrow> row list res" where
  "reward_rows req [] = Inr []"
| "reward_rows req (w # ws) =
     ebind (read_rows req rewards_endpoint ((''type'', JStr ''REALTIME'') # window_parameters w)) (\<lambda>rows.
     ebind (reward_rows req ws) (\<lambda>rs. Inr (rows @ rs)))"

fun reward_amounts :: "int \<Rightarrow> int \<Rightarrow> json \<Rightarrow> int list \<Rightarrow> row list \<Rightarrow> decimal list res" where
  "reward_amounts since_ms now_ms product seen [] = Inr []"
| "reward_amounts since_ms now_ms product seen (r # rs) =
     (if row_product r = product \<and> jget ''type'' r = JStr ''REALTIME''
      then
        (case time_between since_ms now_ms (jget ''time'' r) of
           None \<Rightarrow> Inl ValueError
         | Some t \<Rightarrow>
             if t \<in> set seen then Inl ValueError
             else
               ebind (earn_amount (jget ''rewards'' r)) (\<lambda>a.
               ebind (reward_amounts since_ms now_ms product (t # seen) rs) (\<lambda>as. Inr (a # as))))
      else Inl ValueError)"

section \<open>Reading the evidence\<close>

definition epoch_ms :: "moment \<Rightarrow> int" where
  "epoch_ms m = instant m div 1000"

definition position_amount :: "string \<Rightarrow> row option \<Rightarrow> decimal res" where
  "position_amount k p = (case p of None \<Rightarrow> Inr dzero | Some r \<Rightarrow> earn_amount (jget k r))"

definition earn_rewards ::
  "earn_request \<Rightarrow> int \<Rightarrow> int \<Rightarrow> json \<Rightarrow> row option \<Rightarrow> movement list \<Rightarrow> decimal res" where
  "earn_rewards req since_ms now_ms product held returned =
     (if returned = [] then position_amount ''cumulativeRealTimeRewards'' held
      else ebind (reward_rows req (windows since_ms now_ms)) (\<lambda>rows.
        ebind (reward_amounts since_ms now_ms product [] rows) (sum_at 34 dzero)))"

definition by_time :: "movement list \<Rightarrow> movement list" where
  "by_time = sort_key (\<lambda>m. (movement_ms m, movement_id m))"

definition read_earn_residual_evidence ::
  "earn_request \<Rightarrow> moment \<Rightarrow> int \<Rightarrow> earn_evidence option res" where
  "read_earn_residual_evidence req since now_ms =
     (let since_ms = epoch_ms since in
      if offset since = None \<or> \<not> (0 < since_ms \<and> since_ms \<le> now_ms) \<or>
         120 * history_window_ms < now_ms - since_ms
      then Inl ValueError
      else
        ebind (read_rows req position_endpoint []) (\<lambda>positions.
        ebind (check_earn_position positions) (\<lambda>(held, product).
        ebind (read_histories req (windows since_ms now_ms) product) (\<lambda>(product', redeemed, subs).
        if subs = [] then Inr None
        else
          ebind (map_res (redemption_of since_ms now_ms product' (Min (set (map movement_ms subs)))) redeemed)
            (\<lambda>returned.
          ebind (earn_rewards req since_ms now_ms product' held returned) (\<lambda>rewards.
          ebind (position_amount ''totalAmount'' held) (\<lambda>quantity.
          ebind (make_evidence
            \<lparr>ee_subscriptions = by_time subs, ee_quantity = quantity, ee_rewards = rewards,
             ee_redemptions = by_time returned\<rparr>) (\<lambda>e. Inr (Some e)))))))))"

section \<open>What a reading returns\<close>

text \<open>A list read in pages is all of its pages, each of which announces the number of rows returned.\<close>

definition pages_of ::
  "earn_request \<Rightarrow> string \<Rightarrow> row \<Rightarrow> int \<Rightarrow> int \<Rightarrow> row list list \<Rightarrow> bool" where
  "pages_of req endpoint params page announced batches \<longleftrightarrow>
     (\<forall>i < length batches. \<exists>payload. req endpoint (page_parameters params (page + int i)) = Inr payload \<and>
        earn_page payload = Inr (announced, batches ! i))"

lemma pages_of_Nil [simp]: "pages_of req endpoint params page announced []"
  by (simp add: pages_of_def)

lemma pages_of_Cons:
  "pages_of req endpoint params page announced (b # bs) \<longleftrightarrow>
     (\<exists>payload. req endpoint (page_parameters params page) = Inr payload \<and> earn_page payload = Inr (announced, b)) \<and>
     pages_of req endpoint params (page + 1) announced bs"
  by (simp add: pages_of_def All_less_Suc2 add.assoc add.commute [of 1])

lemma read_pages_complete:
  "read_pages req endpoint params n page expected rows = Inr out \<Longrightarrow>
   (expected = None \<or> expected = Some (int (length out))) \<and>
   (\<exists>bs. bs \<noteq> [] \<and> length bs \<le> n \<and> out = rows @ concat bs \<and>
      pages_of req endpoint params page (int (length out)) bs)"
proof (induction n arbitrary: page expected rows)
  case (Suc n)
  obtain payload announced batch where step: "req endpoint (page_parameters params page) = Inr payload"
    "earn_page payload = Inr (announced, batch)" "expected = None \<or> expected = Some announced"
    using Suc.prems by (auto simp: ebind_eq_Inr split: if_splits)
  show ?case
  proof (cases "int (length (rows @ batch)) = announced")
    case True
    then have "out = rows @ batch" using Suc.prems step by auto
    with True step show ?thesis by (intro conjI exI [of _ "[batch]"]) (auto simp: pages_of_Cons)
  next
    case False
    then have rest: "read_pages req endpoint params n (page + 1) (Some announced) (rows @ batch) = Inr out"
      using Suc.prems step by (auto simp: Let_def split: if_splits)
    from Suc.IH [OF this] obtain bs where "announced = int (length out)" "length bs \<le> n"
      "out = (rows @ batch) @ concat bs" "pages_of req endpoint params (page + 1) (int (length out)) bs"
      by auto
    with step show ?thesis by (intro conjI exI [of _ "batch # bs"]) (auto simp: pages_of_Cons)
  qed
qed simp

lemma read_rows_complete:
  assumes "read_rows req endpoint params = Inr rows"
  obtains bs where "rows = concat bs" "bs \<noteq> []" "length bs \<le> 10"
    "pages_of req endpoint params 1 (int (length rows)) bs"
  using read_pages_complete [OF assms [unfolded read_rows_def]] by auto

lemma earn_page_eth:
  "earn_page payload = Inr (announced, rows) \<Longrightarrow> r \<in> set rows \<Longrightarrow> jget ''asset'' r = JStr ''ETH''"
proof -
  have "map_res eth_row vs = Inr rs \<Longrightarrow> r \<in> set rs \<Longrightarrow> jget ''asset'' r = JStr ''ETH''" for vs rs
    by (induction vs arbitrary: rs) (auto simp: ebind_eq_Inr eth_row_def split: json.splits if_splits)
  then show "earn_page payload = Inr (announced, rows) \<Longrightarrow> r \<in> set rows \<Longrightarrow> jget ''asset'' r = JStr ''ETH''"
    by (auto simp: earn_page_def ebind_eq_Inr split: json.splits if_splits)
qed

section \<open>The windows cover the history\<close>

lemma windows_bounds:
  "w \<in> set (windows start now) \<Longrightarrow>
   start \<le> fst w \<and> fst w \<le> snd w \<and> snd w \<le> now \<and> snd w < fst w + history_window_ms"
proof (induction start now rule: windows.induct)
  case (1 start now)
  show ?case
  proof (cases "start \<le> now")
    case True
    define e where "e = min (start + history_window_ms - 1) now"
    have e: "start \<le> e" "e \<le> now" "e < start + history_window_ms"
      using True by (auto simp: e_def history_window_ms_def)
    have "windows start now = (start, e) # windows (e + 1) now"
      using True by (subst windows.simps) (simp add: e_def Let_def)
    then consider "w = (start, e)" | "w \<in> set (windows (e + 1) now)" using "1.prems" by auto
    then show ?thesis using "1.IH" [OF True e_def] e by cases auto
  next
    case False
    then show ?thesis using "1.prems" by (subst (asm) windows.simps) simp
  qed
qed

lemma windows_ordered: "sorted_wrt (\<lambda>v w. snd v < fst w) (windows start now)"
proof (induction start now rule: windows.induct)
  case (1 start now)
  show ?case
  proof (cases "start \<le> now")
    case True
    define e where "e = min (start + history_window_ms - 1) now"
    have "windows start now = (start, e) # windows (e + 1) now"
      using True by (subst windows.simps) (simp add: e_def Let_def)
    then show ?thesis using "1.IH" [OF True e_def] windows_bounds [of _ "e + 1" now] by fastforce
  qed (subst windows.simps, simp)
qed

lemma windows_cover: "start \<le> t \<Longrightarrow> t \<le> now \<Longrightarrow> \<exists>w \<in> set (windows start now). fst w \<le> t \<and> t \<le> snd w"
proof (induction start now rule: windows.induct)
  case (1 start now)
  then have le: "start \<le> now" by simp
  define e where "e = min (start + history_window_ms - 1) now"
  have eq: "windows start now = (start, e) # windows (e + 1) now"
    using le by (subst windows.simps) (simp add: e_def Let_def)
  show ?case
  proof (cases "t \<le> e")
    case False
    then show ?thesis using "1.IH" [OF le e_def] "1.prems" by (auto simp: eq)
  qed (use "1.prems" in \<open>auto simp: eq\<close>)
qed

lemma windows_length: "int (length (windows start now)) * history_window_ms < max 0 (now - start + 1) + history_window_ms"
proof (induction start now rule: windows.induct)
  case (1 start now)
  show ?case
  proof (cases "start \<le> now")
    case True
    define e where "e = min (start + history_window_ms - 1) now"
    have eq: "windows start now = (start, e) # windows (e + 1) now"
      using True by (subst windows.simps) (simp add: e_def Let_def)
    have "e = now \<or> e = start + history_window_ms - 1" by (auto simp: e_def)
    then show ?thesis
    proof
      assume "e = now"
      then have "windows (e + 1) now = []" by (subst windows.simps) simp
      with True show ?thesis by (simp add: eq)
    next
      assume "e = start + history_window_ms - 1"
      then show ?thesis using "1.IH" [OF True e_def] True e_def by (simp add: eq ring_distribs)
    qed
  qed (subst windows.simps, simp add: history_window_ms_def)
qed

section \<open>What the evidence holds\<close>

text \<open>The movement a row states, and the rows that the endpoint returns for each window.\<close>

definition row_movement :: "string \<Rightarrow> row \<Rightarrow> movement" where
  "row_movement k r =
     (the (identity_text (jget k r)), (case jget ''time'' r of JInt t \<Rightarrow> t | _ \<Rightarrow> 0),
      (case earn_amount (jget ''amount'' r) of Inr a \<Rightarrow> a | Inl _ \<Rightarrow> dzero))"

definition automatic :: "json \<Rightarrow> row \<Rightarrow> bool" where
  "automatic product r \<longleftrightarrow>
     jget ''type'' r = JStr ''AUTO'' \<and> jget ''status'' r = JStr ''SUCCESS'' \<and>
     jget ''sourceAccount'' r = JStr ''SPOT'' \<and> jget ''productId'' r = product"

definition history_of :: "earn_request \<Rightarrow> string \<Rightarrow> (int \<times> int) list \<Rightarrow> row list list \<Rightarrow> bool" where
  "history_of req endpoint = list_all2 (\<lambda>w rows. read_rows req endpoint (window_parameters w) = Inr rows)"

lemma time_between_Some [simp]:
  "time_between a b v = Some t \<longleftrightarrow> v = JInt t \<and> a \<le> t \<and> t \<le> b"
  by (auto simp: time_between_def split: json.splits)

lemma product_ok_JNull [simp]: "\<not> product_ok JNull"
  by (simp add: product_ok_def)

lemma subscription_of_ok:
  assumes "subscription_of w product r = Inr (product', m)"
  shows "m = row_movement ''purchaseId'' r" "fst w \<le> movement_ms m" "movement_ms m \<le> snd w"
    "automatic product' r" "product' \<noteq> JNull" "product = JNull \<or> product' = product"
  using assms
  by (auto simp: subscription_of_def row_movement_def automatic_def Let_def ebind_eq_Inr split: option.splits if_splits)

lemma subscriptions_of_ok:
  "subscriptions_of w product rows = Inr (product', ms) \<Longrightarrow>
   ms = map (row_movement ''purchaseId'') rows \<and>
   (\<forall>m\<in>set ms. fst w \<le> movement_ms m \<and> movement_ms m \<le> snd w) \<and>
   (\<forall>r\<in>set rows. automatic product' r) \<and> (product = JNull \<or> product' = product) \<and>
   (rows \<noteq> [] \<longrightarrow> product' \<noteq> JNull)"
proof (induction rows arbitrary: product product' ms)
  case (Cons r rs)
  then obtain p m ms' where step: "subscription_of w product r = Inr (p, m)"
    "subscriptions_of w p rs = Inr (product', ms')" "ms = m # ms'"
    by (auto simp: ebind_eq_Inr)
  note this(1) [THEN subscription_of_ok(1)] this(1) [THEN subscription_of_ok(2)] this(1) [THEN subscription_of_ok(3)]
    this(1) [THEN subscription_of_ok(4)] this(1) [THEN subscription_of_ok(5)] this(1) [THEN subscription_of_ok(6)]
  then show ?case using Cons.IH [OF step(2)] step(3) by auto
qed simp

lemma read_histories_ok:
  "read_histories req ws product = Inr (product', redeemed, ms) \<Longrightarrow>
   (\<exists>subs reds. history_of req subscription_endpoint ws subs \<and> history_of req redemption_endpoint ws reds \<and>
      ms = map (row_movement ''purchaseId'') (concat subs) \<and> redeemed = concat reds \<and>
      (\<forall>r\<in>set (concat subs). automatic product' r) \<and> (product = JNull \<or> product' = product)) \<and>
   (\<forall>m\<in>set ms. \<exists>w\<in>set ws. fst w \<le> movement_ms m \<and> movement_ms m \<le> snd w)"
proof (induction ws arbitrary: product product' redeemed ms)
  case (Cons w ws)
  then obtain reds rows p ms1 rs ms2 where step:
    "read_rows req redemption_endpoint (window_parameters w) = Inr reds"
    "read_rows req subscription_endpoint (window_parameters w) = Inr rows"
    "subscriptions_of w product rows = Inr (p, ms1)" "read_histories req ws p = Inr (product', rs, ms2)"
    "redeemed = reds @ rs" "ms = ms1 @ ms2"
    by (auto simp: ebind_eq_Inr)
  note here = subscriptions_of_ok [OF step(3)]
  from Cons.IH [OF step(4)] obtain subs reds' where rest:
    "history_of req subscription_endpoint ws subs" "history_of req redemption_endpoint ws reds'"
    "ms2 = map (row_movement ''purchaseId'') (concat subs)" "rs = concat reds'"
    "\<forall>r\<in>set (concat subs). automatic product' r" "p = JNull \<or> product' = p" by blast
  have "history_of req subscription_endpoint (w # ws) (rows # subs)"
    "history_of req redemption_endpoint (w # ws) (reds # reds')"
    using step rest by (auto simp: history_of_def)
  moreover have "\<forall>r\<in>set (concat (rows # subs)). automatic product' r"
    using here rest by (cases "rows = []") auto
  moreover have "product = JNull \<or> product' = product" using here rest by blast
  moreover have "\<forall>m\<in>set ms. \<exists>w\<in>set (w # ws). fst w \<le> movement_ms m \<and> movement_ms m \<le> snd w"
  proof
    fix m assume "m \<in> set ms"
    then consider "m \<in> set ms1" | "m \<in> set ms2" using step(6) by auto
    then show "\<exists>w\<in>set (w # ws). fst w \<le> movement_ms m \<and> movement_ms m \<le> snd w"
      using here Cons.IH [OF step(4), THEN conjunct2] by cases auto
  qed
  moreover have "ms = map (row_movement ''purchaseId'') (concat (rows # subs))" "redeemed = concat (reds # reds')"
    using step(5,6) here rest by simp_all
  ultimately show ?case by blast
qed (simp add: history_of_def)

lemma redemption_of_ok:
  assumes "redemption_of since_ms now_ms product first_ms r = Inr m"
  shows "m = row_movement ''redeemId'' r" "first_ms < movement_ms m" "movement_ms m \<le> now_ms"
  using assms
  by (auto simp: redemption_of_def row_movement_def ebind_eq_Inr split: option.splits if_splits)

lemma map_res_rows:
  "map_res f rows = Inr ms \<Longrightarrow> (\<And>r m. f r = Inr m \<Longrightarrow> m = g r \<and> P m) \<Longrightarrow> ms = map g rows \<and> list_all P ms"
  by (induction rows arbitrary: ms) (auto simp: ebind_eq_Inr)

lemma by_time_mset [simp]: "mset (by_time ms) = mset ms"
  by (simp add: by_time_def)

lemma by_time_sorted: "sorted (map movement_ms (by_time ms))"
proof -
  have "sorted (map (\<lambda>m. (movement_ms m, movement_id m)) (by_time ms))" by (simp add: by_time_def)
  then show ?thesis by (auto simp: sorted_map elim!: sorted_wrt_mono_rel [rotated])
qed

text \<open>The parts of a reading that returned evidence.\<close>

lemma read_evidence_parts:
  assumes "read_earn_residual_evidence req since now_ms = Inr (Some e)"
  obtains subs reds where "history_of req subscription_endpoint (windows (epoch_ms since) now_ms) subs"
    "history_of req redemption_endpoint (windows (epoch_ms since) now_ms) reds"
    "mset (ee_subscriptions e) = mset (map (row_movement ''purchaseId'') (concat subs))"
    "mset (ee_redemptions e) = mset (map (row_movement ''redeemId'') (concat reds))"
    "\<exists>product. \<forall>r\<in>set (concat subs). automatic product r"
    "sorted (map movement_ms (ee_subscriptions e))" "make_evidence e = Inr e"
    "\<forall>m\<in>set (ee_subscriptions e). epoch_ms since \<le> movement_ms m \<and> movement_ms m \<le> now_ms"
    "\<forall>m\<in>set (ee_redemptions e). \<exists>s\<in>set (ee_subscriptions e). movement_ms s < movement_ms m"
proof -
  obtain product product' redeemed ms returned rewards quantity where hist:
    "read_histories req (windows (epoch_ms since) now_ms) product = Inr (product', redeemed, ms)" "ms \<noteq> []"
    and ret: "map_res (redemption_of (epoch_ms since) now_ms product' (Min (set (map movement_ms ms)))) redeemed
        = Inr returned"
    and made: "make_evidence \<lparr>ee_subscriptions = by_time ms, ee_quantity = quantity, ee_rewards = rewards,
             ee_redemptions = by_time returned\<rparr> = Inr e"
    using assms unfolding read_earn_residual_evidence_def Let_def
    by (auto simp: ebind_eq_Inr simp del: set_map list.set_map split: if_splits)
  have e: "e = \<lparr>ee_subscriptions = by_time ms, ee_quantity = quantity, ee_rewards = rewards,
             ee_redemptions = by_time returned\<rparr>"
    using made by (auto simp: make_evidence_def ebind_eq_Inr split: if_splits)
  obtain subs reds where parts:
    "history_of req subscription_endpoint (windows (epoch_ms since) now_ms) subs"
    "history_of req redemption_endpoint (windows (epoch_ms since) now_ms) reds"
    "ms = map (row_movement ''purchaseId'') (concat subs)" "redeemed = concat reds"
    "\<forall>r\<in>set (concat subs). automatic product' r"
    using read_histories_ok [OF hist(1)] by blast
  have within: "epoch_ms since \<le> movement_ms m \<and> movement_ms m \<le> now_ms" if "m \<in> set ms" for m
    using read_histories_ok [OF hist(1)] that windows_bounds [of _ "epoch_ms since" now_ms] by fastforce
  have returned: "returned = map (row_movement ''redeemId'') redeemed \<and>
      list_all (\<lambda>m. Min (set (map movement_ms ms)) < movement_ms m) returned"
    by (rule map_res_rows [OF ret]) (auto dest: redemption_of_ok)
  have "Min (movement_ms ` set ms) \<in> movement_ms ` set ms" using hist(2) by (intro Min_in) auto
  then obtain s where "s \<in> set ms" "Min (movement_ms ` set ms) = movement_ms s" by blast
  then have first: "s \<in> set ms" "Min (set (map movement_ms ms)) = movement_ms s" by simp_all
  have same: "set (by_time xs) = set xs" for xs by (metis by_time_mset set_mset_mset)
  show ?thesis
  proof (rule that [OF parts(1,2)])
    show "mset (ee_subscriptions e) = mset (map (row_movement ''purchaseId'') (concat subs))"
      "mset (ee_redemptions e) = mset (map (row_movement ''redeemId'') (concat reds))"
      using parts(3,4) returned by (simp_all add: e)
    show "\<exists>product. \<forall>r\<in>set (concat subs). automatic product r" using parts(5) by blast
    show "sorted (map movement_ms (ee_subscriptions e))" by (simp add: e by_time_sorted)
    show "make_evidence e = Inr e" using made e by simp
    show "\<forall>m\<in>set (ee_subscriptions e). epoch_ms since \<le> movement_ms m \<and> movement_ms m \<le> now_ms"
      using within by (simp add: e same)
    show "\<forall>m\<in>set (ee_redemptions e). \<exists>s\<in>set (ee_subscriptions e). movement_ms s < movement_ms m"
      using returned first by (auto simp: e same list_all_iff simp del: set_map list.set_map)
  qed
qed

end
