(* ===== verification/Earn_Custody.thy ===== *)
theory Earn_Custody
  imports Earn_Evidence
begin

text \<open>
  Whether automatic deposits can be explained by the residual ledger
  (\<open>ResidualSettlement.matches_earn_custody\<close> of \<open>application/residual_settlement.py\<close>): each deposit
  and each consumption of principal is compared, in the order of time, with the principal that was
  free at that time.
\<close>

section \<open>Times of the trades\<close>

text \<open>\<open>xs[i]\<close>, counting from the end for a negative index.\<close>

definition py_index :: "'a list \<Rightarrow> int \<Rightarrow> 'a res" where
  "py_index xs i =
     (let j = (if i < 0 then i + int (length xs) else i) in
      if 0 \<le> j \<and> j < int (length xs) then Inr (xs ! nat j) else Inl IndexError)"

definition first_fill_ms :: "trade \<Rightarrow> int" where
  "first_fill_ms t =
     (if tr_fee_fills t = [] then epoch_ms (tr_executed_at t)
      else min_list (map (\<lambda>f. instant (fl_executed_at f)) (tr_fee_fills t)) div 1000)"

definition trade_times :: "trade list \<Rightarrow> int list" where
  "trade_times ts = map (\<lambda>t. epoch_ms (tr_executed_at t)) ts"

definition first_fill_times :: "trade list \<Rightarrow> int list" where
  "first_fill_times ts = map first_fill_ms ts"

section \<open>The free principal\<close>

fun transferred_before :: "int list \<Rightarrow> int \<Rightarrow> residual_transfer list \<Rightarrow> decimal list res" where
  "transferred_before clock ms [] = Inr []"
| "transferred_before clock ms (r # rs) =
     ebind (py_index clock (rs_history_count r - 1)) (\<lambda>t.
     ebind (transferred_before clock ms rs) (\<lambda>qs. Inr (if t < ms then rs_quantity r # qs else qs)))"

fun consumed_until :: "int list \<Rightarrow> int \<Rightarrow> (int \<times> decimal \<times> decimal) list \<Rightarrow> decimal list res" where
  "consumed_until clock ms [] = Inr []"
| "consumed_until clock ms ((n, q, c) # cs) =
     ebind (py_index clock (n - 1)) (\<lambda>t.
     ebind (consumed_until clock ms cs) (\<lambda>qs. Inr (if t \<le> ms then q # qs else qs)))"

definition redeemed_before :: "earn_evidence \<Rightarrow> int \<Rightarrow> decimal list" where
  "redeemed_before e ms = map movement_amount (filter (\<lambda>m. movement_ms m < ms) (ee_redemptions e))"

definition deposited_until :: "earn_evidence \<Rightarrow> int \<Rightarrow> decimal list" where
  "deposited_until e ms = map movement_amount (filter (\<lambda>m. movement_ms m \<le> ms) (ee_subscriptions e))"

text \<open>What has been transferred or redeemed before a time, less the amounts of a list.\<close>

definition free_principal ::
  "settlement \<Rightarrow> earn_evidence \<Rightarrow> trade list \<Rightarrow> int \<Rightarrow> decimal list res \<Rightarrow> decimal res" where
  "free_principal st e ts ms taken =
     ebind (transferred_before (trade_times ts) ms (sl_transfers st)) (\<lambda>qs.
     ebind (sum_at 34 dzero qs) (\<lambda>moved.
     ebind (sum_at 34 dzero (redeemed_before e ms)) (\<lambda>redeemed.
     ebind (add_at 34 moved redeemed) (\<lambda>held.
     ebind taken (\<lambda>xs.
     ebind (sum_at 34 dzero xs) (\<lambda>gone. sub_at 34 held gone))))))"

fun deposits_covered ::
  "settlement \<Rightarrow> earn_evidence \<Rightarrow> trade list \<Rightarrow> movement list \<Rightarrow> decimal \<Rightarrow> bool res" where
  "deposits_covered st e ts [] deposited = Inr True"
| "deposits_covered st e ts ((i, ms, amount) # rest) deposited =
     ebind (free_principal st e ts ms (consumed_until (first_fill_times ts) ms (sl_consumptions st)))
       (\<lambda>available.
     ebind (add_at 34 deposited amount) (\<lambda>deposited'.
     if dlt available deposited' then Inr False else deposits_covered st e ts rest deposited'))"

fun consumptions_covered ::
  "settlement \<Rightarrow> earn_evidence \<Rightarrow> trade list \<Rightarrow> (int \<times> decimal \<times> decimal) list \<Rightarrow> decimal \<Rightarrow> bool res" where
  "consumptions_covered st e ts [] consumed = Inr True"
| "consumptions_covered st e ts ((n, q, c) # rest) consumed =
     ebind (py_index (first_fill_times ts) (n - 1)) (\<lambda>ms.
     ebind (free_principal st e ts ms (Inr (deposited_until e ms))) (\<lambda>available.
     ebind (add_at 34 consumed q) (\<lambda>consumed'.
     if dlt available consumed' then Inr False else consumptions_covered st e ts rest consumed')))"

definition matches_earn_custody :: "settlement \<Rightarrow> earn_evidence \<Rightarrow> trade list \<Rightarrow> bool res" where
  "matches_earn_custody st e ts =
     (if sl_transfers st = [] then Inr False
      else
        ebind (deposits_covered st e ts (by_time (ee_subscriptions e)) dzero) (\<lambda>covered.
        if covered then consumptions_covered st e ts (sl_consumptions st) dzero else Inr False))"

section \<open>Exact amounts\<close>

text \<open>
  Multiples of a power of ten.  Their sums and differences are exact as long as they have at most 34
  digits.
\<close>

definition grid :: "int \<Rightarrow> rat \<Rightarrow> bool" where
  "grid e x \<longleftrightarrow> (\<exists>k::int. x = of_int k * pow10 e)"

lemma grid_0 [simp]: "grid e 0"
  unfolding grid_def by (rule exI [of _ 0]) simp

lemma grid_add: "grid e x \<Longrightarrow> grid e y \<Longrightarrow> grid e (x + y)"
  unfolding grid_def by (metis ring_distribs(2) of_int_add)

lemma grid_diff: "grid e x \<Longrightarrow> grid e y \<Longrightarrow> grid e (x - y)"
  unfolding grid_def by (metis left_diff_distrib of_int_diff)

lemma grid_round:
  assumes "grid e x" "\<bar>x\<bar> \<le> 10 ^ 34 * pow10 e"
  shows "round_sig 34 x = x"
proof -
  obtain k where k: "x = of_int k * pow10 e" using assms(1) by (auto simp: grid_def)
  have "of_int \<bar>k\<bar> * pow10 e \<le> 10 ^ 34 * pow10 e" using assms(2) by (simp add: k abs_mult)
  then have "of_int \<bar>k\<bar> \<le> (10 ^ 34 :: rat)" by (rule mult_right_le_imp_le) simp
  also have "(10 ^ 34 :: rat) = of_int (10 ^ 34)" by simp
  finally have "\<bar>k\<bar> \<le> 10 ^ 34" by (simp only: of_int_le_iff)
  then have "fits 34 x" unfolding fits_def k by blast
  then show ?thesis by (intro round_sig_fits) simp_all
qed

definition amount_on :: "int \<Rightarrow> decimal \<Rightarrow> bool" where
  "amount_on e d \<longleftrightarrow> is_finite d \<and> 0 \<le> dval d \<and> grid e (dval d)"

abbreviation total_of :: "decimal list \<Rightarrow> rat" where
  "total_of ds \<equiv> sum_list (map dval ds)"

lemma total_of_on:
  "\<forall>d\<in>set ds. amount_on e d \<Longrightarrow> 0 \<le> total_of ds \<and> grid e (total_of ds)"
  by (induction ds) (auto simp: amount_on_def grid_add)

lemma add_at_on:
  assumes "add_at 34 x y = Inr z" "is_finite x" "is_finite y" "grid e (dval x)" "grid e (dval y)"
    "\<bar>dval x + dval y\<bar> \<le> 10 ^ 34 * pow10 e"
  shows "is_finite z" "dval z = dval x + dval y" "grid e (dval z)"
  using grid_round [OF grid_add [OF assms(4,5)] assms(6)] assms grid_add [OF assms(4,5)]
  by (auto simp: add_at_finite)

lemma sub_at_on:
  assumes "sub_at 34 x y = Inr z" "is_finite x" "is_finite y" "grid e (dval x)" "grid e (dval y)"
    "\<bar>dval x - dval y\<bar> \<le> 10 ^ 34 * pow10 e"
  shows "is_finite z" "dval z = dval x - dval y"
  using grid_round [OF grid_diff [OF assms(4,5)] assms(6)] assms by (auto simp: sub_at_finite)

lemma sum_at_on:
  "sum_at 34 a ds = Inr z \<Longrightarrow> amount_on e a \<Longrightarrow> \<forall>d\<in>set ds. amount_on e d \<Longrightarrow>
   dval a + total_of ds \<le> 10 ^ 34 * pow10 e \<Longrightarrow> is_finite z \<and> grid e (dval a + total_of ds) \<and> dval z = dval a + total_of ds"
proof (induction ds arbitrary: a)
  case (Cons d ds)
  then obtain s where s: "add_at 34 a d = Inr s" "sum_at 34 s ds = Inr z" by (auto simp: ebind_eq_Inr)
  have rest: "0 \<le> total_of ds" using total_of_on [of ds e] Cons.prems(3) by simp
  have fin: "is_finite a" "is_finite d" "grid e (dval a)" "grid e (dval d)" "0 \<le> dval a" "0 \<le> dval d"
    using Cons.prems by (simp_all add: amount_on_def)
  have "\<bar>dval a + dval d\<bar> \<le> 10 ^ 34 * pow10 e" using Cons.prems(4) fin rest by simp
  note sv = add_at_on [OF s(1) fin(1-4) this]
  have "amount_on e s" using sv fin by (simp add: amount_on_def)
  then show ?case using Cons.IH [OF s(2)] Cons.prems(3,4) sv(2) by (simp add: add.assoc)
qed (simp add: amount_on_def)

lemma sum_at_zero_on:
  assumes "sum_at 34 dzero ds = Inr z" "\<forall>d\<in>set ds. amount_on e d" "total_of ds \<le> 10 ^ 34 * pow10 e"
  shows "is_finite z" "grid e (dval z)" "dval z = total_of ds"
  using sum_at_on [OF assms(1) _ assms(2)] assms(3) by (simp_all add: amount_on_def)

section \<open>The principal in exact numbers\<close>

definition moved_principal :: "settlement \<Rightarrow> trade list \<Rightarrow> int \<Rightarrow> rat" where
  "moved_principal st ts ms =
     (\<Sum>r\<leftarrow>sl_transfers st.
        if epoch_ms (tr_executed_at (ts ! nat (rs_history_count r - 1))) < ms then dval (rs_quantity r) else 0)"

definition sold_principal :: "settlement \<Rightarrow> trade list \<Rightarrow> int \<Rightarrow> rat" where
  "sold_principal st ts ms =
     (\<Sum>(n, q, c)\<leftarrow>sl_consumptions st. if first_fill_ms (ts ! nat (n - 1)) \<le> ms then dval q else 0)"

definition redeemed :: "earn_evidence \<Rightarrow> int \<Rightarrow> rat" where
  "redeemed e ms = total_of (redeemed_before e ms)"

definition deposited :: "earn_evidence \<Rightarrow> int \<Rightarrow> rat" where
  "deposited e ms = total_of (deposited_until e ms)"

text \<open>Counts that point into the history, and amounts on a grid whose total has at most 34 digits.\<close>

definition transferred_amounts :: "settlement \<Rightarrow> decimal list" where
  "transferred_amounts st = map rs_quantity (sl_transfers st)"

definition consumed_amounts :: "settlement \<Rightarrow> decimal list" where
  "consumed_amounts st = map (\<lambda>(n, q, c). q) (sl_consumptions st)"

definition custody_amounts :: "settlement \<Rightarrow> earn_evidence \<Rightarrow> decimal list" where
  "custody_amounts st e =
     transferred_amounts st @ consumed_amounts st @ map movement_amount (ee_subscriptions e) @
     map movement_amount (ee_redemptions e)"

definition exact_custody :: "int \<Rightarrow> settlement \<Rightarrow> earn_evidence \<Rightarrow> bool" where
  "exact_custody u st e \<longleftrightarrow>
     (\<forall>d\<in>set (custody_amounts st e). amount_on u d) \<and> total_of (custody_amounts st e) \<le> 10 ^ 34 * pow10 u \<and>
     (\<forall>r\<in>set (sl_transfers st). 1 \<le> rs_history_count r) \<and> (\<forall>(n, q, c)\<in>set (sl_consumptions st). 1 \<le> n)"

lemma exact_custodyD:
  assumes "exact_custody u st e"
  shows "\<forall>d\<in>set (transferred_amounts st). amount_on u d" "\<forall>d\<in>set (consumed_amounts st). amount_on u d"
    "\<forall>d\<in>set (map movement_amount (ee_subscriptions e)). amount_on u d"
    "\<forall>d\<in>set (map movement_amount (ee_redemptions e)). amount_on u d"
    "total_of (transferred_amounts st) + total_of (consumed_amounts st) +
     total_of (map movement_amount (ee_subscriptions e)) + total_of (map movement_amount (ee_redemptions e))
     \<le> 10 ^ 34 * pow10 u"
    "\<forall>r\<in>set (sl_transfers st). 1 \<le> rs_history_count r" "\<forall>(n, q, c)\<in>set (sl_consumptions st). 1 \<le> n"
  using assms by (simp_all add: exact_custody_def custody_amounts_def add.assoc)

lemma py_index_map:
  "py_index (map f xs) (n - 1) = Inr t \<Longrightarrow> 1 \<le> n \<Longrightarrow> t = f (xs ! nat (n - 1))"
  by (auto simp: py_index_def Let_def nth_map split: if_splits)

lemma transferred_before_ok:
  "transferred_before (trade_times ts) ms rs = Inr qs \<Longrightarrow> \<forall>r\<in>set rs. 1 \<le> rs_history_count r \<Longrightarrow>
   set qs \<subseteq> rs_quantity ` set rs \<and>
   total_of qs = (\<Sum>r\<leftarrow>rs. if epoch_ms (tr_executed_at (ts ! nat (rs_history_count r - 1))) < ms
      then dval (rs_quantity r) else 0)"
proof (induction rs arbitrary: qs)
  case (Cons r rs)
  then obtain t qs' where step: "py_index (trade_times ts) (rs_history_count r - 1) = Inr t"
    "transferred_before (trade_times ts) ms rs = Inr qs'" "qs = (if t < ms then rs_quantity r # qs' else qs')"
    by (auto simp: ebind_eq_Inr)
  have "t = epoch_ms (tr_executed_at (ts ! nat (rs_history_count r - 1)))"
    using py_index_map [of "\<lambda>t. epoch_ms (tr_executed_at t)" ts] step(1) Cons.prems(2) by (simp add: trade_times_def)
  then show ?case using Cons.IH [OF step(2)] Cons.prems(2) step(3) by auto
qed simp

lemma consumed_until_ok:
  "consumed_until (first_fill_times ts) ms cs = Inr qs \<Longrightarrow> \<forall>(n, q, c)\<in>set cs. 1 \<le> n \<Longrightarrow>
   set qs \<subseteq> (\<lambda>(n, q, c). q) ` set cs \<and>
   total_of qs = (\<Sum>(n, q, c)\<leftarrow>cs. if first_fill_ms (ts ! nat (n - 1)) \<le> ms then dval q else 0)"
proof (induction cs arbitrary: qs)
  case (Cons x cs)
  obtain n q c where x: "x = (n, q, c)" by (cases x)
  with Cons.prems obtain t qs' where step: "py_index (first_fill_times ts) (n - 1) = Inr t"
    "consumed_until (first_fill_times ts) ms cs = Inr qs'" "qs = (if t \<le> ms then q # qs' else qs')"
    by (auto simp: ebind_eq_Inr)
  have "t = first_fill_ms (ts ! nat (n - 1))"
    using py_index_map [of first_fill_ms ts] step(1) Cons.prems(2) by (simp add: first_fill_times_def x)
  then show ?case using Cons.IH [OF step(2)] Cons.prems(2) step(3) by (auto simp: x)
qed simp

lemma sum_list_if_le:
  "\<forall>x\<in>set xs. 0 \<le> f x \<Longrightarrow> (\<Sum>x\<leftarrow>xs. if P x then f x else 0) \<le> (\<Sum>x\<leftarrow>xs. f x :: rat)"
  by (induction xs) auto

lemma total_filter_le:
  "\<forall>m\<in>set ms. 0 \<le> dval (movement_amount m) \<Longrightarrow>
   total_of (map movement_amount (filter P ms)) \<le> total_of (map movement_amount ms)"
  by (induction ms) auto

lemma principal_bounds:
  assumes "exact_custody u st e"
  shows "moved_principal st ts ms \<le> total_of (transferred_amounts st)"
    "sold_principal st ts ms \<le> total_of (consumed_amounts st)"
    "redeemed e ms \<le> total_of (map movement_amount (ee_redemptions e))"
    "deposited e ms \<le> total_of (map movement_amount (ee_subscriptions e))"
proof -
  note parts = exact_custodyD [OF assms]
  show "moved_principal st ts ms \<le> total_of (transferred_amounts st)"
    using sum_list_if_le [of "sl_transfers st" "\<lambda>r. dval (rs_quantity r)"] parts(1)
    by (simp add: moved_principal_def transferred_amounts_def amount_on_def comp_def)
  show "sold_principal st ts ms \<le> total_of (consumed_amounts st)"
    using sum_list_if_le [of "sl_consumptions st" "\<lambda>x. dval (fst (snd x))"
        "\<lambda>x. first_fill_ms (ts ! nat (fst x - 1)) \<le> ms"] parts(2)
    by (simp add: sold_principal_def consumed_amounts_def amount_on_def comp_def case_prod_unfold)
  show "redeemed e ms \<le> total_of (map movement_amount (ee_redemptions e))"
    unfolding redeemed_def redeemed_before_def using parts(4) by (intro total_filter_le) (simp add: amount_on_def)
  show "deposited e ms \<le> total_of (map movement_amount (ee_subscriptions e))"
    unfolding deposited_def deposited_until_def using parts(3) by (intro total_filter_le) (simp add: amount_on_def)
qed

lemma free_principal_exact:
  assumes ok: "exact_custody u st e" and free: "free_principal st e ts ms taken = Inr z"
    and taken: "\<And>xs. taken = Inr xs \<Longrightarrow> (\<forall>d\<in>set xs. amount_on u d) \<and> total_of xs = gone \<and>
      gone \<le> total_of (consumed_amounts st) + total_of (map movement_amount (ee_subscriptions e))"
  shows "is_finite z" "dval z = moved_principal st ts ms + redeemed e ms - gone"
proof -
  note parts = exact_custodyD [OF ok] and bounds = principal_bounds(1) [OF ok, of ts ms] principal_bounds(3) [OF ok, of ms]
  note nonneg = total_of_on [OF parts(1)] total_of_on [OF parts(2)] total_of_on [OF parts(3)] total_of_on [OF parts(4)]
  obtain qs moved red held xs g where step:
    "transferred_before (trade_times ts) ms (sl_transfers st) = Inr qs" "sum_at 34 dzero qs = Inr moved"
    "sum_at 34 dzero (redeemed_before e ms) = Inr red" "add_at 34 moved red = Inr held" "taken = Inr xs"
    "sum_at 34 dzero xs = Inr g" "sub_at 34 held g = Inr z"
    using free by (auto simp: free_principal_def ebind_eq_Inr)
  have qs: "\<forall>d\<in>set qs. amount_on u d" "total_of qs = moved_principal st ts ms"
    using transferred_before_ok [OF step(1) parts(6)] parts(1)
    by (auto simp: moved_principal_def transferred_amounts_def)
  have rs: "\<forall>d\<in>set (redeemed_before e ms). amount_on u d" using parts(4) by (auto simp: redeemed_before_def)
  have xs: "\<forall>d\<in>set xs. amount_on u d" "total_of xs = gone"
    "gone \<le> total_of (consumed_amounts st) + total_of (map movement_amount (ee_subscriptions e))"
    using taken [OF step(5)] by blast+
  have pos: "0 \<le> total_of qs" "0 \<le> redeemed e ms" "0 \<le> gone"
    using total_of_on [OF qs(1)] total_of_on [OF rs] total_of_on [OF xs(1)] xs(2) by (simp_all add: redeemed_def)
  have le: "moved_principal st ts ms + redeemed e ms + gone \<le> 10 ^ 34 * pow10 u"
    using bounds xs(3) parts(5) by linarith
  have cap: "total_of qs \<le> 10 ^ 34 * pow10 u" "total_of (redeemed_before e ms) \<le> 10 ^ 34 * pow10 u"
    "total_of xs \<le> 10 ^ 34 * pow10 u"
    using le pos qs(2) xs(2) by (simp_all add: redeemed_def)
  note m = sum_at_zero_on [OF step(2) qs(1) cap(1)] and r = sum_at_zero_on [OF step(3) rs cap(2)]
    and g = sum_at_zero_on [OF step(6) xs(1) cap(3)]
  have "\<bar>dval moved + dval red\<bar> \<le> 10 ^ 34 * pow10 u"
    using le pos m(3) r(3) qs(2) by (simp add: redeemed_def)
  note h = add_at_on [OF step(4) m(1) r(1) m(2) r(2) this]
  have hv: "dval held = moved_principal st ts ms + redeemed e ms" using h(2) m(3) r(3) qs(2) by (simp add: redeemed_def)
  have "\<bar>dval held - dval g\<bar> \<le> 10 ^ 34 * pow10 u" using le pos hv g(3) xs(2) qs(2) by simp
  note v = sub_at_on [OF step(7) h(1) g(1) h(3) g(2) this]
  show "is_finite z" by (rule v(1))
  show "dval z = moved_principal st ts ms + redeemed e ms - gone" using v(2) hv g(3) xs(2) by simp
qed

text \<open>What the loops establish before each movement.\<close>

lemma deposits_covered_step:
  assumes ok: "exact_custody u st e"
  shows "deposits_covered st e ts (xs @ (i, ms, a) # ys) acc = Inr True \<Longrightarrow> amount_on u acc \<Longrightarrow>
    \<forall>m\<in>set (xs @ (i, ms, a) # ys). amount_on u (movement_amount m) \<Longrightarrow>
    dval acc + total_of (map movement_amount (xs @ (i, ms, a) # ys)) \<le> 10 ^ 34 * pow10 u \<Longrightarrow>
    dval acc + total_of (map movement_amount xs) + dval a
      \<le> moved_principal st ts ms + redeemed e ms - sold_principal st ts ms"
proof (induction xs arbitrary: acc)
  case Nil
  then obtain z s where z: "free_principal st e ts ms (consumed_until (first_fill_times ts) ms (sl_consumptions st))
      = Inr z" "add_at 34 acc a = Inr s" "\<not> dlt z s"
    by (auto simp: ebind_eq_Inr split: if_splits)
  have "\<forall>d\<in>set (map movement_amount ys). amount_on u d" using Nil.prems(3) by simp
  then have rest: "0 \<le> total_of (map movement_amount ys)" using total_of_on by blast
  have "consumed_until (first_fill_times ts) ms (sl_consumptions st) = Inr xs \<Longrightarrow>
      (\<forall>d\<in>set xs. amount_on u d) \<and> total_of xs = sold_principal st ts ms \<and> sold_principal st ts ms
      \<le> total_of (consumed_amounts st) + total_of (map movement_amount (ee_subscriptions e))" for xs
    using consumed_until_ok [of ts ms "sl_consumptions st" xs] exact_custodyD [OF ok] principal_bounds(2) [OF ok, of ts ms]
      total_of_on [OF exact_custodyD(3) [OF ok]]
    by (auto simp: sold_principal_def consumed_amounts_def)
  note free = free_principal_exact [OF ok z(1) this]
  have fin: "is_finite acc" "is_finite a" "grid u (dval acc)" "grid u (dval a)" "0 \<le> dval acc" "0 \<le> dval a"
    using Nil.prems(2,3) by (simp_all add: amount_on_def)
  have "\<bar>dval acc + dval a\<bar> \<le> 10 ^ 34 * pow10 u" using Nil.prems(4) fin rest by simp
  note s = add_at_on [OF z(2) fin(1-4) this]
  show ?case using z(3) free s(1,2) by simp
next
  case (Cons x xs)
  obtain j n b where x: "x = (j, n, b)" by (cases x)
  have "\<forall>d\<in>set (map movement_amount (xs @ (i, ms, a) # ys)). amount_on u d" using Cons.prems(3) by auto
  then have rest: "0 \<le> total_of (map movement_amount (xs @ (i, ms, a) # ys))" using total_of_on by blast
  from Cons.prems(1) obtain s where s: "add_at 34 acc b = Inr s"
    "deposits_covered st e ts (xs @ (i, ms, a) # ys) s = Inr True"
    by (auto simp: x ebind_eq_Inr split: if_splits)
  have fin: "is_finite acc" "is_finite b" "grid u (dval acc)" "grid u (dval b)" "0 \<le> dval acc" "0 \<le> dval b"
    using Cons.prems(2,3) by (simp_all add: amount_on_def x)
  have "\<bar>dval acc + dval b\<bar> \<le> 10 ^ 34 * pow10 u" using Cons.prems(4) fin rest by (simp add: x)
  note v = add_at_on [OF s(1) fin(1-4) this]
  have "amount_on u s" using v fin by (simp add: amount_on_def)
  from Cons.IH [OF s(2) this] Cons.prems(3,4) v(2) show ?case by (simp add: x add.assoc)
qed

abbreviation consumed_quantity :: "int \<times> decimal \<times> decimal \<Rightarrow> decimal" where
  "consumed_quantity x \<equiv> fst (snd x)"

lemma consumptions_covered_step:
  assumes ok: "exact_custody u st e"
  shows "consumptions_covered st e ts (xs @ (n, q, c) # ys) acc = Inr True \<Longrightarrow> 1 \<le> n \<Longrightarrow> amount_on u acc \<Longrightarrow>
    \<forall>x\<in>set (xs @ (n, q, c) # ys). amount_on u (consumed_quantity x) \<Longrightarrow>
    dval acc + total_of (map consumed_quantity (xs @ (n, q, c) # ys)) \<le> 10 ^ 34 * pow10 u \<Longrightarrow>
    dval acc + total_of (map consumed_quantity xs) + dval q
      \<le> moved_principal st ts (first_fill_ms (ts ! nat (n - 1))) + redeemed e (first_fill_ms (ts ! nat (n - 1)))
        - deposited e (first_fill_ms (ts ! nat (n - 1)))"
proof (induction xs arbitrary: acc)
  case Nil
  then obtain t z s where z: "py_index (first_fill_times ts) (n - 1) = Inr t"
    "free_principal st e ts t (Inr (deposited_until e t)) = Inr z" "add_at 34 acc q = Inr s" "\<not> dlt z s"
    by (auto simp: ebind_eq_Inr split: if_splits)
  have t: "t = first_fill_ms (ts ! nat (n - 1))"
    using py_index_map [of first_fill_ms ts] z(1) Nil.prems(2) by (simp add: first_fill_times_def)
  have "\<forall>d\<in>set (map consumed_quantity ys). amount_on u d" using Nil.prems(4) by simp
  then have rest: "0 \<le> total_of (map consumed_quantity ys)" using total_of_on by blast
  have "\<forall>d\<in>set (deposited_until e t). amount_on u d"
    using exact_custodyD(3) [OF ok] by (auto simp: deposited_until_def)
  then have "Inr (deposited_until e t) = (Inr xs :: decimal list res) \<Longrightarrow>
      (\<forall>d\<in>set xs. amount_on u d) \<and> total_of xs = deposited e t \<and> deposited e t
      \<le> total_of (consumed_amounts st) + total_of (map movement_amount (ee_subscriptions e))" for xs
    using principal_bounds(4) [OF ok, of t] total_of_on [OF exact_custodyD(2) [OF ok]] by (auto simp: deposited_def)
  note free = free_principal_exact [OF ok z(2) this]
  have fin: "is_finite acc" "is_finite q" "grid u (dval acc)" "grid u (dval q)" "0 \<le> dval acc" "0 \<le> dval q"
    using Nil.prems(3,4) by (simp_all add: amount_on_def)
  have "\<bar>dval acc + dval q\<bar> \<le> 10 ^ 34 * pow10 u" using Nil.prems(5) fin rest by simp
  note s = add_at_on [OF z(3) fin(1-4) this]
  show ?case using z(4) free s(1,2) by (simp add: t)
next
  case (Cons x xs)
  obtain j b d where x: "x = (j, b, d)" by (cases x)
  have "\<forall>d\<in>set (map consumed_quantity (xs @ (n, q, c) # ys)). amount_on u d" using Cons.prems(4) by auto
  then have rest: "0 \<le> total_of (map consumed_quantity (xs @ (n, q, c) # ys))" using total_of_on by blast
  from Cons.prems(1) obtain s where s: "add_at 34 acc b = Inr s"
    "consumptions_covered st e ts (xs @ (n, q, c) # ys) s = Inr True"
    by (auto simp: x ebind_eq_Inr split: if_splits)
  have fin: "is_finite acc" "is_finite b" "grid u (dval acc)" "grid u (dval b)" "0 \<le> dval acc" "0 \<le> dval b"
    using Cons.prems(3,4) by (simp_all add: amount_on_def x)
  have "\<bar>dval acc + dval b\<bar> \<le> 10 ^ 34 * pow10 u" using Cons.prems(5) fin rest by (simp add: x)
  note v = add_at_on [OF s(1) fin(1-4) this]
  have "amount_on u s" using v fin by (simp add: amount_on_def)
  from Cons.IH [OF s(2) Cons.prems(2) this] Cons.prems(4,5) v(2) show ?case by (simp add: x add.assoc)
qed

section \<open>Deposits never exceed the free principal\<close>

lemma sorted_prefix:
  assumes "sorted (map f L)" "x \<in> set L"
  obtains xs y ys where "L = xs @ y # ys" "f y = f x" "filter (\<lambda>z. f z \<le> f x) L = xs @ [y]"
proof -
  have "\<exists>xs y ys. L = xs @ y # ys \<and> f y = f x \<and> filter (\<lambda>z. f z \<le> f x) L = xs @ [y]"
    using assms
  proof (induction L arbitrary: x)
    case (Cons a L)
    show ?case
    proof (cases "\<exists>z\<in>set L. f z = f x")
      case True
      then obtain z where z: "z \<in> set L" "f z = f x" by blast
      with Cons.prems(1) have "\<exists>xs y ys. L = xs @ y # ys \<and> f y = f z \<and> filter (\<lambda>w. f w \<le> f z) L = xs @ [y]"
        using Cons.IH [of z] Cons.prems by simp
      then obtain xs y ys where "L = xs @ y # ys" "f y = f x" "filter (\<lambda>w. f w \<le> f x) L = xs @ [y]"
        using z(2) by auto
      moreover have "f a \<le> f x" using Cons.prems(1) z by auto
      ultimately have "a # L = (a # xs) @ y # ys \<and> f y = f x \<and> filter (\<lambda>w. f w \<le> f x) (a # L) = (a # xs) @ [y]"
        by simp
      then show ?thesis by blast
    next
      case False
      then have a: "a = x" using Cons.prems(2) by auto
      have "filter (\<lambda>z. f z \<le> f x) L = []"
        using False Cons.prems(1) by (fastforce simp: a filter_empty_conv)
      then have "a # L = [] @ a # L \<and> f a = f x \<and> filter (\<lambda>w. f w \<le> f x) (a # L) = [] @ [a]" by (simp add: a)
      then show ?thesis by blast
    qed
  qed simp
  then show ?thesis using that by blast
qed

lemma sum_list_mset: "mset xs = mset ys \<Longrightarrow> sum_list (map f xs) = (sum_list (map f ys) :: rat)"
  by (metis mset_map sum_mset_sum_list)

lemma deposits_within:
  assumes "matches_earn_custody st e ts = Inr True" "exact_custody u st e" "s \<in> set (ee_subscriptions e)"
  shows "deposited e (movement_ms s) + sold_principal st ts (movement_ms s)
    \<le> moved_principal st ts (movement_ms s) + redeemed e (movement_ms s)"
proof -
  have loop: "deposits_covered st e ts (by_time (ee_subscriptions e)) dzero = Inr True"
    using assms(1) by (auto simp: matches_earn_custody_def ebind_eq_Inr split: if_splits)
  have same: "set (by_time (ee_subscriptions e)) = set (ee_subscriptions e)"
    by (metis by_time_mset set_mset_mset)
  obtain xs y ys where split: "by_time (ee_subscriptions e) = xs @ y # ys" "movement_ms y = movement_ms s"
    "filter (\<lambda>m. movement_ms m \<le> movement_ms s) (by_time (ee_subscriptions e)) = xs @ [y]"
    using sorted_prefix [of movement_ms "by_time (ee_subscriptions e)" s] by_time_sorted same assms(3) by blast
  obtain i a where y: "y = (i, movement_ms s, a)" using split(2) by (cases y) auto
  have all: "\<forall>m\<in>set (xs @ (i, movement_ms s, a) # ys). amount_on u (movement_amount m)"
    using exact_custodyD(3) [OF assms(2)] same split(1) y by auto
  have "sum_list (map (\<lambda>m. dval (movement_amount m)) (by_time (ee_subscriptions e))) =
      sum_list (map (\<lambda>m. dval (movement_amount m)) (ee_subscriptions e))"
    by (rule sum_list_mset) simp
  then have sum: "total_of (map movement_amount (xs @ (i, movement_ms s, a) # ys))
      = total_of (map movement_amount (ee_subscriptions e))"
    by (simp only: split(1) y map_map comp_def)
  have cap: "dval dzero + total_of (map movement_amount (xs @ (i, movement_ms s, a) # ys)) \<le> 10 ^ 34 * pow10 u"
    using exact_custodyD(5) [OF assms(2)] total_of_on [OF exact_custodyD(1) [OF assms(2)]]
      total_of_on [OF exact_custodyD(2) [OF assms(2)]] total_of_on [OF exact_custodyD(4) [OF assms(2)]] sum
    unfolding dzero_sel by linarith
  have "amount_on u dzero" by (simp add: amount_on_def)
  note step = deposits_covered_step [OF assms(2) loop [unfolded split(1) y] this all cap]
  have "sum_list (map (\<lambda>m. dval (movement_amount m)) (filter (\<lambda>m. movement_ms m \<le> movement_ms s) (by_time (ee_subscriptions e)))) =
      sum_list (map (\<lambda>m. dval (movement_amount m)) (filter (\<lambda>m. movement_ms m \<le> movement_ms s) (ee_subscriptions e)))"
    by (rule sum_list_mset) (simp add: mset_filter)
  then have "deposited e (movement_ms s) = total_of (map movement_amount xs) + dval a"
    by (simp add: deposited_def deposited_until_def split(3) y comp_def)
  then show ?thesis using step by simp
qed

lemma consumptions_within:
  assumes "matches_earn_custody st e ts = Inr True" "exact_custody u st e" "k < length (sl_consumptions st)"
  defines "ms \<equiv> first_fill_ms (ts ! nat (fst (sl_consumptions st ! k) - 1))"
  shows "total_of (map consumed_quantity (take (Suc k) (sl_consumptions st))) + deposited e ms
    \<le> moved_principal st ts ms + redeemed e ms"
proof -
  have loop: "consumptions_covered st e ts (sl_consumptions st) dzero = Inr True"
    using assms(1) by (auto simp: matches_earn_custody_def ebind_eq_Inr split: if_splits)
  obtain n q c xs ys where split: "sl_consumptions st = xs @ (n, q, c) # ys" and len: "length xs = k"
    using id_take_nth_drop [OF assms(3)] assms(3)
    by (metis length_take min.absorb2 order_less_imp_le prod.collapse)
  have n: "1 \<le> n" using exact_custodyD(7) [OF assms(2)] by (simp add: split)
  have quantities: "consumed_amounts st = map consumed_quantity (xs @ (n, q, c) # ys)"
    by (simp add: consumed_amounts_def case_prod_unfold split)
  have all: "\<forall>x\<in>set (xs @ (n, q, c) # ys). amount_on u (consumed_quantity x)"
    using exact_custodyD(2) [OF assms(2)] by (auto simp: quantities)
  have cap: "dval dzero + total_of (map consumed_quantity (xs @ (n, q, c) # ys)) \<le> 10 ^ 34 * pow10 u"
    using exact_custodyD(5) [OF assms(2)] total_of_on [OF exact_custodyD(1) [OF assms(2)]]
      total_of_on [OF exact_custodyD(3) [OF assms(2)]] total_of_on [OF exact_custodyD(4) [OF assms(2)]]
    unfolding quantities dzero_sel by linarith
  have "amount_on u dzero" by (simp add: amount_on_def)
  note step = consumptions_covered_step [OF assms(2) loop [unfolded split] n this all cap]
  show ?thesis using step len by (simp add: ms_def split nth_append)
qed

end
