(* ===== verification/Balance_Reconciliation.thy ===== *)
theory Balance_Reconciliation
  imports Earn_Custody Account_State
begin

text \<open>
  The comparison of the exchange balance of ETH with the ledgers
  (\<open>application/balance_reconciliation.py\<close>): the receipt, the basis it is bound to, the comparison
  with its queries of the exchange, and what each failure publishes.  Other threads act while a
  query is under way, so a run has what the controller shows after each query.  The position, the
  settlement and the history controller exist throughout a run; the diagnostics are not modelled.
\<close>

section \<open>The basis of a receipt\<close>

record balance_basis =
  bs_version :: int
  bs_quantity :: decimal
  bs_cost_basis :: decimal
  bs_owner :: "strategy_type option"
  bs_history :: string
  bs_transfers :: "residual_transfer list"
  bs_ambiguous :: bool
  bs_external :: bool

text \<open>What the controller shows: \<open>bv_cleanup\<close> is the error that the shutdown check raises now.\<close>

record balance_view =
  bv_account :: account_state
  bv_position :: position
  bv_settlement :: "settlement option"
  bv_history :: "trade list"
  bv_ambiguous :: bool
  bv_external :: bool
  bv_cleanup :: "py_error option"
  bv_shutdown_owner :: bool
  bv_account_ready :: bool
  bv_runtime_failed :: bool

definition view_transfers :: "balance_view \<Rightarrow> residual_transfer list" where
  "view_transfers v = (case bv_settlement v of None \<Rightarrow> [] | Some s \<Rightarrow> sl_transfers s)"

definition view_quantity :: "balance_view \<Rightarrow> decimal" where
  "view_quantity v = pl_quantity (pn_state (bv_position v))"

definition balance_basis_of :: "(trade list \<Rightarrow> string) \<Rightarrow> balance_view \<Rightarrow> balance_basis" where
  "balance_basis_of digest v =
     \<lparr>bs_version = ac_version (bv_account v), bs_quantity = view_quantity v,
      bs_cost_basis = pl_cost_basis (pn_state (bv_position v)), bs_owner = pl_owner (pn_state (bv_position v)),
      bs_history = digest (bv_history v), bs_transfers = view_transfers v,
      bs_ambiguous = bv_ambiguous v, bs_external = bv_external v\<rparr>"

text \<open>Equality of the tuples and of the frozen data classes is equality of the decimals.\<close>

definition transfer_same :: "residual_transfer \<Rightarrow> residual_transfer \<Rightarrow> bool" where
  "transfer_same a b \<longleftrightarrow>
     rs_history_count a = rs_history_count b \<and> rs_history_sha256 a = rs_history_sha256 b \<and>
     deq (rs_quantity a) (rs_quantity b) \<and> deq (rs_cost_basis a) (rs_cost_basis b) \<and>
     deq (rs_step_size a) (rs_step_size b)"

definition basis_same :: "balance_basis \<Rightarrow> balance_basis \<Rightarrow> bool" where
  "basis_same a b \<longleftrightarrow>
     bs_version a = bs_version b \<and> deq (bs_quantity a) (bs_quantity b) \<and>
     deq (bs_cost_basis a) (bs_cost_basis b) \<and> bs_owner a = bs_owner b \<and> bs_history a = bs_history b \<and>
     list_all2 transfer_same (bs_transfers a) (bs_transfers b) \<and>
     bs_ambiguous a = bs_ambiguous b \<and> bs_external a = bs_external b"

definition movement_same :: "movement \<Rightarrow> movement \<Rightarrow> bool" where
  "movement_same a b \<longleftrightarrow>
     movement_id a = movement_id b \<and> movement_ms a = movement_ms b \<and> deq (movement_amount a) (movement_amount b)"

definition evidence_same :: "earn_evidence \<Rightarrow> earn_evidence \<Rightarrow> bool" where
  "evidence_same a b \<longleftrightarrow>
     list_all2 movement_same (ee_subscriptions a) (ee_subscriptions b) \<and> deq (ee_quantity a) (ee_quantity b) \<and>
     deq (ee_rewards a) (ee_rewards b) \<and> list_all2 movement_same (ee_redemptions a) (ee_redemptions b)"

section \<open>The receipt\<close>

record balance_receipt =
  bl_status :: string
  bl_position :: decimal
  bl_principal :: decimal
  bl_rewards :: decimal
  bl_earn :: decimal
  bl_expected :: decimal
  bl_exchange :: decimal
  bl_difference :: decimal
  bl_checked_at :: moment
  bl_reason :: "string option"
  bl_retryable :: bool
  bl_basis :: balance_basis

text \<open>\<open>BalanceReconciliation.snapshot\<close>; the texts of its numbers are not modelled.\<close>

definition receipt_snapshot :: "bool \<Rightarrow> balance_receipt \<Rightarrow> balance_receipt" where
  "receipt_snapshot current r =
     (if current then r
      else r\<lparr>bl_status := ''stale'', bl_reason := Some ''BALANCE_OBSERVATION_CHANGED'', bl_retryable := True\<rparr>)"

definition current_balance_snapshot ::
  "(trade list \<Rightarrow> string) \<Rightarrow> balance_view \<Rightarrow> balance_receipt option \<Rightarrow> balance_receipt option" where
  "current_balance_snapshot digest v =
     map_option (\<lambda>r. receipt_snapshot (basis_same (bl_basis r) (balance_basis_of digest v)) r)"

definition residual_totals :: "balance_view \<Rightarrow> (decimal \<times> decimal) res" where
  "residual_totals v = (case bv_settlement v of None \<Rightarrow> Inr (dzero, dzero) | Some s \<Rightarrow> totals s)"

definition check_authority :: "balance_view \<Rightarrow> unit res" where
  "check_authority v =
     (case bv_cleanup v of
        Some e \<Rightarrow> Inl e
      | None \<Rightarrow> require (\<not> bv_ambiguous v \<and> \<not> bv_external v) BalanceObservationChangedError)"

section \<open>A run\<close>

text \<open>The answers of the exchange with the view after each of them, and the two readings of the clock.\<close>

record balance_run =
  rn_start :: balance_view
  rn_evidence :: "moment \<Rightarrow> earn_evidence option res"
  rn_after_evidence :: balance_view
  rn_account :: "account_snapshot res"
  rn_after_account :: balance_view
  rn_repeated :: "moment \<Rightarrow> earn_evidence option res"
  rn_after_repeated :: balance_view
  rn_confirmed :: "account_snapshot res"
  rn_after_confirmed :: balance_view
  rn_started_at :: moment
  rn_finished_at :: moment

text \<open>How the body of the \<open>try\<close> ends.\<close>

datatype attempt = Agreed | Mismatch string | Raised py_error

definition attempting :: "balance_receipt \<Rightarrow> 'a res \<Rightarrow> ('a \<Rightarrow> balance_receipt \<times> attempt) \<Rightarrow> balance_receipt \<times> attempt" where
  "attempting r m f = (case m of Inl e \<Rightarrow> (r, Raised e) | Inr x \<Rightarrow> f x)"

definition finish_check ::
  "(trade list \<Rightarrow> string) \<Rightarrow> balance_basis \<Rightarrow> balance_view \<Rightarrow> balance_receipt \<Rightarrow> balance_receipt \<times> attempt" where
  "finish_check digest basis v r =
     attempting r (check_authority v) (\<lambda>_.
     if basis_same (balance_basis_of digest v) basis then (r, Agreed) else (r, Raised BalanceObservationChangedError))"

definition eth_balances :: "account_snapshot \<Rightarrow> asset_balance list" where
  "eth_balances n = filter (\<lambda>b. ab_asset b = ''ETH'') (an_balances n)"

text \<open>The second look at the evidence and at the account.\<close>

definition observation_stable ::
  "(trade list \<Rightarrow> string) \<Rightarrow> balance_basis \<Rightarrow> balance_run \<Rightarrow> earn_evidence \<Rightarrow> earn_evidence option \<Rightarrow>
   account_snapshot \<Rightarrow> account_snapshot \<Rightarrow> decimal \<Rightarrow> bool res" where
  "observation_stable digest basis run e repeated first confirmed exchange =
     (case (repeated, eth_balances confirmed) of
        (Some e', [b]) \<Rightarrow>
          if evidence_same e' e \<and> list_all2 balance_same (eth_balances first) [b]
          then ebind (balance_total b) (\<lambda>t.
            Inr (deq t exchange \<and> basis_same (balance_basis_of digest (rn_after_confirmed run)) basis))
          else Inr False
      | _ \<Rightarrow> Inr False)"

definition confirm_evidence ::
  "(trade list \<Rightarrow> string) \<Rightarrow> balance_basis \<Rightarrow> balance_run \<Rightarrow> moment \<Rightarrow> earn_evidence \<Rightarrow> decimal \<Rightarrow>
   balance_receipt \<Rightarrow> balance_receipt \<times> attempt" where
  "confirm_evidence digest basis run since e exchange r =
     attempting r (rn_account run) (\<lambda>first.
     attempting r (check_authority (rn_after_account run)) (\<lambda>_.
     attempting r (rn_repeated run since) (\<lambda>repeated.
     attempting r (check_authority (rn_after_repeated run)) (\<lambda>_.
     attempting r (rn_confirmed run) (\<lambda>confirmed.
     attempting r (check_authority (rn_after_confirmed run)) (\<lambda>_.
     attempting r (observation_stable digest basis run e repeated first confirmed exchange) (\<lambda>stable.
     let v = rn_after_confirmed run in
     if \<not> stable \<or>
        (\<not> bv_shutdown_owner v \<and> (\<not> bv_account_ready v \<or> bv_runtime_failed v))
     then (r, Raised BalanceObservationChangedError)
     else finish_check digest basis v r)))))))"

text \<open>\<open>position.quantity + principal + evidence.rewards - evidence.quantity\<close> with 34 digits.\<close>

definition expected_spot :: "decimal \<Rightarrow> decimal \<Rightarrow> decimal \<Rightarrow> decimal \<Rightarrow> decimal res" where
  "expected_spot quantity residue rewards earn =
     ebind (add_at 34 quantity residue) (\<lambda>x. ebind (add_at 34 x rewards) (\<lambda>y. sub_at 34 y earn))"

definition settlement_after :: "balance_view \<Rightarrow> settlement \<Rightarrow> settlement" where
  "settlement_after v s = (case bv_settlement v of None \<Rightarrow> s | Some s' \<Rightarrow> s')"

definition explain_difference ::
  "(trade list \<Rightarrow> string) \<Rightarrow> balance_basis \<Rightarrow> balance_run \<Rightarrow> decimal \<Rightarrow> decimal \<Rightarrow> balance_receipt \<Rightarrow>
   balance_receipt \<times> attempt" where
  "explain_difference digest basis run residue exchange r =
     (case bv_settlement (rn_start run) of
        None \<Rightarrow> (r, Mismatch ''EARN_EVIDENCE_MISSING'')
      | Some s \<Rightarrow>
          if sl_transfers s = [] then (r, Mismatch ''EARN_EVIDENCE_MISSING'')
          else
            attempting r (py_index (bv_history (rn_start run)) (rs_history_count (hd (sl_transfers s)) - 1)) (\<lambda>t.
            let since = tr_executed_at t in
            attempting r (rn_evidence run since) (\<lambda>found.
            attempting r (check_authority (rn_after_evidence run)) (\<lambda>_.
            case found of
              None \<Rightarrow> (r, Mismatch ''EARN_EVIDENCE_MISSING'')
            | Some e \<Rightarrow>
                attempting r (matches_earn_custody (settlement_after (rn_after_evidence run) s) e (bv_history (rn_start run))) (\<lambda>matches.
                if \<not> matches then (r, Mismatch ''EARN_EVIDENCE_MISSING'')
                else
                  attempting r (expected_spot (view_quantity (rn_after_evidence run)) residue (ee_rewards e)
                    (ee_quantity e)) (\<lambda>expected.
                  attempting r (sub_at 34 exchange expected) (\<lambda>difference.
                  let r' = r\<lparr>bl_rewards := ee_rewards e, bl_earn := ee_quantity e, bl_expected := expected,
                    bl_difference := difference\<rparr> in
                  if \<not> deq exchange expected then (r', Mismatch ''BALANCE_UNEXPLAINED'')
                  else confirm_evidence digest basis run since e exchange r')))))))"

definition attempt_balance ::
  "(trade list \<Rightarrow> string) \<Rightarrow> balance_run \<Rightarrow> decimal \<Rightarrow> balance_receipt \<Rightarrow> balance_receipt \<times> attempt" where
  "attempt_balance digest run residue r =
     attempting r (check_authority (rn_start run)) (\<lambda>_.
     if dlt (bl_exchange r) (bl_position r) then (r, Mismatch ''POSITION_EXCEEDS_BALANCE'')
     else if \<not> deq (bl_exchange r) (bl_expected r)
     then explain_difference digest (bl_basis r) run residue (bl_exchange r) r
     else finish_check digest (bl_basis r) (rn_start run) r)"

text \<open>The handlers: the receipt stored afterwards, and the receipt returned or the error raised.\<close>

definition is_retryable_status :: "int \<Rightarrow> bool" where
  "is_retryable_status status \<longleftrightarrow> 500 \<le> status \<or> status = 418 \<or> status = 429"

definition unavailable :: "bool \<Rightarrow> balance_receipt \<Rightarrow> balance_receipt" where
  "unavailable again r =
     r\<lparr>bl_status := ''unavailable'', bl_reason := Some ''EARN_ACCOUNT_UNREACHABLE'', bl_retryable := again\<rparr>"

definition publish_attempt ::
  "moment \<Rightarrow> balance_receipt option \<Rightarrow> balance_receipt \<times> attempt \<Rightarrow>
   balance_receipt option \<times> balance_receipt res" where
  "publish_attempt now prior = (\<lambda>(r, outcome).
     case outcome of
       Agreed \<Rightarrow>
         let r' = r\<lparr>bl_status := ''verified'', bl_reason := None, bl_checked_at := now\<rparr> in (Some r', Inr r')
     | Mismatch code \<Rightarrow>
         (Some (r\<lparr>bl_status := ''mismatch'', bl_reason := Some code\<rparr>), Inl ResidualBalanceMismatchError)
     | Raised e \<Rightarrow>
         (case e of
            BalanceObservationChangedError \<Rightarrow>
              (Some (r\<lparr>bl_status := ''stale'', bl_reason := Some ''BALANCE_OBSERVATION_CHANGED'',
                 bl_retryable := True\<rparr>), Inl e)
          | OSError \<Rightarrow> (Some (unavailable True r), Inl e)
          | BinanceAPIError status \<Rightarrow> (Some (unavailable (is_retryable_status status) r), Inl e)
          | ValueError \<Rightarrow>
              (Some (r\<lparr>bl_status := ''mismatch'', bl_reason := Some ''EARN_EVIDENCE_INVALID''\<rparr>),
               Inl ResidualBalanceMismatchError)
          | _ \<Rightarrow> (prior, Inl e)))"

definition no_ledger :: "balance_view \<Rightarrow> decimal \<Rightarrow> bool" where
  "no_ledger v residue \<longleftrightarrow> deq residue dzero \<and> view_transfers v = []"

definition first_receipt ::
  "(trade list \<Rightarrow> string) \<Rightarrow> balance_run \<Rightarrow> decimal \<Rightarrow> decimal \<Rightarrow> balance_receipt res" where
  "first_receipt digest run residue exchange =
     ebind (add_at 34 (view_quantity (rn_start run)) residue) (\<lambda>expected.
     ebind (sub_at 34 exchange expected) (\<lambda>difference.
     Inr \<lparr>bl_status = ''mismatch'', bl_position = view_quantity (rn_start run), bl_principal = residue,
       bl_rewards = dzero, bl_earn = dzero, bl_expected = expected, bl_exchange = exchange,
       bl_difference = difference, bl_checked_at = rn_started_at run,
       bl_reason = Some ''EARN_EVIDENCE_MISSING'', bl_retryable = False,
       bl_basis = balance_basis_of digest (rn_start run)\<rparr>))"

definition reusable :: "(trade list \<Rightarrow> string) \<Rightarrow> balance_view \<Rightarrow> balance_receipt option \<Rightarrow> bool" where
  "reusable digest v prior \<longleftrightarrow>
     (case prior of None \<Rightarrow> False
      | Some r \<Rightarrow> bl_status r = ''verified'' \<and> basis_same (bl_basis r) (balance_basis_of digest v))"

definition reconcile_balance ::
  "(trade list \<Rightarrow> string) \<Rightarrow> bool \<Rightarrow> bool \<Rightarrow> balance_run \<Rightarrow> balance_receipt option \<Rightarrow>
   balance_receipt option \<times> balance_receipt option res" where
  "reconcile_balance digest strict use_cached run prior =
     (let v = rn_start run in
      case ebind (residual_totals v) (\<lambda>(residue, _).
           ebind (get_holdings ''ETH'' (bv_account v)) (\<lambda>exchange. Inr (residue, exchange))) of
        Inl e \<Rightarrow> (prior, Inl e)
      | Inr (residue, exchange) \<Rightarrow>
          if \<not> strict \<and> no_ledger v residue then (prior, Inr None)
          else if use_cached \<and> reusable digest v prior
          then (prior, ebind (check_authority v) (\<lambda>_. Inr prior))
          else
            (case first_receipt digest run residue exchange of
               Inl e \<Rightarrow> (prior, Inl e)
             | Inr r \<Rightarrow>
                 let (stored, result) = publish_attempt (rn_finished_at run) prior
                   (attempt_balance digest run residue r) in
                 (stored, ebind result (\<lambda>r'. Inr (Some r')))))"

section \<open>What a receipt tells\<close>

text \<open>
  The ledgers explain the exchange balance \<open>x\<close>: the strategy holds \<open>q\<close> of it, the residual principal is
  \<open>p\<close>, and \<open>w\<close> of rewards came in while \<open>h\<close> lies in the Earn product.
\<close>

definition balance_explained :: "rat \<Rightarrow> rat \<Rightarrow> rat \<Rightarrow> rat \<Rightarrow> rat \<Rightarrow> bool" where
  "balance_explained x q p w h \<longleftrightarrow> x = round_sig 34 (round_sig 34 (round_sig 34 (q + p) + w) - h)"

text \<open>
  The position of the receipt, read at the start, is within the balance; the balance is explained by
  the position that was read for the sum, which evidence makes the code read again.
\<close>

definition receipt_explained :: "decimal \<Rightarrow> balance_receipt \<Rightarrow> bool" where
  "receipt_explained quantity r \<longleftrightarrow>
     dval (bl_position r) \<le> dval (bl_exchange r) \<and>
     balance_explained (dval (bl_exchange r)) (dval quantity) (dval (bl_principal r))
       (dval (bl_rewards r)) (dval (bl_earn r)) \<and>
     dval (bl_expected r) = dval (bl_exchange r) \<and> dval (bl_difference r) = 0"

text \<open>What the parts promise: the invariants of the position and the account, and valid evidence.\<close>

definition run_valid :: "balance_run \<Rightarrow> bool" where
  "run_valid run \<longleftrightarrow>
     position_inv (bv_position (rn_start run)) \<and> position_inv (bv_position (rn_after_evidence run)) \<and>
     account_inv (bv_account (rn_start run)) \<and>
     (\<forall>since e. rn_evidence run since = Inr (Some e) \<longrightarrow> make_evidence e = Inr e)"

lemma attempting_eq [simp]:
  "attempting r (Inl e) f = (r, Raised e)" "attempting r (Inr x) f = f x"
  by (simp_all add: attempting_def)

lemma attempting_Agreed:
  "attempting r m f = (r', Agreed) \<longleftrightarrow> (\<exists>x. m = Inr x \<and> f x = (r', Agreed))"
  by (cases m) auto

lemma finish_check_Agreed:
  "finish_check digest basis v r = (r', Agreed) \<longleftrightarrow>
     r' = r \<and> check_authority v = Inr () \<and> basis_same (balance_basis_of digest v) basis"
  by (auto simp: finish_check_def attempting_Agreed)

lemma confirm_evidence_Agreed:
  assumes "confirm_evidence digest basis run since e x r = (r', Agreed)"
  shows "r' = r" "check_authority (rn_after_confirmed run) = Inr ()"
    "basis_same (balance_basis_of digest (rn_after_confirmed run)) basis"
    "\<exists>e'. rn_repeated run since = Inr (Some e') \<and> evidence_same e' e"
    "\<exists>n b t. rn_confirmed run = Inr n \<and> eth_balances n = [b] \<and> balance_total b = Inr t \<and> deq t x"
  using assms
  by (auto simp: confirm_evidence_def attempting_Agreed finish_check_Agreed Let_def observation_stable_def
      ebind_eq_Inr split: if_splits option.splits list.splits)

text \<open>An agreement that needed evidence rests on the same evidence read twice.\<close>

definition evidence_used :: "balance_run \<Rightarrow> earn_evidence \<Rightarrow> moment \<Rightarrow> bool" where
  "evidence_used run e since \<longleftrightarrow>
     rn_evidence run since = Inr (Some e) \<and>
     (\<exists>s. (bv_settlement (rn_after_evidence run) = Some s \<or> bv_settlement (rn_start run) = Some s) \<and>
        matches_earn_custody s e (bv_history (rn_start run)) = Inr True) \<and>
     (\<exists>e'. rn_repeated run since = Inr (Some e') \<and> evidence_same e' e)"

lemma explain_difference_Agreed:
  assumes "explain_difference digest basis run p x r = (r', Agreed)"
  obtains e since expected difference where
    "r' = r\<lparr>bl_rewards := ee_rewards e, bl_earn := ee_quantity e, bl_expected := expected,
       bl_difference := difference\<rparr>"
    "expected_spot (view_quantity (rn_after_evidence run)) p (ee_rewards e) (ee_quantity e) = Inr expected"
    "sub_at 34 x expected = Inr difference" "deq x expected" "evidence_used run e since"
    "basis_same (balance_basis_of digest (rn_after_confirmed run)) basis"
    "\<exists>n b t. rn_confirmed run = Inr n \<and> eth_balances n = [b] \<and> balance_total b = Inr t \<and> deq t x"
proof -
  obtain s since e expected difference where step: "bv_settlement (rn_start run) = Some s"
    "rn_evidence run since = Inr (Some e)"
    "matches_earn_custody (settlement_after (rn_after_evidence run) s) e (bv_history (rn_start run)) = Inr True"
    "expected_spot (view_quantity (rn_after_evidence run)) p (ee_rewards e) (ee_quantity e) = Inr expected"
    "sub_at 34 x expected = Inr difference" "deq x expected"
    "confirm_evidence digest basis run since e x (r\<lparr>bl_rewards := ee_rewards e,
       bl_earn := ee_quantity e, bl_expected := expected, bl_difference := difference\<rparr>) = (r', Agreed)"
    using assms unfolding explain_difference_def Let_def
    by (auto simp: attempting_Agreed split: option.splits if_splits)
  note agreed = confirm_evidence_Agreed [OF step(7)]
  have "evidence_used run e since"
    using step(1-3) agreed(4) by (auto simp: evidence_used_def settlement_after_def split: option.splits)
  then show ?thesis using that agreed(1,3,5) step(4-6) by blast
qed

lemma deq_sym: "deq a b \<longleftrightarrow> deq b a"
  by (auto simp: deq_def)

lemma basis_same_sym: "basis_same a b \<Longrightarrow> basis_same b a"
proof -
  have "list_all2 transfer_same ys xs" if "list_all2 transfer_same xs ys" for xs ys
    using that by (induction rule: list_all2_induct) (auto simp: transfer_same_def deq_sym)
  then show "basis_same a b \<Longrightarrow> basis_same b a" by (auto simp: basis_same_def deq_sym)
qed

lemma basis_same_self:
  assumes "basis_same a b"
  shows "basis_same b b"
proof -
  have deq: "deq x y \<Longrightarrow> deq y y" for x y by (auto simp: deq_def)
  have "list_all2 transfer_same ys ys" if "list_all2 transfer_same xs ys" for xs ys
    using that by (induction rule: list_all2_induct) (auto simp: transfer_same_def intro: deq)
  with assms deq show ?thesis by (auto simp: basis_same_def)
qed

lemma add_at_finite_right: "add_at n x y = Inr z \<Longrightarrow> is_finite x \<Longrightarrow> is_finite z \<Longrightarrow> is_finite y"
  by (cases y) (auto simp: add_at_def split: if_splits)

lemma add_at_finite_left: "add_at n x y = Inr z \<Longrightarrow> is_finite y \<Longrightarrow> is_finite z \<Longrightarrow> is_finite x"
  by (cases x) (auto simp: add_at_def split: if_splits)

lemma deq_finite_right: "deq x y \<Longrightarrow> is_finite x \<Longrightarrow> is_finite y"
  by (cases x; cases y) (auto simp: deq_def)

lemma holdings_finite:
  assumes "account_inv st" "get_holdings a st = Inr x"
  shows "is_finite x"
proof (cases "map_of (ac_balances st) a")
  case None
  then show ?thesis using assms(2) by (auto simp: get_holdings_def ebind_eq_Inr)
next
  case (Some b)
  then have "balance_ok b"
    using assms(1) by (auto simp: account_inv_def empty_account_def balances_ok_def list_all_iff
        split: if_splits dest: map_of_SomeD)
  then have "is_finite (ab_free b)" "is_finite (ab_locked b)" by (simp_all add: balance_ok_def)
  then show ?thesis using dadd_finite assms(2) Some
    by (fastforce simp: get_holdings_def ebind_eq_Inr balance_total_def)
qed

lemma expected_spot_value:
  assumes "expected_spot q p w h = Inr z" "is_finite q" "is_finite w" "is_finite h" "is_finite z"
  shows "dval z = round_sig 34 (round_sig 34 (round_sig 34 (dval q + dval p) + dval w) - dval h)"
proof -
  obtain x y where step: "add_at 34 q p = Inr x" "add_at 34 x w = Inr y" "sub_at 34 y h = Inr z"
    using assms(1) by (auto simp: expected_spot_def ebind_eq_Inr)
  have y: "is_finite y" using add_at_finite_left [of 34 y "dneg h" z] step(3) assms(4,5) by (simp add: sub_at_def)
  have x: "is_finite x" by (rule add_at_finite_left [OF step(2) assms(3) y])
  have p: "is_finite p" by (rule add_at_finite_right [OF step(1) assms(2) x])
  have "dval x = round_sig 34 (dval q + dval p)" using step(1) assms(2) p by (auto simp: add_at_finite)
  moreover have "dval y = round_sig 34 (dval x + dval w)" using step(2) x assms(3) by (auto simp: add_at_finite)
  moreover have "dval z = round_sig 34 (dval y - dval h)" using step(3) y assms(4) by (auto simp: sub_at_finite)
  ultimately show ?thesis by simp
qed

lemma difference_zero:
  assumes "sub_at 34 x z = Inr d" "is_finite x" "is_finite z" "dval x = dval z"
  shows "dval d = 0"
  using assms by (auto simp: sub_at_finite)

lemma attempt_Agreed:
  assumes valid: "run_valid run" and made: "first_receipt digest run p x = Inr r"
    and holdings: "get_holdings ''ETH'' (bv_account (rn_start run)) = Inr x"
    and agreed: "attempt_balance digest run p r = (r', Agreed)"
  shows "bl_basis r' = balance_basis_of digest (rn_start run) \<and> basis_same (bl_basis r') (bl_basis r') \<and>
    bl_position r' = view_quantity (rn_start run) \<and> bl_exchange r' = x \<and> bl_principal r' = p \<and>
    ((receipt_explained (view_quantity (rn_start run)) r' \<and> bl_rewards r' = dzero \<and> bl_earn r' = dzero) \<or>
     (\<exists>e since. receipt_explained (view_quantity (rn_after_evidence run)) r' \<and> evidence_used run e since \<and> bl_rewards r' = ee_rewards e \<and> bl_earn r' = ee_quantity e \<and>
        basis_same (bl_basis r') (balance_basis_of digest (rn_after_confirmed run)) \<and>
        (\<exists>n b t. rn_confirmed run = Inr n \<and> eth_balances n = [b] \<and> balance_total b = Inr t \<and> deq t x)))"
proof -
  let ?q = "view_quantity (rn_start run)" and ?q' = "view_quantity (rn_after_evidence run)"
  have q: "is_finite ?q" "is_finite ?q'"
    using valid position_values(1) by (auto simp: run_valid_def view_quantity_def position_inv_def)
  have x: "is_finite x" using holdings_finite valid holdings by (auto simp: run_valid_def)
  obtain expected difference where r: "add_at 34 ?q p = Inr expected" "sub_at 34 x expected = Inr difference"
    "bl_position r = ?q" "bl_principal r = p" "bl_exchange r = x" "bl_expected r = expected"
    "bl_difference r = difference" "bl_rewards r = dzero" "bl_earn r = dzero"
    "bl_basis r = balance_basis_of digest (rn_start run)"
    using made by (auto simp: first_receipt_def ebind_eq_Inr)
  have le: "dval ?q \<le> dval x" using agreed x q by (auto simp: attempt_balance_def attempting_Agreed r split: if_splits)
  show ?thesis
  proof (cases "deq x expected")
    case True
    then have r': "r' = r" and same: "basis_same (balance_basis_of digest (rn_start run)) (bl_basis r)"
      using agreed by (auto simp: attempt_balance_def attempting_Agreed finish_check_Agreed r split: if_splits)
    have e: "is_finite expected" by (rule deq_finite_right [OF True x])
    have "is_finite p" by (rule add_at_finite_right [OF r(1) q(1) e])
    then have "dval expected = round_sig 34 (dval ?q + dval p)" using r(1) q(1) by (auto simp: add_at_finite)
    moreover have "dval x = dval expected" using True x e by (simp add: deq_finite)
    moreover have "dval difference = 0" using difference_zero [OF r(2) x e] \<open>dval x = dval expected\<close> by simp
    ultimately show ?thesis using le basis_same_self [OF same]
      by (simp add: r' receipt_explained_def balance_explained_def r round_sig_idem)
  next
    case False
    then have "explain_difference digest (bl_basis r) run p x r = (r', Agreed)"
      using agreed by (auto simp: attempt_balance_def attempting_Agreed r split: if_splits)
    then obtain e since expected difference where ex:
      "r' = r\<lparr>bl_rewards := ee_rewards e, bl_earn := ee_quantity e, bl_expected := expected,
         bl_difference := difference\<rparr>"
      "expected_spot ?q' p (ee_rewards e) (ee_quantity e) = Inr expected"
      "sub_at 34 x expected = Inr difference" "deq x expected" "evidence_used run e since"
      "basis_same (balance_basis_of digest (rn_after_confirmed run)) (bl_basis r)"
      "\<exists>n b t. rn_confirmed run = Inr n \<and> eth_balances n = [b] \<and> balance_total b = Inr t \<and> deq t x"
      by (rule explain_difference_Agreed)
    have "make_evidence e = Inr e" using ex(5) valid unfolding evidence_used_def run_valid_def by blast
    then have fin: "is_finite (ee_rewards e)" "is_finite (ee_quantity e)"
      by (auto simp: make_evidence_def split: if_splits)
    have z: "is_finite expected" by (rule deq_finite_right [OF ex(4) x])
    have "dval x = dval expected" using ex(4) x z by (simp add: deq_finite)
    moreover note expected_spot_value [OF ex(2) q(2) fin z] difference_zero [OF ex(3) x z]
    ultimately have "receipt_explained ?q' r'"
      using le by (simp add: ex(1) receipt_explained_def balance_explained_def r)
    moreover have "bl_basis r' = bl_basis r" "bl_rewards r' = ee_rewards e" "bl_earn r' = ee_quantity e"
      "bl_position r' = ?q" "bl_exchange r' = x" "bl_principal r' = p"
      by (simp_all add: ex(1) r)
    ultimately show ?thesis using ex(5,7) basis_same_sym [OF ex(6)] basis_same_self [OF ex(6)] r(10) by metis
  qed
qed

section \<open>What a failure publishes\<close>

lemma attempting_Raised:
  "attempting r m f = (r', Raised e) \<longleftrightarrow> (m = Inl e \<and> r' = r) \<or> (\<exists>x. m = Inr x \<and> f x = (r', Raised e))"
  by (cases m) auto

lemma add_at_error: "add_at n x y = Inl e \<Longrightarrow> e = InvalidOperation"
  by (auto simp: add_at_def split: if_splits)

lemma sub_at_error: "sub_at n x y = Inl e \<Longrightarrow> e = InvalidOperation"
  by (auto simp: sub_at_def dest: add_at_error)

lemma sum_at_error: "sum_at n a xs = Inl e \<Longrightarrow> e = InvalidOperation"
  by (induction xs arbitrary: a) (auto simp: ebind_eq_Inl dest: add_at_error)

lemma py_index_error: "py_index xs i = Inl e \<Longrightarrow> e = IndexError"
  by (auto simp: py_index_def Let_def split: if_splits)

lemma transferred_before_error: "transferred_before ck ms rs = Inl e \<Longrightarrow> e = IndexError"
  by (induction rs) (auto simp: ebind_eq_Inl dest: py_index_error)

lemma consumed_until_error: "consumed_until ck ms cs = Inl e \<Longrightarrow> e = IndexError"
  by (induction cs) (auto simp: ebind_eq_Inl dest: py_index_error)

lemma free_principal_error:
  "free_principal st ev ts ms taken = Inl e \<Longrightarrow> e = IndexError \<or> e = InvalidOperation \<or> taken = Inl e"
  by (auto simp: free_principal_def ebind_eq_Inl dest: transferred_before_error sum_at_error add_at_error sub_at_error)

lemma deposits_covered_error:
  "deposits_covered st ev ts ms acc = Inl e \<Longrightarrow> e = IndexError \<or> e = InvalidOperation"
  by (induction ms arbitrary: acc)
    (auto simp: ebind_eq_Inl split: if_splits dest!: free_principal_error add_at_error consumed_until_error)

lemma consumptions_covered_error:
  "consumptions_covered st ev ts cs acc = Inl e \<Longrightarrow> e = IndexError \<or> e = InvalidOperation"
  by (induction cs arbitrary: acc)
    (auto simp: ebind_eq_Inl split: if_splits dest!: free_principal_error add_at_error py_index_error)

lemma custody_error: "matches_earn_custody st ev ts = Inl e \<Longrightarrow> e = IndexError \<or> e = InvalidOperation"
  by (auto simp: matches_earn_custody_def ebind_eq_Inl split: if_splits
      dest: deposits_covered_error consumptions_covered_error)

lemma balance_total_error: "balance_total b = Inl e \<Longrightarrow> e = InvalidOperation"
  unfolding balance_total_def by (cases "ab_free b"; cases "ab_locked b") (auto split: if_splits)

lemma stable_error:
  "observation_stable digest basis run ev rep n1 n2 x = Inl e \<Longrightarrow> e = InvalidOperation"
  by (auto simp: observation_stable_def ebind_eq_Inl split: option.splits list.splits if_splits dest: balance_total_error)

lemma expected_spot_error: "expected_spot q p w h = Inl e \<Longrightarrow> e = InvalidOperation"
  by (auto simp: expected_spot_def ebind_eq_Inl dest: add_at_error sub_at_error)

text \<open>An error that only the comparison itself raises.\<close>

definition run_foreign :: "balance_run \<Rightarrow> bool" where
  "run_foreign run \<longleftrightarrow>
     (\<forall>since. rn_evidence run since \<noteq> Inl ResidualBalanceMismatchError \<and>
        rn_repeated run since \<noteq> Inl ResidualBalanceMismatchError) \<and>
     rn_account run \<noteq> Inl ResidualBalanceMismatchError \<and> rn_confirmed run \<noteq> Inl ResidualBalanceMismatchError \<and>
     (\<forall>v \<in> {rn_start run, rn_after_evidence run, rn_after_account run, rn_after_repeated run, rn_after_confirmed run}.
        bv_cleanup v \<noteq> Some ResidualBalanceMismatchError)"

lemma check_authority_error:
  "check_authority v = Inl e \<Longrightarrow> e = BalanceObservationChangedError \<or> bv_cleanup v = Some e"
  by (auto simp: check_authority_def split: option.splits)

lemma attempt_error:
  assumes "attempt_balance digest run p r = (r', Raised e)" "run_foreign run"
  shows "e \<noteq> ResidualBalanceMismatchError"
proof
  assume e: "e = ResidualBalanceMismatchError"
  have auth: "check_authority v \<noteq> Inl e"
    if "v \<in> {rn_start run, rn_after_evidence run, rn_after_account run, rn_after_repeated run, rn_after_confirmed run}" for v
    using that assms(2) check_authority_error [of v e] e by (auto simp: run_foreign_def)
  have no_finish: "finish_check digest b v x \<noteq> (y, Raised e)" if "check_authority v \<noteq> Inl e" for b v x y
    using that e by (auto simp: finish_check_def attempting_Raised)
  have no_confirm: "confirm_evidence digest b run s ev x y \<noteq> (z, Raised e)" for b s ev x y z
    using auth no_finish [OF auth] assms(2) stable_error [of digest b run ev]
    by (auto simp: confirm_evidence_def attempting_Raised Let_def e run_foreign_def dest!: stable_error split: if_splits)
  have no_explain: "explain_difference digest b run q x y \<noteq> (z, Raised e)" for b q x y z
    using auth no_confirm assms(2)
    by (auto simp: explain_difference_def attempting_Raised Let_def e run_foreign_def split: option.splits if_splits
        dest!: py_index_error custody_error expected_spot_error sub_at_error)
  show False
    using assms(1) auth no_finish [OF auth] no_explain
    by (auto simp: attempt_balance_def attempting_Raised e split: if_splits)
qed

end
