(* ===== verification/Earn_Properties.thy ===== *)
theory Earn_Properties
  imports Balance_Reconciliation Ledger_Samples
begin

text \<open>
  The properties of the Earn evidence, of the custody of deposited principal and of the comparison
  with the exchange balance.
\<close>

section \<open>The evidence\<close>

definition complete_history :: "earn_request \<Rightarrow> string \<Rightarrow> (int \<times> int) list \<Rightarrow> row list list \<Rightarrow> bool" where
  "complete_history req endpoint = list_all2 (\<lambda>w rows. \<exists>bs. rows = concat bs \<and> bs \<noteq> [] \<and> length bs \<le> 10 \<and>
     pages_of req endpoint (window_parameters w) 1 (int (length rows)) bs)"

lemma history_complete: "history_of req endpoint ws rowss \<Longrightarrow> complete_history req endpoint ws rowss"
  unfolding history_of_def complete_history_def
  by (erule list_all2_mono) (metis read_rows_complete)

lemma windows_unique:
  assumes "start \<le> t" "t \<le> now"
  shows "\<exists>!w. w \<in> set (windows start now) \<and> fst w \<le> t \<and> t \<le> snd w"
proof (rule ex_ex1I)
  show "\<exists>w. w \<in> set (windows start now) \<and> fst w \<le> t \<and> t \<le> snd w"
    using windows_cover [OF assms] by blast
next
  fix v w
  assume v: "v \<in> set (windows start now) \<and> fst v \<le> t \<and> t \<le> snd v"
    and w: "w \<in> set (windows start now) \<and> fst w \<le> t \<and> t \<le> snd w"
  then obtain i j where i: "i < length (windows start now)" "v = windows start now ! i"
    and j: "j < length (windows start now)" "w = windows start now ! j"
    by (metis in_set_conv_nth)
  show "v = w"
  proof (rule linorder_cases [of i j])
    assume "i < j"
    then have "snd v < fst w" using sorted_wrt_nth_less [OF windows_ordered, of i j start now] i j by simp
    then show ?thesis using v w by linarith
  next
    assume "j < i"
    then have "snd w < fst v" using sorted_wrt_nth_less [OF windows_ordered, of j i start now] i j by simp
    then show ?thesis using v w by linarith
  qed (simp add: i j)
qed

lemma windows_at_most:
  assumes "now - start \<le> 120 * history_window_ms" "start \<le> now"
  shows "length (windows start now) \<le> 121"
proof (rule ccontr)
  assume "\<not> length (windows start now) \<le> 121"
  then have "122 * history_window_ms \<le> int (length (windows start now)) * history_window_ms"
    by (intro mult_right_mono) (auto simp: history_window_ms_def)
  then show False using windows_length [of start now] assms by (simp add: history_window_ms_def)
qed

text \<open>
  C38.  The evidence that a reading returns is complete.  The windows of at most thirty days hold each
  millisecond from the first residual to now exactly once and are at most 121; for each of them the
  pages were read until they held as many rows as every one of them announced; and the evidence
  holds exactly the movements of all those rows.  Every subscription is an automatic transfer from
  the spot account into one product within the time read, every redemption comes later than a
  subscription, and the evidence passes the checks of its constructor.
\<close>

theorem earn_evidence_is_complete:
  assumes "read_earn_residual_evidence req since now_ms = Inr (Some e)"
  shows "(\<exists>subs reds.
      complete_history req subscription_endpoint (windows (epoch_ms since) now_ms) subs \<and>
      complete_history req redemption_endpoint (windows (epoch_ms since) now_ms) reds \<and>
      mset (ee_subscriptions e) = mset (map (row_movement ''purchaseId'') (concat subs)) \<and>
      mset (ee_redemptions e) = mset (map (row_movement ''redeemId'') (concat reds)) \<and>
      (\<exists>product. \<forall>r\<in>set (concat subs). automatic product r)) \<and>
    (\<forall>t. epoch_ms since \<le> t \<and> t \<le> now_ms \<longrightarrow>
      (\<exists>!w. w \<in> set (windows (epoch_ms since) now_ms) \<and> fst w \<le> t \<and> t \<le> snd w)) \<and>
    length (windows (epoch_ms since) now_ms) \<le> 121 \<and>
    (\<forall>m\<in>set (ee_subscriptions e). epoch_ms since \<le> movement_ms m \<and> movement_ms m \<le> now_ms) \<and>
    (\<forall>m\<in>set (ee_redemptions e). \<exists>s\<in>set (ee_subscriptions e). movement_ms s < movement_ms m) \<and>
    make_evidence e = Inr e"
proof (intro conjI)
  show "\<exists>subs reds.
    complete_history req subscription_endpoint (windows (epoch_ms since) now_ms) subs \<and>
    complete_history req redemption_endpoint (windows (epoch_ms since) now_ms) reds \<and>
    mset (ee_subscriptions e) = mset (map (row_movement ''purchaseId'') (concat subs)) \<and>
    mset (ee_redemptions e) = mset (map (row_movement ''redeemId'') (concat reds)) \<and>
    (\<exists>product. \<forall>r\<in>set (concat subs). automatic product r)"
    using assms by (rule read_evidence_parts) (blast intro: history_complete)
  show "\<forall>m\<in>set (ee_subscriptions e). epoch_ms since \<le> movement_ms m \<and> movement_ms m \<le> now_ms"
    using assms by (rule read_evidence_parts)
  show "\<forall>m\<in>set (ee_redemptions e). \<exists>s\<in>set (ee_subscriptions e). movement_ms s < movement_ms m"
    using assms by (rule read_evidence_parts)
  show "make_evidence e = Inr e" using assms by (rule read_evidence_parts)
  show "\<forall>t. epoch_ms since \<le> t \<and> t \<le> now_ms \<longrightarrow>
      (\<exists>!w. w \<in> set (windows (epoch_ms since) now_ms) \<and> fst w \<le> t \<and> t \<le> snd w)"
    using windows_unique by blast
  show "length (windows (epoch_ms since) now_ms) \<le> 121"
    using assms by (intro windows_at_most) (auto simp: read_earn_residual_evidence_def Let_def split: if_splits)
qed

text \<open>A reading of one window with one automatic deposit of 0.0005 ETH.\<close>

definition sample_deposit :: row where
  "sample_deposit =
     [(''asset'', JStr ''ETH''), (''amount'', JStr ''0.0005''), (''time'', JInt 5000), (''purchaseId'', JInt 7),
      (''productId'', JStr ''ETH001''), (''type'', JStr ''AUTO''), (''status'', JStr ''SUCCESS''),
      (''sourceAccount'', JStr ''SPOT'')]"

definition sample_holding :: row where
  "sample_holding =
     [(''asset'', JStr ''ETH''), (''productId'', JStr ''ETH001''), (''canRedeem'', JBool True),
      (''collateralAmount'', JStr ''0''), (''totalAmount'', JStr ''0.0005''),
      (''cumulativeRealTimeRewards'', JStr ''0.0'')]"

definition sample_page :: "row list \<Rightarrow> json" where
  "sample_page rows = JObj [(''total'', JInt (int (length rows))), (''rows'', JList (map JObj rows))]"

definition sample_request :: earn_request where
  "sample_request endpoint params =
     (if endpoint = position_endpoint then Inr (sample_page [sample_holding])
      else if endpoint = subscription_endpoint then Inr (sample_page [sample_deposit])
      else Inr (sample_page []))"

definition sample_evidence :: earn_evidence where
  "sample_evidence =
     \<lparr>ee_subscriptions = [(''7'', 5000, Fin (1 / 2000))], ee_quantity = Fin (1 / 2000), ee_rewards = Fin 0,
      ee_redemptions = []\<rparr>"

lemma sample_rows:
  "read_rows sample_request position_endpoint [] = Inr [sample_holding]"
  "read_rows sample_request subscription_endpoint (window_parameters (1000, 6000)) = Inr [sample_deposit]"
  "read_rows sample_request redemption_endpoint (window_parameters (1000, 6000)) = Inr []"
  by code_simp+

lemma sample_parsed:
  "check_earn_position [sample_holding] = Inr (Some sample_holding, JStr ''ETH001'')"
  "subscription_of (1000, 6000) (JStr ''ETH001'') sample_deposit
     = Inr (JStr ''ETH001'', (''7'', 5000, Fin (1 / 2000)))"
  "position_amount ''totalAmount'' (Some sample_holding) = Inr (Fin (1 / 2000))"
  "position_amount ''cumulativeRealTimeRewards'' (Some sample_holding) = Inr (Fin 0)"
  by code_simp+

lemma sample_evidence_ok: "make_evidence sample_evidence = Inr sample_evidence"
  by (simp add: make_evidence_def sample_evidence_def movements_ok_def is_digit_def finite_arith dec_of_def)

lemma sample_reading: "read_earn_residual_evidence sample_request (utc 1000000) 6000 = Inr (Some sample_evidence)"
proof -
  have "windows 1000 6000 = [(1000, 6000)]" by (simp add: windows.simps history_window_ms_def)
  moreover have "\<lparr>ee_subscriptions = by_time [(''7'', 5000, Fin (1 / 2000))], ee_quantity = Fin (1 / 2000),
      ee_rewards = Fin 0, ee_redemptions = by_time []\<rparr> = sample_evidence"
    by (simp add: sample_evidence_def by_time_def)
  ultimately show ?thesis
    by (simp add: read_earn_residual_evidence_def epoch_ms_def utc_def history_window_ms_def sample_rows sample_parsed
        earn_rewards_def sample_evidence_ok)
qed

lemma earn_evidence_is_complete_witness:
  "length (windows 1000 6000) \<le> 121 \<and> make_evidence sample_evidence = Inr sample_evidence \<and>
   (\<exists>subs. complete_history sample_request subscription_endpoint (windows 1000 6000) subs \<and>
      mset (ee_subscriptions sample_evidence) = mset (map (row_movement ''purchaseId'') (concat subs)))"
proof -
  have "epoch_ms (utc 1000000) = 1000" by (simp add: epoch_ms_def)
  then show ?thesis using earn_evidence_is_complete [OF sample_reading] by metis
qed

section \<open>Custody\<close>

text \<open>
  C39.  Where the evidence matches the residual ledger, the deposits never exceed the free principal.
  At the time of each subscription the deposits so far and the principal sold externally are covered
  by what had been transferred to the residual ledger and what had been redeemed before; and at the
  first fill of each external sale of residual principal, the principal sold so far and what was
  deposited by then are covered in the same way.  The numbers are exact for amounts on a grid of
  decimals whose total has at most 34 digits.
\<close>

theorem custody_covers_deposits:
  assumes "matches_earn_custody st e ts = Inr True" "exact_custody u st e"
  shows "(\<forall>s\<in>set (ee_subscriptions e).
      deposited e (movement_ms s) + sold_principal st ts (movement_ms s)
        \<le> moved_principal st ts (movement_ms s) + redeemed e (movement_ms s)) \<and>
    (\<forall>k < length (sl_consumptions st).
      let ms = first_fill_ms (ts ! nat (fst (sl_consumptions st ! k) - 1)) in
      total_of (map consumed_quantity (take (Suc k) (sl_consumptions st))) + deposited e ms
        \<le> moved_principal st ts ms + redeemed e ms)"
  using deposits_within [OF assms] consumptions_within [OF assms] unfolding Let_def by blast

text \<open>The remainder of a sale at second one that the exchange deposited at second five.\<close>

definition sample_trade :: "int \<Rightarrow> trade" where
  "sample_trade t =
     \<lparr>tr_trade_id = ''1'', tr_order_id = ''1'', tr_client_order_id = ''c'', tr_symbol = ''ETHUSDT'',
      tr_executed_at = utc t, tr_side = SELL, tr_regime_type = TYPE_1, tr_strategy = CASE_B,
      tr_requested_quantity = Fin 1, tr_executed_quantity = Fin 1, tr_executed_amount = Fin 1,
      tr_average_fill_price = Fin 1, tr_market_price_at_decision = None, tr_fee_amount = Fin 0,
      tr_fee_asset = ''USDT'', tr_fee_quote_amount = Fin 0, tr_allocated_cost_basis = None,
      tr_realized_pnl = None, tr_realized_return_rate = None, tr_exit_reason = None,
      tr_schema_version = 4, tr_fee_fills = []\<rparr>"

definition custody_ledger :: settlement where
  "custody_ledger =
     \<lparr>sl_transfers = [\<lparr>rs_history_count = 2, rs_history_sha256 = ''x'', rs_quantity = Fin (1 / 2000),
        rs_cost_basis = Fin 1, rs_step_size = Fin (1 / 1000)\<rparr>],
      sl_consumptions = [], sl_open_base_fee = False\<rparr>"

definition sample_trades :: "trade list" where
  "sample_trades = [sample_trade 0, sample_trade 1000000]"

lemma sample_matches: "matches_earn_custody custody_ledger sample_evidence sample_trades = Inr True"
  by (simp add: matches_earn_custody_def custody_ledger_def sample_evidence_def by_time_def free_principal_def
      trade_times_def sample_trades_def sample_trade_def epoch_ms_def utc_def py_index_def redeemed_before_def
      finite_arith dec_of_def)

lemma sample_exact: "exact_custody (- 4) custody_ledger sample_evidence"
proof -
  have "grid (- 4) (1 / 2000)" unfolding grid_def by (rule exI [of _ 5]) (simp add: pow10_def)
  then show ?thesis
    by (simp add: exact_custody_def custody_amounts_def transferred_amounts_def consumed_amounts_def
        custody_ledger_def sample_evidence_def amount_on_def pow10_def)
qed

lemma custody_covers_deposits_witness:
  "deposited sample_evidence 5000 + sold_principal custody_ledger sample_trades 5000
     \<le> moved_principal custody_ledger sample_trades 5000 + redeemed sample_evidence 5000"
  using custody_covers_deposits [OF sample_matches sample_exact] by (simp add: sample_evidence_def)

section \<open>The balance\<close>

lemma publish_Agreed:
  "publish_attempt now prior (r, a) = (stored, Inr r') \<Longrightarrow>
   a = Agreed \<and> r' = r\<lparr>bl_status := ''verified'', bl_reason := None, bl_checked_at := now\<rparr> \<and> stored = Some r'"
  by (auto simp: publish_attempt_def Let_def split: attempt.splits py_error.splits)

lemma explained_status:
  "receipt_explained q (r\<lparr>bl_status := s, bl_reason := c, bl_checked_at := t\<rparr>) = receipt_explained q r"
  by (simp add: receipt_explained_def)

text \<open>What a comparison that has not used a cached receipt returns.\<close>

definition new_receipt :: "(trade list \<Rightarrow> string) \<Rightarrow> balance_run \<Rightarrow> balance_receipt \<Rightarrow> bool" where
  "new_receipt digest run r \<longleftrightarrow>
     bl_basis r = balance_basis_of digest (rn_start run) \<and> bl_position r = view_quantity (rn_start run) \<and>
     get_holdings ''ETH'' (bv_account (rn_start run)) = Inr (bl_exchange r) \<and>
     (\<exists>cost. residual_totals (rn_start run) = Inr (bl_principal r, cost)) \<and>
     (receipt_explained (view_quantity (rn_start run)) r \<and> bl_rewards r = dzero \<and> bl_earn r = dzero \<or>
      (\<exists>e since. receipt_explained (view_quantity (rn_after_evidence run)) r \<and>
         evidence_used run e since \<and> bl_rewards r = ee_rewards e \<and> bl_earn r = ee_quantity e \<and>
         basis_same (bl_basis r) (balance_basis_of digest (rn_after_confirmed run)) \<and>
         (\<exists>n b t. rn_confirmed run = Inr n \<and> eth_balances n = [b] \<and> balance_total b = Inr t \<and>
            deq t (bl_exchange r))))"

lemma new_receipt_status:
  "new_receipt digest run (r\<lparr>bl_status := s, bl_reason := c, bl_checked_at := t\<rparr>) = new_receipt digest run r"
  by (simp add: new_receipt_def explained_status)

text \<open>
  C40.  A comparison that returns a receipt has stored a verified one of the ledgers at its start.
  Either the caller allowed a cached receipt and it is the one that was stored, verified on the same
  basis, or it is a new one.  A new receipt names the position, the residual principal and the
  exchange balance of the start, the position is within the balance, and the balance is accounted for
  with 34 digits in one of two ways: it is the position and the principal, with no rewards and no
  deposits; or it is the position read after the evidence, the principal and the rewards less what
  lies in the Earn product, where rewards and deposits come from evidence that matches the residual
  ledger and was read twice, a second reading of the account showed the same total, and the ledgers
  were unchanged at the end.  A later view shows the receipt as verified exactly while account,
  position, history, transfers and ownership are the same as then.
\<close>

theorem verified_balance_is_explained:
  assumes "run_valid run" "reconcile_balance digest strict use_cached run prior = (stored, Inr (Some r))"
  shows "stored = Some r \<and> bl_status r = ''verified'' \<and>
    basis_same (bl_basis r) (balance_basis_of digest (rn_start run)) \<and>
    (use_cached \<and> prior = Some r \<or>
     bl_basis r = balance_basis_of digest (rn_start run) \<and> bl_position r = view_quantity (rn_start run) \<and>
     get_holdings ''ETH'' (bv_account (rn_start run)) = Inr (bl_exchange r) \<and>
     (\<exists>cost. residual_totals (rn_start run) = Inr (bl_principal r, cost)) \<and>
     (receipt_explained (view_quantity (rn_start run)) r \<and> bl_rewards r = dzero \<and> bl_earn r = dzero \<or>
      (\<exists>e since. receipt_explained (view_quantity (rn_after_evidence run)) r \<and>
         evidence_used run e since \<and> bl_rewards r = ee_rewards e \<and> bl_earn r = ee_quantity e \<and>
         basis_same (bl_basis r) (balance_basis_of digest (rn_after_confirmed run)) \<and>
         (\<exists>n b t. rn_confirmed run = Inr n \<and> eth_balances n = [b] \<and> balance_total b = Inr t \<and>
            deq t (bl_exchange r))))) \<and>
    (\<forall>v. (\<exists>s. current_balance_snapshot digest v stored = Some s \<and> bl_status s = ''verified'') \<longleftrightarrow>
       basis_same (bl_basis r) (balance_basis_of digest v))"
proof -
  let ?v = "rn_start run"
  have "stored = Some r \<and> bl_status r = ''verified'' \<and> basis_same (bl_basis r) (balance_basis_of digest ?v) \<and>
      (use_cached \<and> prior = Some r \<or> new_receipt digest run r)"
  proof (cases "use_cached \<and> reusable digest ?v prior \<and> stored = prior \<and> prior = Some r")
    case True
    then show ?thesis by (auto simp: reusable_def)
  next
    case False
    obtain p c x r0 where run: "residual_totals ?v = Inr (p, c)"
      "get_holdings ''ETH'' (bv_account ?v) = Inr x" "first_receipt digest run p x = Inr r0"
      "publish_attempt (rn_finished_at run) prior (attempt_balance digest run p r0) = (stored, Inr r)"
      using assms(2) False
      by (auto simp: reconcile_balance_def Let_def ebind_eq_Inr split: sum.splits if_splits prod.splits)
    obtain r1 a where attempt: "attempt_balance digest run p r0 = (r1, a)" by fastforce
    note done_so = publish_Agreed [OF run(4) [unfolded attempt]]
    then have agreed: "attempt_balance digest run p r0 = (r1, Agreed)" using attempt by simp
    have "new_receipt digest run r1" "basis_same (bl_basis r1) (bl_basis r1)"
      using attempt_Agreed [OF assms(1) run(3,2) agreed] run(1,2) by (auto simp: new_receipt_def)
    moreover from this(1) have "bl_basis r1 = balance_basis_of digest ?v" by (simp add: new_receipt_def)
    ultimately show ?thesis using done_so by (simp add: new_receipt_status)
  qed
  then show ?thesis by (auto simp: current_balance_snapshot_def receipt_snapshot_def new_receipt_def)
qed

text \<open>
  An error either leaves the stored receipt as it was or replaces it by one that is not verified:
  unexplained balances are a mismatch, a change of the ledgers is stale and may be tried again, and
  a failed query is unavailable, to be tried again unless the exchange refused it.
\<close>

definition failure_receipt :: "py_error \<Rightarrow> balance_receipt \<Rightarrow> bool" where
  "failure_receipt e r \<longleftrightarrow>
     (e = ResidualBalanceMismatchError \<and> bl_status r = ''mismatch'' \<and> bl_reason r \<noteq> None) \<or>
     (e = BalanceObservationChangedError \<and> bl_status r = ''stale'' \<and> bl_retryable r) \<or>
     (e = OSError \<and> bl_status r = ''unavailable'' \<and> bl_retryable r) \<or>
     (\<exists>n. e = BinanceAPIError n \<and> bl_status r = ''unavailable'' \<and> (bl_retryable r \<longleftrightarrow> is_retryable_status n))"

theorem failed_comparison_is_not_verified:
  assumes "reconcile_balance digest strict use_cached run prior = (stored, Inl e)"
  shows "stored = prior \<or> (\<exists>r. stored = Some r \<and> bl_status r \<noteq> ''verified'' \<and> failure_receipt e r)"
proof -
  have "stored' = prior \<or> (\<exists>r. stored' = Some r \<and> bl_status r \<noteq> ''verified'' \<and> failure_receipt e r)"
    if "publish_attempt now prior x = (stored', Inl e)" for now x stored'
    using that
    by (auto simp: publish_attempt_def Let_def failure_receipt_def unavailable_def
        split: prod.splits attempt.splits py_error.splits)
  then show ?thesis using assms
    by (auto simp: reconcile_balance_def Let_def ebind_eq_Inl split: sum.splits if_splits prod.splits)
qed

text \<open>A run that finds the deposited remainder of a sale in the Earn product.\<close>

definition sample_snapshot :: account_snapshot where
  "sample_snapshot =
     \<lparr>an_balances = [\<lparr>ab_asset = ''ETH'', ab_free = Fin 0, ab_locked = Fin 0\<rparr>], an_updated_at = utc 0, an_full = True\<rparr>"

definition custody_view :: balance_view where
  "custody_view =
     \<lparr>bv_account = empty_account, bv_position = new_position, bv_settlement = Some custody_ledger,
      bv_history = sample_trades, bv_ambiguous = False, bv_external = False, bv_cleanup = None,
      bv_shutdown_owner = False, bv_account_ready = True, bv_runtime_failed = False\<rparr>"

definition sample_run :: balance_run where
  "sample_run =
     \<lparr>rn_start = custody_view, rn_evidence = (\<lambda>_. Inr (Some sample_evidence)), rn_after_evidence = custody_view,
      rn_account = Inr sample_snapshot, rn_after_account = custody_view,
      rn_repeated = (\<lambda>_. Inr (Some sample_evidence)), rn_after_repeated = custody_view,
      rn_confirmed = Inr sample_snapshot, rn_after_confirmed = custody_view, rn_started_at = utc 0,
      rn_finished_at = utc 0\<rparr>"

lemma sample_quantity: "view_quantity custody_view = dzero"
  by (simp add: view_quantity_def custody_view_def new_position_def closed_state_def)

lemma sample_run_valid: "run_valid sample_run"
  by (simp add: run_valid_def sample_run_def sample_quantity sample_evidence_ok deq_finite)
    (simp add: custody_view_def position_inv_new)

lemma sample_basis: "basis_same (balance_basis_of (\<lambda>_. []) custody_view) (balance_basis_of (\<lambda>_. []) custody_view)"
  by (simp add: basis_same_def balance_basis_of_def custody_view_def view_quantity_def view_transfers_def
      new_position_def closed_state_def custody_ledger_def transfer_same_def deq_finite)

lemma sample_authority: "check_authority custody_view = Inr ()"
  by (simp add: check_authority_def custody_view_def)

lemma sample_run_fields [simp]:
  "rn_start sample_run = custody_view" "rn_after_evidence sample_run = custody_view"
  "rn_after_account sample_run = custody_view" "rn_after_repeated sample_run = custody_view"
  "rn_after_confirmed sample_run = custody_view" "rn_evidence sample_run s = Inr (Some sample_evidence)"
  "rn_repeated sample_run s = Inr (Some sample_evidence)" "rn_account sample_run = Inr sample_snapshot"
  "rn_confirmed sample_run = Inr sample_snapshot"
  by (simp_all add: sample_run_def)

lemma custody_view_fields [simp]:
  "bv_settlement custody_view = Some custody_ledger" "bv_history custody_view = sample_trades"
  "bv_shutdown_owner custody_view = False" "bv_account_ready custody_view = True"
  "bv_runtime_failed custody_view = False"
  by (simp_all add: custody_view_def)

lemma sample_confirmed:
  "confirm_evidence (\<lambda>_. []) (balance_basis_of (\<lambda>_. []) custody_view) sample_run since sample_evidence dzero r
     = (r, Agreed)"
proof -
  have "observation_stable (\<lambda>_. []) (balance_basis_of (\<lambda>_. []) custody_view) sample_run sample_evidence
      (Some sample_evidence) sample_snapshot sample_snapshot dzero = Inr True"
    using sample_basis
    by (simp add: observation_stable_def eth_balances_def sample_snapshot_def evidence_same_def sample_evidence_def
        movement_same_def deq_finite balance_same_def balance_total_def round_sig_28 [symmetric] dec_of_def)
  then show ?thesis
    using sample_basis by (simp add: confirm_evidence_def sample_authority Let_def finish_check_def)
qed

lemma sample_explained:
  obtains r' where "explain_difference (\<lambda>_. []) (balance_basis_of (\<lambda>_. []) custody_view) sample_run (Fin (1 / 2000)) dzero r
      = (r', Agreed)" "bl_earn r' = Fin (1 / 2000)"
proof -
  have spot: "expected_spot dzero (Fin (1 / 2000)) (Fin 0) (Fin (1 / 2000)) = Inr (Fin 0)"
    "sub_at 34 dzero (Fin 0) = Inr (Fin 0)"
    by (simp_all add: expected_spot_def finite_arith dec_of_def dzero_def)
  have fields: "ee_rewards sample_evidence = Fin 0" "ee_quantity sample_evidence = Fin (1 / 2000)"
    "sl_transfers custody_ledger \<noteq> []" "rs_history_count (hd (sl_transfers custody_ledger)) = 2"
    "settlement_after custody_view custody_ledger = custody_ledger"
    by (simp_all add: sample_evidence_def custody_ledger_def settlement_after_def)
  have "py_index sample_trades 1 = Inr (sample_trade 1000000)" by (simp add: py_index_def sample_trades_def)
  then show ?thesis
    using that
    by (simp add: explain_difference_def fields sample_authority sample_matches sample_quantity spot sample_confirmed
        Let_def deq_finite)
qed

lemma sample_comparison:
  "\<exists>stored r. reconcile_balance (\<lambda>_. []) True True sample_run None = (stored, Inr (Some r)) \<and>
     bl_earn r = Fin (1 / 2000)"
proof -
  have principal: "residual_totals custody_view = Inr (Fin (1 / 2000), Fin 1)"
    by (simp add: residual_totals_def custody_ledger_def totals_def residual_events_def finite_arith dec_of_def)
  have holdings: "get_holdings ''ETH'' (bv_account custody_view) = Inr dzero"
    by (simp add: get_holdings_def custody_view_def empty_account_def asset_name_ok_def trimmed_text_def py_strip_def
        py_isspace_def)
  obtain r0 where r0: "first_receipt (\<lambda>_. []) sample_run (Fin (1 / 2000)) dzero = Inr r0"
    "bl_position r0 = dzero" "bl_exchange r0 = dzero" "bl_expected r0 = Fin (1 / 2000)"
    "bl_basis r0 = balance_basis_of (\<lambda>_. []) custody_view"
    by (auto simp: first_receipt_def sample_quantity finite_arith dec_of_def)
  obtain r1 where "explain_difference (\<lambda>_. []) (balance_basis_of (\<lambda>_. []) custody_view) sample_run (Fin (1 / 2000)) dzero r0
      = (r1, Agreed)" "bl_earn r1 = Fin (1 / 2000)" by (rule sample_explained)
  then have "attempt_balance (\<lambda>_. []) sample_run (Fin (1 / 2000)) r0 = (r1, Agreed)" "bl_earn r1 = Fin (1 / 2000)"
    by (simp_all add: attempt_balance_def sample_authority r0 deq_finite)
  then show ?thesis
    by (simp add: reconcile_balance_def principal holdings r0(1) publish_attempt_def reusable_def Let_def)
qed

lemma verified_balance_is_explained_witness:
  "\<exists>stored r e since. reconcile_balance (\<lambda>_. []) True True sample_run None = (stored, Inr (Some r)) \<and>
     stored = Some r \<and> bl_status r = ''verified'' \<and>
     receipt_explained (view_quantity custody_view) r \<and> evidence_used sample_run e since \<and>
     bl_earn r = Fin (1 / 2000) \<and> ee_quantity e = Fin (1 / 2000)"
proof -
  obtain stored r where run: "reconcile_balance (\<lambda>_. []) True True sample_run None = (stored, Inr (Some r))"
    "bl_earn r = Fin (1 / 2000)" using sample_comparison by blast
  have "bl_earn r \<noteq> dzero" by (simp add: run(2) dzero_def)
  then show ?thesis using verified_balance_is_explained [OF sample_run_valid run(1)] run by auto
qed

text \<open>
  A quantity that is not a number raises \<open>InvalidOperation\<close>, not \<open>ValueError\<close>, and no handler of the
  comparison knows it: nothing is published, and a receipt that was verified before stays.
\<close>

lemma unreadable_quantity_keeps_receipt:
  "earn_amount (JStr ''1,5'') = Inl InvalidOperation"
  "publish_attempt now prior (r, Raised InvalidOperation) = (prior, Inl InvalidOperation)"
  by code_simp (simp add: publish_attempt_def)

end
