(* ===== verification/Spec2Isabelle.thy ===== *)
theory Spec2Isabelle
  imports Sample_Inputs Entry_Rules Ledger_Properties Market_Properties Evaluation_Properties Earn_Properties
begin

text \<open>
  A model of the trading core of an automatic spot trading system for ETHUSDT, a Python backend
  under \<open>src/backend/src/binance_auto_trader\<close>.  The core decides, from market evaluations,
  order outcomes and user commands, when the two strategies case B and case C buy and sell; it is
  the package \<open>domain/trading\<close>, with the market data and the regime recommendation it rests on.

  \<^bold>\<open>Parts and theories.\<close>
  \<^item> \<open>Prelude\<close>, \<open>Py_Decimal\<close>: how the Python is read (exceptions as a sum type, optional values,
    f-strings of integers, instants, \<open>decimal.Decimal\<close> with 28 digits, round half even).
  \<^item> \<open>Trading_States\<close> (\<open>states.py\<close>), \<open>Trading_Snapshots\<close> (\<open>timers.py\<close> and the immutable part of
    \<open>context.py\<close>), \<open>Trading_Events\<close> (\<open>events.py\<close>), \<open>Trading_Actions\<close> (\<open>action_requests.py\<close>,
    \<open>results.py\<close>, \<open>transitions/base.py\<close>, \<open>transitions/catalog.py\<close>): the data, field by field,
    with every check of a constructor as a predicate (\<open>config_ok\<close>, \<open>market_ok\<close>, \<open>event_ok\<close>, ...).
  \<^item> \<open>Trading_Conditions\<close> (\<open>conditions.py\<close>): the table of conditions and its fail-closed evaluation.
  \<^item> \<open>Transition_Helpers\<close> (\<open>transitions/helpers.py\<close>): lower events, entry and exit orders.
  \<^item> \<open>Region_Contract\<close>: the locale of a transition handler and the predicate \<open>good\<close> on its outcomes;
    every handler is an interpretation.
  \<^item> \<open>Global_Transitions\<close>, \<open>Ownership_Transitions\<close>, \<open>CaseB_Signal\<close>, \<open>CaseC_Signal\<close>,
    \<open>CaseB_Position\<close>, \<open>CaseC_Position\<close>: one handler of \<open>transitions/\<close> each, a definition for every
    group of branches, with the life cycles as inductive relations.
  \<^item> \<open>Logic_Registry\<close> (\<open>logic_registry.py\<close>) and \<open>Trading_Stm\<close> (\<open>stm.py\<close>): the microstep that asks
    the global handler, then position, case C and case B in this order, and commits once;
    \<open>Entry_Rules\<close> follows the BUY orders of case C through it.
  \<^item> \<open>Trading_Context\<close> (the class \<open>TradingContext\<close> of \<open>context.py\<close>): the mutable values with
    their version, operations and checkpoints; a session is the inductive predicate \<open>reachable\<close>.
  \<^item> \<open>Event_Queue\<close> and \<open>Event_Processor\<close> (\<open>event_queue.py\<close>): the priority queue, and the
    processing of one event against abstract callbacks.
  \<^item> \<open>Decimal_Arith\<close>: arithmetic of decimals at a given precision and its rounding errors; the ledger
    computes in a context of 34 digits.
  \<^item> \<open>Ledger_Values\<close>, \<open>Buy_Risk\<close> (\<open>risk.py\<close>): shared checks of values, and the risk gate of a purchase.
  \<^item> \<open>Order_Fills\<close>, \<open>Order_Aggregate\<close> (\<open>order.py\<close>, \<open>fee_valuation.py\<close>): fills with their fee checks,
    aggregation and summaries; the mutable order, which merges results and marks applied fills, with
    its runs \<open>order_run\<close>.
  \<^item> \<open>Trade_Record\<close>, \<open>Performance_Ledger\<close> (\<open>domain/history\<close>): the durable trade with its checks and
    its creation from an order, the history and the performance figures.
  \<^item> \<open>Position_Ledger\<close> (\<open>position.py\<close>): live executions, replay of durable trades, detaching a
    remainder.
  \<^item> \<open>Fill_Booking\<close> (the booking of fills in \<open>application/trading_controller.py\<close>): position, account
    overlay, order and context in one operation, and every way into reconciliation from it.
  \<^item> \<open>History_Publication\<close> (\<open>application/trade_history_controller.py\<close>, the append of
    \<open>adapters/persistence/trade_history_repository.py\<close>): recording, failing saves, retry.
  \<^item> \<open>Residual_Ledger\<close> (\<open>residual.py\<close>, \<open>application/residual_settlement.py\<close>): remainders below the lot.
  \<^item> \<open>Earn_Evidence\<close> (\<open>EarnResidualEvidence\<close>, \<open>adapters/binance/earn_residual.py\<close>), \<open>Earn_Custody\<close>
    (\<open>matches_earn_custody\<close>), \<open>Balance_Reconciliation\<close> (\<open>application/balance_reconciliation.py\<close>): the
    histories of the Earn product read in pages and windows of JSON rows, the comparison of its
    deposits with the residual ledger, and the receipt that explains the exchange balance.
  \<^item> \<open>Market_Klines\<close> (\<open>domain/market/kline.py\<close>, \<open>stream_ordering.py\<close>), \<open>Market_State\<close>
    (\<open>market_snapshot.py\<close>): candles, their order in a stream, and the snapshot of four intervals with
    its update; a session is the inductive predicate \<open>market_run\<close>.
  \<^item> \<open>Ema_Slope\<close> (\<open>ema_slope.py\<close>): averages and least squares slopes at 34 digits, with the exact
    values beside them and the bounds between the two.
  \<^item> \<open>Regime_Stm\<close> (\<open>domain/regime\<close>): the state machine of the recommendation, its registry and guards,
    and the reference function \<open>recommended_type\<close>.
  \<^item> \<open>Regime_Indicators\<close>, \<open>Regime_Controller\<close>, \<open>Regime_Evaluation\<close> (\<open>indicator_snapshot.py\<close>,
    \<open>application/regime_controller.py\<close>): indicators of one version of the market, the two steps of an
    evaluation, failures and reconciliation; the invariant of the controller and its sessions
    (\<open>regime_run\<close>).
  \<^item> \<open>Account_State\<close> (\<open>account.py\<close>, \<open>account_execution.py\<close>): the balances with price and valuation of one
    version, full snapshots and patches of the stream; a session is \<open>account_run\<close>.
  \<^item> \<open>Decimal_Sqrt\<close>, \<open>Band_Indicators\<close>, \<open>Hold_Timers\<close>, \<open>Market_Evaluation\<close>
    (\<open>application/market_evaluation_builder.py\<close>, \<open>market_condition_timers.py\<close>): square roots, bands, position
    and channel index at 34 digits, the hold conditions with their timers, and the builder of the market
    evaluations that the state machine decides on; \<open>Evaluation_Bounds\<close> shows when it is defined.
  \<^item> \<open>Sample_Inputs\<close>, \<open>Ledger_Samples\<close>, \<open>Market_Samples\<close>, \<open>Evaluation_Samples\<close>: the concrete values of the
    witnesses; they model no code.
  \<^item> \<open>Ledger_Properties\<close>, \<open>Market_Properties\<close>, \<open>Account_Properties\<close>, \<open>Evaluation_Properties\<close>, \<open>Earn_Properties\<close>:
    the properties of the ledger, of the market and the recommendation, of the account, of the
    evaluations and of the comparison with the exchange; those of the machine, context, queue and processor stand below.

  \<^bold>\<open>Reading the model.\<close>  A function that may raise returns \<^typ>\<open>'a res\<close>, \<open>Inl\<close> the class of the
  exception; an operation on a mutable object returns its value or exception with the object after
  it.  A dataclass is a record and its \<open>__post_init__\<close> a predicate; checks of Python types are
  the types of HOL.  An instant is an integer number of microseconds, naive or aware; a decimal is
  a rational number, a negative zero, an infinity or a NaN, so the comparisons that raise or
  fail on a NaN are branches.

  \<^bold>\<open>Properties.\<close>  Of the state machine: a microstep is atomic, keeps the configuration valid, orders
  at most once and only with the evidence of the view, follows the life cycles, and decides a STOP.
  Of context, queue and processor: valid contexts, decisions that apply, order and identity of
  events, and what remains after an exception or a race.  Of the ledger: the gates and limits of a
  purchase, orders that only move forward, fills that reach the position once, conserved cost,
  agreement of replay and live position for an order booked in one batch, and a purchase and sale in two
  batches where they differ, agreement of history, performance and disk, and resumed settlements.
  Of the market: valid snapshots whose time never goes back, accurate slopes, one guard for every
  input, and each candle recommended once.  Of account and
  evaluations: valid balances that follow their sources, valid evaluations of newer versions, hold
  conditions with their full span, and errors that stop an evaluation and change nothing.  Of the
  comparison with the exchange: complete evidence, deposits within the free principal, and receipts
  that explain the balance.
  Below the numbered properties stand plain lemmas of the same kind (life of a stopped session,
  bands, ownership, versions, checkpoints, order of events).

  \<^bold>\<open>Parameters, bounds.\<close>  The processor takes its callbacks (context provider, executor of
  actions, observers, preparer) as a record of step functions on an arbitrary world;
  \<open>callbacks_ok\<close> says that the preparer keeps the identity of an event and that returned events
  are valid.  The account inside the context is an opaque value.  The ledger takes
  the calendar day of an instant, the digest of a history, the outcome of a save and the \<open>%B\<close> at an
  execution as arguments.  The regime controller takes a \<open>market_view\<close>: what each of its reads of the
  shared snapshot returns; the comparison of balances a \<open>balance_run\<close>: the answers of the exchange with
  what the controller shows after each; the builder of evaluations the number that its clock returns.  The square
  of a number is the correctly rounded one, and so is the square root.  \<open>drain\<close> is bounded by its own argument, as in the code; every other
  recursion is structural or has a measure.

  \<^bold>\<open>Not modelled.\<close>  Threads and locks (a race is a change of the world between two reads); the
  identity of NaN objects in dataclass equality (a NaN equals itself here); the exponent range, the
  representation (trailing zeros) and signalling NaNs of \<open>Decimal\<close>; the array layout of \<open>heapq\<close>, a
  library, which appears as its contract, a list in the order of its keys; the text of exceptions.  Network,
  persistence, transport, bootstrap and the user interface are input and output around this core;
  the controllers of \<open>application/\<close> orchestrate it asynchronously.
\<close>

section \<open>The state machine\<close>

text \<open>
  C1.  A microstep of a valid machine either raises and leaves the machine as it was, and then the
  machine was locked or the market values were not numbers, or it returns a result: the result
  starts from the state of the machine, ends in a valid configuration that the machine has taken
  over, names only transitions of the catalog, and carries the version of the view.
\<close>

theorem microstep_is_atomic:
  assumes "stm_ok m"
  shows "case stm_handle m e c of
      (Inl err, m') \<Rightarrow> m' = m \<and>
        (err = RuntimeError \<and> sm_locked m \<or> err = InvalidOperation \<and> raw_unfit (cv_market c))
    | (Inr r, m') \<Rightarrow> m' = m\<lparr>sm_state := sr_state_after r\<rparr> \<and> sr_state_before r = sm_state m \<and>
        config_ok (sr_state_after r) \<and> set (sr_transition_ids r) \<subseteq> set transition_ids \<and>
        sr_context_version r = cv_version c \<and>
        (\<not> sr_consumed r \<longrightarrow> sr_state_after r = sm_state m \<and> sr_actions r = [])"
  using assms
  by (cases rule: stm_handle_cases [of m e c]) (auto simp: result_ok_def split: if_splits)

theorem microstep_is_atomic_witness:
  "config_ok entry_state \<and>
   (\<exists>r. stm_handle (machine_at entry_state) (event_at MARKET_DATA_UPDATED) entry_view =
      (Inr r, machine_at (sr_state_after r)) \<and> config_ok (sr_state_after r))"
proof -
  have "stm_ok (machine_at entry_state)" by simp
  from microstep_is_atomic [OF this, where e = "event_at MARKET_DATA_UPDATED" and c = entry_view]
  show ?thesis
    by (auto simp: machine_at_def raw_unfit_def sample_views split: prod.splits sum.splits)
qed

text \<open>The machine after a sequence of inputs.\<close>

fun feed :: "trading_stm \<Rightarrow> (trading_event \<times> context_view) list \<Rightarrow> trading_stm" where
  "feed m [] = m"
| "feed m ((e, c) # inputs) = feed (snd (stm_handle m e c)) inputs"

lemma feed_ok: "stm_ok m \<Longrightarrow> stm_ok (feed m inputs) \<and> sm_locked (feed m inputs) = sm_locked m"
  by (induction m inputs rule: feed.induct) (simp_all add: stm_handle_ok stm_handle_unlocked)

lemma feed_error:
  assumes "stm_ok m" "\<not> sm_locked m" "fst (stm_handle m e c) = Inl err"
  shows "err = InvalidOperation \<and> raw_unfit (cv_market c)"
  using assms(1)
proof (cases rule: stm_handle_cases [of m e c])
  case locked
  with assms(2) show ?thesis by simp
qed (use assms(3) in auto)

text \<open>
  C2.  Whatever sequence of events and views a newly created machine is given, it stays valid and
  unlocked, and the only exception it can raise is the one of market values that are not numbers.
\<close>

theorem session_stays_valid:
  assumes "create_stm regime = Inr m"
  shows "config_ok (sm_state (feed m inputs)) \<and>
    (\<forall>e c err. fst (stm_handle (feed m inputs) e c) = Inl err \<longrightarrow>
       err = InvalidOperation \<and> raw_unfit (cv_market c))"
proof -
  have ok: "stm_ok (feed m inputs)" using feed_ok stm_ok_create [OF assms] by blast
  have "sm_locked m = False" using assms by (auto simp: create_stm_def ebind_eq_Inr)
  then have "\<not> sm_locked (feed m inputs)" using feed_ok stm_ok_create [OF assms] by blast
  with ok show ?thesis using feed_error by (auto simp: stm_ok_def)
qed

theorem session_stays_valid_witness:
  "create_stm TYPE_0 = Inr (machine_at default_config) \<and>
   config_ok (sm_state (feed (machine_at default_config)
     [(event_at LOGIC_STARTED, quiet_view), (event_at LOWER_BAND_TOUCHED, touch_view)]))"
proof -
  have c: "create_stm TYPE_0 = Inr (machine_at default_config)"
    by (simp add: create_stm_def require_supported_iff machine_at_def)
  from session_stays_valid [OF c] c show ?thesis by blast
qed

text \<open>
  C3.  A microstep asks for at most one order, and never while an order is pending.  An identifier
  of an existing intent is reused, so the order is idempotent.  A BUY needs a position without
  owner; a first SELL needs that no exit is pending, and a retried SELL repeats the recorded reason.
\<close>

theorem orders_are_safe:
  assumes "stm_ok m" "stm_handle m e c = (Inr r, m')"
  shows "length (orders (sr_actions r)) \<le> 1 \<and>
    (\<forall>q\<in>set (orders (sr_actions r)).
       rt_pending_order_id (cv_runtime c) = None \<and>
       (truthy (rt_pending_intent_id (cv_runtime c)) \<longrightarrow>
          rt_pending_intent_id (cv_runtime c) = Some (or_idempotency_key q)) \<and>
       (or_side q = BUY \<longrightarrow> rt_position_owner (cv_runtime c) = None \<and> or_exit_reason q = None) \<and>
       (or_side q = SELL \<and> or_attempt_kind q = INITIAL \<longrightarrow>
          rt_pending_exit_reason (cv_runtime c) = None \<and> or_exit_reason q \<noteq> None) \<and>
       (or_side q = SELL \<and> or_attempt_kind q = RETRY \<longrightarrow>
          rt_pending_exit_reason (cv_runtime c) = or_exit_reason q \<and> or_exit_reason q \<noteq> None))"
  using assms(1)
proof (cases rule: stm_handle_cases [of m e c])
  case (result r')
  then have "r' = r" using assms(2) by simp
  with result(4) have "length (orders (sr_actions r)) \<le> 1"
    "\<forall>q\<in>set (orders (sr_actions r)). order_safe c q"
    by (simp_all add: result_ok_def)
  then show ?thesis by (force simp: order_safe_def split: order_side.splits)
qed (use assms(2) in simp_all)


theorem orders_are_safe_witness:
  "\<exists>r q m'. stm_handle (machine_at entry_state) (event_at MARKET_DATA_UPDATED) entry_view = (Inr r, m') \<and>
     orders (sr_actions r) = [q] \<and> or_side q = BUY \<and>
     or_idempotency_key q = ''StrategyType.CASE_C:BUY:x:0'' \<and>
     rt_position_owner (cv_runtime entry_view) = None \<and> or_exit_reason q = None"
proof (rule entry_handled)
  fix r
  assume r: "stm_handle (machine_at entry_state) (event_at MARKET_DATA_UPDATED) entry_view =
      (Inr r, machine_at (sr_state_after r))" "sr_actions r = oc_actions c_entry_outcome"
  have "stm_ok (machine_at entry_state)" by simp
  from orders_are_safe [OF this r(1)] r show ?thesis by (simp add: c_entry_request)
qed

text \<open>Every decision of the signal region of case C names its transition.\<close>

lemma c_signal_names:
  "ensures (\<lambda>oc. oc_transition_ids oc \<noteq> []) (handle_case_c_signal_transition s e c)"
proof -
  have "ensures (\<lambda>oc. oc_transition_ids oc \<noteq> []) (c_wait_setup s e c)"
    "ensures (\<lambda>oc. oc_transition_ids oc \<noteq> []) (c_setup s e c)"
    "ensures (\<lambda>oc. oc_transition_ids oc \<noteq> []) (c_position_open_signalled s e c)"
    unfolding c_wait_setup_def c_setup_def c_start_setup_def c_check_setup_def
      c_restart_window_def c_position_open_signalled_def Let_def
    by (intro ensures_rules; simp)+
  then show ?thesis
    by (simp add: handle_case_c_signal_transition_def ensures_none
        split: option.splits case_c_signal_state.splits)
qed

text \<open>
  C4.  When both signal regions ask for a BUY in one microstep, case C wins: the result is the
  outcome of case C alone, and case B keeps its state, as if it had not been asked.
\<close>

theorem case_c_wins_arbitration:
  assumes m: "stm_ok m" "\<not> sm_locked m" "sm_state m = s" "st_root s = TRADE_MANAGEMENT"
    and quiet: "handle_global_transition s e c = no_transition"
      "handle_region_one s (resolve_region_one_event s (demote_touch e)) c = no_transition"
    and case_c: "handle_case_c_signal_transition s
      (resolve_case_c_region_event s (demote_touch e)) c = Inr (Some oc)" "orders (oc_actions oc) \<noteq> []"
    and case_b: "handle_case_b_signal_transition (oc_state_after oc)
      (resolve_case_b_region_event (oc_state_after oc) (demote_touch e) c) c = Inr (Some ob)"
      "orders (oc_actions ob) \<noteq> []"
  shows "\<exists>r. fst (stm_handle m e c) = Inr r \<and> sr_transition_ids r = oc_transition_ids oc \<and>
    sr_state_after r = oc_state_after oc \<and> sr_actions r = oc_actions oc \<and>
    st_b_signal (sr_state_after r) = st_b_signal s"
proof -
  have ok: "config_ok s" "full_catalog (sm_configuration m)" using m by (simp_all add: stm_ok_def)
  have post: "c_signal_post s c oc" using ensuresD [OF c_signal_ensures case_c(1)] .
  then have root: "st_root (oc_state_after oc) = TRADE_MANAGEMENT"
    "st_b_signal (oc_state_after oc) = st_b_signal s"
    "st_c_signal (oc_state_after oc) = Some C_POSITION_OPEN_SIGNALLED"
    using case_c(2) m(4) by (simp_all add: c_signal_post_def c_signal_frame_def)
  have good_c: "outcome_ok c_signal_orders (resolve_case_c_region_event s (demote_touch e)) c oc"
    by (rule cs.outcome [OF ok(1) m(4) case_c(1)])
  then have after: "config_ok (oc_state_after oc)" by (simp add: outcome_ok_def)
  have good_b: "outcome_ok b_signal_orders
      (resolve_case_b_region_event (oc_state_after oc) (demote_touch e) c) c ob"
    by (rule bs.outcome [OF after root(1) case_b(1)])
  have win: "does_case_c_buy_win (oc_actions oc) ob"
    using case_c_wins [OF good_c case_c(2) good_b case_b(2), of "[]"] by simp
  have ids: "set (oc_transition_ids oc) \<subseteq> set transition_ids" "oc_transition_ids oc \<noteq> []"
    using good_c ensuresD [OF c_signal_names case_c(1)] by (simp_all add: outcome_ok_def)
  show ?thesis
    using m ok quiet case_c case_b win ids root
    by (simp add: stm_handle_def handle_locked_def no_transition_def handle_regions_def accept_def
        handle_signals_def accept_case_b_def commit_outcome_def combine_def with_completion_def
        trade_management_is_complete_def Let_def)
qed

theorem case_c_wins_arbitration_witness:
  "orders (oc_actions b_entry_outcome) \<noteq> [] \<and>
   (\<exists>r. fst (stm_handle (machine_at entry_state) (event_at MARKET_DATA_UPDATED) entry_view) = Inr r \<and>
     sr_transition_ids r = [''C-12''] \<and> sr_actions r = oc_actions c_entry_outcome \<and>
     st_b_signal (sr_state_after r) = Some B_WAIT_PULLBACK)"
proof -
  have root: "st_root entry_state = TRADE_MANAGEMENT" "st_b_signal entry_state = Some B_WAIT_PULLBACK"
    by (simp_all add: sample_states)
  show ?thesis
    using case_c_wins_arbitration [of "machine_at entry_state" entry_state
        "event_at MARKET_DATA_UPDATED" entry_view c_entry_outcome b_entry_outcome] root
    by (auto simp del: fst_conv)
qed

text \<open>
  Case B buys only out of the pullback wait, at most three hours after its signal, at a %B of
  at most 0.30, without an owner, without a pending order and while entries are not paused.
\<close>

theorem case_b_entry_conditions:
  assumes "handle_case_b_signal_transition s e c = Inr (Some oc)" "orders (oc_actions oc) \<noteq> []"
  shows "st_b_signal s = Some B_WAIT_PULLBACK \<and>
    oc_state_after oc = s\<lparr>st_b_signal := Some B_POSITION_OPEN_SIGNALLED\<rparr> \<and>
    rt_position_owner (cv_runtime c) = None \<and> rt_pending_order_id (cv_runtime c) = None \<and>
    \<not> rt_case_b_entry_paused (cv_runtime c) \<and>
    mk_signal_elapsed (cv_market c) \<le> 3 * 60 * 60 * 1000000 \<and>
    is_finite (mk_realtime_pct_b (cv_market c)) \<and> dval (mk_realtime_pct_b (cv_market c)) \<le> 30 / 100"
proof -
  have post: "b_signal_post s c oc" using ensuresD [OF b_signal_ensures assms(1)] .
  with assms(2) have buy: "b_can_buy c" by (simp add: b_signal_post_def)
  then have met: "condition_met b_signal_age c" "condition_met b_pullback c"
    by (simp_all add: b_can_buy_def Let_def)
  have "(of_int (mk_signal_elapsed (cv_market c)) :: rat) / 1000000 \<le> 10800"
    using met(1) by (auto simp: condition_met_plain [OF definition_of.simps(8)])
  then have "(of_int (mk_signal_elapsed (cv_market c)) :: rat) \<le> of_int (3 * 60 * 60 * 1000000)"
    by (simp add: divide_le_eq)
  then have "mk_signal_elapsed (cv_market c) \<le> 3 * 60 * 60 * 1000000" by (simp only: of_int_le_iff)
  moreover have "is_finite (mk_realtime_pct_b (cv_market c)) \<and>
      dval (mk_realtime_pct_b (cv_market c)) \<le> 30 / 100"
    using met(2) by (auto simp: condition_met_plain [OF definition_of.simps(7)])
  ultimately show ?thesis
    using post assms(2) buy by (simp add: b_signal_post_def b_can_buy_def Let_def)
qed

theorem case_b_entry_conditions_witness:
  "orders (oc_actions b_entry_outcome) \<noteq> [] \<and> mk_signal_elapsed (cv_market entry_view) \<le> 10800000000"
  using case_b_entry_conditions [of "oc_state_after c_entry_outcome"
      "event_at RETRY_CASE_B_WAIT_PULLBACK_CONDITION_CHECK" entry_view b_entry_outcome] by simp

text \<open>
  C5.  Over a whole microstep, a BUY of case C finds no owner and no pending order, and it is one of
  two.  The first one comes out of the setup, with a flush low, at most three minutes on the timer of
  case C, which runs from the flush low or from its last restart (C-11, which keeps the low), when the
  %B has come back to the recorded entry level and that level is below the chase limit of -0.15; it
  signals the position.  The repeated one answers the retry event of a failed BUY while no strategy
  owns the position, new setups are allowed and the setup is not consumed; the code does not check
  timer or level again.  No other region asks for one.
\<close>

theorem case_c_entry_conditions:
  assumes "stm_ok m" "stm_handle m e c = (Inr r, m')" "q \<in> set (orders (sr_actions r))"
    and "or_side q = BUY" "or_strategy q = CASE_C"
  shows "rt_position_owner (cv_runtime c) = None \<and> rt_pending_order_id (cv_runtime c) = None \<and>
    (if or_attempt_kind q = INITIAL
     then st_c_signal (sm_state m) = Some C_SETUP \<and>
       st_c_signal (sm_state m') = Some C_POSITION_OPEN_SIGNALLED \<and>
       rt_flush_low (cv_runtime c) \<noteq> None \<and>
       mk_case_c_timer_elapsed (cv_market c) \<le> 3 * 60 * 1000000 \<and>
       (\<exists>level. rt_entry_pct_b (cv_runtime c) = Some level \<and> is_finite level \<and>
          dval level < - 15 / 100 \<and> dval level \<le> dval (mk_realtime_pct_b (cv_market c)))
     else ev_type e = CASE_C_BUY_RETRY \<and> st_ownership (sm_state m) = Some NO_POSITION \<and>
       rt_allow_new_case_c_setup (cv_runtime c) \<and> \<not> rt_case_c_consumed_for_event (cv_runtime c))"
proof -
  have ok: "full_catalog (sm_configuration m)" "config_ok (sm_state m)" using assms(1) by (simp_all add: stm_ok_def)
  have r: "handle_locked (sm_configuration m) (sm_state m) e c = Inr r" "sm_state m' = sr_state_after r"
    using assms(2) by (auto simp: stm_handle_def split: if_splits sum.splits)
  from locked_entry [OF ok r(1) assms(3-5)] show ?thesis
  proof
    assume first: "first_buy_justified (sm_state m) c r q"
    then have buy: "c_can_buy c" by (simp add: first_buy_justified_def)
    from c_can_buy_numbers [OF buy] obtain level where
      "rt_entry_pct_b (cv_runtime c) = Some level" "is_finite level" "dval level < - 15 / 100"
      "dval level \<le> dval (mk_realtime_pct_b (cv_market c))"
      "mk_case_c_timer_elapsed (cv_market c) \<le> 180 * 1000000" .
    then show ?thesis
      using first buy r(2) by (simp add: first_buy_justified_def c_can_buy_def c_in_recovery_window_def)
  next
    assume "buy_retry_justified (sm_state m) (ev_type e) c q"
    then show ?thesis
      using assms(5) by (simp add: buy_retry_justified_def case_c_retry_allowed_def Let_def)
  qed
qed

theorem case_c_entry_conditions_witness:
  "\<exists>r q m'. stm_handle (machine_at entry_state) (event_at MARKET_DATA_UPDATED) entry_view = (Inr r, m') \<and>
     orders (sr_actions r) = [q] \<and> or_strategy q = CASE_C \<and> or_attempt_kind q = INITIAL \<and>
     st_c_signal (sm_state m') = Some C_POSITION_OPEN_SIGNALLED \<and>
     mk_case_c_timer_elapsed (cv_market entry_view) \<le> 180000000"
proof (rule entry_handled)
  fix r
  assume r: "stm_handle (machine_at entry_state) (event_at MARKET_DATA_UPDATED) entry_view =
      (Inr r, machine_at (sr_state_after r))" "sr_actions r = oc_actions c_entry_outcome"
  have "stm_ok (machine_at entry_state)" by simp
  from case_c_entry_conditions [OF this r(1)] r show ?thesis by (simp add: c_entry_request)
qed

text \<open>
  A SELL of a case B position is either the first one, and then no order and no exit is
  pending and the exit guard of the event holds on this very view, or it is the retry of the exit
  whose reason is recorded.
\<close>

theorem case_b_sell_justified:
  assumes "handle_case_b_position_transition s e c = Inr (Some oc)" "q \<in> set (orders (oc_actions oc))"
  shows "if or_attempt_kind q = INITIAL
    then rt_pending_order_id (cv_runtime c) = None \<and> rt_pending_exit_reason (cv_runtime c) = None \<and>
      (st_b_position s = Some CASE_B_HOLDING \<and> is_holding_exit_guard_satisfied (ev_type e) c \<or>
       st_b_position s = Some CASE_B_TREND_HOLD \<and> or_exit_reason q = Some TREND_HOLD \<and>
         (condition_met b_trend_exit_slope c \<or> condition_met b_trend_exit_pct_b c))
    else ev_type e = CASE_B_SELL_RETRY \<and> rt_pending_exit_reason (cv_runtime c) = or_exit_reason q"
  using ensuresD [OF b_position_ensures assms(1)] assms(2)
  by (auto simp: b_position_post_def b_order_justified_def can_start_exit_def
      is_trend_hold_exit_guard_satisfied_def split: if_splits)

theorem case_b_sell_justified_witness:
  "\<exists>q\<in>set (orders (oc_actions b_time_order)). or_attempt_kind q = INITIAL \<and>
     rt_pending_exit_reason (cv_runtime b_hold_view) = None \<and>
     is_holding_exit_guard_satisfied CASE_B_TIME_EXIT b_hold_view"
proof -
  obtain q where q: "q \<in> set (orders (oc_actions b_time_order))" by fastforce
  then have "or_attempt_kind q = INITIAL" by (auto simp: b_time_order_def)
  with case_b_sell_justified [OF hold_exits(1) q] q show ?thesis by (auto simp: b_hold_state_def)
qed

text \<open>
  C6.  A SELL of a case C position is either the first one, justified on this view by the guard of
  its reason (the stop, the hour, the fallback below 0.10, or a falling slope at the close of a
  minute), or the retry of the exit whose reason is recorded.
\<close>

theorem case_c_sell_justified:
  assumes "handle_case_c_position_transition s e c = Inr (Some oc)" "q \<in> set (orders (oc_actions oc))"
  shows "if or_attempt_kind q = INITIAL
    then rt_pending_order_id (cv_runtime c) = None \<and> rt_pending_exit_reason (cv_runtime c) = None \<and>
      (or_exit_reason q = Some STOP \<and> condition_met c_stop c \<or>
       or_exit_reason q = Some TIME \<and> condition_met c_time_exit c \<or>
       or_exit_reason q = Some TP_FALLBACK \<and> condition_met c_trail_fallback c \<or>
       or_exit_reason q = Some TP_TRAIL \<and> condition_unmet c_trail_increase c \<and>
         mk_confirmed_1m_close (cv_market c) \<and> rt_previous_trail_ema_slope (cv_runtime c) \<noteq> None)
    else ev_type e = CASE_C_SELL_RETRY \<and> rt_pending_exit_reason (cv_runtime c) = or_exit_reason q"
proof -
  have j: "c_order_justified e c q"
    using ensuresD [OF c_position_ensures assms(1)] assms(2) by (simp add: c_position_post_def)
  show ?thesis
    using j by (auto simp: c_order_justified_def can_start_exit_def trail_comparable_def
        elim!: c_exit_guard.elims(2))
qed

theorem case_c_sell_justified_witness:
  "\<exists>q\<in>set (orders (oc_actions c_time_order)). or_exit_reason q = Some TIME \<and>
     rt_pending_exit_reason (cv_runtime c_hold_view) = None \<and> condition_met c_time_exit c_hold_view"
proof -
  obtain q where q: "q \<in> set (orders (oc_actions c_time_order))" by fastforce
  then have "or_attempt_kind q = INITIAL" "or_exit_reason q = Some TIME"
    by (auto simp: c_time_order_def)
  with case_c_sell_justified [OF hold_exits(2) q] q show ?thesis by auto
qed

text \<open>
  The exits of a held case B position have a fixed priority: the check selects an event exactly
  when some guard holds, and then the first one in the order emergency stop, stop, trend, profit,
  time whose guard holds.
\<close>

theorem exit_priority:
  "(select_holding_exit_event c = None \<longleftrightarrow>
      (\<forall>t\<in>set [CASE_B_EMERGENCY_STOP, CASE_B_STOP, CASE_B_UPPER_TREND, CASE_B_TAKE_PROFIT,
        CASE_B_TIME_EXIT]. \<not> is_holding_exit_guard_satisfied t c)) \<and>
   (\<forall>t. select_holding_exit_event c = Some t \<longrightarrow>
      (\<exists>before after. [CASE_B_EMERGENCY_STOP, CASE_B_STOP, CASE_B_UPPER_TREND, CASE_B_TAKE_PROFIT,
         CASE_B_TIME_EXIT] = before @ t # after \<and> is_holding_exit_guard_satisfied t c \<and>
         (\<forall>u\<in>set before. \<not> is_holding_exit_guard_satisfied u c)))"
proof (intro conjI allI impI)
  show "select_holding_exit_event c = None \<longleftrightarrow>
      (\<forall>t\<in>set [CASE_B_EMERGENCY_STOP, CASE_B_STOP, CASE_B_UPPER_TREND, CASE_B_TAKE_PROFIT,
        CASE_B_TIME_EXIT]. \<not> is_holding_exit_guard_satisfied t c)"
    by (simp add: select_holding_exit_event_def find_None_iff holding_exit_priority_def)
qed (use select_holding_exit_first [unfolded holding_exit_priority_def] in metis)

theorem exit_priority_witness:
  "\<exists>before after. [CASE_B_EMERGENCY_STOP, CASE_B_STOP, CASE_B_UPPER_TREND, CASE_B_TAKE_PROFIT,
       CASE_B_TIME_EXIT] = before @ CASE_B_TIME_EXIT # after \<and>
     (\<forall>u\<in>set before. \<not> is_holding_exit_guard_satisfied u b_hold_view)"
proof -
  have "select_holding_exit_event b_hold_view = Some CASE_B_TIME_EXIT"
    by (simp add: select_holding_exit_event_def holding_exit_priority_def
        is_holding_exit_guard_satisfied_def is_upper_trend_guard_satisfied_def)
  with exit_priority [of b_hold_view] show ?thesis by blast
qed

text \<open>
  While an exit of a held position is pending, no market check and no new exit event does
  anything; only the fill, the failure and the retry of that exit are taken.
\<close>

theorem pending_exit_locks_position:
  assumes "rt_pending_exit_reason (cv_runtime c) \<noteq> None"
  shows "(st_b_position s \<in> {Some CASE_B_HOLDING, Some CASE_B_TREND_HOLD} \<longrightarrow>
      ev_type e \<notin> {CASE_B_SELL_FILLED, CASE_B_SELL_FAILED, CASE_B_SELL_RETRY} \<longrightarrow>
      handle_case_b_position_transition s e c = no_transition) \<and>
    (st_c_position s \<in> {Some CASE_C_HOLDING, Some CASE_C_TP_TRAILING} \<longrightarrow>
      ev_type e \<notin> {CASE_C_SELL_FILLED, CASE_C_SELL_FAILED, CASE_C_SELL_RETRY} \<longrightarrow>
      handle_case_c_position_transition s e c = no_transition)"
  using b_exit_locked [OF _ assms] c_exit_locked [OF _ assms] by blast

theorem pending_exit_locks_position_witness:
  "rt_pending_exit_reason (cv_runtime exiting_view) = Some TIME \<and>
   handle_case_b_position_transition b_hold_state (event_at CASE_B_STOP) exiting_view = no_transition"
proof -
  have "rt_pending_exit_reason (cv_runtime exiting_view) = Some TIME"
    "st_b_position b_hold_state = Some CASE_B_HOLDING"
    by (simp_all add: sample_views b_hold_state_def)
  with pending_exit_locks_position [of exiting_view b_hold_state "event_at CASE_B_STOP"]
  show ?thesis by simp
qed

text \<open>
  The handler of a case B position implements its life cycle: holding, trend hold, closed.  A
  step changes the position along an edge and nothing else of the state; a closed position is left
  only by the finished sale, which ends the lower event, with a new one for a stop at the band.
\<close>

theorem case_b_position_life_cycle:
  assumes "handle_case_b_position_transition s e c = Inr (Some oc)"
  shows "if oc_exclusive oc
    then st_b_position s = Some CASE_B_CLOSED \<and> ev_type e = CASE_B_SELL_FINISHED \<and>
      oc_state_after oc =
        (if rt_case_b_exit_reason (cv_runtime c) \<in> {Some STOP, Some EMERGENCY_STOP} \<and>
            condition_met lower_price c
         then trade_management_initial else inactive_config LOWER_TOUCH_WATCH)
    else \<exists>x y. st_b_position s = Some x \<and> b_position_edge x y \<and>
      oc_state_after oc = s\<lparr>st_b_position := Some y\<rparr>"
  using ensuresD [OF b_position_ensures assms]
  by (simp add: b_position_post_def b_restart_lower_event_def is_lower_touch_condition_met_def
      split: if_splits)

theorem case_b_position_life_cycle_witness:
  "\<exists>y. b_position_edge CASE_B_HOLDING y \<and>
     oc_state_after b_time_order = b_hold_state\<lparr>st_b_position := Some y\<rparr>"
  using case_b_position_life_cycle [OF hold_exits(1)] by (auto simp: b_hold_state_def)

text \<open>
  C7.  The handler of a case C position implements its life cycle: holding, trailing, closed,
  recovered, and then no position.  Every step moves along one edge and changes nothing else of the
  state; only the recovered position releases the ownership.
\<close>

theorem case_c_position_life_cycle:
  assumes "handle_case_c_position_transition s e c = Inr (Some oc)"
  shows "\<not> oc_exclusive oc \<and>
    (if st_c_position s = Some CASE_C_RECOVERY_SUCCEEDED
     then oc_state_after oc = s\<lparr>st_ownership := Some NO_POSITION, st_c_position := None\<rparr>
     else \<exists>x y. st_c_position s = Some x \<and> c_position_edge x y \<and>
       oc_state_after oc = s\<lparr>st_c_position := Some y\<rparr>)"
  using ensuresD [OF c_position_ensures assms] by (auto simp: c_position_post_def split: if_splits)

theorem case_c_position_life_cycle_witness:
  "\<exists>y. c_position_edge CASE_C_HOLDING y \<and>
     oc_state_after c_time_order = c_hold_state\<lparr>st_c_position := Some y\<rparr>"
  using case_c_position_life_cycle [OF hold_exits(2)] by (auto simp: c_hold_state_def)

section \<open>The root of the machine\<close>

text \<open>
  C8.  A STOP is decided at once, whatever the market says: a pending order is reconciled (and a
  BUY cancelled) before anything is sold, an open position is sold, and otherwise the session ends.
\<close>

theorem stop_is_decided:
  assumes "stm_ok m" "\<not> sm_locked m" "st_root (sm_state m) \<notin> {STOPPING, LOGIC_TERMINATED}"
    and "ev_type e = STOP_CONFIRMED"
  shows "\<exists>r. fst (stm_handle m e c) = Inr r \<and> sr_consumed r \<and>
    (case rt_pending_order_id (cv_runtime c) of
       Some oid \<Rightarrow> sr_state_after r = inactive_config STOPPING \<and>
         ReconcileOrder oid True \<in> set (sr_actions r) \<and>
         (CancelPendingOrder (Some oid) ''STOP_CONFIRMED'' \<in> set (sr_actions r) \<longleftrightarrow>
            rt_pending_order_side (cv_runtime c) = Some BUY) \<and>
         (\<forall>a b. ForceSellAll a b \<notin> set (sr_actions r))
     | None \<Rightarrow>
         if is_open (cv_position c)
         then sr_state_after r = inactive_config STOPPING \<and> ForceSellAll False False \<in> set (sr_actions r)
         else sr_state_after r = inactive_config LOGIC_TERMINATED \<and>
           StopTradingRuntime ''STOP_WITHOUT_POSITION'' \<in> set (sr_actions r))"
proof -
  have ids: "set [''G-05'', ''G-06'', ''G-06P''] \<subseteq> set (lc_transition_ids (sm_configuration m))"
    using assms(1) by (simp add: stm_ok_def)
  have step: "handle_locked (sm_configuration m) (sm_state m) e c =
      ebind (handle_stop (sm_state m) c) (\<lambda>g. case g of
        Some oc \<Rightarrow> commit_outcome (sm_configuration m) e c (sm_state m) oc
      | None \<Rightarrow> if st_root (sm_state m) \<noteq> TRADE_MANAGEMENT then Inr (no_op (demote_touch e) c (sm_state m))
           else handle_regions (sm_configuration m) (sm_state m) (demote_touch e) c)"
    using assms(4) by (simp add: handle_locked_def handle_global_transition_def)
  show ?thesis
  proof (cases "rt_pending_order_id (cv_runtime c)")
    case None
    with assms ids show ?thesis
      by (simp add: stm_handle_def step handle_stop_def move_def create_inactive_configuration_def
          commit_outcome_def)
  next
    case (Some oid)
    with assms ids show ?thesis
      by (simp add: stm_handle_def step handle_stop_def move_def create_inactive_configuration_def
          commit_outcome_def)
  qed
qed

theorem stop_is_decided_witness:
  "\<exists>r. fst (stm_handle (machine_at b_hold_state) (event_at STOP_CONFIRMED) b_hold_view) = Inr r \<and>
     ForceSellAll False False \<in> set (sr_actions r)"
proof -
  have "stm_ok (machine_at b_hold_state)" by simp
  moreover have "st_root b_hold_state = TRADE_MANAGEMENT"
    "rt_pending_order_id (cv_runtime b_hold_view) = None" "is_open (cv_position b_hold_view)"
    by (simp_all add: b_hold_state_def trade_management_initial_def sample_views is_open_def dzero_def)
  ultimately show ?thesis
    using stop_is_decided [of "machine_at b_hold_state" "event_at STOP_CONFIRMED" b_hold_view] by auto
qed

lemma stopping_outcome:
  assumes "handle_global_transition s e c = Inr (Some oc)" "st_root s = STOPPING"
  shows "ev_type e = FORCE_SELL_FAILED \<and> is_open (cv_position c) \<and>
      rt_pending_order_id (cv_runtime c) = None \<and> is_force_sell_failure_terminal e \<or>
    ev_type e = FORCE_SELL_FINISHED \<and> \<not> is_open (cv_position c) \<and>
      rt_pending_order_id (cv_runtime c) = None \<and> is_force_sell_completion_valid e"
  using assms(1)
proof (cases rule: global_outcome)
  case band
  then show ?thesis
    by (cases rule: band_touch_outcome)
      (simp_all add: assms(2) can_open_first_def can_renew_def Let_def)
qed (use assms(2) handle_stop_outcome(1) [of s c oc] in
    \<open>auto dest: deferred_outcome(2) session_outcome(2)\<close>)

text \<open>
  C9.  A stopping session obeys exactly two events.  A forced sale whose failure is terminal is
  repeated while the position is open and no order is pending, and the session keeps stopping.  A
  forced sale that was applied and persisted ends the session once no position and no order is left.
  Everything else, another outcome of the forced sale included, changes nothing and asks for nothing.
\<close>

theorem stopping_needs_evidence:
  assumes "stm_ok m" "\<not> sm_locked m" "st_root (sm_state m) = STOPPING"
  shows "if ev_type e = FORCE_SELL_FAILED \<and> is_open (cv_position c) \<and>
      rt_pending_order_id (cv_runtime c) = None \<and>
      (\<exists>a b. ev_payload e = Some (ForceSellOutcomePayload a b True))
    then \<exists>r. stm_handle m e c = (Inr r, m) \<and> sr_consumed r \<and> sr_actions r = [ForceSellAll True True]
    else if ev_type e = FORCE_SELL_FINISHED \<and> \<not> is_open (cv_position c) \<and>
      rt_pending_order_id (cv_runtime c) = None \<and>
      (\<exists>b. ev_payload e = Some (ForceSellOutcomePayload True True b))
    then \<exists>r. stm_handle m e c = (Inr r, m\<lparr>sm_state := inactive_config LOGIC_TERMINATED\<rparr>) \<and>
      sr_consumed r \<and> StopTradingRuntime ''FORCE_SELL_FINISHED'' \<in> set (sr_actions r)
    else snd (stm_handle m e c) = m \<and>
      (\<forall>r. fst (stm_handle m e c) = Inr r \<longrightarrow> \<not> sr_consumed r \<and> sr_actions r = [])"
proof -
  let ?fail = "ev_type e = FORCE_SELL_FAILED \<and> is_open (cv_position c) \<and>
      rt_pending_order_id (cv_runtime c) = None \<and> is_force_sell_failure_terminal e"
    and ?done = "ev_type e = FORCE_SELL_FINISHED \<and> \<not> is_open (cv_position c) \<and>
      rt_pending_order_id (cv_runtime c) = None \<and> is_force_sell_completion_valid e"
  have ids: "set [''G-06F'', ''G-06R''] \<subseteq> set (lc_transition_ids (sm_configuration m))"
    using assms(1) by (simp add: stm_ok_def)
  have terminal: "is_force_sell_failure_terminal e \<longleftrightarrow> (\<exists>a b. ev_payload e = Some (ForceSellOutcomePayload a b True))"
    by (auto simp: is_force_sell_failure_terminal_def split: option.splits event_payload.splits)
  have valid: "is_force_sell_completion_valid e \<longleftrightarrow> (\<exists>b. ev_payload e = Some (ForceSellOutcomePayload True True b))"
    by (auto simp: is_force_sell_completion_valid_def split: option.splits event_payload.splits)
  have retry: "\<exists>r. stm_handle m e c = (Inr r, m) \<and> sr_consumed r \<and> sr_actions r = [ForceSellAll True True]" if ?fail
    using that assms(2,3) ids
    by (simp add: stm_handle_def handle_locked_def handle_global_transition_def force_sell_retry_def
        commit_outcome_def create_transition_outcome_def)
  have finish: "\<exists>r. stm_handle m e c = (Inr r, m\<lparr>sm_state := inactive_config LOGIC_TERMINATED\<rparr>) \<and>
      sr_consumed r \<and> StopTradingRuntime ''FORCE_SELL_FINISHED'' \<in> set (sr_actions r)" if ?done
    using that assms(2,3) ids
    by (simp add: stm_handle_def handle_locked_def handle_global_transition_def force_sell_finished_def
        move_def create_inactive_configuration_def commit_outcome_def)
  have other: "snd (stm_handle m e c) = m \<and>
      (\<forall>r. fst (stm_handle m e c) = Inr r \<longrightarrow> \<not> sr_consumed r \<and> sr_actions r = [])" if "\<not> ?fail" "\<not> ?done"
  proof (cases "handle_global_transition (sm_state m) e c")
    case (Inr g)
    have "g = None"
    proof (rule ccontr)
      assume "g \<noteq> None"
      then obtain oc where "handle_global_transition (sm_state m) e c = Inr (Some oc)" using Inr by auto
      from stopping_outcome [OF this assms(3)] that show False by blast
    qed
    with Inr assms(3) show ?thesis by (simp add: stm_handle_def handle_locked_def no_op_def)
  qed (simp add: stm_handle_def handle_locked_def)
  show ?thesis using retry finish other unfolding terminal valid by argo
qed

theorem stopping_needs_evidence_witness:
  "\<exists>r. stm_handle (machine_at (inactive_config STOPPING)) finish_event quiet_view
      = (Inr r, machine_at (inactive_config LOGIC_TERMINATED)) \<and> sr_consumed r"
proof -
  have "stm_ok (machine_at (inactive_config STOPPING))" by simp
  moreover have "Ex Not" by blast
  moreover have "ev_type finish_event = FORCE_SELL_FINISHED"
    "ev_payload finish_event = Some (ForceSellOutcomePayload True True False)"
    "\<not> is_open (cv_position quiet_view)" "rt_pending_order_id (cv_runtime quiet_view) = None"
    by (simp_all add: finish_event_def sample_views is_open_def dzero_def)
  ultimately show ?thesis
    using stopping_needs_evidence [of "machine_at (inactive_config STOPPING)" finish_event quiet_view] by auto
qed

text \<open>
  A terminated session is dead: no event on any view moves the machine or makes it act.
\<close>

theorem terminated_is_final:
  assumes "st_root (sm_state m) = LOGIC_TERMINATED"
  shows "snd (stm_handle m e c) = m \<and>
    (\<forall>r. fst (stm_handle m e c) = Inr r \<longrightarrow> \<not> sr_consumed r \<and> sr_actions r = [])"
proof (cases "handle_global_transition (sm_state m) e c")
  case (Inr g)
  then have "g = None" using terminated_no_outcome [OF assms] by (cases g) auto
  with Inr assms show ?thesis
    by (simp add: stm_handle_def handle_locked_def no_op_def)
qed (simp add: stm_handle_def handle_locked_def)

theorem terminated_is_final_witness:
  "snd (stm_handle (machine_at (inactive_config LOGIC_TERMINATED)) (event_at LOGIC_STARTED) touch_view) =
     machine_at (inactive_config LOGIC_TERMINATED)"
  by (rule conjunct1 [OF terminated_is_final]) simp

text \<open>
  The machine refines the life cycle of its root: not started, watching the lower band,
  managing trades, stopping, terminated.  Every consumed microstep follows one of its edges.
\<close>

theorem root_follows_life_cycle:
  assumes "stm_ok m" "stm_handle m e c = (Inr r, m')" "sr_consumed r"
  shows "root_edge (st_root (sm_state m)) (st_root (sm_state m'))"
  using assms(1)
proof (cases rule: stm_handle_cases [of m e c])
  case (result r')
  then have "r' = r" "m' = m\<lparr>sm_state := sr_state_after r\<rparr>" using assms(2) by simp_all
  with result(4) assms(3) show ?thesis by (simp add: result_ok_def)
qed (use assms(2) in simp_all)

theorem root_follows_life_cycle_witness: "root_edge STOPPING LOGIC_TERMINATED"
proof (rule finish_handled)
  fix r
  assume r: "stm_handle (machine_at (inactive_config STOPPING)) finish_event quiet_view =
      (Inr r, machine_at (inactive_config LOGIC_TERMINATED))" "sr_consumed r"
  have "stm_ok (machine_at (inactive_config STOPPING))" by simp
  from root_follows_life_cycle [OF this r] show ?thesis by simp
qed

text \<open>
  A root decision asks for a forced sale only when a position is open and no order is
  pending, and then the session is stopping.
\<close>

theorem forced_sale_needs_position:
  assumes "handle_global_transition s e c = Inr (Some oc)" "ForceSellAll b b' \<in> set (oc_actions oc)"
  shows "is_open (cv_position c) \<and> rt_pending_order_id (cv_runtime c) = None \<and>
    st_root (oc_state_after oc) = STOPPING"
  using assms by (rule force_sell_needs_position)

theorem forced_sale_needs_position_witness:
  "\<exists>oc. handle_global_transition b_hold_state (event_at STOP_CONFIRMED) b_hold_view = Inr (Some oc) \<and>
     ForceSellAll False False \<in> set (oc_actions oc) \<and> st_root (oc_state_after oc) = STOPPING"
proof -
  have v: "rt_pending_order_id (cv_runtime b_hold_view) = None" "is_open (cv_position b_hold_view)"
    "st_root b_hold_state = TRADE_MANAGEMENT"
    by (simp_all add: b_hold_state_def trade_management_initial_def sample_views is_open_def dzero_def)
  then obtain oc where oc: "handle_global_transition b_hold_state (event_at STOP_CONFIRMED) b_hold_view =
      Inr (Some oc)" "ForceSellAll False False \<in> set (oc_actions oc)"
    by (simp add: handle_global_transition_def handle_stop_def move_def
        create_inactive_configuration_def)
  from forced_sale_needs_position [OF oc] oc show ?thesis by blast
qed

text \<open>
  The upper band returns trade management to the lower watch, unless an order, an intent or a
  position is under way: then the touch is taken and changes nothing.
\<close>

theorem upper_band_protects_position:
  assumes "st_root s = TRADE_MANAGEMENT" "ev_type e = UPPER_BAND_TOUCHED"
    and "condition_met upper_safe_exit c"
  shows "handle_global_transition s e c = Inr (Some
    (if rt_pending_order_id (cv_runtime c) \<noteq> None \<or> rt_pending_intent_id (cv_runtime c) \<noteq> None \<or>
        is_open (cv_position c)
     then \<lparr>oc_transition_ids = [''G-07''], oc_state_after = s, oc_actions = [], oc_exclusive = True\<rparr>
     else \<lparr>oc_transition_ids = [''G-07''], oc_state_after = inactive_config LOWER_TOUCH_WATCH,
       oc_actions = [CloseLowerEvent ''UPPER_BAND_RETURN_TO_LOWER_WATCH'', ResetCaseBContext False,
         ResetCaseCContext False False, clear_session_patch IDLE,
         CancelScheduledEvaluation ''lower-event''], oc_exclusive = True\<rparr>))"
  using assms
  by (simp add: handle_global_transition_def handle_band_touch_def handle_upper_band_touch_def
      is_market_observation_def move_def create_inactive_configuration_def
      create_transition_outcome_def Let_def)

theorem upper_band_protects_position_witness:
  "\<exists>oc. handle_global_transition trade_management_initial (event_at UPPER_BAND_TOUCHED) upper_view =
     Inr (Some oc) \<and> oc_state_after oc = inactive_config LOWER_TOUCH_WATCH"
proof -
  have "condition_met upper_safe_exit upper_view" "\<not> is_open (cv_position upper_view)"
    "rt_pending_order_id (cv_runtime upper_view) = None" "rt_pending_intent_id (cv_runtime upper_view) = None"
    by (simp_all add: condition_met_iff condition_satisfied_def sample_views is_open_def dzero_def)
  with upper_band_protects_position [of trade_management_initial "event_at UPPER_BAND_TOUCHED" upper_view]
  show ?thesis by simp
qed

text \<open>
  The machine invents no outcome: an event it queues is never a fill, a failure, a stop or
  market data.  The event that trade management is complete is queued exactly by the microstep
  that completes it, hence once.
\<close>

theorem queued_events_are_internal:
  assumes "stm_ok m" "stm_handle m e c = (Inr r, m')"
  shows "(\<forall>q. QueueEvent q \<in> set (sr_actions r) \<longrightarrow>
      qe_type q \<notin> set order_outcome_events \<union> {STOP_CONFIRMED, LOGIC_STARTED, MARKET_DATA_UPDATED,
        LOWER_BAND_TOUCHED, NEW_30M_LOWER_BAND_TOUCHED, UPPER_BAND_TOUCHED, BUY_RISK_BLOCKED,
        SELL_PREPARATION_DEFERRED, ORDER_PREPARATION_EXPIRED}) \<and>
    ((\<exists>q. QueueEvent q \<in> set (sr_actions r) \<and> qe_type q = TRADE_MANAGEMENT_COMPLETED) \<longleftrightarrow>
       \<not> trade_management_is_complete (sm_state m) \<and> trade_management_is_complete (sm_state m'))"
  using assms(1)
proof (cases rule: stm_handle_cases [of m e c])
  case (result r')
  then have r: "r' = r" "m' = m\<lparr>sm_state := sr_state_after r\<rparr>" using assms(2) by simp_all
  have int: "external_event t" if "t \<in> set order_outcome_events \<union> {STOP_CONFIRMED, LOGIC_STARTED,
      MARKET_DATA_UPDATED, LOWER_BAND_TOUCHED, NEW_30M_LOWER_BAND_TOUCHED, UPPER_BAND_TOUCHED,
      BUY_RISK_BLOCKED, SELL_PREPARATION_DEFERRED, ORDER_PREPARATION_EXPIRED}" for t
    using that by (auto simp: order_outcome_events_def)
  have "qe_type q = TRADE_MANAGEMENT_COMPLETED"
    if "QueueEvent q \<in> set (sr_actions r)" "external_event (qe_type q)" for q
    using result(4) r that by (simp add: result_ok_def)
  then have "qe_type q \<notin> set order_outcome_events \<union> {STOP_CONFIRMED, LOGIC_STARTED,
      MARKET_DATA_UPDATED, LOWER_BAND_TOUCHED, NEW_30M_LOWER_BAND_TOUCHED, UPPER_BAND_TOUCHED,
      BUY_RISK_BLOCKED, SELL_PREPARATION_DEFERRED, ORDER_PREPARATION_EXPIRED}"
    if "QueueEvent q \<in> set (sr_actions r)" for q
    using that int by (fastforce simp: order_outcome_events_def)
  moreover have "(\<exists>q. QueueEvent q \<in> set (sr_actions r) \<and> qe_type q = TRADE_MANAGEMENT_COMPLETED) \<longleftrightarrow>
       \<not> trade_management_is_complete (sm_state m) \<and> trade_management_is_complete (sm_state m')"
    using result(4) r by (simp add: result_ok_def)
  ultimately show ?thesis by blast
qed (use assms(2) in simp_all)

theorem queued_events_are_internal_witness:
  "\<exists>r m'. stm_handle (machine_at entry_state) (event_at MARKET_DATA_UPDATED) entry_view = (Inr r, m') \<and>
     \<not> trade_management_is_complete (sm_state m') \<and>
     (\<forall>q. QueueEvent q \<in> set (sr_actions r) \<longrightarrow> qe_type q \<noteq> TRADE_MANAGEMENT_COMPLETED)"
proof (rule entry_handled)
  fix r
  assume r: "stm_handle (machine_at entry_state) (event_at MARKET_DATA_UPDATED) entry_view =
      (Inr r, machine_at (sr_state_after r))" "sr_state_after r = oc_state_after c_entry_outcome"
  have "\<not> trade_management_is_complete (oc_state_after c_entry_outcome)"
    by (simp add: trade_management_is_complete_def c_entry_outcome_def entry_state_def
        trade_management_initial_def)
  moreover have "stm_ok (machine_at entry_state)" by simp
  ultimately show ?thesis using queued_events_are_internal [OF _ r(1)] r by auto
qed

text \<open>
  The position is given to a strategy only by the fill of that strategy, when the context
  already records it as the owner of an open position and no order is pending.
\<close>

theorem ownership_follows_fill:
  assumes "handle_ownership_transition s e c = Inr (Some oc)"
    and "st_ownership (oc_state_after oc) \<noteq> Some NO_POSITION"
  shows "is_open (cv_position c) \<and> rt_pending_order_id (cv_runtime c) = None \<and>
    (ev_type e = CASE_B_POSITION_OPENED \<and> rt_position_owner (cv_runtime c) = Some CASE_B \<and>
       st_b_position (oc_state_after oc) = Some CASE_B_HOLDING \<or>
     ev_type e = CASE_C_POSITION_OPENED \<and> rt_position_owner (cv_runtime c) = Some CASE_C \<and>
       st_c_position (oc_state_after oc) = Some CASE_C_HOLDING)"
  using ensuresD [OF ownership_ensures assms(1)] assms(2)
  by (auto simp: ownership_post_def position_opened_def)

theorem ownership_follows_fill_witness:
  "is_open (cv_position b_fill_view) \<and> rt_position_owner (cv_runtime b_fill_view) = Some CASE_B"
  using ownership_follows_fill [OF b_fill] by simp

text \<open>
  The first touch of the lower band starts trade management: from the lower watch, at or
  below the band, the machine enters the initial configuration, opens the lower event of this touch
  with the values of the view, and activates the regions with it.
\<close>

theorem lower_touch_starts_management:
  assumes "stm_ok m" "\<not> sm_locked m" "st_root (sm_state m) = LOWER_TOUCH_WATCH"
    and "ev_type e = LOWER_BAND_TOUCHED" "condition_met lower_price c"
    and "mk_touch_candle_bbw (cv_market c) \<noteq> NaN"
  shows "\<exists>r i. stm_handle m e c = (Inr r, m\<lparr>sm_state := trade_management_initial\<rparr>) \<and>
    sr_transition_ids r = [''G-02'', ''O-01'', ''C-01'', ''B-01''] \<and>
    hd (sr_actions r) = OpenLowerEvent \<lparr>le_lower_event_id = i, le_touch_time = ev_occurred_at e,
      le_candle_id = py_or (ev_candle_id e) (mk_current_30m_candle_id (cv_market c)),
      le_touch_candle_low = mk_current_30m_low (cv_market c),
      le_lower_band_at_touch = mk_lower_band (cv_market c),
      le_touch_candle_bbw = mk_touch_candle_bbw (cv_market c)\<rparr> \<and>
    last (sr_actions r) = queue_request ACTIVATE_TRADE_MANAGEMENT (Some i)"
proof -
  have width: "dlt_checked (mk_touch_candle_bbw (cv_market c)) (Fin x) =
      Inr (dlt (mk_touch_candle_bbw (cv_market c)) (Fin x))" for x
    using assms(6) by (simp add: dlt_checked_def)
  have ids: "set [''G-02'', ''O-01'', ''C-01'', ''B-01''] \<subseteq> set (lc_transition_ids (sm_configuration m))"
    using assms(1) by (simp add: stm_ok_def)
  have "handle_global_transition (sm_state m) e c = open_lower_event ''G-02'' [] e c"
    using assms(3-5)
    by (simp add: handle_global_transition_def handle_band_touch_def is_market_observation_def
        is_lower_touch_condition_met_def can_open_first_def open_lower_event_def
        create_lower_event_initialization_patch_def width move_def)
  with assms(2) ids width show ?thesis
    by (simp add: stm_handle_def handle_locked_def open_lower_event_def move_def
        create_lower_event_initialization_patch_def create_open_lower_event_action_def
        commit_outcome_def create_transition_outcome_def Let_def)
qed

theorem lower_touch_starts_management_witness:
  "\<exists>r. stm_handle (machine_at watch_state) (event_at LOWER_BAND_TOUCHED) touch_view =
     (Inr r, machine_at trade_management_initial)"
proof -
  have "stm_ok (machine_at watch_state)" by simp
  from lower_touch_starts_management [OF this, of "event_at LOWER_BAND_TOUCHED" touch_view]
  show ?thesis by (auto simp: machine_at_def watch_state_def)
qed

section \<open>Conditions and prices\<close>

text \<open>
  A condition is never both met and unmet, and it is decided exactly when both of its operands
  can be read; a missing or infinite value or a NaN therefore blocks both branches.  Without a hold
  time, a decided condition is the comparison of the two exact numbers.
\<close>

theorem conditions_fail_closed:
  "\<not> (condition_met cid c \<and> condition_unmet cid c) \<and>
   (condition_met cid c \<or> condition_unmet cid c \<longleftrightarrow>
      read_operand (cd_operand (definition_of cid)) c \<noteq> None \<and>
      read_operand (cd_reference (definition_of cid)) c \<noteq> None) \<and>
   (\<forall>v t. cd_hold_flag (definition_of cid) = None \<and> is_finite v \<and> is_finite t \<and>
      read_operand (cd_operand (definition_of cid)) c = Some v \<and>
      read_operand (cd_reference (definition_of cid)) c = Some t \<longrightarrow>
      condition_met cid c = num_compare (cd_comparison (definition_of cid)) (dval v) (dval t))"
  using condition_not_both condition_determined
  by (auto simp: condition_met_iff condition_satisfied_def Let_def)

theorem conditions_fail_closed_witness:
  "condition_met c_entry_limit entry_view \<and> num_compare Cmp_lt (- 20 / 100) (- 15 / 100)"
  using conditions_fail_closed [of c_entry_limit entry_view] by (simp add: sample_views)

lemma near_abs:
  assumes "\<bar>a - b\<bar> \<le> \<bar>b\<bar> / (2 * 10 ^ 27)"
  shows "\<bar>a\<bar> \<le> 2 * \<bar>b :: rat\<bar>"
proof -
  have "\<bar>b\<bar> / (2 * 10 ^ 27) \<le> \<bar>b\<bar>" by (simp add: divide_le_eq mult_le_cancel_left1)
  then have "\<bar>a - b\<bar> \<le> \<bar>b\<bar>" using assms by (rule order_trans [rotated])
  moreover have "\<bar>a\<bar> \<le> \<bar>a - b\<bar> + \<bar>b\<bar>" using abs_triangle_ineq [of "a - b" b] by simp
  ultimately show ?thesis by linarith
qed

lemma rounding_budget:
  fixes l u w q x :: rat
  assumes "0 \<le> l" "0 \<le> u" "w \<le> 2 * x" "q \<le> 2 * (w / 10)" "s \<le> l + q" "x \<le> u + l"
    and "t \<le> d1 + d2 + d3 / 10" "d1 \<le> s / (2 * 10 ^ 27)" "d2 \<le> w / 10 / (2 * 10 ^ 27)"
    "d3 \<le> x / (2 * 10 ^ 27)"
  shows "t \<le> (l + u) / 10 ^ 27"
proof -
  have "t \<le> (l + 2 / 5 * x + 2 / 10 * x + x / 10) / (2 * 10 ^ 27)" using assms by simp
  also have "\<dots> \<le> (l + u) / 10 ^ 27" using assms by simp
  finally show ?thesis .
qed

text \<open>
  With finite bands the profit target of case C is computed, and the three roundings to 28
  digits keep it within a 10^27th of the magnitudes of the bands around
  lower + 0.10 * (upper - lower).
\<close>

theorem profit_target_is_accurate:
  assumes "is_finite (mk_upper_band m)" "is_finite (mk_lower_band m)"
  shows "\<exists>p. tp_price_of m = Inr p \<and> is_finite p \<and>
    \<bar>dval p - (dval (mk_lower_band m) + (dval (mk_upper_band m) - dval (mk_lower_band m)) / 10)\<bar>
      \<le> (\<bar>dval (mk_lower_band m)\<bar> + \<bar>dval (mk_upper_band m)\<bar>) / 10 ^ 27"
proof -
  define l u where lu: "l = dval (mk_lower_band m)" "u = dval (mk_upper_band m)"
  define w where "w = round28 (u - l)"
  define q where "q = round28 (10 / 100 * w)"
  obtain p where p: "tp_price_of m = Inr p" "is_finite p" "dval p = round28 (l + q)"
    using tp_price_returns [OF assms] by (auto simp: lu w_def q_def)
  have w: "\<bar>w - (u - l)\<bar> \<le> \<bar>u - l\<bar> / (2 * 10 ^ 27)"
    and q: "\<bar>q - w / 10\<bar> \<le> \<bar>w / 10\<bar> / (2 * 10 ^ 27)"
    and r: "\<bar>dval p - (l + q)\<bar> \<le> \<bar>l + q\<bar> / (2 * 10 ^ 27)"
    using round28_relative [of "u - l"] round28_relative [of "10 / 100 * w"]
      round28_relative [of "l + q"] by (simp_all add: w_def q_def p(3))
  have sizes: "\<bar>w\<bar> \<le> 2 * \<bar>u - l\<bar>" "\<bar>q\<bar> \<le> 2 * (\<bar>w\<bar> / 10)" "\<bar>l + q\<bar> \<le> \<bar>l\<bar> + \<bar>q\<bar>"
    "\<bar>u - l\<bar> \<le> \<bar>u\<bar> + \<bar>l\<bar>"
    using near_abs [OF w] near_abs [OF q] by (simp_all add: abs_divide)
  have split: "dval p - (l + (u - l) / 10) = (dval p - (l + q)) + (q - w / 10) + (w - (u - l)) / 10"
    by (simp add: field_simps)
  have total: "\<bar>dval p - (l + (u - l) / 10)\<bar> \<le>
      \<bar>dval p - (l + q)\<bar> + \<bar>q - w / 10\<bar> + \<bar>w - (u - l)\<bar> / 10"
    unfolding split
    using abs_triangle_ineq [of "dval p - (l + q) + (q - w / 10)" "(w - (u - l)) / 10"]
      abs_triangle_ineq [of "dval p - (l + q)" "q - w / 10"] by (simp add: abs_divide)
  have "\<bar>q - w / 10\<bar> \<le> \<bar>w\<bar> / 10 / (2 * 10 ^ 27)" using q by (simp only: abs_divide abs_numeral)
  then have "\<bar>dval p - (l + (u - l) / 10)\<bar> \<le> (\<bar>l\<bar> + \<bar>u\<bar>) / 10 ^ 27"
    using rounding_budget [OF abs_ge_zero abs_ge_zero sizes total r _ w] by blast
  with p show ?thesis by (auto simp: lu)
qed

theorem profit_target_is_accurate_witness:
  "\<exists>p. tp_price_of quiet_market = Inr p \<and> \<bar>dval p - 101\<bar> \<le> 210 / 10 ^ 27"
  using profit_target_is_accurate [of quiet_market] by (auto simp: sample_views)

section \<open>The catalog and the machine's creation\<close>

text \<open>
  The registry describes every regime by a valid configuration, the catalog consists of 109
  distinct transitions, and a machine exists for TYPE_0 only; it starts unlocked and not started.
\<close>

theorem registry_and_creation:
  "map lc_regime_type trading_logic_configurations = all_regimes \<and>
   list_all logic_configuration_ok trading_logic_configurations \<and>
   distinct transition_ids \<and> length transition_ids = 109 \<and>
   create_stm regime =
     (if regime = TYPE_0
      then Inr \<lparr>sm_configuration = get_trading_logic_configuration TYPE_0,
        sm_state = inactive_config NOT_STARTED, sm_locked = False\<rparr>
      else Inl UnsupportedTradingLogicError)"
proof -
  have cat: "distinct transition_ids" "length transition_ids = 109" "transition_ids \<noteq> []"
    by (simp_all add: transition_ids_def catalog_evals)
  then have "list_all logic_configuration_ok trading_logic_configurations"
    by (simp add: trading_logic_configurations_def unsupported_configuration_def
        logic_configuration_ok_def)
  with cat show ?thesis
    by (simp add: registry_order create_stm_def require_supported_iff default_config_def)
qed

text \<open>
  A decision that is not published can be undone: the rollback returns the machine to the
  state before the microstep, and it refuses a result the machine is no longer at.
\<close>

theorem rollback_undoes_decision:
  assumes "stm_ok m" "stm_handle m e c = (Inr r, m')"
  shows "rollback_unpublished_result m' r = (Inr (), m) \<and>
    (\<forall>s. s \<noteq> sr_state_after r \<longrightarrow>
       rollback_unpublished_result (m'\<lparr>sm_state := s\<rparr>) r = (Inl RuntimeError, m'\<lparr>sm_state := s\<rparr>))"
  using rollback_restores [OF assms] by (simp add: rollback_unpublished_result_def)

theorem rollback_undoes_decision_witness:
  "\<exists>r m'. stm_handle (machine_at entry_state) (event_at MARKET_DATA_UPDATED) entry_view = (Inr r, m') \<and>
     m' \<noteq> machine_at entry_state \<and> rollback_unpublished_result m' r = (Inr (), machine_at entry_state)"
proof (rule entry_handled)
  fix r
  assume r: "stm_handle (machine_at entry_state) (event_at MARKET_DATA_UPDATED) entry_view =
      (Inr r, machine_at (sr_state_after r))" "sr_state_after r = oc_state_after c_entry_outcome"
  have "machine_at (sr_state_after r) \<noteq> machine_at entry_state"
    by (simp add: r(2) machine_at_def c_entry_outcome_def entry_state_def trade_management_initial_def)
  moreover have "stm_ok (machine_at entry_state)" by simp
  ultimately show ?thesis using rollback_undoes_decision [OF _ r(1)] r(1) by blast
qed

section \<open>The context\<close>

text \<open>
  C10.  Every context a session can reach by well-formed operations satisfies its invariant: valid
  market, position and runtime values, a runtime aligned with the authoritative pending order, no
  order identifier without that order, and an owner only of an open position.
\<close>

theorem reachable_contexts_are_valid:
  assumes "reachable token x"
  shows "market_ok (tx_market x) \<and> position_ok (tx_position x) \<and> runtime_ok (tx_runtime x) \<and>
    valid_split_ratio (tx_scale_in_ratio x) \<and> valid_split_ratio (tx_scale_out_ratio x) \<and>
    pending_aligned (tx_runtime x) (tx_pending_order x) \<and>
    (tx_pending_order x = None \<longleftrightarrow> rt_pending_order_id (tx_runtime x) = None) \<and>
    (rt_position_owner (tx_runtime x) \<noteq> None \<longrightarrow> is_open (tx_position x)) \<and> 0 \<le> tx_version x"
  using reachable_ok [OF assms] by (auto simp: context_ok_def pending_aligned_def split: option.splits)

theorem reachable_contexts_are_valid_witness:
  "rt_position_owner (tx_runtime live_context) = Some CASE_B \<and> is_open (tx_position live_context)"
  using reachable_contexts_are_valid [OF live_reachable] by simp

text \<open>
  An operation that succeeds either changes nothing or raises the version by exactly one, so
  two contexts of one session with different values have different versions one step apart; and no
  operation changes the owner token of the checkpoints.
\<close>

theorem operations_count_versions:
  assumes "run_op op x = Inr y"
  shows "(y = x \<or> tx_version y = tx_version x + 1) \<and> tx_checkpoint_owner y = tx_checkpoint_owner x"
  using run_op_step [OF assms] by (simp add: version_step_def)

theorem operations_count_versions_witness:
  "tx_version live_context = tx_version (new_context 1 :: unit trading_context) + 1"
proof -
  have "live_context \<noteq> new_context 1" by (simp add: live_context_def new_context_def)
  with operations_count_versions [OF live_step] show ?thesis by blast
qed

text \<open>
  A result that was decided on another version is refused with the version conflict, whatever
  it contains, and only such a result is.
\<close>

theorem stale_results_are_refused:
  "apply_trading_stm_result r x = Inl ContextVersionConflictError \<longleftrightarrow>
   sr_context_version r \<noteq> tx_version x"
proof -
  have no_conflict: "patch_runtime cs q \<noteq> Inl ContextVersionConflictError" for cs q
    by (simp add: patch_runtime_def make_runtime_def ebind_eq_Inl)
  have "patch_all acts q \<noteq> Inl ContextVersionConflictError" for acts q
    by (induction acts q rule: patch_all.induct) (simp_all add: ebind_eq_Inl no_conflict)
  then show ?thesis
    by (simp add: apply_trading_stm_result_def ebind_eq_Inl validate_pending_alignment_def)
qed

text \<open>
  C11.  From snapshot to publication: in a reachable context without a pending order a snapshot can
  be taken, and what a valid machine decides on it applies to the context without an exception,
  keeps the invariant, and installs neither an owner nor an order.
\<close>

theorem decisions_apply_to_their_context:
  assumes "reachable token x" "tx_pending_order x = None" "is_aware t"
    and "stm_ok m" "event_ok e"
  shows "\<exists>c. context_snapshot t x = Inr c \<and>
    (\<forall>r m'. stm_handle m e c = (Inr r, m') \<longrightarrow>
       (\<exists>y. apply_trading_stm_result r x = Inr y \<and> context_ok y \<and>
          rt_position_owner (tx_runtime y) \<in> {None, rt_position_owner (tx_runtime x)} \<and>
          rt_pending_order_id (tx_runtime y) = None))"
proof -
  have x: "context_ok x" by (rule reachable_ok [OF assms(1)])
  obtain c where c: "context_snapshot t x = Inr c" "cv_market c = tx_market x" "cv_evaluated_at c = t"
    using snapshot_of_ok [OF x assms(3)] by metis
  have "\<exists>y. apply_trading_stm_result r x = Inr y \<and> context_ok y \<and>
      rt_position_owner (tx_runtime y) \<in> {None, rt_position_owner (tx_runtime x)} \<and>
      rt_pending_order_id (tx_runtime y) = None" if h: "stm_handle m e c = (Inr r, m')" for r m'
    using assms(4)
  proof (cases rule: stm_handle_cases [of m e c])
    case (result r')
    then have ok: "result_ok (sm_state m) e c r" using h by simp
    from decision_applies [OF x c(1) ok assms(5,2)] obtain y
      where y: "apply_trading_stm_result r x = Inr y" "context_ok y" by blast
    have safe: "\<forall>cs. PatchRuntimeContext cs \<in> set (sr_actions r) \<longrightarrow> patch_safe cs"
      using ok x c assms(3,5) by (simp add: result_ok_def inputs_ok_def context_ok_def)
    obtain n where n: "patch_all (sr_actions r) (tx_runtime x) = Inr n" "y = replace_runtime n x"
      using y(1) by (auto simp: apply_trading_stm_result_def ebind_eq_Inr split: if_splits)
    have "runtime_ok (tx_runtime x)" "rt_pending_order_id (tx_runtime x) = None"
      using x assms(2) by (simp_all add: context_ok_def)
    with patch_all_effect [OF n(1) safe] y n(2) show ?thesis
      by (auto simp: replace_runtime_def)
  qed (use h in simp_all)
  with c(1) show ?thesis by blast
qed

theorem decisions_apply_to_their_context_witness:
  "\<exists>c. context_snapshot (Aware 0) live_context = Inr c \<and>
     (\<forall>r m'. stm_handle (machine_at b_hold_state) (event_at CASE_B_TIME_EXIT) c = (Inr r, m') \<longrightarrow>
        (\<exists>y. apply_trading_stm_result r live_context = Inr y \<and> context_ok y))"
proof -
  have "stm_ok (machine_at b_hold_state)" "event_ok (event_at CASE_B_TIME_EXIT)" by simp_all
  with decisions_apply_to_their_context [OF live_reachable, of "Aware 0" "machine_at b_hold_state"
      "event_at CASE_B_TIME_EXIT"] show ?thesis by fastforce
qed

text \<open>
  A checkpoint restores its context exactly, from any later context of the same session; the
  checkpoint of another session is refused.
\<close>

theorem checkpoints_restore:
  assumes "reachable token x" "reachable token' y"
  shows "restore_checkpoint (create_checkpoint x) y =
    (if token = token' then Inr x else Inl ValueError)"
  using reachable_owner [OF assms(1)] reachable_owner [OF assms(2)] checkpoint_inverse [of y x]
  by (auto simp: restore_checkpoint_def create_checkpoint_def)

theorem checkpoints_restore_witness:
  "restore_checkpoint (create_checkpoint (new_context 1)) live_context = Inr (new_context 1) \<and>
   restore_checkpoint (create_checkpoint (new_context 2)) live_context = Inl ValueError"
  using checkpoints_restore [OF reachable.new [of 1] live_reachable]
    checkpoints_restore [OF reachable.new [of 2] live_reachable] by simp

section \<open>The queue\<close>

text \<open>
  A pop takes the strictly least entry: the highest priority, and among equal priorities the
  event accepted first.  It takes that entry and no other.
\<close>

theorem pop_takes_the_next_event:
  assumes "queue_run q cl" "pop_event q = (Some e, q')"
  shows "mset (eq_heap q) = add_mset (entry_of e (ev_sequence_number e)) (mset (eq_heap q')) \<and>
    (\<forall>n\<in>set (eq_heap q'). priority_value (ev_priority e) < qn_priority n \<or>
       priority_value (ev_priority e) = qn_priority n \<and> ev_sequence_number e < qn_sequence n)"
proof -
  have inv: "queue_inv q cl" by (rule queue_run_inv [OF assms(1)])
  have "priority_value (ev_priority e) < qn_priority n \<or>
      priority_value (ev_priority e) = qn_priority n \<and> ev_sequence_number e < qn_sequence n"
    if "n \<in> set (eq_heap q')" for n
    using pop_strictly_least [OF inv assms(2) that]
    by (auto simp: entry_key_def less_prod_def order.order_iff_strict)
  moreover have "mset (eq_heap q) = add_mset (entry_of e (ev_sequence_number e)) (mset (eq_heap q'))"
    using assms(2)
  proof (cases rule: pop_event_cases)
    case (entry n ns)
    then have "n = entry_of e (ev_sequence_number e)" using inv by (simp add: queue_inv_def)
    with entry show ?thesis by simp
  qed simp
  ultimately show ?thesis by blast
qed

theorem pop_takes_the_next_event_witness:
  "\<exists>e q'. pop_event busy_queue = (Some e, q') \<and> ev_type e = STOP_CONFIRMED \<and>
     (\<forall>n\<in>set (eq_heap q'). priority_value (ev_priority e) < qn_priority n)"
proof (intro exI conjI)
  show "pop_event busy_queue = (Some (stop_event\<lparr>ev_sequence_number := 2\<rparr>), tick_queue
       \<lparr>eq_next_sequence := 3, eq_seen_event_ids := {''tick'', ''stop''}\<rparr>)" by (rule busy_pop)
  show "ev_type (stop_event\<lparr>ev_sequence_number := 2\<rparr>) = STOP_CONFIRMED"
    by (simp add: stop_event_def)
qed (use pop_takes_the_next_event [OF busy_run busy_pop] in \<open>simp add: tick_queue_def\<close>)

text \<open>
  In every run of the queue the bounds hold: at most one event above the pending capacity (a
  restored claim), at most the remembered number of identities, and all queued events have distinct
  sequence numbers below the counter, so the order of the heap is total.
\<close>

theorem queue_stays_bounded:
  assumes "queue_run q cl"
  shows "length (eq_heap q) \<le> eq_max_pending q + (if cl = None then 1 else 0) \<and>
    card (eq_seen_event_ids q) \<le> eq_max_seen q \<and>
    distinct (map qn_sequence (eq_heap q)) \<and>
    (\<forall>n\<in>set (eq_heap q). 1 \<le> qn_sequence n \<and> qn_sequence n < eq_next_sequence q \<and>
       event_ok (qn_event n) \<and> qn_priority n = priority_value (ev_priority (qn_event n)))"
proof -
  have inv: "queue_inv q cl" by (rule queue_run_inv [OF assms])
  have "1 \<le> qn_sequence n \<and> qn_sequence n < eq_next_sequence q \<and> event_ok (qn_event n) \<and>
      qn_priority n = priority_value (ev_priority (qn_event n))" if "n \<in> set (eq_heap q)" for n
  proof -
    have "n = entry_of (qn_event n) (ev_sequence_number (qn_event n))" "issued q (qn_event n)"
      using inv that by (auto simp: queue_inv_def)
    then show ?thesis by (metis entry_of_sel issued_def)
  qed
  with inv show ?thesis by (auto simp: queue_inv_def split: if_splits)
qed

theorem queue_stays_bounded_witness:
  "length (eq_heap busy_queue) \<le> 11 \<and> distinct (map qn_sequence (eq_heap busy_queue))"
  using queue_stays_bounded [OF busy_run] by (simp add: busy_queue_def empty_queue_def)

text \<open>
  C12.  Nothing is accepted twice.  Whatever happens after an event was accepted (further events,
  pops, restored claims, discards, a clear), a later event with its identifier is ignored; and after
  a market evaluation was accepted, every market event with the same or an older version is.
\<close>

theorem accepted_once:
  assumes "queue_run q cl" "event_ok e" "enqueue e internal q = (Inr (Some e'), q1)"
    and "queue_step\<^sup>*\<^sup>* (q1, cl) (q2, cl2)"
  shows "(\<not> is_market_event e \<longrightarrow> (\<forall>(f :: trading_event) j. ev_event_id f = ev_event_id e' \<longrightarrow>
      enqueue f j q2 = (Inr None, q2))) \<and>
    (is_market_event e \<longrightarrow> (\<forall>f j. is_market_event f \<longrightarrow>
      the (ev_market_version f) \<le> the (ev_market_version e) \<longrightarrow> enqueue f j q2 = (Inr None, q2)))"
proof -
  have inv: "queue_inv q cl" by (rule queue_run_inv [OF assms(1)])
  then have pos: "1 \<le> eq_next_sequence q" by (simp add: queue_inv_def)
  note acc = enqueue_accepted [OF assms(3,2) pos]
  have "queue_inv q1 cl" using queue_inv_enqueue [OF inv assms(2), of internal] assms(3) by simp
  with queue_steps_grow [OF assms(4)] have grow: "identities_grow q1 q2" by simp
  obtain c cs where id: "ev_event_id e' = Some (c # cs)"
    using assms(2) pos
  proof (cases rule: enqueue_cases [of e q internal])
    case accepted
    then have "e' = stored_event e internal (eq_next_sequence q)" using assms(3) by simp
    then have "ev_event_id e' = Some (py_or_str (ev_event_id e)
        (show_event_type (ev_type e) @ '':'' @ show_int (eq_next_sequence q)))"
      by (simp add: with_queue_identity_def)
    moreover have "py_or_str i (a @ '':'' @ b) \<noteq> []" for i a b
      by (cases i; cases "the i") (auto simp: py_or_str_def)
    ultimately show thesis using that by (metis neq_Nil_conv)
  qed (use assms(3) in simp_all)
  show ?thesis
  proof (intro conjI impI allI)
    fix f :: trading_event and j
    assume "\<not> is_market_event e" "ev_event_id f = ev_event_id e'"
    with acc grow id show "enqueue f j q2 = (Inr None, q2)"
      by (intro enqueue_seen [of f c cs]) (auto simp: identities_grow_def)
  next
    fix f j
    assume "is_market_event e" "is_market_event f" "the (ev_market_version f) \<le> the (ev_market_version e)"
    with acc grow show "enqueue f j q2 = (Inr None, q2)"
      by (simp add: enqueue_def identities_grow_def Let_def)
  qed
qed

theorem accepted_once_witness:
  "enqueue tick_event True busy_queue = (Inr None, busy_queue)"
proof -
  have "queue_step\<^sup>*\<^sup>* (tick_queue, None) (busy_queue, None)"
    using queue_step.enqueue [of stop_event tick_queue None False] by (simp add: stop_enqueued)
  from accepted_once [OF empty_run sample_events_ok(2) tick_enqueued this] show ?thesis
    by (simp add: is_market_event_def tick_event_def)
qed

text \<open>
  C13.  A claimed event that is restored comes back to its place: right after the pop, the heap is
  exactly the one before the pop, provided no other queued event bears its identifier.
\<close>

theorem restore_undoes_pop:
  assumes "queue_run q cl" "pop_event q = (Some e, q')"
    and "\<forall>n\<in>set (eq_heap q'). ev_event_id (qn_event n) \<noteq> ev_event_id e"
  shows "restore_claimed e q' = (Inr (), q'\<lparr>eq_heap := eq_heap q\<rparr>)"
  by (rule restore_inverse [OF queue_run_inv [OF assms(1)] assms(2,3)])

theorem restore_undoes_pop_witness:
  "\<exists>e q'. pop_event busy_queue = (Some e, q') \<and>
     restore_claimed e q' = (Inr (), q'\<lparr>eq_heap := eq_heap busy_queue\<rparr>)"
proof -
  have "restore_claimed (stop_event\<lparr>ev_sequence_number := 2\<rparr>)
      (tick_queue\<lparr>eq_next_sequence := 3, eq_seen_event_ids := {''tick'', ''stop''}\<rparr>) =
    (Inr (), tick_queue\<lparr>eq_next_sequence := 3, eq_seen_event_ids := {''tick'', ''stop''},
      eq_heap := eq_heap busy_queue\<rparr>)"
    by (subst restore_undoes_pop [OF busy_run busy_pop])
      (simp_all add: tick_queue_def stop_event_def tick_event_def)
  with busy_pop show ?thesis by auto
qed

text \<open>
  Discarding stale market work keeps every confirmed order outcome and every user command,
  drops everything else, reports how many were dropped, and forgets no identity.
\<close>

theorem discard_keeps_outcomes_and_commands:
  "set (eq_heap (snd (discard_market_work q))) =
     {n \<in> set (eq_heap q). ev_type (qn_event n) \<in> set order_outcome_events \<or>
        ev_priority (qn_event n) = USER_COMMAND} \<and>
   fst (discard_market_work q) =
     int (length (eq_heap q)) - int (length (eq_heap (snd (discard_market_work q)))) \<and>
   eq_seen_event_ids (snd (discard_market_work q)) = eq_seen_event_ids q \<and>
   eq_highest_market_version (snd (discard_market_work q)) = eq_highest_market_version q \<and>
   eq_next_sequence (snd (discard_market_work q)) = eq_next_sequence q"
  by (auto simp: discard_market_work_def survives_discard_def Let_def)

section \<open>The processor\<close>

text \<open>
  A call of the processor, whatever it meets (an empty queue, a stale event, an exception of a
  callback, a race), keeps the machine valid and the queue in its invariant, and ends with the
  processing flag reset; so does a whole drain.
\<close>

theorem processor_keeps_invariant:
  assumes "callbacks_ok cb" "stm_ok (pr_stm p)" "queue_inv (pr_queue p) None" "\<not> pr_processing p"
  shows "stm_ok (pr_stm (snd (process_next cb p))) \<and>
    queue_inv (pr_queue (snd (process_next cb p))) None \<and> \<not> pr_processing (snd (process_next cb p)) \<and>
    stm_ok (pr_stm (snd (drain cb n results p))) \<and> queue_inv (pr_queue (snd (drain cb n results p))) None"
proof -
  have "processor_inv None p" using assms(2,3) by (simp add: processor_inv_def)
  from process_next_inv [OF assms(1) this] drain_inv [OF assms(1) this, of n results]
    process_next_flag [OF assms(4)]
  show ?thesis by (simp add: processor_inv_def)
qed

theorem processor_keeps_invariant_witness:
  "queue_inv (pr_queue (snd (process_next script_callbacks
     (script_processor entry_state busy_queue [entry_view, entry_view, entry_view])))) None"
proof -
  let ?p = "script_processor entry_state busy_queue [entry_view, entry_view, entry_view]"
  have "stm_ok (pr_stm ?p)" "queue_inv (pr_queue ?p) None" "\<not> pr_processing ?p"
    using queue_run_inv [OF busy_run] by (simp_all add: script_processor_def)
  from processor_keeps_invariant [OF script_callbacks_ok this] show ?thesis by blast
qed



text \<open>
  The restoration after a race does not cover a market event that the preparer of the controller has
  rewritten: the restore does not recognise it, the call ends with a \<open>ValueError\<close> instead of the
  version conflict, and the event is neither processed nor queued any more.
\<close>

theorem rewritten_event_is_lost_in_race:
  assumes "stm_ok (pr_stm p)" "queue_run (pr_queue p) None" "\<not> pr_processing p"
    and "cb_event_processing_observer cb = None"
    and "cb_event_context_preparer cb = Some f" "f e (pr_world p) = (Inr e', v)"
    and "pop_event (pr_queue p) = (Some e, q)"
    and "\<not> event_same e' e" "\<not> id_seen e' q"
    and "cb_provide_context cb v = (Inr c, w)" "\<not> is_stale_lower_event e' c"
    and "fst (stm_handle (pr_stm p) e' c) = Inr r"
    and "cb_provide_context cb w = (Inr now, w')" "cv_version now \<noteq> cv_version c"
  shows "process_next cb p = (Inl ValueError, p\<lparr>pr_queue := q, pr_world := w'\<rparr>) \<and>
    (\<forall>n\<in>set (eq_heap q). qn_sequence n \<noteq> ev_sequence_number e)"
proof -
  have inv: "processor_inv None p" using assms(1,2) by (simp add: processor_inv_def queue_run_inv)
  have "queue_inv q (Some e)"
    using queue_inv_pop [OF queue_run_inv [OF assms(2)] assms(7)] .
  then have "\<forall>n\<in>set (eq_heap q). qn_sequence n \<noteq> ev_sequence_number e"
    by (force simp: queue_inv_def)
  with race_loses_rewritten_event [OF inv assms(3-14)] show ?thesis by simp
qed

theorem rewritten_event_is_lost_in_race_witness:
  "\<exists>p'. process_next rewriting_callbacks
      (script_processor entry_state market_queue [entry_view, entry_view\<lparr>cv_version := 8\<rparr>]) =
    (Inl ValueError, p') \<and> eq_heap (pr_queue p') = []"
proof -
  let ?p = "script_processor entry_state market_queue [entry_view, entry_view\<lparr>cv_version := 8\<rparr>]"
  let ?e = "market_event\<lparr>ev_sequence_number := 1\<rparr>"
  let ?e' = "?e\<lparr>ev_candle_id := Some ''k1''\<rparr>"
  let ?q = "market_queue\<lparr>eq_heap := [], eq_last_claimed_market := Some ?e\<rparr>"
  obtain r where r: "fst (stm_handle (machine_at entry_state) ?e' entry_view) = Inr r"
    by (rule sample_decides [of entry_state entry_view ?e']) simp_all
  have "process_next rewriting_callbacks ?p =
      (Inl ValueError, ?p\<lparr>pr_queue := ?q, pr_world := ([], [])\<rparr>) \<and>
    (\<forall>n\<in>set (eq_heap ?q). qn_sequence n \<noteq> ev_sequence_number ?e)"
  proof (rule rewritten_event_is_lost_in_race [where c = entry_view and e' = ?e'
        and v = "([entry_view, entry_view\<lparr>cv_version := 8\<rparr>], [])"
        and w = "([entry_view\<lparr>cv_version := 8\<rparr>], [])" and w' = "([], [])"
        and now = "entry_view\<lparr>cv_version := 8\<rparr>" and f = "\<lambda>e w. (Inr (e\<lparr>ev_candle_id := Some ''k1''\<rparr>), w)"])
    show "stm_ok (pr_stm ?p)" "queue_run (pr_queue ?p) None" "\<not> pr_processing ?p"
      "fst (stm_handle (pr_stm ?p) ?e' entry_view) = Inr r"
      using r by (simp_all add: market_run)
    show "pop_event (pr_queue ?p) = (Some ?e, ?q)"
      by (simp add: pop_event_def heappop_def market_queue_def market_event_def
          empty_queue_def)
    show "\<not> event_same ?e' ?e" "\<not> id_seen ?e' ?q" "\<not> is_stale_lower_event ?e' entry_view"
      by (simp_all add: event_same_def id_seen_def is_stale_lower_event_def market_event_def
          market_queue_def empty_queue_def event_at_def basic_event_def)
  qed simp_all
  then show ?thesis by auto
qed

text \<open>
  C15.  What a drain does, for every budget \<open>n\<close>.  It returns exactly when some number of microsteps
  below the budget empties the queue, with the results of these microsteps.  It raises exactly when
  the whole budget was used, each microstep starting from an event, with \<open>RuntimeError\<close>, or when a
  microstep within the budget raises, with that exception; the processor is then where the microsteps
  have brought it.  The budget is checked before the queue: a drain whose last microstep empties the
  queue raises as well.
\<close>

theorem drain_empties_or_raises:
  "(drain cb n results p = (Inr out, p') \<longleftrightarrow>
      (\<exists>k more. k < n \<and> microsteps cb k p more p' \<and> eq_heap (pr_queue p') = [] \<and> out = results @ more)) \<and>
   (drain cb n results p = (Inl err, p') \<longleftrightarrow>
      err = RuntimeError \<and> (\<exists>more. microsteps cb n p more p') \<or>
      (\<exists>k more p1. k < n \<and> microsteps cb k p more p1 \<and> eq_heap (pr_queue p1) \<noteq> [] \<and>
         process_next cb p1 = (Inl err, p')))"
  by (rule conjI [OF drain_returns_iff drain_raises_iff])

theorem drain_empties_or_raises_witness:
  "\<exists>p'. drain script_callbacks 1 [] (script_processor entry_state old_queue [entry_view]) =
      (Inl RuntimeError, p') \<and>
    drain script_callbacks 2 [] (script_processor entry_state old_queue [entry_view]) = (Inr [], p') \<and>
    eq_heap (pr_queue p') = []"
proof -
  let ?p = "script_processor entry_state old_queue [entry_view]"
  let ?q = "?p\<lparr>pr_queue := old_queue\<lparr>eq_heap := []\<rparr>, pr_world := ([], [])\<rparr>"
  have "eq_heap (pr_queue ?p) \<noteq> []" by (simp add: old_queue_def)
  then have step: "microsteps script_callbacks 1 ?p [] ?q" using old_dropped by simp
  have "drain script_callbacks 1 [] ?p = (Inl RuntimeError, ?q)"
    using drain_empties_or_raises [of script_callbacks 1 "[]" ?p "[]" ?q RuntimeError] step by blast
  moreover have "drain script_callbacks 2 [] ?p = (Inr [], ?q)"
    unfolding drain_empties_or_raises [THEN conjunct1]
    by (rule exI [of _ 1], rule exI [of _ "[]"]) (use step in simp)
  ultimately show ?thesis by (intro exI [of _ ?q]) simp
qed

text \<open>
  An event of a lower event that has been replaced is dropped: nothing is decided, nothing is
  executed, and only the claim is gone.  The four events of the session's life are never stale.
\<close>

theorem stale_events_are_dropped:
  assumes "\<not> pr_processing p" "pop_event (pr_queue p) = (Some e, q)"
    and "cb_event_context_preparer cb = None" "cb_event_processing_observer cb = None"
    and "cb_provide_context cb (pr_world p) = (Inr c, w)"
    and "ev_lower_event_id e = Some i" "rt_lower_event_id (cv_runtime c) = Some j" "i \<noteq> j"
    and "ev_type e \<notin> {LOGIC_STARTED, STOP_CONFIRMED, FORCE_SELL_FINISHED, FORCE_SELL_FAILED}"
  shows "process_next cb p = (Inr None, p\<lparr>pr_queue := q, pr_world := w\<rparr>)"
proof -
  have "is_stale_lower_event e c" using assms(6-9) by (simp add: is_stale_lower_event_def)
  from stale_is_dropped [OF assms(1-5) this] show ?thesis .
qed

theorem stale_events_are_dropped_witness:
  "\<exists>p'. process_next script_callbacks (script_processor entry_state old_queue [entry_view]) =
     (Inr None, p') \<and> pr_stm p' = machine_at entry_state \<and> eq_heap (pr_queue p') = []"
proof -
  let ?p = "script_processor entry_state old_queue [entry_view]"
  have "process_next script_callbacks ?p =
      (Inr None, ?p\<lparr>pr_queue := old_queue\<lparr>eq_heap := []\<rparr>, pr_world := ([], [])\<rparr>)"
    by (rule stale_events_are_dropped [where c = entry_view and i = "''w''" and j = "''x''"])
      (simp_all add: old_pop, simp_all add: old_event_def entry_view_def view_of_def)
  then show ?thesis by simp
qed

end
